(* ===== verification/Prelude.thy ===== *)
theory Prelude
  imports Main "HOL-Library.Word"
begin

text \<open>
  The shared ground of the development: the machine-integer types of the Rust sources, the
  arithmetic of the standard library the sources call (checked, saturating and truncating
  operations), big-endian encoding of integers in byte lists, and the generic lemmas on lists
  and words that the component theories use.

  Integers keep their width: \<open>u8\<close>, \<open>u16\<close>, \<open>u32\<close> and \<open>u64\<close> are words, so \<open>+\<close> wraps. A \<open>usize\<close> index or
  length is a \<open>nat\<close>. A Rust array or slice of bytes is a list.
\<close>

unbundle bit_operations_syntax

type_synonym u8 = "8 word"
type_synonym u16 = "16 word"
type_synonym u32 = "32 word"
type_synonym u64 = "64 word"

text \<open>
  Facts that say how an operation acts on an abstract view (\<open>view\<close>), what it leaves alone
  (\<open>frame\<close>) and which invariant it keeps (\<open>inv\<close>) are collected under these names.
\<close>

named_theorems view_simps \<open>effect of an operation on the abstract view of a component\<close>
named_theorems frame_simps \<open>fields an operation leaves unchanged\<close>
named_theorems inv_intros \<open>preservation of a component's invariant\<close>

section \<open>Integer operations of the Rust standard library\<close>

definition checked_add_u32 :: "u32 \<Rightarrow> u32 \<Rightarrow> u32 option" where
  "checked_add_u32 a b = (if unat a + unat b < 2 ^ 32 then Some (a + b) else None)"

definition checked_add_u64 :: "u64 \<Rightarrow> u64 \<Rightarrow> u64 option" where
  "checked_add_u64 a b = (if unat a + unat b < 2 ^ 64 then Some (a + b) else None)"

definition checked_mul_u32 :: "u32 \<Rightarrow> u32 \<Rightarrow> u32 option" where
  "checked_mul_u32 a b = (if unat a * unat b < 2 ^ 32 then Some (a * b) else None)"

definition saturating_add_u32 :: "u32 \<Rightarrow> u32 \<Rightarrow> u32" where
  "saturating_add_u32 a b = (if unat a + unat b < 2 ^ 32 then a + b else -1)"

definition saturating_add_u64 :: "u64 \<Rightarrow> u64 \<Rightarrow> u64" where
  "saturating_add_u64 a b = (if unat a + unat b < 2 ^ 64 then a + b else -1)"

definition saturating_sub_u32 :: "u32 \<Rightarrow> u32 \<Rightarrow> u32" where
  "saturating_sub_u32 a b = (if b \<le> a then a - b else 0)"

lemma unat_lt2p_of: "unat (w :: 'a::len word) < 2 ^ LENGTH('a)"
  by simp

lemma unat_of_nat_less: "n < 2 ^ LENGTH('a) \<Longrightarrow> unat (of_nat n :: 'a::len word) = n"
  by (simp add: unat_of_nat take_bit_nat_eq_self)

lemma unat_ucast_mod:
  "unat (ucast (w :: 'a::len word) :: 'b::len word) = unat w mod 2 ^ LENGTH('b)"
  by (simp add: unsigned_ucast_eq take_bit_eq_mod unsigned_take_bit_eq)

lemma unat_ucast_u32_u64: "unat (ucast (x :: u32) :: u64) = unat x"
proof -
  have "unat x < 2 ^ 64" using unat_lt2p_of [of x] by simp
  then show ?thesis by (simp add: unat_ucast_mod)
qed

lemma unat_dec: "unat w = Suc n \<Longrightarrow> unat (w - 1) = n" for w :: "'a::len word"
  by (metis diff_Suc_1 unat_0 unat_minus_one nat.distinct(1))

lemma unat_inc: "unat w + 1 < 2 ^ LENGTH('a) \<Longrightarrow> unat (w + 1) = Suc (unat w)" for w :: "'a::len word"
  by (simp add: unat_word_ariths)

lemma bit_via_unat: "bit w k \<longleftrightarrow> odd (unat (w :: 'a::len word) div 2 ^ k)"
proof -
  have "bit w k = bit (unat w) k" by (simp add: bit_simps)
  then show ?thesis by (simp add: bit_iff_odd)
qed

lemma and_single_bit: "n < LENGTH('a) \<Longrightarrow> (w AND push_bit n 1 = 0) \<longleftrightarrow> \<not> bit (w :: 'a::len word) n"
  by (simp add: push_bit_eq_mult and_exp_eq_0_iff_not_bit)

lemma word_zero_bits: "(w :: 'a::len word) = 0 \<longleftrightarrow> (\<forall>b. \<not> bit w b)"
  by (auto intro: bit_word_eqI)

lemma checked_add_u32_Some:
  "checked_add_u32 a b = Some c \<longleftrightarrow> unat c = unat a + unat b"
proof
  assume "checked_add_u32 a b = Some c"
  then show "unat c = unat a + unat b"
    by (auto simp: checked_add_u32_def unat_word_ariths split: if_splits)
next
  assume h: "unat c = unat a + unat b"
  then have "unat a + unat b < 2 ^ 32"
    using unat_lt2p_of [of c] by simp
  moreover have "c = a + b"
    by (rule word_unat_eq_iff [THEN iffD2])
       (use h calculation in \<open>simp add: unat_word_ariths\<close>)
  ultimately show "checked_add_u32 a b = Some c"
    by (simp add: checked_add_u32_def)
qed

lemma checked_mul_u32_Some:
  "checked_mul_u32 a b = Some c \<longleftrightarrow> unat c = unat a * unat b"
proof
  assume "checked_mul_u32 a b = Some c"
  then show "unat c = unat a * unat b"
    by (auto simp: checked_mul_u32_def unat_word_ariths split: if_splits)
next
  assume h: "unat c = unat a * unat b"
  then have "unat a * unat b < 2 ^ 32"
    using unat_lt2p_of [of c] by simp
  moreover have "c = a * b"
    by (rule word_unat_eq_iff [THEN iffD2])
       (use h calculation in \<open>simp add: unat_word_ariths\<close>)
  ultimately show "checked_mul_u32 a b = Some c"
    by (simp add: checked_mul_u32_def)
qed

lemma checked_add_u64_Some:
  "checked_add_u64 a b = Some c \<longleftrightarrow> unat c = unat a + unat b"
proof
  assume "checked_add_u64 a b = Some c"
  then show "unat c = unat a + unat b"
    by (auto simp: checked_add_u64_def unat_word_ariths split: if_splits)
next
  assume h: "unat c = unat a + unat b"
  then have "unat a + unat b < 2 ^ 64"
    using unat_lt2p_of [of c] by simp
  moreover have "c = a + b"
    by (rule word_unat_eq_iff [THEN iffD2])
       (use h calculation in \<open>simp add: unat_word_ariths\<close>)
  ultimately show "checked_add_u64 a b = Some c"
    by (simp add: checked_add_u64_def)
qed

section \<open>Big-endian bytes\<close>

text \<open>\<open>u16::from_be_bytes\<close>, \<open>u32::from_be_bytes\<close>, \<open>u64::from_be_bytes\<close> and their inverses.\<close>

definition from_be :: "u8 list \<Rightarrow> 'a::len word" where
  "from_be bs = fold (\<lambda>b acc. push_bit 8 acc OR ucast b) bs 0"

definition to_be :: "nat \<Rightarrow> 'a::len word \<Rightarrow> u8 list" where
  "to_be n w = map (\<lambda>i. ucast (drop_bit (8 * (n - 1 - i)) w)) [0..<n]"

text \<open>\<open>u16::swap_bytes\<close> and \<open>u32::swap_bytes\<close>.\<close>

definition swap_bytes_u16 :: "u16 \<Rightarrow> u16" where
  "swap_bytes_u16 v = from_be (rev (to_be 2 v))"

definition swap_bytes_u32 :: "u32 \<Rightarrow> u32" where
  "swap_bytes_u32 v = from_be (rev (to_be 4 v))"

lemma length_to_be [simp]: "length (to_be n w) = n"
  by (simp add: to_be_def)

lemma from_be_snoc: "(from_be (bs @ [b]) :: 'a::len word) = push_bit 8 (from_be bs) OR ucast b"
  by (simp add: from_be_def)

lemma bit_from_be:
  "bit (from_be bs :: 'a::len word) k \<longleftrightarrow>
     k < LENGTH('a) \<and> k < 8 * length bs \<and> bit (bs ! (length bs - 1 - k div 8)) (k mod 8)"
proof (induction bs arbitrary: k rule: rev_induct)
  case Nil
  show ?case by (simp add: from_be_def)
next
  case (snoc b bs)
  show ?case
  proof (cases "k < 8")
    case True
    then show ?thesis
      by (auto simp: from_be_snoc bit_simps nth_append)
  next
    case False
    then have k: "(k - 8) div 8 = k div 8 - 1" "(k - 8) mod 8 = k mod 8" "1 \<le> k div 8"
      by (auto simp: le_div_geq le_mod_geq div_greater_zero_iff)
    have nb: "\<not> bit b k"
      using False bit_imp_le_length [of b k] by auto
    have idx: "(bs @ [b]) ! (length bs - k div 8) = bs ! (length bs - 1 - (k div 8 - 1))"
      if "k < 8 + 8 * length bs"
    proof -
      have "0 < length bs" using that False by linarith
      then have "length bs - k div 8 < length bs" using k by linarith
      then show ?thesis using k by (simp add: nth_append)
    qed
    show ?thesis
      using False nb idx
      by (auto simp: from_be_snoc bit_simps snoc.IH k)
  qed
qed

lemma nth_to_be:
  "i < n \<Longrightarrow> to_be n w ! i = ucast (drop_bit (8 * (n - 1 - i)) w)"
  by (simp add: to_be_def)

lemma from_be_to_be [simp]:
  assumes "LENGTH('a::len) = 8 * n"
  shows "from_be (to_be n w) = (w :: 'a word)"
proof (rule bit_word_eqI)
  fix k assume k: "k < LENGTH('a)"
  with assms have "k div 8 < n" by (simp add: less_mult_imp_div_less mult.commute)
  then have "8 * (n - 1 - (n - 1 - k div 8)) + k mod 8 = k"
    by simp
  moreover have "k mod 8 < LENGTH(8)"
    by simp
  ultimately show "bit (from_be (to_be n w) :: 'a word) k = bit w k"
    using k assms \<open>k div 8 < n\<close>
    by (simp add: bit_from_be nth_to_be bit_simps add.commute)
qed

lemma to_be_from_be [simp]:
  assumes "LENGTH('a::len) = 8 * n" and "length bs = n"
  shows "to_be n (from_be bs :: 'a word) = bs"
proof (rule nth_equalityI)
  show "length (to_be n (from_be bs :: 'a word)) = length bs"
    using assms by simp
next
  fix i assume "i < length (to_be n (from_be bs :: 'a word))"
  then have i: "i < n" by simp
  show "to_be n (from_be bs :: 'a word) ! i = bs ! i"
  proof (rule bit_word_eqI)
    fix k assume "k < LENGTH(8)"
    then have k: "k < 8" by simp
    then have "(8 * (n - 1 - i) + k) div 8 = n - 1 - i" "(8 * (n - 1 - i) + k) mod 8 = k"
      by simp_all
    moreover have "8 * (n - 1 - i) + k < 8 * n"
      using i k by simp
    moreover have "n - 1 - (n - 1 - i) = i"
      using i by simp
    ultimately show "bit (to_be n (from_be bs :: 'a word) ! i) k = bit (bs ! i) k"
      using i k assms by (simp add: nth_to_be bit_simps bit_from_be add.commute)
  qed
qed

end
