(* ===== verification/Slots.thy ===== *)
theory Slots
  imports Prelude
begin

text \<open>
  The register-slot helpers the native cards share. \<open>hostblk.rs\<close>, \<open>pktport.rs\<close>, \<open>mirage.rs\<close> and
  \<open>input.rs\<close> each carry the same four private functions; they are modelled once here, from
  \<open>hostblk.rs\<close>. A register occupies a four-byte big-endian slot, a one-byte value sits in the
  low-order byte (offset 3) of its slot.
\<close>

(* src/crates/machine-core/src/hostblk.rs:959-962 in_slot *)
definition in_slot :: "u32 \<Rightarrow> u32 \<Rightarrow> bool" where
  "in_slot offset base \<longleftrightarrow> base \<le> offset \<and> offset < base + 4"

(* src/crates/machine-core/src/hostblk.rs:964-973 low_byte *)
definition low_byte :: "u32 \<Rightarrow> u32 \<Rightarrow> u8 \<Rightarrow> u8" where
  "low_byte offset base value = (if offset - base = 3 then value else 0)"

(* src/crates/machine-core/src/hostblk.rs:975-978 byte_of *)
definition byte_of :: "u32 \<Rightarrow> u32 \<Rightarrow> u8" where
  "byte_of value lane = ucast (drop_bit (8 * (3 - unat lane)) value)"

(* src/crates/machine-core/src/hostblk.rs:980-985 set_byte_of *)
definition set_byte_of :: "u32 \<Rightarrow> u32 \<Rightarrow> u8 \<Rightarrow> u32" where
  "set_byte_of value lane byte =
     (let shift = 8 * (3 - unat lane)
      in (value AND NOT (push_bit shift 0xFF)) OR push_bit shift (ucast byte))"

lemma bit_byte_of:
  "bit (byte_of v lane) k \<longleftrightarrow> k < 8 \<and> bit v (8 * (3 - unat lane) + k)"
  by (auto simp: byte_of_def bit_simps add.commute)

lemma u32_byte_mask: "(0xFF :: u32) = mask 8"
  by (simp add: mask_eq_exp_minus_1)

lemma bit_set_byte_of:
  "bit (set_byte_of v lane b) k \<longleftrightarrow> k < 32 \<and>
     (if 8 * (3 - unat lane) \<le> k \<and> k < 8 * (3 - unat lane) + 8
      then bit b (k - 8 * (3 - unat lane)) else bit v k)"
proof -
  have e: "set_byte_of v lane b = (v AND NOT (push_bit (8 * (3 - unat lane)) (mask 8)))
      OR push_bit (8 * (3 - unat lane)) (ucast b)"
    by (simp only: set_byte_of_def Let_def u32_byte_mask)
  have "\<not> bit b j" if "8 \<le> j" for j
    using that bit_imp_le_length [of b j] by auto
  then show ?thesis
    unfolding e
    by (auto simp: bit_simps dest: bit_imp_le_length)
qed

lemma byte_of_set_byte_of:
  assumes "unat lane \<le> 3" "unat lane' \<le> 3"
  shows "byte_of (set_byte_of v lane b) lane' = (if lane = lane' then b else byte_of v lane')"
proof (rule bit_word_eqI)
  fix k assume "k < LENGTH(8)"
  then have k: "k < 8" by simp
  have "8 * (3 - unat lane) \<le> 8 * (3 - unat lane') + k \<and>
      8 * (3 - unat lane') + k < 8 * (3 - unat lane) + 8 \<longleftrightarrow> lane = lane'"
    using assms k by (auto simp: word_unat_eq_iff)
  moreover have "8 * (3 - unat lane') + k < 32" using k by simp
  ultimately show "bit (byte_of (set_byte_of v lane b) lane') k =
      bit (if lane = lane' then b else byte_of v lane') k"
    using k by (auto simp: bit_byte_of bit_set_byte_of)
qed

lemma set_lanes_from_be:
  "set_byte_of (set_byte_of (set_byte_of (set_byte_of v 0 b0) 1 b1) 2 b2) 3 b3
     = from_be [b0, b1, b2, b3]"
proof (rule bit_word_eqI)
  fix k assume "k < LENGTH(32)"
  then have k: "k < 32" by simp
  then consider "k < 8" | "8 \<le> k" "k < 16" | "16 \<le> k" "k < 24" | "24 \<le> k" "k < 32" by linarith
  then show "bit (set_byte_of (set_byte_of (set_byte_of (set_byte_of v 0 b0) 1 b1) 2 b2) 3 b3) k
      = bit (from_be [b0, b1, b2, b3] :: u32) k"
    by cases (simp_all add: bit_set_byte_of bit_from_be le_div_geq le_mod_geq)
qed

lemma byte_of_lanes:
  "[byte_of v 0, byte_of v 1, byte_of v 2, byte_of v 3] = to_be 4 v"
  by (simp add: to_be_def byte_of_def upt_conv_Cons)

lemma byte_of_lanes_from_be:
  "from_be [byte_of v 0, byte_of v 1, byte_of v 2, byte_of v 3] = (v :: u32)"
  unfolding byte_of_lanes by simp

lemma in_slot_lane3: "in_slot offset base \<and> offset - base = 3 \<longleftrightarrow> offset = base + 3"
  if "base < 0xFFFFFF00" for base :: u32
proof -
  have "unat (base + 3) = unat base + 3" "unat (base + 4) = unat base + 4"
    using that by (simp_all add: unat_word_ariths word_less_nat_alt)
  then have "in_slot (base + 3) base"
    by (simp add: in_slot_def word_le_nat_alt word_less_nat_alt)
  then show ?thesis by (auto simp: algebra_simps)
qed

end
