(* ===== verification/AutoConfig.thy ===== *)
theory AutoConfig
  imports Slots
begin

text \<open>
  The Zorro AUTOCONFIG chain of \<open>crates/machine-core/src/autoconfig.rs\<close> and the fast-RAM board of
  \<open>fastram.rs\<close> that joins it. Boards wait in an array; the one at index \<open>current\<close> answers in the window
  \<open>$E80000-$E8FFFF\<close> with a nibble-encoded, complemented identity ROM until the guest writes a base
  address or the shut-up register. Shown: the protocol the guest reads recovers every identity
  field, every operation keeps the chain well formed and never moves a placed board, a whole chain
  configured in turn ends with every board at the requested base, and the size codes of the
  fast-RAM board are the smallest that hold the requested size.
\<close>

section \<open>Constants and data\<close>

(* src/crates/machine-core/src/lib.rs:98-100 OPEN_BUS_BYTE *)
definition OPEN_BUS_BYTE :: u8 where [simp]: "OPEN_BUS_BYTE = 0xFF"

(* src/crates/machine-core/src/autoconfig.rs:53-53 AUTOCONFIG_BASE *)
definition AUTOCONFIG_BASE :: u32 where [simp]: "AUTOCONFIG_BASE = 0x00E80000"

(* src/crates/machine-core/src/autoconfig.rs:54-54 AUTOCONFIG_END *)
definition AUTOCONFIG_END :: u32 where [simp]: "AUTOCONFIG_END = AUTOCONFIG_BASE + 0x00010000"

(* src/crates/machine-core/src/autoconfig.rs:57-57 ERT_ZORROII *)
definition ERT_ZORROII :: u8 where [simp]: "ERT_ZORROII = 0xC0"

(* src/crates/machine-core/src/autoconfig.rs:58-58 ERT_ZORROIII *)
definition ERT_ZORROIII :: u8 where [simp]: "ERT_ZORROIII = 0x80"

(* src/crates/machine-core/src/autoconfig.rs:60-62 ERTF_MEMLIST *)
definition ERTF_MEMLIST :: u8 where [simp]: "ERTF_MEMLIST = 0x20"

(* src/crates/machine-core/src/autoconfig.rs:63-65 ERTF_DIAGVALID *)
definition ERTF_DIAGVALID :: u8 where [simp]: "ERTF_DIAGVALID = 0x10"

(* src/crates/machine-core/src/autoconfig.rs:73-74 ec::Z3_BASEADDRESS *)
definition EC_Z3_BASEADDRESS :: u32 where [simp]: "EC_Z3_BASEADDRESS = 0x44"

(* src/crates/machine-core/src/autoconfig.rs:75-76 ec::BASEADDRESS *)
definition EC_BASEADDRESS :: u32 where [simp]: "EC_BASEADDRESS = 0x48"

(* src/crates/machine-core/src/autoconfig.rs:77-78 ec::BASEADDRESS_LO *)
definition EC_BASEADDRESS_LO :: u32 where [simp]: "EC_BASEADDRESS_LO = 0x4A"

(* src/crates/machine-core/src/autoconfig.rs:79-80 ec::SHUTUP *)
definition EC_SHUTUP :: u32 where [simp]: "EC_SHUTUP = 0x4C"

(* src/crates/machine-core/src/autoconfig.rs:83-86 MAX_BOARDS *)
definition MAX_BOARDS :: nat where [simp]: "MAX_BOARDS = 8"

(* src/crates/machine-core/src/autoconfig.rs:287-288 AUTOCONFIG_ROM_BYTES *)
definition AUTOCONFIG_ROM_BYTES :: nat where [simp]: "AUTOCONFIG_ROM_BYTES = 16"

(* src/crates/machine-core/src/autoconfig.rs:88-112 BoardSpec *)
record board_spec =
  board_type :: u8
  product :: u8
  flags :: u8
  manufacturer :: u16
  serial :: u32
  init_diag_vec :: u16
  size_bytes :: u32

(* src/crates/machine-core/src/autoconfig.rs:114-119 Configured *)
record configured =
  cfg_base :: u32
  cfg_size_bytes :: u32

(* src/crates/machine-core/src/autoconfig.rs:121-135 AutoConfig *)
record autoconfig =
  ac_specs :: "board_spec option list"
  ac_placed :: "configured option list"
  ac_current :: nat
  ac_z3_base_hi :: "u8 option"

section \<open>Operations\<close>

(* src/crates/machine-core/src/autoconfig.rs:144-151 AutoConfig::new *)
definition ac_new :: autoconfig where
  "ac_new = \<lparr>ac_specs = replicate MAX_BOARDS None, ac_placed = replicate MAX_BOARDS None,
     ac_current = 0, ac_z3_base_hi = None\<rparr>"

text \<open>\<open>slice.iter().position(|s| s.is_none())\<close>\<close>

fun position_none :: "'a option list \<Rightarrow> nat option" where
  "position_none [] = None"
| "position_none (None # xs) = Some 0"
| "position_none (Some y # xs) = map_option Suc (position_none xs)"

text \<open>\<open>slice.get(i).copied().flatten()\<close> on a slice of options.\<close>

definition get_flat :: "'a option list \<Rightarrow> nat \<Rightarrow> 'a option" where
  "get_flat xs i = (if i < length xs then xs ! i else None)"

(* src/crates/machine-core/src/autoconfig.rs:153-159 AutoConfig::add_board *)
definition add_board :: "autoconfig \<Rightarrow> board_spec \<Rightarrow> autoconfig \<times> nat option" where
  "add_board ac spec =
     (case position_none (ac_specs ac) of
        None \<Rightarrow> (ac, None)
      | Some idx \<Rightarrow> (ac\<lparr>ac_specs := (ac_specs ac)[idx := Some spec]\<rparr>, Some idx))"

(* src/crates/machine-core/src/autoconfig.rs:161-164 AutoConfig::placement *)
definition placement :: "autoconfig \<Rightarrow> nat \<Rightarrow> configured option" where
  "placement ac index = get_flat (ac_placed ac) index"

(* src/crates/machine-core/src/autoconfig.rs:168-171 AutoConfig::board_at *)
definition claims :: "u32 \<Rightarrow> configured option \<Rightarrow> bool" where
  "claims address slot =
     (case slot of
        None \<Rightarrow> False
      | Some p \<Rightarrow> address \<ge> cfg_base p \<and> address - cfg_base p < cfg_size_bytes p)"

(* src/crates/machine-core/src/autoconfig.rs:166-172 AutoConfig::board_at *)
definition board_at :: "autoconfig \<Rightarrow> u32 \<Rightarrow> nat option" where
  "board_at ac address = find (\<lambda>i. claims address (ac_placed ac ! i)) [0..<MAX_BOARDS]"

(* src/crates/machine-core/src/autoconfig.rs:174-177 AutoConfig::responds_to *)
definition ac_responds_to :: "u32 \<Rightarrow> bool" where
  "ac_responds_to address \<longleftrightarrow> AUTOCONFIG_BASE \<le> address \<and> address < AUTOCONFIG_END"

(* src/crates/machine-core/src/autoconfig.rs:267-285 rom_bytes *)
definition rom_bytes :: "board_spec \<Rightarrow> u8 list" where
  "rom_bytes spec =
     [board_type spec, product spec, flags spec, 0]
     @ to_be 2 (manufacturer spec) @ to_be 4 (serial spec) @ to_be 2 (init_diag_vec spec)
     @ [0, 0, 0, 0]"

(* src/crates/machine-core/src/autoconfig.rs:244-248 AutoConfig::current_spec *)
definition current_spec :: "autoconfig \<Rightarrow> board_spec option" where
  "current_spec ac = get_flat (ac_specs ac) (ac_current ac)"

(* src/crates/machine-core/src/autoconfig.rs:259-264 AutoConfig::advance *)
definition advance :: "autoconfig \<Rightarrow> autoconfig" where
  "advance ac = ac\<lparr>ac_current := ac_current ac + 1, ac_z3_base_hi := None\<rparr>"

(* src/crates/machine-core/src/autoconfig.rs:250-257 AutoConfig::configure *)
definition configure :: "autoconfig \<Rightarrow> board_spec \<Rightarrow> u32 \<Rightarrow> autoconfig" where
  "configure ac spec base =
     advance (ac\<lparr>ac_placed := (ac_placed ac)[ac_current ac :=
       Some \<lparr>cfg_base = base, cfg_size_bytes = size_bytes spec\<rparr>]\<rparr>)"

(* src/crates/machine-core/src/autoconfig.rs:179-208 AutoConfig::read *)
definition ac_read :: "autoconfig \<Rightarrow> u32 \<Rightarrow> u8" where
  "ac_read ac address =
     (case current_spec ac of
        None \<Rightarrow> OPEN_BUS_BYTE
      | Some spec \<Rightarrow>
          let off = address - AUTOCONFIG_BASE in
          if off AND 1 \<noteq> 0 then OPEN_BUS_BYTE
          else
            let byte_idx = unat (off div 4) in
            if byte_idx \<ge> AUTOCONFIG_ROM_BYTES then OPEN_BUS_BYTE
            else
              let logical = rom_bytes spec ! byte_idx;
                  physical = (if byte_idx = 0 then logical else NOT logical);
                  nibble = (if off AND 2 = 0 then drop_bit 4 physical else physical AND 0x0F)
              in push_bit 4 nibble)"

(* src/crates/machine-core/src/autoconfig.rs:210-242 AutoConfig::write *)
definition ac_write :: "autoconfig \<Rightarrow> u32 \<Rightarrow> u8 \<Rightarrow> autoconfig" where
  "ac_write ac address value =
     (case current_spec ac of
        None \<Rightarrow> ac
      | Some spec \<Rightarrow>
          let off = address - AUTOCONFIG_BASE;
              is_zorro_ii = (board_type spec AND 0xC0 = ERT_ZORROII);
              is_zorro_iii = (board_type spec AND 0xC0 = ERT_ZORROIII)
          in if off = EC_Z3_BASEADDRESS \<and> is_zorro_iii then
               ac\<lparr>ac_z3_base_hi := Some value\<rparr>
             else if off = EC_Z3_BASEADDRESS + 1 \<and> is_zorro_iii then
               (case ac_z3_base_hi ac of
                  None \<Rightarrow> ac
                | Some hi \<Rightarrow>
                    configure (ac\<lparr>ac_z3_base_hi := None\<rparr>) spec
                      (push_bit 24 (ucast hi) OR push_bit 16 (ucast value)))
             else if off = EC_BASEADDRESS \<and> is_zorro_ii then
               configure ac spec (push_bit 16 (ucast value))
             else if off = EC_BASEADDRESS_LO then ac
             else if off = EC_SHUTUP then advance ac
             else ac)"

section \<open>The identity ROM as the guest reads it\<close>

text \<open>
  \<open>expansion.library\<close> reads logical byte \<open>n\<close> from the two physical addresses \<open>4n\<close> and \<open>4n + 2\<close>, one
  nibble in the top four bits of each, and complements every byte but the first. \<open>guest_rom_byte\<close>
  is that reader.
\<close>

definition guest_rom_byte :: "autoconfig \<Rightarrow> nat \<Rightarrow> u8" where
  "guest_rom_byte ac n =
     (let hi = ac_read ac (AUTOCONFIG_BASE + of_nat (4 * n));
          lo = ac_read ac (AUTOCONFIG_BASE + of_nat (4 * n + 2));
          raw = (hi AND 0xF0) OR drop_bit 4 lo
      in if n = 0 then raw else NOT raw)"

definition guest_spec :: "autoconfig \<Rightarrow> u8 \<times> u8 \<times> u8 \<times> u16 \<times> u32 \<times> u16" where
  "guest_spec ac =
     (let rom = map (guest_rom_byte ac) [0..<16]
      in (rom ! 0, rom ! 1, rom ! 2, from_be (take 2 (drop 4 rom)),
          from_be (take 4 (drop 6 rom)), from_be (take 2 (drop 10 rom))))"

lemma length_rom_bytes [simp]: "length (rom_bytes spec) = 16"
  by (simp add: rom_bytes_def)

lemma nibbles_join: "(push_bit 4 (drop_bit 4 p) AND 0xF0) OR drop_bit 4 (push_bit 4 (p AND 0x0F)) = (p :: u8)"
proof -
  have m: "(0xF0 :: u8) = push_bit 4 (mask 4)" "(0x0F :: u8) = mask 4"
    by (simp_all add: mask_eq_exp_minus_1)
  show ?thesis
    unfolding m by (rule bit_word_eqI) (auto simp: bit_simps)
qed

lemma ac_read_nibble:
  assumes "current_spec ac = Some spec" "n < 16"
  shows "ac_read ac (AUTOCONFIG_BASE + of_nat (4 * n)) =
      push_bit 4 (drop_bit 4 (if n = 0 then rom_bytes spec ! n else NOT (rom_bytes spec ! n)))"
    and "ac_read ac (AUTOCONFIG_BASE + of_nat (4 * n + 2)) =
      push_bit 4 ((if n = 0 then rom_bytes spec ! n else NOT (rom_bytes spec ! n)) AND 0x0F)"
proof -
  define o1 o2 :: u32 where "o1 = of_nat (4 * n)" and "o2 = of_nat (4 * n + 2)"
  have u: "unat o1 = 4 * n" "unat o2 = 4 * n + 2"
    unfolding o1_def o2_def using assms by (subst unat_of_nat_less; simp)+
  have d: "unat (o1 div 4) = n" "unat (o2 div 4) = n"
    by (simp_all add: unat_div u)
  have "o1 AND 1 = 0" "o2 AND 1 = 0"
    by (simp_all add: and_one_eq o1_def o2_def flip: even_iff_mod_2_eq_zero)
  moreover have "o1 AND 2 = 0" "o2 AND 2 \<noteq> 0"
  proof -
    have b: "bit o1 1 = odd (unat o1 div 2)" "bit o2 1 = odd (unat o2 div 2)"
      by (simp_all add: bit_via_unat)
    have two: "(2 :: u32) = push_bit 1 1" by simp
    have "o1 AND 2 = (if bit o1 1 then 2 else 0)" "o2 AND 2 = (if bit o2 1 then 2 else 0)"
      unfolding two by (auto intro!: bit_word_eqI simp: bit_simps)
    then show "o1 AND 2 = 0" "o2 AND 2 \<noteq> 0" using b by (simp_all add: u)
  qed
  ultimately show
    "ac_read ac (AUTOCONFIG_BASE + of_nat (4 * n)) =
      push_bit 4 (drop_bit 4 (if n = 0 then rom_bytes spec ! n else NOT (rom_bytes spec ! n)))"
    "ac_read ac (AUTOCONFIG_BASE + of_nat (4 * n + 2)) =
      push_bit 4 ((if n = 0 then rom_bytes spec ! n else NOT (rom_bytes spec ! n)) AND 0x0F)"
    using assms d
    by (simp_all only: ac_read_def o1_def [symmetric] o2_def [symmetric])
       (simp_all add: Let_def)
qed

lemma guest_rom_byte_eq:
  assumes "current_spec ac = Some spec" "n < 16"
  shows "guest_rom_byte ac n = rom_bytes spec ! n"
  unfolding guest_rom_byte_def Let_def ac_read_nibble [OF assms] nibbles_join by simp

text \<open>Decoding the nibble-encoded, complemented configuration window the way
  expansion.library does recovers every identity field of the board that currently answers: type,
  product, flags, manufacturer, serial number and DiagArea vector.\<close>

lemma autoconfig_identity_round_trip:
  assumes "current_spec ac = Some spec"
  shows "guest_spec ac = (board_type spec, product spec, flags spec, manufacturer spec,
      serial spec, init_diag_vec spec)"
proof -
  have "map (guest_rom_byte ac) [0..<16] = rom_bytes spec"
    by (rule nth_equalityI) (simp_all add: guest_rom_byte_eq [OF assms])
  then show ?thesis
    by (simp add: guest_spec_def Let_def rom_bytes_def)
qed

section \<open>The chain invariant\<close>

definition ac_inv :: "autoconfig \<Rightarrow> bool" where
  "ac_inv ac \<longleftrightarrow>
     length (ac_specs ac) = MAX_BOARDS \<and> length (ac_placed ac) = MAX_BOARDS \<and>
     ac_current ac \<le> MAX_BOARDS \<and>
     (\<forall>j < MAX_BOARDS. ac_specs ac ! j \<noteq> None \<longrightarrow> (\<forall>i < j. ac_specs ac ! i \<noteq> None)) \<and>
     (\<forall>i < ac_current ac. ac_specs ac ! i \<noteq> None) \<and>
     (\<forall>i < MAX_BOARDS. \<forall>c. ac_placed ac ! i = Some c \<longrightarrow>
        i < ac_current ac \<and>
        (\<exists>s. ac_specs ac ! i = Some s \<and> cfg_size_bytes c = size_bytes s)) \<and>
     (ac_z3_base_hi ac \<noteq> None \<longrightarrow>
        (\<exists>s. current_spec ac = Some s \<and> board_type s AND 0xC0 = ERT_ZORROIII))"

datatype ac_op = AddBoard board_spec | ReadByte u32 | WriteByte u32 u8

fun ac_step :: "autoconfig \<Rightarrow> ac_op \<Rightarrow> autoconfig" where
  "ac_step ac (AddBoard spec) = fst (add_board ac spec)"
| "ac_step ac (ReadByte address) = ac"
| "ac_step ac (WriteByte address value) = ac_write ac address value"

lemma position_none_Some:
  "position_none xs = Some i \<Longrightarrow> i < length xs \<and> xs ! i = None \<and> (\<forall>j < i. xs ! j \<noteq> None)"
  by (induction xs arbitrary: i rule: position_none.induct)
     (auto simp: nth_Cons' less_Suc_eq_0_disj split: if_splits)

lemma position_none_None: "position_none xs = None \<longleftrightarrow> None \<notin> set xs"
  by (induction xs rule: position_none.induct) auto

lemma ac_inv_new [inv_intros]: "ac_inv ac_new"
  by (simp add: ac_inv_def ac_new_def)

lemma ac_inv_add_board [inv_intros]:
  assumes "ac_inv ac"
  shows "ac_inv (fst (add_board ac spec))"
proof (cases "position_none (ac_specs ac)")
  case (Some idx)
  from position_none_Some [OF this] have p: "idx < length (ac_specs ac)" "ac_specs ac ! idx = None"
    "\<forall>j < idx. ac_specs ac ! j \<noteq> None" by auto
  have "\<not> idx < ac_current ac" using p assms by (auto simp: ac_inv_def)
  moreover have "ac_placed ac ! idx = None"
    using p assms by (cases "ac_placed ac ! idx") (auto simp: ac_inv_def)
  moreover have "ac_current ac \<noteq> idx" if "ac_z3_base_hi ac \<noteq> None"
    using that p assms by (auto simp: ac_inv_def current_spec_def get_flat_def split: if_splits)
  moreover have "ac_specs ac ! j = None" if "idx \<le> j" "j < 8" for j
  proof (rule ccontr)
    assume "ac_specs ac ! j \<noteq> None"
    moreover have "\<forall>j < MAX_BOARDS. ac_specs ac ! j \<noteq> None \<longrightarrow> (\<forall>i < j. ac_specs ac ! i \<noteq> None)"
      using assms unfolding ac_inv_def by blast
    moreover have "j < MAX_BOARDS" using that by simp
    ultimately show False
      using that p(2) by (metis le_neq_implies_less)
  qed
  ultimately show ?thesis
    using p Some assms
    unfolding add_board_def ac_inv_def current_spec_def get_flat_def
    by (auto simp: nth_list_update)
qed (use assms in \<open>simp add: add_board_def\<close>)

lemma current_spec_SomeD:
  "ac_inv ac \<Longrightarrow> current_spec ac = Some s \<Longrightarrow> ac_current ac < 8 \<and> ac_specs ac ! ac_current ac = Some s"
  by (auto simp: ac_inv_def current_spec_def get_flat_def split: if_splits)

lemma ac_inv_advance:
  assumes "ac_inv ac" "current_spec ac = Some s"
  shows "ac_inv (advance ac)"
  using assms(1) current_spec_SomeD [OF assms]
  unfolding ac_inv_def advance_def by (auto simp: less_Suc_eq)

lemma ac_inv_configure:
  assumes "ac_inv ac" "current_spec ac = Some s"
  shows "ac_inv (configure ac s base)"
  using assms(1) current_spec_SomeD [OF assms]
  unfolding ac_inv_def configure_def advance_def
  by (auto simp: less_Suc_eq nth_list_update split: if_splits)

lemma ac_inv_latch:
  "ac_inv ac \<Longrightarrow> ac_inv (ac\<lparr>ac_z3_base_hi := None\<rparr>)"
  "ac_inv ac \<Longrightarrow> current_spec ac = Some s \<Longrightarrow> board_type s AND 0xC0 = ERT_ZORROIII \<Longrightarrow>
    ac_inv (ac\<lparr>ac_z3_base_hi := Some v\<rparr>)"
  by (auto simp: ac_inv_def current_spec_def get_flat_def)

lemma ac_inv_write [inv_intros]: "ac_inv ac \<Longrightarrow> ac_inv (ac_write ac address v)"
  unfolding ac_write_def Let_def
  by (auto split: option.split intro!: ac_inv_configure ac_inv_advance ac_inv_latch
      simp: current_spec_def)

lemma ac_inv_step [inv_intros]: "ac_inv ac \<Longrightarrow> ac_inv (ac_step ac x)"
  by (cases x) (simp_all add: inv_intros)

lemma ac_inv_run [inv_intros]: "ac_inv ac \<Longrightarrow> ac_inv (foldl ac_step ac ops)"
  by (induction ops arbitrary: ac) (simp_all add: inv_intros)

text \<open>An operation changes no slot of \<open>placed\<close> but the current one, and that one is empty.\<close>

lemma placed_write:
  "ac_placed (ac_write ac address v) = ac_placed ac \<or>
     (\<exists>c. ac_placed (ac_write ac address v) = (ac_placed ac)[ac_current ac := Some c])"
  by (auto simp: ac_write_def Let_def configure_def advance_def split: option.split)

lemma placement_step:
  assumes "ac_inv ac" "placement ac i = Some c"
  shows "placement (ac_step ac x) i = Some c"
proof (cases x)
  case (AddBoard spec)
  then show ?thesis
    using assms by (simp add: placement_def add_board_def split: option.split)
next
  case (WriteByte address v)
  have "i < ac_current ac"
    using assms by (auto simp: ac_inv_def placement_def get_flat_def split: if_splits)
  then show ?thesis
    using assms placed_write [of ac address v] WriteByte
    by (auto simp: placement_def get_flat_def split: if_splits)
qed (use assms in simp)

lemma placement_run:
  "ac_inv ac \<Longrightarrow> placement ac i = Some c \<Longrightarrow> placement (foldl ac_step ac ops) i = Some c"
  by (induction ops arbitrary: ac) (simp_all add: inv_intros placement_step)

text \<open>From a new chain, any interleaving of board registrations, window reads and
  window writes keeps the chain well formed (array bounds, no holes, a board placed only after its
  turn and with its own size, the Zorro III latch only while a Zorro III board answers), and a board
  once placed is never moved, resized or removed by what follows.\<close>

lemma autoconfig_placement_stable:
  "ac_inv (foldl ac_step ac_new ops) \<and>
   (placement (foldl ac_step ac_new ops) i = Some c \<longrightarrow>
      placement (foldl ac_step ac_new (ops @ rest)) i = Some c)"
  by (simp add: inv_intros placement_run)

section \<open>Routing\<close>

lemma find_upt_Some:
  "find P [0..<n] = Some i \<longleftrightarrow> i < n \<and> P i \<and> (\<forall>j < i. \<not> P j)"
  by (auto simp: find_Some_iff)

lemma claims_iff:
  "claims a (Some p) \<longleftrightarrow>
     unat (cfg_base p) \<le> unat a \<and> unat a < unat (cfg_base p) + unat (cfg_size_bytes p)"
proof (cases "cfg_base p \<le> a")
  case True
  then have "unat (a - cfg_base p) = unat a - unat (cfg_base p)"
    by (rule unat_sub)
  then show ?thesis
    using True by (auto simp: claims_def word_le_nat_alt word_less_nat_alt)
qed (auto simp: claims_def word_le_nat_alt)

definition covers :: "autoconfig \<Rightarrow> u32 \<Rightarrow> nat \<Rightarrow> bool" where
  "covers ac a i \<longleftrightarrow> (case placement ac i of None \<Rightarrow> False
     | Some p \<Rightarrow> unat (cfg_base p) \<le> unat a \<and> unat a < unat (cfg_base p) + unat (cfg_size_bytes p))"

text \<open>The bus's routing query \<open>board_at\<close> answers exactly when some configured board
  covers the address, as an interval of natural numbers (no wrap-around at the top of the address
  space), and it answers the earliest board in the chain that does.\<close>

lemma board_at_correct:
  assumes "length (ac_placed ac) = MAX_BOARDS"
  shows "(board_at ac a = Some i \<longleftrightarrow> covers ac a i \<and> (\<forall>j < i. \<not> covers ac a j)) \<and>
    (board_at ac a = None \<longleftrightarrow> (\<forall>i. \<not> covers ac a i))"
proof -
  have c: "claims a (ac_placed ac ! i) = covers ac a i" if "i < 8" for i
    unfolding covers_def placement_def get_flat_def
    using that assms claims_iff [of a] by (cases "ac_placed ac ! i") (auto simp: claims_def)
  have big: "\<not> covers ac a i" if "8 \<le> i" for i
    using that assms by (simp add: covers_def placement_def get_flat_def)
  show ?thesis
  proof (intro conjI)
    show "board_at ac a = Some i \<longleftrightarrow> covers ac a i \<and> (\<forall>j < i. \<not> covers ac a j)"
      unfolding board_at_def MAX_BOARDS_def find_upt_Some
      using c big by (cases "i < 8") (auto simp: not_less)
    show "board_at ac a = None \<longleftrightarrow> (\<forall>i. \<not> covers ac a i)"
      unfolding board_at_def MAX_BOARDS_def find_None_iff
      using c big by (metis atLeastLessThan_iff atLeastLessThan_upt bot_nat_0.extremum linorder_not_le)
  qed
qed

section \<open>Configuring a whole chain\<close>

text \<open>
  What the guest writes to give the answering board the base whose address lines A31-A16 are \<open>pg\<close>:
  two byte writes for a Zorro III board, the inert low nibble and then the base byte for a
  Zorro II board.
\<close>

definition guest_configure :: "u16 \<Rightarrow> autoconfig \<Rightarrow> autoconfig" where
  "guest_configure pg ac =
     (case current_spec ac of
        None \<Rightarrow> ac
      | Some spec \<Rightarrow>
          if board_type spec AND 0xC0 = ERT_ZORROIII then
            ac_write (ac_write ac (AUTOCONFIG_BASE + 0x44) (ucast (drop_bit 8 pg)))
              (AUTOCONFIG_BASE + 0x45) (ucast pg)
          else
            ac_write (ac_write ac (AUTOCONFIG_BASE + 0x4A) 0) (AUTOCONFIG_BASE + 0x48) (ucast pg))"

definition page_base :: "u16 \<Rightarrow> u32" where
  "page_base pg = push_bit 16 (ucast pg)"

definition zorro_fits :: "board_spec \<Rightarrow> u16 \<Rightarrow> bool" where
  "zorro_fits spec pg \<longleftrightarrow> board_type spec AND 0xC0 = ERT_ZORROIII \<or>
     board_type spec AND 0xC0 = ERT_ZORROII \<and> pg < 0x100"

lemma page_base_bytes:
  "push_bit 24 (ucast (ucast (drop_bit 8 pg) :: u8)) OR push_bit 16 (ucast (ucast pg :: u8)) = page_base pg"
proof (rule bit_word_eqI)
  fix k assume "k < LENGTH(32)"
  then have k: "k < 32" by simp
  have "\<not> bit pg j" if "16 \<le> j" for j using that bit_imp_le_length [of pg j] by auto
  then show "bit (push_bit 24 (ucast (ucast (drop_bit 8 pg) :: u8)) OR
      push_bit 16 (ucast (ucast pg :: u8)) :: u32) k = bit (page_base pg) k"
    using k by (auto simp: page_base_def bit_simps)
qed

lemma page_base_low: "pg < 0x100 \<Longrightarrow> push_bit 16 (ucast (ucast pg :: u8)) = page_base pg"
proof -
  assume "pg < 0x100"
  then have "unat pg < 256" by (simp add: word_less_nat_alt)
  then have "ucast (ucast pg :: u8) = (ucast pg :: u32)"
    by (intro word_unat_eq_iff [THEN iffD2]) (simp add: unat_ucast_mod)
  then show ?thesis by (simp add: page_base_def)
qed

lemma guest_configure_places:
  assumes "current_spec ac = Some spec" "zorro_fits spec pg"
  shows "guest_configure pg ac = configure ac spec (page_base pg)"
  using assms
  by (auto simp: guest_configure_def zorro_fits_def ac_write_def current_spec_def configure_def
      advance_def page_base_bytes page_base_low)

definition add_boards :: "board_spec list \<Rightarrow> autoconfig" where
  "add_boards bs = foldl (\<lambda>ac s. fst (add_board ac s)) ac_new bs"

lemma position_none_prefix: "position_none (map Some xs @ None # ys) = Some (length xs)"
  by (induction xs) auto

lemma add_boards_state:
  "length bs \<le> 8 \<Longrightarrow> add_boards bs =
     ac_new\<lparr>ac_specs := map Some bs @ replicate (8 - length bs) None\<rparr>"
proof (induction bs rule: rev_induct)
  case Nil
  then show ?case by (simp add: add_boards_def ac_new_def)
next
  case (snoc b bs)
  then have n: "8 - length bs = Suc (8 - length (bs @ [b]))" by simp
  have "add_boards (bs @ [b]) = fst (add_board (add_boards bs) b)"
    by (simp add: add_boards_def)
  also have "\<dots> = ac_new\<lparr>ac_specs := map Some (bs @ [b]) @ replicate (8 - length (bs @ [b])) None\<rparr>"
    using snoc unfolding n
    by (simp add: add_board_def position_none_prefix list_update_append)
  finally show ?case .
qed

lemma configure_chain_state:
  assumes "length bs \<le> 8" "length pgs \<le> length bs" "\<forall>i < length pgs. zorro_fits (bs ! i) (pgs ! i)"
  shows "foldl (\<lambda>ac pg. guest_configure pg ac) (add_boards bs) pgs =
    (add_boards bs)\<lparr>ac_current := length pgs,
      ac_placed := map (\<lambda>i. Some \<lparr>cfg_base = page_base (pgs ! i), cfg_size_bytes = size_bytes (bs ! i)\<rparr>)
        [0..<length pgs] @ replicate (8 - length pgs) None\<rparr>"
  using assms(2,3)
proof (induction pgs rule: rev_induct)
  case Nil
  then show ?case using assms by (simp add: add_boards_state ac_new_def)
next
  case (snoc pg pgs)
  let ?ac = "foldl (\<lambda>ac pg. guest_configure pg ac) (add_boards bs) pgs"
  have l: "length pgs < length bs" "8 - length pgs = Suc (8 - length (pgs @ [pg]))"
    using snoc.prems assms(1) by auto
  have f: "\<forall>i < length pgs. zorro_fits (bs ! i) (pgs ! i)" "zorro_fits (bs ! length pgs) pg"
    using snoc.prems(2) by (auto simp: nth_append less_Suc_eq all_conj_distrib)
  have IH: "?ac = (add_boards bs)\<lparr>ac_current := length pgs,
      ac_placed := map (\<lambda>i. Some \<lparr>cfg_base = page_base (pgs ! i), cfg_size_bytes = size_bytes (bs ! i)\<rparr>)
        [0..<length pgs] @ replicate (8 - length pgs) None\<rparr>"
    using snoc.IH snoc.prems f by simp
  have "current_spec ?ac = Some (bs ! length pgs)"
    unfolding IH using l assms(1)
    by (simp add: current_spec_def get_flat_def add_boards_state nth_append)
  then have "foldl (\<lambda>ac pg. guest_configure pg ac) (add_boards bs) (pgs @ [pg]) =
      configure ?ac (bs ! length pgs) (page_base pg)"
    using f by (simp add: guest_configure_places)
  then show ?case
    using assms(1) l unfolding IH
    by (simp add: configure_def advance_def add_boards_state ac_new_def list_update_append nth_append)
qed

definition configure_all :: "board_spec list \<Rightarrow> u16 list \<Rightarrow> autoconfig" where
  "configure_all bs pgs = foldl (\<lambda>ac pg. guest_configure pg ac) (add_boards bs) pgs"

text \<open>C10 [functional]: Registering up to eight Zorro II or III boards and giving each a base in turn
  places every board at the requested base with its declared size, in registration order, after
  which the chain is exhausted and every window read is open bus.\<close>

theorem autoconfig_chain_configures:
  assumes "length bs \<le> MAX_BOARDS" "length pgs = length bs"
    and "\<forall>i < length bs. zorro_fits (bs ! i) (pgs ! i)"
  shows "(\<forall>i < length bs. placement (configure_all bs pgs) i =
      Some \<lparr>cfg_base = page_base (pgs ! i), cfg_size_bytes = size_bytes (bs ! i)\<rparr>) \<and>
    (\<forall>i \<ge> length bs. placement (configure_all bs pgs) i = None) \<and> current_spec (configure_all bs pgs) = None \<and>
    (\<forall>a. ac_read (configure_all bs pgs) a = OPEN_BUS_BYTE)"
proof -
  have st: "configure_all bs pgs = (add_boards bs)\<lparr>ac_current := length pgs,
      ac_placed := map (\<lambda>i. Some \<lparr>cfg_base = page_base (pgs ! i), cfg_size_bytes = size_bytes (bs ! i)\<rparr>)
        [0..<length pgs] @ replicate (8 - length pgs) None\<rparr>"
    unfolding configure_all_def using assms by (intro configure_chain_state) auto
  have "current_spec (configure_all bs pgs) = None"
    unfolding st using assms(1,2) by (auto simp: current_spec_def get_flat_def add_boards_state nth_append)
  then show ?thesis
    using assms(1,2)
    by (simp add: ac_read_def) (auto simp: st placement_def get_flat_def nth_append)
qed

section \<open>Witnesses\<close>

definition picasso_vram :: board_spec where
  "picasso_vram = \<lparr>board_type = 0xC6, product = 11, flags = 0, manufacturer = 2167, serial = 0x01020304,
     init_diag_vec = 0x40, size_bytes = 0x200000\<rparr>"

definition zorro3_ram :: board_spec where
  "zorro3_ram = \<lparr>board_type = 0xA0, product = 2, flags = 0x30, manufacturer = 0x07DB, serial = 0,
     init_diag_vec = 0, size_bytes = 0x01000000\<rparr>"

lemma picasso_answers: "current_spec (add_boards [picasso_vram]) = Some picasso_vram"
  by (simp add: add_boards_state current_spec_def get_flat_def ac_new_def)

theorem autoconfig_identity_round_trip_witness:
  "guest_spec (add_boards [picasso_vram]) = (0xC6, 11, 0, 2167, 0x01020304, 0x40)"
  using autoconfig_identity_round_trip [OF picasso_answers] by (simp add: picasso_vram_def)

lemma two_boards_fit:
  "\<forall>i < length [picasso_vram, zorro3_ram]. zorro_fits ([picasso_vram, zorro3_ram] ! i) ([0x20, 0x4000] ! i)"
  by (simp add: zorro_fits_def picasso_vram_def zorro3_ram_def less_Suc_eq)

theorem autoconfig_chain_configures_witness:
  "placement (configure_all [picasso_vram, zorro3_ram] [0x20, 0x4000]) 1 =
     Some \<lparr>cfg_base = 0x40000000, cfg_size_bytes = 0x01000000\<rparr> \<and>
   current_spec (configure_all [picasso_vram, zorro3_ram] [0x20, 0x4000]) = None"
  using autoconfig_chain_configures [OF _ _ two_boards_fit]
  by (simp add: page_base_def zorro3_ram_def)

lemma two_boards_state:
  "configure_all [picasso_vram, zorro3_ram] [0x20, 0x4000] =
    (add_boards [picasso_vram, zorro3_ram])\<lparr>ac_current := 2, ac_placed :=
      [Some \<lparr>cfg_base = 0x00200000, cfg_size_bytes = 0x200000\<rparr>,
       Some \<lparr>cfg_base = 0x40000000, cfg_size_bytes = 0x01000000\<rparr>] @ replicate 6 None\<rparr>"
  using configure_chain_state [of "[picasso_vram, zorro3_ram]" "[0x20, 0x4000]"] two_boards_fit
  by (simp add: configure_all_def page_base_def picasso_vram_def zorro3_ram_def upt_conv_Cons)

theorem board_at_correct_witness:
  "board_at (configure_all [picasso_vram, zorro3_ram] [0x20, 0x4000]) 0x40000010 = Some 1 \<and>
   length (ac_placed (configure_all [picasso_vram, zorro3_ram] [0x20, 0x4000])) = MAX_BOARDS"
  using board_at_correct [of "configure_all [picasso_vram, zorro3_ram] [0x20, 0x4000]" "0x40000010" 1]
  by (simp add: two_boards_state covers_def placement_def get_flat_def)

theorem autoconfig_placement_stable_witness:
  "placement (foldl ac_step ac_new ([AddBoard picasso_vram, WriteByte 0xE80048 0x20]
      @ [AddBoard zorro3_ram, WriteByte 0xE80048 0x30, WriteByte 0xE8004C 0])) 0 =
    Some \<lparr>cfg_base = 0x00200000, cfg_size_bytes = 0x200000\<rparr>"
proof -
  have "placement (foldl ac_step ac_new [AddBoard picasso_vram, WriteByte 0xE80048 0x20]) 0 =
      Some \<lparr>cfg_base = 0x00200000, cfg_size_bytes = 0x200000\<rparr>"
    by code_simp
  then show ?thesis
    using autoconfig_placement_stable [of "[AddBoard picasso_vram, WriteByte 0xE80048 0x20]" 0] by blast
qed

end
