(* ===== verification/Fastram.thy ===== *)
theory Fastram
  imports AutoConfig
begin

text \<open>
  The fast-RAM board of \<open>crates/machine-core/src/fastram.rs\<close>: the extended Zorro III size table and
  the board identity built from a requested size. Shown: the declared aperture is the smallest
  table entry that holds the request, and the identity agrees with the size code in \<open>er_Type\<close>.
\<close>

(* src/crates/machine-core/src/fastram.rs:84-84 MANUFACTURER *)
definition FR_MANUFACTURER :: u16 where [simp]: "FR_MANUFACTURER = 0x07DB"

(* src/crates/machine-core/src/fastram.rs:86-91 PRODUCT *)
definition FR_PRODUCT :: u8 where [simp]: "FR_PRODUCT = 2"

(* src/crates/machine-core/src/fastram.rs:99-99 ERFF_ZORRO_III *)
definition ERFF_ZORRO_III :: u8 where [simp]: "ERFF_ZORRO_III = 0x10"

(* src/crates/machine-core/src/fastram.rs:100-100 ERFF_EXTENDED *)
definition ERFF_EXTENDED :: u8 where [simp]: "ERFF_EXTENDED = 0x20"

(* src/crates/machine-core/src/fastram.rs:102-112 EXTENDED_SIZES *)
definition EXTENDED_SIZES :: "(u32 \<times> u8) list" where
  "EXTENDED_SIZES = [(0x01000000, 0), (0x02000000, 1), (0x04000000, 2), (0x08000000, 3),
     (0x10000000, 4), (0x20000000, 5), (0x40000000, 6)]"

(* src/crates/machine-core/src/fastram.rs:114-117 MIN_SIZE_BYTES *)
definition FR_MIN_SIZE_BYTES :: u32 where
  "FR_MIN_SIZE_BYTES = fst (EXTENDED_SIZES ! 0)"

(* src/crates/machine-core/src/fastram.rs:119-121 MAX_SIZE_BYTES *)
definition FR_MAX_SIZE_BYTES :: u32 where
  "FR_MAX_SIZE_BYTES = fst (EXTENDED_SIZES ! (length EXTENDED_SIZES - 1))"

(* src/crates/machine-core/src/fastram.rs:123-137 extended_size_code *)
definition extended_size_code :: "u32 \<Rightarrow> u8" where
  "extended_size_code bytes =
     (case find (\<lambda>(sz, code). bytes \<le> sz) EXTENDED_SIZES of
        Some (sz, code) \<Rightarrow> code
      | None \<Rightarrow> snd (EXTENDED_SIZES ! (length EXTENDED_SIZES - 1)))"

(* src/crates/machine-core/src/fastram.rs:139-145 extended_size_bytes *)
definition extended_size_bytes :: "u8 \<Rightarrow> u32" where
  "extended_size_bytes code =
     (case find (\<lambda>(sz, c). c = code) EXTENDED_SIZES of
        Some (sz, c) \<Rightarrow> sz
      | None \<Rightarrow> FR_MAX_SIZE_BYTES)"

(* src/crates/machine-core/src/fastram.rs:147-164 autoconfig_board_spec *)
definition fastram_board_spec :: "u32 \<Rightarrow> board_spec" where
  "fastram_board_spec sz =
     (let code = extended_size_code sz
      in \<lparr>board_type = ERT_ZORROIII OR ERTF_MEMLIST OR code, product = FR_PRODUCT,
          flags = ERFF_ZORRO_III OR ERFF_EXTENDED, manufacturer = FR_MANUFACTURER, serial = 0,
          init_diag_vec = 0, size_bytes = extended_size_bytes code\<rparr>)"

lemma extended_size_code_chain:
  "extended_size_code b =
     (if b \<le> 0x01000000 then 0 else if b \<le> 0x02000000 then 1 else if b \<le> 0x04000000 then 2
      else if b \<le> 0x08000000 then 3 else if b \<le> 0x10000000 then 4 else if b \<le> 0x20000000 then 5
      else 6)"
  by (simp add: extended_size_code_def EXTENDED_SIZES_def)

lemma extended_size_bytes_table:
  "extended_size_bytes 0 = 0x01000000" "extended_size_bytes 1 = 0x02000000"
  "extended_size_bytes 2 = 0x04000000" "extended_size_bytes 3 = 0x08000000"
  "extended_size_bytes 4 = 0x10000000" "extended_size_bytes 5 = 0x20000000"
  "extended_size_bytes 6 = 0x40000000"
  by (simp_all add: extended_size_bytes_def EXTENDED_SIZES_def)

lemmas fastram_table = extended_size_code_chain extended_size_bytes_table

text \<open>For a request of at most 1 GB the fast-RAM board declares the smallest extended
  Zorro III size that holds it; a larger request is capped at 1 GB. The type byte is a Zorro III
  memory board whose low three bits decode to that very size.\<close>

lemma fastram_size_minimal:
  assumes "b \<le> FR_MAX_SIZE_BYTES"
  shows "b \<le> size_bytes (fastram_board_spec b) \<and>
    (\<forall>s \<in> fst ` set EXTENDED_SIZES. b \<le> s \<longrightarrow> size_bytes (fastram_board_spec b) \<le> s) \<and>
    size_bytes (fastram_board_spec b) \<in> fst ` set EXTENDED_SIZES \<and>
    board_type (fastram_board_spec b) AND 0xF8 = ERT_ZORROIII OR ERTF_MEMLIST \<and>
    extended_size_bytes (board_type (fastram_board_spec b) AND 7) = size_bytes (fastram_board_spec b)"
  using assms
  by (simp add: fastram_board_spec_def Let_def fastram_table FR_MAX_SIZE_BYTES_def EXTENDED_SIZES_def)

theorem fastram_size_minimal_witness:
  "(0x01000001 :: u32) \<le> FR_MAX_SIZE_BYTES \<and> size_bytes (fastram_board_spec 0x01000001) = 0x02000000 \<and>
   0x01000001 \<le> size_bytes (fastram_board_spec 0x01000001)"
  using fastram_size_minimal [of "0x01000001"]
  by (simp add: FR_MAX_SIZE_BYTES_def EXTENDED_SIZES_def fastram_board_spec_def fastram_table)

end
