(* ===== verification/GuestMem.thy ===== *)
theory GuestMem
  imports Slots
begin

text \<open>
  Guest RAM as the device engines see it: the \<open>GuestMemory\<close> trait, its implementation \<open>GuestRam\<close> and
  the device-write span log, from \<open>crates/machine-core/src/lib.rs\<close>. A mutable slice the trait grants
  is modelled as a location (\<open>ram_loc\<close>) in one of the two backing arrays; storing through the borrow
  is \<open>ram_store\<close>, and \<open>ram_write\<close> is the grant followed by the store. Shown: the contract
  \<open>guest_memory\<close> of a RAM the engines rely on (a grant has the length asked for, reads see the last
  write, disjoint spans do not disturb each other, guest addresses never leave the arrays), and that
  the span log covers exactly the recorded writes until it overflows.
\<close>

section \<open>The device-write span log\<close>

(* src/crates/machine-core/src/lib.rs:118-122 DeviceWriteLog *)
record device_write_log =
  dwl_spans :: "(u32 \<times> u32) list"
  dwl_count :: nat
  dwl_overflowed :: bool

(* src/crates/machine-core/src/lib.rs:125-131 DeviceWriteLog::new *)
definition dwl_new :: "(u32 \<times> u32) list \<Rightarrow> device_write_log" where
  "dwl_new spans = \<lparr>dwl_spans = spans, dwl_count = 0, dwl_overflowed = False\<rparr>"

(* src/crates/machine-core/src/lib.rs:164-169 DeviceWriteLog::record *)
definition dwl_append :: "device_write_log \<Rightarrow> u32 \<Rightarrow> u32 \<Rightarrow> device_write_log" where
  "dwl_append log addr len =
     (if dwl_count log < length (dwl_spans log) then
        log\<lparr>dwl_spans := (dwl_spans log)[dwl_count log := (addr, len)], dwl_count := dwl_count log + 1\<rparr>
      else log\<lparr>dwl_overflowed := True\<rparr>)"

(* src/crates/machine-core/src/lib.rs:133-170 DeviceWriteLog::record *)
definition dwl_record :: "device_write_log \<Rightarrow> u32 \<Rightarrow> u32 \<Rightarrow> device_write_log" where
  "dwl_record log addr len =
     (if len = 0 then log
      else if dwl_count log > 0 then
        let (last_addr, last_len) = dwl_spans log ! (dwl_count log - 1) in
        (case checked_add_u32 last_len len of
           None \<Rightarrow> dwl_append log addr len
         | Some new_len \<Rightarrow>
             if checked_add_u32 last_addr last_len = Some addr then
               log\<lparr>dwl_spans := (dwl_spans log)[dwl_count log - 1 := (last_addr, new_len)]\<rparr>
             else if checked_add_u32 addr len = Some last_addr then
               log\<lparr>dwl_spans := (dwl_spans log)[dwl_count log - 1 := (addr, new_len)]\<rparr>
             else dwl_append log addr len)
      else dwl_append log addr len)"

(* src/crates/machine-core/src/lib.rs:172-174 DeviceWriteLog::spans *)
definition dwl_recorded :: "device_write_log \<Rightarrow> (u32 \<times> u32) list" where
  "dwl_recorded log = take (dwl_count log) (dwl_spans log)"

(* src/crates/machine-core/src/lib.rs:176-179 DeviceWriteLog::clear *)
definition dwl_clear :: "device_write_log \<Rightarrow> device_write_log" where
  "dwl_clear log = log\<lparr>dwl_count := 0, dwl_overflowed := False\<rparr>"

section \<open>Guest RAM\<close>

(* src/crates/machine-core/src/lib.rs:78-82 CHIP_RAM_SIZE *)
definition CHIP_RAM_SIZE :: nat where [simp]: "CHIP_RAM_SIZE = 0x200000"

(* src/crates/machine-core/src/lib.rs:84-85 CHIP_RAM_BASE *)
definition CHIP_RAM_BASE :: u32 where [simp]: "CHIP_RAM_BASE = 0"

(* src/crates/machine-core/src/lib.rs:87-88 CHIP_RAM_END *)
definition CHIP_RAM_END :: u32 where [simp]: "CHIP_RAM_END = CHIP_RAM_BASE + 0x200000"

(* src/crates/machine-core/src/lib.rs:215-264 GuestRam *)
record guest_ram =
  gr_chip_ram :: "u8 list"
  gr_fast_ram :: "u8 list option"
  gr_fast_ram_board :: "nat option"
  gr_fast_window :: "(u32 \<times> u32) option"
  gr_write_log :: "device_write_log option"

(* src/crates/machine-core/src/lib.rs:267-275 GuestRam::new *)
definition gr_new :: "u8 list \<Rightarrow> guest_ram" where
  "gr_new chip = \<lparr>gr_chip_ram = chip, gr_fast_ram = None, gr_fast_ram_board = None,
     gr_fast_window = None, gr_write_log = None\<rparr>"

(* src/crates/machine-core/src/lib.rs:277-289 GuestRam::record_write_span *)
definition record_write_span :: "guest_ram \<Rightarrow> u32 \<Rightarrow> u32 \<Rightarrow> guest_ram" where
  "record_write_span ram addr len =
     (case gr_write_log ram of
        None \<Rightarrow> ram
      | Some log \<Rightarrow> ram\<lparr>gr_write_log := Some (dwl_record log addr len)\<rparr>)"

text \<open>A Rust range \<open>start..end\<close> is the pair of its bounds.\<close>

(* src/crates/machine-core/src/lib.rs:291-300 GuestRam::chip_ram_span *)
definition chip_ram_span :: "guest_ram \<Rightarrow> u32 \<Rightarrow> u32 \<Rightarrow> (nat \<times> nat) option" where
  "chip_ram_span ram addr len =
     (case checked_add_u32 addr len of
        None \<Rightarrow> None
      | Some end' \<Rightarrow>
          if end' > CHIP_RAM_END then None
          else let start = unat (addr - CHIP_RAM_BASE) in Some (start, start + unat len))"

(* src/crates/machine-core/src/lib.rs:302-317 GuestRam::fast_ram_span *)
definition fast_ram_span :: "guest_ram \<Rightarrow> u32 \<Rightarrow> u32 \<Rightarrow> (nat \<times> nat) option" where
  "fast_ram_span ram addr len =
     (case gr_fast_window ram of
        None \<Rightarrow> None
      | Some (base, window_len) \<Rightarrow>
          (case checked_add_u32 addr len of
             None \<Rightarrow> None
           | Some end' \<Rightarrow>
               if addr < base then None
               else (case checked_add_u32 base window_len of
                  None \<Rightarrow> None
                | Some window_end \<Rightarrow>
                    if end' > window_end then None
                    else
                      let start = unat (addr - base); stop = start + unat len in
                      (case gr_fast_ram ram of
                         None \<Rightarrow> None
                       | Some fast \<Rightarrow> if stop \<le> length fast then Some (start, stop) else None))))"

definition sub_slice :: "'a list \<Rightarrow> nat \<times> nat \<Rightarrow> 'a list" where
  "sub_slice xs r = take (snd r - fst r) (drop (fst r) xs)"

definition splice_at :: "'a list \<Rightarrow> nat \<Rightarrow> 'a list \<Rightarrow> 'a list" where
  "splice_at xs i bs = take i xs @ bs @ drop (i + length bs) xs"

(* src/crates/machine-core/src/lib.rs:321-329 GuestRam::ram_slice *)
definition ram_slice :: "guest_ram \<Rightarrow> u32 \<Rightarrow> u32 \<Rightarrow> u8 list option" where
  "ram_slice ram addr len =
     (case chip_ram_span ram addr len of
        Some span \<Rightarrow> Some (sub_slice (gr_chip_ram ram) span)
      | None \<Rightarrow>
          (case fast_ram_span ram addr len of
             Some span \<Rightarrow> map_option (\<lambda>fast. sub_slice fast span) (gr_fast_ram ram)
           | None \<Rightarrow> None))"

datatype ram_loc = InChip "nat \<times> nat" | InFast "nat \<times> nat"

(* src/crates/machine-core/src/lib.rs:331-353 GuestRam::ram_slice_mut *)
definition ram_slice_mut :: "guest_ram \<Rightarrow> u32 \<Rightarrow> u32 \<Rightarrow> guest_ram \<times> ram_loc option" where
  "ram_slice_mut ram addr len =
     (case chip_ram_span ram addr len of
        Some span \<Rightarrow> (record_write_span ram addr len, Some (InChip span))
      | None \<Rightarrow>
          (case fast_ram_span ram addr len of
             Some span \<Rightarrow> (record_write_span ram addr len, Some (InFast span))
           | None \<Rightarrow> (ram, None)))"

text \<open>\<open>copy_from_slice\<close> through the granted slice.\<close>

fun ram_store :: "guest_ram \<Rightarrow> ram_loc \<Rightarrow> u8 list \<Rightarrow> guest_ram" where
  "ram_store ram (InChip (s, e)) bs = ram\<lparr>gr_chip_ram := splice_at (gr_chip_ram ram) s bs\<rparr>"
| "ram_store ram (InFast (s, e)) bs =
     ram\<lparr>gr_fast_ram := map_option (\<lambda>fast. splice_at fast s bs) (gr_fast_ram ram)\<rparr>"

definition ram_write :: "guest_ram \<Rightarrow> u32 \<Rightarrow> u8 list \<Rightarrow> guest_ram option" where
  "ram_write ram addr bs =
     (case ram_slice_mut ram addr (of_nat (length bs)) of
        (ram', Some loc) \<Rightarrow> Some (ram_store ram' loc bs)
      | (_, None) \<Rightarrow> None)"

(* src/crates/machine-core/src/lib.rs:2204-2206 MachineBus::set_device_write_log *)
definition set_device_write_log :: "guest_ram \<Rightarrow> (u32 \<times> u32) list option \<Rightarrow> guest_ram" where
  "set_device_write_log ram storage = ram\<lparr>gr_write_log := map_option dwl_new storage\<rparr>"

(* src/crates/machine-core/src/lib.rs:2214-2220 MachineBus::device_write_spans *)
definition device_write_spans :: "guest_ram \<Rightarrow> (u32 \<times> u32) list" where
  "device_write_spans ram = (case gr_write_log ram of None \<Rightarrow> [] | Some log \<Rightarrow> dwl_recorded log)"

(* src/crates/machine-core/src/lib.rs:2228-2230 MachineBus::device_write_log_overflowed *)
definition device_write_log_overflowed :: "guest_ram \<Rightarrow> bool" where
  "device_write_log_overflowed ram = (case gr_write_log ram of None \<Rightarrow> False | Some log \<Rightarrow> dwl_overflowed log)"

(* src/crates/machine-core/src/lib.rs:2239-2243 MachineBus::clear_device_write_spans *)
definition clear_device_write_spans :: "guest_ram \<Rightarrow> guest_ram" where
  "clear_device_write_spans ram = ram\<lparr>gr_write_log := map_option dwl_clear (gr_write_log ram)\<rparr>"

section \<open>The log covers exactly what was written\<close>

definition span_bytes :: "u32 \<times> u32 \<Rightarrow> nat set" where
  "span_bytes s = {unat (fst s) ..< unat (fst s) + unat (snd s)}"

definition spans_cover :: "(u32 \<times> u32) list \<Rightarrow> nat set" where
  "spans_cover ss = (\<Union>s \<in> set ss. span_bytes s)"

definition dwl_ok :: "device_write_log \<Rightarrow> bool" where
  "dwl_ok log \<longleftrightarrow> dwl_count log \<le> length (dwl_spans log)"

definition dwl_run :: "device_write_log \<Rightarrow> (u32 \<times> u32) list \<Rightarrow> device_write_log" where
  "dwl_run log ws = foldl (\<lambda>l (addr, len). dwl_record l addr len) log ws"

lemma spans_cover_simps [simp]:
  "spans_cover [] = {}"
  "spans_cover (s # ss) = span_bytes s \<union> spans_cover ss"
  "spans_cover (ss @ ss') = spans_cover ss \<union> spans_cover ss'"
  by (auto simp: spans_cover_def)

lemma span_bytes_merge:
  assumes "unat new_len = unat l1 + unat l2" "unat a2 = unat a1 + unat l1"
  shows "span_bytes (a1, new_len) = span_bytes (a1, l1) \<union> span_bytes (a2, l2)"
  using assms by (auto simp: span_bytes_def)

text \<open>A log whose last recorded span is \<open>s\<close>, and the same log with that span replaced.\<close>

lemma dwl_recorded_last:
  assumes "dwl_ok log" "dwl_count log > 0"
  shows "dwl_recorded log = take (dwl_count log - 1) (dwl_spans log) @ [dwl_spans log ! (dwl_count log - 1)]"
    and "dwl_recorded (log\<lparr>dwl_spans := (dwl_spans log)[dwl_count log - 1 := s]\<rparr>) =
      take (dwl_count log - 1) (dwl_spans log) @ [s]"
  using assms take_Suc_conv_app_nth [of "dwl_count log - 1" "dwl_spans log"]
    take_Suc_conv_app_nth [of "dwl_count log - 1" "(dwl_spans log)[dwl_count log - 1 := s]"]
  by (auto simp: dwl_recorded_def dwl_ok_def)

definition dwl_adds :: "device_write_log \<Rightarrow> u32 \<Rightarrow> u32 \<Rightarrow> device_write_log \<Rightarrow> bool" where
  "dwl_adds log addr len log' \<longleftrightarrow> dwl_ok log' \<and> length (dwl_spans log') = length (dwl_spans log) \<and>
     (dwl_overflowed log' = dwl_overflowed log \<and>
        spans_cover (dwl_recorded log') = spans_cover (dwl_recorded log) \<union> span_bytes (addr, len) \<or>
      dwl_overflowed log' \<and> dwl_count log = length (dwl_spans log) \<and>
        dwl_recorded log' = dwl_recorded log)"

lemma dwl_append_adds:
  assumes "dwl_ok log"
  shows "dwl_adds log addr len (dwl_append log addr len)"
  using assms
  by (auto simp: dwl_adds_def dwl_append_def dwl_ok_def dwl_recorded_def take_Suc_conv_app_nth)

lemma dwl_record_adds:
  assumes "dwl_ok log"
  shows "dwl_adds log addr len (dwl_record log addr len)"
proof (cases "len = 0")
  case True
  then show ?thesis using assms by (simp add: dwl_record_def dwl_adds_def span_bytes_def)
next
  case nz: False
  show ?thesis
  proof (cases "dwl_count log > 0")
    case False
    then show ?thesis using nz assms by (simp add: dwl_record_def dwl_append_adds)
  next
    case True
    obtain la ll where l: "dwl_spans log ! (dwl_count log - 1) = (la, ll)" by fastforce
    have merge: "dwl_adds log addr len (log\<lparr>dwl_spans := (dwl_spans log)[dwl_count log - 1 := s]\<rparr>)"
      if "span_bytes s = span_bytes (la, ll) \<union> span_bytes (addr, len)" for s
      using that assms l dwl_recorded_last [OF assms True]
      by (simp add: dwl_adds_def dwl_ok_def Un_assoc)
    show ?thesis
    proof (cases "checked_add_u32 ll len")
      case None
      then show ?thesis using True nz l assms by (simp add: dwl_record_def dwl_append_adds)
    next
      case (Some new_len)
      then have n: "unat new_len = unat ll + unat len" by (simp add: checked_add_u32_Some)
      have "span_bytes (la, new_len) = span_bytes (la, ll) \<union> span_bytes (addr, len)"
        if "checked_add_u32 la ll = Some addr"
        using that n by (intro span_bytes_merge) (simp_all add: checked_add_u32_Some)
      moreover have "span_bytes (addr, new_len) = span_bytes (la, ll) \<union> span_bytes (addr, len)"
        if "checked_add_u32 addr len = Some la"
        using that n span_bytes_merge [of new_len len ll la addr]
        by (simp add: checked_add_u32_Some Un_commute)
      ultimately show ?thesis
        using True nz l Some assms merge by (simp add: dwl_record_def dwl_append_adds)
    qed
  qed
qed

lemma dwl_run_snoc: "dwl_run log (ws @ [(a, l)]) = dwl_record (dwl_run log ws) a l"
  by (simp add: dwl_run_def)

lemma dwl_run_cover:
  assumes "dwl_ok log"
  shows "dwl_ok (dwl_run log ws) \<and>
    length (dwl_spans (dwl_run log ws)) = length (dwl_spans log) \<and>
    spans_cover (dwl_recorded (dwl_run log ws)) \<subseteq> spans_cover (dwl_recorded log) \<union> spans_cover ws \<and>
    (\<not> dwl_overflowed (dwl_run log ws) \<longrightarrow> \<not> dwl_overflowed log \<and>
      spans_cover (dwl_recorded (dwl_run log ws)) = spans_cover (dwl_recorded log) \<union> spans_cover ws)"
proof (induction ws rule: rev_induct)
  case Nil
  then show ?case using assms by (simp add: dwl_run_def)
next
  case (snoc w ws)
  obtain a l where w: "w = (a, l)" by fastforce
  have "dwl_adds (dwl_run log ws) a l (dwl_run log (ws @ [w]))"
    unfolding w dwl_run_snoc using snoc by (intro dwl_record_adds) simp
  then show ?case
    using snoc unfolding dwl_adds_def w by auto
qed

text \<open>C14 [functional]: After any sequence of recorded writes into a fresh log over caller-supplied
  storage, the recorded spans never claim a byte that was not written, never exceed the storage, and
  as long as the sticky overflow flag is clear they cover every byte written: merging adjacent spans
  loses and invents nothing.\<close>

theorem device_write_log_exact:
  "length (dwl_recorded (dwl_run (dwl_new storage) ws)) \<le> length storage \<and>
   spans_cover (dwl_recorded (dwl_run (dwl_new storage) ws)) \<subseteq> spans_cover ws \<and>
   (\<not> dwl_overflowed (dwl_run (dwl_new storage) ws) \<longrightarrow>
      spans_cover (dwl_recorded (dwl_run (dwl_new storage) ws)) = spans_cover ws)"
  using dwl_run_cover [of "dwl_new storage" ws]
  by (simp add: dwl_new_def dwl_ok_def dwl_recorded_def)

theorem device_write_log_exact_witness:
  "dwl_recorded (dwl_run (dwl_new [(0, 0)]) [(8, 4), (12, 4), (4, 4)]) = [(4, 12)] \<and>
   spans_cover (dwl_recorded (dwl_run (dwl_new [(0, 0)]) [(8, 4), (12, 4), (4, 4)])) =
     spans_cover [(8, 4), (12, 4), (4, 4)]"
proof -
  have r: "dwl_run (dwl_new [(0, 0)]) [(8, 4), (12, 4), (4, 4)] =
      \<lparr>dwl_spans = [(4, 12)], dwl_count = 1, dwl_overflowed = False\<rparr>"
    by (simp add: dwl_run_def dwl_new_def dwl_record_def dwl_append_def checked_add_u32_def)
  show ?thesis
    using device_write_log_exact [of "[(0, 0)]" "[(8, 4), (12, 4), (4, 4)]"]
    unfolding r by (simp add: dwl_recorded_def)
qed

section \<open>The contract of guest memory\<close>

text \<open>
  What a device engine may rely on when it moves guest buffers through \<open>dyn GuestMemory\<close>.
\<close>

locale guest_memory =
  fixes ok :: "'m \<Rightarrow> bool"
    and slice_of :: "'m \<Rightarrow> u32 \<Rightarrow> u32 \<Rightarrow> u8 list option"
    and write_to :: "'m \<Rightarrow> u32 \<Rightarrow> u8 list \<Rightarrow> 'm option"
  assumes slice_length: "ok m \<Longrightarrow> slice_of m a n = Some bs \<Longrightarrow> length bs = unat n"
    and slice_no_wrap: "slice_of m a n = Some bs \<Longrightarrow> unat a + unat n < 2 ^ 32"
    and write_iff: "ok m \<Longrightarrow> length bs < 2 ^ 32 \<Longrightarrow>
      write_to m a bs = None \<longleftrightarrow> slice_of m a (of_nat (length bs)) = None"
    and write_ok: "ok m \<Longrightarrow> length bs < 2 ^ 32 \<Longrightarrow> write_to m a bs = Some m' \<Longrightarrow> ok m'"
    and write_map: "ok m \<Longrightarrow> length bs < 2 ^ 32 \<Longrightarrow> write_to m a bs = Some m' \<Longrightarrow>
      slice_of m' b k = None \<longleftrightarrow> slice_of m b k = None"
    and read_same: "ok m \<Longrightarrow> length bs < 2 ^ 32 \<Longrightarrow> write_to m a bs = Some m' \<Longrightarrow>
      slice_of m' a (of_nat (length bs)) = Some bs"
    and read_other: "ok m \<Longrightarrow> length bs < 2 ^ 32 \<Longrightarrow> write_to m a bs = Some m' \<Longrightarrow>
      unat a + length bs \<le> unat b \<or> unat b + unat k \<le> unat a \<Longrightarrow> slice_of m' b k = slice_of m b k"
begin

lemma write_some:
  assumes "ok m" "length bs < 2 ^ 32" "slice_of m a (of_nat (length bs)) \<noteq> None"
  shows "\<exists>m'. write_to m a bs = Some m'"
  using write_iff [OF assms(1,2), of a] assms(3) by blast

text \<open>A sequence of stores, each of which must be granted.\<close>

lemma writes_frame:
  assumes "ok m" "foldl (\<lambda>x (a, bs). Option.bind x (\<lambda>m. write_to m a bs)) (Some m) ws = Some m'"
    and "\<forall>(a, bs) \<in> set ws. length bs < 2 ^ 32 \<and> (unat a + length bs \<le> unat b \<or> unat b + unat k \<le> unat a)"
  shows "ok m' \<and> slice_of m' b k = slice_of m b k"
  using assms(2,3)
proof (induction ws arbitrary: m' rule: rev_induct)
  case (snoc w ws)
  obtain a bs where w: "w = (a, bs)" by fastforce
  from snoc.prems(1) obtain m1
    where "foldl (\<lambda>x (a, bs). Option.bind x (\<lambda>m. write_to m a bs)) (Some m) ws = Some m1"
      and m1: "write_to m1 a bs = Some m'"
    by (auto simp: w bind_eq_Some_conv)
  with snoc have "ok m1 \<and> slice_of m1 b k = slice_of m b k" by simp
  with m1 snoc.prems(2) show ?case
    using write_ok [of m1 bs a m'] read_other [of m1 bs a m' b k] by (simp add: w)
qed (use assms(1) in simp)

end

text \<open>A memory whose regions do not overlap serves a span and its parts from the same bytes.\<close>

locale flat_guest_memory = guest_memory ok slice_of write_to
  for ok :: "'m \<Rightarrow> bool"
    and slice_of :: "'m \<Rightarrow> u32 \<Rightarrow> u32 \<Rightarrow> u8 list option"
    and write_to :: "'m \<Rightarrow> u32 \<Rightarrow> u8 list \<Rightarrow> 'm option" +
  assumes slice_sub: "ok m \<Longrightarrow> slice_of m a n = Some bs \<Longrightarrow> i + k \<le> unat n \<Longrightarrow>
      slice_of m (a + of_nat i) (of_nat k) = Some (take k (drop i bs))"
begin

lemma write_inside:
  assumes "ok m" "slice_of m a n = Some old" "i + length bs \<le> unat n"
  shows "\<exists>m'. write_to m (a + of_nat i) bs = Some m' \<and> ok m' \<and>
    slice_of m' a n = Some (splice_at old i bs)"
proof -
  have n: "unat a + unat n < 2 ^ 32" by (rule slice_no_wrap [OF assms(2)])
  have lim: "length bs < 2 ^ 32" "i < 2 ^ 32" using assms(3) n by simp_all
  have ua: "unat (a + of_nat i) = unat a + i"
    using n assms(3) lim by (simp add: unat_word_ariths unat_of_nat take_bit_eq_mod)
  obtain m' where w: "write_to m (a + of_nat i) bs = Some m'"
    using slice_sub [OF assms] write_some [OF assms(1) lim(1), of "a + of_nat i"] by auto
  have ok': "ok m'" by (rule write_ok [OF assms(1) lim(1) w])
  obtain new where new: "slice_of m' a n = Some new"
    using write_map [OF assms(1) lim(1) w, of a n] assms(2) by auto
  have ln: "length new = unat n" "length old = unat n"
    using slice_length [OF ok' new] slice_length [OF assms(1,2)] by simp_all
  let ?e = "i + length bs"
  have uk: "unat (of_nat i :: u32) = i" "unat (a + of_nat ?e) = unat a + ?e"
    using n assms(3) lim by (simp_all add: unat_word_ariths unat_of_nat take_bit_eq_mod del: of_nat_add)
  have "take i new = take i old"
    using slice_sub [OF ok' new, of 0 i] slice_sub [OF assms(1,2), of 0 i] assms(3) uk ua
      read_other [OF assms(1) lim(1) w, of a "of_nat i"] by simp
  moreover have "take (length bs) (drop i new) = bs"
    using slice_sub [OF ok' new assms(3)] read_same [OF assms(1) lim(1) w] by simp
  moreover have "drop ?e new = drop ?e old"
    using slice_sub [OF ok' new, of ?e "unat n - ?e"] slice_sub [OF assms(1,2), of ?e "unat n - ?e"]
      assms(3) uk ua ln read_other [OF assms(1) lim(1) w, of "a + of_nat ?e" "of_nat (unat n - ?e)"]
    by (simp del: of_nat_add)
  ultimately have "new = splice_at old i bs"
    unfolding splice_at_def by (metis add.commute append_take_drop_id drop_drop)
  with w ok' new show ?thesis by blast
qed

end

section \<open>GuestRam meets the contract\<close>

definition ram_ok :: "guest_ram \<Rightarrow> bool" where
  "ram_ok ram \<longleftrightarrow> length (gr_chip_ram ram) = CHIP_RAM_SIZE"

fun ram_load :: "guest_ram \<Rightarrow> ram_loc \<Rightarrow> u8 list" where
  "ram_load ram (InChip r) = sub_slice (gr_chip_ram ram) r"
| "ram_load ram (InFast r) = (case gr_fast_ram ram of None \<Rightarrow> [] | Some fast \<Rightarrow> sub_slice fast r)"

definition ram_region :: "guest_ram \<Rightarrow> u32 \<Rightarrow> u32 \<Rightarrow> ram_loc option" where
  "ram_region ram addr len =
     (case chip_ram_span ram addr len of
        Some span \<Rightarrow> Some (InChip span)
      | None \<Rightarrow> map_option InFast (fast_ram_span ram addr len))"

lemma length_splice [simp]: "i + length bs \<le> length xs \<Longrightarrow> length (splice_at xs i bs) = length xs"
  by (simp add: splice_at_def)

lemma slice_splice_same:
  "i + length bs \<le> length xs \<Longrightarrow> e = i + length bs \<Longrightarrow> sub_slice (splice_at xs i bs) (i, e) = bs"
  by (simp add: splice_at_def sub_slice_def)

lemma slice_splice_other:
  assumes "i + length bs \<le> length xs" "i + length bs \<le> s \<or> e \<le> i"
  shows "sub_slice (splice_at xs i bs) (s, e) = sub_slice xs (s, e)"
proof (rule nth_equalityI)
  show "length (sub_slice (splice_at xs i bs) (s, e)) = length (sub_slice xs (s, e))"
    using assms(1) by (simp add: sub_slice_def)
  fix j assume "j < length (sub_slice (splice_at xs i bs) (s, e))"
  then have j: "s + j < e" "s + j < length xs" using assms(1) by (auto simp: sub_slice_def)
  then show "sub_slice (splice_at xs i bs) (s, e) ! j = sub_slice xs (s, e) ! j"
    using assms by (auto simp: sub_slice_def splice_at_def nth_append)
qed

lemma chip_ram_span_Some:
  "chip_ram_span ram a n = Some r \<longleftrightarrow> unat a + unat n \<le> 0x200000 \<and> r = (unat a, unat a + unat n)"
proof (cases "unat a + unat n < 2 ^ 32")
  case True
  then have "unat (a + n) = unat a + unat n" by (simp add: unat_word_ariths)
  then show ?thesis
    using True by (auto simp: chip_ram_span_def checked_add_u32_def Let_def word_less_nat_alt)
qed (auto simp: chip_ram_span_def checked_add_u32_def)

lemma fast_ram_span_Some:
  "fast_ram_span ram a n = Some r \<longleftrightarrow> (\<exists>b w fast. gr_fast_window ram = Some (b, w) \<and>
     gr_fast_ram ram = Some fast \<and> unat b + unat w < 2 ^ 32 \<and> unat b \<le> unat a \<and>
     unat a + unat n \<le> unat b + unat w \<and> unat a - unat b + unat n \<le> length fast \<and>
     r = (unat a - unat b, unat a - unat b + unat n))"
proof -
  have u: "unat (x + y) = unat x + unat y" if "unat x + unat y < 2 ^ 32" for x y :: u32
    using that by (simp add: unat_word_ariths)
  have s: "unat (a - b) = unat a - unat b" if "unat b \<le> unat a" for b
    using that by (intro unat_sub) (simp add: word_le_nat_alt)
  show ?thesis
    by (auto simp: fast_ram_span_def checked_add_u32_def Let_def word_less_nat_alt u s
        split: option.splits if_splits prod.splits)
qed

lemma chip_region: "unat a + unat n \<le> 0x200000 \<Longrightarrow>
    ram_region ram a n = Some (InChip (unat a, unat a + unat n))"
  using chip_ram_span_Some [of ram a n "(unat a, unat a + unat n)"] by (simp add: ram_region_def)

lemma ram_slice_region: "ram_slice ram a n = map_option (ram_load ram) (ram_region ram a n)"
proof (cases "fast_ram_span ram a n")
  case (Some r)
  then obtain fast where "gr_fast_ram ram = Some fast" by (auto simp: fast_ram_span_Some)
  with Some show ?thesis
    by (simp add: ram_slice_def ram_region_def split: option.split)
qed (simp add: ram_slice_def ram_region_def split: option.split)

lemma ram_slice_mut_region:
  "ram_slice_mut ram a n =
    (if ram_region ram a n = None then ram else record_write_span ram a n, ram_region ram a n)"
  by (auto simp: ram_slice_mut_def ram_region_def split: option.split)

lemma record_write_span_frame [simp, frame_simps]:
  "gr_chip_ram (record_write_span ram a n) = gr_chip_ram ram"
  "gr_fast_ram (record_write_span ram a n) = gr_fast_ram ram"
  "gr_fast_window (record_write_span ram a n) = gr_fast_window ram"
  "gr_fast_ram_board (record_write_span ram a n) = gr_fast_ram_board ram"
  by (simp_all add: record_write_span_def split: option.split)

text \<open>The region that serves a span depends on the map and the array sizes only.\<close>

definition ram_shape :: "guest_ram \<Rightarrow> nat \<times> nat option \<times> (u32 \<times> u32) option" where
  "ram_shape ram = (length (gr_chip_ram ram), map_option length (gr_fast_ram ram), gr_fast_window ram)"

lemma ram_shape_eqD:
  assumes "ram_shape ram = ram_shape ram'"
  shows "ram_region ram a n = ram_region ram' a n" and "ram_ok ram = ram_ok ram'"
proof -
  have f: "gr_fast_window ram = gr_fast_window ram'" "map_option length (gr_fast_ram ram) = map_option length (gr_fast_ram ram')"
    using assms by (auto simp: ram_shape_def)
  have "fast_ram_span ram a n = fast_ram_span ram' a n"
    using f by (cases "gr_fast_ram ram"; cases "gr_fast_ram ram'") (auto simp: fast_ram_span_def split: option.split)
  then show "ram_region ram a n = ram_region ram' a n"
    by (simp only: ram_region_def chip_ram_span_def)
  show "ram_ok ram = ram_ok ram'"
    using assms by (simp add: ram_shape_def ram_ok_def)
qed

lemma ram_region_bounds:
  assumes "ram_region ram a n = Some loc"
  shows "(loc = InChip (unat a, unat a + unat n) \<and> unat a + unat n \<le> 0x200000) \<or>
    (\<exists>b w fast. loc = InFast (unat a - unat b, unat a - unat b + unat n) \<and>
      gr_fast_window ram = Some (b, w) \<and> gr_fast_ram ram = Some fast \<and> unat b \<le> unat a \<and>
      unat a + unat n < 2 ^ 32 \<and> unat a - unat b + unat n \<le> length fast)"
  using assms unfolding ram_region_def
  by (auto simp: chip_ram_span_Some fast_ram_span_Some split: option.splits)

lemma ram_store_shape:
  assumes "ram_ok ram" "ram_region ram a n = Some loc" "length bs = unat n"
  shows "ram_shape (ram_store ram loc bs) = ram_shape ram"
  using ram_region_bounds [OF assms(2)] assms(1,3) by (auto simp: ram_shape_def ram_ok_def)

lemma ram_load_length:
  assumes "ram_ok ram" "ram_region ram a n = Some loc"
  shows "length (ram_load ram loc) = unat n"
  using ram_region_bounds [OF assms(2)] assms(1) by (auto simp: ram_ok_def sub_slice_def)

lemma ram_load_store_same:
  assumes "ram_ok ram" "ram_region ram a n = Some loc" "length bs = unat n"
  shows "ram_load (ram_store ram loc bs) loc = bs"
  using ram_region_bounds [OF assms(2)] assms(1,3)
  by (auto simp: ram_ok_def intro!: slice_splice_same)

lemma ram_load_store_other:
  assumes "ram_ok ram" "ram_region ram a n = Some loc" "length bs = unat n"
    and "ram_region ram b k = Some loc'" "unat a + unat n \<le> unat b \<or> unat b + unat k \<le> unat a"
  shows "ram_load (ram_store ram loc bs) loc' = ram_load ram loc'"
  using ram_region_bounds [OF assms(2)] ram_region_bounds [OF assms(4)] assms(1,3,5)
  by (auto simp: ram_ok_def intro!: slice_splice_other)

lemma splice_at_self: "e \<le> length xs \<Longrightarrow> s \<le> e \<Longrightarrow> splice_at xs s (sub_slice xs (s, e)) = xs"
  using take_add [of s "e - s" xs] append_take_drop_id [of e xs]
  by (simp add: splice_at_def sub_slice_def min_def)

lemma ram_store_load:
  assumes "ram_ok ram" "ram_region ram a n = Some loc"
  shows "ram_store (record_write_span ram b k) loc (ram_load ram loc) = record_write_span ram b k"
proof -
  have eq: "r = r'" if "gr_chip_ram r = gr_chip_ram r'" "gr_fast_ram r = gr_fast_ram r'"
    "gr_fast_ram_board r = gr_fast_ram_board r'" "gr_fast_window r = gr_fast_window r'"
    "gr_write_log r = gr_write_log r'" for r r' :: guest_ram
    using that by (cases r; cases r') simp
  show ?thesis
    using ram_region_bounds [OF assms(2)] assms(1)
    by (auto simp: ram_ok_def splice_at_self intro!: eq)
qed

lemma ram_write_region:
  "ram_write ram a bs =
    (case ram_region ram a (of_nat (length bs)) of None \<Rightarrow> None
     | Some loc \<Rightarrow> Some (ram_store (record_write_span ram a (of_nat (length bs))) loc bs))"
  by (simp add: ram_write_def ram_slice_mut_region split: option.split)

lemma ram_shape_record [simp]: "ram_shape (record_write_span ram a n) = ram_shape ram"
  by (simp add: ram_shape_def)

lemma ram_load_record [simp]: "ram_load (record_write_span ram a n) loc = ram_load ram loc"
  by (cases loc) simp_all

lemma unat_len_u32: "length bs < 2 ^ 32 \<Longrightarrow> length bs = unat (of_nat (length bs) :: u32)"
  by (simp add: unat_of_nat_less)

lemma ram_write_shape:
  assumes "ram_ok ram" "length bs < 2 ^ 32" "ram_write ram a bs = Some ram'"
  shows "ram_shape ram' = ram_shape ram"
proof -
  obtain loc where l: "ram_region ram a (of_nat (length bs)) = Some loc"
    and r: "ram' = ram_store (record_write_span ram a (of_nat (length bs))) loc bs"
    using assms(3) by (auto simp: ram_write_region split: option.splits)
  have "ram_shape ram' = ram_shape (record_write_span ram a (of_nat (length bs)))"
    unfolding r using assms(1,2) l unat_len_u32 [OF assms(2)]
      ram_shape_eqD [OF ram_shape_record [of ram a "of_nat (length bs)"]]
    by (intro ram_store_shape [of _ a "of_nat (length bs)"]) simp_all
  then show ?thesis by simp
qed

interpretation ram: guest_memory ram_ok ram_slice ram_write
proof
  fix m a n bs
  assume "ram_ok m" "ram_slice m a n = Some bs"
  then show "length bs = unat n" by (auto simp: ram_slice_region ram_load_length)
next
  fix m a n bs
  assume "ram_slice m a n = Some bs"
  then show "unat a + unat n < 2 ^ 32"
    by (auto simp: ram_slice_region dest!: ram_region_bounds)
next
  fix m a bs
  show "ram_write m a bs = None \<longleftrightarrow> ram_slice m a (of_nat (length bs)) = None"
    by (simp add: ram_write_region ram_slice_region split: option.split)
next
  fix m :: guest_ram and a m' and bs :: "u8 list"
  assume *: "ram_ok m" "length bs < 2 ^ 32" "ram_write m a bs = Some m'"
  note shape = ram_shape_eqD [OF ram_write_shape [OF *]]
  show "ram_ok m'" using shape(2) *(1) by simp
  show "ram_slice m' b k = None \<longleftrightarrow> ram_slice m b k = None" for b k
    using shape(1) by (simp add: ram_slice_region)
  let ?m = "record_write_span m a (of_nat (length bs))"
  obtain loc where l: "ram_region m a (of_nat (length bs)) = Some loc"
    and r: "m' = ram_store ?m loc bs"
    using *(3) by (auto simp: ram_write_region split: option.splits)
  have m: "ram_ok ?m" "ram_region ?m b k = ram_region m b k" for b k
    using ram_shape_eqD [OF ram_shape_record [of m a "of_nat (length bs)"]] *(1) by simp_all
  show "ram_slice m' a (of_nat (length bs)) = Some bs"
    using shape(1) l r ram_load_store_same [OF m(1), of a "of_nat (length bs)" loc bs] m(2) unat_len_u32 [OF *(2)]
    by (simp add: ram_slice_region)
  show "ram_slice m' b k = ram_slice m b k"
    if "unat a + length bs \<le> unat b \<or> unat b + unat k \<le> unat a" for b k
    using shape(1) l r ram_load_store_other [OF m(1), of a "of_nat (length bs)" loc bs b k] m(2)
      unat_len_u32 [OF *(2)] that
    by (cases "ram_region m b k") (simp_all add: ram_slice_region)
qed

text \<open>The guest may place the fast-RAM board anywhere, over chip RAM too. When it does not, the memory is flat.\<close>

definition ram_flat :: "guest_ram \<Rightarrow> bool" where
  "ram_flat ram \<longleftrightarrow> ram_ok ram \<and>
     (case gr_fast_window ram of None \<Rightarrow> True | Some (base, w) \<Rightarrow> CHIP_RAM_END \<le> base)"

lemma ram_flat_shape: "ram_shape ram = ram_shape ram' \<Longrightarrow> ram_flat ram = ram_flat ram'"
  using ram_shape_eqD(2) [of ram ram'] by (simp add: ram_flat_def ram_shape_def)

lemma sub_slice_take_drop: "i + k \<le> e - s \<Longrightarrow> take k (drop i (sub_slice xs (s, e))) = sub_slice xs (s + i, s + i + k)"
  by (simp add: sub_slice_def drop_take add.commute min_def)

lemma ram_region_sub:
  assumes "ram_flat ram" "ram_region ram a n = Some loc" "i + k \<le> unat n"
  shows "\<exists>loc'. ram_region ram (a + of_nat i) (of_nat k) = Some loc' \<and>
    ram_load ram loc' = take k (drop i (ram_load ram loc))"
proof -
  have n: "unat a + unat n < 2 ^ 32"
    using ram_region_bounds [OF assms(2)] by auto
  have u: "unat (a + of_nat i) = unat a + i" "unat (of_nat k :: u32) = k"
    using n assms(3) by (simp_all add: unat_word_ariths unat_of_nat take_bit_eq_mod)
  show ?thesis
  proof (cases "chip_ram_span ram a n")
    case (Some r)
    have r: "unat a + unat n \<le> 0x200000" "loc = InChip (unat a, unat a + unat n)"
      using assms(2) Some iffD1 [OF chip_ram_span_Some Some] by (auto simp: ram_region_def)
    then have "ram_region ram (a + of_nat i) (of_nat k) = Some (InChip (unat a + i, unat a + i + k))"
      using assms(3) u by (simp add: chip_region)
    then show ?thesis using r assms(3) by (simp add: sub_slice_take_drop)
  next
    case None
    then obtain r where r: "fast_ram_span ram a n = Some r" "loc = InFast r"
      using assms(2) by (auto simp: ram_region_def)
    then obtain b w fast where f: "gr_fast_window ram = Some (b, w)" "gr_fast_ram ram = Some fast"
        "unat b + unat w < 2 ^ 32" "unat b \<le> unat a" "unat a + unat n \<le> unat b + unat w"
        "unat a - unat b + unat n \<le> length fast" "r = (unat a - unat b, unat a - unat b + unat n)"
      using fast_ram_span_Some [of ram a n r] by auto
    have "0x200000 \<le> unat b"
      using assms(1) f(1) by (simp add: ram_flat_def word_le_nat_alt)
    then have chip: "chip_ram_span ram (a + of_nat i) (of_nat k) = Some r' \<Longrightarrow>
        k = 0 \<and> r' = (unat a + i, unat a + i)" for r'
      using u f(4) by (auto simp: chip_ram_span_Some)
    have "fast_ram_span ram (a + of_nat i) (of_nat k) =
        Some (unat a - unat b + i, unat a - unat b + i + k)"
      unfolding fast_ram_span_Some using f assms(3) u by auto
    then show ?thesis
      using r f assms(3) chip
      by (cases "chip_ram_span ram (a + of_nat i) (of_nat k)")
         (auto simp: ram_region_def sub_slice_take_drop sub_slice_def [of "gr_chip_ram ram"])
  qed
qed

lemma ram_flat_ok: "ram_flat ram \<Longrightarrow> ram_ok ram"
  by (simp add: ram_flat_def)

interpretation flat_ram: flat_guest_memory ram_flat ram_slice ram_write
proof (intro flat_guest_memory.intro guest_memory.intro flat_guest_memory_axioms.intro)
  fix m a n bs i k
  assume m: "ram_flat m" "ram_slice m a n = Some bs" "i + k \<le> unat n"
  obtain loc where loc: "ram_region m a n = Some loc" "bs = ram_load m loc"
    using m(2) by (auto simp: ram_slice_region)
  show "ram_slice m (a + of_nat i) (of_nat k) = Some (take k (drop i bs))"
    using ram_region_sub [OF m(1) loc(1) m(3)] loc(2) by (auto simp: ram_slice_region)
next
  fix m :: guest_ram and a m' and bs :: "u8 list"
  assume *: "ram_flat m" "length bs < 2 ^ 32" "ram_write m a bs = Some m'"
  note ok = ram_flat_ok [OF *(1)]
  show "ram_flat m'"
    using *(1) ram_flat_shape [OF ram_write_shape [OF ok *(2,3)]] by simp
  show "ram_slice m' b k = None \<longleftrightarrow> ram_slice m b k = None" for b k
    by (rule ram.write_map [OF ok *(2,3)])
  show "ram_slice m' a (of_nat (length bs)) = Some bs"
    by (rule ram.read_same [OF ok *(2,3)])
  show "ram_slice m' b k = ram_slice m b k"
    if "unat a + length bs \<le> unat b \<or> unat b + unat k \<le> unat a" for b k
    by (rule ram.read_other [OF ok *(2,3) that])
qed (auto dest: ram_flat_ok intro: ram.slice_length simp: ram.write_iff ram_flat_ok dest: ram.slice_no_wrap)

text \<open>C4 [safety]: The RAM a device engine is granted is exactly the guest RAM: a span is granted if
  and only if it lies, without wrapping, entirely inside chip RAM or entirely inside both the placed
  fast-RAM window and the fast-RAM buffer, and then the slice has the length asked for.\<close>

theorem guest_ram_grants_exactly_ram:
  assumes "ram_ok ram"
  shows "(ram_slice ram a n \<noteq> None \<longleftrightarrow>
      unat a + unat n \<le> CHIP_RAM_SIZE \<or>
      (\<exists>b w fast. gr_fast_window ram = Some (b, w) \<and> gr_fast_ram ram = Some fast \<and>
         unat b + unat w < 2 ^ 32 \<and> unat b \<le> unat a \<and> unat a + unat n \<le> unat b + unat w \<and>
         unat a - unat b + unat n \<le> length fast)) \<and>
    (\<forall>bs. ram_slice ram a n = Some bs \<longrightarrow> length bs = unat n)"
proof -
  have "chip_ram_span ram a n \<noteq> None \<longleftrightarrow> unat a + unat n \<le> CHIP_RAM_SIZE"
    using chip_ram_span_Some [of ram a n] by (cases "chip_ram_span ram a n") auto
  moreover have "fast_ram_span ram a n \<noteq> None \<longleftrightarrow>
      (\<exists>b w fast. gr_fast_window ram = Some (b, w) \<and> gr_fast_ram ram = Some fast \<and>
         unat b + unat w < 2 ^ 32 \<and> unat b \<le> unat a \<and> unat a + unat n \<le> unat b + unat w \<and>
         unat a - unat b + unat n \<le> length fast)"
    using fast_ram_span_Some [of ram a n] by (cases "fast_ram_span ram a n") blast+
  moreover have "ram_slice ram a n \<noteq> None \<longleftrightarrow> chip_ram_span ram a n \<noteq> None \<or> fast_ram_span ram a n \<noteq> None"
    by (auto simp: ram_slice_region ram_region_def split: option.split)
  ultimately show ?thesis
    using ram.slice_length [OF assms] by blast
qed

lemma ram_write_log:
  assumes "ram_write ram a bs = Some ram'"
  shows "gr_write_log ram' = map_option (\<lambda>log. dwl_record log a (of_nat (length bs))) (gr_write_log ram)"
proof -
  have s: "gr_write_log (ram_store r loc bs) = gr_write_log r" for r loc
    by (cases "(r, loc, bs)" rule: ram_store.cases) simp_all
  show ?thesis
    using assms by (auto simp: ram_write_region s record_write_span_def split: option.splits)
qed

text \<open>A device's store into granted guest RAM is read back unchanged, leaves every
  disjoint span (in either region) and the memory map alone, and is recorded by the attached write
  log.\<close>

lemma guest_ram_read_after_write:
  assumes "ram_ok ram" "length bs < 2 ^ 32" "ram_write ram a bs = Some ram'"
  shows "ram_ok ram' \<and> ram_slice ram' a (of_nat (length bs)) = Some bs \<and>
    (\<forall>b k. unat a + length bs \<le> unat b \<or> unat b + unat k \<le> unat a \<longrightarrow>
       ram_slice ram' b k = ram_slice ram b k) \<and>
    (\<forall>b k. ram_slice ram' b k = None \<longleftrightarrow> ram_slice ram b k = None) \<and>
    gr_write_log ram' = map_option (\<lambda>log. dwl_record log a (of_nat (length bs))) (gr_write_log ram)"
  using ram.write_ok [OF assms] ram.read_same [OF assms] ram.read_other [OF assms]
    ram.write_map [OF assms] ram_write_log [OF assms(3)]
  by blast

definition zero_ram :: guest_ram where
  "zero_ram = gr_new (replicate CHIP_RAM_SIZE 0)"

lemma zero_ram_ok [simp]: "ram_ok zero_ram"
  by (simp add: zero_ram_def gr_new_def ram_ok_def)

theorem guest_ram_grants_exactly_ram_witness:
  "ram_slice zero_ram 0x1FFFFC 4 \<noteq> None \<and> ram_slice zero_ram 0x1FFFFC 5 = None \<and>
   ram_slice zero_ram 0xFFFFFFFF 4 = None"
  using guest_ram_grants_exactly_ram [OF zero_ram_ok, of "0x1FFFFC" 4]
    guest_ram_grants_exactly_ram [OF zero_ram_ok, of "0x1FFFFC" 5]
    guest_ram_grants_exactly_ram [OF zero_ram_ok, of "0xFFFFFFFF" 4]
  by (simp add: zero_ram_def gr_new_def)

theorem guest_ram_read_after_write_witness:
  "\<exists>ram'. ram_write zero_ram 0x100 [1, 2, 3] = Some ram' \<and> ram_slice ram' 0x100 3 = Some [1, 2, 3] \<and>
     ram_slice ram' 0x103 8 = ram_slice zero_ram 0x103 8"
proof -
  obtain ram' where w: "ram_write zero_ram 0x100 [1, 2, 3] = Some ram'"
    by (simp add: ram_write_region chip_region)
  show ?thesis
    using w guest_ram_read_after_write [OF zero_ram_ok _ w] by simp
qed

end
