(* ===== verification/BlockDev.thy ===== *)
theory BlockDev
  imports GuestMem
begin

text \<open>
  The block-device seam of \<open>crates/machine-core/src/block.rs\<close> and the host's implementation of it,
  \<open>FileBlockDevice\<close> in \<open>crates/machine-hosted/src/hd_image.rs\<close>. The trait is a record of operations over
  an abstract device state, the argument of every card that moves sectors. The locale \<open>block_store\<close>
  is what a card may rely on; it is interpreted on \<open>FileBlockDevice\<close> over a model of the host file
  (bytes, seek position and the positions at which the host reports an I/O error).
\<close>

(* src/crates/machine-core/src/block.rs:15-17 SECTOR_BYTES *)
definition SECTOR_BYTES :: nat where [simp]: "SECTOR_BYTES = 512"

text \<open>
  \<open>read_sector\<close> returns the device, the contents of the caller's buffer after the call and the status;
  \<open>write_sector\<close> the device and the status.
\<close>

(* src/crates/machine-core/src/block.rs:19-34 BlockDevice *)
record 'd block_device =
  bd_sector_count :: "'d \<Rightarrow> u64"
  bd_read_sector :: "'d \<Rightarrow> u64 \<Rightarrow> u8 list \<Rightarrow> 'd \<times> u8 list \<times> bool"
  bd_write_sector :: "'d \<Rightarrow> u64 \<Rightarrow> u8 list \<Rightarrow> 'd \<times> bool"

section \<open>The contract of a block store\<close>

locale block_store =
  fixes dev :: "'d block_device"
    and ok :: "'d \<Rightarrow> bool"
    and sector :: "'d \<Rightarrow> nat \<Rightarrow> u8 list"
  assumes sector_length: "ok d \<Longrightarrow> n < unat (bd_sector_count dev d) \<Longrightarrow> length (sector d n) = SECTOR_BYTES"
    and read_law: "ok d \<Longrightarrow> length buf = SECTOR_BYTES \<Longrightarrow> bd_read_sector dev d lba buf = (d', buf', r) \<Longrightarrow>
      ok d' \<and> sector d' = sector d \<and> bd_sector_count dev d' = bd_sector_count dev d \<and>
      length buf' = SECTOR_BYTES \<and>
      (r \<longrightarrow> lba < bd_sector_count dev d \<and> buf' = sector d (unat lba))"
    and write_law: "ok d \<Longrightarrow> length buf = SECTOR_BYTES \<Longrightarrow> bd_write_sector dev d lba buf = (d', r) \<Longrightarrow>
      ok d' \<and> bd_sector_count dev d' = bd_sector_count dev d \<and>
      (r \<longrightarrow> lba < bd_sector_count dev d \<and> sector d' = (sector d)(unat lba := buf)) \<and>
      (\<not> r \<longrightarrow> (\<exists>k. sector d' = (sector d)(unat lba := take k buf @ drop k (sector d (unat lba)))))"

section \<open>The file-backed device\<close>

text \<open>
  The host file: its bytes, the seek position, and which reads and writes the host fails. \<open>hf_fault p = Some k\<close> says that
  an access that starts at position \<open>p\<close> moves at most \<open>k\<close> bytes before it reports its error: the standard library does
  not undo what a failed \<open>read_exact\<close> has put into the buffer or a failed \<open>write_all\<close> has stored.
\<close>

record host_file =
  hf_bytes :: "u8 list"
  hf_pos :: nat
  hf_fault :: "nat \<Rightarrow> nat option"

definition file_seek :: "host_file \<Rightarrow> nat \<Rightarrow> host_file" where
  "file_seek f pos = f\<lparr>hf_pos := pos\<rparr>"

text \<open>\<open>Read::read_exact\<close>, which also fails at the end of the file, and \<open>Write::write_all\<close>.\<close>

definition moved :: "host_file \<Rightarrow> u8 list \<Rightarrow> u8 list" where
  "moved f bs = (case hf_fault f (hf_pos f) of None \<Rightarrow> bs | Some k \<Rightarrow> take k bs)"

lemma length_moved [simp]: "length (moved f bs) \<le> length bs"
  by (simp add: moved_def split: option.split)

definition file_read_exact :: "host_file \<Rightarrow> u8 list \<Rightarrow> host_file \<times> u8 list \<times> bool" where
  "file_read_exact f buf =
     (let avail = take (length buf) (drop (hf_pos f) (hf_bytes f)); got = moved f avail
      in (f\<lparr>hf_pos := hf_pos f + length got\<rparr>, got @ drop (length got) buf,
          hf_fault f (hf_pos f) = None \<and> length avail = length buf))"

definition file_write_all :: "host_file \<Rightarrow> u8 list \<Rightarrow> host_file \<times> bool" where
  "file_write_all f buf =
     (let put = moved f buf
      in (f\<lparr>hf_bytes := splice_at (hf_bytes f) (hf_pos f) put, hf_pos := hf_pos f + length put\<rparr>, hf_fault f (hf_pos f) = None))"

(* src/crates/machine-hosted/src/hd_image.rs:24-29 FileBlockDevice *)
record file_block_device =
  fbd_file :: host_file
  fbd_sector_count :: u64
  fbd_writable :: bool

(* src/crates/machine-hosted/src/hd_image.rs:45-53 FileBlockDevice::open *)
definition fbd_open :: "host_file \<Rightarrow> bool \<Rightarrow> file_block_device" where
  "fbd_open file writable =
     \<lparr>fbd_file = file, fbd_sector_count = of_nat (length (hf_bytes file)) div of_nat SECTOR_BYTES,
      fbd_writable = writable\<rparr>"

(* src/crates/machine-hosted/src/hd_image.rs:66-78 FileBlockDevice::read_sector *)
definition fbd_read_sector :: "file_block_device \<Rightarrow> u64 \<Rightarrow> u8 list \<Rightarrow> file_block_device \<times> u8 list \<times> bool" where
  "fbd_read_sector d lba buf =
     (if lba \<ge> fbd_sector_count d then (d, buf, False)
      else
        let f = file_seek (fbd_file d) (unat (lba * of_nat SECTOR_BYTES));
            (f', buf', r) = file_read_exact f buf
        in (d\<lparr>fbd_file := f'\<rparr>, buf', r))"

(* src/crates/machine-hosted/src/hd_image.rs:80-91 FileBlockDevice::write_sector *)
definition fbd_write_sector :: "file_block_device \<Rightarrow> u64 \<Rightarrow> u8 list \<Rightarrow> file_block_device \<times> bool" where
  "fbd_write_sector d lba buf =
     (if \<not> fbd_writable d \<or> lba \<ge> fbd_sector_count d then (d, False)
      else
        let f = file_seek (fbd_file d) (unat (lba * of_nat SECTOR_BYTES));
            (f', r) = file_write_all f buf
        in (d\<lparr>fbd_file := f'\<rparr>, r))"

(* src/crates/machine-hosted/src/hd_image.rs:61-64 FileBlockDevice::sector_count *)
definition file_dev :: "file_block_device block_device" where
  "file_dev = \<lparr>bd_sector_count = fbd_sector_count, bd_read_sector = fbd_read_sector,
     bd_write_sector = fbd_write_sector\<rparr>"

definition fbd_ok :: "file_block_device \<Rightarrow> bool" where
  "fbd_ok d \<longleftrightarrow> unat (fbd_sector_count d) * 512 \<le> length (hf_bytes (fbd_file d)) \<and>
     unat (fbd_sector_count d) * 512 < 2 ^ 64"

definition fbd_sector :: "file_block_device \<Rightarrow> nat \<Rightarrow> u8 list" where
  "fbd_sector d lba = sub_slice (hf_bytes (fbd_file d)) (lba * 512, lba * 512 + 512)"

lemma file_dev_simps [simp]:
  "bd_sector_count file_dev = fbd_sector_count"
  "bd_read_sector file_dev = fbd_read_sector"
  "bd_write_sector file_dev = fbd_write_sector"
  by (simp_all add: file_dev_def)

lemma fbd_lba_offset:
  assumes "fbd_ok d" "lba < fbd_sector_count d"
  shows "unat (lba * 512) = unat lba * 512" "unat lba * 512 + 512 \<le> length (hf_bytes (fbd_file d))"
proof -
  have "unat lba < unat (fbd_sector_count d)" using assms(2) by (simp add: word_less_nat_alt)
  then have "unat lba * 512 + 512 \<le> unat (fbd_sector_count d) * 512" by simp
  with assms(1) show "unat (lba * 512) = unat lba * 512"
    "unat lba * 512 + 512 \<le> length (hf_bytes (fbd_file d))"
    by (simp_all add: fbd_ok_def unat_word_ariths)
qed

lemma fbd_open_ok: "length (hf_bytes f) < 2 ^ 64 \<Longrightarrow> fbd_ok (fbd_open f w)"
  by (simp add: fbd_ok_def fbd_open_def unat_div unat_of_nat_less)

lemma slice_splice_front:
  assumes "length bs \<le> n" "i + n \<le> length xs"
  shows "sub_slice (splice_at xs i bs) (i, i + n) = bs @ drop (length bs) (sub_slice xs (i, i + n))"
  using assms by (simp add: sub_slice_def splice_at_def drop_take add.commute)

lemma fbd_sector_update:
  assumes "length buf \<le> 512" "unat lba * 512 + 512 \<le> length (hf_bytes (fbd_file d))"
  shows "fbd_sector (d\<lparr>fbd_file := (fbd_file d)\<lparr>hf_bytes := splice_at (hf_bytes (fbd_file d)) (unat lba * 512) buf,
      hf_pos := p\<rparr>\<rparr>) = (fbd_sector d)(unat lba := buf @ drop (length buf) (fbd_sector d (unat lba)))"
proof
  fix k
  show "fbd_sector (d\<lparr>fbd_file := (fbd_file d)\<lparr>hf_bytes := splice_at (hf_bytes (fbd_file d)) (unat lba * 512) buf,
      hf_pos := p\<rparr>\<rparr>) k = ((fbd_sector d)(unat lba := buf @ drop (length buf) (fbd_sector d (unat lba)))) k"
  proof (cases "k = unat lba")
    case True
    then show ?thesis using assms by (simp add: fbd_sector_def slice_splice_front)
  next
    case False
    then have "k * 512 + 512 \<le> unat lba * 512 \<or> unat lba * 512 + 512 \<le> k * 512"
      by linarith
    then show ?thesis
      using False assms by (auto simp: fbd_sector_def intro!: slice_splice_other)
  qed
qed

interpretation file_store: block_store file_dev fbd_ok fbd_sector
proof
  fix d lba
  assume "fbd_ok d" "lba < unat (bd_sector_count file_dev d)"
  then have "lba * 512 + 512 \<le> unat (fbd_sector_count d) * 512" "fbd_ok d" by simp_all
  then show "length (fbd_sector d lba) = SECTOR_BYTES"
    unfolding fbd_ok_def fbd_sector_def sub_slice_def by (auto simp: min_def)
next
  fix d :: file_block_device and buf lba d' buf' r
  assume *: "fbd_ok d" "length buf = SECTOR_BYTES" "bd_read_sector file_dev d lba buf = (d', buf', r)"
  then show "fbd_ok d' \<and> fbd_sector d' = fbd_sector d \<and>
      bd_sector_count file_dev d' = bd_sector_count file_dev d \<and> length buf' = SECTOR_BYTES \<and>
      (r \<longrightarrow> lba < bd_sector_count file_dev d \<and> buf' = fbd_sector d (unat lba))"
    using fbd_lba_offset [OF *(1), of lba]
    by (auto simp: fbd_read_sector_def file_read_exact_def moved_def file_seek_def fbd_ok_def fbd_sector_def Let_def
        sub_slice_def fun_eq_iff not_le split: if_splits option.splits)
next
  fix d :: file_block_device and buf lba d' r
  assume *: "fbd_ok d" "length buf = SECTOR_BYTES" "bd_write_sector file_dev d lba buf = (d', r)"
  have untouched: "\<exists>k. fbd_sector d = (fbd_sector d)(unat lba := take k buf @ drop k (fbd_sector d (unat lba)))"
    by (rule exI [of _ 0]) simp
  show "fbd_ok d' \<and> bd_sector_count file_dev d' = bd_sector_count file_dev d \<and>
      (r \<longrightarrow> lba < bd_sector_count file_dev d \<and> fbd_sector d' = (fbd_sector d)(unat lba := buf)) \<and>
      (\<not> r \<longrightarrow> (\<exists>k. fbd_sector d' = (fbd_sector d)(unat lba := take k buf @ drop k (fbd_sector d (unat lba)))))"
  proof (cases "fbd_writable d \<and> lba < fbd_sector_count d")
    case False
    then have "d' = d" "\<not> r" using *(3) by (auto simp: fbd_write_sector_def not_less)
    then show ?thesis using *(1) untouched by simp
  next
    case True
    then have in_range: "(\<not> fbd_writable d \<or> lba \<ge> fbd_sector_count d) = False" by auto
    have w: "fbd_write_sector d lba buf = (d', r)" using *(3) by simp
    note off = fbd_lba_offset [OF *(1), of lba]
    let ?f = "(fbd_file d)\<lparr>hf_pos := unat lba * 512\<rparr>"
    define put where "put = moved ?f buf"
    have len: "length put \<le> 512" using *(2) by (simp add: put_def moved_def split: option.split)
    have d': "d' = d\<lparr>fbd_file := (fbd_file d)\<lparr>hf_bytes := splice_at (hf_bytes (fbd_file d)) (unat lba * 512) put,
        hf_pos := unat lba * 512 + length put\<rparr>\<rparr>" and r: "r = (hf_fault (fbd_file d) (unat lba * 512) = None)"
      using w [unfolded fbd_write_sector_def in_range if_False Let_def file_write_all_def file_seek_def] off True
      by (auto simp: put_def)
    have "fbd_ok d'" using *(1) len off True by (simp add: d' fbd_ok_def)
    have sec: "fbd_sector d' = (fbd_sector d)(unat lba := put @ drop (length put) (fbd_sector d (unat lba)))"
      unfolding d' using fbd_sector_update [OF len] off True by simp
    have old: "length (fbd_sector d (unat lba)) = 512" using off True by (simp add: fbd_sector_def sub_slice_def)
    have "put = buf" if r using that r by (simp add: put_def moved_def)
    then have ok: "fbd_sector d' = (fbd_sector d)(unat lba := buf)" if r using that sec *(2) old by simp
    have "put = take (length put) buf" by (simp add: put_def moved_def min_def split: option.split)
    then have "\<exists>k. fbd_sector d' = (fbd_sector d)(unat lba := take k buf @ drop k (fbd_sector d (unat lba)))"
      using sec by metis
    then show ?thesis using \<open>fbd_ok d'\<close> ok True by (simp add: d')
  qed
qed

end
