(* ===== verification/Ring.thy ===== *)
theory Ring
  imports Prelude
begin

text \<open>
  The fixed-capacity FIFO rings of the machine. \<open>crates/machine-core/src/hostblk.rs\<close> has the generic
  \<open>Ring<T, N>\<close>; the serial buffers of \<open>chipset.rs\<close>, the keyboard queue of \<open>cia.rs\<close> and the event queue
  of \<open>input.rs\<close> write the same array, head and length out by hand. All of them are related to a
  plain list by \<open>ring_view\<close>, and all of them meet the contract of the locale \<open>bounded_fifo\<close>, whose
  theorems say that no accepted element is lost, duplicated or reordered.
\<close>

section \<open>The ring of hostblk.rs\<close>

(* src/crates/machine-core/src/hostblk.rs:549-557 Ring *)
record 'a ring =
  ring_buf :: "'a list"
  ring_head :: nat
  ring_len :: nat

text \<open>The const parameter \<open>N\<close> of \<open>Ring<T, N>\<close> is the length of the array \<open>buf\<close>.\<close>

(* src/crates/machine-core/src/hostblk.rs:560-566 Ring::new *)
definition ring_new :: "nat \<Rightarrow> 'a \<Rightarrow> 'a ring" where
  "ring_new n dflt = \<lparr>ring_buf = replicate n dflt, ring_head = 0, ring_len = 0\<rparr>"

(* src/crates/machine-core/src/hostblk.rs:568-579 Ring::push *)
definition ring_push :: "'a ring \<Rightarrow> 'a \<Rightarrow> 'a ring \<times> bool" where
  "ring_push r value =
     (if ring_len r = length (ring_buf r) then (r, False)
      else
        let idx = (ring_head r + ring_len r) mod length (ring_buf r)
        in (r\<lparr>ring_buf := (ring_buf r)[idx := value], ring_len := ring_len r + 1\<rparr>, True))"

(* src/crates/machine-core/src/hostblk.rs:581-589 Ring::pop *)
definition ring_pop :: "'a ring \<Rightarrow> 'a ring \<times> 'a option" where
  "ring_pop r =
     (if ring_len r = 0 then (r, None)
      else
        let value = ring_buf r ! ring_head r
        in (r\<lparr>ring_head := (ring_head r + 1) mod length (ring_buf r), ring_len := ring_len r - 1\<rparr>,
            Some value))"

(* src/crates/machine-core/src/hostblk.rs:591-597 Ring::peek *)
definition ring_peek :: "'a ring \<Rightarrow> 'a option" where
  "ring_peek r = (if ring_len r = 0 then None else Some (ring_buf r ! ring_head r))"

(* src/crates/machine-core/src/hostblk.rs:603-605 Ring::is_full *)
definition ring_is_full :: "'a ring \<Rightarrow> bool" where
  "ring_is_full r = (ring_len r = length (ring_buf r))"

section \<open>The list a ring stands for\<close>

definition ring_view :: "'a list \<Rightarrow> nat \<Rightarrow> nat \<Rightarrow> 'a list" where
  "ring_view buf h l = map (\<lambda>i. buf ! ((h + i) mod length buf)) [0..<l]"

definition ring_ok :: "'a list \<Rightarrow> nat \<Rightarrow> nat \<Rightarrow> bool" where
  "ring_ok buf h l \<longleftrightarrow> h < length buf \<and> l \<le> length buf"

lemma length_ring_view [simp]: "length (ring_view buf h l) = l"
  by (simp add: ring_view_def)

lemma ring_view_0 [simp]: "ring_view buf h 0 = []"
  by (simp add: ring_view_def)

lemma nth_ring_view: "i < l \<Longrightarrow> ring_view buf h l ! i = buf ! ((h + i) mod length buf)"
  by (simp add: ring_view_def)

lemma ring_slot_less:
  "i < j \<Longrightarrow> j < n \<Longrightarrow> (h + i) mod n \<noteq> (h + j) mod (n :: nat)"
proof
  assume "i < j" "j < n" "(h + i) mod n = (h + j) mod n"
  then have "n dvd (h + j) - (h + i)"
    using mod_eq_dvd_iff_nat [of "h + i" "h + j" n] by simp
  with \<open>i < j\<close> \<open>j < n\<close> show False
    by (simp add: nat_dvd_not_less)
qed

lemma ring_slot_inj:
  "(h + i) mod n = (h + j) mod n \<Longrightarrow> i < n \<Longrightarrow> j < n \<Longrightarrow> i = (j :: nat)"
  using ring_slot_less [of i j n h] ring_slot_less [of j i n h] by (cases i j rule: linorder_cases) auto

lemma ring_slot_bound: "l \<le> length buf \<Longrightarrow> i < l \<Longrightarrow> h mod length buf < length buf"
  by (intro mod_less_divisor) linarith

lemma ring_view_push:
  assumes "l < length buf"
  shows "ring_view (buf[(h + l) mod length buf := x]) h (l + 1) = ring_view buf h l @ [x]"
proof (rule nth_equalityI)
  fix i assume "i < length (ring_view (buf[(h + l) mod length buf := x]) h (l + 1))"
  then have i: "i \<le> l" by simp
  have "(h + l) mod length buf < length buf" using assms by (intro ring_slot_bound) auto
  moreover have "(h + i) mod length buf = (h + l) mod length buf \<longleftrightarrow> i = l"
    using ring_slot_inj [of h i "length buf" l] i assms by auto
  ultimately show "ring_view (buf[(h + l) mod length buf := x]) h (l + 1) ! i
      = (ring_view buf h l @ [x]) ! i"
    using i assms by (auto simp: nth_ring_view nth_append nth_list_update)
qed simp

lemma ring_view_overwrite:
  assumes "i < l" "l \<le> length buf"
  shows "ring_view (buf[(h + i) mod length buf := x]) h l = (ring_view buf h l)[i := x]"
proof (rule nth_equalityI)
  fix j assume "j < length (ring_view (buf[(h + i) mod length buf := x]) h l)"
  then have j: "j < l" by simp
  have "(h + i) mod length buf < length buf" using assms by (intro ring_slot_bound) auto
  moreover have "(h + j) mod length buf = (h + i) mod length buf \<longleftrightarrow> j = i"
    using ring_slot_inj [of h j "length buf" i] j assms by auto
  ultimately show "ring_view (buf[(h + i) mod length buf := x]) h l ! j
      = (ring_view buf h l)[i := x] ! j"
    using j by (auto simp: nth_ring_view nth_list_update)
qed simp

lemma ring_view_Suc:
  "ring_view buf h (Suc l) = buf ! (h mod length buf) # ring_view buf ((h + 1) mod length buf) l"
proof (rule nth_equalityI)
  fix i assume "i < length (ring_view buf h (Suc l))"
  then show "ring_view buf h (Suc l) ! i
      = (buf ! (h mod length buf) # ring_view buf ((h + 1) mod length buf) l) ! i"
    by (cases i) (auto simp: nth_ring_view mod_add_left_eq)
qed simp

lemma ring_view_pop:
  assumes "0 < l" "h < length buf"
  shows "ring_view buf h l = buf ! h # ring_view buf ((h + 1) mod length buf) (l - 1)"
  using ring_view_Suc [of buf h "l - 1"] assms by simp

section \<open>The contract of a bounded FIFO\<close>

datatype 'a fifo_op = Push 'a | Pop

text \<open>
  \<open>fifo_run\<close> drives a queue through a sequence of operations and returns the final queue, the
  pushes that were accepted and the elements that were popped, both oldest first.
\<close>

fun fifo_run :: "('q \<Rightarrow> 'a \<Rightarrow> 'q \<times> bool) \<Rightarrow> ('q \<Rightarrow> 'q \<times> 'a option) \<Rightarrow> 'q \<Rightarrow> 'a fifo_op list \<Rightarrow>
    'q \<times> 'a list \<times> 'a list" where
  "fifo_run push pop q [] = (q, [], [])"
| "fifo_run push pop q (Push x # ops) =
     (let (q1, ok) = push q x; (q2, acc, out) = fifo_run push pop q1 ops
      in (q2, if ok then x # acc else acc, out))"
| "fifo_run push pop q (Pop # ops) =
     (let (q1, v) = pop q; (q2, acc, out) = fifo_run push pop q1 ops
      in (q2, acc, case v of None \<Rightarrow> out | Some x \<Rightarrow> x # out))"

locale bounded_fifo =
  fixes cap :: nat
    and wf :: "'q \<Rightarrow> bool"
    and items :: "'q \<Rightarrow> 'a list"
    and push :: "'q \<Rightarrow> 'a \<Rightarrow> 'q \<times> bool"
    and pop :: "'q \<Rightarrow> 'q \<times> 'a option"
  assumes items_cap: "wf q \<Longrightarrow> length (items q) \<le> cap"
    and push_room: "wf q \<Longrightarrow> length (items q) < cap \<Longrightarrow>
      \<exists>q'. push q x = (q', True) \<and> wf q' \<and> items q' = items q @ [x]"
    and push_full: "wf q \<Longrightarrow> length (items q) = cap \<Longrightarrow>
      \<exists>q'. push q x = (q', False) \<and> wf q' \<and> items q' = items q"
    and pop_nil: "wf q \<Longrightarrow> items q = [] \<Longrightarrow>
      \<exists>q'. pop q = (q', None) \<and> wf q' \<and> items q' = []"
    and pop_cons: "wf q \<Longrightarrow> items q = x # xs \<Longrightarrow>
      \<exists>q'. pop q = (q', Some x) \<and> wf q' \<and> items q' = xs"
begin

lemma push_cases:
  assumes "wf q"
  obtains (accepted) q' where "push q x = (q', True)" "wf q'" "items q' = items q @ [x]"
      "length (items q) < cap"
    | (dropped) q' where "push q x = (q', False)" "wf q'" "items q' = items q"
      "length (items q) = cap"
  using items_cap [OF assms] push_room [OF assms, of x] push_full [OF assms, of x]
  by (metis le_neq_implies_less)

lemma pop_cases:
  assumes "wf q"
  obtains (empty) q' where "pop q = (q', None)" "wf q'" "items q = []" "items q' = []"
    | (front) q' x where "pop q = (q', Some x)" "wf q'" "items q = x # items q'"
  using pop_nil [OF assms] pop_cons [OF assms] by (metis neq_Nil_conv)

lemma run_conserves:
  "wf q \<Longrightarrow> fifo_run push pop q ops = (q', acc, out) \<Longrightarrow> wf q' \<and> items q @ acc = out @ items q'"
proof (induction ops arbitrary: q q' acc out)
  case Nil
  then show ?case by simp
next
  case (Cons a ops)
  note wf = \<open>wf q\<close> and run = Cons.prems(2)
  show ?case
  proof (cases a)
    case (Push x)
    show ?thesis
      by (cases rule: push_cases [OF wf, where x = x])
         (use run Push in \<open>auto split: prod.splits dest!: Cons.IH [rotated]\<close>)
  next
    case Pop
    show ?thesis
      by (cases rule: pop_cases [OF wf])
         (use run Pop in \<open>auto split: prod.splits dest!: Cons.IH [rotated]\<close>)
  qed
qed

end

section \<open>The hostblk ring meets the contract\<close>

definition ring_items :: "'a ring \<Rightarrow> 'a list" where
  "ring_items r = ring_view (ring_buf r) (ring_head r) (ring_len r)"

definition ring_wf :: "nat \<Rightarrow> 'a ring \<Rightarrow> bool" where
  "ring_wf n r \<longleftrightarrow> 0 < n \<and> length (ring_buf r) = n \<and> ring_ok (ring_buf r) (ring_head r) (ring_len r)"

lemma length_ring_items [simp]: "length (ring_items r) = ring_len r"
  by (simp add: ring_items_def)

lemma ring_new_wf [simp]: "0 < n \<Longrightarrow> ring_wf n (ring_new n d)"
  by (simp add: ring_wf_def ring_new_def ring_ok_def)

lemma ring_new_items [simp]: "ring_items (ring_new n d) = []"
  by (simp add: ring_items_def ring_new_def)

lemma ring_push_room:
  assumes "ring_wf n r" "ring_len r < n"
  shows "\<exists>r'. ring_push r x = (r', True) \<and> ring_wf n r' \<and> ring_items r' = ring_items r @ [x]"
  using assms ring_view_push [of "ring_len r" "ring_buf r" "ring_head r" x]
  by (auto simp: ring_push_def ring_wf_def ring_ok_def ring_items_def Let_def)

lemma ring_push_full:
  "ring_wf n r \<Longrightarrow> ring_len r = n \<Longrightarrow> ring_push r x = (r, False)"
  by (simp add: ring_push_def ring_wf_def)

lemma ring_pop_items:
  assumes "ring_wf n r" "0 < ring_len r"
  shows "\<exists>r'. ring_pop r = (r', Some (ring_buf r ! ring_head r)) \<and> ring_wf n r' \<and>
    ring_items r = (ring_buf r ! ring_head r) # ring_items r'"
  using assms ring_view_pop [of "ring_len r" "ring_head r" "ring_buf r"]
  by (auto simp: ring_pop_def ring_wf_def ring_ok_def ring_items_def Let_def)

lemma ring_pop_empty: "ring_len r = 0 \<Longrightarrow> ring_pop r = (r, None)"
  by (simp add: ring_pop_def)

lemma ring_peek_items: "ring_wf n r \<Longrightarrow>
    ring_peek r = (case ring_items r of [] \<Rightarrow> None | x # _ \<Rightarrow> Some x)"
  using ring_view_pop [of "ring_len r" "ring_head r" "ring_buf r"]
  by (auto simp: ring_peek_def ring_items_def ring_wf_def ring_ok_def)

lemma ring_is_full_items: "ring_wf n r \<Longrightarrow> ring_is_full r \<longleftrightarrow> length (ring_items r) = n"
  by (simp add: ring_is_full_def ring_wf_def)

interpretation hb_ring: bounded_fifo n "ring_wf n" ring_items ring_push ring_pop
  for n :: nat
proof unfold_locales
  fix q :: "'a ring" and x assume "ring_wf n q"
  then show "length (ring_items q) \<le> n"
    by (simp add: ring_wf_def ring_ok_def)
next
  fix q :: "'a ring" and x assume "ring_wf n q" "length (ring_items q) < n"
  then show "\<exists>q'. ring_push q x = (q', True) \<and> ring_wf n q' \<and> ring_items q' = ring_items q @ [x]"
    by (simp add: ring_push_room)
next
  fix q :: "'a ring" and x assume "ring_wf n q" "length (ring_items q) = n"
  then show "\<exists>q'. ring_push q x = (q', False) \<and> ring_wf n q' \<and> ring_items q' = ring_items q"
    by (simp add: ring_push_full)
next
  fix q :: "'a ring" assume "ring_wf n q" "ring_items q = []"
  then show "\<exists>q'. ring_pop q = (q', None) \<and> ring_wf n q' \<and> ring_items q' = []"
    by (metis length_ring_items list.size(3) ring_pop_empty)
next
  fix q :: "'a ring" and x xs assume a: "ring_wf n q" "ring_items q = x # xs"
  then have "0 < ring_len q"
    by (metis length_greater_0_conv length_ring_items list.distinct(1))
  from ring_pop_items [OF a(1) this] a(2)
  show "\<exists>q'. ring_pop q = (q', Some x) \<and> ring_wf n q' \<and> ring_items q' = xs"
    by auto
qed

end
