(* ===== verification/Hostblk.thy ===== *)
theory Hostblk
  imports BlockDev Ring Fastram
begin

text \<open>
  The paravirtual block card of \<open>crates/machine-core/src/hostblk.rs\<close>: a register file through which the
  guest submits descriptor pointers, a bounded submission ring, a transfer engine that executes at
  most one descriptor per tick straight between guest RAM and a block device, and a bounded
  completion ring. Shown: no accepted request is ever lost, duplicated or reordered; every request
  completes; each transfer moves exactly the sectors it names and reports how far it got; a rejected
  request touches neither guest RAM nor a device; what a WRITE stores a READ returns.
\<close>

section \<open>Constants and data\<close>

(* src/crates/machine-core/src/hostblk.rs:288-288 MANUFACTURER *)
definition HB_MANUFACTURER :: u16 where [simp]: "HB_MANUFACTURER = 0x07DB"
(* src/crates/machine-core/src/hostblk.rs:290-295 PRODUCT *)
definition HB_PRODUCT :: u8 where [simp]: "HB_PRODUCT = 1"
(* src/crates/machine-core/src/hostblk.rs:297-306 WINDOW_BYTES *)
definition HB_WINDOW_BYTES :: u32 where [simp]: "HB_WINDOW_BYTES = 0x01000000"
(* src/crates/machine-core/src/hostblk.rs:338-349 ROM_BASE *)
definition HB_ROM_BASE :: u32 where [simp]: "HB_ROM_BASE = 0x1000"
(* src/crates/machine-core/src/hostblk.rs:376-381 UNIT_COUNT *)
definition HB_UNIT_COUNT :: nat where [simp]: "HB_UNIT_COUNT = 8"
(* src/crates/machine-core/src/hostblk.rs:383-385 SUBMIT_QUEUE_CAPACITY *)
definition HB_SUBMIT_QUEUE_CAPACITY :: nat where [simp]: "HB_SUBMIT_QUEUE_CAPACITY = 8"
(* src/crates/machine-core/src/hostblk.rs:387-389 COMPLETION_QUEUE_CAPACITY *)
definition HB_COMPLETION_QUEUE_CAPACITY :: nat where [simp]: "HB_COMPLETION_QUEUE_CAPACITY = 8"
(* src/crates/machine-core/src/hostblk.rs:391-395 DESC_LEN *)
definition HB_DESC_LEN :: u32 where [simp]: "HB_DESC_LEN = 20"

(* src/crates/machine-core/src/hostblk.rs:405-408 reg::UNIT_SELECT *)
definition HB_UNIT_SELECT :: u32 where [simp]: "HB_UNIT_SELECT = 0x00"
(* src/crates/machine-core/src/hostblk.rs:409-410 reg::UNIT_PRESENT *)
definition HB_UNIT_PRESENT :: u32 where [simp]: "HB_UNIT_PRESENT = 0x04"
(* src/crates/machine-core/src/hostblk.rs:411-413 reg::UNIT_WRITE_PROTECT *)
definition HB_UNIT_WRITE_PROTECT :: u32 where [simp]: "HB_UNIT_WRITE_PROTECT = 0x08"
(* src/crates/machine-core/src/hostblk.rs:414-417 reg::UNIT_CHANGE_COUNT *)
definition HB_UNIT_CHANGE_COUNT :: u32 where [simp]: "HB_UNIT_CHANGE_COUNT = 0x0C"
(* src/crates/machine-core/src/hostblk.rs:418-419 reg::UNIT_SECTORS_HI *)
definition HB_UNIT_SECTORS_HI :: u32 where [simp]: "HB_UNIT_SECTORS_HI = 0x10"
(* src/crates/machine-core/src/hostblk.rs:420-421 reg::UNIT_SECTORS_LO *)
definition HB_UNIT_SECTORS_LO :: u32 where [simp]: "HB_UNIT_SECTORS_LO = 0x14"
(* src/crates/machine-core/src/hostblk.rs:422-425 reg::DOORBELL *)
definition HB_DOORBELL :: u32 where [simp]: "HB_DOORBELL = 0x18"
(* src/crates/machine-core/src/hostblk.rs:426-428 reg::SUBMIT_OVERFLOW *)
definition HB_SUBMIT_OVERFLOW :: u32 where [simp]: "HB_SUBMIT_OVERFLOW = 0x1C"
(* src/crates/machine-core/src/hostblk.rs:429-431 reg::COMPLETION_PTR *)
definition HB_COMPLETION_PTR :: u32 where [simp]: "HB_COMPLETION_PTR = 0x20"
(* src/crates/machine-core/src/hostblk.rs:432-434 reg::COMPLETION_ERROR *)
definition HB_COMPLETION_ERROR :: u32 where [simp]: "HB_COMPLETION_ERROR = 0x24"
(* src/crates/machine-core/src/hostblk.rs:435-436 reg::COMPLETION_ACTUAL *)
definition HB_COMPLETION_ACTUAL :: u32 where [simp]: "HB_COMPLETION_ACTUAL = 0x28"
(* src/crates/machine-core/src/hostblk.rs:437-439 reg::COMPLETION_ADVANCE *)
definition HB_COMPLETION_ADVANCE :: u32 where [simp]: "HB_COMPLETION_ADVANCE = 0x2C"
(* src/crates/machine-core/src/hostblk.rs:440-443 reg::COMPLETION_COUNT *)
definition HB_COMPLETION_COUNT :: u32 where [simp]: "HB_COMPLETION_COUNT = 0x30"
(* src/crates/machine-core/src/hostblk.rs:444-447 reg::INT_ENABLE *)
definition HB_INT_ENABLE :: u32 where [simp]: "HB_INT_ENABLE = 0x34"
(* src/crates/machine-core/src/hostblk.rs:448-458 reg::SUBMIT_CAPACITY *)
definition HB_SUBMIT_CAPACITY :: u32 where [simp]: "HB_SUBMIT_CAPACITY = 0x38"
(* src/crates/machine-core/src/hostblk.rs:459-467 reg::VERSION *)
definition HB_VERSION :: u32 where [simp]: "HB_VERSION = 0x3C"
(* src/crates/machine-core/src/hostblk.rs:470-471 PROTOCOL_VERSION *)
definition HB_PROTOCOL_VERSION :: u32 where [simp]: "HB_PROTOCOL_VERSION = 1"

(* src/crates/machine-core/src/hostblk.rs:475-475 cmd::READ *)
definition CMD_READ :: u8 where [simp]: "CMD_READ = 1"
(* src/crates/machine-core/src/hostblk.rs:476-476 cmd::WRITE *)
definition CMD_WRITE :: u8 where [simp]: "CMD_WRITE = 2"
(* src/crates/machine-core/src/hostblk.rs:477-479 cmd::FLUSH *)
definition CMD_FLUSH :: u8 where [simp]: "CMD_FLUSH = 3"

(* src/crates/machine-core/src/hostblk.rs:488-489 err::OK *)
definition ERR_OK :: u8 where [simp]: "ERR_OK = 0"
(* src/crates/machine-core/src/hostblk.rs:490-492 err::BAD_UNIT *)
definition ERR_BAD_UNIT :: u8 where [simp]: "ERR_BAD_UNIT = 1"
(* src/crates/machine-core/src/hostblk.rs:493-494 err::WRITE_PROTECTED *)
definition ERR_WRITE_PROTECTED :: u8 where [simp]: "ERR_WRITE_PROTECTED = 2"
(* src/crates/machine-core/src/hostblk.rs:495-497 err::INVALID_COMMAND *)
definition ERR_INVALID_COMMAND :: u8 where [simp]: "ERR_INVALID_COMMAND = 3"
(* src/crates/machine-core/src/hostblk.rs:498-499 err::INVALID_LENGTH *)
definition ERR_INVALID_LENGTH :: u8 where [simp]: "ERR_INVALID_LENGTH = 4"
(* src/crates/machine-core/src/hostblk.rs:500-501 err::MISALIGNED *)
definition ERR_MISALIGNED :: u8 where [simp]: "ERR_MISALIGNED = 5"
(* src/crates/machine-core/src/hostblk.rs:502-504 err::OUT_OF_RANGE *)
definition ERR_OUT_OF_RANGE :: u8 where [simp]: "ERR_OUT_OF_RANGE = 6"
(* src/crates/machine-core/src/hostblk.rs:505-508 err::BAD_ADDRESS *)
definition ERR_BAD_ADDRESS :: u8 where [simp]: "ERR_BAD_ADDRESS = 7"
(* src/crates/machine-core/src/hostblk.rs:509-512 err::IO_ERROR *)
definition ERR_IO_ERROR :: u8 where [simp]: "ERR_IO_ERROR = 8"

(* src/crates/machine-core/src/hostblk.rs:515-538 Descriptor *)
record descriptor =
  desc_command :: u8
  desc_unit :: u8
  desc_length :: u32
  desc_offset :: u64
  desc_buffer :: u32

(* src/crates/machine-core/src/hostblk.rs:540-547 CompletionEntry *)
record completion_entry =
  ce_ptr :: u32
  ce_error :: u8
  ce_actual :: u32

(* src/crates/machine-core/src/hostblk.rs:608-616 Unit *)
record 'd hb_unit =
  un_device :: 'd
  un_write_protect :: bool
  un_change_count :: u32

(* src/crates/machine-core/src/hostblk.rs:618-634 Hostblk *)
record 'd hostblk =
  hb_units :: "'d hb_unit option list"
  hb_unit_select :: u8
  hb_doorbell_acc :: u32
  hb_submit_queue :: "u32 ring"
  hb_submit_overflow :: u32
  hb_completion_queue :: "completion_entry ring"
  hb_int_enable :: u8

section \<open>Operations\<close>

(* src/crates/machine-core/src/hostblk.rs:637-647 Hostblk::new *)
definition hb_new :: "'d hostblk" where
  "hb_new = \<lparr>hb_units = replicate HB_UNIT_COUNT None, hb_unit_select = 0, hb_doorbell_acc = 0,
     hb_submit_queue = ring_new HB_SUBMIT_QUEUE_CAPACITY 0, hb_submit_overflow = 0,
     hb_completion_queue = ring_new HB_COMPLETION_QUEUE_CAPACITY \<lparr>ce_ptr = 0, ce_error = 0, ce_actual = 0\<rparr>,
     hb_int_enable = 0\<rparr>"

(* src/crates/machine-core/src/hostblk.rs:649-661 Hostblk::board_spec *)
definition hb_board_spec :: board_spec where
  "hb_board_spec = \<lparr>board_type = ERT_ZORROIII OR ERTF_DIAGVALID, product = HB_PRODUCT,
     flags = ERFF_ZORRO_III OR ERFF_EXTENDED, manufacturer = HB_MANUFACTURER, serial = 0,
     init_diag_vec = ucast HB_ROM_BASE, size_bytes = HB_WINDOW_BYTES\<rparr>"

(* src/crates/machine-core/src/hostblk.rs:663-675 Hostblk::attach_unit *)
definition hb_attach_unit :: "'d hostblk \<Rightarrow> u8 \<Rightarrow> 'd \<Rightarrow> bool \<Rightarrow> 'd hostblk" where
  "hb_attach_unit hb unit device write_protect =
     (if unat unit < length (hb_units hb) then
        hb\<lparr>hb_units := (hb_units hb)[unat unit :=
          Some \<lparr>un_device = device, un_write_protect = write_protect, un_change_count = 0\<rparr>]\<rparr>
      else hb)"

(* src/crates/machine-core/src/hostblk.rs:677-684 Hostblk::notify_media_change *)
definition hb_notify_media_change :: "'d hostblk \<Rightarrow> u8 \<Rightarrow> 'd hostblk" where
  "hb_notify_media_change hb unit =
     (case get_flat (hb_units hb) (unat unit) of
        None \<Rightarrow> hb
      | Some u \<Rightarrow> hb\<lparr>hb_units := (hb_units hb)[unat unit :=
          Some (u\<lparr>un_change_count := un_change_count u + 1\<rparr>)]\<rparr>)"

(* src/crates/machine-core/src/hostblk.rs:686-690 Hostblk::irq_pending *)
definition hb_irq_pending :: "'d hostblk \<Rightarrow> bool" where
  "hb_irq_pending hb \<longleftrightarrow> hb_int_enable hb \<noteq> 0 \<and> ring_len (hb_completion_queue hb) > 0"

(* src/crates/machine-core/src/hostblk.rs:731-742 Hostblk::unit_index *)
definition hb_unit_index :: "'d hostblk \<Rightarrow> u8 \<Rightarrow> nat option" where
  "hb_unit_index hb unit =
     (let u = unat unit
      in if u < HB_UNIT_COUNT \<and> hb_units hb ! u \<noteq> None then Some u else None)"

(* src/crates/machine-core/src/hostblk.rs:744-773 Hostblk::read_descriptor *)
definition hb_read_descriptor :: "u32 \<Rightarrow> guest_ram \<Rightarrow> descriptor option" where
  "hb_read_descriptor ptr mem =
     (if ptr mod 4 \<noteq> 0 then None
      else case ram_slice mem ptr HB_DESC_LEN of
          None \<Rightarrow> None
        | Some d \<Rightarrow> Some \<lparr>desc_command = d ! 0, desc_unit = d ! 1,
            desc_length = from_be (sub_slice d (4, 8)), desc_offset = from_be (sub_slice d (8, 16)),
            desc_buffer = from_be (sub_slice d (16, 20))\<rparr>)"

text \<open>
  The sector loop of \<open>transfer\<close>: \<open>n\<close> sectors are left, the next one is number \<open>i\<close>. The granted slice
  \<open>buf\<close> is borrowed for the whole loop.
\<close>

(* src/crates/machine-core/src/hostblk.rs:813-832 Hostblk::transfer *)
fun hb_sectors :: "'d block_device \<Rightarrow> bool \<Rightarrow> u64 \<Rightarrow> nat \<Rightarrow> nat \<Rightarrow> 'd \<Rightarrow> u8 list \<Rightarrow> u8 list \<Rightarrow> u32 \<Rightarrow>
    'd \<times> u8 list \<times> u8 \<times> u32" where
  "hb_sectors dev is_write start_lba i 0 d buf sector_buf actual = (d, buf, ERR_OK, actual)"
| "hb_sectors dev is_write start_lba i (Suc n) d buf sector_buf actual =
     (let lba = start_lba + of_nat i; off = i * SECTOR_BYTES in
      if is_write then
        let sector_buf' = sub_slice buf (off, off + SECTOR_BYTES);
            (d', r) = bd_write_sector dev d lba sector_buf'
        in if \<not> r then (d', buf, ERR_IO_ERROR, actual)
           else hb_sectors dev is_write start_lba (i + 1) n d' buf sector_buf' (actual + of_nat SECTOR_BYTES)
      else
        let (d', sector_buf', r) = bd_read_sector dev d lba sector_buf
        in if \<not> r then (d', buf, ERR_IO_ERROR, actual)
           else hb_sectors dev is_write start_lba (i + 1) n d' (splice_at buf off sector_buf') sector_buf'
             (actual + of_nat SECTOR_BYTES))"

(* src/crates/machine-core/src/hostblk.rs:775-833 Hostblk::transfer *)
definition hb_transfer :: "'d block_device \<Rightarrow> 'd hostblk \<Rightarrow> nat \<Rightarrow> descriptor \<Rightarrow> guest_ram \<Rightarrow> bool \<Rightarrow>
    'd hostblk \<times> guest_ram \<times> u8 \<times> u32" where
  "hb_transfer dev hb unit desc mem is_write =
     (let u = the (hb_units hb ! unit) in
      if is_write \<and> un_write_protect u then (hb, mem, ERR_WRITE_PROTECTED, 0)
      else if desc_length desc = 0 \<or> desc_length desc mod of_nat SECTOR_BYTES \<noteq> 0 then
        (hb, mem, ERR_INVALID_LENGTH, 0)
      else if desc_offset desc mod of_nat SECTOR_BYTES \<noteq> 0 then (hb, mem, ERR_MISALIGNED, 0)
      else
        let sector_count = desc_length desc div of_nat SECTOR_BYTES;
            start_lba = desc_offset desc div of_nat SECTOR_BYTES
        in case checked_add_u64 start_lba (ucast sector_count) of
             None \<Rightarrow> (hb, mem, ERR_OUT_OF_RANGE, 0)
           | Some end_lba \<Rightarrow>
               if end_lba > bd_sector_count dev (un_device u) then (hb, mem, ERR_OUT_OF_RANGE, 0)
               else case ram_slice_mut mem (desc_buffer desc) (desc_length desc) of
                   (mem', None) \<Rightarrow> (hb, mem', ERR_BAD_ADDRESS, 0)
                 | (mem', Some loc) \<Rightarrow>
                     let (d', buf', error, actual) =
                           hb_sectors dev is_write start_lba 0 (unat sector_count) (un_device u)
                             (ram_load mem' loc) (replicate SECTOR_BYTES 0) 0
                     in (hb\<lparr>hb_units := (hb_units hb)[unit := Some (u\<lparr>un_device := d'\<rparr>)]\<rparr>,
                         ram_store mem' loc buf', error, actual))"

(* src/crates/machine-core/src/hostblk.rs:716-729 Hostblk::execute *)
definition hb_execute :: "'d block_device \<Rightarrow> 'd hostblk \<Rightarrow> u32 \<Rightarrow> guest_ram \<Rightarrow>
    'd hostblk \<times> guest_ram \<times> u8 \<times> u32" where
  "hb_execute dev hb ptr mem =
     (case hb_read_descriptor ptr mem of
        None \<Rightarrow> (hb, mem, ERR_BAD_ADDRESS, 0)
      | Some desc \<Rightarrow>
          (case hb_unit_index hb (desc_unit desc) of
             None \<Rightarrow> (hb, mem, ERR_BAD_UNIT, 0)
           | Some unit \<Rightarrow>
               if desc_command desc = CMD_READ then hb_transfer dev hb unit desc mem False
               else if desc_command desc = CMD_WRITE then hb_transfer dev hb unit desc mem True
               else if desc_command desc = CMD_FLUSH then (hb, mem, ERR_OK, 0)
               else (hb, mem, ERR_INVALID_COMMAND, 0)))"

(* src/crates/machine-core/src/hostblk.rs:692-714 Hostblk::tick *)
definition hb_tick :: "'d block_device \<Rightarrow> 'd hostblk \<Rightarrow> guest_ram \<Rightarrow> 'd hostblk \<times> guest_ram" where
  "hb_tick dev hb mem =
     (if ring_is_full (hb_completion_queue hb) then (hb, mem)
      else case ring_pop (hb_submit_queue hb) of
          (q, None) \<Rightarrow> (hb\<lparr>hb_submit_queue := q\<rparr>, mem)
        | (q, Some ptr) \<Rightarrow>
            let (hb', mem', error, actual) = hb_execute dev (hb\<lparr>hb_submit_queue := q\<rparr>) ptr mem;
                (cq, pushed) = ring_push (hb_completion_queue hb')
                  \<lparr>ce_ptr = ptr, ce_error = error, ce_actual = actual\<rparr>
            in (hb'\<lparr>hb_completion_queue := cq\<rparr>, mem'))"

(* src/crates/machine-core/src/hostblk.rs:835-845 Hostblk::selected_unit *)
definition hb_selected_unit :: "'d hostblk \<Rightarrow> 'd hb_unit option" where
  "hb_selected_unit hb =
     (let u = unat (hb_unit_select hb) in if u < HB_UNIT_COUNT then hb_units hb ! u else None)"

text \<open>\<open>DIAG_ROM\<close> is the vendored boot ROM image, an argument of the register read.\<close>

(* src/crates/machine-core/src/hostblk.rs:847-912 Hostblk::read *)
definition hb_read :: "'d block_device \<Rightarrow> u8 list \<Rightarrow> 'd hostblk \<Rightarrow> u32 \<Rightarrow> u8" where
  "hb_read dev DIAG_ROM hb offset =
     (let sectors = (case hb_selected_unit hb of None \<Rightarrow> 0 | Some u \<Rightarrow> bd_sector_count dev (un_device u));
          head = ring_peek (hb_completion_queue hb) in
      if in_slot offset HB_UNIT_SELECT then low_byte offset HB_UNIT_SELECT (hb_unit_select hb)
      else if in_slot offset HB_UNIT_PRESENT then
        low_byte offset HB_UNIT_PRESENT (if hb_selected_unit hb \<noteq> None then 1 else 0)
      else if in_slot offset HB_UNIT_WRITE_PROTECT then
        low_byte offset HB_UNIT_WRITE_PROTECT
          (case hb_selected_unit hb of None \<Rightarrow> 0 | Some u \<Rightarrow> if un_write_protect u then 1 else 0)
      else if in_slot offset HB_UNIT_CHANGE_COUNT then
        byte_of (case hb_selected_unit hb of None \<Rightarrow> 0 | Some u \<Rightarrow> un_change_count u)
          (offset - HB_UNIT_CHANGE_COUNT)
      else if in_slot offset HB_UNIT_SECTORS_HI then
        byte_of (ucast (drop_bit 32 sectors)) (offset - HB_UNIT_SECTORS_HI)
      else if in_slot offset HB_UNIT_SECTORS_LO then
        byte_of (ucast sectors) (offset - HB_UNIT_SECTORS_LO)
      else if in_slot offset HB_SUBMIT_OVERFLOW then
        byte_of (hb_submit_overflow hb) (offset - HB_SUBMIT_OVERFLOW)
      else if in_slot offset HB_COMPLETION_PTR then
        byte_of (case head of None \<Rightarrow> 0 | Some e \<Rightarrow> ce_ptr e) (offset - HB_COMPLETION_PTR)
      else if in_slot offset HB_COMPLETION_ERROR then
        low_byte offset HB_COMPLETION_ERROR (case head of None \<Rightarrow> 0 | Some e \<Rightarrow> ce_error e)
      else if in_slot offset HB_COMPLETION_ACTUAL then
        byte_of (case head of None \<Rightarrow> 0 | Some e \<Rightarrow> ce_actual e) (offset - HB_COMPLETION_ACTUAL)
      else if in_slot offset HB_COMPLETION_COUNT then
        byte_of (of_nat (ring_len (hb_completion_queue hb))) (offset - HB_COMPLETION_COUNT)
      else if in_slot offset HB_INT_ENABLE then low_byte offset HB_INT_ENABLE (hb_int_enable hb)
      else if in_slot offset HB_SUBMIT_CAPACITY then
        byte_of (of_nat HB_SUBMIT_QUEUE_CAPACITY) (offset - HB_SUBMIT_CAPACITY)
      else if in_slot offset HB_VERSION then byte_of HB_PROTOCOL_VERSION (offset - HB_VERSION)
      else if HB_ROM_BASE \<le> offset \<and> offset < HB_ROM_BASE + of_nat (length DIAG_ROM) then
        DIAG_ROM ! unat (offset - HB_ROM_BASE)
      else 0)"

(* src/crates/machine-core/src/hostblk.rs:940-950 Hostblk::submit *)
definition hb_submit :: "'d hostblk \<Rightarrow> u32 \<Rightarrow> 'd hostblk" where
  "hb_submit hb ptr =
     (case ring_push (hb_submit_queue hb) ptr of
        (q, True) \<Rightarrow> hb\<lparr>hb_submit_queue := q\<rparr>
      | (q, False) \<Rightarrow> hb\<lparr>hb_submit_queue := q, hb_submit_overflow := hb_submit_overflow hb + 1\<rparr>)"

(* src/crates/machine-core/src/hostblk.rs:914-938 Hostblk::write *)
definition hb_write :: "'d hostblk \<Rightarrow> u32 \<Rightarrow> u8 \<Rightarrow> 'd hostblk" where
  "hb_write hb offset value =
     (if in_slot offset HB_UNIT_SELECT \<and> offset - HB_UNIT_SELECT = 3 then hb\<lparr>hb_unit_select := value\<rparr>
      else if in_slot offset HB_UNIT_SELECT then hb
      else if in_slot offset HB_DOORBELL then
        let hb' = hb\<lparr>hb_doorbell_acc := set_byte_of (hb_doorbell_acc hb) (offset - HB_DOORBELL) value\<rparr>
        in if offset - HB_DOORBELL = 3 then hb_submit hb' (hb_doorbell_acc hb') else hb'
      else if in_slot offset HB_COMPLETION_ADVANCE \<and> offset - HB_COMPLETION_ADVANCE = 3 then
        hb\<lparr>hb_completion_queue := fst (ring_pop (hb_completion_queue hb))\<rparr>
      else if in_slot offset HB_COMPLETION_ADVANCE then hb
      else if in_slot offset HB_INT_ENABLE \<and> offset - HB_INT_ENABLE = 3 then hb\<lparr>hb_int_enable := value\<rparr>
      else hb)"

section \<open>Well-formed cards and what the engine leaves alone\<close>

definition hb_ok :: "'d hostblk \<Rightarrow> bool" where
  "hb_ok hb \<longleftrightarrow> length (hb_units hb) = HB_UNIT_COUNT \<and> ring_wf 8 (hb_submit_queue hb) \<and>
     ring_wf 8 (hb_completion_queue hb)"

abbreviation hb_submitted :: "'d hostblk \<Rightarrow> u32 list" where
  "hb_submitted hb \<equiv> ring_items (hb_submit_queue hb)"

abbreviation hb_completed :: "'d hostblk \<Rightarrow> completion_entry list" where
  "hb_completed hb \<equiv> ring_items (hb_completion_queue hb)"

lemma hb_ok_new [inv_intros]: "hb_ok hb_new"
  by (simp add: hb_ok_def hb_new_def)

text \<open>
  A transfer is either refused by one of the checks, with nothing touched, or it runs the sector
  loop on the granted buffer.
\<close>

definition hb_transfer_valid :: "'d block_device \<Rightarrow> 'd hb_unit \<Rightarrow> descriptor \<Rightarrow> guest_ram \<Rightarrow> bool \<Rightarrow> bool" where
  "hb_transfer_valid dev u desc mem is_write \<longleftrightarrow>
     \<not> (is_write \<and> un_write_protect u) \<and> desc_length desc \<noteq> 0 \<and> 512 dvd unat (desc_length desc) \<and>
     512 dvd unat (desc_offset desc) \<and>
     unat (desc_offset desc) div 512 + unat (desc_length desc) div 512 \<le> unat (bd_sector_count dev (un_device u)) \<and>
     ram_region mem (desc_buffer desc) (desc_length desc) \<noteq> None"

lemma u32_mod_512: "(x :: u32) mod 512 = 0 \<longleftrightarrow> 512 dvd unat x"
  by (simp add: word_unat_eq_iff unat_mod dvd_eq_mod_eq_0)

lemma u64_mod_512: "(x :: u64) mod 512 = 0 \<longleftrightarrow> 512 dvd unat x"
  by (simp add: word_unat_eq_iff unat_mod dvd_eq_mod_eq_0)

lemma unat_div_512: "unat ((x :: u32) div 512) = unat x div 512" "unat ((y :: u64) div 512) = unat y div 512"
  by (simp_all add: unat_div)

lemma lba_range:
  "(case checked_add_u64 s (ucast (n :: u32)) of None \<Rightarrow> False | Some e \<Rightarrow> e \<le> c) \<longleftrightarrow> unat s + unat n \<le> unat c"
  using unat_lt2p_of [of c]
  by (auto simp: checked_add_u64_def unat_ucast_u32_u64 word_le_nat_alt unat_word_ariths)

definition hb_run_sectors :: "'d block_device \<Rightarrow> 'd hb_unit \<Rightarrow> descriptor \<Rightarrow> u8 list \<Rightarrow> bool \<Rightarrow>
    'd \<times> u8 list \<times> u8 \<times> u32" where
  "hb_run_sectors dev u desc buf is_write =
     hb_sectors dev is_write (desc_offset desc div 512) 0 (unat (desc_length desc) div 512) (un_device u)
       buf (replicate 512 0) 0"

lemma hb_transfer_invalid:
  assumes "hb_units hb ! unit = Some u" "\<not> hb_transfer_valid dev u desc mem is_write"
  shows "\<exists>e. hb_transfer dev hb unit desc mem is_write = (hb, mem, e, 0) \<and> e \<noteq> ERR_OK \<and> e \<noteq> ERR_IO_ERROR"
proof -
  have m: "ram_slice_mut mem a n = (mem, None)" if "ram_region mem a n = None" for a n
    using that by (simp add: ram_slice_mut_region)
  show ?thesis
  proof (cases "(is_write \<and> un_write_protect u) \<or> desc_length desc = 0 \<or>
      \<not> 512 dvd unat (desc_length desc) \<or> \<not> 512 dvd unat (desc_offset desc)")
    case True
    then show ?thesis
      using assms(1) by (auto simp: hb_transfer_def Let_def u32_mod_512 u64_mod_512)
  next
    case False
    then show ?thesis
      using assms m lba_range [where s = "desc_offset desc div 512" and n = "desc_length desc div 512"
          and c = "bd_sector_count dev (un_device u)"]
      by (cases "checked_add_u64 (desc_offset desc div 512) (ucast (desc_length desc div 512))")
         (auto simp: hb_transfer_def hb_transfer_valid_def Let_def u32_mod_512 u64_mod_512 unat_div_512 not_less)
  qed
qed

lemma hb_transfer_runs:
  assumes "hb_units hb ! unit = Some u" "hb_transfer_valid dev u desc mem is_write"
    and "ram_region mem (desc_buffer desc) (desc_length desc) = Some loc"
    and "hb_run_sectors dev u desc (ram_load mem loc) is_write = (d', buf', e, a)"
  shows "hb_transfer dev hb unit desc mem is_write =
    (hb\<lparr>hb_units := (hb_units hb)[unit := Some (u\<lparr>un_device := d'\<rparr>)]\<rparr>,
     ram_store (record_write_span mem (desc_buffer desc) (desc_length desc)) loc buf', e, a)"
proof -
  have "ram_slice_mut mem (desc_buffer desc) (desc_length desc) =
      (record_write_span mem (desc_buffer desc) (desc_length desc), Some loc)"
    using assms(3) by (simp add: ram_slice_mut_region)
  then show ?thesis
    using assms lba_range [where s = "desc_offset desc div 512" and n = "desc_length desc div 512" and c = "bd_sector_count dev (un_device u)"]
    by (auto simp: hb_transfer_valid_def hb_transfer_def hb_run_sectors_def Let_def u32_mod_512 u64_mod_512
        unat_div_512 not_less split: option.splits)
qed

lemma hb_transfer_frame:
  assumes "hb_units hb ! unit = Some u" "hb_transfer dev hb unit desc mem w = (hb', mem', e, a)"
  shows "\<exists>us. hb' = hb\<lparr>hb_units := us\<rparr> \<and> length us = length (hb_units hb)"
proof (cases "hb_transfer_valid dev u desc mem w")
  case False
  have "hb' = hb"
    using assms(2) hb_transfer_invalid [OF assms(1) False] by auto
  then show ?thesis
    by (intro exI [of _ "hb_units hb"]) simp
next
  case True
  then obtain loc where l: "ram_region mem (desc_buffer desc) (desc_length desc) = Some loc"
    by (auto simp: hb_transfer_valid_def)
  obtain d' buf' e' a' where "hb_run_sectors dev u desc (ram_load mem loc) w = (d', buf', e', a')"
    by (metis prod_cases4)
  from hb_transfer_runs [OF assms(1) True l this] assms(2) show ?thesis by auto
qed

lemma hb_unit_index_Some:
  "hb_unit_index hb unit = Some k \<longleftrightarrow> k = unat unit \<and> k < 8 \<and> (\<exists>u. hb_units hb ! k = Some u)"
  by (auto simp: hb_unit_index_def Let_def)

lemma hb_execute_frame:
  assumes "hb_execute dev hb ptr mem = (hb', mem', e, a)"
  shows "\<exists>us. hb' = hb\<lparr>hb_units := us\<rparr> \<and> length us = length (hb_units hb)"
proof -
  have same: "\<exists>us. hb = hb\<lparr>hb_units := us\<rparr> \<and> length us = length (hb_units hb)"
    by (rule exI [of _ "hb_units hb"]) simp
  show ?thesis
    using assms same
    by (auto simp: hb_execute_def hb_unit_index_Some split: option.splits if_splits
        dest!: hb_transfer_frame [rotated])
qed

lemma hb_tick_cases:
  assumes "hb_ok hb"
  obtains (backpressure) "length (hb_completed hb) = 8" "hb_tick dev hb mem = (hb, mem)"
    | (idle) "length (hb_completed hb) < 8" "hb_submitted hb = []" "hb_tick dev hb mem = (hb, mem)"
    | (run) ptr rest hb' mem' e a us where "length (hb_completed hb) < 8" "hb_submitted hb = ptr # rest"
        "hb_execute dev (hb\<lparr>hb_submit_queue := fst (ring_pop (hb_submit_queue hb))\<rparr>) ptr mem = (hb', mem', e, a)"
        "hb_tick dev hb mem =
          (hb'\<lparr>hb_completion_queue := fst (ring_push (hb_completion_queue hb) \<lparr>ce_ptr = ptr, ce_error = e, ce_actual = a\<rparr>)\<rparr>, mem')"
        "hb' = hb\<lparr>hb_submit_queue := fst (ring_pop (hb_submit_queue hb)), hb_units := us\<rparr>"
        "length us = length (hb_units hb)"
proof (cases "length (hb_completed hb) = 8")
  case True
  then have "ring_is_full (hb_completion_queue hb)"
    using assms ring_is_full_items [of 8 "hb_completion_queue hb"] by (simp add: hb_ok_def)
  with True show ?thesis by (intro backpressure) (simp_all add: hb_tick_def)
next
  case False
  have room: "length (hb_completed hb) < 8"
    using False hb_ring.items_cap [of 8 "hb_completion_queue hb"] assms by (simp add: hb_ok_def)
  have nf: "\<not> ring_is_full (hb_completion_queue hb)"
    using False assms ring_is_full_items [of 8 "hb_completion_queue hb"] by (simp add: hb_ok_def)
  have swf: "ring_wf 8 (hb_submit_queue hb)" using assms by (simp add: hb_ok_def)
  show ?thesis
  proof (cases rule: hb_ring.pop_cases [OF swf])
    case (1 q')
    then have "ring_len (hb_submit_queue hb) = 0" using length_ring_items by (metis list.size(3))
    then have "ring_pop (hb_submit_queue hb) = (hb_submit_queue hb, None)" by (rule ring_pop_empty)
    then show ?thesis using idle room 1 nf by (simp add: hb_tick_def)
  next
    case (2 q' ptr)
    obtain hb' mem' e a where ex: "hb_execute dev (hb\<lparr>hb_submit_queue := q'\<rparr>) ptr mem = (hb', mem', e, a)"
      by (metis prod_cases4)
    from hb_execute_frame [OF ex] obtain us
      where us: "hb' = hb\<lparr>hb_submit_queue := q', hb_units := us\<rparr>" "length us = length (hb_units hb)"
      by auto
    show ?thesis
      by (rule run [of ptr "ring_items q'" hb' mem' e a us])
         (use 2 room ex us nf in \<open>simp_all add: hb_tick_def split: prod.split\<close>)
  qed
qed

lemma hb_tick_lists:
  assumes "hb_ok hb" "hb_tick dev hb mem = (hb', mem')"
  shows "hb_ok hb' \<and>
    (if length (hb_completed hb) < 8 \<and> hb_submitted hb \<noteq> [] then
       hb_submitted hb' = tl (hb_submitted hb) \<and>
       (\<exists>e a. hb_completed hb' = hb_completed hb @ [\<lparr>ce_ptr = hd (hb_submitted hb), ce_error = e, ce_actual = a\<rparr>])
     else hb' = hb \<and> mem' = mem)"
proof (cases rule: hb_tick_cases [OF assms(1), where dev = dev and mem = mem])
  case (3 ptr rest hb1 mem1 e a us)
  have swf: "ring_wf 8 (hb_submit_queue hb)" "ring_wf 8 (hb_completion_queue hb)"
    using assms(1) by (simp_all add: hb_ok_def)
  obtain q' where q: "ring_pop (hb_submit_queue hb) = (q', Some ptr)" "ring_wf 8 q'" "ring_items q' = rest"
    using hb_ring.pop_cons [OF swf(1) 3(2)] by blast
  obtain c' where c: "ring_push (hb_completion_queue hb) \<lparr>ce_ptr = ptr, ce_error = e, ce_actual = a\<rparr> = (c', True)"
      "ring_wf 8 c'" "ring_items c' = hb_completed hb @ [\<lparr>ce_ptr = ptr, ce_error = e, ce_actual = a\<rparr>]"
    using hb_ring.push_room [OF swf(2) 3(1)] by blast
  show ?thesis
    using assms 3 q c by (auto simp: hb_ok_def)
qed (use assms in simp_all)

section \<open>The sector loop over any block store\<close>

definition chunk :: "u8 list \<Rightarrow> nat \<Rightarrow> u8 list" where
  "chunk buf j = sub_slice buf (j * 512, j * 512 + 512)"

lemma hb_sectors_status:
  "hb_sectors dev w start i n d buf sb actual = (d', buf', e, a) \<Longrightarrow> e = ERR_OK \<or> e = ERR_IO_ERROR"
  by (induction n arbitrary: i d buf sb actual) (auto simp: Let_def split: prod.splits if_splits)

lemma length_chunk: "j * 512 + 512 \<le> length buf \<Longrightarrow> length (chunk buf j) = 512"
  by (simp add: chunk_def sub_slice_def)

lemma chunk_concat:
  "length buf = n * 512 \<Longrightarrow> concat (map (chunk buf) [0..<n]) = buf"
proof (induction n arbitrary: buf)
  case (Suc n)
  have "map (chunk buf) [0..<n] = map (chunk (take (n * 512) buf)) [0..<n]"
    by (intro map_cong refl) (auto simp: chunk_def sub_slice_def take_drop)
  then have "concat (map (chunk buf) [0..<n]) = take (n * 512) buf"
    using Suc.IH [of "take (n * 512) buf"] Suc.prems by (simp only: length_take) simp
  moreover have "chunk buf n = drop (n * 512) buf"
    using Suc.prems by (simp add: chunk_def sub_slice_def)
  ultimately show ?case by simp
qed simp

lemma unat_lba: "unat (s :: u64) + i < 2 ^ 64 \<Longrightarrow> unat (s + of_nat i) = unat s + i"
  by (simp add: unat_word_ariths unat_of_nat take_bit_eq_mod)

text \<open>A sector whose write failed after \<open>t\<close> bytes.\<close>

definition torn :: "nat \<Rightarrow> u8 list \<Rightarrow> u8 list \<Rightarrow> u8 list" where
  "torn t new old = take t new @ drop t old"

context block_store
begin

text \<open>
  READ: the first \<open>k\<close> sectors of the rest of the buffer are replaced by device sectors; \<open>k\<close> is
  everything when the status is OK and stops short at the first device failure otherwise.
\<close>

lemma sectors_read:
  assumes "ok d" "length sb = 512" "(i + n) * 512 \<le> length buf" "unat start + i + n < 2 ^ 64"
    and "hb_sectors dev False start i n d buf sb actual = (d', buf', e, a)"
  shows "\<exists>k \<le> n. (e = ERR_OK \<and> k = n \<or> e = ERR_IO_ERROR \<and> k < n) \<and> a = actual + of_nat (512 * k) \<and>
    ok d' \<and> sector d' = sector d \<and> bd_sector_count dev d' = bd_sector_count dev d \<and>
    buf' = take (i * 512) buf @ concat (map (\<lambda>j. sector d (unat start + j)) [i..<i + k])
      @ drop ((i + k) * 512) buf"
  using assms
proof (induction n arbitrary: i d buf sb actual)
  case 0
  then show ?case by auto
next
  case (Suc n)
  obtain d1 sb1 r where rd: "bd_read_sector dev d (start + of_nat i) sb = (d1, sb1, r)"
    by (metis prod_cases3)
  have law: "ok d1 \<and> sector d1 = sector d \<and> bd_sector_count dev d1 = bd_sector_count dev d \<and>
      length sb1 = 512 \<and> (r \<longrightarrow> sb1 = sector d (unat start + i))"
    using read_law [OF Suc.prems(1) _ rd] Suc.prems(2,4) by (simp add: unat_lba)
  show ?case
  proof (cases r)
    case False
    then have "d' = d1" "buf' = buf" "e = ERR_IO_ERROR" "a = actual"
      using Suc.prems(5) rd by simp_all
    then show ?thesis using law by (intro exI [of _ 0]) auto
  next
    case True
    let ?buf = "splice_at buf (i * 512) sb1"
    have lb: "i * 512 + 512 \<le> length buf" using Suc.prems(3) by simp
    have "hb_sectors dev False start (i + 1) n d1 ?buf sb1 (actual + 512) = (d', buf', e, a)"
      using Suc.prems(5) rd True by simp
    from Suc.IH [OF _ _ _ _ this] law Suc.prems(3,4) lb
    obtain k where k: "k \<le> n" "e = ERR_OK \<and> k = n \<or> e = ERR_IO_ERROR \<and> k < n"
        "a = actual + 512 + of_nat (512 * k)" "ok d'" "sector d' = sector d"
        "bd_sector_count dev d' = bd_sector_count dev d"
      and b: "buf' = take ((i + 1) * 512) ?buf @
        concat (map (\<lambda>j. sector d (unat start + j)) [i + 1..<i + 1 + k]) @ drop ((i + 1 + k) * 512) ?buf"
      by auto
    have "sb1 = sector d (unat start + i)" "length sb1 = 512" using law True by auto
    then have "take ((i + 1) * 512) ?buf = take (i * 512) buf @ sector d (unat start + i)"
      using lb by (simp add: splice_at_def)
    moreover have "drop ((i + 1 + k) * 512) ?buf = drop ((i + 1 + k) * 512) buf"
      using lb law by (simp add: splice_at_def algebra_simps)
    moreover have "[i..<i + Suc k] = i # [i + 1..<i + 1 + k]"
      by (simp add: upt_conv_Cons)
    ultimately show ?thesis
      using k b by (intro exI [of _ "Suc k"]) auto
  qed
qed

text \<open>WRITE: the buffer is only read, and the first \<open>k\<close> sectors reach the device. When the next one fails, the device may have stored a part of it.\<close>

lemma sectors_write:
  assumes "ok d" "(i + n) * 512 \<le> length buf" "unat start + i + n < 2 ^ 64"
    and "hb_sectors dev True start i n d buf sb actual = (d', buf', e, a)"
  shows "\<exists>k \<le> n. (e = ERR_OK \<and> k = n \<or> e = ERR_IO_ERROR \<and> k < n) \<and> a = actual + of_nat (512 * k) \<and>
    ok d' \<and> bd_sector_count dev d' = bd_sector_count dev d \<and> buf' = buf \<and>
    (\<exists>t. sector d' = (\<lambda>l. if unat start + i \<le> l \<and> l < unat start + i + k then chunk buf (l - unat start)
       else if l = unat start + i + k \<and> e = ERR_IO_ERROR then torn t (chunk buf (l - unat start)) (sector d l) else sector d l))"
  using assms
proof (induction n arbitrary: i d sb actual)
  case 0
  then show ?case by (auto simp: fun_eq_iff)
next
  case (Suc n)
  obtain d1 r where wr: "bd_write_sector dev d (start + of_nat i) (chunk buf i) = (d1, r)"
    by fastforce
  have lb: "i * 512 + 512 \<le> length buf" using Suc.prems(2) by simp
  have law: "ok d1 \<and> bd_sector_count dev d1 = bd_sector_count dev d \<and>
      (r \<longrightarrow> sector d1 = (sector d)(unat start + i := chunk buf i)) \<and>
      (\<not> r \<longrightarrow> (\<exists>t. sector d1 = (sector d)(unat start + i := torn t (chunk buf i) (sector d (unat start + i)))))"
    using write_law [OF Suc.prems(1) _ wr] Suc.prems(3) length_chunk [OF lb] by (simp add: unat_lba torn_def)
  show ?case
  proof (cases r)
    case False
    then have "d' = d1" "buf' = buf" "e = ERR_IO_ERROR" "a = actual"
      using Suc.prems(4) wr by (simp_all add: chunk_def)
    moreover obtain t where "sector d1 = (sector d)(unat start + i := torn t (chunk buf i) (sector d (unat start + i)))"
      using law False by blast
    ultimately show ?thesis using law by (intro exI [of _ 0]) (auto simp: fun_eq_iff intro!: exI [of _ t])
  next
    case True
    have "hb_sectors dev True start (i + 1) n d1 buf (chunk buf i) (actual + 512) = (d', buf', e, a)"
      using Suc.prems(4) wr True by (simp add: chunk_def Let_def)
    from Suc.IH [OF _ _ _ this] law Suc.prems(2,3)
    obtain k where k: "k \<le> n" "e = ERR_OK \<and> k = n \<or> e = ERR_IO_ERROR \<and> k < n"
        "a = actual + 512 + of_nat (512 * k)" "ok d'" "buf' = buf"
        "bd_sector_count dev d' = bd_sector_count dev d"
        "\<exists>t. sector d' = (\<lambda>l. if unat start + (i + 1) \<le> l \<and> l < unat start + (i + 1) + k then chunk buf (l - unat start)
          else if l = unat start + (i + 1) + k \<and> e = ERR_IO_ERROR then torn t (chunk buf (l - unat start)) (sector d1 l) else sector d1 l)"
      by auto
    then obtain t where t: "sector d' = (\<lambda>l. if unat start + (i + 1) \<le> l \<and> l < unat start + (i + 1) + k then chunk buf (l - unat start)
          else if l = unat start + (i + 1) + k \<and> e = ERR_IO_ERROR then torn t (chunk buf (l - unat start)) (sector d1 l) else sector d1 l)"
      by blast
    have "sector d' = (\<lambda>l. if unat start + i \<le> l \<and> l < unat start + i + Suc k then chunk buf (l - unat start)
        else if l = unat start + i + Suc k \<and> e = ERR_IO_ERROR then torn t (chunk buf (l - unat start)) (sector d l) else sector d l)"
      unfolding t using law True by (auto simp: fun_eq_iff)
    then show ?thesis using k by (intro exI [of _ "Suc k"]) auto
  qed
qed

lemma length_sector_run:
  "ok d \<Longrightarrow> l + j \<le> unat (bd_sector_count dev d) \<Longrightarrow> length (concat (map (sector d) [l..<l + j])) = j * 512"
  by (induction j) (simp_all add: sector_length)

text \<open>
  One request against an attached unit: what a READ and a WRITE that reach the device do to guest
  RAM, to the unit and to the reported byte count.
\<close>

lemma transfer_read:
  assumes u: "hb_units hb ! k = Some u" "ok (un_device u)" and mem: "ram_ok mem"
    and ex: "hb_transfer dev hb k desc mem False = (hb', mem', e, a)" "e = ERR_OK \<or> e = ERR_IO_ERROR"
  defines "n \<equiv> unat (desc_length desc) div 512" and "lba \<equiv> unat (desc_offset desc) div 512"
  shows "\<exists>j old d'. j \<le> n \<and> (e = ERR_OK \<longleftrightarrow> j = n) \<and> a = of_nat (512 * j) \<and> n * 512 = unat (desc_length desc) \<and>
    ram_slice mem (desc_buffer desc) (desc_length desc) = Some old \<and>
    ram_write mem (desc_buffer desc) (concat (map (sector (un_device u)) [lba..<lba + j]) @ drop (j * 512) old) = Some mem' \<and>
    length (concat (map (sector (un_device u)) [lba..<lba + j]) @ drop (j * 512) old) = unat (desc_length desc) \<and>
    hb' = hb\<lparr>hb_units := (hb_units hb)[k := Some (u\<lparr>un_device := d'\<rparr>)]\<rparr> \<and>
    ok d' \<and> sector d' = sector (un_device u) \<and> bd_sector_count dev d' = bd_sector_count dev (un_device u)"
proof -
  have valid: "hb_transfer_valid dev u desc mem False"
    using hb_transfer_invalid [OF u(1), of dev desc mem False] ex by auto
  then obtain loc where loc: "ram_region mem (desc_buffer desc) (desc_length desc) = Some loc"
    and n: "n * 512 = unat (desc_length desc)" and range: "lba + n \<le> unat (bd_sector_count dev (un_device u))"
    by (auto simp: hb_transfer_valid_def n_def lba_def dvd_div_mult_self)
  obtain d' buf' e' a' where run: "hb_run_sectors dev u desc (ram_load mem loc) False = (d', buf', e', a')"
    by (metis prod_cases4)
  have res: "hb' = hb\<lparr>hb_units := (hb_units hb)[k := Some (u\<lparr>un_device := d'\<rparr>)]\<rparr>"
      "mem' = ram_store (record_write_span mem (desc_buffer desc) (desc_length desc)) loc buf'" "e' = e" "a' = a"
    using hb_transfer_runs [OF u(1) valid loc run] ex(1) by auto
  have len: "length (ram_load mem loc) = n * 512"
    using ram_load_length [OF mem loc] n by simp
  have lim: "unat (desc_offset desc div 512) + 0 + n < 2 ^ 64"
    using range unat_lt2p_of [of "bd_sector_count dev (un_device u)"] by (simp add: unat_div_512 lba_def)
  from sectors_read [OF u(2) _ _ lim run [unfolded hb_run_sectors_def, folded n_def]] len
  obtain j where j: "j \<le> n" "e = ERR_OK \<and> j = n \<or> e = ERR_IO_ERROR \<and> j < n" "a = of_nat (512 * j)"
      "ok d'" "sector d' = sector (un_device u)" "bd_sector_count dev d' = bd_sector_count dev (un_device u)"
      "buf' = concat (map (\<lambda>i. sector (un_device u) (lba + i)) [0..<j]) @ drop (j * 512) (ram_load mem loc)"
    by (auto simp: unat_div_512 lba_def res)
  have secs: "map (\<lambda>i. sector (un_device u) (lba + i)) [0..<j] = map (sector (un_device u)) [lba..<lba + j]"
    by (rule nth_equalityI) simp_all
  have "length (concat (map (sector (un_device u)) [lba..<lba + j])) = j * 512"
    using length_sector_run [OF u(2)] range j(1) by simp
  then have lb: "length buf' = unat (desc_length desc)"
    using j(1,7) len n by (simp add: secs diff_mult_distrib)
  have "ram_write mem (desc_buffer desc) buf' = Some mem'"
    unfolding ram_write_region lb by (simp add: loc res)
  moreover have "ram_slice mem (desc_buffer desc) (desc_length desc) = Some (ram_load mem loc)"
    by (simp add: ram_slice_region loc)
  ultimately show ?thesis
    using j n res(1) lb
    by (intro exI [of _ j] exI [of _ "ram_load mem loc"] exI [of _ d']) (auto simp: secs simp del: length_concat)
qed

lemma transfer_write:
  assumes u: "hb_units hb ! k = Some u" "ok (un_device u)" and mem: "ram_ok mem"
    and ex: "hb_transfer dev hb k desc mem True = (hb', mem', e, a)" "e = ERR_OK \<or> e = ERR_IO_ERROR"
  defines "n \<equiv> unat (desc_length desc) div 512" and "lba \<equiv> unat (desc_offset desc) div 512"
  shows "\<exists>j buf d'. j \<le> n \<and> (e = ERR_OK \<longleftrightarrow> j = n) \<and> a = of_nat (512 * j) \<and> n * 512 = unat (desc_length desc) \<and>
    \<not> un_write_protect u \<and>
    ram_slice mem (desc_buffer desc) (desc_length desc) = Some buf \<and>
    mem' = record_write_span mem (desc_buffer desc) (desc_length desc) \<and>
    hb' = hb\<lparr>hb_units := (hb_units hb)[k := Some (u\<lparr>un_device := d'\<rparr>)]\<rparr> \<and>
    ok d' \<and> bd_sector_count dev d' = bd_sector_count dev (un_device u) \<and>
    (\<exists>t. sector d' = (\<lambda>l. if lba \<le> l \<and> l < lba + j then chunk buf (l - lba)
       else if l = lba + j \<and> e = ERR_IO_ERROR then torn t (chunk buf (l - lba)) (sector (un_device u) l) else sector (un_device u) l))"
proof -
  have valid: "hb_transfer_valid dev u desc mem True"
    using hb_transfer_invalid [OF u(1), of dev desc mem True] ex by auto
  then obtain loc where loc: "ram_region mem (desc_buffer desc) (desc_length desc) = Some loc"
    and n: "n * 512 = unat (desc_length desc)" and range: "lba + n \<le> unat (bd_sector_count dev (un_device u))"
    and wp: "\<not> un_write_protect u"
    by (auto simp: hb_transfer_valid_def n_def lba_def dvd_div_mult_self)
  let ?buf = "ram_load mem loc"
  obtain d' buf' e' a' where run: "hb_run_sectors dev u desc ?buf True = (d', buf', e', a')"
    by (metis prod_cases4)
  have res: "hb' = hb\<lparr>hb_units := (hb_units hb)[k := Some (u\<lparr>un_device := d'\<rparr>)]\<rparr>"
      "mem' = ram_store (record_write_span mem (desc_buffer desc) (desc_length desc)) loc buf'" "e' = e" "a' = a"
    using hb_transfer_runs [OF u(1) valid loc run] ex(1) by auto
  have lim: "unat (desc_offset desc div 512) + 0 + n < 2 ^ 64"
    using range unat_lt2p_of [of "bd_sector_count dev (un_device u)"] by (simp add: unat_div_512 lba_def)
  have len: "(0 + n) * 512 \<le> length ?buf" using ram_load_length [OF mem loc] n by simp
  have st: "unat (desc_offset desc div 512) = lba" by (simp add: unat_div_512 lba_def)
  from sectors_write [OF u(2) len lim run [unfolded hb_run_sectors_def, folded n_def], unfolded st res add_0_right add_0_left]
  obtain j where "j \<le> n" "e = ERR_OK \<and> j = n \<or> e = ERR_IO_ERROR \<and> j < n" "a = of_nat (512 * j)"
      "ok d'" "bd_sector_count dev d' = bd_sector_count dev (un_device u)" "buf' = ?buf"
      "\<exists>t. sector d' = (\<lambda>l. if lba \<le> l \<and> l < lba + j then chunk ?buf (l - lba)
         else if l = lba + j \<and> e = ERR_IO_ERROR then torn t (chunk ?buf (l - lba)) (sector (un_device u) l) else sector (un_device u) l)"
    by blast
  then show ?thesis
    using n wp res(1,2) ram_store_load [OF mem loc] loc
    by (intro exI [of _ j] exI [of _ ?buf] exI [of _ d']) (auto simp: ram_slice_region)
qed

end

section \<open>Requests against a disk image\<close>

text \<open>\<open>hb_request hb mem ptr c desc u\<close>: the pointer names a readable descriptor with command \<open>c\<close> for an
  attached unit whose image is well formed.\<close>

definition hb_request :: "file_block_device hostblk \<Rightarrow> guest_ram \<Rightarrow> u32 \<Rightarrow> u8 \<Rightarrow> descriptor \<Rightarrow>
    file_block_device hb_unit \<Rightarrow> bool" where
  "hb_request hb mem ptr c desc u \<longleftrightarrow> ram_ok mem \<and> hb_read_descriptor ptr mem = Some desc \<and>
     desc_command desc = c \<and> unat (desc_unit desc) < HB_UNIT_COUNT \<and> length (hb_units hb) = HB_UNIT_COUNT \<and>
     hb_units hb ! unat (desc_unit desc) = Some u \<and> fbd_ok (un_device u)"

lemma hb_request_execute:
  assumes "hb_request hb mem ptr c desc u"
  shows "c = CMD_READ \<Longrightarrow> hb_execute file_dev hb ptr mem = hb_transfer file_dev hb (unat (desc_unit desc)) desc mem False"
    and "c = CMD_WRITE \<Longrightarrow> hb_execute file_dev hb ptr mem = hb_transfer file_dev hb (unat (desc_unit desc)) desc mem True"
  using assms by (auto simp: hb_request_def hb_execute_def hb_unit_index_def)

abbreviation desc_sectors :: "descriptor \<Rightarrow> nat" where
  "desc_sectors desc \<equiv> unat (desc_length desc) div 512"

abbreviation desc_lba :: "descriptor \<Rightarrow> nat" where
  "desc_lba desc \<equiv> unat (desc_offset desc) div 512"

text \<open>C16 [functional]: A READ that reaches the disk image places the image's sectors, in order, at
  the start of the guest buffer: all of them when it reports OK, the whole sectors before the first
  failing one when it reports IO_ERROR, with \<open>actual\<close> their exact byte count. The rest of the buffer,
  every disjoint part of guest RAM and the contents of every image are unchanged.\<close>

theorem hostblk_read_delivers:
  assumes "hb_request hb mem ptr CMD_READ desc u"
    and "hb_execute file_dev hb ptr mem = (hb', mem', e, a)" "e = ERR_OK \<or> e = ERR_IO_ERROR"
  shows "\<exists>j old d'. j \<le> desc_sectors desc \<and> (e = ERR_OK \<longleftrightarrow> j = desc_sectors desc) \<and> unat a = 512 * j \<and>
    ram_slice mem (desc_buffer desc) (desc_length desc) = Some old \<and>
    ram_slice mem' (desc_buffer desc) (desc_length desc) =
      Some (concat (map (fbd_sector (un_device u)) [desc_lba desc..<desc_lba desc + j]) @ drop (512 * j) old) \<and>
    (\<forall>b k. unat (desc_buffer desc) + unat (desc_length desc) \<le> unat b \<or> unat b + unat k \<le> unat (desc_buffer desc) \<longrightarrow>
       ram_slice mem' b k = ram_slice mem b k) \<and>
    hb' = hb\<lparr>hb_units := (hb_units hb)[unat (desc_unit desc) := Some (u\<lparr>un_device := d'\<rparr>)]\<rparr> \<and>
    fbd_sector d' = fbd_sector (un_device u)"
proof -
  have ok: "hb_units hb ! unat (desc_unit desc) = Some u" "fbd_ok (un_device u)" "ram_ok mem"
    using assms(1) by (auto simp: hb_request_def)
  let ?bs = "\<lambda>j old. concat (map (fbd_sector (un_device u)) [desc_lba desc..<desc_lba desc + j]) @ drop (j * 512) old"
  from file_store.transfer_read [OF ok hb_request_execute(1) [OF assms(1) refl, symmetric, unfolded assms(2)] assms(3)]
  obtain j old d' where j: "j \<le> desc_sectors desc" "e = ERR_OK \<longleftrightarrow> j = desc_sectors desc" "a = of_nat (512 * j)"
      "desc_sectors desc * 512 = unat (desc_length desc)"
      "ram_slice mem (desc_buffer desc) (desc_length desc) = Some old"
      "hb' = hb\<lparr>hb_units := (hb_units hb)[unat (desc_unit desc) := Some (u\<lparr>un_device := d'\<rparr>)]\<rparr>"
      "fbd_sector d' = fbd_sector (un_device u)"
    and w: "ram_write mem (desc_buffer desc) (?bs j old) = Some mem'"
    and len: "length (?bs j old) = unat (desc_length desc)"
    by blast
  have lim: "length (?bs j old) < 2 ^ 32" "of_nat (length (?bs j old)) = desc_length desc"
    unfolding len using unat_lt2p_of [of "desc_length desc"] by simp_all
  have "512 * j < 2 ^ 32" using j(1,4) unat_lt2p_of [of "desc_length desc"] by simp
  then have "unat a = 512 * j" using j(3) by (simp add: unat_of_nat_less del: of_nat_mult)
  then show ?thesis
    using j ram.read_same [OF ok(3) lim(1) w] ram.read_other [OF ok(3) lim(1) w] lim(2) len
    by (intro exI [of _ j] exI [of _ old] exI [of _ d']) (simp add: mult.commute)
qed

text \<open>C17 [functional]: A WRITE that reaches the disk image stores consecutive 512-byte pieces of the
  guest buffer as consecutive sectors: all of them when it reports OK, those before the first
  failing one when it reports IO_ERROR, with \<open>actual\<close> their exact byte count. The sector that failed may be torn, some
  prefix of its new bytes before the rest of its old ones, as a failed host write leaves it. No other sector, no
  guest RAM byte and no other unit changes, and the unit was not write-protected. (The engine takes
  a mutable grant of the buffer in both directions, so the write log records the buffer here too.)\<close>

theorem hostblk_write_delivers:
  assumes "hb_request hb mem ptr CMD_WRITE desc u"
    and "hb_execute file_dev hb ptr mem = (hb', mem', e, a)" "e = ERR_OK \<or> e = ERR_IO_ERROR"
  shows "\<exists>j buf d'. j \<le> desc_sectors desc \<and> (e = ERR_OK \<longleftrightarrow> j = desc_sectors desc) \<and> unat a = 512 * j \<and>
    \<not> un_write_protect u \<and> ram_slice mem (desc_buffer desc) (desc_length desc) = Some buf \<and>
    (\<forall>b k. ram_slice mem' b k = ram_slice mem b k) \<and>
    gr_write_log mem' = map_option (\<lambda>log. dwl_record log (desc_buffer desc) (desc_length desc)) (gr_write_log mem) \<and>
    hb' = hb\<lparr>hb_units := (hb_units hb)[unat (desc_unit desc) := Some (u\<lparr>un_device := d'\<rparr>)]\<rparr> \<and>
    (\<exists>t. \<forall>l. fbd_sector d' l = (if desc_lba desc \<le> l \<and> l < desc_lba desc + j
       then take 512 (drop (512 * (l - desc_lba desc)) buf)
       else if l = desc_lba desc + j \<and> e = ERR_IO_ERROR
       then take t (take 512 (drop (512 * j) buf)) @ drop t (fbd_sector (un_device u) l)
       else fbd_sector (un_device u) l))"
proof -
  have ok: "hb_units hb ! unat (desc_unit desc) = Some u" "fbd_ok (un_device u)" "ram_ok mem"
    using assms(1) by (auto simp: hb_request_def)
  from file_store.transfer_write [OF ok hb_request_execute(2) [OF assms(1) refl, symmetric, unfolded assms(2)] assms(3)]
  obtain j buf d' where j: "j \<le> desc_sectors desc" "e = ERR_OK \<longleftrightarrow> j = desc_sectors desc" "a = of_nat (512 * j)"
      "desc_sectors desc * 512 = unat (desc_length desc)" "\<not> un_write_protect u"
      "ram_slice mem (desc_buffer desc) (desc_length desc) = Some buf"
      "mem' = record_write_span mem (desc_buffer desc) (desc_length desc)"
      "hb' = hb\<lparr>hb_units := (hb_units hb)[unat (desc_unit desc) := Some (u\<lparr>un_device := d'\<rparr>)]\<rparr>"
      "\<exists>t. fbd_sector d' = (\<lambda>l. if desc_lba desc \<le> l \<and> l < desc_lba desc + j then chunk buf (l - desc_lba desc)
         else if l = desc_lba desc + j \<and> e = ERR_IO_ERROR then torn t (chunk buf (l - desc_lba desc)) (fbd_sector (un_device u) l)
         else fbd_sector (un_device u) l)"
    by blast
  then obtain t where t: "fbd_sector d' = (\<lambda>l. if desc_lba desc \<le> l \<and> l < desc_lba desc + j then chunk buf (l - desc_lba desc)
         else if l = desc_lba desc + j \<and> e = ERR_IO_ERROR then torn t (chunk buf (l - desc_lba desc)) (fbd_sector (un_device u) l)
         else fbd_sector (un_device u) l)"
    by blast
  have "512 * j < 2 ^ 32" using j(1,4) unat_lt2p_of [of "desc_length desc"] by simp
  then have "unat a = 512 * j" using j(3) by (simp add: unat_of_nat_less del: of_nat_mult)
  moreover have "ram_slice mem' b k = ram_slice mem b k" for b k
    using ram_shape_eqD(1) [OF ram_shape_record] by (simp add: j(7) ram_slice_region cong: option.map_cong)
  moreover have "gr_write_log mem' = map_option (\<lambda>log. dwl_record log (desc_buffer desc) (desc_length desc)) (gr_write_log mem)"
    by (simp add: j(7) record_write_span_def split: option.split)
  ultimately show ?thesis
    using j(1-8) by (intro exI [of _ j] exI [of _ buf] exI [of _ d'])
      (auto simp: t torn_def chunk_def sub_slice_def mult.commute intro!: exI [of _ t])
qed

text \<open>C3 [roundtrip]: What a successful WRITE stores, a later successful READ of the same unit, offset
  and length returns byte for byte, into whatever buffer it names.\<close>

theorem hostblk_write_read_round_trip:
  assumes "hb_request hb mem p1 CMD_WRITE w u" "hb_execute file_dev hb p1 mem = (hb1, mem1, ERR_OK, a1)"
    and "hb_read_descriptor p2 mem1 = Some r" "desc_command r = CMD_READ"
    and "desc_unit r = desc_unit w" "desc_offset r = desc_offset w" "desc_length r = desc_length w"
    and "hb_execute file_dev hb1 p2 mem1 = (hb2, mem2, ERR_OK, a2)"
  shows "ram_slice mem2 (desc_buffer r) (desc_length r) = ram_slice mem (desc_buffer w) (desc_length w)"
proof -
  have ok: "hb_units hb ! unat (desc_unit w) = Some u" "fbd_ok (un_device u)" "ram_ok mem"
    and len: "length (hb_units hb) = 8" "unat (desc_unit w) < 8"
    using assms(1) by (auto simp: hb_request_def)
  have e: "ERR_OK = ERR_OK \<or> ERR_OK = ERR_IO_ERROR" by simp
  have not_io_error: "ERR_OK \<noteq> ERR_IO_ERROR" by simp
  from file_store.transfer_write [OF ok hb_request_execute(2) [OF assms(1) refl, symmetric, unfolded assms(2)] e]
  obtain buf d1 where w: "desc_sectors w * 512 = unat (desc_length w)"
      "ram_slice mem (desc_buffer w) (desc_length w) = Some buf"
      "mem1 = record_write_span mem (desc_buffer w) (desc_length w)"
      "hb1 = hb\<lparr>hb_units := (hb_units hb)[unat (desc_unit w) := Some (u\<lparr>un_device := d1\<rparr>)]\<rparr>" "fbd_ok d1"
      "fbd_sector d1 = (\<lambda>l. if desc_lba w \<le> l \<and> l < desc_lba w + desc_sectors w
         then chunk buf (l - desc_lba w) else fbd_sector (un_device u) l)"
    by (metis (no_types, lifting) not_io_error)
  have "ram_ok mem1" using ok(3) ram_shape_eqD(2) [OF ram_shape_record] by (simp add: w(3))
  then have req: "hb_request hb1 mem1 p2 CMD_READ r (u\<lparr>un_device := d1\<rparr>)"
    using assms(3-5) len w(4,5) by (simp add: hb_request_def)
  have lb: "length buf = desc_sectors w * 512"
    using ram.slice_length [OF ok(3) w(2)] w(1) by simp
  have "map (fbd_sector d1) [desc_lba w..<desc_lba w + desc_sectors w] = map (chunk buf) [0..<desc_sectors w]"
    by (rule nth_equalityI) (simp_all add: w(6))
  then have secs: "concat (map (fbd_sector d1) [desc_lba w..<desc_lba w + desc_sectors w]) = buf"
    using chunk_concat [OF lb] by simp
  have u1: "hb_units hb1 ! unat (desc_unit r) = Some (u\<lparr>un_device := d1\<rparr>)" "fbd_ok (un_device (u\<lparr>un_device := d1\<rparr>))"
    using req by (auto simp: hb_request_def)
  from file_store.transfer_read [OF u1 \<open>ram_ok mem1\<close>
      hb_request_execute(1) [OF req refl, symmetric, unfolded assms(8)] e] secs assms(6,7)
  obtain old where
      rw: "ram_write mem1 (desc_buffer r) (buf @ drop (desc_sectors w * 512) old) = Some mem2"
    and ln: "length (buf @ drop (desc_sectors w * 512) old) = unat (desc_length w)"
    by auto
  have tail: "drop (desc_sectors w * 512) old = []" using ln lb w(1) by simp
  have "length buf < 2 ^ 32" "of_nat (length buf) = desc_length r"
    using lb w(1) unat_lt2p_of [of "desc_length w"] assms(7) by simp_all
  then show ?thesis
    using ram.read_same [OF \<open>ram_ok mem1\<close> _ rw [unfolded tail append_Nil2]] w(2) by simp
qed

text \<open>A request that is refused, for whatever reason other than a device failure in
  mid-transfer, has no effect at all: guest RAM, its write log, every unit and every register of the
  card are untouched and the reported byte count is zero.\<close>

lemma hostblk_refusal_no_effect:
  assumes "hb_execute dev hb ptr mem = (hb', mem', e, a)" "e \<noteq> ERR_OK" "e \<noteq> ERR_IO_ERROR"
  shows "hb' = hb \<and> mem' = mem \<and> a = 0"
proof -
  have t: "hb' = hb \<and> mem' = mem \<and> a = 0"
    if tr: "hb_transfer dev hb k desc mem w = (hb', mem', e, a)" and u: "hb_units hb ! k = Some u" for k desc w u
  proof (cases "hb_transfer_valid dev u desc mem w")
    case False
    then show ?thesis using hb_transfer_invalid [OF u False] tr by auto
  next
    case True
    then obtain loc where l: "ram_region mem (desc_buffer desc) (desc_length desc) = Some loc"
      by (auto simp: hb_transfer_valid_def)
    obtain d1 buf1 e1 a1 where r: "hb_run_sectors dev u desc (ram_load mem loc) w = (d1, buf1, e1, a1)"
      by (metis prod_cases4)
    have "e1 = ERR_OK \<or> e1 = ERR_IO_ERROR"
      by (rule hb_sectors_status [OF r [unfolded hb_run_sectors_def]])
    then show ?thesis using hb_transfer_runs [OF u True l r] tr assms(2,3) by auto
  qed
  show ?thesis
    using assms t by (auto simp: hb_execute_def hb_unit_index_Some split: option.splits if_splits)
qed

section \<open>No request is lost\<close>

text \<open>
  A run of the card: register writes by the guest, engine ticks, and host-side attachment. Beside
  the card and guest RAM it carries two histories: the doorbell values the card accepted, and the
  completions the driver retired by writing COMPLETION_ADVANCE.
\<close>

datatype 'd hb_op = HbTick | HbWrite u32 u8 | HbAttach u8 'd bool | HbMediaChange u8

type_synonym 'd hb_run_state = "'d hostblk \<times> guest_ram \<times> u32 list \<times> completion_entry list"

definition doorbell_accepted :: "'d hostblk \<Rightarrow> u32 \<Rightarrow> u8 \<Rightarrow> u32 list" where
  "doorbell_accepted hb offset v =
     (if offset = HB_DOORBELL + 3 \<and> length (hb_submitted hb) < HB_SUBMIT_QUEUE_CAPACITY
      then [set_byte_of (hb_doorbell_acc hb) 3 v] else [])"

definition completions_retired :: "'d hostblk \<Rightarrow> u32 \<Rightarrow> completion_entry list" where
  "completions_retired hb offset =
     (if offset = HB_COMPLETION_ADVANCE + 3 then take 1 (hb_completed hb) else [])"

fun hb_step :: "'d block_device \<Rightarrow> 'd hb_run_state \<Rightarrow> 'd hb_op \<Rightarrow> 'd hb_run_state" where
  "hb_step dev (hb, mem, acc, ret) HbTick =
     (let (hb', mem') = hb_tick dev hb mem in (hb', mem', acc, ret))"
| "hb_step dev (hb, mem, acc, ret) (HbWrite offset v) =
     (hb_write hb offset v, mem, acc @ doorbell_accepted hb offset v, ret @ completions_retired hb offset)"
| "hb_step dev (hb, mem, acc, ret) (HbAttach unit d wp) = (hb_attach_unit hb unit d wp, mem, acc, ret)"
| "hb_step dev (hb, mem, acc, ret) (HbMediaChange unit) = (hb_notify_media_change hb unit, mem, acc, ret)"

definition hb_conserved :: "'d hb_run_state \<Rightarrow> bool" where
  "hb_conserved s = (case s of (hb, mem, acc, ret) \<Rightarrow>
     hb_ok hb \<and> acc = map ce_ptr ret @ map ce_ptr (hb_completed hb) @ hb_submitted hb)"

lemma hb_submit_lists:
  assumes "hb_ok hb"
  shows "hb_ok (hb_submit hb ptr) \<and> hb_completed (hb_submit hb ptr) = hb_completed hb \<and>
    hb_submitted (hb_submit hb ptr) = hb_submitted hb @ (if length (hb_submitted hb) < 8 then [ptr] else [])"
proof -
  have swf: "ring_wf 8 (hb_submit_queue hb)" using assms by (simp add: hb_ok_def)
  show ?thesis
    by (cases rule: hb_ring.push_cases [OF swf, where x = ptr])
       (use assms in \<open>auto simp: hb_submit_def hb_ok_def\<close>)
qed

lemma hb_write_lists:
  assumes "hb_ok hb"
  shows "hb_ok (hb_write hb offset v) \<and>
    hb_submitted (hb_write hb offset v) = hb_submitted hb @ doorbell_accepted hb offset v \<and>
    hb_completed hb = completions_retired hb offset @ hb_completed (hb_write hb offset v)"
proof -
  have cwf: "ring_wf 8 (hb_completion_queue hb)" using assms by (simp add: hb_ok_def)
  have pop: "hb_ok (hb\<lparr>hb_completion_queue := fst (ring_pop (hb_completion_queue hb))\<rparr>) \<and>
      hb_completed hb = take 1 (hb_completed hb) @ ring_items (fst (ring_pop (hb_completion_queue hb)))"
    by (cases rule: hb_ring.pop_cases [OF cwf]) (use assms in \<open>auto simp: hb_ok_def\<close>)
  consider (doorbell) "offset = 0x1B" | (adv) "offset = 0x2F" | (other) "offset \<noteq> 0x1B" "offset \<noteq> 0x2F"
    by blast
  then show ?thesis
  proof cases
    case doorbell
    have "hb_ok (hb\<lparr>hb_doorbell_acc := x\<rparr>)" for x using assms by (simp add: hb_ok_def)
    from hb_submit_lists [OF this] doorbell show ?thesis
      by (simp add: hb_write_def in_slot_def doorbell_accepted_def completions_retired_def Let_def)
  next
    case adv
    then show ?thesis
      using pop by (simp add: hb_write_def in_slot_def doorbell_accepted_def completions_retired_def)
  next
    case other
    have "hb_submit_queue (hb_write hb offset v) = hb_submit_queue hb"
      "hb_completion_queue (hb_write hb offset v) = hb_completion_queue hb"
      "hb_units (hb_write hb offset v) = hb_units hb"
      using other in_slot_lane3 [of HB_DOORBELL offset] in_slot_lane3 [of HB_COMPLETION_ADVANCE offset]
      by (auto simp: hb_write_def Let_def)
    then show ?thesis
      using assms other by (simp add: hb_ok_def doorbell_accepted_def completions_retired_def)
  qed
qed

lemma hb_step_conserves:
  assumes "hb_conserved s"
  shows "hb_conserved (hb_step dev s x)"
proof -
  obtain hb mem acc ret where s: "s = (hb, mem, acc, ret)" by (metis prod_cases4)
  have ok: "hb_ok hb" and acc: "acc = map ce_ptr ret @ map ce_ptr (hb_completed hb) @ hb_submitted hb"
    using assms by (simp_all add: hb_conserved_def s)
  show ?thesis
  proof (cases x)
    case HbTick
    obtain hb' mem' where t: "hb_tick dev hb mem = (hb', mem')" by fastforce
    show ?thesis
      using hb_tick_lists [OF ok t] acc t
      by (auto simp: hb_conserved_def s HbTick neq_Nil_conv split: if_splits)
  next
    case (HbWrite offset v)
    then show ?thesis
      using hb_write_lists [OF ok, of offset v] acc by (simp add: hb_conserved_def s flip: map_append)
  next
    case (HbAttach unit d wp)
    then show ?thesis using ok acc by (simp add: hb_conserved_def s hb_attach_unit_def hb_ok_def)
  next
    case (HbMediaChange unit)
    then show ?thesis
      using ok acc by (simp add: hb_conserved_def s hb_notify_media_change_def hb_ok_def split: option.split)
  qed
qed

lemma hb_run_conserves: "hb_conserved s \<Longrightarrow> hb_conserved (foldl (hb_step dev) s ops)"
  by (induction ops arbitrary: s) (simp_all add: hb_step_conserves)

lemma hb_new_conserved: "hb_conserved (hb_new, mem, [], [])"
  by (simp add: hb_conserved_def inv_intros) (simp add: hb_new_def)

text \<open>C2 [invariant]: Over any interleaving of guest register writes, engine ticks, disk attachments
  and media changes, the descriptor pointers the card accepted are exactly, and in the same order,
  those retired by the driver, then those waiting in the completion ring, then those still queued:
  no accepted request is lost, duplicated or reordered, and both rings stay within eight entries.\<close>

theorem hostblk_no_request_lost:
  assumes "foldl (hb_step dev) (hb_new, mem, [], []) ops = (hb, mem', acc, ret)"
  shows "acc = map ce_ptr ret @ map ce_ptr (hb_completed hb) @ hb_submitted hb \<and>
    length (hb_submitted hb) \<le> HB_SUBMIT_QUEUE_CAPACITY \<and>
    length (hb_completed hb) \<le> HB_COMPLETION_QUEUE_CAPACITY"
proof -
  have "hb_conserved (hb, mem', acc, ret)"
    using hb_run_conserves [OF hb_new_conserved, of dev mem ops] assms by simp
  then show ?thesis
    using hb_ring.items_cap [of 8 "hb_submit_queue hb"] hb_ring.items_cap [of 8 "hb_completion_queue hb"]
    by (simp add: hb_conserved_def hb_ok_def)
qed

fun hb_ticks :: "'d block_device \<Rightarrow> nat \<Rightarrow> 'd hostblk \<times> guest_ram \<Rightarrow> 'd hostblk \<times> guest_ram" where
  "hb_ticks dev 0 s = s"
| "hb_ticks dev (Suc n) s = hb_ticks dev n (hb_tick dev (fst s) (snd s))"

lemma hb_tick_int_enable:
  assumes "hb_ok hb"
  shows "hb_int_enable (fst (hb_tick dev hb mem)) = hb_int_enable hb"
  by (cases rule: hb_tick_cases [OF assms, where dev = dev and mem = mem]) simp_all

lemma hb_ticks_drain:
  "hb_ok hb \<Longrightarrow> length (hb_completed hb) + length (hb_submitted hb) \<le> 8 \<Longrightarrow>
   hb_ticks dev (length (hb_submitted hb)) (hb, mem) = (hb', mem') \<Longrightarrow>
   hb_ok hb' \<and> hb_submitted hb' = [] \<and> hb_int_enable hb' = hb_int_enable hb \<and>
     map ce_ptr (hb_completed hb') = map ce_ptr (hb_completed hb) @ hb_submitted hb"
proof (induction "hb_submitted hb" arbitrary: hb mem)
  case Nil
  then show ?case by (metis append_Nil2 fst_conv hb_ticks.simps(1) list.size(3))
next
  case (Cons p ps)
  obtain hb1 mem1 where t: "hb_tick dev hb mem = (hb1, mem1)" by fastforce
  have ne: "hb_submitted hb \<noteq> []" "length (hb_completed hb) < 8"
    using Cons.hyps(2) Cons.prems(2) by (auto simp flip: Cons.hyps(2))
  from hb_tick_lists [OF Cons.prems(1) t] ne Cons.hyps(2)
  obtain e a where 1: "hb_ok hb1" "hb_submitted hb1 = ps"
      "hb_completed hb1 = hb_completed hb @ [\<lparr>ce_ptr = p, ce_error = e, ce_actual = a\<rparr>]"
    by (metis list.sel)
  have l: "length (hb_submitted hb) = Suc (length ps)" by (metis Cons.hyps(2) length_Cons)
  have "hb_ticks dev (length (hb_submitted hb1)) (hb1, mem1) = (hb', mem')"
    using Cons.prems(3) t 1(2) unfolding l by simp
  moreover have "length (hb_completed hb1) + length (hb_submitted hb1) \<le> 8"
    using Cons.prems(2) unfolding l 1 by simp
  ultimately have "hb_ok hb' \<and> hb_submitted hb' = [] \<and> hb_int_enable hb' = hb_int_enable hb1 \<and>
      map ce_ptr (hb_completed hb') = map ce_ptr (hb_completed hb1) @ hb_submitted hb1"
    using Cons.hyps(1) [of hb1 mem1] 1 by simp
  then show ?case
    using 1 hb_tick_int_enable [OF Cons.prems(1), of dev mem] t by (simp flip: Cons.hyps(2))
qed

text \<open>C15 [liveness]: If the completion ring has room for every queued request, as many ticks as there
  are queued requests complete all of them in submission order, whatever each one's outcome; the
  card then asserts its interrupt exactly when it is enabled and a completion is waiting.\<close>

theorem hostblk_requests_complete:
  assumes "hb_ok hb" "length (hb_completed hb) + length (hb_submitted hb) \<le> HB_COMPLETION_QUEUE_CAPACITY"
    and "hb_ticks dev (length (hb_submitted hb)) (hb, mem) = (hb', mem')"
  shows "hb_submitted hb' = [] \<and>
    map ce_ptr (hb_completed hb') = map ce_ptr (hb_completed hb) @ hb_submitted hb \<and>
    (hb_irq_pending hb' \<longleftrightarrow> hb_int_enable hb \<noteq> 0 \<and> (hb_completed hb \<noteq> [] \<or> hb_submitted hb \<noteq> []))"
proof -
  have d: "hb_submitted hb' = []" "hb_int_enable hb' = hb_int_enable hb"
      "map ce_ptr (hb_completed hb') = map ce_ptr (hb_completed hb) @ hb_submitted hb"
    using hb_ticks_drain [OF assms(1) _ assms(3)] assms(2) by simp_all
  have "ring_len (hb_completion_queue hb') > 0 \<longleftrightarrow> map ce_ptr (hb_completed hb') \<noteq> []"
    by (metis length_greater_0_conv length_map length_ring_items)
  then show ?thesis using d by (auto simp: hb_irq_pending_def)
qed

section \<open>Witnesses\<close>

text \<open>A two-sector image, a descriptor in chip RAM and one attached unit.\<close>

definition hb_image :: file_block_device where
  "hb_image = fbd_open \<lparr>hf_bytes = replicate 512 0xA5 @ replicate 512 0x5A, hf_pos = 0, hf_fault = (\<lambda>_. None)\<rparr> True"

definition hb_card :: "file_block_device hostblk" where
  "hb_card = hb_attach_unit hb_new 0 hb_image False"

definition hb_desc_bytes :: "u8 \<Rightarrow> u8 list" where
  "hb_desc_bytes c = [c, 0, 0, 0, 0, 0, 2, 0, 0, 0, 0, 0, 0, 0, 2, 0, 0, 0, 0x20, 0]"

definition hb_desc :: "u8 \<Rightarrow> descriptor" where
  "hb_desc c = \<lparr>desc_command = c, desc_unit = 0, desc_length = 512, desc_offset = 512, desc_buffer = 0x2000\<rparr>"

lemma hb_desc_parse: "length (hb_desc_bytes c) = 20" "hb_desc_bytes c ! 0 = c" "hb_desc_bytes c ! Suc 0 = 0"
  "sub_slice (hb_desc_bytes c) (4, 8) = [0, 0, 2, 0]"
  "sub_slice (hb_desc_bytes c) (8, 16) = [0, 0, 0, 0, 0, 0, 2, 0]"
  "sub_slice (hb_desc_bytes c) (16, 20) = [0, 0, 0x20, 0]"
  "from_be [0, 0, 2, 0] = (512 :: u32)" "from_be [0, 0, 0, 0, 0, 0, 2, 0] = (512 :: u64)"
  "from_be [0, 0, 0x20, 0] = (0x2000 :: u32)"
  by (simp_all add: hb_desc_bytes_def sub_slice_def from_be_def)

definition hb_mem :: "u8 \<Rightarrow> guest_ram" where
  "hb_mem c = the (ram_write zero_ram 0x1000 (hb_desc_bytes c))"

lemma hb_mem_write: "ram_write zero_ram 0x1000 (hb_desc_bytes c) = Some (hb_mem c)"
  by (simp add: hb_mem_def ram_write_region chip_region hb_desc_bytes_def)

lemma hb_mem_ok [simp]: "ram_ok (hb_mem c)"
  by (rule ram.write_ok [OF zero_ram_ok _ hb_mem_write]) (simp add: hb_desc_bytes_def)

lemma hb_mem_desc: "hb_read_descriptor 0x1000 (hb_mem c) = Some (hb_desc c)"
  using ram.read_same [OF zero_ram_ok _ hb_mem_write, of c]
  by (simp add: hb_read_descriptor_def hb_desc_def hb_desc_parse)

lemma hb_image_simps: "fbd_sector_count hb_image = 2" "fbd_ok hb_image"
  "fbd_sector hb_image 0 = replicate 512 0xA5" "fbd_sector hb_image (Suc 0) = replicate 512 0x5A"
  by (simp_all add: hb_image_def fbd_open_def fbd_ok_def fbd_sector_def sub_slice_def)

lemma hb_card_request: "hb_request hb_card (hb_mem c) 0x1000 c (hb_desc c)
    \<lparr>un_device = hb_image, un_write_protect = False, un_change_count = 0\<rparr>"
  by (simp add: hb_request_def hb_mem_desc hb_image_simps) (simp add: hb_desc_def hb_card_def hb_attach_unit_def hb_new_def)

definition hb_good_image :: "file_block_device \<Rightarrow> bool" where
  "hb_good_image d \<longleftrightarrow> fbd_sector_count d = 2 \<and> fbd_writable d \<and> length (hf_bytes (fbd_file d)) = 1024 \<and>
     hf_fault (fbd_file d) = (\<lambda>_. None)"

lemma hb_image_good: "hb_good_image hb_image"
  by (simp add: hb_good_image_def hb_image_def fbd_open_def)

lemma hb_good_run:
  assumes "hb_good_image (un_device u)" "desc_length desc = 512" "desc_offset desc = 512" "length buf = 512"
  shows "\<exists>d' buf'. hb_run_sectors file_dev u desc buf w = (d', buf', ERR_OK, 512) \<and> hb_good_image d'"
  using assms
  by (auto simp: hb_run_sectors_def hb_good_image_def fbd_read_sector_def fbd_write_sector_def
      file_seek_def file_read_exact_def file_write_all_def moved_def Let_def word_le_nat_alt sub_slice_def)

lemma hb_good_transfer:
  assumes "hb_units hb ! k = Some u" "hb_good_image (un_device u)" "\<not> un_write_protect u" "ram_ok mem"
    and "desc_length desc = 512" "desc_offset desc = 512" "unat (desc_buffer desc) + 512 \<le> 0x200000"
  shows "\<exists>d' mem'. hb_transfer file_dev hb k desc mem w =
      (hb\<lparr>hb_units := (hb_units hb)[k := Some (u\<lparr>un_device := d'\<rparr>)]\<rparr>, mem', ERR_OK, 512) \<and> hb_good_image d'"
proof -
  obtain loc where loc: "ram_region mem (desc_buffer desc) (desc_length desc) = Some loc"
    using assms(5,7) by (simp add: chip_region)
  have v: "hb_transfer_valid file_dev u desc mem w"
    using loc assms by (simp add: hb_transfer_valid_def hb_good_image_def)
  have "length (ram_load mem loc) = 512"
    using ram_load_length [OF assms(4) loc] assms(5) by simp
  from hb_good_run [OF assms(2,5,6) this] show ?thesis
    using hb_transfer_runs [OF assms(1) v loc] by metis
qed

lemma hb_card_transfer_ok:
  "\<exists>hb' mem'. hb_transfer file_dev hb_card 0 (hb_desc c) (hb_mem c) w = (hb', mem', ERR_OK, 512)"
proof -
  have u: "hb_units hb_card ! 0 = Some \<lparr>un_device = hb_image, un_write_protect = False, un_change_count = 0\<rparr>"
    by (simp add: hb_card_def hb_attach_unit_def hb_new_def)
  show ?thesis
    using hb_good_transfer [OF u _ _ hb_mem_ok, of "hb_desc c" c w] hb_image_good by (auto simp: hb_desc_def)
qed

lemma hb_card_execute:
  "c = CMD_READ \<or> c = CMD_WRITE \<Longrightarrow>
    \<exists>hb' mem'. hb_execute file_dev hb_card 0x1000 (hb_mem c) = (hb', mem', ERR_OK, 512)"
  using hb_card_transfer_ok [of c True] hb_card_transfer_ok [of c False]
    hb_request_execute [OF hb_card_request, of c]
  by (auto simp: hb_desc_def)

theorem hostblk_read_delivers_witness:
  "\<exists>hb' mem'. hb_execute file_dev hb_card 0x1000 (hb_mem CMD_READ) = (hb', mem', ERR_OK, 512) \<and>
     ram_slice mem' 0x2000 512 = Some (replicate 512 0x5A)"
proof -
  obtain hb' mem' where x: "hb_execute file_dev hb_card 0x1000 (hb_mem CMD_READ) = (hb', mem', ERR_OK, 512)"
    using hb_card_execute by blast
  from hostblk_read_delivers [OF hb_card_request x]
  obtain old where old: "ram_slice (hb_mem CMD_READ) 0x2000 512 = Some old"
    and new: "ram_slice mem' 0x2000 512 = Some (fbd_sector hb_image 1 @ drop 512 old)"
    by (auto simp: hb_desc_def)
  then show ?thesis
    using x ram.slice_length [OF hb_mem_ok old] by (auto simp: hb_image_simps)
qed

theorem hostblk_write_delivers_witness:
  "\<exists>hb' mem' buf. hb_execute file_dev hb_card 0x1000 (hb_mem CMD_WRITE) = (hb', mem', ERR_OK, 512) \<and>
     ram_slice (hb_mem CMD_WRITE) 0x2000 512 = Some buf \<and>
     (\<exists>u'. hb_units hb' ! 0 = Some u' \<and> fbd_sector (un_device u') 1 = take 512 buf \<and>
        fbd_sector (un_device u') 0 = replicate 512 0xA5)"
proof -
  obtain hb' mem' where x: "hb_execute file_dev hb_card 0x1000 (hb_mem CMD_WRITE) = (hb', mem', ERR_OK, 512)"
    using hb_card_execute by blast
  have l: "length (hb_units hb_card) = 8" by (simp add: hb_card_def hb_attach_unit_def hb_new_def)
  from hostblk_write_delivers [OF hb_card_request x]
  show ?thesis
    using x l by (auto simp: hb_desc_def hb_image_simps)
qed

theorem hostblk_refusal_no_effect_witness:
  "hb_execute file_dev hb_card 0x1002 (hb_mem CMD_READ) = (hb_card, hb_mem CMD_READ, ERR_BAD_ADDRESS, 0)"
proof -
  obtain hb' mem' a where x: "hb_execute file_dev hb_card 0x1002 (hb_mem CMD_READ) = (hb', mem', ERR_BAD_ADDRESS, a)"
    by (simp add: hb_execute_def hb_read_descriptor_def)
  from hostblk_refusal_no_effect [OF x] x show ?thesis by simp
qed

theorem hostblk_no_request_lost_witness:
  "\<exists>hb mem' acc ret. foldl (hb_step file_dev) (hb_new, zero_ram, [], [])
       [HbWrite 0x1A 0x10, HbWrite 0x1B 2, HbTick, HbWrite 0x1B 4, HbWrite 0x2F 0] = (hb, mem', acc, ret) \<and>
     acc = [0x1002, 0x1004] \<and> acc = map ce_ptr ret @ map ce_ptr (hb_completed hb) @ hb_submitted hb"
proof -
  obtain hb mem' acc ret where r: "foldl (hb_step file_dev) (hb_new, zero_ram, [], [])
       [HbWrite 0x1A 0x10, HbWrite 0x1B 2, HbTick, HbWrite 0x1B 4, HbWrite 0x2F 0] = (hb, mem', acc, ret)"
    by (metis prod_cases4)
  have "acc = [0x1002, 0x1004]"
    using r by (auto simp: hb_write_def in_slot_def hb_new_def doorbell_accepted_def completions_retired_def
        hb_submit_def ring_new_def ring_push_def set_byte_of_def hb_tick_def ring_is_full_def ring_pop_def
        hb_execute_def hb_read_descriptor_def)
  with hostblk_no_request_lost [OF r] r show ?thesis by blast
qed

theorem hostblk_requests_complete_witness:
  "\<exists>hb' mem'. hb_ticks file_dev 1 (hb_submit hb_card 0x1000, hb_mem CMD_READ) = (hb', mem') \<and>
     hb_submitted hb' = [] \<and> map ce_ptr (hb_completed hb') = [0x1000]"
proof -
  obtain hb' mem' where t: "hb_ticks file_dev 1 (hb_submit hb_card 0x1000, hb_mem CMD_READ) = (hb', mem')"
    by fastforce
  have ok: "hb_ok hb_card"
    by (simp add: hb_ok_def hb_card_def hb_attach_unit_def hb_new_def)
  have c: "hb_completed hb_card = []" "hb_submitted hb_card = []"
    by (simp_all add: hb_card_def hb_attach_unit_def hb_new_def)
  have s: "hb_ok (hb_submit hb_card 0x1000)" "hb_completed (hb_submit hb_card 0x1000) = []"
    "hb_submitted (hb_submit hb_card 0x1000) = [0x1000]"
    using hb_submit_lists [OF ok, of "0x1000"] c by (simp_all del: length_ring_items)
  have "hb_submitted hb' = [] \<and> map ce_ptr (hb_completed hb') = [0x1000]"
    using hostblk_requests_complete [OF s(1), of file_dev "hb_mem CMD_READ" hb' mem'] t s(2,3)
    by (simp del: length_ring_items hb_ticks.simps)
  with t show ?thesis by (intro exI [of _ hb'] exI [of _ mem']) simp
qed

text \<open>The WRITE descriptor at \<open>$1000\<close>, a READ descriptor with another buffer at \<open>$1040\<close>.\<close>

definition hb_desc_bytes2 :: "u8 list" where
  "hb_desc_bytes2 = [CMD_READ, 0, 0, 0, 0, 0, 2, 0, 0, 0, 0, 0, 0, 0, 2, 0, 0, 0, 0x30, 0]"

definition hb_desc2 :: descriptor where
  "hb_desc2 = (hb_desc CMD_READ)\<lparr>desc_buffer := 0x3000\<rparr>"

definition hb_mem2 :: guest_ram where
  "hb_mem2 = the (ram_write (hb_mem CMD_WRITE) 0x1040 hb_desc_bytes2)"

lemma hb_mem2_write: "ram_write (hb_mem CMD_WRITE) 0x1040 hb_desc_bytes2 = Some hb_mem2"
  by (simp add: hb_mem2_def ram_write_region chip_region hb_desc_bytes2_def)

lemma hb_mem2_ok: "ram_ok hb_mem2"
  by (rule ram.write_ok [OF hb_mem_ok _ hb_mem2_write]) (simp add: hb_desc_bytes2_def)

lemma hb_mem2_descs:
  "hb_read_descriptor 0x1000 hb_mem2 = Some (hb_desc CMD_WRITE)" "hb_read_descriptor 0x1040 hb_mem2 = Some hb_desc2"
proof -
  have l: "length hb_desc_bytes2 = 20" by (simp add: hb_desc_bytes2_def)
  have "ram_slice hb_mem2 0x1000 20 = ram_slice (hb_mem CMD_WRITE) 0x1000 20"
    by (rule ram.read_other [OF hb_mem_ok _ hb_mem2_write]) (simp_all add: l)
  then show "hb_read_descriptor 0x1000 hb_mem2 = Some (hb_desc CMD_WRITE)"
    using hb_mem_desc [of CMD_WRITE] by (simp add: hb_read_descriptor_def)
  have "ram_slice hb_mem2 0x1040 20 = Some hb_desc_bytes2"
    using ram.read_same [OF hb_mem_ok _ hb_mem2_write] by (simp add: l)
  then show "hb_read_descriptor 0x1040 hb_mem2 = Some hb_desc2"
    by (simp add: hb_read_descriptor_def hb_desc2_def hb_desc_def hb_desc_bytes2_def sub_slice_def from_be_def)
qed

theorem hostblk_write_read_round_trip_witness:
  "\<exists>hb1 mem1 hb2 mem2. hb_execute file_dev hb_card 0x1000 hb_mem2 = (hb1, mem1, ERR_OK, 512) \<and>
     hb_execute file_dev hb1 0x1040 mem1 = (hb2, mem2, ERR_OK, 512) \<and>
     ram_slice mem2 0x3000 512 = ram_slice hb_mem2 0x2000 512"
proof -
  let ?u = "\<lparr>un_device = hb_image, un_write_protect = False, un_change_count = 0\<rparr>"
  have u: "hb_units hb_card ! 0 = Some ?u" "length (hb_units hb_card) = 8"
    by (simp_all add: hb_card_def hb_attach_unit_def hb_new_def)
  have r1: "hb_request hb_card hb_mem2 0x1000 CMD_WRITE (hb_desc CMD_WRITE) ?u"
    using u by (simp add: hb_request_def hb_mem2_ok hb_mem2_descs hb_image_simps) (simp add: hb_desc_def)
  obtain d1 mem1 where t1: "hb_transfer file_dev hb_card 0 (hb_desc CMD_WRITE) hb_mem2 True =
      (hb_card\<lparr>hb_units := (hb_units hb_card)[0 := Some (?u\<lparr>un_device := d1\<rparr>)]\<rparr>, mem1, ERR_OK, 512)"
    and d1: "hb_good_image d1"
    using hb_good_transfer [OF u(1) _ _ hb_mem2_ok, of "hb_desc CMD_WRITE" True] hb_image_good
    by (auto simp: hb_desc_def)
  let ?hb1 = "hb_card\<lparr>hb_units := (hb_units hb_card)[0 := Some (?u\<lparr>un_device := d1\<rparr>)]\<rparr>"
  have x1: "hb_execute file_dev hb_card 0x1000 hb_mem2 = (?hb1, mem1, ERR_OK, 512)"
    using hb_request_execute(2) [OF r1 refl] t1 by (simp add: hb_desc_def)
  have m1: "mem1 = record_write_span hb_mem2 0x2000 512"
    using file_store.transfer_write [OF u(1) _ hb_mem2_ok t1] by (auto simp: hb_image_simps hb_desc_def)
  have sl: "ram_slice mem1 b k = ram_slice hb_mem2 b k" for b k
    using ram_shape_eqD(1) [OF ram_shape_record] by (simp add: m1 ram_slice_region cong: option.map_cong)
  have ok1: "ram_ok mem1" using hb_mem2_ok ram_shape_eqD(2) [OF ram_shape_record] by (simp add: m1)
  have rd: "hb_read_descriptor 0x1040 mem1 = Some hb_desc2"
    using hb_mem2_descs(2) sl by (simp add: hb_read_descriptor_def)
  have u1: "hb_units ?hb1 ! 0 = Some (?u\<lparr>un_device := d1\<rparr>)" using u(2) by simp
  obtain hb2 mem2 where "hb_transfer file_dev ?hb1 0 hb_desc2 mem1 False = (hb2, mem2, ERR_OK, 512)"
    using hb_good_transfer [OF u1 _ _ ok1, of hb_desc2 False] d1 by (auto simp: hb_desc2_def hb_desc_def)
  then have x2: "hb_execute file_dev ?hb1 0x1040 mem1 = (hb2, mem2, ERR_OK, 512)"
    using rd u(2) by (simp add: hb_execute_def hb_unit_index_def hb_desc2_def hb_desc_def)
  have "ram_slice mem2 0x3000 512 = ram_slice hb_mem2 0x2000 512"
    using hostblk_write_read_round_trip [OF r1 x1 rd _ _ _ _ x2] by (simp add: hb_desc2_def hb_desc_def)
  then show ?thesis
    using x1 x2 by (intro exI [of _ ?hb1] exI [of _ mem1] exI [of _ hb2] exI [of _ mem2]) simp
qed

end
