(* ===== verification/Pktport.thy ===== *)
theory Pktport
  imports GuestMem Fastram
begin

text \<open>
  The packet-port card of \<open>crates/machine-core/src/pktport.rs\<close>: a doorbell latches one descriptor
  pointer, the next tick reads the descriptor, hands its action and arguments to the filesystem
  backend and writes the results back. The backend (the \<open>PacketBackend\<close> trait, implemented outside this
  crate) is an argument of \<open>pk_tick\<close>: a function of its own state, the action, the arguments and guest
  RAM. What is relied on is that it reaches guest RAM only through the \<open>GuestMemory\<close> it is given, so
  that the memory map is the same afterwards.
\<close>

section \<open>Constants and data\<close>

(* src/crates/machine-core/src/pktport.rs:178-183 MANUFACTURER *)
definition PK_MANUFACTURER :: u16 where [simp]: "PK_MANUFACTURER = 0x07DB"
(* src/crates/machine-core/src/pktport.rs:185-188 PRODUCT *)
definition PK_PRODUCT :: u8 where [simp]: "PK_PRODUCT = 5"
(* src/crates/machine-core/src/pktport.rs:190-197 WINDOW_BYTES *)
definition PK_WINDOW_BYTES :: u32 where [simp]: "PK_WINDOW_BYTES = 0x00010000"
(* src/crates/machine-core/src/pktport.rs:209-215 ROM_BASE *)
definition PK_ROM_BASE :: u32 where [simp]: "PK_ROM_BASE = 0x1000"
(* src/crates/machine-core/src/pktport.rs:217-219 PROTOCOL_VERSION *)
definition PK_PROTOCOL_VERSION :: u32 where [simp]: "PK_PROTOCOL_VERSION = 1"
(* src/crates/machine-core/src/pktport.rs:221-225 REQUEST_CAPACITY *)
definition PK_REQUEST_CAPACITY :: u32 where [simp]: "PK_REQUEST_CAPACITY = 1"
(* src/crates/machine-core/src/pktport.rs:227-230 VOLUME_COUNT *)
definition PK_VOLUME_COUNT :: u32 where [simp]: "PK_VOLUME_COUNT = 1"
(* src/crates/machine-core/src/pktport.rs:232-238 DESC_LEN *)
definition PK_DESC_LEN :: u32 where [simp]: "PK_DESC_LEN = 0x40"
(* src/crates/machine-core/src/pktport.rs:240-241 RES1_OFFSET *)
definition PK_RES1_OFFSET :: u32 where [simp]: "PK_RES1_OFFSET = 0x20"
(* src/crates/machine-core/src/pktport.rs:242-243 RES2_OFFSET *)
definition PK_RES2_OFFSET :: u32 where [simp]: "PK_RES2_OFFSET = 0x24"
(* src/crates/machine-core/src/pktport.rs:244-245 STATUS_OFFSET *)
definition PK_STATUS_OFFSET :: u32 where [simp]: "PK_STATUS_OFFSET = 0x28"
(* src/crates/machine-core/src/pktport.rs:252-253 reg::VERSION *)
definition PK_VERSION :: u32 where [simp]: "PK_VERSION = 0x00"
(* src/crates/machine-core/src/pktport.rs:254-256 reg::CAPACITY *)
definition PK_CAPACITY :: u32 where [simp]: "PK_CAPACITY = 0x04"
(* src/crates/machine-core/src/pktport.rs:257-262 reg::REQ_PTR *)
definition PK_REQ_PTR :: u32 where [simp]: "PK_REQ_PTR = 0x08"
(* src/crates/machine-core/src/pktport.rs:263-267 reg::DOORBELL *)
definition PK_DOORBELL :: u32 where [simp]: "PK_DOORBELL = 0x0C"
(* src/crates/machine-core/src/pktport.rs:268-271 reg::INT_STATUS *)
definition PK_INT_STATUS :: u32 where [simp]: "PK_INT_STATUS = 0x10"
(* src/crates/machine-core/src/pktport.rs:272-273 reg::INT_ENABLE *)
definition PK_INT_ENABLE :: u32 where [simp]: "PK_INT_ENABLE = 0x14"
(* src/crates/machine-core/src/pktport.rs:274-275 reg::VOL_COUNT *)
definition PK_VOL_COUNT :: u32 where [simp]: "PK_VOL_COUNT = 0x18"

(* src/crates/machine-core/src/pktport.rs:157-176 PacketBackend *)
type_synonym 'b packet_backend = "'b \<Rightarrow> u32 \<Rightarrow> u32 list \<Rightarrow> guest_ram \<Rightarrow> 'b \<times> guest_ram \<times> u32 \<times> u32"

(* src/crates/machine-core/src/pktport.rs:278-315 Pktport *)
record 'b pktport =
  pk_backend :: 'b
  pk_req_ptr :: u32
  pk_pending :: "u32 option"
  pk_doorbell_overflow :: u32
  pk_dropped_descriptors :: u32
  pk_int_status :: u8
  pk_int_enable :: u8

section \<open>Operations\<close>

(* src/crates/machine-core/src/pktport.rs:318-331 Pktport::new *)
definition pk_new :: "'b \<Rightarrow> 'b pktport" where
  "pk_new backend = \<lparr>pk_backend = backend, pk_req_ptr = 0, pk_pending = None, pk_doorbell_overflow = 0,
     pk_dropped_descriptors = 0, pk_int_status = 0, pk_int_enable = 0\<rparr>"

(* src/crates/machine-core/src/pktport.rs:333-351 Pktport::board_spec *)
definition pk_board_spec :: board_spec where
  "pk_board_spec = \<lparr>board_type = ERT_ZORROII OR ERTF_DIAGVALID OR 0x01, product = PK_PRODUCT, flags = 0,
     manufacturer = PK_MANUFACTURER, serial = 0, init_diag_vec = ucast PK_ROM_BASE,
     size_bytes = PK_WINDOW_BYTES\<rparr>"

(* src/crates/machine-core/src/pktport.rs:366-370 Pktport::busy *)
definition pk_busy :: "'b pktport \<Rightarrow> bool" where
  "pk_busy pk \<longleftrightarrow> pk_pending pk \<noteq> None"

(* src/crates/machine-core/src/pktport.rs:372-376 Pktport::irq_pending *)
definition pk_irq_pending :: "'b pktport \<Rightarrow> bool" where
  "pk_irq_pending pk \<longleftrightarrow> pk_int_enable pk AND 1 \<noteq> 0 \<and> pk_int_status pk \<noteq> 0"

(* src/crates/machine-core/src/pktport.rs:378-390 Pktport::submit *)
definition pk_submit :: "'b pktport \<Rightarrow> 'b pktport" where
  "pk_submit pk =
     (if pk_pending pk \<noteq> None then pk\<lparr>pk_doorbell_overflow := pk_doorbell_overflow pk + 1\<rparr>
      else pk\<lparr>pk_pending := Some (pk_req_ptr pk)\<rparr>)"

(* src/crates/machine-core/src/pktport.rs:416-435 Pktport::read_descriptor *)
definition pk_read_descriptor :: "u32 \<Rightarrow> guest_ram \<Rightarrow> (u32 \<times> u32 list) option" where
  "pk_read_descriptor ptr mem =
     (if ptr mod 4 \<noteq> 0 then None
      else case ram_slice mem ptr PK_DESC_LEN of
          None \<Rightarrow> None
        | Some d \<Rightarrow> Some (from_be (sub_slice d (0, 4)),
            map (\<lambda>i. let off = 4 + i * 4 in from_be (sub_slice d (off, off + 4))) [0..<7]))"

text \<open>Each result is stored only if its slot is granted.\<close>

definition store_if_granted :: "guest_ram \<Rightarrow> u32 \<Rightarrow> u8 list \<Rightarrow> guest_ram" where
  "store_if_granted mem addr bs = (case ram_write mem addr bs of None \<Rightarrow> mem | Some mem' \<Rightarrow> mem')"

(* src/crates/machine-core/src/pktport.rs:437-457 Pktport::write_results *)
definition pk_write_results :: "guest_ram \<Rightarrow> u32 \<Rightarrow> u32 \<Rightarrow> u32 \<Rightarrow> guest_ram" where
  "pk_write_results mem ptr res1 res2 =
     (let mem1 = store_if_granted mem (ptr + PK_RES1_OFFSET) (to_be 4 res1);
          mem2 = store_if_granted mem1 (ptr + PK_RES2_OFFSET) (to_be 4 res2)
      in store_if_granted mem2 (ptr + PK_STATUS_OFFSET) (to_be 4 (1 :: u32)))"

(* src/crates/machine-core/src/pktport.rs:392-414 Pktport::tick *)
definition pk_tick :: "'b packet_backend \<Rightarrow> 'b pktport \<Rightarrow> guest_ram \<Rightarrow> 'b pktport \<times> guest_ram" where
  "pk_tick execute pk mem =
     (case pk_pending pk of
        None \<Rightarrow> (pk, mem)
      | Some ptr \<Rightarrow>
          let pk1 = pk\<lparr>pk_pending := None\<rparr> in
          (case pk_read_descriptor ptr mem of
             None \<Rightarrow> (pk1\<lparr>pk_dropped_descriptors := pk_dropped_descriptors pk1 + 1\<rparr>, mem)
           | Some (action, args) \<Rightarrow>
               let (b', mem1, res1, res2) = execute (pk_backend pk1) action args mem;
                   mem2 = pk_write_results mem1 ptr res1 res2
               in (pk1\<lparr>pk_backend := b', pk_int_status := 1\<rparr>, mem2)))"

(* src/crates/machine-core/src/pktport.rs:459-477 Pktport::read *)
definition pk_read :: "u8 list \<Rightarrow> 'b pktport \<Rightarrow> u32 \<Rightarrow> u8" where
  "pk_read DIAG_ROM pk offset =
     (if in_slot offset PK_VERSION then byte_of PK_PROTOCOL_VERSION (offset - PK_VERSION)
      else if in_slot offset PK_CAPACITY then byte_of PK_REQUEST_CAPACITY (offset - PK_CAPACITY)
      else if in_slot offset PK_INT_STATUS then low_byte offset PK_INT_STATUS (pk_int_status pk)
      else if in_slot offset PK_INT_ENABLE then low_byte offset PK_INT_ENABLE (pk_int_enable pk)
      else if in_slot offset PK_VOL_COUNT then byte_of PK_VOLUME_COUNT (offset - PK_VOL_COUNT)
      else if PK_ROM_BASE \<le> offset \<and> offset < PK_ROM_BASE + of_nat (length DIAG_ROM) then
        DIAG_ROM ! unat (offset - PK_ROM_BASE)
      else 0)"

(* src/crates/machine-core/src/pktport.rs:479-510 Pktport::write *)
definition pk_write :: "'b pktport \<Rightarrow> u32 \<Rightarrow> u8 \<Rightarrow> 'b pktport" where
  "pk_write pk offset value =
     (if in_slot offset PK_REQ_PTR then
        pk\<lparr>pk_req_ptr := set_byte_of (pk_req_ptr pk) (offset - PK_REQ_PTR) value\<rparr>
      else if in_slot offset PK_DOORBELL \<and> offset - PK_DOORBELL = 3 then pk_submit pk
      else if in_slot offset PK_DOORBELL then pk
      else if in_slot offset PK_INT_STATUS \<and> offset - PK_INT_STATUS = 3 then
        if value AND 1 \<noteq> 0 \<and> \<not> pk_busy pk then pk\<lparr>pk_int_status := 0\<rparr> else pk
      else if in_slot offset PK_INT_STATUS then pk
      else if in_slot offset PK_INT_ENABLE \<and> offset - PK_INT_ENABLE = 3 then pk\<lparr>pk_int_enable := value\<rparr>
      else pk)"

section \<open>Servicing a request\<close>

text \<open>A backend that uses only the guest memory it is given leaves the memory map alone.\<close>

definition backend_keeps_map :: "'b packet_backend \<Rightarrow> bool" where
  "backend_keeps_map execute \<longleftrightarrow>
     (\<forall>b action args mem b' mem' r1 r2. execute b action args mem = (b', mem', r1, r2) \<longrightarrow>
        ram_shape mem' = ram_shape mem)"

lemma store_inside:
  assumes "ram_flat mem" "ram_slice mem ptr n = Some d" "i + length bs \<le> unat n"
  shows "ram_flat (store_if_granted mem (ptr + of_nat i) bs)"
    and "ram_slice (store_if_granted mem (ptr + of_nat i) bs) ptr n = Some (splice_at d i bs)"
  using flat_ram.write_inside [OF assms] by (auto simp: store_if_granted_def)

lemma store_outside:
  assumes "ram_flat mem" "length bs < 2 ^ 32" "unat a + length bs \<le> unat b \<or> unat b + unat k \<le> unat a"
  shows "ram_slice (store_if_granted mem a bs) b k = ram_slice mem b k"
  using flat_ram.read_other [OF assms(1,2) _ assms(3)]
  by (auto simp: store_if_granted_def split: option.split)

lemma store_flat: "ram_flat mem \<Longrightarrow> ram_flat (store_if_granted mem a (to_be 4 (v :: u32)))"
  by (auto simp: store_if_granted_def split: option.split intro: flat_ram.write_ok [where bs = "to_be 4 v"])

text \<open>The descriptor after the write-back: the request fields as they were, then the results.\<close>

definition pk_answered :: "u8 list \<Rightarrow> u32 \<Rightarrow> u32 \<Rightarrow> u8 list" where
  "pk_answered d res1 res2 = take 0x20 d @ to_be 4 res1 @ to_be 4 res2 @ to_be 4 (1 :: u32) @ drop 0x2C d"

lemma splice_results:
  assumes "length d = 64" "length r1 = 4" "length r2 = 4" "length s = 4"
  shows "splice_at (splice_at (splice_at d 32 r1) 36 r2) 40 s = take 32 d @ r1 @ r2 @ s @ drop 44 d"
  using assms by (simp add: splice_at_def)

lemma pk_write_results_effect:
  assumes "ram_flat mem" "ram_slice mem ptr PK_DESC_LEN = Some d"
  shows "ram_slice (pk_write_results mem ptr res1 res2) ptr PK_DESC_LEN = Some (pk_answered d res1 res2)"
    and "unat ptr + 0x2C \<le> unat b \<or> unat b + unat k \<le> unat ptr + 0x20 \<Longrightarrow>
      ram_slice (pk_write_results mem ptr res1 res2) b k = ram_slice mem b k"
proof -
  have n: "unat ptr + 64 < 2 ^ 32" using flat_ram.slice_no_wrap [OF assms(2)] by simp
  have ld: "length d = 64" using flat_ram.slice_length [OF assms] by simp
  let ?m1 = "store_if_granted mem (ptr + of_nat 32) (to_be 4 res1)"
  let ?m2 = "store_if_granted ?m1 (ptr + of_nat 36) (to_be 4 res2)"
  let ?m3 = "store_if_granted ?m2 (ptr + of_nat 40) (to_be 4 (1 :: u32))"
  have e: "pk_write_results mem ptr res1 res2 = ?m3"
    by (simp add: pk_write_results_def)
  have 1: "ram_flat ?m1" "ram_slice ?m1 ptr PK_DESC_LEN = Some (splice_at d 32 (to_be 4 res1))"
    by (rule store_inside [OF assms]; simp)+
  have 2: "ram_flat ?m2" "ram_slice ?m2 ptr PK_DESC_LEN =
      Some (splice_at (splice_at d 32 (to_be 4 res1)) 36 (to_be 4 res2))"
    by (rule store_inside [OF 1]; simp)+
  have "ram_slice ?m3 ptr PK_DESC_LEN =
      Some (splice_at (splice_at (splice_at d 32 (to_be 4 res1)) 36 (to_be 4 res2)) 40 (to_be 4 (1 :: u32)))"
    by (rule store_inside [OF 2]) simp
  then show "ram_slice (pk_write_results mem ptr res1 res2) ptr PK_DESC_LEN = Some (pk_answered d res1 res2)"
    by (simp only: e splice_results [OF ld] pk_answered_def length_to_be)
  have u: "unat (ptr + of_nat i) = unat ptr + i" if "i < 64" for i
    using n that by (simp add: unat_word_ariths unat_of_nat take_bit_eq_mod)
  have us: "unat (ptr + 32) = unat ptr + 32" "unat (ptr + 36) = unat ptr + 36" "unat (ptr + 40) = unat ptr + 40"
    using u [of 32] u [of 36] u [of 40] by simp_all
  show "ram_slice (pk_write_results mem ptr res1 res2) b k = ram_slice mem b k"
    if "unat ptr + 0x2C \<le> unat b \<or> unat b + unat k \<le> unat ptr + 0x20"
    using that store_outside [OF 2(1), of "to_be 4 (1 :: u32)" "ptr + of_nat 40" b k]
      store_outside [OF 1(1), of "to_be 4 res2" "ptr + of_nat 36" b k]
      store_outside [OF assms(1), of "to_be 4 res1" "ptr + of_nat 32" b k]
    unfolding e by (auto simp: us)
qed

lemma pk_tick_serves:
  assumes "ram_flat mem" "pk_pending pk = Some ptr" "ptr mod 4 = 0"
    and "ram_slice mem ptr PK_DESC_LEN = Some d"
    and "execute (pk_backend pk) (from_be (take 4 d))
      (map (\<lambda>i. from_be (take 4 (drop (4 * (i + 1)) d))) [0..<7]) mem = (b', mem1, res1, res2)"
    and sh: "ram_shape mem1 = ram_shape mem"
  shows "\<exists>mem'. pk_tick execute pk mem =
      (pk\<lparr>pk_pending := None, pk_backend := b', pk_int_status := 1\<rparr>, mem') \<and>
    ram_slice mem' (ptr + PK_RES1_OFFSET) 4 = Some (to_be 4 res1) \<and>
    ram_slice mem' (ptr + PK_RES2_OFFSET) 4 = Some (to_be 4 res2) \<and>
    ram_slice mem' (ptr + PK_STATUS_OFFSET) 4 = Some (to_be 4 (1 :: u32)) \<and>
    (\<forall>b k. unat ptr + 0x2C \<le> unat b \<or> unat b + unat k \<le> unat ptr + 0x20 \<longrightarrow>
       ram_slice mem' b k = ram_slice mem1 b k)"
proof -
  have flat: "ram_flat mem1" using assms(1) ram_flat_shape [OF sh] by simp
  obtain d1 where d1: "ram_slice mem1 ptr PK_DESC_LEN = Some d1"
    using assms(4) ram_shape_eqD(1) [OF sh] by (auto simp: ram_slice_region)
  have l1: "length d1 = 64" using flat_ram.slice_length [OF flat d1] by simp
  let ?m = "pk_write_results mem1 ptr res1 res2"
  have "pk_read_descriptor ptr mem = Some (from_be (take 4 d),
      map (\<lambda>i. from_be (take 4 (drop (4 * (i + 1)) d))) [0..<7])"
    using assms(3,4) by (simp add: pk_read_descriptor_def sub_slice_def algebra_simps)
  then have "pk_tick execute pk mem = (pk\<lparr>pk_pending := None, pk_backend := b', pk_int_status := 1\<rparr>, ?m)"
    using assms(2,5) by (simp add: pk_tick_def)
  moreover have "ram_slice ?m (ptr + of_nat i) (of_nat 4) = Some (take 4 (drop i (pk_answered d1 res1 res2)))"
    if "i \<le> 40" for i
  proof -
    have "ram_flat ?m"
      by (simp only: pk_write_results_def Let_def) (intro store_flat flat)
    then show ?thesis
      using flat_ram.slice_sub [OF _ pk_write_results_effect(1) [OF flat d1], where i = i and k = 4] that by simp
  qed
  from this [of 32] this [of 36] this [of 40]
  have "ram_slice ?m (ptr + PK_RES1_OFFSET) 4 = Some (to_be 4 res1)"
    "ram_slice ?m (ptr + PK_RES2_OFFSET) 4 = Some (to_be 4 res2)"
    "ram_slice ?m (ptr + PK_STATUS_OFFSET) 4 = Some (to_be 4 (1 :: u32))"
    by (simp_all add: pk_answered_def l1)
  ultimately show ?thesis
    using pk_write_results_effect(2) [OF flat d1] by blast
qed

text \<open>A latched request whose whole 64-byte descriptor lies in guest RAM is handed to
  the backend exactly once with the big-endian ACTION and ARG1..ARG7 of the descriptor; afterwards
  the guest reads the backend's RES1 and RES2 and STATUS = 1 in the descriptor, everything else in
  guest RAM is what the backend left, the port is free and the completion is flagged.\<close>

lemma pktport_services_request:
  assumes "backend_keeps_map execute" "ram_flat mem" "pk_pending pk = Some ptr" "ptr mod 4 = 0"
    and "ram_slice mem ptr PK_DESC_LEN = Some d"
    and "execute (pk_backend pk) (from_be (take 4 d))
      (map (\<lambda>i. from_be (take 4 (drop (4 * (i + 1)) d))) [0..<7]) mem = (b', mem1, res1, res2)"
  shows "\<exists>mem'. pk_tick execute pk mem =
      (pk\<lparr>pk_pending := None, pk_backend := b', pk_int_status := 1\<rparr>, mem') \<and>
    ram_slice mem' (ptr + PK_RES1_OFFSET) 4 = Some (to_be 4 res1) \<and>
    ram_slice mem' (ptr + PK_RES2_OFFSET) 4 = Some (to_be 4 res2) \<and>
    ram_slice mem' (ptr + PK_STATUS_OFFSET) 4 = Some (to_be 4 (1 :: u32)) \<and>
    (\<forall>b k. unat ptr + 0x2C \<le> unat b \<or> unat b + unat k \<le> unat ptr + 0x20 \<longrightarrow>
       ram_slice mem' b k = ram_slice mem1 b k)"
  using assms(1,6) unfolding backend_keeps_map_def
  by (intro pk_tick_serves [where execute = execute, OF assms(2-6)]) blast

section \<open>The one-deep request slot\<close>

datatype pk_op = PkTick | PkWrite u32 u8

definition pk_accepted :: "'b pktport \<Rightarrow> u32 \<Rightarrow> u32 list" where
  "pk_accepted pk offset = (if offset = PK_DOORBELL + 3 \<and> \<not> pk_busy pk then [pk_req_ptr pk] else [])"

abbreviation pk_latched :: "'b pktport \<Rightarrow> u32 list" where
  "pk_latched pk \<equiv> (case pk_pending pk of None \<Rightarrow> [] | Some ptr \<Rightarrow> [ptr])"

text \<open>The histories: doorbells accepted, and requests taken from the slot with whether they completed.\<close>

fun pk_step :: "'b packet_backend \<Rightarrow> 'b pktport \<times> guest_ram \<times> u32 list \<times> (u32 \<times> bool) list \<Rightarrow> pk_op \<Rightarrow>
    'b pktport \<times> guest_ram \<times> u32 list \<times> (u32 \<times> bool) list" where
  "pk_step ex (pk, mem, acc, taken) PkTick =
     (let (pk', mem') = pk_tick ex pk mem
      in (pk', mem', acc, taken @ map (\<lambda>p. (p, pk_read_descriptor p mem \<noteq> None)) (pk_latched pk)))"
| "pk_step ex (pk, mem, acc, taken) (PkWrite offset v) =
     (pk_write pk offset v, mem, acc @ pk_accepted pk offset, taken)"

definition pk_conserved :: "'b pktport \<times> guest_ram \<times> u32 list \<times> (u32 \<times> bool) list \<Rightarrow> bool" where
  "pk_conserved s = (case s of (pk, mem, acc, taken) \<Rightarrow>
     acc = map fst taken @ pk_latched pk \<and>
     pk_dropped_descriptors pk = of_nat (length (filter (\<lambda>x. \<not> snd x) taken)) \<and>
     pk_int_status pk \<in> {0, 1})"

lemma pk_step_conserves: "pk_conserved s \<Longrightarrow> pk_conserved (pk_step ex s x)"
proof -
  assume h: "pk_conserved s"
  obtain pk mem acc taken where s: "s = (pk, mem, acc, taken)" by (metis prod_cases4)
  show ?thesis
  proof (cases x)
    case PkTick
    then show ?thesis
      using h by (auto simp: s pk_conserved_def pk_tick_def Let_def split: option.splits prod.splits)
  next
    case (PkWrite offset v)
    have "in_slot 0xF PK_DOORBELL" "\<not> in_slot 0xF PK_REQ_PTR" by (simp_all add: in_slot_def)
    then show ?thesis
      using h PkWrite in_slot_lane3 [of PK_DOORBELL offset]
      by (auto simp: s pk_conserved_def pk_write_def pk_submit_def pk_accepted_def pk_busy_def split: option.splits)
  qed
qed

lemma pk_run_conserves: "pk_conserved s \<Longrightarrow> pk_conserved (foldl (pk_step ex) s ops)"
  by (induction ops arbitrary: s) (simp_all add: pk_step_conserves)

text \<open>Over any interleaving of register writes and ticks, the accepted doorbells are
  exactly the requests taken so far followed by the one still latched, in order; a request whose
  descriptor is unreadable is only counted as dropped; and while a request is latched no register
  write can clear the completion flag.\<close>

lemma pktport_no_request_lost:
  assumes "foldl (pk_step ex) (pk_new b, mem, [], []) ops = (pk, mem', acc, taken)"
  shows "acc = map fst taken @ pk_latched pk \<and>
    pk_dropped_descriptors pk = of_nat (length (filter (\<lambda>x. \<not> snd x) taken)) \<and>
    (pk_busy pk \<longrightarrow> (\<forall>offset v. pk_int_status (pk_write pk offset v) = pk_int_status pk))"
proof -
  have "pk_conserved (pk_new b, mem, [], [])" by (simp add: pk_conserved_def pk_new_def)
  from pk_run_conserves [OF this, of ex ops] show ?thesis
    unfolding assms by (simp add: pk_conserved_def pk_write_def pk_submit_def)
qed

section \<open>Witnesses\<close>

text \<open>A backend that counts its calls and answers with constants.\<close>

definition counting_backend :: "nat packet_backend" where
  "counting_backend b action args mem = (b + 1, mem, action + 7, 9)"

lemma counting_backend_keeps_map: "backend_keeps_map counting_backend"
  by (simp add: backend_keeps_map_def counting_backend_def)

lemma zero_ram_flat: "ram_flat zero_ram"
  by (simp add: ram_flat_def) (simp add: zero_ram_def gr_new_def)

lemma zero_ram_desc: "ram_slice zero_ram 0x1000 PK_DESC_LEN = Some (replicate 64 0)"
  by (simp add: ram_slice_region chip_region sub_slice_def) (simp add: zero_ram_def gr_new_def)

theorem pktport_services_request_witness:
  "\<exists>mem'. pk_tick counting_backend ((pk_new 0)\<lparr>pk_pending := Some 0x1000\<rparr>) zero_ram =
      ((pk_new 1)\<lparr>pk_int_status := 1\<rparr>, mem') \<and>
    ram_slice mem' 0x1020 4 = Some (to_be 4 (7 :: u32)) \<and> ram_slice mem' 0x1028 4 = Some (to_be 4 (1 :: u32))"
proof -
  have z: "from_be (replicate 4 0) = (0 :: u32)"
    by (simp add: from_be_def numeral_eq_Suc)
  show ?thesis
    using pktport_services_request [OF counting_backend_keeps_map zero_ram_flat _ _ zero_ram_desc,
        where pk = "(pk_new 0)\<lparr>pk_pending := Some 0x1000\<rparr>"]
    by (auto simp: counting_backend_def pk_new_def z)
qed

theorem pktport_no_request_lost_witness:
  "\<exists>pk mem' acc taken. foldl (pk_step counting_backend) (pk_new 0, zero_ram, [], [])
       [PkWrite 0x0B 2, PkWrite 0x0F 0, PkWrite 0x0F 0, PkTick] = (pk, mem', acc, taken) \<and>
     acc = [2] \<and> acc = map fst taken @ pk_latched pk \<and> pk_dropped_descriptors pk = 1"
proof -
  obtain pk mem' acc taken where r: "foldl (pk_step counting_backend) (pk_new 0, zero_ram, [], [])
       [PkWrite 0x0B 2, PkWrite 0x0F 0, PkWrite 0x0F 0, PkTick] = (pk, mem', acc, taken)"
    by (metis prod_cases4)
  have "acc = [2]" "taken = [(2, False)]"
    using r by (auto simp: pk_new_def pk_write_def pk_submit_def pk_accepted_def pk_busy_def in_slot_def
        set_byte_of_def pk_tick_def pk_read_descriptor_def)
  with pktport_no_request_lost [OF r] r show ?thesis by simp
qed

end
