(* ===== verification/PktVol.thy ===== *)
theory PktVol
  imports BlockDev Pktport
begin

text \<open>
  The file-system service behind the packet port, \<open>PktVolume\<close> of \<open>crates/machine-hosted/src/pktvol.rs\<close>: handles, path
  splitting, error mapping, the structures written into guest memory, and one definition per DOS action. The
  properties are in \<open>PktVolProofs\<close>.

  The partition table and the file system itself are the packages \<open>amiga-rdb\<close> and \<open>amiga-ffs\<close>. Their operations are a
  record of functions over states (\<open>ffs_crate\<close>), an argument of every definition; an operation that takes \<open>&mut self\<close> returns
  the state with its result. Of their error enums the constructors the source names are modelled, the others are one.
  An \<open>expect\<close> that fails is the value None.
\<close>

section \<open>Actions and codes\<close>

(* src/crates/machine-hosted/src/pktvol.rs:101-101 action::LOCATE_OBJECT *)
definition ACTION_LOCATE_OBJECT :: u32 where [simp]: "ACTION_LOCATE_OBJECT = 8"
(* src/crates/machine-hosted/src/pktvol.rs:105-105 action::FREE_LOCK *)
definition ACTION_FREE_LOCK :: u32 where [simp]: "ACTION_FREE_LOCK = 15"
(* src/crates/machine-hosted/src/pktvol.rs:106-106 action::COPY_DIR *)
definition ACTION_COPY_DIR :: u32 where [simp]: "ACTION_COPY_DIR = 19"
(* src/crates/machine-hosted/src/pktvol.rs:107-107 action::PARENT *)
definition ACTION_PARENT :: u32 where [simp]: "ACTION_PARENT = 29"
(* src/crates/machine-hosted/src/pktvol.rs:108-108 action::SAME_LOCK *)
definition ACTION_SAME_LOCK :: u32 where [simp]: "ACTION_SAME_LOCK = 40"
(* src/crates/machine-hosted/src/pktvol.rs:112-112 action::INHIBIT *)
definition ACTION_INHIBIT :: u32 where [simp]: "ACTION_INHIBIT = 31"
(* src/crates/machine-hosted/src/pktvol.rs:116-116 action::FORMAT *)
definition ACTION_FORMAT :: u32 where [simp]: "ACTION_FORMAT = 1020"
(* src/crates/machine-hosted/src/pktvol.rs:117-117 action::EXAMINE_OBJECT *)
definition ACTION_EXAMINE_OBJECT :: u32 where [simp]: "ACTION_EXAMINE_OBJECT = 23"
(* src/crates/machine-hosted/src/pktvol.rs:118-118 action::EXAMINE_NEXT *)
definition ACTION_EXAMINE_NEXT :: u32 where [simp]: "ACTION_EXAMINE_NEXT = 24"
(* src/crates/machine-hosted/src/pktvol.rs:119-119 action::INFO *)
definition ACTION_INFO :: u32 where [simp]: "ACTION_INFO = 26"
(* src/crates/machine-hosted/src/pktvol.rs:120-120 action::DISK_INFO *)
definition ACTION_DISK_INFO :: u32 where [simp]: "ACTION_DISK_INFO = 25"
(* src/crates/machine-hosted/src/pktvol.rs:121-121 action::FINDINPUT *)
definition ACTION_FINDINPUT :: u32 where [simp]: "ACTION_FINDINPUT = 1005"
(* src/crates/machine-hosted/src/pktvol.rs:122-122 action::FINDOUTPUT *)
definition ACTION_FINDOUTPUT :: u32 where [simp]: "ACTION_FINDOUTPUT = 1006"
(* src/crates/machine-hosted/src/pktvol.rs:123-123 action::FINDUPDATE *)
definition ACTION_FINDUPDATE :: u32 where [simp]: "ACTION_FINDUPDATE = 1004"
(* src/crates/machine-hosted/src/pktvol.rs:124-124 action::END *)
definition ACTION_END :: u32 where [simp]: "ACTION_END = 1007"
(* src/crates/machine-hosted/src/pktvol.rs:125-125 action::READ *)
definition ACTION_READ :: u32 where [simp]: "ACTION_READ = 82"
(* src/crates/machine-hosted/src/pktvol.rs:126-126 action::WRITE *)
definition ACTION_WRITE :: u32 where [simp]: "ACTION_WRITE = 87"
(* src/crates/machine-hosted/src/pktvol.rs:127-127 action::SEEK *)
definition ACTION_SEEK :: u32 where [simp]: "ACTION_SEEK = 1008"
(* src/crates/machine-hosted/src/pktvol.rs:128-128 action::SET_FILE_SIZE *)
definition ACTION_SET_FILE_SIZE :: u32 where [simp]: "ACTION_SET_FILE_SIZE = 1022"
(* src/crates/machine-hosted/src/pktvol.rs:129-129 action::CREATE_DIR *)
definition ACTION_CREATE_DIR :: u32 where [simp]: "ACTION_CREATE_DIR = 22"
(* src/crates/machine-hosted/src/pktvol.rs:130-130 action::DELETE_OBJECT *)
definition ACTION_DELETE_OBJECT :: u32 where [simp]: "ACTION_DELETE_OBJECT = 16"
(* src/crates/machine-hosted/src/pktvol.rs:131-131 action::RENAME_OBJECT *)
definition ACTION_RENAME_OBJECT :: u32 where [simp]: "ACTION_RENAME_OBJECT = 17"
(* src/crates/machine-hosted/src/pktvol.rs:132-132 action::SET_PROTECT *)
definition ACTION_SET_PROTECT :: u32 where [simp]: "ACTION_SET_PROTECT = 21"
(* src/crates/machine-hosted/src/pktvol.rs:133-133 action::SET_COMMENT *)
definition ACTION_SET_COMMENT :: u32 where [simp]: "ACTION_SET_COMMENT = 28"
(* src/crates/machine-hosted/src/pktvol.rs:134-134 action::SET_DATE *)
definition ACTION_SET_DATE :: u32 where [simp]: "ACTION_SET_DATE = 34"
(* src/crates/machine-hosted/src/pktvol.rs:135-135 action::IS_FILESYSTEM *)
definition ACTION_IS_FILESYSTEM :: u32 where [simp]: "ACTION_IS_FILESYSTEM = 1027"
(* src/crates/machine-hosted/src/pktvol.rs:136-136 action::FLUSH *)
definition ACTION_FLUSH :: u32 where [simp]: "ACTION_FLUSH = 27"
(* src/crates/machine-hosted/src/pktvol.rs:140-140 DOSTRUE *)
definition DOSTRUE :: u32 where [simp]: "DOSTRUE = 0xFFFFFFFF"
(* src/crates/machine-hosted/src/pktvol.rs:141-141 DOSFALSE *)
definition DOSFALSE :: u32 where [simp]: "DOSFALSE = 0"
(* src/crates/machine-hosted/src/pktvol.rs:143-143 READ_WRITE_ERROR *)
definition READ_WRITE_ERROR :: u32 where [simp]: "READ_WRITE_ERROR = 0xFFFFFFFF"
(* src/crates/machine-hosted/src/pktvol.rs:148-148 err::OBJECT_IN_USE *)
definition DOS_ERR_OBJECT_IN_USE :: u32 where [simp]: "DOS_ERR_OBJECT_IN_USE = 202"
(* src/crates/machine-hosted/src/pktvol.rs:149-149 err::OBJECT_EXISTS *)
definition DOS_ERR_OBJECT_EXISTS :: u32 where [simp]: "DOS_ERR_OBJECT_EXISTS = 203"
(* src/crates/machine-hosted/src/pktvol.rs:150-150 err::DIR_NOT_FOUND *)
definition DOS_ERR_DIR_NOT_FOUND :: u32 where [simp]: "DOS_ERR_DIR_NOT_FOUND = 204"
(* src/crates/machine-hosted/src/pktvol.rs:151-151 err::OBJECT_NOT_FOUND *)
definition DOS_ERR_OBJECT_NOT_FOUND :: u32 where [simp]: "DOS_ERR_OBJECT_NOT_FOUND = 205"
(* src/crates/machine-hosted/src/pktvol.rs:152-152 err::ACTION_NOT_KNOWN *)
definition DOS_ERR_ACTION_NOT_KNOWN :: u32 where [simp]: "DOS_ERR_ACTION_NOT_KNOWN = 209"
(* src/crates/machine-hosted/src/pktvol.rs:153-153 err::INVALID_COMPONENT_NAME *)
definition DOS_ERR_INVALID_COMPONENT_NAME :: u32 where [simp]: "DOS_ERR_INVALID_COMPONENT_NAME = 210"
(* src/crates/machine-hosted/src/pktvol.rs:154-154 err::OBJECT_WRONG_TYPE *)
definition DOS_ERR_OBJECT_WRONG_TYPE :: u32 where [simp]: "DOS_ERR_OBJECT_WRONG_TYPE = 212"
(* src/crates/machine-hosted/src/pktvol.rs:155-155 err::NOT_VALIDATED *)
definition DOS_ERR_NOT_VALIDATED :: u32 where [simp]: "DOS_ERR_NOT_VALIDATED = 213"
(* src/crates/machine-hosted/src/pktvol.rs:156-156 err::WRITE_PROTECTED *)
definition DOS_ERR_WRITE_PROTECTED :: u32 where [simp]: "DOS_ERR_WRITE_PROTECTED = 214"
(* src/crates/machine-hosted/src/pktvol.rs:157-157 err::DIRECTORY_NOT_EMPTY *)
definition DOS_ERR_DIRECTORY_NOT_EMPTY :: u32 where [simp]: "DOS_ERR_DIRECTORY_NOT_EMPTY = 216"
(* src/crates/machine-hosted/src/pktvol.rs:158-158 err::DISK_FULL *)
definition DOS_ERR_DISK_FULL :: u32 where [simp]: "DOS_ERR_DISK_FULL = 221"
(* src/crates/machine-hosted/src/pktvol.rs:159-159 err::WRITE_PROTECTED_FILE *)
definition DOS_ERR_WRITE_PROTECTED_FILE :: u32 where [simp]: "DOS_ERR_WRITE_PROTECTED_FILE = 223"
(* src/crates/machine-hosted/src/pktvol.rs:160-160 err::NOT_A_DOS_DISK *)
definition DOS_ERR_NOT_A_DOS_DISK :: u32 where [simp]: "DOS_ERR_NOT_A_DOS_DISK = 225"
(* src/crates/machine-hosted/src/pktvol.rs:161-161 err::NO_MORE_ENTRIES *)
definition DOS_ERR_NO_MORE_ENTRIES :: u32 where [simp]: "DOS_ERR_NO_MORE_ENTRIES = 232"
(* src/crates/machine-hosted/src/pktvol.rs:166-166 err::BAD_NUMBER *)
definition DOS_ERR_BAD_NUMBER :: u32 where [simp]: "DOS_ERR_BAD_NUMBER = 115"
(* src/crates/machine-hosted/src/pktvol.rs:169-169 FIB_SIZE *)
definition FIB_SIZE :: u32 where [simp]: "FIB_SIZE = 260"
(* src/crates/machine-hosted/src/pktvol.rs:170-170 INFO_DATA_SIZE *)
definition INFO_DATA_SIZE :: u32 where [simp]: "INFO_DATA_SIZE = 36"
(* src/crates/machine-hosted/src/pktvol.rs:172-172 ID_WRITE_PROTECTED *)
definition ID_WRITE_PROTECTED :: u32 where [simp]: "ID_WRITE_PROTECTED = 80"
(* src/crates/machine-hosted/src/pktvol.rs:173-173 ID_VALIDATED *)
definition ID_VALIDATED :: u32 where [simp]: "ID_VALIDATED = 82"

section \<open>The medium\<close>

(* src/crates/machine-hosted/src/pktvol.rs:179-195 FileMedium *)
record file_medium =
  fm_file :: host_file
  fm_block_size :: nat
  fm_base_lba :: u64
  fm_len_blocks :: "u64 option"

(* src/crates/machine-hosted/src/pktvol.rs:198-210 FileMedium::abs *)
definition fm_abs :: "file_medium \<Rightarrow> u64 \<Rightarrow> u64 option" where
  "fm_abs m lba =
     (case fm_len_blocks m of
        Some len \<Rightarrow> if len \<le> lba then None else checked_add_u64 (fm_base_lba m) lba
      | None \<Rightarrow> checked_add_u64 (fm_base_lba m) lba)"

(* src/crates/machine-hosted/src/pktvol.rs:212-219 FileMedium::seek_to *)
definition fm_seek_to :: "file_medium \<Rightarrow> u64 \<Rightarrow> file_medium option" where
  "fm_seek_to m lba =
     (case fm_abs m lba of
        None \<Rightarrow> None
      | Some abs_lba \<Rightarrow>
          if unat abs_lba * fm_block_size m < 2 ^ 64
          then Some (m\<lparr>fm_file := file_seek (fm_file m) (unat abs_lba * fm_block_size m)\<rparr>) else None)"

text \<open>\<open>read_block\<close> of both \<open>BlockSource\<close> traits, \<open>write_block\<close> of \<open>BlockSink\<close>; the flag is \<open>Ok\<close>.\<close>

(* src/crates/machine-hosted/src/pktvol.rs:222-248 FileMedium::read_block *)
definition fm_read_block :: "file_medium \<Rightarrow> u64 \<Rightarrow> u8 list \<Rightarrow> file_medium \<times> u8 list \<times> bool" where
  "fm_read_block m lba buf =
     (case fm_seek_to m lba of
        None \<Rightarrow> (m, buf, False)
      | Some m1 \<Rightarrow> let (f, buf', ok) = file_read_exact (fm_file m1) buf in (m1\<lparr>fm_file := f\<rparr>, buf', ok))"

(* src/crates/machine-hosted/src/pktvol.rs:250-262 FileMedium::write_block *)
definition fm_write_block :: "file_medium \<Rightarrow> u64 \<Rightarrow> u8 list \<Rightarrow> file_medium \<times> bool" where
  "fm_write_block m lba buf =
     (case fm_seek_to m lba of
        None \<Rightarrow> (m, False)
      | Some m1 \<Rightarrow> let (f, ok) = file_write_all (fm_file m1) buf in (m1\<lparr>fm_file := f\<rparr>, ok))"

section \<open>The interface of the packages\<close>

datatype ffs_error = FfsNotADirectory | FfsNotHeader | FfsNameTooLong | FfsUnknownDosType | FfsVariantMismatch
  | FfsBadBlockSize | FfsOther

datatype alloc_error = AllocRead ffs_error | AllocBitmapInvalid | AllocVolumeFull | AllocOther

datatype mutate_error = MutRead ffs_error | MutAlloc alloc_error | MutNameEmpty | MutNameTooLong | MutNameInvalidByte
  | MutCommentTooLong | MutNotADirectory | MutNotAFile | MutIsRoot | MutNotFound | MutDuplicateName
  | MutDirectoryNotEmpty | MutLinkedTo | MutIntoOwnSubtree | MutFileTooLarge | MutOther

datatype format_error = FmtNameEmpty | FmtNameTooLong | FmtNameInvalidByte | FmtBadBlockSize | FmtBadReserved
  | FmtReservedTooSmall | FmtVolumeTooSmall | FmtVolumeTooLarge | FmtSinkTooSmall | FmtIo

datatype rdb_error = RdbNoRdsk | RdbOther

record date_stamp =
  ds_days :: u32
  ds_mins :: u32
  ds_ticks :: u32

text \<open>What the source reads of an \<open>Entry\<close> (of its kind: whether it is \<open>File\<close>, \<open>is_directory()\<close>, \<open>secondary_type()\<close>), of a
  \<open>FileChain\<close> and of a \<open>Partition\<close>.\<close>

record dir_entry =
  en_lba :: u64
  en_is_file :: bool
  en_is_directory :: bool
  en_secondary_type :: u32
  en_parent :: u32
  en_name :: "u8 list"
  en_protection :: u32
  en_byte_size :: u32
  en_date :: date_stamp
  en_owner :: u32

record file_chain =
  ch_blocks :: "u64 list"
  ch_extensions :: "u64 list"
  ch_byte_size :: u64

record partition =
  pa_name :: string
  pa_dos_type :: u32
  pa_start_lba :: u64
  pa_block_len :: u64
  pa_envec_raw :: "u32 list"

datatype meta_update = MetaProtection u32 | MetaComment "u8 list" | MetaDate date_stamp

record ('v, 'vt) volume_ops =
  vo_lookup :: "'v \<Rightarrow> u64 \<Rightarrow> u8 list \<Rightarrow> 'v \<times> (ffs_error + dir_entry option)"
  vo_lookup_path :: "'v \<Rightarrow> u64 \<Rightarrow> u8 list \<Rightarrow> 'v \<times> (ffs_error + dir_entry option)"
  vo_read_dir :: "'v \<Rightarrow> u64 \<Rightarrow> 'v \<times> (ffs_error + dir_entry list)"
  vo_entry_at :: "'v \<Rightarrow> u64 \<Rightarrow> 'v \<times> (ffs_error + dir_entry)"
  vo_file_chain :: "'v \<Rightarrow> u64 \<Rightarrow> 'v \<times> (ffs_error + file_chain)"
  vo_read_range :: "'v \<Rightarrow> file_chain \<Rightarrow> u64 \<Rightarrow> u8 list \<Rightarrow> 'v \<times> u8 list \<times> (ffs_error + nat)"
  vo_comment :: "'v \<Rightarrow> dir_entry \<Rightarrow> 'v \<times> (ffs_error + u8 list)"
  vo_root :: "'v \<Rightarrow> u8 list \<times> date_stamp"
  vo_root_lba :: "'v \<Rightarrow> u64"
  vo_block_size :: "'v \<Rightarrow> nat"
  vo_block_count :: "'v \<Rightarrow> u64"
  vo_variant :: "'v \<Rightarrow> 'vt"

text \<open>\<open>'r\<close> is a read-only \<open>Volume\<close>, \<open>'a\<close> its \<open>Allocator\<close>, \<open>'w\<close> a \<open>Mutator\<close>, \<open>'vt\<close> a \<open>Variant\<close>.\<close>

(* src/crates/machine-hosted/src/pktvol.rs:338-344 Backing *)
datatype ('r, 'a, 'w) backing = ReadOnly 'r 'a | Writable 'w

text \<open>\<open>fc_open_file\<close> is \<open>File::open\<close> of the host when the image is mounted again: what the file holds is what the present
  backing has written, so the backing is an argument.\<close>

record ('r, 'a, 'w, 'vt) ffs_crate =
  fc_ro :: "('r, 'vt) volume_ops"
  fc_rw :: "('w, 'vt) volume_ops"
  fc_rdb_parse :: "file_medium \<Rightarrow> file_medium \<times> (rdb_error + partition list)"
  fc_from_dostype :: "u32 \<Rightarrow> 'vt option"
  fc_dostype :: "'vt \<Rightarrow> u32"
  fc_default_reserved :: u64
  fc_st_root :: u32
  fc_open_with :: "file_medium \<Rightarrow> 'vt option \<Rightarrow> u64 \<Rightarrow> u64 \<Rightarrow> ffs_error + 'r"
  fc_alloc_load :: "'r \<Rightarrow> 'r \<times> (alloc_error + 'a)"
  fc_alloc_used :: "'a \<Rightarrow> u64"
  fc_mut_open :: "'r \<Rightarrow> mutate_error + 'w"
  fc_mut_used :: "'w \<Rightarrow> u64"
  fc_truncate :: "'w \<Rightarrow> u64 \<Rightarrow> u8 list \<Rightarrow> u64 \<Rightarrow> 'w \<times> (mutate_error + unit)"
  fc_create_file :: "'w \<Rightarrow> u64 \<Rightarrow> u8 list \<Rightarrow> u8 list \<Rightarrow> 'w \<times> (mutate_error + u64)"
  fc_write_file :: "'w \<Rightarrow> u64 \<Rightarrow> u8 list \<Rightarrow> u64 \<Rightarrow> u8 list \<Rightarrow> 'w \<times> (mutate_error + unit)"
  fc_create_dir :: "'w \<Rightarrow> u64 \<Rightarrow> u8 list \<Rightarrow> 'w \<times> (mutate_error + u64)"
  fc_delete :: "'w \<Rightarrow> u64 \<Rightarrow> u8 list \<Rightarrow> 'w \<times> (mutate_error + unit)"
  fc_rename :: "'w \<Rightarrow> u64 \<Rightarrow> u8 list \<Rightarrow> u64 \<Rightarrow> u8 list \<Rightarrow> 'w \<times> (mutate_error + unit)"
  fc_set_metadata :: "'w \<Rightarrow> u64 \<Rightarrow> meta_update \<Rightarrow> 'w \<times> (mutate_error + unit)"
  fc_sync_data :: "'w \<Rightarrow> 'w"
  fc_format :: "'w \<Rightarrow> 'vt \<Rightarrow> u64 \<Rightarrow> u8 list \<Rightarrow> u64 \<Rightarrow> 'w \<times> (format_error + unit)"
  fc_open_file :: "('r, 'a, 'w) backing \<Rightarrow> string \<Rightarrow> bool \<Rightarrow> host_file option"

section \<open>Handles and the volume\<close>

(* src/crates/machine-hosted/src/pktvol.rs:319-332 OpenFile *)
record open_file =
  of_parent_lba :: u64
  of_name :: "u8 list"
  of_header_lba :: u64
  of_position :: u64
  of_write :: bool

(* src/crates/machine-hosted/src/pktvol.rs:312-317 Handle *)
datatype handle = Lock u64 | File open_file

(* src/crates/machine-hosted/src/pktvol.rs:346-381 PktVolume *)
record ('r, 'a, 'w) pkt_volume =
  pv_backing :: "('r, 'a, 'w) backing"
  pv_handles :: "u32 \<rightharpoonup> handle"
  pv_next_handle :: u32
  pv_writable :: bool
  pv_path :: string
  pv_base_lba :: u64
  pv_len_blocks :: u64
  pv_reserved :: u64
  pv_block_size :: nat
  pv_inhibited :: bool

text \<open>\<open>AnyVolume\<close>: one forwarding match per method.\<close>

definition forward :: "('r \<Rightarrow> 'r \<times> 'x) \<Rightarrow> ('w \<Rightarrow> 'w \<times> 'x) \<Rightarrow> ('r, 'a, 'w) backing \<Rightarrow> ('r, 'a, 'w) backing \<times> 'x" where
  "forward ro rw b =
     (case b of
        ReadOnly v a \<Rightarrow> let (v', x) = ro v in (ReadOnly v' a, x)
      | Writable m \<Rightarrow> let (m', x) = rw m in (Writable m', x))"

definition forward_ref :: "('r \<Rightarrow> 'x) \<Rightarrow> ('w \<Rightarrow> 'x) \<Rightarrow> ('r, 'a, 'w) backing \<Rightarrow> 'x" where
  "forward_ref ro rw b = (case b of ReadOnly v a \<Rightarrow> ro v | Writable m \<Rightarrow> rw m)"

(* src/crates/machine-hosted/src/pktvol.rs:392-485 AnyVolume *)
definition any_volume :: "('r, 'a, 'w, 'vt) ffs_crate \<Rightarrow> (('r, 'a, 'w) backing, 'vt) volume_ops" where
  "any_volume E = \<lparr>
     vo_lookup = (\<lambda>b dir_lba name. forward (\<lambda>v. vo_lookup (fc_ro E) v dir_lba name) (\<lambda>v. vo_lookup (fc_rw E) v dir_lba name) b),
     vo_lookup_path = (\<lambda>b dir_lba path. forward (\<lambda>v. vo_lookup_path (fc_ro E) v dir_lba path) (\<lambda>v. vo_lookup_path (fc_rw E) v dir_lba path) b),
     vo_read_dir = (\<lambda>b dir_lba. forward (\<lambda>v. vo_read_dir (fc_ro E) v dir_lba) (\<lambda>v. vo_read_dir (fc_rw E) v dir_lba) b),
     vo_entry_at = (\<lambda>b lba. forward (\<lambda>v. vo_entry_at (fc_ro E) v lba) (\<lambda>v. vo_entry_at (fc_rw E) v lba) b),
     vo_file_chain = (\<lambda>b header_lba. forward (\<lambda>v. vo_file_chain (fc_ro E) v header_lba) (\<lambda>v. vo_file_chain (fc_rw E) v header_lba) b),
     vo_read_range = (\<lambda>b chain offset buf. forward (\<lambda>v. vo_read_range (fc_ro E) v chain offset buf) (\<lambda>v. vo_read_range (fc_rw E) v chain offset buf) b),
     vo_comment = (\<lambda>b entry. forward (\<lambda>v. vo_comment (fc_ro E) v entry) (\<lambda>v. vo_comment (fc_rw E) v entry) b),
     vo_root = forward_ref (vo_root (fc_ro E)) (vo_root (fc_rw E)),
     vo_root_lba = forward_ref (vo_root_lba (fc_ro E)) (vo_root_lba (fc_rw E)),
     vo_block_size = forward_ref (vo_block_size (fc_ro E)) (vo_block_size (fc_rw E)),
     vo_block_count = forward_ref (vo_block_count (fc_ro E)) (vo_block_count (fc_rw E)),
     vo_variant = forward_ref (vo_variant (fc_ro E)) (vo_variant (fc_rw E))\<rparr>"

text \<open>\<open>self.volume().op(...)\<close>: the volume is the backing, borrowed.\<close>

(* src/crates/machine-hosted/src/pktvol.rs:625-630 PktVolume::volume *)
definition via_volume :: "(('r, 'a, 'w) backing \<Rightarrow> ('r, 'a, 'w) backing \<times> 'x) \<Rightarrow> ('r, 'a, 'w) pkt_volume \<Rightarrow> ('r, 'a, 'w) pkt_volume \<times> 'x" where
  "via_volume f pv = (let (b, x) = f (pv_backing pv) in (pv\<lparr>pv_backing := b\<rparr>, x))"

text \<open>\<open>self.mutator_mut()\<close> followed by one operation; None when there is no mutator.\<close>

(* src/crates/machine-hosted/src/pktvol.rs:632-637 PktVolume::mutator_mut *)
definition via_mutator :: "('w \<Rightarrow> 'w \<times> 'x) \<Rightarrow> ('r, 'a, 'w) pkt_volume \<Rightarrow> (('r, 'a, 'w) pkt_volume \<times> 'x) option" where
  "via_mutator f pv =
     (case pv_backing pv of
        Writable m \<Rightarrow> let (m', x) = f m in Some (pv\<lparr>pv_backing := Writable m'\<rparr>, x)
      | ReadOnly v a \<Rightarrow> None)"

(* src/crates/machine-hosted/src/pktvol.rs:639-644 PktVolume::blocks_used *)
definition pv_blocks_used :: "('r, 'a, 'w, 'vt) ffs_crate \<Rightarrow> ('r, 'a, 'w) pkt_volume \<Rightarrow> u64" where
  "pv_blocks_used E pv = (case pv_backing pv of ReadOnly v a \<Rightarrow> fc_alloc_used E a | Writable m \<Rightarrow> fc_mut_used E m)"

(* src/crates/machine-hosted/src/pktvol.rs:646-651 PktVolume::alloc_handle *)
definition alloc_handle :: "('r, 'a, 'w) pkt_volume \<Rightarrow> handle \<Rightarrow> ('r, 'a, 'w) pkt_volume \<times> u32" where
  "alloc_handle pv h =
     (let i = pv_next_handle pv
      in (pv\<lparr>pv_next_handle := saturating_add_u32 (pv_next_handle pv) 1, pv_handles := (pv_handles pv)(i \<mapsto> h)\<rparr>, i))"

(* src/crates/machine-hosted/src/pktvol.rs:653-665 PktVolume::resolve_lock *)
definition resolve_lock :: "('r, 'a, 'w, 'vt) ffs_crate \<Rightarrow> ('r, 'a, 'w) pkt_volume \<Rightarrow> u32 \<Rightarrow> u64 option" where
  "resolve_lock E pv h =
     (if h = 0 then Some (vo_root_lba (any_volume E) (pv_backing pv))
      else case pv_handles pv h of Some (Lock lba) \<Rightarrow> Some lba | _ \<Rightarrow> None)"

(* src/crates/machine-hosted/src/pktvol.rs:667-677 PktVolume::dup_lock *)
definition dup_lock :: "('r, 'a, 'w, 'vt) ffs_crate \<Rightarrow> ('r, 'a, 'w) pkt_volume \<Rightarrow> u64 \<Rightarrow> ('r, 'a, 'w) pkt_volume \<times> u32" where
  "dup_lock E pv lba =
     (if lba = vo_root_lba (any_volume E) (pv_backing pv) then (pv, 0) else alloc_handle pv (Lock lba))"

section \<open>Error mapping\<close>

(* src/crates/machine-hosted/src/pktvol.rs:727-753 map_read_error *)
fun map_read_error :: "ffs_error \<Rightarrow> u32" where
  "map_read_error FfsNotADirectory = DOS_ERR_OBJECT_WRONG_TYPE"
| "map_read_error FfsNotHeader = DOS_ERR_OBJECT_WRONG_TYPE"
| "map_read_error FfsNameTooLong = DOS_ERR_INVALID_COMPONENT_NAME"
| "map_read_error FfsUnknownDosType = DOS_ERR_NOT_A_DOS_DISK"
| "map_read_error FfsVariantMismatch = DOS_ERR_NOT_A_DOS_DISK"
| "map_read_error FfsBadBlockSize = DOS_ERR_NOT_A_DOS_DISK"
| "map_read_error FfsOther = DOS_ERR_OBJECT_NOT_FOUND"

(* src/crates/machine-hosted/src/pktvol.rs:755-772 map_alloc_error *)
fun map_alloc_error :: "alloc_error \<Rightarrow> u32" where
  "map_alloc_error (AllocRead re) = map_read_error re"
| "map_alloc_error AllocBitmapInvalid = DOS_ERR_NOT_VALIDATED"
| "map_alloc_error AllocVolumeFull = DOS_ERR_DISK_FULL"
| "map_alloc_error AllocOther = DOS_ERR_OBJECT_NOT_FOUND"

(* src/crates/machine-hosted/src/pktvol.rs:774-806 map_mutate_error *)
fun map_mutate_error :: "mutate_error \<Rightarrow> u32" where
  "map_mutate_error (MutRead re) = map_read_error re"
| "map_mutate_error (MutAlloc ae) = map_alloc_error ae"
| "map_mutate_error MutNameEmpty = DOS_ERR_INVALID_COMPONENT_NAME"
| "map_mutate_error MutNameTooLong = DOS_ERR_INVALID_COMPONENT_NAME"
| "map_mutate_error MutNameInvalidByte = DOS_ERR_INVALID_COMPONENT_NAME"
| "map_mutate_error MutCommentTooLong = DOS_ERR_INVALID_COMPONENT_NAME"
| "map_mutate_error MutNotADirectory = DOS_ERR_OBJECT_WRONG_TYPE"
| "map_mutate_error MutNotAFile = DOS_ERR_OBJECT_WRONG_TYPE"
| "map_mutate_error MutIsRoot = DOS_ERR_OBJECT_WRONG_TYPE"
| "map_mutate_error MutNotFound = DOS_ERR_OBJECT_NOT_FOUND"
| "map_mutate_error MutDuplicateName = DOS_ERR_OBJECT_EXISTS"
| "map_mutate_error MutDirectoryNotEmpty = DOS_ERR_DIRECTORY_NOT_EMPTY"
| "map_mutate_error MutLinkedTo = DOS_ERR_OBJECT_IN_USE"
| "map_mutate_error MutIntoOwnSubtree = DOS_ERR_OBJECT_IN_USE"
| "map_mutate_error MutFileTooLarge = DOS_ERR_DISK_FULL"
| "map_mutate_error MutOther = DOS_ERR_OBJECT_NOT_FOUND"

(* src/crates/machine-hosted/src/pktvol.rs:808-831 map_format_error *)
fun map_format_error :: "format_error \<Rightarrow> u32" where
  "map_format_error FmtNameEmpty = DOS_ERR_INVALID_COMPONENT_NAME"
| "map_format_error FmtNameTooLong = DOS_ERR_INVALID_COMPONENT_NAME"
| "map_format_error FmtNameInvalidByte = DOS_ERR_INVALID_COMPONENT_NAME"
| "map_format_error FmtBadBlockSize = DOS_ERR_NOT_A_DOS_DISK"
| "map_format_error FmtBadReserved = DOS_ERR_NOT_A_DOS_DISK"
| "map_format_error FmtReservedTooSmall = DOS_ERR_NOT_A_DOS_DISK"
| "map_format_error FmtVolumeTooSmall = DOS_ERR_NOT_A_DOS_DISK"
| "map_format_error FmtVolumeTooLarge = DOS_ERR_NOT_A_DOS_DISK"
| "map_format_error FmtSinkTooSmall = DOS_ERR_NOT_A_DOS_DISK"
| "map_format_error FmtIo = DOS_ERR_OBJECT_NOT_FOUND"

section \<open>Mounting\<close>

datatype open_error = OpenIo | OpenRdb rdb_error | OpenFfs ffs_error | OpenMutate mutate_error | OpenAlloc alloc_error
  | NoFilesystemPartition | PartitionNotFound string

(* src/crates/machine-hosted/src/pktvol.rs:514-525 PktVolume::open *)
definition choose_partition :: "('r, 'a, 'w, 'vt) ffs_crate \<Rightarrow> string option \<Rightarrow> partition list \<Rightarrow> open_error + partition" where
  "choose_partition E partition_name partitions =
     (case partition_name of
        Some name \<Rightarrow> (case find (\<lambda>p. pa_name p = name) partitions of None \<Rightarrow> Inl (PartitionNotFound name) | Some p \<Rightarrow> Inr p)
      | None \<Rightarrow> (case find (\<lambda>p. fc_from_dostype E (pa_dos_type p) \<noteq> None) partitions of None \<Rightarrow> Inl NoFilesystemPartition | Some p \<Rightarrow> Inr p))"

text \<open>\<open>File::open\<close> is done by the caller of this definition: None is its failure.\<close>

(* src/crates/machine-hosted/src/pktvol.rs:488-579 PktVolume::open *)
definition pv_open :: "('r, 'a, 'w, 'vt) ffs_crate \<Rightarrow> string \<Rightarrow> host_file option \<Rightarrow> bool \<Rightarrow> string option \<Rightarrow> open_error + ('r, 'a, 'w) pkt_volume" where
  "pv_open E path file writable partition_name =
     (case file of
        None \<Rightarrow> Inl OpenIo
      | Some file \<Rightarrow>
          let total_blocks = of_nat (length (hf_bytes file)) div 512 :: u64;
              medium = \<lparr>fm_file = file, fm_block_size = 512, fm_base_lba = 0, fm_len_blocks = Some total_blocks\<rparr>;
              (medium1, rdb) = fc_rdb_parse E medium;
              place =
                (case rdb of
                   Inr partitions \<Rightarrow>
                     (case choose_partition E partition_name partitions of
                        Inl e \<Rightarrow> Inl e
                      | Inr chosen \<Rightarrow>
                          let reserved = (if 6 < length (pa_envec_raw chosen) then ucast (pa_envec_raw chosen ! 6) else fc_default_reserved E)
                          in Inr (pa_start_lba chosen, pa_block_len chosen, fc_from_dostype E (pa_dos_type chosen), reserved))
                 | Inl RdbNoRdsk \<Rightarrow> Inr (0, total_blocks, None, fc_default_reserved E)
                 | Inl e \<Rightarrow> Inl (OpenRdb e))
          in (case place of
                Inl e \<Rightarrow> Inl e
              | Inr (base_lba, len_blocks, expected, reserved) \<Rightarrow>
                  let medium2 = medium1\<lparr>fm_base_lba := base_lba, fm_len_blocks := Some len_blocks\<rparr>
                  in (case fc_open_with E medium2 expected len_blocks reserved of
                        Inl e \<Rightarrow> Inl (OpenFfs e)
                      | Inr vol \<Rightarrow>
                          (case (if writable then (case fc_mut_open E vol of Inl e \<Rightarrow> Inl (OpenMutate e) | Inr m \<Rightarrow> Inr (Writable m))
                                 else let (vol1, a) = fc_alloc_load E vol
                                      in (case a of Inl e \<Rightarrow> Inl (OpenAlloc e) | Inr alloc \<Rightarrow> Inr (ReadOnly vol1 alloc))) of
                             Inl e \<Rightarrow> Inl e
                           | Inr b \<Rightarrow> Inr \<lparr>pv_backing = b, pv_handles = Map.empty, pv_next_handle = 1, pv_writable = writable,
                               pv_path = path, pv_base_lba = base_lba, pv_len_blocks = len_blocks, pv_reserved = reserved,
                               pv_block_size = 512, pv_inhibited = False\<rparr>))))"

(* src/crates/machine-hosted/src/pktvol.rs:581-599 PktVolume::open_medium *)
definition pv_open_medium :: "('r, 'a, 'w, 'vt) ffs_crate \<Rightarrow> ('r, 'a, 'w) pkt_volume \<Rightarrow> file_medium option" where
  "pv_open_medium E pv =
     (case fc_open_file E (pv_backing pv) (pv_path pv) (pv_writable pv) of
        None \<Rightarrow> None
      | Some file \<Rightarrow> Some \<lparr>fm_file = file, fm_block_size = pv_block_size pv, fm_base_lba = pv_base_lba pv,
                          fm_len_blocks = Some (pv_len_blocks pv)\<rparr>)"

(* src/crates/machine-hosted/src/pktvol.rs:601-623 PktVolume::remount *)
definition pv_remount :: "('r, 'a, 'w, 'vt) ffs_crate \<Rightarrow> ('r, 'a, 'w) pkt_volume \<Rightarrow> ('r, 'a, 'w) pkt_volume \<times> (u32 + unit)" where
  "pv_remount E pv =
     (case pv_open_medium E pv of
        None \<Rightarrow> (pv, Inl DOS_ERR_OBJECT_NOT_FOUND)
      | Some medium \<Rightarrow>
          (case fc_open_with E medium None (pv_len_blocks pv) (pv_reserved pv) of
             Inl e \<Rightarrow> (pv, Inl (map_read_error e))
           | Inr vol \<Rightarrow>
               (case (if pv_writable pv then (case fc_mut_open E vol of Inl e \<Rightarrow> Inl (map_mutate_error e) | Inr m \<Rightarrow> Inr (Writable m))
                      else let (vol1, a) = fc_alloc_load E vol
                           in (case a of Inl e \<Rightarrow> Inl (map_alloc_error e) | Inr alloc \<Rightarrow> Inr (ReadOnly vol1 alloc))) of
                  Inl code \<Rightarrow> (pv, Inl code)
                | Inr b \<Rightarrow> (pv\<lparr>pv_backing := b, pv_handles := Map.empty\<rparr>, Inr ()))))"

section \<open>Paths\<close>

text \<open>\<open>path.split(|c| c == b'/')\<close> with the empty components dropped.\<close>

fun split_slash :: "u8 list \<Rightarrow> u8 list list" where
  "split_slash [] = [[]]"
| "split_slash (c # cs) =
     (if c = 0x2F then [] # split_slash cs
      else case split_slash cs of [] \<Rightarrow> [[c]] | w # ws \<Rightarrow> (c # w) # ws)"

(* src/crates/machine-hosted/src/pktvol.rs:692-701 PktVolume::split_parent *)
fun descend :: "('r, 'a, 'w, 'vt) ffs_crate \<Rightarrow> ('r, 'a, 'w) pkt_volume \<Rightarrow> u64 \<Rightarrow> u8 list list \<Rightarrow> ('r, 'a, 'w) pkt_volume \<times> (u32 + u64)" where
  "descend E pv here [] = (pv, Inr here)"
| "descend E pv here (c # cs) =
     (case via_volume (\<lambda>b. vo_lookup (any_volume E) b here c) pv of
        (pv1, Inr (Some e)) \<Rightarrow> if en_is_directory e then descend E pv1 (en_lba e) cs else (pv1, Inl DOS_ERR_OBJECT_WRONG_TYPE)
      | (pv1, Inr None) \<Rightarrow> (pv1, Inl DOS_ERR_DIR_NOT_FOUND)
      | (pv1, Inl e) \<Rightarrow> (pv1, Inl (map_read_error e)))"

(* src/crates/machine-hosted/src/pktvol.rs:679-702 PktVolume::split_parent *)
definition split_parent :: "('r, 'a, 'w, 'vt) ffs_crate \<Rightarrow> ('r, 'a, 'w) pkt_volume \<Rightarrow> u64 \<Rightarrow> u8 list \<Rightarrow> ('r, 'a, 'w) pkt_volume \<times> (u32 + u64 \<times> u8 list)" where
  "split_parent E pv dir_lba path =
     (let components = filter (\<lambda>c. c \<noteq> []) (split_slash path)
      in if components = [] then (pv, Inl DOS_ERR_INVALID_COMPONENT_NAME)
         else (case descend E pv dir_lba (butlast components) of
                 (pv1, Inl code) \<Rightarrow> (pv1, Inl code)
               | (pv1, Inr here) \<Rightarrow> (pv1, Inr (here, last components))))"

(* src/crates/machine-hosted/src/pktvol.rs:704-719 PktVolume::count_blocks *)
definition count_blocks :: "('r, 'a, 'w, 'vt) ffs_crate \<Rightarrow> ('r, 'a, 'w) pkt_volume \<Rightarrow> u64 \<Rightarrow> bool \<Rightarrow> ('r, 'a, 'w) pkt_volume \<times> u32" where
  "count_blocks E pv lba is_dir =
     (if is_dir then (pv, 1)
      else case via_volume (\<lambda>b. vo_file_chain (any_volume E) b lba) pv of
             (pv1, Inr chain) \<Rightarrow> (pv1, of_nat (length (ch_blocks chain) + length (ch_extensions chain) + 1))
           | (pv1, Inl _) \<Rightarrow> (pv1, 0))"

section \<open>Guest memory\<close>

text \<open>The byte-by-byte fallback of \<open>read_bstr\<close>, which stops at the first byte that is not granted.\<close>

(* src/crates/machine-hosted/src/pktvol.rs:852-858 read_bstr *)
fun read_bstr_bytes :: "guest_ram \<Rightarrow> u32 \<Rightarrow> nat \<Rightarrow> u8 list" where
  "read_bstr_bytes mem addr 0 = []"
| "read_bstr_bytes mem addr (Suc n) =
     (case ram_slice mem addr 1 of None \<Rightarrow> [] | Some b \<Rightarrow> b ! 0 # read_bstr_bytes mem (addr + 1) n)"

(* src/crates/machine-hosted/src/pktvol.rs:837-860 read_bstr *)
definition read_bstr :: "guest_ram \<Rightarrow> u32 \<Rightarrow> u8 list option" where
  "read_bstr mem bptr =
     (let addr = bptr * 4
      in case ram_slice mem addr 1 of
           None \<Rightarrow> None
         | Some lb \<Rightarrow>
             let len = unat (lb ! 0)
             in (case ram_slice mem (addr + 1) (of_nat len) of
                   Some s \<Rightarrow> Some s
                 | None \<Rightarrow> Some (read_bstr_bytes mem (addr + 1) len)))"

(* src/crates/machine-hosted/src/pktvol.rs:862-871 write_bstr_field *)
definition write_bstr_field :: "u8 list \<Rightarrow> u8 list \<Rightarrow> u8 list" where
  "write_bstr_field field bytes =
     (let cap = length field - 1; n = min (length bytes) cap
      in splice_at (field[0 := of_nat n]) 1 (take n bytes))"

(* src/crates/machine-hosted/src/pktvol.rs:873-909 fill_fib *)
definition fill_fib :: "u8 list \<Rightarrow> u32 \<Rightarrow> u32 \<Rightarrow> u8 list \<Rightarrow> u32 \<Rightarrow> u32 \<Rightarrow> u32 \<Rightarrow> date_stamp \<Rightarrow> u8 list \<Rightarrow> u32 \<Rightarrow> u8 list" where
  "fill_fib fib disk_key dir_entry_type name protection sz num_blocks date comment owner =
     (let f0 = map (\<lambda>_. 0) fib;
          f1 = splice_at f0 0 (to_be 4 disk_key);
          f2 = splice_at f1 4 (to_be 4 dir_entry_type);
          f3 = splice_at f2 8 (write_bstr_field (sub_slice f2 (8, 116)) name);
          f4 = splice_at f3 116 (to_be 4 protection);
          f5 = splice_at f4 120 (to_be 4 dir_entry_type);
          f6 = splice_at f5 124 (to_be 4 sz);
          f7 = splice_at f6 128 (to_be 4 num_blocks);
          f8 = splice_at f7 132 (to_be 4 (ds_days date));
          f9 = splice_at f8 136 (to_be 4 (ds_mins date));
          f10 = splice_at f9 140 (to_be 4 (ds_ticks date));
          f11 = splice_at f10 144 (write_bstr_field (sub_slice f10 (144, 224)) comment);
          f12 = splice_at f11 224 (to_be 2 (ucast (drop_bit 16 owner) :: u16))
      in splice_at f12 226 (to_be 2 (ucast owner :: u16)))"

(* src/crates/machine-hosted/src/pktvol.rs:911-938 fill_info_data *)
definition fill_info_data :: "u8 list \<Rightarrow> u64 \<Rightarrow> u64 \<Rightarrow> u32 \<Rightarrow> u32 \<Rightarrow> bool \<Rightarrow> u8 list" where
  "fill_info_data info num_blocks num_blocks_used bytes_per_block disk_type writable =
     (let i0 = map (\<lambda>_. 0) info;
          disk_state = (if writable then ID_VALIDATED else ID_WRITE_PROTECTED);
          i1 = splice_at i0 8 (to_be 4 disk_state);
          i2 = splice_at i1 12 (to_be 4 (ucast num_blocks :: u32));
          i3 = splice_at i2 16 (to_be 4 (ucast num_blocks_used :: u32));
          i4 = splice_at i3 20 (to_be 4 bytes_per_block);
          i5 = splice_at i4 24 (to_be 4 disk_type)
      in splice_at i5 32 (to_be 4 DOSTRUE))"

text \<open>A structure written through \<open>ram_slice_mut\<close>: refused, or granted and overwritten by a function of what was there.\<close>

definition fill_granted :: "guest_ram \<Rightarrow> u32 \<Rightarrow> u32 \<Rightarrow> (u8 list \<Rightarrow> u8 list) \<Rightarrow> guest_ram option" where
  "fill_granted mem addr len f =
     (case ram_slice_mut mem addr len of
        (mem1, None) \<Rightarrow> None
      | (mem1, Some loc) \<Rightarrow> (case ram_slice mem addr len of None \<Rightarrow> None | Some old \<Rightarrow> Some (ram_store mem1 loc (f old))))"

section \<open>Locks\<close>

text \<open>A handler returns the volume and \<open>(RES1, RES2)\<close>; one that writes guest memory returns the memory too; one that
  relies on an \<open>expect\<close> is optional.\<close>

(* src/crates/machine-hosted/src/pktvol.rs:998-1015 PktVolume::locate_object *)
definition pv_locate_object :: "('r, 'a, 'w, 'vt) ffs_crate \<Rightarrow> ('r, 'a, 'w) pkt_volume \<Rightarrow> u32 list \<Rightarrow> guest_ram \<Rightarrow> ('r, 'a, 'w) pkt_volume \<times> u32 \<times> u32" where
  "pv_locate_object E pv args mem =
     (case resolve_lock E pv (args ! 0) of
        None \<Rightarrow> (pv, DOSFALSE, DOS_ERR_OBJECT_NOT_FOUND)
      | Some dir_lba \<Rightarrow>
          (case read_bstr mem (args ! 1) of
             None \<Rightarrow> (pv, DOSFALSE, DOS_ERR_INVALID_COMPONENT_NAME)
           | Some name \<Rightarrow>
               if name = [] then let (pv1, h) = dup_lock E pv dir_lba in (pv1, h, 0)
               else (case via_volume (\<lambda>b. vo_lookup_path (any_volume E) b dir_lba name) pv of
                       (pv1, Inr (Some entry)) \<Rightarrow> let (pv2, h) = dup_lock E pv1 (en_lba entry) in (pv2, h, 0)
                     | (pv1, Inr None) \<Rightarrow> (pv1, DOSFALSE, DOS_ERR_OBJECT_NOT_FOUND)
                     | (pv1, Inl e) \<Rightarrow> (pv1, DOSFALSE, map_read_error e))))"

(* src/crates/machine-hosted/src/pktvol.rs:1017-1029 PktVolume::free_lock *)
definition pv_free_lock :: "('r, 'a, 'w) pkt_volume \<Rightarrow> u32 list \<Rightarrow> ('r, 'a, 'w) pkt_volume \<times> u32 \<times> u32" where
  "pv_free_lock pv args =
     (let lock = args ! 0
      in if lock = 0 then (pv, DOSTRUE, 0)
         else case pv_handles pv lock of
                Some (Lock _) \<Rightarrow> (pv\<lparr>pv_handles := (pv_handles pv)(lock := None)\<rparr>, DOSTRUE, 0)
              | _ \<Rightarrow> (pv, DOSFALSE, DOS_ERR_OBJECT_NOT_FOUND))"

(* src/crates/machine-hosted/src/pktvol.rs:1031-1036 PktVolume::copy_dir *)
definition pv_copy_dir :: "('r, 'a, 'w, 'vt) ffs_crate \<Rightarrow> ('r, 'a, 'w) pkt_volume \<Rightarrow> u32 list \<Rightarrow> ('r, 'a, 'w) pkt_volume \<times> u32 \<times> u32" where
  "pv_copy_dir E pv args =
     (case resolve_lock E pv (args ! 0) of
        Some lba \<Rightarrow> let (pv1, h) = dup_lock E pv lba in (pv1, h, 0)
      | None \<Rightarrow> (pv, DOSFALSE, DOS_ERR_OBJECT_NOT_FOUND))"

(* src/crates/machine-hosted/src/pktvol.rs:1038-1051 PktVolume::parent *)
definition pv_parent :: "('r, 'a, 'w, 'vt) ffs_crate \<Rightarrow> ('r, 'a, 'w) pkt_volume \<Rightarrow> u32 list \<Rightarrow> ('r, 'a, 'w) pkt_volume \<times> u32 \<times> u32" where
  "pv_parent E pv args =
     (case resolve_lock E pv (args ! 0) of
        None \<Rightarrow> (pv, DOSFALSE, DOS_ERR_OBJECT_NOT_FOUND)
      | Some lba \<Rightarrow>
          if lba = vo_root_lba (any_volume E) (pv_backing pv) then (pv, 0, 0)
          else (case via_volume (\<lambda>b. vo_entry_at (any_volume E) b lba) pv of
                  (pv1, Inr entry) \<Rightarrow> let (pv2, h) = dup_lock E pv1 (ucast (en_parent entry)) in (pv2, h, 0)
                | (pv1, Inl e) \<Rightarrow> (pv1, DOSFALSE, map_read_error e)))"

(* src/crates/machine-hosted/src/pktvol.rs:1053-1061 PktVolume::same_lock *)
definition pv_same_lock :: "('r, 'a, 'w, 'vt) ffs_crate \<Rightarrow> ('r, 'a, 'w) pkt_volume \<Rightarrow> u32 list \<Rightarrow> ('r, 'a, 'w) pkt_volume \<times> u32 \<times> u32" where
  "pv_same_lock E pv args =
     (case (resolve_lock E pv (args ! 0), resolve_lock E pv (args ! 1)) of
        (Some x, Some y) \<Rightarrow> if x = y then (pv, DOSTRUE, 0) else (pv, DOSFALSE, 0)
      | _ \<Rightarrow> (pv, DOSFALSE, DOS_ERR_OBJECT_NOT_FOUND))"

section \<open>Examination\<close>

text \<open>The fields \<open>examine_object\<close> collects before it fills the structure: of the root from its block, of any other object from
  its entry and its comment.\<close>

(* src/crates/machine-hosted/src/pktvol.rs:1068-1098 PktVolume::examine_object *)
definition examine_fields :: "('r, 'a, 'w, 'vt) ffs_crate \<Rightarrow> ('r, 'a, 'w) pkt_volume \<Rightarrow> u64 \<Rightarrow>
    ('r, 'a, 'w) pkt_volume \<times> (u32 + u32 \<times> u8 list \<times> u32 \<times> u32 \<times> date_stamp \<times> u8 list \<times> u32 \<times> bool)" where
  "examine_fields E pv lba =
     (if lba = vo_root_lba (any_volume E) (pv_backing pv) then
        let (name, date) = vo_root (any_volume E) (pv_backing pv)
        in (pv, Inr (fc_st_root E, name, 0, 0, date, [], 0, True))
      else (case via_volume (\<lambda>b. vo_entry_at (any_volume E) b lba) pv of
              (pv1, Inl e) \<Rightarrow> (pv1, Inl (map_read_error e))
            | (pv1, Inr entry) \<Rightarrow>
                (case via_volume (\<lambda>b. vo_comment (any_volume E) b entry) pv1 of
                   (pv2, Inl e) \<Rightarrow> (pv2, Inl (map_read_error e))
                 | (pv2, Inr comment) \<Rightarrow>
                     (pv2, Inr (en_secondary_type entry, en_name entry, en_protection entry, en_byte_size entry, en_date entry,
                                comment, en_owner entry, en_is_directory entry)))))"

(* src/crates/machine-hosted/src/pktvol.rs:1063-1116 PktVolume::examine_object *)
definition pv_examine_object :: "('r, 'a, 'w, 'vt) ffs_crate \<Rightarrow> ('r, 'a, 'w) pkt_volume \<Rightarrow> u32 list \<Rightarrow> guest_ram \<Rightarrow>
    ('r, 'a, 'w) pkt_volume \<times> guest_ram \<times> u32 \<times> u32" where
  "pv_examine_object E pv args mem =
     (case resolve_lock E pv (args ! 0) of
        None \<Rightarrow> (pv, mem, DOSFALSE, DOS_ERR_OBJECT_NOT_FOUND)
      | Some lba \<Rightarrow>
          (case examine_fields E pv lba of
             (pv1, Inl code) \<Rightarrow> (pv1, mem, DOSFALSE, code)
           | (pv1, Inr (dir_entry_type, name, protection, sz, date, comment, owner, is_dir)) \<Rightarrow>
               let (pv2, num_blocks) = count_blocks E pv1 lba is_dir
               in (case fill_granted mem (args ! 1 * 4) FIB_SIZE
                          (\<lambda>fib. fill_fib fib 0 dir_entry_type name protection sz num_blocks date comment owner) of
                     None \<Rightarrow> (pv2, mem, DOSFALSE, DOS_ERR_BAD_NUMBER)
                   | Some mem' \<Rightarrow> (pv2, mem', DOSTRUE, 0))))"

(* src/crates/machine-hosted/src/pktvol.rs:1118-1172 PktVolume::examine_next *)
definition pv_examine_next :: "('r, 'a, 'w, 'vt) ffs_crate \<Rightarrow> ('r, 'a, 'w) pkt_volume \<Rightarrow> u32 list \<Rightarrow> guest_ram \<Rightarrow>
    ('r, 'a, 'w) pkt_volume \<times> guest_ram \<times> u32 \<times> u32" where
  "pv_examine_next E pv args mem =
     (case resolve_lock E pv (args ! 0) of
        None \<Rightarrow> (pv, mem, DOSFALSE, DOS_ERR_OBJECT_NOT_FOUND)
      | Some dir_lba \<Rightarrow>
          let fib_addr = args ! 1 * 4
          in (case ram_slice mem fib_addr 4 of
                None \<Rightarrow> (pv, mem, DOSFALSE, DOS_ERR_BAD_NUMBER)
              | Some s \<Rightarrow>
                  let key = from_be s :: u32
                  in (case via_volume (\<lambda>b. vo_read_dir (any_volume E) b dir_lba) pv of
                        (pv1, Inl e) \<Rightarrow> (pv1, mem, DOSFALSE, map_read_error e)
                      | (pv1, Inr entries) \<Rightarrow>
                          let index = unat key
                          in if length entries \<le> index then (pv1, mem, DOSFALSE, DOS_ERR_NO_MORE_ENTRIES)
                             else
                               let entry = entries ! index
                               in (case via_volume (\<lambda>b. vo_comment (any_volume E) b entry) pv1 of
                                     (pv2, Inl e) \<Rightarrow> (pv2, mem, DOSFALSE, map_read_error e)
                                   | (pv2, Inr comment) \<Rightarrow>
                                       let (pv3, num_blocks) = count_blocks E pv2 (en_lba entry) (en_is_directory entry)
                                       in (case fill_granted mem fib_addr FIB_SIZE
                                                  (\<lambda>fib. fill_fib fib (of_nat (index + 1)) (en_secondary_type entry) (en_name entry) (en_protection entry)
                                                           (en_byte_size entry) num_blocks (en_date entry) comment (en_owner entry)) of
                                             None \<Rightarrow> (pv3, mem, DOSFALSE, DOS_ERR_BAD_NUMBER)
                                           | Some mem' \<Rightarrow> (pv3, mem', DOSTRUE, 0))))))"

(* src/crates/machine-hosted/src/pktvol.rs:1174-1186 PktVolume::fill_disk_info *)
definition pv_fill_disk_info :: "('r, 'a, 'w, 'vt) ffs_crate \<Rightarrow> ('r, 'a, 'w) pkt_volume \<Rightarrow> u32 \<Rightarrow> guest_ram \<Rightarrow> guest_ram \<times> u32 \<times> u32" where
  "pv_fill_disk_info E pv info_bptr mem =
     (let block_count = vo_block_count (any_volume E) (pv_backing pv);
          block_size = of_nat (vo_block_size (any_volume E) (pv_backing pv));
          dos_type = fc_dostype E (vo_variant (any_volume E) (pv_backing pv));
          used = pv_blocks_used E pv
      in case fill_granted mem (info_bptr * 4) INFO_DATA_SIZE
                (\<lambda>info. fill_info_data info block_count used block_size dos_type (pv_writable pv)) of
           None \<Rightarrow> (mem, DOSFALSE, DOS_ERR_BAD_NUMBER)
         | Some mem' \<Rightarrow> (mem', DOSTRUE, 0))"

(* src/crates/machine-hosted/src/pktvol.rs:1188-1194 PktVolume::info *)
definition pv_info :: "('r, 'a, 'w, 'vt) ffs_crate \<Rightarrow> ('r, 'a, 'w) pkt_volume \<Rightarrow> u32 list \<Rightarrow> guest_ram \<Rightarrow> guest_ram \<times> u32 \<times> u32" where
  "pv_info E pv args mem = pv_fill_disk_info E pv (args ! 1) mem"

(* src/crates/machine-hosted/src/pktvol.rs:1196-1198 PktVolume::disk_info *)
definition pv_disk_info :: "('r, 'a, 'w, 'vt) ffs_crate \<Rightarrow> ('r, 'a, 'w) pkt_volume \<Rightarrow> u32 list \<Rightarrow> guest_ram \<Rightarrow> guest_ram \<times> u32 \<times> u32" where
  "pv_disk_info E pv args mem = pv_fill_disk_info E pv (args ! 0) mem"

section \<open>Opening and closing files\<close>

(* src/crates/machine-hosted/src/pktvol.rs:1200-1214 PktVolume::open_for_find *)
definition open_for_find :: "('r, 'a, 'w, 'vt) ffs_crate \<Rightarrow> ('r, 'a, 'w) pkt_volume \<Rightarrow> u32 list \<Rightarrow> guest_ram \<Rightarrow>
    ('r, 'a, 'w) pkt_volume \<times> (u32 \<times> u32 + u64 \<times> u8 list)" where
  "open_for_find E pv args mem =
     (case resolve_lock E pv (args ! 1) of
        None \<Rightarrow> (pv, Inl (DOSFALSE, DOS_ERR_OBJECT_NOT_FOUND))
      | Some dir_lba \<Rightarrow>
          (case read_bstr mem (args ! 2) of
             None \<Rightarrow> (pv, Inl (DOSFALSE, DOS_ERR_INVALID_COMPONENT_NAME))
           | Some name \<Rightarrow>
               if name = [] then (pv, Inl (DOSFALSE, DOS_ERR_INVALID_COMPONENT_NAME))
               else (case split_parent E pv dir_lba name of
                       (pv1, Inl code) \<Rightarrow> (pv1, Inl (DOSFALSE, code))
                     | (pv1, Inr p) \<Rightarrow> (pv1, Inr p))))"

text \<open>The handle of a new open file, returned in \<open>RES2\<close>.\<close>

definition open_handle :: "('r, 'a, 'w) pkt_volume \<Rightarrow> u64 \<Rightarrow> u8 list \<Rightarrow> u64 \<Rightarrow> bool \<Rightarrow> ('r, 'a, 'w) pkt_volume \<times> u32 \<times> u32" where
  "open_handle pv parent_lba name header_lba wr =
     (let (pv1, h) = alloc_handle pv (File \<lparr>of_parent_lba = parent_lba, of_name = name, of_header_lba = header_lba,
                                          of_position = 0, of_write = wr\<rparr>)
      in (pv1, DOSTRUE, h))"

(* src/crates/machine-hosted/src/pktvol.rs:1216-1242 PktVolume::find_input *)
definition pv_find_input :: "('r, 'a, 'w, 'vt) ffs_crate \<Rightarrow> ('r, 'a, 'w) pkt_volume \<Rightarrow> u32 list \<Rightarrow> guest_ram \<Rightarrow> ('r, 'a, 'w) pkt_volume \<times> u32 \<times> u32" where
  "pv_find_input E pv args mem =
     (case open_for_find E pv args mem of
        (pv1, Inl res) \<Rightarrow> (pv1, res)
      | (pv1, Inr (parent_lba, leaf)) \<Rightarrow>
          (case via_volume (\<lambda>b. vo_lookup (any_volume E) b parent_lba leaf) pv1 of
             (pv2, Inr (Some entry)) \<Rightarrow>
               if en_is_file entry then open_handle pv2 parent_lba leaf (en_lba entry) (pv_writable pv2)
               else (pv2, DOSFALSE, DOS_ERR_OBJECT_WRONG_TYPE)
           | (pv2, Inr None) \<Rightarrow> (pv2, DOSFALSE, DOS_ERR_OBJECT_NOT_FOUND)
           | (pv2, Inl e) \<Rightarrow> (pv2, DOSFALSE, map_read_error e)))"

text \<open>The branch \<open>find_output\<close> and \<open>find_update\<close> share: the name does not exist yet.\<close>

(* src/crates/machine-hosted/src/pktvol.rs:1317-1332 PktVolume::find_update *)
definition create_and_open :: "('r, 'a, 'w, 'vt) ffs_crate \<Rightarrow> ('r, 'a, 'w) pkt_volume \<Rightarrow> u64 \<Rightarrow> u8 list \<Rightarrow> (('r, 'a, 'w) pkt_volume \<times> u32 \<times> u32) option" where
  "create_and_open E pv parent_lba leaf =
     (case via_mutator (\<lambda>m. fc_create_file E m parent_lba leaf []) pv of
        None \<Rightarrow> None
      | Some (pv1, Inr lba) \<Rightarrow> Some (open_handle pv1 parent_lba leaf lba True)
      | Some (pv1, Inl e) \<Rightarrow> Some (pv1, DOSFALSE, map_mutate_error e))"

(* src/crates/machine-hosted/src/pktvol.rs:1244-1291 PktVolume::find_output *)
definition pv_find_output :: "('r, 'a, 'w, 'vt) ffs_crate \<Rightarrow> ('r, 'a, 'w) pkt_volume \<Rightarrow> u32 list \<Rightarrow> guest_ram \<Rightarrow> (('r, 'a, 'w) pkt_volume \<times> u32 \<times> u32) option" where
  "pv_find_output E pv args mem =
     (if \<not> pv_writable pv then Some (pv, DOSFALSE, DOS_ERR_WRITE_PROTECTED)
      else case open_for_find E pv args mem of
        (pv1, Inl res) \<Rightarrow> Some (pv1, res)
      | (pv1, Inr (parent_lba, leaf)) \<Rightarrow>
          (case via_volume (\<lambda>b. vo_lookup (any_volume E) b parent_lba leaf) pv1 of
             (pv2, Inl e) \<Rightarrow> Some (pv2, DOSFALSE, map_read_error e)
           | (pv2, Inr (Some entry)) \<Rightarrow>
               if \<not> en_is_file entry then Some (pv2, DOSFALSE, DOS_ERR_OBJECT_WRONG_TYPE)
               else (case via_mutator (\<lambda>m. fc_truncate E m parent_lba leaf 0) pv2 of
                       None \<Rightarrow> None
                     | Some (pv3, Inr _) \<Rightarrow> Some (open_handle pv3 parent_lba leaf (en_lba entry) True)
                     | Some (pv3, Inl e) \<Rightarrow> Some (pv3, DOSFALSE, map_mutate_error e))
           | (pv2, Inr None) \<Rightarrow> create_and_open E pv2 parent_lba leaf))"

(* src/crates/machine-hosted/src/pktvol.rs:1293-1334 PktVolume::find_update *)
definition pv_find_update :: "('r, 'a, 'w, 'vt) ffs_crate \<Rightarrow> ('r, 'a, 'w) pkt_volume \<Rightarrow> u32 list \<Rightarrow> guest_ram \<Rightarrow> (('r, 'a, 'w) pkt_volume \<times> u32 \<times> u32) option" where
  "pv_find_update E pv args mem =
     (if \<not> pv_writable pv then Some (pv, DOSFALSE, DOS_ERR_WRITE_PROTECTED)
      else case open_for_find E pv args mem of
        (pv1, Inl res) \<Rightarrow> Some (pv1, res)
      | (pv1, Inr (parent_lba, leaf)) \<Rightarrow>
          (case via_volume (\<lambda>b. vo_lookup (any_volume E) b parent_lba leaf) pv1 of
             (pv2, Inl e) \<Rightarrow> Some (pv2, DOSFALSE, map_read_error e)
           | (pv2, Inr (Some entry)) \<Rightarrow>
               if \<not> en_is_file entry then Some (pv2, DOSFALSE, DOS_ERR_OBJECT_WRONG_TYPE)
               else Some (open_handle pv2 parent_lba leaf (en_lba entry) True)
           | (pv2, Inr None) \<Rightarrow> create_and_open E pv2 parent_lba leaf))"

(* src/crates/machine-hosted/src/pktvol.rs:1336-1344 PktVolume::end *)
definition pv_end :: "('r, 'a, 'w) pkt_volume \<Rightarrow> u32 list \<Rightarrow> ('r, 'a, 'w) pkt_volume \<times> u32 \<times> u32" where
  "pv_end pv args =
     (case pv_handles pv (args ! 0) of
        Some (File _) \<Rightarrow> (pv\<lparr>pv_handles := (pv_handles pv)(args ! 0 := None)\<rparr>, DOSTRUE, 0)
      | _ \<Rightarrow> (pv, DOSFALSE, DOS_ERR_OBJECT_NOT_FOUND))"

section \<open>Reading and writing files\<close>

text \<open>\<open>self.handles.get_mut(&h)\<close> on an open file.\<close>

definition set_position :: "('r, 'a, 'w) pkt_volume \<Rightarrow> u32 \<Rightarrow> (u64 \<Rightarrow> u64) \<Rightarrow> ('r, 'a, 'w) pkt_volume" where
  "set_position pv h f =
     (case pv_handles pv h of
        Some (File fl) \<Rightarrow> pv\<lparr>pv_handles := (pv_handles pv)(h \<mapsto> File (fl\<lparr>of_position := f (of_position fl)\<rparr>))\<rparr>
      | _ \<Rightarrow> pv)"

(* src/crates/machine-hosted/src/pktvol.rs:1346-1367 PktVolume::read_action *)
definition pv_read :: "('r, 'a, 'w, 'vt) ffs_crate \<Rightarrow> ('r, 'a, 'w) pkt_volume \<Rightarrow> u32 list \<Rightarrow> guest_ram \<Rightarrow>
    ('r, 'a, 'w) pkt_volume \<times> guest_ram \<times> u32 \<times> u32" where
  "pv_read E pv args mem =
     (case pv_handles pv (args ! 0) of
        Some (File fl) \<Rightarrow>
          (case via_volume (\<lambda>b. vo_file_chain (any_volume E) b (of_header_lba fl)) pv of
             (pv1, Inl e) \<Rightarrow> (pv1, mem, READ_WRITE_ERROR, map_read_error e)
           | (pv1, Inr chain) \<Rightarrow>
               (case (ram_slice_mut mem (args ! 1) (args ! 2), ram_slice mem (args ! 1) (args ! 2)) of
                  ((mem1, Some loc), Some out) \<Rightarrow>
                    let (pv2, out', r) = via_volume (\<lambda>b. vo_read_range (any_volume E) b chain (of_position fl) out) pv1;
                        mem2 = ram_store mem1 loc out'
                    in (case r of
                          Inl e \<Rightarrow> (pv2, mem2, READ_WRITE_ERROR, map_read_error e)
                        | Inr n \<Rightarrow> (set_position pv2 (args ! 0) (\<lambda>pos. pos + of_nat n), mem2, of_nat n, 0))
                | _ \<Rightarrow> (pv1, mem, READ_WRITE_ERROR, DOS_ERR_BAD_NUMBER)))
      | _ \<Rightarrow> (pv, mem, DOSFALSE, DOS_ERR_OBJECT_NOT_FOUND))"

(* src/crates/machine-hosted/src/pktvol.rs:1369-1395 PktVolume::write_action *)
definition pv_write :: "('r, 'a, 'w, 'vt) ffs_crate \<Rightarrow> ('r, 'a, 'w) pkt_volume \<Rightarrow> u32 list \<Rightarrow> guest_ram \<Rightarrow> ('r, 'a, 'w) pkt_volume \<times> u32 \<times> u32" where
  "pv_write E pv args mem =
     (case pv_handles pv (args ! 0) of
        Some (File fl) \<Rightarrow>
          if \<not> of_write fl then (pv, READ_WRITE_ERROR, DOS_ERR_WRITE_PROTECTED_FILE)
          else (case ram_slice mem (args ! 1) (args ! 2) of
             None \<Rightarrow> (pv, READ_WRITE_ERROR, DOS_ERR_BAD_NUMBER)
           | Some data \<Rightarrow>
               (case via_mutator (\<lambda>m. fc_write_file E m (of_parent_lba fl) (of_name fl) (of_position fl) data) pv of
                  None \<Rightarrow> (pv, READ_WRITE_ERROR, DOS_ERR_WRITE_PROTECTED)
                | Some (pv1, Inr _) \<Rightarrow> (set_position pv1 (args ! 0) (\<lambda>pos. pos + of_nat (length data)), of_nat (length data), 0)
                | Some (pv1, Inl e) \<Rightarrow> (pv1, READ_WRITE_ERROR, map_mutate_error e)))
      | _ \<Rightarrow> (pv, DOSFALSE, DOS_ERR_OBJECT_NOT_FOUND))"

text \<open>The arguments of \<open>SEEK\<close> and \<open>SET_FILE_SIZE\<close> are \<open>i32\<close>, the arithmetic on them is in \<open>i64\<close>; mode -1 is from the
  beginning, 0 from the position, 1 from the end.\<close>

(* src/crates/machine-hosted/src/pktvol.rs:1408-1413 PktVolume::seek_action *)
definition seek_base :: "u32 \<Rightarrow> u64 \<Rightarrow> int \<Rightarrow> int option" where
  "seek_base mode pos sz =
     (if sint mode = -1 then Some 0 else if sint mode = 0 then Some (sint pos) else if sint mode = 1 then Some sz else None)"

(* src/crates/machine-hosted/src/pktvol.rs:1397-1424 PktVolume::seek_action *)
definition pv_seek :: "('r, 'a, 'w, 'vt) ffs_crate \<Rightarrow> ('r, 'a, 'w) pkt_volume \<Rightarrow> u32 list \<Rightarrow> ('r, 'a, 'w) pkt_volume \<times> u32 \<times> u32" where
  "pv_seek E pv args =
     (case pv_handles pv (args ! 0) of
        Some (File fl) \<Rightarrow>
          (case via_volume (\<lambda>b. vo_file_chain (any_volume E) b (of_header_lba fl)) pv of
             (pv1, Inl e) \<Rightarrow> (pv1, READ_WRITE_ERROR, map_read_error e)
           | (pv1, Inr chain) \<Rightarrow>
               let sz = sint (ch_byte_size chain); offset = sint (args ! 1)
               in (case seek_base (args ! 2) (of_position fl) sz of
                     None \<Rightarrow> (pv1, READ_WRITE_ERROR, DOS_ERR_BAD_NUMBER)
                   | Some base \<Rightarrow>
                       let new_pos = word_of_int (min (max (base + offset) 0) sz)
                       in (set_position pv1 (args ! 0) (\<lambda>_. new_pos), ucast (of_position fl), 0)))
      | _ \<Rightarrow> (pv, READ_WRITE_ERROR, DOS_ERR_OBJECT_NOT_FOUND))"

(* src/crates/machine-hosted/src/pktvol.rs:1426-1455 PktVolume::set_file_size *)
definition pv_set_file_size :: "('r, 'a, 'w, 'vt) ffs_crate \<Rightarrow> ('r, 'a, 'w) pkt_volume \<Rightarrow> u32 list \<Rightarrow> ('r, 'a, 'w) pkt_volume \<times> u32 \<times> u32" where
  "pv_set_file_size E pv args =
     (case pv_handles pv (args ! 0) of
        Some (File fl) \<Rightarrow>
          if \<not> pv_writable pv then (pv, READ_WRITE_ERROR, DOS_ERR_WRITE_PROTECTED_FILE)
          else (case via_volume (\<lambda>b. vo_file_chain (any_volume E) b (of_header_lba fl)) pv of
             (pv1, Inl e) \<Rightarrow> (pv1, READ_WRITE_ERROR, map_read_error e)
           | (pv1, Inr chain) \<Rightarrow>
               let sz = sint (ch_byte_size chain); offset = sint (args ! 1)
               in (case seek_base (args ! 2) (of_position fl) sz of
                     None \<Rightarrow> (pv1, READ_WRITE_ERROR, DOS_ERR_BAD_NUMBER)
                   | Some base \<Rightarrow>
                       let new_size = word_of_int (max (base + offset) 0) :: u64
                       in (case via_mutator (\<lambda>m. fc_truncate E m (of_parent_lba fl) (of_name fl) new_size) pv1 of
                             None \<Rightarrow> (pv1, READ_WRITE_ERROR, DOS_ERR_WRITE_PROTECTED)
                           | Some (pv2, Inr _) \<Rightarrow> (pv2, ucast new_size, 0)
                           | Some (pv2, Inl e) \<Rightarrow> (pv2, READ_WRITE_ERROR, map_mutate_error e))))
      | _ \<Rightarrow> (pv, READ_WRITE_ERROR, DOS_ERR_OBJECT_NOT_FOUND))"

section \<open>Directories and metadata\<close>

text \<open>The name argument most mutations start with: a non-empty string, split below a lock.\<close>

(* src/crates/machine-hosted/src/pktvol.rs:1484-1495 PktVolume::delete_object *)
definition named_target :: "('r, 'a, 'w, 'vt) ffs_crate \<Rightarrow> ('r, 'a, 'w) pkt_volume \<Rightarrow> u32 \<Rightarrow> u32 \<Rightarrow> guest_ram \<Rightarrow>
    ('r, 'a, 'w) pkt_volume \<times> (u32 + u64 \<times> u8 list)" where
  "named_target E pv lock bptr mem =
     (case resolve_lock E pv lock of
        None \<Rightarrow> (pv, Inl DOS_ERR_OBJECT_NOT_FOUND)
      | Some dir_lba \<Rightarrow>
          (case read_bstr mem bptr of
             None \<Rightarrow> (pv, Inl DOS_ERR_INVALID_COMPONENT_NAME)
           | Some name \<Rightarrow> if name = [] then (pv, Inl DOS_ERR_INVALID_COMPONENT_NAME) else split_parent E pv dir_lba name))"

text \<open>The end of a handler that answers a boolean.\<close>

fun dos_result :: "('r, 'a, 'w) pkt_volume \<times> (mutate_error + unit) \<Rightarrow> ('r, 'a, 'w) pkt_volume \<times> u32 \<times> u32" where
  "dos_result (pv, Inr u) = (pv, DOSTRUE, 0)"
| "dos_result (pv, Inl e) = (pv, DOSFALSE, map_mutate_error e)"

(* src/crates/machine-hosted/src/pktvol.rs:1457-1478 PktVolume::create_dir_action *)
definition pv_create_dir :: "('r, 'a, 'w, 'vt) ffs_crate \<Rightarrow> ('r, 'a, 'w) pkt_volume \<Rightarrow> u32 list \<Rightarrow> guest_ram \<Rightarrow> (('r, 'a, 'w) pkt_volume \<times> u32 \<times> u32) option" where
  "pv_create_dir E pv args mem =
     (if \<not> pv_writable pv then Some (pv, 0, DOS_ERR_WRITE_PROTECTED)
      else case named_target E pv (args ! 0) (args ! 1) mem of
        (pv1, Inl code) \<Rightarrow> Some (pv1, 0, code)
      | (pv1, Inr (parent_lba, leaf)) \<Rightarrow>
          (case via_mutator (\<lambda>m. fc_create_dir E m parent_lba leaf) pv1 of
             None \<Rightarrow> None
           | Some (pv2, Inr lba) \<Rightarrow> let (pv3, h) = alloc_handle pv2 (Lock lba) in Some (pv3, h, 0)
           | Some (pv2, Inl e) \<Rightarrow> Some (pv2, 0, map_mutate_error e)))"

(* src/crates/machine-hosted/src/pktvol.rs:1480-1501 PktVolume::delete_object *)
definition pv_delete_object :: "('r, 'a, 'w, 'vt) ffs_crate \<Rightarrow> ('r, 'a, 'w) pkt_volume \<Rightarrow> u32 list \<Rightarrow> guest_ram \<Rightarrow> (('r, 'a, 'w) pkt_volume \<times> u32 \<times> u32) option" where
  "pv_delete_object E pv args mem =
     (if \<not> pv_writable pv then Some (pv, DOSFALSE, DOS_ERR_WRITE_PROTECTED)
      else case named_target E pv (args ! 0) (args ! 1) mem of
        (pv1, Inl code) \<Rightarrow> Some (pv1, DOSFALSE, code)
      | (pv1, Inr (parent_lba, leaf)) \<Rightarrow> map_option dos_result (via_mutator (\<lambda>m. fc_delete E m parent_lba leaf) pv1))"

(* src/crates/machine-hosted/src/pktvol.rs:1503-1536 PktVolume::rename_object *)
definition pv_rename_object :: "('r, 'a, 'w, 'vt) ffs_crate \<Rightarrow> ('r, 'a, 'w) pkt_volume \<Rightarrow> u32 list \<Rightarrow> guest_ram \<Rightarrow> (('r, 'a, 'w) pkt_volume \<times> u32 \<times> u32) option" where
  "pv_rename_object E pv args mem =
     (if \<not> pv_writable pv then Some (pv, DOSFALSE, DOS_ERR_WRITE_PROTECTED)
      else case resolve_lock E pv (args ! 0) of
        None \<Rightarrow> Some (pv, DOSFALSE, DOS_ERR_OBJECT_NOT_FOUND)
      | Some src_dir \<Rightarrow>
      (case read_bstr mem (args ! 1) of
        None \<Rightarrow> Some (pv, DOSFALSE, DOS_ERR_INVALID_COMPONENT_NAME)
      | Some src_name \<Rightarrow>
      if src_name = [] then Some (pv, DOSFALSE, DOS_ERR_INVALID_COMPONENT_NAME) else
      (case resolve_lock E pv (args ! 2) of
        None \<Rightarrow> Some (pv, DOSFALSE, DOS_ERR_OBJECT_NOT_FOUND)
      | Some dst_dir \<Rightarrow>
      (case read_bstr mem (args ! 3) of
        None \<Rightarrow> Some (pv, DOSFALSE, DOS_ERR_INVALID_COMPONENT_NAME)
      | Some dst_name \<Rightarrow>
      if dst_name = [] then Some (pv, DOSFALSE, DOS_ERR_INVALID_COMPONENT_NAME) else
      (case split_parent E pv src_dir src_name of
        (pv1, Inl code) \<Rightarrow> Some (pv1, DOSFALSE, code)
      | (pv1, Inr (src_parent, src_leaf)) \<Rightarrow>
      (case split_parent E pv1 dst_dir dst_name of
        (pv2, Inl code) \<Rightarrow> Some (pv2, DOSFALSE, code)
      | (pv2, Inr (dst_parent, dst_leaf)) \<Rightarrow>
          map_option dos_result (via_mutator (\<lambda>m. fc_rename E m src_parent src_leaf dst_parent dst_leaf) pv2)))))))"

(* src/crates/machine-hosted/src/pktvol.rs:1538-1551 PktVolume::resolve_meta_target *)
definition resolve_meta_target :: "('r, 'a, 'w, 'vt) ffs_crate \<Rightarrow> ('r, 'a, 'w) pkt_volume \<Rightarrow> u64 \<Rightarrow> u8 list \<Rightarrow> ('r, 'a, 'w) pkt_volume \<times> (u32 + u64)" where
  "resolve_meta_target E pv dir_lba name =
     (if name = [] then (pv, Inr dir_lba)
      else case split_parent E pv dir_lba name of
        (pv1, Inl code) \<Rightarrow> (pv1, Inl code)
      | (pv1, Inr (parent_lba, leaf)) \<Rightarrow>
          (case via_volume (\<lambda>b. vo_lookup (any_volume E) b parent_lba leaf) pv1 of
             (pv2, Inr (Some e)) \<Rightarrow> (pv2, Inr (en_lba e))
           | (pv2, Inr None) \<Rightarrow> (pv2, Inl DOS_ERR_OBJECT_NOT_FOUND)
           | (pv2, Inl e) \<Rightarrow> (pv2, Inl (map_read_error e))))"

text \<open>The part \<open>set_protect\<close>, \<open>set_comment\<close> and \<open>set_date\<close> share; \<open>decode\<close> reads the value to be set.\<close>

(* src/crates/machine-hosted/src/pktvol.rs:1577-1602 PktVolume::set_comment *)
definition set_meta :: "('r, 'a, 'w, 'vt) ffs_crate \<Rightarrow> ('r, 'a, 'w) pkt_volume \<Rightarrow> u32 list \<Rightarrow> guest_ram \<Rightarrow> meta_update option \<Rightarrow> (('r, 'a, 'w) pkt_volume \<times> u32 \<times> u32) option" where
  "set_meta E pv args mem value =
     (if \<not> pv_writable pv then Some (pv, DOSFALSE, DOS_ERR_WRITE_PROTECTED)
      else case resolve_lock E pv (args ! 1) of
        None \<Rightarrow> Some (pv, DOSFALSE, DOS_ERR_OBJECT_NOT_FOUND)
      | Some dir_lba \<Rightarrow>
      (case read_bstr mem (args ! 2) of
        None \<Rightarrow> Some (pv, DOSFALSE, DOS_ERR_INVALID_COMPONENT_NAME)
      | Some name \<Rightarrow>
      (case resolve_meta_target E pv dir_lba name of
        (pv1, Inl code) \<Rightarrow> Some (pv1, DOSFALSE, code)
      | (pv1, Inr target) \<Rightarrow>
      (case value of
        None \<Rightarrow> Some (pv1, DOSFALSE, DOS_ERR_BAD_NUMBER)
      | Some u \<Rightarrow> map_option dos_result (via_mutator (\<lambda>m. fc_set_metadata E m target u) pv1)))))"

(* src/crates/machine-hosted/src/pktvol.rs:1553-1575 PktVolume::set_protect *)
definition pv_set_protect :: "('r, 'a, 'w, 'vt) ffs_crate \<Rightarrow> ('r, 'a, 'w) pkt_volume \<Rightarrow> u32 list \<Rightarrow> guest_ram \<Rightarrow> (('r, 'a, 'w) pkt_volume \<times> u32 \<times> u32) option" where
  "pv_set_protect E pv args mem = set_meta E pv args mem (Some (MetaProtection (args ! 3)))"

(* src/crates/machine-hosted/src/pktvol.rs:1577-1602 PktVolume::set_comment *)
definition pv_set_comment :: "('r, 'a, 'w, 'vt) ffs_crate \<Rightarrow> ('r, 'a, 'w) pkt_volume \<Rightarrow> u32 list \<Rightarrow> guest_ram \<Rightarrow> (('r, 'a, 'w) pkt_volume \<times> u32 \<times> u32) option" where
  "pv_set_comment E pv args mem = set_meta E pv args mem (map_option MetaComment (read_bstr mem (args ! 3)))"

(* src/crates/machine-hosted/src/pktvol.rs:1604-1635 PktVolume::set_date *)
definition pv_set_date :: "('r, 'a, 'w, 'vt) ffs_crate \<Rightarrow> ('r, 'a, 'w) pkt_volume \<Rightarrow> u32 list \<Rightarrow> guest_ram \<Rightarrow> (('r, 'a, 'w) pkt_volume \<times> u32 \<times> u32) option" where
  "pv_set_date E pv args mem =
     set_meta E pv args mem
       (map_option (\<lambda>b. MetaDate \<lparr>ds_days = from_be (sub_slice b (0, 4)), ds_mins = from_be (sub_slice b (4, 8)), ds_ticks = from_be (sub_slice b (8, 12))\<rparr>)
         (ram_slice mem (args ! 3) 12))"

section \<open>Flushing, inhibiting and formatting\<close>

(* src/crates/machine-hosted/src/pktvol.rs:1637-1649 PktVolume::flush *)
definition pv_flush :: "('r, 'a, 'w, 'vt) ffs_crate \<Rightarrow> ('r, 'a, 'w) pkt_volume \<Rightarrow> ('r, 'a, 'w) pkt_volume \<times> u32 \<times> u32" where
  "pv_flush E pv =
     ((case pv_backing pv of Writable m \<Rightarrow> pv\<lparr>pv_backing := Writable (fc_sync_data E m)\<rparr> | ReadOnly v a \<Rightarrow> pv), DOSTRUE, 0)"

(* src/crates/machine-hosted/src/pktvol.rs:1651-1693 PktVolume::inhibit_action *)
definition pv_inhibit :: "('r, 'a, 'w, 'vt) ffs_crate \<Rightarrow> ('r, 'a, 'w) pkt_volume \<Rightarrow> u32 list \<Rightarrow> ('r, 'a, 'w) pkt_volume \<times> u32 \<times> u32" where
  "pv_inhibit E pv args =
     (if args ! 0 \<noteq> 0 then
        if pv_inhibited pv then (pv, DOSTRUE, 0)
        else if \<not> pv_writable pv then (pv, DOSFALSE, DOS_ERR_WRITE_PROTECTED)
        else let (pv1, _) = pv_flush E pv in (pv1\<lparr>pv_handles := Map.empty, pv_inhibited := True\<rparr>, DOSTRUE, 0)
      else
        if \<not> pv_inhibited pv then (pv, DOSTRUE, 0)
        else (case pv_remount E pv of
                (pv1, Inr _) \<Rightarrow> (pv1\<lparr>pv_inhibited := False\<rparr>, DOSTRUE, 0)
              | (pv1, Inl code) \<Rightarrow> (pv1, DOSFALSE, code)))"

(* src/crates/machine-hosted/src/pktvol.rs:1695-1748 PktVolume::format_action *)
definition pv_format :: "('r, 'a, 'w, 'vt) ffs_crate \<Rightarrow> ('r, 'a, 'w) pkt_volume \<Rightarrow> u32 list \<Rightarrow> guest_ram \<Rightarrow> ('r, 'a, 'w) pkt_volume \<times> u32 \<times> u32" where
  "pv_format E pv args mem =
     (if \<not> pv_inhibited pv then (pv, DOSFALSE, DOS_ERR_OBJECT_IN_USE)
      else if \<not> pv_writable pv then (pv, DOSFALSE, DOS_ERR_WRITE_PROTECTED)
      else case read_bstr mem (args ! 0) of
        None \<Rightarrow> (pv, DOSFALSE, DOS_ERR_INVALID_COMPONENT_NAME)
      | Some name \<Rightarrow>
          if name = [] then (pv, DOSFALSE, DOS_ERR_INVALID_COMPONENT_NAME)
          else (case fc_from_dostype E (args ! 1) of
                  None \<Rightarrow> (pv, DOSFALSE, DOS_ERR_NOT_A_DOS_DISK)
                | Some variant \<Rightarrow>
                    (case via_mutator (\<lambda>m. fc_format E m variant (pv_len_blocks pv) name (pv_reserved pv)) pv of
                       None \<Rightarrow> (pv, DOSFALSE, DOS_ERR_WRITE_PROTECTED)
                     | Some (pv1, Inr _) \<Rightarrow> (pv1, DOSTRUE, 0)
                     | Some (pv1, Inl e) \<Rightarrow> (pv1, DOSFALSE, map_format_error e))))"

section \<open>Dispatch\<close>

definition no_mem :: "guest_ram \<Rightarrow> 'p \<times> u32 \<times> u32 \<Rightarrow> 'p \<times> guest_ram \<times> u32 \<times> u32" where
  "no_mem mem r = (case r of (pv, res) \<Rightarrow> (pv, mem, res))"

(* src/crates/machine-hosted/src/pktvol.rs:944-994 PktVolume::execute_inner *)
definition pv_execute :: "('r, 'a, 'w, 'vt) ffs_crate \<Rightarrow> ('r, 'a, 'w) pkt_volume \<Rightarrow> u32 \<Rightarrow> u32 list \<Rightarrow> guest_ram \<Rightarrow>
    (('r, 'a, 'w) pkt_volume \<times> guest_ram \<times> u32 \<times> u32) option" where
  "pv_execute E pv action args mem =
     (let plain = (\<lambda>r. Some (no_mem mem r)); may = map_option (no_mem mem) in
      if action = ACTION_INHIBIT then plain (pv_inhibit E pv args)
      else if action = ACTION_FORMAT then plain (pv_format E pv args mem)
      else if action = ACTION_IS_FILESYSTEM then plain (pv, DOSTRUE, 0)
      else if action = ACTION_DISK_INFO then Some (pv, pv_disk_info E pv args mem)
      else if pv_inhibited pv then plain (pv, DOSFALSE, DOS_ERR_NOT_A_DOS_DISK)
      else if action = ACTION_LOCATE_OBJECT then plain (pv_locate_object E pv args mem)
      else if action = ACTION_FREE_LOCK then plain (pv_free_lock pv args)
      else if action = ACTION_COPY_DIR then plain (pv_copy_dir E pv args)
      else if action = ACTION_PARENT then plain (pv_parent E pv args)
      else if action = ACTION_SAME_LOCK then plain (pv_same_lock E pv args)
      else if action = ACTION_EXAMINE_OBJECT then Some (pv_examine_object E pv args mem)
      else if action = ACTION_EXAMINE_NEXT then Some (pv_examine_next E pv args mem)
      else if action = ACTION_INFO then Some (pv, pv_info E pv args mem)
      else if action = ACTION_FINDINPUT then plain (pv_find_input E pv args mem)
      else if action = ACTION_FINDOUTPUT then may (pv_find_output E pv args mem)
      else if action = ACTION_FINDUPDATE then may (pv_find_update E pv args mem)
      else if action = ACTION_END then plain (pv_end pv args)
      else if action = ACTION_READ then Some (pv_read E pv args mem)
      else if action = ACTION_WRITE then plain (pv_write E pv args mem)
      else if action = ACTION_SEEK then plain (pv_seek E pv args)
      else if action = ACTION_SET_FILE_SIZE then plain (pv_set_file_size E pv args)
      else if action = ACTION_CREATE_DIR then may (pv_create_dir E pv args mem)
      else if action = ACTION_DELETE_OBJECT then may (pv_delete_object E pv args mem)
      else if action = ACTION_RENAME_OBJECT then may (pv_rename_object E pv args mem)
      else if action = ACTION_SET_PROTECT then may (pv_set_protect E pv args mem)
      else if action = ACTION_SET_COMMENT then may (pv_set_comment E pv args mem)
      else if action = ACTION_SET_DATE then may (pv_set_date E pv args mem)
      else if action = ACTION_FLUSH then plain (pv_flush E pv)
      else plain (pv, DOSFALSE, DOS_ERR_ACTION_NOT_KNOWN))"

end
