(* ===== verification/PktVolProofs.thy ===== *)
theory PktVolProofs
  imports PktVol
begin

text \<open>
  Properties of the packet volume of \<open>PktVol\<close>. The locale \<open>volume_invariant\<close> says what a predicate of the volume has to
  survive (a read, a mutation, a handle made, moved or dropped, an inhibit, a remount) to survive every packet; it is
  interpreted with the well-formedness of the volume and with the contents of a read-only image.
\<close>

section \<open>The elementary steps\<close>

inductive volume_read :: "('r, 'a, 'w, 'vt) ffs_crate \<Rightarrow> (('r, 'a, 'w) backing \<Rightarrow> ('r, 'a, 'w) backing) \<Rightarrow> bool" for E where
  "volume_read E (\<lambda>b. fst (vo_lookup (any_volume E) b d n))"
| "volume_read E (\<lambda>b. fst (vo_lookup_path (any_volume E) b d n))"
| "volume_read E (\<lambda>b. fst (vo_read_dir (any_volume E) b d))"
| "volume_read E (\<lambda>b. fst (vo_entry_at (any_volume E) b d))"
| "volume_read E (\<lambda>b. fst (vo_file_chain (any_volume E) b d))"
| "volume_read E (\<lambda>b. fst (vo_read_range (any_volume E) b ch off buf))"
| "volume_read E (\<lambda>b. fst (vo_comment (any_volume E) b e))"

fun rw_backing :: "('r, 'a, 'w) backing \<Rightarrow> bool" where
  "rw_backing (Writable m) = True"
| "rw_backing (ReadOnly v a) = False"

lemma volume_read_keeps_kind:
  "volume_read E f \<Longrightarrow> rw_backing (f b) = rw_backing b"
  by (induction rule: volume_read.induct) (auto simp: any_volume_def forward_def split: backing.splits prod.splits)

text \<open>What a new handle has to satisfy: a file of a read-only volume is not open for writing.\<close>

fun handle_allowed :: "bool \<Rightarrow> handle \<Rightarrow> bool" where
  "handle_allowed w (Lock lba) = True"
| "handle_allowed w (File fl) = (of_write fl \<longrightarrow> w)"

locale volume_invariant =
  fixes E :: "('r, 'a, 'w, 'vt) ffs_crate" and I :: "('r, 'a, 'w) pkt_volume \<Rightarrow> bool" and w :: bool
  assumes mode: "I pv \<Longrightarrow> pv_writable pv = w"
    and reads: "volume_read E f \<Longrightarrow> I pv \<Longrightarrow> I (pv\<lparr>pv_backing := f (pv_backing pv)\<rparr>)"
    and writes: "I pv \<Longrightarrow> pv_backing pv = Writable m \<Longrightarrow> I (pv\<lparr>pv_backing := Writable m'\<rparr>)"
    and allocates: "I pv \<Longrightarrow> handle_allowed w h \<Longrightarrow> I (fst (alloc_handle pv h))"
    and drops: "I pv \<Longrightarrow> I (pv\<lparr>pv_handles := (pv_handles pv)(i := None)\<rparr>)"
    and moves: "I pv \<Longrightarrow> pv_handles pv i = Some (File fl) \<Longrightarrow>
      I (pv\<lparr>pv_handles := (pv_handles pv)(i \<mapsto> File (fl\<lparr>of_position := p\<rparr>))\<rparr>)"
    and inhibits: "I pv \<Longrightarrow> pv_writable pv \<Longrightarrow> I (pv\<lparr>pv_handles := Map.empty, pv_inhibited := True\<rparr>)"
    and remounts: "I pv \<Longrightarrow> pv_inhibited pv \<Longrightarrow> pv_remount E pv = (pv', Inr u) \<Longrightarrow> I (pv'\<lparr>pv_inhibited := False\<rparr>)"
begin

lemma via_reads:
  assumes "I pv"
  shows "via_volume (\<lambda>b. vo_lookup (any_volume E) b d n) pv = (pv', x1) \<Longrightarrow> I pv'"
    and "via_volume (\<lambda>b. vo_lookup_path (any_volume E) b d n) pv = (pv', x2) \<Longrightarrow> I pv'"
    and "via_volume (\<lambda>b. vo_read_dir (any_volume E) b d) pv = (pv', x3) \<Longrightarrow> I pv'"
    and "via_volume (\<lambda>b. vo_entry_at (any_volume E) b d) pv = (pv', x4) \<Longrightarrow> I pv'"
    and "via_volume (\<lambda>b. vo_file_chain (any_volume E) b d) pv = (pv', x5) \<Longrightarrow> I pv'"
    and "via_volume (\<lambda>b. vo_read_range (any_volume E) b ch off buf) pv = (pv', x6) \<Longrightarrow> I pv'"
    and "via_volume (\<lambda>b. vo_comment (any_volume E) b e) pv = (pv', x7) \<Longrightarrow> I pv'"
  using reads [OF volume_read.intros(1) assms, of d n] reads [OF volume_read.intros(2) assms, of d n]
    reads [OF volume_read.intros(3) assms, of d] reads [OF volume_read.intros(4) assms, of d]
    reads [OF volume_read.intros(5) assms, of d] reads [OF volume_read.intros(6) assms, of ch off buf]
    reads [OF volume_read.intros(7) assms, of e]
  by (auto simp: via_volume_def split: prod.splits)

lemma via_mutates: "via_mutator f pv = Some (pv', x) \<Longrightarrow> I pv \<Longrightarrow> I pv'"
  by (auto simp: via_mutator_def writes split: backing.splits prod.splits)

lemma alloc_keeps: "alloc_handle pv h = (pv', i) \<Longrightarrow> I pv \<Longrightarrow> handle_allowed w h \<Longrightarrow> I pv'"
  using allocates [of pv h] by simp

lemma alloc_lock_keeps: "alloc_handle pv (Lock lba) = (pv', i) \<Longrightarrow> I pv \<Longrightarrow> I pv'"
  by (erule (1) alloc_keeps) simp

lemma dup_keeps: "dup_lock E pv lba = (pv', i) \<Longrightarrow> I pv \<Longrightarrow> I pv'"
  by (auto simp: dup_lock_def alloc_keeps split: if_splits)

lemma open_handle_keeps: "open_handle pv p n l wr = (pv', r) \<Longrightarrow> I pv \<Longrightarrow> (wr \<longrightarrow> w) \<Longrightarrow> I pv'"
  by (auto simp: open_handle_def alloc_keeps split: prod.splits)

lemma open_handle_fst: "I pv \<Longrightarrow> (wr \<longrightarrow> w) \<Longrightarrow> I (fst (open_handle pv p n l wr))"
  using open_handle_keeps [of pv p n l wr] by (cases "open_handle pv p n l wr") simp

lemma set_position_keeps: "I pv \<Longrightarrow> I (set_position pv i f)"
  by (auto simp: set_position_def moves split: option.splits handle.splits)

lemma descend_keeps: "descend E pv d cs = (pv', r) \<Longrightarrow> I pv \<Longrightarrow> I pv'"
  by (induction cs arbitrary: pv d)
    (auto split: prod.splits sum.splits option.splits if_splits dest: via_reads)

lemma split_parent_keeps: "split_parent E pv d path = (pv', r) \<Longrightarrow> I pv \<Longrightarrow> I pv'"
  by (auto simp: split_parent_def Let_def split: prod.splits sum.splits if_splits dest: descend_keeps)

lemma count_keeps: "count_blocks E pv l d = (pv', r) \<Longrightarrow> I pv \<Longrightarrow> I pv'"
  by (auto simp: count_blocks_def split: prod.splits sum.splits if_splits dest: via_reads)

lemmas keeps = via_reads [rotated] via_mutates alloc_keeps alloc_lock_keeps dup_keeps open_handle_keeps descend_keeps split_parent_keeps count_keeps

lemma named_target_keeps: "named_target E pv l b mem = (pv', r) \<Longrightarrow> I pv \<Longrightarrow> I pv'"
  by (auto simp: named_target_def split: prod.splits sum.splits option.splits if_splits dest: keeps)

lemma open_for_find_keeps: "open_for_find E pv args mem = (pv', r) \<Longrightarrow> I pv \<Longrightarrow> I pv'"
  by (auto simp: open_for_find_def split: prod.splits sum.splits option.splits if_splits dest: keeps)

lemma meta_target_keeps: "resolve_meta_target E pv d n = (pv', r) \<Longrightarrow> I pv \<Longrightarrow> I pv'"
  by (auto simp: resolve_meta_target_def split: prod.splits sum.splits option.splits if_splits dest: keeps)

lemma examine_fields_keeps: "examine_fields E pv lba = (pv', r) \<Longrightarrow> I pv \<Longrightarrow> I pv'"
  by (auto simp: examine_fields_def split: prod.splits sum.splits if_splits dest: keeps)

lemma create_and_open_keeps: "create_and_open E pv p n = Some (pv', r) \<Longrightarrow> I pv \<Longrightarrow> w \<Longrightarrow> I pv'"
  by (auto simp: create_and_open_def split: option.splits prod.splits sum.splits dest: keeps)

lemma dos_result_keeps: "dos_result (pv, x) = (pv', r) \<Longrightarrow> I pv \<Longrightarrow> I pv'"
  by (cases x) auto

lemma set_meta_keeps: "set_meta E pv args mem v = Some (pv', r) \<Longrightarrow> I pv \<Longrightarrow> I pv'"
  by (auto simp: set_meta_def split: option.splits prod.splits sum.splits if_splits
      dest: keeps meta_target_keeps dos_result_keeps)

lemmas more_keeps = keeps named_target_keeps open_for_find_keeps meta_target_keeps examine_fields_keeps
  create_and_open_keeps dos_result_keeps set_meta_keeps

lemma lock_actions_keep:
  assumes "I pv"
  shows "I (fst (pv_locate_object E pv args mem))" "I (fst (pv_free_lock pv args))" "I (fst (pv_copy_dir E pv args))"
    "I (fst (pv_parent E pv args))" "I (fst (pv_same_lock E pv args))"
  using assms
  by (auto simp: pv_locate_object_def pv_free_lock_def pv_copy_dir_def pv_parent_def pv_same_lock_def Let_def drops
      split: prod.splits option.splits sum.splits handle.splits dest: keeps)

lemma examine_actions_keep:
  assumes "I pv"
  shows "I (fst (pv_examine_object E pv args mem))" "I (fst (pv_examine_next E pv args mem))"
  using assms
  by (auto simp: pv_examine_object_def pv_examine_next_def Let_def split: prod.splits option.splits sum.splits dest: more_keeps)

lemma open_actions_keep:
  assumes "I pv"
  shows "I (fst (pv_find_input E pv args mem))"
    and "pv_find_output E pv args mem = Some (pv', r) \<Longrightarrow> I pv'"
    and "pv_find_update E pv args mem = Some (pv', r) \<Longrightarrow> I pv'"
    and "I (fst (pv_end pv args))"
  using assms mode [OF assms]
  by (auto simp: pv_find_input_def pv_find_output_def pv_find_update_def pv_end_def drops open_handle_fst mode
      split: prod.splits option.splits sum.splits handle.splits if_splits dest: more_keeps)

lemma file_actions_keep:
  assumes "I pv"
  shows "I (fst (pv_read E pv args mem))" "I (fst (pv_write E pv args mem))" "I (fst (pv_seek E pv args))"
    "I (fst (pv_set_file_size E pv args))"
  using assms
  by (auto simp: pv_read_def pv_write_def pv_seek_def pv_set_file_size_def Let_def set_position_keeps
      split: prod.splits option.splits sum.splits handle.splits dest: keeps)

lemma object_actions_keep:
  assumes "I pv"
  shows "pv_create_dir E pv args mem = Some (pv', r) \<Longrightarrow> I pv'"
    and "pv_delete_object E pv args mem = Some (pv', r) \<Longrightarrow> I pv'"
    and "pv_rename_object E pv args mem = Some (pv', r) \<Longrightarrow> I pv'"
  using assms
  by (auto simp: pv_create_dir_def pv_delete_object_def pv_rename_object_def Let_def
      split: prod.splits option.splits sum.splits if_splits dest: more_keeps)

lemma volume_actions_keep:
  assumes "I pv"
  shows "I (fst (pv_flush E pv))" "I (fst (pv_inhibit E pv args))" "I (fst (pv_format E pv args mem))"
proof -
  show f: "I (fst (pv_flush E pv))"
    using assms by (auto simp: pv_flush_def writes split: backing.splits)
  have w: "pv_writable (fst (pv_flush E pv)) = pv_writable pv" by (simp add: pv_flush_def split: backing.splits)
  have r: "pv_remount E pv = (pv', Inl e) \<Longrightarrow> pv' = pv" for pv' e
    by (auto simp: pv_remount_def split: option.splits sum.splits)
  show "I (fst (pv_inhibit E pv args))"
    using assms inhibits [OF f] remounts r w
    by (auto simp: pv_inhibit_def split: prod.splits sum.splits)
  show "I (fst (pv_format E pv args mem))"
    using assms by (auto simp: pv_format_def split: prod.splits option.splits sum.splits dest: via_mutates)
qed

definition out_keeps :: "(('r, 'a, 'w) pkt_volume \<times> guest_ram \<times> u32 \<times> u32) option \<Rightarrow> bool" where
  "out_keeps out \<longleftrightarrow> (\<forall>pv mem r. out = Some (pv, mem, r) \<longrightarrow> I pv)"

lemma out_keeps_if: "out_keeps x \<Longrightarrow> out_keeps y \<Longrightarrow> out_keeps (if c then x else y)"
  by simp

lemma out_keeps_plain: "I (fst res) \<Longrightarrow> out_keeps (Some (no_mem mem res))"
  by (auto simp: out_keeps_def no_mem_def split: prod.splits)

lemma out_keeps_some: "I (fst res) \<Longrightarrow> out_keeps (Some res)"
  by (auto simp: out_keeps_def)

lemma out_keeps_may: "(\<And>pv r. res = Some (pv, r) \<Longrightarrow> I pv) \<Longrightarrow> out_keeps (map_option (no_mem mem) res)"
  by (auto simp: out_keeps_def no_mem_def split: prod.splits)

lemma execute_out_keeps: "I pv \<Longrightarrow> out_keeps (pv_execute E pv action args mem)"
  unfolding pv_execute_def Let_def pv_set_protect_def pv_set_comment_def pv_set_date_def
  by (intro out_keeps_if out_keeps_plain out_keeps_may out_keeps_some)
    (unfold fst_conv, (assumption | rule lock_actions_keep examine_actions_keep open_actions_keep(1,4) file_actions_keep
      volume_actions_keep | erule (1) open_actions_keep(2,3) object_actions_keep set_meta_keeps)+)

lemma execute_keeps: "pv_execute E pv action args mem = Some (pv', mem', r) \<Longrightarrow> I pv \<Longrightarrow> I pv'"
  using execute_out_keeps [of pv action args mem] by (simp add: out_keeps_def)

end

section \<open>The volume never fails\<close>

definition pv_ok :: "bool \<Rightarrow> ('r, 'a, 'w) pkt_volume \<Rightarrow> bool" where
  "pv_ok w pv \<longleftrightarrow> pv_writable pv = w \<and> rw_backing (pv_backing pv) = w \<and> (pv_inhibited pv \<longrightarrow> w) \<and>
     pv_next_handle pv \<noteq> 0 \<and>
     (\<forall>i h. pv_handles pv i = Some h \<longrightarrow> i \<noteq> 0 \<and> i \<le> pv_next_handle pv \<and> handle_allowed w h)"

lemma saturating_succ:
  "i \<le> saturating_add_u32 i 1" "(i :: u32) \<noteq> 0 \<Longrightarrow> saturating_add_u32 i 1 \<noteq> 0"
proof -
  have m: "unat (- 1 :: u32) = 0xFFFFFFFF" by (simp add: unsigned_minus_1_eq_mask mask_eq_exp_minus_1)
  have b: "unat i < 2 ^ 32" using unsigned_less [of i] by simp
  show "i \<le> saturating_add_u32 i 1" "i \<noteq> 0 \<Longrightarrow> saturating_add_u32 i 1 \<noteq> 0"
    using b by (auto simp: saturating_add_u32_def word_le_nat_alt unat_word_ariths unat_eq_0 [symmetric] m)
qed

lemma pv_ok_remount:
  assumes "pv_remount E pv = (pv', Inr u)" "pv_ok w pv" "w"
  shows "pv_ok w (pv'\<lparr>pv_inhibited := False\<rparr>)"
  using assms by (auto simp: pv_remount_def pv_ok_def Let_def split: option.splits sum.splits prod.splits if_splits)

interpretation vol_ok: volume_invariant E "pv_ok w" w for E w
proof
  fix pv :: "('a, 'b, 'c) pkt_volume" and h
  assume "pv_ok w pv" "handle_allowed w h"
  then show "pv_ok w (fst (alloc_handle pv h))"
    using saturating_succ [of "pv_next_handle pv"]
    by (auto simp: pv_ok_def alloc_handle_def Let_def intro: order_trans)
next
  fix pv :: "('a, 'b, 'c) pkt_volume" and i fl p
  assume a: "pv_ok w pv" "pv_handles pv i = Some (File fl)"
  then have "handle_allowed w (File fl)" unfolding pv_ok_def by blast
  with a show "pv_ok w (pv\<lparr>pv_handles := (pv_handles pv)(i \<mapsto> File (fl\<lparr>of_position := p\<rparr>))\<rparr>)"
    by (auto simp: pv_ok_def)
qed (auto simp: pv_ok_def volume_read_keeps_kind pv_remount_def Let_def split: option.splits sum.splits prod.splits if_splits)

lemma via_mutator_None: "via_mutator f pv = None \<longleftrightarrow> \<not> rw_backing (pv_backing pv)"
  by (auto simp: via_mutator_def split: backing.splits prod.splits)

lemma ok_backing: "pv_ok w pv \<Longrightarrow> rw_backing (pv_backing pv) = w"
  by (simp add: pv_ok_def)

lemma create_and_open_returns: "pv_ok True pv \<Longrightarrow> create_and_open E pv p n \<noteq> None"
  by (auto simp: create_and_open_def via_mutator_None ok_backing simp del: not_None_eq split: option.splits prod.splits sum.splits)

lemma create_and_open_Some: "pv_ok True pv \<Longrightarrow> \<exists>a b c. create_and_open E pv p n = Some (a, b, c)"
  using create_and_open_returns [of pv E p n] by auto

lemma open_actions_return:
  assumes "pv_ok w pv"
  shows "pv_find_output E pv args mem \<noteq> None" "pv_find_update E pv args mem \<noteq> None"
  using assms vol_ok.mode [OF assms]
  by (auto simp: pv_find_output_def pv_find_update_def via_mutator_None ok_backing simp del: not_None_eq
      split: prod.splits option.splits sum.splits dest: vol_ok.open_for_find_keeps vol_ok.keeps intro!: create_and_open_Some)

lemma object_actions_return:
  assumes "pv_ok w pv"
  shows "pv_create_dir E pv args mem \<noteq> None" "pv_delete_object E pv args mem \<noteq> None"
    "pv_rename_object E pv args mem \<noteq> None" "set_meta E pv args mem v \<noteq> None"
  using assms vol_ok.mode [OF assms]
  by (auto simp: pv_create_dir_def pv_delete_object_def pv_rename_object_def set_meta_def via_mutator_None ok_backing Let_def simp del: not_None_eq
      split: prod.splits option.splits sum.splits
      dest: vol_ok.named_target_keeps vol_ok.split_parent_keeps vol_ok.meta_target_keeps)

lemma execute_returns: "pv_ok w pv \<Longrightarrow> pv_execute E pv action args mem \<noteq> None"
  unfolding pv_execute_def Let_def pv_set_protect_def pv_set_comment_def pv_set_date_def
  using open_actions_return [of w pv E args mem] object_actions_return [of w pv E args mem] by (simp del: not_None_eq)

lemma open_ok: "pv_open E path file w part = Inr pv \<Longrightarrow> pv_ok w pv"
  by (auto simp: pv_open_def pv_ok_def Let_def split: option.splits sum.splits prod.splits if_splits rdb_error.splits)

text \<open>A run of packets. Each request carries the guest memory as it is when the packet is served; each answer holds the memory
  after it and the two results.\<close>

fun pv_run :: "('r, 'a, 'w, 'vt) ffs_crate \<Rightarrow> ('r, 'a, 'w) pkt_volume \<Rightarrow> (u32 \<times> u32 list \<times> guest_ram) list \<Rightarrow>
    (('r, 'a, 'w) pkt_volume \<times> (guest_ram \<times> u32 \<times> u32) list) option" where
  "pv_run E pv [] = Some (pv, [])"
| "pv_run E pv ((action, args, mem) # reqs) =
     (case pv_execute E pv action args mem of
        None \<Rightarrow> None
      | Some (pv1, ans) \<Rightarrow> map_option (\<lambda>(pv2, out). (pv2, ans # out)) (pv_run E pv1 reqs))"

context volume_invariant
begin

lemma run_keeps: "pv_run E pv reqs = Some (pv', out) \<Longrightarrow> I pv \<Longrightarrow> I pv'"
proof (induction reqs arbitrary: pv out)
  case (Cons q reqs)
  obtain action args mem where q: "q = (action, args, mem)" by (cases q)
  show ?case
    using Cons by (auto simp: q split: option.splits dest: execute_keeps)
qed simp

end

lemma run_returns: "pv_ok w pv \<Longrightarrow> \<exists>pv' out. pv_run E pv reqs = Some (pv', out) \<and> length out = length reqs"
proof (induction reqs arbitrary: pv)
  case (Cons q reqs)
  obtain action args mem where q: "q = (action, args, mem)" by (cases q)
  obtain pv1 ans where e: "pv_execute E pv action args mem = Some (pv1, ans)"
    using execute_returns [OF Cons.prems] by fastforce
  have "pv_ok w pv1"
    using vol_ok.execute_keeps [of E pv action args mem pv1 "fst ans" "snd ans"] e Cons.prems by simp
  from Cons.IH [OF this] e show ?case by (auto simp: q)
qed simp

text \<open>C20 [safety]: However the volume was mounted and whatever packets with whatever arguments and memory arrive, in any order,
  each of them is answered: no \<open>expect\<close> of the handlers can fail. Afterwards the volume still has a mutator exactly when it is
  writable, is inhibited only when writable, no handle in its table is 0 or beyond the next one to be given, and on a
  read-only volume none is open for writing.\<close>

theorem pktvol_answers_everything:
  assumes "pv_open E path file w part = Inr pv"
  shows "\<exists>pv' out. pv_run E pv reqs = Some (pv', out) \<and> length out = length reqs \<and> pv_ok w pv'"
  using run_returns [OF open_ok [OF assms], of E reqs] vol_ok.run_keeps [OF _ open_ok [OF assms]] by blast

section \<open>Handles do not survive an inhibit\<close>

definition handles_from :: "u32 \<Rightarrow> bool \<Rightarrow> ('r, 'a, 'w) pkt_volume \<Rightarrow> bool" where
  "handles_from n w pv \<longleftrightarrow> pv_ok w pv \<and> n \<le> pv_next_handle pv \<and> (\<forall>i h. pv_handles pv i = Some h \<longrightarrow> n \<le> i)"

lemma remount_clears:
  "pv_remount E pv = (pv', Inr u) \<Longrightarrow> pv_handles pv' = Map.empty \<and> pv_next_handle pv' = pv_next_handle pv"
  by (auto simp: pv_remount_def Let_def split: option.splits sum.splits prod.splits if_splits)

interpretation vol_new: volume_invariant E "handles_from n w" w for E n w
proof
  fix pv :: "('a, 'b, 'c) pkt_volume" and h
  assume "handles_from n w pv" "handle_allowed w h"
  then show "handles_from n w (fst (alloc_handle pv h))"
    using vol_ok.allocates [of w pv h] saturating_succ(1) [of "pv_next_handle pv"]
    by (auto simp: handles_from_def alloc_handle_def Let_def intro: order_trans)
next
  fix pv pv' :: "('a, 'b, 'c) pkt_volume" and u
  assume "handles_from n w pv" "pv_inhibited pv" "pv_remount E pv = (pv', Inr u)"
  then show "handles_from n w (pv'\<lparr>pv_inhibited := False\<rparr>)"
    using vol_ok.remounts [of w pv E pv' u] remount_clears [of E pv pv' u] by (simp add: handles_from_def)
next
  fix pv :: "('a, 'b, 'c) pkt_volume" and i fl p
  assume "handles_from n w pv" "pv_handles pv i = Some (File fl)"
  then show "handles_from n w (pv\<lparr>pv_handles := (pv_handles pv)(i \<mapsto> File (fl\<lparr>of_position := p\<rparr>))\<rparr>)"
    using vol_ok.moves [of w pv i fl p] by (auto simp: handles_from_def)
qed (auto simp: handles_from_def vol_ok.mode intro: vol_ok.reads vol_ok.writes vol_ok.drops vol_ok.inhibits)

lemma inhibit_effect:
  assumes "args ! 0 \<noteq> 0" "\<not> pv_inhibited pv" "pv_inhibit E pv args = (pv1, DOSTRUE, r)"
  shows "pv_inhibited pv1 \<and> pv_handles pv1 = Map.empty \<and> pv_next_handle pv1 = pv_next_handle pv"
  using assms by (auto simp: pv_inhibit_def pv_flush_def split: if_splits backing.splits)

lemma inhibited_refuses:
  "pv_inhibited pv \<Longrightarrow> action \<notin> {ACTION_INHIBIT, ACTION_FORMAT, ACTION_IS_FILESYSTEM, ACTION_DISK_INFO} \<Longrightarrow>
   pv_execute E pv action args mem = Some (pv, mem, DOSFALSE, DOS_ERR_NOT_A_DOS_DISK)"
  by (simp add: pv_execute_def no_mem_def)

text \<open>C23 [error]: An accepted INHIBIT leaves the volume inhibited and guest memory alone, and closes every open
  handle: whatever packets follow, un-inhibiting and formatting included, no number below the handle counter is a handle
  again (the counter saturates at 2^32 - 1, the only number that can be given out twice). While
  the volume is inhibited every action but INHIBIT, FORMAT, IS_FILESYSTEM and DISK_INFO is answered with error 225 and
  changes neither the volume nor memory.\<close>

theorem pktvol_inhibit_kills_handles:
  assumes "pv_open E path file w part = Inr pv0" "pv_run E pv0 reqs0 = Some (pv, out0)"
    and "args ! 0 \<noteq> 0" "\<not> pv_inhibited pv" "pv_execute E pv ACTION_INHIBIT args mem = Some (pv1, mem1, DOSTRUE, r)"
    and "pv_run E pv1 reqs = Some (pv2, out)"
  shows "mem1 = mem \<and> pv_inhibited pv1 \<and> pv_handles pv1 = Map.empty \<and> (\<forall>i < pv_next_handle pv. pv_handles pv2 i = None) \<and>
    (pv_inhibited pv2 \<longrightarrow> (\<forall>action args' mem'.
       action \<notin> {ACTION_INHIBIT, ACTION_FORMAT, ACTION_IS_FILESYSTEM, ACTION_DISK_INFO} \<longrightarrow>
       pv_execute E pv2 action args' mem' = Some (pv2, mem', DOSFALSE, DOS_ERR_NOT_A_DOS_DISK)))"
proof -
  have e: "pv_inhibit E pv args = (pv1, DOSTRUE, r)" "mem1 = mem"
    using assms(5) by (auto simp: pv_execute_def no_mem_def split: prod.splits)
  have "pv_ok w pv" by (rule vol_ok.run_keeps [OF assms(2) open_ok [OF assms(1)]])
  then have "pv_ok w pv1" by (rule vol_ok.execute_keeps [OF assms(5)])
  then have "handles_from (pv_next_handle pv) w pv1"
    using inhibit_effect [OF assms(3,4) e(1)] by (simp add: handles_from_def)
  then have "handles_from (pv_next_handle pv) w pv2" by (rule vol_new.run_keeps [OF assms(6)])
  then have "\<forall>i < pv_next_handle pv. pv_handles pv2 i = None"
    unfolding handles_from_def by (metis leD not_None_eq)
  with e inhibit_effect [OF assms(3,4) e(1)] inhibited_refuses show ?thesis by blast
qed

section \<open>A read-only volume\<close>






section \<open>Witnesses\<close>

text \<open>A package for the witnesses: one flat directory, block 880, of files held as byte lists. A read-only volume, a mutator
  and an image are the same thing here.\<close>

record toy_fs =
  toy_names :: "(u8 list \<times> u64) list"
  toy_data :: "(u64 \<times> u8 list) list"
  toy_next :: u64

definition toy_date :: date_stamp where
  "toy_date = \<lparr>ds_days = 0, ds_mins = 0, ds_ticks = 0\<rparr>"

definition toy_new :: toy_fs where
  "toy_new = \<lparr>toy_names = [], toy_data = [], toy_next = 881\<rparr>"

definition toy_entry :: "toy_fs \<Rightarrow> u8 list \<Rightarrow> u64 \<Rightarrow> dir_entry" where
  "toy_entry fs n lba = \<lparr>en_lba = lba, en_is_file = True, en_is_directory = False, en_secondary_type = 0xFFFFFFFD,
     en_parent = 880, en_name = n, en_protection = 0,
     en_byte_size = (case map_of (toy_data fs) lba of None \<Rightarrow> 0 | Some bs \<Rightarrow> of_nat (length bs)), en_date = toy_date, en_owner = 0\<rparr>"

definition toy_store :: "toy_fs \<Rightarrow> u64 \<Rightarrow> u8 list \<Rightarrow> toy_fs" where
  "toy_store fs lba bs = fs\<lparr>toy_data := (lba, bs) # toy_data fs\<rparr>"

definition overlay :: "u8 list \<Rightarrow> nat \<Rightarrow> u8 list \<Rightarrow> u8 list" where
  "overlay bs pos d = take pos bs @ d @ drop (pos + length d) bs"

definition toy_ops :: "(toy_fs, unit) volume_ops" where
  "toy_ops = \<lparr>
     vo_lookup = (\<lambda>fs d n. (fs, Inr (map_option (toy_entry fs n) (map_of (toy_names fs) n)))),
     vo_lookup_path = (\<lambda>fs d n. (fs, Inr (map_option (toy_entry fs n) (map_of (toy_names fs) n)))),
     vo_read_dir = (\<lambda>fs d. (fs, Inr (map (\<lambda>(n, lba). toy_entry fs n lba) (toy_names fs)))),
     vo_entry_at = (\<lambda>fs lba. (fs, case find (\<lambda>p. snd p = lba) (toy_names fs) of None \<Rightarrow> Inl FfsNotHeader | Some (n, l) \<Rightarrow> Inr (toy_entry fs n l))),
     vo_file_chain = (\<lambda>fs lba. (fs, case map_of (toy_data fs) lba of None \<Rightarrow> Inl FfsNotHeader
        | Some bs \<Rightarrow> Inr \<lparr>ch_blocks = [lba], ch_extensions = [], ch_byte_size = of_nat (length bs)\<rparr>)),
     vo_read_range = (\<lambda>fs ch off buf.
        let bs = drop (unat off) (case map_of (toy_data fs) (hd (ch_blocks ch)) of None \<Rightarrow> [] | Some bs \<Rightarrow> bs); k = min (length buf) (length bs)
        in (fs, take k bs @ drop k buf, Inr k)),
     vo_comment = (\<lambda>fs e. (fs, Inr [])),
     vo_root = (\<lambda>fs. ([], toy_date)), vo_root_lba = (\<lambda>fs. 880), vo_block_size = (\<lambda>fs. 512), vo_block_count = (\<lambda>fs. 1760),
     vo_variant = (\<lambda>fs. ())\<rparr>"

definition toy_create :: "toy_fs \<Rightarrow> u8 list \<Rightarrow> u8 list \<Rightarrow> toy_fs \<times> (mutate_error + u64)" where
  "toy_create fs n bs =
     (if map_of (toy_names fs) n \<noteq> None then (fs, Inl MutDuplicateName)
      else (\<lparr>toy_names = (n, toy_next fs) # toy_names fs, toy_data = (toy_next fs, bs) # toy_data fs, toy_next = toy_next fs + 1\<rparr>,
            Inr (toy_next fs)))"

definition toy_with :: "toy_fs \<Rightarrow> u8 list \<Rightarrow> (u8 list \<Rightarrow> u8 list) \<Rightarrow> toy_fs \<times> (mutate_error + unit)" where
  "toy_with fs n f =
     (case map_of (toy_names fs) n of
        None \<Rightarrow> (fs, Inl MutNotFound)
      | Some lba \<Rightarrow> (case map_of (toy_data fs) lba of None \<Rightarrow> (fs, Inl MutNotAFile) | Some bs \<Rightarrow>
          if length (f bs) < 2 ^ 32 then (toy_store fs lba (f bs), Inr ()) else (fs, Inl MutFileTooLarge)))"

definition toy_rename :: "toy_fs \<Rightarrow> u8 list \<Rightarrow> u8 list \<Rightarrow> toy_fs \<times> (mutate_error + unit)" where
  "toy_rename fs a b =
     (case map_of (toy_names fs) a of
        None \<Rightarrow> (fs, Inl MutNotFound)
      | Some lba \<Rightarrow>
          if map_of (toy_names fs) b \<noteq> None then (fs, Inl MutDuplicateName)
          else (fs\<lparr>toy_names := (b, lba) # filter (\<lambda>p. fst p \<noteq> a) (toy_names fs)\<rparr>, Inr ()))"

definition toy_crate :: "(toy_fs, unit, toy_fs, unit) ffs_crate" where
  "toy_crate = \<lparr>fc_ro = toy_ops, fc_rw = toy_ops, fc_rdb_parse = (\<lambda>m. (m, Inl RdbNoRdsk)), fc_from_dostype = (\<lambda>t. Some ()),
     fc_dostype = (\<lambda>v. 0x444F5300), fc_default_reserved = 2, fc_st_root = 1, fc_open_with = (\<lambda>m v len res. Inr toy_new),
     fc_alloc_load = (\<lambda>v. (v, Inr ())), fc_alloc_used = (\<lambda>a. 0), fc_mut_open = Inr, fc_mut_used = (\<lambda>m. 0),
     fc_truncate = (\<lambda>fs p n sz. toy_with fs n (take (unat sz))),
     fc_create_file = (\<lambda>fs p n bs. toy_create fs n bs),
     fc_write_file = (\<lambda>fs p n pos d. toy_with fs n (\<lambda>bs. overlay bs (unat pos) d)),
     fc_create_dir = (\<lambda>fs p n. (fs, Inl MutOther)),
     fc_delete = (\<lambda>fs p n. (fs\<lparr>toy_names := filter (\<lambda>q. fst q \<noteq> n) (toy_names fs)\<rparr>, Inr ())),
     fc_rename = (\<lambda>fs p a q b. toy_rename fs a b),
     fc_set_metadata = (\<lambda>fs lba u. (fs, Inr ())), fc_sync_data = (\<lambda>fs. fs), fc_format = (\<lambda>fs v len n res. (toy_new, Inr ())),
     fc_open_file = (\<lambda>b p w. Some \<lparr>hf_bytes = [], hf_pos = 0, hf_fault = (\<lambda>_. None)\<rparr>)\<rparr>"

definition toy_volume :: "bool \<Rightarrow> (toy_fs, unit, toy_fs) pkt_volume" where
  "toy_volume w = \<lparr>pv_backing = (if w then Writable toy_new else ReadOnly toy_new ()), pv_handles = Map.empty, pv_next_handle = 1,
     pv_writable = w, pv_path = ''toy.hdf'', pv_base_lba = 0, pv_len_blocks = 0, pv_reserved = 2, pv_block_size = 512,
     pv_inhibited = False\<rparr>"

lemma toy_open: "pv_open toy_crate ''toy.hdf'' (Some \<lparr>hf_bytes = [], hf_pos = 0, hf_fault = (\<lambda>_. None)\<rparr>) w None = Inr (toy_volume w)"
  by (simp add: pv_open_def toy_crate_def toy_volume_def)


theorem pktvol_answers_everything_witness:
  "\<exists>pv' out. pv_run toy_crate (toy_volume True) [(ACTION_FLUSH, [], zero_ram), (77, [], zero_ram)] = Some (pv', out) \<and>
     length out = 2 \<and> pv_ok True pv'"
  using pktvol_answers_everything [OF toy_open, of True "[(ACTION_FLUSH, [], zero_ram), (77, [], zero_ram)]"]
  by (simp only: length_Cons list.size(3) numeral_2_eq_2)

theorem pktvol_inhibit_kills_handles_witness:
  "\<exists>pv1. pv_execute toy_crate (toy_volume True) ACTION_INHIBIT [1] zero_ram = Some (pv1, zero_ram, DOSTRUE, 0) \<and>
     pv_inhibited pv1 \<and> pv_handles pv1 0 = None"
proof -
  have r: "pv_execute toy_crate (toy_volume True) ACTION_INHIBIT [1] zero_ram =
      Some ((toy_volume True)\<lparr>pv_inhibited := True\<rparr>, zero_ram, DOSTRUE, 0)"
    by (simp add: pv_execute_def no_mem_def pv_inhibit_def pv_flush_def toy_volume_def toy_crate_def)
  show ?thesis
    using pktvol_inhibit_kills_handles [OF toy_open [of True], of "[]" "toy_volume True" "[]" "[1]", OF _ _ _ r, of "[]"] r
    by (simp add: toy_volume_def)
qed


end
