(* ===== verification/PktVolFiles.thy ===== *)
theory PktVolFiles
  imports PktVolProofs
begin

text \<open>
  What the packets of \<open>PktVol\<close> do with files and directories: an open file is a cursor over the contents of the file, a
  directory is listed in order, and the results reach the guest through the card of \<open>Pktport\<close>. What the mutator does to a
  file is a hypothesis (\<open>file_laws\<close>) on the package.
\<close>

section \<open>Stores into granted memory\<close>

lemma granted_store:
  assumes "ram_ok mem" "ram_slice mem a n = Some old" "length bs = unat n"
  shows "\<exists>mem1 loc. ram_slice_mut mem a n = (mem1, Some loc) \<and> ram_write mem a bs = Some (ram_store mem1 loc bs)"
proof -
  obtain loc where loc: "ram_region mem a n = Some loc"
    using assms(2) by (auto simp: ram_slice_region)
  moreover have "(of_nat (length bs) :: u32) = n" by (simp add: assms(3))
  ultimately show ?thesis by (simp add: ram_write_region ram_slice_mut_region)
qed

lemma granted_write:
  assumes "ram_ok mem" "ram_write mem a bs = Some mem'" "length bs = unat (n :: u32)"
  shows "ram_ok mem'" "ram_shape mem' = ram_shape mem" "ram_slice mem' a n = Some bs"
    "unat a + unat n \<le> unat b \<or> unat b + unat k \<le> unat a \<Longrightarrow> ram_slice mem' b k = ram_slice mem b k"
proof -
  have l: "length bs < 2 ^ 32" using unsigned_less [of n] assms(3) by simp
  have n: "(of_nat (length bs) :: u32) = n" by (simp add: assms(3))
  show "ram_ok mem'" by (rule ram.write_ok [OF assms(1) l assms(2)])
  show "ram_shape mem' = ram_shape mem" by (rule ram_write_shape [OF assms(1) l assms(2)])
  show "ram_slice mem' a n = Some bs" using ram.read_same [OF assms(1) l assms(2)] n by simp
  show "unat a + unat n \<le> unat b \<or> unat b + unat k \<le> unat a \<Longrightarrow> ram_slice mem' b k = ram_slice mem b k"
    using ram.read_other [OF assms(1) l assms(2)] assms(3) by simp
qed

lemma fill_granted_write:
  assumes "ram_ok mem" "ram_slice mem a n = Some old" "length (f old) = unat n"
  shows "\<exists>mem'. fill_granted mem a n f = Some mem' \<and> ram_write mem a (f old) = Some mem'"
  using granted_store [OF assms(1,2,3)] assms(2) by (auto simp: fill_granted_def)

section \<open>An open file is a cursor\<close>





text \<open>What the packages promise of a file. \<open>entry\<close> is the header block a name in a directory leads to and \<open>content\<close> the bytes
  of the file with a given header block, both of a mutator.\<close>

definition file_laws :: "('r, 'a, 'w, 'vt) ffs_crate \<Rightarrow> ('w \<Rightarrow> u64 \<Rightarrow> u8 list \<Rightarrow> u64 option) \<Rightarrow> ('w \<Rightarrow> u64 \<Rightarrow> u8 list option) \<Rightarrow> bool" where
  "file_laws E entry content \<longleftrightarrow>
     (\<forall>m h bs. content m h = Some bs \<longrightarrow>
        (\<exists>m' ch. vo_file_chain (fc_rw E) m h = (m', Inr ch) \<and> entry m' = entry m \<and> content m' = content m \<and>
           unat (ch_byte_size ch) = length bs \<and>
           (\<forall>off buf. unat off \<le> length bs \<longrightarrow>
              (\<exists>m''. vo_read_range (fc_rw E) m' ch off buf =
                 (m'', take (length buf) (drop (unat off) bs) @ drop (length bs - unat off) buf, Inr (min (length buf) (length bs - unat off))) \<and>
               entry m'' = entry m \<and> content m'' = content m)))) \<and>
     (\<forall>m p n h bs pos d m'. entry m p n = Some h \<and> content m h = Some bs \<and> unat pos \<le> length bs \<and>
        fc_write_file E m p n pos d = (m', Inr ()) \<longrightarrow>
        entry m' = entry m \<and> content m' = (content m)(h \<mapsto> overlay bs (unat pos) d))"


lemma file_lawsD:
  assumes "file_laws E entry content"
  shows "content m h = Some bs \<Longrightarrow>
      \<exists>m' ch. vo_file_chain (fc_rw E) m h = (m', Inr ch) \<and> entry m' = entry m \<and> content m' = content m \<and>
        unat (ch_byte_size ch) = length bs \<and>
        (\<forall>off buf. unat off \<le> length bs \<longrightarrow>
           (\<exists>m''. vo_read_range (fc_rw E) m' ch off buf =
              (m'', take (length buf) (drop (unat off) bs) @ drop (length bs - unat off) buf, Inr (min (length buf) (length bs - unat off))) \<and>
            entry m'' = entry m \<and> content m'' = content m))"
    and "entry m p n = Some h \<Longrightarrow> content m h = Some bs \<Longrightarrow> unat pos \<le> length bs \<Longrightarrow>
      fc_write_file E m p n pos d = (m', Inr ()) \<Longrightarrow>
      entry m' = entry m \<and> content m' = (content m)(h \<mapsto> overlay bs (unat pos) d)"
  using assms unfolding file_laws_def by blast+

lemma via_volume_writable:
  assumes "pv_backing pv = Writable m"
  shows "via_volume (\<lambda>b. vo_file_chain (any_volume E) b h) pv =
      (let (m', x) = vo_file_chain (fc_rw E) m h in (pv\<lparr>pv_backing := Writable m'\<rparr>, x))"
    and "via_volume (\<lambda>b. vo_read_range (any_volume E) b ch off buf) pv =
      (let (m', x) = vo_read_range (fc_rw E) m ch off buf in (pv\<lparr>pv_backing := Writable m'\<rparr>, x))"
  using assms by (simp_all add: via_volume_def any_volume_def forward_def Let_def split: prod.split)

lemma unat_add_small: "unat a + k < 2 ^ 64 \<Longrightarrow> unat (a + of_nat k :: u64) = unat a + k"
  by (simp add: unat_word_ariths unat_of_nat take_bit_eq_mod)

text \<open>A READ goes by the header block alone.\<close>

lemma read_delivers:
  assumes laws: "file_laws E entry content" and m: "pv_backing pv = Writable m" and fl: "pv_handles pv h = Some (File fl)"
    and bs: "content m (of_header_lba fl) = Some bs" and pos: "unat (of_position fl) \<le> length bs" "length bs < 2 ^ 32"
    and ok: "ram_ok mem" and granted: "ram_slice mem a n = Some old"
  defines "got \<equiv> take (unat n) (drop (unat (of_position fl)) bs)"
  shows "\<exists>m2 mem'. pv_read E pv [h, a, n] mem =
      (pv\<lparr>pv_backing := Writable m2, pv_handles := (pv_handles pv)(h \<mapsto> File (fl\<lparr>of_position := of_position fl + of_nat (length got)\<rparr>))\<rparr>,
       mem', of_nat (length got), 0) \<and>
    entry m2 = entry m \<and> content m2 = content m \<and> ram_slice mem' a n = Some (overlay old 0 got) \<and>
    (\<forall>b k. unat a + unat n \<le> unat b \<or> unat b + unat k \<le> unat a \<longrightarrow> ram_slice mem' b k = ram_slice mem b k)"
proof -
  let ?p = "unat (of_position fl)" and ?k = "min (length old) (length bs - unat (of_position fl))"
  have old: "length old = unat n" by (rule ram.slice_length [OF ok granted])
  obtain m1 ch where ch: "vo_file_chain (fc_rw E) m (of_header_lba fl) = (m1, Inr ch)"
    and r: "\<And>off buf. unat off \<le> length bs \<Longrightarrow> \<exists>m''. vo_read_range (fc_rw E) m1 ch off buf =
        (m'', take (length buf) (drop (unat off) bs) @ drop (length bs - unat off) buf, Inr (min (length buf) (length bs - unat off))) \<and>
        entry m'' = entry m \<and> content m'' = content m"
    using file_lawsD(1) [OF laws bs] by blast
  let ?out = "take (length old) (drop ?p bs) @ drop (length bs - ?p) old"
  obtain m2 where m2: "vo_read_range (fc_rw E) m1 ch (of_position fl) old = (m2, ?out, Inr ?k)"
    "entry m2 = entry m" "content m2 = content m"
    using r [OF pos(1), of old] by auto
  have lout: "length ?out = unat n" using old pos(1) by simp
  obtain mem1 loc where st: "ram_slice_mut mem a n = (mem1, Some loc)"
    and w: "ram_write mem a ?out = Some (ram_store mem1 loc ?out)"
    using granted_store [OF ok granted lout] by blast
  have got: "length got = ?k" by (simp add: got_def old)
  have out: "?out = overlay old 0 got"
    using old by (simp add: overlay_def got_def min_def)
  let ?pv = "pv\<lparr>pv_backing := Writable m2, pv_handles := (pv_handles pv)(h \<mapsto> File (fl\<lparr>of_position := of_position fl + of_nat ?k\<rparr>))\<rparr>"
  have "pv_read E pv [h, a, n] mem = (?pv, ram_store mem1 loc ?out, of_nat ?k, 0)"
    using fl granted st ch m2(1) via_volume_writable [OF m, of E]
      via_volume_writable [of "pv\<lparr>pv_backing := Writable m1\<rparr>" m1 E]
    by (simp add: pv_read_def set_position_def)
  moreover have "ram_slice (ram_store mem1 loc ?out) a n = Some (overlay old 0 got)"
    using granted_write(3) [OF ok w lout] out by simp
  ultimately show ?thesis using granted_write(4) [OF ok w lout] m2(2,3) unfolding got by blast
qed



text \<open>A WRITE goes by the directory and the name.\<close>

lemma write_goes_to:
  assumes laws: "file_laws E entry content" and m: "pv_backing pv = Writable m" and fl: "pv_handles pv h = Some (File fl)" "of_write fl"
    and e: "entry m (of_parent_lba fl) (of_name fl) = Some l" "content m l = Some bs" "unat (of_position fl) \<le> length bs"
    and ok: "ram_ok mem" and granted: "ram_slice mem a n = Some d"
  shows "(\<exists>m1. pv_write E pv [h, a, n] mem =
      (pv\<lparr>pv_backing := Writable m1, pv_handles := (pv_handles pv)(h \<mapsto> File (fl\<lparr>of_position := of_position fl + of_nat (length d)\<rparr>))\<rparr>, n, 0) \<and>
      entry m1 = entry m \<and> content m1 = (content m)(l \<mapsto> overlay bs (unat (of_position fl)) d)) \<or>
    (\<exists>pv' e. pv_write E pv [h, a, n] mem = (pv', READ_WRITE_ERROR, map_mutate_error e))"
proof -
  have d: "length d = unat n" by (rule ram.slice_length [OF ok granted])
  obtain m1 r where w: "fc_write_file E m (of_parent_lba fl) (of_name fl) (of_position fl) d = (m1, r)" by fastforce
  show ?thesis
  proof (cases r)
    case (Inl e)
    then have "pv_write E pv [h, a, n] mem = (pv\<lparr>pv_backing := Writable m1\<rparr>, READ_WRITE_ERROR, map_mutate_error e)"
      using fl granted w m by (simp add: pv_write_def via_mutator_def)
    then show ?thesis by blast
  next
    case (Inr u)
    have m1: "entry m1 = entry m" "content m1 = (content m)(l \<mapsto> overlay bs (unat (of_position fl)) d)"
      using file_lawsD(2) [OF laws e, of d m1] w Inr by simp_all
    have "pv_write E pv [h, a, n] mem =
      (pv\<lparr>pv_backing := Writable m1, pv_handles := (pv_handles pv)(h \<mapsto> File (fl\<lparr>of_position := of_position fl + of_nat (length d)\<rparr>))\<rparr>, n, 0)"
      using fl granted w m d Inr by (simp add: pv_write_def via_mutator_def set_position_def)
    then show ?thesis using m1 by blast
  qed
qed







section \<open>A file is written by its name\<close>

text \<open>C39 [functional]: An open file is read by its header block but written by its directory and name. On a mutator that keeps
  \<open>file_laws\<close>, take a handle open for writing whose directory and name lead by now to another file than the one it was opened
  on (after a rename or a delete, say), with its position inside that file. A WRITE of granted memory through the handle
  either reports the mutator's error, or succeeds, changes that other file at the position, leaves the bytes of the file the
  handle was opened on, and of every other, as they were, and moves the position; a READ through the same handle then still
  delivers the bytes of the file it was opened on, as long as the new position is inside it, and so never the bytes just
  written.\<close>

theorem pktvol_write_follows_the_name:
  assumes "file_laws E entry content" "pv_backing pv = Writable m" "pv_handles pv h = Some (File fl)" "of_write fl"
    and "content m (of_header_lba fl) = Some bs" "length bs < 2 ^ 32"
    and "entry m (of_parent_lba fl) (of_name fl) = Some other" "other \<noteq> of_header_lba fl"
    and "content m other = Some bs2" "unat (of_position fl) \<le> length bs2"
    and "ram_ok mem" "ram_slice mem a n = Some d" "unat (of_position fl) + unat n \<le> length bs"
  shows "(\<exists>pv' m'. pv_write E pv [h, a, n] mem = (pv', n, 0) \<and> pv_backing pv' = Writable m' \<and>
      content m' = (content m)(other \<mapsto> overlay bs2 (unat (of_position fl)) d) \<and>
      content m' (of_header_lba fl) = Some bs \<and>
      (\<forall>mem1 b k old. ram_ok mem1 \<and> ram_slice mem1 b k = Some old \<longrightarrow>
         (let got = take (unat k) (drop (unat (of_position fl) + unat n) bs)
          in \<exists>pv2 mem2. pv_read E pv' [h, b, k] mem1 = (pv2, mem2, of_nat (length got), 0) \<and>
               ram_slice mem2 b k = Some (overlay old 0 got)))) \<or>
    (\<exists>pv' e. pv_write E pv [h, a, n] mem = (pv', READ_WRITE_ERROR, map_mutate_error e))"
proof -
  have d: "length d = unat n" by (rule ram.slice_length [OF assms(11,12)])
  have u: "unat (of_position fl + of_nat (length d)) = unat (of_position fl) + unat n"
    using assms(6,13) d by (subst unat_add_small) auto
  from write_goes_to [OF assms(1-4,7,9,10,11,12)] show ?thesis
  proof
    assume "\<exists>m1. pv_write E pv [h, a, n] mem =
      (pv\<lparr>pv_backing := Writable m1, pv_handles := (pv_handles pv)(h \<mapsto> File (fl\<lparr>of_position := of_position fl + of_nat (length d)\<rparr>))\<rparr>, n, 0) \<and>
      entry m1 = entry m \<and> content m1 = (content m)(other \<mapsto> overlay bs2 (unat (of_position fl)) d)"
    then obtain m1 where w: "pv_write E pv [h, a, n] mem =
      (pv\<lparr>pv_backing := Writable m1, pv_handles := (pv_handles pv)(h \<mapsto> File (fl\<lparr>of_position := of_position fl + of_nat (length d)\<rparr>))\<rparr>, n, 0)"
      (is "_ = (?pv, _)") and m1: "content m1 = (content m)(other \<mapsto> overlay bs2 (unat (of_position fl)) d)"
      by blast
    have h: "content m1 (of_header_lba fl) = Some bs" using m1 assms(5,8) by simp
    have "let got = take (unat k) (drop (unat (of_position fl) + unat n) bs)
          in \<exists>pv2 mem2. pv_read E ?pv [h, b, k] mem1 = (pv2, mem2, of_nat (length got), 0) \<and>
               ram_slice mem2 b k = Some (overlay old 0 got)"
      if "ram_ok mem1" "ram_slice mem1 b k = Some old" for mem1 b k old
      using read_delivers [OF assms(1), of ?pv m1 h "fl\<lparr>of_position := of_position fl + of_nat (length d)\<rparr>" bs mem1 b k old]
        h assms(6,13) that u by (auto simp: Let_def)
    then show ?thesis using w m1 h by auto
  qed blast
qed

section \<open>Listing a directory\<close>

lemma take_splice: "n \<le> i \<Longrightarrow> i \<le> length xs \<Longrightarrow> take n (splice_at xs i bs) = take n xs"
  by (simp add: splice_at_def)

lemma take_splice_front: "n = length bs \<Longrightarrow> take n (splice_at xs 0 bs) = bs"
  by (simp add: splice_at_def)

lemma length_bstr_field [simp]: "0 < length f \<Longrightarrow> length (write_bstr_field f s) = length f"
  by (cases f) (simp_all add: write_bstr_field_def splice_at_def Let_def)

lemma length_sub_slice [simp]: "e \<le> length xs \<Longrightarrow> length (sub_slice xs (s, e)) = e - s"
  by (simp add: sub_slice_def)

lemma splice_keeps:
  "length xs = 260 \<and> take 4 xs = k \<Longrightarrow> 4 \<le> i \<Longrightarrow> i + length bs \<le> 260 \<Longrightarrow>
   length (splice_at xs i bs) = 260 \<and> take 4 (splice_at xs i bs) = k"
  by (simp add: take_splice)

lemma splice_field_keeps:
  assumes "length xs = 260 \<and> take 4 xs = k" "4 \<le> i" "i < e" "e \<le> 260"
  shows "length (splice_at xs i (write_bstr_field (sub_slice xs (i, e)) s)) = 260 \<and>
    take 4 (splice_at xs i (write_bstr_field (sub_slice xs (i, e)) s)) = k"
  using assms by (intro splice_keeps) simp_all

lemma fib_shape:
  assumes "length fib = 260"
  shows "length (fill_fib fib key ty name prot sz nb date com own) = 260 \<and>
    take 4 (fill_fib fib key ty name prot sz nb date com own) = to_be 4 key"
proof -
  define f where "f = splice_at (map (\<lambda>_. 0) fib) 0 (to_be 4 key)"
  have "length f = 260 \<and> take 4 f = to_be 4 key"
    using assms by (simp add: f_def take_splice_front)
  then show ?thesis
    unfolding fill_fib_def Let_def f_def [symmetric] by (intro splice_field_keeps splice_keeps) simp_all
qed










section \<open>Behind the card\<close>

text \<open>\<open>read_range\<close> fills a slice: it cannot change its length.\<close>

definition slices_kept :: "('r, 'a, 'w, 'vt) ffs_crate \<Rightarrow> bool" where
  "slices_kept E \<longleftrightarrow> (\<forall>v m ch off buf.
     length (fst (snd (vo_read_range (fc_ro E) v ch off buf))) = length buf \<and>
     length (fst (snd (vo_read_range (fc_rw E) m ch off buf))) = length buf)"

lemma slices_keptD: "slices_kept E \<Longrightarrow> via_volume (\<lambda>b. vo_read_range (any_volume E) b ch off buf) pv = (pv', out, r) \<Longrightarrow>
    length out = length buf"
  unfolding slices_kept_def via_volume_def any_volume_def forward_def
  by (cases "pv_backing pv") (simp_all add: Let_def split: prod.splits, metis fst_conv snd_conv, metis fst_conv snd_conv)

lemma length_fill_info: "length info = 36 \<Longrightarrow> length (fill_info_data info a b c d w) = 36"
  by (simp add: fill_info_data_def Let_def)

lemma fill_granted_shape:
  assumes "ram_ok mem" "fill_granted mem a n f = Some mem'" "\<And>old. length old = unat n \<Longrightarrow> length (f old) = unat n"
  shows "ram_shape mem' = ram_shape mem"
proof -
  obtain old where old: "ram_slice mem a n = Some old"
    using assms(2) by (auto simp: fill_granted_def split: prod.splits option.splits)
  have l: "length (f old) = unat n" by (intro assms(3) ram.slice_length [OF assms(1) old])
  show ?thesis
    using fill_granted_write [where f = f, OF assms(1) old l] granted_write(2) [OF assms(1) _ l] assms(2) by auto
qed

lemma memory_actions_shape:
  assumes "ram_ok mem" "slices_kept E"
  shows "ram_shape (fst (snd (pv_examine_object E pv args mem))) = ram_shape mem"
    and "ram_shape (fst (snd (pv_examine_next E pv args mem))) = ram_shape mem"
    and "ram_shape (fst (pv_fill_disk_info E pv p mem)) = ram_shape mem"
    and "ram_shape (fst (snd (pv_read E pv args mem))) = ram_shape mem"
proof -
  note fg = fill_granted_shape [OF assms(1)]
  show "ram_shape (fst (snd (pv_examine_object E pv args mem))) = ram_shape mem"
    "ram_shape (fst (snd (pv_examine_next E pv args mem))) = ram_shape mem"
    by (auto simp: pv_examine_object_def pv_examine_next_def Let_def fib_shape split: option.splits prod.splits sum.splits
        dest!: fg)
  show "ram_shape (fst (pv_fill_disk_info E pv p mem)) = ram_shape mem"
    by (auto simp: pv_fill_disk_info_def Let_def length_fill_info split: option.splits dest!: fg)
  have st: "ram_shape (ram_store mem1 loc out) = ram_shape mem"
    if "ram_slice_mut mem a n = (mem1, Some loc)" "ram_slice mem a n = Some old" "length out = length old" for mem1 loc out a n old
    using granted_store [OF assms(1) that(2), of out] granted_write(2) [OF assms(1), of a out _ n]
      ram.slice_length [OF assms(1) that(2)] that by auto
  show "ram_shape (fst (snd (pv_read E pv args mem))) = ram_shape mem"
    by (auto simp: pv_read_def Let_def split: option.splits prod.splits sum.splits handle.splits
        dest: slices_keptD [OF assms(2)] st)
qed

lemma execute_shape:
  assumes "ram_ok mem" "slices_kept E" "pv_execute E pv action args mem = Some (pv', mem', r1, r2)"
  shows "ram_shape mem' = ram_shape mem"
  using assms(3) memory_actions_shape(1) [OF assms(1,2), of pv args] memory_actions_shape(2) [OF assms(1,2), of pv args]
    memory_actions_shape(3) [OF assms(1,2), of pv "args ! 0"] memory_actions_shape(3) [OF assms(1,2), of pv "args ! 1"]
    memory_actions_shape(4) [OF assms(1,2), of pv args]
  by (auto simp: pv_execute_def no_mem_def pv_info_def pv_disk_info_def Let_def split: if_splits prod.splits)

text \<open>The volume as the backend of the card.\<close>

(* src/crates/machine-hosted/src/pktvol.rs:944-948 PktVolume::execute *)
definition volume_backend :: "('r, 'a, 'w, 'vt) ffs_crate \<Rightarrow> ('r, 'a, 'w) pkt_volume packet_backend" where
  "volume_backend E pv action args mem =
     (case pv_execute E pv action args mem of Some res \<Rightarrow> res | None \<Rightarrow> (pv, mem, DOSFALSE, 0))"

text \<open>C22 [liveness]: However the volume was mounted and whatever packets it has served, the next request the card latches is
  served by the next tick, provided its descriptor is longword aligned (a misaligned one is dropped and counted) and wholly in
  guest RAM, chip and fast RAM do not overlap (\<open>ram_flat\<close>) and the package's \<open>read_range\<close> fills its buffer without changing its length
  (\<open>slices_kept\<close>): the volume executes the action and arguments of the descriptor
  once, the guest finds the two results and STATUS = 1 in the descriptor, everything outside those words is as the volume left
  it, the port is free and the completion is flagged.\<close>

theorem pktvol_serves_the_card:
  assumes "pv_open E path file w part = Inr pv0" "pv_run E pv0 reqs = Some (pk_backend pk, out)" "slices_kept E"
    and "ram_flat mem" "pk_pending pk = Some ptr" "ptr mod 4 = 0" "ram_slice mem ptr PK_DESC_LEN = Some d"
  shows "\<exists>pv1 mem1 res1 res2 mem'.
    pv_execute E (pk_backend pk) (from_be (take 4 d)) (map (\<lambda>i. from_be (take 4 (drop (4 * (i + 1)) d))) [0..<7]) mem =
      Some (pv1, mem1, res1, res2) \<and>
    pk_tick (volume_backend E) pk mem = (pk\<lparr>pk_pending := None, pk_backend := pv1, pk_int_status := 1\<rparr>, mem') \<and>
    ram_slice mem' (ptr + PK_RES1_OFFSET) 4 = Some (to_be 4 res1) \<and>
    ram_slice mem' (ptr + PK_RES2_OFFSET) 4 = Some (to_be 4 res2) \<and>
    ram_slice mem' (ptr + PK_STATUS_OFFSET) 4 = Some (to_be 4 (1 :: u32)) \<and>
    (\<forall>b k. unat ptr + 0x2C \<le> unat b \<or> unat b + unat k \<le> unat ptr + 0x20 \<longrightarrow>
       ram_slice mem' b k = ram_slice mem1 b k)"
proof -
  let ?a = "from_be (take 4 d) :: u32" and ?args = "map (\<lambda>i. from_be (take 4 (drop (4 * (i + 1)) d)) :: u32) [0..<7]"
  have "pv_ok w (pk_backend pk)" by (rule vol_ok.run_keeps [OF assms(2) open_ok [OF assms(1)]])
  then obtain pv1 mem1 res1 res2 where e: "pv_execute E (pk_backend pk) ?a ?args mem = Some (pv1, mem1, res1, res2)"
    using execute_returns [of w "pk_backend pk" E ?a ?args mem] by auto
  have sh: "ram_shape mem1 = ram_shape mem" by (rule execute_shape [OF ram_flat_ok [OF assms(4)] assms(3) e])
  have b: "volume_backend E (pk_backend pk) ?a ?args mem = (pv1, mem1, res1, res2)"
    by (simp only: volume_backend_def e option.case)
  show ?thesis using pk_tick_serves [where execute = "volume_backend E", OF assms(4-7) b sh] e by blast
qed

section \<open>Witnesses\<close>

definition toy_content :: "toy_fs \<Rightarrow> u64 \<Rightarrow> u8 list option" where
  "toy_content fs h = (case map_of (toy_data fs) h of None \<Rightarrow> None | Some bs \<Rightarrow> if length bs < 2 ^ 32 then Some bs else None)"

definition toy_header :: "toy_fs \<Rightarrow> u64 \<Rightarrow> u8 list \<Rightarrow> u64 option" where
  "toy_header fs p n = map_of (toy_names fs) n"

lemma toy_read_law:
  assumes "toy_content m h = Some bs"
  shows "\<exists>ch. vo_file_chain toy_ops m h = (m, Inr ch) \<and> unat (ch_byte_size ch) = length bs \<and>
    (\<forall>off buf. unat off \<le> length bs \<longrightarrow> vo_read_range toy_ops m ch off buf =
       (m, take (length buf) (drop (unat off) bs) @ drop (length bs - unat off) buf, Inr (min (length buf) (length bs - unat off))))"
proof -
  have m: "map_of (toy_data m) h = Some bs" "length bs < 2 ^ 32"
    using assms by (auto simp: toy_content_def split: option.splits if_splits)
  have "unat (of_nat (length bs) :: u64) = length bs"
    by (rule unat_of_nat_less) (use m(2) in simp)
  moreover have "take (min n k) (drop j bs) @ drop (min n k) buf = take n (drop j bs) @ drop k buf"
    if "length bs - j = k" "length buf = n" for n k j and buf :: "u8 list"
    using that by (cases "n \<le> k") (simp_all add: min_def)
  ultimately show ?thesis by (simp add: toy_ops_def m(1) Let_def)
qed

lemma toy_write_law:
  assumes "toy_header m p n = Some h" "toy_content m h = Some bs"
    "fc_write_file toy_crate m p n pos d = (m', Inr ())"
  shows "toy_header m' = toy_header m \<and> toy_content m' = (toy_content m)(h \<mapsto> overlay bs (unat pos) d)"
  using assms
  by (auto simp: toy_crate_def toy_with_def toy_store_def toy_header_def toy_content_def fun_eq_iff split: option.splits if_splits)

lemma toy_laws: "file_laws toy_crate toy_header toy_content"
proof -
  have r: "fc_rw toy_crate = toy_ops" by (simp add: toy_crate_def)
  show ?thesis
    unfolding file_laws_def r using toy_read_law toy_write_law by metis
qed




text \<open>Memory for the packets of a witness: the strings A and B, at BPTR 0 and 1, and two bytes to write.\<close>

definition names_mem :: guest_ram where
  "names_mem = gr_new ([1, 65, 0, 0, 1, 66, 0, 0, 88, 89] @ replicate (CHIP_RAM_SIZE - 10) 0)"

lemma names_mem_slices:
  "ram_slice names_mem 0 1 = Some [1]" "ram_slice names_mem 1 1 = Some [65]"
  "ram_slice names_mem 4 1 = Some [1]" "ram_slice names_mem 5 1 = Some [66]"
  "ram_slice names_mem 8 1 = Some [88]" "ram_slice names_mem 8 2 = Some [88, 89]"
  by (simp_all add: ram_slice_region chip_region names_mem_def gr_new_def sub_slice_def take_Cons' drop_Cons')

lemma names_mem_strings: "read_bstr names_mem 0 = Some [65]" "read_bstr names_mem 1 = Some [66]"
  by (simp_all add: read_bstr_def names_mem_slices)

text \<open>The packets of the witness: a file A is made and opened and XY written to it; it is renamed to B, a new A is made and the
  handle sent back to its beginning. The first handle now reads B and writes A.\<close>

definition toy_renamed :: "(toy_fs, unit, toy_fs) pkt_volume" where
  "toy_renamed = (toy_volume True)\<lparr>
     pv_backing := Writable \<lparr>toy_names = [([65], 882), ([66], 881)],
       toy_data = [(882, []), (881, [88, 89]), (881, [])], toy_next = 883\<rparr>,
     pv_handles := [1 \<mapsto> File \<lparr>of_parent_lba = 880, of_name = [65], of_header_lba = 881, of_position = 0, of_write = True\<rparr>,
       2 \<mapsto> File \<lparr>of_parent_lba = 880, of_name = [65], of_header_lba = 882, of_position = 0, of_write = True\<rparr>],
     pv_next_handle := 3\<rparr>"

lemma toy_renamed_run:
  "\<exists>out. pv_run toy_crate (toy_volume True)
      [(ACTION_FINDOUTPUT, [0, 0, 0], names_mem), (ACTION_WRITE, [1, 8, 2], names_mem),
       (ACTION_RENAME_OBJECT, [0, 0, 0, 1], names_mem), (ACTION_FINDOUTPUT, [0, 0, 0], names_mem),
       (ACTION_SEEK, [1, 0, -1], names_mem)] = Some (toy_renamed, out) \<and>
    map snd out = [(DOSTRUE, 1), (2, 0), (DOSTRUE, 0), (DOSTRUE, 2), (2, 0)]"
  by (simp add: pv_execute_def no_mem_def pv_find_output_def pv_write_def pv_rename_object_def open_for_find_def resolve_lock_def
      names_mem_slices names_mem_strings split_parent_def via_volume_def via_mutator_def any_volume_def forward_def forward_ref_def
      toy_volume_def toy_crate_def toy_ops_def toy_new_def toy_create_def toy_with_def toy_rename_def toy_store_def toy_entry_def
      create_and_open_def open_handle_def alloc_handle_def saturating_add_u32_def overlay_def set_position_def Let_def
      pv_seek_def seek_base_def toy_renamed_def fun_eq_iff)

lemma disj_left: "P \<or> Q \<Longrightarrow> \<not> Q \<Longrightarrow> P"
  by blast

lemma names_mem_ok: "ram_ok names_mem"
  by (simp add: ram_ok_def names_mem_def gr_new_def)

lemma pktvol_write_follows_the_name_witness:
  "\<exists>pv out pv' m' pv2 mem2. pv_run toy_crate (toy_volume True)
      [(ACTION_FINDOUTPUT, [0, 0, 0], names_mem), (ACTION_WRITE, [1, 8, 2], names_mem),
       (ACTION_RENAME_OBJECT, [0, 0, 0, 1], names_mem), (ACTION_FINDOUTPUT, [0, 0, 0], names_mem),
       (ACTION_SEEK, [1, 0, -1], names_mem)] = Some (pv, out) \<and>
    pv_write toy_crate pv [1, 8, 1] names_mem = (pv', 1, 0) \<and> pv_backing pv' = Writable m' \<and>
    toy_content m' 882 = Some [88] \<and> toy_content m' 881 = Some [88, 89] \<and>
    pv_read toy_crate pv' [1, 4, 1] names_mem = (pv2, mem2, 1, 0) \<and> ram_slice mem2 4 1 = Some [89]"
proof -
  let ?fs = "\<lparr>toy_names = [([65], 882), ([66], 881)], toy_data = [(882, []), (881, [88, 89]), (881, [])], toy_next = 883\<rparr>"
  let ?fl = "\<lparr>of_parent_lba = 880, of_name = [65], of_header_lba = 881, of_position = 0, of_write = True\<rparr>"
  have w: "\<not> (\<exists>pv' e. pv_write toy_crate toy_renamed [1, 8, 1] names_mem = (pv', READ_WRITE_ERROR, map_mutate_error e))"
    by (simp add: pv_write_def toy_renamed_def toy_crate_def toy_with_def toy_store_def via_mutator_def set_position_def
        names_mem_slices overlay_def)
  have o: "overlay [] 0 [88] = [88]" "overlay [1] 0 [89] = [89]" by (simp_all add: overlay_def)
  have v: "pv_backing toy_renamed = Writable ?fs" "pv_handles toy_renamed 1 = Some (File ?fl)"
    by (simp_all add: toy_renamed_def)
  have c: "toy_content ?fs (of_header_lba ?fl) = Some [88, 89]" "toy_content ?fs 882 = Some []"
      "toy_header ?fs (of_parent_lba ?fl) (of_name ?fl) = Some 882" "882 \<noteq> of_header_lba ?fl" "of_write ?fl"
    by (simp_all add: toy_content_def toy_header_def)
  have l: "length [88 :: u8, 89] < 2 ^ 32" "unat (of_position ?fl) \<le> length ([] :: u8 list)"
      "unat (of_position ?fl) + unat (1 :: u32) \<le> length [88 :: u8, 89]"
    by simp_all
  note served = disj_left [OF pktvol_write_follows_the_name
      [of toy_crate toy_header toy_content toy_renamed ?fs 1 ?fl "[88, 89]" 882 "[]" names_mem 8 1 "[88]", OF toy_laws v c(5,1) l(1) c(3,4,2) l(2) names_mem_ok names_mem_slices(5) l(3)] w]
  obtain pv' m' where p: "pv_write toy_crate toy_renamed [1, 8, 1] names_mem = (pv', 1, 0)" "pv_backing pv' = Writable m'"
      "toy_content m' = (toy_content ?fs)(882 \<mapsto> overlay [] (unat (of_position ?fl)) [88])"
      "toy_content m' (of_header_lba ?fl) = Some [88, 89]"
    and r: "\<forall>mem1 b k old. ram_ok mem1 \<and> ram_slice mem1 b k = Some old \<longrightarrow>
         (let got = take (unat k) (drop (unat (of_position ?fl) + unat (1 :: u32)) [88, 89])
          in \<exists>pv2 mem2. pv_read toy_crate pv' [1, b, k] mem1 = (pv2, mem2, of_nat (length got), 0) \<and>
               ram_slice mem2 b k = Some (overlay old 0 got))"
    using served by (elim exE conjE) (rule that)
  moreover obtain pv2 mem2 where "pv_read toy_crate pv' [1, 4, 1] names_mem = (pv2, mem2, 1, 0)" "ram_slice mem2 4 1 = Some [89]"
    using r [rule_format, of names_mem 4 1 "[1]"] names_mem_ok names_mem_slices(3) by (auto simp: Let_def o)
  moreover have "toy_content m' 882 = Some [88]" "toy_content m' 881 = Some [88, 89]"
    using p(3,4) by (simp_all add: overlay_def)
  ultimately show ?thesis using toy_renamed_run by blast
qed



lemma toy_slices: "slices_kept toy_crate"
  by (simp add: slices_kept_def toy_crate_def toy_ops_def Let_def min_def)

theorem pktvol_serves_the_card_witness:
  "\<exists>mem'. ram_slice mem' 0x1020 4 = Some (to_be 4 (0 :: u32)) \<and> ram_slice mem' 0x1024 4 = Some (to_be 4 (209 :: u32)) \<and>
     pk_tick (volume_backend toy_crate) ((pk_new (toy_volume True))\<lparr>pk_pending := Some 0x1000\<rparr>) zero_ram =
       ((pk_new (toy_volume True))\<lparr>pk_int_status := 1\<rparr>, mem')"
proof -
  have z: "from_be (replicate 4 0) = (0 :: u32)" by (simp add: from_be_def numeral_eq_Suc)
  have e: "pv_execute toy_crate (toy_volume True) 0 args zero_ram = Some (toy_volume True, zero_ram, DOSFALSE, DOS_ERR_ACTION_NOT_KNOWN)" for args
    by (simp add: pv_execute_def no_mem_def toy_volume_def)
  show ?thesis
    using pktvol_serves_the_card [OF toy_open [of True] _ toy_slices zero_ram_flat _ _ zero_ram_desc,
        of "[]" "(pk_new (toy_volume True))\<lparr>pk_pending := Some 0x1000\<rparr>" "[]"]
    by (auto simp: pk_new_def z e)
qed

end
