(* ===== verification/Clocks.thy ===== *)
theory Clocks
  imports Prelude
begin

text \<open>
  What it means that a device may be advanced in batches: the contract of a clocked component whose
  state after \<open>a + b\<close> clocks does not depend on whether they came in one call or two. The bus defers
  device time and catches up in one step on the strength of this contract; the chipset's frame clock
  and the CIAs provide it.
\<close>

locale batched_clock =
  fixes ok :: "'s \<Rightarrow> bool"
    and fits :: "nat \<Rightarrow> 's \<Rightarrow> bool"
    and adv :: "nat \<Rightarrow> 's \<Rightarrow> 's"
  assumes ok_adv: "ok s \<Longrightarrow> fits n s \<Longrightarrow> ok (adv n s)"
    and adv_none: "ok s \<Longrightarrow> adv 0 s = s"
    and fits_split: "ok s \<Longrightarrow> fits (a + b) s \<Longrightarrow> fits a s \<and> fits b (adv a s)"
    and adv_add: "ok s \<Longrightarrow> fits (a + b) s \<Longrightarrow> adv (a + b) s = adv b (adv a s)"
begin

lemma fits_less: "ok s \<Longrightarrow> fits n s \<Longrightarrow> m \<le> n \<Longrightarrow> fits m s"
  using fits_split [of s m "n - m"] by simp

lemma adv_pieces:
  "ok s \<Longrightarrow> fits (sum_list ns) s \<Longrightarrow> foldl (\<lambda>s n. adv n s) s ns = adv (sum_list ns) s"
proof (induction ns arbitrary: s)
  case Nil
  then show ?case by (simp add: adv_none)
next
  case (Cons n ns)
  then have "fits n s" "fits (sum_list ns) (adv n s)"
    using fits_split [of s n "sum_list ns"] by simp_all
  with Cons show ?case
    by (simp add: adv_add ok_adv)
qed

lemma adv_regroup:
  "ok s \<Longrightarrow> fits (sum_list ns) s \<Longrightarrow> sum_list ns = sum_list ms \<Longrightarrow>
    foldl (\<lambda>s n. adv n s) s ns = foldl (\<lambda>s n. adv n s) s ms"
  using adv_pieces [of s ns] adv_pieces [of s ms] by simp

text \<open>A counter that grows with the clock adds up over the pieces.\<close>

lemma count_pieces:
  assumes add: "\<And>s a b. ok s \<Longrightarrow> fits (a + b) s \<Longrightarrow> count (a + b) s = count a s + (count b (adv a s) :: nat)"
    and none: "\<And>s. ok s \<Longrightarrow> count 0 s = 0"
  shows "ok s \<Longrightarrow> fits (sum_list ns) s \<Longrightarrow>
    foldl (\<lambda>(s, x) n. (adv n s, x + count n s)) (s, x) ns = (adv (sum_list ns) s, x + count (sum_list ns) s)"
proof (induction ns arbitrary: s x)
  case Nil
  then show ?case by (simp add: adv_none none)
next
  case (Cons n ns)
  then have "fits n s" "fits (sum_list ns) (adv n s)"
    using fits_split [of s n "sum_list ns"] by simp_all
  with Cons show ?case
    by (simp add: adv_add ok_adv add)
qed

end

end
