(* ===== verification/Chipset.thy ===== *)
theory Chipset
  imports Ring Clocks
begin

text \<open>
  The custom-chip register file of \<open>crates/machine-core/src/chipset.rs\<close>: interrupt enable and request
  latches, the frame clock the beam position is derived from, the serial port's two host queues, and
  the latches the renderer and the blitter use. Shown: advancing the clock in one batch is the same as
  advancing it in pieces, the line-boundary deadline is exact, the interrupt level is that of the
  highest enabled request, and both serial queues are lossless bounded FIFOs whose overrun flag the
  guest always sees.
\<close>

section \<open>Constants\<close>

text \<open>Bit numbers are naturals: the sources only use them as shift amounts.\<close>

(* src/crates/machine-core/src/chipset.rs:20-20 reg::DMACONR *)
definition CHIP_DMACONR :: u16 where [simp]: "CHIP_DMACONR = 0x002"
(* src/crates/machine-core/src/chipset.rs:21-21 reg::VPOSR *)
definition CHIP_VPOSR :: u16 where [simp]: "CHIP_VPOSR = 0x004"
(* src/crates/machine-core/src/chipset.rs:22-22 reg::VHPOSR *)
definition CHIP_VHPOSR :: u16 where [simp]: "CHIP_VHPOSR = 0x006"
(* src/crates/machine-core/src/chipset.rs:23-23 reg::JOY0DAT *)
definition CHIP_JOY0DAT :: u16 where [simp]: "CHIP_JOY0DAT = 0x00A"
(* src/crates/machine-core/src/chipset.rs:24-24 reg::JOY1DAT *)
definition CHIP_JOY1DAT :: u16 where [simp]: "CHIP_JOY1DAT = 0x00C"
(* src/crates/machine-core/src/chipset.rs:25-25 reg::ADKCONR *)
definition CHIP_ADKCONR :: u16 where [simp]: "CHIP_ADKCONR = 0x010"
(* src/crates/machine-core/src/chipset.rs:26-26 reg::POTGOR *)
definition CHIP_POTGOR :: u16 where [simp]: "CHIP_POTGOR = 0x016"
(* src/crates/machine-core/src/chipset.rs:27-27 reg::SERDATR *)
definition CHIP_SERDATR :: u16 where [simp]: "CHIP_SERDATR = 0x018"
(* src/crates/machine-core/src/chipset.rs:28-28 reg::DSKBYTR *)
definition CHIP_DSKBYTR :: u16 where [simp]: "CHIP_DSKBYTR = 0x01A"
(* src/crates/machine-core/src/chipset.rs:29-29 reg::INTENAR *)
definition CHIP_INTENAR :: u16 where [simp]: "CHIP_INTENAR = 0x01C"
(* src/crates/machine-core/src/chipset.rs:30-30 reg::INTREQR *)
definition CHIP_INTREQR :: u16 where [simp]: "CHIP_INTREQR = 0x01E"
(* src/crates/machine-core/src/chipset.rs:31-31 reg::DSKPTH *)
definition CHIP_DSKPTH :: u16 where [simp]: "CHIP_DSKPTH = 0x020"
(* src/crates/machine-core/src/chipset.rs:32-32 reg::DSKPTL *)
definition CHIP_DSKPTL :: u16 where [simp]: "CHIP_DSKPTL = 0x022"
(* src/crates/machine-core/src/chipset.rs:33-33 reg::DSKLEN *)
definition CHIP_DSKLEN :: u16 where [simp]: "CHIP_DSKLEN = 0x024"
(* src/crates/machine-core/src/chipset.rs:36-36 reg::SERDAT *)
definition CHIP_SERDAT :: u16 where [simp]: "CHIP_SERDAT = 0x030"
(* src/crates/machine-core/src/chipset.rs:37-37 reg::SERPER *)
definition CHIP_SERPER :: u16 where [simp]: "CHIP_SERPER = 0x032"
(* src/crates/machine-core/src/chipset.rs:38-38 reg::POTGO *)
definition CHIP_POTGO :: u16 where [simp]: "CHIP_POTGO = 0x034"
(* src/crates/machine-core/src/chipset.rs:39-39 reg::COP1LCH *)
definition CHIP_COP1LCH :: u16 where [simp]: "CHIP_COP1LCH = 0x080"
(* src/crates/machine-core/src/chipset.rs:40-40 reg::COP1LCL *)
definition CHIP_COP1LCL :: u16 where [simp]: "CHIP_COP1LCL = 0x082"
(* src/crates/machine-core/src/chipset.rs:41-41 reg::COP2LCH *)
definition CHIP_COP2LCH :: u16 where [simp]: "CHIP_COP2LCH = 0x084"
(* src/crates/machine-core/src/chipset.rs:42-42 reg::COP2LCL *)
definition CHIP_COP2LCL :: u16 where [simp]: "CHIP_COP2LCL = 0x086"
(* src/crates/machine-core/src/chipset.rs:43-43 reg::COPJMP1 *)
definition CHIP_COPJMP1 :: u16 where [simp]: "CHIP_COPJMP1 = 0x088"
(* src/crates/machine-core/src/chipset.rs:44-44 reg::COPJMP2 *)
definition CHIP_COPJMP2 :: u16 where [simp]: "CHIP_COPJMP2 = 0x08A"
(* src/crates/machine-core/src/chipset.rs:45-45 reg::DIWSTRT *)
definition CHIP_DIWSTRT :: u16 where [simp]: "CHIP_DIWSTRT = 0x08E"
(* src/crates/machine-core/src/chipset.rs:46-46 reg::DIWSTOP *)
definition CHIP_DIWSTOP :: u16 where [simp]: "CHIP_DIWSTOP = 0x090"
(* src/crates/machine-core/src/chipset.rs:47-47 reg::DDFSTRT *)
definition CHIP_DDFSTRT :: u16 where [simp]: "CHIP_DDFSTRT = 0x092"
(* src/crates/machine-core/src/chipset.rs:48-48 reg::DDFSTOP *)
definition CHIP_DDFSTOP :: u16 where [simp]: "CHIP_DDFSTOP = 0x094"
(* src/crates/machine-core/src/chipset.rs:49-49 reg::DMACON *)
definition CHIP_DMACON :: u16 where [simp]: "CHIP_DMACON = 0x096"
(* src/crates/machine-core/src/chipset.rs:50-50 reg::INTENA *)
definition CHIP_INTENA :: u16 where [simp]: "CHIP_INTENA = 0x09A"
(* src/crates/machine-core/src/chipset.rs:51-51 reg::INTREQ *)
definition CHIP_INTREQ :: u16 where [simp]: "CHIP_INTREQ = 0x09C"
(* src/crates/machine-core/src/chipset.rs:52-52 reg::ADKCON *)
definition CHIP_ADKCON :: u16 where [simp]: "CHIP_ADKCON = 0x09E"
(* src/crates/machine-core/src/chipset.rs:53-53 reg::BPL1PTH *)
definition CHIP_BPL1PTH :: u16 where [simp]: "CHIP_BPL1PTH = 0x0E0"
(* src/crates/machine-core/src/chipset.rs:54-54 reg::BPL1PTL *)
definition CHIP_BPL1PTL :: u16 where [simp]: "CHIP_BPL1PTL = 0x0E2"
(* src/crates/machine-core/src/chipset.rs:55-55 reg::BPL2PTH *)
definition CHIP_BPL2PTH :: u16 where [simp]: "CHIP_BPL2PTH = 0x0E4"
(* src/crates/machine-core/src/chipset.rs:56-56 reg::BPL2PTL *)
definition CHIP_BPL2PTL :: u16 where [simp]: "CHIP_BPL2PTL = 0x0E6"
(* src/crates/machine-core/src/chipset.rs:57-57 reg::BPL3PTH *)
definition CHIP_BPL3PTH :: u16 where [simp]: "CHIP_BPL3PTH = 0x0E8"
(* src/crates/machine-core/src/chipset.rs:58-58 reg::BPL3PTL *)
definition CHIP_BPL3PTL :: u16 where [simp]: "CHIP_BPL3PTL = 0x0EA"
(* src/crates/machine-core/src/chipset.rs:59-59 reg::BPL4PTH *)
definition CHIP_BPL4PTH :: u16 where [simp]: "CHIP_BPL4PTH = 0x0EC"
(* src/crates/machine-core/src/chipset.rs:60-60 reg::BPL4PTL *)
definition CHIP_BPL4PTL :: u16 where [simp]: "CHIP_BPL4PTL = 0x0EE"
(* src/crates/machine-core/src/chipset.rs:61-61 reg::BPL5PTH *)
definition CHIP_BPL5PTH :: u16 where [simp]: "CHIP_BPL5PTH = 0x0F0"
(* src/crates/machine-core/src/chipset.rs:62-62 reg::BPL5PTL *)
definition CHIP_BPL5PTL :: u16 where [simp]: "CHIP_BPL5PTL = 0x0F2"
(* src/crates/machine-core/src/chipset.rs:63-63 reg::BPL6PTH *)
definition CHIP_BPL6PTH :: u16 where [simp]: "CHIP_BPL6PTH = 0x0F4"
(* src/crates/machine-core/src/chipset.rs:64-64 reg::BPL6PTL *)
definition CHIP_BPL6PTL :: u16 where [simp]: "CHIP_BPL6PTL = 0x0F6"
(* src/crates/machine-core/src/chipset.rs:65-65 reg::BPLCON0 *)
definition CHIP_BPLCON0 :: u16 where [simp]: "CHIP_BPLCON0 = 0x100"
(* src/crates/machine-core/src/chipset.rs:66-66 reg::BPLCON1 *)
definition CHIP_BPLCON1 :: u16 where [simp]: "CHIP_BPLCON1 = 0x102"
(* src/crates/machine-core/src/chipset.rs:67-67 reg::BPLCON2 *)
definition CHIP_BPLCON2 :: u16 where [simp]: "CHIP_BPLCON2 = 0x104"
(* src/crates/machine-core/src/chipset.rs:68-68 reg::BPL1MOD *)
definition CHIP_BPL1MOD :: u16 where [simp]: "CHIP_BPL1MOD = 0x108"
(* src/crates/machine-core/src/chipset.rs:69-69 reg::BPL2MOD *)
definition CHIP_BPL2MOD :: u16 where [simp]: "CHIP_BPL2MOD = 0x10A"
(* src/crates/machine-core/src/chipset.rs:70-70 reg::SPR0PTH *)
definition CHIP_SPR0PTH :: u16 where [simp]: "CHIP_SPR0PTH = 0x120"
(* src/crates/machine-core/src/chipset.rs:71-71 reg::SPR0PTL *)
definition CHIP_SPR0PTL :: u16 where [simp]: "CHIP_SPR0PTL = 0x122"
(* src/crates/machine-core/src/chipset.rs:72-72 reg::SPR0POS *)
definition CHIP_SPR0POS :: u16 where [simp]: "CHIP_SPR0POS = 0x140"
(* src/crates/machine-core/src/chipset.rs:73-73 reg::SPR0CTL *)
definition CHIP_SPR0CTL :: u16 where [simp]: "CHIP_SPR0CTL = 0x142"
(* src/crates/machine-core/src/chipset.rs:74-74 reg::SPR0DATA *)
definition CHIP_SPR0DATA :: u16 where [simp]: "CHIP_SPR0DATA = 0x144"
(* src/crates/machine-core/src/chipset.rs:75-75 reg::SPR0DATB *)
definition CHIP_SPR0DATB :: u16 where [simp]: "CHIP_SPR0DATB = 0x146"
(* src/crates/machine-core/src/chipset.rs:76-76 reg::COLOR00 *)
definition CHIP_COLOR00 :: u16 where [simp]: "CHIP_COLOR00 = 0x180"
(* src/crates/machine-core/src/chipset.rs:77-77 reg::COLOR31 *)
definition CHIP_COLOR31 :: u16 where [simp]: "CHIP_COLOR31 = 0x1BE"
(* src/crates/machine-core/src/chipset.rs:86-87 intbit::TBE *)
definition INTBIT_TBE :: nat where [simp]: "INTBIT_TBE = 0"
(* src/crates/machine-core/src/chipset.rs:88-89 intbit::DSKBLK *)
definition INTBIT_DSKBLK :: nat where [simp]: "INTBIT_DSKBLK = 1"
(* src/crates/machine-core/src/chipset.rs:90-91 intbit::SOFT *)
definition INTBIT_SOFT :: nat where [simp]: "INTBIT_SOFT = 2"
(* src/crates/machine-core/src/chipset.rs:92-93 intbit::PORTS *)
definition INTBIT_PORTS :: nat where [simp]: "INTBIT_PORTS = 3"
(* src/crates/machine-core/src/chipset.rs:94-95 intbit::COPER *)
definition INTBIT_COPER :: nat where [simp]: "INTBIT_COPER = 4"
(* src/crates/machine-core/src/chipset.rs:96-97 intbit::VERTB *)
definition INTBIT_VERTB :: nat where [simp]: "INTBIT_VERTB = 5"
(* src/crates/machine-core/src/chipset.rs:98-99 intbit::BLIT *)
definition INTBIT_BLIT :: nat where [simp]: "INTBIT_BLIT = 6"
(* src/crates/machine-core/src/chipset.rs:100-101 intbit::AUD0 *)
definition INTBIT_AUD0 :: nat where [simp]: "INTBIT_AUD0 = 7"
(* src/crates/machine-core/src/chipset.rs:102-103 intbit::AUD1 *)
definition INTBIT_AUD1 :: nat where [simp]: "INTBIT_AUD1 = 8"
(* src/crates/machine-core/src/chipset.rs:104-105 intbit::AUD2 *)
definition INTBIT_AUD2 :: nat where [simp]: "INTBIT_AUD2 = 9"
(* src/crates/machine-core/src/chipset.rs:106-107 intbit::AUD3 *)
definition INTBIT_AUD3 :: nat where [simp]: "INTBIT_AUD3 = 10"
(* src/crates/machine-core/src/chipset.rs:108-109 intbit::RBF *)
definition INTBIT_RBF :: nat where [simp]: "INTBIT_RBF = 11"
(* src/crates/machine-core/src/chipset.rs:110-111 intbit::DSKSYN *)
definition INTBIT_DSKSYN :: nat where [simp]: "INTBIT_DSKSYN = 12"
(* src/crates/machine-core/src/chipset.rs:112-113 intbit::EXTER *)
definition INTBIT_EXTER :: nat where [simp]: "INTBIT_EXTER = 13"
(* src/crates/machine-core/src/chipset.rs:114-115 intbit::INTEN *)
definition INTBIT_INTEN :: nat where [simp]: "INTBIT_INTEN = 14"
(* src/crates/machine-core/src/chipset.rs:116-117 intbit::SETCLR *)
definition INTBIT_SETCLR :: nat where [simp]: "INTBIT_SETCLR = 15"
(* src/crates/machine-core/src/chipset.rs:120-121 PAL_LINES_PER_FRAME *)
definition PAL_LINES_PER_FRAME :: u32 where [simp]: "PAL_LINES_PER_FRAME = 312"
(* src/crates/machine-core/src/chipset.rs:122-122 PAL_COLOUR_CLOCKS_PER_LINE *)
definition PAL_COLOUR_CLOCKS_PER_LINE :: u32 where [simp]: "PAL_COLOUR_CLOCKS_PER_LINE = 227"
(* src/crates/machine-core/src/chipset.rs:124-126 NTSC_LINES_PER_FRAME *)
definition NTSC_LINES_PER_FRAME :: u32 where [simp]: "NTSC_LINES_PER_FRAME = 262"
(* src/crates/machine-core/src/chipset.rs:128-133 VPOSR_AGNUS_ID *)
definition VPOSR_AGNUS_ID :: u16 where [simp]: "VPOSR_AGNUS_ID = 0x2000"
(* src/crates/machine-core/src/chipset.rs:135-144 SERIAL_BUF_CAP *)
definition SERIAL_BUF_CAP :: nat where [simp]: "SERIAL_BUF_CAP = 32"
(* src/crates/machine-core/src/chipset.rs:146-158 SERIAL_IN_BUF_CAP *)
definition SERIAL_IN_BUF_CAP :: nat where [simp]: "SERIAL_IN_BUF_CAP = 32"

section \<open>State\<close>

(* src/crates/machine-core/src/chipset.rs:160-176 BeamAdvance *)
record beam_advance =
  lines_started :: u32
  frames_wrapped :: u32

(* src/crates/machine-core/src/chipset.rs:178-189 MouseButton *)
datatype mouse_button = MouseLeft | MouseRight | MouseMiddle

(* src/crates/machine-core/src/chipset.rs:191-333 Chipset *)
record chipset =
  intena :: u16
  intreq :: u16
  dmacon :: u16
  adkcon :: u16
  total_colour_clocks :: u64
  carry :: u32
  frames :: u64
  lines_per_frame :: u32
  lof :: bool
  coarse_tick_streak :: u32
  joy0dat :: u16
  joy1dat :: u16
  potgor :: u16
  potgo :: u16
  cop1lc :: u32
  cop2lc :: u32
  copjmp1_hit :: bool
  copjmp2_hit :: bool
  bplpt :: "u32 list"
  bplcon0 :: u16
  bplcon1 :: u16
  bplcon2 :: u16
  bpl1mod :: u16
  bpl2mod :: u16
  diwstrt :: u16
  diwstop :: u16
  ddfstrt :: u16
  ddfstop :: u16
  color :: "u16 list"
  spr0pt :: u32
  spr0pos :: u16
  spr0ctl :: u16
  spr0data :: u16
  spr0datb :: u16
  dskpt :: u32
  dsklen :: u16
  serdat :: u16
  serper :: u16
  serial_buf :: "u8 list"
  serial_head :: nat
  serial_len :: nat
  serial_in_buf :: "u8 list"
  serial_in_head :: nat
  serial_in_len :: nat
  serial_in_overrun :: bool

section \<open>Operations\<close>

(* src/crates/machine-core/src/chipset.rs:336-344 Chipset::new *)
definition chip_new :: chipset where
  "chip_new = \<lparr>intena = 0, intreq = 0, dmacon = 0, adkcon = 0, total_colour_clocks = 0, carry = 0,
     frames = 0, lines_per_frame = PAL_LINES_PER_FRAME, lof = False, coarse_tick_streak = 0, joy0dat = 0,
     joy1dat = 0, potgor = 0xFFFF, potgo = 0, cop1lc = 0, cop2lc = 0, copjmp1_hit = False,
     copjmp2_hit = False, bplpt = replicate 6 0, bplcon0 = 0, bplcon1 = 0, bplcon2 = 0, bpl1mod = 0,
     bpl2mod = 0, diwstrt = 0, diwstop = 0, ddfstrt = 0, ddfstop = 0, color = replicate 32 0, spr0pt = 0,
     spr0pos = 0, spr0ctl = 0, spr0data = 0, spr0datb = 0, dskpt = 0, dsklen = 0, serdat = 0, serper = 0,
     serial_buf = replicate SERIAL_BUF_CAP 0, serial_head = 0, serial_len = 0,
     serial_in_buf = replicate SERIAL_IN_BUF_CAP 0, serial_in_head = 0, serial_in_len = 0,
     serial_in_overrun = False\<rparr>"

(* src/crates/machine-core/src/chipset.rs:346-354 Chipset::set_ntsc *)
definition chip_set_ntsc :: "chipset \<Rightarrow> bool \<Rightarrow> chipset" where
  "chip_set_ntsc c ntsc = c\<lparr>lines_per_frame := (if ntsc then NTSC_LINES_PER_FRAME else PAL_LINES_PER_FRAME)\<rparr>"

text \<open>An \<open>i8\<close> argument is its bit pattern, which is all \<open>as u8\<close> uses of it.\<close>

(* src/crates/machine-core/src/chipset.rs:356-369 Chipset::mouse_delta *)
definition chip_mouse_delta :: "chipset \<Rightarrow> u8 \<Rightarrow> u8 \<Rightarrow> chipset" where
  "chip_mouse_delta c dx dy =
     (let x = ucast (joy0dat c AND 0x00FF) + dx;
          y = ucast (drop_bit 8 (joy0dat c)) + dy
      in c\<lparr>joy0dat := push_bit 8 (ucast (y :: u8)) OR ucast (x :: u8)\<rparr>)"

(* src/crates/machine-core/src/chipset.rs:371-390 Chipset::mouse_button *)
definition chip_mouse_button :: "chipset \<Rightarrow> mouse_button \<Rightarrow> bool \<Rightarrow> chipset" where
  "chip_mouse_button c button pressed =
     (let upd = (\<lambda>b. if pressed then c\<lparr>potgor := potgor c AND NOT (push_bit b 1)\<rparr>
                     else c\<lparr>potgor := potgor c OR push_bit b 1\<rparr>)
      in case button of MouseLeft \<Rightarrow> c | MouseRight \<Rightarrow> upd 10 | MouseMiddle \<Rightarrow> upd 8)"

(* src/crates/machine-core/src/chipset.rs:392-400 Chipset::has_serial_byte *)
definition chip_has_serial_byte :: "chipset \<Rightarrow> bool" where
  "chip_has_serial_byte c \<longleftrightarrow> serial_len c \<noteq> 0"

(* src/crates/machine-core/src/chipset.rs:402-412 Chipset::take_serial_byte *)
definition chip_take_serial_byte :: "chipset \<Rightarrow> chipset \<times> u8 option" where
  "chip_take_serial_byte c =
     (if serial_len c = 0 then (c, None)
      else
        let byte = serial_buf c ! serial_head c
        in (c\<lparr>serial_head := (serial_head c + 1) mod SERIAL_BUF_CAP, serial_len := serial_len c - 1\<rparr>,
            Some byte))"

(* src/crates/machine-core/src/chipset.rs:414-423 Chipset::push_serial_byte *)
definition chip_push_serial_byte :: "chipset \<Rightarrow> u8 \<Rightarrow> chipset" where
  "chip_push_serial_byte c byte =
     (if serial_len c < SERIAL_BUF_CAP then
        let idx = (serial_head c + serial_len c) mod SERIAL_BUF_CAP
        in c\<lparr>serial_buf := (serial_buf c)[idx := byte], serial_len := serial_len c + 1\<rparr>
      else c)"

(* src/crates/machine-core/src/chipset.rs:682-685 Chipset::raise_int *)
definition chip_raise_int :: "chipset \<Rightarrow> nat \<Rightarrow> chipset" where
  "chip_raise_int c b = c\<lparr>intreq := intreq c OR push_bit b 1\<rparr>"

(* src/crates/machine-core/src/chipset.rs:425-455 Chipset::push_serial_in_byte *)
definition chip_push_serial_in_byte :: "chipset \<Rightarrow> u8 \<Rightarrow> chipset" where
  "chip_push_serial_in_byte c byte =
     (if serial_in_len c < SERIAL_IN_BUF_CAP then
        let idx = (serial_in_head c + serial_in_len c) mod SERIAL_IN_BUF_CAP
        in chip_raise_int
             (c\<lparr>serial_in_buf := (serial_in_buf c)[idx := byte], serial_in_len := serial_in_len c + 1\<rparr>)
             INTBIT_RBF
      else c\<lparr>serial_in_overrun := True\<rparr>)"

(* src/crates/machine-core/src/chipset.rs:457-466 Chipset::serial_in_has_room *)
definition chip_serial_in_has_room :: "chipset \<Rightarrow> bool" where
  "chip_serial_in_has_room c \<longleftrightarrow> serial_in_len c < SERIAL_IN_BUF_CAP"

(* src/crates/machine-core/src/chipset.rs:468-479 Chipset::pop_serial_in_byte *)
definition chip_pop_serial_in_byte :: "chipset \<Rightarrow> chipset \<times> u8 option" where
  "chip_pop_serial_in_byte c =
     (if serial_in_len c = 0 then (c, None)
      else
        let byte = serial_in_buf c ! serial_in_head c
        in (c\<lparr>serial_in_head := (serial_in_head c + 1) mod SERIAL_IN_BUF_CAP,
              serial_in_len := serial_in_len c - 1\<rparr>, Some byte))"

(* src/crates/machine-core/src/chipset.rs:602-607 Chipset::hpos *)
definition chip_hpos :: "chipset \<Rightarrow> u32" where
  "chip_hpos c = ucast (total_colour_clocks c mod ucast PAL_COLOUR_CLOCKS_PER_LINE)"

(* src/crates/machine-core/src/chipset.rs:609-621 Chipset::vpos *)
definition chip_vpos :: "chipset \<Rightarrow> u32" where
  "chip_vpos c =
     (let line_width = ucast PAL_COLOUR_CLOCKS_PER_LINE
      in ucast ((total_colour_clocks c div line_width) mod ucast (lines_per_frame c)))"

(* src/crates/machine-core/src/chipset.rs:623-628 Chipset::vposr *)
definition chip_vposr :: "chipset \<Rightarrow> u16" where
  "chip_vposr c =
     (let l = (if lof c then push_bit 15 1 else 0)
      in l OR VPOSR_AGNUS_ID OR ucast (drop_bit 8 (chip_vpos c) AND 1))"

(* src/crates/machine-core/src/chipset.rs:630-633 Chipset::vhposr *)
definition chip_vhposr :: "chipset \<Rightarrow> u16" where
  "chip_vhposr c = ucast (push_bit 8 (chip_vpos c AND 0xFF) OR (chip_hpos c AND 0xFF))"

(* src/crates/machine-core/src/chipset.rs:635-680 Chipset::read_serdatr *)
definition chip_read_serdatr :: "chipset \<Rightarrow> chipset \<times> u16" where
  "chip_read_serdatr c =
     (let v = push_bit 13 1 OR push_bit 12 1 OR push_bit 11 1;
          (c', r) = chip_pop_serial_in_byte c;
          v' = (case r of
                  None \<Rightarrow> v
                | Some byte \<Rightarrow>
                    let v1 = v OR push_bit 14 1 OR ucast byte
                    in if serial_in_overrun c' then v1 OR push_bit 15 1 else v1)
      in (c'\<lparr>serial_in_overrun := False\<rparr>, v'))"

(* src/crates/machine-core/src/chipset.rs:481-505 Chipset::read *)
definition chip_read :: "chipset \<Rightarrow> u16 \<Rightarrow> chipset \<times> u16" where
  "chip_read c offset =
     (if offset = CHIP_VPOSR then (c, chip_vposr c)
      else if offset = CHIP_VHPOSR then (c, chip_vhposr c)
      else if offset = CHIP_INTENAR then (c, intena c)
      else if offset = CHIP_INTREQR then (c, intreq c)
      else if offset = CHIP_DMACONR then (c, dmacon c)
      else if offset = CHIP_ADKCONR then (c, adkcon c)
      else if offset = CHIP_JOY0DAT then (c, joy0dat c)
      else if offset = CHIP_JOY1DAT then (c, joy1dat c)
      else if offset = CHIP_POTGOR then (c, potgor c)
      else if offset = CHIP_SERDATR then chip_read_serdatr c
      else if offset = CHIP_DSKBYTR then (c, 0x0000)
      else (c, 0xFFFF))"

(* src/crates/machine-core/src/chipset.rs:821-825 set_ptr_hi *)
definition set_ptr_hi :: "u32 \<Rightarrow> u16 \<Rightarrow> u32" where
  "set_ptr_hi ptr value = (ptr AND 0x0000FFFF) OR push_bit 16 (ucast value)"

(* src/crates/machine-core/src/chipset.rs:827-831 set_ptr_lo *)
definition set_ptr_lo :: "u32 \<Rightarrow> u16 \<Rightarrow> u32" where
  "set_ptr_lo ptr value = (ptr AND 0xFFFF0000) OR ucast value"

(* src/crates/machine-core/src/chipset.rs:833-842 apply_setclr *)
definition apply_setclr :: "u16 \<Rightarrow> u16 \<Rightarrow> u16" where
  "apply_setclr current value =
     (let bits = value AND 0x7FFF
      in if value AND push_bit INTBIT_SETCLR 1 \<noteq> 0 then current OR bits else current AND NOT bits)"

definition upd_at :: "('a \<Rightarrow> 'a) \<Rightarrow> nat \<Rightarrow> 'a list \<Rightarrow> 'a list" where
  "upd_at f i xs = xs[i := f (xs ! i)]"

(* src/crates/machine-core/src/chipset.rs:507-600 Chipset::write *)
definition chip_write :: "chipset \<Rightarrow> u16 \<Rightarrow> u16 \<Rightarrow> chipset" where
  "chip_write c offset value =
     (let hi = (\<lambda>p. set_ptr_hi p value); lo = (\<lambda>p. set_ptr_lo p value) in
      if offset = CHIP_INTENA then c\<lparr>intena := apply_setclr (intena c) value\<rparr>
      else if offset = CHIP_INTREQ then c\<lparr>intreq := apply_setclr (intreq c) value\<rparr>
      else if offset = CHIP_DMACON then c\<lparr>dmacon := apply_setclr (dmacon c) value\<rparr>
      else if offset = CHIP_ADKCON then c\<lparr>adkcon := apply_setclr (adkcon c) value\<rparr>
      else if offset = CHIP_COP1LCH then c\<lparr>cop1lc := hi (cop1lc c)\<rparr>
      else if offset = CHIP_COP1LCL then c\<lparr>cop1lc := lo (cop1lc c)\<rparr>
      else if offset = CHIP_COP2LCH then c\<lparr>cop2lc := hi (cop2lc c)\<rparr>
      else if offset = CHIP_COP2LCL then c\<lparr>cop2lc := lo (cop2lc c)\<rparr>
      else if offset = CHIP_COPJMP1 then c\<lparr>copjmp1_hit := True\<rparr>
      else if offset = CHIP_COPJMP2 then c\<lparr>copjmp2_hit := True\<rparr>
      else if offset = CHIP_BPL1PTH then c\<lparr>bplpt := upd_at hi 0 (bplpt c)\<rparr>
      else if offset = CHIP_BPL1PTL then c\<lparr>bplpt := upd_at lo 0 (bplpt c)\<rparr>
      else if offset = CHIP_BPL2PTH then c\<lparr>bplpt := upd_at hi 1 (bplpt c)\<rparr>
      else if offset = CHIP_BPL2PTL then c\<lparr>bplpt := upd_at lo 1 (bplpt c)\<rparr>
      else if offset = CHIP_BPL3PTH then c\<lparr>bplpt := upd_at hi 2 (bplpt c)\<rparr>
      else if offset = CHIP_BPL3PTL then c\<lparr>bplpt := upd_at lo 2 (bplpt c)\<rparr>
      else if offset = CHIP_BPL4PTH then c\<lparr>bplpt := upd_at hi 3 (bplpt c)\<rparr>
      else if offset = CHIP_BPL4PTL then c\<lparr>bplpt := upd_at lo 3 (bplpt c)\<rparr>
      else if offset = CHIP_BPL5PTH then c\<lparr>bplpt := upd_at hi 4 (bplpt c)\<rparr>
      else if offset = CHIP_BPL5PTL then c\<lparr>bplpt := upd_at lo 4 (bplpt c)\<rparr>
      else if offset = CHIP_BPL6PTH then c\<lparr>bplpt := upd_at hi 5 (bplpt c)\<rparr>
      else if offset = CHIP_BPL6PTL then c\<lparr>bplpt := upd_at lo 5 (bplpt c)\<rparr>
      else if offset = CHIP_BPLCON0 then c\<lparr>bplcon0 := value\<rparr>
      else if offset = CHIP_BPLCON1 then c\<lparr>bplcon1 := value\<rparr>
      else if offset = CHIP_BPLCON2 then c\<lparr>bplcon2 := value\<rparr>
      else if offset = CHIP_BPL1MOD then c\<lparr>bpl1mod := value\<rparr>
      else if offset = CHIP_BPL2MOD then c\<lparr>bpl2mod := value\<rparr>
      else if offset = CHIP_DIWSTRT then c\<lparr>diwstrt := value\<rparr>
      else if offset = CHIP_DIWSTOP then c\<lparr>diwstop := value\<rparr>
      else if offset = CHIP_DDFSTRT then c\<lparr>ddfstrt := value\<rparr>
      else if offset = CHIP_DDFSTOP then c\<lparr>ddfstop := value\<rparr>
      else if CHIP_COLOR00 \<le> offset \<and> offset \<le> CHIP_COLOR31 then
        c\<lparr>color := (color c)[unat ((offset - CHIP_COLOR00) div 2) := value AND 0x0FFF]\<rparr>
      else if offset = CHIP_SPR0PTH then c\<lparr>spr0pt := hi (spr0pt c)\<rparr>
      else if offset = CHIP_SPR0PTL then c\<lparr>spr0pt := lo (spr0pt c)\<rparr>
      else if offset = CHIP_SPR0POS then c\<lparr>spr0pos := value\<rparr>
      else if offset = CHIP_SPR0CTL then c\<lparr>spr0ctl := value\<rparr>
      else if offset = CHIP_SPR0DATA then c\<lparr>spr0data := value\<rparr>
      else if offset = CHIP_SPR0DATB then c\<lparr>spr0datb := value\<rparr>
      else if offset = CHIP_DSKPTH then c\<lparr>dskpt := hi (dskpt c)\<rparr>
      else if offset = CHIP_DSKPTL then c\<lparr>dskpt := lo (dskpt c)\<rparr>
      else if offset = CHIP_DSKLEN then c\<lparr>dsklen := value\<rparr>
      else if offset = CHIP_SERDAT then
        chip_raise_int (chip_push_serial_byte (c\<lparr>serdat := value\<rparr>) (ucast value)) INTBIT_TBE
      else if offset = CHIP_SERPER then c\<lparr>serper := value\<rparr>
      else if offset = CHIP_POTGO then c\<lparr>potgo := value\<rparr>
      else c)"

text \<open>\<open>u16::leading_zeros\<close>\<close>

definition leading_zeros_u16 :: "u16 \<Rightarrow> nat" where
  "leading_zeros_u16 w = length (takeWhile (\<lambda>i. \<not> bit w i) (rev [0..<16]))"

(* src/crates/machine-core/src/chipset.rs:687-716 Chipset::pending_level *)
definition chip_pending_level :: "chipset \<Rightarrow> u8" where
  "chip_pending_level c =
     (if intena c AND push_bit INTBIT_INTEN 1 = 0 then 0
      else
        let active = intena c AND intreq c AND 0x3FFF in
        if active = 0 then 0
        else
          let highest = 15 - leading_zeros_u16 active in
          if highest \<le> 2 then 1
          else if highest = 3 then 2
          else if 4 \<le> highest \<and> highest \<le> 6 then 3
          else if 7 \<le> highest \<and> highest \<le> 10 then 4
          else if 11 \<le> highest \<and> highest \<le> 12 then 5
          else if highest = 13 then 6
          else 0)"

(* src/crates/machine-core/src/chipset.rs:764-773 Chipset::tick *)
definition chip_cross_frames :: "chipset \<Rightarrow> u32 \<Rightarrow> chipset" where
  "chip_cross_frames c wrapped =
     (if wrapped > 0 then
        let c1 = c\<lparr>frames := saturating_add_u64 (frames c) (ucast wrapped)\<rparr>;
            c2 = (if wrapped mod 2 = 1 then c1\<lparr>lof := \<not> lof c1\<rparr> else c1)
        in chip_raise_int c2 INTBIT_VERTB
      else c)"

(* src/crates/machine-core/src/chipset.rs:718-779 Chipset::tick *)
definition chip_tick :: "chipset \<Rightarrow> u32 \<Rightarrow> u32 \<Rightarrow> chipset \<times> beam_advance" where
  "chip_tick c cpu_clocks cpu_clocks_per_colour_clock =
     (let ccpc = ucast (max cpu_clocks_per_colour_clock 1) :: u64;
          total = ucast (carry c) + ucast cpu_clocks;
          colour_clocks = total div ccpc;
          c1 = c\<lparr>carry := ucast (total mod ccpc)\<rparr>;
          line_width = ucast PAL_COLOUR_CLOCKS_PER_LINE;
          c2 = (if colour_clocks \<ge> line_width
                then c1\<lparr>coarse_tick_streak := saturating_add_u32 (coarse_tick_streak c1) 1\<rparr>
                else c1\<lparr>coarse_tick_streak := 0\<rparr>);
          lines_before = total_colour_clocks c2 div line_width;
          c3 = c2\<lparr>total_colour_clocks := saturating_add_u64 (total_colour_clocks c2) colour_clocks\<rparr>;
          lines_after = total_colour_clocks c3 div line_width;
          lines = ucast (lines_after - lines_before) :: u32;
          lpf = ucast (lines_per_frame c3) :: u64;
          frames_before = lines_before div lpf;
          frames_after = lines_after div lpf;
          wrapped = ucast (frames_after - frames_before) :: u32
      in (chip_cross_frames c3 wrapped, \<lparr>lines_started = lines, frames_wrapped = wrapped\<rparr>))"

(* src/crates/machine-core/src/chipset.rs:781-800 Chipset::clocks_until_line_boundary *)
definition clocks_until_line_boundary :: "chipset \<Rightarrow> u32 \<Rightarrow> u32" where
  "clocks_until_line_boundary c cpu_clocks_per_colour_clock =
     (let needed_colour_clocks = ucast (PAL_COLOUR_CLOCKS_PER_LINE - chip_hpos c) :: u64;
          ccpc = ucast cpu_clocks_per_colour_clock
      in ucast (needed_colour_clocks * ccpc - ucast (carry c)))"

(* src/crates/machine-core/src/chipset.rs:802-818 Chipset::beam_position_may_be_frozen *)
definition beam_position_may_be_frozen :: "chipset \<Rightarrow> bool" where
  "beam_position_may_be_frozen c \<longleftrightarrow> coarse_tick_streak c \<ge> 2"

section \<open>The frame clock as arithmetic on naturals\<close>

text \<open>
  \<open>chip_ok k c\<close>: the carry is less than \<open>k\<close> CPU clocks per colour clock, a frame has lines, and the
  arrays have their declared sizes. \<open>chip_room k n c\<close>: \<open>n\<close> CPU clocks fit the argument type and do not
  saturate the 64-bit colour clock.
\<close>

definition chip_ok :: "nat \<Rightarrow> chipset \<Rightarrow> bool" where
  "chip_ok k c \<longleftrightarrow> 0 < k \<and> k < 2 ^ 32 \<and> unat (carry c) < k \<and> 0 < unat (lines_per_frame c) \<and>
     length (serial_buf c) = 32 \<and> ring_ok (serial_buf c) (serial_head c) (serial_len c) \<and>
     length (serial_in_buf c) = 32 \<and> ring_ok (serial_in_buf c) (serial_in_head c) (serial_in_len c) \<and>
     (serial_in_overrun c \<longrightarrow> serial_in_len c = 32) \<and> length (bplpt c) = 6 \<and> length (color c) = 32"

abbreviation colour_clocks_in :: "nat \<Rightarrow> chipset \<Rightarrow> nat \<Rightarrow> nat" where
  "colour_clocks_in k c n \<equiv> (unat (carry c) + n) div k"

definition chip_room :: "nat \<Rightarrow> nat \<Rightarrow> chipset \<Rightarrow> bool" where
  "chip_room k n c \<longleftrightarrow> n < 2 ^ 32 \<and> unat (total_colour_clocks c) + colour_clocks_in k c n < 2 ^ 64"

definition line_no :: "chipset \<Rightarrow> nat" where
  "line_no c = unat (total_colour_clocks c) div 227"

definition frame_no :: "chipset \<Rightarrow> nat" where
  "frame_no c = line_no c div unat (lines_per_frame c)"

definition chip_lines :: "nat \<Rightarrow> nat \<Rightarrow> chipset \<Rightarrow> nat" where
  "chip_lines k n c = (unat (total_colour_clocks c) + colour_clocks_in k c n) div 227 - line_no c"

definition chip_frames :: "nat \<Rightarrow> nat \<Rightarrow> chipset \<Rightarrow> nat" where
  "chip_frames k n c = (unat (total_colour_clocks c) + colour_clocks_in k c n) div 227 div unat (lines_per_frame c)
     - frame_no c"

text \<open>Everything \<open>tick\<close> does, apart from the streak detector.\<close>

definition chip_elapse :: "nat \<Rightarrow> nat \<Rightarrow> chipset \<Rightarrow> chipset" where
  "chip_elapse k n c =
     (let fw = chip_frames k n c in
      c\<lparr>carry := of_nat ((unat (carry c) + n) mod k),
        total_colour_clocks := of_nat (unat (total_colour_clocks c) + colour_clocks_in k c n),
        frames := saturating_add_u64 (frames c) (of_nat fw),
        lof := (lof c \<noteq> odd fw),
        intreq := (if fw > 0 then intreq c OR push_bit 5 1 else intreq c)\<rparr>)"

lemma unat_ucast_u64: "unat (ucast (w :: u32) :: u64) = unat w"
proof -
  have "unat w < 2 ^ 64" using unat_lt2p_of [of w] by simp
  then show ?thesis by (simp add: unat_ucast_mod)
qed

lemma saturating_add_u64_0 [simp]: "saturating_add_u64 a 0 = a"
  using unat_lt2p_of [of a] by (simp add: saturating_add_u64_def)

lemma unat_saturating_add_u64: "unat (saturating_add_u64 a b) = min (unat a + unat b) (2 ^ 64 - 1)"
proof (cases "unat a + unat b < 2 ^ 64")
  case True
  then show ?thesis by (simp add: saturating_add_u64_def unat_word_ariths)
next
  case False
  then show ?thesis by (simp add: saturating_add_u64_def unsigned_minus_1_eq_mask mask_eq_exp_minus_1)
qed

lemma div_diff_le: "y \<le> x \<Longrightarrow> x div m - y div m \<le> x - (y :: nat)"
proof -
  have "(y + d) div m \<le> y div m + d" for d
    by (induction d) (simp_all add: div_Suc)
  from this [of "x - y"] show "y \<le> x \<Longrightarrow> x div m - y div m \<le> x - y" by simp
qed

text \<open>The numbers of lines and frames one call can cross are far below the width of the result.\<close>

lemma chip_lines_bound:
  assumes "chip_ok k c" "chip_room k n c"
  shows "chip_lines k n c \<le> colour_clocks_in k c n" "colour_clocks_in k c n < 2 ^ 33"
    "chip_lines k n c < 2 ^ 32" "chip_frames k n c < 2 ^ 32"
proof -
  have "unat (carry c) + n < 2 ^ 33"
    using assms unat_lt2p_of [of "carry c"] by (simp add: chip_room_def)
  moreover have "colour_clocks_in k c n \<le> unat (carry c) + n" by (rule div_le_dividend)
  ultimately show cc: "colour_clocks_in k c n < 2 ^ 33" by (rule le_less_trans [rotated])
  let ?t = "unat (total_colour_clocks c)" and ?cc = "colour_clocks_in k c n"
  have "?t mod 227 + ?cc mod 227 < 2 * 227"
    using mod_less_divisor [of 227 ?t] mod_less_divisor [of 227 ?cc] by linarith
  then have "(?t mod 227 + ?cc mod 227) div 227 < 2" by (rule less_mult_imp_div_less)
  then have "(?t + ?cc) div 227 \<le> ?t div 227 + ?cc div 227 + 1"
    using div_add1_eq [of ?t ?cc 227] by linarith
  then have l: "chip_lines k n c \<le> ?cc div 227 + 1" by (simp add: chip_lines_def line_no_def)
  moreover have "?cc div 227 + 1 < 2 ^ 32"
    using div_le_mono [OF less_imp_le [OF cc], of 227] by simp
  ultimately show "chip_lines k n c < 2 ^ 32" by (rule le_less_trans)
  show "chip_lines k n c \<le> ?cc"
    using div_diff_le [of ?t "?t + ?cc" 227] by (simp add: chip_lines_def line_no_def)
  have "(?t + ?cc) div 227 div m - ?t div 227 div m \<le> (?t + ?cc) div 227 - ?t div 227" for m
    using div_diff_le [of "?t div 227" "(?t + ?cc) div 227" m] by (simp add: div_le_mono)
  from this [of "unat (lines_per_frame c)"] have "chip_frames k n c \<le> chip_lines k n c"
    by (simp add: chip_frames_def chip_lines_def frame_no_def line_no_def)
  then show "chip_frames k n c < 2 ^ 32"
    using \<open>chip_lines k n c < 2 ^ 32\<close> by (rule le_less_trans)
qed

lemma u64_eqI: "unat a = unat b \<Longrightarrow> a = (b :: u64)"
  by (simp add: word_unat_eq_iff)

lemma unat_max_1: "unat k' = k \<Longrightarrow> 0 < k \<Longrightarrow> unat (max k' (1 :: u32)) = k"
  by (auto simp: max_def word_le_nat_alt)

lemma ucast_of_nat_small:
  "m < 2 ^ LENGTH('a) \<Longrightarrow> m < 2 ^ LENGTH('b) \<Longrightarrow> ucast (of_nat m :: 'a::len word) = (of_nat m :: 'b::len word)"
  by (simp add: word_unat_eq_iff unat_ucast_mod unat_of_nat_less)

lemma u64_of_nat_div: "a < 2 ^ 64 \<Longrightarrow> b < 2 ^ 64 \<Longrightarrow> (of_nat a :: u64) div of_nat b = of_nat (a div b)"
  using le_less_trans [OF div_le_dividend, of a "2 ^ 64" b]
  by (simp add: word_unat_eq_iff unat_div unat_of_nat_less)

lemma u64_of_nat_diff: "b \<le> a \<Longrightarrow> (of_nat a :: u64) - of_nat b = of_nat (a - b)"
  by (simp add: of_nat_diff)

lemma u32_of_nat_pos: "m < 2 ^ 32 \<Longrightarrow> (0 < (of_nat m :: u32)) = (0 < m)"
  by (simp add: word_less_nat_alt unat_of_nat_less)

lemma u32_of_nat_odd: "m < 2 ^ 32 \<Longrightarrow> ((of_nat m :: u32) mod 2 = 1) = odd m"
  by (simp add: word_unat_eq_iff unat_mod unat_of_nat_less odd_iff_mod_2_eq_one)

lemma if_streak: "(if P then c\<lparr>coarse_tick_streak := x\<rparr> else c\<lparr>coarse_tick_streak := y\<rparr>) =
    c\<lparr>coarse_tick_streak := if P then x else y\<rparr>"
  by simp

text \<open>\<open>tick\<close> is \<open>chip_elapse\<close> plus the streak detector, and reports \<open>chip_lines\<close> and \<open>chip_frames\<close>.\<close>

lemma chip_tick_elapse:
  assumes ok: "chip_ok k c" and room: "chip_room k n c" and k: "unat k' = k" and n: "unat n' = n"
  shows "\<exists>s. chip_tick c n' k' = ((chip_elapse k n c)\<lparr>coarse_tick_streak := s\<rparr>,
    \<lparr>lines_started = of_nat (chip_lines k n c), frames_wrapped = of_nat (chip_frames k n c)\<rparr>)"
proof -
  let ?t = "unat (total_colour_clocks c)" and ?cc = "colour_clocks_in k c n"
  define total :: u64 where "total = ucast (carry c) + ucast n'"
  define ccpc :: u64 where "ccpc = ucast (max k' 1)"
  have b: "unat (carry c) + n < 2 ^ 64" "0 < k" "k < 2 ^ 32"
    using unat_lt2p_of [of "carry c"] room ok by (simp_all add: chip_room_def chip_ok_def)
  have ut: "unat total = unat (carry c) + n"
    using b by (simp add: total_def unat_word_ariths unat_ucast_u64 n)
  have uk: "unat ccpc = k" by (simp add: ccpc_def unat_ucast_u64 unat_max_1 [OF k b(2)])
  have cc: "total div ccpc = of_nat ?cc"
    using b by (intro u64_eqI) (simp add: unat_div ut uk unat_of_nat_less le_less_trans [OF div_le_dividend])
  have md: "ucast (total mod ccpc) = (of_nat ((unat (carry c) + n) mod k) :: u32)"
  proof (rule word_unat_eq_iff [THEN iffD2])
    have "(unat (carry c) + n) mod k < 2 ^ 32" using b mod_less_divisor [of k "unat (carry c) + n"] by linarith
    then show "unat (ucast (total mod ccpc) :: u32) = unat (of_nat ((unat (carry c) + n) mod k) :: u32)"
      by (simp add: unat_ucast_mod unat_mod ut uk unat_of_nat_less)
  qed
  have tot: "saturating_add_u64 (total_colour_clocks c) (of_nat ?cc) = of_nat (?t + ?cc)"
    using room chip_lines_bound(2) [OF ok room]
    by (intro u64_eqI) (simp add: unat_saturating_add_u64 chip_room_def unat_of_nat_less del: of_nat_add)
  have lim: "?t + ?cc < 2 ^ 64" using room by (simp add: chip_room_def)
  have lb: "total_colour_clocks c div 227 = of_nat (line_no c)" "(of_nat (?t + ?cc) :: u64) div 227 = of_nat ((?t + ?cc) div 227)"
    using u64_of_nat_div [of ?t 227] u64_of_nat_div [of "?t + ?cc" 227] lim
    by (simp_all add: line_no_def del: of_nat_add)
  have ls: "ucast ((of_nat ((?t + ?cc) div 227) :: u64) - of_nat (line_no c)) = (of_nat (chip_lines k n c) :: u32)"
    using chip_lines_bound(3) [OF ok room]
    by (simp add: u64_of_nat_diff line_no_def div_le_mono chip_lines_def [unfolded line_no_def, symmetric]
        ucast_of_nat_small)
  have lpf: "(ucast (lines_per_frame c) :: u64) = of_nat (unat (lines_per_frame c))"
    by (intro u64_eqI) (simp add: unat_ucast_u64 unat_of_nat_less less_trans [OF unat_lt2p_of])
  have div_lim: "x div y < 2 ^ 64" if "x < 2 ^ 64" for x y :: nat
    using that le_less_trans [OF div_le_dividend] by blast
  have lpf64: "unat (lines_per_frame c) < 2 ^ 64"
    using unat_lt2p_of [of "lines_per_frame c"] by simp
  have fb: "(of_nat (line_no c) :: u64) div ucast (lines_per_frame c) = of_nat (frame_no c)"
    "(of_nat ((?t + ?cc) div 227) :: u64) div ucast (lines_per_frame c) =
      of_nat ((?t + ?cc) div 227 div unat (lines_per_frame c))"
    unfolding lpf line_no_def frame_no_def
    by (rule u64_of_nat_div; use lpf64 lim div_lim in simp)+
  have fs: "ucast ((of_nat ((?t + ?cc) div 227 div unat (lines_per_frame c)) :: u64) - of_nat (frame_no c)) =
      (of_nat (chip_frames k n c) :: u32)"
    using chip_lines_bound(4) [OF ok room]
    by (simp add: u64_of_nat_diff frame_no_def line_no_def div_le_mono
        chip_frames_def [unfolded frame_no_def line_no_def, symmetric] ucast_of_nat_small)
  note fl = chip_lines_bound(4) [OF ok room]
  have fw: "(0 < (of_nat (chip_frames k n c) :: u32)) = (0 < chip_frames k n c)"
    "((of_nat (chip_frames k n c) :: u32) mod 2 = 1) = odd (chip_frames k n c)"
    "(ucast (of_nat (chip_frames k n c) :: u32) :: u64) = of_nat (chip_frames k n c)"
    using fl by (simp_all add: u32_of_nat_pos u32_of_nat_odd ucast_of_nat_small)
  have w: "(ucast (227 :: u32) :: u64) = 227" by simp
  have x: "chip_cross_frames c' (of_nat (chip_frames k n c)) =
      c'\<lparr>frames := saturating_add_u64 (frames c') (of_nat (chip_frames k n c)),
         lof := (lof c' \<noteq> odd (chip_frames k n c)),
         intreq := (if chip_frames k n c > 0 then intreq c' OR push_bit 5 1 else intreq c')\<rparr>" for c'
    by (cases "chip_frames k n c = 0") (auto simp: chip_cross_frames_def fw chip_raise_int_def Let_def)
  show ?thesis
    unfolding chip_tick_def Let_def PAL_COLOUR_CLOCKS_PER_LINE_def w
      total_def [symmetric] ccpc_def [symmetric] cc md if_streak chip_elapse_def
    by (rule exI [of _ "if 227 \<le> (of_nat ?cc :: u64) then saturating_add_u32 (coarse_tick_streak c) 1 else 0"])
       (simp add: tot lb ls fb fs x del: of_nat_add)
qed

section \<open>Batching the frame clock\<close>

lemma div_mod_step: "(x + b) div k = x div k + (x mod k + b) div (k :: nat)" "(x mod k + b) mod k = (x + b) mod k"
proof -
  have "(x + b) div k = (k * (x div k) + (x mod k + b)) div k"
    by (metis add.assoc mult_div_mod_eq)
  then show "(x + b) div k = x div k + (x mod k + b) div k"
    by (cases "k = 0") (simp, metis add.commute div_mult_self2)
qed (simp add: mod_add_left_eq)

lemma saturating_add_u64_assoc:
  "p + q < 2 ^ 64 \<Longrightarrow> saturating_add_u64 (saturating_add_u64 f (of_nat p)) (of_nat q) = saturating_add_u64 f (of_nat (p + q))"
  by (intro u64_eqI) (simp add: unat_saturating_add_u64 unat_of_nat_less min_def del: of_nat_add)

lemma chip_elapse_fields:
  assumes "chip_ok k c" "chip_room k n c"
  shows "unat (carry (chip_elapse k n c)) = (unat (carry c) + n) mod k"
    "unat (total_colour_clocks (chip_elapse k n c)) = unat (total_colour_clocks c) + colour_clocks_in k c n"
    "lines_per_frame (chip_elapse k n c) = lines_per_frame c"
proof -
  have "0 < k" "k < 2 ^ 32" using assms(1) by (simp_all add: chip_ok_def)
  then have "(unat (carry c) + n) mod k < 2 ^ 32"
    using mod_less_divisor [of k "unat (carry c) + n"] by linarith
  then show "unat (carry (chip_elapse k n c)) = (unat (carry c) + n) mod k"
    by (simp add: chip_elapse_def Let_def unat_of_nat_less)
  show "unat (total_colour_clocks (chip_elapse k n c)) = unat (total_colour_clocks c) + colour_clocks_in k c n"
    using assms by (simp add: chip_elapse_def Let_def chip_room_def unat_of_nat_less del: of_nat_add)
qed (simp add: chip_elapse_def Let_def)

lemma chip_ok_elapse:
  assumes "chip_ok k c" "chip_room k n c"
  shows "chip_ok k (chip_elapse k n c)"
proof -
  have "unat (carry (chip_elapse k n c)) < k"
    using chip_elapse_fields(1) [OF assms] assms by (simp add: chip_ok_def)
  then show ?thesis
    using assms(1) unfolding chip_ok_def by (simp add: chip_elapse_def Let_def)
qed

lemma chip_room_split:
  assumes "chip_ok k c" "chip_room k (a + b) c"
  shows "chip_room k a c" "chip_room k b (chip_elapse k a c)"
    and "colour_clocks_in k c (a + b) = colour_clocks_in k c a + colour_clocks_in k (chip_elapse k a c) b"
proof -
  have le: "colour_clocks_in k c a \<le> colour_clocks_in k c (a + b)"
    by (intro div_le_mono) simp
  then show a: "chip_room k a c"
    using assms(2) by (simp add: chip_room_def)
  show cc: "colour_clocks_in k c (a + b) = colour_clocks_in k c a + colour_clocks_in k (chip_elapse k a c) b"
    using div_mod_step(1) [of "unat (carry c) + a" b k] chip_elapse_fields(1) [OF assms(1) a]
    by (simp add: add.assoc)
  show "chip_room k b (chip_elapse k a c)"
    using assms(2) cc chip_elapse_fields(2) [OF assms(1) a] by (simp add: chip_room_def)
qed

lemma chip_counts_add:
  assumes "chip_ok k c" "chip_room k (a + b) c"
  shows "chip_lines k (a + b) c = chip_lines k a c + chip_lines k b (chip_elapse k a c)"
    and "chip_frames k (a + b) c = chip_frames k a c + chip_frames k b (chip_elapse k a c)"
proof -
  let ?c = "chip_elapse k a c"
  note s = chip_room_split [OF assms] and f = chip_elapse_fields [OF assms(1) chip_room_split(1) [OF assms]]
  let ?m = "unat (lines_per_frame c)"
  define x p q where "x = unat (total_colour_clocks c)" and "p = colour_clocks_in k c a"
    and "q = colour_clocks_in k ?c b"
  have mono: "x div 227 \<le> (x + p) div 227" "(x + p) div 227 \<le> (x + p + q) div 227"
    by (simp_all add: div_le_mono)
  have "chip_lines k a c = (x + p) div 227 - x div 227" "chip_lines k (a + b) c = (x + p + q) div 227 - x div 227"
    "chip_lines k b ?c = (x + p + q) div 227 - (x + p) div 227"
    unfolding chip_lines_def line_no_def f(2) s(3) x_def p_def q_def by (simp_all only: add.assoc)
  with mono show "chip_lines k (a + b) c = chip_lines k a c + chip_lines k b ?c" by simp
  have "chip_frames k a c = (x + p) div 227 div ?m - x div 227 div ?m"
    "chip_frames k (a + b) c = (x + p + q) div 227 div ?m - x div 227 div ?m"
    "chip_frames k b ?c = (x + p + q) div 227 div ?m - (x + p) div 227 div ?m"
    unfolding chip_frames_def frame_no_def line_no_def f(2,3) s(3) x_def p_def q_def by (simp_all only: add.assoc)
  with mono [THEN div_le_mono, of ?m] show "chip_frames k (a + b) c = chip_frames k a c + chip_frames k b ?c" by simp
qed

lemma chip_elapse_add:
  assumes "chip_ok k c" "chip_room k (a + b) c"
  shows "chip_elapse k (a + b) c = chip_elapse k b (chip_elapse k a c)"
proof -
  let ?c = "chip_elapse k a c"
  note s = chip_room_split [OF assms] and f = chip_elapse_fields [OF assms(1) chip_room_split(1) [OF assms]]
  note n = chip_counts_add(2) [OF assms]
  have "chip_frames k (a + b) c < 2 ^ 64"
    using chip_lines_bound(4) [OF assms] by simp
  then have fr: "saturating_add_u64 (frames c) (of_nat (chip_frames k (a + b) c)) =
      saturating_add_u64 (frames ?c) (of_nat (chip_frames k b ?c))"
    using saturating_add_u64_assoc [of "chip_frames k a c" "chip_frames k b ?c" "frames c"]
    by (simp add: n chip_elapse_def [of k a] Let_def del: of_nat_add)
  have lf: "(lof c \<noteq> odd (chip_frames k (a + b) c)) = (lof ?c \<noteq> odd (chip_frames k b ?c))"
    by (auto simp: n chip_elapse_def [of k a] Let_def)
  have iq: "(if chip_frames k (a + b) c > 0 then intreq c OR push_bit 5 1 else intreq c) =
      (if chip_frames k b ?c > 0 then intreq ?c OR push_bit 5 1 else intreq ?c)"
    by (simp add: n chip_elapse_def [of k a] Let_def or.assoc)
  have ca: "(unat (carry c) + (a + b)) mod k = (unat (carry ?c) + b) mod k"
    using div_mod_step(2) [of "unat (carry c) + a" k b] f(1) by (simp add: add.assoc)
  have tt: "unat (total_colour_clocks c) + colour_clocks_in k c (a + b) =
      unat (total_colour_clocks ?c) + colour_clocks_in k ?c b"
    using f(2) s(3) by simp
  show ?thesis
    unfolding chip_elapse_def [of k b] chip_elapse_def [of k "a + b"] Let_def fr lf iq ca tt
    by (simp add: chip_elapse_def [of k a] Let_def)
qed

lemma chip_none: "chip_ok k c \<Longrightarrow> chip_elapse k 0 c = c" "chip_ok k c \<Longrightarrow> chip_lines k 0 c = 0"
  "chip_ok k c \<Longrightarrow> chip_frames k 0 c = 0"
proof -
  assume ok: "chip_ok k c"
  then have c: "unat (carry c) div k = 0" "unat (carry c) mod k = unat (carry c)"
    by (simp_all add: chip_ok_def)
  then show l: "chip_lines k 0 c = 0" and f: "chip_frames k 0 c = 0"
    by (simp_all add: chip_lines_def chip_frames_def line_no_def frame_no_def)
  show "chip_elapse k 0 c = c"
    using c f by (simp add: chip_elapse_def)
qed

interpretation frame_clock: batched_clock "chip_ok k" "chip_room k" "chip_elapse k"
  for k :: nat
proof
  fix s n a b
  show "chip_ok k s \<Longrightarrow> chip_room k n s \<Longrightarrow> chip_ok k (chip_elapse k n s)" by (rule chip_ok_elapse)
  show "chip_ok k s \<Longrightarrow> chip_elapse k 0 s = s" by (rule chip_none)
  show "chip_ok k s \<Longrightarrow> chip_room k (a + b) s \<Longrightarrow> chip_room k a s \<and> chip_room k b (chip_elapse k a s)"
    by (simp add: chip_room_split)
  show "chip_ok k s \<Longrightarrow> chip_room k (a + b) s \<Longrightarrow> chip_elapse k (a + b) s = chip_elapse k b (chip_elapse k a s)"
    by (rule chip_elapse_add)
qed

lemma streak_irrelevant [simp]:
  "chip_ok k (c\<lparr>coarse_tick_streak := s\<rparr>) = chip_ok k c"
  "chip_room k n (c\<lparr>coarse_tick_streak := s\<rparr>) = chip_room k n c"
  "chip_lines k n (c\<lparr>coarse_tick_streak := s\<rparr>) = chip_lines k n c"
  "chip_frames k n (c\<lparr>coarse_tick_streak := s\<rparr>) = chip_frames k n c"
  "chip_elapse k n (c\<lparr>coarse_tick_streak := s\<rparr>) = (chip_elapse k n c)\<lparr>coarse_tick_streak := s\<rparr>"
proof -
  show 1: "chip_ok k (c\<lparr>coarse_tick_streak := s\<rparr>) = chip_ok k c"
    "chip_room k n (c\<lparr>coarse_tick_streak := s\<rparr>) = chip_room k n c"
    "chip_lines k n (c\<lparr>coarse_tick_streak := s\<rparr>) = chip_lines k n c"
    "chip_frames k n (c\<lparr>coarse_tick_streak := s\<rparr>) = chip_frames k n c"
    by (simp_all add: chip_ok_def chip_room_def chip_lines_def chip_frames_def line_no_def frame_no_def)
  show "chip_elapse k n (c\<lparr>coarse_tick_streak := s\<rparr>) = (chip_elapse k n c)\<lparr>coarse_tick_streak := s\<rparr>"
    by (simp add: chip_elapse_def Let_def 1)
qed

text \<open>A caller that ticks in pieces and adds up the reported lines and frames.\<close>

definition chip_tick_all :: "u32 \<Rightarrow> u32 list \<Rightarrow> chipset \<Rightarrow> chipset \<times> nat \<times> nat" where
  "chip_tick_all k ns c = foldl (\<lambda>(c, l, f) n. let (c', b) = chip_tick c n k
     in (c', l + unat (lines_started b), f + unat (frames_wrapped b))) (c, 0, 0) ns"

lemma chip_tick_all_elapse:
  assumes "chip_ok (unat k) c" "chip_room (unat k) (sum_list (map unat ns)) c"
  shows "\<exists>s. chip_tick_all k ns c = ((chip_elapse (unat k) (sum_list (map unat ns)) c)\<lparr>coarse_tick_streak := s\<rparr>,
    chip_lines (unat k) (sum_list (map unat ns)) c, chip_frames (unat k) (sum_list (map unat ns)) c)"
  using assms(2)
proof (induction ns rule: rev_induct)
  case Nil
  then show ?case
    using chip_none [OF assms(1)] by (auto simp: chip_tick_all_def intro!: exI [of _ "coarse_tick_streak c"])
next
  case (snoc n ns)
  let ?m = "sum_list (map unat ns)" and ?k = "unat k"
  have room: "chip_room ?k (?m + unat n) c" using snoc.prems by simp
  note sp = chip_room_split(1,2) [OF assms(1) room]
  obtain s where s: "chip_tick_all k ns c = ((chip_elapse ?k ?m c)\<lparr>coarse_tick_streak := s\<rparr>,
      chip_lines ?k ?m c, chip_frames ?k ?m c)"
    using snoc.IH sp(1) by blast
  let ?c = "(chip_elapse ?k ?m c)\<lparr>coarse_tick_streak := s\<rparr>"
  have ok: "chip_ok ?k ?c" "chip_room ?k (unat n) ?c"
    using chip_ok_elapse [OF assms(1) sp(1)] sp(2) by simp_all
  obtain s' where t: "chip_tick ?c n k = ((chip_elapse ?k (unat n) ?c)\<lparr>coarse_tick_streak := s'\<rparr>,
      \<lparr>lines_started = of_nat (chip_lines ?k (unat n) ?c), frames_wrapped = of_nat (chip_frames ?k (unat n) ?c)\<rparr>)"
    using chip_tick_elapse [OF ok refl refl] by blast
  have u: "unat (of_nat (chip_lines ?k (unat n) ?c) :: u32) = chip_lines ?k (unat n) ?c"
    "unat (of_nat (chip_frames ?k (unat n) ?c) :: u32) = chip_frames ?k (unat n) ?c"
    using chip_lines_bound(3,4) [OF ok] by (simp_all add: unat_of_nat_less del: streak_irrelevant)
  have "chip_tick_all k (ns @ [n]) c = (let (c', b) = chip_tick ?c n k
      in (c', chip_lines ?k ?m c + unat (lines_started b), chip_frames ?k ?m c + unat (frames_wrapped b)))"
    using s by (simp add: chip_tick_all_def)
  also have "\<dots> = ((chip_elapse ?k (unat n) ?c)\<lparr>coarse_tick_streak := s'\<rparr>,
      chip_lines ?k ?m c + chip_lines ?k (unat n) ?c, chip_frames ?k ?m c + chip_frames ?k (unat n) ?c)"
    by (simp only: t Let_def prod.case u beam_advance.simps)
  finally show ?case
    using chip_counts_add [OF assms(1) room] chip_elapse_add [OF assms(1) room]
    by (intro exI [of _ s']) simp
qed

text \<open>C7 [equivalence]: Advancing the frame clock in any sequence of pieces is the same as advancing
  it once by their sum: the same chipset state (beam position, carry, frame count, long-frame bit,
  interrupt requests), apart from the diagnostic streak counter, and the reported lines and frames
  add up.\<close>

theorem chipset_tick_batching:
  assumes "chip_ok (unat k) c" "chip_room (unat k) (sum_list (map unat ns)) c" "unat n = sum_list (map unat ns)"
    and "chip_tick_all k ns c = (c1, l, f)" "chip_tick c n k = (c2, b)"
  shows "c1\<lparr>coarse_tick_streak := 0\<rparr> = c2\<lparr>coarse_tick_streak := 0\<rparr> \<and> l = unat (lines_started b) \<and>
    f = unat (frames_wrapped b)"
  using chip_tick_all_elapse [OF assms(1,2)] chip_tick_elapse [OF assms(1,2) refl assms(3)]
    chip_lines_bound(3,4) [OF assms(1,2)] assms(4,5)
  by (auto simp: unat_of_nat_less)

section \<open>The line-boundary deadline\<close>

lemma deadline_value:
  assumes "chip_ok (unat k) c" "227 * unat k < 2 ^ 32"
  shows "unat (clocks_until_line_boundary c k) =
    (227 - unat (total_colour_clocks c) mod 227) * unat k - unat (carry c)"
    and "unat (carry c) < (227 - unat (total_colour_clocks c) mod 227) * unat k"
proof -
  let ?h = "unat (total_colour_clocks c) mod 227"
  have h: "?h < 227" by simp
  have uh: "unat (chip_hpos c) = ?h"
    using h by (simp add: chip_hpos_def unat_ucast_mod unat_mod)
  have un: "unat (227 - chip_hpos c) = 227 - ?h"
    using h uh by (subst unat_sub) (simp_all add: word_le_nat_alt)
  have ck: "unat (carry c) < unat k" using assms(1) by (simp add: chip_ok_def)
  have one: "1 * unat k \<le> (227 - ?h) * unat k" by (rule mult_le_mono1) (use h in linarith)
  then show lt: "unat (carry c) < (227 - ?h) * unat k" using ck by linarith
  have "(227 - ?h) * unat k \<le> 227 * unat k" by (rule mult_le_mono1) simp
  then have lim: "(227 - ?h) * unat k < 4294967296" using assms(2) by (rule_tac le_less_trans) simp_all
  let ?a = "ucast (227 - chip_hpos c) * ucast k :: u64" and ?b = "ucast (carry c) :: u64"
  have ua: "unat ?a = (227 - ?h) * unat k"
    using lim by (simp add: unat_word_ariths unat_ucast_u64 un)
  have ub: "unat ?b = unat (carry c)" by (simp add: unat_ucast_u64)
  have "unat (?a - ?b) = (227 - ?h) * unat k - unat (carry c)"
    using ua ub lt by (subst unat_sub) (simp_all add: word_le_nat_alt)
  then show "unat (clocks_until_line_boundary c k) = (227 - ?h) * unat k - unat (carry c)"
    using lim less_imp_diff_less [OF lim, of "unat (carry c)"]
    by (simp add: clocks_until_line_boundary_def Let_def unat_ucast_mod)
qed

lemma same_line: "(t + x) div 227 = t div 227 \<longleftrightarrow> t mod 227 + x < (227 :: nat)"
proof -
  have "(t + x) div 227 = t div 227 + (t mod 227 + x) div 227"
    using div_mod_step(1) [of t x 227] .
  then show ?thesis by (simp add: div_eq_0_iff)
qed

text \<open>The deadline the bus uses for deferring device time is exact: it is at least one and
  at most one line's worth of CPU clocks, any smaller number of clocks starts no raster line, and
  exactly that many start exactly one.\<close>

lemma line_deadline_exact:
  assumes "chip_ok (unat k) c" "227 * unat k < 2 ^ 32"
    and "chip_room (unat k) (unat (clocks_until_line_boundary c k)) c"
  shows "1 \<le> unat (clocks_until_line_boundary c k) \<and> unat (clocks_until_line_boundary c k) \<le> 227 * unat k \<and>
    (\<forall>n. unat n < unat (clocks_until_line_boundary c k) \<longrightarrow> lines_started (snd (chip_tick c n k)) = 0) \<and>
    lines_started (snd (chip_tick c (clocks_until_line_boundary c k) k)) = 1"
proof -
  let ?k = "unat k" and ?h = "unat (total_colour_clocks c) mod 227" and ?d = "unat (clocks_until_line_boundary c k)"
  note d = deadline_value [OF assms(1,2)]
  have lines: "lines_started (snd (chip_tick c n k)) = of_nat (chip_lines ?k (unat n) c)"
    if "chip_room ?k (unat n) c" for n
    using chip_tick_elapse [OF assms(1) that refl refl] by auto
  have h: "?h < 227" by simp
  have k: "0 < ?k" using assms(1) by (simp add: chip_ok_def)
  have few: "chip_lines ?k (unat n) c = 0" if n: "unat n < ?d" for n :: u32
  proof -
    have "unat (carry c) + unat n < (227 - ?h) * ?k" using n d by linarith
    then have "colour_clocks_in ?k c (unat n) < 227 - ?h" by (rule less_mult_imp_div_less)
    then have "?h + colour_clocks_in ?k c (unat n) < 227" by linarith
    then show ?thesis using iffD2 [OF same_line] by (simp add: chip_lines_def line_no_def)
  qed
  have "colour_clocks_in ?k c ?d = 227 - ?h"
    using d k by simp
  then have "chip_lines ?k ?d c = 1"
    using div_mod_step(1) [of "unat (total_colour_clocks c)" "227 - ?h" 227] h
    by (simp add: chip_lines_def line_no_def)
  moreover have "?d \<le> 227 * ?k"
    using d(1) mult_le_mono1 [of "227 - ?h" 227 ?k] diff_le_self [of "(227 - ?h) * ?k" "unat (carry c)"] by linarith
  moreover have "1 \<le> ?d" using d by linarith
  ultimately show ?thesis
    using few lines lines [OF assms(3)] frame_clock.fits_less [OF assms(1,3)] by simp
qed

section \<open>Interrupt level\<close>

definition int_level_of :: "nat \<Rightarrow> u8" where
  "int_level_of b = (if b \<le> 2 then 1 else if b = 3 then 2 else if b \<le> 6 then 3 else if b \<le> 10 then 4
     else if b \<le> 12 then 5 else 6)"

definition int_sources :: "chipset \<Rightarrow> nat set" where
  "int_sources c = {b. b < 14 \<and> bit (intena c) b \<and> bit (intreq c) b}"

lemma takeWhile_rev_upt:
  assumes "m < n" "P m" "\<forall>i. m < i \<and> i < n \<longrightarrow> \<not> P i"
  shows "length (takeWhile (\<lambda>i. \<not> P i) (rev [0..<n])) = n - 1 - m"
  using assms
proof (induction n)
  case (Suc n)
  then show ?case
  proof (cases "m = n")
    case False
    with Suc have "length (takeWhile (\<lambda>i. \<not> P i) (rev [0..<n])) = n - 1 - m" "\<not> P n" by auto
    with False Suc.prems(1) show ?thesis by simp
  qed simp
qed simp

lemma leading_zeros_u16_Max:
  assumes "w \<noteq> 0"
  shows "15 - leading_zeros_u16 w = Max {b. bit w b}"
proof -
  have lt: "b < 16" if "bit w b" for b using bit_imp_le_length [OF that] by simp
  have fin: "finite {b. bit w b}" by (rule finite_subset [of _ "{..<16}"]) (auto dest: lt)
  have ne: "{b. bit w b} \<noteq> {}" using assms by (simp add: word_zero_bits)
  let ?m = "Max {b. bit w b}"
  have m: "bit w ?m" using Max_in [OF fin ne] by simp
  then have lt16: "?m < 16" by (rule lt)
  have above: "\<forall>i. ?m < i \<and> i < 16 \<longrightarrow> \<not> bit w i"
    using Max_ge [OF fin] by (metis mem_Collect_eq not_le)
  have "leading_zeros_u16 w = 16 - 1 - ?m"
    unfolding leading_zeros_u16_def by (rule takeWhile_rev_upt [OF lt16 m above])
  then show ?thesis using lt16 by linarith
qed

text \<open>The interrupt level presented to the CPU is zero when the master enable is off
  or no enabled source is requested, and otherwise the highest level among all enabled and requested
  sources.\<close>

lemma pending_level_is_highest_source:
  "chip_pending_level c =
     (if bit (intena c) INTBIT_INTEN \<and> int_sources c \<noteq> {} then Max (int_level_of ` int_sources c) else 0)"
proof -
  have inten: "(intena c AND 16384 = 0) = (\<not> bit (intena c) 14)"
    using and_single_bit [of 14 "intena c"] by simp
  let ?active = "intena c AND intreq c AND 0x3FFF"
  have m: "(0x3FFF :: u16) = mask 14" by (simp add: mask_eq_exp_minus_1)
  have bits: "{b. bit ?active b} = int_sources c"
    unfolding m int_sources_def by (auto simp: bit_simps)
  have zero: "?active = 0 \<longleftrightarrow> int_sources c = {}"
    unfolding bits [symmetric] by (simp add: word_zero_bits)
  have fin: "finite (int_sources c)" by (simp add: int_sources_def)
  have "mono int_level_of" by (auto intro!: monoI simp: int_level_of_def word_le_nat_alt)
  from mono_Max_commute [OF this fin]
  have lev: "int_sources c \<noteq> {} \<Longrightarrow> Max (int_level_of ` int_sources c) = int_level_of (Max (int_sources c))"
    by (rule sym)
  show ?thesis
  proof (cases "bit (intena c) 14 \<and> int_sources c \<noteq> {}")
    case True
    define M where "M = Max (int_sources c)"
    have "M < 14" using Max_in [OF fin] True by (simp add: int_sources_def M_def)
    moreover have "15 - leading_zeros_u16 ?active = M"
      unfolding M_def bits [symmetric] by (rule leading_zeros_u16_Max) (use zero True in simp)
    ultimately have "chip_pending_level c = int_level_of M"
      using True zero inten by (simp add: chip_pending_level_def int_level_of_def)
    then show ?thesis using True lev by (simp add: M_def)
  next
    case False
    then show ?thesis using zero inten by (auto simp: chip_pending_level_def)
  qed
qed

section \<open>The serial queues\<close>

definition chip_serial_ok :: "chipset \<Rightarrow> bool" where
  "chip_serial_ok c \<longleftrightarrow>
     length (serial_buf c) = 32 \<and> ring_ok (serial_buf c) (serial_head c) (serial_len c) \<and>
     length (serial_in_buf c) = 32 \<and> ring_ok (serial_in_buf c) (serial_in_head c) (serial_in_len c) \<and>
     (serial_in_overrun c \<longrightarrow> serial_in_len c = 32)"

definition rx_items :: "chipset \<Rightarrow> u8 list" where
  "rx_items c = ring_view (serial_in_buf c) (serial_in_head c) (serial_in_len c)"

definition tx_items :: "chipset \<Rightarrow> u8 list" where
  "tx_items c = ring_view (serial_buf c) (serial_head c) (serial_len c)"

text \<open>The receive queue as the host fills it and the guest drains it, through \<open>SERDATR\<close>.\<close>

definition rx_push :: "chipset \<Rightarrow> u8 \<Rightarrow> chipset \<times> bool" where
  "rx_push c b = (chip_push_serial_in_byte c b, chip_serial_in_has_room c)"

definition rx_read :: "chipset \<Rightarrow> chipset \<times> u8 option" where
  "rx_read c = (case chip_read c CHIP_SERDATR of (c', v) \<Rightarrow> (c', if bit v 14 then Some (ucast v) else None))"

text \<open>The transmit queue as the guest fills it, through \<open>SERDAT\<close>, and the host drains it.\<close>

definition tx_push :: "chipset \<Rightarrow> u8 \<Rightarrow> chipset \<times> bool" where
  "tx_push c b = (chip_write c CHIP_SERDAT (ucast b), length (tx_items c) < SERIAL_BUF_CAP)"

lemma length_serial_items [simp]: "length (rx_items c) = serial_in_len c" "length (tx_items c) = serial_len c"
  by (simp_all add: rx_items_def tx_items_def)

lemma chip_new_serial: "chip_serial_ok chip_new" "rx_items chip_new = []" "tx_items chip_new = []"
  by (simp_all add: chip_serial_ok_def chip_new_def ring_ok_def rx_items_def tx_items_def)

lemma rx_push_effect:
  assumes "chip_serial_ok c"
  shows "chip_serial_ok (chip_push_serial_in_byte c b)"
    and "rx_items (chip_push_serial_in_byte c b) = rx_items c @ (if length (rx_items c) < 32 then [b] else [])"
    and "tx_items (chip_push_serial_in_byte c b) = tx_items c"
    and "serial_in_overrun (chip_push_serial_in_byte c b) = (serial_in_overrun c \<or> length (rx_items c) = 32)"
  using assms ring_view_push [of "serial_in_len c" "serial_in_buf c" "serial_in_head c" b]
  by (auto simp: chip_serial_ok_def chip_push_serial_in_byte_def chip_raise_int_def rx_items_def tx_items_def
      ring_ok_def Let_def)

lemma serdatr_bits: "14336 OR 16384 OR w = (30720 :: u16) OR w" "(30720 OR w) OR 32768 = (63488 :: u16) OR w"
proof -
  have "14336 OR 16384 OR w = (14336 OR 16384) OR (w :: u16)"
    "(30720 OR w) OR 32768 = (30720 OR 32768) OR (w :: u16)" by (simp_all only: ac_simps)
  then show "14336 OR 16384 OR w = (30720 :: u16) OR w" "(30720 OR w) OR 32768 = (63488 :: u16) OR w"
    by simp_all
qed

text \<open>A read of \<open>SERDATR\<close> on an empty queue shows the idle line; on a non-empty one it shows the oldest
  byte with RBF, and OVRUN when a byte was dropped since the last read.\<close>

lemma serdatr_read:
  assumes "chip_serial_ok c" "chip_read c CHIP_SERDATR = (c', v)"
  shows "rx_items c = [] \<Longrightarrow> v = 0x3800 \<and> rx_items c' = []"
    and "rx_items c = b # bs \<Longrightarrow> v = (if serial_in_overrun c then 0xF800 else 0x7800) OR ucast b \<and> rx_items c' = bs"
    and "chip_serial_ok c'" "\<not> serial_in_overrun c'" "tx_items c' = tx_items c"
proof -
  have r: "chip_read_serdatr c = (c', v)" using assms(2) by (simp add: chip_read_def)
  have l0: "rx_items c = [] \<longleftrightarrow> serial_in_len c = 0" by (simp add: rx_items_def ring_view_def)
  have pop: "rx_items c = serial_in_buf c ! serial_in_head c #
      ring_view (serial_in_buf c) ((serial_in_head c + 1) mod 32) (serial_in_len c - 1)" if "serial_in_len c \<noteq> 0"
    using that assms(1) ring_view_pop [of "serial_in_len c" "serial_in_head c" "serial_in_buf c"]
    by (simp add: rx_items_def chip_serial_ok_def ring_ok_def)
  show "v = 0x3800 \<and> rx_items c' = []" if "rx_items c = []"
    using that r l0 by (auto simp: chip_read_serdatr_def chip_pop_serial_in_byte_def rx_items_def ring_view_def)
  show "v = (if serial_in_overrun c then 0xF800 else 0x7800) OR ucast b \<and> rx_items c' = bs" if "rx_items c = b # bs"
  proof -
    have nz: "serial_in_len c \<noteq> 0" using that l0 by auto
    with pop that have b: "b = serial_in_buf c ! serial_in_head c"
      "bs = ring_view (serial_in_buf c) ((serial_in_head c + 1) mod 32) (serial_in_len c - 1)" by simp_all
    then show ?thesis
      using r nz by (auto simp: chip_read_serdatr_def chip_pop_serial_in_byte_def rx_items_def Let_def serdatr_bits)
  qed
  show "chip_serial_ok c'" "\<not> serial_in_overrun c'" "tx_items c' = tx_items c"
    using r assms(1)
    by (auto simp: chip_read_serdatr_def chip_pop_serial_in_byte_def chip_serial_ok_def ring_ok_def Let_def
        tx_items_def split: if_splits)
qed

lemma serdatr_decode:
  fixes b :: u8
  shows "bit ((if o' then 0xF800 else 0x7800) OR ucast b :: u16) 14"
    and "ucast ((if o' then 0xF800 else 0x7800) OR ucast b :: u16) = b"
    and "bit ((if o' then 0xF800 else 0x7800) OR ucast b :: u16) 15 = o'" "\<not> bit (0x3800 :: u16) 14"
proof -
  have nb: "\<not> bit b i" if "8 \<le> i" for i using that bit_imp_le_length [of b i] by auto
  have c: "(0xF800 :: u16) = push_bit 11 (mask 5)" "(0x7800 :: u16) = push_bit 11 (mask 4)"
    by (simp_all add: mask_eq_exp_minus_1)
  show "bit ((if o' then 0xF800 else 0x7800) OR ucast b :: u16) 14"
    "bit ((if o' then 0xF800 else 0x7800) OR ucast b :: u16) 15 = o'"
    unfolding c using nb by (simp_all add: bit_simps)
  show "ucast ((if o' then 0xF800 else 0x7800) OR ucast b :: u16) = b"
    unfolding c by (rule bit_word_eqI) (auto simp: bit_simps)
qed simp

interpretation serial_rx: bounded_fifo 32 chip_serial_ok rx_items rx_push rx_read
proof
  fix q :: chipset and x xs
  assume ok: "chip_serial_ok q"
  show "length (rx_items q) \<le> 32" using ok by (simp add: chip_serial_ok_def ring_ok_def)
  note p = rx_push_effect [OF ok, of x]
  show "\<exists>q'. rx_push q x = (q', True) \<and> chip_serial_ok q' \<and> rx_items q' = rx_items q @ [x]"
    if "length (rx_items q) < 32"
    using that p by (simp add: rx_push_def chip_serial_in_has_room_def)
  show "\<exists>q'. rx_push q x = (q', False) \<and> chip_serial_ok q' \<and> rx_items q' = rx_items q"
    if "length (rx_items q) = 32"
    using that p by (simp add: rx_push_def chip_serial_in_has_room_def)
  obtain q' v where r: "chip_read q CHIP_SERDATR = (q', v)" by fastforce
  note s = serdatr_read [OF ok r]
  show "\<exists>q'. rx_read q = (q', None) \<and> chip_serial_ok q' \<and> rx_items q' = []" if "rx_items q = []"
    using that s r serdatr_decode(4) by (simp add: rx_read_def)
  show "\<exists>q'. rx_read q = (q', Some x) \<and> chip_serial_ok q' \<and> rx_items q' = xs" if "rx_items q = x # xs"
    using s(2) [OF that] s(3) r serdatr_decode(1,2) [of "serial_in_overrun q" x] by (simp add: rx_read_def)
qed

lemma tx_push_effect:
  assumes "chip_serial_ok c"
  shows "chip_serial_ok (chip_write c CHIP_SERDAT w)"
    and "tx_items (chip_write c CHIP_SERDAT w) = tx_items c @ (if length (tx_items c) < 32 then [ucast w] else [])"
    and "bit (intreq (chip_write c CHIP_SERDAT w)) INTBIT_TBE"
proof -
  have w: "chip_write c CHIP_SERDAT w = chip_raise_int (chip_push_serial_byte (c\<lparr>serdat := w\<rparr>) (ucast w)) 0"
    by (simp add: chip_write_def)
  show "chip_serial_ok (chip_write c CHIP_SERDAT w)"
    "tx_items (chip_write c CHIP_SERDAT w) = tx_items c @ (if length (tx_items c) < 32 then [ucast w] else [])"
    unfolding w using assms ring_view_push [of "serial_len c" "serial_buf c" "serial_head c" "ucast w"]
    by (auto simp: chip_serial_ok_def chip_push_serial_byte_def chip_raise_int_def tx_items_def ring_ok_def Let_def)
  show "bit (intreq (chip_write c CHIP_SERDAT w)) INTBIT_TBE"
    unfolding w by (simp add: chip_raise_int_def bit_or_iff)
qed

interpretation serial_tx: bounded_fifo 32 chip_serial_ok tx_items tx_push chip_take_serial_byte
proof
  fix q :: chipset and x :: u8 and xs
  assume ok: "chip_serial_ok q"
  show "length (tx_items q) \<le> 32" using ok by (simp add: chip_serial_ok_def ring_ok_def)
  note p = tx_push_effect [OF ok, of "ucast x"]
  have x: "ucast (ucast x :: u16) = x" by (rule bit_word_eqI) (simp add: bit_simps)
  show "\<exists>q'. tx_push q x = (q', True) \<and> chip_serial_ok q' \<and> tx_items q' = tx_items q @ [x]"
    if "length (tx_items q) < 32"
    using that p x by (simp add: tx_push_def del: CHIP_SERDAT_def)
  show "\<exists>q'. tx_push q x = (q', False) \<and> chip_serial_ok q' \<and> tx_items q' = tx_items q"
    if "length (tx_items q) = 32"
    using that p by (simp add: tx_push_def del: CHIP_SERDAT_def)
  have l0: "tx_items q = [] \<longleftrightarrow> serial_len q = 0" by (simp add: tx_items_def ring_view_def)
  show "\<exists>q'. chip_take_serial_byte q = (q', None) \<and> chip_serial_ok q' \<and> tx_items q' = []" if "tx_items q = []"
    using that ok l0 by (auto simp: chip_take_serial_byte_def)
  show "\<exists>q'. chip_take_serial_byte q = (q', Some x) \<and> chip_serial_ok q' \<and> tx_items q' = xs" if "tx_items q = x # xs"
  proof -
    have nz: "0 < serial_len q" using that l0 by (metis list.distinct(1) neq0_conv)
    have "serial_head q < length (serial_buf q)" using ok by (simp add: chip_serial_ok_def ring_ok_def)
    from ring_view_pop [OF nz this] that ok
    have "x = serial_buf q ! serial_head q" "xs = ring_view (serial_buf q) ((serial_head q + 1) mod 32) (serial_len q - 1)"
      by (simp_all add: tx_items_def chip_serial_ok_def)
    then show ?thesis
      using nz ok by (auto simp: chip_take_serial_byte_def tx_items_def chip_serial_ok_def ring_ok_def Let_def)
  qed
qed

text \<open>The serial port loses nothing it accepted, in either direction: in any run of
  host pushes and guest reads of SERDATR the bytes delivered are the bytes accepted, in order, up to
  those still queued; likewise for guest writes of SERDAT and the host's drain.\<close>

lemma serial_port_lossless:
  "(fifo_run rx_push rx_read chip_new ops = (c, acc, out) \<longrightarrow> acc = out @ rx_items c) \<and>
   (fifo_run tx_push chip_take_serial_byte chip_new ops = (c, acc, out) \<longrightarrow> acc = out @ tx_items c)"
  using serial_rx.run_conserves [OF chip_new_serial(1), of ops c acc out]
    serial_tx.run_conserves [OF chip_new_serial(1), of ops c acc out] chip_new_serial(2,3)
  by simp

text \<open>A byte dropped because the receive queue was full is always reported: the overrun
  flag is only ever set while the queue is full, so the guest's next SERDATR read carries a byte and
  the OVRUN bit, and only that read does.\<close>

lemma serial_overrun_reported:
  assumes "chip_serial_ok c" "chip_push_serial_in_byte c b = c1" "length (rx_items c) = SERIAL_IN_BUF_CAP"
    and "chip_read c1 CHIP_SERDATR = (c2, v)" "chip_read c2 CHIP_SERDATR = (c3, v')"
  shows "rx_items c1 = rx_items c \<and> bit v 15 \<and> bit v 14 \<and> ucast v = hd (rx_items c) \<and> bit v' 14 \<and> \<not> bit v' 15"
proof -
  note p = rx_push_effect [OF assms(1), of b, unfolded assms(2)]
  have i: "rx_items c1 = rx_items c" "serial_in_overrun c1" using p(2,4) assms(3) by simp_all
  obtain x y ys where xs: "rx_items c = x # y # ys"
    using assms(3) by (cases "rx_items c"; cases "tl (rx_items c)") (auto simp del: length_serial_items)
  note r1 = serdatr_read [OF p(1) assms(4)]
  have v: "v = 0xF800 OR ucast x" "rx_items c2 = y # ys"
    using r1(2) [of x "y # ys"] i xs by simp_all
  have v': "v' = 0x7800 OR ucast y"
    using serdatr_read(2) [OF r1(3) assms(5) v(2)] r1(4) by simp
  show ?thesis
    using i xs v v' serdatr_decode(1-3) [of True x] serdatr_decode(1-3) [of False y] by simp
qed

section \<open>Witnesses\<close>

lemma chip_new_ok: "0 < k \<Longrightarrow> k < 2 ^ 32 \<Longrightarrow> chip_ok k chip_new"
  by (simp add: chip_ok_def chip_new_def ring_ok_def)

lemma chip_new_room: "n < 2 ^ 32 \<Longrightarrow> chip_room 2 n chip_new"
  using div_le_dividend [of n 2] by (simp add: chip_room_def chip_new_def)

theorem chipset_tick_batching_witness:
  "(fst (chip_tick_all 2 [300, 400] chip_new))\<lparr>coarse_tick_streak := 0\<rparr> =
     (fst (chip_tick chip_new 700 2))\<lparr>coarse_tick_streak := 0\<rparr> \<and>
   chip_ok 2 chip_new \<and> chip_room 2 700 chip_new"
proof -
  obtain c1 l f where 1: "chip_tick_all 2 [300, 400] chip_new = (c1, l, f)" by (metis prod_cases3)
  obtain c2 b where 2: "chip_tick chip_new 700 2 = (c2, b)" by fastforce
  show ?thesis
    using chipset_tick_batching [of 2 chip_new "[300, 400]" 700 c1 l f c2 b] 1 2 chip_new_ok [of 2] chip_new_room [of 700]
    by simp
qed

theorem line_deadline_exact_witness:
  "unat (clocks_until_line_boundary chip_new 2) = 454 \<and>
   lines_started (snd (chip_tick chip_new (clocks_until_line_boundary chip_new 2) 2)) = 1 \<and>
   lines_started (snd (chip_tick chip_new 453 2)) = 0"
proof -
  have d: "clocks_until_line_boundary chip_new 2 = 454"
    by (simp add: clocks_until_line_boundary_def chip_hpos_def chip_new_def)
  show ?thesis
    using line_deadline_exact [of 2 chip_new] chip_new_ok [of 2] chip_new_room [of 454] unfolding d by simp
qed

theorem serial_port_lossless_witness:
  "\<exists>c acc out. fifo_run rx_push rx_read chip_new [Push 0x41, Push 0x42, Pop] = (c, acc, out) \<and> acc = out @ rx_items c"
  using serial_port_lossless [of "[Push 0x41, Push 0x42, Pop]"] by (metis prod_cases3)

text \<open>A receive queue filled with 32 zero bytes.\<close>

definition chip_rx_full :: chipset where
  "chip_rx_full = chip_new\<lparr>serial_in_len := 32\<rparr>"

theorem serial_overrun_reported_witness:
  "\<exists>c2 v. chip_read (chip_push_serial_in_byte chip_rx_full 0x41) CHIP_SERDATR = (c2, v) \<and> bit v 15 \<and> bit v 14"
proof -
  have ok: "chip_serial_ok chip_rx_full" and l: "length (rx_items chip_rx_full) = SERIAL_IN_BUF_CAP"
    by (simp_all add: chip_serial_ok_def chip_rx_full_def chip_new_def ring_ok_def)
  obtain c2 v where 2: "chip_read (chip_push_serial_in_byte chip_rx_full 0x41) CHIP_SERDATR = (c2, v)" by fastforce
  obtain c3 v' where 3: "chip_read c2 CHIP_SERDATR = (c3, v')" by fastforce
  show ?thesis
    using serial_overrun_reported [OF ok refl l 2 3] 2 by (intro exI [of _ c2] exI [of _ v]) simp
qed

end
