(* ===== verification/Cia.thy ===== *)
theory Cia
  imports Ring Clocks
begin

text \<open>
  The two 8520 CIAs of \<open>crates/machine-core/src/cia.rs\<close> and the floppy drive status pins modelled in the
  same file: interval timers with one-shot and cascade modes, the time-of-day counter with its
  alarm and read latch, the interrupt control register, and the keyboard handshake on CIA-A. Shown:
  the idle shortcut is the loop it replaces, ticking in batches is exact, the event deadline is exact
  (no interrupt source fires before it, one fires at it), the timer period, a coherent time-of-day
  snapshot, lossless keyboard delivery, and the bounds and pin levels of the drive.
\<close>

section \<open>Constants\<close>

(* src/crates/machine-core/src/cia.rs:22-22 reg::PRA *)
definition CIA_PRA :: u8 where [simp]: "CIA_PRA = 0x0"
(* src/crates/machine-core/src/cia.rs:23-23 reg::PRB *)
definition CIA_PRB :: u8 where [simp]: "CIA_PRB = 0x1"
(* src/crates/machine-core/src/cia.rs:24-24 reg::DDRA *)
definition CIA_DDRA :: u8 where [simp]: "CIA_DDRA = 0x2"
(* src/crates/machine-core/src/cia.rs:25-25 reg::DDRB *)
definition CIA_DDRB :: u8 where [simp]: "CIA_DDRB = 0x3"
(* src/crates/machine-core/src/cia.rs:26-26 reg::TALO *)
definition CIA_TALO :: u8 where [simp]: "CIA_TALO = 0x4"
(* src/crates/machine-core/src/cia.rs:27-27 reg::TAHI *)
definition CIA_TAHI :: u8 where [simp]: "CIA_TAHI = 0x5"
(* src/crates/machine-core/src/cia.rs:28-28 reg::TBLO *)
definition CIA_TBLO :: u8 where [simp]: "CIA_TBLO = 0x6"
(* src/crates/machine-core/src/cia.rs:29-29 reg::TBHI *)
definition CIA_TBHI :: u8 where [simp]: "CIA_TBHI = 0x7"
(* src/crates/machine-core/src/cia.rs:30-30 reg::TODLO *)
definition CIA_TODLO :: u8 where [simp]: "CIA_TODLO = 0x8"
(* src/crates/machine-core/src/cia.rs:31-31 reg::TODMID *)
definition CIA_TODMID :: u8 where [simp]: "CIA_TODMID = 0x9"
(* src/crates/machine-core/src/cia.rs:32-32 reg::TODHI *)
definition CIA_TODHI :: u8 where [simp]: "CIA_TODHI = 0xA"
(* src/crates/machine-core/src/cia.rs:33-33 reg::SDR *)
definition CIA_SDR :: u8 where [simp]: "CIA_SDR = 0xC"
(* src/crates/machine-core/src/cia.rs:34-34 reg::ICR *)
definition CIA_ICR :: u8 where [simp]: "CIA_ICR = 0xD"
(* src/crates/machine-core/src/cia.rs:35-35 reg::CRA *)
definition CIA_CRA :: u8 where [simp]: "CIA_CRA = 0xE"
(* src/crates/machine-core/src/cia.rs:36-36 reg::CRB *)
definition CIA_CRB :: u8 where [simp]: "CIA_CRB = 0xF"
(* src/crates/machine-core/src/cia.rs:41-41 icr::TA *)
definition ICR_TA :: nat where [simp]: "ICR_TA = 0"
(* src/crates/machine-core/src/cia.rs:42-42 icr::TB *)
definition ICR_TB :: nat where [simp]: "ICR_TB = 1"
(* src/crates/machine-core/src/cia.rs:43-43 icr::ALRM *)
definition ICR_ALRM :: nat where [simp]: "ICR_ALRM = 2"
(* src/crates/machine-core/src/cia.rs:44-44 icr::SP *)
definition ICR_SP :: nat where [simp]: "ICR_SP = 3"
(* src/crates/machine-core/src/cia.rs:45-45 icr::FLG *)
definition ICR_FLG :: nat where [simp]: "ICR_FLG = 4"
(* src/crates/machine-core/src/cia.rs:47-47 icr::IR *)
definition ICR_IR :: nat where [simp]: "ICR_IR = 7"
(* src/crates/machine-core/src/cia.rs:49-49 icr::SETCLR *)
definition ICR_SETCLR :: nat where [simp]: "ICR_SETCLR = 7"
(* src/crates/machine-core/src/cia.rs:58-58 CRA_START *)
definition CRA_START :: u8 where [simp]: "CRA_START = 0x01"
(* src/crates/machine-core/src/cia.rs:59-59 CRA_RUNMODE *)
definition CRA_RUNMODE :: u8 where [simp]: "CRA_RUNMODE = 0x08"
(* src/crates/machine-core/src/cia.rs:60-60 CRA_LOAD *)
definition CRA_LOAD :: u8 where [simp]: "CRA_LOAD = 0x10"
(* src/crates/machine-core/src/cia.rs:64-64 CRA_INMODE *)
definition CRA_INMODE :: u8 where [simp]: "CRA_INMODE = 0x20"
(* src/crates/machine-core/src/cia.rs:68-68 CRA_SPMODE *)
definition CRA_SPMODE :: u8 where [simp]: "CRA_SPMODE = 0x40"
(* src/crates/machine-core/src/cia.rs:70-70 CRB_START *)
definition CRB_START :: u8 where [simp]: "CRB_START = 0x01"
(* src/crates/machine-core/src/cia.rs:71-71 CRB_RUNMODE *)
definition CRB_RUNMODE :: u8 where [simp]: "CRB_RUNMODE = 0x08"
(* src/crates/machine-core/src/cia.rs:72-72 CRB_LOAD *)
definition CRB_LOAD :: u8 where [simp]: "CRB_LOAD = 0x10"
(* src/crates/machine-core/src/cia.rs:79-79 CRB_INMODE_MASK *)
definition CRB_INMODE_MASK :: u8 where [simp]: "CRB_INMODE_MASK = 0x60"
(* src/crates/machine-core/src/cia.rs:80-80 CRB_INMODE_SHIFT *)
definition CRB_INMODE_SHIFT :: nat where [simp]: "CRB_INMODE_SHIFT = 5"
(* src/crates/machine-core/src/cia.rs:83-83 CRB_ALARM *)
definition CRB_ALARM :: u8 where [simp]: "CRB_ALARM = 0x80"
(* src/crates/machine-core/src/cia.rs:85-86 E_CLOCK_HZ *)
definition E_CLOCK_HZ :: u32 where [simp]: "E_CLOCK_HZ = 709379"
(* src/crates/machine-core/src/cia.rs:88-96 KEYBOARD_HANDSHAKE_TICKS *)
definition KEYBOARD_HANDSHAKE_TICKS :: u16 where [simp]: "KEYBOARD_HANDSHAKE_TICKS = ucast (E_CLOCK_HZ div 1000)"
(* src/crates/machine-core/src/cia.rs:177-177 KEYBOARD_QUEUE_LEN *)
definition KEYBOARD_QUEUE_LEN :: nat where [simp]: "KEYBOARD_QUEUE_LEN = 16"

section \<open>State\<close>

(* src/crates/machine-core/src/cia.rs:98-105 CiaId *)
datatype cia_id = CiaA | CiaB

(* src/crates/machine-core/src/cia.rs:107-175 Cia *)
record cia =
  cia_id :: cia_id
  cia_pra :: u8
  cia_prb :: u8
  cia_ddra :: u8
  cia_ddrb :: u8
  cia_pra_input :: u8
  cia_prb_input :: u8
  cia_timer_a :: u16
  cia_timer_b :: u16
  cia_latch_a :: u16
  cia_latch_b :: u16
  cia_cra :: u8
  cia_crb :: u8
  cia_tod :: u32
  cia_tod_alarm :: u32
  cia_tod_latched :: "u32 option"
  cia_tod_stopped :: bool
  cia_tod_matching :: bool
  cia_icr_mask :: u8
  cia_icr_data :: u8
  cia_sdr :: u8
  cia_keyboard_queue :: "u8 list"
  cia_keyboard_head :: nat
  cia_keyboard_len :: nat
  cia_kbd_delay :: u16
  cia_kbd_loaded :: bool
  cia_carry :: u32

section \<open>Operations\<close>

(* src/crates/machine-core/src/cia.rs:180-215 Cia::new *)
definition cia_new :: "cia_id \<Rightarrow> cia" where
  "cia_new ident = \<lparr>cia_id = ident, cia_pra = (if ident = CiaA then 0x01 else 0x00), cia_prb = 0, cia_ddra = 0,
     cia_ddrb = 0, cia_pra_input = 0xFF, cia_prb_input = 0xFF, cia_timer_a = 0xFFFF, cia_timer_b = 0xFFFF,
     cia_latch_a = 0xFFFF, cia_latch_b = 0xFFFF, cia_cra = 0, cia_crb = 0, cia_tod = 0, cia_tod_alarm = 0,
     cia_tod_latched = None, cia_tod_stopped = False, cia_tod_matching = True, cia_icr_mask = 0,
     cia_icr_data = 0, cia_sdr = 0, cia_keyboard_queue = replicate KEYBOARD_QUEUE_LEN 0,
     cia_keyboard_head = 0, cia_keyboard_len = 0, cia_kbd_delay = 0, cia_kbd_loaded = False, cia_carry = 0\<rparr>"

(* src/crates/machine-core/src/cia.rs:217-222 Cia::ovl_asserted *)
definition cia_ovl_asserted :: "cia \<Rightarrow> bool" where
  "cia_ovl_asserted c \<longleftrightarrow> cia_id c = CiaA \<and> cia_pra c AND 0x01 \<noteq> 0"

(* src/crates/machine-core/src/cia.rs:337-340 Cia::raise *)
definition cia_raise :: "cia \<Rightarrow> nat \<Rightarrow> cia" where
  "cia_raise c b = c\<lparr>cia_icr_data := cia_icr_data c OR push_bit b 1\<rparr>"

(* src/crates/machine-core/src/cia.rs:342-345 Cia::irq_pending *)
definition cia_irq_pending :: "cia \<Rightarrow> bool" where
  "cia_irq_pending c \<longleftrightarrow> cia_icr_data c AND cia_icr_mask c \<noteq> 0"

(* src/crates/machine-core/src/cia.rs:603-612 Cia::check_tod_alarm *)
definition cia_check_tod_alarm :: "cia \<Rightarrow> cia" where
  "cia_check_tod_alarm c =
     (let equal = (cia_tod c = cia_tod_alarm c);
          c1 = (if equal \<and> \<not> cia_tod_matching c then cia_raise c ICR_ALRM else c)
      in c1\<lparr>cia_tod_matching := equal\<rparr>)"

(* src/crates/machine-core/src/cia.rs:556-574 Cia::read_tod *)
definition cia_read_tod :: "cia \<Rightarrow> u8 \<Rightarrow> cia \<times> u8" where
  "cia_read_tod c reg =
     (let c1 = (if reg = CIA_TODHI \<and> cia_tod_latched c = None then c\<lparr>cia_tod_latched := Some (cia_tod c)\<rparr> else c);
          value = (case cia_tod_latched c1 of Some v \<Rightarrow> v | None \<Rightarrow> cia_tod c1);
          byte = (if reg = CIA_TODLO then ucast value
                  else if reg = CIA_TODMID then ucast (drop_bit 8 value)
                  else if reg = CIA_TODHI then ucast (drop_bit 16 value)
                  else 0);
          c2 = (if reg = CIA_TODLO then c1\<lparr>cia_tod_latched := None\<rparr> else c1)
      in (c2, byte))"

(* src/crates/machine-core/src/cia.rs:578-583 Cia::write_tod *)
definition tod_insert :: "u32 \<Rightarrow> u8 \<Rightarrow> u8 \<Rightarrow> u32" where
  "tod_insert t reg value =
     (if reg = CIA_TODLO then (t AND 0xFFFF00) OR ucast value
      else if reg = CIA_TODMID then (t AND 0xFF00FF) OR push_bit 8 (ucast value)
      else if reg = CIA_TODHI then (t AND 0x00FFFF) OR push_bit 16 (ucast value)
      else t)"

(* src/crates/machine-core/src/cia.rs:576-601 Cia::write_tod *)
definition cia_write_tod :: "cia \<Rightarrow> u8 \<Rightarrow> u8 \<Rightarrow> cia" where
  "cia_write_tod c reg value =
     cia_check_tod_alarm
       (if cia_crb c AND CRB_ALARM \<noteq> 0 then c\<lparr>cia_tod_alarm := tod_insert (cia_tod_alarm c) reg value\<rparr>
        else
          let c1 = c\<lparr>cia_tod := tod_insert (cia_tod c) reg value\<rparr>
          in if reg = CIA_TODHI then c1\<lparr>cia_tod_stopped := True\<rparr>
             else if reg = CIA_TODLO then c1\<lparr>cia_tod_stopped := False\<rparr>
             else c1)"

(* src/crates/machine-core/src/cia.rs:224-266 Cia::read *)
definition cia_read :: "cia \<Rightarrow> u8 \<Rightarrow> cia \<times> u8" where
  "cia_read c reg0 =
     (let reg = reg0 AND 0x0F in
      if reg = CIA_PRA then (c, (cia_pra c AND cia_ddra c) OR (cia_pra_input c AND NOT (cia_ddra c)))
      else if reg = CIA_PRB then (c, (cia_prb c AND cia_ddrb c) OR (cia_prb_input c AND NOT (cia_ddrb c)))
      else if reg = CIA_DDRA then (c, cia_ddra c)
      else if reg = CIA_DDRB then (c, cia_ddrb c)
      else if reg = CIA_TALO then (c, ucast (cia_timer_a c))
      else if reg = CIA_TAHI then (c, ucast (drop_bit 8 (cia_timer_a c)))
      else if reg = CIA_TBLO then (c, ucast (cia_timer_b c))
      else if reg = CIA_TBHI then (c, ucast (drop_bit 8 (cia_timer_b c)))
      else if reg = CIA_SDR then (c\<lparr>cia_kbd_loaded := False\<rparr>, cia_sdr c)
      else if reg = CIA_ICR then
        let value = (if cia_icr_data c AND cia_icr_mask c \<noteq> 0 then cia_icr_data c OR push_bit ICR_IR 1
                     else cia_icr_data c)
        in (c\<lparr>cia_icr_data := 0\<rparr>, value)
      else if reg = CIA_CRA then (c, cia_cra c)
      else if reg = CIA_CRB then (c, cia_crb c)
      else if reg = CIA_TODLO \<or> reg = CIA_TODMID \<or> reg = CIA_TODHI then cia_read_tod c reg
      else (c, 0xFF))"

(* src/crates/machine-core/src/cia.rs:268-335 Cia::write *)
definition cia_write :: "cia \<Rightarrow> u8 \<Rightarrow> u8 \<Rightarrow> cia" where
  "cia_write c reg0 value =
     (let reg = reg0 AND 0x0F in
      if reg = CIA_PRA then c\<lparr>cia_pra := value\<rparr>
      else if reg = CIA_PRB then c\<lparr>cia_prb := value\<rparr>
      else if reg = CIA_DDRA then c\<lparr>cia_ddra := value\<rparr>
      else if reg = CIA_DDRB then c\<lparr>cia_ddrb := value\<rparr>
      else if reg = CIA_TALO then c\<lparr>cia_latch_a := (cia_latch_a c AND 0xFF00) OR ucast value\<rparr>
      else if reg = CIA_TAHI then
        let c1 = c\<lparr>cia_latch_a := (cia_latch_a c AND 0x00FF) OR push_bit 8 (ucast value)\<rparr>
        in if cia_cra c1 AND CRA_RUNMODE \<noteq> 0 then
             c1\<lparr>cia_timer_a := cia_latch_a c1, cia_cra := cia_cra c1 OR CRA_START\<rparr>
           else if cia_cra c1 AND CRA_START = 0 then c1\<lparr>cia_timer_a := cia_latch_a c1\<rparr>
           else c1
      else if reg = CIA_TBLO then c\<lparr>cia_latch_b := (cia_latch_b c AND 0xFF00) OR ucast value\<rparr>
      else if reg = CIA_TBHI then
        let c1 = c\<lparr>cia_latch_b := (cia_latch_b c AND 0x00FF) OR push_bit 8 (ucast value)\<rparr>
        in if cia_crb c1 AND CRB_RUNMODE \<noteq> 0 then
             c1\<lparr>cia_timer_b := cia_latch_b c1, cia_crb := cia_crb c1 OR CRB_START\<rparr>
           else if cia_crb c1 AND CRB_START = 0 then c1\<lparr>cia_timer_b := cia_latch_b c1\<rparr>
           else c1
      else if reg = CIA_SDR then c\<lparr>cia_sdr := value\<rparr>
      else if reg = CIA_ICR then
        let bits = value AND 0x1F
        in if value AND push_bit ICR_SETCLR 1 \<noteq> 0 then c\<lparr>cia_icr_mask := cia_icr_mask c OR bits\<rparr>
           else c\<lparr>cia_icr_mask := cia_icr_mask c AND NOT bits\<rparr>
      else if reg = CIA_CRA then
        let c1 = c\<lparr>cia_cra := value AND NOT CRA_LOAD\<rparr>
        in if value AND CRA_LOAD \<noteq> 0 then c1\<lparr>cia_timer_a := cia_latch_a c1\<rparr> else c1
      else if reg = CIA_CRB then
        let c1 = c\<lparr>cia_crb := value AND NOT CRB_LOAD\<rparr>
        in if value AND CRB_LOAD \<noteq> 0 then c1\<lparr>cia_timer_b := cia_latch_b c1\<rparr> else c1
      else if reg = CIA_TODLO \<or> reg = CIA_TODMID \<or> reg = CIA_TODHI then cia_write_tod c reg value
      else c)"

(* src/crates/machine-core/src/cia.rs:347-356 Cia::queue_keycode *)
definition cia_queue_keycode :: "cia \<Rightarrow> u8 \<Rightarrow> cia" where
  "cia_queue_keycode c raw =
     (if cia_keyboard_len c < KEYBOARD_QUEUE_LEN then
        let tail = (cia_keyboard_head c + cia_keyboard_len c) mod KEYBOARD_QUEUE_LEN
        in c\<lparr>cia_keyboard_queue := (cia_keyboard_queue c)[tail := raw],
             cia_keyboard_len := cia_keyboard_len c + 1\<rparr>
      else c)"

(* src/crates/machine-core/src/cia.rs:358-367 Cia::next_keycode *)
definition cia_next_keycode :: "cia \<Rightarrow> cia \<times> u8 option" where
  "cia_next_keycode c =
     (if cia_keyboard_len c = 0 then (c, None)
      else
        let value = cia_keyboard_queue c ! cia_keyboard_head c
        in (c\<lparr>cia_keyboard_head := (cia_keyboard_head c + 1) mod KEYBOARD_QUEUE_LEN,
              cia_keyboard_len := cia_keyboard_len c - 1\<rparr>, Some value))"

(* src/crates/machine-core/src/cia.rs:369-379 Cia::tod_tick *)
definition cia_tod_tick :: "cia \<Rightarrow> cia" where
  "cia_tod_tick c =
     (if cia_tod_stopped c then c
      else cia_check_tod_alarm (c\<lparr>cia_tod := (cia_tod c + 1) AND 0x00FFFFFF\<rparr>))"

(* src/crates/machine-core/src/cia.rs:615-629 step_timer *)
definition step_timer :: "u16 \<Rightarrow> u16 \<Rightarrow> u16 \<times> bool" where
  "step_timer count latch = (if count = 0 then (latch, True) else (count - 1, False))"

(* src/crates/machine-core/src/cia.rs:631-639 encode_keyboard_byte *)
definition encode_keyboard_byte :: "u8 \<Rightarrow> u8" where
  "encode_keyboard_byte raw = NOT (word_rotl 1 raw)"

(* src/crates/machine-core/src/cia.rs:530-554 Cia::tick_keyboard *)
definition cia_tick_keyboard :: "cia \<Rightarrow> cia" where
  "cia_tick_keyboard c =
     (let input_mode = (cia_cra c AND CRA_SPMODE = 0) in
      if \<not> input_mode then c
      else
        let c1 = (if cia_kbd_delay c = 0 \<and> \<not> cia_kbd_loaded c \<and> cia_keyboard_len c > 0
                  then c\<lparr>cia_kbd_delay := KEYBOARD_HANDSHAKE_TICKS\<rparr> else c) in
        if cia_kbd_delay c1 > 0 then
          let c2 = c1\<lparr>cia_kbd_delay := cia_kbd_delay c1 - 1\<rparr> in
          if cia_kbd_delay c2 = 0 then
            (case cia_next_keycode c2 of
               (c3, Some raw) \<Rightarrow>
                 cia_raise (c3\<lparr>cia_sdr := encode_keyboard_byte raw, cia_kbd_loaded := True\<rparr>) ICR_SP
             | (c3, None) \<Rightarrow> c3)
          else c2
        else c1)"

(* src/crates/machine-core/src/cia.rs:497-506 Cia::tick_one_eclock *)
definition cia_step_ta :: "cia \<Rightarrow> cia \<times> bool" where
  "cia_step_ta c =
     (if cia_cra c AND CRA_START \<noteq> 0 \<and> cia_cra c AND CRA_INMODE = 0 then
        let (t, ta_underflow) = step_timer (cia_timer_a c) (cia_latch_a c);
            c1 = c\<lparr>cia_timer_a := t\<rparr>
        in if ta_underflow then
             let c2 = cia_raise c1 ICR_TA
             in (if cia_cra c2 AND CRA_RUNMODE \<noteq> 0 then c2\<lparr>cia_cra := cia_cra c2 AND NOT CRA_START\<rparr> else c2, True)
           else (c1, False)
      else (c, False))"

text \<open>The two-bit input mode of timer B, and whether the timer counts on this E-clock.\<close>

(* src/crates/machine-core/src/cia.rs:508-508 Cia::tick_one_eclock *)
definition crb_inmode :: "cia \<Rightarrow> u8" where
  "crb_inmode c = drop_bit CRB_INMODE_SHIFT (cia_crb c AND CRB_INMODE_MASK)"

(* src/crates/machine-core/src/cia.rs:509-523 Cia::tick_one_eclock *)
definition cia_step_tb :: "cia \<Rightarrow> bool \<Rightarrow> cia" where
  "cia_step_tb c ta_underflow =
     (let tb_counts_this_tick = (if crb_inmode c = 0 then True else if crb_inmode c = 1 then False else ta_underflow) in
      if cia_crb c AND CRB_START \<noteq> 0 \<and> tb_counts_this_tick then
        let (t, tb_underflow) = step_timer (cia_timer_b c) (cia_latch_b c);
            c1 = c\<lparr>cia_timer_b := t\<rparr>
        in if tb_underflow then
             let c2 = cia_raise c1 ICR_TB
             in if cia_crb c2 AND CRB_RUNMODE \<noteq> 0 then c2\<lparr>cia_crb := cia_crb c2 AND NOT CRB_START\<rparr> else c2
           else c1
      else c)"

(* src/crates/machine-core/src/cia.rs:496-528 Cia::tick_one_eclock *)
definition cia_tick_one_eclock :: "cia \<Rightarrow> cia" where
  "cia_tick_one_eclock c =
     (let (c1, ta_underflow) = cia_step_ta c;
          c2 = cia_step_tb c1 ta_underflow
      in if cia_id c2 = CiaA then cia_tick_keyboard c2 else c2)"

(* src/crates/machine-core/src/cia.rs:472-494 Cia::is_idle *)
definition cia_is_idle :: "cia \<Rightarrow> bool" where
  "cia_is_idle c \<longleftrightarrow> cia_cra c AND CRA_START = 0 \<and> cia_crb c AND CRB_START = 0 \<and> cia_keyboard_len c = 0 \<and>
     cia_kbd_delay c = 0"

fun cia_eclock_loop :: "nat \<Rightarrow> cia \<Rightarrow> cia" where
  "cia_eclock_loop 0 c = c"
| "cia_eclock_loop (Suc n) c = cia_eclock_loop n (cia_tick_one_eclock c)"

(* src/crates/machine-core/src/cia.rs:453-470 Cia::tick_eclock *)
definition cia_tick_eclock :: "cia \<Rightarrow> u32 \<Rightarrow> cia" where
  "cia_tick_eclock c ticks = (if cia_is_idle c then c else cia_eclock_loop (unat ticks) c)"

(* src/crates/machine-core/src/cia.rs:381-391 Cia::tick *)
definition cia_tick :: "cia \<Rightarrow> u32 \<Rightarrow> u32 \<Rightarrow> cia \<times> bool" where
  "cia_tick c cpu_clocks cpu_clocks_per_eclock =
     (let total = cia_carry c + cpu_clocks;
          eclocks = total div cpu_clocks_per_eclock;
          c1 = c\<lparr>cia_carry := total mod cpu_clocks_per_eclock\<rparr>;
          c2 = (if eclocks > 0 then cia_tick_eclock c1 eclocks else c1)
      in (c2, cia_irq_pending c2))"

text \<open>\<open>consider_min\<close>: the minimum of what has been seen so far.\<close>

(* src/crates/machine-core/src/cia.rs:416-421 Cia::clocks_until_event *)
definition consider_min :: "u32 \<Rightarrow> u32 option \<Rightarrow> u32 option" where
  "consider_min v eclocks = Some (case eclocks of Some m \<Rightarrow> min m v | None \<Rightarrow> v)"

(* src/crates/machine-core/src/cia.rs:415-446 Cia::clocks_until_event *)
definition cia_eclocks_until_event :: "cia \<Rightarrow> u32 option" where
  "cia_eclocks_until_event c =
     (let e0 = None;
          e1 = (if cia_cra c AND CRA_START \<noteq> 0 \<and> cia_cra c AND CRA_INMODE = 0
                then consider_min (ucast (cia_timer_a c) + 1) e0 else e0);
          e2 = (if cia_crb c AND CRB_START \<noteq> 0 \<and> crb_inmode c = 0
                then consider_min (ucast (cia_timer_b c) + 1) e1 else e1)
      in if cia_id c = CiaA \<and> cia_cra c AND CRA_SPMODE = 0 then
           if cia_kbd_delay c > 0 then consider_min (ucast (cia_kbd_delay c)) e2
           else if \<not> cia_kbd_loaded c \<and> cia_keyboard_len c > 0 then consider_min (ucast KEYBOARD_HANDSHAKE_TICKS) e2
           else e2
         else e2)"

(* src/crates/machine-core/src/cia.rs:393-451 Cia::clocks_until_event *)
definition cia_clocks_until_event :: "cia \<Rightarrow> u32 \<Rightarrow> u32 option" where
  "cia_clocks_until_event c cpu_clocks_per_eclock =
     (case cia_eclocks_until_event c of
        None \<Rightarrow> None
      | Some eclocks \<Rightarrow>
          let total = ucast eclocks * ucast cpu_clocks_per_eclock :: u64;
              cy = ucast (cia_carry c) :: u64
          in Some (ucast (if cy \<le> total then total - cy else 0)))"

section \<open>The floppy drive's status pins\<close>

(* src/crates/machine-core/src/cia.rs:665-665 CIAB_DSKSTEP *)
definition CIAB_DSKSTEP :: u8 where [simp]: "CIAB_DSKSTEP = 0x01"
(* src/crates/machine-core/src/cia.rs:669-669 CIAB_DSKDIREC *)
definition CIAB_DSKDIREC :: u8 where [simp]: "CIAB_DSKDIREC = 0x02"
(* src/crates/machine-core/src/cia.rs:673-673 CIAB_DSKSEL0 *)
definition CIAB_DSKSEL0 :: u8 where [simp]: "CIAB_DSKSEL0 = 0x08"
(* src/crates/machine-core/src/cia.rs:675-675 CIAB_DSKMOTOR *)
definition CIAB_DSKMOTOR :: u8 where [simp]: "CIAB_DSKMOTOR = 0x80"
(* src/crates/machine-core/src/cia.rs:677-677 CIAA_DSKCHANGE *)
definition CIAA_DSKCHANGE :: u8 where [simp]: "CIAA_DSKCHANGE = 0x04"
(* src/crates/machine-core/src/cia.rs:678-678 CIAA_DSKPROT *)
definition CIAA_DSKPROT :: u8 where [simp]: "CIAA_DSKPROT = 0x08"
(* src/crates/machine-core/src/cia.rs:679-679 CIAA_DSKTRACK0 *)
definition CIAA_DSKTRACK0 :: u8 where [simp]: "CIAA_DSKTRACK0 = 0x10"
(* src/crates/machine-core/src/cia.rs:680-680 CIAA_DSKRDY *)
definition CIAA_DSKRDY :: u8 where [simp]: "CIAA_DSKRDY = 0x20"
(* src/crates/machine-core/src/cia.rs:681-684 FLOPPY_PRA_MASK *)
definition FLOPPY_PRA_MASK :: u8 where [simp]:
  "FLOPPY_PRA_MASK = CIAA_DSKCHANGE OR CIAA_DSKPROT OR CIAA_DSKTRACK0 OR CIAA_DSKRDY"
(* src/crates/machine-core/src/cia.rs:686-687 MAX_CYLINDER *)
definition MAX_CYLINDER :: u8 where [simp]: "MAX_CYLINDER = 79"

(* src/crates/machine-core/src/cia.rs:689-706 FloppyPresence *)
datatype floppy_presence = NoDrive | EmptyDrive

(* src/crates/machine-core/src/cia.rs:708-720 FloppyPresence::drive_id *)
definition drive_id :: "floppy_presence \<Rightarrow> u32" where
  "drive_id p = (case p of NoDrive \<Rightarrow> 0x00000000 | EmptyDrive \<Rightarrow> 0xFFFFFFFF)"

(* src/crates/machine-core/src/cia.rs:722-749 FloppyDrive *)
record floppy_drive =
  fd_presence :: floppy_presence
  fd_motor_on :: bool
  fd_selected :: bool
  fd_cylinder :: u8
  fd_id_mode :: bool
  fd_id_bit :: u8
  fd_id_hold_first_edge :: bool

(* src/crates/machine-core/src/cia.rs:752-762 FloppyDrive::new *)
definition fd_new :: "floppy_presence \<Rightarrow> floppy_drive" where
  "fd_new p = \<lparr>fd_presence = p, fd_motor_on = False, fd_selected = False, fd_cylinder = 0,
     fd_id_mode = False, fd_id_bit = 0, fd_id_hold_first_edge = False\<rparr>"

text \<open>\<open>u8::saturating_add\<close> and \<open>u8::saturating_sub\<close>.\<close>

definition sat_add_u8 :: "u8 \<Rightarrow> u8 \<Rightarrow> u8" where
  "sat_add_u8 a b = (if unat a + unat b < 2 ^ 8 then a + b else 0xFF)"

definition sat_sub_u8 :: "u8 \<Rightarrow> u8 \<Rightarrow> u8" where
  "sat_sub_u8 a b = (if b \<le> a then a - b else 0)"

(* src/crates/machine-core/src/cia.rs:777-805 FloppyDrive::on_prb_write *)
definition fd_select_edge :: "floppy_drive \<Rightarrow> u8 \<Rightarrow> u8 \<Rightarrow> floppy_drive" where
  "fd_select_edge f prev val =
     (let was_selected = (prev AND CIAB_DSKSEL0 = 0);
          selected = (val AND CIAB_DSKSEL0 = 0);
          f0 = f\<lparr>fd_selected := selected\<rparr>
      in if \<not> was_selected \<and> selected then
           let motor_next = (prev AND CIAB_DSKMOTOR = 0 \<or> val AND CIAB_DSKMOTOR = 0);
               f1 = (if motor_next then f0\<lparr>fd_id_mode := False, fd_id_bit := 0\<rparr>
                     else if fd_motor_on f0 then
                       f0\<lparr>fd_id_mode := True, fd_id_bit := 0, fd_id_hold_first_edge := True\<rparr>
                     else f0)
           in f1\<lparr>fd_motor_on := motor_next\<rparr>
         else if was_selected \<and> \<not> selected \<and> fd_id_mode f0 \<and> \<not> fd_motor_on f0 then
           if fd_id_hold_first_edge f0 then f0\<lparr>fd_id_hold_first_edge := False\<rparr>
           else f0\<lparr>fd_id_bit := min (sat_add_u8 (fd_id_bit f0) 1) 32\<rparr>
         else f0)"

(* src/crates/machine-core/src/cia.rs:807-820 FloppyDrive::on_prb_write *)
definition fd_step_edge :: "floppy_drive \<Rightarrow> u8 \<Rightarrow> u8 \<Rightarrow> floppy_drive" where
  "fd_step_edge f prev val =
     (let selected = (val AND CIAB_DSKSEL0 = 0);
          step_falling_edge = (prev AND CIAB_DSKSTEP \<noteq> 0 \<and> val AND CIAB_DSKSTEP = 0)
      in if selected \<and> step_falling_edge then
           let inward = (val AND CIAB_DSKDIREC = 0)
           in if inward then f\<lparr>fd_cylinder := min (sat_add_u8 (fd_cylinder f) 1) MAX_CYLINDER\<rparr>
              else f\<lparr>fd_cylinder := sat_sub_u8 (fd_cylinder f) 1\<rparr>
         else f)"

(* src/crates/machine-core/src/cia.rs:768-821 FloppyDrive::on_prb_write *)
definition fd_on_prb_write :: "floppy_drive \<Rightarrow> u8 \<Rightarrow> u8 \<Rightarrow> floppy_drive" where
  "fd_on_prb_write f prev val =
     (if fd_presence f = NoDrive then f
      else fd_step_edge (fd_select_edge f prev val) prev val)"

(* src/crates/machine-core/src/cia.rs:858-866 shift_id_bit *)
definition shift_id_bit :: "u32 \<Rightarrow> u8 \<Rightarrow> bool" where
  "shift_id_bit ident index =
     (if index \<ge> 32 then False else ident AND push_bit (unat (31 - index)) 1 \<noteq> 0)"

(* src/crates/machine-core/src/cia.rs:853-855 FloppyDrive::id_shift_bit *)
definition fd_id_shift_bit :: "floppy_drive \<Rightarrow> bool" where
  "fd_id_shift_bit f = shift_id_bit (drive_id (fd_presence f)) (fd_id_bit f)"

(* src/crates/machine-core/src/cia.rs:823-851 FloppyDrive::pra_status_bits *)
definition fd_pra_status_bits :: "floppy_drive \<Rightarrow> u8" where
  "fd_pra_status_bits f =
     (if fd_presence f = NoDrive \<or> \<not> fd_selected f then FLOPPY_PRA_MASK
      else
        let bits1 = 0 OR CIAA_DSKPROT;
            bits2 = (if fd_cylinder f \<noteq> 0 then bits1 OR CIAA_DSKTRACK0 else bits1);
            rdy_asserted = (fd_id_mode f \<and> \<not> fd_motor_on f \<and> fd_id_shift_bit f)
        in if \<not> rdy_asserted then bits2 OR CIAA_DSKRDY else bits2)"

section \<open>The E-clock step\<close>

text \<open>
  Well-formed states: the keyboard ring indexes inside its array, a handshake in flight has a key to
  deliver, and the fraction of an E-clock carried over is less than one E-clock of \<open>k\<close> CPU clocks.
\<close>

definition kbd_ok :: "cia \<Rightarrow> bool" where
  "kbd_ok c \<longleftrightarrow> length (cia_keyboard_queue c) = 16 \<and>
     ring_ok (cia_keyboard_queue c) (cia_keyboard_head c) (cia_keyboard_len c)"

definition cia_ok :: "nat \<Rightarrow> cia \<Rightarrow> bool" where
  "cia_ok k c \<longleftrightarrow> kbd_ok c \<and> (cia_kbd_delay c > 0 \<longrightarrow> cia_keyboard_len c > 0) \<and> unat (cia_carry c) < k"

definition kbd_items :: "cia \<Rightarrow> u8 list" where
  "kbd_items c = ring_view (cia_keyboard_queue c) (cia_keyboard_head c) (cia_keyboard_len c)"

lemma length_kbd_items [simp]: "length (kbd_items c) = cia_keyboard_len c"
  by (simp add: kbd_items_def)

lemmas cia_step_defs = cia_tick_one_eclock_def cia_step_ta_def cia_step_tb_def step_timer_def cia_raise_def Let_def

lemma eclock_loop_pow: "cia_eclock_loop n c = (cia_tick_one_eclock ^^ n) c"
  by (induction n arbitrary: c) (simp_all add: funpow_swap1)

lemma tick_one_split:
  "cia_tick_one_eclock c =
     (let d = cia_step_tb (fst (cia_step_ta c)) (snd (cia_step_ta c))
      in if cia_id d = CiaA then cia_tick_keyboard d else d)"
  by (simp add: cia_tick_one_eclock_def split: prod.split)

lemma idle_step: "cia_is_idle c \<Longrightarrow> cia_tick_one_eclock c = c"
  by (simp add: cia_is_idle_def cia_tick_one_eclock_def cia_step_ta_def cia_step_tb_def cia_tick_keyboard_def Let_def)

lemma tick_eclock_loop: "cia_tick_eclock c n = (cia_tick_one_eclock ^^ unat n) c"
proof -
  have "(cia_tick_one_eclock ^^ m) c = c" if "cia_is_idle c" for m
    by (induction m) (simp_all add: idle_step that)
  then show ?thesis by (simp add: cia_tick_eclock_def eclock_loop_pow)
qed

section \<open>Ticking in batches\<close>

lemma next_keycode_frame [frame_simps]:
  "cia_next_keycode (c\<lparr>cia_carry := x\<rparr>) = apfst (\<lambda>c. c\<lparr>cia_carry := x\<rparr>) (cia_next_keycode c)"
  "cia_carry (fst (cia_next_keycode c)) = cia_carry c"
  by (simp_all add: cia_next_keycode_def Let_def)

lemma tick_keyboard_carry [frame_simps]:
  "cia_tick_keyboard (c\<lparr>cia_carry := x\<rparr>) = (cia_tick_keyboard c)\<lparr>cia_carry := x\<rparr>"
  by (simp add: cia_tick_keyboard_def cia_next_keycode_def cia_raise_def Let_def)

lemma step_one_carry [frame_simps]:
  "cia_tick_one_eclock (c\<lparr>cia_carry := x\<rparr>) = (cia_tick_one_eclock c)\<lparr>cia_carry := x\<rparr>"
proof -
  have ta: "cia_step_ta (c\<lparr>cia_carry := x\<rparr>) = apfst (\<lambda>c. c\<lparr>cia_carry := x\<rparr>) (cia_step_ta c)"
    by (simp add: cia_step_ta_def step_timer_def cia_raise_def Let_def)
  have tb: "cia_step_tb (d\<lparr>cia_carry := x\<rparr>) u = (cia_step_tb d u)\<lparr>cia_carry := x\<rparr>" for d u
    by (simp add: cia_step_tb_def crb_inmode_def step_timer_def cia_raise_def Let_def)
  show ?thesis
    by (simp add: tick_one_split Let_def ta tb tick_keyboard_carry)
qed

lemma step_one_pow_carry [frame_simps]:
  "(cia_tick_one_eclock ^^ n) (c\<lparr>cia_carry := x\<rparr>) = ((cia_tick_one_eclock ^^ n) c)\<lparr>cia_carry := x\<rparr>"
  by (induction n) (simp_all add: step_one_carry)

lemma step_one_keeps_carry [frame_simps]: "cia_carry (cia_tick_one_eclock c) = cia_carry c"
proof -
  have "cia_tick_one_eclock c = cia_tick_one_eclock (c\<lparr>cia_carry := cia_carry c\<rparr>)" by simp
  also have "\<dots> = (cia_tick_one_eclock c)\<lparr>cia_carry := cia_carry c\<rparr>" by (rule step_one_carry)
  finally show ?thesis by (metis cia.select_convs(27) cia.surjective cia.update_convs(27))
qed

lemma step_one_pow_keeps_carry [frame_simps]: "cia_carry ((cia_tick_one_eclock ^^ n) c) = cia_carry c"
  by (induction n) (simp_all add: step_one_keeps_carry)

text \<open>\<open>n\<close> CPU clocks at \<open>k\<close> per E-clock, as a function of the number of clocks.\<close>

definition cia_elapse :: "nat \<Rightarrow> nat \<Rightarrow> cia \<Rightarrow> cia" where
  "cia_elapse k n c =
     ((cia_tick_one_eclock ^^ ((unat (cia_carry c) + n) div k)) c)\<lparr>cia_carry := of_nat ((unat (cia_carry c) + n) mod k)\<rparr>"

definition cia_room :: "nat \<Rightarrow> cia \<Rightarrow> bool" where
  "cia_room n c \<longleftrightarrow> unat (cia_carry c) + n < 2 ^ 32"

lemma cia_tick_elapse:
  assumes "cia_room (unat n) c" "0 < k"
  shows "cia_tick c n k = (cia_elapse (unat k) (unat n) c, cia_irq_pending (cia_elapse (unat k) (unat n) c))"
proof -
  have t: "unat (cia_carry c + n) = unat (cia_carry c) + unat n"
    using assms(1) by (simp add: cia_room_def unat_word_ariths)
  have d: "unat ((cia_carry c + n) div k) = (unat (cia_carry c) + unat n) div unat k"
    by (simp add: unat_div t)
  have m: "(cia_carry c + n) mod k = of_nat ((unat (cia_carry c) + unat n) mod unat k)"
    by (metis t unat_mod of_nat_unat ucast_id)
  have z: "\<not> (cia_carry c + n) div k > 0 \<Longrightarrow> (unat (cia_carry c) + unat n) div unat k = 0"
    using d by (simp add: word_less_nat_alt)
  show ?thesis
    using z by (simp add: cia_tick_def Let_def tick_eclock_loop d m cia_elapse_def step_one_pow_carry)
qed

lemma kbd_step: "kbd_ok c \<Longrightarrow> kbd_ok (cia_tick_keyboard c)"
  by (auto simp: kbd_ok_def cia_tick_keyboard_def cia_next_keycode_def cia_raise_def ring_ok_def Let_def)

lemma kbd_delay_step:
  "(cia_kbd_delay c > 0 \<longrightarrow> cia_keyboard_len c > 0) \<Longrightarrow>
     cia_kbd_delay (cia_tick_keyboard c) > 0 \<longrightarrow> cia_keyboard_len (cia_tick_keyboard c) > 0"
  by (auto simp: cia_tick_keyboard_def cia_next_keycode_def cia_raise_def Let_def word_neq_0_conv)

lemma timers_frame [frame_simps]:
  "cia_keyboard_queue (cia_step_tb (fst (cia_step_ta c)) u) = cia_keyboard_queue c"
  "cia_keyboard_head (cia_step_tb (fst (cia_step_ta c)) u) = cia_keyboard_head c"
  "cia_keyboard_len (cia_step_tb (fst (cia_step_ta c)) u) = cia_keyboard_len c"
  "cia_kbd_delay (cia_step_tb (fst (cia_step_ta c)) u) = cia_kbd_delay c"
  "cia_kbd_loaded (cia_step_tb (fst (cia_step_ta c)) u) = cia_kbd_loaded c"
  "cia_id (cia_step_tb (fst (cia_step_ta c)) u) = cia_id c"
  by (auto simp: cia_step_defs split: prod.split)

lemma cia_ok_step [inv_intros]: "cia_ok k c \<Longrightarrow> cia_ok k (cia_tick_one_eclock c)"
proof -
  assume ok: "cia_ok k c"
  let ?d = "cia_step_tb (fst (cia_step_ta c)) (snd (cia_step_ta c))"
  have "kbd_ok ?d" "cia_kbd_delay ?d > 0 \<longrightarrow> cia_keyboard_len ?d > 0"
    using ok by (simp_all add: cia_ok_def kbd_ok_def frame_simps)
  with ok show ?thesis
    using kbd_step [of ?d] kbd_delay_step [of ?d] step_one_keeps_carry [of c]
    by (simp add: cia_ok_def tick_one_split Let_def split: if_splits)
qed

lemma cia_ok_pow: "cia_ok k c \<Longrightarrow> cia_ok k ((cia_tick_one_eclock ^^ n) c)"
  by (induction n) (simp_all add: cia_ok_step)

lemma elapse_carry:
  "cia_room n c \<Longrightarrow> unat (cia_carry (cia_elapse k n c)) = (unat (cia_carry c) + n) mod k"
  using le_less_trans [OF mod_less_eq_dividend [of "unat (cia_carry c) + n" k], of "2 ^ 32"]
  by (simp add: cia_elapse_def cia_room_def unat_of_nat_less)

interpretation cia_clock: batched_clock "cia_ok k" cia_room "cia_elapse k"
  for k :: nat
proof
  fix s :: cia and n a b
  show "cia_ok k (cia_elapse k n s)" if "cia_ok k s" "cia_room n s"
  proof -
    have "cia_ok k ((cia_tick_one_eclock ^^ ((unat (cia_carry s) + n) div k)) s)"
      using that by (simp add: cia_ok_pow)
    moreover have "unat (cia_carry (cia_elapse k n s)) < k"
      using that by (simp add: elapse_carry cia_ok_def)
    ultimately show ?thesis
      by (simp add: cia_ok_def kbd_ok_def cia_elapse_def)
  qed
  show "cia_elapse k 0 s = s" if "cia_ok k s"
    using that by (simp add: cia_elapse_def cia_ok_def)
  assume ok: "cia_ok k s" and room: "cia_room (a + b) s"
  have r: "cia_room a s" using room by (simp add: cia_room_def)
  show "cia_room a s \<and> cia_room b (cia_elapse k a s)"
    using r room elapse_carry [OF r, of k]
      le_less_trans [OF add_right_mono [OF mod_less_eq_dividend [of "unat (cia_carry s) + a" k], of b], of "2 ^ 32"]
    by (simp add: cia_room_def)
  let ?C = "unat (cia_carry s)"
  have "(?C + (a + b)) div k = ((?C + a) mod k + b) div k + (?C + a) div k"
    using div_mult1_eq [of 1] ok by (simp add: cia_ok_def add.assoc [symmetric] div_add1_eq [of "?C + a" b k] div_add1_eq [of "(?C + a) mod k" b k])
  moreover have "(?C + (a + b)) mod k = ((?C + a) mod k + b) mod k"
    by (simp add: mod_add_left_eq add.assoc)
  ultimately show "cia_elapse k (a + b) s = cia_elapse k b (cia_elapse k a s)"
    by (simp add: cia_elapse_def [of k "a + b"] cia_elapse_def [of k b] elapse_carry [OF r])
       (simp add: cia_elapse_def step_one_pow_carry funpow_add)
qed

section \<open>The event deadline\<close>

text \<open>The E-clocks left until each of the three running sources completes.\<close>

definition ta_runs :: "cia \<Rightarrow> bool" where
  "ta_runs c \<longleftrightarrow> cia_cra c AND CRA_START \<noteq> 0 \<and> cia_cra c AND CRA_INMODE = 0"

definition tb_runs :: "cia \<Rightarrow> bool" where
  "tb_runs c \<longleftrightarrow> cia_crb c AND CRB_START \<noteq> 0 \<and> crb_inmode c = 0"

definition kbd_times :: "cia \<Rightarrow> nat list" where
  "kbd_times c =
     (if cia_id c = CiaA \<and> cia_cra c AND CRA_SPMODE = 0 then
        if cia_kbd_delay c > 0 then [unat (cia_kbd_delay c)]
        else if \<not> cia_kbd_loaded c \<and> cia_keyboard_len c > 0 then [709] else []
      else [])"

definition event_times :: "cia \<Rightarrow> nat list" where
  "event_times c = (if ta_runs c then [unat (cia_timer_a c) + 1] else []) @
     (if tb_runs c then [unat (cia_timer_b c) + 1] else []) @ kbd_times c"

lemma handshake_709 [simp]: "KEYBOARD_HANDSHAKE_TICKS = 709"
  by simp

lemma unat_u16: "unat (ucast (t :: u16) :: u32) = unat t"
  using unat_lt2p_of [of t] by (simp add: unat_ucast_mod)

lemma unat_u16_succ: "unat ((ucast (t :: u16) :: u32) + 1) = unat t + 1"
  using unat_lt2p_of [of t] by (simp add: unat_u16 unat_word_ariths)

lemma unat_min: "unat (min a b) = min (unat a) (unat (b :: 'a::len word))"
  by (simp add: min_def word_le_nat_alt)

lemma deadline_times:
  "map_option unat (cia_eclocks_until_event c) =
     (if event_times c = [] then None else Some (Min (set (event_times c))))"
  by (auto simp: cia_eclocks_until_event_def event_times_def ta_runs_def tb_runs_def kbd_times_def
      consider_min_def Let_def unat_u16_succ unat_u16 unat_min min.assoc)

lemma step_ta_eq:
  "\<not> ta_runs c \<Longrightarrow> cia_step_ta c = (c, False)"
  "ta_runs c \<Longrightarrow> cia_timer_a c \<noteq> 0 \<Longrightarrow> cia_step_ta c = (c\<lparr>cia_timer_a := cia_timer_a c - 1\<rparr>, False)"
  "ta_runs c \<Longrightarrow> cia_timer_a c = 0 \<Longrightarrow> bit (cia_icr_data (fst (cia_step_ta c))) ICR_TA"
  by (auto simp: cia_step_ta_def ta_runs_def step_timer_def cia_raise_def Let_def bit_or_iff)

lemma step_tb_eq:
  "\<not> tb_runs c \<Longrightarrow> cia_step_tb c False = c"
  "tb_runs c \<Longrightarrow> cia_timer_b c \<noteq> 0 \<Longrightarrow> cia_step_tb c False = c\<lparr>cia_timer_b := cia_timer_b c - 1\<rparr>"
  "tb_runs c \<Longrightarrow> cia_timer_b c = 0 \<Longrightarrow> bit (cia_icr_data (cia_step_tb c u)) ICR_TB"
  by (auto simp: cia_step_tb_def tb_runs_def step_timer_def cia_raise_def Let_def bit_or_iff)

lemma tick_keyboard_eq:
  assumes "cia_id c = CiaA"
  shows "kbd_times c = [] \<Longrightarrow> cia_tick_keyboard c = c"
    and "kbd_times c = [t] \<Longrightarrow> 1 < t \<Longrightarrow> 
      \<exists>d. cia_tick_keyboard c = c\<lparr>cia_kbd_delay := d\<rparr> \<and> unat d = t - 1"
    and "kbd_times c = [1] \<Longrightarrow> (cia_kbd_delay c > 0 \<longrightarrow> cia_keyboard_len c > 0) \<Longrightarrow>
      bit (cia_icr_data (cia_tick_keyboard c)) ICR_SP"
proof -
  show "cia_tick_keyboard c = c" if "kbd_times c = []"
  proof (cases "cia_cra c AND CRA_SPMODE = 0")
    case True
    then have "cia_kbd_delay c = 0" "cia_kbd_loaded c \<or> cia_keyboard_len c = 0"
      using that assms by (auto simp: kbd_times_def word_gt_0 split: if_splits)
    then show ?thesis by (auto simp: cia_tick_keyboard_def Let_def)
  next
    case False
    then show ?thesis by (simp add: cia_tick_keyboard_def)
  qed
  show "\<exists>d. cia_tick_keyboard c = c\<lparr>cia_kbd_delay := d\<rparr> \<and> unat d = t - 1" if "kbd_times c = [t]" "1 < t"
  proof (cases "cia_kbd_delay c > 0")
    case True
    then have "t = unat (cia_kbd_delay c)" "cia_cra c AND CRA_SPMODE = 0"
      using that by (auto simp: kbd_times_def split: if_splits)
    moreover have m: "unat (cia_kbd_delay c - 1) = unat (cia_kbd_delay c) - 1"
      using True by (simp add: unat_minus_one)
    moreover have nz: "cia_kbd_delay c - 1 \<noteq> 0"
    proof
      assume z: "cia_kbd_delay c - 1 = 0"
      show False using m that(2) calculation(1) unfolding z by simp
    qed
    moreover have "cia_kbd_delay c \<noteq> 0" using True by (simp add: word_gt_0)
    moreover have kd: "cia_kbd_delay (c\<lparr>cia_kbd_delay := x\<rparr>) = x" for x by simp
    ultimately have "cia_tick_keyboard c = c\<lparr>cia_kbd_delay := cia_kbd_delay c - 1\<rparr>"
      unfolding cia_tick_keyboard_def Let_def by (simp only: True nz if_True if_False simp_thms cia.simps cia.select_convs cia.update_convs kd)
    with m \<open>t = _\<close> show ?thesis by metis
  next
    case False
    then have "t = 709" "cia_kbd_delay c = 0" "\<not> cia_kbd_loaded c" "cia_keyboard_len c > 0" "cia_cra c AND CRA_SPMODE = 0"
      using that by (auto simp: kbd_times_def word_gt_0 split: if_splits)
    moreover from this have "cia_tick_keyboard c = c\<lparr>cia_kbd_delay := 708\<rparr>"
      by (simp add: cia_tick_keyboard_def Let_def)
    ultimately show ?thesis by (intro exI [of _ 708]) simp
  qed
  show "bit (cia_icr_data (cia_tick_keyboard c)) ICR_SP"
    if "kbd_times c = [1]" "cia_kbd_delay c > 0 \<longrightarrow> cia_keyboard_len c > 0"
  proof -
    have "cia_kbd_delay c = 1" "cia_cra c AND CRA_SPMODE = 0"
      using that(1) by (auto simp: kbd_times_def word_unat_eq_iff split: if_splits)
    then show ?thesis
      using that(2) by (simp add: cia_tick_keyboard_def cia_next_keycode_def cia_raise_def Let_def bit_or_iff)
  qed
qed

lemma step_ta_frame [frame_simps]:
  "cia_id (fst (cia_step_ta c)) = cia_id c" "cia_crb (fst (cia_step_ta c)) = cia_crb c"
  "cia_timer_b (fst (cia_step_ta c)) = cia_timer_b c"
  by (simp_all add: cia_step_ta_def step_timer_def cia_raise_def Let_def)

lemma tick_keyboard_frame [frame_simps]:
  "ta_runs (cia_tick_keyboard c) = ta_runs c" "tb_runs (cia_tick_keyboard c) = tb_runs c"
  "cia_timer_a (cia_tick_keyboard c) = cia_timer_a c" "cia_timer_b (cia_tick_keyboard c) = cia_timer_b c"
  by (simp_all add: ta_runs_def tb_runs_def crb_inmode_def cia_tick_keyboard_def cia_next_keycode_def cia_raise_def Let_def)

lemma kbd_times_shape: "kbd_times c = [] \<or> (\<exists>t. kbd_times c = [t])"
  by (simp add: kbd_times_def)

text \<open>
  While every source has more than one E-clock left, a step raises nothing and brings each of them
  one E-clock nearer.
\<close>

definition ta_step_quiet :: "cia \<Rightarrow> cia" where
  "ta_step_quiet c = (if ta_runs c then c\<lparr>cia_timer_a := cia_timer_a c - 1\<rparr> else c)"

definition tb_step_quiet :: "cia \<Rightarrow> cia" where
  "tb_step_quiet c = (if tb_runs c then c\<lparr>cia_timer_b := cia_timer_b c - 1\<rparr> else c)"

lemma quiet_frame [frame_simps]:
  "ta_runs (ta_step_quiet c) = ta_runs c" "tb_runs (ta_step_quiet c) = tb_runs c"
  "ta_runs (tb_step_quiet c) = ta_runs c" "tb_runs (tb_step_quiet c) = tb_runs c"
  "kbd_times (ta_step_quiet c) = kbd_times c" "kbd_times (tb_step_quiet c) = kbd_times c"
  "cia_icr_data (ta_step_quiet c) = cia_icr_data c" "cia_icr_data (tb_step_quiet c) = cia_icr_data c"
  "cia_id (ta_step_quiet c) = cia_id c" "cia_id (tb_step_quiet c) = cia_id c"
  "cia_timer_b (ta_step_quiet c) = cia_timer_b c" "cia_timer_a (tb_step_quiet c) = cia_timer_a c"
  by (simp_all add: ta_step_quiet_def tb_step_quiet_def ta_runs_def tb_runs_def crb_inmode_def kbd_times_def)

lemma kbd_quiet:
  assumes "\<forall>t \<in> set (kbd_times c). 1 < t" "cia_id c = CiaA"
  shows "kbd_times (cia_tick_keyboard c) = map (\<lambda>t. t - 1) (kbd_times c)"
    "cia_icr_data (cia_tick_keyboard c) = cia_icr_data c"
proof -
  consider (none) "kbd_times c = []" | (one) t where "kbd_times c = [t]" using kbd_times_shape by blast
  then have "kbd_times (cia_tick_keyboard c) = map (\<lambda>t. t - 1) (kbd_times c) \<and>
    cia_icr_data (cia_tick_keyboard c) = cia_icr_data c"
  proof cases
    case none
    then show ?thesis by (simp add: tick_keyboard_eq(1) [OF assms(2)])
  next
    case one
    then have t: "1 < t" using assms(1) by simp
    obtain d where d: "cia_tick_keyboard c = c\<lparr>cia_kbd_delay := d\<rparr>" "unat d = t - 1"
      using tick_keyboard_eq(2) [OF assms(2) one t] by blast
    have "d > 0" using d(2) t by (simp add: word_less_nat_alt)
    moreover have "cia_cra c AND CRA_SPMODE = 0" using one by (simp add: kbd_times_def split: if_splits)
    ultimately show ?thesis
      using d assms(2) by (simp add: one) (simp add: kbd_times_def)
  qed
  then show "kbd_times (cia_tick_keyboard c) = map (\<lambda>t. t - 1) (kbd_times c)"
    "cia_icr_data (cia_tick_keyboard c) = cia_icr_data c" by simp_all
qed

lemma step_waits:
  assumes "\<forall>t \<in> set (event_times c). 1 < t"
  shows "cia_icr_data (cia_tick_one_eclock c) = cia_icr_data c \<and>
    event_times (cia_tick_one_eclock c) = map (\<lambda>t. t - 1) (event_times c)"
proof -
  have ta: "ta_runs c \<Longrightarrow> cia_timer_a c \<noteq> 0" and tb: "tb_runs c \<Longrightarrow> cia_timer_b c \<noteq> 0"
    and kb: "\<forall>t \<in> set (kbd_times c). 1 < t"
    using assms by (auto simp: event_times_def)
  have 1: "cia_step_ta c = (ta_step_quiet c, False)"
    using ta by (simp add: step_ta_eq(1,2) ta_step_quiet_def)
  let ?d = "tb_step_quiet (ta_step_quiet c)"
  have 2: "cia_step_tb (ta_step_quiet c) False = ?d"
    using tb by (simp add: step_tb_eq(1,2) tb_step_quiet_def frame_simps)
  have s: "cia_tick_one_eclock c = (if cia_id c = CiaA then cia_tick_keyboard ?d else ?d)"
    by (simp add: tick_one_split 1 2 frame_simps)
  have k: "cia_id c \<noteq> CiaA \<Longrightarrow> kbd_times c = []" by (simp add: kbd_times_def)
  have p: "ta_runs c \<Longrightarrow> 0 < unat (cia_timer_a c)" "tb_runs c \<Longrightarrow> 0 < unat (cia_timer_b c)"
    using ta tb by (simp_all add: unat_gt_0)
  have a: "ta_runs c \<Longrightarrow> unat (cia_timer_a ?d) = unat (cia_timer_a c) - 1"
    using ta by (simp add: frame_simps) (simp add: ta_step_quiet_def unat_minus_one)
  have b: "tb_runs c \<Longrightarrow> unat (cia_timer_b ?d) = unat (cia_timer_b c) - 1"
    using tb by (simp add: tb_step_quiet_def frame_simps unat_minus_one)
  show ?thesis
    using kb kbd_quiet [of ?d] k a b p
    by (auto simp: s event_times_def frame_simps)
qed

lemma raise_persists:
  "bit (cia_icr_data c) n \<Longrightarrow> bit (cia_icr_data (cia_step_tb c u)) n"
  "bit (cia_icr_data c) n \<Longrightarrow> bit (cia_icr_data (cia_tick_keyboard c)) n"
  by (simp_all add: cia_step_tb_def cia_tick_keyboard_def cia_next_keycode_def step_timer_def cia_raise_def Let_def bit_or_iff)

lemma step_fires:
  assumes e: "1 \<in> set (event_times c)" and k: "cia_kbd_delay c > 0 \<longrightarrow> cia_keyboard_len c > 0"
  shows "\<exists>b \<in> {ICR_TA, ICR_TB, ICR_SP}. bit (cia_icr_data (cia_tick_one_eclock c)) b"
proof -
  let ?a = "fst (cia_step_ta c)" let ?d = "cia_step_tb ?a (snd (cia_step_ta c))"
  consider (ta) "ta_runs c" "cia_timer_a c = 0" | (tb) "tb_runs c" "cia_timer_b c = 0"
    | (kb) "\<not> (ta_runs c \<and> cia_timer_a c = 0)" "\<not> (tb_runs c \<and> cia_timer_b c = 0)" "1 \<in> set (kbd_times c)"
    using e by (auto simp: event_times_def unat_eq_0 split: if_splits)
  then show ?thesis
  proof cases
    case ta
    then have "bit (cia_icr_data ?d) ICR_TA" by (intro raise_persists step_ta_eq)
    then show ?thesis by (auto simp: tick_one_split Let_def raise_persists)
  next
    case tb
    then have "bit (cia_icr_data ?d) ICR_TB"
      by (intro step_tb_eq(3)) (simp_all add: frame_simps tb_runs_def crb_inmode_def)
    then show ?thesis by (auto simp: tick_one_split Let_def raise_persists)
  next
    case kb
    then have 1: "cia_step_ta c = (ta_step_quiet c, False)"
      by (auto simp: step_ta_eq(1,2) ta_step_quiet_def)
    have 2: "cia_step_tb (ta_step_quiet c) False = tb_step_quiet (ta_step_quiet c)"
      using kb by (auto simp: step_tb_eq(1,2) tb_step_quiet_def frame_simps)
    have i: "cia_id c = CiaA" "kbd_times c = [1]"
      using kb kbd_times_shape [of c] by (auto simp: kbd_times_def split: if_splits)
    have "bit (cia_icr_data (cia_tick_keyboard (tb_step_quiet (ta_step_quiet c)))) ICR_SP"
      by (rule tick_keyboard_eq(3))
         (use i k in \<open>simp_all add: frame_simps\<close>, simp_all add: ta_step_quiet_def tb_step_quiet_def)
    then show ?thesis by (simp add: tick_one_split 1 2 frame_simps i)
  qed
qed

lemma steps_wait:
  "\<forall>t \<in> set (event_times c). n < t \<Longrightarrow>
     cia_icr_data ((cia_tick_one_eclock ^^ n) c) = cia_icr_data c \<and>
     event_times ((cia_tick_one_eclock ^^ n) c) = map (\<lambda>t. t - n) (event_times c)"
proof (induction n)
  case 0
  then show ?case by (simp add: map_idI)
next
  case (Suc n)
  then have ih: "cia_icr_data ((cia_tick_one_eclock ^^ n) c) = cia_icr_data c"
    "event_times ((cia_tick_one_eclock ^^ n) c) = map (\<lambda>t. t - n) (event_times c)"
    by (simp_all add: Suc_lessD)
  have "\<forall>t \<in> set (event_times ((cia_tick_one_eclock ^^ n) c)). 1 < t"
    using Suc.prems by (auto simp: ih(2))
  from step_waits [OF this] show ?case by (simp add: ih comp_def)
qed

lemma steps_fire:
  assumes ok: "cia_ok k c" and ne: "event_times c \<noteq> []"
  shows "\<exists>b \<in> {ICR_TA, ICR_TB, ICR_SP}. bit (cia_icr_data ((cia_tick_one_eclock ^^ Min (set (event_times c))) c)) b"
proof -
  let ?m = "Min (set (event_times c))" let ?d = "(cia_tick_one_eclock ^^ (?m - 1)) c"
  have m: "?m \<in> set (event_times c)" using ne by simp
  moreover have "\<forall>t \<in> set (event_times c). 0 < t"
    by (auto simp: event_times_def kbd_times_def word_less_nat_alt split: if_splits)
  ultimately have pos: "0 < ?m" by blast
  have "\<forall>t \<in> set (event_times c). ?m - 1 < t"
    using pos by (auto simp: less_eq_Suc_le)
  from steps_wait [OF this] have "event_times ?d = map (\<lambda>t. t - (?m - 1)) (event_times c)" by simp
  then have "1 \<in> set (event_times ?d)" using m pos by force
  moreover have "cia_kbd_delay ?d > 0 \<longrightarrow> cia_keyboard_len ?d > 0"
    using cia_ok_pow [OF ok, of "?m - 1"] by (simp add: cia_ok_def)
  ultimately have "\<exists>b \<in> {ICR_TA, ICR_TB, ICR_SP}. bit (cia_icr_data (cia_tick_one_eclock ?d)) b"
    by (rule step_fires)
  moreover have "cia_tick_one_eclock ?d = (cia_tick_one_eclock ^^ ?m) c"
    using pos by (metis Suc_pred' comp_apply funpow.simps(2))
  ultimately show ?thesis by simp
qed

lemma step_idle_times:
  assumes "event_times c = []"
  shows "cia_tick_one_eclock c = c"
proof -
  have "\<not> ta_runs c" "\<not> tb_runs c" "kbd_times c = []"
    using assms by (auto simp: event_times_def split: if_splits)
  then show ?thesis
    by (simp add: tick_one_split step_ta_eq(1) step_tb_eq(1) tick_keyboard_eq(1))
qed

lemma steps_idle: "event_times c = [] \<Longrightarrow> (cia_tick_one_eclock ^^ n) c = c"
  by (induction n) (simp_all add: step_idle_times)

lemma event_times_bound: "t \<in> set (event_times c) \<Longrightarrow> t \<le> 65536"
  using unat_lt2p_of [of "cia_timer_a c"] unat_lt2p_of [of "cia_timer_b c"] unat_lt2p_of [of "cia_kbd_delay c"]
  by (auto simp: event_times_def kbd_times_def split: if_splits)

lemma clocks_until_event_some:
  assumes ok: "cia_ok (unat k) c" and k: "65536 * unat k < 2 ^ 32"
    and d: "cia_clocks_until_event c k = Some d"
  shows "event_times c \<noteq> []" "unat d + unat (cia_carry c) = Min (set (event_times c)) * unat k"
    "0 < Min (set (event_times c))"
proof -
  let ?m = "Min (set (event_times c))"
  obtain e where e: "cia_eclocks_until_event c = Some e"
    using d by (auto simp: cia_clocks_until_event_def split: option.splits)
  then have m: "event_times c \<noteq> []" "unat e = ?m"
    using deadline_times [of c] by (simp_all split: if_splits)
  then show "event_times c \<noteq> []" by simp
  have in_m: "?m \<in> set (event_times c)" using m by simp
  then show pos: "0 < ?m"
    by (auto simp: event_times_def kbd_times_def word_less_nat_alt split: if_splits)
  have b: "?m * unat k < 2 ^ 32"
    using k event_times_bound [OF in_m] by (meson le_less_trans mult_le_mono1)
  have "unat (cia_carry c) < unat k" using ok by (simp add: cia_ok_def)
  moreover have "unat k \<le> ?m * unat k" using pos by simp
  ultimately have le: "unat (cia_carry c) \<le> ?m * unat k" by linarith
  have u: "unat (ucast e * ucast k :: u64) = ?m * unat k"
    using b m(2) unat_lt2p_of [of e] unat_lt2p_of [of k] by (simp add: unat_word_ariths unat_ucast_mod mod_mult_eq)
  have c: "unat (ucast (cia_carry c) :: u64) = unat (cia_carry c)"
    using unat_lt2p_of [of "cia_carry c"] by (simp add: unat_ucast_mod)
  have "(ucast (cia_carry c) :: u64) \<le> ucast e * ucast k"
    using le u c by (simp add: word_le_nat_alt)
  then have "unat (ucast e * ucast k - ucast (cia_carry c) :: u64) = ?m * unat k - unat (cia_carry c)"
    using u c by (simp add: unat_sub)
  moreover have "d = ucast (ucast e * ucast k - ucast (cia_carry c) :: u64)"
    using d e \<open>ucast (cia_carry c) \<le> _\<close> by (simp add: cia_clocks_until_event_def Let_def)
  moreover have "(?m * unat k - unat (cia_carry c)) mod 2 ^ 32 = ?m * unat k - unat (cia_carry c)"
    using b by (intro mod_less) linarith
  ultimately have "unat d = ?m * unat k - unat (cia_carry c)"
    by (simp only: unat_ucast_mod) simp
  with le show "unat d + unat (cia_carry c) = ?m * unat k" by simp
qed

text \<open>C9 [bounds]: The deadline a CIA reports to the bus is exact. Over any number of CPU clocks short of
  \<open>clocks_until_event\<close> no interrupt source of the chip fires, so deferring the tick that far is
  unobservable in the interrupt control register; at the deadline itself a timer underflow or the
  keyboard handshake has fired. When no deadline is reported, no number of clocks fires anything.\<close>

theorem cia_deadline_exact:
  assumes "cia_ok (unat k) c" and "65536 * unat k < 2 ^ 32"
  shows "case cia_clocks_until_event c k of
      Some d \<Rightarrow> (\<forall>n. n < d \<longrightarrow> cia_icr_data (fst (cia_tick c n k)) = cia_icr_data c) \<and>
        (\<exists>b \<in> {ICR_TA, ICR_TB, ICR_SP}. bit (cia_icr_data (fst (cia_tick c d k))) b)
    | None \<Rightarrow> \<forall>n. unat (cia_carry c) + unat n < 2 ^ 32 \<longrightarrow> cia_icr_data (fst (cia_tick c n k)) = cia_icr_data c"
proof (cases "cia_clocks_until_event c k")
  case None
  then have "event_times c = []"
    using deadline_times [of c] by (auto simp: cia_clocks_until_event_def Let_def split: option.splits if_splits)
  moreover have "0 < k" using assms(1) by (auto simp: cia_ok_def word_less_nat_alt)
  ultimately show ?thesis
    using None by (simp add: cia_tick_elapse cia_room_def cia_elapse_def steps_idle)
next
  case (Some d)
  let ?m = "Min (set (event_times c))"
  note s = clocks_until_event_some [OF assms Some]
  have c: "unat (cia_carry c) < unat k" using assms(1) by (simp add: cia_ok_def)
  then have k: "0 < k" by (auto simp: word_less_nat_alt)
  have "?m * unat k < 2 ^ 32"
    using s(1) event_times_bound [of ?m c] assms(2) by (meson Min_in finite_set le_less_trans mult_le_mono1 set_empty)
  with s(2) have room: "cia_room (unat n) c" if "n \<le> d" for n
    using that by (simp add: cia_room_def word_le_nat_alt)
  have tick: "cia_icr_data (fst (cia_tick c n k)) =
      cia_icr_data ((cia_tick_one_eclock ^^ ((unat (cia_carry c) + unat n) div unat k)) c)" if "n \<le> d" for n
    using cia_tick_elapse [OF room [OF that] k] by (simp add: cia_elapse_def)
  have "cia_icr_data (fst (cia_tick c n k)) = cia_icr_data c" if "n < d" for n
  proof -
    have "unat (cia_carry c) + unat n < ?m * unat k"
      using that s(2) by (simp add: word_less_nat_alt)
    then have "(unat (cia_carry c) + unat n) div unat k < ?m"
      by (simp add: less_mult_imp_div_less)
    then have "\<forall>t \<in> set (event_times c). (unat (cia_carry c) + unat n) div unat k < t"
      using s(1) by auto
    from steps_wait [OF this] tick [of n] that show ?thesis by simp
  qed
  moreover have "(unat (cia_carry c) + unat d) div unat k = ?m"
    using s(2) c by (simp add: add.commute)
  ultimately show ?thesis
    using Some tick [of d] steps_fire [OF assms(1) s(1)] by simp
qed

text \<open>A CIA-A whose timer A counts from 3 and whose keyboard has one key waiting.\<close>

definition cia_sample :: cia where
  "cia_sample = (cia_queue_keycode (cia_new CiaA) 0x45)\<lparr>cia_timer_a := 3, cia_latch_a := 3, cia_cra := CRA_START\<rparr>"

lemma cia_sample_ok: "cia_ok 10 cia_sample"
  by (simp add: cia_sample_def cia_ok_def kbd_ok_def cia_queue_keycode_def cia_new_def ring_ok_def)

lemma cia_sample_deadline: "cia_clocks_until_event cia_sample 10 = Some 40"
  by (simp add: cia_sample_def cia_clocks_until_event_def cia_eclocks_until_event_def consider_min_def
      cia_queue_keycode_def cia_new_def crb_inmode_def Let_def)

lemma cia_deadline_exact_witness:
  "cia_ok (unat (10 :: u32)) cia_sample \<and> cia_clocks_until_event cia_sample 10 = Some 40 \<and>
   cia_icr_data (fst (cia_tick cia_sample 39 10)) = cia_icr_data cia_sample \<and>
   (\<exists>b \<in> {ICR_TA, ICR_TB, ICR_SP}. bit (cia_icr_data (fst (cia_tick cia_sample 40 10))) b)"
proof -
  have "cia_ok (unat (10 :: u32)) cia_sample" using cia_sample_ok by simp
  from cia_deadline_exact [OF this] this cia_sample_deadline show ?thesis by simp
qed

section \<open>One clock or many\<close>

lemma foldl_tick_elapse:
  "cia_ok (unat k) c \<Longrightarrow> cia_room (sum_list (map unat ns)) c \<Longrightarrow>
     foldl (\<lambda>s n. fst (cia_tick s n k)) c ns = foldl (\<lambda>s n. cia_elapse (unat k) n s) c (map unat ns)"
proof (induction ns arbitrary: c)
  case (Cons n ns)
  have k: "0 < k" using Cons.prems(1) by (auto simp: cia_ok_def word_less_nat_alt)
  have "cia_room (unat n) c" "cia_room (sum_list (map unat ns)) (cia_elapse (unat k) (unat n) c)"
    using cia_clock.fits_split [OF Cons.prems(1), of "unat n" "sum_list (map unat ns)"] Cons.prems(2) by simp_all
  with Cons k show ?case
    by (simp add: cia_tick_elapse cia_clock.ok_adv)
qed simp

lemma unat_sum_list:
  "sum_list (map unat (ns :: 'a::len word list)) < 2 ^ LENGTH('a) \<Longrightarrow> unat (sum_list ns) = sum_list (map unat ns)"
  by (induction ns) (simp_all add: unat_word_ariths)

text \<open>C8 [equivalence]: Advancing a CIA in any number of pieces is the same as advancing it once by their sum: the carry
  keeps the fraction of an E-clock between calls, and the shortcut for an idle chip is the loop it
  replaces. The bus relies on this when it defers device time and catches up in one call.\<close>

theorem cia_tick_batching:
  assumes "cia_ok (unat k) c" and "unat (cia_carry c) + sum_list (map unat ns) < 2 ^ 32"
  shows "foldl (\<lambda>s n. fst (cia_tick s n k)) c ns = fst (cia_tick c (sum_list ns) k)"
proof -
  have k: "0 < k" using assms(1) by (auto simp: cia_ok_def word_less_nat_alt)
  have u: "unat (sum_list ns) = sum_list (map unat ns)"
    using assms(2) by (intro unat_sum_list) simp
  have r: "cia_room (sum_list (map unat ns)) c" using assms(2) by (simp add: cia_room_def)
  show ?thesis
    using r cia_tick_elapse [of "sum_list ns" c k] k
    by (simp add: foldl_tick_elapse [OF assms(1) r] cia_clock.adv_pieces [OF assms(1) r] u)
qed

lemma cia_tick_batching_witness:
  "cia_ok (unat (10 :: u32)) cia_sample \<and>
   foldl (\<lambda>s n. fst (cia_tick s n 10)) cia_sample [7, 12, 3000, 25] = fst (cia_tick cia_sample 3044 10)"
  using cia_tick_batching [of 10 cia_sample "[7, 12, 3000, 25]"] cia_sample_ok
  by (simp add: cia_sample_def cia_queue_keycode_def cia_new_def)

section \<open>The keyboard\<close>

definition kbd_push :: "cia \<Rightarrow> u8 \<Rightarrow> cia \<times> bool" where
  "kbd_push c raw = (cia_queue_keycode c raw, cia_keyboard_len c < KEYBOARD_QUEUE_LEN)"

interpretation keyboard: bounded_fifo 16 kbd_ok kbd_items kbd_push cia_next_keycode
proof
  fix q :: cia and x :: u8 and xs
  assume ok: "kbd_ok q"
  then have l: "length (cia_keyboard_queue q) = 16" "cia_keyboard_head q < 16" "cia_keyboard_len q \<le> 16"
    by (simp_all add: kbd_ok_def ring_ok_def)
  show "length (kbd_items q) \<le> 16" using l by simp
  show "\<exists>q'. kbd_push q x = (q', True) \<and> kbd_ok q' \<and> kbd_items q' = kbd_items q @ [x]" if "length (kbd_items q) < 16"
    using that l ring_view_push [of "cia_keyboard_len q" "cia_keyboard_queue q" "cia_keyboard_head q" x]
    by (simp add: kbd_push_def cia_queue_keycode_def kbd_ok_def ring_ok_def kbd_items_def Let_def)
  show "\<exists>q'. kbd_push q x = (q', False) \<and> kbd_ok q' \<and> kbd_items q' = kbd_items q" if "length (kbd_items q) = 16"
    using that ok by (simp add: kbd_push_def cia_queue_keycode_def)
  have e: "kbd_items q = [] \<longleftrightarrow> cia_keyboard_len q = 0"
    by (metis length_0_conv length_kbd_items)
  show "\<exists>q'. cia_next_keycode q = (q', None) \<and> kbd_ok q' \<and> kbd_items q' = []" if "kbd_items q = []"
    using that ok e by (simp add: cia_next_keycode_def)
  show "\<exists>q'. cia_next_keycode q = (q', Some x) \<and> kbd_ok q' \<and> kbd_items q' = xs" if "kbd_items q = x # xs"
  proof -
    have nz: "0 < cia_keyboard_len q" using that e by auto
    then have "x = cia_keyboard_queue q ! cia_keyboard_head q"
      "xs = ring_view (cia_keyboard_queue q) ((cia_keyboard_head q + 1) mod 16) (cia_keyboard_len q - 1)"
      using that l ring_view_pop [of "cia_keyboard_len q" "cia_keyboard_head q" "cia_keyboard_queue q"]
      by (simp_all add: kbd_items_def)
    then show ?thesis
      using nz l by (simp add: cia_next_keycode_def kbd_ok_def ring_ok_def kbd_items_def Let_def)
  qed
qed

lemma start_bit_not_spmode: "((w :: u8) AND NOT CRA_START) AND CRA_SPMODE = w AND CRA_SPMODE"
proof -
  have "NOT CRA_START AND CRA_SPMODE = CRA_SPMODE" by simp
  then show ?thesis by (metis and.assoc)
qed

lemma timers_kbd [frame_simps]:
  "kbd_times (cia_step_tb (fst (cia_step_ta c)) u) = kbd_times c"
  "kbd_items (cia_step_tb (fst (cia_step_ta c)) u) = kbd_items c"
  "kbd_ok (cia_step_tb (fst (cia_step_ta c)) u) = kbd_ok c"
  "cia_sdr (cia_step_tb (fst (cia_step_ta c)) u) = cia_sdr c"
proof -
  have "cia_cra (cia_step_tb (fst (cia_step_ta c)) u) AND CRA_SPMODE = cia_cra c AND CRA_SPMODE"
    using start_bit_not_spmode by (simp add: cia_step_defs del: CRA_START_def CRA_SPMODE_def)
  then show "kbd_times (cia_step_tb (fst (cia_step_ta c)) u) = kbd_times c"
    by (simp add: kbd_times_def timers_frame del: CRA_SPMODE_def)
  show "kbd_items (cia_step_tb (fst (cia_step_ta c)) u) = kbd_items c"
    "kbd_ok (cia_step_tb (fst (cia_step_ta c)) u) = kbd_ok c"
    by (simp_all add: kbd_items_def kbd_ok_def timers_frame)
  show "cia_sdr (cia_step_tb (fst (cia_step_ta c)) u) = cia_sdr c"
    by (simp add: cia_step_defs)
qed

lemma kbd_times_A: "kbd_times c = [t] \<Longrightarrow> cia_id c = CiaA"
  by (simp add: kbd_times_def split: if_splits)

lemma kbd_step_wait:
  assumes t: "kbd_times c = [t]" "1 < t" and ok: "kbd_ok c"
  shows "kbd_times (cia_tick_one_eclock c) = [t - 1]" "kbd_ok (cia_tick_one_eclock c)"
    "cia_sdr (cia_tick_one_eclock c) = cia_sdr c" "cia_kbd_loaded (cia_tick_one_eclock c) = cia_kbd_loaded c"
    "kbd_items (cia_tick_one_eclock c) = kbd_items c"
proof -
  let ?d = "cia_step_tb (fst (cia_step_ta c)) (snd (cia_step_ta c))"
  have a: "cia_id ?d = CiaA" using kbd_times_A [OF t(1)] by (simp add: frame_simps)
  have s: "cia_tick_one_eclock c = cia_tick_keyboard ?d" using a by (simp add: tick_one_split Let_def)
  have td: "kbd_times ?d = [t]" using t by (simp add: frame_simps)
  show "kbd_times (cia_tick_one_eclock c) = [t - 1]"
    using kbd_quiet(1) [OF _ a] td t by (simp add: s)
  obtain x where "cia_tick_keyboard ?d = ?d\<lparr>cia_kbd_delay := x\<rparr>"
    using tick_keyboard_eq(2) [OF a td t(2)] by blast
  then show "kbd_ok (cia_tick_one_eclock c)" "cia_sdr (cia_tick_one_eclock c) = cia_sdr c"
    "cia_kbd_loaded (cia_tick_one_eclock c) = cia_kbd_loaded c" "kbd_items (cia_tick_one_eclock c) = kbd_items c"
    using ok frame_simps by (simp_all add: s timers_frame timers_kbd) (simp_all add: kbd_ok_def kbd_items_def timers_frame)
qed

lemma kbd_step_deliver:
  assumes t: "kbd_times c = [1]" and ok: "kbd_ok c" and q: "kbd_items c = raw # rest"
  shows "cia_sdr (cia_tick_one_eclock c) = encode_keyboard_byte raw" "cia_kbd_loaded (cia_tick_one_eclock c)"
    "kbd_items (cia_tick_one_eclock c) = rest" "bit (cia_icr_data (cia_tick_one_eclock c)) ICR_SP"
proof -
  let ?d = "cia_step_tb (fst (cia_step_ta c)) (snd (cia_step_ta c))" let ?e = "?d\<lparr>cia_kbd_delay := 0\<rparr>"
  have a: "cia_id ?d = CiaA" using kbd_times_A [OF t(1)] by (simp add: frame_simps)
  have s: "cia_tick_one_eclock c = cia_tick_keyboard ?d" using a by (simp add: tick_one_split Let_def)
  have "kbd_times ?d = [1]" using t by (simp add: frame_simps)
  then have dl: "cia_kbd_delay ?d = 1" "cia_cra ?d AND CRA_SPMODE = 0"
    by (auto simp: kbd_times_def word_unat_eq_iff split: if_splits)
  have "kbd_ok ?e" "kbd_items ?e = raw # rest"
    using ok q timers_kbd(2,3) [of c "snd (cia_step_ta c)"] by (simp_all add: kbd_ok_def kbd_items_def)
  then obtain q' where q': "cia_next_keycode ?e = (q', Some raw)" "kbd_items q' = rest"
    using keyboard.pop_cons by blast
  have "cia_tick_keyboard ?d = cia_raise (q'\<lparr>cia_sdr := encode_keyboard_byte raw, cia_kbd_loaded := True\<rparr>) ICR_SP"
    using dl q'(1) by (simp add: cia_tick_keyboard_def Let_def)
  then show "cia_sdr (cia_tick_one_eclock c) = encode_keyboard_byte raw" "cia_kbd_loaded (cia_tick_one_eclock c)"
    "kbd_items (cia_tick_one_eclock c) = rest" "bit (cia_icr_data (cia_tick_one_eclock c)) ICR_SP"
    using q'(2) by (simp_all add: s cia_raise_def kbd_items_def bit_or_iff)
qed

lemma kbd_steps_wait:
  assumes t: "kbd_times c = [t]" and ok: "kbd_ok c"
  shows "n < t \<Longrightarrow> kbd_times ((cia_tick_one_eclock ^^ n) c) = [t - n] \<and> kbd_ok ((cia_tick_one_eclock ^^ n) c) \<and>
    cia_sdr ((cia_tick_one_eclock ^^ n) c) = cia_sdr c \<and>
    cia_kbd_loaded ((cia_tick_one_eclock ^^ n) c) = cia_kbd_loaded c \<and>
    kbd_items ((cia_tick_one_eclock ^^ n) c) = kbd_items c"
proof (induction n)
  case 0
  then show ?case using t ok by simp
next
  case (Suc n)
  let ?c = "(cia_tick_one_eclock ^^ n) c"
  from Suc have ih: "kbd_times ?c = [t - n]" "kbd_ok ?c" "cia_sdr ?c = cia_sdr c"
    "cia_kbd_loaded ?c = cia_kbd_loaded c" "kbd_items ?c = kbd_items c" by simp_all
  have "1 < t - n" using Suc.prems by linarith
  from kbd_step_wait [OF ih(1) this ih(2)] ih show ?case by simp
qed

lemma encode_decode: "word_rotr 1 (NOT (encode_keyboard_byte raw)) = raw"
  by (simp add: encode_keyboard_byte_def)

text \<open>C26 [functional]: A key pressed while the keyboard is idle reaches the guest after exactly one handshake time, 709
  E-clocks, whatever the timers do meanwhile: before that the serial data register is unchanged and no
  byte is marked loaded; at that point the register holds the rotated and inverted code, from which the
  guest's rotation recovers the key, the serial interrupt bit is set, and the remaining keys keep their
  order in the queue.\<close>

theorem keyboard_delivers_key:
  assumes "kbd_ok c" and "cia_id c = CiaA" and "cia_cra c AND CRA_SPMODE = 0" and "\<not> cia_kbd_loaded c"
    and "cia_kbd_delay c = 0" and "kbd_items c = raw # rest"
  shows "(\<forall>n < 709. cia_sdr (cia_tick_eclock c n) = cia_sdr c \<and> \<not> cia_kbd_loaded (cia_tick_eclock c n)) \<and>
    word_rotr 1 (NOT (cia_sdr (cia_tick_eclock c 709))) = raw \<and> cia_kbd_loaded (cia_tick_eclock c 709) \<and>
    bit (cia_icr_data (cia_tick_eclock c 709)) ICR_SP \<and> kbd_items (cia_tick_eclock c 709) = rest"
proof -
  have "cia_keyboard_len c > 0" using assms(6) by (metis length_greater_0_conv length_kbd_items list.distinct(1))
  then have t: "kbd_times c = [709]" using assms by (simp add: kbd_times_def)
  note w = kbd_steps_wait [OF t assms(1)]
  have early: "cia_sdr (cia_tick_eclock c n) = cia_sdr c \<and> \<not> cia_kbd_loaded (cia_tick_eclock c n)" if "n < 709" for n
    using w [of "unat n"] that assms(4) by (simp add: tick_eclock_loop word_less_nat_alt)
  have last: "cia_tick_eclock c 709 = cia_tick_one_eclock ((cia_tick_one_eclock ^^ 708) c)"
    by (simp only: tick_eclock_loop) (simp flip: funpow.simps(2) [THEN fun_cong, unfolded comp_apply])
  have e: "kbd_times ((cia_tick_one_eclock ^^ 708) c) = [1]" "kbd_ok ((cia_tick_one_eclock ^^ 708) c)"
    "kbd_items ((cia_tick_one_eclock ^^ 708) c) = raw # rest"
    using w [of 708] assms(6) by simp_all
  note d = kbd_step_deliver [OF e]
  have "word_rotr 1 (NOT (cia_sdr (cia_tick_eclock c 709))) = raw \<and> cia_kbd_loaded (cia_tick_eclock c 709) \<and>
    bit (cia_icr_data (cia_tick_eclock c 709)) ICR_SP \<and> kbd_items (cia_tick_eclock c 709) = rest"
    unfolding last using d encode_decode by simp
  with early show ?thesis by blast
qed

definition cia_key_sample :: cia where
  "cia_key_sample = cia_queue_keycode (cia_queue_keycode (cia_new CiaA) 0x45) 0x46"

lemma keyboard_delivers_key_witness:
  "kbd_items cia_key_sample = [0x45, 0x46] \<and>
   word_rotr 1 (NOT (cia_sdr (cia_tick_eclock cia_key_sample 709))) = 0x45 \<and>
   kbd_items (cia_tick_eclock cia_key_sample 709) = [0x46]"
proof -
  have q: "kbd_items cia_key_sample = [0x45, 0x46]"
    by (simp add: cia_key_sample_def cia_queue_keycode_def cia_new_def kbd_items_def ring_view_def upt_rec)
  have "kbd_ok cia_key_sample" "cia_id cia_key_sample = CiaA" "cia_cra cia_key_sample AND CRA_SPMODE = 0"
    "\<not> cia_kbd_loaded cia_key_sample" "cia_kbd_delay cia_key_sample = 0"
    by (simp_all add: cia_key_sample_def cia_queue_keycode_def cia_new_def kbd_ok_def ring_ok_def)
  from keyboard_delivers_key [OF this q] q show ?thesis by simp
qed

section \<open>The time-of-day counter\<close>

lemma tod_tick_latched [frame_simps]: "cia_tod_latched (cia_tod_tick c) = cia_tod_latched c"
  by (simp add: cia_tod_tick_def cia_check_tod_alarm_def cia_raise_def Let_def)

lemma tod_ticks_latched [frame_simps]: "cia_tod_latched ((cia_tod_tick ^^ n) c) = cia_tod_latched c"
  by (induction n) (simp_all add: frame_simps)

lemma read_tod_regs:
  "cia_read c CIA_TODHI = cia_read_tod c CIA_TODHI" "cia_read c CIA_TODMID = cia_read_tod c CIA_TODMID"
  "cia_read c CIA_TODLO = cia_read_tod c CIA_TODLO"
  by (simp_all add: cia_read_def)

lemma tod_bytes:
  assumes "(v :: u32) < 2 ^ 24"
  shows "push_bit 16 (ucast (ucast (drop_bit 16 v) :: u8)) OR push_bit 8 (ucast (ucast (drop_bit 8 v) :: u8)) OR
     ucast (ucast v :: u8) = v"
proof (rule bit_word_eqI)
  fix k assume "k < LENGTH(32)"
  have hi: "\<not> bit v k" if "24 \<le> k" for k
  proof -
    have "unat v < 2 ^ 24" using assms by (simp add: word_less_nat_alt)
    also have "(2 :: nat) ^ 24 \<le> 2 ^ k" using that by (rule power_increasing) simp
    finally show ?thesis by (simp add: bit_via_unat)
  qed
  consider "k < 8" | "8 \<le> k" "k < 16" | "16 \<le> k" "k < 24" | "24 \<le> k" by linarith
  then show "bit (push_bit 16 (ucast (ucast (drop_bit 16 v) :: u8)) OR push_bit 8 (ucast (ucast (drop_bit 8 v) :: u8)) OR
     ucast (ucast v :: u8) :: u32) k = bit v k"
    by cases (use hi \<open>k < _\<close> in \<open>auto simp: bit_simps\<close>)
qed

text \<open>A guest that reads the time-of-day counter in the documented order, high byte first, low byte last,
  sees one consistent 24-bit value, the counter at the moment of the high-byte read, however many
  times the counter advances between the reads; the low-byte read releases the latch.\<close>

lemma tod_snapshot_coherent:
  assumes "cia_tod_latched c = None" and "cia_tod c < 2 ^ 24"
    and "cia_read c CIA_TODHI = (c1, hi)" and "cia_read ((cia_tod_tick ^^ m) c1) CIA_TODMID = (c2, mid)"
    and "cia_read ((cia_tod_tick ^^ n) c2) CIA_TODLO = (c3, lo)"
  shows "push_bit 16 (ucast hi) OR push_bit 8 (ucast mid) OR ucast lo = cia_tod c \<and> cia_tod_latched c3 = None"
proof -
  have h: "c1 = c\<lparr>cia_tod_latched := Some (cia_tod c)\<rparr>" "hi = ucast (drop_bit 16 (cia_tod c))"
    using assms(1,3) unfolding read_tod_regs by (auto simp: cia_read_tod_def)
  then have l: "cia_tod_latched ((cia_tod_tick ^^ m) c1) = Some (cia_tod c)" by (simp add: frame_simps)
  then have m: "c2 = (cia_tod_tick ^^ m) c1" "mid = ucast (drop_bit 8 (cia_tod c))"
    using assms(4) unfolding read_tod_regs by (auto simp: cia_read_tod_def)
  then have "cia_tod_latched ((cia_tod_tick ^^ n) c2) = Some (cia_tod c)" using l by (simp add: frame_simps)
  then have "lo = ucast (cia_tod c)" "cia_tod_latched c3 = None"
    using assms(5) unfolding read_tod_regs by (auto simp: cia_read_tod_def)
  with h m tod_bytes [OF assms(2)] show ?thesis by simp
qed

lemma tod_snapshot_coherent_witness:
  "\<exists>c1 hi c2 mid c3 lo. let c = (cia_new CiaB)\<lparr>cia_tod := 0x0001FFFF\<rparr> in
     cia_read c CIA_TODHI = (c1, hi) \<and> cia_read ((cia_tod_tick ^^ 1) c1) CIA_TODMID = (c2, mid) \<and>
     cia_read ((cia_tod_tick ^^ 2) c2) CIA_TODLO = (c3, lo) \<and>
     push_bit 16 (ucast hi) OR push_bit 8 (ucast mid) OR ucast lo = (0x0001FFFF :: u32)"
proof -
  let ?c = "(cia_new CiaB)\<lparr>cia_tod := 0x0001FFFF\<rparr>"
  obtain c1 hi where 1: "cia_read ?c CIA_TODHI = (c1, hi)" by fastforce
  obtain c2 mid where 2: "cia_read ((cia_tod_tick ^^ 1) c1) CIA_TODMID = (c2, mid)" by fastforce
  obtain c3 lo where 3: "cia_read ((cia_tod_tick ^^ 2) c2) CIA_TODLO = (c3, lo)" by fastforce
  have "cia_tod_latched ?c = None" "cia_tod ?c < 2 ^ 24" by (simp_all add: cia_new_def)
  from tod_snapshot_coherent [OF this 1 2 3] 1 2 3 show ?thesis
    unfolding Let_def by (intro exI conjI) (assumption | simp)+
qed

section \<open>Timer periods\<close>

lemma tb_kbd_keep_ta [frame_simps]:
  "cia_cra (cia_step_tb c u) = cia_cra c" "cia_latch_a (cia_step_tb c u) = cia_latch_a c"
  "cia_timer_a (cia_step_tb c u) = cia_timer_a c"
  "cia_cra (cia_tick_keyboard c) = cia_cra c" "cia_latch_a (cia_tick_keyboard c) = cia_latch_a c"
  by (simp_all add: cia_step_tb_def step_timer_def cia_tick_keyboard_def cia_next_keycode_def cia_raise_def Let_def)

lemma ta_free_run_step:
  assumes "ta_runs c" "cia_cra c AND CRA_RUNMODE = 0"
  shows "cia_cra (cia_tick_one_eclock c) = cia_cra c" "cia_latch_a (cia_tick_one_eclock c) = cia_latch_a c"
    "cia_timer_a (cia_tick_one_eclock c) = (if cia_timer_a c = 0 then cia_latch_a c else cia_timer_a c - 1)"
proof -
  have "cia_cra (fst (cia_step_ta c)) = cia_cra c" "cia_latch_a (fst (cia_step_ta c)) = cia_latch_a c"
    "cia_timer_a (fst (cia_step_ta c)) = (if cia_timer_a c = 0 then cia_latch_a c else cia_timer_a c - 1)"
    using assms by (simp_all add: ta_runs_def cia_step_ta_def step_timer_def cia_raise_def Let_def)
  then show "cia_cra (cia_tick_one_eclock c) = cia_cra c" "cia_latch_a (cia_tick_one_eclock c) = cia_latch_a c"
    "cia_timer_a (cia_tick_one_eclock c) = (if cia_timer_a c = 0 then cia_latch_a c else cia_timer_a c - 1)"
    by (simp_all add: tick_one_split Let_def frame_simps)
qed

text \<open>In continuous mode timer A is an exact modulo counter: started at or below its latch, after
  any number of E-clocks the count is the one a counter of period latch + 1 has, so underflows are
  exactly latch + 1 E-clocks apart and no tick is lost across reloads.\<close>

lemma timer_a_period:
  assumes "ta_runs c" and "cia_cra c AND CRA_RUNMODE = 0" and "cia_timer_a c \<le> cia_latch_a c"
  shows "unat (cia_timer_a (cia_tick_eclock c n)) =
    unat (cia_latch_a c) - (unat (cia_latch_a c) - unat (cia_timer_a c) + unat n) mod (unat (cia_latch_a c) + 1)"
proof -
  let ?L = "unat (cia_latch_a c)" let ?s = "\<lambda>n. (cia_tick_one_eclock ^^ n) c"
  let ?p = "\<lambda>n. (?L - unat (cia_timer_a c) + n) mod (?L + 1)"
  have "ta_runs (?s n) \<and> cia_cra (?s n) = cia_cra c \<and> cia_latch_a (?s n) = cia_latch_a c \<and>
    unat (cia_timer_a (?s n)) = ?L - ?p n" for n
  proof (induction n)
    case 0
    have "unat (cia_timer_a c) \<le> ?L" using assms(3) by (simp add: word_le_nat_alt)
    then show ?case using assms(1) by simp
  next
    case (Suc n)
    then have ih: "ta_runs (?s n)" "cia_cra (?s n) AND CRA_RUNMODE = 0" "cia_cra (?s n) = cia_cra c"
      "cia_latch_a (?s n) = cia_latch_a c" "unat (cia_timer_a (?s n)) = ?L - ?p n"
      using assms(2) by simp_all
    note st = ta_free_run_step [OF ih(1,2)]
    have "?p (Suc n) = (if ?p n = ?L then 0 else Suc (?p n))"
      using mod_Suc [of "?L - unat (cia_timer_a c) + n" "?L + 1"] by simp
    moreover have "?p n \<le> ?L" by (simp add: less_Suc_eq_le [symmetric])
    moreover have "cia_timer_a (?s n) = 0 \<longleftrightarrow> ?p n = ?L"
      using ih(5) calculation(2) by (metis diff_diff_cancel diff_self_eq_0 minus_nat.diff_0 unat_eq_0)
    ultimately have "unat (cia_timer_a (?s (Suc n))) = ?L - ?p (Suc n)"
      using st(3) ih(4,5) by (simp add: unat_minus_one)
    then show ?case using st ih by (simp add: ta_runs_def)
  qed
  then show ?thesis by (simp add: tick_eclock_loop)
qed

lemma timer_a_period_witness:
  "unat (cia_timer_a (cia_tick_eclock cia_sample 1002)) = 1"
  using timer_a_period [of cia_sample 1002]
  by (simp add: cia_sample_def ta_runs_def cia_queue_keycode_def cia_new_def)

section \<open>The floppy drive\<close>

text \<open>The PRB writes a guest makes, each seen by the drive with the value before it.\<close>

fun fd_writes :: "floppy_drive \<Rightarrow> u8 \<Rightarrow> u8 list \<Rightarrow> floppy_drive" where
  "fd_writes f prev [] = f"
| "fd_writes f prev (v # vs) = fd_writes (fd_on_prb_write f prev v) v vs"

definition fd_ok :: "floppy_drive \<Rightarrow> bool" where
  "fd_ok f \<longleftrightarrow> fd_cylinder f \<le> MAX_CYLINDER \<and> fd_id_bit f \<le> 32 \<and>
     (fd_presence f = NoDrive \<longrightarrow> f = fd_new NoDrive)"

lemma fd_new_ok: "fd_ok (fd_new p)"
  by (cases p) (simp_all add: fd_ok_def fd_new_def)

lemma min_le_word: "min a b \<le> (b :: u8)"
  by simp

lemma sat_sub_le: "a \<le> m \<Longrightarrow> sat_sub_u8 a b \<le> (m :: u8)"
  by (auto simp: sat_sub_u8_def word_le_nat_alt unat_sub)

lemma fd_step_ok [inv_intros]: "fd_ok f \<Longrightarrow> fd_ok (fd_on_prb_write f prev v)"
  using sat_sub_le [of "fd_cylinder f" 79 1]
  by (auto simp: fd_ok_def fd_on_prb_write_def fd_step_edge_def fd_select_edge_def Let_def)

lemma fd_writes_ok: "fd_ok f \<Longrightarrow> fd_ok (fd_writes f prev vs)"
  by (induction vs arbitrary: f prev) (simp_all add: fd_step_ok)

lemma fd_step_presence [frame_simps]: "fd_presence (fd_on_prb_write f prev v) = fd_presence f"
  by (simp add: fd_on_prb_write_def fd_step_edge_def fd_select_edge_def Let_def)

lemma fd_writes_presence [frame_simps]: "fd_presence (fd_writes f prev vs) = fd_presence f"
  by (induction vs arbitrary: f prev) (simp_all add: frame_simps)

text \<open>Whatever the guest writes to the drive port, the head stays on cylinders 0 to 79 and the ID
  shift position within 0 to 32; with no drive fitted no sequence of writes changes anything and the
  four status lines read idle; with an empty drive the disk-change line is never released and the
  write-protect line never asserted while the drive is selected.\<close>

lemma floppy_port_invariant:
  "let f = fd_writes (fd_new p) prev vs in
     fd_cylinder f \<le> 79 \<and> fd_id_bit f \<le> 32 \<and>
     (case p of
        NoDrive \<Rightarrow> f = fd_new NoDrive \<and> fd_pra_status_bits f = FLOPPY_PRA_MASK
      | EmptyDrive \<Rightarrow>
          if fd_selected f then fd_pra_status_bits f AND (CIAA_DSKCHANGE OR CIAA_DSKPROT) = CIAA_DSKPROT \<and>
            (fd_pra_status_bits f AND CIAA_DSKTRACK0 = 0) = (fd_cylinder f = 0)
          else fd_pra_status_bits f = FLOPPY_PRA_MASK)"
proof -
  let ?f = "fd_writes (fd_new p) prev vs"
  have ok: "fd_ok ?f" by (intro fd_writes_ok fd_new_ok)
  have p: "fd_presence ?f = p" by (simp add: frame_simps fd_new_def)
  have "fd_pra_status_bits (fd_new NoDrive) = FLOPPY_PRA_MASK"
    by (simp add: fd_pra_status_bits_def fd_new_def)
  with ok p show ?thesis
    by (cases p) (simp add: fd_ok_def, metis, simp add: fd_ok_def fd_pra_status_bits_def Let_def)
qed

text \<open>
  The identification sequence: the motor is switched off by a select with MTR high, after which the
  guest deselects and reselects the drive repeatedly. \<open>0x8F\<close> deselects with MTR high, \<open>0x87\<close> selects with it.
\<close>

fun fd_id_cycles :: "floppy_drive \<Rightarrow> nat \<Rightarrow> floppy_drive" where
  "fd_id_cycles f 0 = f"
| "fd_id_cycles f (Suc n) = fd_on_prb_write (fd_on_prb_write (fd_id_cycles f n) 0x87 0x8F) 0x8F 0x87"

lemma fd_id_cycle:
  assumes "fd_presence f = EmptyDrive" "fd_id_mode f" "\<not> fd_motor_on f" "fd_id_bit f \<le> 32"
  shows "let g = fd_on_prb_write (fd_on_prb_write f 0x87 0x8F) 0x8F 0x87 in
    fd_presence g = EmptyDrive \<and> fd_id_mode g \<and> \<not> fd_motor_on g \<and> fd_selected g \<and> \<not> fd_id_hold_first_edge g \<and>
    unat (fd_id_bit g) = (if fd_id_hold_first_edge f then unat (fd_id_bit f) else min (unat (fd_id_bit f) + 1) 32)"
proof -
  have "unat (sat_add_u8 (fd_id_bit f) 1) = unat (fd_id_bit f) + 1"
    using assms(4) by (simp add: sat_add_u8_def word_le_nat_alt unat_word_ariths)
  then show ?thesis
    using assms by (simp add: fd_on_prb_write_def fd_step_edge_def fd_select_edge_def Let_def unat_min)
qed

lemma fd_id_cycles_state:
  assumes "fd_presence f = EmptyDrive" "fd_id_mode f" "\<not> fd_motor_on f" "fd_id_bit f = 0" "fd_id_hold_first_edge f"
  shows "let g = fd_id_cycles f (Suc n) in
    fd_presence g = EmptyDrive \<and> fd_id_mode g \<and> \<not> fd_motor_on g \<and> fd_selected g \<and> \<not> fd_id_hold_first_edge g \<and>
    unat (fd_id_bit g) = min n 32"
proof (induction n)
  case 0
  then show ?case using fd_id_cycle [of f] assms by simp
next
  case (Suc n)
  let ?g = "fd_id_cycles f (Suc n)"
  have "fd_id_bit ?g \<le> 32" using Suc by (simp add: Let_def word_le_nat_alt)
  then show ?case
    using fd_id_cycle [of ?g] Suc unfolding fd_id_cycles.simps(2) [of f "Suc n"] Let_def by simp
qed

text \<open>Switching the motor of a present drive off starts its identification: on the reselects that
  follow, the ready line carries the 32 bits of the drive ID, most significant first, one per reselect
  (asserted for a set bit), and is released for good afterwards.\<close>

lemma floppy_id_shifts_out:
  assumes "fd_presence f = EmptyDrive" and "fd_motor_on f" and "\<not> fd_selected f"
  shows "(fd_pra_status_bits (fd_id_cycles (fd_on_prb_write f 0x8F 0x87) (Suc n)) AND CIAA_DSKRDY = 0) =
    (n < 32 \<and> bit (drive_id EmptyDrive) (31 - n))"
proof -
  let ?h = "fd_on_prb_write f 0x8F 0x87" let ?g = "fd_id_cycles ?h (Suc n)"
  have h: "fd_presence ?h = EmptyDrive" "fd_id_mode ?h" "\<not> fd_motor_on ?h" "fd_id_bit ?h = 0" "fd_id_hold_first_edge ?h"
    using assms by (simp_all add: fd_on_prb_write_def fd_step_edge_def fd_select_edge_def Let_def)
  have g: "fd_presence ?g = EmptyDrive" "fd_id_mode ?g" "\<not> fd_motor_on ?g" "fd_selected ?g" "unat (fd_id_bit ?g) = min n 32"
    using fd_id_cycles_state [OF h, of n] by (simp_all add: Let_def)
  have "fd_id_shift_bit ?g = (n < 32 \<and> bit (drive_id EmptyDrive) (31 - n))"
  proof (cases "n < 32")
    case True
    then have b: "unat (fd_id_bit ?g) = n" using g(5) by simp
    then have "unat (31 - fd_id_bit ?g) = 31 - n"
      using True by (simp add: unat_sub word_le_nat_alt)
    then show ?thesis
      using True b g(1) and_single_bit [of "31 - n" "drive_id EmptyDrive"]
      by (simp add: fd_id_shift_bit_def shift_id_bit_def word_le_nat_alt)
  next
    case False
    then show ?thesis using g(5) by (simp add: fd_id_shift_bit_def shift_id_bit_def word_le_nat_alt)
  qed
  then show ?thesis
    using g(1-4) by (simp add: fd_pra_status_bits_def Let_def)
qed

lemma floppy_id_shifts_out_witness:
  "let f = (fd_new EmptyDrive)\<lparr>fd_motor_on := True\<rparr> in
     fd_pra_status_bits (fd_id_cycles (fd_on_prb_write f 0x8F 0x87) (Suc 31)) AND CIAA_DSKRDY = 0 \<and>
     fd_pra_status_bits (fd_id_cycles (fd_on_prb_write f 0x8F 0x87) (Suc 32)) AND CIAA_DSKRDY \<noteq> 0"
proof -
  let ?f = "(fd_new EmptyDrive)\<lparr>fd_motor_on := True\<rparr>"
  have f: "fd_presence ?f = EmptyDrive" "fd_motor_on ?f" "\<not> fd_selected ?f" by (simp_all add: fd_new_def)
  have "bit (drive_id EmptyDrive) 0" by (simp add: drive_id_def)
  then show ?thesis
    using floppy_id_shifts_out [OF f, of 31] floppy_id_shifts_out [OF f, of 32] unfolding Let_def by simp
qed

end
