(* ===== verification/Blitter.thy ===== *)
theory Blitter
  imports GuestMem
begin

text \<open>
  The software blitter of \<open>crates/machine-core/src/blitter.rs\<close>: its register file, area mode (minterm
  combination of three source channels with barrel shifters, word masks, modulos, both directions and
  fill) and line mode (Bresenham stepping). Chip RAM is the byte list of the bus, 2 MB long.

  Shown: the minterm is the truth table its control byte names, the shifter is a shift of two adjacent
  words, the fill is a running parity along a row; an area blit computes, for every word of the rectangle, the
  reference value given by these from the initial memory, provided no word is fetched after it has been
  written; every byte a blit changes is in the device-write log; a line blit visits the pixels of a reference
  Bresenham walk. Pointers wrap and are masked, so no pointer value leaves chip RAM.
\<close>

section \<open>Registers\<close>

(* src/crates/machine-core/src/blitter.rs:26-26 reg::BLTDDAT *)
definition REG_BLTDDAT :: u16 where [simp]: "REG_BLTDDAT = 0x000"
(* src/crates/machine-core/src/blitter.rs:27-27 reg::BLTCON0 *)
definition REG_BLTCON0 :: u16 where [simp]: "REG_BLTCON0 = 0x040"
(* src/crates/machine-core/src/blitter.rs:28-28 reg::BLTCON1 *)
definition REG_BLTCON1 :: u16 where [simp]: "REG_BLTCON1 = 0x042"
(* src/crates/machine-core/src/blitter.rs:29-29 reg::BLTAFWM *)
definition REG_BLTAFWM :: u16 where [simp]: "REG_BLTAFWM = 0x044"
(* src/crates/machine-core/src/blitter.rs:30-30 reg::BLTALWM *)
definition REG_BLTALWM :: u16 where [simp]: "REG_BLTALWM = 0x046"
(* src/crates/machine-core/src/blitter.rs:31-31 reg::BLTCPTH *)
definition REG_BLTCPTH :: u16 where [simp]: "REG_BLTCPTH = 0x048"
(* src/crates/machine-core/src/blitter.rs:32-32 reg::BLTCPTL *)
definition REG_BLTCPTL :: u16 where [simp]: "REG_BLTCPTL = 0x04A"
(* src/crates/machine-core/src/blitter.rs:33-33 reg::BLTBPTH *)
definition REG_BLTBPTH :: u16 where [simp]: "REG_BLTBPTH = 0x04C"
(* src/crates/machine-core/src/blitter.rs:34-34 reg::BLTBPTL *)
definition REG_BLTBPTL :: u16 where [simp]: "REG_BLTBPTL = 0x04E"
(* src/crates/machine-core/src/blitter.rs:35-35 reg::BLTAPTH *)
definition REG_BLTAPTH :: u16 where [simp]: "REG_BLTAPTH = 0x050"
(* src/crates/machine-core/src/blitter.rs:36-36 reg::BLTAPTL *)
definition REG_BLTAPTL :: u16 where [simp]: "REG_BLTAPTL = 0x052"
(* src/crates/machine-core/src/blitter.rs:37-37 reg::BLTDPTH *)
definition REG_BLTDPTH :: u16 where [simp]: "REG_BLTDPTH = 0x054"
(* src/crates/machine-core/src/blitter.rs:38-38 reg::BLTDPTL *)
definition REG_BLTDPTL :: u16 where [simp]: "REG_BLTDPTL = 0x056"
(* src/crates/machine-core/src/blitter.rs:39-39 reg::BLTSIZE *)
definition REG_BLTSIZE :: u16 where [simp]: "REG_BLTSIZE = 0x058"
(* src/crates/machine-core/src/blitter.rs:40-40 reg::BLTCON0L *)
definition REG_BLTCON0L :: u16 where [simp]: "REG_BLTCON0L = 0x05A"
(* src/crates/machine-core/src/blitter.rs:41-41 reg::BLTSIZV *)
definition REG_BLTSIZV :: u16 where [simp]: "REG_BLTSIZV = 0x05C"
(* src/crates/machine-core/src/blitter.rs:42-42 reg::BLTSIZH *)
definition REG_BLTSIZH :: u16 where [simp]: "REG_BLTSIZH = 0x05E"
(* src/crates/machine-core/src/blitter.rs:43-43 reg::BLTCMOD *)
definition REG_BLTCMOD :: u16 where [simp]: "REG_BLTCMOD = 0x060"
(* src/crates/machine-core/src/blitter.rs:44-44 reg::BLTBMOD *)
definition REG_BLTBMOD :: u16 where [simp]: "REG_BLTBMOD = 0x062"
(* src/crates/machine-core/src/blitter.rs:45-45 reg::BLTAMOD *)
definition REG_BLTAMOD :: u16 where [simp]: "REG_BLTAMOD = 0x064"
(* src/crates/machine-core/src/blitter.rs:46-46 reg::BLTDMOD *)
definition REG_BLTDMOD :: u16 where [simp]: "REG_BLTDMOD = 0x066"
(* src/crates/machine-core/src/blitter.rs:47-47 reg::BLTCDAT *)
definition REG_BLTCDAT :: u16 where [simp]: "REG_BLTCDAT = 0x070"
(* src/crates/machine-core/src/blitter.rs:48-48 reg::BLTBDAT *)
definition REG_BLTBDAT :: u16 where [simp]: "REG_BLTBDAT = 0x072"
(* src/crates/machine-core/src/blitter.rs:49-49 reg::BLTADAT *)
definition REG_BLTADAT :: u16 where [simp]: "REG_BLTADAT = 0x074"
(* src/crates/machine-core/src/blitter.rs:59-59 CHAN_A *)
definition CHAN_A :: nat where [simp]: "CHAN_A = 0"
(* src/crates/machine-core/src/blitter.rs:60-60 CHAN_B *)
definition CHAN_B :: nat where [simp]: "CHAN_B = 1"
(* src/crates/machine-core/src/blitter.rs:61-61 CHAN_C *)
definition CHAN_C :: nat where [simp]: "CHAN_C = 2"
(* src/crates/machine-core/src/blitter.rs:62-62 CHAN_D *)
definition CHAN_D :: nat where [simp]: "CHAN_D = 3"
(* src/crates/machine-core/src/blitter.rs:64-66 DMACONR_BBUSY *)
definition DMACONR_BBUSY :: u16 where [simp]: "DMACONR_BBUSY = 0x4000"
(* src/crates/machine-core/src/blitter.rs:67-68 DMACONR_BZERO *)
definition DMACONR_BZERO :: u16 where [simp]: "DMACONR_BZERO = 0x2000"
(* src/crates/machine-core/src/blitter.rs:70-71 BLTCON0_USEA *)
definition BLTCON0_USEA :: u16 where [simp]: "BLTCON0_USEA = 0x0800"
(* src/crates/machine-core/src/blitter.rs:72-72 BLTCON0_USEB *)
definition BLTCON0_USEB :: u16 where [simp]: "BLTCON0_USEB = 0x0400"
(* src/crates/machine-core/src/blitter.rs:73-73 BLTCON0_USEC *)
definition BLTCON0_USEC :: u16 where [simp]: "BLTCON0_USEC = 0x0200"
(* src/crates/machine-core/src/blitter.rs:74-74 BLTCON0_USED *)
definition BLTCON0_USED :: u16 where [simp]: "BLTCON0_USED = 0x0100"
(* src/crates/machine-core/src/blitter.rs:76-77 BLTCON1_LINE *)
definition BLTCON1_LINE :: u16 where [simp]: "BLTCON1_LINE = 0x0001"
(* src/crates/machine-core/src/blitter.rs:78-81 BLTCON1_DESC *)
definition BLTCON1_DESC :: u16 where [simp]: "BLTCON1_DESC = 0x0002"
(* src/crates/machine-core/src/blitter.rs:82-91 BLTCON1_FCI *)
definition BLTCON1_FCI :: u16 where [simp]: "BLTCON1_FCI = 0x0004"
(* src/crates/machine-core/src/blitter.rs:92-93 BLTCON1_IFE *)
definition BLTCON1_IFE :: u16 where [simp]: "BLTCON1_IFE = 0x0008"
(* src/crates/machine-core/src/blitter.rs:94-95 BLTCON1_EFE *)
definition BLTCON1_EFE :: u16 where [simp]: "BLTCON1_EFE = 0x0010"
(* src/crates/machine-core/src/blitter.rs:96-97 BLTCON1_SIGN *)
definition BLTCON1_SIGN :: u16 where [simp]: "BLTCON1_SIGN = 0x0040"
(* src/crates/machine-core/src/blitter.rs:99-104 BLTCON1_SING *)
definition BLTCON1_SING :: u16 where [simp]: "BLTCON1_SING = 0x0002"
(* src/crates/machine-core/src/blitter.rs:105-107 BLTCON1_AUL *)
definition BLTCON1_AUL :: u16 where [simp]: "BLTCON1_AUL = 0x0004"
(* src/crates/machine-core/src/blitter.rs:108-110 BLTCON1_SUL *)
definition BLTCON1_SUL :: u16 where [simp]: "BLTCON1_SUL = 0x0008"
(* src/crates/machine-core/src/blitter.rs:111-113 BLTCON1_SUD *)
definition BLTCON1_SUD :: u16 where [simp]: "BLTCON1_SUD = 0x0010"

(* src/crates/machine-core/src/blitter.rs:51-55 reg::is_blitter *)
definition is_blitter :: "u16 \<Rightarrow> bool" where
  "is_blitter offset \<longleftrightarrow> offset = REG_BLTDDAT \<or> (REG_BLTCON0 \<le> offset \<and> offset \<le> REG_BLTDMOD) \<or>
     (REG_BLTCDAT \<le> offset \<and> offset \<le> REG_BLTADAT)"

text \<open>Arrays indexed by channel are lists of length four; an \<open>i16\<close> modulo is the 16-bit word read as signed.\<close>

(* src/crates/machine-core/src/blitter.rs:115-142 Blitter *)
record blitter =
  bltcon0 :: u16
  bltcon1 :: u16
  bltafwm :: u16
  bltalwm :: u16
  blt_pt :: "u32 list"
  blt_modulo :: "u16 list"
  blt_dat :: "u16 list"
  bltddat :: u16
  width_words :: u16
  height_rows :: u16
  blt_zero :: bool
  blt_pending :: bool

(* src/crates/machine-core/src/blitter.rs:145-153 Blitter::new *)
definition blt_new :: blitter where
  "blt_new = \<lparr>bltcon0 = 0, bltcon1 = 0, bltafwm = 0, bltalwm = 0, blt_pt = replicate 4 0, blt_modulo = replicate 4 0,
     blt_dat = replicate 4 0, bltddat = 0, width_words = 0, height_rows = 0, blt_zero = True, blt_pending = False\<rparr>"

(* src/crates/machine-core/src/blitter.rs:155-162 Blitter::dmaconr_bits *)
definition blt_dmaconr_bits :: "blitter \<Rightarrow> u16" where
  "blt_dmaconr_bits b = (if blt_zero b then DMACONR_BZERO else 0)"

(* src/crates/machine-core/src/blitter.rs:164-172 Blitter::read *)
definition blt_read :: "blitter \<Rightarrow> u16 \<Rightarrow> u16" where
  "blt_read b offset = (if offset = REG_BLTDDAT then bltddat b else 0xFFFF)"

(* src/crates/machine-core/src/blitter.rs:733-742 set_ptr_hi *)
definition blt_ptr_hi :: "u32 \<Rightarrow> u16 \<Rightarrow> u32" where
  "blt_ptr_hi ptr value = (ptr AND 0x0000FFFF) OR push_bit 16 (ucast (value AND 0x001F))"

(* src/crates/machine-core/src/blitter.rs:744-747 set_ptr_lo *)
definition blt_ptr_lo :: "u32 \<Rightarrow> u16 \<Rightarrow> u32" where
  "blt_ptr_lo ptr value = (ptr AND 0xFFFF0000) OR ucast (value AND 0xFFFE)"

(* src/crates/machine-core/src/blitter.rs:190-197 Blitter::write *)
definition blt_set_ptr :: "blitter \<Rightarrow> nat \<Rightarrow> (u32 \<Rightarrow> u32) \<Rightarrow> blitter" where
  "blt_set_ptr b ch f = b\<lparr>blt_pt := (blt_pt b)[ch := f (blt_pt b ! ch)]\<rparr>"

(* src/crates/machine-core/src/blitter.rs:174-228 Blitter::write *)
definition blt_write :: "blitter \<Rightarrow> u16 \<Rightarrow> u16 \<Rightarrow> blitter \<times> bool" where
  "blt_write b offset value =
     (let b1 =
        (if offset = REG_BLTCON0 then b\<lparr>bltcon0 := value\<rparr>
         else if offset = REG_BLTCON1 then b\<lparr>bltcon1 := value\<rparr>
         else if offset = REG_BLTCON0L then b\<lparr>bltcon0 := (bltcon0 b AND 0xFF00) OR (value AND 0x00FF)\<rparr>
         else if offset = REG_BLTAFWM then b\<lparr>bltafwm := value\<rparr>
         else if offset = REG_BLTALWM then b\<lparr>bltalwm := value\<rparr>
         else if offset = REG_BLTAPTH then blt_set_ptr b CHAN_A (\<lambda>p. blt_ptr_hi p value)
         else if offset = REG_BLTAPTL then blt_set_ptr b CHAN_A (\<lambda>p. blt_ptr_lo p value)
         else if offset = REG_BLTBPTH then blt_set_ptr b CHAN_B (\<lambda>p. blt_ptr_hi p value)
         else if offset = REG_BLTBPTL then blt_set_ptr b CHAN_B (\<lambda>p. blt_ptr_lo p value)
         else if offset = REG_BLTCPTH then blt_set_ptr b CHAN_C (\<lambda>p. blt_ptr_hi p value)
         else if offset = REG_BLTCPTL then blt_set_ptr b CHAN_C (\<lambda>p. blt_ptr_lo p value)
         else if offset = REG_BLTDPTH then blt_set_ptr b CHAN_D (\<lambda>p. blt_ptr_hi p value)
         else if offset = REG_BLTDPTL then blt_set_ptr b CHAN_D (\<lambda>p. blt_ptr_lo p value)
         else if offset = REG_BLTAMOD then b\<lparr>blt_modulo := (blt_modulo b)[CHAN_A := value]\<rparr>
         else if offset = REG_BLTBMOD then b\<lparr>blt_modulo := (blt_modulo b)[CHAN_B := value]\<rparr>
         else if offset = REG_BLTCMOD then b\<lparr>blt_modulo := (blt_modulo b)[CHAN_C := value]\<rparr>
         else if offset = REG_BLTDMOD then b\<lparr>blt_modulo := (blt_modulo b)[CHAN_D := value]\<rparr>
         else if offset = REG_BLTADAT then b\<lparr>blt_dat := (blt_dat b)[CHAN_A := value]\<rparr>
         else if offset = REG_BLTBDAT then b\<lparr>blt_dat := (blt_dat b)[CHAN_B := value]\<rparr>
         else if offset = REG_BLTCDAT then b\<lparr>blt_dat := (blt_dat b)[CHAN_C := value]\<rparr>
         else if offset = REG_BLTSIZE then
           let h = drop_bit 6 value AND 0x03FF; w = value AND 0x003F
           in b\<lparr>height_rows := (if h = 0 then 1024 else h), width_words := (if w = 0 then 64 else w), blt_pending := True\<rparr>
         else if offset = REG_BLTSIZV then b\<lparr>height_rows := value AND 0x7FFF\<rparr>
         else if offset = REG_BLTSIZH then b\<lparr>width_words := value AND 0x07FF, blt_pending := True\<rparr>
         else b)
      in (b1, blt_pending b1))"

section \<open>Chip RAM words\<close>

(* src/crates/machine-core/src/blitter.rs:545-553 chip_addr *)
definition chip_addr :: "u32 \<Rightarrow> nat" where
  "chip_addr ptr = unat (ptr AND of_nat (CHIP_RAM_SIZE - 1) AND NOT 1)"

(* src/crates/machine-core/src/blitter.rs:555-558 read_word *)
definition blt_read_word :: "u8 list \<Rightarrow> u32 \<Rightarrow> u16" where
  "blt_read_word ram ptr = (let off = chip_addr ptr in from_be [ram ! off, ram ! (off + 1)])"

(* src/crates/machine-core/src/blitter.rs:560-579 write_word *)
definition blt_write_word :: "u8 list \<Rightarrow> device_write_log option \<Rightarrow> u32 \<Rightarrow> u16 \<Rightarrow> u8 list \<times> device_write_log option" where
  "blt_write_word ram log ptr value =
     (let off = chip_addr ptr; bytes = to_be 2 value
      in (ram[off := bytes ! 0, off + 1 := bytes ! 1], map_option (\<lambda>log. dwl_record log (of_nat off) 2) log))"

section \<open>The data path\<close>

(* src/crates/machine-core/src/blitter.rs:581-616 minterm *)
definition minterm :: "u8 \<Rightarrow> u16 \<Rightarrow> u16 \<Rightarrow> u16 \<Rightarrow> u16" where
  "minterm lf a b c =
     (let na = NOT a; nb = NOT b; nc = NOT c;
          d0 = 0;
          d1 = (if lf AND 0x80 \<noteq> 0 then d0 OR (a AND b AND c) else d0);
          d2 = (if lf AND 0x40 \<noteq> 0 then d1 OR (a AND b AND nc) else d1);
          d3 = (if lf AND 0x20 \<noteq> 0 then d2 OR (a AND nb AND c) else d2);
          d4 = (if lf AND 0x10 \<noteq> 0 then d3 OR (a AND nb AND nc) else d3);
          d5 = (if lf AND 0x08 \<noteq> 0 then d4 OR (na AND b AND c) else d4);
          d6 = (if lf AND 0x04 \<noteq> 0 then d5 OR (na AND b AND nc) else d5);
          d7 = (if lf AND 0x02 \<noteq> 0 then d6 OR (na AND nb AND c) else d6);
          d8 = (if lf AND 0x01 \<noteq> 0 then d7 OR (na AND nb AND nc) else d7)
      in d8)"

(* src/crates/machine-core/src/blitter.rs:618-638 shift_combine *)
definition shift_combine :: "u16 \<Rightarrow> u16 \<Rightarrow> nat \<Rightarrow> bool \<Rightarrow> u16" where
  "shift_combine prev cur n desc =
     (if n = 0 then cur
      else if desc then
        let combined = push_bit 16 (ucast cur :: u32) OR ucast prev
        in ucast (drop_bit 16 (push_bit n combined))
      else
        let combined = push_bit 16 (ucast prev :: u32) OR ucast cur
        in ucast (drop_bit n combined))"

(* src/crates/machine-core/src/blitter.rs:647-659 apply_fill *)
definition fill_bit :: "u16 \<Rightarrow> bool \<Rightarrow> bool \<Rightarrow> nat \<Rightarrow> u16 \<times> u16 \<Rightarrow> u16 \<times> u16" where
  "fill_bit d ife efe b st =
     (let (out, fill_state) = st; mask = push_bit b 1;
          out1 = (if fill_state \<noteq> 0 then if ife then out OR mask else if efe then out XOR mask else out else out);
          fill_state1 = (if d AND mask \<noteq> 0 then fill_state XOR 1 else fill_state)
      in (out1, fill_state1))"

(* src/crates/machine-core/src/blitter.rs:640-661 apply_fill *)
definition apply_fill :: "u16 \<Rightarrow> u16 \<Rightarrow> bool \<Rightarrow> bool \<Rightarrow> u16 \<times> u16" where
  "apply_fill d fill_state ife efe = fold (fill_bit d ife efe) [0..<16] (d, fill_state)"

(* src/crates/machine-core/src/blitter.rs:727-731 even *)
definition even_modulo :: "u16 \<Rightarrow> u16" where
  "even_modulo m = m AND NOT 1"

section \<open>Area mode\<close>

(* src/crates/machine-core/src/blitter.rs:285-285 Blitter::execute_area *)
definition use_a :: "blitter \<Rightarrow> bool" where "use_a b \<longleftrightarrow> bltcon0 b AND BLTCON0_USEA \<noteq> 0"
(* src/crates/machine-core/src/blitter.rs:286-286 Blitter::execute_area *)
definition use_b :: "blitter \<Rightarrow> bool" where "use_b b \<longleftrightarrow> bltcon0 b AND BLTCON0_USEB \<noteq> 0"
(* src/crates/machine-core/src/blitter.rs:287-287 Blitter::execute_area *)
definition use_c :: "blitter \<Rightarrow> bool" where "use_c b \<longleftrightarrow> bltcon0 b AND BLTCON0_USEC \<noteq> 0"
(* src/crates/machine-core/src/blitter.rs:288-288 Blitter::execute_area *)
definition use_d :: "blitter \<Rightarrow> bool" where "use_d b \<longleftrightarrow> bltcon0 b AND BLTCON0_USED \<noteq> 0"
(* src/crates/machine-core/src/blitter.rs:289-289 Blitter::execute_area *)
definition blt_ash :: "blitter \<Rightarrow> nat" where "blt_ash b = unat (drop_bit 12 (bltcon0 b) AND 0x000F)"
(* src/crates/machine-core/src/blitter.rs:290-290 Blitter::execute_area *)
definition blt_bsh :: "blitter \<Rightarrow> nat" where "blt_bsh b = unat (drop_bit 12 (bltcon1 b) AND 0x000F)"
(* src/crates/machine-core/src/blitter.rs:291-291 Blitter::execute_area *)
definition blt_desc :: "blitter \<Rightarrow> bool" where "blt_desc b \<longleftrightarrow> bltcon1 b AND BLTCON1_DESC \<noteq> 0"
(* src/crates/machine-core/src/blitter.rs:292-292 Blitter::execute_area *)
definition blt_lf :: "blitter \<Rightarrow> u8" where "blt_lf b = ucast (bltcon0 b AND 0x00FF)"
(* src/crates/machine-core/src/blitter.rs:293-293 Blitter::execute_area *)
definition blt_ife :: "blitter \<Rightarrow> bool" where "blt_ife b \<longleftrightarrow> bltcon1 b AND BLTCON1_IFE \<noteq> 0"
(* src/crates/machine-core/src/blitter.rs:294-294 Blitter::execute_area *)
definition blt_efe :: "blitter \<Rightarrow> bool" where "blt_efe b \<longleftrightarrow> bltcon1 b AND BLTCON1_EFE \<noteq> 0"
(* src/crates/machine-core/src/blitter.rs:295-295 Blitter::execute_area *)
definition blt_fci :: "blitter \<Rightarrow> u16" where "blt_fci b = (if bltcon1 b AND BLTCON1_FCI \<noteq> 0 then 1 else 0)"
(* src/crates/machine-core/src/blitter.rs:296-300 Blitter::execute_area *)
definition blt_fill :: "blitter \<Rightarrow> bool" where "blt_fill b \<longleftrightarrow> blt_desc b \<and> (blt_ife b \<or> blt_efe b)"
(* src/crates/machine-core/src/blitter.rs:302-302 Blitter::execute_area *)
definition blt_step :: "blitter \<Rightarrow> u32" where "blt_step b = (if blt_desc b then -2 else 2)"

(* src/crates/machine-core/src/blitter.rs:303-318 Blitter::execute_area *)
definition signed_step :: "blitter \<Rightarrow> nat \<Rightarrow> u32" where
  "signed_step b ch =
     (let m = scast (even_modulo (blt_modulo b ! ch)) in if blt_desc b then - m else m)"

text \<open>The local variables of the loop, with the two fields of \<open>self\<close> that the loop changes.\<close>

(* src/crates/machine-core/src/blitter.rs:320-341 Blitter::execute_area *)
record area =
  ar_ram :: "u8 list"
  ar_log :: "device_write_log option"
  ar_apt :: u32
  ar_bpt :: u32
  ar_cpt :: u32
  ar_dpt :: u32
  ar_a_prev :: u16
  ar_b_prev :: u16
  ar_last_d :: u16
  ar_dat_c :: u16
  ar_zero :: bool
  ar_fill_state :: u16

(* src/crates/machine-core/src/blitter.rs:347-369 Blitter::execute_area *)
definition area_fetch_a :: "blitter \<Rightarrow> nat \<Rightarrow> area \<Rightarrow> area \<times> u16" where
  "area_fetch_a b word_idx s =
     (let first = (word_idx = 0); last = (word_idx + 1 = unat (width_words b));
          (s1, a_raw) = (if use_a b then (s\<lparr>ar_apt := ar_apt s + blt_step b\<rparr>, blt_read_word (ar_ram s) (ar_apt s))
                         else (s, blt_dat b ! CHAN_A));
          m1 = (if first then a_raw AND bltafwm b else a_raw);
          a_masked = (if last then m1 AND bltalwm b else m1)
      in (s1\<lparr>ar_a_prev := a_masked\<rparr>, shift_combine (ar_a_prev s1) a_masked (blt_ash b) (blt_desc b)))"

(* src/crates/machine-core/src/blitter.rs:371-382 Blitter::execute_area *)
definition area_fetch_b :: "blitter \<Rightarrow> area \<Rightarrow> area \<times> u16" where
  "area_fetch_b b s =
     (if use_b b then
        let v = blt_read_word (ar_ram s) (ar_bpt s)
        in (s\<lparr>ar_bpt := ar_bpt s + blt_step b, ar_b_prev := v\<rparr>, shift_combine (ar_b_prev s) v (blt_bsh b) (blt_desc b))
      else (s, blt_dat b ! CHAN_B))"

(* src/crates/machine-core/src/blitter.rs:384-392 Blitter::execute_area *)
definition area_fetch_c :: "blitter \<Rightarrow> area \<Rightarrow> area \<times> u16" where
  "area_fetch_c b s =
     (if use_c b then
        let v = blt_read_word (ar_ram s) (ar_cpt s)
        in (s\<lparr>ar_cpt := ar_cpt s + blt_step b, ar_dat_c := v\<rparr>, v)
      else (s, ar_dat_c s))"

(* src/crates/machine-core/src/blitter.rs:394-407 Blitter::execute_area *)
definition area_store :: "blitter \<Rightarrow> area \<Rightarrow> u16 \<Rightarrow> area" where
  "area_store b s d0 =
     (let (d, fs) = (if blt_fill b then apply_fill d0 (ar_fill_state s) (blt_ife b) (blt_efe b) else (d0, ar_fill_state s));
          s1 = s\<lparr>ar_fill_state := fs, ar_zero := (if d \<noteq> 0 then False else ar_zero s), ar_last_d := d\<rparr>
      in if use_d b then
           let (ram, log) = blt_write_word (ar_ram s1) (ar_log s1) (ar_dpt s1) d
           in s1\<lparr>ar_ram := ram, ar_log := log, ar_dpt := ar_dpt s1 + blt_step b\<rparr>
         else s1)"

(* src/crates/machine-core/src/blitter.rs:346-408 Blitter::execute_area *)
definition area_word :: "blitter \<Rightarrow> nat \<Rightarrow> area \<Rightarrow> area" where
  "area_word b word_idx s =
     (let (s1, av) = area_fetch_a b word_idx s;
          (s2, bv) = area_fetch_b b s1;
          (s3, cv) = area_fetch_c b s2
      in area_store b s3 (minterm (blt_lf b) av bv cv))"

(* src/crates/machine-core/src/blitter.rs:410-421 Blitter::execute_area *)
definition area_end_row :: "blitter \<Rightarrow> area \<Rightarrow> area" where
  "area_end_row b s =
     (let s1 = (if use_a b then s\<lparr>ar_apt := ar_apt s + signed_step b CHAN_A\<rparr> else s);
          s2 = (if use_b b then s1\<lparr>ar_bpt := ar_bpt s1 + signed_step b CHAN_B\<rparr> else s1);
          s3 = (if use_c b then s2\<lparr>ar_cpt := ar_cpt s2 + signed_step b CHAN_C\<rparr> else s2)
      in if use_d b then s3\<lparr>ar_dpt := ar_dpt s3 + signed_step b CHAN_D\<rparr> else s3)"

(* src/crates/machine-core/src/blitter.rs:343-422 Blitter::execute_area *)
definition area_row :: "blitter \<Rightarrow> area \<Rightarrow> area" where
  "area_row b s = area_end_row b (fold (area_word b) [0..<unat (width_words b)] (s\<lparr>ar_fill_state := blt_fci b\<rparr>))"

(* src/crates/machine-core/src/blitter.rs:320-341 Blitter::execute_area *)
definition area_init :: "blitter \<Rightarrow> u8 list \<Rightarrow> device_write_log option \<Rightarrow> area" where
  "area_init b ram log = \<lparr>ar_ram = ram, ar_log = log, ar_apt = blt_pt b ! CHAN_A, ar_bpt = blt_pt b ! CHAN_B,
     ar_cpt = blt_pt b ! CHAN_C, ar_dpt = blt_pt b ! CHAN_D, ar_a_prev = 0, ar_b_prev = 0, ar_last_d = 0,
     ar_dat_c = blt_dat b ! CHAN_C, ar_zero = blt_zero b, ar_fill_state = 0\<rparr>"

(* src/crates/machine-core/src/blitter.rs:274-423 Blitter::execute_area *)
definition execute_area :: "blitter \<Rightarrow> u8 list \<Rightarrow> device_write_log option \<Rightarrow> blitter \<times> u8 list \<times> device_write_log option" where
  "execute_area b ram log =
     (let s = (area_row b ^^ unat (height_rows b)) (area_init b ram log)
      in (b\<lparr>blt_dat := (blt_dat b)[CHAN_C := ar_dat_c s], blt_zero := ar_zero s,
            blt_pt := [ar_apt s, ar_bpt s, ar_cpt s, ar_dpt s], bltddat := ar_last_d s\<rparr>, ar_ram s, ar_log s))"

section \<open>Line mode\<close>

text \<open>\<open>ash\<close> is an \<open>i32\<close> that stays within 0 to 15.\<close>

(* src/crates/machine-core/src/blitter.rs:697-718 line_step_x *)
definition line_step_x :: "int \<Rightarrow> int \<Rightarrow> u32 \<Rightarrow> int \<times> u32" where
  "line_step_x ash dx cpt =
     (if dx > 0 then let n = ash + 1 in if n > 15 then (0, cpt + 2) else (n, cpt)
      else let n = ash - 1 in if n < 0 then (15, cpt - 2) else (n, cpt))"

(* src/crates/machine-core/src/blitter.rs:720-725 line_step_y *)
definition line_step_y :: "int \<Rightarrow> u32 \<Rightarrow> u32 \<Rightarrow> bool \<Rightarrow> u32 \<times> bool" where
  "line_step_y dy bplmod cpt one_dot = (cpt + (if dy > 0 then bplmod else - bplmod), False)"

(* src/crates/machine-core/src/blitter.rs:663-681 line_step_sometimes *)
definition line_step_sometimes :: "u16 \<Rightarrow> int \<Rightarrow> u32 \<Rightarrow> u32 \<Rightarrow> bool \<Rightarrow> int \<times> u32 \<times> bool" where
  "line_step_sometimes con1 ash bplmod cpt one_dot =
     (if con1 AND BLTCON1_SUD \<noteq> 0 then
        let dy = (if con1 AND BLTCON1_SUL \<noteq> 0 then -1 else 1) in (ash, line_step_y dy bplmod cpt one_dot)
      else
        let dx = (if con1 AND BLTCON1_SUL \<noteq> 0 then -1 else 1); (n, p) = line_step_x ash dx cpt in (n, p, one_dot))"

(* src/crates/machine-core/src/blitter.rs:683-695 line_step_always *)
definition line_step_always :: "u16 \<Rightarrow> int \<Rightarrow> u32 \<Rightarrow> u32 \<Rightarrow> bool \<Rightarrow> int \<times> u32 \<times> bool" where
  "line_step_always con1 ash bplmod cpt one_dot =
     (if con1 AND BLTCON1_SUD \<noteq> 0 then
        let dx = (if con1 AND BLTCON1_AUL \<noteq> 0 then -1 else 1); (n, p) = line_step_x ash dx cpt in (n, p, one_dot)
      else
        let dy = (if con1 AND BLTCON1_AUL \<noteq> 0 then -1 else 1) in (ash, line_step_y dy bplmod cpt one_dot))"

(* src/crates/machine-core/src/blitter.rs:464-486 Blitter::execute_line *)
record line =
  ln_ram :: "u8 list"
  ln_log :: "device_write_log option"
  ln_bsh :: u16
  ln_bpt :: u32
  ln_cpt :: u32
  ln_dpt :: u32
  ln_ash :: int
  ln_acc :: u16
  ln_sign :: bool
  ln_one_dot :: bool
  ln_bdat :: u16
  ln_dat_c :: u16
  ln_zero :: bool
  ln_last_d :: u16

(* src/crates/machine-core/src/blitter.rs:466-486 Blitter::execute_line *)
definition line_init :: "blitter \<Rightarrow> u8 list \<Rightarrow> device_write_log option \<Rightarrow> line" where
  "line_init b ram log =
     (let bsh = drop_bit 12 (bltcon1 b) AND 0x000F
      in \<lparr>ln_ram = ram, ln_log = log, ln_bsh = bsh, ln_bpt = blt_pt b ! CHAN_B, ln_cpt = blt_pt b ! CHAN_C,
          ln_dpt = blt_pt b ! CHAN_D, ln_ash = uint (drop_bit 12 (bltcon0 b) AND 0x000F),
          ln_acc = ucast (blt_pt b ! CHAN_A), ln_sign = (bltcon1 b AND BLTCON1_SIGN \<noteq> 0), ln_one_dot = False,
          ln_bdat = word_rotr (unat bsh) (blt_dat b ! CHAN_B), ln_dat_c = blt_dat b ! CHAN_C, ln_zero = blt_zero b,
          ln_last_d = 0\<rparr>)"

text \<open>One pixel, in the order of the loop body: the pattern fetch, the minterm, the stepping, the store.\<close>

(* src/crates/machine-core/src/blitter.rs:489-493 Blitter::execute_line *)
definition line_fetch_b :: "blitter \<Rightarrow> line \<Rightarrow> line" where
  "line_fetch_b b s =
     (if use_b b then
        s\<lparr>ln_bpt := ln_bpt s + scast (blt_modulo b ! CHAN_B),
          ln_bdat := word_rotr (unat (ln_bsh s)) (blt_read_word (ln_ram s) (ln_bpt s))\<rparr>
      else s)"

(* src/crates/machine-core/src/blitter.rs:494-508 Blitter::execute_line *)
definition line_combine :: "blitter \<Rightarrow> line \<Rightarrow> line \<times> bool \<times> u16" where
  "line_combine b s =
     (let line_pixel = (bltcon1 b AND BLTCON1_SING = 0 \<or> \<not> ln_one_dot s);
          a_shifted = drop_bit (nat (ln_ash s)) (blt_dat b ! CHAN_A AND bltafwm b);
          s1 = s\<lparr>ln_one_dot := True\<rparr>;
          b_shifted = (if ln_bdat s1 AND 1 \<noteq> 0 then 0xFFFF else 0);
          (s2, c) = (if use_c b then let v = blt_read_word (ln_ram s1) (ln_cpt s1) in (s1\<lparr>ln_dat_c := v\<rparr>, v)
                     else (s1, ln_dat_c s1))
      in (s2, line_pixel, minterm (blt_lf b) a_shifted b_shifted c))"

(* src/crates/machine-core/src/blitter.rs:510-518 Blitter::execute_line *)
definition line_advance :: "blitter \<Rightarrow> line \<Rightarrow> line" where
  "line_advance b s =
     (let bplmod = scast (blt_modulo b ! CHAN_C);
          s1 = (if \<not> ln_sign s then
                  let (ash, cpt, one_dot) = line_step_sometimes (bltcon1 b) (ln_ash s) bplmod (ln_cpt s) (ln_one_dot s)
                  in s\<lparr>ln_ash := ash, ln_cpt := cpt, ln_one_dot := one_dot\<rparr>
                else s);
          s2 = (if use_a b then
                  s1\<lparr>ln_acc := ln_acc s1 + (if ln_sign s1 then blt_modulo b ! CHAN_B else blt_modulo b ! CHAN_A)\<rparr>
                else s1);
          (ash, cpt, one_dot) = line_step_always (bltcon1 b) (ln_ash s2) bplmod (ln_cpt s2) (ln_one_dot s2)
      in s2\<lparr>ln_ash := ash, ln_cpt := cpt, ln_one_dot := one_dot, ln_sign := (sint (ln_acc s2) < 0)\<rparr>)"

(* src/crates/machine-core/src/blitter.rs:520-529 Blitter::execute_line *)
definition line_store :: "blitter \<Rightarrow> line \<Rightarrow> bool \<Rightarrow> u16 \<Rightarrow> line" where
  "line_store b s line_pixel d =
     (let s1 = s\<lparr>ln_zero := (if d \<noteq> 0 then False else ln_zero s), ln_last_d := d\<rparr>;
          s2 = (if use_c b \<and> line_pixel then
                  let (ram, log) = blt_write_word (ln_ram s1) (ln_log s1) (ln_dpt s1) d
                  in s1\<lparr>ln_ram := ram, ln_log := log\<rparr>
                else s1)
      in s2\<lparr>ln_dpt := ln_cpt s2, ln_bdat := word_rotl 1 (ln_bdat s2), ln_bsh := (ln_bsh s2 - 1) AND 0x000F\<rparr>)"

(* src/crates/machine-core/src/blitter.rs:488-530 Blitter::execute_line *)
definition line_dot :: "blitter \<Rightarrow> line \<Rightarrow> line" where
  "line_dot b s =
     (let (s1, line_pixel, d) = line_combine b (line_fetch_b b s)
      in line_store b (line_advance b s1) line_pixel d)"

(* src/crates/machine-core/src/blitter.rs:425-542 Blitter::execute_line *)
definition execute_line :: "blitter \<Rightarrow> u8 list \<Rightarrow> device_write_log option \<Rightarrow> blitter \<times> u8 list \<times> device_write_log option" where
  "execute_line b ram log =
     (let s = (line_dot b ^^ unat (height_rows b)) (line_init b ram log);
          con1a = bltcon1 b AND NOT BLTCON1_SIGN;
          con1b = (if sint (ln_acc s) < 0 then con1a OR BLTCON1_SIGN else con1a);
          con1c = (con1b AND 0x0FFF) OR push_bit 12 (ln_bsh s)
      in (b\<lparr>bltcon1 := con1c,
            bltcon0 := (bltcon0 b AND 0x0FFF) OR push_bit 12 (word_of_int (ln_ash s) AND 0x000F),
            blt_pt := [(blt_pt b ! CHAN_A AND 0xFFFF0000) OR ucast (ln_acc s), ln_bpt s, ln_cpt s, ln_dpt s],
            blt_dat := (blt_dat b)[CHAN_C := ln_dat_c s], blt_zero := ln_zero s, bltddat := ln_last_d s\<rparr>,
          ln_ram s, ln_log s))"

(* src/crates/machine-core/src/blitter.rs:235-272 Blitter::execute_logged *)
definition execute_logged :: "blitter \<Rightarrow> u8 list \<Rightarrow> device_write_log option \<Rightarrow> (blitter \<times> u8 list \<times> device_write_log option) \<times> bool" where
  "execute_logged b ram log =
     (if \<not> blt_pending b then ((b, ram, log), False)
      else
        let b1 = b\<lparr>blt_pending := False, blt_zero := True\<rparr>
        in (if bltcon1 b1 AND BLTCON1_LINE \<noteq> 0 then execute_line b1 ram log else execute_area b1 ram log, True))"

section \<open>Correctness of the data path\<close>

lemma clear_low_bits: "unat (w AND NOT (mask k)) = unat (w :: 'a::len word) div 2 ^ k * 2 ^ k"
proof -
  have "unat (w AND NOT (mask k)) = push_bit k (drop_bit k (unat w))"
    by (rule bit_eqI) (auto simp: bit_simps dest: bit_imp_le_length)
  then show ?thesis by (simp add: push_bit_eq_mult drop_bit_eq_div)
qed

lemma chip_addr_eq: "chip_addr p = unat p mod 2 ^ 21 div 2 * 2"
proof -
  have m: "p AND of_nat (CHIP_RAM_SIZE - 1) = take_bit 21 p"
    by (simp add: take_bit_eq_mask mask_eq_exp_minus_1)
  have "unat (w AND NOT 1) = unat w div 2 * 2" for w :: u32
    using clear_low_bits [of w 1] by (simp add: mask_eq_exp_minus_1)
  then have "unat (take_bit 21 p AND NOT 1) = unat p mod 2 ^ 21 div 2 * 2"
    by (simp only: unsigned_take_bit_eq take_bit_eq_mod [where 'a = nat])
  then show ?thesis
    unfolding chip_addr_def and.assoc [symmetric] m .
qed

lemma chip_addr_bound: "chip_addr p + 1 < CHIP_RAM_SIZE" "even (chip_addr p)"
proof -
  have "unat p mod 2 ^ 21 < 2 ^ 21" by simp
  then have "unat p mod 2 ^ 21 div 2 < 2 ^ 20" by (simp add: less_mult_imp_div_less)
  then show "chip_addr p + 1 < CHIP_RAM_SIZE" unfolding chip_addr_eq by simp
qed (simp add: chip_addr_eq)

lemma chip_addr_apart: "chip_addr p \<noteq> chip_addr q \<Longrightarrow> chip_addr p + 1 \<noteq> chip_addr q"
  using chip_addr_bound(2) [of p] chip_addr_bound(2) [of q] by (metis even_plus_one_iff)

text \<open>The minterm logic is the truth table its control byte encodes: every output bit is the bit of
  the control byte selected by the three input bits at that position, channel A weighing 4, B 2 and C 1.\<close>

lemma minterm_truth_table:
  "bit (minterm lf a b c) i \<longleftrightarrow>
     i < 16 \<and> bit lf (4 * of_bool (bit a i) + 2 * of_bool (bit b i) + of_bool (bit c i))"
proof -
  have lf: "(lf AND 0x80 = 0) = (\<not> bit lf 7)" "(lf AND 0x40 = 0) = (\<not> bit lf 6)" "(lf AND 0x20 = 0) = (\<not> bit lf 5)"
    "(lf AND 0x10 = 0) = (\<not> bit lf 4)" "(lf AND 0x08 = 0) = (\<not> bit lf 3)" "(lf AND 0x04 = 0) = (\<not> bit lf 2)"
    "(lf AND 0x02 = 0) = (\<not> bit lf 1)" "(lf AND 0x01 = 0) = (\<not> bit lf 0)"
    using and_single_bit [of 7 lf] and_single_bit [of 6 lf] and_single_bit [of 5 lf] and_single_bit [of 4 lf]
      and_single_bit [of 3 lf] and_single_bit [of 2 lf] and_single_bit [of 1 lf] and_single_bit [of 0 lf]
    by (simp_all add: push_bit_eq_mult)
  show ?thesis
  proof (cases "i < 16")
    case True
    show ?thesis
      unfolding minterm_def Let_def lf
      by (cases "bit a i"; cases "bit b i"; cases "bit c i") (simp_all add: True bit_simps numeral_2_eq_2 [symmetric] numeral_3_eq_3 [symmetric])
  next
    case False
    then show ?thesis using bit_imp_le_length [of "minterm lf a b c" i] by auto
  qed
qed

lemma shift_combine_bits:
  assumes "n \<le> 15" "i < 16"
  shows "bit (shift_combine prev cur n False) i = (if i + n < 16 then bit cur (i + n) else bit prev (i + n - 16))"
    and "bit (shift_combine prev cur n True) i = (if n \<le> i then bit cur (i - n) else bit prev (16 - n + i))"
proof -
  have hi: "\<not> bit (w :: u16) k" if "16 \<le> k" for w k
    using that bit_imp_le_length [of w k] by auto
  show "bit (shift_combine prev cur n False) i = (if i + n < 16 then bit cur (i + n) else bit prev (i + n - 16))"
    using assms hi [of "i + n" cur] by (auto simp: shift_combine_def Let_def bit_simps add.commute)
  show "bit (shift_combine prev cur n True) i = (if n \<le> i then bit cur (i - n) else bit prev (16 - n + i))"
    using assms hi [of "16 + i - n" prev] by (auto simp: shift_combine_def Let_def bit_simps)
qed

text \<open>The carry into bit \<open>i\<close> of a filled word: the carry in, flipped by every set bit below.\<close>

fun fill_carry :: "bool \<Rightarrow> u16 \<Rightarrow> nat \<Rightarrow> bool" where
  "fill_carry cin d 0 = cin"
| "fill_carry cin d (Suc i) = (fill_carry cin d i \<noteq> bit d i)"

lemma fill_prefix:
  assumes "n \<le> 16" "fs = of_bool cin"
  shows "let (out, fs') = fold (fill_bit d ife efe) [0..<n] (d, fs) in
     fs' = of_bool (fill_carry cin d n) \<and>
     (\<forall>i. bit out i = (if i < n \<and> fill_carry cin d i \<and> ife then True
                      else if i < n \<and> fill_carry cin d i \<and> efe then \<not> bit d i else bit d i))"
  using assms(1)
proof (induction n)
  case 0
  then show ?case by (simp add: assms(2))
next
  case (Suc n)
  obtain out fs' where f: "fold (fill_bit d ife efe) [0..<n] (d, fs) = (out, fs')" by fastforce
  from Suc have ih: "fs' = of_bool (fill_carry cin d n)"
    "bit out i = (if i < n \<and> fill_carry cin d i \<and> ife then True
                      else if i < n \<and> fill_carry cin d i \<and> efe then \<not> bit d i else bit d i)" for i
    by (simp_all add: f)
  have m: "(d AND push_bit n 1 = 0) = (\<not> bit d n)" using Suc.prems by (intro and_single_bit) simp
  have nb: "bit (push_bit n (1 :: u16)) i = (i = n)" for i using Suc.prems by (auto simp: bit_simps)
  have st: "fold (fill_bit d ife efe) [0..<Suc n] (d, fs) =
      (if fill_carry cin d n then if ife then out OR push_bit n 1 else if efe then out XOR push_bit n 1 else out else out,
       of_bool (fill_carry cin d (Suc n)))"
    by (simp add: f ih(1) fill_bit_def Let_def m del: push_bit_of_1)
  show ?case
    unfolding st Let_def prod.case
    by (cases "fill_carry cin d n"; cases ife; cases efe)
       ((simp add: ih(2) nb bit_or_iff bit_xor_iff less_Suc_eq del: push_bit_of_1 fill_carry.simps; fail) |
        (simp add: ih(2) nb bit_or_iff bit_xor_iff less_Suc_eq del: push_bit_of_1 fill_carry.simps, blast))+
qed

text \<open>Fill is a running parity along the row. With carry-in 0 or 1 the carry into each bit is the
  carry-in flipped once per set bit below it; an inclusive fill sets every bit with carry, an exclusive fill flips
  it, and the state passed on to the next word is the carry out of bit 15.\<close>

lemma apply_fill_parity:
  assumes "apply_fill d (of_bool cin) ife efe = (out, fs)" and "i < 16"
  shows "fs = of_bool (fill_carry cin d 16) \<and>
    bit out i = (if fill_carry cin d i \<and> ife then True else if fill_carry cin d i \<and> efe then \<not> bit d i else bit d i)"
  using fill_prefix [of 16 "of_bool cin" cin d ife efe] assms by (auto simp: apply_fill_def)

lemma apply_fill_parity_witness:
  "apply_fill 0x0810 (of_bool False) True False = (0x0FF0, of_bool (fill_carry False 0x0810 16)) \<and> bit (0x0FF0 :: u16) 7"
proof -
  have a: "apply_fill 0x0810 (of_bool False) True False = (0x0FF0, 0)"
    by (simp add: apply_fill_def fill_bit_def upt_rec push_bit_eq_mult Let_def)
  from apply_fill_parity [OF a, of 7] a show ?thesis by simp
qed

section \<open>Words in chip RAM\<close>

definition chip_mem_ok :: "u8 list \<Rightarrow> bool" where
  "chip_mem_ok ram \<longleftrightarrow> length ram = CHIP_RAM_SIZE"

lemma write_word_length [simp]: "length (fst (blt_write_word ram log p v)) = length ram"
  by (simp add: blt_write_word_def Let_def)

lemma two_byte_list: "length xs = 2 \<Longrightarrow> [xs ! 0, xs ! 1] = xs"
  by (cases xs) (auto simp: length_Suc_conv)

lemma read_write_same:
  assumes "chip_mem_ok ram" "chip_addr p = chip_addr q"
  shows "blt_read_word (fst (blt_write_word ram log p v)) q = v"
proof -
  have b: "chip_addr q + 1 < length ram" using chip_addr_bound(1) [of q] assms by (simp add: chip_mem_ok_def)
  have "[to_be 2 v ! 0, to_be 2 v ! 1] = to_be 2 v" by (rule two_byte_list) simp
  then show ?thesis
    using b assms(2) by (simp add: blt_read_word_def blt_write_word_def Let_def del: One_nat_def)
qed

lemma write_word_byte_other:
  "i \<noteq> chip_addr p \<Longrightarrow> i \<noteq> chip_addr p + 1 \<Longrightarrow> fst (blt_write_word ram log p v) ! i = ram ! i"
  by (simp add: blt_write_word_def Let_def)

lemma read_write_other:
  assumes "chip_addr p \<noteq> chip_addr q"
  shows "blt_read_word (fst (blt_write_word ram log p v)) q = blt_read_word ram q"
proof -
  have "chip_addr q \<noteq> chip_addr p + 1" "chip_addr q + 1 \<noteq> chip_addr p"
    using chip_addr_apart [OF assms] chip_addr_apart [OF assms [symmetric]] by simp_all
  then show ?thesis
    using assms by (simp add: blt_read_word_def Let_def write_word_byte_other)
qed

section \<open>What an area blit computes\<close>

text \<open>
  The reference for area mode. The words of the rectangle are numbered in the order they are processed,
  \<open>n = row * width + column\<close>. Each function gives a quantity of word \<open>n\<close> from the registers and the initial memory
  alone: the pointer of a channel, the masked A word, the shifted A and B words, the minterm result, the fill
  carry into the word and the D word.
\<close>

definition pt_at :: "blitter \<Rightarrow> nat \<Rightarrow> nat \<Rightarrow> u32" where
  "pt_at b ch n = blt_pt b ! ch + of_nat n * blt_step b + of_nat (n div unat (width_words b)) * signed_step b ch"

definition src_at :: "blitter \<Rightarrow> u8 list \<Rightarrow> nat \<Rightarrow> nat \<Rightarrow> u16" where
  "src_at b ram ch n = blt_read_word ram (pt_at b ch n)"

definition a_masked_at :: "blitter \<Rightarrow> u8 list \<Rightarrow> nat \<Rightarrow> u16" where
  "a_masked_at b ram n =
     (let w = n mod unat (width_words b)
      in (if use_a b then src_at b ram CHAN_A n else blt_dat b ! CHAN_A) AND
         (if w = 0 then bltafwm b else -1) AND (if w + 1 = unat (width_words b) then bltalwm b else -1))"

definition a_at :: "blitter \<Rightarrow> u8 list \<Rightarrow> nat \<Rightarrow> u16" where
  "a_at b ram n = shift_combine (if n = 0 then 0 else a_masked_at b ram (n - 1)) (a_masked_at b ram n) (blt_ash b) (blt_desc b)"

definition b_at :: "blitter \<Rightarrow> u8 list \<Rightarrow> nat \<Rightarrow> u16" where
  "b_at b ram n =
     (if use_b b then
        shift_combine (if n = 0 then 0 else src_at b ram CHAN_B (n - 1)) (src_at b ram CHAN_B n) (blt_bsh b) (blt_desc b)
      else blt_dat b ! CHAN_B)"

definition c_at :: "blitter \<Rightarrow> u8 list \<Rightarrow> nat \<Rightarrow> u16" where
  "c_at b ram n = (if use_c b then src_at b ram CHAN_C n else blt_dat b ! CHAN_C)"

definition m_at :: "blitter \<Rightarrow> u8 list \<Rightarrow> nat \<Rightarrow> u16" where
  "m_at b ram n = minterm (blt_lf b) (a_at b ram n) (b_at b ram n) (c_at b ram n)"

fun fill_in :: "blitter \<Rightarrow> u8 list \<Rightarrow> nat \<Rightarrow> u16" where
  "fill_in b ram 0 = blt_fci b"
| "fill_in b ram (Suc n) =
     (if Suc n mod unat (width_words b) = 0 then blt_fci b
      else snd (apply_fill (m_at b ram n) (fill_in b ram n) (blt_ife b) (blt_efe b)))"

definition d_at :: "blitter \<Rightarrow> u8 list \<Rightarrow> nat \<Rightarrow> u16" where
  "d_at b ram n =
     (if blt_fill b then fst (apply_fill (m_at b ram n) (fill_in b ram n) (blt_ife b) (blt_efe b)) else m_at b ram n)"

definition blt_words :: "blitter \<Rightarrow> nat" where
  "blt_words b = unat (height_rows b) * unat (width_words b)"

text \<open>The memory after \<open>n\<close> words.\<close>

fun mem_after :: "blitter \<Rightarrow> u8 list \<Rightarrow> nat \<Rightarrow> u8 list" where
  "mem_after b ram 0 = ram"
| "mem_after b ram (Suc n) =
     (if use_d b then fst (blt_write_word (mem_after b ram n) None (pt_at b CHAN_D n) (d_at b ram n)) else mem_after b ram n)"

text \<open>
  No word is fetched by an enabled source after the blit has written it. In-place operation, where C and D
  walk over the same words, satisfies this: each word is fetched before it is stored.
\<close>

definition no_hazard :: "blitter \<Rightarrow> bool" where
  "no_hazard b \<longleftrightarrow> (use_d b \<longrightarrow> (\<forall>n < blt_words b. \<forall>i < n.
     (use_a b \<longrightarrow> chip_addr (pt_at b CHAN_D i) \<noteq> chip_addr (pt_at b CHAN_A n)) \<and>
     (use_b b \<longrightarrow> chip_addr (pt_at b CHAN_D i) \<noteq> chip_addr (pt_at b CHAN_B n)) \<and>
     (use_c b \<longrightarrow> chip_addr (pt_at b CHAN_D i) \<noteq> chip_addr (pt_at b CHAN_C n))))"

lemma write_word_ram_log: "fst (blt_write_word ram log p v) = fst (blt_write_word ram log' p v)"
  by (simp add: blt_write_word_def Let_def)

lemma mem_after_length [simp]: "length (mem_after b ram n) = length ram"
  by (induction n) simp_all

lemma read_mem_after:
  "(use_d b \<Longrightarrow> \<forall>i < n. chip_addr (pt_at b CHAN_D i) \<noteq> chip_addr p) \<Longrightarrow>
     blt_read_word (mem_after b ram n) p = blt_read_word ram p"
  by (induction n) (simp_all add: read_write_other)

lemma hazard_free_fetch:
  assumes "no_hazard b" "n < blt_words b"
  shows "use_a b \<Longrightarrow> blt_read_word (mem_after b ram n) (pt_at b CHAN_A n) = src_at b ram CHAN_A n"
    "use_b b \<Longrightarrow> blt_read_word (mem_after b ram n) (pt_at b CHAN_B n) = src_at b ram CHAN_B n"
    "use_c b \<Longrightarrow> blt_read_word (mem_after b ram n) (pt_at b CHAN_C n) = src_at b ram CHAN_C n"
  using assms unfolding src_at_def no_hazard_def by (auto intro!: read_mem_after simp del: CHAN_A_def CHAN_B_def CHAN_C_def CHAN_D_def)

text \<open>The loop state after \<open>n\<close> words of which \<open>r\<close> rows are complete.\<close>

definition row_pt :: "blitter \<Rightarrow> nat \<Rightarrow> nat \<Rightarrow> nat \<Rightarrow> u32" where
  "row_pt b ch r n = blt_pt b ! ch + of_nat n * blt_step b + of_nat r * signed_step b ch"

definition area_at :: "blitter \<Rightarrow> u8 list \<Rightarrow> nat \<Rightarrow> nat \<Rightarrow> area \<Rightarrow> bool" where
  "area_at b ram r n s \<longleftrightarrow> ar_ram s = mem_after b ram n \<and>
     ar_apt s = (if use_a b then row_pt b CHAN_A r n else blt_pt b ! CHAN_A) \<and>
     ar_bpt s = (if use_b b then row_pt b CHAN_B r n else blt_pt b ! CHAN_B) \<and>
     ar_cpt s = (if use_c b then row_pt b CHAN_C r n else blt_pt b ! CHAN_C) \<and>
     ar_dpt s = (if use_d b then row_pt b CHAN_D r n else blt_pt b ! CHAN_D) \<and>
     ar_a_prev s = (if n = 0 then 0 else a_masked_at b ram (n - 1)) \<and>
     (use_b b \<longrightarrow> ar_b_prev s = (if n = 0 then 0 else src_at b ram CHAN_B (n - 1))) \<and>
     ar_dat_c s = (if n = 0 then blt_dat b ! CHAN_C else c_at b ram (n - 1)) \<and>
     ar_last_d s = (if n = 0 then 0 else d_at b ram (n - 1)) \<and>
     ar_zero s = (blt_zero b \<and> (\<forall>i < n. d_at b ram i = 0))"

lemma fetch_a_at:
  assumes at: "area_at b ram r n s" and n: "n = r * unat (width_words b) + w" "w < unat (width_words b)"
    and hz: "no_hazard b" "n < blt_words b"
  shows "area_fetch_a b w s = (s\<lparr>ar_apt := (if use_a b then row_pt b CHAN_A r (Suc n) else blt_pt b ! CHAN_A),
      ar_a_prev := a_masked_at b ram n\<rparr>, a_at b ram n)"
proof -
  have nw: "n mod unat (width_words b) = w" "n div unat (width_words b) = r"
    using n by simp_all
  have p: "row_pt b CHAN_A r n = pt_at b CHAN_A n" by (simp add: row_pt_def pt_at_def nw)
  have m: "a_masked_at b ram n =
      (let m1 = (if w = 0 then x AND bltafwm b else x) in if w + 1 = unat (width_words b) then m1 AND bltalwm b else m1)"
    if "x = (if use_a b then src_at b ram CHAN_A n else blt_dat b ! CHAN_A)" for x
    using that by (simp add: a_masked_at_def nw Let_def and.assoc)
  have st: "row_pt b CHAN_A r n + blt_step b = row_pt b CHAN_A r (Suc n)"
    by (simp add: row_pt_def algebra_simps)
  have f: "use_a b \<Longrightarrow> blt_read_word (ar_ram s) (ar_apt s) = src_at b ram CHAN_A n"
    using at hazard_free_fetch(1) [OF hz, of ram] by (simp add: area_at_def p del: CHAN_A_def)
  show ?thesis
  proof (cases "use_a b")
    case True
    then show ?thesis
      using at st m [of "src_at b ram CHAN_A n"] f
      by (simp add: area_fetch_a_def area_at_def a_at_def Let_def del: CHAN_A_def)
  next
    case False
    then show ?thesis
      using at m [of "blt_dat b ! CHAN_A"]
      by (simp add: area_fetch_a_def area_at_def a_at_def Let_def del: CHAN_A_def)
  qed
qed

lemma fetch_b_at:
  assumes at: "area_at b ram r n s" and n: "n = r * unat (width_words b) + w" "w < unat (width_words b)"
    and hz: "no_hazard b" "n < blt_words b"
    and s1: "ar_ram s1 = ar_ram s" "ar_bpt s1 = ar_bpt s" "ar_b_prev s1 = ar_b_prev s"
  shows "\<exists>x. area_fetch_b b s1 = (s1\<lparr>ar_bpt := (if use_b b then row_pt b CHAN_B r (Suc n) else blt_pt b ! CHAN_B),
      ar_b_prev := x\<rparr>, b_at b ram n) \<and> (use_b b \<longrightarrow> x = src_at b ram CHAN_B n)"
proof -
  have nw: "n div unat (width_words b) = r" using n by simp
  have p: "row_pt b CHAN_B r n = pt_at b CHAN_B n" by (simp add: row_pt_def pt_at_def nw)
  have st: "row_pt b CHAN_B r n + blt_step b = row_pt b CHAN_B r (Suc n)"
    by (simp add: row_pt_def algebra_simps)
  show ?thesis
  proof (cases "use_b b")
    case True
    then have "blt_read_word (ar_ram s1) (ar_bpt s1) = src_at b ram CHAN_B n"
      using at hazard_free_fetch(2) [OF hz, of ram] by (simp add: area_at_def p s1 del: CHAN_B_def)
    then show ?thesis
      using True at st s1 by (simp add: area_fetch_b_def area_at_def b_at_def Let_def del: CHAN_B_def)
  next
    case False
    have "s1 = s1\<lparr>ar_bpt := ar_bpt s1, ar_b_prev := ar_b_prev s1\<rparr>" by simp
    then show ?thesis
      using False at s1 by (intro exI [of _ "ar_b_prev s1"]) (simp add: area_fetch_b_def area_at_def b_at_def)
  qed
qed

lemma fetch_c_at:
  assumes at: "area_at b ram r n s" and n: "n = r * unat (width_words b) + w" "w < unat (width_words b)"
    and hz: "no_hazard b" "n < blt_words b"
    and s1: "ar_ram s1 = ar_ram s" "ar_cpt s1 = ar_cpt s" "ar_dat_c s1 = ar_dat_c s"
  shows "area_fetch_c b s1 = (s1\<lparr>ar_cpt := (if use_c b then row_pt b CHAN_C r (Suc n) else blt_pt b ! CHAN_C),
      ar_dat_c := c_at b ram n\<rparr>, c_at b ram n)"
proof -
  have nw: "n div unat (width_words b) = r" using n by simp
  have p: "row_pt b CHAN_C r n = pt_at b CHAN_C n" by (simp add: row_pt_def pt_at_def nw)
  have st: "row_pt b CHAN_C r n + blt_step b = row_pt b CHAN_C r (Suc n)"
    by (simp add: row_pt_def algebra_simps)
  show ?thesis
  proof (cases "use_c b")
    case True
    then have "blt_read_word (ar_ram s1) (ar_cpt s1) = src_at b ram CHAN_C n"
      using at hazard_free_fetch(3) [OF hz, of ram] by (simp add: area_at_def p s1 del: CHAN_C_def)
    then show ?thesis
      using True at st s1 by (simp add: area_fetch_c_def area_at_def c_at_def Let_def del: CHAN_C_def)
  next
    case False
    have "s1 = s1\<lparr>ar_cpt := ar_cpt s1, ar_dat_c := ar_dat_c s1\<rparr>" by simp
    moreover have "ar_dat_c s1 = c_at b ram n" "ar_cpt s1 = blt_pt b ! CHAN_C"
      using False at s1 by (simp_all add: area_at_def c_at_def)
    ultimately show ?thesis
      using False by (simp add: area_fetch_c_def)
  qed
qed

lemma store_at:
  assumes "use_d b \<Longrightarrow> ar_dpt s = row_pt b CHAN_D r n" "\<not> use_d b \<Longrightarrow> ar_dpt s = blt_pt b ! CHAN_D"
    and "ar_ram s = mem_after b ram n" and n: "n div unat (width_words b) = r"
    and f: "blt_fill b \<Longrightarrow> ar_fill_state s = fill_in b ram n"
  shows "\<exists>log fs. area_store b s (m_at b ram n) =
      s\<lparr>ar_ram := mem_after b ram (Suc n), ar_log := log, ar_fill_state := fs, ar_last_d := d_at b ram n,
        ar_zero := (ar_zero s \<and> d_at b ram n = 0),
        ar_dpt := (if use_d b then row_pt b CHAN_D r (Suc n) else blt_pt b ! CHAN_D)\<rparr> \<and>
      (blt_fill b \<longrightarrow> fs = snd (apply_fill (m_at b ram n) (fill_in b ram n) (blt_ife b) (blt_efe b)))"
proof -
  have p: "row_pt b CHAN_D r n = pt_at b CHAN_D n" by (simp add: row_pt_def pt_at_def n)
  have st: "row_pt b CHAN_D r n + blt_step b = row_pt b CHAN_D r (Suc n)"
    by (simp add: row_pt_def algebra_simps)
  obtain d fs where df: "(if blt_fill b then apply_fill (m_at b ram n) (ar_fill_state s) (blt_ife b) (blt_efe b)
      else (m_at b ram n, ar_fill_state s)) = (d, fs)" by fastforce
  have d: "d = d_at b ram n" "blt_fill b \<longrightarrow> fs = snd (apply_fill (m_at b ram n) (fill_in b ram n) (blt_ife b) (blt_efe b))"
    using df f by (auto simp: d_at_def split: if_splits)
  have z: "(if d \<noteq> 0 then False else ar_zero s) = (ar_zero s \<and> d = 0)" by simp
  show ?thesis
  proof (cases "use_d b")
    case True
    obtain ram' log' where w: "blt_write_word (ar_ram s) (ar_log s) (ar_dpt s) d = (ram', log')" by fastforce
    have "ram' = mem_after b ram (Suc n)"
      using True w assms(1,3) p write_word_ram_log [of "ar_ram s" "ar_log s" "ar_dpt s" d None] by (simp add: d(1))
    then show ?thesis
      using True w st assms(1) d
      by (intro exI [of _ log'] exI [of _ fs]) (simp add: area_store_def df z Let_def)
  next
    case False
    then show ?thesis
      using d assms(2,3)
      by (intro exI [of _ "ar_log s"] exI [of _ fs]) (simp add: area_store_def df z Let_def)
  qed
qed

lemma all_less_Suc: "(\<forall>i < Suc n. P i) \<longleftrightarrow> (\<forall>i < n. P i) \<and> P n"
  by (auto simp: less_Suc_eq)

lemma word_at:
  assumes at: "area_at b ram r n s" and n: "n = r * unat (width_words b) + w" "w < unat (width_words b)"
    and hz: "no_hazard b" "n < blt_words b" and f: "blt_fill b \<Longrightarrow> ar_fill_state s = fill_in b ram n"
  shows "area_at b ram r (Suc n) (area_word b w s) \<and>
    (blt_fill b \<longrightarrow> Suc w < unat (width_words b) \<longrightarrow> ar_fill_state (area_word b w s) = fill_in b ram (Suc n))"
proof -
  have nw: "n div unat (width_words b) = r" using n by simp
  have "Suc n = Suc w + r * unat (width_words b)" using n by simp
  then have sw: "Suc w < unat (width_words b) \<Longrightarrow> Suc n mod unat (width_words b) = Suc w"
    by (simp only: mod_mult_self1 mod_less)
  note fa = fetch_a_at [OF at n hz]
  obtain s1 where s1: "s1 = s\<lparr>ar_apt := (if use_a b then row_pt b CHAN_A r (Suc n) else blt_pt b ! CHAN_A),
      ar_a_prev := a_masked_at b ram n\<rparr>" by blast
  obtain x where fb: "area_fetch_b b s1 = (s1\<lparr>ar_bpt := (if use_b b then row_pt b CHAN_B r (Suc n) else blt_pt b ! CHAN_B),
      ar_b_prev := x\<rparr>, b_at b ram n)" and x: "use_b b \<longrightarrow> x = src_at b ram CHAN_B n"
    using fetch_b_at [OF at n hz, of s1] by (auto simp: s1)
  obtain s2 where s2: "s2 = s1\<lparr>ar_bpt := (if use_b b then row_pt b CHAN_B r (Suc n) else blt_pt b ! CHAN_B), ar_b_prev := x\<rparr>"
    by blast
  have fc: "area_fetch_c b s2 = (s2\<lparr>ar_cpt := (if use_c b then row_pt b CHAN_C r (Suc n) else blt_pt b ! CHAN_C),
      ar_dat_c := c_at b ram n\<rparr>, c_at b ram n)"
    by (rule fetch_c_at [OF at n hz]) (simp_all add: s1 s2)
  obtain s3 where s3: "s3 = s2\<lparr>ar_cpt := (if use_c b then row_pt b CHAN_C r (Suc n) else blt_pt b ! CHAN_C),
      ar_dat_c := c_at b ram n\<rparr>" by blast
  have w: "area_word b w s = area_store b s3 (m_at b ram n)"
    using fa fb fc by (simp add: area_word_def s1 [symmetric] s2 [symmetric] s3 [symmetric] m_at_def)
  obtain log fs where st: "area_store b s3 (m_at b ram n) =
      s3\<lparr>ar_ram := mem_after b ram (Suc n), ar_log := log, ar_fill_state := fs, ar_last_d := d_at b ram n,
        ar_zero := (ar_zero s3 \<and> d_at b ram n = 0),
        ar_dpt := (if use_d b then row_pt b CHAN_D r (Suc n) else blt_pt b ! CHAN_D)\<rparr>"
    and fs: "blt_fill b \<longrightarrow> fs = snd (apply_fill (m_at b ram n) (fill_in b ram n) (blt_ife b) (blt_efe b))"
    using store_at [of b s3 r n ram] at f nw by (auto simp: s1 s2 s3 area_at_def)
  show ?thesis
    unfolding w st using at x fs sw
    by (auto simp: area_at_def s1 s2 s3 all_less_Suc simp del: mem_after.simps CHAN_A_def CHAN_B_def CHAN_C_def CHAN_D_def)
qed

lemma fill_in_row_start: "n mod unat (width_words b) = 0 \<Longrightarrow> fill_in b ram n = blt_fci b"
  by (cases n) simp_all

lemma words_at:
  assumes at: "area_at b ram r (r * unat (width_words b)) s" and hz: "no_hazard b" and r: "r < unat (height_rows b)"
    and f: "ar_fill_state s = blt_fci b" and w: "w \<le> unat (width_words b)"
  shows "area_at b ram r (r * unat (width_words b) + w) (fold (area_word b) [0..<w] s) \<and>
    (blt_fill b \<longrightarrow> w < unat (width_words b) \<longrightarrow>
       ar_fill_state (fold (area_word b) [0..<w] s) = fill_in b ram (r * unat (width_words b) + w))"
  using w
proof (induction w)
  case 0
  have "fill_in b ram (r * unat (width_words b)) = blt_fci b"
    by (rule fill_in_row_start) simp
  then show ?case using at f by simp
next
  case (Suc w)
  let ?n = "r * unat (width_words b) + w"
  have "?n < blt_words b"
  proof -
    have "Suc r * unat (width_words b) \<le> blt_words b"
      unfolding blt_words_def using r by (intro mult_le_mono1) simp
    then show ?thesis using Suc.prems by simp
  qed
  then show ?case
    using Suc word_at [of b ram r ?n "fold (area_word b) [0..<w] s" w] hz by simp
qed

lemma end_row_at:
  "area_at b ram r n s \<Longrightarrow> area_at b ram (Suc r) n (area_end_row b s)"
  by (simp add: area_at_def area_end_row_def row_pt_def Let_def algebra_simps)

lemma rows_at:
  assumes "no_hazard b" "chip_mem_ok ram"
  shows "r \<le> unat (height_rows b) \<Longrightarrow>
    area_at b ram r (r * unat (width_words b)) ((area_row b ^^ r) (area_init b ram log))"
proof (induction r)
  case 0
  then show ?case by (simp add: area_at_def area_init_def row_pt_def)
next
  case (Suc r)
  let ?s = "(area_row b ^^ r) (area_init b ram log)"
  have "area_at b ram r (r * unat (width_words b)) (?s\<lparr>ar_fill_state := blt_fci b\<rparr>)"
    using Suc by (simp add: area_at_def)
  from words_at [OF this assms(1), of "unat (width_words b)"] Suc.prems
  have "area_at b ram r (r * unat (width_words b) + unat (width_words b))
      (fold (area_word b) [0..<unat (width_words b)] (?s\<lparr>ar_fill_state := blt_fci b\<rparr>))" by simp
  from end_row_at [OF this] show ?case
    by (simp add: area_row_def [of b ?s] add.commute)
qed

lemma execute_area_at:
  assumes "no_hazard b" "chip_mem_ok ram" "execute_area b ram log = (b', ram', log')"
  shows "ram' = mem_after b ram (blt_words b)" "blt_zero b' = (blt_zero b \<and> (\<forall>n < blt_words b. d_at b ram n = 0))"
    "bltddat b' = (if blt_words b = 0 then 0 else d_at b ram (blt_words b - 1))"
  using rows_at [OF assms(1,2), of "unat (height_rows b)" log] assms(3)
  by (auto simp: execute_area_def Let_def area_at_def blt_words_def)

lemma mem_after_read:
  assumes "chip_mem_ok ram" "use_d b" "\<forall>j < k. \<forall>i < j. chip_addr (pt_at b CHAN_D i) \<noteq> chip_addr (pt_at b CHAN_D j)" "n < k"
  shows "blt_read_word (mem_after b ram k) (pt_at b CHAN_D n) = d_at b ram n"
  using assms(3,4)
proof (induction k)
  case (Suc k)
  show ?case
  proof (cases "n = k")
    case True
    then show ?thesis
      using assms(1,2) by (simp add: read_write_same chip_mem_ok_def)
  next
    case False
    then have "chip_addr (pt_at b CHAN_D k) \<noteq> chip_addr (pt_at b CHAN_D n)"
      using Suc.prems(1) [rule_format, of k n] Suc.prems(2) by (metis less_SucE lessI)
    then show ?thesis
      using Suc False assms(2) by (simp add: read_write_other)
  qed
qed simp

lemma mem_after_other:
  "(use_d b \<Longrightarrow> \<forall>n < k. i \<noteq> chip_addr (pt_at b CHAN_D n) \<and> i \<noteq> chip_addr (pt_at b CHAN_D n) + 1) \<Longrightarrow>
     mem_after b ram k ! i = ram ! i"
  by (induction k) (simp_all add: write_word_byte_other all_less_Suc)

lemma pt_at_cong:
  "pt_at (b\<lparr>blt_pending := x, blt_zero := y\<rparr>) ch n = pt_at b ch n"
  by (simp add: pt_at_def blt_step_def blt_desc_def signed_step_def Let_def)

definition distinct_dest :: "blitter \<Rightarrow> bool" where
  "distinct_dest b \<longleftrightarrow>
     (\<forall>n < blt_words b. \<forall>i < n. chip_addr (pt_at b CHAN_D i) \<noteq> chip_addr (pt_at b CHAN_D n))"

text \<open>The status bits that an armed blit resets do not enter the reference.\<close>

lemma armed_irrelevant:
  "d_at (b\<lparr>blt_pending := x, blt_zero := y\<rparr>) ram n = d_at b ram n"
  "no_hazard (b\<lparr>blt_pending := x, blt_zero := y\<rparr>) = no_hazard b"
  "blt_words (b\<lparr>blt_pending := x, blt_zero := y\<rparr>) = blt_words b"
  "use_d (b\<lparr>blt_pending := x, blt_zero := y\<rparr>) = use_d b"
proof -
  let ?b = "b\<lparr>blt_pending := x, blt_zero := y\<rparr>"
  have u: "use_a ?b = use_a b" "use_b ?b = use_b b" "use_c ?b = use_c b" "use_d ?b = use_d b"
    by (simp_all add: use_a_def use_b_def use_c_def use_d_def)
  show w: "blt_words ?b = blt_words b" and "use_d ?b = use_d b" by (simp_all add: blt_words_def u)
  show "no_hazard ?b = no_hazard b" by (simp add: no_hazard_def u w pt_at_cong)
  have c: "blt_desc ?b = blt_desc b" "blt_ash ?b = blt_ash b" "blt_bsh ?b = blt_bsh b" "blt_lf ?b = blt_lf b"
    "blt_ife ?b = blt_ife b" "blt_efe ?b = blt_efe b" "blt_fci ?b = blt_fci b"
    by (simp_all add: blt_desc_def blt_ash_def blt_bsh_def blt_lf_def blt_ife_def blt_efe_def blt_fci_def)
  have m: "m_at ?b ram k = m_at b ram k" for k
    by (simp add: m_at_def a_at_def b_at_def c_at_def a_masked_at_def src_at_def pt_at_cong u c Let_def)
  have "fill_in ?b ram n = fill_in b ram n"
    by (induction n) (simp_all add: m c)
  then show "d_at ?b ram n = d_at b ram n"
    by (auto simp: d_at_def blt_fill_def m c)
qed

text \<open>C5 [refinement]: An area blit computes the reference result. If no word is fetched after it has been stored and
  the destination words are distinct, then after the blit every destination word holds the D word that the
  minterm, shifter, masks and fill give from the initial memory, every other byte of chip RAM is unchanged, the zero
  status is set exactly when all D words are zero, and the pending flag is clear.\<close>

theorem area_blit_correct:
  assumes "blt_pending b" and "bltcon1 b AND BLTCON1_LINE = 0" and "use_d b" and "no_hazard b" and "distinct_dest b"
    and "length ram = CHIP_RAM_SIZE" and "execute_logged b ram log = ((b', ram', log'), did_run)"
  shows "did_run \<and> \<not> blt_pending b' \<and>
    (\<forall>n < blt_words b. blt_read_word ram' (pt_at b CHAN_D n) = d_at b ram n) \<and>
    (\<forall>i. (\<forall>n < blt_words b. i \<noteq> chip_addr (pt_at b CHAN_D n) \<and> i \<noteq> chip_addr (pt_at b CHAN_D n) + 1) \<longrightarrow>
       ram' ! i = ram ! i) \<and>
    (blt_dmaconr_bits b' = DMACONR_BZERO \<longleftrightarrow> (\<forall>n < blt_words b. d_at b ram n = 0))"
proof -
  let ?b = "b\<lparr>blt_pending := False, blt_zero := True\<rparr>"
  have ok: "chip_mem_ok ram" using assms(6) by (simp add: chip_mem_ok_def)
  have ex: "did_run" "execute_area ?b ram log = (b', ram', log')"
    using assms(1,2,7) by (simp_all add: execute_logged_def)
  then have p: "\<not> blt_pending b'" by (auto simp: execute_area_def Let_def)
  have hz: "no_hazard ?b" using assms(4) by (simp add: armed_irrelevant)
  note e = execute_area_at [OF hz ok ex(2)]
  have r: "ram' = mem_after ?b ram (blt_words b)" using e(1) by (simp add: armed_irrelevant)
  have "blt_read_word ram' (pt_at b CHAN_D n) = d_at b ram n" if "n < blt_words b" for n
    using mem_after_read [of ram ?b "blt_words b" n] that ok assms(3,5)
    by (simp add: r armed_irrelevant distinct_dest_def pt_at_cong)
  moreover have "ram' ! i = ram ! i"
    if "\<forall>n < blt_words b. i \<noteq> chip_addr (pt_at b CHAN_D n) \<and> i \<noteq> chip_addr (pt_at b CHAN_D n) + 1" for i
    using mem_after_other [of ?b "blt_words b" i ram] that by (simp add: r pt_at_cong)
  moreover have "blt_dmaconr_bits b' = DMACONR_BZERO \<longleftrightarrow> (\<forall>n < blt_words b. d_at b ram n = 0)"
    using e(2) by (simp add: blt_dmaconr_bits_def armed_irrelevant)
  ultimately show ?thesis using ex(1) p by blast
qed

text \<open>A two-by-two inverting copy from \<open>0x1000\<close> to \<open>0x2000\<close> with a modulo of 16 bytes, in cleared memory.\<close>

definition blt_sample :: blitter where
  "blt_sample = \<lparr>bltcon0 = 0x090F, bltcon1 = 0, bltafwm = 0xFFFF, bltalwm = 0xFFFF, blt_pt = [0x1000, 0, 0, 0x2000],
     blt_modulo = [16, 0, 0, 16], blt_dat = [0, 0, 0, 0], bltddat = 0, width_words = 2, height_rows = 2,
     blt_zero = True, blt_pending = True\<rparr>"

lemma zero_read: "blt_read_word (replicate CHIP_RAM_SIZE 0) p = 0"
  using chip_addr_bound(1) [of p] by (simp add: blt_read_word_def Let_def from_be_def)

lemma blt_sample_words [simp]: "blt_words blt_sample = 4"
  by (simp add: blt_sample_def blt_words_def)

lemma blt_sample_dest:
  "chip_addr (pt_at blt_sample CHAN_D 0) = 0x2000" "chip_addr (pt_at blt_sample CHAN_D 1) = 0x2002"
  "chip_addr (pt_at blt_sample CHAN_D 2) = 0x2014" "chip_addr (pt_at blt_sample CHAN_D 3) = 0x2016"
  "chip_addr (pt_at blt_sample CHAN_A 1) = 0x1002" "chip_addr (pt_at blt_sample CHAN_A 2) = 0x1014"
  "chip_addr (pt_at blt_sample CHAN_A 3) = 0x1016"
  by (simp_all add: pt_at_def blt_sample_def blt_step_def blt_desc_def signed_step_def even_modulo_def chip_addr_def)

lemma less_four: "(\<forall>n < (4 :: nat). P n) \<longleftrightarrow> P 0 \<and> P 1 \<and> P 2 \<and> P 3"
  by (auto simp: less_Suc_eq eval_nat_numeral)

lemma below_each: "(\<forall>i < (0 :: nat). P i)" "(\<forall>i < (1 :: nat). P i) \<longleftrightarrow> P 0" "(\<forall>i < (2 :: nat). P i) \<longleftrightarrow> P 0 \<and> P 1"
  "(\<forall>i < (3 :: nat). P i) \<longleftrightarrow> P 0 \<and> P 1 \<and> P 2"
  by (auto simp: less_Suc_eq eval_nat_numeral)

lemma blt_sample_hyps: "no_hazard blt_sample" "distinct_dest blt_sample" "use_d blt_sample"
proof -
  have "\<not> use_b blt_sample" "\<not> use_c blt_sample" by (simp_all add: use_b_def use_c_def blt_sample_def)
  then show "no_hazard blt_sample"
    unfolding no_hazard_def by (simp only: blt_sample_words less_four below_each blt_sample_dest) simp
  show "distinct_dest blt_sample"
    unfolding distinct_dest_def by (simp only: blt_sample_words less_four below_each blt_sample_dest) simp
  show "use_d blt_sample" by (simp add: use_d_def blt_sample_def)
qed

lemma blt_sample_d: "d_at blt_sample (replicate CHIP_RAM_SIZE 0) n = 0xFFFF"
proof -
  have a: "a_masked_at blt_sample (replicate CHIP_RAM_SIZE 0) k = 0" for k
    unfolding a_masked_at_def src_at_def zero_read by (simp add: use_a_def blt_sample_def Let_def)
  show ?thesis
    unfolding d_at_def m_at_def a_at_def a
    by (simp add: b_at_def c_at_def blt_fill_def blt_desc_def use_b_def use_c_def blt_sample_def blt_lf_def blt_ash_def
        shift_combine_def minterm_def)
qed

definition cleared_chip :: "u8 list" where
  "cleared_chip = replicate CHIP_RAM_SIZE 0"

lemma cleared_chip_facts:
  "length cleared_chip = CHIP_RAM_SIZE" "i < CHIP_RAM_SIZE \<Longrightarrow> cleared_chip ! i = 0" "d_at blt_sample cleared_chip n = 0xFFFF"
  unfolding cleared_chip_def by (simp_all only: length_replicate nth_replicate blt_sample_d)

lemma area_blit_correct_witness:
  "\<exists>b' ram' log'. execute_logged blt_sample cleared_chip None = ((b', ram', log'), True) \<and>
     blt_read_word ram' 0x2016 = 0xFFFF \<and> ram' ! 0x2018 = 0 \<and> blt_dmaconr_bits b' \<noteq> DMACONR_BZERO"
proof -
  obtain b' ram' log' did_run
    where e: "execute_logged blt_sample cleared_chip None = ((b', ram', log'), did_run)" by (metis prod.exhaust)
  have h: "blt_pending blt_sample" "bltcon1 blt_sample AND BLTCON1_LINE = 0" by (simp_all add: blt_sample_def)
  note c = area_blit_correct [OF h blt_sample_hyps(3,1,2) cleared_chip_facts(1) e, unfolded blt_sample_words cleared_chip_facts(3)]
  then have c1: "did_run" and c2: "\<forall>n < 4. blt_read_word ram' (pt_at blt_sample CHAN_D n) = 0xFFFF"
    and c3: "(\<forall>n < 4. i \<noteq> chip_addr (pt_at blt_sample CHAN_D n) \<and> i \<noteq> chip_addr (pt_at blt_sample CHAN_D n) + 1) \<longrightarrow>
       ram' ! i = cleared_chip ! i"
    and c4: "blt_dmaconr_bits b' = DMACONR_BZERO \<longleftrightarrow> (\<forall>n < (4 :: nat). (0xFFFF :: u16) = 0)" for i
    by blast+
  have "pt_at blt_sample CHAN_D 3 = 0x2016"
    by (simp add: pt_at_def blt_sample_def blt_step_def blt_desc_def signed_step_def even_modulo_def)
  moreover have "blt_read_word ram' (pt_at blt_sample CHAN_D 3) = 0xFFFF" using c2 unfolding less_four by blast
  moreover have "ram' ! 0x2018 = cleared_chip ! 0x2018"
    using c3 [of "0x2018"] unfolding less_four blt_sample_dest by simp
  moreover have "cleared_chip ! 0x2018 = 0" by (rule cleared_chip_facts(2)) simp
  moreover have "blt_dmaconr_bits b' \<noteq> DMACONR_BZERO" using c4 unfolding less_four by simp
  ultimately show ?thesis
    using e c1 by (intro exI [of _ b'] exI [of _ ram'] exI [of _ log'] conjI) (simp_all only: simp_thms)
qed

section \<open>The device-write log\<close>

text \<open>\<open>ram\<close> was reached from \<open>ram0\<close> by writes that are all in the log, unless the log overflowed.\<close>

definition logged :: "u8 list \<Rightarrow> u8 list \<Rightarrow> device_write_log option \<Rightarrow> bool" where
  "logged ram0 ram log \<longleftrightarrow> length ram = length ram0 \<and>
     (\<exists>l. log = Some l \<and> dwl_ok l \<and>
        (\<not> dwl_overflowed l \<longrightarrow> {i. ram ! i \<noteq> ram0 ! i} \<subseteq> spans_cover (dwl_recorded l)))"

lemma logged_write:
  assumes "logged ram0 ram log" "blt_write_word ram log p v = (ram', log')"
  shows "logged ram0 ram' log'"
proof -
  obtain l where l: "log = Some l" "dwl_ok l"
    and c: "\<not> dwl_overflowed l \<longrightarrow> {i. ram ! i \<noteq> ram0 ! i} \<subseteq> spans_cover (dwl_recorded l)"
    using assms(1) by (auto simp: logged_def)
  let ?l = "dwl_record l (of_nat (chip_addr p)) 2"
  have r: "ram' = fst (blt_write_word ram log p v)" and log': "log' = Some ?l"
    using assms(2) l by (auto simp: blt_write_word_def Let_def)
  have u: "unat (of_nat (chip_addr p) :: u32) = chip_addr p"
    using chip_addr_bound(1) [of p] by (simp add: unat_of_nat_less)
  have sub: "{i. ram' ! i \<noteq> ram0 ! i} \<subseteq> {i. ram ! i \<noteq> ram0 ! i} \<union> span_bytes (of_nat (chip_addr p), 2)"
    using write_word_byte_other [of _ p ram log v] by (force simp: r span_bytes_def u)
  have "dwl_adds l (of_nat (chip_addr p)) 2 ?l" using l(2) by (rule dwl_record_adds)
  then show ?thesis
    using assms(1) c sub by (auto simp: logged_def log' r dwl_adds_def)
qed

lemma area_word_logged:
  "logged ram0 (ar_ram s) (ar_log s) \<Longrightarrow> logged ram0 (ar_ram (area_word b w s)) (ar_log (area_word b w s))"
proof -
  assume lg: "logged ram0 (ar_ram s) (ar_log s)"
  have a: "ar_ram (fst (area_fetch_a b w s)) = ar_ram s" "ar_log (fst (area_fetch_a b w s)) = ar_log s" for s
    by (simp_all add: area_fetch_a_def Let_def)
  have b: "ar_ram (fst (area_fetch_b b s)) = ar_ram s" "ar_log (fst (area_fetch_b b s)) = ar_log s" for s
    by (simp_all add: area_fetch_b_def Let_def)
  have c: "ar_ram (fst (area_fetch_c b s)) = ar_ram s" "ar_log (fst (area_fetch_c b s)) = ar_log s" for s
    by (simp_all add: area_fetch_c_def Let_def)
  have d: "logged ram0 (ar_ram (area_store b s m)) (ar_log (area_store b s m))"
    if "logged ram0 (ar_ram s) (ar_log s)" for s m
    using that logged_write by (auto simp: area_store_def Let_def split: prod.split)
  show ?thesis
    unfolding area_word_def Let_def case_prod_beta by (intro d) (simp add: a b c lg)
qed

lemma area_row_logged:
  assumes "logged ram0 (ar_ram s) (ar_log s)"
  shows "logged ram0 (ar_ram (area_row b s)) (ar_log (area_row b s))"
proof -
  have f: "logged ram0 (ar_ram (fold (area_word b) ws s)) (ar_log (fold (area_word b) ws s))"
    if "logged ram0 (ar_ram s) (ar_log s)" for ws s
    using that by (induction ws arbitrary: s) (simp_all add: area_word_logged)
  have e: "ar_ram (area_end_row b s) = ar_ram s" "ar_log (area_end_row b s) = ar_log s" for s
    by (simp_all add: area_end_row_def Let_def)
  show ?thesis unfolding area_row_def e by (rule f) (simp add: assms)
qed

lemma line_dot_logged:
  assumes "logged ram0 (ln_ram s) (ln_log s)"
  shows "logged ram0 (ln_ram (line_dot b s)) (ln_log (line_dot b s))"
proof -
  have f: "ln_ram (line_fetch_b b s) = ln_ram s" "ln_log (line_fetch_b b s) = ln_log s"
    by (simp_all add: line_fetch_b_def)
  have c: "ln_ram (fst (line_combine b s)) = ln_ram s" "ln_log (fst (line_combine b s)) = ln_log s" for s
    by (simp_all add: line_combine_def Let_def)
  have a: "ln_ram (line_advance b s) = ln_ram s" "ln_log (line_advance b s) = ln_log s" for s
    by (simp_all add: line_advance_def Let_def split: prod.split)
  have d: "logged ram0 (ln_ram (line_store b s p v)) (ln_log (line_store b s p v))"
    if "logged ram0 (ln_ram s) (ln_log s)" for s p v
    using that logged_write by (auto simp: line_store_def Let_def split: prod.split)
  show ?thesis
    unfolding line_dot_def Let_def case_prod_beta by (intro d) (simp add: f c a assms)
qed

lemma iterate_logged:
  assumes "\<And>s. P s \<Longrightarrow> P (f s)" "P s"
  shows "P ((f ^^ n) s)"
  using assms by (induction n) simp_all

text \<open>Every byte of chip RAM a blit changes, in area or line mode and whatever the pointers hold, is covered
  by the device-write log unless the log reports an overflow; the blit neither grows nor shrinks chip RAM.\<close>

lemma blit_writes_are_logged:
  assumes "dwl_ok l" and "execute_logged b ram (Some l) = ((b', ram', log'), did_run)"
  shows "\<exists>l'. log' = Some l' \<and> length ram' = length ram \<and>
    (dwl_overflowed l' \<or> {i. ram' ! i \<noteq> ram ! i} \<subseteq> spans_cover (dwl_recorded l'))"
proof -
  have 0: "logged ram ram (Some l)" using assms(1) by (simp add: logged_def)
  have ar: "logged ram (ar_ram ((area_row c ^^ n) (area_init c ram (Some l)))) (ar_log ((area_row c ^^ n) (area_init c ram (Some l))))" for c n
    using area_row_logged 0 by (intro iterate_logged [where P = "\<lambda>s. logged ram (ar_ram s) (ar_log s)"]) (simp_all add: area_init_def)
  have ln: "logged ram (ln_ram ((line_dot c ^^ n) (line_init c ram (Some l)))) (ln_log ((line_dot c ^^ n) (line_init c ram (Some l))))" for c n
    using line_dot_logged 0 by (intro iterate_logged [where P = "\<lambda>s. logged ram (ln_ram s) (ln_log s)"]) (simp_all add: line_init_def Let_def)
  have "logged ram ram' log'"
    using assms(2) 0 ar ln by (auto simp: execute_logged_def execute_area_def execute_line_def Let_def split: if_splits)
  then show ?thesis by (auto simp: logged_def)
qed

lemma blit_writes_are_logged_witness:
  "\<exists>b' ram' l'. execute_logged blt_sample cleared_chip (Some (dwl_new [(0, 0), (0, 0)])) = ((b', ram', Some l'), True) \<and>
     (dwl_overflowed l' \<or> {i. ram' ! i \<noteq> cleared_chip ! i} \<subseteq> spans_cover (dwl_recorded l'))"
proof -
  obtain b' ram' log' did_run
    where e: "execute_logged blt_sample cleared_chip (Some (dwl_new [(0, 0), (0, 0)])) = ((b', ram', log'), did_run)"
    by (metis prod.exhaust)
  have "did_run" using e by (auto simp: execute_logged_def blt_sample_def Let_def split: if_splits)
  moreover have "dwl_ok (dwl_new [(0, 0), (0, 0)])" by (simp add: dwl_ok_def dwl_new_def)
  ultimately show ?thesis using blit_writes_are_logged [OF _ e] e by auto
qed

section \<open>Line mode walks a line\<close>

text \<open>
  A pixel of a bitplane is addressed by the number of its bit in memory order. The position of the line
  state is the pixel under the pen; pointers wrap at 32 bits, so positions wrap at 35.
\<close>

definition ln_pos :: "line \<Rightarrow> int" where
  "ln_pos s = (8 * uint (ln_cpt s) + ln_ash s) mod 2 ^ 35"

definition line_dir :: "u16 \<Rightarrow> u16 \<Rightarrow> int" where
  "line_dir con1 flag = (if con1 AND flag \<noteq> 0 then -1 else 1)"

definition line_row :: "blitter \<Rightarrow> int" where
  "line_row b = 8 * sint (blt_modulo b ! CHAN_C)"

definition major_delta :: "blitter \<Rightarrow> int" where
  "major_delta b = line_dir (bltcon1 b) BLTCON1_AUL * (if bltcon1 b AND BLTCON1_SUD \<noteq> 0 then 1 else line_row b)"

definition minor_delta :: "blitter \<Rightarrow> int" where
  "minor_delta b = line_dir (bltcon1 b) BLTCON1_SUL * (if bltcon1 b AND BLTCON1_SUD \<noteq> 0 then line_row b else 1)"

lemma pos_cong: "((x :: int) mod 2 ^ 32) * 8 mod 2 ^ 35 = x * 8 mod 2 ^ 35"
proof -
  have "(2 :: int) ^ 35 = 8 * 2 ^ 32" by simp
  then show ?thesis by (metis mult.commute mod_mult_mult1 mod_mod_trivial)
qed

lemma pos_shift:
  assumes "uint p' = (uint (p :: u32) + d) mod 2 ^ 32"
  shows "(8 * uint p' + a) mod 2 ^ 35 = (8 * uint p + 8 * d + a) mod 2 ^ 35"
proof -
  have "(8 * uint p' + a) mod 2 ^ 35 = ((uint p + d) mod 2 ^ 32 * 8 mod 2 ^ 35 + a) mod 2 ^ 35"
    by (simp add: assms mult.commute mod_simps)
  then show ?thesis unfolding pos_cong by (simp add: algebra_simps mod_simps)
qed

lemma uint_add_scast: "uint (p + scast (m :: u16) :: u32) = (uint p + sint m) mod 2 ^ 32"
proof -
  have "uint (scast m :: u32) = sint m mod 2 ^ 32"
    by (simp only: scast_eq uint_word_of_int) simp
  then show ?thesis by (simp add: uint_word_ariths mod_simps)
qed

lemma uint_sub_scast: "uint (p + - scast (m :: u16) :: u32) = (uint p + - sint m) mod 2 ^ 32"
proof -
  have "uint (scast m :: u32) = sint m mod 2 ^ 32"
    by (simp only: scast_eq uint_word_of_int) simp
  then show ?thesis by (simp add: uint_word_ariths mod_simps)
qed

definition ash_ok :: "line \<Rightarrow> bool" where
  "ash_ok s \<longleftrightarrow> 0 \<le> ln_ash s \<and> ln_ash s \<le> 15"

lemma step_x_pos:
  assumes "line_step_x ash dx cpt = (ash', cpt')" "0 \<le> ash" "ash \<le> 15" "dx = 1 \<or> dx = -1"
  shows "(8 * uint cpt' + ash') mod 2 ^ 35 = (8 * uint cpt + ash + dx) mod 2 ^ 35" "0 \<le> ash'" "ash' \<le> 15"
proof -
  have p2: "uint (cpt + 2) = (uint cpt + 2) mod 2 ^ 32" "uint (cpt - 2) = (uint cpt + - 2) mod 2 ^ 32"
    by (simp_all add: uint_word_ariths)
  consider (up) "dx = 1" "ash = 15" "ash' = 0" "cpt' = cpt + 2" | (down) "dx = -1" "ash = 0" "ash' = 15" "cpt' = cpt - 2"
    | (in_word) "ash' = ash + dx" "cpt' = cpt" "0 \<le> ash'" "ash' \<le> 15"
    using assms by (auto simp: line_step_x_def Let_def split: if_splits)
  then have "(8 * uint cpt' + ash') mod 2 ^ 35 = (8 * uint cpt + ash + dx) mod 2 ^ 35 \<and> 0 \<le> ash' \<and> ash' \<le> 15"
  proof cases
    case up
    then show ?thesis using pos_shift [OF p2(1), of 0] by (simp add: algebra_simps)
  next
    case down
    show ?thesis unfolding down using pos_shift [OF p2(2), of 15] by simp
  next
    case in_word
    then show ?thesis by (simp add: algebra_simps)
  qed
  then show "(8 * uint cpt' + ash') mod 2 ^ 35 = (8 * uint cpt + ash + dx) mod 2 ^ 35" "0 \<le> ash'" "ash' \<le> 15"
    by simp_all
qed

lemma step_y_pos:
  assumes "line_step_y dy (scast m) cpt one_dot = (cpt', od)" "dy = 1 \<or> dy = -1"
  shows "(8 * uint cpt' + ash) mod 2 ^ 35 = (8 * uint cpt + ash + dy * (8 * sint (m :: u16))) mod 2 ^ 35"
  using assms pos_shift [OF uint_add_scast [of cpt m], of ash] pos_shift [OF uint_sub_scast [of cpt m], of ash]
  by (auto simp: line_step_y_def algebra_simps)

lemma step_sometimes_pos:
  assumes "line_step_sometimes con1 ash (scast (m :: u16)) cpt od = (ash', cpt', od')" "0 \<le> ash" "ash \<le> 15"
  shows "(8 * uint cpt' + ash') mod 2 ^ 35 =
      (8 * uint cpt + ash + line_dir con1 BLTCON1_SUL * (if con1 AND BLTCON1_SUD \<noteq> 0 then 8 * sint m else 1)) mod 2 ^ 35 \<and>
    0 \<le> ash' \<and> ash' \<le> 15"
proof (cases "con1 AND BLTCON1_SUD = 0")
  case True
  then have "line_step_x ash (line_dir con1 BLTCON1_SUL) cpt = (ash', cpt')"
    using assms(1) by (auto simp: line_step_sometimes_def line_dir_def Let_def split: prod.splits)
  from step_x_pos [OF this assms(2,3)] show ?thesis using True by (simp add: line_dir_def)
next
  case False
  then have "line_step_y (line_dir con1 BLTCON1_SUL) (scast m) cpt od = (cpt', od')" "ash' = ash"
    using assms(1) by (auto simp: line_step_sometimes_def line_dir_def Let_def)
  with step_y_pos [of "line_dir con1 BLTCON1_SUL" m cpt od cpt' od' ash] assms(2,3) False
  show ?thesis by (simp add: line_dir_def)
qed

lemma step_always_pos:
  assumes "line_step_always con1 ash (scast (m :: u16)) cpt od = (ash', cpt', od')" "0 \<le> ash" "ash \<le> 15"
  shows "(8 * uint cpt' + ash') mod 2 ^ 35 =
      (8 * uint cpt + ash + line_dir con1 BLTCON1_AUL * (if con1 AND BLTCON1_SUD \<noteq> 0 then 1 else 8 * sint m)) mod 2 ^ 35 \<and>
    0 \<le> ash' \<and> ash' \<le> 15"
proof (cases "con1 AND BLTCON1_SUD = 0")
  case False
  then have "line_step_x ash (line_dir con1 BLTCON1_AUL) cpt = (ash', cpt')"
    using assms(1) by (auto simp: line_step_always_def line_dir_def Let_def split: prod.splits)
  from step_x_pos [OF this assms(2,3)] show ?thesis using False by (simp add: line_dir_def)
next
  case True
  then have "line_step_y (line_dir con1 BLTCON1_AUL) (scast m) cpt od = (cpt', od')" "ash' = ash"
    using assms(1) by (auto simp: line_step_always_def line_dir_def Let_def)
  with step_y_pos [of "line_dir con1 BLTCON1_AUL" m cpt od cpt' od' ash] assms(2,3) True
  show ?thesis by (simp add: line_dir_def)
qed

lemma line_advance_pos:
  assumes "ash_ok s"
  shows "ash_ok (line_advance b s)"
    "ln_pos (line_advance b s) = (ln_pos s + major_delta b + (if ln_sign s then 0 else minor_delta b)) mod 2 ^ 35"
    "ln_acc (line_advance b s) =
       ln_acc s + (if use_a b then if ln_sign s then blt_modulo b ! CHAN_B else blt_modulo b ! CHAN_A else 0)"
    "ln_sign (line_advance b s) = (sint (ln_acc (line_advance b s)) < 0)"
proof -
  let ?m = "blt_modulo b ! CHAN_C"
  obtain ash1 cpt1 od1 where 1: "(if \<not> ln_sign s then line_step_sometimes (bltcon1 b) (ln_ash s) (scast ?m) (ln_cpt s) (ln_one_dot s)
      else (ln_ash s, ln_cpt s, ln_one_dot s)) = (ash1, cpt1, od1)" by (metis prod.exhaust)
  obtain ash2 cpt2 od2 where 2: "line_step_always (bltcon1 b) ash1 (scast ?m) cpt1 od1 = (ash2, cpt2, od2)"
    by (metis prod.exhaust)
  have p1: "(8 * uint cpt1 + ash1) mod 2 ^ 35 = (ln_pos s + (if ln_sign s then 0 else minor_delta b)) mod 2 ^ 35"
    "0 \<le> ash1" "ash1 \<le> 15"
    using 1 assms step_sometimes_pos [of "bltcon1 b" "ln_ash s" ?m "ln_cpt s" "ln_one_dot s" ash1 cpt1 od1]
    by (auto simp: ash_ok_def ln_pos_def minor_delta_def line_row_def mod_simps split: if_splits)
  have p2: "(8 * uint cpt2 + ash2) mod 2 ^ 35 = (8 * uint cpt1 + ash1 + major_delta b) mod 2 ^ 35" "0 \<le> ash2" "ash2 \<le> 15"
    using step_always_pos [OF 2 p1(2,3)] by (simp_all add: major_delta_def line_row_def)
  have st: "line_advance b s = s\<lparr>ln_ash := ash2, ln_cpt := cpt2, ln_one_dot := od2,
      ln_acc := ln_acc s + (if use_a b then if ln_sign s then blt_modulo b ! CHAN_B else blt_modulo b ! CHAN_A else 0),
      ln_sign := (sint (ln_acc s + (if use_a b then if ln_sign s then blt_modulo b ! CHAN_B else blt_modulo b ! CHAN_A else 0)) < 0)\<rparr>"
    using 1 2 by (cases "ln_sign s") (auto simp: line_advance_def Let_def split: prod.splits)
  show "ash_ok (line_advance b s)" using p2 by (simp add: st ash_ok_def)
  have "ln_pos (line_advance b s) = ((8 * uint cpt1 + ash1) mod 2 ^ 35 + major_delta b) mod 2 ^ 35"
    using p2(1) by (simp add: st ln_pos_def mod_simps)
  then show "ln_pos (line_advance b s) = (ln_pos s + major_delta b + (if ln_sign s then 0 else minor_delta b)) mod 2 ^ 35"
    unfolding p1(1) by (simp add: mod_simps algebra_simps)
  show "ln_acc (line_advance b s) =
       ln_acc s + (if use_a b then if ln_sign s then blt_modulo b ! CHAN_B else blt_modulo b ! CHAN_A else 0)"
    "ln_sign (line_advance b s) = (sint (ln_acc (line_advance b s)) < 0)" by (simp_all add: st)
qed

lemma fetch_combine_frame [frame_simps]:
  "ln_cpt (fst (line_combine b (line_fetch_b b s))) = ln_cpt s" "ln_ash (fst (line_combine b (line_fetch_b b s))) = ln_ash s"
  "ln_acc (fst (line_combine b (line_fetch_b b s))) = ln_acc s" "ln_sign (fst (line_combine b (line_fetch_b b s))) = ln_sign s"
  "ln_dpt (fst (line_combine b (line_fetch_b b s))) = ln_dpt s" "ln_ram (fst (line_combine b (line_fetch_b b s))) = ln_ram s"
  by (simp_all add: line_combine_def line_fetch_b_def Let_def)

lemma line_store_frame [frame_simps]:
  "ln_cpt (line_store b s px d) = ln_cpt s" "ln_ash (line_store b s px d) = ln_ash s"
  "ln_acc (line_store b s px d) = ln_acc s" "ln_sign (line_store b s px d) = ln_sign s"
  "ln_dpt (line_store b s px d) = ln_cpt s"
  by (simp_all add: line_store_def Let_def split: prod.split)

lemma line_advance_frame [frame_simps]:
  "ln_ram (line_advance b s) = ln_ram s" "ln_dpt (line_advance b s) = ln_dpt s"
  by (simp_all add: line_advance_def Let_def split: prod.split)

lemma line_dot_split:
  "line_dot b s = (let t = fst (line_combine b (line_fetch_b b s))
     in line_store b (line_advance b t) (fst (snd (line_combine b (line_fetch_b b s)))) (snd (snd (line_combine b (line_fetch_b b s)))))"
  by (simp add: line_dot_def Let_def case_prod_beta)

lemma line_dot_walk:
  assumes "ash_ok s"
  shows "ash_ok (line_dot b s)" "ln_dpt (line_dot b s) = ln_cpt (line_dot b s)"
    "ln_pos (line_dot b s) = (ln_pos s + major_delta b + (if ln_sign s then 0 else minor_delta b)) mod 2 ^ 35"
    "ln_acc (line_dot b s) =
       ln_acc s + (if use_a b then if ln_sign s then blt_modulo b ! CHAN_B else blt_modulo b ! CHAN_A else 0)"
    "ln_sign (line_dot b s) = (sint (ln_acc (line_dot b s)) < 0)"
proof -
  let ?t = "fst (line_combine b (line_fetch_b b s))"
  have t: "ash_ok ?t" "ln_pos ?t = ln_pos s" "ln_sign ?t = ln_sign s" "ln_acc ?t = ln_acc s"
    using assms by (simp_all add: ash_ok_def ln_pos_def frame_simps)
  note a = line_advance_pos [OF t(1), of b, unfolded t(2-4)]
  show "ash_ok (line_dot b s)" "ln_dpt (line_dot b s) = ln_cpt (line_dot b s)"
    "ln_pos (line_dot b s) = (ln_pos s + major_delta b + (if ln_sign s then 0 else minor_delta b)) mod 2 ^ 35"
    "ln_acc (line_dot b s) =
       ln_acc s + (if use_a b then if ln_sign s then blt_modulo b ! CHAN_B else blt_modulo b ! CHAN_A else 0)"
    "ln_sign (line_dot b s) = (sint (ln_acc (line_dot b s)) < 0)"
    using a by (simp_all add: line_dot_split Let_def frame_simps ash_ok_def ln_pos_def)
qed

text \<open>
  The ideal line: \<open>n\<close> steps along the major axis are accompanied by \<open>n * dmin / dmaj\<close> steps along the minor axis, rounded
  to the nearest integer (halves up).
\<close>

definition ideal_minor :: "int \<Rightarrow> int \<Rightarrow> nat \<Rightarrow> int" where
  "ideal_minor dmin dmaj n = (2 * int n * dmin + dmaj) div (2 * dmaj)"

lemma ideal_minor_bounds:
  assumes "0 < dmaj"
  shows "2 * (dmaj * ideal_minor dmin dmaj n) \<le> 2 * (int n * dmin) + dmaj"
    "2 * (int n * dmin) + dmaj < 2 * (dmaj * ideal_minor dmin dmaj n) + 2 * dmaj"
proof -
  let ?x = "2 * int n * dmin + dmaj"
  have "2 * dmaj * (?x div (2 * dmaj)) + ?x mod (2 * dmaj) = ?x" by (rule mult_div_mod_eq)
  moreover have "0 \<le> ?x mod (2 * dmaj)" "?x mod (2 * dmaj) < 2 * dmaj" using assms by simp_all
  ultimately show "2 * (dmaj * ideal_minor dmin dmaj n) \<le> 2 * (int n * dmin) + dmaj"
    "2 * (int n * dmin) + dmaj < 2 * (dmaj * ideal_minor dmin dmaj n) + 2 * dmaj"
    unfolding ideal_minor_def by (simp_all add: algebra_simps)
qed

definition line_error :: "int \<Rightarrow> int \<Rightarrow> nat \<Rightarrow> int" where
  "line_error dmin dmaj n = 4 * (int (Suc n) * dmin) - 2 * dmaj - 4 * (dmaj * ideal_minor dmin dmaj n)"

lemma line_error_range:
  assumes "0 < dmaj" "0 \<le> dmin" "dmin \<le> dmaj"
  shows "4 * dmin - 4 * dmaj \<le> line_error dmin dmaj n" "line_error dmin dmaj n < 4 * dmin"
  using ideal_minor_bounds [OF assms(1), where dmin = dmin and n = n] assms by (simp_all add: line_error_def algebra_simps)

lemma ideal_minor_step:
  assumes "0 < dmaj" "0 \<le> dmin" "dmin \<le> dmaj"
  shows "ideal_minor dmin dmaj (Suc n) = ideal_minor dmin dmaj n + (if line_error dmin dmaj n < 0 then 0 else 1)"
proof -
  let ?q = "ideal_minor dmin dmaj n"
  have i: "ideal_minor dmin dmaj (Suc n) = q"
    if "2 * (dmaj * q) \<le> 2 * (int n * dmin) + 2 * dmin + dmaj" "2 * (int n * dmin) + 2 * dmin + dmaj < 2 * (dmaj * q) + 2 * dmaj" for q
    unfolding ideal_minor_def
    by (rule int_div_pos_eq [where r = "2 * (int n * dmin) + 2 * dmin + dmaj - 2 * (dmaj * q)"])
       (use that in \<open>simp_all add: algebra_simps\<close>)
  show ?thesis
  proof (cases "line_error dmin dmaj n < 0")
    case True
    then show ?thesis
      using ideal_minor_bounds [OF assms(1), where dmin = dmin and n = n] assms
      by (simp add: line_error_def algebra_simps) (intro i; simp add: algebra_simps)
  next
    case False
    then show ?thesis
      using ideal_minor_bounds [OF assms(1), where dmin = dmin and n = n] assms
      by (simp add: line_error_def algebra_simps) (intro i; simp add: algebra_simps)
  qed
qed

lemma line_error_step:
  assumes "0 < dmaj" "0 \<le> dmin" "dmin \<le> dmaj"
  shows "line_error dmin dmaj (Suc n) =
    line_error dmin dmaj n + (if line_error dmin dmaj n < 0 then 4 * dmin else 4 * (dmin - dmaj))"
  unfolding line_error_def [of _ _ "Suc n"] ideal_minor_step [OF assms] by (simp add: line_error_def algebra_simps)

lemma sint_add_small:
  assumes "- (2 ^ 15) \<le> sint a + sint b" "sint a + sint b < 2 ^ 15"
  shows "sint (a + b :: u16) = sint a + sint b"
  using assms by (simp add: sint_word_ariths(1) signed_take_bit_int_eq_self)

text \<open>The register setup graphics.library uses for a line of \<open>dmaj\<close> major and \<open>dmin\<close> minor steps.\<close>

definition line_setup :: "blitter \<Rightarrow> int \<Rightarrow> int \<Rightarrow> bool" where
  "line_setup b dmin dmaj \<longleftrightarrow> 0 < dmaj \<and> 0 \<le> dmin \<and> dmin \<le> dmaj \<and> 4 * dmaj < 2 ^ 15 \<and> use_a b \<and>
     sint (blt_modulo b ! CHAN_A) = 4 * (dmin - dmaj) \<and> sint (blt_modulo b ! CHAN_B) = 4 * dmin \<and>
     sint (ucast (blt_pt b ! CHAN_A) :: u16) = 4 * dmin - 2 * dmaj \<and>
     (bltcon1 b AND BLTCON1_SIGN \<noteq> 0 \<longleftrightarrow> 4 * dmin - 2 * dmaj < 0)"

definition line_start :: "blitter \<Rightarrow> int" where
  "line_start b = 8 * uint (blt_pt b ! CHAN_C) + uint (drop_bit 12 (bltcon0 b) AND 0x000F)"

definition line_pixel_at :: "blitter \<Rightarrow> int \<Rightarrow> int \<Rightarrow> nat \<Rightarrow> int" where
  "line_pixel_at b dmin dmaj n = line_start b + int n * major_delta b + ideal_minor dmin dmaj n * minor_delta b"

lemma ash_start: "0 \<le> uint (drop_bit 12 (w :: u16) AND 0x000F)" "uint (drop_bit 12 (w :: u16) AND 0x000F) \<le> 15"
proof -
  have "drop_bit 12 w AND 0x000F \<le> 0x000F" by (rule word_and_le1)
  then show "uint (drop_bit 12 w AND 0x000F) \<le> 15" by (simp add: word_le_def)
qed simp

lemma line_walk:
  assumes su: "line_setup b dmin dmaj"
  shows "let s = (line_dot b ^^ n) (line_init b ram log) in
    ash_ok s \<and> ln_pos s = line_pixel_at b dmin dmaj n mod 2 ^ 35 \<and> sint (ln_acc s) = line_error dmin dmaj n \<and>
    ln_sign s = (line_error dmin dmaj n < 0)"
proof (induction n)
  case 0
  have "ideal_minor dmin dmaj 0 = 0" using su by (simp add: ideal_minor_def line_setup_def)
  then show ?case
    using su ash_start [of "bltcon0 b"]
    by (simp add: line_init_def Let_def ash_ok_def ln_pos_def line_pixel_at_def line_start_def line_error_def line_setup_def)
next
  case (Suc n)
  let ?s = "(line_dot b ^^ n) (line_init b ram log)"
  have ih: "ash_ok ?s" "ln_pos ?s = line_pixel_at b dmin dmaj n mod 2 ^ 35" "sint (ln_acc ?s) = line_error dmin dmaj n"
    "ln_sign ?s = (line_error dmin dmaj n < 0)"
    using Suc by (simp_all add: Let_def)
  have d: "0 < dmaj" "0 \<le> dmin" "dmin \<le> dmaj" "use_a b" "4 * dmaj < 2 ^ 15"
    "sint (blt_modulo b ! CHAN_A) = 4 * (dmin - dmaj)" "sint (blt_modulo b ! CHAN_B) = 4 * dmin"
    using su by (simp_all add: line_setup_def)
  note w = line_dot_walk [OF ih(1), of b]
  let ?e = "if line_error dmin dmaj n < 0 then blt_modulo b ! CHAN_B else blt_modulo b ! CHAN_A"
  have acc: "ln_acc (line_dot b ?s) = ln_acc ?s + ?e" using w(4) d(4) ih(4) by simp
  have e: "sint (ln_acc ?s) + sint ?e = line_error dmin dmaj (Suc n)"
    unfolding ih(3) line_error_step [OF d(1-3)] using d(6,7) by simp
  have "sint (ln_acc (line_dot b ?s)) = line_error dmin dmaj (Suc n)"
    unfolding acc using line_error_range [OF d(1-3), of "Suc n"] d(2,3,5) e sint_add_small [of "ln_acc ?s" ?e] by simp
  moreover have "ln_pos (line_dot b ?s) = line_pixel_at b dmin dmaj (Suc n) mod 2 ^ 35"
    unfolding w(3) ih(2,4) add.assoc mod_add_left_eq
    unfolding line_pixel_at_def ideal_minor_step [OF d(1-3)] by (simp add: algebra_simps)
  ultimately show ?case using w by (simp add: Let_def)
qed

subsection \<open>Pixels\<close>

definition pixel :: "u8 list \<Rightarrow> nat \<Rightarrow> bool" where
  "pixel ram q = bit (ram ! (q div 8)) (7 - q mod 8)"

lemma two_bytes_bit:
  "x < 16 \<Longrightarrow> bit (from_be [hi, lo] :: u16) (15 - x) = bit (if x < 8 then hi else lo) (7 - x mod 8)"
proof -
  assume x: "x < 16"
  have "(15 - x) div 8 = (if x < 8 then 1 else 0)" "(15 - x) mod 8 = 7 - x mod 8"
    using x by (auto simp: le_mod_geq le_div_geq mod_if)
  moreover have "15 - x < 16" by simp
  ultimately show ?thesis using x by (simp add: bit_from_be)
qed

lemma read_pixel:
  assumes "x < 16"
  shows "bit (blt_read_word ram p) (15 - x) = pixel ram (8 * chip_addr p + x)"
proof -
  have "(8 * chip_addr p + x) div 8 = chip_addr p + (if x < 8 then 0 else 1)" "(8 * chip_addr p + x) mod 8 = x mod 8"
    using assms by (auto simp: le_div_geq)
  then show ?thesis
    using two_bytes_bit [OF assms] by (simp add: blt_read_word_def Let_def pixel_def)
qed

lemma write_pixel:
  assumes "chip_mem_ok ram"
  shows "pixel (fst (blt_write_word ram log p v)) q =
    (if q div 16 * 2 = chip_addr p then bit v (15 - q mod 16) else pixel ram q)"
proof (cases "q div 16 * 2 = chip_addr p")
  case True
  have q: "q = 8 * chip_addr p + q mod 16" using True by (simp add: mult.assoc [symmetric] flip: True)
  have "bit (blt_read_word (fst (blt_write_word ram log p v)) p) (15 - q mod 16) = pixel (fst (blt_write_word ram log p v)) q"
    using read_pixel [of "q mod 16" "fst (blt_write_word ram log p v)" p] q by simp
  then show ?thesis using True read_write_same [OF assms, of p p] by simp
next
  case False
  have "q div 8 \<noteq> chip_addr p \<and> q div 8 \<noteq> chip_addr p + 1"
  proof -
    have "q div 8 div 2 * 2 = q div 16 * 2" by (simp add: div_mult2_eq [symmetric])
    moreover have "chip_addr p div 2 * 2 = chip_addr p" "(chip_addr p + 1) div 2 * 2 = chip_addr p"
      using chip_addr_bound(2) [of p] by simp_all
    ultimately show ?thesis using False by metis
  qed
  then show ?thesis using False by (simp add: pixel_def write_word_byte_other)
qed

lemma minterm_or:
  assumes "i < 16"
  shows "bit (minterm 0xFA a b c) i = (bit a i \<or> bit c i)"
  using assms unfolding minterm_def by (auto simp: bit_simps Let_def)

text \<open>A pen that starts on a word boundary stays on word boundaries when the row length is even.\<close>

lemma even_mod_2p: "even ((x :: int) mod 2 ^ 32) = even x"
  by (simp add: dvd_mod_iff)

lemma line_step_even:
  assumes "even (uint cpt)" "even (sint (m :: u16))"
  shows "even (uint (snd (line_step_x ash dx cpt)))" "even (uint (fst (line_step_y dy (scast m) cpt od)))"
    "even (uint (fst (snd (line_step_sometimes con1 ash (scast m) cpt od))))"
    "even (uint (fst (snd (line_step_always con1 ash (scast m) cpt od))))"
proof -
  have p2: "uint (cpt + 2) = (uint cpt + 2) mod 2 ^ 32" "uint (cpt - 2) = (uint cpt + - 2) mod 2 ^ 32"
    by (simp_all add: uint_word_ariths)
  show x: "even (uint (snd (line_step_x ash dx cpt)))" for ash dx
    using assms by (simp only: line_step_x_def Let_def p2 snd_conv even_mod_2p if_distrib [of snd] if_distrib [of uint] split: if_split) simp
  show y: "even (uint (fst (line_step_y dy (scast m) cpt od)))" for dy od
    using assms by (cases "dy > 0") (simp_all only: line_step_y_def fst_conv if_True if_False uint_add_scast uint_sub_scast even_mod_2p simp_thms even_add even_minus)
  show "even (uint (fst (snd (line_step_sometimes con1 ash (scast m) cpt od))))"
    "even (uint (fst (snd (line_step_always con1 ash (scast m) cpt od))))"
    using x y by (simp_all add: line_step_sometimes_def line_step_always_def Let_def case_prod_beta)
qed

lemma line_dot_even:
  assumes "even (uint (ln_cpt s))" "even (sint (blt_modulo b ! CHAN_C))"
  shows "even (uint (ln_cpt (line_dot b s)))"
proof -
  have "even (uint (ln_cpt (line_advance b t)))" if "even (uint (ln_cpt t))" for t
    using that line_step_even [OF _ assms(2)]
    by (simp add: line_advance_def Let_def case_prod_beta del: CHAN_C_def)
  then show ?thesis using assms(1) by (simp add: line_dot_split Let_def frame_simps)
qed

lemma pen_address:
  assumes "ash_ok s" "even (uint (ln_cpt s))"
  shows "nat (ln_pos s mod 2 ^ 24) = 8 * chip_addr (ln_cpt s) + nat (ln_ash s)"
proof -
  let ?c = "unat (ln_cpt s)"
  have ev: "even ?c" using assms(2) by (simp only: uint_nat even_of_nat)
  have c: "chip_addr (ln_cpt s) = ?c mod 2 ^ 21"
    unfolding chip_addr_eq using ev by (simp add: dvd_mod_iff)
  have m: "ln_pos s mod 2 ^ 24 = (8 * uint (ln_cpt s) + ln_ash s) mod 2 ^ 24"
    unfolding ln_pos_def by (rule mod_mod_cancel) simp
  have e: "8 * uint (ln_cpt s) + ln_ash s = 8 * int (?c mod 2 ^ 21) + ln_ash s + int (?c div 2 ^ 21) * 2 ^ 24"
  proof -
    have "?c = ?c mod 2 ^ 21 + ?c div 2 ^ 21 * 2 ^ 21" by simp
    then have "int ?c = int (?c mod 2 ^ 21) + int (?c div 2 ^ 21) * 2 ^ 21"
      by (metis (mono_tags, lifting) of_nat_add of_nat_mult of_nat_numeral of_nat_power)
    then show ?thesis by (simp only: uint_nat) simp
  qed
  have "?c mod 2 ^ 21 \<le> 2 ^ 21 - 2" using chip_addr_bound(1) [of "ln_cpt s"] c by simp
  then have "8 * int (?c mod 2 ^ 21) + ln_ash s < 2 ^ 24" "0 \<le> 8 * int (?c mod 2 ^ 21) + ln_ash s"
    using assms(1) by (simp_all add: ash_ok_def)
  then have "ln_pos s mod 2 ^ 24 = 8 * int (?c mod 2 ^ 21) + ln_ash s"
    unfolding m e mod_mult_self1 by (intro mod_pos_pos_trivial)
  then show ?thesis unfolding c using assms(1) by (simp add: ash_ok_def nat_add_distrib nat_mult_distrib)
qed

lemma bit_top: "bit (0x8000 :: u16) k = (k = 15)"
  using bit_exp_iff [of 15 k, where 'a = "16 word"] by auto

lemma dot_sets_pixel:
  assumes ok: "chip_mem_ok (ln_ram s)" and ash: "ash_ok s" and ev: "even (uint (ln_cpt s))" and dc: "ln_dpt s = ln_cpt s"
    and cfg: "use_c b" "bltcon1 b AND BLTCON1_SING = 0" "blt_lf b = 0xFA" "blt_dat b ! CHAN_A AND bltafwm b = 0x8000"
  shows "pixel (ln_ram (line_dot b s)) q = (pixel (ln_ram s) q \<or> q = nat (ln_pos s mod 2 ^ 24))"
proof -
  define v where "v = minterm 0xFA (drop_bit (nat (ln_ash s)) 0x8000)
    (if ln_bdat (line_fetch_b b s) AND 1 \<noteq> 0 then 0xFFFF else 0) (blt_read_word (ln_ram s) (ln_cpt s))"
  have f: "ln_ash (line_fetch_b b s) = ln_ash s" "ln_ram (line_fetch_b b s) = ln_ram s" "ln_cpt (line_fetch_b b s) = ln_cpt s"
    by (simp_all add: line_fetch_b_def)
  have comb: "snd (line_combine b (line_fetch_b b s)) = (True, v)"
    using cfg by (simp add: line_combine_def Let_def f v_def)
  have "ln_ram (line_store b t True v) = fst (blt_write_word (ln_ram t) (ln_log t) (ln_dpt t) v)" for t
    using cfg(1) by (simp add: line_store_def Let_def split: prod.split)
  then have r: "ln_ram (line_dot b s) = fst (blt_write_word (ln_ram s) None (ln_cpt s) v)"
    using write_word_ram_log dc by (simp add: line_dot_split Let_def comb frame_simps)
  have a: "bit (drop_bit (nat (ln_ash s)) (0x8000 :: u16)) (15 - x) = (x = nat (ln_ash s))" if "x < 16" for x
  proof -
    have "bit (drop_bit (nat (ln_ash s)) (0x8000 :: u16)) (15 - x) = (nat (ln_ash s) + (15 - x) = 15)"
      by (simp only: bit_drop_bit_eq comp_apply bit_top)
    moreover have "nat (ln_ash s) \<le> 15" using ash unfolding ash_ok_def by linarith
    ultimately show ?thesis using that by linarith
  qed
  have x: "bit v (15 - q mod 16) = (q mod 16 = nat (ln_ash s) \<or> pixel (ln_ram s) (8 * chip_addr (ln_cpt s) + q mod 16))"
    unfolding v_def by (subst minterm_or) (simp_all add: a read_pixel)
  have n: "nat (ln_pos s mod 2 ^ 24) = 8 * chip_addr (ln_cpt s) + nat (ln_ash s)" by (rule pen_address [OF ash ev])
  show ?thesis
  proof (cases "q div 16 * 2 = chip_addr (ln_cpt s)")
    case True
    then have q: "q = 8 * chip_addr (ln_cpt s) + q mod 16" by (simp flip: True)
    then have "(q = 8 * chip_addr (ln_cpt s) + nat (ln_ash s)) = (q mod 16 = nat (ln_ash s))" by linarith
    then show ?thesis unfolding r write_pixel [OF ok] n using True x q by auto
  next
    case False
    have "q \<noteq> 8 * chip_addr (ln_cpt s) + nat (ln_ash s)"
    proof
      assume q: "q = 8 * chip_addr (ln_cpt s) + nat (ln_ash s)"
      obtain h where "chip_addr (ln_cpt s) = 2 * h" using chip_addr_bound(2) by (auto elim: evenE)
      moreover have "nat (ln_ash s) < 16" using ash unfolding ash_ok_def by linarith
      ultimately have "q div 16 * 2 = chip_addr (ln_cpt s)" using q by simp
      with False show False by simp
    qed
    then show ?thesis unfolding r write_pixel [OF ok] n using False by simp
  qed
qed

lemma line_ram_length: "length (ln_ram (line_dot b s)) = length (ln_ram s)"
proof -
  have "length (ln_ram (line_store b t px d)) = length (ln_ram t)" for t px d
    by (simp add: line_store_def Let_def case_prod_beta)
  then show ?thesis by (simp add: line_dot_split Let_def frame_simps)
qed

lemma line_draws:
  assumes su: "line_setup b dmin dmaj" and ok: "length ram = CHIP_RAM_SIZE"
    and ev: "even (uint (blt_pt b ! CHAN_C))" "even (sint (blt_modulo b ! CHAN_C))" and dc: "blt_pt b ! CHAN_D = blt_pt b ! CHAN_C"
    and cfg: "use_c b" "bltcon1 b AND BLTCON1_SING = 0" "blt_lf b = 0xFA" "blt_dat b ! CHAN_A AND bltafwm b = 0x8000"
  shows "let s = (line_dot b ^^ n) (line_init b ram log) in
    length (ln_ram s) = CHIP_RAM_SIZE \<and> even (uint (ln_cpt s)) \<and> ln_dpt s = ln_cpt s \<and>
    (\<forall>q. pixel (ln_ram s) q \<longleftrightarrow> pixel ram q \<or> (\<exists>j < n. q = nat (line_pixel_at b dmin dmaj j mod 2 ^ 24)))"
proof (induction n)
  case 0
  then show ?case using ok ev dc by (simp add: line_init_def Let_def)
next
  case (Suc n)
  let ?s = "(line_dot b ^^ n) (line_init b ram log)"
  have ih: "length (ln_ram ?s) = CHIP_RAM_SIZE" "even (uint (ln_cpt ?s))" "ln_dpt ?s = ln_cpt ?s"
    "pixel (ln_ram ?s) q \<longleftrightarrow> pixel ram q \<or> (\<exists>j < n. q = nat (line_pixel_at b dmin dmaj j mod 2 ^ 24))" for q
    using Suc unfolding Let_def by blast+
  have w: "ash_ok ?s" "ln_pos ?s = line_pixel_at b dmin dmaj n mod 2 ^ 35"
    using line_walk [OF su, of n ram log] by (simp_all add: Let_def)
  have p: "ln_pos ?s mod 2 ^ 24 = line_pixel_at b dmin dmaj n mod 2 ^ 24"
    unfolding w(2) by (rule mod_mod_cancel) simp
  have ck: "chip_mem_ok (ln_ram ?s)" using ih(1) by (simp add: chip_mem_ok_def)
  have px: "pixel (ln_ram (line_dot b ?s)) q = (pixel (ln_ram ?s) q \<or> q = nat (line_pixel_at b dmin dmaj n mod 2 ^ 24))" for q
    using dot_sets_pixel [OF ck w(1) ih(2,3) cfg, of q] by (simp only: p)
  have all: "pixel (ln_ram (line_dot b ?s)) q \<longleftrightarrow>
      pixel ram q \<or> (\<exists>j < Suc n. q = nat (line_pixel_at b dmin dmaj j mod 2 ^ 24))" for q
    unfolding px ih(4) less_Suc_eq by blast
  show ?case
    unfolding Let_def funpow.simps comp_apply
    using all line_dot_even [OF ih(2) ev(2)] line_dot_walk(2) [OF w(1), of b] ih(1)
    by (simp add: line_ram_length)
qed

text \<open>C13 [functional]: Line mode draws the ideal line. With the register setup of a solid line (single-bit texture in A, minterm A OR
  C, C and D on the first pixel's word, error terms for \<open>dmaj\<close> major and \<open>dmin\<close> minor steps, any octant), the pixels set
  after the blit are those set before and, for each of the programmed number of dots, the pixel of the exact
  line at that distance along the major axis, rounded to the nearest minor step. No other pixel changes.\<close>

theorem line_blit_draws_line:
  assumes "blt_pending b" and "bltcon1 b AND BLTCON1_LINE \<noteq> 0" and "bltcon1 b AND BLTCON1_SING = 0" and "line_setup b dmin dmaj"
    and "length ram = CHIP_RAM_SIZE" and "even (uint (blt_pt b ! CHAN_C))" and "even (sint (blt_modulo b ! CHAN_C))"
    and "blt_pt b ! CHAN_D = blt_pt b ! CHAN_C" and "use_c b" and "blt_lf b = 0xFA" and "blt_dat b ! CHAN_A AND bltafwm b = 0x8000"
    and "execute_logged b ram log = ((b', ram', log'), did_run)"
  shows "pixel ram' q \<longleftrightarrow> pixel ram q \<or>
    (\<exists>n < unat (height_rows b). q = nat (line_pixel_at b dmin dmaj n mod 2 ^ 24))"
proof -
  let ?b = "b\<lparr>blt_pending := False, blt_zero := True\<rparr>"
  have su: "line_setup ?b dmin dmaj" using assms(4) by (simp add: line_setup_def use_a_def)
  have c: "use_c ?b" "blt_lf ?b = 0xFA" using assms(9,10) by (simp_all add: use_c_def blt_lf_def)
  have px: "line_pixel_at ?b dmin dmaj n = line_pixel_at b dmin dmaj n" for n
    by (simp add: line_pixel_at_def line_start_def major_delta_def minor_delta_def line_row_def)
  have "ram' = ln_ram ((line_dot ?b ^^ unat (height_rows b)) (line_init ?b ram log))"
    using assms(1,2,12) by (auto simp: execute_logged_def execute_line_def Let_def)
  then show ?thesis
    using line_draws [OF su assms(5), of "unat (height_rows b)" log] assms(3,6-8,11) c unfolding Let_def px by simp
qed

text \<open>A line of five dots, one row down for every two columns, on a plane of 80 bytes per row.\<close>

definition line_sample :: blitter where
  "line_sample = \<lparr>bltcon0 = 0x0BFA, bltcon1 = 0x0011, bltafwm = 0xFFFF, bltalwm = 0xFFFF, blt_pt = [0, 0, 0x1000, 0x1000],
     blt_modulo = [- 8, 8, 80, 0], blt_dat = [0x8000, 0, 0, 0], bltddat = 0, width_words = 2, height_rows = 5,
     blt_zero = True, blt_pending = True\<rparr>"

lemma line_blit_draws_line_witness:
  "\<exists>b' ram' log'. execute_logged line_sample cleared_chip None = ((b', ram', log'), True) \<and> pixel ram' (8 * 0x1000 + 4 + 2 * 640)"
proof -
  obtain b' ram' log' did_run
    where e: "execute_logged line_sample cleared_chip None = ((b', ram', log'), did_run)" by (metis prod.exhaust)
  have d: "did_run" using e by (auto simp: execute_logged_def line_sample_def Let_def split: if_splits)
  have su: "line_setup line_sample 2 4"
    by (simp add: line_setup_def line_sample_def use_a_def)
  have p: "line_pixel_at line_sample 2 4 4 = 8 * 0x1000 + 4 + 2 * 640"
    by (simp add: line_pixel_at_def line_start_def line_sample_def major_delta_def minor_delta_def line_row_def line_dir_def ideal_minor_def)
  have "pixel ram' (8 * 0x1000 + 4 + 2 * 640) \<longleftrightarrow> pixel cleared_chip (8 * 0x1000 + 4 + 2 * 640) \<or>
      (\<exists>n < unat (height_rows line_sample). 8 * 0x1000 + 4 + 2 * 640 = nat (line_pixel_at line_sample 2 4 n mod 2 ^ 24))"
    by (rule line_blit_draws_line [OF _ _ _ su cleared_chip_facts(1) _ _ _ _ _ _ e])
       (simp_all add: line_sample_def use_c_def blt_lf_def)
  moreover have "unat (height_rows line_sample) = 5" by (simp add: line_sample_def)
  moreover have "8 * 0x1000 + 4 + 2 * 640 = nat (line_pixel_at line_sample 2 4 4 mod 2 ^ 24)" unfolding p by simp
  moreover have "(4 :: nat) < 5" by simp
  ultimately have "pixel ram' (8 * 0x1000 + 4 + 2 * 640)" by metis
  with e d show ?thesis by auto
qed

end
