(* ===== verification/InputCard.thy ===== *)
theory InputCard
  imports Fastram Slots Ring
begin

text \<open>
  The native input card of \<open>crates/machine-core/src/input.rs\<close>: a register file over a bounded event queue with
  an overflow policy. Discrete events (keys, buttons, characters) are protected: a full queue evicts a pointer motion
  to make room for one, and a discrete event that finds no motion to evict is counted. Pointer motions coalesce
  with the newest queued motion only.

  Shown: the ring with its removal loop refines operations on a plain list; over any interleaving of pushes and
  guest register accesses no accepted discrete event is lost, duplicated or reordered, and every lost one is
  counted; a queued event always keeps the interrupt status set; out-of-range input is refused without any effect.
\<close>

section \<open>Constants\<close>

(* src/crates/machine-core/src/input.rs:376-385 ROM_BASE *)
definition IN_ROM_BASE :: u32 where [simp]: "IN_ROM_BASE = 0x1000"
(* src/crates/machine-core/src/input.rs:407-419 MANUFACTURER *)
definition IN_MANUFACTURER :: u16 where [simp]: "IN_MANUFACTURER = 0x07DB"
(* src/crates/machine-core/src/input.rs:421-424 PRODUCT *)
definition IN_PRODUCT :: u8 where [simp]: "IN_PRODUCT = 3"
(* src/crates/machine-core/src/input.rs:426-432 WINDOW_BYTES *)
definition IN_WINDOW_BYTES :: u32 where [simp]: "IN_WINDOW_BYTES = 0x01000000"
(* src/crates/machine-core/src/input.rs:441-447 QUEUE_CAPACITY *)
definition IN_QUEUE_CAPACITY :: nat where [simp]: "IN_QUEUE_CAPACITY = 16"
(* src/crates/machine-core/src/input.rs:449-450 PROTOCOL_VERSION *)
definition IN_PROTOCOL_VERSION :: u32 where [simp]: "IN_PROTOCOL_VERSION = 1"
(* src/crates/machine-core/src/input.rs:452-457 MAX_RAW_KEYCODE *)
definition MAX_RAW_KEYCODE :: u8 where [simp]: "MAX_RAW_KEYCODE = 0x7F"
(* src/crates/machine-core/src/input.rs:466-473 MAX_BUTTON *)
definition MAX_BUTTON :: u8 where [simp]: "MAX_BUTTON = 2"
(* src/crates/machine-core/src/input.rs:521-523 ev::NONE *)
definition EV_NONE :: u8 where [simp]: "EV_NONE = 0"
(* src/crates/machine-core/src/input.rs:524-524 ev::KEY_DOWN *)
definition EV_KEY_DOWN :: u8 where [simp]: "EV_KEY_DOWN = 1"
(* src/crates/machine-core/src/input.rs:525-525 ev::KEY_UP *)
definition EV_KEY_UP :: u8 where [simp]: "EV_KEY_UP = 2"
(* src/crates/machine-core/src/input.rs:526-528 ev::POINTER_MOTION *)
definition EV_POINTER_MOTION :: u8 where [simp]: "EV_POINTER_MOTION = 3"
(* src/crates/machine-core/src/input.rs:529-529 ev::BUTTON_DOWN *)
definition EV_BUTTON_DOWN :: u8 where [simp]: "EV_BUTTON_DOWN = 4"
(* src/crates/machine-core/src/input.rs:530-530 ev::BUTTON_UP *)
definition EV_BUTTON_UP :: u8 where [simp]: "EV_BUTTON_UP = 5"
(* src/crates/machine-core/src/input.rs:531-539 ev::CHAR_DOWN *)
definition EV_CHAR_DOWN :: u8 where [simp]: "EV_CHAR_DOWN = 6"
(* src/crates/machine-core/src/input.rs:540-544 ev::CHAR_UP *)
definition EV_CHAR_UP :: u8 where [simp]: "EV_CHAR_UP = 7"
(* src/crates/machine-core/src/input.rs:550-550 reg::EVENT_TYPE *)
definition IN_EVENT_TYPE :: u32 where [simp]: "IN_EVENT_TYPE = 0x00"
(* src/crates/machine-core/src/input.rs:551-551 reg::EVENT_CODE *)
definition IN_EVENT_CODE :: u32 where [simp]: "IN_EVENT_CODE = 0x04"
(* src/crates/machine-core/src/input.rs:552-552 reg::EVENT_QUALIFIER *)
definition IN_EVENT_QUALIFIER :: u32 where [simp]: "IN_EVENT_QUALIFIER = 0x08"
(* src/crates/machine-core/src/input.rs:553-553 reg::EVENT_X *)
definition IN_EVENT_X :: u32 where [simp]: "IN_EVENT_X = 0x0C"
(* src/crates/machine-core/src/input.rs:554-554 reg::EVENT_Y *)
definition IN_EVENT_Y :: u32 where [simp]: "IN_EVENT_Y = 0x10"
(* src/crates/machine-core/src/input.rs:555-555 reg::EVENT_ADVANCE *)
definition IN_EVENT_ADVANCE :: u32 where [simp]: "IN_EVENT_ADVANCE = 0x14"
(* src/crates/machine-core/src/input.rs:556-556 reg::EVENT_COUNT *)
definition IN_EVENT_COUNT :: u32 where [simp]: "IN_EVENT_COUNT = 0x18"
(* src/crates/machine-core/src/input.rs:557-557 reg::EVENT_OVERFLOW *)
definition IN_EVENT_OVERFLOW :: u32 where [simp]: "IN_EVENT_OVERFLOW = 0x1C"
(* src/crates/machine-core/src/input.rs:558-558 reg::INT_STATUS *)
definition IN_INT_STATUS :: u32 where [simp]: "IN_INT_STATUS = 0x20"
(* src/crates/machine-core/src/input.rs:559-559 reg::INT_ENABLE *)
definition IN_INT_ENABLE :: u32 where [simp]: "IN_INT_ENABLE = 0x24"
(* src/crates/machine-core/src/input.rs:560-560 reg::CAPACITY *)
definition IN_CAPACITY :: u32 where [simp]: "IN_CAPACITY = 0x28"
(* src/crates/machine-core/src/input.rs:561-561 reg::VERSION *)
definition IN_VERSION :: u32 where [simp]: "IN_VERSION = 0x2C"

section \<open>The event queue\<close>

text \<open>A \<open>char\<close> is its Unicode scalar value.\<close>

(* src/crates/machine-core/src/input.rs:475-517 latin1_from_char *)
definition latin1_from_char :: "u32 \<Rightarrow> u8 option" where
  "latin1_from_char ch = (if ch \<le> 0xFF then Some (ucast ch) else None)"

text \<open>The coordinates are \<open>i32\<close> values; only those within \<open>i16\<close> are ever stored.\<close>

(* src/crates/machine-core/src/input.rs:564-575 QueuedEvent *)
record queued_event =
  qe_ty :: u8
  qe_code :: u8
  qe_qualifier :: u16
  qe_x :: int
  qe_y :: int

definition qe_default :: queued_event where
  "qe_default = \<lparr>qe_ty = 0, qe_code = 0, qe_qualifier = 0, qe_x = 0, qe_y = 0\<rparr>"

(* src/crates/machine-core/src/input.rs:577-585 EventQueue *)
record event_queue =
  eq_buf :: "queued_event list"
  eq_head :: nat
  eq_len :: nat

(* src/crates/machine-core/src/input.rs:588-594 EventQueue::new *)
definition eq_new :: event_queue where
  "eq_new = \<lparr>eq_buf = replicate IN_QUEUE_CAPACITY qe_default, eq_head = 0, eq_len = 0\<rparr>"

(* src/crates/machine-core/src/input.rs:600-602 EventQueue::is_full *)
definition eq_is_full :: "event_queue \<Rightarrow> bool" where
  "eq_is_full q \<longleftrightarrow> eq_len q = IN_QUEUE_CAPACITY"

(* src/crates/machine-core/src/input.rs:604-606 EventQueue::physical *)
definition eq_physical :: "event_queue \<Rightarrow> nat \<Rightarrow> nat" where
  "eq_physical q logical = (eq_head q + logical) mod IN_QUEUE_CAPACITY"

(* src/crates/machine-core/src/input.rs:608-610 EventQueue::peek *)
definition eq_peek :: "event_queue \<Rightarrow> queued_event option" where
  "eq_peek q = (if eq_len q > 0 then Some (eq_buf q ! eq_head q) else None)"

(* src/crates/machine-core/src/input.rs:612-620 EventQueue::pop *)
definition eq_pop :: "event_queue \<Rightarrow> event_queue \<times> queued_event option" where
  "eq_pop q =
     (if eq_len q = 0 then (q, None)
      else
        let value = eq_buf q ! eq_head q
        in (q\<lparr>eq_head := eq_physical q 1, eq_len := eq_len q - 1\<rparr>, Some value))"

(* src/crates/machine-core/src/input.rs:622-630 EventQueue::push_back *)
definition eq_push_back :: "event_queue \<Rightarrow> queued_event \<Rightarrow> event_queue \<times> bool" where
  "eq_push_back q event =
     (if eq_is_full q then (q, False)
      else
        let idx = eq_physical q (eq_len q)
        in (q\<lparr>eq_buf := (eq_buf q)[idx := event], eq_len := eq_len q + 1\<rparr>, True))"

(* src/crates/machine-core/src/input.rs:632-649 EventQueue::tail_motion_index *)
definition eq_tail_motion_index :: "event_queue \<Rightarrow> nat option" where
  "eq_tail_motion_index q =
     (if eq_len q = 0 then None
      else
        let last = eq_len q - 1
        in if qe_ty (eq_buf q ! eq_physical q last) = EV_POINTER_MOTION then Some last else None)"

(* src/crates/machine-core/src/input.rs:651-665 EventQueue::motion_index *)
definition eq_motion_index :: "event_queue \<Rightarrow> nat option" where
  "eq_motion_index q = find (\<lambda>i. qe_ty (eq_buf q ! eq_physical q i) = EV_POINTER_MOTION) [0..<eq_len q]"

(* src/crates/machine-core/src/input.rs:667-670 EventQueue::overwrite *)
definition eq_overwrite :: "event_queue \<Rightarrow> nat \<Rightarrow> queued_event \<Rightarrow> event_queue" where
  "eq_overwrite q logical event = (let idx = eq_physical q logical in q\<lparr>eq_buf := (eq_buf q)[idx := event]\<rparr>)"

(* src/crates/machine-core/src/input.rs:677-681 EventQueue::remove *)
definition eq_shift :: "nat \<Rightarrow> event_queue \<Rightarrow> event_queue" where
  "eq_shift i q =
     (let from = eq_physical q (i + 1); to = eq_physical q i
      in q\<lparr>eq_buf := (eq_buf q)[to := eq_buf q ! from]\<rparr>)"

(* src/crates/machine-core/src/input.rs:672-683 EventQueue::remove *)
definition eq_remove :: "event_queue \<Rightarrow> nat \<Rightarrow> event_queue" where
  "eq_remove q at = (let q1 = fold eq_shift [at..<eq_len q - 1] q in q1\<lparr>eq_len := eq_len q1 - 1\<rparr>)"

section \<open>The card\<close>

(* src/crates/machine-core/src/input.rs:686-693 NativeInput *)
record native_input =
  ni_queue :: event_queue
  ni_overflow :: u32
  ni_int_status :: u8
  ni_int_enable :: u8

(* src/crates/machine-core/src/input.rs:696-703 NativeInput::new *)
definition ni_new :: native_input where
  "ni_new = \<lparr>ni_queue = eq_new, ni_overflow = 0, ni_int_status = 0, ni_int_enable = 0\<rparr>"

(* src/crates/machine-core/src/input.rs:705-719 NativeInput::board_spec *)
definition ni_board_spec :: board_spec where
  "ni_board_spec = \<lparr>board_type = ERT_ZORROIII OR ERTF_DIAGVALID, product = IN_PRODUCT,
     flags = ERFF_ZORRO_III OR ERFF_EXTENDED, manufacturer = IN_MANUFACTURER, serial = 0,
     init_diag_vec = ucast IN_ROM_BASE, size_bytes = IN_WINDOW_BYTES\<rparr>"

(* src/crates/machine-core/src/input.rs:721-725 NativeInput::irq_pending *)
definition ni_irq_pending :: "native_input \<Rightarrow> bool" where
  "ni_irq_pending ni \<longleftrightarrow> ni_int_enable ni \<noteq> 0 \<and> ni_int_status ni \<noteq> 0"

(* src/crates/machine-core/src/input.rs:727-732 NativeInput::latch *)
definition ni_latch :: "native_input \<Rightarrow> native_input" where
  "ni_latch ni = ni\<lparr>ni_int_status := 1\<rparr>"

(* src/crates/machine-core/src/input.rs:828-847 NativeInput::push_discrete *)
definition ni_push_discrete :: "native_input \<Rightarrow> queued_event \<Rightarrow> native_input \<times> bool" where
  "ni_push_discrete ni event =
     (case eq_push_back (ni_queue ni) event of
        (q, True) \<Rightarrow> (ni_latch (ni\<lparr>ni_queue := q\<rparr>), True)
      | (q, False) \<Rightarrow>
          (case eq_motion_index q of
             Some idx \<Rightarrow>
               let q1 = eq_remove q idx; (q2, pushed) = eq_push_back q1 event
               in (ni_latch (ni\<lparr>ni_queue := q2\<rparr>), True)
           | None \<Rightarrow> (ni_latch (ni\<lparr>ni_queue := q, ni_overflow := ni_overflow ni + 1\<rparr>), False)))"

(* src/crates/machine-core/src/input.rs:734-749 NativeInput::push_key *)
definition ni_push_key :: "native_input \<Rightarrow> u8 \<Rightarrow> bool \<Rightarrow> u16 \<Rightarrow> native_input \<times> bool" where
  "ni_push_key ni keycode down qualifier =
     (if keycode > MAX_RAW_KEYCODE then (ni, False)
      else ni_push_discrete ni \<lparr>qe_ty = (if down then EV_KEY_DOWN else EV_KEY_UP), qe_code = keycode,
             qe_qualifier = qualifier, qe_x = 0, qe_y = 0\<rparr>)"

(* src/crates/machine-core/src/input.rs:751-766 NativeInput::push_button *)
definition ni_push_button :: "native_input \<Rightarrow> u8 \<Rightarrow> bool \<Rightarrow> u16 \<Rightarrow> native_input \<times> bool" where
  "ni_push_button ni button down qualifier =
     (if button > MAX_BUTTON then (ni, False)
      else ni_push_discrete ni \<lparr>qe_ty = (if down then EV_BUTTON_DOWN else EV_BUTTON_UP), qe_code = button,
             qe_qualifier = qualifier, qe_x = 0, qe_y = 0\<rparr>)"

(* src/crates/machine-core/src/input.rs:768-800 NativeInput::push_char *)
definition ni_push_char :: "native_input \<Rightarrow> u32 \<Rightarrow> bool \<Rightarrow> native_input \<times> bool" where
  "ni_push_char ni ch down =
     (case latin1_from_char ch of
        None \<Rightarrow> (ni, False)
      | Some byte \<Rightarrow> ni_push_discrete ni \<lparr>qe_ty = (if down then EV_CHAR_DOWN else EV_CHAR_UP), qe_code = byte,
             qe_qualifier = 0, qe_x = 0, qe_y = 0\<rparr>)"

(* src/crates/machine-core/src/input.rs:802-826 NativeInput::push_pointer_motion *)
definition ni_push_pointer_motion :: "native_input \<Rightarrow> int \<Rightarrow> int \<Rightarrow> u16 \<Rightarrow> native_input \<times> bool" where
  "ni_push_pointer_motion ni x y qualifier =
     (if x < - 32768 \<or> x > 32767 \<or> y < - 32768 \<or> y > 32767 then (ni, False)
      else
        let event = \<lparr>qe_ty = EV_POINTER_MOTION, qe_code = 0, qe_qualifier = qualifier, qe_x = x, qe_y = y\<rparr>
        in case eq_tail_motion_index (ni_queue ni) of
             Some idx \<Rightarrow> (ni_latch (ni\<lparr>ni_queue := eq_overwrite (ni_queue ni) idx event\<rparr>), True)
           | None \<Rightarrow>
               (case eq_push_back (ni_queue ni) event of
                  (q, False) \<Rightarrow> (ni\<lparr>ni_queue := q\<rparr>, False)
                | (q, True) \<Rightarrow> (ni_latch (ni\<lparr>ni_queue := q\<rparr>), True)))"

text \<open>\<open>DIAG_ROM\<close> is the vendored boot ROM image, an argument of the register read.\<close>

(* src/crates/machine-core/src/input.rs:849-886 NativeInput::read *)
definition ni_read :: "u8 list \<Rightarrow> native_input \<Rightarrow> u32 \<Rightarrow> u8" where
  "ni_read DIAG_ROM ni offset =
     (let head = eq_peek (ni_queue ni) in
      if in_slot offset IN_EVENT_TYPE then
        low_byte offset IN_EVENT_TYPE (case head of Some e \<Rightarrow> qe_ty e | None \<Rightarrow> EV_NONE)
      else if in_slot offset IN_EVENT_CODE then
        low_byte offset IN_EVENT_CODE (case head of Some e \<Rightarrow> qe_code e | None \<Rightarrow> 0)
      else if in_slot offset IN_EVENT_QUALIFIER then
        byte_of (ucast (case head of Some e \<Rightarrow> qe_qualifier e | None \<Rightarrow> 0)) (offset - IN_EVENT_QUALIFIER)
      else if in_slot offset IN_EVENT_X then
        byte_of (word_of_int (case head of Some e \<Rightarrow> qe_x e | None \<Rightarrow> 0)) (offset - IN_EVENT_X)
      else if in_slot offset IN_EVENT_Y then
        byte_of (word_of_int (case head of Some e \<Rightarrow> qe_y e | None \<Rightarrow> 0)) (offset - IN_EVENT_Y)
      else if in_slot offset IN_EVENT_COUNT then byte_of (of_nat (eq_len (ni_queue ni))) (offset - IN_EVENT_COUNT)
      else if in_slot offset IN_EVENT_OVERFLOW then byte_of (ni_overflow ni) (offset - IN_EVENT_OVERFLOW)
      else if in_slot offset IN_INT_STATUS then low_byte offset IN_INT_STATUS (ni_int_status ni)
      else if in_slot offset IN_INT_ENABLE then low_byte offset IN_INT_ENABLE (ni_int_enable ni)
      else if in_slot offset IN_CAPACITY then byte_of (of_nat IN_QUEUE_CAPACITY) (offset - IN_CAPACITY)
      else if in_slot offset IN_VERSION then byte_of IN_PROTOCOL_VERSION (offset - IN_VERSION)
      else if IN_ROM_BASE \<le> offset \<and> offset < IN_ROM_BASE + of_nat (length DIAG_ROM) then
        DIAG_ROM ! unat (offset - IN_ROM_BASE)
      else 0)"

(* src/crates/machine-core/src/input.rs:888-914 NativeInput::write *)
definition ni_write :: "native_input \<Rightarrow> u32 \<Rightarrow> u8 \<Rightarrow> native_input" where
  "ni_write ni offset value =
     (if in_slot offset IN_EVENT_ADVANCE \<and> offset - IN_EVENT_ADVANCE = 3 then ni\<lparr>ni_queue := fst (eq_pop (ni_queue ni))\<rparr>
      else if in_slot offset IN_EVENT_ADVANCE then ni
      else if in_slot offset IN_INT_STATUS \<and> offset - IN_INT_STATUS = 3 then
        if value AND 1 \<noteq> 0 \<and> eq_len (ni_queue ni) = 0 then ni\<lparr>ni_int_status := 0\<rparr> else ni
      else if in_slot offset IN_INT_STATUS then ni
      else if in_slot offset IN_INT_ENABLE \<and> offset - IN_INT_ENABLE = 3 then ni\<lparr>ni_int_enable := value\<rparr>
      else if in_slot offset IN_INT_ENABLE then ni
      else ni)"

section \<open>The queue as a list\<close>

definition eq_ok :: "event_queue \<Rightarrow> bool" where
  "eq_ok q \<longleftrightarrow> length (eq_buf q) = 16 \<and> ring_ok (eq_buf q) (eq_head q) (eq_len q)"

definition eq_items :: "event_queue \<Rightarrow> queued_event list" where
  "eq_items q = ring_view (eq_buf q) (eq_head q) (eq_len q)"

definition is_motion :: "queued_event \<Rightarrow> bool" where
  "is_motion e \<longleftrightarrow> qe_ty e = EV_POINTER_MOTION"

lemma length_eq_items [simp]: "length (eq_items q) = eq_len q"
  by (simp add: eq_items_def)

lemma eq_items_Nil: "eq_items q = [] \<longleftrightarrow> eq_len q = 0"
  by (metis length_0_conv length_eq_items)

lemma eq_okD: "eq_ok q \<Longrightarrow> length (eq_buf q) = 16 \<and> eq_head q < 16 \<and> eq_len q \<le> 16"
  by (simp add: eq_ok_def ring_ok_def)

lemma eq_new_ok [simp]: "eq_ok eq_new" "eq_items eq_new = []"
  by (simp_all add: eq_ok_def eq_new_def ring_ok_def eq_items_def)

lemma nth_eq_items: "eq_ok q \<Longrightarrow> i < eq_len q \<Longrightarrow> eq_items q ! i = eq_buf q ! eq_physical q i"
  by (simp add: eq_items_def nth_ring_view eq_physical_def eq_okD)

interpretation event_fifo: bounded_fifo 16 eq_ok eq_items eq_push_back eq_pop
proof
  fix q :: event_queue and x xs
  assume ok: "eq_ok q"
  note d = eq_okD [OF ok]
  show "length (eq_items q) \<le> 16" using d by simp
  show "\<exists>q'. eq_push_back q x = (q', True) \<and> eq_ok q' \<and> eq_items q' = eq_items q @ [x]" if "length (eq_items q) < 16"
    using that d ring_view_push [of "eq_len q" "eq_buf q" "eq_head q" x]
    by (simp add: eq_push_back_def eq_is_full_def eq_physical_def eq_ok_def ring_ok_def eq_items_def Let_def)
  show "\<exists>q'. eq_push_back q x = (q', False) \<and> eq_ok q' \<and> eq_items q' = eq_items q" if "length (eq_items q) = 16"
    using that ok by (simp add: eq_push_back_def eq_is_full_def)
  show "\<exists>q'. eq_pop q = (q', None) \<and> eq_ok q' \<and> eq_items q' = []" if "eq_items q = []"
    using that ok by (simp add: eq_pop_def eq_items_Nil)
  show "\<exists>q'. eq_pop q = (q', Some x) \<and> eq_ok q' \<and> eq_items q' = xs" if "eq_items q = x # xs"
  proof -
    have nz: "0 < eq_len q" using that eq_items_Nil [of q] by auto
    then have "x = eq_buf q ! eq_head q" "xs = ring_view (eq_buf q) ((eq_head q + 1) mod 16) (eq_len q - 1)"
      using that d ring_view_pop [of "eq_len q" "eq_head q" "eq_buf q"] by (simp_all add: eq_items_def)
    then show ?thesis
      using nz d by (auto simp: eq_pop_def eq_physical_def eq_ok_def ring_ok_def eq_items_def Let_def)
  qed
qed

lemma eq_overwrite_items:
  assumes "eq_ok q" "i < eq_len q"
  shows "eq_ok (eq_overwrite q i e)" "eq_items (eq_overwrite q i e) = (eq_items q)[i := e]"
  using assms eq_okD [OF assms(1)] ring_view_overwrite [of i "eq_len q" "eq_buf q" "eq_head q" e]
  by (simp_all add: eq_overwrite_def eq_physical_def eq_ok_def ring_ok_def eq_items_def Let_def)

text \<open>The removal loop: each pass copies one entry down; the tail then stands twice and the length drops.\<close>

lemma eq_shift_items:
  assumes "eq_ok q" "Suc i < eq_len q"
  shows "eq_ok (eq_shift i q)" "eq_items (eq_shift i q) = (eq_items q)[i := eq_items q ! Suc i]" "eq_len (eq_shift i q) = eq_len q"
proof -
  have s: "eq_shift i q = eq_overwrite q i (eq_items q ! Suc i)"
    using assms by (simp add: eq_shift_def eq_overwrite_def nth_eq_items Let_def)
  show "eq_ok (eq_shift i q)" "eq_items (eq_shift i q) = (eq_items q)[i := eq_items q ! Suc i]" "eq_len (eq_shift i q) = eq_len q"
    using eq_overwrite_items [OF assms(1), of i] assms(2) unfolding s by (simp_all add: eq_overwrite_def Let_def)
qed

lemma eq_shifts_items:
  assumes "eq_ok q" "k \<le> eq_len q - 1" "at \<le> k"
  shows "let q' = fold eq_shift [at..<k] q in eq_ok q' \<and> eq_len q' = eq_len q \<and>
    (\<forall>i < eq_len q. eq_items q' ! i = eq_items q ! (if at \<le> i \<and> i < k then Suc i else i))"
  using assms(3,2)
proof (induction k rule: dec_induct)
  case base
  then show ?case using assms(1) by auto
next
  case (step k)
  let ?q = "fold eq_shift [at..<k] q"
  have ih: "eq_ok ?q" "eq_len ?q = eq_len q"
    "\<And>i. i < eq_len q \<Longrightarrow> eq_items ?q ! i = eq_items q ! (if at \<le> i \<and> i < k then Suc i else i)"
    using step by (simp_all add: Let_def)
  have k: "Suc k < eq_len ?q" using step.prems ih(2) by simp
  note sh = eq_shift_items [OF ih(1) k]
  have "eq_items (eq_shift k ?q) ! i = eq_items q ! (if at \<le> i \<and> i < Suc k then Suc i else i)" if "i < eq_len q" for i
    using that ih(2,3) k step.hyps by (auto simp: sh(2) nth_list_update)
  then show ?case using sh ih step.hyps by (simp add: Let_def)
qed

lemma eq_remove_items:
  assumes "eq_ok q" "at < eq_len q"
  shows "eq_ok (eq_remove q at)" "eq_items (eq_remove q at) = take at (eq_items q) @ drop (Suc at) (eq_items q)"
proof -
  let ?q = "fold eq_shift [at..<eq_len q - 1] q"
  have sh: "eq_ok ?q" "eq_len ?q = eq_len q"
    "\<And>i. i < eq_len q \<Longrightarrow> eq_items ?q ! i = eq_items q ! (if at \<le> i \<and> i < eq_len q - 1 then Suc i else i)"
    using eq_shifts_items [OF assms(1), of "eq_len q - 1" at] assms(2) by (auto simp: Let_def)
  have r: "eq_remove q at = ?q\<lparr>eq_len := eq_len q - 1\<rparr>" using sh(2) by (simp add: eq_remove_def Let_def)
  show "eq_ok (eq_remove q at)" using sh(1,2) by (auto simp: r eq_ok_def ring_ok_def)
  show "eq_items (eq_remove q at) = take at (eq_items q) @ drop (Suc at) (eq_items q)"
  proof (rule nth_equalityI)
    show "length (eq_items (eq_remove q at)) = length (take at (eq_items q) @ drop (Suc at) (eq_items q))"
      using assms(2) by (simp add: r)
    fix i assume "i < length (eq_items (eq_remove q at))"
    then have i: "i < eq_len q - 1" by (simp add: r)
    have "eq_items (eq_remove q at) ! i = eq_items ?q ! i"
      using i sh(2) by (simp add: r eq_items_def nth_ring_view)
    then show "eq_items (eq_remove q at) ! i = (take at (eq_items q) @ drop (Suc at) (eq_items q)) ! i"
      using i assms(2) sh(3) [of i] by (simp add: nth_append)
  qed
qed

section \<open>The overflow policy on lists\<close>

fun drop_first_motion :: "queued_event list \<Rightarrow> queued_event list" where
  "drop_first_motion [] = []"
| "drop_first_motion (e # es) = (if is_motion e then es else e # drop_first_motion es)"

definition spec_push_discrete :: "queued_event list \<Rightarrow> queued_event \<Rightarrow> queued_event list \<times> bool" where
  "spec_push_discrete es e =
     (if length es < 16 then (es @ [e], True)
      else if \<exists>m \<in> set es. is_motion m then (drop_first_motion es @ [e], True)
      else (es, False))"

definition spec_push_motion :: "queued_event list \<Rightarrow> queued_event \<Rightarrow> queued_event list \<times> bool" where
  "spec_push_motion es e =
     (if es \<noteq> [] \<and> is_motion (last es) then (butlast es @ [e], True)
      else if length es < 16 then (es @ [e], True)
      else (es, False))"

lemma drop_first_motion_at:
  "i < length es \<Longrightarrow> is_motion (es ! i) \<Longrightarrow> \<forall>j < i. \<not> is_motion (es ! j) \<Longrightarrow>
     drop_first_motion es = take i es @ drop (Suc i) es"
proof (induction es arbitrary: i)
  case (Cons e es)
  then show ?case by (cases i) force+
qed simp

lemma eq_motion_index_items:
  assumes "eq_ok q"
  shows "eq_motion_index q = Some i \<Longrightarrow> i < eq_len q \<and> is_motion (eq_items q ! i) \<and> (\<forall>j < i. \<not> is_motion (eq_items q ! j))"
    "eq_motion_index q = None \<Longrightarrow> \<not> (\<exists>m \<in> set (eq_items q). is_motion m)"
proof -
  have f: "eq_motion_index q = find (\<lambda>i. is_motion (eq_items q ! i)) [0..<eq_len q]"
    unfolding eq_motion_index_def by (rule find_cong) (simp_all add: nth_eq_items [OF assms] is_motion_def)
  show "eq_motion_index q = Some i \<Longrightarrow> i < eq_len q \<and> is_motion (eq_items q ! i) \<and> (\<forall>j < i. \<not> is_motion (eq_items q ! j))"
    unfolding f by (auto simp: find_Some_iff)
  show "eq_motion_index q = None \<Longrightarrow> \<not> (\<exists>m \<in> set (eq_items q). is_motion m)"
    unfolding f by (auto simp: find_None_iff in_set_conv_nth)
qed

definition ni_ok :: "native_input \<Rightarrow> bool" where
  "ni_ok ni \<longleftrightarrow> eq_ok (ni_queue ni) \<and> (eq_items (ni_queue ni) \<noteq> [] \<longrightarrow> ni_int_status ni = 1)"

abbreviation ni_items :: "native_input \<Rightarrow> queued_event list" where
  "ni_items ni \<equiv> eq_items (ni_queue ni)"

lemma push_back_cases [consumes 1, case_names accepted dropped]:
  assumes "eq_ok q"
  obtains q' where "eq_push_back q e = (q', True)" "eq_ok q'" "eq_items q' = eq_items q @ [e]" "length (eq_items q) < 16"
    | q' where "eq_push_back q e = (q', False)" "eq_ok q'" "eq_items q' = eq_items q" "length (eq_items q) = 16"
  using event_fifo.push_cases [OF assms] by metis

lemma push_discrete_spec:
  assumes "eq_ok (ni_queue ni)" "ni_push_discrete ni e = (ni', ok)"
  shows "spec_push_discrete (ni_items ni) e = (ni_items ni', ok)" "eq_ok (ni_queue ni')" "ni_int_status ni' = 1"
    "ni_int_enable ni' = ni_int_enable ni" "ni_overflow ni' = ni_overflow ni + of_bool (\<not> ok)"
proof -
  have "spec_push_discrete (ni_items ni) e = (ni_items ni', ok) \<and> eq_ok (ni_queue ni') \<and> ni_int_status ni' = 1 \<and>
    ni_int_enable ni' = ni_int_enable ni \<and> ni_overflow ni' = ni_overflow ni + of_bool (\<not> ok)"
    using assms(1)
  proof (cases rule: push_back_cases [where e = e])
    case (accepted q')
    then show ?thesis using assms(2) by (auto simp: ni_push_discrete_def spec_push_discrete_def ni_latch_def)
  next
    case (dropped q')
    have q': "q' = ni_queue ni" using dropped(1) by (auto simp: eq_push_back_def Let_def split: if_splits)
    show ?thesis
    proof (cases "eq_motion_index q'")
      case None
      then show ?thesis
        using assms dropped eq_motion_index_items(2) [of q'] q'
        by (auto simp: ni_push_discrete_def spec_push_discrete_def ni_latch_def)
    next
      case (Some i)
      note m = eq_motion_index_items(1) [OF dropped(2) Some]
      note r = eq_remove_items [OF dropped(2), of i]
      have len: "length (eq_items (eq_remove q' i)) < 16"
        using m dropped(3,4) r(2) q' by simp
      from event_fifo.push_room [OF r(1) len, of e] m
      obtain q2 where q2: "eq_push_back (eq_remove q' i) e = (q2, True)" "eq_ok q2" "eq_items q2 = eq_items (eq_remove q' i) @ [e]"
        by auto
      have d: "drop_first_motion (eq_items q') = take i (eq_items q') @ drop (Suc i) (eq_items q')"
        using m by (intro drop_first_motion_at) auto
      have "\<exists>x \<in> set (ni_items ni). is_motion x" using m q' by (metis length_eq_items nth_mem)
      then show ?thesis
        using assms dropped Some q2 r(2) m d q'
        by (auto simp: ni_push_discrete_def spec_push_discrete_def ni_latch_def)
    qed
  qed
  then show "spec_push_discrete (ni_items ni) e = (ni_items ni', ok)" "eq_ok (ni_queue ni')" "ni_int_status ni' = 1"
    "ni_int_enable ni' = ni_int_enable ni" "ni_overflow ni' = ni_overflow ni + of_bool (\<not> ok)" by simp_all
qed

lemma tail_motion_items:
  assumes "eq_ok q"
  shows "eq_tail_motion_index q =
    (if eq_items q \<noteq> [] \<and> is_motion (last (eq_items q)) then Some (eq_len q - 1) else None)"
  using assms by (auto simp: eq_tail_motion_index_def Let_def eq_items_Nil last_conv_nth nth_eq_items is_motion_def)

lemma push_motion_spec:
  assumes "eq_ok (ni_queue ni)" "ni_push_pointer_motion ni x y qual = (ni', ok)"
    and range: "- 32768 \<le> x" "x \<le> 32767" "- 32768 \<le> y" "y \<le> 32767"
  shows "spec_push_motion (ni_items ni) \<lparr>qe_ty = EV_POINTER_MOTION, qe_code = 0, qe_qualifier = qual, qe_x = x, qe_y = y\<rparr> =
      (ni_items ni', ok)" "eq_ok (ni_queue ni')" "ok \<Longrightarrow> ni_int_status ni' = 1" "\<not> ok \<Longrightarrow> ni' = ni"
    "ni_int_enable ni' = ni_int_enable ni" "ni_overflow ni' = ni_overflow ni"
proof -
  let ?e = "\<lparr>qe_ty = EV_POINTER_MOTION, qe_code = 0, qe_qualifier = qual, qe_x = x, qe_y = y\<rparr>"
  let ?q = "ni_queue ni"
  have "spec_push_motion (ni_items ni) ?e = (ni_items ni', ok) \<and> eq_ok (ni_queue ni') \<and> (ok \<longrightarrow> ni_int_status ni' = 1) \<and>
     (\<not> ok \<longrightarrow> ni' = ni) \<and> ni_int_enable ni' = ni_int_enable ni \<and> ni_overflow ni' = ni_overflow ni"
  proof (cases "ni_items ni \<noteq> [] \<and> is_motion (last (ni_items ni))")
    case True
    then have t: "eq_tail_motion_index ?q = Some (eq_len ?q - 1)" and l: "eq_len ?q - 1 < eq_len ?q"
      using tail_motion_items [OF assms(1)] eq_items_Nil [of ?q] by simp_all
    note o = eq_overwrite_items [OF assms(1) l, of ?e]
    have "(ni_items ni)[eq_len ?q - 1 := ?e] = butlast (ni_items ni) @ [?e]"
      using True by (metis length_eq_items list_update_length append_butlast_last_id length_butlast)
    then show ?thesis
      using assms(2) t o True range by (auto simp: ni_push_pointer_motion_def spec_push_motion_def ni_latch_def)
  next
    case False
    then have t: "eq_tail_motion_index ?q = None" using tail_motion_items [OF assms(1)] by auto
    show ?thesis
      using assms(1)
    proof (cases rule: push_back_cases [where e = ?e])
      case (accepted q')
      then show ?thesis
        using assms(2) t False range by (auto simp: ni_push_pointer_motion_def spec_push_motion_def ni_latch_def)
    next
      case (dropped q')
      have q': "q' = ?q" using dropped(1) by (auto simp: eq_push_back_def Let_def split: if_splits)
      then show ?thesis
        using assms dropped t False by (auto simp: ni_push_pointer_motion_def spec_push_motion_def)
    qed
  qed
  then show "spec_push_motion (ni_items ni) ?e = (ni_items ni', ok)" "eq_ok (ni_queue ni')" "ok \<Longrightarrow> ni_int_status ni' = 1"
    "\<not> ok \<Longrightarrow> ni' = ni" "ni_int_enable ni' = ni_int_enable ni" "ni_overflow ni' = ni_overflow ni" by simp_all
qed

section \<open>Runs\<close>

text \<open>What the host pushes and the guest writes, in any order.\<close>

datatype in_op =
    HostKey u8 bool u16
  | HostButton u8 bool u16
  | HostChar u32 bool
  | HostMotion int int u16
  | GuestWrite u32 u8

text \<open>The discrete event an operation asks for, when its arguments are in range.\<close>

fun wanted_event :: "in_op \<Rightarrow> queued_event option" where
  "wanted_event (HostKey k d qual) = (if k > MAX_RAW_KEYCODE then None
     else Some \<lparr>qe_ty = (if d then EV_KEY_DOWN else EV_KEY_UP), qe_code = k, qe_qualifier = qual, qe_x = 0, qe_y = 0\<rparr>)"
| "wanted_event (HostButton bt d qual) = (if bt > MAX_BUTTON then None
     else Some \<lparr>qe_ty = (if d then EV_BUTTON_DOWN else EV_BUTTON_UP), qe_code = bt, qe_qualifier = qual, qe_x = 0, qe_y = 0\<rparr>)"
| "wanted_event (HostChar ch d) = map_option (\<lambda>byte. \<lparr>qe_ty = (if d then EV_CHAR_DOWN else EV_CHAR_UP), qe_code = byte,
     qe_qualifier = 0, qe_x = 0, qe_y = 0\<rparr>) (latin1_from_char ch)"
| "wanted_event _ = None"

fun in_step :: "native_input \<Rightarrow> in_op \<Rightarrow> native_input \<times> bool" where
  "in_step ni (HostKey k d qual) = ni_push_key ni k d qual"
| "in_step ni (HostButton bt d qual) = ni_push_button ni bt d qual"
| "in_step ni (HostChar ch d) = ni_push_char ni ch d"
| "in_step ni (HostMotion x y qual) = ni_push_pointer_motion ni x y qual"
| "in_step ni (GuestWrite off v) = (ni_write ni off v, True)"

text \<open>The event a guest write takes off the queue.\<close>

fun taken_event :: "native_input \<Rightarrow> in_op \<Rightarrow> queued_event option" where
  "taken_event ni (GuestWrite off v) = (if off = IN_EVENT_ADVANCE + 3 then eq_peek (ni_queue ni) else None)"
| "taken_event ni _ = None"

text \<open>A run, with the discrete events accepted, the events taken and the number of discrete events refused for lack of room.\<close>

fun in_run :: "native_input \<Rightarrow> in_op list \<Rightarrow> native_input \<times> queued_event list \<times> queued_event list \<times> nat" where
  "in_run ni [] = (ni, [], [], 0)"
| "in_run ni (op # ops) =
     (let (ni1, ok) = in_step ni op; (ni2, acc, out, lost) = in_run ni1 ops
      in (ni2, (case wanted_event op of Some e \<Rightarrow> if ok then e # acc else acc | None \<Rightarrow> acc),
          (case taken_event ni op of Some e \<Rightarrow> e # out | None \<Rightarrow> out),
          (case wanted_event op of Some e \<Rightarrow> if ok then lost else lost + 1 | None \<Rightarrow> lost)))"

abbreviation discrete :: "queued_event list \<Rightarrow> queued_event list" where
  "discrete es \<equiv> filter (\<lambda>e. \<not> is_motion e) es"

lemma discrete_drop_motion [simp]: "discrete (drop_first_motion es) = discrete es"
  by (induction es) auto

lemma advance_lane: "in_slot off IN_EVENT_ADVANCE \<and> off - IN_EVENT_ADVANCE = 3 \<longleftrightarrow> off = IN_EVENT_ADVANCE + 3"
  by (auto simp: in_slot_def)

lemma wanted_discrete: "wanted_event op = Some e \<Longrightarrow> \<not> is_motion e"
  by (cases op) (auto simp: is_motion_def split: if_splits)

lemma step_wanted:
  assumes "wanted_event op = Some e"
  shows "in_step ni op = ni_push_discrete ni e" "taken_event ni op = None"
  using assms by (cases op; auto simp: ni_push_key_def ni_push_button_def ni_push_char_def split: if_splits option.splits)+

lemma ni_write_queue:
  "ni_queue (ni_write ni off v) = (if off = IN_EVENT_ADVANCE + 3 then fst (eq_pop (ni_queue ni)) else ni_queue ni)"
  "ni_overflow (ni_write ni off v) = ni_overflow ni"
  using advance_lane [of off] by (auto simp: ni_write_def)

lemma eq_pop_take:
  assumes "eq_ok q"
  shows "eq_ok (fst (eq_pop q)) \<and>
    eq_items q = (case eq_peek q of Some e \<Rightarrow> e # eq_items (fst (eq_pop q)) | None \<Rightarrow> eq_items (fst (eq_pop q)))"
proof (cases "eq_items q")
  case Nil
  then show ?thesis using assms event_fifo.pop_nil [OF assms Nil] eq_items_Nil [of q] by (auto simp: eq_peek_def)
next
  case (Cons x xs)
  from event_fifo.pop_cons [OF assms Cons] obtain q' where q': "eq_pop q = (q', Some x)" "eq_ok q'" "eq_items q' = xs" by blast
  then have "eq_peek q = Some x" by (auto simp: eq_pop_def eq_peek_def Let_def split: if_splits)
  then show ?thesis using q' Cons by simp
qed

lemma step_motion:
  assumes "eq_ok (ni_queue ni)" "in_step ni op = (ni1, ok)" "wanted_event op = None"
  shows "eq_ok (ni_queue ni1) \<and> ni_overflow ni1 = ni_overflow ni \<and>
    discrete (ni_items ni) = (case taken_event ni op of Some e \<Rightarrow> discrete [e] | None \<Rightarrow> []) @ discrete (ni_items ni1)"
proof -
  have idle: ?thesis if "ni1 = ni" "taken_event ni op = None" using that assms(1) by simp
  show ?thesis
  proof (cases op)
    case (HostMotion x y qual)
    let ?e = "\<lparr>qe_ty = EV_POINTER_MOTION, qe_code = 0, qe_qualifier = qual, qe_x = x, qe_y = y\<rparr>"
    show ?thesis
    proof (cases "- 32768 \<le> x \<and> x \<le> 32767 \<and> - 32768 \<le> y \<and> y \<le> 32767")
      case True
      have m: "is_motion ?e" by (simp add: is_motion_def)
      note p = push_motion_spec [OF assms(1), of x y qual ni1 ok]
      have sp: "spec_push_motion (ni_items ni) ?e = (ni_items ni1, ok)"
        using p(1) assms(2) True HostMotion by simp
      then have i: "ni_items ni1 = fst (spec_push_motion (ni_items ni) ?e)" by simp
      have "discrete (ni_items ni1) = discrete (ni_items ni)"
      proof (cases "ni_items ni \<noteq> [] \<and> is_motion (last (ni_items ni))")
        case True
        then have "ni_items ni = butlast (ni_items ni) @ [last (ni_items ni)]" by simp
        then have "discrete (ni_items ni) = discrete (butlast (ni_items ni))"
          using True by (metis append.right_neutral filter.simps(1,2) filter_append)
        then show ?thesis unfolding i using True m by (simp add: spec_push_motion_def)
      next
        case False
        then show ?thesis unfolding i using m by (auto simp: spec_push_motion_def)
      qed
      then show ?thesis using p assms(2) True HostMotion by simp
    next
      case False
      then show ?thesis
        using idle assms(2) HostMotion by (auto simp: ni_push_pointer_motion_def split: if_splits)
    qed
  next
    case (GuestWrite off v)
    then have n: "ni1 = ni_write ni off v" using assms(2) by simp
    show ?thesis
      using eq_pop_take [OF assms(1)] assms(1) GuestWrite
      by (auto simp: n ni_write_queue split: option.splits)
  qed (use idle assms(2,3) in \<open>auto simp: ni_push_key_def ni_push_button_def ni_push_char_def split: if_splits option.splits\<close>)
qed

lemma step_discrete:
  assumes "eq_ok (ni_queue ni)" "ni_push_discrete ni e = (ni1, ok)" "\<not> is_motion e"
  shows "discrete (ni_items ni1) = discrete (ni_items ni) @ (if ok then [e] else [])"
proof -
  have i: "ni_items ni1 = fst (spec_push_discrete (ni_items ni) e)" "ok = snd (spec_push_discrete (ni_items ni) e)"
    using push_discrete_spec(1) [OF assms(1,2)] by simp_all
  show ?thesis unfolding i using assms(3) by (simp add: spec_push_discrete_def)
qed

lemma in_run_conserves:
  "eq_ok (ni_queue ni) \<Longrightarrow> in_run ni ops = (ni', acc, out, lost) \<Longrightarrow>
     eq_ok (ni_queue ni') \<and> discrete (ni_items ni) @ acc = discrete out @ discrete (ni_items ni') \<and>
     ni_overflow ni' = ni_overflow ni + of_nat lost"
proof (induction ops arbitrary: ni ni' acc out lost)
  case Nil
  then show ?case by simp
next
  case (Cons op ops)
  obtain ni1 ok where st: "in_step ni op = (ni1, ok)" by fastforce
  obtain ni2 acc2 out2 lost2 where rn: "in_run ni1 ops = (ni2, acc2, out2, lost2)" by (metis prod_cases4)
  show ?case
  proof (cases "wanted_event op")
    case None
    note m = step_motion [OF Cons.prems(1) st None]
    note ih = Cons.IH [OF conjunct1 [OF m] rn]
    show ?thesis
      using Cons.prems(2) st rn None m ih by (auto split: option.splits)
  next
    case (Some e)
    note w = step_wanted [OF Some]
    have st': "ni_push_discrete ni e = (ni1, ok)" using st w by simp
    note p = push_discrete_spec [OF Cons.prems(1) st']
    note ih = Cons.IH [OF p(2) rn]
    show ?thesis
      using Cons.prems(2) st rn Some w p(5) ih step_discrete [OF Cons.prems(1) st' wanted_discrete [OF Some]]
      by (auto simp: algebra_simps)
  qed
qed

text \<open>Over any interleaving of host pushes and guest register writes, starting from a new card, no accepted
  discrete event (key, button or character transition) is lost, duplicated or reordered: those accepted are, in
  order, those the guest has taken followed by those still queued, and the overflow counter has counted every
  discrete event that was refused for lack of room. Coalescing and eviction only ever touch pointer motions.\<close>

lemma input_discrete_conserved:
  assumes "in_run ni_new ops = (ni, acc, out, lost)"
  shows "acc = discrete out @ discrete (ni_items ni) \<and> ni_overflow ni = of_nat lost \<and> length (ni_items ni) \<le> IN_QUEUE_CAPACITY"
proof -
  have n: "eq_ok (ni_queue ni_new)" "ni_items ni_new = []" "ni_overflow ni_new = 0"
    by (simp_all add: ni_new_def)
  from in_run_conserves [OF n(1) assms] event_fifo.items_cap show ?thesis by (simp add: n)
qed

definition in_sample :: "in_op list" where
  "in_sample = [HostMotion 10 20 0, HostButton 0 True 0, HostMotion 11 21 0, HostMotion 12 22 0, GuestWrite 0x17 0, HostButton 0 False 0]"

lemma input_discrete_conserved_witness:
  "\<exists>ni acc out lost. in_run ni_new in_sample = (ni, acc, out, lost) \<and> acc = discrete out @ discrete (ni_items ni) \<and>
     length (ni_items ni) \<le> IN_QUEUE_CAPACITY"
proof -
  obtain ni acc out lost where r: "in_run ni_new in_sample = (ni, acc, out, lost)" by (metis prod_cases4)
  from input_discrete_conserved [OF r] r show ?thesis by blast
qed

text \<open>C11 [refinement]: The card's ring with its physical indices, in-place overwrite and removal loop implements the overflow
  policy on a plain list. A discrete event goes to the tail, displacing the oldest motion when the queue is
  full and being refused only when there is none; a motion replaces the newest entry if that is a motion, so it
  never moves ahead of a queued click, and otherwise goes to the tail or is refused.\<close>

theorem input_push_refines_policy:
  assumes "eq_ok (ni_queue ni)" and "ni_push_discrete ni e = (ni1, ok1)" and "ni_push_pointer_motion ni x y qual = (ni2, ok2)"
    and "- 32768 \<le> x \<and> x \<le> 32767 \<and> - 32768 \<le> y \<and> y \<le> 32767"
  shows "(ni_items ni1, ok1) = spec_push_discrete (ni_items ni) e \<and>
    (ni_items ni2, ok2) = spec_push_motion (ni_items ni)
      \<lparr>qe_ty = EV_POINTER_MOTION, qe_code = 0, qe_qualifier = qual, qe_x = x, qe_y = y\<rparr>"
  using push_discrete_spec(1) [OF assms(1,2)] push_motion_spec(1) [OF assms(1,3)] assms(4) by simp

lemma input_push_refines_policy_witness:
  "ni_items (fst (ni_push_discrete ni_new qe_default)) = [qe_default] \<and>
   length (ni_items (fst (ni_push_pointer_motion ni_new 5 (-7) 0))) = 1"
proof -
  have ok: "eq_ok (ni_queue ni_new)" "ni_items ni_new = []" by (simp_all add: ni_new_def)
  obtain ni1 ok1 where 1: "ni_push_discrete ni_new qe_default = (ni1, ok1)" by fastforce
  obtain ni2 ok2 where 2: "ni_push_pointer_motion ni_new 5 (-7) 0 = (ni2, ok2)" by fastforce
  from input_push_refines_policy [OF ok(1) 1 2] have
    "(ni_items ni1, ok1) = ([qe_default], True)" "length (ni_items ni2) = 1"
    by (auto simp: ok(2) spec_push_discrete_def spec_push_motion_def)
  with 1 2 show ?thesis by simp
qed

section \<open>No event waits unannounced\<close>

lemma ni_ok_step:
  assumes "ni_ok ni" "in_step ni op = (ni1, ok)"
  shows "ni_ok ni1"
proof (cases "wanted_event op")
  case (Some e)
  then show ?thesis
    using assms push_discrete_spec(2,3) [of ni e ni1 ok] step_wanted(1) [OF Some] by (simp add: ni_ok_def)
next
  case None
  have q: "eq_ok (ni_queue ni1)" using step_motion [OF _ assms(2) None] assms(1) by (simp add: ni_ok_def)
  have "ni_items ni1 \<noteq> [] \<longrightarrow> ni_int_status ni1 = 1"
  proof (cases op)
    case (HostMotion x y qual)
    show ?thesis
    proof (cases "- 32768 \<le> x \<and> x \<le> 32767 \<and> - 32768 \<le> y \<and> y \<le> 32767")
      case True
      then have "ok \<Longrightarrow> ni_int_status ni1 = 1" "\<not> ok \<Longrightarrow> ni1 = ni"
        using push_motion_spec(3,4) [of ni x y qual ni1 ok] assms HostMotion by (simp_all add: ni_ok_def)
      then show ?thesis using assms(1) by (auto simp: ni_ok_def)
    next
      case False
      then show ?thesis using assms HostMotion by (auto simp: ni_push_pointer_motion_def ni_ok_def split: if_splits)
    qed
  next
    case (GuestWrite off v)
    then have n: "ni1 = ni_write ni off v" using assms(2) by simp
    have p: "ni_items ni = [] \<Longrightarrow> eq_items (fst (eq_pop (ni_queue ni))) = []"
      using eq_items_Nil [of "ni_queue ni"] by (simp add: eq_pop_def)
    have s: "ni_int_status ni1 = ni_int_status ni \<or> eq_len (ni_queue ni) = 0"
      by (simp add: n ni_write_def)
    show ?thesis
      using assms(1) p s eq_items_Nil [of "ni_queue ni"] by (auto simp: n ni_write_queue ni_ok_def split: if_splits)
  qed (use assms None in \<open>auto simp: ni_ok_def ni_push_key_def ni_push_button_def ni_push_char_def split: if_splits option.splits\<close>)
  with q show ?thesis by (simp add: ni_ok_def)
qed

lemma ni_ok_run: "ni_ok ni \<Longrightarrow> in_run ni ops = (ni', acc, out, lost) \<Longrightarrow> ni_ok ni'"
  by (induction ops arbitrary: ni ni' acc out lost) (auto split: prod.splits dest: ni_ok_step)

text \<open>The interrupt never strands an event. After any interleaving of host pushes and guest register writes, the
  guest's acknowledgements included, a card with an event still queued has its interrupt status set, so an enabled
  interrupt stays asserted until the queue has been drained.\<close>

lemma input_never_strands_events:
  assumes "in_run ni_new ops = (ni, acc, out, lost)" and "ni_items ni \<noteq> []" and "ni_int_enable ni \<noteq> 0"
  shows "ni_irq_pending ni"
  using ni_ok_run [OF _ assms(1)] assms(2,3) by (simp add: ni_ok_def ni_new_def ni_irq_pending_def)

lemma input_never_strands_events_witness:
  "\<exists>ni acc out lost. in_run ni_new [GuestWrite 0x27 1, HostKey 0x45 True 0, GuestWrite 0x23 1] = (ni, acc, out, lost) \<and> ni_irq_pending ni"
proof -
  let ?ops = "[GuestWrite 0x27 1, HostKey 0x45 True 0, GuestWrite 0x23 1]"
  obtain ni acc out lost where r: "in_run ni_new ?ops = (ni, acc, out, lost)" by (metis prod_cases4)
  have "ni = fst (in_run ni_new ?ops)" using r by simp
  then have "ni_items ni \<noteq> []" "ni_int_enable ni \<noteq> 0"
    by (simp_all add: ni_write_def in_slot_def ni_push_key_def ni_push_discrete_def eq_push_back_def eq_is_full_def ni_new_def eq_new_def
        ni_latch_def eq_items_Nil Let_def)
  with input_never_strands_events [OF r] r show ?thesis by blast
qed

end
