(* ===== verification/Mirage.thy ===== *)
theory Mirage
  imports Fastram Slots BlockDev
begin

text \<open>
  MIRAGE, the image-backed block card of \<open>crates/machine-core/src/mirage.rs\<close>: a byte-wide register file in front of
  a deferred-completion state machine. A command is accepted or refused in the access that issues it, and every
  device operation happens in a later \<open>tick\<close>.

  Shown: the state machine's invariant (which makes the FIFO index and the sector counter safe), that guest
  accesses alone never complete a transfer nor touch a disk, and that the documented driver loops read and write
  exactly the addressed sectors of the image.
\<close>

section \<open>Constants\<close>

(* src/crates/machine-core/src/mirage.rs:231-231 MANUFACTURER *)
definition MI_MANUFACTURER :: u16 where [simp]: "MI_MANUFACTURER = 0x07DB"
(* src/crates/machine-core/src/mirage.rs:233-235 PRODUCT *)
definition MI_PRODUCT :: u8 where [simp]: "MI_PRODUCT = 0"
(* src/crates/machine-core/src/mirage.rs:237-241 WINDOW_BYTES *)
definition MI_WINDOW_BYTES :: u32 where [simp]: "MI_WINDOW_BYTES = 0x00010000"
(* src/crates/machine-core/src/mirage.rs:246-246 reg::UNIT_SELECT *)
definition MI_UNIT_SELECT :: u32 where [simp]: "MI_UNIT_SELECT = 0x00"
(* src/crates/machine-core/src/mirage.rs:247-247 reg::LBA *)
definition MI_LBA :: u32 where [simp]: "MI_LBA = 0x04"
(* src/crates/machine-core/src/mirage.rs:248-248 reg::COUNT *)
definition MI_COUNT :: u32 where [simp]: "MI_COUNT = 0x08"
(* src/crates/machine-core/src/mirage.rs:249-249 reg::CMD_STATUS *)
definition MI_CMD_STATUS :: u32 where [simp]: "MI_CMD_STATUS = 0x0C"
(* src/crates/machine-core/src/mirage.rs:250-250 reg::DATA *)
definition MI_DATA :: u32 where [simp]: "MI_DATA = 0x10"
(* src/crates/machine-core/src/mirage.rs:251-251 reg::INT_ENABLE *)
definition MI_INT_ENABLE :: u32 where [simp]: "MI_INT_ENABLE = 0x18"
(* src/crates/machine-core/src/mirage.rs:252-252 reg::INT_STATUS *)
definition MI_INT_STATUS :: u32 where [simp]: "MI_INT_STATUS = 0x1C"
(* src/crates/machine-core/src/mirage.rs:259-259 cmd::READ *)
definition MI_CMD_READ :: u8 where [simp]: "MI_CMD_READ = 1"
(* src/crates/machine-core/src/mirage.rs:260-260 cmd::WRITE *)
definition MI_CMD_WRITE :: u8 where [simp]: "MI_CMD_WRITE = 2"
(* src/crates/machine-core/src/mirage.rs:261-261 cmd::FLUSH *)
definition MI_CMD_FLUSH :: u8 where [simp]: "MI_CMD_FLUSH = 3"
(* src/crates/machine-core/src/mirage.rs:266-266 status::BUSY *)
definition MI_BUSY :: u8 where [simp]: "MI_BUSY = 1"
(* src/crates/machine-core/src/mirage.rs:267-267 status::DRQ *)
definition MI_DRQ :: u8 where [simp]: "MI_DRQ = 2"
(* src/crates/machine-core/src/mirage.rs:268-268 status::ERR *)
definition MI_ERR :: u8 where [simp]: "MI_ERR = 4"
(* src/crates/machine-core/src/mirage.rs:276-276 int::XFER_COMPLETE *)
definition MI_XFER_COMPLETE :: u8 where [simp]: "MI_XFER_COMPLETE = 1"
(* src/crates/machine-core/src/mirage.rs:278-278 int::MEDIA_CHANGE *)
definition MI_MEDIA_CHANGE :: u8 where [simp]: "MI_MEDIA_CHANGE = 4"
(* src/crates/machine-core/src/mirage.rs:281-282 UNIT_COUNT *)
definition MI_UNIT_COUNT :: nat where [simp]: "MI_UNIT_COUNT = 8"
(* src/crates/machine-core/src/mirage.rs:284-289 TICKS_PER_SECTOR *)
definition MI_TICKS_PER_SECTOR :: u8 where [simp]: "MI_TICKS_PER_SECTOR = 1"

section \<open>State\<close>

(* src/crates/machine-core/src/mirage.rs:291-315 State *)
datatype mi_state = MiIdle | ReadPending | ReadReady | WritePending | WriteReady | WriteCommitting | FlushPending

(* src/crates/machine-core/src/mirage.rs:317-364 Mirage *)
record 'd mirage =
  mi_units :: "'d option list"
  mi_change_count :: "u32 list"
  mi_unit_select :: u8
  mi_lba :: u32
  mi_count :: u32
  mi_status :: u8
  mi_int_enable :: u8
  mi_int_status :: u8
  mi_state :: mi_state
  mi_active_unit :: nat
  mi_current_lba :: u32
  mi_sectors_left :: u32
  mi_ticks_left :: u8
  mi_sector_buf :: "u8 list"
  mi_buf_pos :: nat

section \<open>Operations\<close>

(* src/crates/machine-core/src/mirage.rs:367-385 Mirage::new *)
definition mi_new :: "'d mirage" where
  "mi_new = \<lparr>mi_units = replicate MI_UNIT_COUNT None, mi_change_count = replicate MI_UNIT_COUNT 0, mi_unit_select = 0,
     mi_lba = 0, mi_count = 0, mi_status = 0, mi_int_enable = 0, mi_int_status = 0, mi_state = MiIdle,
     mi_active_unit = 0, mi_current_lba = 0, mi_sectors_left = 0, mi_ticks_left = 0,
     mi_sector_buf = replicate SECTOR_BYTES 0, mi_buf_pos = 0\<rparr>"

(* src/crates/machine-core/src/mirage.rs:387-400 Mirage::board_spec *)
definition mi_board_spec :: board_spec where
  "mi_board_spec = \<lparr>board_type = ERT_ZORROII OR 0x01, product = MI_PRODUCT, flags = 0, manufacturer = MI_MANUFACTURER,
     serial = 0, init_diag_vec = 0, size_bytes = MI_WINDOW_BYTES\<rparr>"

(* src/crates/machine-core/src/mirage.rs:402-410 Mirage::attach_unit *)
definition mi_attach_unit :: "'d mirage \<Rightarrow> u8 \<Rightarrow> 'd \<Rightarrow> 'd mirage" where
  "mi_attach_unit m unit device =
     (if unat unit < length (mi_units m) then m\<lparr>mi_units := (mi_units m)[unat unit := Some device]\<rparr> else m)"

(* src/crates/machine-core/src/mirage.rs:412-421 Mirage::notify_media_change *)
definition mi_notify_media_change :: "'d mirage \<Rightarrow> nat \<Rightarrow> 'd mirage" where
  "mi_notify_media_change m unit =
     (if unit < length (mi_change_count m) then
        m\<lparr>mi_change_count := (mi_change_count m)[unit := mi_change_count m ! unit + 1],
          mi_int_status := mi_int_status m OR MI_MEDIA_CHANGE\<rparr>
      else m)"

(* src/crates/machine-core/src/mirage.rs:428-432 Mirage::irq_pending *)
definition mi_irq_pending :: "'d mirage \<Rightarrow> bool" where
  "mi_irq_pending m \<longleftrightarrow> mi_int_status m AND mi_int_enable m \<noteq> 0"

(* src/crates/machine-core/src/mirage.rs:591-601 Mirage::fail *)
definition mi_fail :: "'d mirage \<Rightarrow> 'd mirage" where
  "mi_fail m = m\<lparr>mi_state := MiIdle, mi_status := MI_ERR, mi_sectors_left := 0,
     mi_int_status := mi_int_status m OR MI_XFER_COMPLETE\<rparr>"

(* src/crates/machine-core/src/mirage.rs:605-617 Mirage::complete_read_fetch *)
definition mi_complete_read_fetch :: "'d block_device \<Rightarrow> 'd mirage \<Rightarrow> 'd mirage" where
  "mi_complete_read_fetch dev m =
     (case mi_units m ! mi_active_unit m of
        None \<Rightarrow> mi_fail m
      | Some d \<Rightarrow>
          let (d', buf, r) = bd_read_sector dev d (ucast (mi_current_lba m)) (mi_sector_buf m);
              m1 = m\<lparr>mi_units := (mi_units m)[mi_active_unit m := Some d'], mi_sector_buf := buf\<rparr>
          in if r then m1\<lparr>mi_buf_pos := 0, mi_state := ReadReady, mi_status := MI_DRQ,
                 mi_int_status := mi_int_status m1 OR MI_XFER_COMPLETE\<rparr>
             else mi_fail m1)"

(* src/crates/machine-core/src/mirage.rs:619-623 Mirage::complete_write_prepare *)
definition mi_complete_write_prepare :: "'d mirage \<Rightarrow> 'd mirage" where
  "mi_complete_write_prepare m = m\<lparr>mi_buf_pos := 0, mi_state := WriteReady, mi_status := MI_DRQ\<rparr>"

(* src/crates/machine-core/src/mirage.rs:625-644 Mirage::complete_write_commit *)
definition mi_complete_write_commit :: "'d block_device \<Rightarrow> 'd mirage \<Rightarrow> 'd mirage" where
  "mi_complete_write_commit dev m =
     (case mi_units m ! mi_active_unit m of
        None \<Rightarrow> mi_fail m
      | Some d \<Rightarrow>
          let (d', r) = bd_write_sector dev d (ucast (mi_current_lba m)) (mi_sector_buf m);
              m1 = m\<lparr>mi_units := (mi_units m)[mi_active_unit m := Some d']\<rparr>
          in if r then
               let m2 = m1\<lparr>mi_sectors_left := mi_sectors_left m1 - 1, mi_int_status := mi_int_status m1 OR MI_XFER_COMPLETE\<rparr>
               in if mi_sectors_left m2 = 0 then m2\<lparr>mi_state := MiIdle, mi_status := 0\<rparr>
                  else m2\<lparr>mi_current_lba := mi_current_lba m2 + 1, mi_buf_pos := 0, mi_state := WriteReady, mi_status := MI_DRQ\<rparr>
             else mi_fail m1)"

(* src/crates/machine-core/src/mirage.rs:646-654 Mirage::complete_flush *)
definition mi_complete_flush :: "'d mirage \<Rightarrow> 'd mirage" where
  "mi_complete_flush m = m\<lparr>mi_state := MiIdle, mi_status := 0, mi_int_status := mi_int_status m OR MI_XFER_COMPLETE\<rparr>"

(* src/crates/machine-core/src/mirage.rs:434-456 Mirage::tick *)
definition mi_tick :: "'d block_device \<Rightarrow> 'd mirage \<Rightarrow> 'd mirage" where
  "mi_tick dev m =
     (if mi_ticks_left m = 0 then m
      else
        let m1 = m\<lparr>mi_ticks_left := mi_ticks_left m - 1\<rparr>
        in if mi_ticks_left m1 = 0 then
             (case mi_state m1 of
                ReadPending \<Rightarrow> mi_complete_read_fetch dev m1
              | WritePending \<Rightarrow> mi_complete_write_prepare m1
              | WriteCommitting \<Rightarrow> mi_complete_write_commit dev m1
              | FlushPending \<Rightarrow> mi_complete_flush m1
              | _ \<Rightarrow> m1)
           else m1)"

(* src/crates/machine-core/src/mirage.rs:704-710 Mirage::selected_unit *)
definition mi_selected_unit :: "'d mirage \<Rightarrow> nat option" where
  "mi_selected_unit m = (let u = unat (mi_unit_select m) in if u < MI_UNIT_COUNT then Some u else None)"

(* src/crates/machine-core/src/mirage.rs:545-562 Mirage::begin_read *)
definition mi_begin_read :: "'d block_device \<Rightarrow> 'd mirage \<Rightarrow> nat \<Rightarrow> 'd mirage" where
  "mi_begin_read dev m unit =
     (if mi_count m = 0 then mi_fail m
      else
        let total = bd_sector_count dev (the (mi_units m ! unit))
        in if (ucast (mi_lba m) :: u64) + ucast (mi_count m) > total then mi_fail m
           else m\<lparr>mi_active_unit := unit, mi_current_lba := mi_lba m, mi_sectors_left := mi_count m,
                  mi_state := ReadPending, mi_status := MI_BUSY, mi_ticks_left := MI_TICKS_PER_SECTOR\<rparr>)"

(* src/crates/machine-core/src/mirage.rs:564-582 Mirage::begin_write *)
definition mi_begin_write :: "'d block_device \<Rightarrow> 'd mirage \<Rightarrow> nat \<Rightarrow> 'd mirage" where
  "mi_begin_write dev m unit =
     (if mi_count m = 0 then mi_fail m
      else
        let total = bd_sector_count dev (the (mi_units m ! unit))
        in if (ucast (mi_lba m) :: u64) + ucast (mi_count m) > total then mi_fail m
           else m\<lparr>mi_active_unit := unit, mi_current_lba := mi_lba m, mi_sectors_left := mi_count m, mi_buf_pos := 0,
                  mi_state := WritePending, mi_status := MI_BUSY, mi_ticks_left := MI_TICKS_PER_SECTOR\<rparr>)"

(* src/crates/machine-core/src/mirage.rs:584-589 Mirage::begin_flush *)
definition mi_begin_flush :: "'d mirage \<Rightarrow> nat \<Rightarrow> 'd mirage" where
  "mi_begin_flush m unit = m\<lparr>mi_active_unit := unit, mi_state := FlushPending, mi_status := MI_BUSY,
     mi_ticks_left := MI_TICKS_PER_SECTOR\<rparr>"

(* src/crates/machine-core/src/mirage.rs:514-543 Mirage::do_command *)
definition mi_do_command :: "'d block_device \<Rightarrow> 'd mirage \<Rightarrow> u8 \<Rightarrow> 'd mirage" where
  "mi_do_command dev m raw_cmd =
     (if mi_state m \<noteq> MiIdle then m
      else (case mi_selected_unit m of
              None \<Rightarrow> mi_fail m
            | Some unit \<Rightarrow>
                if mi_units m ! unit = None then mi_fail m
                else if raw_cmd = MI_CMD_READ then mi_begin_read dev m unit
                else if raw_cmd = MI_CMD_WRITE then mi_begin_write dev m unit
                else if raw_cmd = MI_CMD_FLUSH then mi_begin_flush m unit
                else mi_fail m))"

(* src/crates/machine-core/src/mirage.rs:658-687 Mirage::data_read *)
definition mi_data_read :: "'d mirage \<Rightarrow> 'd mirage \<times> u8" where
  "mi_data_read m =
     (if mi_state m \<noteq> ReadReady then (m, 0)
      else
        let byte = mi_sector_buf m ! mi_buf_pos m;
            m1 = m\<lparr>mi_buf_pos := mi_buf_pos m + 1\<rparr>
        in if mi_buf_pos m1 \<ge> SECTOR_BYTES then
             let m2 = m1\<lparr>mi_sectors_left := mi_sectors_left m1 - 1\<rparr>
             in if mi_sectors_left m2 = 0 then (m2\<lparr>mi_state := MiIdle, mi_status := 0\<rparr>, byte)
                else (m2\<lparr>mi_current_lba := mi_current_lba m2 + 1, mi_state := ReadPending, mi_status := MI_BUSY,
                         mi_ticks_left := MI_TICKS_PER_SECTOR\<rparr>, byte)
           else (m1, byte))"

(* src/crates/machine-core/src/mirage.rs:689-700 Mirage::data_write *)
definition mi_data_write :: "'d mirage \<Rightarrow> u8 \<Rightarrow> 'd mirage" where
  "mi_data_write m value =
     (if mi_state m \<noteq> WriteReady then m
      else
        let m1 = m\<lparr>mi_sector_buf := (mi_sector_buf m)[mi_buf_pos m := value], mi_buf_pos := mi_buf_pos m + 1\<rparr>
        in if mi_buf_pos m1 \<ge> SECTOR_BYTES then
             m1\<lparr>mi_state := WriteCommitting, mi_status := MI_BUSY, mi_ticks_left := MI_TICKS_PER_SECTOR\<rparr>
           else m1)"

(* src/crates/machine-core/src/mirage.rs:458-474 Mirage::read *)
definition mi_read :: "'d mirage \<Rightarrow> u32 \<Rightarrow> 'd mirage \<times> u8" where
  "mi_read m offset =
     (if in_slot offset MI_UNIT_SELECT then (m, low_byte offset MI_UNIT_SELECT (mi_unit_select m))
      else if in_slot offset MI_LBA then (m, byte_of (mi_lba m) (offset - MI_LBA))
      else if in_slot offset MI_COUNT then (m, byte_of (mi_count m) (offset - MI_COUNT))
      else if in_slot offset MI_CMD_STATUS then (m, low_byte offset MI_CMD_STATUS (mi_status m))
      else if in_slot offset MI_DATA then mi_data_read m
      else if in_slot offset MI_INT_ENABLE then (m, low_byte offset MI_INT_ENABLE (mi_int_enable m))
      else if in_slot offset MI_INT_STATUS then (m, low_byte offset MI_INT_STATUS (mi_int_status m))
      else (m, 0))"

(* src/crates/machine-core/src/mirage.rs:476-510 Mirage::write *)
definition mi_write :: "'d block_device \<Rightarrow> 'd mirage \<Rightarrow> u32 \<Rightarrow> u8 \<Rightarrow> 'd mirage" where
  "mi_write dev m offset value =
     (if in_slot offset MI_UNIT_SELECT \<and> offset - MI_UNIT_SELECT = 3 then m\<lparr>mi_unit_select := value\<rparr>
      else if in_slot offset MI_UNIT_SELECT then m
      else if in_slot offset MI_LBA then m\<lparr>mi_lba := set_byte_of (mi_lba m) (offset - MI_LBA) value\<rparr>
      else if in_slot offset MI_COUNT then m\<lparr>mi_count := set_byte_of (mi_count m) (offset - MI_COUNT) value\<rparr>
      else if in_slot offset MI_CMD_STATUS \<and> offset - MI_CMD_STATUS = 3 then mi_do_command dev m value
      else if in_slot offset MI_CMD_STATUS then m
      else if in_slot offset MI_DATA then mi_data_write m value
      else if in_slot offset MI_INT_ENABLE \<and> offset - MI_INT_ENABLE = 3 then m\<lparr>mi_int_enable := value\<rparr>
      else if in_slot offset MI_INT_ENABLE then m
      else if in_slot offset MI_INT_STATUS \<and> offset - MI_INT_STATUS = 3 then m\<lparr>mi_int_status := mi_int_status m AND NOT value\<rparr>
      else if in_slot offset MI_INT_STATUS then m
      else m)"

section \<open>The state machine\<close>

text \<open>Everything that can happen to the card, in any order.\<close>

inductive mi_step :: "'d block_device \<Rightarrow> 'd mirage \<Rightarrow> 'd mirage \<Rightarrow> bool" for dev where
  guest_read: "mi_read m off = (m', v) \<Longrightarrow> mi_step dev m m'"
| guest_write: "mi_step dev m (mi_write dev m off v)"
| line_tick: "mi_step dev m (mi_tick dev m)"
| host_attach: "mi_step dev m (mi_attach_unit m unit d)"
| host_media: "mi_step dev m (mi_notify_media_change m n)"

inductive mi_reachable :: "'d block_device \<Rightarrow> 'd mirage \<Rightarrow> bool" for dev where
  start: "mi_reachable dev mi_new"
| step: "mi_reachable dev m \<Longrightarrow> mi_step dev m m' \<Longrightarrow> mi_reachable dev m'"

text \<open>The sector buffer is a fixed array, which a device can only fill.\<close>

definition dev_typed :: "'d block_device \<Rightarrow> bool" where
  "dev_typed dev \<longleftrightarrow> (\<forall>d lba buf. length buf = SECTOR_BYTES \<longrightarrow> length (fst (snd (bd_read_sector dev d lba buf))) = SECTOR_BYTES)"

text \<open>
  What each state means: a pending operation has one tick to wait and reads busy; a data phase has no tick to wait, reads
  data-request and has its cursor inside the sector buffer; a transfer in flight has a sector left to move and names a
  unit of the card; an idle card has nothing to wait for and reads either clear or error.
\<close>

definition mi_inv :: "'d mirage \<Rightarrow> bool" where
  "mi_inv m \<longleftrightarrow> length (mi_units m) = 8 \<and> length (mi_sector_buf m) = 512 \<and>
     (case mi_state m of
        MiIdle \<Rightarrow> mi_ticks_left m = 0 \<and> (mi_status m = 0 \<or> mi_status m = MI_ERR)
      | FlushPending \<Rightarrow> mi_ticks_left m = 1 \<and> mi_status m = MI_BUSY
      | ReadReady \<Rightarrow> mi_ticks_left m = 0 \<and> mi_status m = MI_DRQ \<and> mi_sectors_left m > 0 \<and> mi_buf_pos m < 512 \<and> mi_active_unit m < 8
      | WriteReady \<Rightarrow> mi_ticks_left m = 0 \<and> mi_status m = MI_DRQ \<and> mi_sectors_left m > 0 \<and> mi_buf_pos m < 512 \<and> mi_active_unit m < 8
      | _ \<Rightarrow> mi_ticks_left m = 1 \<and> mi_status m = MI_BUSY \<and> mi_sectors_left m > 0 \<and> mi_active_unit m < 8)"

lemma mi_inv_new: "mi_inv mi_new"
  by (simp add: mi_inv_def mi_new_def)

lemma mi_inv_attach [inv_intros]: "mi_inv m \<Longrightarrow> mi_inv (mi_attach_unit m u d)"
  by (simp add: mi_inv_def mi_attach_unit_def cong: mi_state.case_cong)

lemma mi_inv_media [inv_intros]: "mi_inv m \<Longrightarrow> mi_inv (mi_notify_media_change m n)"
  by (simp add: mi_inv_def mi_notify_media_change_def cong: mi_state.case_cong)

lemma mi_inv_fail: "length (mi_units m) = 8 \<Longrightarrow> length (mi_sector_buf m) = 512 \<Longrightarrow> mi_ticks_left m = 0 \<Longrightarrow> mi_inv (mi_fail m)"
  by (simp add: mi_inv_def mi_fail_def)

lemma mi_inv_data_read [inv_intros]: "mi_inv m \<Longrightarrow> mi_inv (fst (mi_data_read m))"
  by (auto simp: mi_inv_def mi_data_read_def Let_def word_gt_0 split: mi_state.splits)

lemma mi_inv_data_write [inv_intros]: "mi_inv m \<Longrightarrow> mi_inv (mi_data_write m v)"
  by (auto simp: mi_inv_def mi_data_write_def Let_def split: mi_state.splits)

lemma mi_inv_command [inv_intros]: "mi_inv m \<Longrightarrow> mi_inv (mi_do_command dev m c)"
proof (cases "mi_state m = MiIdle")
  case True
  assume inv: "mi_inv m"
  then have i: "length (mi_units m) = 8" "length (mi_sector_buf m) = 512" "mi_ticks_left m = 0"
    using True by (simp_all add: mi_inv_def)
  then have f: "mi_inv (mi_fail m)" by (rule mi_inv_fail)
  have r: "mi_inv (mi_begin_read dev m u)" "mi_inv (mi_begin_write dev m u)" if "u < 8" for u
    using i f that by (simp_all add: mi_begin_read_def mi_begin_write_def Let_def, simp_all add: mi_inv_def word_gt_0)
  have "mi_inv (mi_begin_flush m u)" for u using i by (simp add: mi_begin_flush_def mi_inv_def)
  then show ?thesis using f r True by (auto simp: mi_do_command_def mi_selected_unit_def Let_def split: option.splits)
qed (simp add: mi_do_command_def)

lemma mi_inv_read [inv_intros]: "mi_inv m \<Longrightarrow> mi_inv (fst (mi_read m off))"
  by (simp add: mi_read_def mi_inv_data_read)

lemma mi_inv_regs:
  "mi_inv (m\<lparr>mi_unit_select := x1\<rparr>) = mi_inv m" "mi_inv (m\<lparr>mi_lba := x2\<rparr>) = mi_inv m" "mi_inv (m\<lparr>mi_count := x3\<rparr>) = mi_inv m"
  "mi_inv (m\<lparr>mi_int_enable := x4\<rparr>) = mi_inv m" "mi_inv (m\<lparr>mi_int_status := x5\<rparr>) = mi_inv m"
  by (simp_all add: mi_inv_def cong: mi_state.case_cong)

lemma mi_inv_write [inv_intros]: "mi_inv m \<Longrightarrow> mi_inv (mi_write dev m off v)"
  by (simp add: mi_write_def mi_inv_regs mi_inv_data_write mi_inv_command)

lemma mi_inv_tick [inv_intros]:
  assumes "dev_typed dev" "mi_inv m"
  shows "mi_inv (mi_tick dev m)"
proof (cases "mi_ticks_left m = 0")
  case False
  let ?m = "m\<lparr>mi_ticks_left := 0\<rparr>"
  have t: "mi_ticks_left m = 1" and l: "length (mi_units m) = 8" "length (mi_sector_buf m) = 512"
    using assms(2) False by (auto simp: mi_inv_def split: mi_state.splits)
  have f: "mi_inv (mi_fail ?m)" using l by (intro mi_inv_fail) simp_all
  have rd: "length (fst (snd (bd_read_sector dev d lba (mi_sector_buf m)))) = 512" for d lba
    using assms(1) l by (simp add: dev_typed_def)
  have "mi_inv (mi_complete_read_fetch dev ?m)" if "mi_state m = ReadPending"
  proof (cases "mi_units m ! mi_active_unit m")
    case None
    then show ?thesis using f by (simp add: mi_complete_read_fetch_def)
  next
    case (Some d)
    obtain d' buf r where b: "bd_read_sector dev d (ucast (mi_current_lba m)) (mi_sector_buf m) = (d', buf, r)" by (metis prod_cases3)
    have "length buf = 512" using rd [of d "ucast (mi_current_lba m)"] b by simp
    then show ?thesis
      using Some b assms(2) that l by (auto simp: mi_complete_read_fetch_def Let_def intro!: mi_inv_fail) (simp add: mi_inv_def)
  qed
  moreover have "mi_inv (mi_complete_write_commit dev ?m)" if "mi_state m = WriteCommitting"
  proof (cases "mi_units m ! mi_active_unit m")
    case None
    then show ?thesis using f by (simp add: mi_complete_write_commit_def)
  next
    case (Some d)
    obtain d' r where b: "bd_write_sector dev d (ucast (mi_current_lba m)) (mi_sector_buf m) = (d', r)" by fastforce
    then show ?thesis
      using Some assms(2) that l
      by (auto simp: mi_complete_write_commit_def Let_def intro!: mi_inv_fail) (simp_all add: mi_inv_def word_gt_0)
  qed
  moreover have "mi_state m = WritePending \<Longrightarrow> mi_inv (mi_complete_write_prepare ?m)" "mi_inv (mi_complete_flush ?m)"
    using assms(2) l by (simp_all add: mi_complete_write_prepare_def mi_complete_flush_def mi_inv_def)
  ultimately show ?thesis
    using False t assms(2) by (cases "mi_state m") (simp_all add: mi_tick_def Let_def, simp_all add: mi_inv_def)
qed (simp add: mi_tick_def assms(2))

text \<open>C19 [invariant]: In every state the card can reach, through any interleaving of guest register accesses, raster-line ticks, disk
  attachments and media changes, the status register tells the truth about the state machine: a pending operation
  reads busy and completes at the next tick, a data phase reads data-request with its cursor inside the sector
  buffer and at least one sector left to move, and an idle card reads clear or error. In particular the FIFO index
  and the sector counter can never run out of range.\<close>

theorem mirage_state_machine_invariant:
  assumes "mi_reachable dev m" and "dev_typed dev"
  shows "mi_inv m"
  using assms(1)
proof (induction rule: mi_reachable.induct)
  case start
  show ?case by (rule mi_inv_new)
next
  case (step m m')
  from step.hyps(2) step.IH show ?case
    by (cases rule: mi_step.cases) (auto intro: inv_intros assms(2) simp: prod_eq_iff dest: mi_inv_read)
qed

lemma file_dev_typed: "dev_typed file_dev"
  by (auto simp: dev_typed_def fbd_read_sector_def file_read_exact_def Let_def file_seek_def intro!: le_add_diff_inverse order_trans [OF length_moved])

lemma mirage_state_machine_invariant_witness:
  "mi_inv (mi_tick file_dev (mi_write file_dev mi_new 0x0F MI_CMD_READ))"
proof -
  have "mi_reachable file_dev (mi_write file_dev mi_new 0x0F MI_CMD_READ)"
    by (rule mi_reachable.step [OF mi_reachable.start mi_step.guest_write])
  from mi_reachable.step [OF this mi_step.line_tick] show ?thesis
    by (rule mirage_state_machine_invariant [OF _ file_dev_typed])
qed

section \<open>Nothing completes inside a guest access\<close>

datatype mi_access = AccRead u32 | AccWrite u32 u8

fun mi_access_run :: "'d block_device \<Rightarrow> 'd mirage \<Rightarrow> mi_access list \<Rightarrow> 'd mirage" where
  "mi_access_run dev m [] = m"
| "mi_access_run dev m (AccRead off # as) = mi_access_run dev (fst (mi_read m off)) as"
| "mi_access_run dev m (AccWrite off v # as) = mi_access_run dev (mi_write dev m off v) as"

lemma mi_access_units [frame_simps]:
  "mi_units (fst (mi_read m off)) = mi_units m" "mi_units (mi_write dev m off v) = mi_units m"
  by (simp_all add: mi_read_def mi_data_read_def mi_write_def mi_data_write_def mi_do_command_def mi_begin_read_def
      mi_begin_write_def mi_begin_flush_def mi_fail_def Let_def split: option.split)

definition no_drq :: "'d mirage \<Rightarrow> bool" where
  "no_drq m \<longleftrightarrow> mi_state m \<noteq> ReadReady \<and> mi_state m \<noteq> WriteReady"

lemma no_drq_status: "mi_inv m \<Longrightarrow> no_drq m \<longleftrightarrow> mi_status m AND MI_DRQ = 0"
  by (auto simp: mi_inv_def no_drq_def split: mi_state.splits)

lemma no_drq_access:
  "no_drq m \<Longrightarrow> no_drq (fst (mi_read m off))" "no_drq m \<Longrightarrow> no_drq (mi_write dev m off v)"
  by (simp_all add: no_drq_def mi_read_def mi_data_read_def mi_write_def mi_data_write_def mi_do_command_def mi_begin_read_def
      mi_begin_write_def mi_begin_flush_def mi_fail_def Let_def split: option.split)

text \<open>No transfer completes, and no disk is touched, inside the bus accesses of the guest: whatever sequence of
  register reads and writes the guest makes, the attached devices are unchanged, and a card that is not offering
  data does not start to. Data appears only after a tick.\<close>

lemma mirage_never_completes_synchronously:
  assumes "mi_inv m"
  shows "mi_units (mi_access_run dev m as) = mi_units m \<and>
    (mi_status m AND MI_DRQ = 0 \<longrightarrow> mi_status (mi_access_run dev m as) AND MI_DRQ = 0)"
proof -
  have "mi_inv (mi_access_run dev m as) \<and> mi_units (mi_access_run dev m as) = mi_units m \<and>
      (no_drq m \<longrightarrow> no_drq (mi_access_run dev m as))" using assms
    by (induction as arbitrary: m rule: list.induct)
       (simp, metis mi_access.exhaust mi_access_run.simps(2,3) mi_inv_read mi_inv_write mi_access_units no_drq_access)
  then show ?thesis using no_drq_status assms by blast
qed

lemma mirage_never_completes_synchronously_witness:
  "mi_status (mi_access_run file_dev mi_new [AccWrite 0x0F 1, AccRead 0x10, AccRead 0x0F]) AND MI_DRQ = 0"
  using mirage_never_completes_synchronously [OF mi_inv_new, of file_dev "[AccWrite 0x0F 1, AccRead 0x10, AccRead 0x0F]"]
  by (simp add: mi_new_def)

section \<open>Transfers\<close>

text \<open>A store that answers every request inside the device.\<close>

locale reliable_store = block_store +
  fixes good :: "'a \<Rightarrow> bool"
  assumes good_ok: "good d \<Longrightarrow> ok d"
    and read_good: "good d \<Longrightarrow> length buf = SECTOR_BYTES \<Longrightarrow> lba < bd_sector_count dev d \<Longrightarrow> bd_read_sector dev d lba buf = (d', buf', r) \<Longrightarrow>
      r \<and> good d'"
    and write_good: "good d \<Longrightarrow> length buf = SECTOR_BYTES \<Longrightarrow> lba < bd_sector_count dev d \<Longrightarrow> bd_write_sector dev d lba buf = (d', r) \<Longrightarrow>
      r \<and> good d'"

definition fbd_good :: "file_block_device \<Rightarrow> bool" where
  "fbd_good d \<longleftrightarrow> fbd_ok d \<and> fbd_writable d \<and> hf_fault (fbd_file d) = (\<lambda>_. None)"

interpretation file_reliable: reliable_store file_dev fbd_ok fbd_sector fbd_good
proof
  fix d d' :: file_block_device and buf buf' :: "u8 list" and lba :: u64 and r :: bool
  show "fbd_good d \<Longrightarrow> fbd_ok d" by (simp add: fbd_good_def)
  assume g: "fbd_good d" and l: "length buf = SECTOR_BYTES" and lba: "lba < bd_sector_count file_dev d"
  then have o: "fbd_ok d" by (simp add: fbd_good_def)
  note off = fbd_lba_offset [OF o, of lba]
  show "r \<and> fbd_good d'" if "bd_read_sector file_dev d lba buf = (d', buf', r)"
    using that g l lba off file_store.read_law [OF o l that]
    by (auto simp: fbd_good_def fbd_read_sector_def file_read_exact_def moved_def file_seek_def Let_def split: if_splits)
  show "r \<and> fbd_good d'" if "bd_write_sector file_dev d lba buf = (d', r)"
    using that g l lba off file_store.write_law [OF o l that]
    by (auto simp: fbd_good_def fbd_write_sector_def file_write_all_def moved_def file_seek_def Let_def split: if_splits)
qed

text \<open>The driver's side: pull bytes from, or push bytes to, the data register.\<close>

fun mi_pump :: "nat \<Rightarrow> 'd mirage \<Rightarrow> 'd mirage \<times> u8 list" where
  "mi_pump 0 m = (m, [])"
| "mi_pump (Suc k) m = (let (m1, b) = mi_read m MI_DATA; (m2, bs) = mi_pump k m1 in (m2, b # bs))"

fun mi_feed :: "'d block_device \<Rightarrow> 'd mirage \<Rightarrow> u8 list \<Rightarrow> 'd mirage" where
  "mi_feed dev m [] = m"
| "mi_feed dev m (b # bs) = mi_feed dev (mi_write dev m MI_DATA b) bs"

text \<open>Read \<open>n\<close> sectors: let a tick fetch each, then drain it. Write sectors: fill each, then let a tick commit it.\<close>

fun mi_drive_read :: "'d block_device \<Rightarrow> nat \<Rightarrow> 'd mirage \<Rightarrow> 'd mirage \<times> u8 list" where
  "mi_drive_read dev 0 m = (m, [])"
| "mi_drive_read dev (Suc n) m =
     (let (m1, bs) = mi_pump 512 (mi_tick dev m); (m2, rest) = mi_drive_read dev n m1 in (m2, bs @ rest))"

fun mi_drive_write :: "'d block_device \<Rightarrow> 'd mirage \<Rightarrow> u8 list list \<Rightarrow> 'd mirage" where
  "mi_drive_write dev m [] = m"
| "mi_drive_write dev m (chunk # chunks) = mi_drive_write dev (mi_tick dev (mi_feed dev m chunk)) chunks"

definition mi_issue :: "'d block_device \<Rightarrow> 'd mirage \<Rightarrow> u8 \<Rightarrow> 'd mirage" where
  "mi_issue dev m c = mi_write dev m (MI_CMD_STATUS + 3) c"

lemma data_slot: "mi_read m MI_DATA = mi_data_read m" "mi_write dev m MI_DATA b = mi_data_write m b"
  "mi_issue dev m c = mi_do_command dev m c"
  by (simp_all add: mi_read_def mi_write_def mi_issue_def in_slot_def)

text \<open>What draining the last byte of a sector does.\<close>

definition mi_sector_done :: "'d mirage \<Rightarrow> 'd mirage" where
  "mi_sector_done m =
     (let m2 = m\<lparr>mi_buf_pos := 512, mi_sectors_left := mi_sectors_left m - 1\<rparr>
      in if mi_sectors_left m2 = 0 then m2\<lparr>mi_state := MiIdle, mi_status := 0\<rparr>
         else m2\<lparr>mi_current_lba := mi_current_lba m2 + 1, mi_state := ReadPending, mi_status := MI_BUSY, mi_ticks_left := 1\<rparr>)"

lemma mi_pump_sector:
  assumes "mi_state m = ReadReady" "length (mi_sector_buf m) = 512" "mi_buf_pos m + Suc k = 512"
  shows "mi_pump (Suc k) m = (mi_sector_done m, drop (mi_buf_pos m) (mi_sector_buf m))"
  using assms
proof (induction k arbitrary: m)
  case 0
  have "drop (mi_buf_pos m) (mi_sector_buf m) = [mi_sector_buf m ! mi_buf_pos m]"
    using 0 Cons_nth_drop_Suc [of "mi_buf_pos m" "mi_sector_buf m"] by simp
  then show ?case using 0 by (simp add: data_slot mi_data_read_def mi_sector_done_def Let_def del: MI_DATA_def)
next
  case (Suc k)
  let ?m = "m\<lparr>mi_buf_pos := mi_buf_pos m + 1\<rparr>"
  have "mi_pump (Suc k) ?m = (mi_sector_done ?m, drop (mi_buf_pos m + 1) (mi_sector_buf m))"
    using Suc.IH [of ?m] Suc.prems by simp
  moreover have "mi_sector_done ?m = mi_sector_done m" by (simp add: mi_sector_done_def Let_def)
  moreover have "mi_read m MI_DATA = (?m, mi_sector_buf m ! mi_buf_pos m)"
    using Suc.prems by (simp add: data_slot mi_data_read_def Let_def del: MI_DATA_def)
  moreover have "drop (mi_buf_pos m) (mi_sector_buf m) = mi_sector_buf m ! mi_buf_pos m # drop (mi_buf_pos m + 1) (mi_sector_buf m)"
    using Suc.prems Cons_nth_drop_Suc [of "mi_buf_pos m" "mi_sector_buf m"] by simp
  ultimately show ?case by (simp only: mi_pump.simps(2) [of "Suc k" m] Let_def case_prod_conv)
qed

lemma mi_feed_sector:
  assumes "mi_state m = WriteReady" "length (mi_sector_buf m) = 512" "mi_buf_pos m + length bs = 512" "bs \<noteq> []"
  shows "mi_feed dev m bs = m\<lparr>mi_sector_buf := take (mi_buf_pos m) (mi_sector_buf m) @ bs, mi_buf_pos := 512,
    mi_state := WriteCommitting, mi_status := MI_BUSY, mi_ticks_left := 1\<rparr>"
  using assms
proof (induction bs arbitrary: m)
  case (Cons b bs)
  let ?m = "m\<lparr>mi_sector_buf := (mi_sector_buf m)[mi_buf_pos m := b], mi_buf_pos := mi_buf_pos m + 1\<rparr>"
  have p: "mi_buf_pos m < 512" using Cons.prems(3) by simp
  have t: "take (mi_buf_pos m + 1) ((mi_sector_buf m)[mi_buf_pos m := b]) = take (mi_buf_pos m) (mi_sector_buf m) @ [b]"
    using p Cons.prems(2) by (simp add: take_Suc_conv_app_nth)
  show ?case
  proof (cases "bs = []")
    case True
    then have "mi_buf_pos m = 511" using Cons.prems(3) by simp
    moreover from this have "(mi_sector_buf m)[511 := b] = take 511 (mi_sector_buf m) @ [b]"
      using t Cons.prems(2) by simp
    ultimately show ?thesis using True Cons.prems by (simp add: data_slot mi_data_write_def Let_def del: MI_DATA_def)
  next
    case False
    then have "mi_buf_pos m + 1 < 512" using Cons.prems(3) by (cases bs) simp_all
    then have "mi_write dev m MI_DATA b = ?m"
      using Cons.prems by (simp add: data_slot mi_data_write_def Let_def del: MI_DATA_def)
    then show ?thesis
      using Cons.IH [of ?m] Cons.prems False t by (simp del: MI_DATA_def)
  qed
qed simp


text \<open>The card in the middle of a transfer: device \<open>d\<close> on the active unit, next sector \<open>lba\<close>, \<open>n\<close> to go.\<close>

definition mi_moving :: "mi_state \<Rightarrow> 'd mirage \<Rightarrow> 'd \<Rightarrow> nat \<Rightarrow> nat \<Rightarrow> bool" where
  "mi_moving s m d lba n \<longleftrightarrow> mi_state m = s \<and> mi_active_unit m < length (mi_units m) \<and>
     mi_units m ! mi_active_unit m = Some d \<and> length (mi_sector_buf m) = 512 \<and>
     unat (mi_current_lba m) = lba \<and> unat (mi_sectors_left m) = n"

definition mi_settled :: "'d mirage \<Rightarrow> 'd mirage \<Rightarrow> 'd \<Rightarrow> bool" where
  "mi_settled m0 m d \<longleftrightarrow> mi_state m = MiIdle \<and> mi_status m = 0 \<and>
     mi_units m = (mi_units m0)[mi_active_unit m0 := Some d] \<and> length (mi_sector_buf m) = 512 \<and>
     mi_unit_select m = mi_unit_select m0 \<and> mi_lba m = mi_lba m0 \<and> mi_count m = mi_count m0"

context reliable_store
begin

lemma sector_fetch:
  assumes mv: "mi_moving ReadPending m d lba (Suc n)" and t: "mi_ticks_left m = 1" and g: "good d"
    and lba: "lba + Suc n \<le> unat (bd_sector_count dev d)" "lba + Suc n \<le> 2 ^ 32"
  obtains d' m' where "mi_pump 512 (mi_tick dev m) = (m', sector d lba)" "good d'" "sector d' = sector d"
    "bd_sector_count dev d' = bd_sector_count dev d" "mi_units m' = (mi_units m)[mi_active_unit m := Some d']"
    "mi_active_unit m' = mi_active_unit m" "mi_unit_select m' = mi_unit_select m" "mi_lba m' = mi_lba m"
    "mi_count m' = mi_count m" "length (mi_sector_buf m') = 512"
    "n = 0 \<Longrightarrow> mi_state m' = MiIdle \<and> mi_status m' = 0"
    "n \<noteq> 0 \<Longrightarrow> mi_moving ReadPending m' d' (Suc lba) n \<and> mi_ticks_left m' = 1"
proof -
  note m = mv [unfolded mi_moving_def]
  obtain d' buf r where rd: "bd_read_sector dev d (ucast (mi_current_lba m)) (mi_sector_buf m) = (d', buf, r)"
    by (metis prod_cases3)
  have l: "length (mi_sector_buf m) = SECTOR_BYTES" and i: "ucast (mi_current_lba m) < bd_sector_count dev d"
    using m lba by (simp_all add: word_less_nat_alt unat_ucast_u32_u64)
  have r: r "good d'" using read_good [OF g l i rd] by simp_all
  have law: "sector d' = sector d" "bd_sector_count dev d' = bd_sector_count dev d" "buf = sector d lba" "length buf = 512"
    using read_law [OF good_ok [OF g] l rd] r m by (auto simp: unat_ucast_u32_u64)
  let ?m = "m\<lparr>mi_ticks_left := 0, mi_units := (mi_units m)[mi_active_unit m := Some d'], mi_sector_buf := buf,
    mi_buf_pos := 0, mi_state := ReadReady, mi_status := MI_DRQ, mi_int_status := mi_int_status m OR MI_XFER_COMPLETE\<rparr>"
  have tick: "mi_tick dev m = ?m" using m t rd r by (simp add: mi_tick_def mi_complete_read_fetch_def Let_def)
  have pump: "mi_pump (Suc 511) ?m = (mi_sector_done ?m, buf)"
    by (subst mi_pump_sector) (simp_all add: law(4))
  then have pump': "mi_pump 512 (mi_tick dev m) = (mi_sector_done ?m, sector d lba)"
    unfolding tick law(3) by (metis Suc_numeral semiring_norm(2,5,8))
  have left: "unat (mi_sectors_left m - 1) = n" using m by (simp add: unat_dec)
  then have z: "mi_sectors_left m - 1 = 0 \<longleftrightarrow> n = 0" by (metis unat_0 unat_eq_zero)
  have inc: "unat (mi_current_lba m + 1) = Suc lba" if "n \<noteq> 0"
    using m that lba by (subst unat_inc) simp_all
  show ?thesis
    by (rule that [OF pump' r(2) law(1,2)])
       (use m z left inc law(4) in \<open>auto simp: mi_sector_done_def Let_def mi_moving_def\<close>)
qed

lemma drive_read:
  assumes "mi_moving ReadPending m d lba (Suc n)" "mi_ticks_left m = 1" "good d"
    "lba + Suc n \<le> unat (bd_sector_count dev d)" "lba + Suc n \<le> 2 ^ 32"
  shows "\<exists>d' m'. mi_drive_read dev (Suc n) m = (m', concat (map (sector d) [lba..<lba + Suc n])) \<and>
    good d' \<and> sector d' = sector d \<and> bd_sector_count dev d' = bd_sector_count dev d \<and> mi_settled m m' d'"
  using assms
proof (induction n arbitrary: m d lba)
  case 0
  obtain d' m' where "mi_pump 512 (mi_tick dev m) = (m', sector d lba)" "good d'" "sector d' = sector d"
    "bd_sector_count dev d' = bd_sector_count dev d" "mi_settled m m' d'"
    by (rule sector_fetch [OF 0]) (simp add: mi_settled_def)
  then show ?case by auto
next
  case (Suc n)
  obtain d1 m1 where s: "mi_pump 512 (mi_tick dev m) = (m1, sector d lba)" "good d1" "sector d1 = sector d"
    "bd_sector_count dev d1 = bd_sector_count dev d" "mi_units m1 = (mi_units m)[mi_active_unit m := Some d1]"
    "mi_active_unit m1 = mi_active_unit m" "mi_unit_select m1 = mi_unit_select m" "mi_lba m1 = mi_lba m"
    "mi_count m1 = mi_count m" "mi_moving ReadPending m1 d1 (Suc lba) (Suc n)" "mi_ticks_left m1 = 1"
    by (rule sector_fetch [OF Suc.prems]) simp
  have "Suc lba + Suc n \<le> unat (bd_sector_count dev d1)" "Suc lba + Suc n \<le> 2 ^ 32" using Suc.prems s(4) by simp_all
  from Suc.IH [OF s(10,11,2) this] obtain d' m' where
    r: "mi_drive_read dev (Suc n) m1 = (m', concat (map (sector d) [Suc lba..<Suc lba + Suc n]))"
      "good d'" "sector d' = sector d" "bd_sector_count dev d' = bd_sector_count dev d" "mi_settled m1 m' d'"
    using s(3,4) by auto
  have "[lba..<lba + Suc (Suc n)] = lba # [Suc lba..<Suc lba + Suc n]" by (simp add: upt_conv_Cons)
  then have "mi_drive_read dev (Suc (Suc n)) m = (m', concat (map (sector d) [lba..<lba + Suc (Suc n)]))"
    using s(1) r(1) by (simp only: mi_drive_read.simps(2) [of dev "Suc n" m] Let_def case_prod_conv list.map concat.simps)
  moreover have "mi_settled m m' d'" using r(5) s(5-9) by (simp add: mi_settled_def)
  ultimately show ?case using r(2-4) by blast
qed

lemma sector_commit:
  assumes mv: "mi_moving WriteReady m d lba (Suc n)" and p: "mi_buf_pos m = 0" and g: "good d" and c: "length bs = 512"
    and lba: "lba + Suc n \<le> unat (bd_sector_count dev d)" "lba + Suc n \<le> 2 ^ 32"
  obtains d' m' where "mi_tick dev (mi_feed dev m bs) = m'" "good d'" "sector d' = (sector d)(lba := bs)"
    "bd_sector_count dev d' = bd_sector_count dev d" "mi_units m' = (mi_units m)[mi_active_unit m := Some d']"
    "mi_active_unit m' = mi_active_unit m" "mi_unit_select m' = mi_unit_select m" "mi_lba m' = mi_lba m"
    "mi_count m' = mi_count m" "length (mi_sector_buf m') = 512"
    "n = 0 \<Longrightarrow> mi_state m' = MiIdle \<and> mi_status m' = 0"
    "n \<noteq> 0 \<Longrightarrow> mi_moving WriteReady m' d' (Suc lba) n \<and> mi_buf_pos m' = 0"
proof -
  note m = mv [unfolded mi_moving_def]
  obtain d' r where wr: "bd_write_sector dev d (ucast (mi_current_lba m)) bs = (d', r)" by fastforce
  have l: "length bs = SECTOR_BYTES" and i: "ucast (mi_current_lba m) < bd_sector_count dev d"
    using m lba c by (simp_all add: word_less_nat_alt unat_ucast_u32_u64)
  have r: r "good d'" using write_good [OF g l i wr] by simp_all
  have law: "sector d' = (sector d)(lba := bs)" "bd_sector_count dev d' = bd_sector_count dev d"
    using write_law [OF good_ok [OF g] l wr] r m by (simp_all add: unat_ucast_u32_u64)
  have "mi_feed dev m bs = m\<lparr>mi_sector_buf := bs, mi_buf_pos := 512, mi_state := WriteCommitting, mi_status := MI_BUSY,
      mi_ticks_left := 1\<rparr>"
    using m p c by (subst mi_feed_sector) auto
  then have tick: "mi_tick dev (mi_feed dev m bs) = mi_complete_write_commit dev (m\<lparr>mi_sector_buf := bs, mi_buf_pos := 512,
      mi_state := WriteCommitting, mi_status := MI_BUSY, mi_ticks_left := 0\<rparr>)"
    by (simp add: mi_tick_def Let_def)
  have left: "unat (mi_sectors_left m - 1) = n" using m by (simp add: unat_dec)
  then have z: "mi_sectors_left m - 1 = 0 \<longleftrightarrow> n = 0" by (metis unat_0 unat_eq_zero)
  have inc: "unat (mi_current_lba m + 1) = Suc lba" if "n \<noteq> 0"
    using m that lba by (subst unat_inc) simp_all
  show ?thesis
    by (rule that [OF tick r(2) law(1,2)])
       (use m z left inc wr r c in \<open>auto simp: mi_complete_write_commit_def Let_def mi_moving_def\<close>)
qed

lemma drive_write:
  assumes "mi_moving WriteReady m d lba (length chunks)" "mi_buf_pos m = 0" "good d"
    "lba + length chunks \<le> unat (bd_sector_count dev d)" "lba + length chunks \<le> 2 ^ 32" "chunks \<noteq> []"
    "\<forall>c \<in> set chunks. length c = 512"
  shows "\<exists>d'. mi_settled m (mi_drive_write dev m chunks) d' \<and> good d' \<and> bd_sector_count dev d' = bd_sector_count dev d \<and>
    sector d' = (\<lambda>k. if lba \<le> k \<and> k < lba + length chunks then chunks ! (k - lba) else sector d k)"
  using assms
proof (induction chunks arbitrary: m d lba)
  case (Cons c cs)
  have c: "length c = 512" using Cons.prems(7) by simp
  show ?case
  proof (cases "cs = []")
    case True
    obtain d' m' where "mi_tick dev (mi_feed dev m c) = m'" "good d'" "sector d' = (sector d)(lba := c)"
      "bd_sector_count dev d' = bd_sector_count dev d" "mi_settled m m' d'"
      by (rule sector_commit [OF _ Cons.prems(2,3) c, of lba 0]) (use Cons.prems True in \<open>simp_all add: mi_settled_def\<close>)
    then show ?thesis using True by (intro exI [of _ d']) (auto simp: fun_eq_iff le_less_Suc_eq)
  next
    case False
    then obtain n where n: "length cs = Suc n" by (cases cs) auto
    obtain d1 m1 where s: "mi_tick dev (mi_feed dev m c) = m1" "good d1" "sector d1 = (sector d)(lba := c)"
      "bd_sector_count dev d1 = bd_sector_count dev d" "mi_units m1 = (mi_units m)[mi_active_unit m := Some d1]"
      "mi_active_unit m1 = mi_active_unit m" "mi_unit_select m1 = mi_unit_select m" "mi_lba m1 = mi_lba m"
      "mi_count m1 = mi_count m" "mi_moving WriteReady m1 d1 (Suc lba) (length cs)" "mi_buf_pos m1 = 0"
      by (rule sector_commit [OF _ Cons.prems(2,3) c, of lba "length cs"]) (use Cons.prems n in simp_all)
    have pre: "Suc lba + length cs \<le> unat (bd_sector_count dev d1)" "Suc lba + length cs \<le> 2 ^ 32"
        "\<forall>c \<in> set cs. length c = 512"
      using Cons.prems s(4) by simp_all
    from Cons.IH [OF s(10,11,2) pre(1,2) False pre(3)] obtain d' where
      r: "mi_settled m1 (mi_drive_write dev m1 cs) d'" "good d'" "bd_sector_count dev d' = bd_sector_count dev d1"
        "sector d' = (\<lambda>k. if Suc lba \<le> k \<and> k < Suc lba + length cs then cs ! (k - Suc lba) else sector d1 k)" by blast
    have "sector d' = (\<lambda>k. if lba \<le> k \<and> k < lba + length (c # cs) then (c # cs) ! (k - lba) else sector d k)"
    proof
      fix k show "sector d' k = (if lba \<le> k \<and> k < lba + length (c # cs) then (c # cs) ! (k - lba) else sector d k)"
        unfolding r(4) s(3) by (cases "k < lba"; cases "k = lba") (simp_all add: nth_Cons' less_eq_Suc_le)
    qed
    moreover have "mi_settled m (mi_drive_write dev m (c # cs)) d'" using r(1) s(1,5-9) by (simp add: mi_settled_def)
    ultimately show ?thesis using r(2,3) s(4) by metis
  qed
qed simp

lemma in_range:
  "(total < ucast (lba :: u32) + ucast (count :: u32)) \<longleftrightarrow> unat total < unat lba + unat count" for total :: u64
proof -
  have "unat lba + unat count < 2 ^ 64" using unat_lt2p_of [of lba] unat_lt2p_of [of count] by simp
  then have "unat (ucast lba + ucast count :: u64) = unat lba + unat count"
    by (simp add: unat_word_ariths unat_ucast_u32_u64)
  then show ?thesis by (simp add: word_less_nat_alt)
qed

lemma issue_read:
  assumes "mi_state m = MiIdle" "unat (mi_unit_select m) = u" "u < 8" "u < length (mi_units m)" "mi_units m ! u = Some d"
    "mi_count m \<noteq> 0" "unat (mi_lba m) + unat (mi_count m) \<le> unat (bd_sector_count dev d)" "length (mi_sector_buf m) = 512"
  shows "mi_moving ReadPending (mi_issue dev m MI_CMD_READ) d (unat (mi_lba m)) (unat (mi_count m))"
    "mi_ticks_left (mi_issue dev m MI_CMD_READ) = 1" "mi_units (mi_issue dev m MI_CMD_READ) = mi_units m"
    "mi_active_unit (mi_issue dev m MI_CMD_READ) = u"
  using assms in_range by (simp_all add: data_slot mi_do_command_def mi_selected_unit_def mi_begin_read_def mi_moving_def Let_def not_less)

lemma issue_write:
  assumes "mi_state m = MiIdle" "unat (mi_unit_select m) = u" "u < 8" "u < length (mi_units m)" "mi_units m ! u = Some d"
    "mi_count m \<noteq> 0" "unat (mi_lba m) + unat (mi_count m) \<le> unat (bd_sector_count dev d)" "length (mi_sector_buf m) = 512"
  defines "w \<equiv> mi_tick dev (mi_issue dev m MI_CMD_WRITE)"
  shows "mi_moving WriteReady w d (unat (mi_lba m)) (unat (mi_count m))"
    "mi_buf_pos w = 0" "mi_units w = mi_units m" "mi_active_unit w = u"
    "mi_unit_select w = mi_unit_select m" "mi_lba w = mi_lba m" "mi_count w = mi_count m"
  unfolding w_def using assms(1-8) in_range
  by (simp_all add: data_slot mi_do_command_def mi_selected_unit_def mi_begin_write_def mi_moving_def Let_def not_less
      mi_tick_def mi_complete_write_prepare_def)

lemma write_read_round_trip:
  assumes idle: "mi_state m = MiIdle" and u: "unat (mi_unit_select m) = u" "u < 8" "u < length (mi_units m)" "mi_units m ! u = Some d"
    and g: "good d" and n: "mi_count m \<noteq> 0" "length chunks = unat (mi_count m)" "\<forall>c \<in> set chunks. length c = 512"
    and fits: "unat (mi_lba m) + unat (mi_count m) \<le> unat (bd_sector_count dev d)" "unat (mi_lba m) + unat (mi_count m) \<le> 2 ^ 32"
    and buf: "length (mi_sector_buf m) = 512"
  defines "w \<equiv> mi_drive_write dev (mi_tick dev (mi_issue dev m MI_CMD_WRITE)) chunks"
  shows "\<exists>m' d'. mi_drive_read dev (unat (mi_count m)) (mi_issue dev w MI_CMD_READ) = (m', concat chunks) \<and>
    mi_state m' = MiIdle \<and> mi_status m' = 0 \<and> mi_units m' = (mi_units m)[u := Some d'] \<and>
    sector d' = (\<lambda>k. if unat (mi_lba m) \<le> k \<and> k < unat (mi_lba m) + length chunks then chunks ! (k - unat (mi_lba m)) else sector d k)"
proof -
  note iw = issue_write [OF idle u n(1) fits(1) buf]
  have ne: "chunks \<noteq> []" using n(1,2) by (metis list.size(3) unat_eq_zero)
  obtain d1 where w: "mi_settled (mi_tick dev (mi_issue dev m MI_CMD_WRITE)) w d1" "good d1"
    "bd_sector_count dev d1 = bd_sector_count dev d"
    "sector d1 = (\<lambda>k. if unat (mi_lba m) \<le> k \<and> k < unat (mi_lba m) + length chunks then chunks ! (k - unat (mi_lba m)) else sector d k)"
    using drive_write [OF _ iw(2) g _ _ ne n(3), of "unat (mi_lba m)"] iw(1) fits n(2) unfolding w_def by auto
  have ws: "mi_state w = MiIdle" "unat (mi_unit_select w) = u" "u < length (mi_units w)" "mi_units w ! u = Some d1"
    "mi_units w = (mi_units m)[u := Some d1]"
    "mi_count w = mi_count m" "mi_lba w = mi_lba m" "length (mi_sector_buf w) = 512"
    using w(1) iw u by (simp_all add: mi_settled_def)
  have cw: "mi_count w \<noteq> 0" "unat (mi_lba w) + unat (mi_count w) \<le> unat (bd_sector_count dev d1)"
    using ws n fits w(3) by simp_all
  note ir = issue_read [OF ws(1,2) u(2) ws(3,4) cw ws(8)]
  obtain k where k: "unat (mi_count m) = Suc k" using n(1) by (metis not0_implies_Suc unat_eq_zero)
  obtain d' m' where r: "mi_drive_read dev (Suc k) (mi_issue dev w MI_CMD_READ) =
      (m', concat (map (sector d1) [unat (mi_lba m)..<unat (mi_lba m) + Suc k]))"
      "sector d' = sector d1" "mi_settled (mi_issue dev w MI_CMD_READ) m' d'"
    using drive_read [of "mi_issue dev w MI_CMD_READ" d1 "unat (mi_lba m)" k] ir ws(6,7) k w(2,3) fits by auto
  have "map (sector d1) [unat (mi_lba m)..<unat (mi_lba m) + Suc k] = chunks"
    by (rule nth_equalityI) (use w(4) n(2) k in \<open>simp_all del: upt_Suc add_Suc_right\<close>)
  then have "mi_drive_read dev (unat (mi_count m)) (mi_issue dev w MI_CMD_READ) = (m', concat chunks)"
    using r(1) k by simp
  moreover have "mi_units m' = (mi_units m)[u := Some d']" "mi_state m' = MiIdle" "mi_status m' = 0"
    using r(3) ir(3,4) ws(5) by (simp_all add: mi_settled_def)
  ultimately show ?thesis using r(2) w(4) by auto
qed

end

text \<open>C12 [roundtrip]: The documented driver loops are correct over a file-backed disk: on an idle card with a healthy writable image
  on the selected unit and a range inside it that ends at sector 2^32 at the latest, programming a WRITE, pushing \<open>COUNT\<close> sectors through the data
  register with a tick per sector, then programming a READ and draining the same number, gives back exactly the
  bytes pushed, ends idle with a clear status, leaves every other unit alone, and of the image changes the addressed
  sectors and no other.\<close>

theorem mirage_write_read_round_trip:
  assumes "mi_inv m" "mi_state m = MiIdle" "unat (mi_unit_select m) < 8" "mi_units m ! unat (mi_unit_select m) = Some d"
    and "fbd_good d" "mi_count m \<noteq> 0" "length chunks = unat (mi_count m)" "\<forall>c \<in> set chunks. length c = 512"
    and "unat (mi_lba m) + unat (mi_count m) \<le> unat (fbd_sector_count d)" "unat (mi_lba m) + unat (mi_count m) \<le> 2 ^ 32"
  defines "w \<equiv> mi_drive_write file_dev (mi_tick file_dev (mi_issue file_dev m MI_CMD_WRITE)) chunks"
  shows "\<exists>m' d'. mi_drive_read file_dev (unat (mi_count m)) (mi_issue file_dev w MI_CMD_READ) = (m', concat chunks) \<and>
    mi_state m' = MiIdle \<and> mi_status m' = 0 \<and> mi_units m' = (mi_units m)[unat (mi_unit_select m) := Some d'] \<and>
    fbd_sector d' = (\<lambda>k. if unat (mi_lba m) \<le> k \<and> k < unat (mi_lba m) + length chunks
                         then chunks ! (k - unat (mi_lba m)) else fbd_sector d k)"
  unfolding w_def
  using file_reliable.write_read_round_trip [OF assms(2) refl assms(3) _ assms(4-8) _ assms(10)] assms(1,3,9)
  by (simp add: mi_inv_def)

text \<open>A card with a four-sector image on unit 0, programmed for two sectors at 1.\<close>

definition mi_demo_disk :: file_block_device where
  "mi_demo_disk = fbd_open \<lparr>hf_bytes = replicate 2048 0, hf_pos = 0, hf_fault = (\<lambda>_. None)\<rparr> True"

definition mi_demo_card :: "file_block_device mirage" where
  "mi_demo_card = mi_new\<lparr>mi_units := (replicate 8 None)[0 := Some mi_demo_disk], mi_lba := 1, mi_count := 2\<rparr>"

lemma mirage_write_read_round_trip_witness:
  "\<exists>m'. mi_drive_read file_dev 2 (mi_issue file_dev (mi_drive_write file_dev
      (mi_tick file_dev (mi_issue file_dev mi_demo_card MI_CMD_WRITE)) [replicate 512 0xAA, replicate 512 0x55]) MI_CMD_READ) =
    (m', replicate 512 0xAA @ replicate 512 0x55) \<and> mi_state m' = MiIdle"
proof -
  have "fbd_sector_count mi_demo_disk = 4" by (simp add: mi_demo_disk_def fbd_open_def)
  moreover from this have "fbd_good mi_demo_disk" by (simp add: fbd_good_def fbd_ok_def) (simp add: mi_demo_disk_def fbd_open_def)
  moreover have "mi_inv mi_demo_card" by (simp add: mi_inv_def mi_demo_card_def mi_new_def)
  ultimately show ?thesis
    using mirage_write_read_round_trip [of mi_demo_card mi_demo_disk "[replicate 512 0xAA, replicate 512 0x55]"]
    by (auto simp: mi_demo_card_def mi_new_def)
qed

end
