(* ===== verification/RtgBoard.thy ===== *)
theory RtgBoard
  imports AutoConfig Slots Hostblk
begin

text \<open>
  The native RTG display board of \<open>crates/machine-core/src/rtgboard.rs\<close>: a linear VRAM aperture and a register
  file through which a driver enumerates a borrowed mode catalog, stages a candidate mode and commits it.

  Shown: the overflow-checked fit test is the exact arithmetic condition; whatever a guest writes, the applied mode
  is one of the catalog's and every pixel of its frame lies inside VRAM; a commit applies the staged mode or leaves
  the current one alone.
\<close>

section \<open>Constants and data\<close>

(* src/crates/machine-core/src/rtgboard.rs:160-167 MANUFACTURER *)
definition RTG_MANUFACTURER :: u16 where [simp]: "RTG_MANUFACTURER = HB_MANUFACTURER"
(* src/crates/machine-core/src/rtgboard.rs:169-171 PRODUCT *)
definition RTG_PRODUCT :: u8 where [simp]: "RTG_PRODUCT = 4"
(* src/crates/machine-core/src/rtgboard.rs:173-176 WINDOW_BYTES *)
definition RTG_WINDOW_BYTES :: u32 where [simp]: "RTG_WINDOW_BYTES = 0x01000000"
(* src/crates/machine-core/src/rtgboard.rs:178-179 ERFF_ZORRO_III *)
definition RTG_ERFF_ZORRO_III :: u8 where [simp]: "RTG_ERFF_ZORRO_III = 0x10"
(* src/crates/machine-core/src/rtgboard.rs:180-182 ERFF_EXTENDED *)
definition RTG_ERFF_EXTENDED :: u8 where [simp]: "RTG_ERFF_EXTENDED = 0x20"
(* src/crates/machine-core/src/rtgboard.rs:184-193 VRAM_BASE *)
definition VRAM_BASE :: u32 where [simp]: "VRAM_BASE = 0x00100000"
(* src/crates/machine-core/src/rtgboard.rs:195-196 PROTOCOL_VERSION *)
definition RTG_PROTOCOL_VERSION :: u32 where [simp]: "RTG_PROTOCOL_VERSION = 1"

(* src/crates/machine-core/src/rtgboard.rs:204-206 format::RGB_565 *)
definition RGB_565 :: u8 where [simp]: "RGB_565 = 0"
(* src/crates/machine-core/src/rtgboard.rs:207-209 format::RGBX_8888 *)
definition RGBX_8888 :: u8 where [simp]: "RGBX_8888 = 1"
(* src/crates/machine-core/src/rtgboard.rs:210-212 format::BGRX_8888 *)
definition BGRX_8888 :: u8 where [simp]: "BGRX_8888 = 2"
(* src/crates/machine-core/src/rtgboard.rs:213-214 format::INVALID *)
definition FORMAT_INVALID :: u8 where [simp]: "FORMAT_INVALID = 0xFF"

(* src/crates/machine-core/src/rtgboard.rs:216-227 format::bytes_per_pixel *)
definition bytes_per_pixel :: "u8 \<Rightarrow> u32 option" where
  "bytes_per_pixel f =
     (if f = RGB_565 then Some 2 else if f = RGBX_8888 \<or> f = BGRX_8888 then Some 4 else None)"

(* src/crates/machine-core/src/rtgboard.rs:230-237 ModeDescriptor *)
record mode_descriptor =
  md_width :: u32
  md_height :: u32
  md_format :: u8

(* src/crates/machine-core/src/rtgboard.rs:243-244 reg::MODE_COUNT *)
definition RTG_MODE_COUNT :: u32 where [simp]: "RTG_MODE_COUNT = 0x00"
(* src/crates/machine-core/src/rtgboard.rs:245-249 reg::MODE_INDEX *)
definition RTG_MODE_INDEX :: u32 where [simp]: "RTG_MODE_INDEX = 0x04"
(* src/crates/machine-core/src/rtgboard.rs:250-252 reg::MODE_WIDTH *)
definition RTG_MODE_WIDTH :: u32 where [simp]: "RTG_MODE_WIDTH = 0x08"
(* src/crates/machine-core/src/rtgboard.rs:253-254 reg::MODE_HEIGHT *)
definition RTG_MODE_HEIGHT :: u32 where [simp]: "RTG_MODE_HEIGHT = 0x0C"
(* src/crates/machine-core/src/rtgboard.rs:255-257 reg::MODE_FORMAT *)
definition RTG_MODE_FORMAT :: u32 where [simp]: "RTG_MODE_FORMAT = 0x10"
(* src/crates/machine-core/src/rtgboard.rs:258-260 reg::SET_WIDTH *)
definition RTG_SET_WIDTH :: u32 where [simp]: "RTG_SET_WIDTH = 0x14"
(* src/crates/machine-core/src/rtgboard.rs:261-262 reg::SET_HEIGHT *)
definition RTG_SET_HEIGHT :: u32 where [simp]: "RTG_SET_HEIGHT = 0x18"
(* src/crates/machine-core/src/rtgboard.rs:263-265 reg::SET_FORMAT *)
definition RTG_SET_FORMAT :: u32 where [simp]: "RTG_SET_FORMAT = 0x1C"
(* src/crates/machine-core/src/rtgboard.rs:266-269 reg::SET_STRIDE *)
definition RTG_SET_STRIDE :: u32 where [simp]: "RTG_SET_STRIDE = 0x20"
(* src/crates/machine-core/src/rtgboard.rs:270-272 reg::SET_FB_OFFSET *)
definition RTG_SET_FB_OFFSET :: u32 where [simp]: "RTG_SET_FB_OFFSET = 0x24"
(* src/crates/machine-core/src/rtgboard.rs:273-276 reg::COMMIT *)
definition RTG_COMMIT :: u32 where [simp]: "RTG_COMMIT = 0x28"
(* src/crates/machine-core/src/rtgboard.rs:277-282 reg::STATUS *)
definition RTG_STATUS :: u32 where [simp]: "RTG_STATUS = 0x2C"
(* src/crates/machine-core/src/rtgboard.rs:283-285 reg::CUR_WIDTH *)
definition RTG_CUR_WIDTH :: u32 where [simp]: "RTG_CUR_WIDTH = 0x30"
(* src/crates/machine-core/src/rtgboard.rs:286-287 reg::CUR_HEIGHT *)
definition RTG_CUR_HEIGHT :: u32 where [simp]: "RTG_CUR_HEIGHT = 0x34"
(* src/crates/machine-core/src/rtgboard.rs:288-290 reg::CUR_FORMAT *)
definition RTG_CUR_FORMAT :: u32 where [simp]: "RTG_CUR_FORMAT = 0x38"
(* src/crates/machine-core/src/rtgboard.rs:291-292 reg::CUR_STRIDE *)
definition RTG_CUR_STRIDE :: u32 where [simp]: "RTG_CUR_STRIDE = 0x3C"
(* src/crates/machine-core/src/rtgboard.rs:293-295 reg::CUR_FB_OFFSET *)
definition RTG_CUR_FB_OFFSET :: u32 where [simp]: "RTG_CUR_FB_OFFSET = 0x40"
(* src/crates/machine-core/src/rtgboard.rs:296-300 reg::VRAM_BYTES *)
definition RTG_VRAM_BYTES :: u32 where [simp]: "RTG_VRAM_BYTES = 0x44"
(* src/crates/machine-core/src/rtgboard.rs:301-302 reg::VERSION *)
definition RTG_VERSION :: u32 where [simp]: "RTG_VERSION = 0x48"
(* src/crates/machine-core/src/rtgboard.rs:307-309 status::REJECTED *)
definition RTG_REJECTED :: u8 where [simp]: "RTG_REJECTED = 1"
(* src/crates/machine-core/src/rtgboard.rs:310-312 status::APPLIED *)
definition RTG_APPLIED :: u8 where [simp]: "RTG_APPLIED = 2"

(* src/crates/machine-core/src/rtgboard.rs:315-323 AppliedMode *)
record applied_mode =
  am_width :: u32
  am_height :: u32
  am_format :: u8
  am_stride :: u32
  am_fb_offset :: u32

(* src/crates/machine-core/src/rtgboard.rs:325-340 RtgBoard *)
record rtg_board =
  rtg_vram :: "u8 list"
  rtg_catalog :: "mode_descriptor list"
  rtg_mode_index :: u32
  rtg_set_width :: u32
  rtg_set_height :: u32
  rtg_set_format :: u8
  rtg_set_stride :: u32
  rtg_set_fb_offset :: u32
  rtg_status :: u8
  rtg_current :: "applied_mode option"

section \<open>Operations\<close>

(* src/crates/machine-core/src/rtgboard.rs:343-361 RtgBoard::new *)
definition rtg_new :: "u8 list \<Rightarrow> mode_descriptor list \<Rightarrow> rtg_board" where
  "rtg_new vram catalog = \<lparr>rtg_vram = vram, rtg_catalog = catalog, rtg_mode_index = 0, rtg_set_width = 0,
     rtg_set_height = 0, rtg_set_format = FORMAT_INVALID, rtg_set_stride = 0, rtg_set_fb_offset = 0, rtg_status = 0,
     rtg_current = None\<rparr>"

(* src/crates/machine-core/src/rtgboard.rs:363-378 RtgBoard::board_spec *)
definition rtg_board_spec :: board_spec where
  "rtg_board_spec = \<lparr>board_type = ERT_ZORROIII, product = RTG_PRODUCT, flags = RTG_ERFF_ZORRO_III OR RTG_ERFF_EXTENDED,
     manufacturer = RTG_MANUFACTURER, serial = 0, init_diag_vec = 0, size_bytes = RTG_WINDOW_BYTES\<rparr>"

(* src/crates/machine-core/src/rtgboard.rs:388-396 RtgBoard::current_mode *)
definition rtg_current_mode :: "rtg_board \<Rightarrow> (u32 \<times> u32 \<times> u8 \<times> u32 \<times> u32) option" where
  "rtg_current_mode b = map_option (\<lambda>m. (am_width m, am_height m, am_format m, am_stride m, am_fb_offset m)) (rtg_current b)"

(* src/crates/machine-core/src/rtgboard.rs:429-458 RtgBoard::mode_fits *)
definition mode_fits :: "u32 \<Rightarrow> u8 \<Rightarrow> u32 \<Rightarrow> u32 \<Rightarrow> u32 \<Rightarrow> u32 \<Rightarrow> bool" where
  "mode_fits width fmt stride fb_offset height vram_len =
     (case bytes_per_pixel fmt of None \<Rightarrow> False
      | Some bpp \<Rightarrow> (case checked_mul_u32 width bpp of None \<Rightarrow> False
      | Some row_bytes \<Rightarrow> if stride < row_bytes then False
          else (case checked_mul_u32 height stride of None \<Rightarrow> False
      | Some span \<Rightarrow> (case checked_add_u32 fb_offset span of None \<Rightarrow> False
      | Some end \<Rightarrow> end \<le> vram_len))))"

(* src/crates/machine-core/src/rtgboard.rs:398-427 RtgBoard::commit *)
definition rtg_commit :: "rtg_board \<Rightarrow> rtg_board" where
  "rtg_commit b =
     (let ok = list_ex (\<lambda>m. md_width m = rtg_set_width b \<and> md_height m = rtg_set_height b \<and> md_format m = rtg_set_format b)
                 (rtg_catalog b) \<and>
               mode_fits (rtg_set_width b) (rtg_set_format b) (rtg_set_stride b) (rtg_set_fb_offset b) (rtg_set_height b)
                 (of_nat (length (rtg_vram b)))
      in if ok then b\<lparr>rtg_current := Some \<lparr>am_width = rtg_set_width b, am_height = rtg_set_height b,
             am_format = rtg_set_format b, am_stride = rtg_set_stride b, am_fb_offset = rtg_set_fb_offset b\<rparr>,
             rtg_status := RTG_APPLIED\<rparr>
         else b\<lparr>rtg_status := RTG_REJECTED\<rparr>)"

(* src/crates/machine-core/src/rtgboard.rs:567-574 RtgBoard::catalog_entry *)
definition rtg_catalog_entry :: "rtg_board \<Rightarrow> mode_descriptor option" where
  "rtg_catalog_entry b =
     (if unat (rtg_mode_index b) < length (rtg_catalog b) then Some (rtg_catalog b ! unat (rtg_mode_index b)) else None)"

text \<open>\<open>Option::map(..).unwrap_or(..)\<close>.\<close>

definition map_or :: "'b \<Rightarrow> ('a \<Rightarrow> 'b) \<Rightarrow> 'a option \<Rightarrow> 'b" where
  "map_or d f x = (case x of None \<Rightarrow> d | Some y \<Rightarrow> f y)"

text \<open>The guard \<open>(VRAM_BASE..VRAM_BASE.saturating_add(self.vram.len() as u32)).contains(&o)\<close> of \<open>read\<close> and \<open>write\<close>.\<close>

(* src/crates/machine-core/src/rtgboard.rs:521-523 RtgBoard::read *)
definition in_vram :: "rtg_board \<Rightarrow> u32 \<Rightarrow> bool" where
  "in_vram b offset \<longleftrightarrow> VRAM_BASE \<le> offset \<and> offset < saturating_add_u32 VRAM_BASE (of_nat (length (rtg_vram b)))"

(* src/crates/machine-core/src/rtgboard.rs:460-526 RtgBoard::read *)
definition rtg_read :: "rtg_board \<Rightarrow> u32 \<Rightarrow> u8" where
  "rtg_read b off =
     (if in_slot off RTG_MODE_COUNT then byte_of (of_nat (length (rtg_catalog b))) (off - RTG_MODE_COUNT)
      else if in_slot off RTG_MODE_INDEX then 0
      else if in_slot off RTG_MODE_WIDTH then byte_of (map_or 0 md_width (rtg_catalog_entry b)) (off - RTG_MODE_WIDTH)
      else if in_slot off RTG_MODE_HEIGHT then byte_of (map_or 0 md_height (rtg_catalog_entry b)) (off - RTG_MODE_HEIGHT)
      else if in_slot off RTG_MODE_FORMAT then low_byte off RTG_MODE_FORMAT (map_or FORMAT_INVALID md_format (rtg_catalog_entry b))
      else if in_slot off RTG_SET_WIDTH then byte_of (rtg_set_width b) (off - RTG_SET_WIDTH)
      else if in_slot off RTG_SET_HEIGHT then byte_of (rtg_set_height b) (off - RTG_SET_HEIGHT)
      else if in_slot off RTG_SET_FORMAT then low_byte off RTG_SET_FORMAT (rtg_set_format b)
      else if in_slot off RTG_SET_STRIDE then byte_of (rtg_set_stride b) (off - RTG_SET_STRIDE)
      else if in_slot off RTG_SET_FB_OFFSET then byte_of (rtg_set_fb_offset b) (off - RTG_SET_FB_OFFSET)
      else if in_slot off RTG_COMMIT then 0
      else if in_slot off RTG_STATUS then low_byte off RTG_STATUS (rtg_status b)
      else if in_slot off RTG_CUR_WIDTH then byte_of (map_or 0 am_width (rtg_current b)) (off - RTG_CUR_WIDTH)
      else if in_slot off RTG_CUR_HEIGHT then byte_of (map_or 0 am_height (rtg_current b)) (off - RTG_CUR_HEIGHT)
      else if in_slot off RTG_CUR_FORMAT then low_byte off RTG_CUR_FORMAT (map_or FORMAT_INVALID am_format (rtg_current b))
      else if in_slot off RTG_CUR_STRIDE then byte_of (map_or 0 am_stride (rtg_current b)) (off - RTG_CUR_STRIDE)
      else if in_slot off RTG_CUR_FB_OFFSET then byte_of (map_or 0 am_fb_offset (rtg_current b)) (off - RTG_CUR_FB_OFFSET)
      else if in_slot off RTG_VRAM_BYTES then byte_of (of_nat (length (rtg_vram b))) (off - RTG_VRAM_BYTES)
      else if in_slot off RTG_VERSION then byte_of RTG_PROTOCOL_VERSION (off - RTG_VERSION)
      else if in_vram b off then rtg_vram b ! unat (off - VRAM_BASE)
      else 0)"

(* src/crates/machine-core/src/rtgboard.rs:528-565 RtgBoard::write *)
definition rtg_write :: "rtg_board \<Rightarrow> u32 \<Rightarrow> u8 \<Rightarrow> rtg_board" where
  "rtg_write b off value =
     (if in_slot off RTG_MODE_INDEX \<and> off - RTG_MODE_INDEX = 3 then b\<lparr>rtg_mode_index := ucast value\<rparr>
      else if in_slot off RTG_MODE_INDEX then b
      else if in_slot off RTG_SET_WIDTH then b\<lparr>rtg_set_width := set_byte_of (rtg_set_width b) (off - RTG_SET_WIDTH) value\<rparr>
      else if in_slot off RTG_SET_HEIGHT then b\<lparr>rtg_set_height := set_byte_of (rtg_set_height b) (off - RTG_SET_HEIGHT) value\<rparr>
      else if in_slot off RTG_SET_FORMAT \<and> off - RTG_SET_FORMAT = 3 then b\<lparr>rtg_set_format := value\<rparr>
      else if in_slot off RTG_SET_FORMAT then b
      else if in_slot off RTG_SET_STRIDE then b\<lparr>rtg_set_stride := set_byte_of (rtg_set_stride b) (off - RTG_SET_STRIDE) value\<rparr>
      else if in_slot off RTG_SET_FB_OFFSET then
        b\<lparr>rtg_set_fb_offset := set_byte_of (rtg_set_fb_offset b) (off - RTG_SET_FB_OFFSET) value\<rparr>
      else if in_slot off RTG_COMMIT \<and> off - RTG_COMMIT = 3 then rtg_commit b
      else if in_slot off RTG_COMMIT then b
      else if in_slot off RTG_STATUS \<and> off - RTG_STATUS = 3 then b\<lparr>rtg_status := rtg_status b AND NOT value\<rparr>
      else if in_slot off RTG_STATUS then b
      else if in_vram b off then b\<lparr>rtg_vram := (rtg_vram b)[unat (off - VRAM_BASE) := value]\<rparr>
      else b)"


section \<open>What a commit accepts\<close>

lemma mode_fits_exact:
  "mode_fits width fmt stride fb_offset height vram_len \<longleftrightarrow>
     (\<exists>bpp. bytes_per_pixel fmt = Some bpp \<and> unat width * unat bpp \<le> unat stride \<and>
       unat fb_offset + unat height * unat stride \<le> unat vram_len)"
proof (cases "bytes_per_pixel fmt")
  case None
  then show ?thesis by (simp add: mode_fits_def)
next
  case (Some bpp)
  show ?thesis
  proof
    assume "mode_fits width fmt stride fb_offset height vram_len"
    then obtain row span fin where "checked_mul_u32 width bpp = Some row" "\<not> stride < row"
      "checked_mul_u32 height stride = Some span" "checked_add_u32 fb_offset span = Some fin" "fin \<le> vram_len"
      using Some by (auto simp: mode_fits_def split: option.splits if_splits)
    then show "\<exists>bpp. bytes_per_pixel fmt = Some bpp \<and> unat width * unat bpp \<le> unat stride \<and>
       unat fb_offset + unat height * unat stride \<le> unat vram_len"
      using Some by (simp add: checked_mul_u32_Some checked_add_u32_Some not_less word_le_nat_alt)
  next
    assume "\<exists>bpp. bytes_per_pixel fmt = Some bpp \<and> unat width * unat bpp \<le> unat stride \<and>
       unat fb_offset + unat height * unat stride \<le> unat vram_len"
    then have a: "unat width * unat bpp \<le> unat stride" "unat fb_offset + unat height * unat stride \<le> unat vram_len"
      using Some by auto
    have "unat stride < 2 ^ 32" "unat vram_len < 2 ^ 32" using unat_lt2p_of [of stride] unat_lt2p_of [of vram_len] by simp_all
    then have lt: "unat width * unat bpp < 2 ^ 32" "unat height * unat stride < 2 ^ 32"
        "unat fb_offset + unat height * unat stride < 2 ^ 32"
      using a by linarith+
    then have "unat (width * bpp) = unat width * unat bpp" "unat (height * stride) = unat height * unat stride"
      by (simp_all add: unat_word_ariths)
    then show "mode_fits width fmt stride fb_offset height vram_len"
      using Some a lt by (simp add: mode_fits_def checked_mul_u32_def checked_add_u32_def word_le_nat_alt word_less_nat_alt unat_word_ariths)
  qed
qed

lemma unat_of_nat_le: "unat (of_nat n :: 'a::len word) \<le> n"
  by (simp add: unat_of_nat take_bit_nat_eq_self_iff take_bit_nat_less_eq_self)

text \<open>A mode whose every pixel lies in a VRAM of \<open>n\<close> bytes, and that the catalog lists.\<close>

definition frame_inside :: "applied_mode \<Rightarrow> nat \<Rightarrow> bool" where
  "frame_inside m n \<longleftrightarrow>
     (\<exists>bpp. bytes_per_pixel (am_format m) = Some bpp \<and> unat (am_width m) * unat bpp \<le> unat (am_stride m) \<and>
        unat (am_fb_offset m) + unat (am_height m) * unat (am_stride m) \<le> n)"

definition listed :: "applied_mode \<Rightarrow> mode_descriptor list \<Rightarrow> bool" where
  "listed m cat \<longleftrightarrow> \<lparr>md_width = am_width m, md_height = am_height m, md_format = am_format m\<rparr> \<in> set cat"

lemma listed_iff:
  "list_ex (\<lambda>d. md_width d = am_width m \<and> md_height d = am_height m \<and> md_format d = am_format m) cat \<longleftrightarrow> listed m cat"
proof -
  have "md_width d = w \<and> md_height d = h \<and> md_format d = f \<longleftrightarrow> d = \<lparr>md_width = w, md_height = h, md_format = f\<rparr>" for d :: mode_descriptor and w h f
    by (cases d) simp
  then show ?thesis by (simp add: list_ex_iff listed_def)
qed

lemma pixel_inside:
  assumes "frame_inside m n" "x < unat (am_width m)" "y < unat (am_height m)" "bytes_per_pixel (am_format m) = Some bpp"
  shows "unat (am_fb_offset m) + y * unat (am_stride m) + x * unat bpp + unat bpp \<le> n"
proof -
  have f: "unat (am_width m) * unat bpp \<le> unat (am_stride m)"
      "unat (am_fb_offset m) + unat (am_height m) * unat (am_stride m) \<le> n"
    using assms(1,4) by (auto simp: frame_inside_def)
  have "Suc x * unat bpp \<le> unat (am_width m) * unat bpp" "Suc y * unat (am_stride m) \<le> unat (am_height m) * unat (am_stride m)"
    using assms(2,3) by (intro mult_le_mono1; simp)+
  then show ?thesis using f by simp
qed

definition rtg_ok :: "nat \<Rightarrow> mode_descriptor list \<Rightarrow> rtg_board \<Rightarrow> bool" where
  "rtg_ok n cat b \<longleftrightarrow> length (rtg_vram b) = n \<and> rtg_catalog b = cat \<and>
     (\<forall>m. rtg_current b = Some m \<longrightarrow> listed m cat \<and> frame_inside m n)"

lemma rtg_ok_commit: "rtg_ok n cat b \<Longrightarrow> rtg_ok n cat (rtg_commit b)"
proof -
  assume ok: "rtg_ok n cat b"
  have "unat (of_nat n :: u32) \<le> n" by (rule unat_of_nat_le)
  then have "mode_fits w f s off h (of_nat n) \<Longrightarrow>
      frame_inside \<lparr>am_width = w, am_height = h, am_format = f, am_stride = s, am_fb_offset = off\<rparr> n" for w f s off h
    unfolding mode_fits_exact frame_inside_def by (auto intro: order_trans)
  moreover have "list_ex (\<lambda>m. md_width m = w \<and> md_height m = h \<and> md_format m = f) cat \<Longrightarrow>
      listed \<lparr>am_width = w, am_height = h, am_format = f, am_stride = s, am_fb_offset = off\<rparr> cat" for w f s off h
    by (simp flip: listed_iff)
  ultimately show ?thesis using ok by (auto simp: rtg_ok_def rtg_commit_def Let_def)
qed

lemma rtg_ok_regs:
  "rtg_ok n cat (b\<lparr>rtg_mode_index := x1\<rparr>) = rtg_ok n cat b" "rtg_ok n cat (b\<lparr>rtg_set_width := x2\<rparr>) = rtg_ok n cat b"
  "rtg_ok n cat (b\<lparr>rtg_set_height := x3\<rparr>) = rtg_ok n cat b" "rtg_ok n cat (b\<lparr>rtg_set_format := x4\<rparr>) = rtg_ok n cat b"
  "rtg_ok n cat (b\<lparr>rtg_set_stride := x5\<rparr>) = rtg_ok n cat b" "rtg_ok n cat (b\<lparr>rtg_set_fb_offset := x6\<rparr>) = rtg_ok n cat b"
  "rtg_ok n cat (b\<lparr>rtg_status := x7\<rparr>) = rtg_ok n cat b"
  "rtg_ok n cat (b\<lparr>rtg_vram := (rtg_vram b)[i := v]\<rparr>) = rtg_ok n cat b"
  by (simp_all add: rtg_ok_def)

lemma rtg_ok_write [inv_intros]: "rtg_ok n cat b \<Longrightarrow> rtg_ok n cat (rtg_write b off v)"
  by (simp add: rtg_write_def rtg_ok_commit rtg_ok_regs)

definition rtg_writes :: "rtg_board \<Rightarrow> (u32 \<times> u8) list \<Rightarrow> rtg_board" where
  "rtg_writes = foldl (\<lambda>b (off, v). rtg_write b off v)"

lemma rtg_ok_writes: "rtg_ok n cat b \<Longrightarrow> rtg_ok n cat (rtg_writes b ws)"
  by (induction ws arbitrary: b) (auto simp: rtg_writes_def intro: rtg_ok_write)

text \<open>Whatever bytes a guest writes to the board, in any order, the applied mode is always one the host's catalog
  lists and every byte of every one of its pixels lies inside the attached VRAM, so a present path walking the frame
  never leaves the buffer.\<close>

lemma rtg_frame_always_in_vram:
  assumes "rtg_current (rtg_writes (rtg_new vram cat) ws) = Some m"
    and "x < unat (am_width m)" "y < unat (am_height m)" "bytes_per_pixel (am_format m) = Some bpp"
  shows "listed m cat \<and>
    unat (am_fb_offset m) + y * unat (am_stride m) + x * unat bpp + unat bpp \<le> length (rtg_vram (rtg_writes (rtg_new vram cat) ws))"
proof -
  have "rtg_ok (length vram) cat (rtg_new vram cat)" by (simp add: rtg_ok_def rtg_new_def)
  from rtg_ok_writes [OF this, of ws] show ?thesis
    using assms pixel_inside by (auto simp: rtg_ok_def)
qed

text \<open>The two byte writes that commit a staged 4 by 2 mode.\<close>

lemma rtg_frame_always_in_vram_witness:
  "\<exists>m. rtg_current (rtg_writes (rtg_new (replicate 64 0) [\<lparr>md_width = 4, md_height = 2, md_format = 1\<rparr>])
      [(0x17, 4), (0x1B, 2), (0x1F, 1), (0x23, 20), (0x27, 24), (0x2B, 1)]) = Some m \<and> listed m [\<lparr>md_width = 4, md_height = 2, md_format = 1\<rparr>] \<and>
    unat (am_fb_offset m) + 1 * unat (am_stride m) + 3 * 4 + 4 \<le>
      length (rtg_vram (rtg_writes (rtg_new (replicate 64 0) [\<lparr>md_width = 4, md_height = 2, md_format = 1\<rparr>])
      [(0x17, 4), (0x1B, 2), (0x1F, 1), (0x23, 20), (0x27, 24), (0x2B, 1)]))"
proof -
  let ?m = "\<lparr>am_width = 4, am_height = 2, am_format = 1, am_stride = 20, am_fb_offset = 24\<rparr>"
  let ?b = "rtg_writes (rtg_new (replicate 64 0) [\<lparr>md_width = 4, md_height = 2, md_format = 1\<rparr>])
      [(0x17, 4), (0x1B, 2), (0x1F, 1), (0x23, 20), (0x27, 24), (0x2B, 1)]"
  have "rtg_current ?b = Some ?m"
    by (simp add: rtg_writes_def rtg_new_def rtg_write_def in_slot_def set_byte_of_def rtg_commit_def mode_fits_def bytes_per_pixel_def
        checked_mul_u32_def checked_add_u32_def Let_def)
  moreover from rtg_frame_always_in_vram [OF this, of 3 1 4] have "listed ?m [\<lparr>md_width = 4, md_height = 2, md_format = 1\<rparr>] \<and>
      unat (am_fb_offset ?m) + 1 * unat (am_stride ?m) + 3 * 4 + 4 \<le> length (rtg_vram ?b)"
    by (simp add: bytes_per_pixel_def)
  ultimately show ?thesis by blast
qed

section \<open>Programming a mode through the registers\<close>

text \<open>A driver stores a longword as its four byte lanes.\<close>

definition store32 :: "u32 \<Rightarrow> u32 \<Rightarrow> (u32 \<times> u8) list" where
  "store32 reg v = map (\<lambda>i. (reg + of_nat i, byte_of v (of_nat i))) [0..<4]"

definition program_mode :: "applied_mode \<Rightarrow> (u32 \<times> u8) list" where
  "program_mode m = store32 RTG_SET_WIDTH (am_width m) @ store32 RTG_SET_HEIGHT (am_height m) @
     [(RTG_SET_FORMAT + 3, am_format m)] @ store32 RTG_SET_STRIDE (am_stride m) @
     store32 RTG_SET_FB_OFFSET (am_fb_offset m) @ [(RTG_COMMIT + 3, 1)]"

lemma set_bytes_all: "set_byte_of (set_byte_of (set_byte_of (set_byte_of w 0 (byte_of v 0)) 1 (byte_of v 1)) 2 (byte_of v 2)) 3 (byte_of v 3) = v"
proof (rule bit_word_eqI)
  fix k assume "k < LENGTH(32)"
  then show "bit (set_byte_of (set_byte_of (set_byte_of (set_byte_of w 0 (byte_of v 0)) 1 (byte_of v 1)) 2 (byte_of v 2)) 3 (byte_of v 3)) k = bit v k"
    by (auto simp: bit_set_byte_of bit_byte_of)
qed

lemma rtg_writes_append: "rtg_writes b (xs @ ys) = rtg_writes (rtg_writes b xs) ys"
  by (simp add: rtg_writes_def)

lemma store32_effect:
  "rtg_writes b (store32 RTG_SET_WIDTH v) = b\<lparr>rtg_set_width := v\<rparr>"
  "rtg_writes b (store32 RTG_SET_HEIGHT v) = b\<lparr>rtg_set_height := v\<rparr>"
  "rtg_writes b (store32 RTG_SET_STRIDE v) = b\<lparr>rtg_set_stride := v\<rparr>"
  "rtg_writes b (store32 RTG_SET_FB_OFFSET v) = b\<lparr>rtg_set_fb_offset := v\<rparr>"
  by (simp_all add: rtg_writes_def store32_def upt_rec rtg_write_def in_slot_def set_bytes_all)

text \<open>Programming a mode through the byte-wide registers and committing applies it exactly when the catalog lists it,
  its format is known, a row fits in the stride and the frame fits in VRAM, all in unbounded arithmetic: no
  combination of register values can wrap its way in. The status register says which, and a refused mode leaves the
  applied one as it was.\<close>

lemma rtg_program_mode_exact:
  assumes "length (rtg_vram b) < 2 ^ 32"
  shows "(if listed m (rtg_catalog b) \<and> frame_inside m (length (rtg_vram b))
          then rtg_current (rtg_writes b (program_mode m)) = Some m \<and> rtg_status (rtg_writes b (program_mode m)) = RTG_APPLIED
          else rtg_current (rtg_writes b (program_mode m)) = rtg_current b \<and> rtg_status (rtg_writes b (program_mode m)) = RTG_REJECTED) \<and>
    rtg_vram (rtg_writes b (program_mode m)) = rtg_vram b"
proof -
  let ?s = "b\<lparr>rtg_set_width := am_width m, rtg_set_height := am_height m, rtg_set_format := am_format m,
    rtg_set_stride := am_stride m, rtg_set_fb_offset := am_fb_offset m\<rparr>"
  have "rtg_writes b (program_mode m) = rtg_writes (rtg_writes ((rtg_writes b [])\<lparr>rtg_set_width := am_width m, rtg_set_height := am_height m\<rparr>)
      [(RTG_SET_FORMAT + 3, am_format m)]) (store32 RTG_SET_STRIDE (am_stride m) @ store32 RTG_SET_FB_OFFSET (am_fb_offset m) @ [(RTG_COMMIT + 3, 1)])"
    by (simp only: program_mode_def rtg_writes_append store32_effect) (simp add: rtg_writes_def)
  also have "rtg_writes ((rtg_writes b [])\<lparr>rtg_set_width := am_width m, rtg_set_height := am_height m\<rparr>) [(RTG_SET_FORMAT + 3, am_format m)] =
      b\<lparr>rtg_set_width := am_width m, rtg_set_height := am_height m, rtg_set_format := am_format m\<rparr>"
    by (simp add: rtg_writes_def rtg_write_def in_slot_def)
  also have "rtg_writes \<dots> (store32 RTG_SET_STRIDE (am_stride m) @ store32 RTG_SET_FB_OFFSET (am_fb_offset m) @ [(RTG_COMMIT + 3, 1)]) =
      rtg_writes ?s [(RTG_COMMIT + 3, 1)]"
    by (simp only: rtg_writes_append store32_effect)
  also have "\<dots> = rtg_commit ?s"
    by (simp add: rtg_writes_def rtg_write_def in_slot_def)
  finally have e: "rtg_writes b (program_mode m) = rtg_commit ?s" .
  have f: "mode_fits (am_width m) (am_format m) (am_stride m) (am_fb_offset m) (am_height m) (of_nat (length (rtg_vram b))) \<longleftrightarrow>
      frame_inside m (length (rtg_vram b))"
    using assms by (simp add: mode_fits_exact frame_inside_def unat_of_nat_less)
  show ?thesis unfolding e by (simp add: rtg_commit_def Let_def listed_iff f)
qed

text \<open>A board with a one-entry catalog, as the hosted machine builds it.\<close>

definition rtg_demo :: rtg_board where
  "rtg_demo = rtg_new (replicate 64 0) [\<lparr>md_width = 4, md_height = 2, md_format = RGBX_8888\<rparr>]"

definition rtg_demo_mode :: applied_mode where
  "rtg_demo_mode = \<lparr>am_width = 4, am_height = 2, am_format = RGBX_8888, am_stride = 20, am_fb_offset = 24\<rparr>"

lemma rtg_program_mode_exact_witness: "rtg_current (rtg_writes rtg_demo (program_mode rtg_demo_mode)) = Some rtg_demo_mode"
  using rtg_program_mode_exact [of rtg_demo rtg_demo_mode]
  by (simp add: rtg_demo_def rtg_demo_mode_def rtg_new_def listed_def frame_inside_def bytes_per_pixel_def)

end
