(* ===== verification/Pci.thy ===== *)
theory Pci
  imports GuestMem
begin

text \<open>
  The PCI side of \<open>crates/machine-core/src/pci.rs\<close>: the backend and device traits as records of operations, the
  virtual bus that routes configuration cycles by exact address and memory cycles by BAR window, the configuration
  space every virtual device embeds, and the host bridge and the two diagnostic devices.

  Shown: a configuration space keeps its identity whatever is written to it; the firmware sizing probe and the
  assignment that follows give exactly the window that was asked for.
\<close>

section \<open>Addresses, widths and the traits\<close>

(* src/crates/machine-core/src/pci.rs:85-100 Bdf *)
record bdf =
  bdf_bus :: u8
  bdf_device :: u8
  bdf_function :: u8

(* src/crates/machine-core/src/pci.rs:102-108 AccessWidth *)
datatype access_width = W8 | W16 | W32

(* src/crates/machine-core/src/pci.rs:111-118 AccessWidth::bytes *)
fun aw_bytes :: "access_width \<Rightarrow> u32" where
  "aw_bytes W8 = 1" | "aw_bytes W16 = 2" | "aw_bytes W32 = 4"

(* src/crates/machine-core/src/pci.rs:120-130 AccessWidth::from_bytes *)
definition aw_from_bytes :: "u8 \<Rightarrow> access_width option" where
  "aw_from_bytes n = (if n = 1 then Some W8 else if n = 2 then Some W16 else if n = 4 then Some W32 else None)"

(* src/crates/machine-core/src/pci.rs:178-228 PciBackend *)
record 'b pci_backend =
  pb_config_read :: "'b \<Rightarrow> bdf \<Rightarrow> u16 \<Rightarrow> access_width \<Rightarrow> 'b \<times> u32"
  pb_config_write :: "'b \<Rightarrow> bdf \<Rightarrow> u16 \<Rightarrow> access_width \<Rightarrow> u32 \<Rightarrow> 'b"
  pb_mem_read :: "'b \<Rightarrow> u64 \<Rightarrow> access_width \<Rightarrow> 'b \<times> u32"
  pb_mem_write :: "'b \<Rightarrow> u64 \<Rightarrow> access_width \<Rightarrow> u32 \<Rightarrow> 'b"
  pb_intx_levels :: "'b \<Rightarrow> 'b \<times> u32"
  pb_tick :: "'b \<Rightarrow> guest_ram \<Rightarrow> 'b \<times> guest_ram"

(* src/crates/machine-core/src/pci.rs:230-292 PciDevice *)
record 'v pci_device =
  pd_config_read :: "'v \<Rightarrow> u16 \<Rightarrow> access_width \<Rightarrow> 'v \<times> u32"
  pd_config_write :: "'v \<Rightarrow> u16 \<Rightarrow> access_width \<Rightarrow> u32 \<Rightarrow> 'v"
  pd_bar_window :: "'v \<Rightarrow> nat \<Rightarrow> (u64 \<times> u64) option"
  pd_bar_read :: "'v \<Rightarrow> nat \<Rightarrow> u64 \<Rightarrow> access_width \<Rightarrow> 'v \<times> u32"
  pd_bar_write :: "'v \<Rightarrow> nat \<Rightarrow> u64 \<Rightarrow> access_width \<Rightarrow> u32 \<Rightarrow> 'v"
  pd_intx_level :: "'v \<Rightarrow> bool"
  pd_tick :: "'v \<Rightarrow> guest_ram \<Rightarrow> 'v \<times> guest_ram"

(* src/crates/machine-core/src/pci.rs:257-264 PciDevice::bar_read *)
definition default_bar_read :: "'v \<Rightarrow> nat \<Rightarrow> u64 \<Rightarrow> access_width \<Rightarrow> 'v \<times> u32" where
  "default_bar_read d bar offset width = (d, 0xFFFFFFFF)"

(* src/crates/machine-core/src/pci.rs:266-270 PciDevice::bar_write *)
definition default_bar_write :: "'v \<Rightarrow> nat \<Rightarrow> u64 \<Rightarrow> access_width \<Rightarrow> u32 \<Rightarrow> 'v" where
  "default_bar_write d bar offset width value = d"

(* src/crates/machine-core/src/pci.rs:284-291 PciDevice::tick *)
definition default_tick :: "'v \<Rightarrow> guest_ram \<Rightarrow> 'v \<times> guest_ram" where
  "default_tick d mem = (d, mem)"

(* src/crates/machine-core/src/pci.rs:715-726 all_ones *)
fun all_ones :: "access_width \<Rightarrow> u32" where
  "all_ones W8 = 0xFF" | "all_ones W16 = 0xFFFF" | "all_ones W32 = 0xFFFFFFFF"

section \<open>The virtual bus\<close>

(* src/crates/machine-core/src/pci.rs:294-299 VirtualSlot *)
record 'v virtual_slot =
  vs_bdf :: bdf
  vs_device :: 'v

text \<open>
  \<open>VirtualPciBus\<close> is its slot list. \<open>find_mut\<close> and the two routing loops are written as recursion over the
  slots; the helper \<open>bar_hit\<close> is the inner loop over the six BARs.
\<close>

(* src/crates/machine-core/src/pci.rs:334-339 VirtualPciBus::config_read *)
fun vpb_config_read :: "'v pci_device \<Rightarrow> 'v virtual_slot list \<Rightarrow> bdf \<Rightarrow> u16 \<Rightarrow> access_width \<Rightarrow> 'v virtual_slot list \<times> u32" where
  "vpb_config_read ops [] b offset width = ([], all_ones width)"
| "vpb_config_read ops (s # ss) b offset width =
     (if vs_bdf s = b then let (d, v) = pd_config_read ops (vs_device s) offset width in (s\<lparr>vs_device := d\<rparr> # ss, v)
      else let (ss', v) = vpb_config_read ops ss b offset width in (s # ss', v))"

(* src/crates/machine-core/src/pci.rs:341-345 VirtualPciBus::config_write *)
fun vpb_config_write :: "'v pci_device \<Rightarrow> 'v virtual_slot list \<Rightarrow> bdf \<Rightarrow> u16 \<Rightarrow> access_width \<Rightarrow> u32 \<Rightarrow> 'v virtual_slot list" where
  "vpb_config_write ops [] b offset width value = []"
| "vpb_config_write ops (s # ss) b offset width value =
     (if vs_bdf s = b then s\<lparr>vs_device := pd_config_write ops (vs_device s) offset width value\<rparr> # ss
      else s # vpb_config_write ops ss b offset width value)"

(* src/crates/machine-core/src/pci.rs:349-361 VirtualPciBus::mem_read *)
fun bar_hit :: "'v pci_device \<Rightarrow> 'v \<Rightarrow> u64 \<Rightarrow> nat list \<Rightarrow> (nat \<times> u64) option" where
  "bar_hit ops d addr [] = None"
| "bar_hit ops d addr (bar # bars) =
     (case pd_bar_window ops d bar of
        Some (base, len) \<Rightarrow> if base \<le> addr \<and> addr - base < len then Some (bar, addr - base) else bar_hit ops d addr bars
      | None \<Rightarrow> bar_hit ops d addr bars)"

(* src/crates/machine-core/src/pci.rs:347-364 VirtualPciBus::mem_read *)
fun vpb_mem_read :: "'v pci_device \<Rightarrow> 'v virtual_slot list \<Rightarrow> u64 \<Rightarrow> access_width \<Rightarrow> 'v virtual_slot list \<times> u32" where
  "vpb_mem_read ops [] addr width = ([], all_ones width)"
| "vpb_mem_read ops (s # ss) addr width =
     (case bar_hit ops (vs_device s) addr [0..<6] of
        Some (bar, rel) \<Rightarrow> let (d, v) = pd_bar_read ops (vs_device s) bar rel width in (s\<lparr>vs_device := d\<rparr> # ss, v)
      | None \<Rightarrow> let (ss', v) = vpb_mem_read ops ss addr width in (s # ss', v))"

(* src/crates/machine-core/src/pci.rs:366-379 VirtualPciBus::mem_write *)
fun vpb_mem_write :: "'v pci_device \<Rightarrow> 'v virtual_slot list \<Rightarrow> u64 \<Rightarrow> access_width \<Rightarrow> u32 \<Rightarrow> 'v virtual_slot list" where
  "vpb_mem_write ops [] addr width value = []"
| "vpb_mem_write ops (s # ss) addr width value =
     (case bar_hit ops (vs_device s) addr [0..<6] of
        Some (bar, rel) \<Rightarrow> s\<lparr>vs_device := pd_bar_write ops (vs_device s) bar rel width value\<rparr> # ss
      | None \<Rightarrow> s # vpb_mem_write ops ss addr width value)"

(* src/crates/machine-core/src/pci.rs:483-483 off::INTERRUPT_PIN *)
definition OFF_INTERRUPT_PIN :: u16 where [simp]: "OFF_INTERRUPT_PIN = 0x3D"

(* src/crates/machine-core/src/pci.rs:381-401 VirtualPciBus::intx_levels *)
fun vpb_intx_levels :: "'v pci_device \<Rightarrow> 'v virtual_slot list \<Rightarrow> 'v virtual_slot list \<times> u32" where
  "vpb_intx_levels ops [] = ([], 0)"
| "vpb_intx_levels ops (s # ss) =
     (if \<not> pd_intx_level ops (vs_device s) then let (ss', l) = vpb_intx_levels ops ss in (s # ss', l)
      else
        let (d, v) = pd_config_read ops (vs_device s) OFF_INTERRUPT_PIN W8;
            pin = ucast v :: u8;
            (ss', l) = vpb_intx_levels ops ss
        in (s\<lparr>vs_device := d\<rparr> # ss', (if 1 \<le> pin \<and> pin \<le> 4 then push_bit (unat (pin - 1)) 1 else 0) OR l))"

(* src/crates/machine-core/src/pci.rs:403-411 VirtualPciBus::tick *)
fun vpb_tick :: "'v pci_device \<Rightarrow> 'v virtual_slot list \<Rightarrow> guest_ram \<Rightarrow> 'v virtual_slot list \<times> guest_ram" where
  "vpb_tick ops [] mem = ([], mem)"
| "vpb_tick ops (s # ss) mem =
     (let (d, mem1) = pd_tick ops (vs_device s) mem; (ss', mem2) = vpb_tick ops ss mem1 in (s\<lparr>vs_device := d\<rparr> # ss', mem2))"

(* src/crates/machine-core/src/pci.rs:301-311 VirtualPciBus *)
definition virtual_pci_bus :: "'v pci_device \<Rightarrow> 'v virtual_slot list pci_backend" where
  "virtual_pci_bus ops = \<lparr>pb_config_read = vpb_config_read ops, pb_config_write = vpb_config_write ops,
     pb_mem_read = vpb_mem_read ops, pb_mem_write = vpb_mem_write ops, pb_intx_levels = vpb_intx_levels ops,
     pb_tick = vpb_tick ops\<rparr>"

section \<open>Configuration space\<close>

(* src/crates/machine-core/src/pci.rs:414-426 BarKind *)
datatype bar_kind = BarNone | Mem32 u32

(* src/crates/machine-core/src/pci.rs:428-448 ConfigSpaceIdentity *)
record config_space_identity =
  id_vendor_id :: u16
  id_device_id :: u16
  id_revision :: u8
  id_class_base :: u8
  id_class_sub :: u8
  id_prog_if :: u8
  id_subsystem_vendor :: u16
  id_subsystem_id :: u16
  id_interrupt_pin :: u8

(* src/crates/machine-core/src/pci.rs:454-454 command_bits::IO_ENABLE *)
definition IO_ENABLE :: u8 where [simp]: "IO_ENABLE = 1"
(* src/crates/machine-core/src/pci.rs:455-455 command_bits::MEMORY_ENABLE *)
definition MEMORY_ENABLE :: u8 where [simp]: "MEMORY_ENABLE = 2"
(* src/crates/machine-core/src/pci.rs:456-456 command_bits::BUS_MASTER *)
definition BUS_MASTER :: u8 where [simp]: "BUS_MASTER = 4"
(* src/crates/machine-core/src/pci.rs:457-457 command_bits::WRITABLE_MASK *)
definition WRITABLE_MASK :: u8 where [simp]: "WRITABLE_MASK = IO_ENABLE OR MEMORY_ENABLE OR BUS_MASTER"
(* src/crates/machine-core/src/pci.rs:460-462 STATUS_CAP_LIST *)
definition STATUS_CAP_LIST :: u8 where [simp]: "STATUS_CAP_LIST = 0x10"
(* src/crates/machine-core/src/pci.rs:470-470 off::VENDOR_ID *)
definition OFF_VENDOR_ID :: nat where [simp]: "OFF_VENDOR_ID = 0x00"
(* src/crates/machine-core/src/pci.rs:471-471 off::DEVICE_ID *)
definition OFF_DEVICE_ID :: nat where [simp]: "OFF_DEVICE_ID = 0x02"
(* src/crates/machine-core/src/pci.rs:472-472 off::COMMAND *)
definition OFF_COMMAND :: u16 where [simp]: "OFF_COMMAND = 0x04"
(* src/crates/machine-core/src/pci.rs:473-473 off::STATUS *)
definition OFF_STATUS :: u16 where [simp]: "OFF_STATUS = 0x06"
(* src/crates/machine-core/src/pci.rs:474-474 off::REVISION *)
definition OFF_REVISION :: nat where [simp]: "OFF_REVISION = 0x08"
(* src/crates/machine-core/src/pci.rs:475-475 off::PROG_IF *)
definition OFF_PROG_IF :: nat where [simp]: "OFF_PROG_IF = 0x09"
(* src/crates/machine-core/src/pci.rs:476-476 off::CLASS_SUB *)
definition OFF_CLASS_SUB :: nat where [simp]: "OFF_CLASS_SUB = 0x0A"
(* src/crates/machine-core/src/pci.rs:477-477 off::CLASS_BASE *)
definition OFF_CLASS_BASE :: nat where [simp]: "OFF_CLASS_BASE = 0x0B"
(* src/crates/machine-core/src/pci.rs:478-478 off::HEADER_TYPE *)
definition OFF_HEADER_TYPE :: nat where [simp]: "OFF_HEADER_TYPE = 0x0E"
(* src/crates/machine-core/src/pci.rs:479-479 off::BAR0 *)
definition OFF_BAR0 :: u16 where [simp]: "OFF_BAR0 = 0x10"
(* src/crates/machine-core/src/pci.rs:480-480 off::CAP_POINTER *)
definition OFF_CAP_POINTER :: nat where [simp]: "OFF_CAP_POINTER = 0x34"
(* src/crates/machine-core/src/pci.rs:481-481 off::SUBSYSTEM_VENDOR *)
definition OFF_SUBSYSTEM_VENDOR :: nat where [simp]: "OFF_SUBSYSTEM_VENDOR = 0x2C"
(* src/crates/machine-core/src/pci.rs:482-482 off::SUBSYSTEM_ID *)
definition OFF_SUBSYSTEM_ID :: nat where [simp]: "OFF_SUBSYSTEM_ID = 0x2E"
(* src/crates/machine-core/src/pci.rs:486-489 CONFIG_SPACE_LEN *)
definition CONFIG_SPACE_LEN :: nat where [simp]: "CONFIG_SPACE_LEN = 256"

(* src/crates/machine-core/src/pci.rs:527-542 ConfigSpace *)
record config_space =
  cs_image :: "u8 list"
  cs_command :: u8
  cs_bar_kinds :: "bar_kind list"
  cs_bar_regs :: "u32 list"
  cs_caps_installed :: bool


text \<open>\<open>to_le_bytes\<close> and \<open>from_le_bytes\<close>.\<close>

definition to_le :: "nat \<Rightarrow> 'a::len word \<Rightarrow> u8 list" where
  "to_le n w = rev (to_be n w)"

definition from_le :: "u8 list \<Rightarrow> 'a::len word" where
  "from_le bs = from_be (rev bs)"

(* src/crates/machine-core/src/pci.rs:739-743 write_u16 *)
definition image_write_u16 :: "u8 list \<Rightarrow> nat \<Rightarrow> u16 \<Rightarrow> u8 list" where
  "image_write_u16 img offset value =
     (let bytes = to_le 2 value in img[offset := bytes ! 0, offset + 1 := bytes ! 1])"

(* src/crates/machine-core/src/pci.rs:545-577 ConfigSpace::new *)
definition cs_new :: "config_space_identity \<Rightarrow> bar_kind list \<Rightarrow> config_space" where
  "cs_new identity bars =
     (let i0 = replicate CONFIG_SPACE_LEN 0;
          i1 = image_write_u16 i0 OFF_VENDOR_ID (id_vendor_id identity);
          i2 = image_write_u16 i1 OFF_DEVICE_ID (id_device_id identity);
          i3 = i2[OFF_REVISION := id_revision identity, OFF_PROG_IF := id_prog_if identity,
                  OFF_CLASS_SUB := id_class_sub identity, OFF_CLASS_BASE := id_class_base identity, OFF_HEADER_TYPE := 0];
          i4 = image_write_u16 i3 OFF_SUBSYSTEM_VENDOR (id_subsystem_vendor identity);
          i5 = image_write_u16 i4 OFF_SUBSYSTEM_ID (id_subsystem_id identity);
          i6 = i5[unat OFF_INTERRUPT_PIN := id_interrupt_pin identity]
      in \<lparr>cs_image = i6, cs_command = 0, cs_bar_kinds = bars, cs_bar_regs = replicate 6 0, cs_caps_installed = False\<rparr>)"

(* src/crates/machine-core/src/pci.rs:579-598 ConfigSpace::install_capabilities *)
definition cs_install_capabilities :: "config_space \<Rightarrow> u16 \<Rightarrow> u8 list \<Rightarrow> config_space" where
  "cs_install_capabilities c first_offset bytes =
     c\<lparr>cs_image := (splice_at (cs_image c) (unat first_offset) bytes)[OFF_CAP_POINTER := ucast first_offset],
       cs_caps_installed := True\<rparr>"

(* src/crates/machine-core/src/pci.rs:600-605 ConfigSpace::memory_space_enabled *)
definition cs_memory_space_enabled :: "config_space \<Rightarrow> bool" where
  "cs_memory_space_enabled c \<longleftrightarrow> cs_command c AND MEMORY_ENABLE \<noteq> 0"

(* src/crates/machine-core/src/pci.rs:607-619 ConfigSpace::bar_window *)
definition cs_bar_window :: "config_space \<Rightarrow> nat \<Rightarrow> (u64 \<times> u64) option" where
  "cs_bar_window c bar =
     (if \<not> cs_memory_space_enabled c then None
      else if bar < length (cs_bar_kinds c) then
        (case cs_bar_kinds c ! bar of BarNone \<Rightarrow> None | Mem32 sz \<Rightarrow> Some (ucast (cs_bar_regs c ! bar), ucast sz))
      else None)"

(* src/crates/machine-core/src/pci.rs:687-696 ConfigSpace::bar_index *)
definition bar_index :: "u16 \<Rightarrow> (nat \<times> nat) option" where
  "bar_index offset =
     (if OFF_BAR0 \<le> offset \<and> offset < OFF_BAR0 + 24 then
        let rel = unat (offset - OFF_BAR0) in Some (rel div 4, rel mod 4)
      else None)"

(* src/crates/machine-core/src/pci.rs:650-668 ConfigSpace::read_byte *)
definition cs_read_byte :: "config_space \<Rightarrow> u16 \<Rightarrow> u8" where
  "cs_read_byte c offset =
     (if offset = OFF_COMMAND then cs_command c
      else if offset = OFF_COMMAND + 1 then 0
      else if offset = OFF_STATUS then (if cs_caps_installed c then STATUS_CAP_LIST else 0)
      else if offset = OFF_STATUS + 1 then 0
      else (case bar_index offset of
              Some (bar, lane) \<Rightarrow> ucast (drop_bit (8 * lane) (cs_bar_regs c ! bar))
            | None \<Rightarrow> cs_image c ! unat offset))"

(* src/crates/machine-core/src/pci.rs:698-712 ConfigSpace::write_bar_byte *)
definition cs_write_bar_byte :: "config_space \<Rightarrow> nat \<Rightarrow> nat \<Rightarrow> u8 \<Rightarrow> config_space" where
  "cs_write_bar_byte c bar lane byte =
     (case cs_bar_kinds c ! bar of
        BarNone \<Rightarrow> c
      | Mem32 sz \<Rightarrow>
          let bytes = (to_le 4 (cs_bar_regs c ! bar))[lane := byte];
              merged = from_le bytes;
              m = NOT (sz - 1)
          in c\<lparr>cs_bar_regs := (cs_bar_regs c)[bar := merged AND m]\<rparr>)"

(* src/crates/machine-core/src/pci.rs:670-685 ConfigSpace::write_byte *)
definition cs_write_byte :: "config_space \<Rightarrow> u16 \<Rightarrow> u8 \<Rightarrow> config_space" where
  "cs_write_byte c offset byte =
     (if offset = OFF_COMMAND then
        c\<lparr>cs_command := (cs_command c AND NOT WRITABLE_MASK) OR (byte AND WRITABLE_MASK)\<rparr>
      else (case bar_index offset of
              Some (bar, lane) \<Rightarrow> cs_write_bar_byte c bar lane byte
            | None \<Rightarrow> c))"

(* src/crates/machine-core/src/pci.rs:621-635 ConfigSpace::read *)
definition cs_read :: "config_space \<Rightarrow> u16 \<Rightarrow> access_width \<Rightarrow> u32" where
  "cs_read c offset width =
     (let n = unat (aw_bytes width)
      in if unat offset + n > CONFIG_SPACE_LEN then all_ones width
         else foldl (\<lambda>value lane. value OR push_bit (8 * lane) (ucast (cs_read_byte c (offset + of_nat lane)))) 0 [0..<n])"

(* src/crates/machine-core/src/pci.rs:637-648 ConfigSpace::write *)
definition cs_write :: "config_space \<Rightarrow> u16 \<Rightarrow> access_width \<Rightarrow> u32 \<Rightarrow> config_space" where
  "cs_write c offset width value =
     (let n = unat (aw_bytes width)
      in if unat offset + n > CONFIG_SPACE_LEN then c
         else foldl (\<lambda>c lane. cs_write_byte c (offset + of_nat lane) (ucast (drop_bit (8 * lane) value))) c [0..<n])"

section \<open>Devices\<close>

(* src/crates/machine-core/src/pci.rs:745-757 HostBridge *)
record host_bridge =
  hbr_config :: config_space

(* src/crates/machine-core/src/pci.rs:767-783 HostBridge::new *)
definition host_bridge_new :: host_bridge where
  "host_bridge_new = \<lparr>hbr_config = cs_new \<lparr>id_vendor_id = 0x1B36, id_device_id = 0x0008, id_revision = 0, id_class_base = 0x06,
     id_class_sub = 0x00, id_prog_if = 0x00, id_subsystem_vendor = 0, id_subsystem_id = 0, id_interrupt_pin = 0\<rparr>
     (replicate 6 BarNone)\<rparr>"

(* src/crates/machine-core/src/pci.rs:2123-2137 TestMemDevice *)
record test_mem_device =
  tm_config :: config_space
  tm_last_write :: "(u64 \<times> access_width \<times> u32) option"
  tm_read_counts :: "u32 list"

(* src/crates/machine-core/src/pci.rs:2145-2145 TestMemDevice::BAR0_SIZE *)
definition TM_BAR0_SIZE :: u32 where [simp]: "TM_BAR0_SIZE = 4096"

(* src/crates/machine-core/src/pci.rs:2147-2176 TestMemDevice::new *)
definition test_mem_new :: test_mem_device where
  "test_mem_new = \<lparr>tm_config = cs_new \<lparr>id_vendor_id = 0x1234, id_device_id = 0xBEEF, id_revision = 0, id_class_base = 0xFF,
     id_class_sub = 0x00, id_prog_if = 0x00, id_subsystem_vendor = 0, id_subsystem_id = 0, id_interrupt_pin = 0\<rparr>
     [Mem32 TM_BAR0_SIZE, BarNone, BarNone, BarNone, BarNone, BarNone], tm_last_write = None, tm_read_counts = [0, 0, 0]\<rparr>"

(* src/crates/machine-core/src/pci.rs:728-737 width_index *)
fun width_index :: "access_width \<Rightarrow> nat" where
  "width_index W8 = 0" | "width_index W16 = 1" | "width_index W32 = 2"

(* src/crates/machine-core/src/pci.rs:2191-2205 TestMemDevice::pattern *)
definition tm_pattern :: "u64 \<Rightarrow> access_width \<Rightarrow> u32" where
  "tm_pattern offset width =
     (let low = ucast offset :: u8
      in foldl (\<lambda>value lane. value OR push_bit (8 * lane) (ucast (low + of_nat lane))) 0 [0..<unat (aw_bytes width)])"

(* src/crates/machine-core/src/pci.rs:2227-2234 TestMemDevice::bar_read *)
definition tm_bar_read :: "test_mem_device \<Rightarrow> nat \<Rightarrow> u64 \<Rightarrow> access_width \<Rightarrow> test_mem_device \<times> u32" where
  "tm_bar_read d bar offset width =
     (if bar = 0 then
        (d\<lparr>tm_read_counts := (tm_read_counts d)[width_index width := tm_read_counts d ! width_index width + 1]\<rparr>, tm_pattern offset width)
      else (d, 0xFFFFFFFF))"

(* src/crates/machine-core/src/pci.rs:2236-2240 TestMemDevice::bar_write *)
definition tm_bar_write :: "test_mem_device \<Rightarrow> nat \<Rightarrow> u64 \<Rightarrow> access_width \<Rightarrow> u32 \<Rightarrow> test_mem_device" where
  "tm_bar_write d bar offset width value = (if bar = 0 then d\<lparr>tm_last_write := Some (offset, width, value)\<rparr> else d)"

(* src/crates/machine-core/src/pci.rs:2243-2251 IntxTestDevice *)
record intx_test_device =
  ix_config :: config_space
  ix_asserted :: bool

(* src/crates/machine-core/src/pci.rs:2254-2276 IntxTestDevice::new *)
definition intx_test_new :: "u8 \<Rightarrow> intx_test_device" where
  "intx_test_new pin = \<lparr>ix_config = cs_new \<lparr>id_vendor_id = 0x1234, id_device_id = 0xDEAD, id_revision = 0, id_class_base = 0xFF,
     id_class_sub = 0x00, id_prog_if = 0x00, id_subsystem_vendor = 0, id_subsystem_id = 0, id_interrupt_pin = pin\<rparr>
     (replicate 6 BarNone), ix_asserted = False\<rparr>"

(* src/crates/machine-core/src/pci.rs:2278-2281 IntxTestDevice::set_asserted *)
definition intx_set_asserted :: "intx_test_device \<Rightarrow> bool \<Rightarrow> intx_test_device" where
  "intx_set_asserted d asserted = d\<lparr>ix_asserted := asserted\<rparr>"

text \<open>The implementations of the device trait.\<close>

(* src/crates/machine-core/src/pci.rs:792-804 impl PciDevice for HostBridge *)
definition host_bridge_dev :: "host_bridge pci_device" where
  "host_bridge_dev = \<lparr>pd_config_read = (\<lambda>d offset width. (d, cs_read (hbr_config d) offset width)),
     pd_config_write = (\<lambda>d offset width value. d\<lparr>hbr_config := cs_write (hbr_config d) offset width value\<rparr>),
     pd_bar_window = (\<lambda>d. cs_bar_window (hbr_config d)), pd_bar_read = default_bar_read, pd_bar_write = default_bar_write,
     pd_intx_level = (\<lambda>_. False), pd_tick = default_tick\<rparr>"

(* src/crates/machine-core/src/pci.rs:2214-2241 impl PciDevice for TestMemDevice *)
definition test_mem_dev :: "test_mem_device pci_device" where
  "test_mem_dev = \<lparr>pd_config_read = (\<lambda>d offset width. (d, cs_read (tm_config d) offset width)),
     pd_config_write = (\<lambda>d offset width value. d\<lparr>tm_config := cs_write (tm_config d) offset width value\<rparr>),
     pd_bar_window = (\<lambda>d. cs_bar_window (tm_config d)), pd_bar_read = tm_bar_read, pd_bar_write = tm_bar_write,
     pd_intx_level = (\<lambda>_. False), pd_tick = default_tick\<rparr>"

(* src/crates/machine-core/src/pci.rs:2290-2306 impl PciDevice for IntxTestDevice *)
definition intx_test_dev :: "intx_test_device pci_device" where
  "intx_test_dev = \<lparr>pd_config_read = (\<lambda>d offset width. (d, cs_read (ix_config d) offset width)),
     pd_config_write = (\<lambda>d offset width value. d\<lparr>ix_config := cs_write (ix_config d) offset width value\<rparr>),
     pd_bar_window = (\<lambda>d. cs_bar_window (ix_config d)), pd_bar_read = default_bar_read, pd_bar_write = default_bar_write,
     pd_intx_level = ix_asserted, pd_tick = default_tick\<rparr>"


section \<open>Bytes of a little-endian register\<close>

lemma bit_from_le_update:
  fixes r :: u32
  assumes "lane < 4"
  shows "bit (from_le ((to_le 4 r)[lane := b]) :: u32) k \<longleftrightarrow> k < 32 \<and> (if k div 8 = lane then bit b (k mod 8) else bit r k)"
proof (cases "k < 32")
  case True
  then have d: "k div 8 < 4" by simp
  have "bit (from_le ((to_le 4 r)[lane := b]) :: u32) k = bit ((to_le 4 r)[lane := b] ! (k div 8)) (k mod 8)"
    using True d by (simp add: from_le_def bit_from_be to_le_def rev_nth)
  also have "\<dots> = (if k div 8 = lane then bit b (k mod 8) else bit r k)"
    using d assms by (simp add: to_le_def nth_list_update rev_nth nth_to_be bit_simps add.commute flip: numeral_3_eq_3)
  finally show ?thesis using True by simp
next
  case False
  then show ?thesis by (auto dest: bit_imp_le_length)
qed

section \<open>Configuration writes\<close>

definition bar_aligned :: "bar_kind \<Rightarrow> u32 \<Rightarrow> bool" where
  "bar_aligned k r = (case k of BarNone \<Rightarrow> r = 0 | Mem32 sz \<Rightarrow> r AND (sz - 1) = 0)"

definition cs_ok :: "config_space \<Rightarrow> bool" where
  "cs_ok c \<longleftrightarrow> length (cs_image c) = 256 \<and> length (cs_bar_kinds c) = 6 \<and> length (cs_bar_regs c) = 6 \<and>
     cs_command c AND NOT WRITABLE_MASK = 0 \<and> (\<forall>i < 6. bar_aligned (cs_bar_kinds c ! i) (cs_bar_regs c ! i))"

lemma cs_new_ok: "length bars = 6 \<Longrightarrow> cs_ok (cs_new identity bars)"
  by (simp add: cs_ok_def cs_new_def Let_def image_write_u16_def bar_aligned_def split: bar_kind.split)

lemma and_not_and: "(a AND NOT b) AND b = (0 :: 'a::len word)"
  by (rule bit_word_eqI) (auto simp: bit_simps)

lemma bar_index_lt: "bar_index offset = Some (bar, lane) \<Longrightarrow> bar < 6 \<and> lane < 4"
  by (auto simp: bar_index_def Let_def word_le_nat_alt word_less_nat_alt unat_word_ariths unat_sub split: if_splits)

lemma cs_write_byte_effect:
  assumes "cs_ok c"
  shows "cs_ok (cs_write_byte c offset byte) \<and> cs_image (cs_write_byte c offset byte) = cs_image c \<and>
    cs_bar_kinds (cs_write_byte c offset byte) = cs_bar_kinds c \<and> cs_caps_installed (cs_write_byte c offset byte) = cs_caps_installed c"
proof (cases "offset = OFF_COMMAND")
  case True
  have "(b AND 7) AND NOT 7 = 0" for b :: u8
    by (rule bit_word_eqI) (auto simp: bit_simps)
  then have "(b AND 7) AND - 8 = 0" for b :: u8 by simp
  then show ?thesis using True assms by (simp add: cs_write_byte_def cs_ok_def bit.conj_disj_distrib2 and.assoc)
next
  case False
  show ?thesis
  proof (cases "bar_index offset")
    case None
    then show ?thesis using False assms by (simp add: cs_write_byte_def)
  next
    case (Some p)
    obtain bar lane where p: "p = (bar, lane)" by fastforce
    show ?thesis
    proof (cases "cs_bar_kinds c ! bar")
      case BarNone
      then show ?thesis using False Some p assms by (simp add: cs_write_byte_def cs_write_bar_byte_def)
    next
      case (Mem32 sz)
      have "bar_aligned (cs_bar_kinds c ! bar) (x AND NOT (sz - 1))" for x
        using Mem32 by (simp add: bar_aligned_def and_not_and)
      then show ?thesis using False Some p Mem32 assms bar_index_lt [of offset bar lane]
        by (auto simp: cs_write_byte_def cs_write_bar_byte_def cs_ok_def Let_def nth_list_update)
    qed
  qed
qed

lemma cs_write_effect:
  assumes "cs_ok c"
  shows "cs_ok (cs_write c offset width value) \<and> cs_image (cs_write c offset width value) = cs_image c \<and>
    cs_bar_kinds (cs_write c offset width value) = cs_bar_kinds c \<and> cs_caps_installed (cs_write c offset width value) = cs_caps_installed c"
proof -
  have "cs_ok (foldl (\<lambda>c lane. cs_write_byte c (f lane) (g lane)) c xs) \<and> cs_image (foldl (\<lambda>c lane. cs_write_byte c (f lane) (g lane)) c xs) = cs_image c \<and>
      cs_bar_kinds (foldl (\<lambda>c lane. cs_write_byte c (f lane) (g lane)) c xs) = cs_bar_kinds c \<and>
      cs_caps_installed (foldl (\<lambda>c lane. cs_write_byte c (f lane) (g lane)) c xs) = cs_caps_installed c" for f g and xs :: "nat list"
    using assms by (induction xs arbitrary: c) (use cs_write_byte_effect in auto)
  then show ?thesis using assms by (simp add: cs_write_def Let_def)
qed

definition cs_writes :: "config_space \<Rightarrow> (u16 \<times> access_width \<times> u32) list \<Rightarrow> config_space" where
  "cs_writes = foldl (\<lambda>c (offset, width, value). cs_write c offset width value)"

lemma cs_writes_effect:
  "cs_ok c \<Longrightarrow> cs_ok (cs_writes c ws) \<and> cs_image (cs_writes c ws) = cs_image c \<and> cs_bar_kinds (cs_writes c ws) = cs_bar_kinds c \<and>
    cs_caps_installed (cs_writes c ws) = cs_caps_installed c"
proof (induction ws arbitrary: c)
  case (Cons w ws)
  obtain offset width v where w: "w = (offset, width, v)" by (metis prod_cases3)
  show ?case using Cons.IH [of "cs_write c offset width v"] cs_write_effect [OF Cons.prems] w by (auto simp: cs_writes_def)
qed (simp add: cs_writes_def)

text \<open>A guest cannot forge a device: whatever configuration writes it makes, of any width at any offset, every byte
  of the header except the command register's low byte and the six BARs reads as it did when the device was built,
  only the three implemented command bits can be set, and a BAR never holds an address its size does not divide.\<close>

lemma config_identity_read_only:
  assumes "cs_ok c" "offset < 256" "offset \<noteq> OFF_COMMAND" "bar_index offset = None"
  shows "cs_read_byte (cs_writes c ws) offset = cs_read_byte c offset \<and> cs_ok (cs_writes c ws)"
  using cs_writes_effect [OF assms(1), of ws] assms(2-4) by (simp add: cs_read_byte_def)

text \<open>The vendor identifier of a fresh test device after a write aimed at it.\<close>

lemma config_identity_read_only_witness:
  "cs_read_byte (cs_writes (tm_config test_mem_new) [(0, W32, 0x12345678), (4, W16, 0xFFFF), (0x10, W32, 0xFFFFFFFF)]) 0 = 0x34"
proof -
  have "cs_ok (tm_config test_mem_new)" by (simp add: test_mem_new_def cs_new_ok)
  from config_identity_read_only [OF this, of 0 "[(0, W32, 0x12345678), (4, W16, 0xFFFF), (0x10, W32, 0xFFFFFFFF)]"]
  have "cs_read_byte (cs_writes (tm_config test_mem_new) [(0, W32, 0x12345678), (4, W16, 0xFFFF), (0x10, W32, 0xFFFFFFFF)]) 0
      = cs_read_byte (tm_config test_mem_new) 0"
    by (simp add: bar_index_def)
  also have "\<dots> = 0x34"
    by (simp add: cs_read_byte_def bar_index_def test_mem_new_def cs_new_def Let_def image_write_u16_def to_le_def to_be_def upt_rec)
  finally show ?thesis .
qed

section \<open>Sizing and assigning a BAR\<close>

definition bar_off :: "nat \<Rightarrow> u16" where
  "bar_off bar = OFF_BAR0 + 4 * of_nat bar"

lemma bar_off_facts:
  assumes "bar < 6" "lane < 4"
  shows "bar_index (bar_off bar + of_nat lane) = Some (bar, lane)" "bar_off bar + of_nat lane \<noteq> OFF_COMMAND"
    "bar_off bar + of_nat lane \<noteq> OFF_COMMAND + 1" "bar_off bar + of_nat lane \<noteq> OFF_STATUS" "bar_off bar + of_nat lane \<noteq> OFF_STATUS + 1"
    "\<not> unat (bar_off bar) + 4 > 256"
proof -
  have "bar \<in> {0,1,2,3,4,5}" "lane \<in> {0,1,2,3}" using assms by auto
  then show "bar_index (bar_off bar + of_nat lane) = Some (bar, lane)" "bar_off bar + of_nat lane \<noteq> OFF_COMMAND"
    "bar_off bar + of_nat lane \<noteq> OFF_COMMAND + 1" "bar_off bar + of_nat lane \<noteq> OFF_STATUS" "bar_off bar + of_nat lane \<noteq> OFF_STATUS + 1"
    "\<not> unat (bar_off bar) + 4 > 256"
    by (auto simp: bar_index_def bar_off_def)
qed

definition lane_put :: "u32 \<Rightarrow> u32 \<Rightarrow> u32 \<Rightarrow> nat \<Rightarrow> u32" where
  "lane_put m v r i = from_le ((to_le 4 r)[i := ucast (drop_bit (8 * i) v)]) AND m"

lemma bit_lane_put:
  "i < 4 \<Longrightarrow> bit (lane_put m v r i) k \<longleftrightarrow> k < 32 \<and> bit m k \<and> (if k div 8 = i then bit v k else bit r k)"
proof -
  assume i: "i < 4"
  have "8 * (k div 8) + k mod 8 = k" by simp
  then show ?thesis using i by (auto simp: lane_put_def bit_simps bit_from_le_update add.commute dest: bit_imp_le_length)
qed

lemma lane_put_all: "lane_put m v (lane_put m v (lane_put m v (lane_put m v r 0) 1) 2) 3 = v AND m"
proof (rule bit_word_eqI)
  fix k assume "k < LENGTH(32)"
  then have "k div 8 \<in> {0, 1, 2, 3}" "k < 32" by auto
  then show "bit (lane_put m v (lane_put m v (lane_put m v (lane_put m v r 0) 1) 2) 3) k = bit (v AND m) k"
    by (auto simp: bit_simps bit_lane_put)
qed

lemma cs_write_bar:
  assumes "cs_ok c" "bar < 6" "cs_bar_kinds c ! bar = Mem32 sz"
  shows "cs_write c (bar_off bar) W32 v = c\<lparr>cs_bar_regs := (cs_bar_regs c)[bar := v AND NOT (sz - 1)]\<rparr>"
proof -
  have b: "cs_write_byte c' (bar_off bar + of_nat lane) (ucast (drop_bit (8 * lane) v)) =
      c'\<lparr>cs_bar_regs := (cs_bar_regs c')[bar := lane_put (NOT (sz - 1)) v (cs_bar_regs c' ! bar) lane]\<rparr>"
    if "lane < 4" "cs_bar_kinds c' = cs_bar_kinds c" for c' lane
    using that assms bar_off_facts [OF assms(2) that(1)]
    by (simp add: cs_write_byte_def cs_write_bar_byte_def lane_put_def Let_def del: OFF_COMMAND_def)
  have u: "[0..<4] = [0, 1, 2, 3 :: nat]" by (simp add: upt_rec)
  have room: "\<not> unat (bar_off bar) + 4 > 256" using bar_off_facts [OF assms(2), of 0] by simp
  have "bar < length (cs_bar_regs c)" using assms by (simp add: cs_ok_def)
  then show ?thesis
    using b [of 0] b [of 1] b [of 2] b [of 3] lane_put_all [of "NOT (sz - 1)" v "cs_bar_regs c ! bar"] room u
    by (simp add: cs_write_def Let_def)
qed

lemma cs_read_bar:
  assumes "bar < 6" "bar < length (cs_bar_regs c)"
  shows "cs_read c (bar_off bar) W32 = cs_bar_regs c ! bar"
proof -
  let ?r = "cs_bar_regs c ! bar"
  have b: "cs_read_byte c (bar_off bar + of_nat lane) = ucast (drop_bit (8 * lane) ?r)" if "lane < 4" for lane
    using bar_off_facts [OF assms(1) that] by (simp add: cs_read_byte_def del: OFF_COMMAND_def OFF_STATUS_def)
  have room: "\<not> unat (bar_off bar) + 4 > 256" using bar_off_facts [OF assms(1), of 0] by simp
  have u: "[0..<4] = [0, 1, 2, 3 :: nat]" by (simp add: upt_rec)
  have "cs_read c (bar_off bar) W32 = ((ucast (ucast ?r :: u8) OR push_bit 8 (ucast (ucast (drop_bit 8 ?r) :: u8))) OR
      push_bit 16 (ucast (ucast (drop_bit 16 ?r) :: u8))) OR push_bit 24 (ucast (ucast (drop_bit 24 ?r) :: u8))"
    using b [of 0] b [of 1] b [of 2] b [of 3] room u by (simp add: cs_read_def Let_def)
  also have "\<dots> = ?r"
  proof (rule bit_word_eqI)
    fix k :: nat assume "k < LENGTH(32)"
    then consider "k < 8" | "8 \<le> k" "k < 16" | "16 \<le> k" "k < 24" | "24 \<le> k" "k < 32" by force
    then show "bit ((((ucast (ucast ?r :: u8) :: u32) OR push_bit 8 (ucast (ucast (drop_bit 8 ?r) :: u8))) OR
      push_bit 16 (ucast (ucast (drop_bit 16 ?r) :: u8))) OR push_bit 24 (ucast (ucast (drop_bit 24 ?r) :: u8))) k = bit ?r k"
      by cases (simp_all add: bit_simps, auto)
  qed
  finally show ?thesis .
qed

text \<open>C27 [functional]: The firmware's BAR protocol works on every memory BAR: writing all ones reads back the size mask, writing an aligned
  base then reads back that base, and once memory decoding is switched on the device decodes exactly the window
  of that base and size. The other BARs keep their values.\<close>

theorem bar_sizing_and_assignment:
  assumes "cs_ok c" "bar < 6" "cs_bar_kinds c ! bar = Mem32 sz" "base AND (sz - 1) = 0"
  defines "probed \<equiv> cs_write c (bar_off bar) W32 0xFFFFFFFF"
  defines "live \<equiv> cs_write (cs_write probed (bar_off bar) W32 base) OFF_COMMAND W8 (ucast MEMORY_ENABLE)"
  shows "cs_read probed (bar_off bar) W32 = NOT (sz - 1) \<and> cs_read live (bar_off bar) W32 = base \<and>
    cs_bar_window live bar = Some (ucast base, ucast sz) \<and> cs_bar_regs live = (cs_bar_regs c)[bar := base]"
proof -
  have l: "bar < length (cs_bar_regs c)" "bar < length (cs_bar_kinds c)" using assms(1,2) by (simp_all add: cs_ok_def)
  have ones: "(0xFFFFFFFF :: u32) = - 1" by simp
  have p: "probed = c\<lparr>cs_bar_regs := (cs_bar_regs c)[bar := NOT (sz - 1)]\<rparr>"
    unfolding probed_def ones using cs_write_bar [OF assms(1-3), of "- 1"] by simp
  have ok: "cs_ok probed" "cs_bar_kinds probed ! bar = Mem32 sz"
    using cs_write_effect [OF assms(1)] assms(3) by (simp_all add: probed_def)
  have mb: "base AND NOT (sz - 1) = base"
  proof (rule bit_word_eqI)
    fix k
    have "bit (base AND (sz - 1)) k = bit (0 :: u32) k" using assms(4) by simp
    then show "k < LENGTH(32) \<Longrightarrow> bit (base AND NOT (sz - 1)) k = bit base k" by (auto simp: bit_simps)
  qed
  have a: "cs_write probed (bar_off bar) W32 base = c\<lparr>cs_bar_regs := (cs_bar_regs c)[bar := base]\<rparr>"
    using cs_write_bar [OF ok(1) assms(2) ok(2), of base] by (simp add: p mb)
  have "live = (c\<lparr>cs_bar_regs := (cs_bar_regs c)[bar := base]\<rparr>)\<lparr>cs_command := (cs_command c AND NOT WRITABLE_MASK) OR MEMORY_ENABLE\<rparr>"
    unfolding live_def a by (simp add: cs_write_def cs_write_byte_def Let_def)
  moreover have "((x AND NOT w) OR 2) AND 2 \<noteq> 0" for x w :: u8
  proof
    assume "((x AND NOT w) OR 2) AND 2 = 0"
    then have "bit (((x AND NOT w) OR 2) AND 2 :: u8) 1 = bit (0 :: u8) 1" by simp
    then show False by (simp add: bit_simps)
  qed
  ultimately show ?thesis using l assms(2,3) cs_read_bar [of bar live] cs_read_bar [of bar probed] p
    by (simp add: cs_bar_window_def cs_memory_space_enabled_def)
qed

lemma bar_sizing_and_assignment_witness:
  "cs_read (cs_write (tm_config test_mem_new) (bar_off 0) W32 0xFFFFFFFF) (bar_off 0) W32 = 0xFFFFF000 \<and>
   cs_bar_window (cs_write (cs_write (cs_write (tm_config test_mem_new) (bar_off 0) W32 0xFFFFFFFF) (bar_off 0) W32 0x40000000)
     OFF_COMMAND W8 (ucast MEMORY_ENABLE)) 0 = Some (0x40000000, 0x1000)"
  using bar_sizing_and_assignment [where c = "tm_config test_mem_new" and bar = 0 and sz = "0x1000" and base = "0x40000000"]
  by (simp add: test_mem_new_def cs_new_ok) (simp add: cs_new_def Let_def)

end
