(* ===== verification/PciBridge.thy ===== *)
theory PciBridge
  imports Pci AutoConfig Slots Hostblk
begin

text \<open>
  \<open>crates/machine-core/src/pcibridge.rs\<close>: the Zorro III card through which the guest makes PCI configuration
  cycles and reaches PCI memory through a banked 8 MB aperture. The backend is the trait of \<open>Pci\<close>.

  Shown: a configuration cycle reaches the backend exactly when the request is well formed and otherwise changes
  nothing but the status; a sized aperture access is byte for byte what the byte accesses would have been, on
  any backend whose sized accesses are little-endian compositions of its bytes.
\<close>

section \<open>Constants and state\<close>

(* src/crates/machine-core/src/pcibridge.rs:245-251 MANUFACTURER *)
definition PB_MANUFACTURER :: u16 where [simp]: "PB_MANUFACTURER = HB_MANUFACTURER"
(* src/crates/machine-core/src/pcibridge.rs:253-256 PRODUCT *)
definition PB_PRODUCT :: u8 where [simp]: "PB_PRODUCT = 6"
(* src/crates/machine-core/src/pcibridge.rs:258-261 WINDOW_BYTES *)
definition PB_WINDOW_BYTES :: u32 where [simp]: "PB_WINDOW_BYTES = 0x01000000"
(* src/crates/machine-core/src/pcibridge.rs:263-264 ERFF_ZORRO_III *)
definition PB_ERFF_ZORRO_III :: u8 where [simp]: "PB_ERFF_ZORRO_III = 0x10"
(* src/crates/machine-core/src/pcibridge.rs:265-267 ERFF_EXTENDED *)
definition PB_ERFF_EXTENDED :: u8 where [simp]: "PB_ERFF_EXTENDED = 0x20"
(* src/crates/machine-core/src/pcibridge.rs:269-275 PROTOCOL_VERSION *)
definition PB_PROTOCOL_VERSION :: u32 where [simp]: "PB_PROTOCOL_VERSION = 2"
(* src/crates/machine-core/src/pcibridge.rs:277-282 APERTURE_BASE_OFFSET *)
definition APERTURE_BASE_OFFSET :: u32 where [simp]: "APERTURE_BASE_OFFSET = 0x00800000"
(* src/crates/machine-core/src/pcibridge.rs:287-288 reg::VERSION *)
definition PB_VERSION :: u32 where [simp]: "PB_VERSION = 0x00"
(* src/crates/machine-core/src/pcibridge.rs:289-294 reg::CFG_ADDR *)
definition PB_CFG_ADDR :: u32 where [simp]: "PB_CFG_ADDR = 0x04"
(* src/crates/machine-core/src/pcibridge.rs:295-297 reg::CFG_WIDTH *)
definition PB_CFG_WIDTH :: u32 where [simp]: "PB_CFG_WIDTH = 0x08"
(* src/crates/machine-core/src/pcibridge.rs:298-301 reg::CFG_DATA *)
definition PB_CFG_DATA :: u32 where [simp]: "PB_CFG_DATA = 0x0C"
(* src/crates/machine-core/src/pcibridge.rs:302-306 reg::CFG_OP *)
definition PB_CFG_OP :: u32 where [simp]: "PB_CFG_OP = 0x10"
(* src/crates/machine-core/src/pcibridge.rs:307-311 reg::CFG_STATUS *)
definition PB_CFG_STATUS :: u32 where [simp]: "PB_CFG_STATUS = 0x14"
(* src/crates/machine-core/src/pcibridge.rs:312-316 reg::APERTURE_BASE *)
definition PB_APERTURE_BASE :: u32 where [simp]: "PB_APERTURE_BASE = 0x18"
(* src/crates/machine-core/src/pcibridge.rs:317-321 reg::INTX_STATUS *)
definition PB_INTX_STATUS :: u32 where [simp]: "PB_INTX_STATUS = 0x1C"
(* src/crates/machine-core/src/pcibridge.rs:322-326 reg::INTX_ENABLE *)
definition PB_INTX_ENABLE :: u32 where [simp]: "PB_INTX_ENABLE = 0x20"
(* src/crates/machine-core/src/pcibridge.rs:327-333 reg::INTX_TEST *)
definition PB_INTX_TEST :: u32 where [simp]: "PB_INTX_TEST = 0x24"
(* src/crates/machine-core/src/pcibridge.rs:338-341 status::REJECTED *)
definition PB_REJECTED :: u8 where [simp]: "PB_REJECTED = 1"
(* src/crates/machine-core/src/pcibridge.rs:342-345 status::COMPLETED *)
definition PB_COMPLETED :: u8 where [simp]: "PB_COMPLETED = 2"

(* src/crates/machine-core/src/pcibridge.rs:348-367 PciBridge *)
record 'b pci_bridge =
  br_backend :: 'b
  br_cfg_addr :: u32
  br_cfg_width :: u8
  br_cfg_data :: u32
  br_cfg_status :: u8
  br_aperture_base :: u32
  br_intx_enable :: u8
  br_intx_test :: u8

section \<open>Operations\<close>

(* src/crates/machine-core/src/pcibridge.rs:370-384 PciBridge::new *)
definition br_new :: "'b \<Rightarrow> 'b pci_bridge" where
  "br_new backend = \<lparr>br_backend = backend, br_cfg_addr = 0, br_cfg_width = 0, br_cfg_data = 0, br_cfg_status = 0,
     br_aperture_base = 0, br_intx_enable = 0, br_intx_test = 0\<rparr>"

(* src/crates/machine-core/src/pcibridge.rs:386-400 PciBridge::board_spec *)
definition br_board_spec :: board_spec where
  "br_board_spec = \<lparr>board_type = ERT_ZORROIII, product = PB_PRODUCT, flags = PB_ERFF_ZORRO_III OR PB_ERFF_EXTENDED,
     manufacturer = PB_MANUFACTURER, serial = 0, init_diag_vec = 0, size_bytes = PB_WINDOW_BYTES\<rparr>"

(* src/crates/machine-core/src/pcibridge.rs:433-437 PciBridge::cfg_op *)
definition cfg_bdf :: "u32 \<Rightarrow> bdf" where
  "cfg_bdf a = \<lparr>bdf_bus = ucast (drop_bit 20 a AND 0xFF), bdf_device = ucast (drop_bit 15 a AND 0x1F),
     bdf_function = ucast (drop_bit 12 a AND 0x7)\<rparr>"

(* src/crates/machine-core/src/pcibridge.rs:402-448 PciBridge::cfg_op *)
definition br_cfg_op :: "'b pci_backend \<Rightarrow> 'b pci_bridge \<Rightarrow> u8 \<Rightarrow> 'b pci_bridge" where
  "br_cfg_op ops b op =
     (if op > 1 then b\<lparr>br_cfg_status := PB_REJECTED\<rparr>
      else if br_cfg_addr b AND 0xF0000000 \<noteq> 0 then b\<lparr>br_cfg_status := PB_REJECTED\<rparr>
      else (case aw_from_bytes (br_cfg_width b) of
        None \<Rightarrow> b\<lparr>br_cfg_status := PB_REJECTED\<rparr>
      | Some width \<Rightarrow>
          let offset = ucast (br_cfg_addr b AND 0x00000FFF) :: u16
          in if ucast offset AND (aw_bytes width - 1) \<noteq> 0 then b\<lparr>br_cfg_status := PB_REJECTED\<rparr>
             else if op = 0 then
               let (bk, v) = pb_config_read ops (br_backend b) (cfg_bdf (br_cfg_addr b)) offset width
               in b\<lparr>br_backend := bk, br_cfg_data := v, br_cfg_status := PB_COMPLETED\<rparr>
             else b\<lparr>br_backend := pb_config_write ops (br_backend b) (cfg_bdf (br_cfg_addr b)) offset width (br_cfg_data b),
                    br_cfg_status := PB_COMPLETED\<rparr>))"

(* src/crates/machine-core/src/pcibridge.rs:450-458 PciBridge::read_aperture *)
definition br_read_aperture :: "'b pci_backend \<Rightarrow> 'b pci_bridge \<Rightarrow> u32 \<Rightarrow> 'b pci_bridge \<times> u8" where
  "br_read_aperture ops b k =
     (let addr = ucast (br_aperture_base b) + ucast k :: u64;
          (bk, v) = pb_mem_read ops (br_backend b) addr W8
      in (b\<lparr>br_backend := bk\<rparr>, ucast v))"

(* src/crates/machine-core/src/pcibridge.rs:460-465 PciBridge::write_aperture *)
definition br_write_aperture :: "'b pci_backend \<Rightarrow> 'b pci_bridge \<Rightarrow> u32 \<Rightarrow> u8 \<Rightarrow> 'b pci_bridge" where
  "br_write_aperture ops b k value =
     (let addr = ucast (br_aperture_base b) + ucast k :: u64
      in b\<lparr>br_backend := pb_mem_write ops (br_backend b) addr W8 (ucast value)\<rparr>)"

(* src/crates/machine-core/src/pcibridge.rs:621-634 swap_lanes *)
fun swap_lanes :: "u32 \<Rightarrow> access_width \<Rightarrow> u32" where
  "swap_lanes value W8 = value"
| "swap_lanes value W16 = ucast (swap_bytes_u16 (ucast value))"
| "swap_lanes value W32 = swap_bytes_u32 value"

(* src/crates/machine-core/src/pcibridge.rs:467-477 PciBridge::read_aperture_sized *)
definition br_read_aperture_sized :: "'b pci_backend \<Rightarrow> 'b pci_bridge \<Rightarrow> u32 \<Rightarrow> access_width \<Rightarrow> 'b pci_bridge \<times> u32" where
  "br_read_aperture_sized ops b k width =
     (let addr = ucast (br_aperture_base b) + ucast k :: u64;
          (bk, v) = pb_mem_read ops (br_backend b) addr width
      in (b\<lparr>br_backend := bk\<rparr>, swap_lanes v width))"

(* src/crates/machine-core/src/pcibridge.rs:479-486 PciBridge::write_aperture_sized *)
definition br_write_aperture_sized :: "'b pci_backend \<Rightarrow> 'b pci_bridge \<Rightarrow> u32 \<Rightarrow> access_width \<Rightarrow> u32 \<Rightarrow> 'b pci_bridge" where
  "br_write_aperture_sized ops b k width value =
     (let addr = ucast (br_aperture_base b) + ucast k :: u64
      in b\<lparr>br_backend := pb_mem_write ops (br_backend b) addr width (swap_lanes value width)\<rparr>)"

(* src/crates/machine-core/src/pcibridge.rs:488-495 PciBridge::intx_status *)
definition br_intx_status :: "'b pci_backend \<Rightarrow> 'b pci_bridge \<Rightarrow> 'b pci_bridge \<times> u8" where
  "br_intx_status ops b =
     (let (bk, l) = pb_intx_levels ops (br_backend b)
      in (b\<lparr>br_backend := bk\<rparr>, ucast ((l OR ucast (br_intx_test b)) AND 0x0F)))"

(* src/crates/machine-core/src/pcibridge.rs:497-504 PciBridge::irq_pending *)
definition br_irq_pending :: "'b pci_backend \<Rightarrow> 'b pci_bridge \<Rightarrow> 'b pci_bridge \<times> bool" where
  "br_irq_pending ops b = (let (b', s) = br_intx_status ops b in (b', s AND br_intx_enable b' \<noteq> 0))"

(* src/crates/machine-core/src/pcibridge.rs:506-515 PciBridge::tick *)
definition br_tick :: "'b pci_backend \<Rightarrow> 'b pci_bridge \<Rightarrow> guest_ram \<Rightarrow> 'b pci_bridge \<times> guest_ram" where
  "br_tick ops b mem = (let (bk, mem') = pb_tick ops (br_backend b) mem in (b\<lparr>br_backend := bk\<rparr>, mem'))"

(* src/crates/machine-core/src/pcibridge.rs:517-543 PciBridge::config_read_for_inspection *)
definition br_config_read_for_inspection ::
  "'b pci_backend \<Rightarrow> 'b pci_bridge \<Rightarrow> u8 \<Rightarrow> u8 \<Rightarrow> u8 \<Rightarrow> u16 \<Rightarrow> access_width \<Rightarrow> 'b pci_bridge \<times> u32" where
  "br_config_read_for_inspection ops b bus device fn offset width =
     (let (bk, v) = pb_config_read ops (br_backend b) \<lparr>bdf_bus = bus, bdf_device = device, bdf_function = fn\<rparr> offset width
      in (b\<lparr>br_backend := bk\<rparr>, v))"

(* src/crates/machine-core/src/pcibridge.rs:545-571 PciBridge::read *)
definition br_read :: "'b pci_backend \<Rightarrow> 'b pci_bridge \<Rightarrow> u32 \<Rightarrow> 'b pci_bridge \<times> u8" where
  "br_read ops b off =
     (if in_slot off PB_VERSION then (b, byte_of PB_PROTOCOL_VERSION (off - PB_VERSION))
      else if in_slot off PB_CFG_ADDR then (b, byte_of (br_cfg_addr b) (off - PB_CFG_ADDR))
      else if in_slot off PB_CFG_WIDTH then (b, low_byte off PB_CFG_WIDTH (br_cfg_width b))
      else if in_slot off PB_CFG_DATA then (b, byte_of (br_cfg_data b) (off - PB_CFG_DATA))
      else if in_slot off PB_CFG_OP then (b, 0)
      else if in_slot off PB_CFG_STATUS then (b, low_byte off PB_CFG_STATUS (br_cfg_status b))
      else if in_slot off PB_APERTURE_BASE then (b, byte_of (br_aperture_base b) (off - PB_APERTURE_BASE))
      else if in_slot off PB_INTX_STATUS then (let (b', s) = br_intx_status ops b in (b', low_byte off PB_INTX_STATUS s))
      else if in_slot off PB_INTX_ENABLE then (b, low_byte off PB_INTX_ENABLE (br_intx_enable b))
      else if in_slot off PB_INTX_TEST then (b, low_byte off PB_INTX_TEST (br_intx_test b))
      else if APERTURE_BASE_OFFSET \<le> off \<and> off < PB_WINDOW_BYTES then br_read_aperture ops b (off - APERTURE_BASE_OFFSET)
      else (b, 0))"

(* src/crates/machine-core/src/pcibridge.rs:573-618 PciBridge::write *)
definition br_write :: "'b pci_backend \<Rightarrow> 'b pci_bridge \<Rightarrow> u32 \<Rightarrow> u8 \<Rightarrow> 'b pci_bridge" where
  "br_write ops b off value =
     (if in_slot off PB_VERSION then b
      else if in_slot off PB_CFG_ADDR then b\<lparr>br_cfg_addr := set_byte_of (br_cfg_addr b) (off - PB_CFG_ADDR) value\<rparr>
      else if in_slot off PB_CFG_WIDTH \<and> off - PB_CFG_WIDTH = 3 then b\<lparr>br_cfg_width := value\<rparr>
      else if in_slot off PB_CFG_WIDTH then b
      else if in_slot off PB_CFG_DATA then b\<lparr>br_cfg_data := set_byte_of (br_cfg_data b) (off - PB_CFG_DATA) value\<rparr>
      else if in_slot off PB_CFG_OP \<and> off - PB_CFG_OP = 3 then br_cfg_op ops b value
      else if in_slot off PB_CFG_OP then b
      else if in_slot off PB_CFG_STATUS \<and> off - PB_CFG_STATUS = 3 then b\<lparr>br_cfg_status := br_cfg_status b AND NOT value\<rparr>
      else if in_slot off PB_CFG_STATUS then b
      else if in_slot off PB_APERTURE_BASE then b\<lparr>br_aperture_base := set_byte_of (br_aperture_base b) (off - PB_APERTURE_BASE) value\<rparr>
      else if in_slot off PB_INTX_STATUS then b
      else if in_slot off PB_INTX_ENABLE \<and> off - PB_INTX_ENABLE = 3 then b\<lparr>br_intx_enable := value AND 0x0F\<rparr>
      else if in_slot off PB_INTX_ENABLE then b
      else if in_slot off PB_INTX_TEST \<and> off - PB_INTX_TEST = 3 then b\<lparr>br_intx_test := value AND 0x0F\<rparr>
      else if in_slot off PB_INTX_TEST then b
      else if APERTURE_BASE_OFFSET \<le> off \<and> off < PB_WINDOW_BYTES then br_write_aperture ops b (off - APERTURE_BASE_OFFSET) value
      else b)"


section \<open>Sized accesses are byte accesses\<close>

text \<open>
  The contract of a backend's memory space: a read whose address is a multiple of its width is the little-endian
  composition of the bytes there, and reading disturbs no byte.
\<close>

locale le_memory =
  fixes ops :: "'b pci_backend"
    and ok :: "'b \<Rightarrow> bool"
    and byte :: "'b \<Rightarrow> u64 \<Rightarrow> u8"
  assumes read_law: "ok s \<Longrightarrow> unat addr mod unat (aw_bytes w) = 0 \<Longrightarrow> pb_mem_read ops s addr w = (s', v) \<Longrightarrow>
    ok s' \<and> byte s' = byte s \<and> v = from_le (map (\<lambda>i. byte s (addr + of_nat i)) [0..<unat (aw_bytes w)])"

lemma upt_small: "[0..<1] = [0 :: nat]" "[0..<2] = [0, 1 :: nat]" "[0..<4] = [0, 1, 2, 3 :: nat]"
  by (simp_all add: upt_rec)

lemma from_be_single: "from_be [x] = (ucast x :: 'a::len word)"
  by (simp add: from_be_def)

lemma ucast_from_be: "8 * length bs \<le> LENGTH('a) \<Longrightarrow> LENGTH('a) \<le> LENGTH('b) \<Longrightarrow>
    ucast (from_be bs :: 'a::len word) = (from_be bs :: 'b::len word)"
  by (rule bit_word_eqI) (auto simp: bit_simps bit_from_be dest: bit_imp_le_length)

lemma ucast_from_be_down: "8 * length bs \<le> LENGTH('b) \<Longrightarrow> LENGTH('b) \<le> LENGTH('a) \<Longrightarrow>
    ucast (from_be bs :: 'a::len word) = (from_be bs :: 'b::len word)"
  by (rule bit_word_eqI) (auto simp: bit_simps bit_from_be dest: bit_imp_le_length)

lemma swap_lanes_from_le:
  assumes "length bs = unat (aw_bytes w)"
  shows "swap_lanes (from_le bs) w = from_be bs"
proof (cases w)
  case W8
  then obtain x where "bs = [x]" using assms by (auto simp: length_Suc_conv)
  then show ?thesis using W8 by (simp add: from_le_def)
next
  case W16
  then have l: "length bs = 2" using assms by simp
  then have "(ucast (from_be (rev bs) :: u32) :: u16) = from_be (rev bs)" by (intro ucast_from_be_down) simp_all
  then show ?thesis using W16 l by (simp add: from_le_def swap_bytes_u16_def ucast_from_be)
next
  case W32
  then show ?thesis using assms by (simp add: from_le_def swap_bytes_u32_def)
qed

context le_memory
begin

lemma byte_read:
  assumes "ok (br_backend b)"
  shows "snd (br_read_aperture ops b k) = byte (br_backend b) (ucast (br_aperture_base b) + ucast k)"
proof -
  obtain s' v where r: "pb_mem_read ops (br_backend b) (ucast (br_aperture_base b) + ucast k) W8 = (s', v)" by fastforce
  have "v = from_le [byte (br_backend b) (ucast (br_aperture_base b) + ucast k)]"
    using read_law [OF assms _ r] by (simp add: upt_small)
  moreover have "ucast (ucast x :: u32) = x" for x :: u8 by (rule bit_word_eqI) (simp add: bit_simps)
  ultimately show ?thesis using r by (simp add: br_read_aperture_def Let_def from_le_def from_be_single)
qed

lemma sized_read:
  assumes "ok (br_backend b)" "(unat (br_aperture_base b) + unat k) mod unat (aw_bytes w) = 0" "unat k + 4 \<le> 2 ^ 32"
  shows "snd (br_read_aperture_sized ops b k w) = from_be (map (\<lambda>i. snd (br_read_aperture ops b (k + of_nat i))) [0..<unat (aw_bytes w)])"
proof -
  let ?a = "ucast (br_aperture_base b) + ucast k :: u64"
  have "unat (br_aperture_base b) + unat k < 2 ^ 64" using unat_lt2p_of [of "br_aperture_base b"] unat_lt2p_of [of k] by simp
  then have al: "unat ?a mod unat (aw_bytes w) = 0" using assms(2) by (simp add: unat_word_ariths unat_ucast_u32_u64)
  obtain s' v where r: "pb_mem_read ops (br_backend b) ?a w = (s', v)" by fastforce
  have v: "v = from_le (map (\<lambda>i. byte (br_backend b) (?a + of_nat i)) [0..<unat (aw_bytes w)])"
    using read_law [OF assms(1) al r] by simp
  have k: "ucast (k + of_nat i) = (ucast k + of_nat i :: u64)" if "i < unat (aw_bytes w)" for i
  proof -
    have "i < 4" using that by (cases w) simp_all
    then have i: "unat k + i < 2 ^ 32" using assms(3) by simp
    then have "unat (k + of_nat i) = unat k + i" using \<open>i < 4\<close> by (simp add: unat_word_ariths unat_of_nat_less)
    moreover have "unat (ucast k + of_nat i :: u64) = unat k + i"
      using i \<open>i < 4\<close> by (simp add: unat_word_ariths unat_of_nat_less unat_ucast_u32_u64)
    ultimately show ?thesis by (simp add: word_unat_eq_iff unat_ucast_u32_u64)
  qed
  have "snd (br_read_aperture_sized ops b k w) = from_be (map (\<lambda>i. byte (br_backend b) (?a + of_nat i)) [0..<unat (aw_bytes w)])"
    using r v by (simp add: br_read_aperture_sized_def Let_def swap_lanes_from_le)
  also have "map (\<lambda>i. byte (br_backend b) (?a + of_nat i)) [0..<unat (aw_bytes w)] =
      map (\<lambda>i. snd (br_read_aperture ops b (k + of_nat i))) [0..<unat (aw_bytes w)]"
    using k by (simp add: byte_read [OF assms(1)] add.assoc)
  finally show ?thesis .
qed

end


text \<open>The virtual bus over test memory devices keeps the contract.\<close>

definition tm_ok :: "test_mem_device \<Rightarrow> bool" where
  "tm_ok d \<longleftrightarrow> cs_ok (tm_config d) \<and> cs_bar_kinds (tm_config d) = [Mem32 TM_BAR0_SIZE, BarNone, BarNone, BarNone, BarNone, BarNone]"

definition tm_hit :: "test_mem_device \<Rightarrow> u64 \<Rightarrow> bool" where
  "tm_hit d addr \<longleftrightarrow> cs_memory_space_enabled (tm_config d) \<and> unat addr div 4096 = unat (cs_bar_regs (tm_config d) ! 0) div 4096"

lemma page_aligned: "r AND 0xFFF = 0 \<Longrightarrow> unat r mod 4096 = 0" for r :: u32
proof -
  assume h: "r AND 0xFFF = 0"
  have "unat (take_bit 12 r) = unat r mod 4096" unfolding unsigned_take_bit_eq by (simp add: take_bit_eq_mod)
  then have "unat r mod 4096 = unat (r AND mask 12)" by (simp add: take_bit_eq_mask)
  then show ?thesis using h by (simp add: mask_eq_exp_minus_1)
qed

lemma same_page:
  assumes "r mod 4096 = 0"
  shows "(r \<le> a \<and> a - r < 4096) \<longleftrightarrow> a div 4096 = r div (4096 :: nat)"
proof -
  obtain q where q: "r = 4096 * q" using assms by (auto simp: mod_eq_0_iff_dvd)
  have a: "4096 * (a div 4096) \<le> a" "a < 4096 * (a div 4096) + 4096" by simp_all
  have "r \<le> a \<and> a - r < 4096 \<longleftrightarrow> a div 4096 = q"
    using a q by (cases "a div 4096 < q"; cases "q < a div 4096") linarith+
  then show ?thesis using q by simp
qed

lemma tm_bar_hit:
  assumes "tm_ok d"
  shows "bar_hit test_mem_dev d addr [0..<6] =
    (if tm_hit d addr then Some (0, addr - ucast (cs_bar_regs (tm_config d) ! 0)) else None)"
proof -
  let ?r = "cs_bar_regs (tm_config d) ! 0"
  have "bar_aligned (Mem32 4096) ?r"
    using assms unfolding tm_ok_def cs_ok_def by (metis TM_BAR0_SIZE_def nth_Cons_0 zero_less_numeral)
  then have a: "unat ?r mod 4096 = 0" by (intro page_aligned) (simp add: bar_aligned_def)
  have "ucast ?r \<le> addr \<and> addr - ucast ?r < 4096 \<longleftrightarrow> unat addr div 4096 = unat ?r div 4096"
    using same_page [OF a, of "unat addr"]
    by (cases "ucast ?r \<le> addr") (simp_all add: word_le_nat_alt word_less_nat_alt unat_sub unat_ucast_u32_u64)
  moreover have "[0..<6] = [0, 1, 2, 3, 4, 5 :: nat]" by (simp add: upt_rec)
  ultimately show ?thesis using assms
    by (simp add: tm_hit_def test_mem_dev_def cs_bar_window_def tm_ok_def nth_Cons')
qed


lemma aligned_page:
  assumes "unat (addr :: u64) mod unat (aw_bytes w) = 0" "i < unat (aw_bytes w)"
  shows "unat (addr + of_nat i) = unat addr + i" "(unat addr + i) div 4096 = unat addr div 4096"
proof -
  have w: "unat (aw_bytes w) dvd 4096" "unat (aw_bytes w) \<le> 4" by (cases w; simp)+
  then have "unat (aw_bytes w) dvd 4096 - unat addr mod 4096"
    using assms(1) by (simp add: dvd_mod_iff mod_eq_0_iff_dvd dvd_diff_nat)
  then have "unat (aw_bytes w) \<le> 4096 - unat addr mod 4096" by (rule dvd_imp_le) simp
  then have m: "unat addr mod 4096 + i < 4096" using assms(2) by linarith
  have "unat addr + i = 4096 * (unat addr div 4096) + (unat addr mod 4096 + i)" by simp
  then show d: "(unat addr + i) div 4096 = unat addr div 4096" using m
    by (metis add.commute add_cancel_right_left div_less div_mult_self2 zero_neq_numeral)
  have "unat addr + i < 2 ^ 64"
  proof -
    have "unat addr div 4096 < 2 ^ 52" using unat_lt2p_of [of addr] by simp
    then have "(unat addr + i) div 4096 < 2 ^ 52" using d by simp
    then show ?thesis by (simp add: div_less_iff_less_mult)
  qed
  then show "unat (addr + of_nat i) = unat addr + i" using w assms(2) by (simp add: unat_word_ariths unat_of_nat_less)
qed

definition tm_byte :: "test_mem_device virtual_slot list \<Rightarrow> u64 \<Rightarrow> u8" where
  "tm_byte ss addr = ucast (snd (vpb_mem_read test_mem_dev ss addr W8))"

lemma from_be_Cons: "from_be (x # xs) = (push_bit (8 * length xs) (ucast x) OR from_be xs :: 'a::len word)"
proof (induction xs rule: rev_induct)
  case (snoc b xs)
  have "from_be (x # xs @ [b]) = (push_bit 8 (from_be (x # xs)) OR ucast b :: 'a word)" using from_be_snoc [of "x # xs" b] by simp
  then show ?case using snoc by (simp add: from_be_snoc push_bit_or or.assoc push_bit_push_bit add.commute)
qed (simp add: from_be_def)

lemma lanes_from_le:
  "foldl (\<lambda>v lane. v OR push_bit (8 * lane) (ucast (f lane))) 0 [0..<n] = (from_le (map f [0..<n]) :: 'a::len word)"
  by (induction n) (simp_all add: from_le_def from_be_Cons or.commute, simp add: from_be_def)

lemma tm_pattern_bytes:
  "tm_pattern rel w = from_le (map (\<lambda>i. ucast (tm_pattern (rel + of_nat i) W8)) [0..<unat (aw_bytes w)])"
proof -
  have 1: "ucast (tm_pattern x W8) = (ucast x :: u8)" for x
    by (rule bit_word_eqI) (simp add: tm_pattern_def Let_def upt_small bit_simps)
  have "unat (ucast (rel + of_nat i) :: u8) = unat (ucast rel + of_nat i :: u8)" for i
    by (simp add: unat_ucast_mod unat_word_ariths unat_of_nat take_bit_eq_mod mod_mod_cancel mod_add_left_eq mod_add_right_eq)
  then have "ucast (rel + of_nat i) = (ucast rel + of_nat i :: u8)" for i by (simp add: word_unat_eq_iff)
  then show ?thesis unfolding 1 by (simp add: tm_pattern_def Let_def lanes_from_le)
qed

lemma tm_read_Cons:
  assumes "tm_ok (vs_device s)"
  shows "vpb_mem_read test_mem_dev (s # ss) addr w =
    (if tm_hit (vs_device s) addr then
       (s\<lparr>vs_device := fst (tm_bar_read (vs_device s) 0 (addr - ucast (cs_bar_regs (tm_config (vs_device s)) ! 0)) w)\<rparr> # ss,
        tm_pattern (addr - ucast (cs_bar_regs (tm_config (vs_device s)) ! 0)) w)
     else (s # fst (vpb_mem_read test_mem_dev ss addr w), snd (vpb_mem_read test_mem_dev ss addr w)))"
  using tm_bar_hit [OF assms, of addr] by (simp add: case_prod_beta Let_def test_mem_dev_def tm_bar_read_def)

lemma tm_mem_read_law:
  assumes "\<forall>s \<in> set ss. tm_ok (vs_device s)" "unat addr mod unat (aw_bytes w) = 0"
  shows "(\<forall>s \<in> set (fst (vpb_mem_read test_mem_dev ss addr w)). tm_ok (vs_device s)) \<and>
    tm_byte (fst (vpb_mem_read test_mem_dev ss addr w)) = tm_byte ss \<and>
    snd (vpb_mem_read test_mem_dev ss addr w) = from_le (map (\<lambda>i. tm_byte ss (addr + of_nat i)) [0..<unat (aw_bytes w)])"
  using assms
proof (induction ss)
  case Nil
  then show ?case by (cases w) (simp_all add: tm_byte_def upt_small from_le_def from_be_def fun_eq_iff)
next
  case (Cons s ss)
  have ok: "tm_ok (vs_device s)" using Cons.prems(1) by simp
  let ?r = "ucast (cs_bar_regs (tm_config (vs_device s)) ! 0) :: u64"
  have hit: "tm_hit (vs_device s) (addr + of_nat i) = tm_hit (vs_device s) addr" if "i < unat (aw_bytes w)" for i
    using aligned_page [OF Cons.prems(2) that] by (simp add: tm_hit_def)
  show ?case
  proof (cases "tm_hit (vs_device s) addr")
    case True
    have cfg: "tm_config (fst (tm_bar_read d 0 rel w)) = tm_config d" for d rel by (simp add: tm_bar_read_def)
    have b: "tm_byte (s # ss) (addr + of_nat i) = ucast (tm_pattern (addr - ?r + of_nat i) W8)" if "i < unat (aw_bytes w)" for i
      using that True hit by (simp add: tm_byte_def tm_read_Cons [OF ok] diff_add_eq del: vpb_mem_read.simps(2))
    let ?s = "s\<lparr>vs_device := fst (tm_bar_read (vs_device s) 0 (addr - ?r) w)\<rparr>"
    have ok': "tm_ok (vs_device ?s)" using ok by (simp add: tm_ok_def cfg)
    have "tm_byte (?s # ss) a = tm_byte (s # ss) a" for a
      using cfg by (simp add: tm_byte_def tm_read_Cons [OF ok] tm_read_Cons [OF ok'] tm_hit_def del: vpb_mem_read.simps(2))
    moreover have "tm_pattern (addr - ?r) w = from_le (map (\<lambda>i. tm_byte (s # ss) (addr + of_nat i)) [0..<unat (aw_bytes w)])"
      unfolding tm_pattern_bytes [of "addr - ?r" w] using b by (intro arg_cong [of _ _ from_le]) simp
    ultimately show ?thesis
      using True ok' Cons.prems(1) by (simp add: tm_read_Cons [OF ok] fun_eq_iff del: vpb_mem_read.simps(2))
  next
    case False
    have b: "tm_byte (s # ss) (addr + of_nat i) = tm_byte ss (addr + of_nat i)" if "i < unat (aw_bytes w)" for i
      using that False hit by (simp add: tm_byte_def tm_read_Cons [OF ok] del: vpb_mem_read.simps(2))
    have IH: "\<forall>s \<in> set (fst (vpb_mem_read test_mem_dev ss addr w)). tm_ok (vs_device s)"
      "tm_byte (fst (vpb_mem_read test_mem_dev ss addr w)) = tm_byte ss"
      "snd (vpb_mem_read test_mem_dev ss addr w) = from_le (map (\<lambda>i. tm_byte ss (addr + of_nat i)) [0..<unat (aw_bytes w)])"
      using Cons by simp_all
    have "tm_byte (s # fst (vpb_mem_read test_mem_dev ss addr w)) a = tm_byte (s # ss) a" for a
      using IH(2) by (simp add: tm_byte_def tm_read_Cons [OF ok] fun_eq_iff del: vpb_mem_read.simps(2))
    moreover have "snd (vpb_mem_read test_mem_dev ss addr w) = from_le (map (\<lambda>i. tm_byte (s # ss) (addr + of_nat i)) [0..<unat (aw_bytes w)])"
      unfolding IH(3) using b by (intro arg_cong [of _ _ from_le]) simp
    ultimately show ?thesis using False ok IH(1) by (simp add: tm_read_Cons [OF ok] fun_eq_iff del: vpb_mem_read.simps(2))
  qed
qed

interpretation tm_bus: le_memory "virtual_pci_bus test_mem_dev" "\<lambda>ss. \<forall>s \<in> set ss. tm_ok (vs_device s)" tm_byte
proof
  fix ss :: "test_mem_device virtual_slot list" and addr w ss' v
  assume "\<forall>s \<in> set ss. tm_ok (vs_device s)" "unat addr mod unat (aw_bytes w) = 0"
    "pb_mem_read (virtual_pci_bus test_mem_dev) ss addr w = (ss', v)"
  then show "(\<forall>s \<in> set ss'. tm_ok (vs_device s)) \<and> tm_byte ss' = tm_byte ss \<and>
      v = from_le (map (\<lambda>i. tm_byte ss (addr + of_nat i)) [0..<unat (aw_bytes w)])"
    using tm_mem_read_law [of ss addr w] by (simp add: virtual_pci_bus_def)
qed


lemma to_le_swap_lanes:
  "take (unat (aw_bytes w)) (to_le 4 (swap_lanes v w)) = drop (4 - unat (aw_bytes w)) (to_be 4 v)"
proof (cases w)
  case W8
  then show ?thesis by (simp add: to_le_def to_be_def upt_small)
next
  case W16
  have "ucast (ucast (from_be [a, b] :: u16) :: u32) = b" "ucast (drop_bit 8 (ucast (from_be [a, b] :: u16) :: u32)) = a" for a b :: u8
    by (rule bit_word_eqI, simp add: bit_simps bit_from_be)+
  then show ?thesis using W16 by (simp add: to_le_def to_be_def upt_small swap_bytes_u16_def) (auto intro!: bit_word_eqI simp: bit_simps)
next
  case W32
  then show ?thesis by (simp add: to_le_def swap_bytes_u32_def)
qed

text \<open>C18 [equivalence]: A sized access through the aperture is byte for byte what byte accesses at the same offset would be. On any backend
  whose memory space answers an aligned access with the little-endian composition of its bytes, the value the guest
  reads is the big-endian composition of the bytes it would have read one at a time; and a sized write hands the
  backend a value whose little-endian bytes are the guest's bytes in address order.\<close>

theorem pcibridge_sized_access_is_bytewise:
  assumes "le_memory ops ok byte" "ok (br_backend b)"
    and "(unat (br_aperture_base b) + unat k) mod unat (aw_bytes w) = 0" "unat k + 4 \<le> 2 ^ 32"
  shows "snd (br_read_aperture_sized ops b k w) =
      from_be (map (\<lambda>i. snd (br_read_aperture ops b (k + of_nat i))) [0..<unat (aw_bytes w)]) \<and>
    (\<exists>v'. br_write_aperture_sized ops b k w v =
         b\<lparr>br_backend := pb_mem_write ops (br_backend b) (ucast (br_aperture_base b) + ucast k) w v'\<rparr> \<and>
       take (unat (aw_bytes w)) (to_le 4 v') = drop (4 - unat (aw_bytes w)) (to_be 4 v))"
  using le_memory.sized_read [OF assms] to_le_swap_lanes [of w v]
  by (auto simp: br_write_aperture_sized_def Let_def)

text \<open>A test memory device assigned to 0x40000000, behind the virtual bus.\<close>

definition tm_live :: test_mem_device where
  "tm_live = test_mem_new\<lparr>tm_config := cs_write (cs_write (tm_config test_mem_new) (bar_off 0) W32 0x40000000) OFF_COMMAND W8 2\<rparr>"

definition tm_bridge :: "test_mem_device virtual_slot list pci_bridge" where
  "tm_bridge = (br_new [\<lparr>vs_bdf = \<lparr>bdf_bus = 0, bdf_device = 2, bdf_function = 0\<rparr>, vs_device = tm_live\<rparr>])\<lparr>br_aperture_base := 0x40000000\<rparr>"

lemma pcibridge_sized_access_is_bytewise_witness:
  "snd (br_read_aperture_sized (virtual_pci_bus test_mem_dev) tm_bridge 0x10 W32) =
     from_be (map (\<lambda>i. snd (br_read_aperture (virtual_pci_bus test_mem_dev) tm_bridge (0x10 + of_nat i))) [0..<4])"
proof -
  have "cs_ok (tm_config test_mem_new)" by (simp add: test_mem_new_def cs_new_ok)
  then have "cs_ok (tm_config tm_live)" "cs_bar_kinds (tm_config tm_live) = cs_bar_kinds (tm_config test_mem_new)"
    using cs_write_effect by (simp_all add: tm_live_def)
  then have "tm_ok tm_live" by (simp add: tm_ok_def) (simp add: test_mem_new_def cs_new_def Let_def)
  then have ok: "\<forall>s \<in> set (br_backend tm_bridge). tm_ok (vs_device s)" by (simp add: tm_bridge_def br_new_def)
  have "br_aperture_base tm_bridge = 0x40000000" by (simp add: tm_bridge_def)
  then have "(unat (br_aperture_base tm_bridge) + unat (0x10 :: u32)) mod unat (aw_bytes W32) = 0" "unat (0x10 :: u32) + 4 \<le> 2 ^ 32"
    by simp_all
  from pcibridge_sized_access_is_bytewise [OF tm_bus.le_memory_axioms ok this] show ?thesis by simp
qed

section \<open>Configuration cycles\<close>

definition cfg_well_formed :: "'b pci_bridge \<Rightarrow> u8 \<Rightarrow> access_width \<Rightarrow> bool" where
  "cfg_well_formed b op w \<longleftrightarrow> unat op \<le> 1 \<and> unat (br_cfg_addr b) < 2 ^ 28 \<and> unat (br_cfg_width b) = unat (aw_bytes w) \<and>
     unat (br_cfg_addr b) mod unat (aw_bytes w) = 0"


lemma unat_low_bits: "unat (x AND mask n) = unat x mod 2 ^ n" for x :: "'a::len word"
proof -
  have "unat (take_bit n x) = unat x mod 2 ^ n" unfolding unsigned_take_bit_eq by (simp add: take_bit_eq_mod)
  then show ?thesis by (simp add: take_bit_eq_mask)
qed

lemma top_nibble: "a AND 0xF0000000 = 0 \<longleftrightarrow> unat a < 2 ^ 28" for a :: u32
proof -
  have m: "(0xF0000000 :: u32) = push_bit 28 (mask 4)" by (simp add: push_bit_eq_mult mask_eq_exp_minus_1)
  have "a AND 0xF0000000 = 0 \<longleftrightarrow> (\<forall>k. 28 \<le> k \<longrightarrow> \<not> bit a k)"
  proof
    assume h: "a AND 0xF0000000 = 0"
    show "\<forall>k. 28 \<le> k \<longrightarrow> \<not> bit a k"
    proof (intro allI impI)
      fix k :: nat assume "28 \<le> k"
      have "\<not> bit (a AND push_bit 28 (mask 4)) k" using h m by simp
      then show "\<not> bit a k" using \<open>28 \<le> k\<close> bit_imp_le_length [of a k] by (auto simp: bit_simps)
    qed
  next
    assume "\<forall>k. 28 \<le> k \<longrightarrow> \<not> bit a k"
    then show "a AND 0xF0000000 = 0" unfolding m word_zero_bits by (auto simp: bit_simps)
  qed
  also have "\<dots> \<longleftrightarrow> take_bit 28 a = a"
  proof
    assume "take_bit 28 a = a"
    then show "\<forall>k. 28 \<le> k \<longrightarrow> \<not> bit a k" by (metis bit_take_bit_iff linorder_not_less)
  next
    assume "\<forall>k. 28 \<le> k \<longrightarrow> \<not> bit a k"
    then show "take_bit 28 a = a" by (auto intro!: bit_word_eqI simp: bit_simps) (metis linorder_not_less)
  qed
  also have "\<dots> \<longleftrightarrow> unat a mod 2 ^ 28 = unat a"
    using unat_low_bits [of a 28] by (metis take_bit_eq_mask word_unat_eq_iff)
  also have "\<dots> \<longleftrightarrow> unat a < 2 ^ 28" by (metis mod_less mod_less_divisor zero_less_numeral zero_less_power)
  finally show ?thesis .
qed

lemma cfg_offset:
  fixes a :: u32
  defines "off \<equiv> ucast (a AND 0x00000FFF) :: u16"
  shows "unat off = unat a mod 4096"
    and "ucast off AND (aw_bytes w - 1) = 0 \<longleftrightarrow> unat a mod unat (aw_bytes w) = 0"
proof -
  have "(0xFFF :: u32) = mask 12" by (simp add: mask_eq_exp_minus_1)
  then have low: "unat (a AND 0xFFF) = unat a mod 4096" using unat_low_bits [of a 12] by simp
  then have "unat (a AND 0xFFF) < 2 ^ 16" by (rule ssubst) (rule less_trans [of _ 4096], simp_all)
  then show o: "unat off = unat a mod 4096" using low by (simp add: off_def unat_ucast_mod)
  have u: "unat (ucast off :: u32) = unat off"
    using unat_lt2p_of [of off] by (simp add: unat_ucast_mod)
  have "unat (ucast off AND (mask n :: u32)) = unat a mod 2 ^ n" if "n \<le> 12" for n
  proof -
    have "(2 :: nat) ^ n dvd 2 ^ 12" using that by (rule le_imp_power_dvd)
    then have "unat a mod 4096 mod 2 ^ n = unat a mod 2 ^ n" by (simp add: mod_mod_cancel)
    then show ?thesis using unat_low_bits [of "ucast off :: u32" n] u o by simp
  qed
  from this [of 0] this [of 1] this [of 2]
  show "ucast off AND (aw_bytes w - 1) = 0 \<longleftrightarrow> unat a mod unat (aw_bytes w) = 0"
    by (cases w) (simp_all add: mask_eq_exp_minus_1 word_unat_eq_iff)
qed


definition cfg_target :: "u32 \<Rightarrow> bdf" where
  "cfg_target a = \<lparr>bdf_bus = of_nat (unat a div 2 ^ 20), bdf_device = of_nat (unat a div 2 ^ 15 mod 32),
     bdf_function = of_nat (unat a div 2 ^ 12 mod 8)\<rparr>"

lemma field_of: "ucast (drop_bit k a AND mask n) = (of_nat (unat a div 2 ^ k mod 2 ^ n) :: 'b::len word)" for a :: "'a::len word"
proof -
  have "unat (drop_bit k a AND mask n) = unat a div 2 ^ k mod 2 ^ n"
    unfolding unat_low_bits unat_drop_bit_eq by (simp add: drop_bit_eq_div)
  then show ?thesis by (metis of_nat_unat)
qed

lemma cfg_bdf_target: "unat a < 2 ^ 28 \<Longrightarrow> cfg_bdf a = cfg_target a"
  using field_of [of 20 a 8, where 'b = 8] field_of [of 15 a 5, where 'b = 8] field_of [of 12 a 3, where 'b = 8]
  by (simp add: cfg_bdf_def cfg_target_def mask_eq_exp_minus_1)

lemma cfg_op_well_formed:
  assumes "cfg_well_formed b op w"
  defines "off \<equiv> of_nat (unat (br_cfg_addr b) mod 4096) :: u16"
  shows "br_cfg_op ops b op =
      (if op = 0 then
         let (bk, v) = pb_config_read ops (br_backend b) (cfg_target (br_cfg_addr b)) off w
         in b\<lparr>br_backend := bk, br_cfg_data := v, br_cfg_status := PB_COMPLETED\<rparr>
       else b\<lparr>br_backend := pb_config_write ops (br_backend b) (cfg_target (br_cfg_addr b)) off w (br_cfg_data b),
              br_cfg_status := PB_COMPLETED\<rparr>)"
proof -
  have a: "\<not> op > 1" "br_cfg_addr b AND 0xF0000000 = 0" "aw_from_bytes (br_cfg_width b) = Some w"
    "ucast (ucast (br_cfg_addr b AND 0xFFF) :: u16) AND (aw_bytes w - 1) = 0"
    using assms(1) unfolding cfg_well_formed_def top_nibble cfg_offset(2)
    by (auto simp: word_less_nat_alt) (cases w; simp add: aw_from_bytes_def word_unat_eq_iff)
  have "ucast (br_cfg_addr b AND 0xFFF) = off"
    unfolding off_def using cfg_offset(1) [of "br_cfg_addr b"] by (metis of_nat_unat ucast_id)
  then show ?thesis using a assms(1) by (simp add: br_cfg_op_def cfg_well_formed_def cfg_bdf_target)
qed

lemma cfg_op_malformed:
  assumes "\<And>w. \<not> cfg_well_formed b op w"
  shows "br_cfg_op ops b op = b\<lparr>br_cfg_status := PB_REJECTED\<rparr>"
proof (cases "aw_from_bytes (br_cfg_width b)")
  case None
  then show ?thesis by (simp add: br_cfg_op_def)
next
  case (Some w)
  then have "unat (br_cfg_width b) = unat (aw_bytes w)" by (auto simp: aw_from_bytes_def split: if_splits)
  then have "op > 1 \<or> br_cfg_addr b AND 0xF0000000 \<noteq> 0 \<or> ucast (ucast (br_cfg_addr b AND 0xFFF) :: u16) AND (aw_bytes w - 1) \<noteq> 0"
    using assms [of w] unfolding cfg_well_formed_def top_nibble cfg_offset(2) by (auto simp: word_less_nat_alt)
  then show ?thesis using Some by (auto simp: br_cfg_op_def)
qed

text \<open>A configuration cycle is attempted exactly when the request is well formed: the opcode is read or write, the
  reserved address bits are clear, the width is one, two or four bytes and divides the offset. Then the backend is asked
  about the function that the address names (bus, device and function as fields of the address) at an offset whose
  access stays inside the 4 KB space; otherwise nothing changes but the status, which reads rejected.\<close>

lemma pcibridge_config_cycle:
  fixes b :: "'b pci_bridge"
  defines "off \<equiv> (of_nat (unat (br_cfg_addr b) mod 4096) :: u16)"
  shows "(cfg_well_formed b op w \<longrightarrow> unat off + unat (aw_bytes w) \<le> 4096 \<and>
      br_cfg_op ops b op =
      (if op = 0 then
         let (bk, v) = pb_config_read ops (br_backend b) (cfg_target (br_cfg_addr b)) off w
         in b\<lparr>br_backend := bk, br_cfg_data := v, br_cfg_status := PB_COMPLETED\<rparr>
       else b\<lparr>br_backend := pb_config_write ops (br_backend b) (cfg_target (br_cfg_addr b)) off w (br_cfg_data b),
              br_cfg_status := PB_COMPLETED\<rparr>)) \<and>
    ((\<nexists>w. cfg_well_formed b op w) \<longrightarrow> br_cfg_op ops b op = b\<lparr>br_cfg_status := PB_REJECTED\<rparr>)"
proof -
  have "unat off + unat (aw_bytes w) \<le> 4096" if "cfg_well_formed b op w"
  proof -
    have n: "unat (aw_bytes w) dvd 4096" by (cases w) simp_all
    then have "unat (aw_bytes w) dvd 4096 - unat (br_cfg_addr b) mod 4096"
      using that by (simp add: cfg_well_formed_def dvd_mod_iff mod_eq_0_iff_dvd dvd_diff_nat)
    then have "unat (aw_bytes w) \<le> 4096 - unat (br_cfg_addr b) mod 4096" by (rule dvd_imp_le) simp
    moreover have "unat off = unat (br_cfg_addr b) mod 4096" unfolding off_def
      by (rule unat_of_nat_less) (rule less_trans [of _ 4096], simp_all)
    moreover have "unat (br_cfg_addr b) mod 4096 < 4096" by simp
    ultimately show ?thesis by linarith
  qed
  then show ?thesis
    using cfg_op_well_formed [of b op w ops] cfg_op_malformed [of b op ops] unfolding off_def by auto
qed

text \<open>Reading the vendor and device identifiers of the test device at 00:02.0.\<close>

definition tm_asked :: "test_mem_device virtual_slot list pci_bridge" where
  "tm_asked = tm_bridge\<lparr>br_cfg_addr := 0x00010000, br_cfg_width := 4\<rparr>"

lemma pcibridge_config_cycle_witness:
  "br_cfg_status (br_cfg_op (virtual_pci_bus test_mem_dev) tm_asked 0) = PB_COMPLETED"
proof -
  have wf: "cfg_well_formed tm_asked 0 W32" by (simp add: cfg_well_formed_def tm_asked_def)
  from pcibridge_config_cycle [where b = tm_asked and op = 0 and w = W32 and ops = "virtual_pci_bus test_mem_dev"] wf show ?thesis
    by (simp add: case_prod_beta Let_def)
qed

end
