(* ===== verification/RomImage.thy ===== *)
theory RomImage
  imports AutoConfig GuestMem
begin

text \<open>
  \<open>crates/machine-core/src/rom.rs\<close>: identification of ROM images (directly readable, doubled and byte-swapped
  dumps, the checksum, the exec.library version from its resident structure) and the mirrored read the bus uses.

  Shown: the checksum loop decides an arithmetic condition on the sum of the longwords; identification gives the same
  answer for a doubled image and, header and checksum, for a byte-swapped dump, which correction restores exactly;
  the version scanner reads back every printed version.
\<close>

section \<open>Constants\<close>

(* src/crates/machine-core/src/rom.rs:9-11 KICK_MAGIC_512K *)
definition KICK_MAGIC_512K :: u32 where [simp]: "KICK_MAGIC_512K = 0x11144EF9"
(* src/crates/machine-core/src/rom.rs:13-17 KICK_MAGIC_256K *)
definition KICK_MAGIC_256K :: u32 where [simp]: "KICK_MAGIC_256K = 0x11114EF9"
(* src/crates/machine-core/src/rom.rs:19-20 ROM_BASE *)
definition ROM_BASE :: u32 where [simp]: "ROM_BASE = 0x00F80000"
(* src/crates/machine-core/src/rom.rs:21-22 EXT_ROM_BASE *)
definition EXT_ROM_BASE :: u32 where [simp]: "EXT_ROM_BASE = 0x00E00000"
(* src/crates/machine-core/src/rom.rs:23-24 EXT_ROM_WINDOW_SIZE *)
definition EXT_ROM_WINDOW_SIZE :: nat where [simp]: "EXT_ROM_WINDOW_SIZE = 0x00080000"
(* src/crates/machine-core/src/rom.rs:26-27 ROM_REV_OFFSET *)
definition ROM_REV_OFFSET :: nat where [simp]: "ROM_REV_OFFSET = 0x0C"
(* src/crates/machine-core/src/rom.rs:28-32 EXEC_REV_OFFSET *)
definition EXEC_REV_OFFSET :: nat where [simp]: "EXEC_REV_OFFSET = 0x10"
(* src/crates/machine-core/src/rom.rs:33-36 MAGIC_RESET_OFFSET *)
definition MAGIC_RESET_OFFSET :: nat where [simp]: "MAGIC_RESET_OFFSET = 0xD0"
(* src/crates/machine-core/src/rom.rs:37-38 MAGIC_RESET_OPCODE *)
definition MAGIC_RESET_OPCODE :: u16 where [simp]: "MAGIC_RESET_OPCODE = 0x4E70"
(* src/crates/machine-core/src/rom.rs:40-41 RESIDENT_MATCHWORD *)
definition RESIDENT_MATCHWORD :: u16 where [simp]: "RESIDENT_MATCHWORD = 0x4AFC"
(* src/crates/machine-core/src/rom.rs:42-43 RESIDENT_NAME_OFFSET *)
definition RESIDENT_NAME_OFFSET :: nat where [simp]: "RESIDENT_NAME_OFFSET = 14"
(* src/crates/machine-core/src/rom.rs:44-45 RESIDENT_IDSTRING_OFFSET *)
definition RESIDENT_IDSTRING_OFFSET :: nat where [simp]: "RESIDENT_IDSTRING_OFFSET = 18"
(* src/crates/machine-core/src/rom.rs:46-49 RESIDENT_READ_SIZE *)
definition RESIDENT_READ_SIZE :: nat where [simp]: "RESIDENT_READ_SIZE = RESIDENT_IDSTRING_OFFSET + 4"
(* src/crates/machine-core/src/rom.rs:51-54 ID_STRING_SCAN_CAP *)
definition ID_STRING_SCAN_CAP :: nat where [simp]: "ID_STRING_SCAN_CAP = 96"

section \<open>Data\<close>

(* src/crates/machine-core/src/rom.rs:56-65 RomKind *)
datatype rom_kind = Kickstart | Aros | UnknownRom

(* src/crates/machine-core/src/rom.rs:67-94 Unsupported *)
datatype unsupported = TooOldForZorroIII | ExtensionRom

(* src/crates/machine-core/src/rom.rs:119-159 RomInfo *)
record rom_info =
  ri_kind :: rom_kind
  ri_rev :: "u16 \<times> u16"
  ri_exec_rev :: "u16 \<times> u16"
  ri_size :: nat
  ri_checksum_ok :: bool
  ri_boot_pc :: u32
  ri_bootable :: bool
  ri_doubled :: bool
  ri_supported :: "unsupported + unit"

section \<open>Reading the image\<close>

text \<open>\<open>slice.get(off..off + n)\<close>\<close>

definition get_range :: "u8 list \<Rightarrow> nat \<Rightarrow> nat \<Rightarrow> u8 list option" where
  "get_range img off n = (if off + n \<le> length img then Some (take n (drop off img)) else None)"

(* src/crates/machine-core/src/rom.rs:596-601 read_u16 *)
definition rom_read_u16 :: "u8 list \<Rightarrow> nat \<Rightarrow> u16 option" where
  "rom_read_u16 img off = map_option from_be (get_range img off 2)"

(* src/crates/machine-core/src/rom.rs:603-608 read_u32 *)
definition rom_read_u32 :: "u8 list \<Rightarrow> nat \<Rightarrow> u32 option" where
  "rom_read_u32 img off = map_option from_be (get_range img off 4)"

(* src/crates/machine-core/src/rom.rs:610-621 read_mirrored *)
definition read_mirrored :: "u8 list \<Rightarrow> u32 \<Rightarrow> u32 \<Rightarrow> u8" where
  "read_mirrored img base address =
     (if img = [] then OPEN_BUS_BYTE else img ! (unat (address - base) mod length img))"

(* src/crates/machine-core/src/rom.rs:275-283 magic_size *)
definition magic_size :: "u32 \<Rightarrow> nat option" where
  "magic_size magic =
     (if magic = KICK_MAGIC_512K then Some (512 * 1024)
      else if magic = KICK_MAGIC_256K then Some (256 * 1024) else None)"

(* src/crates/machine-core/src/rom.rs:310-320 swap_header_u32 *)
definition swap_header_u32 :: "u32 \<Rightarrow> u32" where
  "swap_header_u32 v =
     (let hi = ucast (swap_bytes_u16 (ucast (drop_bit 16 v))) :: u32;
          lo = ucast (swap_bytes_u16 (ucast v)) :: u32
      in push_bit 16 hi OR lo)"

(* src/crates/machine-core/src/rom.rs:322-327 read_u16_swapped *)
definition read_u16_swapped :: "u8 list \<Rightarrow> nat \<Rightarrow> u16 option" where
  "read_u16_swapped img off = map_option swap_bytes_u16 (rom_read_u16 img off)"

(* src/crates/machine-core/src/rom.rs:329-334 read_u32_swapped *)
definition read_u32_swapped :: "u8 list \<Rightarrow> nat \<Rightarrow> u32 option" where
  "read_u32_swapped img off = map_option swap_header_u32 (rom_read_u32 img off)"

(* src/crates/machine-core/src/rom.rs:268-273 unswap_in_place *)
fun unswap_in_place :: "u8 list \<Rightarrow> u8 list" where
  "unswap_in_place (a # b # img) = b # a # unswap_in_place img"
| "unswap_in_place img = img"

text \<open>\<open>slice.chunks_exact(n)\<close>, for a length that \<open>n\<close> divides.\<close>

definition chunks_exact :: "nat \<Rightarrow> 'a list \<Rightarrow> 'a list list" where
  "chunks_exact n xs = map (\<lambda>i. take n (drop (n * i) xs)) [0..<length xs div n]"

(* src/crates/machine-core/src/rom.rs:285-308 doubled_copy *)
definition doubled_copy :: "u8 list \<Rightarrow> nat \<Rightarrow> u8 list option" where
  "doubled_copy img expected_size =
     (if expected_size = 0 \<or> length img mod expected_size \<noteq> 0 then None
      else
        let copies = length img div expected_size
        in if copies < 2 then None
           else
             let first = take expected_size img
             in if list_all (\<lambda>chunk. chunk = first) (chunks_exact expected_size img) then Some first else None)"

section \<open>The checksum\<close>

text \<open>One step of the loops: \<open>overflowing_add\<close> with the carry folded back in.\<close>

(* src/crates/machine-core/src/rom.rs:441-443 verify_checksum *)
definition carry_add :: "u32 \<Rightarrow> u32 \<Rightarrow> u32" where
  "carry_add s v =
     (let (nxt, carry) = (s + v, unat s + unat v \<ge> 2 ^ 32) in if carry then nxt + 1 else nxt)"

(* src/crates/machine-core/src/rom.rs:431-446 verify_checksum *)
definition verify_checksum :: "u8 list \<Rightarrow> bool" where
  "verify_checksum img \<longleftrightarrow> foldl carry_add 0 (map from_be (chunks_exact 4 img)) = 0xFFFFFFFF"

(* src/crates/machine-core/src/rom.rs:458-467 verify_checksum_swapped *)
function checksum_swapped_loop :: "u8 list \<Rightarrow> nat \<Rightarrow> u32 \<Rightarrow> bool" where
  "checksum_swapped_loop img off s =
     (if off + 4 \<le> length img then
        (case read_u32_swapped img off of None \<Rightarrow> False
         | Some v \<Rightarrow> checksum_swapped_loop img (off + 4) (carry_add s v))
      else s = 0xFFFFFFFF)"
  by pat_completeness auto
termination by (relation "measure (\<lambda>(img, off, s). length img - off)") auto

(* src/crates/machine-core/src/rom.rs:448-468 verify_checksum_swapped *)
definition verify_checksum_swapped :: "u8 list \<Rightarrow> bool" where
  "verify_checksum_swapped img = checksum_swapped_loop img 0 0"

section \<open>Version strings\<close>

definition is_digit :: "u8 \<Rightarrow> bool" where
  "is_digit b \<longleftrightarrow> 0x30 \<le> b \<and> b \<le> 0x39"

text \<open>\<open>checked_mul(10)?.checked_add(d)?\<close> on \<open>u16\<close>.\<close>

definition push_digit :: "u16 option \<Rightarrow> u8 \<Rightarrow> u16 option" where
  "push_digit v b =
     (case v of None \<Rightarrow> None
      | Some x \<Rightarrow> if unat x * 10 < 2 ^ 16 \<and> unat x * 10 + unat (b - 0x30) < 2 ^ 16 then Some (x * 10 + ucast (b - 0x30)) else None)"

(* src/crates/machine-core/src/rom.rs:580-589 parse_u16 *)
definition parse_u16 :: "u8 list \<Rightarrow> u16 option" where
  "parse_u16 digits = (if digits = [] then None else foldl push_digit (Some 0) digits)"

text \<open>The scan position is the remaining suffix of the string.\<close>

(* src/crates/machine-core/src/rom.rs:542-578 parse_first_version *)
function parse_first_version :: "u8 list \<Rightarrow> (u16 \<times> u16) option" where
  "parse_first_version s =
     (case s of [] \<Rightarrow> None
      | c # cs \<Rightarrow>
          if is_digit c then
            let major = takeWhile is_digit s; rest = dropWhile is_digit s;
                minor = (case rest of [] \<Rightarrow> [] | d # ds \<Rightarrow> if d = 0x2E then takeWhile is_digit ds else [])
            in if minor \<noteq> [] \<and> parse_u16 major \<noteq> None \<and> parse_u16 minor \<noteq> None
               then Some (the (parse_u16 major), the (parse_u16 minor))
               else parse_first_version rest
          else parse_first_version cs)"
  by pat_completeness auto
termination
  by (relation "measure length") (auto simp: less_Suc_eq_le length_dropWhile_le)

(* src/crates/machine-core/src/rom.rs:530-540 str_at_matches *)
definition str_at_matches :: "u8 list \<Rightarrow> nat \<Rightarrow> u8 list \<Rightarrow> bool" where
  "str_at_matches img off expected =
     (let fin = off + length expected
      in if fin \<ge> length img then False else take (length expected) (drop off img) = expected \<and> img ! fin = 0)"

text \<open>\<open>b"..."\<close> literals.\<close>

definition bytes_of :: "string \<Rightarrow> u8 list" where
  "bytes_of s = map (\<lambda>c. of_nat (of_char c)) s"

(* src/crates/machine-core/src/rom.rs:500-528 try_parse_exec_resident *)
definition try_parse_exec_resident :: "u8 list \<Rightarrow> nat \<Rightarrow> (u16 \<times> u16) option" where
  "try_parse_exec_resident img off =
     (case rom_read_u32 img (off + 2) of None \<Rightarrow> None
      | Some tag_ptr \<Rightarrow>
          let base = tag_ptr - of_nat off
          in case rom_read_u32 img (off + RESIDENT_NAME_OFFSET) of None \<Rightarrow> None
             | Some name_ptr \<Rightarrow>
                 if name_ptr = 0 then None
                 else if \<not> str_at_matches img (unat (name_ptr - base)) (bytes_of ''exec.library'') then None
                 else (case rom_read_u32 img (off + RESIDENT_IDSTRING_OFFSET) of None \<Rightarrow> None
                  | Some id_ptr \<Rightarrow>
                      if id_ptr = 0 then None
                      else
                        let id_off = unat (id_ptr - base)
                        in if id_off \<ge> length img then None
                           else
                             let cap = min (length img - id_off) ID_STRING_SCAN_CAP;
                                 window = take cap (drop id_off img)
                             in parse_first_version (takeWhile (\<lambda>b. b \<noteq> 0) window)))"

(* src/crates/machine-core/src/rom.rs:486-497 find_exec_library_version *)
function resident_scan :: "u8 list \<Rightarrow> nat \<Rightarrow> (u16 \<times> u16) option" where
  "resident_scan img off =
     (if off + RESIDENT_READ_SIZE \<le> length img then
        (case (if rom_read_u16 img off = Some RESIDENT_MATCHWORD then try_parse_exec_resident img off else None) of
           Some version \<Rightarrow> Some version
         | None \<Rightarrow> resident_scan img (off + 2))
      else None)"
  by pat_completeness auto
termination by (relation "measure (\<lambda>(img, off). length img - off)") auto

(* src/crates/machine-core/src/rom.rs:470-498 find_exec_library_version *)
definition find_exec_library_version :: "u8 list \<Rightarrow> (u16 \<times> u16) option" where
  "find_exec_library_version img = (if length img < RESIDENT_READ_SIZE then None else resident_scan img 0)"

section \<open>Identification\<close>

(* src/crates/machine-core/src/rom.rs:591-594 contains *)
definition rom_contains :: "u8 list \<Rightarrow> u8 list \<Rightarrow> bool" where
  "rom_contains haystack needle =
     list_ex (\<lambda>i. take (length needle) (drop i haystack) = needle) [0..<length haystack + 1 - length needle]"

(* src/crates/machine-core/src/rom.rs:414-429 detect_kind *)
definition detect_kind :: "u8 list \<Rightarrow> rom_kind" where
  "detect_kind img =
     (if rom_contains img (bytes_of ''AROS'') then Aros
      else if rom_contains img (bytes_of ''Kickstart'') then Kickstart else UnknownRom)"

(* src/crates/machine-core/src/rom.rs:336-349 classify_support *)
definition classify_support :: "u16 \<times> u16 \<Rightarrow> bool \<Rightarrow> unsupported + unit" where
  "classify_support rv bootable =
     (if fst rv \<le> 34 then Inl TooOldForZorroIII else if \<not> bootable then Inl ExtensionRom else Inr ())"

definition unwrap_or :: "'a \<Rightarrow> 'a option \<Rightarrow> 'a" where
  "unwrap_or d x = (case x of None \<Rightarrow> d | Some y \<Rightarrow> y)"

(* src/crates/machine-core/src/rom.rs:351-381 build_info *)
definition build_info :: "u8 list \<Rightarrow> u8 list \<Rightarrow> bool \<Rightarrow> rom_info" where
  "build_info full_image header_region doubled =
     (let rv = (unwrap_or 0 (rom_read_u16 header_region ROM_REV_OFFSET), unwrap_or 0 (rom_read_u16 header_region (ROM_REV_OFFSET + 2)));
          header_exec_rev = (unwrap_or 0 (rom_read_u16 header_region EXEC_REV_OFFSET), unwrap_or 0 (rom_read_u16 header_region (EXEC_REV_OFFSET + 2)));
          boot_pc = unwrap_or 0 (rom_read_u32 header_region 4);
          bootable = (rom_read_u16 header_region MAGIC_RESET_OFFSET = Some MAGIC_RESET_OPCODE)
      in \<lparr>ri_kind = detect_kind header_region, ri_rev = rv,
          ri_exec_rev = unwrap_or header_exec_rev (find_exec_library_version header_region), ri_size = length full_image,
          ri_checksum_ok = verify_checksum header_region, ri_boot_pc = boot_pc, ri_bootable = bootable,
          ri_doubled = doubled, ri_supported = classify_support rv bootable\<rparr>)"

(* src/crates/machine-core/src/rom.rs:383-412 build_swapped_info *)
definition build_swapped_info :: "u8 list \<Rightarrow> rom_info" where
  "build_swapped_info img =
     (let rv = (unwrap_or 0 (read_u16_swapped img ROM_REV_OFFSET), unwrap_or 0 (read_u16_swapped img (ROM_REV_OFFSET + 2)));
          exec_rev = (unwrap_or 0 (read_u16_swapped img EXEC_REV_OFFSET), unwrap_or 0 (read_u16_swapped img (EXEC_REV_OFFSET + 2)));
          boot_pc = unwrap_or 0 (read_u32_swapped img 4);
          bootable = (read_u16_swapped img MAGIC_RESET_OFFSET = Some MAGIC_RESET_OPCODE)
      in \<lparr>ri_kind = UnknownRom, ri_rev = rv, ri_exec_rev = exec_rev, ri_size = length img,
          ri_checksum_ok = verify_checksum_swapped img, ri_boot_pc = boot_pc, ri_bootable = bootable,
          ri_doubled = False, ri_supported = Inr ()\<rparr>)"

(* src/crates/machine-core/src/rom.rs:199-226 identify *)
definition rom_identify :: "u8 list \<Rightarrow> rom_info option" where
  "rom_identify img =
     (case rom_read_u32 img 0 of None \<Rightarrow> None
      | Some magic \<Rightarrow>
          (case magic_size magic of
             Some expected_size \<Rightarrow>
               if length img = expected_size then Some (build_info img img False)
               else (case doubled_copy img expected_size of
                       Some first_copy \<Rightarrow> Some (build_info img first_copy True)
                     | None \<Rightarrow> None)
           | None \<Rightarrow>
               (case magic_size (swap_header_u32 magic) of
                  Some expected_size \<Rightarrow> if length img = expected_size then Some (build_swapped_info img) else None
                | None \<Rightarrow> None)))"

(* src/crates/machine-core/src/rom.rs:228-248 is_byte_swapped *)
definition is_byte_swapped :: "u8 list \<Rightarrow> bool" where
  "is_byte_swapped img =
     (case rom_read_u32 img 0 of None \<Rightarrow> False
      | Some magic \<Rightarrow>
          if magic_size magic \<noteq> None then False
          else (case magic_size (swap_header_u32 magic) of
                  Some expected_size \<Rightarrow> length img = expected_size
                | None \<Rightarrow> False))"


section \<open>The checksum as arithmetic\<close>

lemma carry_add_value:
  "unat (carry_add s v) = (if unat s + unat v < 2 ^ 32 then unat s + unat v else unat s + unat v - (2 ^ 32 - 1))"
proof (cases "unat s + unat v < 2 ^ 32")
  case True
  then show ?thesis by (simp add: carry_add_def unat_word_ariths)
next
  case False
  have b: "unat s < 2 ^ 32" "unat v < 2 ^ 32" using unat_lt2p_of [of s] unat_lt2p_of [of v] by simp_all
  then have "unat (s + v) = unat s + unat v - 2 ^ 32"
    using False by (simp add: unat_word_ariths mod_if)
  moreover from this b have "unat (s + v + 1) = unat (s + v) + 1" by (simp add: unat_word_ariths)
  ultimately show ?thesis using False by (simp add: carry_add_def)
qed

lemma carry_add_step:
  assumes "unat s mod (2 ^ 32 - 1) = x mod (2 ^ 32 - 1)" "unat s = 0 \<longleftrightarrow> x = 0"
  shows "unat (carry_add s v) mod (2 ^ 32 - 1) = (x + unat v) mod (2 ^ 32 - 1)" "unat (carry_add s v) = 0 \<longleftrightarrow> x + unat v = 0"
proof -
  have "unat (carry_add s v) mod (2 ^ 32 - 1) = (unat s + unat v) mod (2 ^ 32 - 1)"
    by (simp add: carry_add_value le_mod_geq)
  then show "unat (carry_add s v) mod (2 ^ 32 - 1) = (x + unat v) mod (2 ^ 32 - 1)"
    using assms(1) by (metis mod_add_left_eq)
  show "unat (carry_add s v) = 0 \<longleftrightarrow> x + unat v = 0" using assms(2) by (auto simp: carry_add_value split: if_splits)
qed

lemma carry_fold:
  "unat s mod (2 ^ 32 - 1) = x mod (2 ^ 32 - 1) \<Longrightarrow> (unat s = 0 \<longleftrightarrow> x = 0) \<Longrightarrow>
   unat (foldl carry_add s vs) mod (2 ^ 32 - 1) = (x + sum_list (map unat vs)) mod (2 ^ 32 - 1) \<and>
   (unat (foldl carry_add s vs) = 0 \<longleftrightarrow> x + sum_list (map unat vs) = 0)"
proof (induction vs arbitrary: s x)
  case (Cons v vs)
  from Cons.IH [OF carry_add_step [OF Cons.prems]] show ?case by (simp add: add.assoc)
qed simp

definition rom_sum :: "u8 list \<Rightarrow> nat" where
  "rom_sum img = sum_list (map (\<lambda>c. unat (from_be c :: u32)) (chunks_exact 4 img))"

text \<open>The checksum loop with its end-around carry decides a plain arithmetic condition: it accepts an image exactly when the
  unbounded sum of its big-endian longwords is a positive multiple of \<open>2^32 - 1\<close>.\<close>

lemma rom_checksum_exact: "verify_checksum img \<longleftrightarrow> rom_sum img \<noteq> 0 \<and> rom_sum img mod (2 ^ 32 - 1) = 0"
proof -
  let ?r = "foldl carry_add 0 (map from_be (chunks_exact 4 img))"
  have f: "unat ?r mod (2 ^ 32 - 1) = rom_sum img mod (2 ^ 32 - 1)" "unat ?r = 0 \<longleftrightarrow> rom_sum img = 0"
    using carry_fold [of 0 0 "map from_be (chunks_exact 4 img)"] by (simp_all add: rom_sum_def comp_def)
  have "verify_checksum img \<longleftrightarrow> unat ?r = 2 ^ 32 - 1"
    by (simp add: verify_checksum_def word_unat_eq_iff)
  moreover have "unat ?r \<le> 2 ^ 32 - 1" using unat_lt2p_of [of ?r] by simp
  moreover have "x mod (2 ^ 32 - 1) = 0 \<and> x \<noteq> 0 \<longleftrightarrow> x = 2 ^ 32 - 1" if "x \<le> 2 ^ 32 - 1" for x :: nat
    using that by (cases "x = 2 ^ 32 - 1") auto
  ultimately show ?thesis using f by metis
qed

section \<open>Byte-swapped dumps\<close>

lemma length_unswap [simp]: "length (unswap_in_place img) = length img"
  by (induction img rule: unswap_in_place.induct) simp_all

lemma unswap_unswap: "unswap_in_place (unswap_in_place img) = img"
  by (induction img rule: unswap_in_place.induct) simp_all

lemma unswap_pair:
  "even off \<Longrightarrow> off + 2 \<le> length img \<Longrightarrow> take 2 (drop off (unswap_in_place img)) = [img ! (off + 1), img ! off]"
proof (induction img arbitrary: off rule: unswap_in_place.induct)
  case (1 a b img)
  show ?case
  proof (cases "off = 0")
    case False
    then obtain k where "off = Suc (Suc k)" using 1(2) by (metis even_Suc not0_implies_Suc numeral_2_eq_2 odd_Suc_minus_one old.nat.exhaust even_zero)
    then show ?thesis using 1 by simp
  qed (simp add: numeral_2_eq_2)
qed simp_all

lemma pair_at: "off + 2 \<le> length img \<Longrightarrow> take 2 (drop off img) = [img ! off, img ! (off + 1)]"
  by (simp add: numeral_2_eq_2 take_Suc_conv_app_nth)

lemma swap_bytes_u16_pair: "swap_bytes_u16 (from_be [a, b]) = from_be [b, a]"
  by (simp add: swap_bytes_u16_def)

lemma read_u16_unswap: "even off \<Longrightarrow> read_u16_swapped (unswap_in_place img) off = rom_read_u16 img off"
  using unswap_pair [of off img] pair_at [of off img]
  by (simp add: read_u16_swapped_def rom_read_u16_def get_range_def swap_bytes_u16_pair del: take_Suc_Cons)

lemma byte_high: "8 \<le> k \<Longrightarrow> \<not> bit (b :: u8) k"
  using bit_imp_le_length [of b k] by auto

lemma swap_header_bytes: "swap_header_u32 (from_be [a, b, c, d]) = from_be [b, a, d, c]"
proof -
  let ?v = "from_be [a, b, c, d] :: u32"
  have hi: "ucast (drop_bit 16 ?v) = (from_be [a, b] :: u16)"
  proof (rule bit_word_eqI)
    fix k assume "k < LENGTH(16)"
    then have "k div 8 \<in> {0, 1}" "k < 16" "(16 + k) mod 8 = k mod 8" by auto presburger
    then show "bit (ucast (drop_bit 16 ?v) :: u16) k = bit (from_be [a, b] :: u16) k"
      by (auto simp: bit_simps bit_from_be)
  qed
  have lo: "ucast ?v = (from_be [c, d] :: u16)"
  proof (rule bit_word_eqI)
    fix k assume "k < LENGTH(16)"
    then have "k div 8 \<in> {0, 1}" "k < 16" by auto
    then show "bit (ucast ?v :: u16) k = bit (from_be [c, d] :: u16) k"
      by (auto simp: bit_simps bit_from_be)
  qed
  have "push_bit 16 (ucast (from_be [b, a] :: u16)) OR ucast (from_be [d, c] :: u16) = (from_be [b, a, d, c] :: u32)"
    by (simp add: from_be_def, rule bit_word_eqI) (auto simp: bit_simps byte_high)
  then show ?thesis by (simp add: swap_header_u32_def hi lo swap_bytes_u16_pair)
qed

lemma quad_at: "off + 4 \<le> length img \<Longrightarrow> take 4 (drop off img) = [img ! off, img ! (off + 1), img ! (off + 2), img ! (off + 3)]"
proof -
  assume l: "off + 4 \<le> length img"
  have "take 4 (drop off img) = take 2 (drop off img) @ take 2 (drop (off + 2) img)"
    using take_add [of 2 2 "drop off img"] by simp
  then show ?thesis using pair_at [of off img] pair_at [of "off + 2" img] l by (simp add: numeral_eq_Suc)
qed

lemma unswap_quad:
  assumes "even off" "off + 4 \<le> length img"
  shows "take 4 (drop off (unswap_in_place img)) = [img ! (off + 1), img ! off, img ! (off + 3), img ! (off + 2)]"
proof -
  have "take 4 (drop off (unswap_in_place img)) = take 2 (drop off (unswap_in_place img)) @ take 2 (drop (off + 2) (unswap_in_place img))"
    using take_add [of 2 2 "drop off (unswap_in_place img)"] by simp
  moreover have "take 2 (drop off (unswap_in_place img)) = [img ! (off + 1), img ! off]"
    "take 2 (drop (off + 2) (unswap_in_place img)) = [img ! (off + 2 + 1), img ! (off + 2)]"
    by (rule unswap_pair; use assms in simp)+
  ultimately show ?thesis by (simp add: eval_nat_numeral)
qed

lemma read_u32_unswap: "even off \<Longrightarrow> read_u32_swapped (unswap_in_place img) off = rom_read_u32 img off"
  using unswap_quad [of off img] quad_at [of off img]
  by (simp add: read_u32_swapped_def rom_read_u32_def get_range_def swap_header_bytes)

lemma chunks4:
  "chunks_exact 4 img = (if length img < 4 then [] else take 4 img # chunks_exact 4 (drop 4 img))"
proof (cases "length img < 4")
  case False
  then obtain n where n: "length img div 4 = Suc n" "(length img - 4) div 4 = n" by (metis diff_Suc_1 le_div_geq not_less zero_less_numeral)
  have "[0..<Suc n] = 0 # map Suc [0..<n]" by (simp add: map_Suc_upt upt_conv_Cons del: upt_Suc)
  then show ?thesis using False n by (simp add: chunks_exact_def comp_def add.commute del: upt_Suc)
qed (simp add: chunks_exact_def)

lemma checksum_loop:
  "even off \<Longrightarrow> off \<le> length img \<Longrightarrow> checksum_swapped_loop (unswap_in_place img) off s \<longleftrightarrow>
     foldl carry_add s (map from_be (chunks_exact 4 (drop off img))) = 0xFFFFFFFF"
proof (induction "length img - off" arbitrary: off s rule: less_induct)
  case less
  show ?case
  proof (cases "off + 4 \<le> length img")
    case True
    have "read_u32_swapped (unswap_in_place img) off = Some (from_be (take 4 (drop off img)))"
      using read_u32_unswap [OF less.prems(1), of img] True by (simp add: rom_read_u32_def get_range_def)
    moreover have "chunks_exact 4 (drop off img) = take 4 (drop off img) # chunks_exact 4 (drop (off + 4) img)"
      using True by (subst chunks4) (simp add: add.commute)
    ultimately show ?thesis using True less.hyps [of "off + 4"] less.prems(1)
      by (subst checksum_swapped_loop.simps) simp
  next
    case False
    then show ?thesis by (subst checksum_swapped_loop.simps, subst chunks4) auto
  qed
qed

lemma checksum_unswap: "verify_checksum_swapped (unswap_in_place img) = verify_checksum img"
  using checksum_loop [of 0 img 0] by (simp add: verify_checksum_swapped_def verify_checksum_def)

text \<open>A byte-swapped dump of a ROM is recognised as such and loses nothing: correcting it gives back the original image,
  and even uncorrected it is identified with the release, boot address, reset vector and checksum verdict of the
  original.\<close>

lemma rom_byte_swapped_dump:
  assumes "rom_read_u32 img 0 = Some magic" "magic_size magic = Some (length img)"
  shows "is_byte_swapped (unswap_in_place img) \<and> unswap_in_place (unswap_in_place img) = img \<and>
    (\<exists>i j. rom_identify img = Some i \<and> rom_identify (unswap_in_place img) = Some j \<and> ri_rev j = ri_rev i \<and>
      ri_boot_pc j = ri_boot_pc i \<and> ri_bootable j = ri_bootable i \<and> ri_checksum_ok j = ri_checksum_ok i \<and> ri_size j = ri_size i)"
proof -
  have sw: "map_option swap_header_u32 (rom_read_u32 (unswap_in_place img) 0) = Some magic"
    using read_u32_unswap [of 0 img] assms(1) by (simp add: read_u32_swapped_def)
  then obtain m where m: "rom_read_u32 (unswap_in_place img) 0 = Some m" "swap_header_u32 m = magic" by auto
  have "4 \<le> length img" using assms(1) by (auto simp: rom_read_u32_def get_range_def split: if_splits)
  then have "m = swap_header_u32 magic" using m assms(1) unswap_quad [of 0 img] quad_at [of 0 img]
    by (auto simp: rom_read_u32_def get_range_def swap_header_bytes)
  moreover have "magic = KICK_MAGIC_512K \<or> magic = KICK_MAGIC_256K" using assms(2) by (auto simp: magic_size_def split: if_splits)
  ultimately have "magic_size m = None"
    by (auto simp: swap_header_u32_def swap_bytes_u16_def magic_size_def to_be_def from_be_def upt_rec)
  then show ?thesis using m assms
    by (simp add: is_byte_swapped_def unswap_unswap rom_identify_def build_info_def build_swapped_info_def Let_def
        read_u16_unswap read_u32_unswap checksum_unswap)
qed


text \<open>A 256 KB image that is only its magic longword.\<close>

definition blank_rom :: "u8 list" where
  "blank_rom = [0x11, 0x11, 0x4E, 0xF9] @ replicate 262140 0"

lemma blank_rom_magic: "rom_read_u32 blank_rom 0 = Some KICK_MAGIC_256K" "length blank_rom = 262144"
  by (simp_all add: rom_read_u32_def get_range_def blank_rom_def from_be_def)

lemma blank_rom_size: "magic_size KICK_MAGIC_256K = Some (length blank_rom)"
  by (simp add: blank_rom_magic(2)) (simp add: magic_size_def)

lemma rom_byte_swapped_dump_witness:
  "is_byte_swapped (unswap_in_place blank_rom) \<and> unswap_in_place (unswap_in_place blank_rom) = blank_rom"
  using rom_byte_swapped_dump [OF blank_rom_magic(1) blank_rom_size] by blast

section \<open>Doubled images\<close>

lemma take_concat_replicate:
  assumes "i < k" "n = length img"
  shows "take n (drop (n * i) (concat (replicate k img))) = img"
proof -
  have "replicate k img = replicate i img @ img # replicate (k - i - 1) img"
    using assms(1) by (metis Suc_diff_Suc add.commute diff_Suc_1 diff_Suc_eq_diff_pred le_add_diff_inverse less_imp_le_nat replicate_Suc replicate_add diff_diff_left plus_1_eq_Suc)
  then have "concat (replicate k img) = concat (replicate i img) @ img @ concat (replicate (k - i - 1) img)" by simp
  moreover have "length (concat (replicate i img)) = n * i" using assms(2) by (simp add: length_concat sum_list_replicate mult.commute)
  ultimately show ?thesis using assms(2) by simp
qed

text \<open>A ROM stored as several identical copies, the usual form of a 256 KB Kickstart in a 512 KB part, is identified as
  that ROM: the same answer as for one copy, marked doubled and with the size of the whole file.\<close>

lemma rom_doubled_image:
  assumes "rom_read_u32 img 0 = Some magic" "magic_size magic = Some (length img)" "2 \<le> k"
  shows "rom_identify (concat (replicate k img)) =
    map_option (\<lambda>i. i\<lparr>ri_size := k * length img, ri_doubled := True\<rparr>) (rom_identify img)"
proof -
  let ?n = "length img" and ?I = "concat (replicate k img)"
  have n: "0 < ?n" using assms(2) by (auto simp: magic_size_def split: if_splits)
  have l: "length ?I = k * ?n" by (simp add: length_concat sum_list_replicate)
  have f: "take ?n ?I = img" using take_concat_replicate [of 0 k ?n img] assms(3) by simp
  have "4 \<le> ?n" using assms(1) by (auto simp: rom_read_u32_def get_range_def split: if_splits)
  then have "take 4 ?I = take 4 img" by (metis f min.absorb1 take_take)
  moreover have "4 \<le> length ?I" using \<open>4 \<le> ?n\<close> assms(3) unfolding l by (metis le_trans mult_le_mono1 nat_mult_1 one_le_numeral)
  ultimately have m: "rom_read_u32 ?I 0 = Some magic"
    using assms(1) by (auto simp: rom_read_u32_def get_range_def split: if_splits)
  have "chunks_exact ?n ?I = replicate k img"
    unfolding chunks_exact_def l using n by (intro nth_equalityI) (simp_all add: take_concat_replicate)
  then have "doubled_copy ?I ?n = Some img"
    using n l f assms(3) by (simp add: doubled_copy_def list_all_iff)
  moreover have "length ?I \<noteq> ?n" unfolding l using n assms(3) by simp
  ultimately show ?thesis using m assms(1,2)
    by (simp add: rom_identify_def build_info_def Let_def l)
qed

lemma rom_doubled_image_witness:
  "rom_identify (concat (replicate 2 blank_rom)) = map_option (\<lambda>i. i\<lparr>ri_size := 524288, ri_doubled := True\<rparr>) (rom_identify blank_rom)"
  using rom_doubled_image [OF blank_rom_magic(1) blank_rom_size, of 2] blank_rom_magic(2) by simp

section \<open>Version strings\<close>

text \<open>Decimal printing, the reference the scanner is checked against.\<close>

fun print_dec :: "nat \<Rightarrow> u8 list" where
  "print_dec n = (if n < 10 then [of_nat (0x30 + n)] else print_dec (n div 10) @ [of_nat (0x30 + n mod 10)])"

declare print_dec.simps [simp del] parse_first_version.simps [simp del]

lemma digit_byte:
  assumes "d < 10"
  shows "is_digit (of_nat (0x30 + d))" "unat (of_nat (0x30 + d) - 0x30 :: u8) = d" "ucast (of_nat (0x30 + d) - 0x30 :: u8) = (of_nat d :: 'a::len word)"
proof -
  have u: "unat (of_nat (0x30 + d) :: u8) = 0x30 + d" using assms by (intro unat_of_nat_less) simp
  have le: "(0x30 :: u8) \<le> of_nat (0x30 + d)" unfolding word_le_nat_alt u by simp
  have "(of_nat (0x30 + d) :: u8) \<le> 0x39" unfolding word_le_nat_alt u using assms by simp
  with le show "is_digit (of_nat (0x30 + d))" by (simp add: is_digit_def)
  show v: "unat (of_nat (0x30 + d) - 0x30 :: u8) = d" using unat_sub [OF le] u by simp
  then show "ucast (of_nat (0x30 + d) - 0x30 :: u8) = (of_nat d :: 'a word)" by (metis of_nat_unat)
qed

lemma print_dec_digits: "list_all is_digit (print_dec n) \<and> print_dec n \<noteq> []"
proof (induction n rule: print_dec.induct)
  case (1 n)
  then show ?case using digit_byte [of n] digit_byte [of "n mod 10"] by (subst (1 2) print_dec.simps) auto
qed

lemma push_digit_dec:
  assumes "10 * m + d < 2 ^ 16" "d < 10"
  shows "push_digit (Some (of_nat m)) (of_nat (0x30 + d)) = Some (of_nat (10 * m + d))"
proof -
  have "unat (of_nat m :: u16) = m" using assms by (intro unat_of_nat_less) simp
  then show ?thesis using assms digit_byte(2,3) [OF assms(2)] by (simp add: push_digit_def mult.commute del: of_nat_add of_nat_mult) simp
qed

lemma fold_print_dec: "n < 2 ^ 16 \<Longrightarrow> foldl push_digit (Some 0) (print_dec n) = Some (of_nat n)"
proof (induction n rule: print_dec.induct)
  case (1 n)
  show ?case
  proof (cases "n < 10")
    case True
    then show ?thesis using push_digit_dec [of 0 n] by (subst print_dec.simps) simp
  next
    case False
    then have "foldl push_digit (Some 0) (print_dec (n div 10)) = Some (of_nat (n div 10))"
      using "1.IH" "1.prems" by simp
    then show ?thesis using False "1.prems" push_digit_dec [of "n div 10" "n mod 10"]
      by (subst print_dec.simps) (simp del: of_nat_add of_nat_mult)
  qed
qed

lemma parse_print_dec: "n < 2 ^ 16 \<Longrightarrow> parse_u16 (print_dec n) = Some (of_nat n)"
  using fold_print_dec [of n] print_dec_digits [of n] by (simp add: parse_u16_def)

text \<open>Text before the version in which no digit is followed by a point and that does not end in a digit.\<close>

definition no_version :: "u8 list \<Rightarrow> bool" where
  "no_version pre \<longleftrightarrow> (\<forall>i. Suc i < length pre \<longrightarrow> is_digit (pre ! i) \<longrightarrow> pre ! Suc i \<noteq> 0x2E) \<and> (pre \<noteq> [] \<longrightarrow> \<not> is_digit (last pre))"

lemma no_version_drop: "no_version pre \<Longrightarrow> no_version (drop n pre)"
proof -
  assume h: "no_version pre"
  have "drop n pre ! Suc i \<noteq> 0x2E" if "Suc i < length (drop n pre)" "is_digit (drop n pre ! i)" for i
  proof -
    have "Suc (n + i) < length pre" "is_digit (pre ! (n + i))" using that by simp_all
    then show ?thesis using h that by (simp add: no_version_def)
  qed
  then show ?thesis using h by (auto simp: no_version_def last_drop)
qed

lemma parse_skips:
  "no_version pre \<Longrightarrow> parse_first_version (pre @ s) = parse_first_version s"
proof (induction "length pre" arbitrary: pre rule: less_induct)
  case less
  show ?case
  proof (cases pre)
    case (Cons c cs)
    have cs: "no_version cs" using no_version_drop [OF less.prems, of 1] Cons by simp
    show ?thesis
    proof (cases "is_digit c")
      case False
      then show ?thesis using less.hyps [of cs] cs Cons by (subst parse_first_version.simps) simp
    next
      case True
      let ?run = "takeWhile is_digit pre" and ?rest = "dropWhile is_digit pre"
      have last: "\<exists>x \<in> set pre. \<not> is_digit x" using less.prems Cons by (metis last_in_set list.distinct(1) no_version_def)
      then have ne: "?rest \<noteq> []" by (simp add: dropWhile_eq_Nil_conv)
      have app: "takeWhile is_digit (pre @ s) = ?run" "dropWhile is_digit (pre @ s) = ?rest @ s"
        using last by (auto simp: takeWhile_append1 dropWhile_append1)
      have len: "0 < length ?run" "length ?run < length pre" using True Cons ne
        by (simp, metis length_append length_greater_0_conv less_add_same_cancel1 takeWhile_dropWhile_id)
      have i: "Suc (length ?run - 1) < length pre" using len by simp
      have "is_digit (pre ! (length ?run - 1))"
        using len by (metis One_nat_def diff_Suc_less nth_mem set_takeWhileD takeWhile_nth)
      then have "pre ! length ?run \<noteq> 0x2E" using less.prems i len by (metis One_nat_def Suc_pred no_version_def)
      moreover have "hd ?rest = pre ! length ?run" using ne by (simp add: hd_dropWhile dropWhile_eq_drop hd_drop_conv_nth len)
      ultimately obtain d ds where r: "?rest = d # ds" "d \<noteq> 0x2E" using ne by (cases ?rest) auto
      have "parse_first_version (pre @ s) = parse_first_version (?rest @ s)"
        using True Cons app r by (subst parse_first_version.simps) simp
      also have "\<dots> = parse_first_version s"
      proof (rule less.hyps)
        show "length ?rest < length pre" using True Cons by (simp add: less_Suc_eq_le length_dropWhile_le)
        show "no_version ?rest" using no_version_drop [OF less.prems, of "length ?run"] by (simp add: dropWhile_eq_drop)
      qed
      finally show ?thesis .
    qed
  qed simp
qed

text \<open>The version scanner reads back what a ROM builder printed: in any identification string of the form text, major, point,
  minor, text, where no digit of the leading text is followed by a point, it returns exactly that pair. Digits inside
  the leading text, as in \<open>m68k\<close>, do not mislead it.\<close>

lemma rom_version_round_trip:
  assumes "no_version pre" "major < 2 ^ 16" "minor < 2 ^ 16" "post = [] \<or> \<not> is_digit (hd post)"
  shows "parse_first_version (pre @ print_dec major @ [0x2E] @ print_dec minor @ post) = Some (of_nat major, of_nat minor)"
proof -
  let ?s = "print_dec major @ 0x2E # print_dec minor @ post"
  have dot: "\<not> is_digit 0x2E" by (simp add: is_digit_def)
  have M: "\<forall>x \<in> set (print_dec major). is_digit x" "print_dec major \<noteq> []"
    "\<forall>x \<in> set (print_dec minor). is_digit x" "print_dec minor \<noteq> []"
    using print_dec_digits [of major] print_dec_digits [of minor] by (simp_all add: list_all_iff)
  have t: "takeWhile is_digit ?s = print_dec major" "dropWhile is_digit ?s = 0x2E # print_dec minor @ post"
    using M dot by (simp_all add: takeWhile_append2 dropWhile_append2)
  have "takeWhile is_digit post = []" using assms(4) by (cases post) simp_all
  then have n: "takeWhile is_digit (print_dec minor @ post) = print_dec minor" using M by (simp add: takeWhile_append2)
  obtain c cs where c: "?s = c # cs" "is_digit c" using M by (cases "print_dec major") auto
  have "parse_first_version ?s = Some (of_nat major, of_nat minor)"
    using t n c M parse_print_dec [OF assms(2)] parse_print_dec [OF assms(3)]
    by (subst parse_first_version.simps) simp
  then show ?thesis using parse_skips [OF assms(1)] by simp
qed

lemma rom_version_round_trip_witness:
  "parse_first_version (bytes_of ''exec.library amiga-m68k '' @ print_dec 51 @ [0x2E] @ print_dec 8 @ bytes_of '' (30.8.2026)'') = Some (51, 8)"
proof -
  have b: "bytes_of ''exec.library amiga-m68k '' = [0x65, 0x78, 0x65, 0x63, 0x2E, 0x6C, 0x69, 0x62, 0x72, 0x61, 0x72, 0x79, 0x20,
      0x61, 0x6D, 0x69, 0x67, 0x61, 0x2D, 0x6D, 0x36, 0x38, 0x6B, 0x20]" "hd (bytes_of '' (30.8.2026)'') = 0x20"
    by (simp_all add: bytes_of_def)
  have "no_version (bytes_of ''exec.library amiga-m68k '')"
    unfolding b no_version_def by (auto simp: is_digit_def nth_Cons split: nat.splits)
  moreover have "\<not> is_digit (hd (bytes_of '' (30.8.2026)''))" unfolding b by (simp add: is_digit_def)
  ultimately show ?thesis using rom_version_round_trip [of _ 51 8 "bytes_of '' (30.8.2026)''"] by simp
qed

end
