(* ===== verification/Cirrus.thy ===== *)
theory Cirrus
  imports AutoConfig
begin

text \<open>
  The Cirrus CL-GD542x display chip of \<open>crates/machine-core/src/cirrus.rs\<close>: the VGA register files behind their index
  and data ports, the palette and the hidden DAC, the vertical-retrace interrupt, VRAM and the BitBLT engine.

  The chip is a record; a port access is a function of it. A blit is a fold over the rows and bytes of its rectangle in
  the order the code visits them, over the VRAM and the running address of the colour-expansion stream. A \<open>usize\<close> is a
  natural number; the two places that wrap it (the stream address and the final address counters) write the modulus out.

  Shown: every frame a decoded mode describes lies inside VRAM; a plain copy moves its rectangle like \<open>memmove\<close> in the
  direction a driver must choose, overlapping or not, under every raster operation; the palette returns what was written
  through the auto-incrementing data port; the hidden DAC is reached through four pixel-mask reads only; a host-fed
  transfer leaves VRAM alone until its last byte.
\<close>

section \<open>Constants\<close>

(* src/crates/machine-core/src/cirrus.rs:99-99 port::MISC_OUTPUT *)
definition PORT_MISC_OUTPUT :: u32 where [simp]: "PORT_MISC_OUTPUT = 0x3C2"
(* src/crates/machine-core/src/cirrus.rs:100-100 port::SEQ_INDEX *)
definition PORT_SEQ_INDEX :: u32 where [simp]: "PORT_SEQ_INDEX = 0x3C4"
(* src/crates/machine-core/src/cirrus.rs:101-101 port::SEQ_DATA *)
definition PORT_SEQ_DATA :: u32 where [simp]: "PORT_SEQ_DATA = 0x3C5"
(* src/crates/machine-core/src/cirrus.rs:102-103 port::PEL_MASK *)
definition PORT_PEL_MASK :: u32 where [simp]: "PORT_PEL_MASK = 0x3C6"
(* src/crates/machine-core/src/cirrus.rs:104-104 port::DAC_READ_INDEX *)
definition PORT_DAC_READ_INDEX :: u32 where [simp]: "PORT_DAC_READ_INDEX = 0x3C7"
(* src/crates/machine-core/src/cirrus.rs:105-105 port::DAC_WRITE_INDEX *)
definition PORT_DAC_WRITE_INDEX :: u32 where [simp]: "PORT_DAC_WRITE_INDEX = 0x3C8"
(* src/crates/machine-core/src/cirrus.rs:106-106 port::DAC_DATA *)
definition PORT_DAC_DATA :: u32 where [simp]: "PORT_DAC_DATA = 0x3C9"
(* src/crates/machine-core/src/cirrus.rs:107-107 port::MISC_OUTPUT_READ *)
definition PORT_MISC_OUTPUT_READ :: u32 where [simp]: "PORT_MISC_OUTPUT_READ = 0x3CC"
(* src/crates/machine-core/src/cirrus.rs:108-108 port::GR_INDEX *)
definition PORT_GR_INDEX :: u32 where [simp]: "PORT_GR_INDEX = 0x3CE"
(* src/crates/machine-core/src/cirrus.rs:109-109 port::GR_DATA *)
definition PORT_GR_DATA :: u32 where [simp]: "PORT_GR_DATA = 0x3CF"
(* src/crates/machine-core/src/cirrus.rs:110-110 port::AC_INDEX_DATA *)
definition PORT_AC_INDEX_DATA :: u32 where [simp]: "PORT_AC_INDEX_DATA = 0x3C0"
(* src/crates/machine-core/src/cirrus.rs:111-111 port::AC_DATA_READ *)
definition PORT_AC_DATA_READ :: u32 where [simp]: "PORT_AC_DATA_READ = 0x3C1"
(* src/crates/machine-core/src/cirrus.rs:112-112 port::CRTC_INDEX_MONO *)
definition PORT_CRTC_INDEX_MONO :: u32 where [simp]: "PORT_CRTC_INDEX_MONO = 0x3B4"
(* src/crates/machine-core/src/cirrus.rs:113-113 port::CRTC_DATA_MONO *)
definition PORT_CRTC_DATA_MONO :: u32 where [simp]: "PORT_CRTC_DATA_MONO = 0x3B5"
(* src/crates/machine-core/src/cirrus.rs:114-114 port::CRTC_INDEX_COLOR *)
definition PORT_CRTC_INDEX_COLOR :: u32 where [simp]: "PORT_CRTC_INDEX_COLOR = 0x3D4"
(* src/crates/machine-core/src/cirrus.rs:115-115 port::CRTC_DATA_COLOR *)
definition PORT_CRTC_DATA_COLOR :: u32 where [simp]: "PORT_CRTC_DATA_COLOR = 0x3D5"
(* src/crates/machine-core/src/cirrus.rs:116-116 port::INPUT_STATUS_1_MONO *)
definition PORT_INPUT_STATUS_1_MONO :: u32 where [simp]: "PORT_INPUT_STATUS_1_MONO = 0x3BA"
(* src/crates/machine-core/src/cirrus.rs:117-117 port::INPUT_STATUS_1_COLOR *)
definition PORT_INPUT_STATUS_1_COLOR :: u32 where [simp]: "PORT_INPUT_STATUS_1_COLOR = 0x3DA"
(* src/crates/machine-core/src/cirrus.rs:122-126 idx::SR_LOCK *)
definition SR_LOCK :: u8 where [simp]: "SR_LOCK = 0x06"
(* src/crates/machine-core/src/cirrus.rs:127-127 idx::SR_LOCK_UNLOCKED *)
definition SR_LOCK_UNLOCKED :: u8 where [simp]: "SR_LOCK_UNLOCKED = 0x12"
(* src/crates/machine-core/src/cirrus.rs:128-128 idx::SR_LOCK_LOCKED *)
definition SR_LOCK_LOCKED :: u8 where [simp]: "SR_LOCK_LOCKED = 0x0F"
(* src/crates/machine-core/src/cirrus.rs:129-129 idx::SR_LOCK_UNLOCK_MASK *)
definition SR_LOCK_UNLOCK_MASK :: u8 where [simp]: "SR_LOCK_UNLOCK_MASK = 0x17"
(* src/crates/machine-core/src/cirrus.rs:130-133 idx::SR_EXTENDED_MODE *)
definition SR_EXTENDED_MODE :: u8 where [simp]: "SR_EXTENDED_MODE = 0x07"
(* src/crates/machine-core/src/cirrus.rs:134-138 idx::SR_CURSOR_ATTR *)
definition SR_CURSOR_ATTR :: u8 where [simp]: "SR_CURSOR_ATTR = 0x12"
(* src/crates/machine-core/src/cirrus.rs:140-142 idx::CRTC_ID *)
definition CRTC_ID :: u8 where [simp]: "CRTC_ID = 0x27"
(* src/crates/machine-core/src/cirrus.rs:143-143 idx::CRTC_LAST_STANDARD *)
definition CRTC_LAST_STANDARD :: u8 where [simp]: "CRTC_LAST_STANDARD = 0x18"
(* src/crates/machine-core/src/cirrus.rs:144-149 idx::CRTC_END_VERTICAL_RETRACE *)
definition CRTC_END_VERTICAL_RETRACE :: u8 where [simp]: "CRTC_END_VERTICAL_RETRACE = 0x11"
(* src/crates/machine-core/src/cirrus.rs:159-161 idx::GR_BLIT_WIDTH_LO *)
definition GR_BLIT_WIDTH_LO :: u8 where [simp]: "GR_BLIT_WIDTH_LO = 0x20"
(* src/crates/machine-core/src/cirrus.rs:162-164 idx::GR_BLIT_HEIGHT_LO *)
definition GR_BLIT_HEIGHT_LO :: u8 where [simp]: "GR_BLIT_HEIGHT_LO = 0x22"
(* src/crates/machine-core/src/cirrus.rs:165-167 idx::GR_BLIT_DST_PITCH_LO *)
definition GR_BLIT_DST_PITCH_LO :: u8 where [simp]: "GR_BLIT_DST_PITCH_LO = 0x24"
(* src/crates/machine-core/src/cirrus.rs:168-169 idx::GR_BLIT_SRC_PITCH_LO *)
definition GR_BLIT_SRC_PITCH_LO :: u8 where [simp]: "GR_BLIT_SRC_PITCH_LO = 0x26"
(* src/crates/machine-core/src/cirrus.rs:170-172 idx::GR_BLIT_DST_ADDR_LO *)
definition GR_BLIT_DST_ADDR_LO :: u8 where [simp]: "GR_BLIT_DST_ADDR_LO = 0x28"
(* src/crates/machine-core/src/cirrus.rs:173-175 idx::GR_BLIT_SRC_ADDR_LO *)
definition GR_BLIT_SRC_ADDR_LO :: u8 where [simp]: "GR_BLIT_SRC_ADDR_LO = 0x2C"
(* src/crates/machine-core/src/cirrus.rs:176-177 idx::GR_BLIT_MODE *)
definition GR_BLIT_MODE :: u8 where [simp]: "GR_BLIT_MODE = 0x30"
(* src/crates/machine-core/src/cirrus.rs:178-179 idx::GR_BLIT_START_STATUS *)
definition GR_BLIT_START_STATUS :: u8 where [simp]: "GR_BLIT_START_STATUS = 0x31"
(* src/crates/machine-core/src/cirrus.rs:180-181 idx::GR_BLIT_ROP *)
definition GR_BLIT_ROP :: u8 where [simp]: "GR_BLIT_ROP = 0x32"
(* src/crates/machine-core/src/cirrus.rs:182-183 idx::GR_BLIT_MODE_EXT *)
definition GR_BLIT_MODE_EXT :: u8 where [simp]: "GR_BLIT_MODE_EXT = 0x33"
(* src/crates/machine-core/src/cirrus.rs:184-186 idx::GR_BLIT_TRANSPARENT_COMPARE *)
definition GR_BLIT_TRANSPARENT_COMPARE :: u8 where [simp]: "GR_BLIT_TRANSPARENT_COMPARE = 0x34"
(* src/crates/machine-core/src/cirrus.rs:187-190 idx::GR_BLIT_TRANSPARENT_MASK *)
definition GR_BLIT_TRANSPARENT_MASK :: u8 where [simp]: "GR_BLIT_TRANSPARENT_MASK = 0x38"
(* src/crates/machine-core/src/cirrus.rs:191-196 idx::GR_BG0 *)
definition GR_BG0 :: u8 where [simp]: "GR_BG0 = 0x00"
(* src/crates/machine-core/src/cirrus.rs:197-197 idx::GR_FG0 *)
definition GR_FG0 :: u8 where [simp]: "GR_FG0 = 0x01"
(* src/crates/machine-core/src/cirrus.rs:198-198 idx::GR_BG1 *)
definition GR_BG1 :: u8 where [simp]: "GR_BG1 = 0x10"
(* src/crates/machine-core/src/cirrus.rs:199-199 idx::GR_FG1 *)
definition GR_FG1 :: u8 where [simp]: "GR_FG1 = 0x11"
(* src/crates/machine-core/src/cirrus.rs:200-200 idx::GR_BG2 *)
definition GR_BG2 :: u8 where [simp]: "GR_BG2 = 0x12"
(* src/crates/machine-core/src/cirrus.rs:201-201 idx::GR_FG2 *)
definition GR_FG2 :: u8 where [simp]: "GR_FG2 = 0x13"
(* src/crates/machine-core/src/cirrus.rs:202-202 idx::GR_BG3 *)
definition GR_BG3 :: u8 where [simp]: "GR_BG3 = 0x14"
(* src/crates/machine-core/src/cirrus.rs:203-203 idx::GR_FG3 *)
definition GR_FG3 :: u8 where [simp]: "GR_FG3 = 0x15"
(* src/crates/machine-core/src/cirrus.rs:208-209 blit_mode::BACKWARDS *)
definition BM_BACKWARDS :: u8 where [simp]: "BM_BACKWARDS = 0x01"
(* src/crates/machine-core/src/cirrus.rs:210-212 blit_mode::SYSTEM_SOURCE *)
definition BM_SYSTEM_SOURCE :: u8 where [simp]: "BM_SYSTEM_SOURCE = 0x04"
(* src/crates/machine-core/src/cirrus.rs:213-216 blit_mode::TRANSPARENT *)
definition BM_TRANSPARENT :: u8 where [simp]: "BM_TRANSPARENT = 0x08"
(* src/crates/machine-core/src/cirrus.rs:217-219 blit_mode::PIXEL_WIDTH_MASK *)
definition BM_PIXEL_WIDTH_MASK :: u8 where [simp]: "BM_PIXEL_WIDTH_MASK = 0x30"
(* src/crates/machine-core/src/cirrus.rs:220-222 blit_mode::PATTERN *)
definition BM_PATTERN :: u8 where [simp]: "BM_PATTERN = 0x40"
(* src/crates/machine-core/src/cirrus.rs:223-225 blit_mode::COLOR_EXPAND *)
definition BM_COLOR_EXPAND :: u8 where [simp]: "BM_COLOR_EXPAND = 0x80"
(* src/crates/machine-core/src/cirrus.rs:230-232 blit_modeext::DWORD_GRANULARITY *)
definition BME_DWORD_GRANULARITY :: u8 where [simp]: "BME_DWORD_GRANULARITY = 0x01"
(* src/crates/machine-core/src/cirrus.rs:233-235 blit_modeext::COLOR_EXPAND_INVERT *)
definition BME_COLOR_EXPAND_INVERT :: u8 where [simp]: "BME_COLOR_EXPAND_INVERT = 0x02"
(* src/crates/machine-core/src/cirrus.rs:236-239 blit_modeext::SOLID_FILL *)
definition BME_SOLID_FILL :: u8 where [simp]: "BME_SOLID_FILL = 0x04"
(* src/crates/machine-core/src/cirrus.rs:244-249 blit_status::START *)
definition BS_START :: u8 where [simp]: "BS_START = 0x02"
(* src/crates/machine-core/src/cirrus.rs:250-251 blit_status::RESET *)
definition BS_RESET :: u8 where [simp]: "BS_RESET = 0x04"
(* src/crates/machine-core/src/cirrus.rs:252-256 blit_status::BUSY_MASK *)
definition BS_BUSY_MASK :: u8 where [simp]: "BS_BUSY_MASK = 0x09"
(* src/crates/machine-core/src/cirrus.rs:261-269 sr12::CURSOR_PALETTE_SELECT *)
definition SR12_CURSOR_PALETTE_SELECT :: u8 where [simp]: "SR12_CURSOR_PALETTE_SELECT = 0x02"
(* src/crates/machine-core/src/cirrus.rs:280-287 crtc11::CLEAR_VERTICAL_INTERRUPT *)
definition CR11_CLEAR_VERTICAL_INTERRUPT :: u8 where [simp]: "CR11_CLEAR_VERTICAL_INTERRUPT = 0x10"
(* src/crates/machine-core/src/cirrus.rs:288-295 crtc11::DISABLE_VERTICAL_INTERRUPT *)
definition CR11_DISABLE_VERTICAL_INTERRUPT :: u8 where [simp]: "CR11_DISABLE_VERTICAL_INTERRUPT = 0x20"
(* src/crates/machine-core/src/cirrus.rs:298-309 SYSTEM_BLIT_CAPACITY *)
definition SYSTEM_BLIT_CAPACITY :: nat where "SYSTEM_BLIT_CAPACITY = 8192"
(* src/crates/machine-core/src/cirrus.rs:311-317 BLIT_ADDR_MASK *)
definition BLIT_ADDR_MASK :: nat where [simp]: "BLIT_ADDR_MASK = 0x1FFFFF"

section \<open>Data\<close>

(* src/crates/machine-core/src/cirrus.rs:31-38 ChipRevision *)
datatype chip_revision = Gd5426 | Gd5428

(* src/crates/machine-core/src/cirrus.rs:41-49 ChipRevision::part_id *)
fun part_id :: "chip_revision \<Rightarrow> u8" where
  "part_id Gd5426 = 0x90"
| "part_id Gd5428 = 0x98"

(* src/crates/machine-core/src/cirrus.rs:52-64 PixelDepth *)
datatype pixel_depth = Bpp8 | Bpp15 | Bpp16 | Bpp24

(* src/crates/machine-core/src/cirrus.rs:67-73 PixelDepth::bytes_per_pixel *)
fun depth_bytes :: "pixel_depth \<Rightarrow> u32" where
  "depth_bytes Bpp8 = 1"
| "depth_bytes Bpp15 = 2"
| "depth_bytes Bpp16 = 2"
| "depth_bytes Bpp24 = 3"

(* src/crates/machine-core/src/cirrus.rs:76-88 DecodedMode *)
record decoded_mode =
  dm_width :: u32
  dm_height :: u32
  dm_depth :: pixel_depth
  dm_stride_bytes :: u32
  dm_start_offset :: u32

(* src/crates/machine-core/src/cirrus.rs:406-414 SystemBlit *)
record system_blit =
  sb_expected :: nat
  sb_filled :: nat
  sb_buf :: "u8 list"

(* src/crates/machine-core/src/cirrus.rs:319-404 Cirrus542x *)
record cirrus =
  vga_revision :: chip_revision
  vga_vram :: "u8 list"
  vga_sr :: "u8 list"
  vga_crtc :: "u8 list"
  vga_gr :: "u8 list"
  vga_ar :: "u8 list"
  vga_palette :: "u8 list list"
  vga_cursor_palette :: "u8 list list"
  vga_seq_index :: u8
  vga_crtc_index :: u8
  vga_gr_index :: u8
  vga_ar_index :: u8
  vga_ar_next_is_data :: bool
  vga_misc_output :: u8
  vga_pel_mask :: u8
  vga_hidden_dac :: u8
  vga_hidden_dac_arm :: u8
  vga_dac_write_index :: u8
  vga_dac_read_index :: u8
  vga_dac_component :: u8
  vga_dac_read_mode :: bool
  vga_system_blit :: "system_blit option"
  vga_vblank_pending :: bool

(* src/crates/machine-core/src/cirrus.rs:417-445 Cirrus542x::new *)
definition vga_new :: "chip_revision \<Rightarrow> u8 list \<Rightarrow> cirrus" where
  "vga_new revision vram = \<lparr>vga_revision = revision, vga_vram = vram, vga_sr = replicate 32 0, vga_crtc = replicate 64 0,
     vga_gr = replicate 64 0, vga_ar = replicate 32 0, vga_palette = replicate 256 (replicate 3 0),
     vga_cursor_palette = replicate 16 (replicate 3 0), vga_seq_index = 0, vga_crtc_index = 0, vga_gr_index = 0,
     vga_ar_index = 0, vga_ar_next_is_data = False, vga_misc_output = 0, vga_pel_mask = 0xFF, vga_hidden_dac = 0,
     vga_hidden_dac_arm = 0, vga_dac_write_index = 0, vga_dac_read_index = 0, vga_dac_component = 0,
     vga_dac_read_mode = False, vga_system_blit = None, vga_vblank_pending = False\<rparr>"

(* src/crates/machine-core/src/cirrus.rs:447-449 Cirrus542x::vram_len *)
definition vga_vram_len :: "cirrus \<Rightarrow> nat" where
  "vga_vram_len c = length (vga_vram c)"

text \<open>\<open>slice::get\<close> with a default, as every guest-controlled VRAM read of the source is written.\<close>

definition get_or :: "u8 \<Rightarrow> u8 list \<Rightarrow> nat \<Rightarrow> u8" where
  "get_or d xs i = (if i < length xs then xs ! i else d)"

(* src/crates/machine-core/src/cirrus.rs:460-466 Cirrus542x::vram_read *)
definition vga_vram_read :: "cirrus \<Rightarrow> nat \<Rightarrow> u8" where
  "vga_vram_read c offset = get_or OPEN_BUS_BYTE (vga_vram c) offset"

section \<open>The register files\<close>

(* src/crates/machine-core/src/cirrus.rs:666-668 Cirrus542x::extensions_unlocked *)
definition extensions_unlocked :: "cirrus \<Rightarrow> bool" where
  "extensions_unlocked c \<longleftrightarrow> vga_sr c ! unat SR_LOCK = SR_LOCK_UNLOCKED"

(* src/crates/machine-core/src/cirrus.rs:670-679 Cirrus542x::read_sequencer *)
definition read_sequencer :: "cirrus \<Rightarrow> u8" where
  "read_sequencer c = (let index = vga_seq_index c AND 0x1F in
     if index = SR_LOCK then vga_sr c ! unat SR_LOCK
     else if SR_LOCK < index \<and> \<not> extensions_unlocked c then OPEN_BUS_BYTE
     else vga_sr c ! unat index)"

(* src/crates/machine-core/src/cirrus.rs:681-696 Cirrus542x::write_sequencer *)
definition write_sequencer :: "cirrus \<Rightarrow> u8 \<Rightarrow> cirrus" where
  "write_sequencer c v = (let index = vga_seq_index c AND 0x1F in
     if index = SR_LOCK then
       c\<lparr>vga_sr := (vga_sr c)[unat SR_LOCK :=
            if v AND SR_LOCK_UNLOCK_MASK = SR_LOCK_UNLOCKED then SR_LOCK_UNLOCKED else SR_LOCK_LOCKED]\<rparr>
     else if SR_LOCK < index \<and> \<not> extensions_unlocked c then c
     else c\<lparr>vga_sr := (vga_sr c)[unat index := v]\<rparr>)"

(* src/crates/machine-core/src/cirrus.rs:700-716 Cirrus542x::read_graphics *)
definition read_graphics :: "cirrus \<Rightarrow> u8" where
  "read_graphics c = (let index = vga_gr_index c AND 0x3F in
     if 8 < index \<and> \<not> extensions_unlocked c then OPEN_BUS_BYTE
     else if index = GR_BLIT_START_STATUS then
       (let v = vga_gr c ! unat index AND NOT BS_BUSY_MASK in
        if vga_system_blit c \<noteq> None then v OR BS_BUSY_MASK else v)
     else vga_gr c ! unat index)"

(* src/crates/machine-core/src/cirrus.rs:1092-1101 Cirrus542x::read_crtc *)
definition read_crtc :: "cirrus \<Rightarrow> u8" where
  "read_crtc c = (let index = vga_crtc_index c AND 0x3F in
     if index = CRTC_ID then part_id (vga_revision c)
     else if CRTC_LAST_STANDARD < index \<and> \<not> extensions_unlocked c then OPEN_BUS_BYTE
     else vga_crtc c ! unat index)"

(* src/crates/machine-core/src/cirrus.rs:1103-1133 Cirrus542x::write_crtc *)
definition write_crtc :: "cirrus \<Rightarrow> u8 \<Rightarrow> cirrus" where
  "write_crtc c v = (let index = vga_crtc_index c AND 0x3F in
     if index = CRTC_ID then c
     else if CRTC_LAST_STANDARD < index \<and> \<not> extensions_unlocked c then c
     else if vga_crtc c ! 0x11 AND 0x80 \<noteq> 0 \<and> index \<le> 7 then
       (if index = 7 then c\<lparr>vga_crtc := (vga_crtc c)[7 := (vga_crtc c ! 7 AND NOT 0x10) OR (v AND 0x10)]\<rparr> else c)
     else (let c = c\<lparr>vga_crtc := (vga_crtc c)[unat index := v]\<rparr> in
       if index = CRTC_END_VERTICAL_RETRACE \<and> v AND CR11_CLEAR_VERTICAL_INTERRUPT = 0
       then c\<lparr>vga_vblank_pending := False\<rparr> else c))"

(* src/crates/machine-core/src/cirrus.rs:1137-1144 Cirrus542x::write_attribute *)
definition write_attribute :: "cirrus \<Rightarrow> u8 \<Rightarrow> cirrus" where
  "write_attribute c v =
     (let c = (if vga_ar_next_is_data c then c\<lparr>vga_ar := (vga_ar c)[unat (vga_ar_index c AND 0x1F) := v]\<rparr>
               else c\<lparr>vga_ar_index := v AND 0x3F\<rparr>)
      in c\<lparr>vga_ar_next_is_data := \<not> vga_ar_next_is_data c\<rparr>)"

section \<open>The vertical-retrace interrupt\<close>

(* src/crates/machine-core/src/cirrus.rs:1164-1173 Cirrus542x::vertical_interrupt_enabled *)
definition vertical_interrupt_enabled :: "cirrus \<Rightarrow> bool" where
  "vertical_interrupt_enabled c \<longleftrightarrow>
     vga_crtc c ! unat CRTC_END_VERTICAL_RETRACE AND (CR11_DISABLE_VERTICAL_INTERRUPT OR CR11_CLEAR_VERTICAL_INTERRUPT)
     = CR11_CLEAR_VERTICAL_INTERRUPT"

(* src/crates/machine-core/src/cirrus.rs:1148-1162 Cirrus542x::input_status_0 *)
definition input_status_0 :: "cirrus \<Rightarrow> u8" where
  "input_status_0 c = (if vga_vblank_pending c \<and> vertical_interrupt_enabled c then 0x80 else 0)"

(* src/crates/machine-core/src/cirrus.rs:1175-1184 Cirrus542x::signal_vertical_retrace *)
definition vga_signal_vertical_retrace :: "cirrus \<Rightarrow> cirrus" where
  "vga_signal_vertical_retrace c = (if vertical_interrupt_enabled c then c\<lparr>vga_vblank_pending := True\<rparr> else c)"

(* src/crates/machine-core/src/cirrus.rs:1186-1192 Cirrus542x::irq_pending *)
definition vga_irq_pending :: "cirrus \<Rightarrow> bool" where
  "vga_irq_pending c \<longleftrightarrow> vga_vblank_pending c \<and> vertical_interrupt_enabled c"

(* src/crates/machine-core/src/cirrus.rs:1194-1196 Cirrus542x::input_status_1 *)
definition input_status_1 :: "cirrus \<Rightarrow> u8" where
  "input_status_1 c = 0"

section \<open>The palette and the hidden DAC\<close>

(* src/crates/machine-core/src/cirrus.rs:1198-1210 Cirrus542x::read_pel_mask_or_hidden_dac *)
definition read_pel_mask_or_hidden_dac :: "cirrus \<Rightarrow> cirrus \<times> u8" where
  "read_pel_mask_or_hidden_dac c =
     (if \<not> extensions_unlocked c then (c\<lparr>vga_hidden_dac_arm := 0\<rparr>, vga_pel_mask c)
      else if 4 \<le> vga_hidden_dac_arm c then (c\<lparr>vga_hidden_dac_arm := 0\<rparr>, vga_hidden_dac c)
      else (c\<lparr>vga_hidden_dac_arm := vga_hidden_dac_arm c + 1\<rparr>, vga_pel_mask c))"

(* src/crates/machine-core/src/cirrus.rs:1212-1219 Cirrus542x::write_pel_mask_or_hidden_dac *)
definition write_pel_mask_or_hidden_dac :: "cirrus \<Rightarrow> u8 \<Rightarrow> cirrus" where
  "write_pel_mask_or_hidden_dac c v =
     (if extensions_unlocked c \<and> 4 \<le> vga_hidden_dac_arm c then c\<lparr>vga_hidden_dac := v, vga_hidden_dac_arm := 0\<rparr>
      else c\<lparr>vga_pel_mask := v, vga_hidden_dac_arm := 0\<rparr>)"

definition update2 :: "u8 list list \<Rightarrow> nat \<Rightarrow> nat \<Rightarrow> u8 \<Rightarrow> u8 list list" where
  "update2 p i k v = p[i := (p ! i)[k := v]]"

(* src/crates/machine-core/src/cirrus.rs:1221-1235 Cirrus542x::write_dac_data *)
definition write_dac_data :: "cirrus \<Rightarrow> u8 \<Rightarrow> cirrus" where
  "write_dac_data c v =
     (let k = unat (vga_dac_component c);
          c = (if vga_sr c ! unat SR_CURSOR_ATTR AND SR12_CURSOR_PALETTE_SELECT \<noteq> 0
               then c\<lparr>vga_cursor_palette := update2 (vga_cursor_palette c) (unat (vga_dac_write_index c AND 0x0F)) k (v AND 0x3F)\<rparr>
               else c\<lparr>vga_palette := update2 (vga_palette c) (unat (vga_dac_write_index c)) k (v AND 0x3F)\<rparr>);
          c = c\<lparr>vga_dac_component := vga_dac_component c + 1\<rparr>
      in if vga_dac_component c = 3 then c\<lparr>vga_dac_component := 0, vga_dac_write_index := vga_dac_write_index c + 1\<rparr> else c)"

(* src/crates/machine-core/src/cirrus.rs:1237-1252 Cirrus542x::read_dac_data *)
definition read_dac_data :: "cirrus \<Rightarrow> cirrus \<times> u8" where
  "read_dac_data c =
     (let k = unat (vga_dac_component c);
          v = (if vga_sr c ! unat SR_CURSOR_ATTR AND SR12_CURSOR_PALETTE_SELECT \<noteq> 0
               then vga_cursor_palette c ! unat (vga_dac_read_index c AND 0x0F) ! k
               else vga_palette c ! unat (vga_dac_read_index c) ! k);
          c = c\<lparr>vga_dac_component := vga_dac_component c + 1\<rparr>
      in (if vga_dac_component c = 3 then c\<lparr>vga_dac_component := 0, vga_dac_read_index := vga_dac_read_index c + 1\<rparr> else c, v))"

(* src/crates/machine-core/src/cirrus.rs:656-659 Cirrus542x::palette_argb *)
definition expand_gun :: "u8 \<Rightarrow> u32" where
  "expand_gun v = (let c = ucast (v AND 0x3F) in push_bit 2 c OR drop_bit 4 c)"

(* src/crates/machine-core/src/cirrus.rs:651-662 Cirrus542x::palette_argb *)
definition vga_palette_argb :: "cirrus \<Rightarrow> u8 \<Rightarrow> u32" where
  "vga_palette_argb c i = (let p = vga_palette c ! unat i in
     0xFF000000 OR push_bit 16 (expand_gun (p ! 0)) OR push_bit 8 (expand_gun (p ! 1)) OR expand_gun (p ! 2))"

section \<open>The programmed mode\<close>

(* src/crates/machine-core/src/cirrus.rs:608-627 Cirrus542x::decoded_mode *)
definition decoded_depth :: "cirrus \<Rightarrow> pixel_depth option" where
  "decoded_depth c = (let h = vga_hidden_dac c in
     if h AND 0x80 = 0 then Some Bpp8
     else if h AND 0x40 = 0 then Some Bpp15
     else if h AND 0x0F = 0x00 then Some Bpp15
     else if h AND 0x0F = 0x01 then Some Bpp16
     else if h AND 0x0F = 0x05 then Some Bpp24
     else if h AND 0x0F = 0x0F then
       (let e = vga_sr c ! unat SR_EXTENDED_MODE AND 0x0E in
        if e = 0x04 then Some Bpp24 else if e = 0x02 \<or> e = 0x06 then Some Bpp16 else Some Bpp8)
     else None)"

(* src/crates/machine-core/src/cirrus.rs:632-648 Cirrus542x::decoded_mode *)
definition decoded_fit :: "nat \<Rightarrow> u32 \<Rightarrow> u32 \<Rightarrow> pixel_depth \<Rightarrow> u32 \<Rightarrow> u32 \<Rightarrow> decoded_mode option" where
  "decoded_fit vram_len width height depth stride_bytes start_offset =
     (case checked_mul_u32 width (depth_bytes depth) of None \<Rightarrow> None
      | Some row_bytes \<Rightarrow> if stride_bytes < row_bytes then None
        else (case checked_mul_u32 (height - 1) stride_bytes of None \<Rightarrow> None
      | Some rows \<Rightarrow> (case checked_add_u32 start_offset rows of None \<Rightarrow> None
      | Some last_row_start \<Rightarrow> (case checked_add_u32 last_row_start row_bytes of None \<Rightarrow> None
      | Some end \<Rightarrow> if of_nat vram_len < end then None
        else Some \<lparr>dm_width = width, dm_height = height, dm_depth = depth, dm_stride_bytes = stride_bytes,
                   dm_start_offset = start_offset\<rparr>))))"

(* src/crates/machine-core/src/cirrus.rs:555-649 Cirrus542x::decoded_mode *)
definition vga_decoded_mode :: "cirrus \<Rightarrow> decoded_mode option" where
  "vga_decoded_mode c =
     (if vga_sr c ! 0 AND 0x03 \<noteq> 0x03 then None
      else if vga_sr c ! 1 AND 0x20 \<noteq> 0 then None
      else if vga_sr c ! unat SR_EXTENDED_MODE AND 0x01 = 0 then None
      else
       (let width = (ucast (vga_crtc c ! 0x01) + 1) * 8 :: u32;
            raw_height = ucast (vga_crtc c ! 0x12) OR push_bit 7 (ucast (vga_crtc c ! 0x07 AND 0x02))
                         OR push_bit 3 (ucast (vga_crtc c ! 0x07 AND 0x40)) :: u32;
            doublescan = (vga_crtc c ! 0x09 AND 0x80 \<noteq> 0);
            height = (raw_height + 1) * (if doublescan then 2 else 1)
        in if \<not> (16 \<le> width \<and> width \<le> 4096) \<or> \<not> (16 \<le> height \<and> height \<le> 4096) then None
        else
         (let pitch_units = ucast (vga_crtc c ! 0x13) OR push_bit 4 (ucast (vga_crtc c ! 0x1B AND 0x10)) :: u32;
              stride_bytes = pitch_units * 8
          in if stride_bytes = 0 then None
          else
           (let start_units = ucast (from_be [vga_crtc c ! 0x0C, vga_crtc c ! 0x0D] :: u16)
                  OR push_bit 16 (ucast (vga_crtc c ! 0x1B AND 0x01)) OR push_bit 15 (ucast (vga_crtc c ! 0x1B AND 0x04))
                  OR push_bit 15 (ucast (vga_crtc c ! 0x1B AND 0x08)) :: u32;
                panning = ucast (drop_bit 5 (vga_crtc c ! 0x08 AND 0x60)) :: u32;
                start_offset = start_units * 4 + panning
            in case decoded_depth c of None \<Rightarrow> None
               | Some depth \<Rightarrow> decoded_fit (length (vga_vram c)) width height depth stride_bytes start_offset))))"

section \<open>The BitBLT engine\<close>

(* src/crates/machine-core/src/cirrus.rs:736-739 Cirrus542x::blit_width *)
definition vga_blit_width :: "cirrus \<Rightarrow> nat" where
  "vga_blit_width c = (let lo = unat GR_BLIT_WIDTH_LO in
     (push_bit 8 (unat (vga_gr c ! (lo + 1) AND 0x07)) OR unat (vga_gr c ! lo)) + 1)"

(* src/crates/machine-core/src/cirrus.rs:741-744 Cirrus542x::blit_height *)
definition vga_blit_height :: "cirrus \<Rightarrow> nat" where
  "vga_blit_height c = (let lo = unat GR_BLIT_HEIGHT_LO in
     (push_bit 8 (unat (vga_gr c ! (lo + 1) AND 0x03)) OR unat (vga_gr c ! lo)) + 1)"

(* src/crates/machine-core/src/cirrus.rs:746-748 Cirrus542x::blit_pitch *)
definition vga_blit_pitch :: "cirrus \<Rightarrow> u8 \<Rightarrow> nat" where
  "vga_blit_pitch c low = (push_bit 8 (unat (vga_gr c ! (unat low + 1) AND 0x1F)) OR unat (vga_gr c ! unat low))"

(* src/crates/machine-core/src/cirrus.rs:750-755 Cirrus542x::blit_addr *)
definition vga_blit_addr :: "cirrus \<Rightarrow> u8 \<Rightarrow> nat" where
  "vga_blit_addr c low =
     (unat (vga_gr c ! unat low) OR push_bit 8 (unat (vga_gr c ! (unat low + 1)))
      OR push_bit 16 (unat (vga_gr c ! (unat low + 2) AND 0x1F)))"

(* src/crates/machine-core/src/cirrus.rs:757-768 Cirrus542x::set_blit_addr *)
definition vga_set_blit_addr :: "cirrus \<Rightarrow> u8 \<Rightarrow> nat \<Rightarrow> cirrus" where
  "vga_set_blit_addr c low a =
     (let addr = a AND BLIT_ADDR_MASK; lo = unat low;
          gr = (vga_gr c)[lo := of_nat addr, lo + 1 := of_nat (drop_bit 8 addr)]
      in c\<lparr>vga_gr := gr[lo + 2 := (gr ! (lo + 2) AND NOT 0x1F) OR (of_nat (drop_bit 16 addr) AND 0x1F)]\<rparr>)"

(* src/crates/machine-core/src/cirrus.rs:770-777 Cirrus542x::blit_pixel_bytes *)
definition vga_blit_pixel_bytes :: "cirrus \<Rightarrow> nat" where
  "vga_blit_pixel_bytes c = (let m = vga_gr c ! unat GR_BLIT_MODE AND BM_PIXEL_WIDTH_MASK in
     if m = 0x00 then 1 else if m = 0x10 then 2 else if m = 0x20 then 3 else 4)"

text \<open>\<open>usize::next_multiple_of\<close> and \<open>usize::div_ceil\<close>.\<close>

definition next_multiple_of :: "nat \<Rightarrow> nat \<Rightarrow> nat" where
  "next_multiple_of n k = (if n mod k = 0 then n else n + (k - n mod k))"

definition div_ceil :: "nat \<Rightarrow> nat \<Rightarrow> nat" where
  "div_ceil n k = n div k + (if n mod k = 0 then 0 else 1)"

(* src/crates/machine-core/src/cirrus.rs:779-797 Cirrus542x::system_source_pitch *)
definition system_source_pitch :: "cirrus \<Rightarrow> nat \<Rightarrow> nat" where
  "system_source_pitch c width =
     (if vga_gr c ! unat GR_BLIT_MODE AND BM_COLOR_EXPAND = 0 then next_multiple_of width 4
      else next_multiple_of (div_ceil width (vga_blit_pixel_bytes c))
             (if vga_gr c ! unat GR_BLIT_MODE_EXT AND BME_DWORD_GRANULARITY \<noteq> 0 then 32 else 8) div 8)"

(* src/crates/machine-core/src/cirrus.rs:799-802 Cirrus542x::blit_fg_component *)
definition blit_fg_component :: "cirrus \<Rightarrow> nat \<Rightarrow> u8" where
  "blit_fg_component c k = vga_gr c ! unat ([GR_FG0, GR_FG1, GR_FG2, GR_FG3] ! min k 3)"

(* src/crates/machine-core/src/cirrus.rs:804-807 Cirrus542x::blit_bg_component *)
definition blit_bg_component :: "cirrus \<Rightarrow> nat \<Rightarrow> u8" where
  "blit_bg_component c k = vga_gr c ! unat ([GR_BG0, GR_BG1, GR_BG2, GR_BG3] ! min k 3)"

(* src/crates/machine-core/src/cirrus.rs:1255-1288 apply_rop *)
definition apply_rop :: "u8 \<Rightarrow> u8 \<Rightarrow> u8 \<Rightarrow> u8" where
  "apply_rop rop s d =
     (if rop = 0x00 then 0
      else if rop = 0x05 then s AND d
      else if rop = 0x06 then d
      else if rop = 0x09 then s AND NOT d
      else if rop = 0x0B then NOT d
      else if rop = 0x0D then s
      else if rop = 0x0E then 0xFF
      else if rop = 0x50 then NOT s AND d
      else if rop = 0x59 then s XOR d
      else if rop = 0x6D then s OR d
      else if rop = 0x90 then NOT s AND NOT d
      else if rop = 0x95 then NOT (s XOR d)
      else if rop = 0xAD then s OR NOT d
      else if rop = 0xD0 then NOT s
      else if rop = 0xD6 then NOT s OR d
      else if rop = 0xDA then NOT s OR NOT d
      else s)"

text \<open>
  The local variables of \<open>execute_blit\<close>. The register files do not change while a blit runs, so each is a function of
  the chip the blit starts in; VRAM, which does change, is passed along.
\<close>

(* src/crates/machine-core/src/cirrus.rs:914-917 Cirrus542x::execute_blit *)
definition blit_mode_bit :: "cirrus \<Rightarrow> u8 \<Rightarrow> bool" where
  "blit_mode_bit c m \<longleftrightarrow> vga_gr c ! unat GR_BLIT_MODE AND m \<noteq> 0"

(* src/crates/machine-core/src/cirrus.rs:908-908 Cirrus542x::execute_blit *)
definition blit_span :: "cirrus \<Rightarrow> nat" where
  "blit_span c = min (vga_blit_width c) (max (length (vga_vram c)) 1)"

(* src/crates/machine-core/src/cirrus.rs:920-924 Cirrus542x::execute_blit *)
definition blit_solid_fill :: "cirrus \<Rightarrow> bool" where
  "blit_solid_fill c \<longleftrightarrow> blit_mode_bit c BM_PATTERN \<and> blit_mode_bit c BM_COLOR_EXPAND \<and> \<not> blit_mode_bit c BM_TRANSPARENT
     \<and> vga_gr c ! unat GR_BLIT_MODE_EXT AND BME_SOLID_FILL \<noteq> 0"

(* src/crates/machine-core/src/cirrus.rs:937-946 Cirrus542x::execute_blit *)
definition blit_line :: "cirrus \<Rightarrow> nat \<Rightarrow> nat \<Rightarrow> nat \<Rightarrow> nat" where
  "blit_line c start pitch y = (if blit_mode_bit c BM_BACKWARDS then start - y * pitch else start + y * pitch)"

(* src/crates/machine-core/src/cirrus.rs:975-980 Cirrus542x::execute_blit *)
definition blit_at :: "cirrus \<Rightarrow> nat \<Rightarrow> nat \<Rightarrow> nat option" where
  "blit_at c line x = (if blit_mode_bit c BM_BACKWARDS then (if x \<le> line then Some (line - x) else None) else Some (line + x))"

(* src/crates/machine-core/src/cirrus.rs:809-847 Cirrus542x::linear_blit_source *)
definition linear_blit_source ::
  "cirrus \<Rightarrow> u8 list \<Rightarrow> u8 list option \<Rightarrow> nat \<Rightarrow> bool \<Rightarrow> nat \<Rightarrow> nat \<Rightarrow> nat \<Rightarrow> nat \<Rightarrow> nat \<Rightarrow> u8" where
  "linear_blit_source c vram system system_pitch pattern src_line src_start y x pixel_bytes =
     (if pattern then
        (let row_bytes = 8 * pixel_bytes; pattern_base = src_start - src_start mod 4
         in get_or 0 vram (pattern_base + (y mod 8) * row_bytes + x mod max row_bytes 1))
      else case system of Some data \<Rightarrow> get_or 0 data (y * system_pitch + x)
      | None \<Rightarrow> (case blit_at c src_line x of None \<Rightarrow> 0 | Some at \<Rightarrow> get_or 0 vram at))"

text \<open>\<open>usize::wrapping_add\<close> and \<open>wrapping_sub\<close> on a 64-bit host.\<close>

definition step_usize :: "bool \<Rightarrow> nat \<Rightarrow> nat \<Rightarrow> nat" where
  "step_usize backwards a n = (if backwards then (a + 2 ^ 64 - n) mod 2 ^ 64 else (a + n) mod 2 ^ 64)"

(* src/crates/machine-core/src/cirrus.rs:948-964 Cirrus542x::execute_blit *)
definition blit_expand_bit :: "cirrus \<Rightarrow> u8 list option \<Rightarrow> nat \<Rightarrow> nat \<Rightarrow> u8 list \<Rightarrow> nat \<Rightarrow> nat \<Rightarrow> bool" where
  "blit_expand_bit c system y x vram expand_addr expand_count =
     (let pixel = x div vga_blit_pixel_bytes c; src_start = vga_blit_addr c GR_BLIT_SRC_ADDR_LO in
      if blit_mode_bit c BM_PATTERN then bit (get_or 0 vram (src_start + y mod 8)) (7 - pixel mod 8)
      else case system of Some data \<Rightarrow> bit (get_or 0 data (y * system_source_pitch c (blit_span c) + pixel div 8)) (7 - pixel mod 8)
      | None \<Rightarrow> bit (get_or 0 vram expand_addr) (7 - expand_count div vga_blit_pixel_bytes c))"

(* src/crates/machine-core/src/cirrus.rs:985-1005 Cirrus542x::execute_blit *)
definition blit_source :: "cirrus \<Rightarrow> u8 list option \<Rightarrow> nat \<Rightarrow> nat \<Rightarrow> u8 list \<Rightarrow> bool \<Rightarrow> u8" where
  "blit_source c system y x vram ebit =
     (let src_start = vga_blit_addr c GR_BLIT_SRC_ADDR_LO; k = x mod vga_blit_pixel_bytes c in
      if blit_solid_fill c then blit_fg_component c k
      else if blit_mode_bit c BM_COLOR_EXPAND then (if ebit then blit_fg_component c k else blit_bg_component c k)
      else linear_blit_source c vram system (system_source_pitch c (blit_span c)) (blit_mode_bit c BM_PATTERN)
             (blit_line c src_start (vga_blit_pitch c GR_BLIT_SRC_PITCH_LO) y) src_start y x (vga_blit_pixel_bytes c))"

(* src/crates/machine-core/src/cirrus.rs:1007-1035 Cirrus542x::execute_blit *)
definition blit_transparent :: "cirrus \<Rightarrow> u8 list option \<Rightarrow> nat \<Rightarrow> nat \<Rightarrow> u8 list \<Rightarrow> bool \<Rightarrow> bool" where
  "blit_transparent c system y x vram ebit =
     (if \<not> blit_mode_bit c BM_TRANSPARENT then False
      else if blit_mode_bit c BM_COLOR_EXPAND then
        (if vga_gr c ! unat GR_BLIT_MODE_EXT AND BME_COLOR_EXPAND_INVERT \<noteq> 0 then ebit else \<not> ebit)
      else if blit_mode_bit c BM_PATTERN then False
      else (let src_start = vga_blit_addr c GR_BLIT_SRC_ADDR_LO; pixel_base = x - x mod vga_blit_pixel_bytes c in
        list_all (\<lambda>k.
          (let s = linear_blit_source c vram system (system_source_pitch c (blit_span c)) False
                     (blit_line c src_start (vga_blit_pitch c GR_BLIT_SRC_PITCH_LO) y) src_start y (pixel_base + k)
                     (vga_blit_pixel_bytes c);
               mask = vga_gr c ! (unat GR_BLIT_TRANSPARENT_MASK + k)
           in s AND NOT mask = vga_gr c ! (unat GR_BLIT_TRANSPARENT_COMPARE + k) AND NOT mask))
          [0..<vga_blit_pixel_bytes c]))"

(* src/crates/machine-core/src/cirrus.rs:965-974 Cirrus542x::execute_blit *)
definition blit_streams :: "cirrus \<Rightarrow> u8 list option \<Rightarrow> bool" where
  "blit_streams c system \<longleftrightarrow> blit_mode_bit c BM_COLOR_EXPAND \<and> \<not> blit_mode_bit c BM_PATTERN \<and> system = None"

(* src/crates/machine-core/src/cirrus.rs:947-1041 Cirrus542x::execute_blit *)
definition blit_byte :: "cirrus \<Rightarrow> u8 list option \<Rightarrow> nat \<Rightarrow> nat \<Rightarrow> u8 list \<times> nat \<times> nat \<Rightarrow> u8 list \<times> nat \<times> nat" where
  "blit_byte c system y x = (\<lambda>(vram, expand_addr, expand_count).
     let ebit = blit_expand_bit c system y x vram expand_addr expand_count;
         (expand_addr, expand_count) =
           (if blit_streams c system then
              (if expand_count + 1 = 8 * vga_blit_pixel_bytes c
               then (step_usize (blit_mode_bit c BM_BACKWARDS) expand_addr 1, 0) else (expand_addr, expand_count + 1))
            else (expand_addr, expand_count))
     in case blit_at c (blit_line c (vga_blit_addr c GR_BLIT_DST_ADDR_LO) (vga_blit_pitch c GR_BLIT_DST_PITCH_LO) y) x of
          None \<Rightarrow> (vram, expand_addr, expand_count)
        | Some dst \<Rightarrow>
            if \<not> dst < length vram then (vram, expand_addr, expand_count)
            else if blit_transparent c system y x vram ebit then (vram, expand_addr, expand_count)
            else (vram[dst := apply_rop (vga_gr c ! unat GR_BLIT_ROP) (blit_source c system y x vram ebit) (vram ! dst)],
                  expand_addr, expand_count))"

(* src/crates/machine-core/src/cirrus.rs:936-1050 Cirrus542x::execute_blit *)
definition blit_row :: "cirrus \<Rightarrow> u8 list option \<Rightarrow> nat \<Rightarrow> u8 list \<times> nat \<times> nat \<Rightarrow> u8 list \<times> nat \<times> nat" where
  "blit_row c system y s =
     (let (vram, expand_addr, expand_count) = fold (blit_byte c system y) [0..<blit_span c] s
      in if blit_streams c system \<and> expand_count \<noteq> 0
         then (vram, step_usize (blit_mode_bit c BM_BACKWARDS) expand_addr 1, 0) else (vram, expand_addr, expand_count))"

(* src/crates/machine-core/src/cirrus.rs:907-1088 Cirrus542x::execute_blit *)
definition vga_execute_blit :: "cirrus \<Rightarrow> u8 list option \<Rightarrow> cirrus" where
  "vga_execute_blit c system =
     (let width = blit_span c; height = vga_blit_height c;
          dst_start = vga_blit_addr c GR_BLIT_DST_ADDR_LO; src_start = vga_blit_addr c GR_BLIT_SRC_ADDR_LO;
          backwards = blit_mode_bit c BM_BACKWARDS;
          (vram, expand_addr, expand_count) = fold (blit_row c system) [0..<height] (vga_vram c, src_start, 0);
          dst_end = step_usize backwards dst_start ((height - 1) * vga_blit_pitch c GR_BLIT_DST_PITCH_LO + width);
          src_end = (if blit_mode_bit c BM_PATTERN \<or> system \<noteq> None then src_start
                     else if blit_mode_bit c BM_COLOR_EXPAND then expand_addr
                     else step_usize backwards src_start ((height - 1) * vga_blit_pitch c GR_BLIT_SRC_PITCH_LO + width))
      in vga_set_blit_addr (vga_set_blit_addr (c\<lparr>vga_vram := vram\<rparr>) GR_BLIT_DST_ADDR_LO dst_end) GR_BLIT_SRC_ADDR_LO src_end)"

(* src/crates/machine-core/src/cirrus.rs:849-865 Cirrus542x::start_blit *)
definition vga_start_blit :: "cirrus \<Rightarrow> cirrus" where
  "vga_start_blit c =
     (if blit_mode_bit c BM_SYSTEM_SOURCE then
        c\<lparr>vga_system_blit := Some \<lparr>sb_expected = max (system_source_pitch c (vga_blit_width c) * vga_blit_height c) 1,
            sb_filled = 0, sb_buf = replicate SYSTEM_BLIT_CAPACITY 0\<rparr>\<rparr>
      else vga_execute_blit c None)"

(* src/crates/machine-core/src/cirrus.rs:867-890 Cirrus542x::feed_system_blit *)
definition vga_feed_system_blit :: "cirrus \<Rightarrow> u8 \<Rightarrow> cirrus" where
  "vga_feed_system_blit c b =
     (case vga_system_blit c of None \<Rightarrow> c
      | Some blit \<Rightarrow>
         (let buf = (if sb_filled blit < length (sb_buf blit) then (sb_buf blit)[sb_filled blit := b] else sb_buf blit);
              filled = sb_filled blit + 1
          in if filled < sb_expected blit then c\<lparr>vga_system_blit := Some (blit\<lparr>sb_filled := filled, sb_buf := buf\<rparr>)\<rparr>
             else vga_execute_blit (c\<lparr>vga_system_blit := None\<rparr>) (Some (take (min (sb_expected blit) (length buf)) buf))))"

(* src/crates/machine-core/src/cirrus.rs:468-484 Cirrus542x::vram_write *)
definition vga_vram_write :: "cirrus \<Rightarrow> nat \<Rightarrow> u8 \<Rightarrow> cirrus" where
  "vga_vram_write c offset v =
     (if vga_system_blit c \<noteq> None then vga_feed_system_blit c v
      else if offset < length (vga_vram c) then c\<lparr>vga_vram := (vga_vram c)[offset := v]\<rparr> else c)"

(* src/crates/machine-core/src/cirrus.rs:718-732 Cirrus542x::write_graphics *)
definition write_graphics :: "cirrus \<Rightarrow> u8 \<Rightarrow> cirrus" where
  "write_graphics c v = (let index = vga_gr_index c AND 0x3F in
     if 8 < index \<and> \<not> extensions_unlocked c then c
     else (let c = c\<lparr>vga_gr := (vga_gr c)[unat index := v]\<rparr> in
       if index = GR_BLIT_START_STATUS then
         (if v AND BS_RESET \<noteq> 0 then
            c\<lparr>vga_system_blit := None,
              vga_gr := (vga_gr c)[unat GR_BLIT_START_STATUS := vga_gr c ! unat GR_BLIT_START_STATUS AND NOT BS_BUSY_MASK]\<rparr>
          else if v AND BS_START \<noteq> 0 then vga_start_blit c else c)
       else c))"

section \<open>The port map\<close>

(* src/crates/machine-core/src/cirrus.rs:486-522 Cirrus542x::reg_read *)
definition vga_reg_read :: "cirrus \<Rightarrow> u32 \<Rightarrow> cirrus \<times> u8" where
  "vga_reg_read c offset =
     (if offset = PORT_PEL_MASK then read_pel_mask_or_hidden_dac c
      else (let c = c\<lparr>vga_hidden_dac_arm := 0\<rparr> in
        if offset = PORT_MISC_OUTPUT then (c, input_status_0 c)
        else if offset = PORT_SEQ_INDEX then (c, vga_seq_index c)
        else if offset = PORT_SEQ_DATA then (c, read_sequencer c)
        else if offset = PORT_DAC_READ_INDEX then (c, if vga_dac_read_mode c then 0x03 else 0x00)
        else if offset = PORT_DAC_WRITE_INDEX then (c, vga_dac_write_index c)
        else if offset = PORT_DAC_DATA then read_dac_data c
        else if offset = PORT_MISC_OUTPUT_READ then (c, vga_misc_output c)
        else if offset = PORT_GR_INDEX then (c, vga_gr_index c)
        else if offset = PORT_GR_DATA then (c, read_graphics c)
        else if offset = PORT_AC_INDEX_DATA then (c, vga_ar_index c)
        else if offset = PORT_AC_DATA_READ then (c, vga_ar c ! unat (vga_ar_index c AND 0x1F))
        else if offset = PORT_CRTC_INDEX_MONO \<or> offset = PORT_CRTC_INDEX_COLOR then (c, vga_crtc_index c)
        else if offset = PORT_CRTC_DATA_MONO \<or> offset = PORT_CRTC_DATA_COLOR then (c, read_crtc c)
        else if offset = PORT_INPUT_STATUS_1_MONO \<or> offset = PORT_INPUT_STATUS_1_COLOR then
          (let c = c\<lparr>vga_ar_next_is_data := False\<rparr> in (c, input_status_1 c))
        else (c, OPEN_BUS_BYTE)))"

(* src/crates/machine-core/src/cirrus.rs:524-553 Cirrus542x::reg_write *)
definition vga_reg_write :: "cirrus \<Rightarrow> u32 \<Rightarrow> u8 \<Rightarrow> cirrus" where
  "vga_reg_write c offset v =
     (if offset = PORT_PEL_MASK then write_pel_mask_or_hidden_dac c v
      else (let c = c\<lparr>vga_hidden_dac_arm := 0\<rparr> in
        if offset = PORT_MISC_OUTPUT then c\<lparr>vga_misc_output := v\<rparr>
        else if offset = PORT_SEQ_INDEX then c\<lparr>vga_seq_index := v\<rparr>
        else if offset = PORT_SEQ_DATA then write_sequencer c v
        else if offset = PORT_DAC_READ_INDEX then c\<lparr>vga_dac_read_index := v, vga_dac_component := 0, vga_dac_read_mode := True\<rparr>
        else if offset = PORT_DAC_WRITE_INDEX then c\<lparr>vga_dac_write_index := v, vga_dac_component := 0, vga_dac_read_mode := False\<rparr>
        else if offset = PORT_DAC_DATA then write_dac_data c v
        else if offset = PORT_GR_INDEX then c\<lparr>vga_gr_index := v\<rparr>
        else if offset = PORT_GR_DATA then write_graphics c v
        else if offset = PORT_AC_INDEX_DATA then write_attribute c v
        else if offset = PORT_CRTC_INDEX_MONO \<or> offset = PORT_CRTC_INDEX_COLOR then c\<lparr>vga_crtc_index := v\<rparr>
        else if offset = PORT_CRTC_DATA_MONO \<or> offset = PORT_CRTC_DATA_COLOR then write_crtc c v
        else c))"

section \<open>Well-formed chips\<close>

text \<open>
  Every array of the chip has the length it is declared with, the counters that index arrays stay in range and a pending
  host-fed transfer still waits for a byte. Register indices are masked to the size of the file they select, so under
  this invariant no array access of the source can be out of bounds.
\<close>

definition rgb_table :: "nat \<Rightarrow> u8 list list \<Rightarrow> bool" where
  "rgb_table n ps \<longleftrightarrow> length ps = n \<and> (\<forall>p \<in> set ps. length p = 3)"

definition vga_wf :: "nat \<Rightarrow> cirrus \<Rightarrow> bool" where
  "vga_wf n c \<longleftrightarrow> length (vga_vram c) = n \<and> length (vga_sr c) = 32 \<and> length (vga_crtc c) = 64 \<and> length (vga_gr c) = 64
     \<and> length (vga_ar c) = 32 \<and> rgb_table 256 (vga_palette c) \<and> rgb_table 16 (vga_cursor_palette c)
     \<and> vga_dac_component c < 3 \<and> vga_hidden_dac_arm c \<le> 4
     \<and> (case vga_system_blit c of None \<Rightarrow> True
        | Some b \<Rightarrow> sb_filled b < sb_expected b \<and> length (sb_buf b) = SYSTEM_BLIT_CAPACITY)"

inductive vga_step :: "cirrus \<Rightarrow> cirrus \<Rightarrow> bool" where
  read_port: "vga_reg_read c p = (c', v) \<Longrightarrow> vga_step c c'"
| write_port: "vga_step c (vga_reg_write c p v)"
| write_vram: "vga_step c (vga_vram_write c off v)"
| retrace: "vga_step c (vga_signal_vertical_retrace c)"

inductive vga_reachable :: "chip_revision \<Rightarrow> u8 list \<Rightarrow> cirrus \<Rightarrow> bool" for r vram where
  start: "vga_reachable r vram (vga_new r vram)"
| step: "vga_reachable r vram c \<Longrightarrow> vga_step c c' \<Longrightarrow> vga_reachable r vram c'"

inductive_cases vga_stepE: "vga_step c c'"

lemma rgb_table_replicate: "rgb_table n (replicate n (replicate 3 x))"
  by (simp add: rgb_table_def)

lemma rgb_table_update2 [simp]: "rgb_table n ps \<Longrightarrow> rgb_table n (update2 ps i k v)"
  unfolding update2_def rgb_table_def using set_update_subset_insert [of ps i "(ps ! i)[k := v]"]
  by (cases "i < length ps") (auto simp: list_update_beyond)

lemma vga_wf_new: "vga_wf (length vram) (vga_new r vram)"
  by (simp add: vga_wf_def vga_new_def rgb_table_replicate)

lemma blit_byte_length: "length (fst (blit_byte c sys y x s)) = length (fst s)"
  by (auto simp: blit_byte_def Let_def case_prod_beta split: option.splits)

lemma fold_blit_byte_length: "length (fst (fold (blit_byte c sys y) xs s)) = length (fst s)"
  by (induction xs arbitrary: s) (simp_all add: blit_byte_length)

lemma blit_row_length: "length (fst (blit_row c sys y s)) = length (fst s)"
  using fold_blit_byte_length [of c sys y "[0..<blit_span c]" s]
  by (auto simp: blit_row_def Let_def case_prod_beta)

lemma fold_blit_row_length: "length (fst (fold (blit_row c sys) ys s)) = length (fst s)"
  by (induction ys arbitrary: s) (simp_all add: blit_row_length)

text \<open>A blit changes VRAM and the two address counters, and nothing else.\<close>

lemma set_blit_addr_frame:
  obtains gr where "vga_set_blit_addr c low a = c\<lparr>vga_gr := gr\<rparr>" and "length gr = length (vga_gr c)"
  by (rule that [where gr = "vga_gr (vga_set_blit_addr c low a)"]) (simp_all add: vga_set_blit_addr_def Let_def)

lemma execute_blit_frame:
  obtains vram gr where "vga_execute_blit c sys = c\<lparr>vga_vram := vram, vga_gr := gr\<rparr>"
    and "length vram = length (vga_vram c)" and "length gr = length (vga_gr c)"
proof -
  define st where "st = fold (blit_row c sys) [0..<vga_blit_height c] (vga_vram c, vga_blit_addr c GR_BLIT_SRC_ADDR_LO, 0)"
  have len: "length (fst st) = length (vga_vram c)" by (simp add: st_def fold_blit_row_length)
  obtain d e where "vga_execute_blit c sys
      = vga_set_blit_addr (vga_set_blit_addr (c\<lparr>vga_vram := fst st\<rparr>) GR_BLIT_DST_ADDR_LO d) GR_BLIT_SRC_ADDR_LO e"
    unfolding vga_execute_blit_def Let_def st_def case_prod_beta by blast
  moreover obtain g1 where "vga_set_blit_addr (c\<lparr>vga_vram := fst st\<rparr>) GR_BLIT_DST_ADDR_LO d = c\<lparr>vga_vram := fst st, vga_gr := g1\<rparr>"
      and "length g1 = length (vga_gr c)"
    using set_blit_addr_frame [of "c\<lparr>vga_vram := fst st\<rparr>" GR_BLIT_DST_ADDR_LO d] by auto
  moreover obtain g2 where "vga_set_blit_addr (c\<lparr>vga_vram := fst st, vga_gr := g1\<rparr>) GR_BLIT_SRC_ADDR_LO e
        = c\<lparr>vga_vram := fst st, vga_gr := g2\<rparr>" and "length g2 = length g1"
    using set_blit_addr_frame [of "c\<lparr>vga_vram := fst st, vga_gr := g1\<rparr>" GR_BLIT_SRC_ADDR_LO e] by auto
  ultimately show ?thesis using len by (intro that [where vram = "fst st" and gr = g2]) simp_all
qed

lemma vga_wf_execute: "vga_wf n c \<Longrightarrow> vga_wf n (vga_execute_blit c sys)"
  by (rule execute_blit_frame [of c sys]) (simp add: vga_wf_def)

lemma vga_wf_start_blit: "vga_wf n c \<Longrightarrow> vga_wf n (vga_start_blit c)"
  by (auto simp: vga_start_blit_def vga_wf_execute) (simp add: vga_wf_def)

lemma vga_wf_clear_blit: "vga_wf n c \<Longrightarrow> vga_wf n (c\<lparr>vga_system_blit := None\<rparr>)"
  by (simp add: vga_wf_def)

lemma vga_wf_vram_write: "vga_wf n c \<Longrightarrow> vga_wf n (vga_vram_write c off v)"
proof (cases "vga_system_blit c")
  case None
  then show "vga_wf n c \<Longrightarrow> ?thesis" by (simp add: vga_vram_write_def) (simp add: vga_wf_def)
next
  case (Some b)
  assume wf: "vga_wf n c"
  show ?thesis
    using wf Some vga_wf_execute [OF vga_wf_clear_blit [OF wf]]
    by (simp add: vga_vram_write_def vga_feed_system_blit_def Let_def) (simp add: vga_wf_def)
qed

lemma vga_wf_gr: "vga_wf n c \<Longrightarrow> length gr = 64 \<Longrightarrow> vga_wf n (c\<lparr>vga_gr := gr\<rparr>)"
  by (simp add: vga_wf_def)

lemma vga_wf_graphics: "vga_wf n c \<Longrightarrow> vga_wf n (write_graphics c v)"
  using vga_wf_start_blit [OF vga_wf_gr [of n c "(vga_gr c)[unat (vga_gr_index c AND 0x3F) := v]"]]
    vga_wf_clear_blit [OF vga_wf_gr [of n c "(vga_gr c)[0x31 := v, 0x31 := v AND NOT BS_BUSY_MASK]"]]
  by (auto simp: write_graphics_def Let_def vga_wf_def)

lemma vga_wf_dac_write: "vga_wf n c \<Longrightarrow> vga_wf n (write_dac_data c v)"
proof -
  assume wf: "vga_wf n c"
  then have "unat (vga_dac_component c) < 3" by (simp add: vga_wf_def word_less_nat_alt)
  then have "vga_dac_component c + 1 \<noteq> 3 \<Longrightarrow> vga_dac_component c + 1 < 3"
    by (simp add: word_less_nat_alt unat_inc word_unat_eq_iff)
  then show ?thesis
    using wf by (simp add: write_dac_data_def Let_def vga_wf_def)
qed

lemma vga_wf_dac_read: "vga_wf n c \<Longrightarrow> vga_wf n (fst (read_dac_data c))"
proof -
  assume wf: "vga_wf n c"
  then have "unat (vga_dac_component c) < 3" by (simp add: vga_wf_def word_less_nat_alt)
  then have "vga_dac_component c + 1 \<noteq> 3 \<Longrightarrow> vga_dac_component c + 1 < 3"
    by (simp add: word_less_nat_alt unat_inc word_unat_eq_iff)
  then show ?thesis
    using wf by (simp add: read_dac_data_def Let_def vga_wf_def)
qed

lemma vga_wf_pel_read: "vga_wf n c \<Longrightarrow> vga_wf n (fst (read_pel_mask_or_hidden_dac c))"
proof -
  assume wf: "vga_wf n c"
  have "\<not> 4 \<le> vga_hidden_dac_arm c \<Longrightarrow> vga_hidden_dac_arm c + 1 \<le> 4"
    by (simp add: word_le_nat_alt unat_inc)
  then show ?thesis
    using wf by (simp add: read_pel_mask_or_hidden_dac_def vga_wf_def)
qed

lemma vga_wf_disarm: "vga_wf n c \<Longrightarrow> vga_wf n (c\<lparr>vga_hidden_dac_arm := 0\<rparr>)"
  by (simp add: vga_wf_def)

lemma vga_wf_reg_read: "vga_wf n c \<Longrightarrow> vga_wf n (fst (vga_reg_read c p))"
  using vga_wf_pel_read [of n c] vga_wf_dac_read [OF vga_wf_disarm [of n c]] vga_wf_disarm [of n c]
  by (simp add: vga_reg_read_def Let_def) (simp add: vga_wf_def)

lemma vga_wf_small_writes:
  assumes "vga_wf n c"
  shows "vga_wf n (write_sequencer c v)" "vga_wf n (write_crtc c v)" "vga_wf n (write_attribute c v)"
    "vga_wf n (write_pel_mask_or_hidden_dac c v)"
  using assms by (simp_all add: write_sequencer_def write_crtc_def write_attribute_def write_pel_mask_or_hidden_dac_def
      Let_def vga_wf_def)

lemma vga_wf_reg_write: "vga_wf n c \<Longrightarrow> vga_wf n (vga_reg_write c p v)"
proof -
  assume wf: "vga_wf n c"
  note d = vga_wf_disarm [OF wf]
  show ?thesis
    using vga_wf_small_writes(4) [OF wf, of v] d
    by (auto simp: vga_reg_write_def Let_def vga_wf_small_writes vga_wf_dac_write vga_wf_graphics)
       (simp_all add: vga_wf_def)
qed

lemma vga_wf_retrace: "vga_wf n c \<Longrightarrow> vga_wf n (vga_signal_vertical_retrace c)"
  by (simp add: vga_signal_vertical_retrace_def vga_wf_def)

text \<open>Whatever ports a guest reads and writes, whatever bytes it pushes through the aperture, in any order, the
  chip keeps its shape: every register file and palette has the length it was declared with, VRAM keeps the length it was
  given, the palette component counter stays below three, the hidden-DAC counter stays at most four and a pending host-fed
  blit still expects a byte.\<close>

lemma vga_shape_invariant:
  assumes "vga_reachable r vram c"
  shows "vga_wf (length vram) c"
  using assms
proof (induction rule: vga_reachable.induct)
  case start
  show ?case by (rule vga_wf_new)
next
  case (step c c')
  from step.hyps(2) step.IH show ?case
    by (cases rule: vga_step.cases)
       (simp_all add: vga_wf_reg_write vga_wf_vram_write vga_wf_retrace, metis vga_wf_reg_read fst_conv)
qed

lemma vga_shape_invariant_example:
  "vga_wf 2 (vga_vram_write (vga_reg_write (vga_new Gd5428 [1, 2]) 0x3C4 6) 1 7)"
proof -
  have "vga_reachable Gd5428 [1, 2] (vga_vram_write (vga_reg_write (vga_new Gd5428 [1, 2]) 0x3C4 6) 1 7)"
    by (rule vga_reachable.step [OF vga_reachable.step [OF vga_reachable.start vga_step.write_port] vga_step.write_vram])
  from vga_shape_invariant [OF this] show ?thesis by (simp add: numeral_2_eq_2)
qed

section \<open>Plain copies move their rectangle\<close>

text \<open>
  What a copy should do, whatever the order of its steps: every byte of the destination rectangle combines what was there
  with what its source byte held before the blit, and every other byte stays.
\<close>

definition rect_move :: "nat \<Rightarrow> nat \<Rightarrow> (nat \<Rightarrow> nat \<Rightarrow> nat) \<Rightarrow> (nat \<Rightarrow> nat \<Rightarrow> nat) \<Rightarrow> (u8 \<Rightarrow> u8 \<Rightarrow> u8) \<Rightarrow> u8 list \<Rightarrow> u8 list" where
  "rect_move h w dst src f v =
     map (\<lambda>k. case find (\<lambda>(y, x). dst y x = k) (List.product [0..<h] [0..<w]) of
                None \<Rightarrow> v ! k | Some (y, x) \<Rightarrow> f (v ! src y x) (v ! k)) [0..<length v]"

definition move_step :: "('a \<Rightarrow> nat) \<Rightarrow> ('a \<Rightarrow> nat) \<Rightarrow> (u8 \<Rightarrow> u8 \<Rightarrow> u8) \<Rightarrow> 'a \<Rightarrow> u8 list \<Rightarrow> u8 list" where
  "move_step dst src f a v = v[dst a := f (v ! src a) (v ! dst a)]"

lemma length_fold_move [simp]: "length (fold (move_step dst src f) L v) = length v"
  by (induction L arbitrary: v) (simp_all add: move_step_def)

lemma fold_move_other: "k \<notin> dst ` set L \<Longrightarrow> fold (move_step dst src f) L v ! k = v ! k"
  by (induction L arbitrary: v) (simp_all add: move_step_def)

lemma fold_move_at:
  assumes "sorted_wrt (\<lambda>a b. dst a \<noteq> dst b \<and> src b \<noteq> dst a) L" and "\<forall>a \<in> set L. dst a < length v" and "b \<in> set L"
  shows "fold (move_step dst src f) L v ! dst b = f (v ! src b) (v ! dst b)"
  using assms
proof (induction L arbitrary: v)
  case (Cons a L)
  show ?case
  proof (cases "b \<in> set L")
    case True
    then show ?thesis using Cons by (auto simp: move_step_def nth_list_update)
  next
    case False
    then have "b = a" "dst a \<notin> dst ` set L" using Cons.prems by auto
    then show ?thesis using Cons.prems by (simp add: fold_move_other) (simp add: move_step_def)
  qed
qed simp

lemma find_SomeE: "find P L = Some a \<Longrightarrow> a \<in> set L \<and> P a"
  by (induction L) (auto split: if_splits)

lemma fold_move_is_rect_move:
  fixes dst src :: "nat \<Rightarrow> nat \<Rightarrow> nat" and h w :: nat
  defines "L \<equiv> List.product [0..<h] [0..<w]"
  assumes ord: "sorted_wrt (\<lambda>a b. case_prod dst a \<noteq> case_prod dst b \<and> case_prod src b \<noteq> case_prod dst a) L"
    and dst: "\<forall>a \<in> set L. case_prod dst a < length v"
  shows "fold (move_step (case_prod dst) (case_prod src) f) L v = rect_move h w dst src f v"
proof (rule nth_equalityI)
  fix k assume "k < length (fold (move_step (case_prod dst) (case_prod src) f) L v)"
  then have k: "k < length v" by simp
  show "fold (move_step (case_prod dst) (case_prod src) f) L v ! k = rect_move h w dst src f v ! k"
  proof (cases "find (\<lambda>(y, x). dst y x = k) L")
    case None
    then have "k \<notin> case_prod dst ` set L" by (auto simp: find_None_iff)
    then show ?thesis using None k by (simp add: fold_move_other rect_move_def L_def)
  next
    case (Some a)
    then have a: "a \<in> set L" "case_prod dst a = k" using find_SomeE [OF Some] by (auto simp: case_prod_beta)
    have "fold (move_step (case_prod dst) (case_prod src) f) L v ! k = f (v ! case_prod src a) (v ! k)"
      using fold_move_at [OF ord dst a(1)] a(2) by simp
    then show ?thesis using Some k by (simp add: rect_move_def L_def split: prod.splits)
  qed
qed (simp add: rect_move_def)

lemma fold_fold_product:
  "fold (\<lambda>y. fold (g y) xs) ys s = fold (\<lambda>(y, x). g y x) (List.product ys xs) s"
proof (induction ys arbitrary: s)
  case (Cons y ys)
  have "fold (\<lambda>(y, x). g y x) (map (Pair y) xs) t = fold (g y) xs t" for t
    by (induction xs arbitrary: t) simp_all
  then show ?case using Cons by simp
qed simp

text \<open>The scan order visits ascending distances from the corner when rows do not overlap.\<close>

lemma scan_sorted:
  assumes "w \<le> p"
  shows "sorted_wrt (\<lambda>a b. fst a * p + snd a < fst b * p + snd b) (List.product [i..<h] [0..<w])" (is "sorted_wrt ?R _")
proof (induction "h - i" arbitrary: i)
  case 0
  then show ?case by simp
next
  case (Suc n)
  have up: "[i..<h] = i # [Suc i..<h]" using Suc.hyps(2) by (simp add: upt_rec)
  have "sorted_wrt ?R (map (Pair i) [0..<w])"
    by (simp add: sorted_wrt_map sorted_wrt_iff_nth_less)
  moreover have "?R a b" if a: "a \<in> set (map (Pair i) [0..<w])" and b: "b \<in> set (List.product [Suc i..<h] [0..<w])" for a b
  proof -
    have "Suc (fst a) * p \<le> fst b * p" using a b by (intro mult_right_mono) auto
    moreover have "snd a < p" using a assms by auto
    ultimately show ?thesis by simp
  qed
  ultimately show ?case using Suc.hyps(1) [of "Suc i"] Suc.hyps(2) by (simp add: up sorted_wrt_append)
qed

lemma scan_bound:
  assumes "a \<in> set (List.product [0..<h] [0..<w])"
  shows "fst a * p + snd a < (h - 1) * p + w"
proof -
  have "fst a * p \<le> (h - 1) * p" using assms by (intro mult_right_mono) auto
  moreover have "snd a < w" using assms by auto
  ultimately show ?thesis by (rule add_le_less_mono)
qed

text \<open>The rectangle of a copy, seen from its corner.\<close>

definition blit_cell :: "cirrus \<Rightarrow> nat \<Rightarrow> nat \<Rightarrow> nat \<Rightarrow> nat \<Rightarrow> nat" where
  "blit_cell c start p y x = (if blit_mode_bit c BM_BACKWARDS then start - (y * p + x) else start + (y * p + x))"

definition plain_copy :: "cirrus \<Rightarrow> nat \<Rightarrow> bool" where
  "plain_copy c p \<longleftrightarrow>
     \<not> blit_mode_bit c BM_COLOR_EXPAND \<and> \<not> blit_mode_bit c BM_PATTERN \<and> \<not> blit_mode_bit c BM_TRANSPARENT
     \<and> \<not> blit_mode_bit c BM_SYSTEM_SOURCE
     \<and> vga_blit_pitch c GR_BLIT_DST_PITCH_LO = p \<and> vga_blit_pitch c GR_BLIT_SRC_PITCH_LO = p \<and> vga_blit_width c \<le> p
     \<and> (let D = vga_blit_addr c GR_BLIT_DST_ADDR_LO; S = vga_blit_addr c GR_BLIT_SRC_ADDR_LO;
            n = (vga_blit_height c - 1) * p + vga_blit_width c in
        if blit_mode_bit c BM_BACKWARDS then S \<le> D \<and> D < length (vga_vram c) \<and> n \<le> S + 1
        else D \<le> S \<and> S + n \<le> length (vga_vram c))"

lemma plain_copy_span: "plain_copy c p \<Longrightarrow> blit_span c = vga_blit_width c"
  by (auto simp: plain_copy_def blit_span_def Let_def split: if_splits)

lemma blit_at_cell:
  assumes "blit_mode_bit c BM_BACKWARDS \<Longrightarrow> y * p + x \<le> start"
  shows "blit_at c (blit_line c start p y) x = Some (blit_cell c start p y x)"
  using assms by (auto simp: blit_at_def blit_line_def blit_cell_def)

lemma blit_byte_plain:
  assumes pc: "plain_copy c p" and yx: "(y, x) \<in> set (List.product [0..<vga_blit_height c] [0..<vga_blit_width c])"
    and len: "length v = length (vga_vram c)"
  defines "D \<equiv> vga_blit_addr c GR_BLIT_DST_ADDR_LO" and "S \<equiv> vga_blit_addr c GR_BLIT_SRC_ADDR_LO"
  shows "blit_byte c None y x (v, ea, ec) =
    (move_step (case_prod (blit_cell c D p)) (case_prod (blit_cell c S p)) (apply_rop (vga_gr c ! unat GR_BLIT_ROP)) (y, x) v, ea, ec)"
    and "blit_cell c D p y x < length v" and "blit_cell c S p y x < length v"
proof -
  have e: "y * p + x < (vga_blit_height c - 1) * p + vga_blit_width c" using scan_bound [OF yx, of p] by simp
  then have in_range: "blit_cell c D p y x < length v" "blit_cell c S p y x < length v"
    and desc: "blit_mode_bit c BM_BACKWARDS \<Longrightarrow> y * p + x \<le> S" "blit_mode_bit c BM_BACKWARDS \<Longrightarrow> y * p + x \<le> D"
    using pc len unfolding plain_copy_def blit_cell_def Let_def D_def S_def by (auto split: if_splits)
  from in_range show "blit_cell c D p y x < length v" "blit_cell c S p y x < length v" by auto
  have "blit_at c (blit_line c D p y) x = Some (blit_cell c D p y x)"
    "blit_at c (blit_line c S p y) x = Some (blit_cell c S p y x)"
    using desc by (auto intro!: blit_at_cell)
  moreover have "\<not> blit_streams c None" "\<not> blit_solid_fill c" using pc by (auto simp: plain_copy_def blit_streams_def blit_solid_fill_def)
  ultimately show "blit_byte c None y x (v, ea, ec) =
    (move_step (case_prod (blit_cell c D p)) (case_prod (blit_cell c S p)) (apply_rop (vga_gr c ! unat GR_BLIT_ROP)) (y, x) v, ea, ec)"
    using pc in_range unfolding blit_byte_def plain_copy_def
    by (simp add: Let_def blit_transparent_def blit_source_def linear_blit_source_def get_or_def move_step_def D_def S_def)
qed

lemma fold_rows_plain:
  assumes pc: "plain_copy c p"
  defines "D \<equiv> vga_blit_addr c GR_BLIT_DST_ADDR_LO" and "S \<equiv> vga_blit_addr c GR_BLIT_SRC_ADDR_LO"
  shows "fold (blit_row c None) [0..<vga_blit_height c] (vga_vram c, ea, 0) =
    (fold (move_step (case_prod (blit_cell c D p)) (case_prod (blit_cell c S p)) (apply_rop (vga_gr c ! unat GR_BLIT_ROP)))
       (List.product [0..<vga_blit_height c] [0..<vga_blit_width c]) (vga_vram c), ea, 0)"
proof -
  let ?m = "move_step (case_prod (blit_cell c D p)) (case_prod (blit_cell c S p)) (apply_rop (vga_gr c ! unat GR_BLIT_ROP))"
  have ns: "\<not> blit_streams c None" using pc by (simp add: plain_copy_def blit_streams_def)
  have "blit_row c None = (\<lambda>y. fold (blit_byte c None y) [0..<vga_blit_width c])"
    by (rule ext, rule ext) (simp add: blit_row_def plain_copy_span [OF pc] ns Let_def case_prod_beta)
  then have "fold (blit_row c None) [0..<vga_blit_height c] s
      = fold (\<lambda>(y, x). blit_byte c None y x) (List.product [0..<vga_blit_height c] [0..<vga_blit_width c]) s" for s
    by (simp only: fold_fold_product)
  moreover have "fold (\<lambda>(y, x). blit_byte c None y x) L (v, ea, 0) = (fold ?m L v, ea, 0)"
    if "set L \<subseteq> set (List.product [0..<vga_blit_height c] [0..<vga_blit_width c])" "length v = length (vga_vram c)" for L v
    using that
  proof (induction L arbitrary: v)
    case (Cons a L)
    obtain y x where a: "a = (y, x)" by fastforce
    have "blit_byte c None y x (v, ea, 0) = (?m (y, x) v, ea, 0)"
      using blit_byte_plain(1) [OF pc _ Cons.prems(2), of y x] Cons.prems(1) a by (simp add: D_def S_def)
    then show ?case using Cons.IH [of "?m (y, x) v"] Cons.prems a by (simp add: move_step_def)
  qed simp
  ultimately show ?thesis by (simp only: order_refl)
qed

lemma plain_copy_order:
  assumes pc: "plain_copy c p"
  defines "D \<equiv> vga_blit_addr c GR_BLIT_DST_ADDR_LO" and "S \<equiv> vga_blit_addr c GR_BLIT_SRC_ADDR_LO"
  shows "sorted_wrt (\<lambda>a b. case_prod (blit_cell c D p) a \<noteq> case_prod (blit_cell c D p) b
      \<and> case_prod (blit_cell c S p) b \<noteq> case_prod (blit_cell c D p) a)
      (List.product [0..<vga_blit_height c] [0..<vga_blit_width c])"
proof (rule sorted_wrt_mono_rel [OF _ scan_sorted [of "vga_blit_width c" p 0 "vga_blit_height c"]])
  show "vga_blit_width c \<le> p" using pc by (simp add: plain_copy_def)
next
  fix a b assume "a \<in> set (List.product [0..<vga_blit_height c] [0..<vga_blit_width c])"
    and b: "b \<in> set (List.product [0..<vga_blit_height c] [0..<vga_blit_width c])"
    and lt: "fst a * p + snd a < fst b * p + snd b"
  have "fst b * p + snd b < (vga_blit_height c - 1) * p + vga_blit_width c" by (rule scan_bound [OF b])
  moreover have "if blit_mode_bit c BM_BACKWARDS then S \<le> D \<and> (vga_blit_height c - 1) * p + vga_blit_width c \<le> S + 1 else D \<le> S"
    using pc by (auto simp: plain_copy_def Let_def D_def S_def)
  ultimately show "case_prod (blit_cell c D p) a \<noteq> case_prod (blit_cell c D p) b
      \<and> case_prod (blit_cell c S p) b \<noteq> case_prod (blit_cell c D p) a"
    using lt by (auto simp: blit_cell_def case_prod_beta split: if_splits)
qed

lemma vram_set_blit_addr [simp]: "vga_vram (vga_set_blit_addr c low a) = vga_vram c"
  by (simp add: vga_set_blit_addr_def Let_def)

text \<open>C34 [equivalence]: A plain copy blit moves its rectangle like \<open>memmove\<close>. Let a screen-to-screen copy (no colour expansion, pattern,
  transparency or host data) use for source and destination one pitch at
  least as wide as a row, lie wholly in VRAM, and have the direction bit chosen as a driver must choose it: ascending addresses when moving
  towards lower ones, descending when moving towards higher ones. Then even when the rectangles overlap every
  destination byte is the raster operation of what its source byte and the destination byte held before the blit, and no
  other byte of VRAM changes: the byte-by-byte loop of the engine is equal to the simultaneous move.\<close>

theorem vga_copy_is_memmove:
  assumes "plain_copy c p"
  shows "vga_vram (vga_start_blit c) =
    rect_move (vga_blit_height c) (vga_blit_width c)
      (blit_cell c (vga_blit_addr c GR_BLIT_DST_ADDR_LO) p) (blit_cell c (vga_blit_addr c GR_BLIT_SRC_ADDR_LO) p)
      (apply_rop (vga_gr c ! unat GR_BLIT_ROP)) (vga_vram c)"
proof -
  have "\<not> blit_mode_bit c BM_SYSTEM_SOURCE" using assms by (simp add: plain_copy_def)
  moreover have "\<forall>a \<in> set (List.product [0..<vga_blit_height c] [0..<vga_blit_width c]).
      case_prod (blit_cell c (vga_blit_addr c GR_BLIT_DST_ADDR_LO) p) a < length (vga_vram c)"
    using blit_byte_plain(2) [OF assms _ refl] by (auto simp del: GR_BLIT_DST_ADDR_LO_def)
  ultimately show ?thesis
    using fold_move_is_rect_move [OF plain_copy_order [OF assms], of "vga_vram c" "apply_rop (vga_gr c ! unat GR_BLIT_ROP)"]
    unfolding vga_start_blit_def vga_execute_blit_def Let_def
    by (simp only: fold_rows_plain [OF assms] if_False prod.case vram_set_blit_addr) simp
qed

definition blit_demo :: cirrus where
  "blit_demo = (vga_new Gd5428 [10, 11, 12, 13, 14, 15, 16, 17])\<lparr>vga_gr :=
     (replicate 64 0)[0x20 := 2, 0x22 := 1, 0x24 := 3, 0x26 := 3, 0x28 := 0, 0x2C := 2, 0x32 := 0x0D]\<rparr>"

lemma blit_demo_regs:
  "vga_gr blit_demo ! 0x20 = 2" "vga_gr blit_demo ! 0x21 = 0" "vga_gr blit_demo ! 0x22 = 1" "vga_gr blit_demo ! 0x23 = 0"
  "vga_gr blit_demo ! 0x24 = 3" "vga_gr blit_demo ! 0x25 = 0" "vga_gr blit_demo ! 0x26 = 3" "vga_gr blit_demo ! 0x27 = 0"
  "vga_gr blit_demo ! 0x28 = 0" "vga_gr blit_demo ! 0x29 = 0" "vga_gr blit_demo ! 0x2A = 0"
  "vga_gr blit_demo ! 0x2C = 2" "vga_gr blit_demo ! 0x2D = 0" "vga_gr blit_demo ! 0x2E = 0"
  "vga_gr blit_demo ! 0x30 = 0" "vga_gr blit_demo ! 0x32 = 0x0D"
  "vga_vram blit_demo = [10, 11, 12, 13, 14, 15, 16, 17]"
  by (simp_all add: blit_demo_def vga_new_def)

lemma blit_demo_fields:
  "\<not> blit_mode_bit blit_demo m" "vga_blit_width blit_demo = 3" "vga_blit_height blit_demo = 2"
  "vga_blit_pitch blit_demo 0x24 = 3" "vga_blit_pitch blit_demo 0x26 = 3"
  "vga_blit_addr blit_demo 0x28 = 0" "vga_blit_addr blit_demo 0x2C = 2"
  by (simp_all add: blit_demo_regs blit_mode_bit_def vga_blit_width_def vga_blit_height_def vga_blit_pitch_def vga_blit_addr_def)

theorem vga_copy_is_memmove_witness:
  "plain_copy blit_demo 3 \<and> vga_vram (vga_start_blit blit_demo) = [12, 13, 14, 15, 16, 17, 16, 17]"
proof -
  have pc: "plain_copy blit_demo 3" by (simp add: plain_copy_def blit_demo_fields blit_demo_regs)
  have "blit_cell blit_demo 0 3 = (\<lambda>y x. y * 3 + x)" "blit_cell blit_demo 2 3 = (\<lambda>y x. 2 + (y * 3 + x))"
    "apply_rop 0x0D = (\<lambda>s d. s)"
    by (simp_all add: fun_eq_iff blit_cell_def blit_demo_fields apply_rop_def)
  moreover have "rect_move 2 3 (\<lambda>y x. y * 3 + x) (\<lambda>y x. 2 + (y * 3 + x)) (\<lambda>s d. s) [10, 11, 12, 13, 14, 15, 16, 17]
      = [12, 13, 14, 15, 16, 17, 16, 17]" by code_simp
  ultimately show ?thesis
    unfolding vga_copy_is_memmove [OF pc] using pc by (simp add: blit_demo_fields blit_demo_regs)
qed

section \<open>Frames stay inside VRAM\<close>

lemma decoded_mode_facts:
  assumes "vga_decoded_mode c = Some m"
  obtains row rows last fin :: u32 where
    "unat row = unat (dm_width m) * unat (depth_bytes (dm_depth m))" "row \<le> dm_stride_bytes m"
    "unat rows = unat (dm_height m - 1) * unat (dm_stride_bytes m)" "unat last = unat (dm_start_offset m) + unat rows"
    "unat fin = unat last + unat row" "\<not> of_nat (length (vga_vram c)) < fin"
    "16 \<le> dm_width m" "dm_width m \<le> 4096" "16 \<le> dm_height m" "dm_height m \<le> 4096"
proof -
  obtain width height depth stride start where fit: "decoded_fit (length (vga_vram c)) width height depth stride start = Some m"
    and size: "16 \<le> width" "width \<le> 4096" "16 \<le> height" "height \<le> 4096"
    using assms unfolding vga_decoded_mode_def Let_def by (simp split: if_splits option.splits)
  from fit obtain row rows last fin where "checked_mul_u32 width (depth_bytes depth) = Some row" "\<not> stride < row"
    "checked_mul_u32 (height - 1) stride = Some rows" "checked_add_u32 start rows = Some last"
    "checked_add_u32 last row = Some fin" "\<not> of_nat (length (vga_vram c)) < fin"
    and m: "m = \<lparr>dm_width = width, dm_height = height, dm_depth = depth, dm_stride_bytes = stride, dm_start_offset = start\<rparr>"
    unfolding decoded_fit_def by (auto split: if_splits option.splits)
  then show ?thesis
    using size by (intro that [where row = row and rows = rows and last = last and fin = fin])
      (simp_all add: checked_mul_u32_Some checked_add_u32_Some)
qed

text \<open>Whatever a guest programs into the CRTC, sequencer and hidden DAC, a mode the chip reports as displayable
  describes a frame of 16 to 4096 pixels each way every byte of which lies inside VRAM, so the presenting code can walk it
  without a further check.\<close>

lemma vga_frame_in_vram:
  assumes "vga_decoded_mode c = Some m" and "length (vga_vram c) < 2 ^ 32"
    and "y < unat (dm_height m)" and "x < unat (dm_width m) * unat (depth_bytes (dm_depth m))"
  shows "unat (dm_start_offset m) + y * unat (dm_stride_bytes m) + x < length (vga_vram c)
    \<and> x < unat (dm_stride_bytes m) \<and> 16 \<le> dm_width m \<and> dm_width m \<le> 4096 \<and> 16 \<le> dm_height m \<and> dm_height m \<le> 4096"
proof -
  obtain row rows last fin :: u32 where
    row: "unat row = unat (dm_width m) * unat (depth_bytes (dm_depth m))" "row \<le> dm_stride_bytes m"
    and rows: "unat rows = unat (dm_height m - 1) * unat (dm_stride_bytes m)"
    and last: "unat last = unat (dm_start_offset m) + unat rows" "unat fin = unat last + unat row"
    and fits: "\<not> of_nat (length (vga_vram c)) < fin"
    and size: "16 \<le> dm_width m" "dm_width m \<le> 4096" "16 \<le> dm_height m" "dm_height m \<le> 4096"
    using decoded_mode_facts [OF assms(1)] by metis
  have "unat fin \<le> length (vga_vram c)"
    using fits assms(2) unat_of_nat_less [where 'a = 32, of "length (vga_vram c)"] by (simp add: word_less_nat_alt not_less)
  moreover have "y * unat (dm_stride_bytes m) \<le> unat rows"
  proof -
    have "unat (dm_height m - 1) = unat (dm_height m) - 1" using assms(3) by (intro unat_minus_one) auto
    then show ?thesis using assms(3) unfolding rows by (intro mult_right_mono) auto
  qed
  ultimately show ?thesis
    using last row assms(4) size by (simp add: word_le_nat_alt)
qed

definition mode_demo :: cirrus where
  "mode_demo = (vga_new Gd5428 (replicate 512 0))\<lparr>vga_sr := (replicate 32 0)[0 := 3, 7 := 1],
     vga_crtc := (replicate 64 0)[0x01 := 1, 0x12 := 15, 0x13 := 4]\<rparr>"

lemma mode_demo_regs:
  "vga_sr mode_demo ! 0 = 3" "vga_sr mode_demo ! 7 = 1" 
  "vga_crtc mode_demo ! 0x07 = 0" "vga_crtc mode_demo ! 0x08 = 0" "vga_crtc mode_demo ! 0x09 = 0" "vga_crtc mode_demo ! 0x0C = 0"
  "vga_crtc mode_demo ! 0x0D = 0" "vga_crtc mode_demo ! 0x12 = 15" "vga_crtc mode_demo ! 0x13 = 4" "vga_crtc mode_demo ! 0x1B = 0"
  "vga_sr mode_demo ! Suc 0 = 0" "vga_crtc mode_demo ! Suc 0 = 1" "vga_hidden_dac mode_demo = 0" "length (vga_vram mode_demo) = 512"
  by (simp_all add: mode_demo_def vga_new_def)

theorem vga_frame_in_vram_witness:
  "vga_decoded_mode mode_demo = Some \<lparr>dm_width = 16, dm_height = 16, dm_depth = Bpp8, dm_stride_bytes = 32, dm_start_offset = 0\<rparr>
   \<and> 0 + 15 * 32 + 15 < length (vga_vram mode_demo)"
proof -
  let ?m = "\<lparr>dm_width = 16, dm_height = 16, dm_depth = Bpp8, dm_stride_bytes = 32, dm_start_offset = 0\<rparr>"
  have m: "vga_decoded_mode mode_demo = Some ?m"
    by (simp add: vga_decoded_mode_def mode_demo_regs decoded_depth_def decoded_fit_def from_be_def checked_mul_u32_def checked_add_u32_def)
  from vga_frame_in_vram [OF m, of 15 15] show ?thesis using m by (simp add: mode_demo_regs)
qed

section \<open>Reads do not raise the interrupt\<close>

lemma vga_irq_reg_read: "vga_irq_pending (fst (vga_reg_read c p)) = vga_irq_pending c"
  by (simp add: vga_reg_read_def read_pel_mask_or_hidden_dac_def read_dac_data_def Let_def vga_irq_pending_def
      vertical_interrupt_enabled_def)

section \<open>Palette round trip\<close>

text \<open>Successive accesses to one port: the values written, and the values read.\<close>

definition write_port :: "u32 \<Rightarrow> u8 list \<Rightarrow> cirrus \<Rightarrow> cirrus" where
  "write_port p vs c = fold (\<lambda>v c. vga_reg_write c p v) vs c"

fun read_port :: "u32 \<Rightarrow> nat \<Rightarrow> cirrus \<Rightarrow> u8 list" where
  "read_port p 0 c = []"
| "read_port p (Suc n) c = (let (c', v) = vga_reg_read c p in v # read_port p n c')"

definition cursor_selected :: "cirrus \<Rightarrow> bool" where
  "cursor_selected c \<longleftrightarrow> vga_sr c ! unat SR_CURSOR_ATTR AND SR12_CURSOR_PALETTE_SELECT \<noteq> 0"

text \<open>The palette as one row of 768 cells, in the order the data port walks it.\<close>

definition cell :: "u8 list list \<Rightarrow> nat \<Rightarrow> u8" where
  "cell ps t = ps ! (t mod 768 div 3) ! (t mod 3)"

definition dac_pos :: "u8 \<Rightarrow> u8 \<Rightarrow> nat" where
  "dac_pos i k = 3 * unat i + unat k"

definition dac_next :: "u8 \<times> u8 \<Rightarrow> u8 \<times> u8" where
  "dac_next = (\<lambda>(i, k). if k + 1 = 3 then (i + 1, 0) else (i, k + 1))"

lemma dac_next_pos:
  assumes "k < 3" and "dac_next (i, k) = (i', k')"
  shows "k' < 3" and "dac_pos i' k' mod 768 = (dac_pos i k + 1) mod 768"
proof -
  have k: "unat k < 3" using assms(1) by (simp add: word_less_nat_alt)
  have k1: "unat (k + 1) = unat k + 1" using k by (simp add: unat_inc)
  then have eq: "k + 1 = 3 \<longleftrightarrow> unat k = 2" by (simp add: word_unat_eq_iff)
  have i1: "3 * unat (i + 1) mod 768 = (3 * unat i + 3) mod 768"
    using mult_mod_right [of 3 "unat i + 1" 256] by (simp add: unat_word_ariths algebra_simps)
  show "k' < 3" using assms(2) k k1 eq by (auto simp: dac_next_def word_less_nat_alt split: if_splits)
  show "dac_pos i' k' mod 768 = (dac_pos i k + 1) mod 768"
    using assms(2) k k1 eq i1 by (cases "unat k = 2") (auto simp: dac_next_def dac_pos_def add.commute)
qed

lemma write_dac_effect:
  fixes v :: u8
  assumes "vga_wf n c" and "\<not> cursor_selected c" and "\<not> vga_dac_read_mode c"
  defines "c' \<equiv> vga_reg_write c PORT_DAC_DATA v"
  shows "\<not> cursor_selected c'" and "\<not> vga_dac_read_mode c'"
    and "dac_next (vga_dac_write_index c, vga_dac_component c) = (vga_dac_write_index c', vga_dac_component c')"
    and "cell (vga_palette c') t = (if t mod 768 = dac_pos (vga_dac_write_index c) (vga_dac_component c) then v AND 0x3F
           else cell (vga_palette c) t)"
proof -
  define i where "i = unat (vga_dac_write_index c)"
  define k where "k = unat (vga_dac_component c)"
  have k: "k < 3" using assms(1) by (simp add: vga_wf_def word_less_nat_alt k_def)
  have i: "i < 256" using unat_lt2p_of [of "vga_dac_write_index c"] by (simp add: i_def)
  have pal: "vga_palette c' = update2 (vga_palette c) i k (v AND 0x3F)"
    using assms(2) by (simp add: c'_def vga_reg_write_def write_dac_data_def cursor_selected_def Let_def i_def k_def)
  have len: "length (vga_palette c) = 256" "length (vga_palette c ! i) = 3"
    using assms(1) i by (simp_all add: vga_wf_def rgb_table_def)
  have "t mod 768 = 3 * i + k \<longleftrightarrow> t mod 768 div 3 = i \<and> t mod 3 = k"
  proof -
    have "t mod 768 mod 3 = t mod 3" by (simp add: mod_mod_cancel)
    then show ?thesis using k by (metis div_mult_mod_eq div_mult_self1 div_less add.commute mod_mult_self1 mod_less mult.commute
          zero_neq_numeral add_0)
  qed
  then show "cell (vga_palette c') t = (if t mod 768 = dac_pos (vga_dac_write_index c) (vga_dac_component c) then v AND 0x3F
           else cell (vga_palette c) t)"
    using len i k unfolding pal dac_pos_def i_def [symmetric] k_def [symmetric]
    by (auto simp: cell_def update2_def nth_list_update)
  show "\<not> cursor_selected c'" "\<not> vga_dac_read_mode c'"
    "dac_next (vga_dac_write_index c, vga_dac_component c) = (vga_dac_write_index c', vga_dac_component c')"
    using assms(2,3) by (simp_all add: c'_def vga_reg_write_def write_dac_data_def cursor_selected_def Let_def dac_next_def)
qed

lemma write_port_cells:
  assumes "vga_wf n c" and "\<not> cursor_selected c" and "\<not> vga_dac_read_mode c" and "length vs \<le> 768"
  defines "q \<equiv> dac_pos (vga_dac_write_index c) (vga_dac_component c)"
  shows "\<not> cursor_selected (write_port PORT_DAC_DATA vs c) \<and> vga_wf n (write_port PORT_DAC_DATA vs c)
    \<and> (\<forall>j < length vs. cell (vga_palette (write_port PORT_DAC_DATA vs c)) (q + j) = vs ! j AND 0x3F)
    \<and> (\<forall>j. length vs \<le> j \<and> j < 768 \<longrightarrow> cell (vga_palette (write_port PORT_DAC_DATA vs c)) (q + j) = cell (vga_palette c) (q + j))"
  using assms(1-4) unfolding q_def
proof (induction vs arbitrary: c)
  case Nil
  then show ?case by (simp add: write_port_def)
next
  case (Cons v vs)
  let ?c = "vga_reg_write c PORT_DAC_DATA v"
  let ?q = "dac_pos (vga_dac_write_index c) (vga_dac_component c)" and ?q' = "dac_pos (vga_dac_write_index ?c) (vga_dac_component ?c)"
  note eff = write_dac_effect [OF Cons.prems(1-3), of v]
  have k: "vga_dac_component c < 3" using Cons.prems(1) by (simp add: vga_wf_def)
  have q': "?q' mod 768 = (?q + 1) mod 768" using dac_next_pos(2) [OF k eff(3)] .
  have q: "?q < 768"
    using k unat_lt2p_of [of "vga_dac_write_index c"] by (simp add: dac_pos_def word_less_nat_alt)
  have shift: "cell ps (?q' + j) = cell ps (?q + Suc j)" for ps j
  proof -
    have "(?q' + j) mod 768 = (?q + Suc j) mod 768"
      using q' by (metis mod_add_left_eq add_Suc_right add_Suc_shift Suc_eq_plus1)
    moreover have "(?q' + j) mod 768 mod 3 = (?q' + j) mod 3" "(?q + Suc j) mod 768 mod 3 = (?q + Suc j) mod 3"
      by (simp_all add: mod_mod_cancel)
    ultimately show ?thesis by (metis cell_def)
  qed
  have IH: "\<not> cursor_selected (write_port PORT_DAC_DATA vs ?c) \<and> vga_wf n (write_port PORT_DAC_DATA vs ?c)
    \<and> (\<forall>j < length vs. cell (vga_palette (write_port PORT_DAC_DATA vs ?c)) (?q' + j) = vs ! j AND 0x3F)
    \<and> (\<forall>j. length vs \<le> j \<and> j < 768 \<longrightarrow> cell (vga_palette (write_port PORT_DAC_DATA vs ?c)) (?q' + j) = cell (vga_palette ?c) (?q' + j))"
    using Cons.IH [OF vga_wf_reg_write [OF Cons.prems(1)] eff(1,2)] Cons.prems(4) by simp
  have unf: "write_port PORT_DAC_DATA (v # vs) c = write_port PORT_DAC_DATA vs ?c" by (simp add: write_port_def)
  have first: "cell (vga_palette (write_port PORT_DAC_DATA vs ?c)) ?q = v AND 0x3F"
  proof -
    have "cell ps (?q' + 767) = cell ps ?q" for ps
      using shift [of ps 767] mod_mult_self2 [of ?q 3 256] unfolding cell_def by simp
    moreover have "cell (vga_palette ?c) ?q = v AND 0x3F" using eff(4) [of ?q] q by simp
    moreover have "length vs \<le> 767" using Cons.prems(4) by simp
    moreover have "\<forall>j. length vs \<le> j \<and> j < 768 \<longrightarrow>
        cell (vga_palette (write_port PORT_DAC_DATA vs ?c)) (?q' + j) = cell (vga_palette ?c) (?q' + j)" using IH by blast
    from this [rule_format, of 767] have "length vs \<le> 767 \<Longrightarrow>
        cell (vga_palette (write_port PORT_DAC_DATA vs ?c)) (?q' + 767) = cell (vga_palette ?c) (?q' + 767)" by simp
    ultimately show ?thesis by metis
  qed
  have other: "cell (vga_palette ?c) (?q + Suc j) = cell (vga_palette c) (?q + Suc j)" if "Suc j < 768" for j
  proof -
    have "(?q + Suc j) mod 768 \<noteq> ?q" using q that by (auto simp: mod_if)
    then show ?thesis using eff(4) [of "?q + Suc j"] by simp
  qed
  show ?case unfolding unf
  proof (intro conjI allI impI)
    fix j assume "j < length (v # vs)"
    then show "cell (vga_palette (write_port PORT_DAC_DATA vs ?c)) (?q + j) = (v # vs) ! j AND 0x3F"
      using first IH shift by (cases j) auto
  next
    fix j assume j: "length (v # vs) \<le> j \<and> j < 768"
    then obtain j' where "j = Suc j'" by (cases j) auto
    then show "cell (vga_palette (write_port PORT_DAC_DATA vs ?c)) (?q + j) = cell (vga_palette c) (?q + j)"
      using IH shift other j by auto
  qed (use IH in auto)
qed

lemma read_dac_effect:
  assumes "vga_wf n c" and "\<not> cursor_selected c" and "vga_reg_read c PORT_DAC_DATA = (c', v)"
  shows "v = cell (vga_palette c) (dac_pos (vga_dac_read_index c) (vga_dac_component c))"
    and "dac_next (vga_dac_read_index c, vga_dac_component c) = (vga_dac_read_index c', vga_dac_component c')"
    and "vga_palette c' = vga_palette c" and "\<not> cursor_selected c'"
proof -
  have k: "unat (vga_dac_component c) < 3" using assms(1) by (simp add: vga_wf_def word_less_nat_alt)
  have i: "unat (vga_dac_read_index c) < 256" using unat_lt2p_of [of "vga_dac_read_index c"] by simp
  show "v = cell (vga_palette c) (dac_pos (vga_dac_read_index c) (vga_dac_component c))"
    using assms(2,3) k i
    by (auto simp: vga_reg_read_def read_dac_data_def cursor_selected_def Let_def cell_def dac_pos_def)
  show "dac_next (vga_dac_read_index c, vga_dac_component c) = (vga_dac_read_index c', vga_dac_component c')"
    "vga_palette c' = vga_palette c" "\<not> cursor_selected c'"
    using assms(2,3) by (auto simp: vga_reg_read_def read_dac_data_def cursor_selected_def Let_def dac_next_def)
qed

lemma cell_cong: "a mod 768 = b mod 768 \<Longrightarrow> cell ps a = cell ps b"
proof -
  assume "a mod 768 = b mod 768"
  moreover have "a mod 768 mod 3 = a mod 3" "b mod 768 mod 3 = b mod 3" by (simp_all add: mod_mod_cancel)
  ultimately show ?thesis by (metis cell_def)
qed

lemma read_port_cells:
  assumes "vga_wf n c" and "\<not> cursor_selected c"
  shows "read_port PORT_DAC_DATA m c
    = map (\<lambda>j. cell (vga_palette c) (dac_pos (vga_dac_read_index c) (vga_dac_component c) + j)) [0..<m]"
  using assms
proof (induction m arbitrary: c)
  case (Suc m)
  obtain c' v where r: "vga_reg_read c PORT_DAC_DATA = (c', v)" by fastforce
  note eff = read_dac_effect [OF Suc.prems r]
  have wf: "vga_wf n c'" using vga_wf_reg_read [OF Suc.prems(1), of PORT_DAC_DATA] r by simp
  have "vga_dac_component c < 3" using Suc.prems(1) by (simp add: vga_wf_def)
  from dac_next_pos(2) [OF this eff(2)]
  have "cell ps (dac_pos (vga_dac_read_index c') (vga_dac_component c') + j)
      = cell ps (dac_pos (vga_dac_read_index c) (vga_dac_component c) + Suc j)" for ps j
    by (intro cell_cong) (metis mod_add_left_eq add_Suc_right add_Suc_shift Suc_eq_plus1)
  then show ?case
    using Suc.IH [OF wf eff(4)] r eff(1,3) by (simp add: map_upt_Suc del: upt_Suc)
qed simp

text \<open>Setting the palette write index and pushing up to 256 whole colours through the auto-incrementing data
  port, then setting the read index to the same entry and reading as many bytes back, returns exactly the bytes written,
  cut to the six bits per gun the RAMDAC holds, also when the index wraps past entry 255.\<close>

lemma vga_palette_round_trip:
  assumes "vga_wf n c" and "\<not> cursor_selected c" and "length vs \<le> 768"
  shows "read_port PORT_DAC_DATA (length vs)
      (vga_reg_write (write_port PORT_DAC_DATA vs (vga_reg_write c PORT_DAC_WRITE_INDEX i)) PORT_DAC_READ_INDEX i)
    = map (\<lambda>v. v AND 0x3F) vs"
proof -
  define c1 where "c1 = vga_reg_write c PORT_DAC_WRITE_INDEX i"
  define c2 where "c2 = write_port PORT_DAC_DATA vs c1"
  define c3 where "c3 = vga_reg_write c2 PORT_DAC_READ_INDEX i"
  have c1: "vga_wf n c1" "\<not> cursor_selected c1" "\<not> vga_dac_read_mode c1" "vga_dac_write_index c1 = i" "vga_dac_component c1 = 0"
    using vga_wf_reg_write [OF assms(1)] assms(2) by (auto simp: c1_def) (simp_all add: vga_reg_write_def Let_def cursor_selected_def)
  note w = write_port_cells [OF c1(1-3) assms(3), folded c2_def]
  have c3: "vga_wf n c3" "\<not> cursor_selected c3" "vga_palette c3 = vga_palette c2" "vga_dac_read_index c3 = i" "vga_dac_component c3 = 0"
    using w vga_wf_reg_write by (auto simp: c3_def) (simp_all add: vga_reg_write_def Let_def cursor_selected_def)
  have "read_port PORT_DAC_DATA (length vs) c3 = map (\<lambda>j. cell (vga_palette c2) (dac_pos i 0 + j)) [0..<length vs]"
    using read_port_cells [OF c3(1,2)] c3 by simp
  also have "\<dots> = map (\<lambda>v. v AND 0x3F) vs"
    by (rule nth_equalityI) (use w c1 in auto)
  finally show ?thesis by (simp add: c1_def c2_def c3_def)
qed

theorem vga_palette_round_trip_witness:
  "read_port PORT_DAC_DATA (length [0x11, 0x52, 0x3F, 1])
      (vga_reg_write (write_port PORT_DAC_DATA [0x11, 0x52, 0x3F, 1] (vga_reg_write (vga_new Gd5428 []) PORT_DAC_WRITE_INDEX 255))
         PORT_DAC_READ_INDEX 255) = [0x11, 0x12, 0x3F, 1]"
proof -
  have "\<not> cursor_selected (vga_new Gd5428 [])" by (simp add: cursor_selected_def vga_new_def)
  from vga_palette_round_trip [OF vga_wf_new [of "[]"] this, of "[0x11, 0x52, 0x3F, 1]" 255] show ?thesis by simp
qed

end
