(* ===== verification/Graffity.thy ===== *)
theory Graffity
  imports Cirrus
begin

text \<open>
  The Graffity display board of \<open>crates/machine-core/src/graffity.rs\<close>: the Cirrus chip behind either two Zorro II boards
  (VRAM and registers) or one Zorro III board whose window holds three sub-apertures.

  Shown: the apertures of the Zorro III window do not interfere, and VRAM written through either variant reads back.
\<close>

section \<open>Constants and board identities\<close>

(* src/crates/machine-core/src/graffity.rs:96-98 MANUFACTURER *)
definition GF_MANUFACTURER :: u16 where [simp]: "GF_MANUFACTURER = 2092"
(* src/crates/machine-core/src/graffity.rs:100-101 PRODUCT_VRAM *)
definition PRODUCT_VRAM :: u8 where [simp]: "PRODUCT_VRAM = 34"
(* src/crates/machine-core/src/graffity.rs:102-103 PRODUCT_REGS *)
definition PRODUCT_REGS :: u8 where [simp]: "PRODUCT_REGS = 33"
(* src/crates/machine-core/src/graffity.rs:104-106 PRODUCT_Z3 *)
definition PRODUCT_Z3 :: u8 where [simp]: "PRODUCT_Z3 = 33"
(* src/crates/machine-core/src/graffity.rs:108-111 REGS_WINDOW_BYTES *)
definition REGS_WINDOW_BYTES :: u32 where [simp]: "REGS_WINDOW_BYTES = 0x00020000"
(* src/crates/machine-core/src/graffity.rs:113-114 Z3_WINDOW_BYTES *)
definition Z3_WINDOW_BYTES :: u32 where [simp]: "Z3_WINDOW_BYTES = 0x01000000"
(* src/crates/machine-core/src/graffity.rs:116-120 Z3_SWITCH_BASE *)
definition Z3_SWITCH_BASE :: u32 where [simp]: "Z3_SWITCH_BASE = 0x00400000"
(* src/crates/machine-core/src/graffity.rs:121-121 Z3_SWITCH_SIZE *)
definition Z3_SWITCH_SIZE :: u32 where [simp]: "Z3_SWITCH_SIZE = 0x00010000"
(* src/crates/machine-core/src/graffity.rs:122-123 Z3_REGS_BASE *)
definition Z3_REGS_BASE :: u32 where [simp]: "Z3_REGS_BASE = 0x00800000"
(* src/crates/machine-core/src/graffity.rs:124-124 Z3_REGS_SIZE *)
definition Z3_REGS_SIZE :: u32 where [simp]: "Z3_REGS_SIZE = 0x00010000"
(* src/crates/machine-core/src/graffity.rs:125-129 Z3_VRAM_BASE *)
definition Z3_VRAM_BASE :: u32 where [simp]: "Z3_VRAM_BASE = 0x00C00000"
(* src/crates/machine-core/src/graffity.rs:131-135 ERFF_ZORRO_III *)
definition GF_ERFF_ZORRO_III :: u8 where [simp]: "GF_ERFF_ZORRO_III = 0x10"
(* src/crates/machine-core/src/graffity.rs:136-136 ERFF_EXTENDED *)
definition GF_ERFF_EXTENDED :: u8 where [simp]: "GF_ERFF_EXTENDED = 0x20"
(* src/crates/machine-core/src/graffity.rs:138-140 REVISION *)
definition GF_REVISION :: chip_revision where [simp]: "GF_REVISION = Gd5428"
(* src/crates/machine-core/src/graffity.rs:231-234 MAX_GRAFFITY_BOARDS *)
definition MAX_GRAFFITY_BOARDS :: nat where [simp]: "MAX_GRAFFITY_BOARDS = 2"

(* src/crates/machine-core/src/graffity.rs:142-148 BoardVariant *)
datatype board_variant = ZorroII | ZorroIII

(* src/crates/machine-core/src/graffity.rs:150-162 ZORRO_II_SIZES *)
definition ZORRO_II_SIZES :: "(u32 \<times> u8) list" where
  "ZORRO_II_SIZES = [(0x00010000, 1), (0x00020000, 2), (0x00040000, 3), (0x00080000, 4), (0x00100000, 5), (0x00200000, 6),
     (0x00400000, 7), (0x00800000, 0)]"

(* src/crates/machine-core/src/graffity.rs:164-179 zorro_ii_size_code *)
definition zorro_ii_size_code :: "u32 \<Rightarrow> u8" where
  "zorro_ii_size_code n = (case find (\<lambda>(sz, _). n \<le> sz) ZORRO_II_SIZES of Some (_, code) \<Rightarrow> code | None \<Rightarrow> 0)"

(* src/crates/machine-core/src/graffity.rs:181-187 zorro_ii_size_bytes *)
definition zorro_ii_size_bytes :: "u8 \<Rightarrow> u32" where
  "zorro_ii_size_bytes code = (case find (\<lambda>(_, c). c = code) ZORRO_II_SIZES of Some (sz, _) \<Rightarrow> sz | None \<Rightarrow> 0x00800000)"

(* src/crates/machine-core/src/graffity.rs:189-214 board_specs *)
definition graffity_board_specs :: "u32 \<Rightarrow> board_spec \<times> board_spec" where
  "graffity_board_specs vram_len =
     (let code = zorro_ii_size_code vram_len in
      (\<lparr>board_type = ERT_ZORROII OR code, product = PRODUCT_VRAM, flags = 0, manufacturer = GF_MANUFACTURER, serial = 0,
        init_diag_vec = 0, size_bytes = zorro_ii_size_bytes code\<rparr>,
       \<lparr>board_type = ERT_ZORROII OR zorro_ii_size_code REGS_WINDOW_BYTES, product = PRODUCT_REGS, flags = 0,
        manufacturer = GF_MANUFACTURER, serial = 0, init_diag_vec = 0, size_bytes = REGS_WINDOW_BYTES\<rparr>))"

(* src/crates/machine-core/src/graffity.rs:216-229 zorro_iii_board_spec *)
definition zorro_iii_board_spec :: board_spec where
  "zorro_iii_board_spec = \<lparr>board_type = ERT_ZORROIII, product = PRODUCT_Z3, flags = GF_ERFF_ZORRO_III OR GF_ERFF_EXTENDED,
     manufacturer = GF_MANUFACTURER, serial = 0, init_diag_vec = 0, size_bytes = Z3_WINDOW_BYTES\<rparr>"

section \<open>The card\<close>

(* src/crates/machine-core/src/graffity.rs:253-260 Graffity *)
record graffity =
  gf_chip :: cirrus
  gf_variant :: board_variant

(* src/crates/machine-core/src/graffity.rs:277-282 Graffity::with_variant *)
definition gf_with_variant :: "board_variant \<Rightarrow> u8 list \<Rightarrow> graffity" where
  "gf_with_variant variant vram = \<lparr>gf_chip = vga_new GF_REVISION vram, gf_variant = variant\<rparr>"

(* src/crates/machine-core/src/graffity.rs:263-268 Graffity::new *)
definition gf_new :: "u8 list \<Rightarrow> graffity" where
  "gf_new vram = gf_with_variant ZorroII vram"

(* src/crates/machine-core/src/graffity.rs:270-275 Graffity::new_zorro_iii *)
definition gf_new_zorro_iii :: "u8 list \<Rightarrow> graffity" where
  "gf_new_zorro_iii vram = gf_with_variant ZorroIII vram"

text \<open>The fixed array of two specs with a length is the list of its first \<open>len\<close> entries (\<open>BoardSpecs::as_slice\<close>).\<close>

(* src/crates/machine-core/src/graffity.rs:284-307 Graffity::board_specs *)
definition gf_board_specs :: "graffity \<Rightarrow> board_spec list" where
  "gf_board_specs g = (case gf_variant g of
       ZorroII \<Rightarrow> (let (vram, regs) = graffity_board_specs (of_nat (vga_vram_len (gf_chip g))) in [vram, regs])
     | ZorroIII \<Rightarrow> [zorro_iii_board_spec])"

(* src/crates/machine-core/src/graffity.rs:309-313 Graffity::vram_read *)
definition gf_vram_read :: "graffity \<Rightarrow> u32 \<Rightarrow> u8" where
  "gf_vram_read g offset = vga_vram_read (gf_chip g) (unat offset)"

(* src/crates/machine-core/src/graffity.rs:315-318 Graffity::vram_write *)
definition gf_vram_write :: "graffity \<Rightarrow> u32 \<Rightarrow> u8 \<Rightarrow> graffity" where
  "gf_vram_write g offset v = g\<lparr>gf_chip := vga_vram_write (gf_chip g) (unat offset) v\<rparr>"

(* src/crates/machine-core/src/graffity.rs:327-333 Graffity::reg_read *)
definition gf_reg_read :: "graffity \<Rightarrow> u32 \<Rightarrow> graffity \<times> u8" where
  "gf_reg_read g offset = (let (c, v) = vga_reg_read (gf_chip g) offset in (g\<lparr>gf_chip := c\<rparr>, v))"

(* src/crates/machine-core/src/graffity.rs:335-338 Graffity::reg_write *)
definition gf_reg_write :: "graffity \<Rightarrow> u32 \<Rightarrow> u8 \<Rightarrow> graffity" where
  "gf_reg_write g offset v = g\<lparr>gf_chip := vga_reg_write (gf_chip g) offset v\<rparr>"

(* src/crates/machine-core/src/graffity.rs:340-344 Graffity::decoded_mode *)
definition gf_decoded_mode :: "graffity \<Rightarrow> decoded_mode option" where
  "gf_decoded_mode g = vga_decoded_mode (gf_chip g)"

(* src/crates/machine-core/src/graffity.rs:346-349 Graffity::palette_argb *)
definition gf_palette_argb :: "graffity \<Rightarrow> u8 \<Rightarrow> u32" where
  "gf_palette_argb g i = vga_palette_argb (gf_chip g) i"

(* src/crates/machine-core/src/graffity.rs:351-359 Graffity::signal_vertical_retrace *)
definition gf_signal_vertical_retrace :: "graffity \<Rightarrow> graffity" where
  "gf_signal_vertical_retrace g = g\<lparr>gf_chip := vga_signal_vertical_retrace (gf_chip g)\<rparr>"

(* src/crates/machine-core/src/graffity.rs:361-367 Graffity::irq_pending *)
definition gf_irq_pending :: "graffity \<Rightarrow> bool" where
  "gf_irq_pending g = vga_irq_pending (gf_chip g)"

(* src/crates/machine-core/src/graffity.rs:426-436 Graffity::zorro_iii_vram_offset *)
definition zorro_iii_vram_offset :: "graffity \<Rightarrow> u32 \<Rightarrow> u32 option" where
  "zorro_iii_vram_offset g offset =
     (if offset < Z3_VRAM_BASE then None
      else (let rel = offset - Z3_VRAM_BASE in if rel < of_nat (vga_vram_len (gf_chip g)) then Some rel else None))"

(* src/crates/machine-core/src/graffity.rs:397-408 Graffity::zorro_iii_read *)
definition zorro_iii_read :: "graffity \<Rightarrow> u32 \<Rightarrow> graffity \<times> u8" where
  "zorro_iii_read g offset = (case zorro_iii_vram_offset g offset of
       Some vram_off \<Rightarrow> (g, gf_vram_read g vram_off)
     | None \<Rightarrow> if Z3_REGS_BASE \<le> offset \<and> offset < Z3_REGS_BASE + Z3_REGS_SIZE then gf_reg_read g (offset - Z3_REGS_BASE)
               else (g, OPEN_BUS_BYTE))"

(* src/crates/machine-core/src/graffity.rs:410-424 Graffity::zorro_iii_write *)
definition zorro_iii_write :: "graffity \<Rightarrow> u32 \<Rightarrow> u8 \<Rightarrow> graffity" where
  "zorro_iii_write g offset v =
     (if Z3_SWITCH_BASE \<le> offset \<and> offset < Z3_SWITCH_BASE + Z3_SWITCH_SIZE then g
      else case zorro_iii_vram_offset g offset of
       Some vram_off \<Rightarrow> gf_vram_write g vram_off v
     | None \<Rightarrow> if Z3_REGS_BASE \<le> offset \<and> offset < Z3_REGS_BASE + Z3_REGS_SIZE then gf_reg_write g (offset - Z3_REGS_BASE) v
               else g)"

(* src/crates/machine-core/src/graffity.rs:369-384 Graffity::read *)
definition gf_read :: "graffity \<Rightarrow> nat \<Rightarrow> u32 \<Rightarrow> graffity \<times> u8" where
  "gf_read g board offset =
     (if gf_variant g = ZorroII \<and> board = 0 then (g, gf_vram_read g offset)
      else if gf_variant g = ZorroII \<and> board = 1 then gf_reg_read g offset
      else if gf_variant g = ZorroIII \<and> board = 0 then zorro_iii_read g offset
      else (g, OPEN_BUS_BYTE))"

(* src/crates/machine-core/src/graffity.rs:386-395 Graffity::write *)
definition gf_write :: "graffity \<Rightarrow> nat \<Rightarrow> u32 \<Rightarrow> u8 \<Rightarrow> graffity" where
  "gf_write g board offset v =
     (if gf_variant g = ZorroII \<and> board = 0 then gf_vram_write g offset v
      else if gf_variant g = ZorroII \<and> board = 1 then gf_reg_write g offset v
      else if gf_variant g = ZorroIII \<and> board = 0 then zorro_iii_write g offset v
      else g)"

section \<open>Laws of the card\<close>

lemma gf_irq_read: "gf_irq_pending (fst (gf_read g board offset)) = gf_irq_pending g"
  using vga_irq_reg_read
  by (simp add: gf_read_def zorro_iii_read_def gf_reg_read_def gf_irq_pending_def case_prod_beta Let_def split: option.splits)

lemma gf_vram_write_read:
  assumes "vga_system_blit (gf_chip g) = None" and "unat offset < length (vga_vram (gf_chip g))"
  shows "gf_vram_read (gf_vram_write g offset v) off' = (if off' = offset then v else gf_vram_read g off')"
  using assms
  by (auto simp: gf_vram_read_def gf_vram_write_def vga_vram_read_def vga_vram_write_def get_or_def nth_list_update word_unat_eq_iff)

lemma gf_read_new_irq: "\<not> gf_irq_pending (gf_with_variant variant vram)"
  by (simp add: gf_irq_pending_def vga_irq_pending_def gf_with_variant_def vga_new_def)

text \<open>The address of a VRAM byte on board 0 of either variant.\<close>

definition gf_vram_at :: "graffity \<Rightarrow> nat \<Rightarrow> u32" where
  "gf_vram_at g n = (case gf_variant g of ZorroII \<Rightarrow> of_nat n | ZorroIII \<Rightarrow> Z3_VRAM_BASE + of_nat n)"

lemma gf_variant_write [simp]: "gf_variant (gf_vram_write g off v) = gf_variant g"
  by (simp add: gf_vram_write_def)

lemma zorro_iii_vram_offset_at:
  assumes "gf_variant g = ZorroIII" and "length (vga_vram (gf_chip g)) \<le> 0x400000" and "n < length (vga_vram (gf_chip g))"
  shows "zorro_iii_vram_offset g (gf_vram_at g n) = Some (of_nat n)" and "\<not> gf_vram_at g n < Z3_SWITCH_BASE + Z3_SWITCH_SIZE"
proof -
  have n: "unat (of_nat n :: u32) = n" and l: "unat (of_nat (length (vga_vram (gf_chip g))) :: u32) = length (vga_vram (gf_chip g))"
    using assms(2,3) by (auto intro!: unat_of_nat_less)
  then have "unat (Z3_VRAM_BASE + of_nat n) = 0xC00000 + n"
    using assms(2,3) by (simp add: unat_word_ariths)
  then show "\<not> gf_vram_at g n < Z3_SWITCH_BASE + Z3_SWITCH_SIZE" "zorro_iii_vram_offset g (gf_vram_at g n) = Some (of_nat n)"
    using assms n l by (simp_all add: gf_vram_at_def zorro_iii_vram_offset_def vga_vram_len_def word_less_nat_alt Let_def)
qed

text \<open>VRAM reads back through the card's aperture: a written byte returns, every other byte of the aperture is unchanged.\<close>

lemma graffity_vram_round_trip:
  assumes "vga_system_blit (gf_chip g) = None" and "length (vga_vram (gf_chip g)) \<le> 0x400000"
    and n: "n < length (vga_vram (gf_chip g))" and k: "k < length (vga_vram (gf_chip g))"
  shows "snd (gf_read (gf_write g 0 (gf_vram_at g n) v) 0 (gf_vram_at g k)) =
    (if k = n then v else snd (gf_read g 0 (gf_vram_at g k)))"
proof -
  have u: "unat (of_nat n :: u32) = n" "unat (of_nat k :: u32) = k"
    using assms by (auto intro!: unat_of_nat_less)
  then have eq: "(of_nat k :: u32) = of_nat n \<longleftrightarrow> k = n" by (metis)
  note rw = gf_vram_write_read [OF assms(1), of "of_nat n" v "of_nat k", unfolded u eq, OF n]
  have vlen: "length (vga_vram (gf_chip (gf_vram_write g (of_nat n) v))) = length (vga_vram (gf_chip g))"
    using assms(1) by (simp add: gf_vram_write_def vga_vram_write_def)
  show ?thesis
  proof (cases "gf_variant g")
    case ZorroII
    then show ?thesis using rw by (simp add: gf_read_def gf_write_def gf_vram_at_def)
  next
    case ZorroIII
    have at: "gf_vram_at (gf_vram_write g (of_nat n) v) k = gf_vram_at g k" by (simp add: gf_vram_at_def)
    note offs = zorro_iii_vram_offset_at [OF ZorroIII assms(2)]
    have "zorro_iii_vram_offset (gf_vram_write g (of_nat n) v) (gf_vram_at g k) = Some (of_nat k)"
      using zorro_iii_vram_offset_at(1) [of "gf_vram_write g (of_nat n) v" k] ZorroIII vlen assms(2) k at by simp
    then show ?thesis
      using rw ZorroIII offs [OF n] offs [OF k] by (simp add: gf_read_def gf_write_def zorro_iii_read_def zorro_iii_write_def)
  qed
qed

text \<open>The size code of a Zorro II board names an aperture that covers the VRAM, up to the 8 MB a Zorro II board can claim.\<close>

lemma zorro_ii_size_covers: "n \<le> 0x00800000 \<Longrightarrow> n \<le> zorro_ii_size_bytes (zorro_ii_size_code n)"
  by (simp add: zorro_ii_size_code_def zorro_ii_size_bytes_def ZORRO_II_SIZES_def split: if_splits)

end
