(* ===== verification/Bus.thy ===== *)
theory Bus
  imports Graffity Fastram GuestMem BlockDev Hostblk Pktport Chipset Cia Blitter InputCard Mirage RtgBoard PciBridge RomImage
begin

text \<open>
  The machine bus of \<open>crates/machine-core/src/lib.rs\<close> (\<open>MachineBus\<close>): the record of every device with its AUTOCONFIG
  slot, the builders that attach the optional cards, time (deferred by \<open>tick\<close>, applied by \<open>flush\<close>) and the address
  decode of byte, word and long accesses.

  The host's objects behind the cards (disks, the packet volume, the PCI back end) and the cards' boot ROM images are
  the components of an environment record, an argument of the operations that reach them. An access returns the
  bus after it, since a read can have side effects. The \<open>debug_assert\<close>s of \<open>refresh_windows\<close>, absent from a release build,
  are the predicate \<open>windows_clear\<close>.
\<close>

section \<open>Constants\<close>

(* src/crates/machine-core/src/lib.rs:548-550 OVERLAY_END *)
definition OVERLAY_END :: u32 where [simp]: "OVERLAY_END = 0x00080000"
(* src/crates/machine-core/src/lib.rs:552-553 CIA_BASE *)
definition CIA_BASE :: u32 where [simp]: "CIA_BASE = 0x00A00000"
(* src/crates/machine-core/src/lib.rs:554-554 CIA_END *)
definition CIA_END :: u32 where [simp]: "CIA_END = 0x00C00000"
(* src/crates/machine-core/src/lib.rs:556-557 CUSTOM_BASE *)
definition CUSTOM_BASE :: u32 where [simp]: "CUSTOM_BASE = 0x00DFF000"
(* src/crates/machine-core/src/lib.rs:558-558 CUSTOM_END *)
definition CUSTOM_END :: u32 where [simp]: "CUSTOM_END = 0x00E00000"
(* src/crates/machine-core/src/lib.rs:567-570 CIA_A_PRA_FIR0 *)
definition CIA_A_PRA_FIR0 :: u8 where [simp]: "CIA_A_PRA_FIR0 = 0x40"
(* src/crates/machine-core/src/lib.rs:587-587 CPU_CLOCKS_PER_COLOUR_CLOCK *)
definition CPU_CLOCKS_PER_COLOUR_CLOCK :: u32 where [simp]: "CPU_CLOCKS_PER_COLOUR_CLOCK = 4"
(* src/crates/machine-core/src/lib.rs:588-588 CPU_CLOCKS_PER_ECLOCK *)
definition CPU_CLOCKS_PER_ECLOCK :: u32 where [simp]: "CPU_CLOCKS_PER_ECLOCK = CPU_CLOCKS_PER_COLOUR_CLOCK * 5"

section \<open>State\<close>

text \<open>What lives outside the crate: the operations of the host's objects and the vendored boot ROMs.\<close>

record ('d, 'p, 'b) bus_env =
  be_block :: "'d block_device"
  be_packets :: "'p packet_backend"
  be_pci :: "'b pci_backend"
  be_hostblk_rom :: "u8 list"
  be_input_rom :: "u8 list"
  be_pktport_rom :: "u8 list"

(* src/crates/machine-core/src/lib.rs:356-546 MachineBus *)
record ('d, 'p, 'b) bus =
  bus_ram :: guest_ram
  bus_rom :: "u8 list"
  bus_ext_rom :: "u8 list"
  bus_chipset :: chipset
  bus_cia_a :: cia
  bus_cia_b :: cia
  bus_blitter :: blitter
  bus_floppy :: floppy_drive
  bus_autoconfig :: autoconfig
  bus_graphics :: "graffity option"
  bus_graphics_boards :: "nat option list"
  bus_mirage :: "'d mirage option"
  bus_mirage_board :: "nat option"
  bus_hostblk :: "'d hostblk option"
  bus_hostblk_board :: "nat option"
  bus_input :: "native_input option"
  bus_input_board :: "nat option"
  bus_pktport :: "'p pktport option"
  bus_pktport_board :: "nat option"
  bus_rtg :: "rtg_board option"
  bus_rtg_board :: "nat option"
  bus_pcibridge :: "'b pci_bridge option"
  bus_pcibridge_board :: "nat option"
  bus_pcibridge_window :: "(u32 \<times> u32) option"
  bus_overlay :: bool
  bus_pending_clocks :: u32
  bus_next_event_clocks :: u32
  bus_boundary_request :: bool

section \<open>Construction\<close>

(* src/crates/machine-core/src/lib.rs:1123-1146 MachineBus::recompute_next_event *)
definition recompute_next_event :: "('d, 'p, 'b) bus \<Rightarrow> ('d, 'p, 'b) bus" where
  "recompute_next_event s =
     (let deadline = clocks_until_line_boundary (bus_chipset s) CPU_CLOCKS_PER_COLOUR_CLOCK;
          deadline = (case cia_clocks_until_event (bus_cia_a s) CPU_CLOCKS_PER_ECLOCK of Some c \<Rightarrow> min deadline c | None \<Rightarrow> deadline);
          deadline = (case cia_clocks_until_event (bus_cia_b s) CPU_CLOCKS_PER_ECLOCK of Some c \<Rightarrow> min deadline c | None \<Rightarrow> deadline)
      in s\<lparr>bus_next_event_clocks := max deadline 1\<rparr>)"

(* src/crates/machine-core/src/lib.rs:591-641 MachineBus::new *)
definition bus_new :: "u8 list \<Rightarrow> u8 list \<Rightarrow> ('d, 'p, 'b) bus" where
  "bus_new chip_ram rom = recompute_next_event
     \<lparr>bus_ram = gr_new chip_ram, bus_rom = rom, bus_ext_rom = [], bus_chipset = chip_new, bus_cia_a = cia_new CiaA,
      bus_cia_b = cia_new CiaB, bus_blitter = blt_new, bus_floppy = fd_new NoDrive, bus_autoconfig = ac_new,
      bus_graphics = None, bus_graphics_boards = replicate MAX_GRAFFITY_BOARDS None, bus_mirage = None, bus_mirage_board = None,
      bus_hostblk = None, bus_hostblk_board = None, bus_input = None, bus_input_board = None, bus_pktport = None,
      bus_pktport_board = None, bus_rtg = None, bus_rtg_board = None, bus_pcibridge = None, bus_pcibridge_board = None,
      bus_pcibridge_window = None, bus_overlay = True, bus_pending_clocks = 0, bus_next_event_clocks = 1,
      bus_boundary_request = False\<rparr>"

text \<open>\<open>board.and_then(|idx| autoconfig.placement(idx)).map(|p| (p.base, p.size_bytes))\<close>\<close>

definition placed_window :: "autoconfig \<Rightarrow> nat option \<Rightarrow> (u32 \<times> u32) option" where
  "placed_window ac board = (case board of None \<Rightarrow> None
     | Some idx \<Rightarrow> map_option (\<lambda>p. (cfg_base p, cfg_size_bytes p)) (placement ac idx))"

(* src/crates/machine-core/src/lib.rs:643-677 MachineBus::refresh_windows *)
definition refresh_windows :: "('d, 'p, 'b) bus \<Rightarrow> ('d, 'p, 'b) bus" where
  "refresh_windows s =
     s\<lparr>bus_ram := (bus_ram s)\<lparr>gr_fast_window := placed_window (bus_autoconfig s) (gr_fast_ram_board (bus_ram s))\<rparr>,
       bus_pcibridge_window := placed_window (bus_autoconfig s) (bus_pcibridge_board s)\<rparr>"

(* src/crates/machine-core/src/lib.rs:679-688 MachineBus::overlaps_autoconfig_window *)
definition overlaps_autoconfig_window :: "u32 \<Rightarrow> u32 \<Rightarrow> bool" where
  "overlaps_autoconfig_window base len \<longleftrightarrow> base < AUTOCONFIG_END \<and> AUTOCONFIG_BASE < saturating_add_u32 base len"

(* src/crates/machine-core/src/lib.rs:664-676 MachineBus::refresh_windows *)
definition windows_clear :: "('d, 'p, 'b) bus \<Rightarrow> bool" where
  "windows_clear s \<longleftrightarrow>
     \<not> (case gr_fast_window (bus_ram s) of Some (base, len) \<Rightarrow> overlaps_autoconfig_window base len | None \<Rightarrow> False)
     \<and> \<not> (case bus_pcibridge_window s of Some (base, len) \<Rightarrow> overlaps_autoconfig_window base len | None \<Rightarrow> False)"

(* src/crates/machine-core/src/lib.rs:690-706 MachineBus::with_mirage *)
definition with_mirage :: "('d, 'p, 'b) bus \<Rightarrow> u8 \<Rightarrow> 'd \<Rightarrow> ('d, 'p, 'b) bus" where
  "with_mirage s u d =
     (let s = (case bus_mirage s of Some _ \<Rightarrow> s
         | None \<Rightarrow> (let (ac, idx) = add_board (bus_autoconfig s) mi_board_spec
                   in s\<lparr>bus_autoconfig := ac, bus_mirage_board := idx, bus_mirage := Some mi_new\<rparr>))
      in s\<lparr>bus_mirage := map_option (\<lambda>m. mi_attach_unit m u d) (bus_mirage s)\<rparr>)"

(* src/crates/machine-core/src/lib.rs:708-729 MachineBus::with_hostblk *)
definition with_hostblk :: "('d, 'p, 'b) bus \<Rightarrow> u8 \<Rightarrow> 'd \<Rightarrow> bool \<Rightarrow> ('d, 'p, 'b) bus" where
  "with_hostblk s u d write_protect =
     (let s = (case bus_hostblk s of Some _ \<Rightarrow> s
         | None \<Rightarrow> (let (ac, idx) = add_board (bus_autoconfig s) hb_board_spec
                   in s\<lparr>bus_autoconfig := ac, bus_hostblk_board := idx, bus_hostblk := Some hb_new\<rparr>))
      in s\<lparr>bus_hostblk := map_option (\<lambda>h. hb_attach_unit h u d write_protect) (bus_hostblk s)\<rparr>)"

(* src/crates/machine-core/src/lib.rs:748-763 MachineBus::attach_graphics *)
definition attach_graphics :: "('d, 'p, 'b) bus \<Rightarrow> graffity \<Rightarrow> ('d, 'p, 'b) bus" where
  "attach_graphics s gfx =
     (let (ac, chain) = fold (\<lambda>(board, spec) (ac, chain). let (ac', idx) = add_board ac spec in (ac', chain[board := idx]))
           (enumerate 0 (gf_board_specs gfx)) (bus_autoconfig s, replicate MAX_GRAFFITY_BOARDS None)
      in s\<lparr>bus_autoconfig := ac, bus_graphics_boards := chain, bus_graphics := Some gfx\<rparr>)"

(* src/crates/machine-core/src/lib.rs:731-740 MachineBus::with_graphics *)
definition with_graphics :: "('d, 'p, 'b) bus \<Rightarrow> u8 list \<Rightarrow> ('d, 'p, 'b) bus" where
  "with_graphics s vram = attach_graphics s (gf_new vram)"

(* src/crates/machine-core/src/lib.rs:742-746 MachineBus::with_graphics_zorro_iii *)
definition with_graphics_zorro_iii :: "('d, 'p, 'b) bus \<Rightarrow> u8 list \<Rightarrow> ('d, 'p, 'b) bus" where
  "with_graphics_zorro_iii s vram = attach_graphics s (gf_new_zorro_iii vram)"

(* src/crates/machine-core/src/lib.rs:778-789 MachineBus::with_fast_ram *)
definition with_fast_ram :: "('d, 'p, 'b) bus \<Rightarrow> u8 list \<Rightarrow> ('d, 'p, 'b) bus" where
  "with_fast_ram s mem =
     (let (ac, idx) = add_board (bus_autoconfig s) (fastram_board_spec (of_nat (length mem)))
      in refresh_windows (s\<lparr>bus_autoconfig := ac, bus_ram := (bus_ram s)\<lparr>gr_fast_ram_board := idx, gr_fast_ram := Some mem\<rparr>\<rparr>))"

(* src/crates/machine-core/src/lib.rs:791-803 MachineBus::with_input *)
definition with_input :: "('d, 'p, 'b) bus \<Rightarrow> ('d, 'p, 'b) bus" where
  "with_input s = (case bus_input s of Some _ \<Rightarrow> s
     | None \<Rightarrow> (let (ac, idx) = add_board (bus_autoconfig s) ni_board_spec
               in s\<lparr>bus_autoconfig := ac, bus_input_board := idx, bus_input := Some ni_new\<rparr>))"

(* src/crates/machine-core/src/lib.rs:805-816 MachineBus::with_pktport *)
definition with_pktport :: "('d, 'p, 'b) bus \<Rightarrow> 'p \<Rightarrow> ('d, 'p, 'b) bus" where
  "with_pktport s backend = (let (ac, idx) = add_board (bus_autoconfig s) pk_board_spec
     in s\<lparr>bus_autoconfig := ac, bus_pktport_board := idx, bus_pktport := Some (pk_new backend)\<rparr>)"

(* src/crates/machine-core/src/lib.rs:818-834 MachineBus::with_rtgboard *)
definition with_rtgboard :: "('d, 'p, 'b) bus \<Rightarrow> u8 list \<Rightarrow> mode_descriptor list \<Rightarrow> ('d, 'p, 'b) bus" where
  "with_rtgboard s vram catalog = (let (ac, idx) = add_board (bus_autoconfig s) rtg_board_spec
     in s\<lparr>bus_autoconfig := ac, bus_rtg_board := idx, bus_rtg := Some (rtg_new vram catalog)\<rparr>)"

(* src/crates/machine-core/src/lib.rs:836-850 MachineBus::with_pcibridge *)
definition with_pcibridge :: "('d, 'p, 'b) bus \<Rightarrow> 'b \<Rightarrow> ('d, 'p, 'b) bus" where
  "with_pcibridge s backend = (let (ac, idx) = add_board (bus_autoconfig s) br_board_spec
     in refresh_windows (s\<lparr>bus_autoconfig := ac, bus_pcibridge_board := idx, bus_pcibridge := Some (br_new backend)\<rparr>))"

(* src/crates/machine-core/src/lib.rs:852-856 MachineBus::with_ext_rom *)
definition with_ext_rom :: "('d, 'p, 'b) bus \<Rightarrow> u8 list \<Rightarrow> ('d, 'p, 'b) bus" where
  "with_ext_rom s ext_rom = s\<lparr>bus_ext_rom := ext_rom\<rparr>"

(* src/crates/machine-core/src/lib.rs:1765-1771 MachineBus::sync_floppy_status *)
definition sync_floppy_status :: "('d, 'p, 'b) bus \<Rightarrow> ('d, 'p, 'b) bus" where
  "sync_floppy_status s = s\<lparr>bus_cia_a := (bus_cia_a s)\<lparr>cia_pra_input :=
     (cia_pra_input (bus_cia_a s) AND NOT FLOPPY_PRA_MASK) OR fd_pra_status_bits (bus_floppy s)\<rparr>\<rparr>"

(* src/crates/machine-core/src/lib.rs:858-864 MachineBus::with_floppy *)
definition with_floppy :: "('d, 'p, 'b) bus \<Rightarrow> floppy_presence \<Rightarrow> ('d, 'p, 'b) bus" where
  "with_floppy s presence = sync_floppy_status (s\<lparr>bus_floppy := fd_new presence\<rparr>)"

text \<open>Where AUTOCONFIG placed a card's board.\<close>

definition board_base :: "('d, 'p, 'b) bus \<Rightarrow> nat option \<Rightarrow> u32 option" where
  "board_base s board = (case board of None \<Rightarrow> None | Some idx \<Rightarrow> map_option cfg_base (placement (bus_autoconfig s) idx))"

(* src/crates/machine-core/src/lib.rs:895-903 MachineBus::graphics_board_bases *)
definition graphics_board_bases :: "('d, 'p, 'b) bus \<Rightarrow> u32 option list" where
  "graphics_board_bases s = map (board_base s) (bus_graphics_boards s)"

(* src/crates/machine-core/src/lib.rs:946-950 MachineBus::hostblk_board_base *)
definition hostblk_board_base :: "('d, 'p, 'b) bus \<Rightarrow> u32 option" where
  "hostblk_board_base s = board_base s (bus_hostblk_board s)"

(* src/crates/machine-core/src/lib.rs:966-972 MachineBus::input_board_base *)
definition input_board_base :: "('d, 'p, 'b) bus \<Rightarrow> u32 option" where
  "input_board_base s = board_base s (bus_input_board s)"

(* src/crates/machine-core/src/lib.rs:986-994 MachineBus::pktport_board_base *)
definition pktport_board_base :: "('d, 'p, 'b) bus \<Rightarrow> u32 option" where
  "pktport_board_base s = board_base s (bus_pktport_board s)"

(* src/crates/machine-core/src/lib.rs:1010-1016 MachineBus::rtgboard_base *)
definition rtgboard_base :: "('d, 'p, 'b) bus \<Rightarrow> u32 option" where
  "rtgboard_base s = board_base s (bus_rtg_board s)"

(* src/crates/machine-core/src/lib.rs:1030-1038 MachineBus::pcibridge_board_base *)
definition pcibridge_board_base :: "('d, 'p, 'b) bus \<Rightarrow> u32 option" where
  "pcibridge_board_base s = board_base s (bus_pcibridge_board s)"

section \<open>Time\<close>

text \<open>\<open>self.chipset.raise_int(bit)\<close> under the condition that a source asserts.\<close>

definition raise_if :: "bool \<Rightarrow> nat \<Rightarrow> ('d, 'p, 'b) bus \<Rightarrow> ('d, 'p, 'b) bus" where
  "raise_if asserts n s = (if asserts then s\<lparr>bus_chipset := chip_raise_int (bus_chipset s) n\<rparr> else s)"

(* src/crates/machine-core/src/lib.rs:1186-1196 MachineBus::tick_exact *)
definition tick_graphics :: "nat \<Rightarrow> ('d, 'p, 'b) bus \<Rightarrow> ('d, 'p, 'b) bus" where
  "tick_graphics wrapped s = (case bus_graphics s of None \<Rightarrow> s
     | Some g \<Rightarrow> (let g = (gf_signal_vertical_retrace ^^ wrapped) g
                 in raise_if (gf_irq_pending g) INTBIT_PORTS (s\<lparr>bus_graphics := Some g\<rparr>)))"

(* src/crates/machine-core/src/lib.rs:1246-1251 MachineBus::tick_exact *)
definition tick_mirage :: "('d, 'p, 'b) bus_env \<Rightarrow> ('d, 'p, 'b) bus \<Rightarrow> ('d, 'p, 'b) bus" where
  "tick_mirage env s = (case bus_mirage s of None \<Rightarrow> s
     | Some m \<Rightarrow> (let m = mi_tick (be_block env) m
                 in raise_if (mi_irq_pending m) INTBIT_PORTS (s\<lparr>bus_mirage := Some m\<rparr>)))"

(* src/crates/machine-core/src/lib.rs:1252-1257 MachineBus::tick_exact *)
definition tick_hostblk :: "('d, 'p, 'b) bus_env \<Rightarrow> ('d, 'p, 'b) bus \<Rightarrow> ('d, 'p, 'b) bus" where
  "tick_hostblk env s = (case bus_hostblk s of None \<Rightarrow> s
     | Some h \<Rightarrow> (let (h, ram) = hb_tick (be_block env) h (bus_ram s)
                 in raise_if (hb_irq_pending h) INTBIT_PORTS (s\<lparr>bus_ram := ram, bus_hostblk := Some h\<rparr>)))"

(* src/crates/machine-core/src/lib.rs:1258-1263 MachineBus::tick_exact *)
definition tick_pktport :: "('d, 'p, 'b) bus_env \<Rightarrow> ('d, 'p, 'b) bus \<Rightarrow> ('d, 'p, 'b) bus" where
  "tick_pktport env s = (case bus_pktport s of None \<Rightarrow> s
     | Some p \<Rightarrow> (let (p, ram) = pk_tick (be_packets env) p (bus_ram s)
                 in raise_if (pk_irq_pending p) INTBIT_PORTS (s\<lparr>bus_ram := ram, bus_pktport := Some p\<rparr>)))"

(* src/crates/machine-core/src/lib.rs:1264-1269 MachineBus::tick_exact *)
definition tick_pcibridge :: "('d, 'p, 'b) bus_env \<Rightarrow> ('d, 'p, 'b) bus \<Rightarrow> ('d, 'p, 'b) bus" where
  "tick_pcibridge env s = (case bus_pcibridge s of None \<Rightarrow> s
     | Some p \<Rightarrow> (let (p, ram) = br_tick (be_pci env) p (bus_ram s); (p, irq) = br_irq_pending (be_pci env) p
                 in raise_if irq INTBIT_PORTS (s\<lparr>bus_ram := ram, bus_pcibridge := Some p\<rparr>)))"

(* src/crates/machine-core/src/lib.rs:1245-1270 MachineBus::tick_exact *)
definition tick_engines :: "('d, 'p, 'b) bus_env \<Rightarrow> ('d, 'p, 'b) bus \<Rightarrow> ('d, 'p, 'b) bus" where
  "tick_engines env s = tick_pcibridge env (tick_pktport env (tick_hostblk env (tick_mirage env s)))"

(* src/crates/machine-core/src/lib.rs:1272-1277 MachineBus::tick_exact *)
definition tick_cias :: "u32 \<Rightarrow> ('d, 'p, 'b) bus \<Rightarrow> ('d, 'p, 'b) bus" where
  "tick_cias n s =
     (let (a, irq_a) = cia_tick (bus_cia_a s) n CPU_CLOCKS_PER_ECLOCK;
          s = raise_if irq_a INTBIT_PORTS (s\<lparr>bus_cia_a := a\<rparr>);
          (b, irq_b) = cia_tick (bus_cia_b s) n CPU_CLOCKS_PER_ECLOCK
      in raise_if irq_b INTBIT_EXTER (s\<lparr>bus_cia_b := b\<rparr>))"

(* src/crates/machine-core/src/lib.rs:1148-1278 MachineBus::tick_exact *)
definition tick_exact :: "('d, 'p, 'b) bus_env \<Rightarrow> u32 \<Rightarrow> ('d, 'p, 'b) bus \<Rightarrow> ('d, 'p, 'b) bus" where
  "tick_exact env n s =
     (let (chip, beam) = chip_tick (bus_chipset s) n CPU_CLOCKS_PER_COLOUR_CLOCK;
          s = s\<lparr>bus_chipset := chip,
                bus_cia_a := (cia_tod_tick ^^ unat (frames_wrapped beam)) (bus_cia_a s),
                bus_cia_b := (cia_tod_tick ^^ unat (lines_started beam)) (bus_cia_b s)\<rparr>;
          s = tick_graphics (unat (frames_wrapped beam)) s;
          s = (if lines_started beam > 0 then tick_engines env s else s)
      in tick_cias n s)"

(* src/crates/machine-core/src/lib.rs:1108-1121 MachineBus::flush *)
definition bus_flush :: "('d, 'p, 'b) bus_env \<Rightarrow> ('d, 'p, 'b) bus \<Rightarrow> ('d, 'p, 'b) bus" where
  "bus_flush env s =
     (if bus_pending_clocks s = 0 then s
      else recompute_next_event (tick_exact env (bus_pending_clocks s) (s\<lparr>bus_pending_clocks := 0\<rparr>)))"

(* src/crates/machine-core/src/lib.rs:1069-1074 MachineBus::tick *)
definition bus_tick :: "('d, 'p, 'b) bus_env \<Rightarrow> u32 \<Rightarrow> ('d, 'p, 'b) bus \<Rightarrow> ('d, 'p, 'b) bus" where
  "bus_tick env n s =
     (let s = s\<lparr>bus_pending_clocks := saturating_add_u32 (bus_pending_clocks s) n\<rparr>
      in if bus_next_event_clocks s \<le> bus_pending_clocks s then bus_flush env s else s)"

(* src/crates/machine-core/src/lib.rs:1313-1324 MachineBus::tick_eager *)
definition tick_eager :: "('d, 'p, 'b) bus_env \<Rightarrow> u32 \<Rightarrow> ('d, 'p, 'b) bus \<Rightarrow> ('d, 'p, 'b) bus" where
  "tick_eager env n s = tick_exact env n s"

(* src/crates/machine-core/src/lib.rs:1093-1097 MachineBus::next_event_deadline_clocks *)
definition next_event_deadline_clocks :: "('d, 'p, 'b) bus \<Rightarrow> u32" where
  "next_event_deadline_clocks s = max (saturating_sub_u32 (bus_next_event_clocks s) (bus_pending_clocks s)) 1"

(* src/crates/machine-core/src/lib.rs:1099-1106 MachineBus::take_boundary_request *)
definition take_boundary_request :: "('d, 'p, 'b) bus \<Rightarrow> ('d, 'p, 'b) bus \<times> bool" where
  "take_boundary_request s = (s\<lparr>bus_boundary_request := False\<rparr>, bus_boundary_request s)"

(* src/crates/machine-core/src/lib.rs:1299-1311 MachineBus::reassert_level_irqs *)
definition reassert_level_irqs :: "('d, 'p, 'b) bus \<Rightarrow> ('d, 'p, 'b) bus" where
  "reassert_level_irqs s =
     (let s = raise_if (cia_irq_pending (bus_cia_a s)) INTBIT_PORTS s;
          s = raise_if (cia_irq_pending (bus_cia_b s)) INTBIT_EXTER s
      in case bus_graphics s of None \<Rightarrow> s | Some g \<Rightarrow> raise_if (gf_irq_pending g) INTBIT_PORTS s)"

(* src/crates/machine-core/src/lib.rs:1326-1329 MachineBus::mouse_delta *)
definition bus_mouse_delta :: "('d, 'p, 'b) bus \<Rightarrow> u8 \<Rightarrow> u8 \<Rightarrow> ('d, 'p, 'b) bus" where
  "bus_mouse_delta s dx dy = s\<lparr>bus_chipset := chip_mouse_delta (bus_chipset s) dx dy\<rparr>"

(* src/crates/machine-core/src/lib.rs:1331-1350 MachineBus::mouse_button *)
definition bus_mouse_button :: "('d, 'p, 'b) bus \<Rightarrow> mouse_button \<Rightarrow> bool \<Rightarrow> ('d, 'p, 'b) bus" where
  "bus_mouse_button s button pressed =
     (if button = MouseLeft then
        s\<lparr>bus_cia_a := (bus_cia_a s)\<lparr>cia_pra_input :=
           (if pressed then cia_pra_input (bus_cia_a s) AND NOT CIA_A_PRA_FIR0
            else cia_pra_input (bus_cia_a s) OR CIA_A_PRA_FIR0)\<rparr>\<rparr>
      else s\<lparr>bus_chipset := chip_mouse_button (bus_chipset s) button pressed\<rparr>)"

(* src/crates/machine-core/src/lib.rs:1369-1371 MachineBus::pending_irq_level *)
definition pending_irq_level :: "('d, 'p, 'b) bus \<Rightarrow> u8" where
  "pending_irq_level s = chip_pending_level (bus_chipset s)"

(* src/crates/machine-core/src/lib.rs:1373-1382 MachineBus::frames *)
definition bus_frames :: "('d, 'p, 'b) bus \<Rightarrow> u64" where
  "bus_frames s = frames (bus_chipset s)"

section \<open>The RAM fast path\<close>

(* src/crates/machine-core/src/lib.rs:1384-1398 MachineBus::fast_ram_window *)
definition fast_ram_window :: "('d, 'p, 'b) bus \<Rightarrow> (u32 \<times> u32) option" where
  "fast_ram_window s = (case gr_fast_window (bus_ram s) of None \<Rightarrow> None
     | Some (base, window_len) \<Rightarrow> map_option (\<lambda>mem. (base, min window_len (of_nat (length mem)))) (gr_fast_ram (bus_ram s)))"

text \<open>A mutable slice of one of the two RAM arrays: the array it lies in and how much of it.\<close>

datatype ram_bank = ChipBank | FastBank

(* src/crates/machine-core/src/lib.rs:1400-1416 MachineBus::fast_ram_window_mut *)
definition fast_ram_window_mut :: "('d, 'p, 'b) bus \<Rightarrow> (u32 \<times> ram_bank \<times> nat) option" where
  "fast_ram_window_mut s = (case gr_fast_window (bus_ram s) of None \<Rightarrow> None
     | Some (base, window_len) \<Rightarrow> (case gr_fast_ram (bus_ram s) of None \<Rightarrow> None
       | Some mem \<Rightarrow> (let len = min (unat window_len) (length mem) in if len = 0 then None else Some (base, FastBank, len))))"

(* src/crates/machine-core/src/lib.rs:90-91 ROM_WINDOW_SIZE *)
definition ROM_WINDOW_SIZE :: nat where [simp]: "ROM_WINDOW_SIZE = 0x00080000"
(* src/crates/machine-core/src/lib.rs:96-97 ROM_END *)
definition ROM_END :: u32 where [simp]: "ROM_END = ROM_BASE + 0x00080000"

(* src/crates/machine-core/src/lib.rs:1437-1453 MachineBus::fast_region *)
definition fast_region :: "('d, 'p, 'b) bus \<Rightarrow> u32 \<Rightarrow> (u8 list \<times> nat) option" where
  "fast_region s address =
     (if CHIP_RAM_BASE \<le> address \<and> address < CHIP_RAM_END \<and> \<not> (bus_overlay s \<and> address < OVERLAY_END)
      then Some (gr_chip_ram (bus_ram s), unat (address - CHIP_RAM_BASE))
      else case gr_fast_window (bus_ram s) of
        Some (base, len) \<Rightarrow>
          if base \<le> address \<and> address - base < len then map_option (\<lambda>mem. (mem, unat (address - base))) (gr_fast_ram (bus_ram s))
          else if length (bus_rom s) = ROM_WINDOW_SIZE \<and> ROM_BASE \<le> address \<and> address < ROM_END
          then Some (bus_rom s, unat (address - ROM_BASE)) else None
      | None \<Rightarrow>
          if length (bus_rom s) = ROM_WINDOW_SIZE \<and> ROM_BASE \<le> address \<and> address < ROM_END
          then Some (bus_rom s, unat (address - ROM_BASE)) else None)"

(* src/crates/machine-core/src/lib.rs:1455-1475 MachineBus::fast_region_mut *)
definition fast_region_mut :: "('d, 'p, 'b) bus \<Rightarrow> u32 \<Rightarrow> (ram_bank \<times> nat) option" where
  "fast_region_mut s address =
     (if CHIP_RAM_BASE \<le> address \<and> address < CHIP_RAM_END then Some (ChipBank, unat (address - CHIP_RAM_BASE))
      else case gr_fast_window (bus_ram s) of
        Some (base, len) \<Rightarrow>
          if base \<le> address \<and> address - base < len then map_option (\<lambda>mem. (FastBank, unat (address - base))) (gr_fast_ram (bus_ram s))
          else None
      | None \<Rightarrow> None)"

text \<open>The slice behind a bank, and storing bytes into it when the whole span is inside (\<open>get_mut(off..off + n)\<close>).\<close>

fun bank_bytes :: "('d, 'p, 'b) bus \<Rightarrow> ram_bank \<Rightarrow> u8 list" where
  "bank_bytes s ChipBank = gr_chip_ram (bus_ram s)"
| "bank_bytes s FastBank = (case gr_fast_ram (bus_ram s) of Some mem \<Rightarrow> mem | None \<Rightarrow> [])"

fun bank_store :: "('d, 'p, 'b) bus \<Rightarrow> ram_bank \<Rightarrow> u8 list \<Rightarrow> ('d, 'p, 'b) bus" where
  "bank_store s ChipBank mem = s\<lparr>bus_ram := (bus_ram s)\<lparr>gr_chip_ram := mem\<rparr>\<rparr>"
| "bank_store s FastBank mem = s\<lparr>bus_ram := (bus_ram s)\<lparr>gr_fast_ram := Some mem\<rparr>\<rparr>"

definition fast_load :: "('d, 'p, 'b) bus \<Rightarrow> u32 \<Rightarrow> nat \<Rightarrow> u8 list option" where
  "fast_load s address n = (case fast_region s address of None \<Rightarrow> None
     | Some (region, off) \<Rightarrow> if off + n \<le> length region then Some (take n (drop off region)) else None)"

definition fast_store :: "('d, 'p, 'b) bus \<Rightarrow> u32 \<Rightarrow> u8 list \<Rightarrow> ('d, 'p, 'b) bus option" where
  "fast_store s address bs = (case fast_region_mut s address of None \<Rightarrow> None
     | Some (bank, off) \<Rightarrow> if off + length bs \<le> length (bank_bytes s bank)
         then Some (bank_store s bank (splice_at (bank_bytes s bank) off bs)) else None)"

section \<open>CIA and custom register accesses\<close>

(* src/crates/machine-core/src/lib.rs:1711-1717 MachineBus::cia_select *)
definition cia_select :: "u32 \<Rightarrow> bool \<times> u8" where
  "cia_select address = (address AND 1 \<noteq> 0, ucast (drop_bit 8 address AND 0x0F))"

(* src/crates/machine-core/src/lib.rs:1719-1729 MachineBus::read_cia *)
definition read_cia :: "('d, 'p, 'b) bus_env \<Rightarrow> ('d, 'p, 'b) bus \<Rightarrow> u32 \<Rightarrow> ('d, 'p, 'b) bus \<times> u8" where
  "read_cia env s address =
     (let s = bus_flush env s; (is_cia_a, reg) = cia_select address in
      if is_cia_a then (let (c, v) = cia_read (bus_cia_a s) reg in (s\<lparr>bus_cia_a := c\<rparr>, v))
      else (let (c, v) = cia_read (bus_cia_b s) reg in (s\<lparr>bus_cia_b := c\<rparr>, v)))"

(* src/crates/machine-core/src/lib.rs:1738-1756 MachineBus::write_cia *)
definition write_cia_reg :: "('d, 'p, 'b) bus \<Rightarrow> u32 \<Rightarrow> u8 \<Rightarrow> ('d, 'p, 'b) bus" where
  "write_cia_reg s address v =
     (let (is_cia_a, reg) = cia_select address in
      if is_cia_a then
        (let a = cia_write (bus_cia_a s) reg v in s\<lparr>bus_cia_a := a, bus_overlay := cia_ovl_asserted a\<rparr>)
      else
        (let is_prb = (reg AND 0x0F = CIA_PRB); prev_prb = cia_prb (bus_cia_b s);
             s = s\<lparr>bus_cia_b := cia_write (bus_cia_b s) reg v\<rparr>
         in if is_prb then sync_floppy_status (s\<lparr>bus_floppy := fd_on_prb_write (bus_floppy s) prev_prb (cia_prb (bus_cia_b s))\<rparr>)
            else s))"

(* src/crates/machine-core/src/lib.rs:1731-1763 MachineBus::write_cia *)
definition write_cia :: "('d, 'p, 'b) bus_env \<Rightarrow> ('d, 'p, 'b) bus \<Rightarrow> u32 \<Rightarrow> u8 \<Rightarrow> ('d, 'p, 'b) bus" where
  "write_cia env s address v = reassert_level_irqs (recompute_next_event (write_cia_reg (bus_flush env s) address v))"

text \<open>The register offset of a custom-chip address: \<open>(address - CUSTOM_BASE) as u16 & 0x1FE\<close>.\<close>

definition custom_offset :: "u32 \<Rightarrow> u16" where
  "custom_offset address = ucast (address - CUSTOM_BASE) AND 0x1FE"

(* src/crates/machine-core/src/lib.rs:1773-1791 MachineBus::read_custom_word *)
definition read_custom_word :: "('d, 'p, 'b) bus_env \<Rightarrow> ('d, 'p, 'b) bus \<Rightarrow> u32 \<Rightarrow> ('d, 'p, 'b) bus \<times> u16" where
  "read_custom_word env s address =
     (let s = bus_flush env s; offset = custom_offset address in
      if is_blitter offset then (s, blt_read (bus_blitter s) offset)
      else (let (c, v) = chip_read (bus_chipset s) offset; s = s\<lparr>bus_chipset := c\<rparr> in
        if offset = CHIP_DMACONR then (s, v OR blt_dmaconr_bits (bus_blitter s)) else (s, v)))"

(* src/crates/machine-core/src/lib.rs:1830-1845 MachineBus::run_blitter *)
definition run_blitter :: "('d, 'p, 'b) bus \<Rightarrow> ('d, 'p, 'b) bus" where
  "run_blitter s =
     (let ((blt, mem, log), ran) = execute_logged (bus_blitter s) (gr_chip_ram (bus_ram s)) (gr_write_log (bus_ram s))
      in raise_if ran INTBIT_BLIT
           (s\<lparr>bus_blitter := blt, bus_ram := (bus_ram s)\<lparr>gr_chip_ram := mem, gr_write_log := log\<rparr>\<rparr>))"

(* src/crates/machine-core/src/lib.rs:1809-1827 MachineBus::write_custom_word_inner *)
definition write_custom_reg :: "('d, 'p, 'b) bus \<Rightarrow> u32 \<Rightarrow> u16 \<Rightarrow> ('d, 'p, 'b) bus" where
  "write_custom_reg s address v =
     (let offset = custom_offset address in
      if is_blitter offset then
        (let (blt, start) = blt_write (bus_blitter s) offset v; s = s\<lparr>bus_blitter := blt\<rparr>
         in if start then run_blitter s else s)
      else reassert_level_irqs (s\<lparr>bus_chipset := chip_write (bus_chipset s) offset v\<rparr>))"

(* src/crates/machine-core/src/lib.rs:1808-1828 MachineBus::write_custom_word_inner *)
definition write_custom_word_inner :: "('d, 'p, 'b) bus_env \<Rightarrow> ('d, 'p, 'b) bus \<Rightarrow> u32 \<Rightarrow> u16 \<Rightarrow> ('d, 'p, 'b) bus" where
  "write_custom_word_inner env s address v = write_custom_reg (bus_flush env s) address v"

text \<open>
  The compare around a device access: the boundary request is set when the access changed the interrupt level
  (\<open>let level_before = ...; access; if level() != level_before { boundary_request = true }\<close>).
\<close>

definition note_boundary :: "('d, 'p, 'b) bus \<Rightarrow> ('d, 'p, 'b) bus \<Rightarrow> ('d, 'p, 'b) bus" where
  "note_boundary before s =
     (if chip_pending_level (bus_chipset s) \<noteq> chip_pending_level (bus_chipset before) then s\<lparr>bus_boundary_request := True\<rparr> else s)"

(* src/crates/machine-core/src/lib.rs:1793-1806 MachineBus::write_custom_word *)
definition write_custom_word :: "('d, 'p, 'b) bus_env \<Rightarrow> ('d, 'p, 'b) bus \<Rightarrow> u32 \<Rightarrow> u16 \<Rightarrow> ('d, 'p, 'b) bus" where
  "write_custom_word env s address v = note_boundary s (write_custom_word_inner env s address v)"

section \<open>Expansion boards\<close>

text \<open>\<open>graphics_boards.iter().position(|&chain_idx| chain_idx == Some(idx))\<close>\<close>

definition graphics_position :: "('d, 'p, 'b) bus \<Rightarrow> nat \<Rightarrow> nat option" where
  "graphics_position s idx = find (\<lambda>i. bus_graphics_boards s ! i = Some idx) [0..<length (bus_graphics_boards s)]"

(* src/crates/machine-core/src/lib.rs:1531-1663 MachineBus::read_byte_board *)
definition read_byte_board :: "('d, 'p, 'b) bus_env \<Rightarrow> ('d, 'p, 'b) bus \<Rightarrow> nat \<Rightarrow> u32 \<Rightarrow> ('d, 'p, 'b) bus \<times> u8" where
  "read_byte_board env s idx address =
     (case placement (bus_autoconfig s) idx of None \<Rightarrow> (s, OPEN_BUS_BYTE)
      | Some p \<Rightarrow> (let offset = address - cfg_base p in
        if Some idx = bus_mirage_board s then
          (case bus_mirage s of None \<Rightarrow> (s, OPEN_BUS_BYTE)
           | Some m \<Rightarrow> (let (m, v) = mi_read m offset in (raise_if (mi_irq_pending m) INTBIT_PORTS (s\<lparr>bus_mirage := Some m\<rparr>), v)))
        else if Some idx = gr_fast_ram_board (bus_ram s) then
          (case gr_fast_ram (bus_ram s) of None \<Rightarrow> (s, OPEN_BUS_BYTE) | Some mem \<Rightarrow> (s, get_or OPEN_BUS_BYTE mem (unat offset)))
        else if Some idx = bus_hostblk_board s then
          (case bus_hostblk s of None \<Rightarrow> (s, OPEN_BUS_BYTE) | Some h \<Rightarrow> (s, hb_read (be_block env) (be_hostblk_rom env) h offset))
        else if Some idx = bus_input_board s then
          (case bus_input s of None \<Rightarrow> (s, OPEN_BUS_BYTE)
           | Some ni \<Rightarrow> (raise_if (ni_irq_pending ni) INTBIT_PORTS s, ni_read (be_input_rom env) ni offset))
        else if Some idx = bus_pktport_board s then
          (case bus_pktport s of None \<Rightarrow> (s, OPEN_BUS_BYTE) | Some pk \<Rightarrow> (s, pk_read (be_pktport_rom env) pk offset))
        else if Some idx = bus_rtg_board s then
          (case bus_rtg s of None \<Rightarrow> (s, OPEN_BUS_BYTE) | Some r \<Rightarrow> (s, rtg_read r offset))
        else if Some idx = bus_pcibridge_board s then
          (case bus_pcibridge s of None \<Rightarrow> (s, OPEN_BUS_BYTE)
           | Some br \<Rightarrow> (let (br, v) = br_read (be_pci env) br offset in (s\<lparr>bus_pcibridge := Some br\<rparr>, v)))
        else case graphics_position s idx of None \<Rightarrow> (s, OPEN_BUS_BYTE)
          | Some board \<Rightarrow> (case bus_graphics s of None \<Rightarrow> (s, OPEN_BUS_BYTE)
             | Some g \<Rightarrow> (let (g, v) = gf_read g board offset in (s\<lparr>bus_graphics := Some g\<rparr>, v)))))"

(* src/crates/machine-core/src/lib.rs:1974-2065 MachineBus::write_byte_slow *)
definition write_byte_board :: "('d, 'p, 'b) bus_env \<Rightarrow> ('d, 'p, 'b) bus \<Rightarrow> nat \<Rightarrow> u32 \<Rightarrow> u8 \<Rightarrow> ('d, 'p, 'b) bus" where
  "write_byte_board env s idx address v =
     (case placement (bus_autoconfig s) idx of None \<Rightarrow> s
      | Some p \<Rightarrow> (let offset = address - cfg_base p in
        if Some idx = bus_mirage_board s then
          (case bus_mirage s of None \<Rightarrow> s
           | Some m \<Rightarrow> (let m = mi_write (be_block env) m offset v in raise_if (mi_irq_pending m) INTBIT_PORTS (s\<lparr>bus_mirage := Some m\<rparr>)))
        else if Some idx = gr_fast_ram_board (bus_ram s) then
          (case gr_fast_ram (bus_ram s) of None \<Rightarrow> s
           | Some mem \<Rightarrow> if unat offset < length mem then s\<lparr>bus_ram := (bus_ram s)\<lparr>gr_fast_ram := Some (mem[unat offset := v])\<rparr>\<rparr> else s)
        else if Some idx = bus_hostblk_board s then
          (case bus_hostblk s of None \<Rightarrow> s
           | Some h \<Rightarrow> (let h = hb_write h offset v in raise_if (hb_irq_pending h) INTBIT_PORTS (s\<lparr>bus_hostblk := Some h\<rparr>)))
        else if Some idx = bus_input_board s then
          (case bus_input s of None \<Rightarrow> s
           | Some ni \<Rightarrow> (let ni = ni_write ni offset v in raise_if (ni_irq_pending ni) INTBIT_PORTS (s\<lparr>bus_input := Some ni\<rparr>)))
        else if Some idx = bus_pktport_board s then
          (case bus_pktport s of None \<Rightarrow> s
           | Some pk \<Rightarrow> (let pk = pk_write pk offset v in raise_if (pk_irq_pending pk) INTBIT_PORTS (s\<lparr>bus_pktport := Some pk\<rparr>)))
        else if Some idx = bus_rtg_board s then
          (case bus_rtg s of None \<Rightarrow> s | Some r \<Rightarrow> s\<lparr>bus_rtg := Some (rtg_write r offset v)\<rparr>)
        else if Some idx = bus_pcibridge_board s then
          (case bus_pcibridge s of None \<Rightarrow> s
           | Some br \<Rightarrow> (let (br, irq) = br_irq_pending (be_pci env) (br_write (be_pci env) br offset v)
                        in raise_if irq INTBIT_PORTS (s\<lparr>bus_pcibridge := Some br\<rparr>)))
        else case graphics_position s idx of None \<Rightarrow> s
          | Some board \<Rightarrow> (case bus_graphics s of None \<Rightarrow> s
             | Some g \<Rightarrow> reassert_level_irqs (s\<lparr>bus_graphics := Some (gf_write g board offset v)\<rparr>))))"

(* src/crates/machine-core/src/lib.rs:1683-1689 MachineBus::pcibridge_target *)
definition pcibridge_target :: "('d, 'p, 'b) bus \<Rightarrow> u32 \<Rightarrow> u32 option" where
  "pcibridge_target s address = (case bus_pcibridge_window s of None \<Rightarrow> None
     | Some (base, len) \<Rightarrow> if address < base \<or> len \<le> address - base then None else Some (address - base))"

(* src/crates/machine-core/src/lib.rs:1691-1709 MachineBus::pcibridge_aperture_sized *)
definition pcibridge_aperture_sized :: "('d, 'p, 'b) bus \<Rightarrow> u32 \<Rightarrow> access_width \<Rightarrow> u32 option" where
  "pcibridge_aperture_sized s address width =
     (if address mod aw_bytes width \<noteq> 0 then None
      else case pcibridge_target s address of None \<Rightarrow> None
        | Some offset \<Rightarrow> if APERTURE_BASE_OFFSET \<le> offset then Some (offset - APERTURE_BASE_OFFSET) else None)"

section \<open>Guest accesses\<close>

(* src/crates/machine-core/src/lib.rs:1487-1528 MachineBus::read_byte *)
definition read_byte_slow :: "('d, 'p, 'b) bus_env \<Rightarrow> ('d, 'p, 'b) bus \<Rightarrow> u32 \<Rightarrow> ('d, 'p, 'b) bus \<times> u8" where
  "read_byte_slow env s address =
     (if bus_overlay s \<and> address < OVERLAY_END then (s, read_mirrored (bus_rom s) 0 address)
      else if CHIP_RAM_BASE \<le> address \<and> address < CHIP_RAM_END
        then (s, gr_chip_ram (bus_ram s) ! unat (address - CHIP_RAM_BASE))
      else if ac_responds_to address then (s, ac_read (bus_autoconfig s) address)
      else if CIA_BASE \<le> address \<and> address < CIA_END then read_cia env s address
      else if CUSTOM_BASE \<le> address \<and> address < CUSTOM_END then
        (let (s, word) = read_custom_word env s (address AND NOT 1)
         in (s, if address AND 1 = 0 then ucast (drop_bit 8 word) else ucast word))
      else if EXT_ROM_BASE \<le> address \<and> address < EXT_ROM_BASE + of_nat EXT_ROM_WINDOW_SIZE \<and> bus_ext_rom s \<noteq> []
        then (s, read_mirrored (bus_ext_rom s) EXT_ROM_BASE address)
      else if ROM_BASE \<le> address \<and> address < ROM_END \<and> bus_rom s \<noteq> []
        then (s, read_mirrored (bus_rom s) ROM_BASE address)
      else case board_at (bus_autoconfig s) address of
          Some idx \<Rightarrow> (let (s', v) = read_byte_board env s idx address in (note_boundary s s', v))
        | None \<Rightarrow> (s, OPEN_BUS_BYTE))"

(* src/crates/machine-core/src/lib.rs:1477-1529 MachineBus::read_byte *)
definition read_byte :: "('d, 'p, 'b) bus_env \<Rightarrow> ('d, 'p, 'b) bus \<Rightarrow> u32 \<Rightarrow> ('d, 'p, 'b) bus \<times> u8" where
  "read_byte env s address = (case fast_load s address 1 of Some bytes \<Rightarrow> (s, bytes ! 0) | None \<Rightarrow> read_byte_slow env s address)"

(* src/crates/machine-core/src/lib.rs:1847-1886 MachineBus::read_word *)
definition read_word :: "('d, 'p, 'b) bus_env \<Rightarrow> ('d, 'p, 'b) bus \<Rightarrow> u32 \<Rightarrow> ('d, 'p, 'b) bus \<times> u16" where
  "read_word env s address =
     (if \<not> (bus_overlay s \<and> address < OVERLAY_END) \<and> CUSTOM_BASE \<le> address \<and> address < CUSTOM_END
      then read_custom_word env s address
      else case fast_load s address 2 of Some bytes \<Rightarrow> (s, from_be bytes)
      | None \<Rightarrow>
        (case (pcibridge_aperture_sized s address W16, bus_pcibridge s) of
           (Some k, Some br) \<Rightarrow> (let (br, v) = br_read_aperture_sized (be_pci env) br k W16 in (s\<lparr>bus_pcibridge := Some br\<rparr>, ucast v))
         | _ \<Rightarrow> (let (s, hi) = read_byte env s address; (s, lo) = read_byte env s (address + 1)
                in (s, push_bit 8 (ucast hi) OR ucast lo))))"

(* src/crates/machine-core/src/lib.rs:1888-1907 MachineBus::read_long *)
definition read_long :: "('d, 'p, 'b) bus_env \<Rightarrow> ('d, 'p, 'b) bus \<Rightarrow> u32 \<Rightarrow> ('d, 'p, 'b) bus \<times> u32" where
  "read_long env s address =
     (case fast_load s address 4 of Some bytes \<Rightarrow> (s, from_be bytes)
      | None \<Rightarrow>
        (case (pcibridge_aperture_sized s address W32, bus_pcibridge s) of
           (Some k, Some br) \<Rightarrow> (let (br, v) = br_read_aperture_sized (be_pci env) br k W32 in (s\<lparr>bus_pcibridge := Some br\<rparr>, v))
         | _ \<Rightarrow> (let (s, hi) = read_word env s address; (s, lo) = read_word env s (address + 2)
                in (s, push_bit 16 (ucast hi) OR ucast lo))))"

(* src/crates/machine-core/src/lib.rs:1941-2067 MachineBus::write_byte_slow *)
definition write_byte_slow :: "('d, 'p, 'b) bus_env \<Rightarrow> ('d, 'p, 'b) bus \<Rightarrow> u32 \<Rightarrow> u8 \<Rightarrow> ('d, 'p, 'b) bus" where
  "write_byte_slow env s address v =
     (if ac_responds_to address then refresh_windows (s\<lparr>bus_autoconfig := ac_write (bus_autoconfig s) address v\<rparr>)
      else if CIA_BASE \<le> address \<and> address < CIA_END then write_cia env s address v
      else if CUSTOM_BASE \<le> address \<and> address < CUSTOM_END then
        (let aligned = address AND NOT 1; (s, current) = read_custom_word env s aligned;
             merged = (if address AND 1 = 0 then (current AND 0x00FF) OR push_bit 8 (ucast v) else (current AND 0xFF00) OR ucast v)
         in write_custom_word env s aligned merged)
      else case board_at (bus_autoconfig s) address of Some idx \<Rightarrow> write_byte_board env s idx address v | None \<Rightarrow> s)"

(* src/crates/machine-core/src/lib.rs:1909-1939 MachineBus::write_byte *)
definition write_byte :: "('d, 'p, 'b) bus_env \<Rightarrow> ('d, 'p, 'b) bus \<Rightarrow> u32 \<Rightarrow> u8 \<Rightarrow> ('d, 'p, 'b) bus" where
  "write_byte env s address v = (case fast_store s address [v] of Some s' \<Rightarrow> s'
     | None \<Rightarrow>
        if CHIP_RAM_BASE \<le> address \<and> address < CHIP_RAM_END
        then s\<lparr>bus_ram := (bus_ram s)\<lparr>gr_chip_ram := (gr_chip_ram (bus_ram s))[unat (address - CHIP_RAM_BASE) := v]\<rparr>\<rparr>
        else note_boundary s (write_byte_slow env s address v))"

text \<open>The sized store into the PCI aperture that \<open>write_word\<close> and \<open>write_long\<close> share.\<close>

(* src/crates/machine-core/src/lib.rs:2088-2107 MachineBus::write_word *)
definition write_aperture :: "('d, 'p, 'b) bus_env \<Rightarrow> ('d, 'p, 'b) bus \<Rightarrow> 'b pci_bridge \<Rightarrow> u32 \<Rightarrow> access_width \<Rightarrow> u32 \<Rightarrow> ('d, 'p, 'b) bus" where
  "write_aperture env s br k width v =
     (let (br, irq) = br_irq_pending (be_pci env) (br_write_aperture_sized (be_pci env) br k width v);
          s = s\<lparr>bus_pcibridge := Some br\<rparr>
      in if irq then note_boundary s (raise_if True INTBIT_PORTS s) else s)"

(* src/crates/machine-core/src/lib.rs:2069-2112 MachineBus::write_word *)
definition write_word :: "('d, 'p, 'b) bus_env \<Rightarrow> ('d, 'p, 'b) bus \<Rightarrow> u32 \<Rightarrow> u16 \<Rightarrow> ('d, 'p, 'b) bus" where
  "write_word env s address v =
     (if CUSTOM_BASE \<le> address \<and> address < CUSTOM_END then write_custom_word env s address v
      else case fast_store s address (to_be 2 v) of Some s' \<Rightarrow> s'
      | None \<Rightarrow>
        (case (pcibridge_aperture_sized s address W16, bus_pcibridge s) of
           (Some k, Some br) \<Rightarrow> write_aperture env s br k W16 (ucast v)
         | _ \<Rightarrow> write_byte env (write_byte env s address (ucast (drop_bit 8 v))) (address + 1) (ucast v)))"

(* src/crates/machine-core/src/lib.rs:2114-2143 MachineBus::write_long *)
definition write_long :: "('d, 'p, 'b) bus_env \<Rightarrow> ('d, 'p, 'b) bus \<Rightarrow> u32 \<Rightarrow> u32 \<Rightarrow> ('d, 'p, 'b) bus" where
  "write_long env s address v =
     (case fast_store s address (to_be 4 v) of Some s' \<Rightarrow> s'
      | None \<Rightarrow>
        (case (pcibridge_aperture_sized s address W32, bus_pcibridge s) of
           (Some k, Some br) \<Rightarrow> write_aperture env s br k W32 v
         | _ \<Rightarrow> write_word env (write_word env s address (ucast (drop_bit 16 v))) (address + 2) (ucast v)))"

end
