(* ===== verification/BusTime.thy ===== *)
theory BusTime
  imports Bus
begin

text \<open>
  Deferred time. \<open>MachineBus::tick\<close> only accumulates clocks until the next deadline and \<open>flush\<close> applies them in one batch;
  \<open>tick_eager\<close> applies every call at once. This theory proves that no guest access can tell the two apart.

  The proof is a simulation: an eager bus \<open>e\<close> corresponds to a lazy bus \<open>l\<close> when it is \<open>l\<close> with its clocks moved on by the
  pending amount (\<open>waited\<close>). While the pending clocks stay below the deadline, waiting only moves the frame clock inside its
  line and the CIA counters short of their next event; so accesses that do not flush commute with waiting, and accesses
  that do flush first bring the lazy bus to where the eager one already is.
\<close>

section \<open>Waiting CIAs\<close>

text \<open>No source of the chip completes within the next \<open>d\<close> clocks, at 20 CPU clocks per E-clock.\<close>

definition cia_calm :: "nat \<Rightarrow> cia \<Rightarrow> bool" where
  "cia_calm d c \<longleftrightarrow> (\<forall>t \<in> set (event_times c). d + unat (cia_carry c) \<le> t * 20)"

lemma cia_calm_mono: "cia_calm d c \<Longrightarrow> d' \<le> d \<Longrightarrow> cia_calm d' c"
  by (auto simp: cia_calm_def)

lemma cia_calm_quiet:
  assumes "cia_calm d c" and "p < d"
  shows "cia_icr_data (cia_elapse 20 p c) = cia_icr_data c"
proof -
  have "\<forall>t \<in> set (event_times c). (unat (cia_carry c) + p) div 20 < t"
    using assms by (auto simp: cia_calm_def intro!: less_mult_imp_div_less)
  from steps_wait [OF this] show ?thesis by (simp add: cia_elapse_def)
qed

lemma cia_calm_deadline:
  assumes "cia_ok 20 c"
    and "case cia_clocks_until_event c 20 of Some d \<Rightarrow> n \<le> unat d | None \<Rightarrow> True"
  shows "cia_calm n c"
proof (cases "cia_clocks_until_event c 20")
  case None
  then have "event_times c = []"
    using deadline_times [of c] by (auto simp: cia_clocks_until_event_def Let_def split: option.splits if_splits)
  then show ?thesis by (simp add: cia_calm_def)
next
  case (Some d)
  have d: "unat d + unat (cia_carry c) = Min (set (event_times c)) * 20"
    using clocks_until_event_some(2) [of 20 c d] assms(1) Some by simp
  show ?thesis unfolding cia_calm_def
  proof
    fix t assume "t \<in> set (event_times c)"
    then have "Min (set (event_times c)) * 20 \<le> t * 20" by (intro mult_le_mono1) simp
    then show "n + unat (cia_carry c) \<le> t * 20" using d assms(2) Some by simp
  qed
qed

text \<open>Parts of a CIA that the E-clock neither reads nor writes can be changed before or after it ticks.\<close>

definition tod_part :: "u32 \<Rightarrow> bool \<Rightarrow> u8 \<Rightarrow> u8 \<Rightarrow> cia \<Rightarrow> cia" where
  "tod_part t m w i c = c\<lparr>cia_tod := t, cia_tod_matching := m, cia_icr_data := cia_icr_data c OR w, cia_pra_input := i\<rparr>"

lemma step_one_tod_part: "cia_tick_one_eclock (tod_part t m w i c) = tod_part t m w i (cia_tick_one_eclock c)"
proof -
  have ta: "cia_step_ta (tod_part t m w i c) = apfst (tod_part t m w i) (cia_step_ta c)" for c
    by (simp add: tod_part_def cia_step_ta_def step_timer_def cia_raise_def Let_def ac_simps)
  have tb: "cia_step_tb (tod_part t m w i d) u = tod_part t m w i (cia_step_tb d u)" for d u
    by (simp add: tod_part_def cia_step_tb_def crb_inmode_def step_timer_def cia_raise_def Let_def ac_simps)
  have kb: "cia_tick_keyboard (tod_part t m w i d) = tod_part t m w i (cia_tick_keyboard d)" for d
    by (simp add: tod_part_def cia_tick_keyboard_def cia_next_keycode_def cia_raise_def Let_def ac_simps)
  have "cia_id (tod_part t m w i d) = cia_id d" for d by (simp add: tod_part_def)
  then show ?thesis by (simp add: tick_one_split Let_def ta tb kb)
qed

lemma elapse_tod_part: "cia_elapse k n (tod_part t m w i c) = tod_part t m w i (cia_elapse k n c)"
proof -
  have "(cia_tick_one_eclock ^^ j) (tod_part t m w i c) = tod_part t m w i ((cia_tick_one_eclock ^^ j) c)" for j
    by (induction j) (simp_all add: step_one_tod_part)
  moreover have "cia_carry (tod_part t m w i c) = cia_carry c" by (simp add: tod_part_def)
  ultimately show ?thesis by (simp add: cia_elapse_def) (simp add: tod_part_def)
qed

lemma step_one_keeps_tod:
  "cia_tod (cia_tick_one_eclock c) = cia_tod c" "cia_tod_alarm (cia_tick_one_eclock c) = cia_tod_alarm c"
  "cia_tod_stopped (cia_tick_one_eclock c) = cia_tod_stopped c" "cia_tod_matching (cia_tick_one_eclock c) = cia_tod_matching c"
  "cia_pra_input (cia_tick_one_eclock c) = cia_pra_input c" "cia_icr_mask (cia_tick_one_eclock c) = cia_icr_mask c"
proof -
  have kb: "cia_tod (cia_tick_keyboard c) = cia_tod c" "cia_tod_alarm (cia_tick_keyboard c) = cia_tod_alarm c"
    "cia_tod_stopped (cia_tick_keyboard c) = cia_tod_stopped c" "cia_tod_matching (cia_tick_keyboard c) = cia_tod_matching c"
    "cia_pra_input (cia_tick_keyboard c) = cia_pra_input c" "cia_icr_mask (cia_tick_keyboard c) = cia_icr_mask c" for c
    by (simp_all add: cia_tick_keyboard_def cia_next_keycode_def cia_raise_def Let_def)
  have ta: "cia_tod (fst (cia_step_ta c)) = cia_tod c" "cia_tod_alarm (fst (cia_step_ta c)) = cia_tod_alarm c"
    "cia_tod_stopped (fst (cia_step_ta c)) = cia_tod_stopped c" "cia_tod_matching (fst (cia_step_ta c)) = cia_tod_matching c"
    "cia_pra_input (fst (cia_step_ta c)) = cia_pra_input c" "cia_icr_mask (fst (cia_step_ta c)) = cia_icr_mask c"
    by (simp_all add: cia_step_ta_def step_timer_def cia_raise_def Let_def)
  have tb: "cia_tod (cia_step_tb c u) = cia_tod c" "cia_tod_alarm (cia_step_tb c u) = cia_tod_alarm c"
    "cia_tod_stopped (cia_step_tb c u) = cia_tod_stopped c" "cia_tod_matching (cia_step_tb c u) = cia_tod_matching c"
    "cia_pra_input (cia_step_tb c u) = cia_pra_input c" "cia_icr_mask (cia_step_tb c u) = cia_icr_mask c" for c u
    by (simp_all add: cia_step_tb_def step_timer_def cia_raise_def Let_def)
  show "cia_tod (cia_tick_one_eclock c) = cia_tod c" "cia_tod_alarm (cia_tick_one_eclock c) = cia_tod_alarm c"
    "cia_tod_stopped (cia_tick_one_eclock c) = cia_tod_stopped c" "cia_tod_matching (cia_tick_one_eclock c) = cia_tod_matching c"
    "cia_pra_input (cia_tick_one_eclock c) = cia_pra_input c" "cia_icr_mask (cia_tick_one_eclock c) = cia_icr_mask c"
    by (simp_all add: tick_one_split Let_def kb ta tb)
qed

lemma elapse_keeps_tod:
  "cia_tod (cia_elapse k n c) = cia_tod c" "cia_tod_alarm (cia_elapse k n c) = cia_tod_alarm c"
  "cia_tod_stopped (cia_elapse k n c) = cia_tod_stopped c" "cia_tod_matching (cia_elapse k n c) = cia_tod_matching c"
  "cia_pra_input (cia_elapse k n c) = cia_pra_input c" "cia_icr_mask (cia_elapse k n c) = cia_icr_mask c"
proof -
  have "cia_tod ((cia_tick_one_eclock ^^ j) c) = cia_tod c \<and> cia_tod_alarm ((cia_tick_one_eclock ^^ j) c) = cia_tod_alarm c
    \<and> cia_tod_stopped ((cia_tick_one_eclock ^^ j) c) = cia_tod_stopped c \<and> cia_tod_matching ((cia_tick_one_eclock ^^ j) c) = cia_tod_matching c
    \<and> cia_pra_input ((cia_tick_one_eclock ^^ j) c) = cia_pra_input c \<and> cia_icr_mask ((cia_tick_one_eclock ^^ j) c) = cia_icr_mask c" for j
    by (induction j) (simp_all add: step_one_keeps_tod)
  then show "cia_tod (cia_elapse k n c) = cia_tod c" "cia_tod_alarm (cia_elapse k n c) = cia_tod_alarm c"
    "cia_tod_stopped (cia_elapse k n c) = cia_tod_stopped c" "cia_tod_matching (cia_elapse k n c) = cia_tod_matching c"
    "cia_pra_input (cia_elapse k n c) = cia_pra_input c" "cia_icr_mask (cia_elapse k n c) = cia_icr_mask c"
    by (simp_all add: cia_elapse_def)
qed

lemma tod_tick_part:
  "cia_tod_tick c = (if cia_tod_stopped c then c else
     tod_part ((cia_tod c + 1) AND 0x00FFFFFF) ((cia_tod c + 1) AND 0x00FFFFFF = cia_tod_alarm c)
       (if (cia_tod c + 1) AND 0x00FFFFFF = cia_tod_alarm c \<and> \<not> cia_tod_matching c then push_bit ICR_ALRM 1 else 0)
       (cia_pra_input c) c)"
  by (auto simp: cia_tod_tick_def cia_check_tod_alarm_def tod_part_def cia_raise_def Let_def)

text \<open>The time-of-day counter and the E-clock are independent: a line or frame tick can come before or after the E-clocks.\<close>

lemma elapse_tod_tick: "cia_elapse k n ((cia_tod_tick ^^ j) c) = (cia_tod_tick ^^ j) (cia_elapse k n c)"
proof (induction j)
  case (Suc j)
  have "cia_elapse k n (cia_tod_tick d) = cia_tod_tick (cia_elapse k n d)" for d
    by (cases "cia_tod_stopped d") (simp_all add: tod_tick_part elapse_keeps_tod elapse_tod_part)
  with Suc show ?case by simp
qed simp

lemma tod_tick_keeps: "cia_carry (cia_tod_tick c) = cia_carry c" "cia_icr_mask (cia_tod_tick c) = cia_icr_mask c"
  "event_times (cia_tod_tick c) = event_times c" "cia_ok k (cia_tod_tick c) = cia_ok k c"
  by (simp_all add: tod_tick_part tod_part_def event_times_def kbd_times_def ta_runs_def tb_runs_def crb_inmode_def cia_ok_def kbd_ok_def)

lemma tod_ticks_keep: "cia_carry ((cia_tod_tick ^^ j) c) = cia_carry c" "cia_ok k ((cia_tod_tick ^^ j) c) = cia_ok k c"
  by (induction j) (simp_all add: tod_tick_keeps)

lemma calm_irq: "cia_calm d c \<Longrightarrow> p < d \<Longrightarrow> cia_irq_pending (cia_elapse 20 p c) = cia_irq_pending c"
  by (simp add: cia_irq_pending_def cia_calm_quiet elapse_keeps_tod)

section \<open>A waiting frame clock\<close>

definition chip_calm :: "nat \<Rightarrow> chipset \<Rightarrow> bool" where
  "chip_calm d c \<longleftrightarrow> d + unat (carry c) \<le> (227 - unat (total_colour_clocks c) mod 227) * 4"

lemma chip_calm_lines:
  assumes "chip_calm d c" and "p < d"
  shows "chip_lines 4 p c = 0" "chip_frames 4 p c = 0"
proof -
  have "colour_clocks_in 4 c p < 227 - unat (total_colour_clocks c) mod 227"
    using assms by (intro less_mult_imp_div_less) (simp add: chip_calm_def)
  then have "(unat (total_colour_clocks c) + colour_clocks_in 4 c p) div 227 = unat (total_colour_clocks c) div 227"
    by (simp only: same_line)
  then show "chip_lines 4 p c = 0" "chip_frames 4 p c = 0"
    by (simp_all add: chip_lines_def chip_frames_def frame_no_def line_no_def)
qed

lemma chip_calm_deadline:
  assumes "chip_ok 4 c" shows "chip_calm (unat (clocks_until_line_boundary c 4)) c"
  using deadline_value [of 4 c] assms by (simp add: chip_calm_def)

lemma chip_calm_bound: "chip_calm d c \<Longrightarrow> d \<le> 908"
proof -
  assume "chip_calm d c"
  moreover have "(227 - unat (total_colour_clocks c) mod 227) * 4 \<le> 227 * 4" by (rule mult_le_mono1) simp
  ultimately show ?thesis by (simp add: chip_calm_def)
qed

definition chip_wait :: "nat \<Rightarrow> chipset \<Rightarrow> chipset" where
  "chip_wait n c = c\<lparr>carry := of_nat ((unat (carry c) + n) mod 4),
     total_colour_clocks := of_nat (unat (total_colour_clocks c) + colour_clocks_in 4 c n)\<rparr>"

lemma chip_wait_elapse: "chip_frames 4 p c = 0 \<Longrightarrow> chip_elapse 4 p c = chip_wait p c"
  by (simp add: chip_elapse_def chip_wait_def)

section \<open>Clock fields and the rest\<close>

text \<open>
  The fields that only time moves: the frame clock inside the chipset, the CIAs and the bus's own bookkeeping. Most
  operations of the bus neither read nor write them, so they commute with replacing them.
\<close>

type_synonym clock_fields = "u32 \<times> u64 \<times> u32 \<times> cia \<times> cia \<times> u32 \<times> u32"

definition reclock :: "u32 \<Rightarrow> u64 \<Rightarrow> u32 \<Rightarrow> chipset \<Rightarrow> chipset" where
  "reclock x t k c = c\<lparr>carry := x, total_colour_clocks := t, coarse_tick_streak := k\<rparr>"

fun retime :: "clock_fields \<Rightarrow> ('d, 'p, 'b) bus \<Rightarrow> ('d, 'p, 'b) bus" where
  "retime (x, t, k, A, B, q, d) s =
     s\<lparr>bus_chipset := reclock x t k (bus_chipset s), bus_cia_a := A, bus_cia_b := B,
       bus_pending_clocks := q, bus_next_event_clocks := d\<rparr>"

fun clocks_of :: "('d, 'p, 'b) bus \<Rightarrow> clock_fields" where
  "clocks_of s = (carry (bus_chipset s), total_colour_clocks (bus_chipset s), coarse_tick_streak (bus_chipset s),
     bus_cia_a s, bus_cia_b s, bus_pending_clocks s, bus_next_event_clocks s)"

lemma reclock_simps [simp]:
  "chip_raise_int (reclock x t k c) n = reclock x t k (chip_raise_int c n)"
  "intreq (reclock x t k c) = intreq c" "intena (reclock x t k c) = intena c" "frames (reclock x t k c) = frames c"
  "carry (reclock x t k c) = x" "total_colour_clocks (reclock x t k c) = t" "coarse_tick_streak (reclock x t k c) = k"
  "lines_per_frame (reclock x t k c) = lines_per_frame c"
  "reclock x t k (reclock x' t' k' c) = reclock x t k c"
  "chip_pending_level (reclock x t k c) = chip_pending_level c"
  by (simp_all add: reclock_def chip_raise_int_def chip_pending_level_def)

lemma reclock_self [simp]: "reclock (carry c) (total_colour_clocks c) (coarse_tick_streak c) c = c"
  by (simp add: reclock_def)

lemma retime_fields [simp]:
  "bus_ram (retime z s) = bus_ram s" "bus_rom (retime z s) = bus_rom s" "bus_ext_rom (retime z s) = bus_ext_rom s"
  "bus_blitter (retime z s) = bus_blitter s" "bus_floppy (retime z s) = bus_floppy s"
  "bus_autoconfig (retime z s) = bus_autoconfig s" "bus_graphics (retime z s) = bus_graphics s"
  "bus_graphics_boards (retime z s) = bus_graphics_boards s" "bus_mirage (retime z s) = bus_mirage s"
  "bus_mirage_board (retime z s) = bus_mirage_board s" "bus_hostblk (retime z s) = bus_hostblk s"
  "bus_hostblk_board (retime z s) = bus_hostblk_board s" "bus_input (retime z s) = bus_input s"
  "bus_input_board (retime z s) = bus_input_board s" "bus_pktport (retime z s) = bus_pktport s"
  "bus_pktport_board (retime z s) = bus_pktport_board s" "bus_rtg (retime z s) = bus_rtg s"
  "bus_rtg_board (retime z s) = bus_rtg_board s" "bus_pcibridge (retime z s) = bus_pcibridge s"
  "bus_pcibridge_board (retime z s) = bus_pcibridge_board s" "bus_pcibridge_window (retime z s) = bus_pcibridge_window s"
  "bus_overlay (retime z s) = bus_overlay s" "bus_boundary_request (retime z s) = bus_boundary_request s"
  "chip_pending_level (bus_chipset (retime z s)) = chip_pending_level (bus_chipset s)"
  "intreq (bus_chipset (retime z s)) = intreq (bus_chipset s)" "frames (bus_chipset (retime z s)) = frames (bus_chipset s)"
  "retime z (retime z' s) = retime z s"
  by (cases z; cases z'; simp)+

lemma retime_updates [simp]:
  "(retime z s)\<lparr>bus_ram := a1\<rparr> = retime z (s\<lparr>bus_ram := a1\<rparr>)"
  "(retime z s)\<lparr>bus_blitter := a2\<rparr> = retime z (s\<lparr>bus_blitter := a2\<rparr>)"
  "(retime z s)\<lparr>bus_autoconfig := a3\<rparr> = retime z (s\<lparr>bus_autoconfig := a3\<rparr>)"
  "(retime z s)\<lparr>bus_graphics := a4\<rparr> = retime z (s\<lparr>bus_graphics := a4\<rparr>)"
  "(retime z s)\<lparr>bus_mirage := a5\<rparr> = retime z (s\<lparr>bus_mirage := a5\<rparr>)"
  "(retime z s)\<lparr>bus_hostblk := a6\<rparr> = retime z (s\<lparr>bus_hostblk := a6\<rparr>)"
  "(retime z s)\<lparr>bus_input := a7\<rparr> = retime z (s\<lparr>bus_input := a7\<rparr>)"
  "(retime z s)\<lparr>bus_pktport := a8\<rparr> = retime z (s\<lparr>bus_pktport := a8\<rparr>)"
  "(retime z s)\<lparr>bus_rtg := a9\<rparr> = retime z (s\<lparr>bus_rtg := a9\<rparr>)"
  "(retime z s)\<lparr>bus_pcibridge := a10\<rparr> = retime z (s\<lparr>bus_pcibridge := a10\<rparr>)"
  "(retime z s)\<lparr>bus_pcibridge_window := a11\<rparr> = retime z (s\<lparr>bus_pcibridge_window := a11\<rparr>)"
  "(retime z s)\<lparr>bus_boundary_request := a12\<rparr> = retime z (s\<lparr>bus_boundary_request := a12\<rparr>)"
  by (cases z; simp)+

lemma retime_raise [simp]: "raise_if P n (retime z s) = retime z (raise_if P n s)"
  by (cases z) (simp add: raise_if_def)

lemma raise_keeps [simp]:
  "clocks_of (raise_if P n s) = clocks_of s"
  "bus_ram (raise_if P n s) = bus_ram s" "bus_graphics (raise_if P n s) = bus_graphics s"
  "bus_cia_a (raise_if P n s) = bus_cia_a s" "bus_cia_b (raise_if P n s) = bus_cia_b s"
  by (simp_all add: raise_if_def chip_raise_int_def)

lemma retime_self [simp]: "retime (clocks_of s) s = s"
  by simp

lemma retime_engines [simp]:
  "tick_graphics j (retime z s) = retime z (tick_graphics j s)"
  "tick_mirage env (retime z s) = retime z (tick_mirage env s)"
  "tick_hostblk env (retime z s) = retime z (tick_hostblk env s)"
  "tick_pktport env (retime z s) = retime z (tick_pktport env s)"
  "tick_pcibridge env (retime z s) = retime z (tick_pcibridge env s)"
  by (simp_all add: tick_graphics_def tick_mirage_def tick_hostblk_def tick_pktport_def tick_pcibridge_def Let_def case_prod_beta
      split: option.split)

lemma retime_tick_engines [simp]: "tick_engines env (retime z s) = retime z (tick_engines env s)"
  by (simp add: tick_engines_def)

lemma engines_keep_clocks [simp]:
  "clocks_of (tick_graphics j s) = clocks_of s" "clocks_of (tick_mirage env s) = clocks_of s"
  "clocks_of (tick_hostblk env s) = clocks_of s" "clocks_of (tick_pktport env s) = clocks_of s"
  "clocks_of (tick_pcibridge env s) = clocks_of s" "clocks_of (tick_engines env s) = clocks_of s"
proof -
  show g: "clocks_of (tick_graphics j s) = clocks_of s" "clocks_of (tick_mirage env s) = clocks_of s"
    "clocks_of (tick_hostblk env s) = clocks_of s" "clocks_of (tick_pktport env s) = clocks_of s"
    "clocks_of (tick_pcibridge env s) = clocks_of s" for s
    by (auto simp: tick_graphics_def tick_mirage_def tick_hostblk_def tick_pktport_def tick_pcibridge_def Let_def case_prod_beta
        raise_if_def chip_raise_int_def split: option.split)
  show "clocks_of (tick_engines env s) = clocks_of s"
    by (simp only: tick_engines_def g)
qed

section \<open>Applying clocks, with naturals\<close>

text \<open>
  \<open>exact env n s\<close> is \<open>tick_exact\<close> with the counts as natural numbers and without the streak detector; \<open>waited p s\<close> moves only
  the clocks; \<open>restamp\<close> sets the bookkeeping no guest access can see.
\<close>

definition restamp :: "u32 \<Rightarrow> u32 \<Rightarrow> u32 \<Rightarrow> ('d, 'p, 'b) bus \<Rightarrow> ('d, 'p, 'b) bus" where
  "restamp k q d s = s\<lparr>bus_chipset := (bus_chipset s)\<lparr>coarse_tick_streak := k\<rparr>, bus_pending_clocks := q, bus_next_event_clocks := d\<rparr>"

definition waited :: "nat \<Rightarrow> ('d, 'p, 'b) bus \<Rightarrow> ('d, 'p, 'b) bus" where
  "waited p s = s\<lparr>bus_chipset := chip_wait p (bus_chipset s), bus_cia_a := cia_elapse 20 p (bus_cia_a s),
     bus_cia_b := cia_elapse 20 p (bus_cia_b s)\<rparr>"

definition set_cias :: "cia \<Rightarrow> cia \<Rightarrow> ('d, 'p, 'b) bus \<Rightarrow> ('d, 'p, 'b) bus" where
  "set_cias A B s = raise_if (cia_irq_pending B) INTBIT_EXTER
     (raise_if (cia_irq_pending A) INTBIT_PORTS (s\<lparr>bus_cia_a := A, bus_cia_b := B\<rparr>))"

definition exact :: "('d, 'p, 'b) bus_env \<Rightarrow> nat \<Rightarrow> ('d, 'p, 'b) bus \<Rightarrow> ('d, 'p, 'b) bus" where
  "exact env n s =
     (let c = bus_chipset s; fr = chip_frames 4 n c; ln = chip_lines 4 n c;
          s1 = tick_graphics fr (s\<lparr>bus_chipset := chip_elapse 4 n c\<rparr>);
          s2 = (if ln > 0 then tick_engines env s1 else s1)
      in set_cias (cia_elapse 20 n ((cia_tod_tick ^^ fr) (bus_cia_a s))) (cia_elapse 20 n ((cia_tod_tick ^^ ln) (bus_cia_b s))) s2)"

lemma restamp_retime: "restamp k q d s = retime (carry (bus_chipset s), total_colour_clocks (bus_chipset s), k,
    bus_cia_a s, bus_cia_b s, q, d) s"
  by (simp add: restamp_def reclock_def)

lemma restamp_simps [simp]:
  "restamp k q d (restamp k' q' d' s) = restamp k q d s"
  "bus_pending_clocks (restamp k q d s) = q" "bus_next_event_clocks (restamp k q d s) = d"
  "bus_cia_a (restamp k q d s) = bus_cia_a s" "bus_cia_b (restamp k q d s) = bus_cia_b s"
  "bus_chipset (restamp k q d s) = (bus_chipset s)\<lparr>coarse_tick_streak := k\<rparr>"
  "bus_graphics (restamp k q d s) = bus_graphics s"
  by (simp_all add: restamp_def)

lemma set_cias_retime:
  "set_cias A B (retime (x, t, k, A', B', q, d) s) = retime (x, t, k, A, B, q, d) (set_cias A B s)"
proof -
  have "(retime (x, t, k, A', B', q, d) s)\<lparr>bus_cia_a := A, bus_cia_b := B\<rparr>
      = retime (x, t, k, A, B, q, d) (s\<lparr>bus_cia_a := A, bus_cia_b := B\<rparr>)" by simp
  then show ?thesis by (simp only: set_cias_def retime_raise)
qed

lemma set_cias_clocks:
  "clocks_of s = (x, t, k, A', B', q, d) \<Longrightarrow> clocks_of (set_cias A B s) = (x, t, k, A, B, q, d)"
  by (simp add: set_cias_def raise_if_def chip_raise_int_def)

lemma clocks_cias:
  assumes "clocks_of s = (x, t, k, A, B, q, d)"
  shows "bus_cia_a s = A" "bus_cia_b s = B" "carry (bus_chipset s) = x" "total_colour_clocks (bus_chipset s) = t"
    "coarse_tick_streak (bus_chipset s) = k" "bus_pending_clocks s = q" "bus_next_event_clocks s = d"
  using assms by simp_all

text \<open>The engines between the frame clock and the CIAs see neither, so replacing the clock fields before is replacing them after.\<close>

definition middle :: "('d, 'p, 'b) bus_env \<Rightarrow> nat \<Rightarrow> nat \<Rightarrow> ('d, 'p, 'b) bus \<Rightarrow> ('d, 'p, 'b) bus" where
  "middle env fr ln s = (let s1 = tick_graphics fr s in if ln > 0 then tick_engines env s1 else s1)"

lemma middle_retime [simp]: "middle env fr ln (retime z s) = retime z (middle env fr ln s)"
  by (simp add: middle_def Let_def)

lemma middle_clocks [simp]: "clocks_of (middle env fr ln s) = clocks_of s"
  by (simp add: middle_def Let_def del: clocks_of.simps)

lemma exact_middle:
  "exact env n s = set_cias (cia_elapse 20 n ((cia_tod_tick ^^ chip_frames 4 n (bus_chipset s)) (bus_cia_a s)))
     (cia_elapse 20 n ((cia_tod_tick ^^ chip_lines 4 n (bus_chipset s)) (bus_cia_b s)))
     (middle env (chip_frames 4 n (bus_chipset s)) (chip_lines 4 n (bus_chipset s)) (s\<lparr>bus_chipset := chip_elapse 4 n (bus_chipset s)\<rparr>))"
  by (simp add: exact_def middle_def Let_def)

lemma set_cias_middle_retime:
  assumes "clocks_of u = (x, t, k, a, b, q, d)"
  shows "set_cias A B (middle env fr ln (retime (x, t, k', a', b', q', d') u))
    = restamp k' q' d' (set_cias A B (middle env fr ln u))"
proof -
  have "clocks_of (middle env fr ln u) = (x, t, k, a, b, q, d)" using assms by (simp del: clocks_of.simps)
  from set_cias_clocks [OF this, of A B] have "clocks_of (set_cias A B (middle env fr ln u)) = (x, t, k, A, B, q, d)" .
  then show ?thesis
    unfolding middle_retime set_cias_retime restamp_retime by (simp del: retime.simps)
qed

lemma exact_restamp: "exact env n (restamp k q d s) = restamp k q d (exact env n s)"
proof -
  let ?u = "s\<lparr>bus_chipset := chip_elapse 4 n (bus_chipset s)\<rparr>"
  have u: "(restamp k q d s)\<lparr>bus_chipset := chip_elapse 4 n (bus_chipset (restamp k q d s))\<rparr>
      = retime (carry (bus_chipset ?u), total_colour_clocks (bus_chipset ?u), k, bus_cia_a ?u, bus_cia_b ?u, q, d) ?u"
    by (simp add: restamp_def reclock_def)
  have "set_cias A B (middle env fr ln ((restamp k q d s)\<lparr>bus_chipset := chip_elapse 4 n (bus_chipset (restamp k q d s))\<rparr>))
      = restamp k q d (set_cias A B (middle env fr ln ?u))" for A B fr ln
    unfolding u by (rule set_cias_middle_retime) simp
  then show ?thesis by (simp only: exact_middle restamp_simps streak_irrelevant)
qed

text \<open>Clocks that cross nothing can be absorbed into the clocks that follow.\<close>

lemma exact_absorb:
  assumes ok: "chip_ok 4 (bus_chipset s)" "cia_ok 20 (bus_cia_a s)" "cia_ok 20 (bus_cia_b s)"
    and calm: "chip_calm d (bus_chipset s)" "p < d"
    and room: "chip_room 4 (p + n) (bus_chipset s)" "cia_room (p + n) (bus_cia_a s)" "cia_room (p + n) (bus_cia_b s)"
  shows "exact env n (waited p s) = exact env (p + n) s"
proof -
  let ?c = "bus_chipset s"
  have w: "chip_elapse 4 p ?c = chip_wait p ?c" using chip_calm_lines(2) [OF calm] by (rule chip_wait_elapse)
  have chip: "chip_elapse 4 (p + n) ?c = chip_elapse 4 n (chip_wait p ?c)"
    using chip_elapse_add [OF ok(1) room(1)] by (simp add: w)
  have counts: "chip_lines 4 (p + n) ?c = chip_lines 4 n (chip_wait p ?c)" "chip_frames 4 (p + n) ?c = chip_frames 4 n (chip_wait p ?c)"
    using chip_counts_add [OF ok(1) room(1)] chip_calm_lines [OF calm] by (simp_all add: w)
  have cia: "cia_elapse 20 (p + n) ((cia_tod_tick ^^ j) c) = cia_elapse 20 n ((cia_tod_tick ^^ j) (cia_elapse 20 p c))"
    if "cia_ok 20 c" "cia_room (p + n) c" for c j
  proof -
    have "cia_elapse 20 (p + n) ((cia_tod_tick ^^ j) c) = (cia_tod_tick ^^ j) (cia_elapse 20 n (cia_elapse 20 p c))"
      using cia_clock.adv_add [OF that] by (simp add: elapse_tod_tick)
    then show ?thesis by (simp add: elapse_tod_tick)
  qed
  let ?u = "s\<lparr>bus_chipset := chip_elapse 4 (p + n) ?c\<rparr>"
  have "(waited p s)\<lparr>bus_chipset := chip_elapse 4 n (chip_wait p ?c)\<rparr>
      = retime (carry (bus_chipset ?u), total_colour_clocks (bus_chipset ?u), coarse_tick_streak (bus_chipset ?u),
          cia_elapse 20 p (bus_cia_a s), cia_elapse 20 p (bus_cia_b s), bus_pending_clocks s, bus_next_event_clocks s) ?u"
    by (simp add: waited_def chip)
  moreover have "set_cias A B (middle env fr ln (retime (carry (bus_chipset ?u), total_colour_clocks (bus_chipset ?u),
        coarse_tick_streak (bus_chipset ?u), a', b', bus_pending_clocks s, bus_next_event_clocks s) ?u))
      = set_cias A B (middle env fr ln ?u)" for A B a' b' fr ln
  proof -
    let ?v = "set_cias A B (middle env fr ln ?u)"
    have m: "clocks_of (middle env fr ln ?u) = (carry (bus_chipset ?u), total_colour_clocks (bus_chipset ?u),
        coarse_tick_streak (bus_chipset ?u), bus_cia_a s, bus_cia_b s, bus_pending_clocks s, bus_next_event_clocks s)"
      unfolding middle_clocks by simp
    show ?thesis unfolding middle_retime set_cias_retime using retime_self [of ?v] unfolding set_cias_clocks [OF m] .
  qed
  ultimately show ?thesis
    unfolding exact_middle [of env n "waited p s"] exact_middle [of env "p + n" s]
    by (simp add: waited_def counts cia [OF ok(2) room(2)] cia [OF ok(3) room(3)])
qed

section \<open>The invariant of the lazy bus\<close>

text \<open>Every level-triggered source that asserts has its bit set in INTREQ.\<close>

definition asserted :: "('d, 'p, 'b) bus \<Rightarrow> bool" where
  "asserted s \<longleftrightarrow> (cia_irq_pending (bus_cia_a s) \<longrightarrow> bit (intreq (bus_chipset s)) INTBIT_PORTS)
     \<and> (cia_irq_pending (bus_cia_b s) \<longrightarrow> bit (intreq (bus_chipset s)) INTBIT_EXTER)
     \<and> (case bus_graphics s of None \<Rightarrow> True | Some g \<Rightarrow> gf_irq_pending g \<longrightarrow> bit (intreq (bus_chipset s)) INTBIT_PORTS)"

text \<open>
  \<open>bus_inv b\<close>: the clocked parts are well formed, the pending clocks are below the recorded deadline, nothing happens before
  that deadline, level sources are asserted, and \<open>b\<close> more clocks fit the 64-bit frame clock.
\<close>

definition clocked_ok :: "nat \<Rightarrow> ('d, 'p, 'b) bus \<Rightarrow> bool" where
  "clocked_ok b s \<longleftrightarrow> chip_ok 4 (bus_chipset s) \<and> cia_ok 20 (bus_cia_a s) \<and> cia_ok 20 (bus_cia_b s)
     \<and> unat (total_colour_clocks (bus_chipset s)) + b < 2 ^ 63"

definition calm :: "nat \<Rightarrow> ('d, 'p, 'b) bus \<Rightarrow> bool" where
  "calm d s \<longleftrightarrow> chip_calm d (bus_chipset s) \<and> cia_calm d (bus_cia_a s) \<and> cia_calm d (bus_cia_b s)"

definition bus_inv :: "nat \<Rightarrow> ('d, 'p, 'b) bus \<Rightarrow> bool" where
  "bus_inv b s \<longleftrightarrow> clocked_ok (unat (bus_pending_clocks s) + b) s \<and> asserted s
     \<and> unat (bus_pending_clocks s) < unat (bus_next_event_clocks s) \<and> calm (unat (bus_next_event_clocks s)) s"

lemma raise_asserted: "(P \<Longrightarrow> bit (intreq (bus_chipset s)) n) \<Longrightarrow> n < 16 \<Longrightarrow> raise_if P n s = s"
proof -
  assume h: "P \<Longrightarrow> bit (intreq (bus_chipset s)) n" and "n < 16"
  have "P \<Longrightarrow> intreq (bus_chipset s) OR push_bit n 1 = intreq (bus_chipset s)"
    using h by (auto intro!: bit_word_eqI simp: bit_simps)
  then show ?thesis by (simp add: raise_if_def chip_raise_int_def)
qed

lemma exact_quiet:
  assumes "asserted s" and "calm d s" and "p < d"
  shows "exact env p s = waited p s"
proof -
  have c: "chip_calm d (bus_chipset s)" "cia_calm d (bus_cia_a s)" "cia_calm d (bus_cia_b s)" using assms(2) by (simp_all add: calm_def)
  note z = chip_calm_lines [OF c(1) assms(3)]
  let ?w = "s\<lparr>bus_chipset := chip_wait p (bus_chipset s)\<rparr>"
  have ir: "intreq (bus_chipset ?w) = intreq (bus_chipset s)" by (simp add: chip_wait_def)
  have "tick_graphics 0 ?w = ?w"
  proof (cases "bus_graphics s")
    case (Some g)
    have "raise_if (gf_irq_pending g) INTBIT_PORTS ?w = ?w"
      by (rule raise_asserted) (use assms(1) Some ir in \<open>simp_all add: asserted_def\<close>)
    moreover have g: "bus_graphics ?w = Some g" "?w\<lparr>bus_graphics := Some g\<rparr> = ?w" using Some by simp_all
    ultimately show ?thesis unfolding tick_graphics_def g(1) by (simp only: Let_def option.case funpow_0 g(2))
  qed (simp add: tick_graphics_def)
  then have "exact env p s = set_cias (cia_elapse 20 p (bus_cia_a s)) (cia_elapse 20 p (bus_cia_b s)) ?w"
    by (simp add: exact_def z chip_wait_elapse Let_def)
  also have "\<dots> = waited p s"
    using assms(1) ir
    by (simp add: set_cias_def raise_asserted asserted_def calm_irq [OF c(2) assms(3)] calm_irq [OF c(3) assms(3)] waited_def)
  finally show ?thesis .
qed

lemma room_of_budget:
  assumes "clocked_ok n s" and "n < 2 ^ 32 - 20"
  shows "chip_room 4 n (bus_chipset s)" "cia_room n (bus_cia_a s)" "cia_room n (bus_cia_b s)"
proof -
  have "colour_clocks_in 4 (bus_chipset s) n \<le> n + 4"
  proof -
    have "unat (carry (bus_chipset s)) < 4" using assms(1) by (simp add: clocked_ok_def chip_ok_def)
    then show ?thesis using div_le_dividend [of "unat (carry (bus_chipset s)) + n" 4] by linarith
  qed
  then show "chip_room 4 n (bus_chipset s)" "cia_room n (bus_cia_a s)" "cia_room n (bus_cia_b s)"
    using assms by (auto simp: clocked_ok_def chip_room_def cia_room_def cia_ok_def)
qed

lemma tick_exact_eq:
  assumes "clocked_ok (unat n) s" and "unat n < 2 ^ 32 - 20"
  shows "\<exists>k. tick_exact env n s = restamp k (bus_pending_clocks s) (bus_next_event_clocks s) (exact env (unat n) s)"
proof -
  let ?c = "bus_chipset s"
  note room = room_of_budget [OF assms]
  have ok: "chip_ok 4 ?c" using assms(1) by (simp add: clocked_ok_def)
  have four: "unat (4 :: u32) = 4" by simp
  from chip_tick_elapse [OF ok room(1) four refl] obtain k where
    k: "chip_tick ?c n 4 = ((chip_elapse 4 (unat n) ?c)\<lparr>coarse_tick_streak := k\<rparr>,
      \<lparr>lines_started = of_nat (chip_lines 4 (unat n) ?c), frames_wrapped = of_nat (chip_frames 4 (unat n) ?c)\<rparr>)" by blast
  have counts: "unat (of_nat (chip_lines 4 (unat n) ?c) :: u32) = chip_lines 4 (unat n) ?c"
    "unat (of_nat (chip_frames 4 (unat n) ?c) :: u32) = chip_frames 4 (unat n) ?c"
    "(0 :: u32) < of_nat (chip_lines 4 (unat n) ?c) \<longleftrightarrow> 0 < chip_lines 4 (unat n) ?c"
    using chip_lines_bound [OF ok room(1)] by (simp_all add: unat_of_nat_less u32_of_nat_pos)
  let ?A = "(cia_tod_tick ^^ chip_frames 4 (unat n) ?c) (bus_cia_a s)" and ?B = "(cia_tod_tick ^^ chip_lines 4 (unat n) ?c) (bus_cia_b s)"
  let ?u = "s\<lparr>bus_chipset := chip_elapse 4 (unat n) ?c\<rparr>"
  have u: "s\<lparr>bus_chipset := (chip_elapse 4 (unat n) ?c)\<lparr>coarse_tick_streak := k\<rparr>, bus_cia_a := ?A, bus_cia_b := ?B\<rparr>
      = retime (carry (bus_chipset ?u), total_colour_clocks (bus_chipset ?u), k, ?A, ?B, bus_pending_clocks s, bus_next_event_clocks s) ?u"
    by (simp add: reclock_def)
  have tick: "tick_cias n v = set_cias (cia_elapse 20 (unat n) (bus_cia_a v)) (cia_elapse 20 (unat n) (bus_cia_b v)) v"
    if "cia_room (unat n) (bus_cia_a v)" "cia_room (unat n) (bus_cia_b v)" for v :: "('a, 'b, 'c) bus"
    using that by (simp add: tick_cias_def set_cias_def cia_tick_elapse raise_if_def)
  have mid: "clocks_of (middle env fr ln (retime z ?u)) = z" for fr ln z
    unfolding middle_clocks by (cases z) (simp add: reclock_def)
  have "tick_exact env n s = tick_cias n (middle env (chip_frames 4 (unat n) ?c) (chip_lines 4 (unat n) ?c)
      (retime (carry (bus_chipset ?u), total_colour_clocks (bus_chipset ?u), k, ?A, ?B, bus_pending_clocks s, bus_next_event_clocks s) ?u))"
    unfolding u [symmetric] by (simp add: tick_exact_def k counts middle_def Let_def)
  also have "\<dots> = restamp k (bus_pending_clocks s) (bus_next_event_clocks s) (exact env (unat n) s)" (is "tick_cias n ?m = _")
  proof -
    have m: "bus_cia_a ?m = ?A" "bus_cia_b ?m = ?B" by (rule clocks_cias [OF mid])+
    have "tick_cias n ?m = set_cias (cia_elapse 20 (unat n) ?A) (cia_elapse 20 (unat n) ?B) ?m"
      using tick [of ?m] room unfolding m by (simp only: cia_room_def tod_ticks_keep)
    also have "\<dots> = restamp k (bus_pending_clocks s) (bus_next_event_clocks s) (exact env (unat n) s)"
      unfolding exact_middle by (rule set_cias_middle_retime) simp
    finally show ?thesis .
  qed
  finally show ?thesis by blast
qed


section \<open>Time keeps the invariant\<close>

lemma raise_intreq: "bit (intreq (bus_chipset (raise_if P n s))) m \<longleftrightarrow> bit (intreq (bus_chipset s)) m \<or> (P \<and> m = n \<and> n < 16)"
  by (auto simp: raise_if_def chip_raise_int_def bit_simps)

lemma raise_shape: "chip_ok k (bus_chipset (raise_if P n s)) = chip_ok k (bus_chipset s)"
  by (simp add: raise_if_def chip_raise_int_def chip_ok_def)

text \<open>What the engines leave of the parts the invariant is about: chipset well-formedness, asserted bits, the graphics line.\<close>

definition steady :: "('d, 'p, 'b) bus \<Rightarrow> ('d, 'p, 'b) bus \<Rightarrow> bool" where
  "steady s s' \<longleftrightarrow> clocks_of s' = clocks_of s \<and> (\<forall>k. chip_ok k (bus_chipset s') = chip_ok k (bus_chipset s))
     \<and> (\<forall>n. bit (intreq (bus_chipset s)) n \<longrightarrow> bit (intreq (bus_chipset s')) n)
     \<and> (case bus_graphics s' of None \<Rightarrow> True | Some g' \<Rightarrow> gf_irq_pending g' \<longrightarrow>
          bit (intreq (bus_chipset s')) INTBIT_PORTS \<or> (\<exists>g. bus_graphics s = Some g \<and> gf_irq_pending g))"

lemma steady_refl [simp]: "steady s s"
  by (auto simp: steady_def split: option.split)

lemma steady_trans: "steady s t \<Longrightarrow> steady t u \<Longrightarrow> steady s u"
  by (auto simp: steady_def split: option.splits)

lemma steady_raise: "steady s t \<Longrightarrow> steady s (raise_if P n t)"
  unfolding steady_def
  by (auto simp: raise_intreq raise_shape simp del: clocks_of.simps split: option.splits)

lemma steady_updates:
  "steady s (s\<lparr>bus_ram := a1\<rparr>)" "steady s (s\<lparr>bus_blitter := a2\<rparr>)" "steady s (s\<lparr>bus_autoconfig := a3\<rparr>)"
  "steady s (s\<lparr>bus_mirage := a5\<rparr>)" "steady s (s\<lparr>bus_hostblk := a6\<rparr>)" "steady s (s\<lparr>bus_ram := a1, bus_hostblk := a6\<rparr>)"
  "steady s (s\<lparr>bus_input := a7\<rparr>)" "steady s (s\<lparr>bus_pktport := a8\<rparr>)" "steady s (s\<lparr>bus_ram := a1, bus_pktport := a8\<rparr>)"
  "steady s (s\<lparr>bus_rtg := a9\<rparr>)" "steady s (s\<lparr>bus_pcibridge := a10\<rparr>)" "steady s (s\<lparr>bus_ram := a1, bus_pcibridge := a10\<rparr>)"
  "steady s (s\<lparr>bus_ram := a1, bus_pcibridge_window := a11\<rparr>)" "steady s (s\<lparr>bus_boundary_request := a12\<rparr>)"
  by (auto simp: steady_def split: option.split)

lemma tick_graphics_steady: "steady s (tick_graphics j s)"
proof (cases "bus_graphics s")
  case (Some g)
  then show ?thesis
    by (auto simp: tick_graphics_def steady_def Let_def raise_intreq raise_shape simp del: clocks_of.simps) simp
qed (simp add: tick_graphics_def)

lemma tick_engines_steady: "steady s (tick_engines env s)"
proof -
  have "steady s (tick_mirage env s)" "steady s (tick_hostblk env s)" "steady s (tick_pktport env s)" "steady s (tick_pcibridge env s)"
    for s :: "('a, 'b, 'c) bus"
    by (auto simp: tick_mirage_def tick_hostblk_def tick_pktport_def tick_pcibridge_def Let_def case_prod_beta
        intro!: steady_raise steady_updates split: option.split)
  then show ?thesis unfolding tick_engines_def by (meson steady_trans)
qed

lemma middle_steady: "steady s (middle env fr ln s)"
  using steady_trans [OF tick_graphics_steady tick_engines_steady] tick_graphics_steady
  by (auto simp: middle_def Let_def)

lemma tick_graphics_asserts:
  "case bus_graphics (tick_graphics j s) of None \<Rightarrow> True | Some g \<Rightarrow> gf_irq_pending g \<longrightarrow> bit (intreq (bus_chipset (tick_graphics j s))) INTBIT_PORTS"
  by (auto simp: tick_graphics_def Let_def raise_intreq split: option.split)

lemma engines_keep_graphics: "bus_graphics (tick_engines env s) = bus_graphics s"
  by (simp add: tick_engines_def tick_mirage_def tick_hostblk_def tick_pktport_def tick_pcibridge_def Let_def case_prod_beta
      split: option.split)

lemma middle_asserts:
  "case bus_graphics (middle env fr ln s) of None \<Rightarrow> True | Some g \<Rightarrow> gf_irq_pending g \<longrightarrow> bit (intreq (bus_chipset (middle env fr ln s))) INTBIT_PORTS"
  using tick_graphics_asserts [of fr s] tick_engines_steady [of "tick_graphics fr s" env]
  by (auto simp: middle_def Let_def engines_keep_graphics steady_def split: option.splits)

lemma exact_asserted: "asserted (exact env n s)"
  using middle_asserts [of env "chip_frames 4 n (bus_chipset s)" "chip_lines 4 n (bus_chipset s)"
      "s\<lparr>bus_chipset := chip_elapse 4 n (bus_chipset s)\<rparr>"]
  by (auto simp: exact_middle set_cias_def asserted_def raise_intreq split: option.splits)

lemma elapsed_colour_clocks: "chip_ok 4 c \<Longrightarrow> colour_clocks_in 4 c n \<le> n"
proof -
  assume "chip_ok 4 c"
  then have c: "unat (carry c) < 4" by (simp add: chip_ok_def)
  then have "unat (carry c) + n < (n + 1) * 4" by simp
  then show ?thesis using less_mult_imp_div_less by fastforce
qed

lemma exact_clocked:
  assumes "clocked_ok (n + b) s" and "n < 2 ^ 32 - 20"
  shows "clocked_ok b (exact env n s)"
proof -
  let ?c = "bus_chipset s" and ?A = "cia_elapse 20 n ((cia_tod_tick ^^ chip_frames 4 n (bus_chipset s)) (bus_cia_a s))"
    and ?B = "cia_elapse 20 n ((cia_tod_tick ^^ chip_lines 4 n (bus_chipset s)) (bus_cia_b s))"
  let ?u = "s\<lparr>bus_chipset := chip_elapse 4 n ?c\<rparr>"
  let ?m = "middle env (chip_frames 4 n ?c) (chip_lines 4 n ?c) ?u"
  have n: "clocked_ok n s" using assms(1) by (simp add: clocked_ok_def)
  have ok: "chip_ok 4 ?c" "cia_ok 20 (bus_cia_a s)" "cia_ok 20 (bus_cia_b s)" using n by (simp_all add: clocked_ok_def)
  note room = room_of_budget [OF n assms(2)]
  have "clocks_of (exact env n s) = (carry (chip_elapse 4 n ?c), total_colour_clocks (chip_elapse 4 n ?c),
      coarse_tick_streak (chip_elapse 4 n ?c), ?A, ?B, bus_pending_clocks s, bus_next_event_clocks s)"
    unfolding exact_middle by (rule set_cias_clocks) (simp only: middle_clocks, simp)
  note f = clocks_cias [OF this]
  have "chip_ok 4 (bus_chipset ?m) = chip_ok 4 (bus_chipset ?u)" using middle_steady [of ?u env] unfolding steady_def by blast
  then have chip: "chip_ok 4 (bus_chipset (exact env n s))"
    using chip_ok_elapse [OF ok(1) room(1)] by (simp add: exact_middle set_cias_def raise_shape)
  have "cia_ok 20 ?A" "cia_ok 20 ?B"
    using room ok by (auto intro!: cia_clock.ok_adv simp: tod_ticks_keep cia_room_def)
  moreover have "unat (total_colour_clocks (chip_elapse 4 n ?c)) + b < 2 ^ 63"
    using chip_elapse_fields(2) [OF ok(1) room(1)] elapsed_colour_clocks [OF ok(1), of n] assms(1) by (simp add: clocked_ok_def)
  ultimately show ?thesis unfolding clocked_ok_def f using chip by blast
qed

lemma word_max_unat: "unat (max a b) = max (unat a) (unat b)"
  by (simp add: max_def word_le_nat_alt)

lemma recompute_calm:
  assumes "clocked_ok b s"
  shows "calm (unat (bus_next_event_clocks (recompute_next_event s))) s" "0 < unat (bus_next_event_clocks (recompute_next_event s))"
proof -
  define L where "L = clocks_until_line_boundary (bus_chipset s) 4"
  have ok: "chip_ok 4 (bus_chipset s)" "cia_ok 20 (bus_cia_a s)" "cia_ok 20 (bus_cia_b s)" using assms by (simp_all add: clocked_ok_def)
  have L: "0 < unat L" using deadline_value [of 4 "bus_chipset s"] ok(1) by (simp add: L_def)
  have pos: "0 < unat d" if "cia_clocks_until_event c 20 = Some d" "cia_ok 20 c" for c d
  proof -
    note t = clocks_until_event_some [of 20 c d]
    have "20 * 1 \<le> 20 * Min (set (event_times c))" by (rule mult_le_mono2) (use t(3) that in simp)
    then show ?thesis using t(2) that by (simp add: cia_ok_def)
  qed
  let ?d = "bus_next_event_clocks (recompute_next_event s)"
  have bounds: "unat ?d \<le> unat L" "case cia_clocks_until_event (bus_cia_a s) 20 of Some d \<Rightarrow> unat ?d \<le> unat d | None \<Rightarrow> True"
    "case cia_clocks_until_event (bus_cia_b s) 20 of Some d \<Rightarrow> unat ?d \<le> unat d | None \<Rightarrow> True"
    using L pos [OF _ ok(2), THEN Suc_leI] pos [OF _ ok(3), THEN Suc_leI]
    by (auto simp: recompute_next_event_def Let_def L_def unat_min word_max_unat split: option.split)
  show "0 < unat ?d" by (simp add: recompute_next_event_def Let_def word_max_unat)
  show "calm (unat ?d) s"
    using bounds cia_calm_deadline [OF ok(2)] cia_calm_deadline [OF ok(3)] chip_calm_deadline [OF ok(1)]
    by (auto simp: calm_def chip_calm_def L_def)
qed

lemma recompute_restamp: "recompute_next_event s = restamp (coarse_tick_streak (bus_chipset s)) (bus_pending_clocks s)
    (bus_next_event_clocks (recompute_next_event s)) s"
  by (simp add: recompute_next_event_def restamp_def Let_def)

lemma restamp_inv [simp]:
  "clocked_ok b (restamp k q d s) = clocked_ok b s" "asserted (restamp k q d s) = asserted s" "calm j (restamp k q d s) = calm j s"
  by (auto simp: clocked_ok_def asserted_def calm_def chip_calm_def chip_ok_def split: option.splits)

text \<open>A bus that has just been brought up to date and whose deadline has been computed.\<close>

lemma recomputed_inv:
  assumes "clocked_ok b s" and "asserted s" and "bus_pending_clocks s = 0"
  shows "bus_inv b (recompute_next_event s)"
proof -
  have "bus_pending_clocks (recompute_next_event s) = 0" using assms(3) by (simp add: recompute_next_event_def Let_def)
  moreover have "clocked_ok b (recompute_next_event s)" "asserted (recompute_next_event s)"
    using assms(1,2) by (subst recompute_restamp, simp)+
  moreover have "calm (unat (bus_next_event_clocks (recompute_next_event s))) (recompute_next_event s)"
    using recompute_calm(1) [OF assms(1)] by (subst (2) recompute_restamp) simp
  ultimately show ?thesis using recompute_calm(2) [OF assms(1)] by (simp add: bus_inv_def)
qed

end
