(* ===== verification/BusSim.thy ===== *)
theory BusSim
  imports BusTime
begin

text \<open>
  The deferred bus simulates the eager one: a relation between a bus driven by \<open>tick\<close> and one driven by \<open>tick_eager\<close>, kept
  by clocks, by guest reads and writes of every width and by the host's input, under which every value a guest reads,
  the interrupt level and the frame count agree.
\<close>

section \<open>The relation\<close>

text \<open>What no access of the guest can see: the streak detector and the bus's own count of clocks.\<close>

abbreviation vis :: "('d, 'p, 'b) bus \<Rightarrow> ('d, 'p, 'b) bus" where
  "vis s \<equiv> restamp 0 0 0 s"

definition lazily :: "nat \<Rightarrow> ('d, 'p, 'b) bus \<Rightarrow> ('d, 'p, 'b) bus \<Rightarrow> bool" where
  "lazily b l e \<longleftrightarrow> bus_inv b l \<and> bus_pending_clocks e = 0 \<and> vis e = vis (waited (unat (bus_pending_clocks l)) l)"

lemma vis_restamp: "vis s = vis t \<Longrightarrow> s = restamp (coarse_tick_streak (bus_chipset s)) (bus_pending_clocks s) (bus_next_event_clocks s) t"
proof -
  assume "vis s = vis t"
  then have "restamp k q d s = restamp k q d t" for k q d by (metis restamp_simps(1))
  moreover have "restamp (coarse_tick_streak (bus_chipset s)) (bus_pending_clocks s) (bus_next_event_clocks s) s = s"
    by (simp add: restamp_def)
  ultimately show ?thesis by metis
qed

lemma inv_pending: "bus_inv b s \<Longrightarrow> unat (bus_pending_clocks s) < 908"
  using chip_calm_bound [of "unat (bus_next_event_clocks s)" "bus_chipset s"] by (auto simp: bus_inv_def calm_def)

lemma inv_quiet: "bus_inv b s \<Longrightarrow> exact env (unat (bus_pending_clocks s)) s = waited (unat (bus_pending_clocks s)) s"
  by (rule exact_quiet) (auto simp: bus_inv_def)

lemma waited_none: "clocked_ok b s \<Longrightarrow> waited 0 s = s"
proof -
  assume "clocked_ok b s"
  then have ok: "chip_ok 4 (bus_chipset s)" "cia_ok 20 (bus_cia_a s)" "cia_ok 20 (bus_cia_b s)" by (simp_all add: clocked_ok_def)
  have "chip_wait 0 (bus_chipset s) = bus_chipset s"
    using chip_wait_elapse [OF chip_none(3) [OF ok(1)]] chip_none(1) [OF ok(1)] by simp
  then show ?thesis using cia_clock.adv_none [OF ok(2)] cia_clock.adv_none [OF ok(3)] by (simp add: waited_def)
qed

lemma tick_vis:
  assumes "clocked_ok (unat n) s" and "unat n < 2 ^ 32 - 20"
  shows "vis (tick_exact env n s) = vis (exact env (unat n) s)" "bus_pending_clocks (tick_exact env n s) = bus_pending_clocks s"
  using tick_exact_eq [OF assms, of env] by auto

lemma exact_vis: "vis s = vis t \<Longrightarrow> vis (exact env n s) = vis (exact env n t)"
  by (metis exact_restamp)

lemma vis_inv: "vis s = vis t \<Longrightarrow> clocked_ok b s = clocked_ok b t" "vis s = vis t \<Longrightarrow> asserted s = asserted t"
  by (metis restamp_inv(1), metis restamp_inv(2))

text \<open>Applying the pending clocks.\<close>

lemma flush_applies:
  assumes "clocked_ok (unat (bus_pending_clocks s) + b) s" and "0 < unat (bus_pending_clocks s)" "unat (bus_pending_clocks s) < 2 ^ 32 - 20"
  shows "vis (bus_flush env s) = vis (exact env (unat (bus_pending_clocks s)) s)" "bus_pending_clocks (bus_flush env s) = 0"
    "bus_inv b (bus_flush env s)"
proof -
  let ?q = "bus_pending_clocks s" let ?z = "s\<lparr>bus_pending_clocks := 0\<rparr>" let ?t = "tick_exact env ?q ?z"
  have f: "bus_flush env s = recompute_next_event ?t" using assms(2) by (auto simp: bus_flush_def)
  have z: "vis ?z = vis s" by (simp add: restamp_def)
  have c: "clocked_ok (unat ?q + b) ?z" using vis_inv(1) [OF z] assms(1) by simp
  then have c0: "clocked_ok (unat ?q) ?z" by (simp add: clocked_ok_def)
  note t = tick_vis [OF c0 assms(3), of env]
  have v: "vis ?t = vis (exact env (unat ?q) s)" using t(1) exact_vis [OF z] by simp
  have p: "bus_pending_clocks ?t = 0" using t(2) by simp
  show "vis (bus_flush env s) = vis (exact env (unat ?q) s)" unfolding f by (subst recompute_restamp) (simp add: v)
  show "bus_pending_clocks (bus_flush env s) = 0" unfolding f by (subst recompute_restamp) (simp add: p)
  show "bus_inv b (bus_flush env s)"
    unfolding f using vis_inv [OF v] exact_clocked [OF assms(1,3), of env] exact_asserted [of env "unat ?q" s] p by (intro recomputed_inv) auto
qed

lemma lazily_flush:
  assumes "lazily b l e"
  shows "bus_inv b (bus_flush env l)" "bus_pending_clocks (bus_flush env l) = 0" "vis (bus_flush env l) = vis e" "bus_flush env e = e"
proof -
  note h = assms [unfolded lazily_def]
  have inv: "bus_inv b l" using h by simp
  show "bus_flush env e = e" using h by (simp add: bus_flush_def)
  have "bus_inv b (bus_flush env l) \<and> bus_pending_clocks (bus_flush env l) = 0 \<and> vis (bus_flush env l) = vis e"
  proof (cases "bus_pending_clocks l = 0")
    case True
    then have "waited (unat (bus_pending_clocks l)) l = l" using inv by (auto simp: bus_inv_def intro: waited_none)
    then show ?thesis using True h by (simp add: bus_flush_def)
  next
    case False
    then have q: "0 < unat (bus_pending_clocks l)" "unat (bus_pending_clocks l) < 2 ^ 32 - 20"
      using inv_pending [OF inv] by (simp_all add: unat_gt_0)
    have c: "clocked_ok (unat (bus_pending_clocks l) + b) l" using inv by (simp add: bus_inv_def)
    show ?thesis using flush_applies [OF c q, of env] inv_quiet [OF inv, of env] h by simp
  qed
  then show "bus_inv b (bus_flush env l)" "bus_pending_clocks (bus_flush env l) = 0" "vis (bus_flush env l) = vis e" by simp_all
qed

text \<open>A settled bus is related to every bus with the same visible part and nothing pending.\<close>

lemma lazily_settled: "bus_inv b l \<Longrightarrow> bus_pending_clocks l = 0 \<Longrightarrow> bus_pending_clocks e = 0 \<Longrightarrow> vis e = vis l \<Longrightarrow> lazily b l e"
  using waited_none [of _ l] by (auto simp: lazily_def bus_inv_def)

section \<open>Clocks\<close>

lemma lazily_tick:
  assumes "lazily (unat n + b) l e" and "unat n < 2 ^ 32 - 1000"
  shows "lazily b (bus_tick env n l) (tick_eager env n e)"
proof -
  let ?p = "unat (bus_pending_clocks l)" let ?l = "l\<lparr>bus_pending_clocks := saturating_add_u32 (bus_pending_clocks l) n\<rparr>"
  have inv: "bus_inv (unat n + b) l" and e: "bus_pending_clocks e = 0" "vis e = vis (waited ?p l)" using assms(1) by (simp_all add: lazily_def)
  have p: "?p < 908" by (rule inv_pending [OF inv])
  have sat: "unat (saturating_add_u32 (bus_pending_clocks l) n) = ?p + unat n"
    using p assms(2) by (simp add: saturating_add_u32_def unat_word_ariths)
  have lv: "vis ?l = vis l" by (simp add: restamp_def)
  have c: "clocked_ok (?p + (unat n + b)) l" using inv by (simp add: bus_inv_def)
  have ok: "chip_ok 4 (bus_chipset l)" "cia_ok 20 (bus_cia_a l)" "cia_ok 20 (bus_cia_b l)" using c by (simp_all add: clocked_ok_def)
  have calm: "chip_calm (unat (bus_next_event_clocks l)) (bus_chipset l)" "?p < unat (bus_next_event_clocks l)"
    using inv by (simp_all add: bus_inv_def calm_def)
  have cn: "clocked_ok (?p + unat n) l" using c by (simp add: clocked_ok_def)
  have lim: "?p + unat n < 2 ^ 32 - 20" using p assms(2) by simp
  have "clocked_ok (unat n) (waited ?p l)"
    using exact_clocked [OF c, of env] p inv_quiet [OF inv, of env] by (simp add: clocked_ok_def)
  then have ce: "clocked_ok (unat n) e" using vis_inv(1) [OF e(2)] by simp
  have "vis (tick_exact env n e) = vis (exact env (unat n) (waited ?p l))"
    using tick_vis(1) [OF ce] exact_vis [OF e(2)] assms(2) by simp
  also have "exact env (unat n) (waited ?p l) = exact env (?p + unat n) l"
    by (rule exact_absorb [OF ok calm room_of_budget [OF cn lim]])
  finally have ev: "vis (tick_eager env n e) = vis (exact env (?p + unat n) l)" by (simp add: tick_eager_def)
  have ep: "bus_pending_clocks (tick_eager env n e) = 0" using tick_vis(2) [OF ce] assms(2) e(1) by (simp add: tick_eager_def)
  show ?thesis
  proof (cases "?p + unat n < unat (bus_next_event_clocks l)")
    case True
    then have t: "bus_tick env n l = ?l" using sat by (simp add: bus_tick_def Let_def word_le_nat_alt)
    have "asserted l" "calm (unat (bus_next_event_clocks l)) l" using inv by (simp_all add: bus_inv_def)
    from exact_quiet [OF this True, of env]
    have "vis (exact env (?p + unat n) l) = vis (waited (?p + unat n) ?l)" by (simp add: waited_def restamp_def)
    moreover have "bus_inv b ?l"
      using inv True sat vis_inv [OF lv] by (simp add: bus_inv_def calm_def add.assoc)
    ultimately show ?thesis using ev ep sat by (simp add: lazily_def t)
  next
    case False
    then have t: "bus_tick env n l = bus_flush env ?l" using sat by (simp add: bus_tick_def Let_def word_le_nat_alt)
    have q: "unat (bus_pending_clocks ?l) = ?p + unat n" using sat by simp
    have "clocked_ok (unat (bus_pending_clocks ?l) + b) ?l" using c sat vis_inv(1) [OF lv] by (simp add: add.assoc)
    note f = flush_applies [OF this, of env, unfolded q]
    have "0 < ?p + unat n" using False calm(2) by simp
    note f = f [OF this lim]
    show ?thesis using f ev ep exact_vis [OF lv] unfolding t by (intro lazily_settled) simp_all
  qed
qed


section \<open>Accesses that do not flush\<close>

text \<open>An operation with a result that neither reads nor writes the clocks and only adds interrupt requests.\<close>

definition quiet :: "(('d, 'p, 'b) bus \<Rightarrow> ('d, 'p, 'b) bus \<times> 'a) \<Rightarrow> bool" where
  "quiet f \<longleftrightarrow> (\<forall>s. asserted s \<longrightarrow> steady s (fst (f s)) \<and>
     (\<forall>z. asserted (retime z s) \<longrightarrow> f (retime z s) = (retime z (fst (f s)), snd (f s))))"

definition simulated :: "(('d, 'p, 'b) bus \<Rightarrow> ('d, 'p, 'b) bus \<times> 'a) \<Rightarrow> bool" where
  "simulated f \<longleftrightarrow> (\<forall>b l e. lazily b l e \<longrightarrow> lazily b (fst (f l)) (fst (f e)) \<and> snd (f e) = snd (f l))"

lemma simulatedD: "simulated f \<Longrightarrow> lazily b l e \<Longrightarrow> lazily b (fst (f l)) (fst (f e)) \<and> snd (f e) = snd (f l)"
  by (simp add: simulated_def)

definition waited_clocks :: "nat \<Rightarrow> clock_fields \<Rightarrow> clock_fields" where
  "waited_clocks p = (\<lambda>(x, t, k, A, B, q, d).
     (of_nat ((unat x + p) mod 4), of_nat (unat t + (unat x + p) div 4), k, cia_elapse 20 p A, cia_elapse 20 p B, q, d))"

lemma waited_retime: "waited p s = retime (waited_clocks p (clocks_of s)) s"
  by (simp add: waited_def waited_clocks_def reclock_def chip_wait_def)

lemma lazily_retime:
  assumes "lazily b l e" obtains z where "e = retime z l"
proof -
  have "e = restamp (coarse_tick_streak (bus_chipset e)) (bus_pending_clocks e) (bus_next_event_clocks e)
      (waited (unat (bus_pending_clocks l)) l)"
    using assms by (intro vis_restamp) (simp add: lazily_def)
  then obtain z z' where "e = retime z (retime z' l)" unfolding waited_retime restamp_retime by blast
  then show ?thesis using that by simp
qed

lemma steady_inv:
  assumes "steady s s'" shows "asserted s \<Longrightarrow> asserted s'" "bus_inv b s \<Longrightarrow> bus_inv b s'"
proof -
  have c: "bus_cia_a s' = bus_cia_a s" "bus_cia_b s' = bus_cia_b s" "bus_pending_clocks s' = bus_pending_clocks s"
    "bus_next_event_clocks s' = bus_next_event_clocks s" "carry (bus_chipset s') = carry (bus_chipset s)"
    "total_colour_clocks (bus_chipset s') = total_colour_clocks (bus_chipset s)" "\<And>k. chip_ok k (bus_chipset s') = chip_ok k (bus_chipset s)"
    using assms by (simp_all add: steady_def)
  show a: "asserted s \<Longrightarrow> asserted s'"
    using assms unfolding asserted_def c by (auto simp: steady_def split: option.splits)
  show "bus_inv b s \<Longrightarrow> bus_inv b s'"
    using a unfolding bus_inv_def clocked_ok_def calm_def chip_calm_def c by blast
qed

lemma lazily_asserted: "lazily b l e \<Longrightarrow> asserted l" "lazily b l e \<Longrightarrow> asserted e"
proof -
  show l: "lazily b l e \<Longrightarrow> asserted l" by (simp add: lazily_def bus_inv_def)
  show "asserted e" if "lazily b l e"
    using that exact_asserted vis_inv(2) [of e] inv_quiet by (metis lazily_def)
qed

lemma quiet_simulated:
  fixes f :: "('d, 'p, 'b) bus \<Rightarrow> ('d, 'p, 'b) bus \<times> 'a"
  shows "quiet f \<Longrightarrow> simulated f"
  unfolding simulated_def
proof (intro allI impI)
  fix b and l e :: "('d, 'p, 'b) bus" assume q: "quiet f" and r: "lazily b l e"
  obtain z where z: "e = retime z l" using lazily_retime [OF r] .
  let ?p = "unat (bus_pending_clocks l)"
  have st: "steady l (fst (f l))" and com: "\<And>z. asserted (retime z l) \<Longrightarrow> f (retime z l) = (retime z (fst (f l)), snd (f l))"
    using q lazily_asserted(1) [OF r] unfolding quiet_def by blast+
  have e: "f e = (retime z (fst (f l)), snd (f l))" using com lazily_asserted(2) [OF r] unfolding z by blast
  have cl: "clocks_of (fst (f l)) = clocks_of l" using st unfolding steady_def by blast
  have pend: "bus_pending_clocks (fst (f l)) = bus_pending_clocks l" "bus_pending_clocks (retime z (fst (f l))) = bus_pending_clocks (retime z l)"
    using cl by (simp, cases z, simp)
  have vis_re: "vis (retime (x, t, k, A, B, n, d) s) = retime (x, t, 0, A, B, 0, 0) s" for x t k A B n d and s :: "('d, 'p, 'b) bus"
    by (simp add: restamp_def reclock_def)
  have "vis (retime z l) = vis (retime (waited_clocks ?p (clocks_of l)) l)"
    using r unfolding lazily_def waited_retime z by simp
  moreover obtain x t k A B n d where zz: "z = (x, t, k, A, B, n, d)" by (cases z)
  moreover obtain x' t' k' A' B' n' d' where w: "waited_clocks ?p (clocks_of l) = (x', t', k', A', B', n', d')" by (cases "waited_clocks ?p (clocks_of l)")
  ultimately have "retime (x, t, 0, A, B, 0, 0) l = retime (x', t', 0, A', B', 0, 0) l" by (simp only: vis_re)
  from arg_cong [OF this, of clocks_of] have "(x, t, 0 :: u32, A, B, 0 :: u32, 0 :: u32) = (x', t', 0, A', B', 0, 0)" by simp
  then have "vis (retime z (fst (f l))) = vis (waited ?p (fst (f l)))"
    unfolding waited_retime cl w zz vis_re by simp
  then show "lazily b (fst (f l)) (fst (f e)) \<and> snd (f e) = snd (f l)"
    using r steady_inv(2) [OF st] pend unfolding lazily_def e z [symmetric] by simp
qed

lemma simulated_bind:
  fixes f :: "('d, 'p, 'b) bus \<Rightarrow> ('d, 'p, 'b) bus \<times> 'a" and g :: "'a \<Rightarrow> ('d, 'p, 'b) bus \<Rightarrow> ('d, 'p, 'b) bus \<times> 'c"
  assumes "simulated f" and "\<And>v. simulated (g v)"
  shows "simulated (\<lambda>s. let (s', v) = f s in g v s')"
  unfolding simulated_def
proof (intro allI impI)
  fix b and l e :: "('d, 'p, 'b) bus" assume "lazily b l e"
  then have 1: "lazily b (fst (f l)) (fst (f e))" "snd (f e) = snd (f l)" using simulatedD [OF assms(1)] by blast+
  from simulatedD [OF assms(2) 1(1), of "snd (f l)"] 1(2)
  show "lazily b (fst (let (s', v) = f l in g v s')) (fst (let (s', v) = f e in g v s'))
      \<and> snd (let (s', v) = f e in g v s') = snd (let (s', v) = f l in g v s')"
    by (simp add: case_prod_beta)
qed


lemma retime_routing [simp]:
  "graphics_position (retime z s) idx = graphics_position s idx" "fast_region (retime z s) a = fast_region s a"
  "fast_region_mut (retime z s) a = fast_region_mut s a" "bank_bytes (retime z s) bk = bank_bytes s bk"
  "bank_store (retime z s) bk mem = retime z (bank_store s bk mem)" "fast_load (retime z s) a n = fast_load s a n"
  "fast_store (retime z s) a bs = map_option (retime z) (fast_store s a bs)"
  "pcibridge_target (retime z s) a = pcibridge_target s a" "pcibridge_aperture_sized (retime z s) a w = pcibridge_aperture_sized s a w"
  "note_boundary (retime z s) (retime z t) = retime z (note_boundary s t)"
  "refresh_windows (retime z s) = retime z (refresh_windows s)"
proof -
  show rt: "graphics_position (retime z s) idx = graphics_position s idx" "fast_region (retime z s) a = fast_region s a"
    "fast_region_mut (retime z s) a = fast_region_mut s a" "pcibridge_target (retime z s) a = pcibridge_target s a" for s :: "('a, 'b, 'c) bus" and a
    by (simp_all only: graphics_position_def fast_region_def fast_region_mut_def pcibridge_target_def retime_fields)
  show "pcibridge_aperture_sized (retime z s) a w = pcibridge_aperture_sized s a w"
    by (simp add: pcibridge_aperture_sized_def rt)
  show bank: "bank_bytes (retime z s) bk = bank_bytes s bk" "bank_store (retime z s) bk mem = retime z (bank_store s bk mem)" for bk mem
    by (cases bk; simp)+
  show "fast_load (retime z s) a n = fast_load s a n" by (simp add: fast_load_def rt)
  show "fast_store (retime z s) a bs = map_option (retime z) (fast_store s a bs)"
    by (simp add: fast_store_def rt bank split: option.split)
  show "note_boundary (retime z s) (retime z t) = retime z (note_boundary s t)" by (simp add: note_boundary_def)
  show "refresh_windows (retime z s) = retime z (refresh_windows s)" by (cases z) (simp add: refresh_windows_def)
qed

lemma quietI:
  assumes "\<And>s. asserted s \<Longrightarrow> steady s (fst (f s))"
    and "\<And>s z. asserted s \<Longrightarrow> asserted (retime z s) \<Longrightarrow> f (retime z s) = (retime z (fst (f s)), snd (f s))"
  shows "quiet f"
  using assms unfolding quiet_def by blast

lemma reassert_graphics:
  "asserted s \<Longrightarrow> reassert_level_irqs (s\<lparr>bus_graphics := Some g\<rparr>) = raise_if (gf_irq_pending g) INTBIT_PORTS (s\<lparr>bus_graphics := Some g\<rparr>)"
  by (simp add: reassert_level_irqs_def Let_def raise_asserted asserted_def)

lemma steady_graphics:
  "bus_graphics s = Some g \<Longrightarrow> gf_irq_pending g' = gf_irq_pending g \<Longrightarrow> steady s (s\<lparr>bus_graphics := Some g'\<rparr>)"
  "steady s (raise_if (gf_irq_pending g') INTBIT_PORTS (s\<lparr>bus_graphics := Some g'\<rparr>))"
  by (auto simp: steady_def raise_intreq raise_shape) (simp_all add: raise_if_def chip_raise_int_def)

lemma steady_note: "steady s t \<Longrightarrow> steady s (note_boundary u t)"
  using steady_trans [OF _ steady_updates(14)] by (auto simp: note_boundary_def)

text \<open>Quiet operations compose: by cases on what the clocks do not touch, with one rule per kind of leaf.\<close>

lemma quiet_if: "(\<And>z s. P (retime z s) = P s) \<Longrightarrow> quiet f \<Longrightarrow> quiet g \<Longrightarrow> quiet (\<lambda>s. if P s then f s else g s)"
  unfolding quiet_def by (simp del: retime.simps split_paired_All)

lemma quiet_case: "(\<And>z s. h (retime z s) = h s) \<Longrightarrow> quiet f \<Longrightarrow> (\<And>x. quiet (g x)) \<Longrightarrow> quiet (\<lambda>s. case h s of None \<Rightarrow> f s | Some x \<Rightarrow> g x s)"
  unfolding quiet_def by (simp del: retime.simps split_paired_All split: option.split)

lemma quiet_id: "(\<And>z s. h (retime z s) = h s) \<Longrightarrow> quiet (\<lambda>s. (s, h s))"
  by (rule quietI) simp_all

lemma quiet_leaf:
  assumes "\<And>z s. u (retime z s) = retime z (u s)" "\<And>s. steady s (u s)" "\<And>z s. h (retime z s) = h s" "\<And>z s. P (retime z s) = P s"
  shows "quiet (\<lambda>s. (u s, h s))" "quiet (\<lambda>s. (raise_if (P s) n (u s), h s))"
  by (rule quietI, simp_all only: assms fst_conv snd_conv)
    (rule quietI, simp_all only: assms steady_raise retime_raise fst_conv snd_conv)

lemma quiet_read_graphics:
  "quiet (\<lambda>s. case bus_graphics s of None \<Rightarrow> (s, OPEN_BUS_BYTE)
     | Some g \<Rightarrow> (let (g, v) = gf_read g board (h s) in (s\<lparr>bus_graphics := Some g\<rparr>, v)))" if "\<And>z s. h (retime z s) = h s"
proof (rule quietI)
  fix s :: "('a, 'b, 'c) bus" and z
  show "steady s (fst (case bus_graphics s of None \<Rightarrow> (s, OPEN_BUS_BYTE)
     | Some g \<Rightarrow> (let (g, v) = gf_read g board (h s) in (s\<lparr>bus_graphics := Some g\<rparr>, v))))"
    by (cases "bus_graphics s") (simp_all add: case_prod_beta steady_graphics(1) gf_irq_read)
qed (simp add: that case_prod_beta split: option.split)

lemma quiet_write_graphics:
  "quiet (\<lambda>s. case bus_graphics s of None \<Rightarrow> (s, ())
     | Some g \<Rightarrow> (reassert_level_irqs (s\<lparr>bus_graphics := Some (gf_write g board (h s) v)\<rparr>), ()))" if "\<And>z s. h (retime z s) = h s"
proof (rule quietI)
  fix s :: "('a, 'b, 'c) bus" and z assume a: "asserted s"
  show "steady s (fst (case bus_graphics s of None \<Rightarrow> (s, ())
     | Some g \<Rightarrow> (reassert_level_irqs (s\<lparr>bus_graphics := Some (gf_write g board (h s) v)\<rparr>), ())))"
    using a steady_graphics(2) by (cases "bus_graphics s") (simp_all add: reassert_graphics)
  assume b: "asserted (retime z s)"
  show "(case bus_graphics (retime z s) of None \<Rightarrow> (retime z s, ())
     | Some g \<Rightarrow> (reassert_level_irqs ((retime z s)\<lparr>bus_graphics := Some (gf_write g board (h (retime z s)) v)\<rparr>), ()))
     = (retime z (fst (case bus_graphics s of None \<Rightarrow> (s, ())
     | Some g \<Rightarrow> (reassert_level_irqs (s\<lparr>bus_graphics := Some (gf_write g board (h s) v)\<rparr>), ()))),
     snd (case bus_graphics s of None \<Rightarrow> (s, ())
     | Some g \<Rightarrow> (reassert_level_irqs (s\<lparr>bus_graphics := Some (gf_write g board (h s) v)\<rparr>), ())))"
    unfolding retime_fields that
    by (cases "bus_graphics s") (simp only: option.case fst_conv snd_conv,
      simp only: option.case fst_conv snd_conv reassert_graphics [OF a] reassert_graphics [OF b], simp only: retime_updates retime_raise)
qed

lemmas quiet_rules = quiet_read_graphics [unfolded Let_def case_prod_beta] quiet_write_graphics quiet_case quiet_if quiet_id quiet_leaf(1)

lemma quiet_read_board: "quiet (\<lambda>s. read_byte_board env s idx address)"
  unfolding read_byte_board_def Let_def case_prod_beta
  by (intro quiet_rules) (simp_all add: steady_updates steady_raise)

lemma quiet_write_board: "quiet (\<lambda>s. (write_byte_board env s idx address v, ()))"
  unfolding write_byte_board_def Let_def case_prod_beta if_distrib [of "\<lambda>t. (t, ())"] option.case_distrib [of "\<lambda>t. (t, ())"]
  by (intro quiet_rules) (simp_all add: steady_updates steady_raise)

lemma quiet_note: "quiet f \<Longrightarrow> quiet (\<lambda>s. (note_boundary s (fst (f s)), snd (f s)))"
  unfolding quiet_def by (auto simp: steady_note simp del: retime.simps split_paired_All)


section \<open>Register accesses behind a flush\<close>

text \<open>A register decode is a long chain of branches; a property of every branch is a property of the whole.\<close>

definition read_shape :: "cia \<Rightarrow> cia \<times> u8 \<Rightarrow> bool" where
  "read_shape c p \<longleftrightarrow> (\<exists>l w m. fst p = c\<lparr>cia_kbd_loaded := l, cia_icr_data := w, cia_tod_latched := m\<rparr> \<and> w \<in> {cia_icr_data c, 0})"

definition same_clock :: "chipset \<Rightarrow> chipset \<Rightarrow> bool" where
  "same_clock c c' \<longleftrightarrow> carry c' = carry c \<and> total_colour_clocks c' = total_colour_clocks c \<and> (\<forall>k. chip_ok k c \<longrightarrow> chip_ok k c')"

definition streaked :: "u32 \<Rightarrow> chipset \<times> 'a \<Rightarrow> chipset \<times> 'a \<Rightarrow> bool" where
  "streaked x p q \<longleftrightarrow> q = ((fst p)\<lparr>coarse_tick_streak := x\<rparr>, snd p)"

lemma branches:
  "read_shape c p \<Longrightarrow> read_shape c p' \<Longrightarrow> read_shape c (if P then p else p')"
  "same_clock d u \<Longrightarrow> same_clock d u' \<Longrightarrow> same_clock d (if P then u else u')"
  "streaked x m n \<Longrightarrow> streaked x m' n' \<Longrightarrow> streaked x (if P then m else m') (if P then n else n')"
  by simp_all

lemma read_shapes:
  "read_shape c (c, v)" "read_shape c (c\<lparr>cia_kbd_loaded := False\<rparr>, v)" "read_shape c (c\<lparr>cia_icr_data := 0\<rparr>, v)"
  "read_shape c (cia_read_tod c r)"
proof -
  show 1: "read_shape c (c, v)" for v
    unfolding read_shape_def by (rule exI [of _ "cia_kbd_loaded c"], rule exI [of _ "cia_icr_data c"], rule exI [of _ "cia_tod_latched c"]) simp
  show "read_shape c (c\<lparr>cia_kbd_loaded := False\<rparr>, v)"
    unfolding read_shape_def by (rule exI [of _ False], rule exI [of _ "cia_icr_data c"], rule exI [of _ "cia_tod_latched c"]) simp
  show "read_shape c (c\<lparr>cia_icr_data := 0\<rparr>, v)"
    unfolding read_shape_def by (rule exI [of _ "cia_kbd_loaded c"], rule exI [of _ 0], rule exI [of _ "cia_tod_latched c"]) simp
  have tod: "read_shape c (c\<lparr>cia_tod_latched := m\<rparr>, v)" for m v
    unfolding read_shape_def by (rule exI [of _ "cia_kbd_loaded c"], rule exI [of _ "cia_icr_data c"], rule exI [of _ m]) simp
  show "read_shape c (cia_read_tod c r)"
    by (cases "r = CIA_TODLO"; cases "r = CIA_TODHI"; cases "cia_tod_latched c") (simp_all add: cia_read_tod_def Let_def tod 1)
qed

lemma cia_read_keeps:
  assumes "cia_ok 20 c"
  shows "cia_ok 20 (fst (cia_read c r))" "cia_calm d c \<Longrightarrow> d \<le> 908 \<Longrightarrow> cia_calm d (fst (cia_read c r))"
    "cia_irq_pending (fst (cia_read c r)) \<Longrightarrow> cia_irq_pending c"
proof -
  have "read_shape c (cia_read c r)"
    unfolding cia_read_def Let_def by (intro branches read_shapes)
  then obtain l w m where f: "fst (cia_read c r) = c\<lparr>cia_kbd_loaded := l, cia_icr_data := w, cia_tod_latched := m\<rparr>" "w \<in> {cia_icr_data c, 0}" by (auto simp: read_shape_def)
  show "cia_ok 20 (fst (cia_read c r))" using assms by (simp add: f cia_ok_def kbd_ok_def)
  show "cia_irq_pending (fst (cia_read c r)) \<Longrightarrow> cia_irq_pending c" using f by (auto simp: cia_irq_pending_def)
  show "cia_calm d (fst (cia_read c r))" if "cia_calm d c" "d \<le> 908"
  proof -
    have "set (event_times (fst (cia_read c r))) \<subseteq> insert 709 (set (event_times c))"
      by (auto simp: f event_times_def kbd_times_def ta_runs_def tb_runs_def crb_inmode_def split: if_splits)
    moreover have "d + unat (cia_carry c) \<le> 709 * 20" using that(2) assms by (simp add: cia_ok_def)
    ultimately show ?thesis using that(1) unfolding cia_calm_def by (auto simp: f)
  qed
qed

lemma cia_write_ok: "cia_ok k c \<Longrightarrow> cia_ok k (cia_write c r v)"
  by (simp add: cia_write_def cia_write_tod_def cia_check_tod_alarm_def cia_raise_def Let_def cia_ok_def kbd_ok_def)

lemma serial_in_keeps:
  "same_clock c (fst (chip_read_serdatr c))" "intreq (fst (chip_read_serdatr c)) = intreq c"
  "streaked x (chip_read_serdatr c) (chip_read_serdatr (c\<lparr>coarse_tick_streak := x\<rparr>))"
  by (auto simp: chip_read_serdatr_def chip_pop_serial_in_byte_def Let_def chip_ok_def ring_ok_def same_clock_def streaked_def)

lemma chip_read_keeps:
  "same_clock c (fst (chip_read c r))" "intreq (fst (chip_read c r)) = intreq c"
  "chip_read (c\<lparr>coarse_tick_streak := x\<rparr>) r = ((fst (chip_read c r))\<lparr>coarse_tick_streak := x\<rparr>, snd (chip_read c r))"
proof -
  show "same_clock c (fst (chip_read c r))" "intreq (fst (chip_read c r)) = intreq c"
    using serial_in_keeps(1,2) [of c] by (simp_all add: chip_read_def same_clock_def)
  have "streaked x (chip_read c r) (chip_read (c\<lparr>coarse_tick_streak := x\<rparr>) r)"
    unfolding chip_read_def
    by (intro branches serial_in_keeps) (simp_all add: streaked_def chip_vposr_def chip_vhposr_def chip_vpos_def chip_hpos_def)
  then show "chip_read (c\<lparr>coarse_tick_streak := x\<rparr>) r = ((fst (chip_read c r))\<lparr>coarse_tick_streak := x\<rparr>, snd (chip_read c r))"
    by (simp add: streaked_def)
qed

lemma serial_out_keeps:
  "same_clock c (chip_raise_int (chip_push_serial_byte (c\<lparr>serdat := w\<rparr>) y) n)"
  "chip_raise_int (chip_push_serial_byte (c\<lparr>coarse_tick_streak := x, serdat := w\<rparr>) y) n =
     (chip_raise_int (chip_push_serial_byte (c\<lparr>serdat := w\<rparr>) y) n)\<lparr>coarse_tick_streak := x\<rparr>"
  by (simp_all add: chip_push_serial_byte_def chip_raise_int_def Let_def chip_ok_def ring_ok_def same_clock_def)

lemma chip_write_keeps:
  "same_clock c (chip_write c r v)"
  "chip_write (c\<lparr>coarse_tick_streak := x\<rparr>) r v = (chip_write c r v)\<lparr>coarse_tick_streak := x\<rparr>"
proof -
  show "same_clock c (chip_write c r v)"
    unfolding chip_write_def Let_def
    by (intro branches serial_out_keeps) (simp_all add: same_clock_def chip_ok_def upd_at_def)
  have "streaked x (chip_write c r v, ()) (chip_write (c\<lparr>coarse_tick_streak := x\<rparr>) r v, ())"
    unfolding chip_write_def Let_def if_distrib [of "\<lambda>t. (t, ())"]
    by (intro branches) (simp_all add: streaked_def serial_out_keeps)
  then show "chip_write (c\<lparr>coarse_tick_streak := x\<rparr>) r v = (chip_write c r v)\<lparr>coarse_tick_streak := x\<rparr>" by (simp add: streaked_def)
qed


text \<open>Operations on a bus with nothing pending: they keep the invariant and do not see the bookkeeping.\<close>

definition settled_op :: "(('d, 'p, 'b) bus \<Rightarrow> ('d, 'p, 'b) bus \<times> 'a) \<Rightarrow> bool" where
  "settled_op g \<longleftrightarrow> (\<forall>s b. bus_inv b s \<and> bus_pending_clocks s = 0 \<longrightarrow>
     bus_inv b (fst (g s)) \<and> bus_pending_clocks (fst (g s)) = 0 \<and>
     (\<forall>k d. vis (fst (g (restamp k 0 d s))) = vis (fst (g s)) \<and> bus_pending_clocks (fst (g (restamp k 0 d s))) = 0
        \<and> snd (g (restamp k 0 d s)) = snd (g s)))"

lemma settled_simulated:
  fixes g :: "('d, 'p, 'b) bus \<Rightarrow> ('d, 'p, 'b) bus \<times> 'a"
  assumes "settled_op g" shows "simulated (\<lambda>s. g (bus_flush env s))"
  unfolding simulated_def
proof (intro allI impI)
  fix b and l e :: "('d, 'p, 'b) bus" assume r: "lazily b l e"
  note f = lazily_flush [OF r, of env]
  let ?l = "bus_flush env l"
  obtain k d where e: "e = restamp k 0 d ?l" using vis_restamp [OF f(3) [symmetric]] r by (auto simp: lazily_def)
  have "bus_inv b (fst (g ?l))" "bus_pending_clocks (fst (g ?l)) = 0" "vis (fst (g e)) = vis (fst (g ?l))"
    "bus_pending_clocks (fst (g e)) = 0" "snd (g e) = snd (g ?l)"
    using assms f(1,2) unfolding settled_op_def e by blast+
  then show "lazily b (fst (g ?l)) (fst (g (bus_flush env e))) \<and> snd (g (bus_flush env e)) = snd (g ?l)"
    unfolding f(4) by (auto intro: lazily_settled)
qed

lemma lazily_level: "lazily b l e \<Longrightarrow> chip_pending_level (bus_chipset e) = chip_pending_level (bus_chipset l)"
  by (auto elim!: lazily_retime simp del: retime.simps)

lemma simulated_note:
  fixes f :: "('d, 'p, 'b) bus \<Rightarrow> ('d, 'p, 'b) bus \<times> 'a"
  assumes "simulated f" shows "simulated (\<lambda>s. (note_boundary s (fst (f s)), snd (f s)))"
  unfolding simulated_def
proof (intro allI impI)
  fix b and l e :: "('d, 'p, 'b) bus" assume r: "lazily b l e"
  note s = simulatedD [OF assms r]
  have "quiet (\<lambda>s :: ('d, 'p, 'b) bus. (s\<lparr>bus_boundary_request := True\<rparr>, ()))" by (rule quietI) (simp_all add: steady_updates)
  from simulatedD [OF quiet_simulated [OF this] s [THEN conjunct1]]
  have "lazily b ((fst (f l))\<lparr>bus_boundary_request := True\<rparr>) ((fst (f e))\<lparr>bus_boundary_request := True\<rparr>)" by simp
  then show "lazily b (fst (note_boundary l (fst (f l)), snd (f l))) (fst (note_boundary e (fst (f e)), snd (f e)))
      \<and> snd (note_boundary e (fst (f e)), snd (f e)) = snd (note_boundary l (fst (f l)), snd (f l))"
    using s lazily_level [OF r] lazily_level [OF s [THEN conjunct1]] by (simp add: note_boundary_def)
qed

lemma inv_deadline: "bus_inv b s \<Longrightarrow> unat (bus_next_event_clocks s) \<le> 908"
  using chip_calm_bound by (auto simp: bus_inv_def calm_def)

lemma settledI:
  assumes "\<And>s b. bus_inv b s \<Longrightarrow> bus_pending_clocks s = 0 \<Longrightarrow> bus_inv b (fst (g s)) \<and> bus_pending_clocks (fst (g s)) = 0"
    and "\<And>s k d. g (restamp k 0 d s) = (restamp k 0 d (fst (g s)), snd (g s))"
  shows "settled_op g"
  unfolding settled_op_def assms(2) using assms(1) by auto

lemma inv_set_cia:
  "bus_inv b s \<Longrightarrow> cia_ok 20 c \<Longrightarrow> cia_calm (unat (bus_next_event_clocks s)) c \<Longrightarrow>
    (cia_irq_pending c \<Longrightarrow> cia_irq_pending (bus_cia_a s)) \<Longrightarrow> bus_inv b (s\<lparr>bus_cia_a := c\<rparr>)"
  "bus_inv b s \<Longrightarrow> cia_ok 20 c \<Longrightarrow> cia_calm (unat (bus_next_event_clocks s)) c \<Longrightarrow>
    (cia_irq_pending c \<Longrightarrow> cia_irq_pending (bus_cia_b s)) \<Longrightarrow> bus_inv b (s\<lparr>bus_cia_b := c\<rparr>)"
  by (cases "bus_graphics s"; auto simp: bus_inv_def clocked_ok_def calm_def asserted_def)+

lemma settled_cia_read_a: "settled_op (\<lambda>s. (s\<lparr>bus_cia_a := fst (cia_read (bus_cia_a s) reg)\<rparr>, snd (cia_read (bus_cia_a s) reg)))"
proof (rule settledI, goal_cases)
  case (1 s b)
  then have ok: "cia_ok 20 (bus_cia_a s)" "cia_calm (unat (bus_next_event_clocks s)) (bus_cia_a s)"
    by (simp_all add: bus_inv_def clocked_ok_def calm_def)
  show ?case using cia_read_keeps [OF ok(1)] ok(2) inv_deadline [OF 1(1)] 1 by (simp add: inv_set_cia(1))
qed (simp add: restamp_def)

lemma settled_cia_read_b: "settled_op (\<lambda>s. (s\<lparr>bus_cia_b := fst (cia_read (bus_cia_b s) reg)\<rparr>, snd (cia_read (bus_cia_b s) reg)))"
proof (rule settledI, goal_cases)
  case (1 s b)
  then have ok: "cia_ok 20 (bus_cia_b s)" "cia_calm (unat (bus_next_event_clocks s)) (bus_cia_b s)"
    by (simp_all add: bus_inv_def clocked_ok_def calm_def)
  show ?case using cia_read_keeps [OF ok(1)] ok(2) inv_deadline [OF 1(1)] 1 by (simp add: inv_set_cia(2))
qed (simp add: restamp_def)

lemma simulated_read_cia: "simulated (\<lambda>s. read_cia env s address)"
proof (cases "fst (cia_select address)")
  case True
  show ?thesis using settled_simulated [OF settled_cia_read_a, of env "snd (cia_select address)"] True
    by (simp add: read_cia_def Let_def case_prod_beta)
next
  case False
  show ?thesis using settled_simulated [OF settled_cia_read_b, of env "snd (cia_select address)"] False
    by (simp add: read_cia_def Let_def case_prod_beta)
qed

lemma restamp_raise: "raise_if P n (restamp x q d s) = restamp x q d (raise_if P n s)"
  by (simp add: restamp_def raise_if_def chip_raise_int_def)

lemma reassert_facts:
  "clocks_of (reassert_level_irqs s) = clocks_of s" "asserted (reassert_level_irqs s)"
  "chip_ok k (bus_chipset (reassert_level_irqs s)) = chip_ok k (bus_chipset s)"
  "reassert_level_irqs (restamp x q d s) = restamp x q d (reassert_level_irqs s)"
proof -
  show "clocks_of (reassert_level_irqs s) = clocks_of s"
    unfolding reassert_level_irqs_def Let_def by (simp del: clocks_of.simps split: option.split)
  show "asserted (reassert_level_irqs s)"
    by (auto simp: reassert_level_irqs_def Let_def asserted_def raise_intreq split: option.split)
  show "chip_ok k (bus_chipset (reassert_level_irqs s)) = chip_ok k (bus_chipset s)"
    by (simp add: reassert_level_irqs_def Let_def raise_shape split: option.split)
  show "reassert_level_irqs (restamp x q d s) = restamp x q d (reassert_level_irqs s)"
    by (cases "bus_graphics s") (simp_all add: reassert_level_irqs_def restamp_raise)
qed

text \<open>Re-asserting the level sources restores the only part of the invariant a register write can break.\<close>

lemma reassert_inv:
  assumes "clocked_ok (unat (bus_pending_clocks s) + b) s" and "unat (bus_pending_clocks s) < unat (bus_next_event_clocks s)"
    and "calm (unat (bus_next_event_clocks s)) s"
  shows "bus_inv b (reassert_level_irqs s)"
  using assms reassert_facts(1,2) [of s] reassert_facts(3) [of 4 s]
  by (simp add: bus_inv_def clocked_ok_def calm_def chip_calm_def)

lemma cia_ok_pra: "cia_ok k (c\<lparr>cia_pra_input := i\<rparr>) = cia_ok k c"
  by (simp add: cia_ok_def kbd_ok_def)

lemma write_cia_reg_facts:
  "write_cia_reg (restamp k q d s) address v = restamp k q d (write_cia_reg s address v)"
  "bus_pending_clocks (write_cia_reg s address v) = bus_pending_clocks s"
  "clocked_ok b s \<Longrightarrow> clocked_ok b (write_cia_reg s address v)"
  subgoal by (simp add: write_cia_reg_def sync_floppy_status_def restamp_def Let_def case_prod_beta)
  subgoal by (simp add: write_cia_reg_def sync_floppy_status_def Let_def case_prod_beta)
  subgoal using cia_write_ok [of 20]
    by (auto simp add: write_cia_reg_def sync_floppy_status_def Let_def case_prod_beta clocked_ok_def cia_ok_pra)
  done

lemma recompute_facts:
  "bus_pending_clocks (recompute_next_event s) = bus_pending_clocks s"
  "vis (recompute_next_event (restamp k q d s)) = vis s" "vis (recompute_next_event s) = vis s"
  "clocked_ok b (recompute_next_event s) = clocked_ok b s" "calm j (recompute_next_event s) = calm j s"
  by (subst recompute_restamp; simp)+

lemma settled_write_cia: "settled_op (\<lambda>s. (reassert_level_irqs (recompute_next_event (write_cia_reg s address v)), ()))"
  unfolding settled_op_def fst_conv snd_conv
proof (intro allI impI conjI)
  fix s :: "('a, 'b, 'c) bus" and b assume "bus_inv b s \<and> bus_pending_clocks s = 0"
  then have i: "clocked_ok b s" "bus_pending_clocks s = 0" by (auto simp: bus_inv_def)
  let ?w = "write_cia_reg s address v"
  have w: "clocked_ok b ?w" "bus_pending_clocks ?w = 0" using i by (simp_all add: write_cia_reg_facts(2,3))
  show "bus_inv b (reassert_level_irqs (recompute_next_event ?w))"
    using recompute_calm [OF w(1)] w recompute_facts(1) [of ?w]
    by (intro reassert_inv) (simp_all add: recompute_facts)
  show p: "bus_pending_clocks (reassert_level_irqs (recompute_next_event (write_cia_reg s address v))) = 0"
    using reassert_facts(1) [of "recompute_next_event ?w"] w recompute_facts(1) [of ?w] by simp
  fix k d
  have re: "reassert_level_irqs (recompute_next_event (write_cia_reg (restamp k 0 d s) address v))
     = reassert_level_irqs (recompute_next_event (restamp k 0 d ?w))" by (simp add: write_cia_reg_facts)
  show "vis (reassert_level_irqs (recompute_next_event (write_cia_reg (restamp k 0 d s) address v))) =
      vis (reassert_level_irqs (recompute_next_event ?w))"
    unfolding re by (simp only: reassert_facts(4) [symmetric] recompute_facts restamp_simps)
  show "bus_pending_clocks (reassert_level_irqs (recompute_next_event (write_cia_reg (restamp k 0 d s) address v))) = 0"
    unfolding re using reassert_facts(1) [of "recompute_next_event (restamp k 0 d ?w)"] recompute_facts(1) [of "restamp k 0 d ?w"] by simp
qed simp


lemma simulated_write_cia: "simulated (\<lambda>s. (write_cia env s address v, ()))"
  using settled_simulated [OF settled_write_cia] by (simp add: write_cia_def)

lemma inv_set_chip:
  assumes "bus_inv b s" and "same_clock (bus_chipset s) c"
  shows "intreq c = intreq (bus_chipset s) \<Longrightarrow> bus_inv b (s\<lparr>bus_chipset := c\<rparr>)"
    "bus_inv b (reassert_level_irqs (s\<lparr>bus_chipset := c\<rparr>))"
proof -
  have c: "clocked_ok (unat (bus_pending_clocks s) + b) (s\<lparr>bus_chipset := c\<rparr>)" "calm (unat (bus_next_event_clocks s)) (s\<lparr>bus_chipset := c\<rparr>)"
    using assms by (simp_all add: bus_inv_def clocked_ok_def calm_def chip_calm_def same_clock_def)
  show "bus_inv b (reassert_level_irqs (s\<lparr>bus_chipset := c\<rparr>))"
    using c assms(1) by (intro reassert_inv) (simp_all add: bus_inv_def)
  show "bus_inv b (s\<lparr>bus_chipset := c\<rparr>)" if "intreq c = intreq (bus_chipset s)"
    using c assms(1) that by (cases "bus_graphics s") (simp_all add: bus_inv_def asserted_def)
qed

lemma settled_quiet:
  fixes g :: "('d, 'p, 'b) bus \<Rightarrow> ('d, 'p, 'b) bus \<times> 'a"
  assumes "quiet g" shows "settled_op g"
  unfolding settled_op_def
proof (intro allI impI, elim conjE)
  fix s :: "('d, 'p, 'b) bus" and b assume i: "bus_inv b s" "bus_pending_clocks s = 0"
  have a: "asserted s" using i by (simp add: bus_inv_def)
  have st: "steady s (fst (g s))" and com: "\<And>z. asserted (retime z s) \<Longrightarrow> g (retime z s) = (retime z (fst (g s)), snd (g s))"
    using assms a unfolding quiet_def by blast+
  have cl: "clocks_of (fst (g s)) = clocks_of s" using st by (simp add: steady_def del: clocks_of.simps)
  have "g (restamp k 0 d s) = (restamp k 0 d (fst (g s)), snd (g s))" for k d
    using com [of "(carry (bus_chipset s), total_colour_clocks (bus_chipset s), k, bus_cia_a s, bus_cia_b s, 0, d)"] a cl
      restamp_inv(2) [of k 0 d s] unfolding restamp_retime by simp
  then show "bus_inv b (fst (g s)) \<and> bus_pending_clocks (fst (g s)) = 0 \<and>
      (\<forall>k d. vis (fst (g (restamp k 0 d s))) = vis (fst (g s)) \<and> bus_pending_clocks (fst (g (restamp k 0 d s))) = 0
        \<and> snd (g (restamp k 0 d s)) = snd (g s))"
    using steady_inv(2) [OF st i(1)] cl i(2) by simp
qed

lemma settled_chip_read:
  "settled_op (\<lambda>s. (s\<lparr>bus_chipset := fst (chip_read (bus_chipset s) r)\<rparr>, f (bus_blitter s) (snd (chip_read (bus_chipset s) r))))"
proof (rule settledI, goal_cases)
  case (1 s b)
  then show ?case using inv_set_chip(1) [OF 1(1)] chip_read_keeps(1,2) by simp
qed (simp add: restamp_def chip_read_keeps(3))

lemma simulated_read_custom: "simulated (\<lambda>s. read_custom_word env s address)"
proof (cases "is_blitter (custom_offset address)")
  case True
  have "quiet (\<lambda>s. (s, blt_read (bus_blitter s) (custom_offset address)))" by (rule quiet_id) simp
  from settled_simulated [OF settled_quiet [OF this], of env] True
  show ?thesis by (simp add: read_custom_word_def Let_def)
next
  case False
  let ?f = "\<lambda>blt v. if custom_offset address = CHIP_DMACONR then v OR blt_dmaconr_bits blt else v"
  have "read_custom_word env s address = (\<lambda>s. (s\<lparr>bus_chipset := fst (chip_read (bus_chipset s) (custom_offset address))\<rparr>,
      ?f (bus_blitter s) (snd (chip_read (bus_chipset s) (custom_offset address))))) (bus_flush env s)" for s :: "('a, 'b, 'c) bus"
    using False by (simp add: read_custom_word_def Let_def case_prod_beta)
  then show ?thesis using settled_simulated [OF settled_chip_read [of "custom_offset address" ?f], of env] by simp
qed

lemma quiet_run_blitter: "quiet (\<lambda>s. (let (blt, start) = blt_write (bus_blitter s) r v; s = s\<lparr>bus_blitter := blt\<rparr>
    in if start then run_blitter s else s, ()))"
proof (rule quietI, goal_cases)
  case (1 s)
  have "steady t (run_blitter t)" for t :: "('a, 'b, 'c) bus"
    using steady_trans [OF steady_updates(2) steady_updates(1), of t]
    by (auto simp: run_blitter_def Let_def case_prod_beta intro!: steady_raise)
  then have "steady s (run_blitter (s\<lparr>bus_blitter := x\<rparr>))" for x by (rule steady_trans [OF steady_updates(2)])
  then show ?case by (simp add: Let_def case_prod_beta steady_updates)
qed (simp add: run_blitter_def Let_def case_prod_beta)

lemma settled_write_custom: "settled_op (\<lambda>s. (write_custom_reg s address v, ()))"
proof (cases "is_blitter (custom_offset address)")
  case True
  then show ?thesis using settled_quiet [OF quiet_run_blitter, of "custom_offset address" v] by (simp add: write_custom_reg_def)
next
  case False
  then have w: "write_custom_reg s address v = reassert_level_irqs (s\<lparr>bus_chipset := chip_write (bus_chipset s) (custom_offset address) v\<rparr>)"
    for s :: "('a, 'b, 'c) bus" by (simp add: write_custom_reg_def)
  show ?thesis unfolding w
  proof (rule settledI, goal_cases)
    case (1 s b)
    let ?u = "s\<lparr>bus_chipset := chip_write (bus_chipset s) (custom_offset address) v\<rparr>"
    show ?case using inv_set_chip(2) [OF 1(1) chip_write_keeps(1)] reassert_facts(1) [of ?u] 1(2) by simp
  next
    case (2 s k d)
    have "(restamp k 0 d s)\<lparr>bus_chipset := chip_write (bus_chipset (restamp k 0 d s)) (custom_offset address) v\<rparr>
      = restamp k 0 d (s\<lparr>bus_chipset := chip_write (bus_chipset s) (custom_offset address) v\<rparr>)"
      by (simp add: restamp_def chip_write_keeps(2))
    then show ?case by (simp only: reassert_facts(4) fst_conv snd_conv)
  qed
qed

lemma simulated_write_custom: "simulated (\<lambda>s. (write_custom_word env s address v, ()))"
  using simulated_note [OF settled_simulated [OF settled_write_custom [of address v], of env]]
  by (simp add: write_custom_word_def write_custom_word_inner_def)


section \<open>Guest accesses\<close>

lemma simulated_case:
  fixes f :: "('d, 'p, 'b) bus \<Rightarrow> ('d, 'p, 'b) bus \<times> 'a"
  assumes "\<And>z s. h (retime z s) = h s" and "simulated f" and "\<And>x. simulated (g x)"
  shows "simulated (\<lambda>s. case h s of None \<Rightarrow> f s | Some x \<Rightarrow> g x s)"
  unfolding simulated_def
proof (intro allI impI)
  fix b and l e :: "('d, 'p, 'b) bus" assume r: "lazily b l e"
  obtain z where "e = retime z l" using lazily_retime [OF r] .
  then have h: "h e = h l" using assms(1) by simp
  show "lazily b (fst (case h l of None \<Rightarrow> f l | Some x \<Rightarrow> g x l)) (fst (case h e of None \<Rightarrow> f e | Some x \<Rightarrow> g x e))
      \<and> snd (case h e of None \<Rightarrow> f e | Some x \<Rightarrow> g x e) = snd (case h l of None \<Rightarrow> f l | Some x \<Rightarrow> g x l)"
    unfolding h using simulatedD [OF assms(2) r] simulatedD [OF assms(3) r] by (cases "h l") simp_all
qed

lemma simulated_if:
  "(\<And>z s. P (retime z s) = P s) \<Longrightarrow> simulated f \<Longrightarrow> simulated g \<Longrightarrow> simulated (\<lambda>s. if P s then f s else g s)"
  using simulated_case [of "\<lambda>s. if P s then Some () else None" g "\<lambda>_. f"] by (simp del: retime.simps split_paired_All split_paired_all add: if_distrib cong: if_cong)

lemma simulated_id: "(\<And>z s. h (retime z s) = h s) \<Longrightarrow> simulated (\<lambda>s. (s, h s))"
  by (rule quiet_simulated [OF quiet_id])

lemma simulated_map:
  "simulated f \<Longrightarrow> simulated (\<lambda>s. (fst (f s), h (snd (f s))))"
  unfolding simulated_def by simp

lemma simulated_then:
  assumes "simulated f" and "\<And>v. simulated (g v)" shows "simulated (\<lambda>s. g (snd (f s)) (fst (f s)))"
  using simulated_bind [OF assms] by (simp add: Let_def case_prod_beta)

lemma simulated_read_byte: "simulated (\<lambda>s. read_byte env s address)"
proof -
  have board: "simulated (\<lambda>s. let (s', v) = read_byte_board env s idx address in (note_boundary s s', v))" for idx
    using quiet_simulated [OF quiet_note [OF quiet_read_board], of env idx address] by (simp add: case_prod_beta)
  have custom: "simulated (\<lambda>s. let (s, word) = read_custom_word env s (address AND NOT 1) in (s, h word))" for h :: "u16 \<Rightarrow> u8"
    using simulated_map [OF simulated_read_custom] by (simp add: case_prod_beta)
  show ?thesis
    unfolding read_byte_def read_byte_slow_def
    by (intro simulated_case simulated_if simulated_id simulated_read_cia board custom) simp_all
qed

lemma simulated_aperture:
  "simulated (\<lambda>s. case (pcibridge_aperture_sized s address w, bus_pcibridge s) of
     (Some k, Some br) \<Rightarrow> (let (br, v) = br_read_aperture_sized (be_pci env) br k w in (s\<lparr>bus_pcibridge := Some br\<rparr>, h v)) | _ \<Rightarrow> f s)"
  if f: "simulated f"
proof -
  have leaf: "simulated (\<lambda>s. (s\<lparr>bus_pcibridge := Some (fst (br_read_aperture_sized (be_pci env) br k w))\<rparr>,
      h (snd (br_read_aperture_sized (be_pci env) br k w))))" for br k
    by (intro quiet_simulated quiet_leaf(1)) (simp_all add: steady_updates)
  have "simulated (\<lambda>s. case pcibridge_aperture_sized s address w of None \<Rightarrow> f s
     | Some k \<Rightarrow> (case bus_pcibridge s of None \<Rightarrow> f s
       | Some br \<Rightarrow> (s\<lparr>bus_pcibridge := Some (fst (br_read_aperture_sized (be_pci env) br k w))\<rparr>,
           h (snd (br_read_aperture_sized (be_pci env) br k w)))))"
    by (intro simulated_case f leaf) simp_all
  moreover have "(case (pcibridge_aperture_sized s address w, bus_pcibridge s) of
     (Some k, Some br) \<Rightarrow> (let (br, v) = br_read_aperture_sized (be_pci env) br k w in (s\<lparr>bus_pcibridge := Some br\<rparr>, h v)) | _ \<Rightarrow> f s) =
     (case pcibridge_aperture_sized s address w of None \<Rightarrow> f s
     | Some k \<Rightarrow> (case bus_pcibridge s of None \<Rightarrow> f s
       | Some br \<Rightarrow> (s\<lparr>bus_pcibridge := Some (fst (br_read_aperture_sized (be_pci env) br k w))\<rparr>,
           h (snd (br_read_aperture_sized (be_pci env) br k w)))))" for s
    by (simp add: case_prod_beta split: option.split)
  ultimately show ?thesis by simp
qed

lemma simulated_read_word: "simulated (\<lambda>s. read_word env s address)"
proof -
  have "simulated (\<lambda>s. let (s, hi) = read_byte env s address; (s, lo) = read_byte env s (address + 1) in (s, h hi lo))" for h :: "u8 \<Rightarrow> u8 \<Rightarrow> u16"
    using simulated_bind [OF simulated_read_byte simulated_map [OF simulated_read_byte]] by (simp add: case_prod_beta Let_def)
  then show ?thesis
    unfolding read_word_def
    by (intro simulated_if simulated_case simulated_id simulated_read_custom simulated_aperture) simp_all
qed

lemma simulated_read_long: "simulated (\<lambda>s. read_long env s address)"
proof -
  have "simulated (\<lambda>s. let (s, hi) = read_word env s address; (s, lo) = read_word env s (address + 2) in (s, h hi lo))" for h :: "u16 \<Rightarrow> u16 \<Rightarrow> u32"
    using simulated_bind [OF simulated_read_word simulated_map [OF simulated_read_word]] by (simp add: case_prod_beta Let_def)
  then show ?thesis
    unfolding read_long_def
    by (intro simulated_case simulated_id simulated_aperture [where h = "\<lambda>v. v"]) simp_all
qed


lemma simulated_write_slow: "simulated (\<lambda>s. (write_byte_slow env s address v, ()))"
proof -
  have "steady s (refresh_windows (s\<lparr>bus_autoconfig := ac_write (bus_autoconfig s) address v\<rparr>))" for s :: "('a, 'b, 'c) bus"
    unfolding refresh_windows_def by (rule steady_trans [OF steady_updates(3) steady_updates(13)])
  then have ac: "simulated (\<lambda>s :: ('a, 'b, 'c) bus. (refresh_windows (s\<lparr>bus_autoconfig := ac_write (bus_autoconfig s) address v\<rparr>), ()))"
    by (intro quiet_simulated quiet_leaf(1)) simp_all
  have custom: "simulated (\<lambda>s. (let (s, current) = read_custom_word env s a; merged = h current in write_custom_word env s a merged, ()))"
    for a and h :: "u16 \<Rightarrow> u16"
    using simulated_bind [OF simulated_read_custom [of env a], of "\<lambda>w s. (write_custom_word env s a (h w), ())"] simulated_write_custom [of env a]
    by (simp add: case_prod_beta Let_def)
  show ?thesis
    unfolding write_byte_slow_def if_distrib [of "\<lambda>t. (t, ())"] option.case_distrib [of "\<lambda>t. (t, ())"]
    using custom [of "address AND NOT 1"] unfolding Let_def
    by (intro simulated_case simulated_if simulated_id simulated_write_cia ac quiet_simulated [OF quiet_write_board]) simp_all
qed

lemma bank_store_steady: "steady s (bank_store s bk mem)"
  by (cases bk) (simp_all add: steady_updates)

lemma simulated_store:
  assumes "simulated (\<lambda>s. (f s, ()))"
  shows "simulated (\<lambda>s. (case fast_store s address bs of Some s' \<Rightarrow> s' | None \<Rightarrow> f s, ()))"
proof -
  have "simulated (\<lambda>s. case fast_region_mut s address of None \<Rightarrow> (f s, ())
      | Some (bk, off) \<Rightarrow> if off + length bs \<le> length (bank_bytes s bk) then (bank_store s bk (splice_at (bank_bytes s bk) off bs), ()) else (f s, ()))"
    unfolding case_prod_beta
    by (intro simulated_case simulated_if assms quiet_simulated quiet_leaf(1)) (simp_all add: bank_store_steady)
  moreover have "(case fast_store s address bs of Some s' \<Rightarrow> s' | None \<Rightarrow> f s, ()) = (case fast_region_mut s address of None \<Rightarrow> (f s, ())
      | Some (bk, off) \<Rightarrow> if off + length bs \<le> length (bank_bytes s bk) then (bank_store s bk (splice_at (bank_bytes s bk) off bs), ()) else (f s, ()))" for s
    by (simp add: fast_store_def split: option.split)
  ultimately show ?thesis by (simp only:)
qed

lemma simulated_write_byte: "simulated (\<lambda>s. (write_byte env s address v, ()))"
proof -
  have chip: "simulated (\<lambda>s. (s\<lparr>bus_ram := (bus_ram s)\<lparr>gr_chip_ram := (gr_chip_ram (bus_ram s))[i := v]\<rparr>\<rparr>, ()))" for i
    by (intro quiet_simulated quiet_leaf(1)) (simp_all add: steady_updates)
  have slow: "simulated (\<lambda>s. (note_boundary s (write_byte_slow env s address v), ()))"
    using simulated_note [OF simulated_write_slow] by simp
  have "simulated (\<lambda>s. (if CHIP_RAM_BASE \<le> address \<and> address < CHIP_RAM_END
        then s\<lparr>bus_ram := (bus_ram s)\<lparr>gr_chip_ram := (gr_chip_ram (bus_ram s))[unat (address - CHIP_RAM_BASE) := v]\<rparr>\<rparr>
        else note_boundary s (write_byte_slow env s address v), ()))"
    unfolding if_distrib [of "\<lambda>t. (t, ())"] by (intro simulated_if chip slow) simp_all
  from simulated_store [OF this, of address "[v]"] show ?thesis unfolding write_byte_def .
qed

lemma simulated_write_aperture:
  "simulated (\<lambda>s. (case (pcibridge_aperture_sized s address w, bus_pcibridge s) of
     (Some k, Some br) \<Rightarrow> write_aperture env s br k w v | _ \<Rightarrow> f s, ()))"
  if f: "simulated (\<lambda>s. (f s, ()))"
proof -
  have "quiet (\<lambda>s. (write_aperture env s br k w v, ()))" for br k
  proof (rule quietI, goal_cases)
    case (1 s)
    have "steady s (note_boundary u (raise_if True INTBIT_PORTS (s\<lparr>bus_pcibridge := x\<rparr>)))" "steady s (s\<lparr>bus_pcibridge := x\<rparr>)" for u x
      by (intro steady_note steady_raise steady_updates)+
    then show ?case by (simp add: write_aperture_def Let_def case_prod_beta)
  qed (simp add: write_aperture_def Let_def case_prod_beta)
  note leaf = quiet_simulated [OF this]
  have "simulated (\<lambda>s. case pcibridge_aperture_sized s address w of None \<Rightarrow> (f s, ())
     | Some k \<Rightarrow> (case bus_pcibridge s of None \<Rightarrow> (f s, ()) | Some br \<Rightarrow> (write_aperture env s br k w v, ())))"
    by (intro simulated_case f leaf) simp_all
  moreover have "(case (pcibridge_aperture_sized s address w, bus_pcibridge s) of
     (Some k, Some br) \<Rightarrow> write_aperture env s br k w v | _ \<Rightarrow> f s, ()) =
     (case pcibridge_aperture_sized s address w of None \<Rightarrow> (f s, ())
     | Some k \<Rightarrow> (case bus_pcibridge s of None \<Rightarrow> (f s, ()) | Some br \<Rightarrow> (write_aperture env s br k w v, ())))" for s
    by (simp split: option.split)
  ultimately show ?thesis by (simp only:)
qed

lemma simulated_seq: "simulated (\<lambda>s. (f s, ())) \<Longrightarrow> simulated (\<lambda>s. (g s, ())) \<Longrightarrow> simulated (\<lambda>s. (g (f s), ()))"
  using simulated_bind [of "\<lambda>s. (f s, ())" "\<lambda>_ s. (g s, ())"] by simp

lemma simulated_write_word: "simulated (\<lambda>s. (write_word env s address v, ()))"
  unfolding write_word_def if_distrib [of "\<lambda>t. (t, ())"]
  by (intro simulated_if simulated_write_custom simulated_store simulated_write_aperture
      simulated_seq [of "\<lambda>s. write_byte env s address (ucast (drop_bit 8 v))" "\<lambda>s. write_byte env s (address + 1) (ucast v)"]
      simulated_write_byte) simp

lemma simulated_write_long: "simulated (\<lambda>s. (write_long env s address v, ()))"
  unfolding write_long_def
  by (intro simulated_store simulated_write_aperture
      simulated_seq [of "\<lambda>s. write_word env s address (ucast (drop_bit 16 v))" "\<lambda>s. write_word env s (address + 2) (ucast v)"]
      simulated_write_word)


section \<open>Host input\<close>

lemma quiet_chip:
  assumes "\<And>x t k c. u (reclock x t k c) = reclock x t k (u c)" "\<And>c. intreq (u c) = intreq c" "\<And>k c. chip_ok k (u c) = chip_ok k c"
  shows "quiet (\<lambda>s. (s\<lparr>bus_chipset := u (bus_chipset s)\<rparr>, ()))"
proof (rule quietI, goal_cases)
  case (1 s)
  have "carry (u c) = carry c \<and> total_colour_clocks (u c) = total_colour_clocks c \<and> coarse_tick_streak (u c) = coarse_tick_streak c" for c
    using assms(1) [of "carry c" "total_colour_clocks c" "coarse_tick_streak c" c] reclock_self [of c] by (metis reclock_simps(5-7))
  then show ?case by (auto simp: steady_def assms split: option.split)
next
  case (2 s z)
  then show ?case by (cases z) (simp add: assms(1))
qed

lemma inv_pra: "bus_inv b s \<Longrightarrow> bus_inv b (s\<lparr>bus_cia_a := (bus_cia_a s)\<lparr>cia_pra_input := i\<rparr>\<rparr>)"
proof -
  assume i: "bus_inv b s"
  have "event_times (c\<lparr>cia_pra_input := i\<rparr>) = event_times c" for c
    by (simp add: event_times_def kbd_times_def ta_runs_def tb_runs_def crb_inmode_def)
  then show ?thesis
    using i by (intro inv_set_cia(1)) (auto simp: cia_ok_pra cia_calm_def cia_irq_pending_def bus_inv_def clocked_ok_def calm_def)
qed

lemma simulated_left_button:
  fixes g :: "u8 \<Rightarrow> u8"
  shows "simulated (\<lambda>s. (s\<lparr>bus_cia_a := (bus_cia_a s)\<lparr>cia_pra_input := g (cia_pra_input (bus_cia_a s))\<rparr>\<rparr>, ()))" (is "simulated (\<lambda>s. (?f s, ()))")
  unfolding simulated_def
proof (intro allI impI)
  fix b and l e :: "('a, 'b, 'c) bus" assume r: "lazily b l e"
  have part: "c\<lparr>cia_pra_input := i\<rparr> = tod_part (cia_tod c) (cia_tod_matching c) 0 i c" for c i by (simp add: tod_part_def)
  have "cia_elapse 20 p (c\<lparr>cia_pra_input := i\<rparr>) = (cia_elapse 20 p c)\<lparr>cia_pra_input := i\<rparr>" for p c i
    unfolding part elapse_tod_part elapse_keeps_tod ..
  then have w: "waited p (?f l) = ?f (waited p l)" for p by (simp add: waited_def elapse_keeps_tod)
  have v: "vis (?f s) = ?f (vis s)" for s :: "('a, 'b, 'c) bus" by (simp add: restamp_def)
  have "vis e = vis (waited (unat (bus_pending_clocks l)) l)" using r by (simp add: lazily_def)
  then have "vis (?f e) = vis (waited (unat (bus_pending_clocks (?f l))) (?f l))" unfolding w v by simp
  moreover have "bus_inv b (?f l)" using r by (simp add: lazily_def inv_pra)
  ultimately show "lazily b (fst (?f l, ())) (fst (?f e, ())) \<and> snd (?f e, ()) = snd (?f l, ())"
    using r by (simp add: lazily_def)
qed

lemma simulated_mouse_delta: "simulated (\<lambda>s. (bus_mouse_delta s dx dy, ()))"
  unfolding bus_mouse_delta_def by (intro quiet_simulated quiet_chip) (simp_all add: chip_mouse_delta_def reclock_def Let_def chip_ok_def)

lemma simulated_mouse_button: "simulated (\<lambda>s. (bus_mouse_button s button pressed, ()))"
proof (cases "button = MouseLeft")
  case True
  then show ?thesis using simulated_left_button [of "\<lambda>i. if pressed then i AND NOT CIA_A_PRA_FIR0 else i OR CIA_A_PRA_FIR0"]
    by (simp add: bus_mouse_button_def)
next
  case False
  have "quiet (\<lambda>s :: ('a, 'b, 'c) bus. (s\<lparr>bus_chipset := chip_mouse_button (bus_chipset s) button pressed\<rparr>, ()))"
    by (rule quiet_chip) (cases button; simp add: chip_mouse_button_def reclock_def Let_def chip_ok_def)+
  then show ?thesis using False by (simp add: bus_mouse_button_def quiet_simulated)
qed

lemma simulated_take_boundary: "simulated take_boundary_request"
  unfolding take_boundary_request_def by (intro quiet_simulated quiet_leaf(1)) (simp_all add: steady_updates)

section \<open>Machines and runs\<close>

text \<open>The optional parts a machine can be built with, in any number and order.\<close>

datatype ('d, 'p, 'b) card = CardMirage u8 'd | CardHostblk u8 'd bool | CardGraphics "u8 list" | CardGraphicsZ3 "u8 list"
  | CardFastRam "u8 list" | CardInput | CardPktport 'p | CardRtg "u8 list" "mode_descriptor list" | CardPcibridge 'b
  | CardExtRom "u8 list" | CardFloppy floppy_presence

fun fit_card :: "('d, 'p, 'b) card \<Rightarrow> ('d, 'p, 'b) bus \<Rightarrow> ('d, 'p, 'b) bus" where
  "fit_card (CardMirage u d) s = with_mirage s u d"
| "fit_card (CardHostblk u d wp) s = with_hostblk s u d wp"
| "fit_card (CardGraphics vram) s = with_graphics s vram"
| "fit_card (CardGraphicsZ3 vram) s = with_graphics_zorro_iii s vram"
| "fit_card (CardFastRam mem) s = with_fast_ram s mem"
| "fit_card CardInput s = with_input s"
| "fit_card (CardPktport p) s = with_pktport s p"
| "fit_card (CardRtg vram catalog) s = with_rtgboard s vram catalog"
| "fit_card (CardPcibridge b) s = with_pcibridge s b"
| "fit_card (CardExtRom rom) s = with_ext_rom s rom"
| "fit_card (CardFloppy p) s = with_floppy s p"

definition machine :: "u8 list \<Rightarrow> u8 list \<Rightarrow> ('d, 'p, 'b) card list \<Rightarrow> ('d, 'p, 'b) bus" where
  "machine chip_ram rom cards = fold fit_card cards (bus_new chip_ram rom)"

text \<open>What the CPU core and the host do to the bus, and what they can observe after each step.\<close>

datatype bus_op = Tick u32 | Read8 u32 | Read16 u32 | Read32 u32 | Write8 u32 u8 | Write16 u32 u16 | Write32 u32 u32
  | MouseDelta u8 u8 | MouseButton mouse_button bool | TakeBoundary

fun bus_step :: "(('d, 'p, 'b) bus_env \<Rightarrow> u32 \<Rightarrow> ('d, 'p, 'b) bus \<Rightarrow> ('d, 'p, 'b) bus) \<Rightarrow> ('d, 'p, 'b) bus_env \<Rightarrow>
    bus_op \<Rightarrow> ('d, 'p, 'b) bus \<Rightarrow> ('d, 'p, 'b) bus \<times> u32" where
  "bus_step tick env (Tick n) s = (tick env n s, 0)"
| "bus_step tick env (Read8 a) s = (let (s, v) = read_byte env s a in (s, ucast v))"
| "bus_step tick env (Read16 a) s = (let (s, v) = read_word env s a in (s, ucast v))"
| "bus_step tick env (Read32 a) s = read_long env s a"
| "bus_step tick env (Write8 a v) s = (write_byte env s a v, 0)"
| "bus_step tick env (Write16 a v) s = (write_word env s a v, 0)"
| "bus_step tick env (Write32 a v) s = (write_long env s a v, 0)"
| "bus_step tick env (MouseDelta dx dy) s = (bus_mouse_delta s dx dy, 0)"
| "bus_step tick env (MouseButton bt p) s = (bus_mouse_button s bt p, 0)"
| "bus_step tick env TakeBoundary s = (let (s, r) = take_boundary_request s in (s, if r then 1 else 0))"

fun bus_run :: "(('d, 'p, 'b) bus_env \<Rightarrow> u32 \<Rightarrow> ('d, 'p, 'b) bus \<Rightarrow> ('d, 'p, 'b) bus) \<Rightarrow> ('d, 'p, 'b) bus_env \<Rightarrow>
    bus_op list \<Rightarrow> ('d, 'p, 'b) bus \<Rightarrow> (u32 \<times> u8 \<times> u64) list" where
  "bus_run tick env [] s = []"
| "bus_run tick env (op # ops) s =
     (let (s', v) = bus_step tick env op s in (v, pending_irq_level s', bus_frames s') # bus_run tick env ops s')"

fun op_clocks :: "bus_op \<Rightarrow> nat" where
  "op_clocks (Tick n) = unat n"
| "op_clocks _ = 0"

lemma simulated_unit: "simulated (\<lambda>s. (f s, ())) \<Longrightarrow> simulated (\<lambda>s. (f s, x))"
  using simulated_map [of "\<lambda>s. (f s, ())" "\<lambda>_. x"] by simp

lemma step_simulated: "(\<And>n. op \<noteq> Tick n) \<Longrightarrow> simulated (\<lambda>s. bus_step tick env op s)"
proof (cases op)
  case (Tick n) assume "\<And>n. op \<noteq> Tick n" then show ?thesis using Tick by blast
next
  case (Read8 a) show ?thesis using simulated_map [OF simulated_read_byte] unfolding Read8 by (simp add: case_prod_beta)
next
  case (Read16 a) show ?thesis using simulated_map [OF simulated_read_word] unfolding Read16 by (simp add: case_prod_beta)
next
  case TakeBoundary show ?thesis using simulated_map [OF simulated_take_boundary] unfolding TakeBoundary by (simp add: case_prod_beta)
qed (simp_all add: simulated_read_long simulated_unit [OF simulated_write_byte] simulated_unit [OF simulated_write_word]
    simulated_unit [OF simulated_write_long] simulated_unit [OF simulated_mouse_delta] simulated_unit [OF simulated_mouse_button])

lemma step_lazily:
  assumes "lazily (op_clocks op + b) l e" and "op_clocks op < 2 ^ 32 - 1000"
  shows "lazily b (fst (bus_step bus_tick env op l)) (fst (bus_step tick_eager env op e))
    \<and> snd (bus_step tick_eager env op e) = snd (bus_step bus_tick env op l)"
proof (cases "\<exists>n. op = Tick n")
  case True
  then show ?thesis using assms lazily_tick by auto
next
  case False
  then have o: "op_clocks op = 0" "\<And>n. op \<noteq> Tick n" by (cases op; simp)+
  have "bus_step tick_eager env op e = bus_step bus_tick env op e" using o(2) by (cases op) auto
  then show ?thesis using simulatedD [OF step_simulated [OF o(2)], of b l e bus_tick env] assms(1) o(1) by simp
qed

lemma run_lazily:
  "lazily (sum_list (map op_clocks ops)) l e \<Longrightarrow> \<forall>op \<in> set ops. op_clocks op < 2 ^ 32 - 1000 \<Longrightarrow>
    bus_run bus_tick env ops l = bus_run tick_eager env ops e"
proof (induction ops arbitrary: l e)
  case (Cons op ops)
  note st = step_lazily [of op "sum_list (map op_clocks ops)" l e env]
  let ?l = "fst (bus_step bus_tick env op l)" and ?e = "fst (bus_step tick_eager env op e)"
  have r: "lazily (sum_list (map op_clocks ops)) ?l ?e" "snd (bus_step tick_eager env op e) = snd (bus_step bus_tick env op l)"
    using st Cons.prems by simp_all
  obtain z where z: "?e = retime z ?l" using lazily_retime [OF r(1)] .
  have "pending_irq_level ?e = pending_irq_level ?l" "bus_frames ?e = bus_frames ?l" unfolding z by (simp_all add: pending_irq_level_def bus_frames_def)
  then show ?case using r(2) Cons.IH [OF r(1)] Cons.prems(2) by (simp add: case_prod_beta)
qed simp


text \<open>Every machine starts settled, whatever it is built from.\<close>

lemma new_inv: "b < 2 ^ 63 \<Longrightarrow> bus_inv b (bus_new chip_ram rom)" "bus_pending_clocks (bus_new chip_ram rom) = 0"
proof -
  have "cia_ok 20 (cia_new i)" "\<not> cia_irq_pending (cia_new i)" for i
    by (simp_all add: cia_new_def cia_ok_def kbd_ok_def ring_ok_def cia_irq_pending_def)
  then show "b < 2 ^ 63 \<Longrightarrow> bus_inv b (bus_new chip_ram rom)"
    unfolding bus_new_def by (intro recomputed_inv) (simp_all add: clocked_ok_def asserted_def chip_new_ok, simp add: chip_new_def)
  show "bus_pending_clocks (bus_new chip_ram rom) = 0" by (simp add: bus_new_def recompute_facts)
qed

lemma fit_steady:
  "steady s (with_mirage s u d)" "steady s (with_hostblk s u d wp)" "steady s (with_fast_ram s mem)" "steady s (with_input s)"
  "steady s (with_pktport s p)" "steady s (with_rtgboard s vram catalog)" "steady s (with_pcibridge s x)" "steady s (with_ext_rom s r)"
  "\<not> gf_irq_pending g \<Longrightarrow> steady s (attach_graphics s g)"
  by (auto simp: with_mirage_def with_hostblk_def with_fast_ram_def with_input_def with_pktport_def with_rtgboard_def with_pcibridge_def
      with_ext_rom_def attach_graphics_def refresh_windows_def Let_def case_prod_beta steady_def split: option.split)

lemma fit_inv: "bus_inv b s \<Longrightarrow> bus_inv b (fit_card c s)" "bus_pending_clocks (fit_card c s) = bus_pending_clocks s"
proof -
  have g: "\<not> gf_irq_pending (gf_with_variant v vram)" for v vram
    by (simp add: gf_with_variant_def gf_irq_pending_def vga_irq_pending_def vga_new_def)
  have fl: "bus_inv b (with_floppy s p)" if "bus_inv b s" for p
  proof -
    have "bus_inv b (s\<lparr>bus_floppy := fd_new p\<rparr>)"
      by (rule steady_inv(2) [OF _ that]) (auto simp: steady_def split: option.split)
    then show ?thesis unfolding with_floppy_def sync_floppy_status_def by (rule inv_pra)
  qed
  note steady = fit_steady(1-8) fit_steady(9) [OF g]
  show "bus_inv b s \<Longrightarrow> bus_inv b (fit_card c s)"
    by (cases c) (simp_all add: steady [THEN steady_inv(2)] with_graphics_def with_graphics_zorro_iii_def gf_new_def gf_new_zorro_iii_def fl)
  have "bus_pending_clocks t = bus_pending_clocks s" if "steady s t" for s t :: "('a, 'b, 'c) bus" using that by (simp add: steady_def)
  note steady [THEN this]
  then show "bus_pending_clocks (fit_card c s) = bus_pending_clocks s"
    by (cases c) (simp_all add: with_graphics_def with_graphics_zorro_iii_def gf_new_def gf_new_zorro_iii_def
      with_floppy_def sync_floppy_status_def)
qed

lemma machine_inv: "b < 2 ^ 63 \<Longrightarrow> bus_inv b (machine chip_ram rom cards)" "bus_pending_clocks (machine chip_ram rom cards) = 0"
proof -
  have "bus_inv b s \<Longrightarrow> bus_inv b (fold fit_card cards s)" "bus_pending_clocks (fold fit_card cards s) = bus_pending_clocks s" for s :: "('a, 'b, 'c) bus"
    by (induction cards arbitrary: s) (simp_all add: fit_inv)
  then show "b < 2 ^ 63 \<Longrightarrow> bus_inv b (machine chip_ram rom cards)" "bus_pending_clocks (machine chip_ram rom cards) = 0"
    by (simp_all add: machine_def new_inv)
qed

text \<open>C1 [refinement]: deferring device time is unobservable. On every machine, built from any list of cards, and for every
  sequence of clock ticks, guest reads and writes of 8, 16 and 32 bits at any address, mouse input and boundary-request
  polls, a bus driven by \<open>tick\<close> (which only accumulates clocks until the next deadline) and a bus driven by \<open>tick_eager\<close> (which
  applies each call at once) give the same value for every read and the same interrupt level and frame count after every
  step. A single tick is below \<open>2 ^ 32 - 1000\<close> clocks, and a run below \<open>2 ^ 63\<close>.\<close>

theorem bus_deferral_unobservable:
  fixes env :: "('d, 'p, 'b) bus_env" and cards :: "('d, 'p, 'b) card list"
  assumes "\<forall>op \<in> set ops. op_clocks op < 2 ^ 32 - 1000" and "sum_list (map op_clocks ops) < 2 ^ 63"
  shows "bus_run bus_tick env ops (machine chip_ram rom cards) = bus_run tick_eager env ops (machine chip_ram rom cards)"
  by (intro run_lazily [OF _ assms(1)] lazily_settled machine_inv(1) [OF assms(2)] machine_inv(2) refl)


text \<open>A machine with a hard disk and no other host object, timing out its CIA timer across several raster lines.\<close>

definition sample_env :: "(file_block_device, nat, test_mem_device virtual_slot list) bus_env" where
  "sample_env = \<lparr>be_block = file_dev, be_packets = counting_backend, be_pci = virtual_pci_bus test_mem_dev, be_hostblk_rom = [],
     be_input_rom = [], be_pktport_rom = []\<rparr>"

theorem bus_deferral_unobservable_witness:
  "bus_run bus_tick sample_env [Write8 0xBFEE01 1, Tick 300, Read16 0xDFF006, Tick 900, Read8 0xBFED01, Read16 0xDFF01E] (machine [0, 0] [] [CardInput]) =
   bus_run tick_eager sample_env [Write8 0xBFEE01 1, Tick 300, Read16 0xDFF006, Tick 900, Read8 0xBFED01, Read16 0xDFF01E] (machine [0, 0] [] [CardInput])"
  by (rule bus_deferral_unobservable) simp_all

end
