(* ===== verification/VirtioNet.thy ===== *)
theory VirtioNet
  imports Pci
begin

text \<open>
  The virtio network function of \<open>crates/machine-core/src/pci.rs\<close>, \<open>VirtioNetStub\<close>: its capability chain, the registers
  behind BAR0, feature negotiation, and the two split virtqueues it serves from guest memory.

  The \<open>NetBackend\<close> trait is a record of two operations over a type of backend states; \<open>poll_receive\<close> returns the buffer as
  it leaves it. The receive and transmit loops read the guest's ring index again in each round, so they are partial functions:
  \<open>None\<close> is a poll that does not return.
\<close>

section \<open>The backend\<close>

(* src/crates/machine-core/src/pci.rs:855-872 NetBackend *)
record 'n net_backend =
  nb_transmit :: "'n \<Rightarrow> u8 list \<Rightarrow> 'n"
  nb_poll_receive :: "'n \<Rightarrow> u8 list \<Rightarrow> 'n \<times> u8 list \<times> nat option"

(* src/crates/machine-core/src/pci.rs:874-890 NullNetBackend *)
definition null_net_backend :: "unit net_backend" where
  "null_net_backend = \<lparr>nb_transmit = (\<lambda>n frame. n), nb_poll_receive = (\<lambda>n buf. (n, buf, None))\<rparr>"

section \<open>Constants\<close>

(* src/crates/machine-core/src/pci.rs:814-815 CAP_VNDR *)
definition CAP_VNDR :: u8 where [simp]: "CAP_VNDR = 0x09"
(* src/crates/machine-core/src/pci.rs:817-817 CFG_TYPE_COMMON *)
definition CFG_TYPE_COMMON :: u8 where [simp]: "CFG_TYPE_COMMON = 1"
(* src/crates/machine-core/src/pci.rs:818-818 CFG_TYPE_NOTIFY *)
definition CFG_TYPE_NOTIFY :: u8 where [simp]: "CFG_TYPE_NOTIFY = 2"
(* src/crates/machine-core/src/pci.rs:819-819 CFG_TYPE_ISR *)
definition CFG_TYPE_ISR :: u8 where [simp]: "CFG_TYPE_ISR = 3"
(* src/crates/machine-core/src/pci.rs:820-820 CFG_TYPE_DEVICE *)
definition CFG_TYPE_DEVICE :: u8 where [simp]: "CFG_TYPE_DEVICE = 4"
(* src/crates/machine-core/src/pci.rs:822-824 BASIC_LEN *)
definition BASIC_LEN :: u8 where [simp]: "BASIC_LEN = 16"
(* src/crates/machine-core/src/pci.rs:825-827 NOTIFY_LEN *)
definition NOTIFY_LEN :: u8 where [simp]: "NOTIFY_LEN = 20"

(* src/crates/machine-core/src/pci.rs:894-895 NEXT *)
definition DESC_NEXT :: u16 where [simp]: "DESC_NEXT = 1"
(* src/crates/machine-core/src/pci.rs:896-898 WRITE *)
definition DESC_WRITE :: u16 where [simp]: "DESC_WRITE = 2"
(* src/crates/machine-core/src/pci.rs:899-902 INDIRECT *)
definition DESC_INDIRECT :: u16 where [simp]: "DESC_INDIRECT = 4"

(* src/crates/machine-core/src/pci.rs:916-916 DRIVER_OK *)
definition ST_DRIVER_OK :: u8 where "ST_DRIVER_OK = 4"
(* src/crates/machine-core/src/pci.rs:917-917 FEATURES_OK *)
definition ST_FEATURES_OK :: u8 where "ST_FEATURES_OK = 8"
(* src/crates/machine-core/src/pci.rs:918-918 DEVICE_NEEDS_RESET *)
definition ST_DEVICE_NEEDS_RESET :: u8 where "ST_DEVICE_NEEDS_RESET = 64"

(* src/crates/machine-core/src/pci.rs:1057-1068 VNET_NUM_QUEUES *)
definition VNET_NUM_QUEUES :: nat where [simp]: "VNET_NUM_QUEUES = 2"
(* src/crates/machine-core/src/pci.rs:1069-1069 VNET_HDR_LEN *)
definition VNET_HDR_LEN :: nat where [simp]: "VNET_HDR_LEN = 12"
(* src/crates/machine-core/src/pci.rs:1070-1070 VNET_MAX_ETH_PAYLOAD *)
definition VNET_MAX_ETH_PAYLOAD :: nat where [simp]: "VNET_MAX_ETH_PAYLOAD = 1514"
(* src/crates/machine-core/src/pci.rs:1071-1071 VNET_MAX_FRAME_TOTAL *)
definition VNET_MAX_FRAME_TOTAL :: nat where [simp]: "VNET_MAX_FRAME_TOTAL = VNET_HDR_LEN + VNET_MAX_ETH_PAYLOAD"
(* src/crates/machine-core/src/pci.rs:1072-1072 VNET_CAPS_LEN *)
definition VNET_CAPS_LEN :: nat where [simp]: "VNET_CAPS_LEN = unat BASIC_LEN * 3 + unat NOTIFY_LEN"

(* src/crates/machine-core/src/pci.rs:1190-1193 VirtioNetStub::CAP_COMMON_OFFSET *)
definition CAP_COMMON_OFFSET :: u16 where [simp]: "CAP_COMMON_OFFSET = 0x40"
(* src/crates/machine-core/src/pci.rs:1194-1194 VirtioNetStub::CAP_NOTIFY_OFFSET *)
definition CAP_NOTIFY_OFFSET :: u16 where [simp]: "CAP_NOTIFY_OFFSET = CAP_COMMON_OFFSET + ucast BASIC_LEN"
(* src/crates/machine-core/src/pci.rs:1195-1195 VirtioNetStub::CAP_ISR_OFFSET *)
definition CAP_ISR_OFFSET :: u16 where [simp]: "CAP_ISR_OFFSET = CAP_NOTIFY_OFFSET + ucast NOTIFY_LEN"
(* src/crates/machine-core/src/pci.rs:1196-1196 VirtioNetStub::CAP_DEVICE_OFFSET *)
definition CAP_DEVICE_OFFSET :: u16 where [simp]: "CAP_DEVICE_OFFSET = CAP_ISR_OFFSET + ucast BASIC_LEN"

(* src/crates/machine-core/src/pci.rs:1186-1188 VirtioNetStub::BAR0_SIZE *)
definition VN_BAR0_SIZE :: u32 where [simp]: "VN_BAR0_SIZE = 16 * 1024"
(* src/crates/machine-core/src/pci.rs:1201-1201 VirtioNetStub::COMMON_CFG_BAR_LEN *)
definition COMMON_CFG_BAR_LEN :: u32 where [simp]: "COMMON_CFG_BAR_LEN = 0x1000"
(* src/crates/machine-core/src/pci.rs:1202-1202 VirtioNetStub::NOTIFY_CFG_BAR_OFFSET *)
definition NOTIFY_CFG_BAR_OFFSET :: u32 where [simp]: "NOTIFY_CFG_BAR_OFFSET = 0x1000"
(* src/crates/machine-core/src/pci.rs:1204-1207 VirtioNetStub::NOTIFY_OFF_MULTIPLIER *)
definition NOTIFY_OFF_MULTIPLIER :: u32 where [simp]: "NOTIFY_OFF_MULTIPLIER = 4"
(* src/crates/machine-core/src/pci.rs:1208-1208 VirtioNetStub::ISR_CFG_BAR_OFFSET *)
definition ISR_CFG_BAR_OFFSET :: u32 where [simp]: "ISR_CFG_BAR_OFFSET = 0x2000"
(* src/crates/machine-core/src/pci.rs:1210-1210 VirtioNetStub::DEVICE_CFG_BAR_OFFSET *)
definition DEVICE_CFG_BAR_OFFSET :: u32 where [simp]: "DEVICE_CFG_BAR_OFFSET = 0x3000"

(* src/crates/machine-core/src/pci.rs:1218-1223 VirtioNetStub::QUEUE_SIZE_MAX *)
definition QUEUE_SIZE_MAX :: u16 where [simp]: "QUEUE_SIZE_MAX = 256"
(* src/crates/machine-core/src/pci.rs:1224-1229 VirtioNetStub::NO_VECTOR *)
definition NO_VECTOR :: u16 where [simp]: "NO_VECTOR = 0xFFFF"
(* src/crates/machine-core/src/pci.rs:1231-1235 VirtioNetStub::F_VERSION_1 *)
definition F_VERSION_1 :: u64 where "F_VERSION_1 = 0x100000000"
(* src/crates/machine-core/src/pci.rs:1236-1239 VirtioNetStub::F_MAC *)
definition F_MAC :: u64 where "F_MAC = 0x20"
(* src/crates/machine-core/src/pci.rs:1240-1245 VirtioNetStub::OFFERED_FEATURES *)
definition OFFERED_FEATURES :: u64 where "OFFERED_FEATURES = F_VERSION_1 OR F_MAC"
(* src/crates/machine-core/src/pci.rs:1247-1253 VirtioNetStub::MAC *)
definition VN_MAC :: "u8 list" where [simp]: "VN_MAC = [0x02, 0x6d, 0x36, 0x4b, 0x00, 0x01]"

text \<open>Queue 0 receives, queue 1 transmits.\<close>

(* src/crates/machine-core/src/pci.rs:1216-1216 VirtioNetStub::QUEUE_RX *)
definition QUEUE_RX :: nat where [simp]: "QUEUE_RX = 0"
(* src/crates/machine-core/src/pci.rs:1217-1217 VirtioNetStub::QUEUE_TX *)
definition QUEUE_TX :: nat where [simp]: "QUEUE_TX = 1"

section \<open>State\<close>

(* src/crates/machine-core/src/pci.rs:952-977 VirtQueueState *)
record virt_queue =
  vq_size :: u16
  vq_enabled :: bool
  vq_desc_addr :: u64
  vq_driver_addr :: u64
  vq_device_addr :: u64
  vq_last_avail_idx :: u16
  vq_used_idx :: u16

(* src/crates/machine-core/src/pci.rs:980-994 VirtQueueState::reset *)
definition vq_reset :: "u16 \<Rightarrow> virt_queue" where
  "vq_reset max_size = \<lparr>vq_size = max_size, vq_enabled = False, vq_desc_addr = 0, vq_driver_addr = 0, vq_device_addr = 0,
     vq_last_avail_idx = 0, vq_used_idx = 0\<rparr>"

(* src/crates/machine-core/src/pci.rs:1133-1166 VirtioNetStub *)
record 'n virtio_net =
  vn_config :: config_space
  vn_backend :: 'n
  vn_device_feature_select :: u32
  vn_driver_feature_select :: u32
  vn_acked_features :: u64
  vn_device_status :: u8
  vn_queue_select :: u16
  vn_queues :: "virt_queue list"
  vn_isr_status :: u8
  vn_scratch :: "u8 list"
  vn_rx_frame_buf :: "u8 list"
  vn_tx_frames :: u32
  vn_tx_dropped :: u32
  vn_rx_frames :: u32
  vn_rx_dropped :: u32

section \<open>Construction\<close>

(* src/crates/machine-core/src/pci.rs:1379-1411 VirtioNetStub::write_cap *)
definition vn_write_cap :: "u8 list \<Rightarrow> u16 \<Rightarrow> u16 \<Rightarrow> u8 \<Rightarrow> u8 \<Rightarrow> u32 \<Rightarrow> u32 \<Rightarrow> u32 option \<Rightarrow> u8 list" where
  "vn_write_cap buf at cap_next cap_len cfg_type bar_offset bar_len notify_off_multiplier =
     (let base = unat (at - CAP_COMMON_OFFSET);
          b1 = buf[base := CAP_VNDR, base + 1 := ucast cap_next, base + 2 := cap_len, base + 3 := cfg_type, base + 4 := 0, base + 5 := 0];
          b2 = splice_at b1 (base + 8) (to_le 4 bar_offset);
          b3 = splice_at b2 (base + 12) (to_le 4 bar_len)
      in case notify_off_multiplier of Some mult \<Rightarrow> splice_at b3 (base + 16) (to_le 4 mult) | None \<Rightarrow> b3)"

(* src/crates/machine-core/src/pci.rs:1331-1377 VirtioNetStub::build_capability_chain *)
definition vn_build_capability_chain :: "u8 list" where
  "vn_build_capability_chain =
     (let b0 = replicate VNET_CAPS_LEN 0;
          b1 = vn_write_cap b0 CAP_COMMON_OFFSET CAP_NOTIFY_OFFSET BASIC_LEN CFG_TYPE_COMMON 0x0000 COMMON_CFG_BAR_LEN None;
          b2 = vn_write_cap b1 CAP_NOTIFY_OFFSET CAP_ISR_OFFSET NOTIFY_LEN CFG_TYPE_NOTIFY NOTIFY_CFG_BAR_OFFSET 0x1000 (Some NOTIFY_OFF_MULTIPLIER);
          b3 = vn_write_cap b2 CAP_ISR_OFFSET CAP_DEVICE_OFFSET BASIC_LEN CFG_TYPE_ISR ISR_CFG_BAR_OFFSET 0x1000 None
      in vn_write_cap b3 CAP_DEVICE_OFFSET 0 BASIC_LEN CFG_TYPE_DEVICE DEVICE_CFG_BAR_OFFSET 0x1000 None)"

(* src/crates/machine-core/src/pci.rs:1279-1329 VirtioNetStub::new *)
definition vn_new :: "'n \<Rightarrow> 'n virtio_net" where
  "vn_new backend =
     \<lparr>vn_config = cs_install_capabilities (cs_new \<lparr>id_vendor_id = 0x1AF4, id_device_id = 0x1041, id_revision = 0x01, id_class_base = 0x02,
        id_class_sub = 0x00, id_prog_if = 0x00, id_subsystem_vendor = 0x1AF4, id_subsystem_id = 0x0001, id_interrupt_pin = 1\<rparr>
        [Mem32 VN_BAR0_SIZE, BarNone, BarNone, BarNone, BarNone, BarNone]) CAP_COMMON_OFFSET vn_build_capability_chain,
      vn_backend = backend, vn_device_feature_select = 0, vn_driver_feature_select = 0, vn_acked_features = 0, vn_device_status = 0,
      vn_queue_select = 0, vn_queues = [vq_reset QUEUE_SIZE_MAX, vq_reset QUEUE_SIZE_MAX], vn_isr_status = 0,
      vn_scratch = replicate VNET_MAX_FRAME_TOTAL 0, vn_rx_frame_buf = replicate VNET_MAX_ETH_PAYLOAD 0,
      vn_tx_frames = 0, vn_tx_dropped = 0, vn_rx_frames = 0, vn_rx_dropped = 0\<rparr>"

section \<open>Registers\<close>

(* src/crates/machine-core/src/pci.rs:1413-1419 VirtioNetStub::needs_reset *)
definition vn_needs_reset :: "'n virtio_net \<Rightarrow> bool" where
  "vn_needs_reset v \<longleftrightarrow> vn_device_status v AND ST_DEVICE_NEEDS_RESET \<noteq> 0"

(* src/crates/machine-core/src/pci.rs:1421-1427 VirtioNetStub::fail_closed *)
definition vn_fail_closed :: "'n virtio_net \<Rightarrow> 'n virtio_net" where
  "vn_fail_closed v = v\<lparr>vn_device_status := vn_device_status v OR ST_DEVICE_NEEDS_RESET\<rparr>"

(* src/crates/machine-core/src/pci.rs:1429-1447 VirtioNetStub::reset *)
definition vn_reset :: "'n virtio_net \<Rightarrow> 'n virtio_net" where
  "vn_reset v = v\<lparr>vn_device_feature_select := 0, vn_driver_feature_select := 0, vn_acked_features := 0, vn_device_status := 0,
     vn_queue_select := 0, vn_queues := [vq_reset QUEUE_SIZE_MAX, vq_reset QUEUE_SIZE_MAX], vn_isr_status := 0\<rparr>"

(* src/crates/machine-core/src/pci.rs:1449-1457 VirtioNetStub::effective_queue_size *)
definition vn_effective_queue_size :: "'n virtio_net \<Rightarrow> nat \<Rightarrow> u16" where
  "vn_effective_queue_size v idx = max 1 (min QUEUE_SIZE_MAX (vq_size (vn_queues v ! idx)))"

(* src/crates/machine-core/src/pci.rs:1459-1467 VirtioNetStub::selected_queue *)
definition vn_selected_queue :: "'n virtio_net \<Rightarrow> nat option" where
  "vn_selected_queue v = (let idx = unat (vn_queue_select v) in if idx < VNET_NUM_QUEUES then Some idx else None)"

(* src/crates/machine-core/src/pci.rs:1469-1480 VirtioNetStub::device_feature_window *)
definition vn_device_feature_window :: "'n virtio_net \<Rightarrow> u32" where
  "vn_device_feature_window v =
     (if vn_device_feature_select v = 0 then ucast OFFERED_FEATURES
      else if vn_device_feature_select v = 1 then ucast (drop_bit 32 OFFERED_FEATURES) else 0)"

(* src/crates/machine-core/src/pci.rs:1482-1490 VirtioNetStub::driver_feature_window *)
definition vn_driver_feature_window :: "'n virtio_net \<Rightarrow> u32" where
  "vn_driver_feature_window v =
     (if vn_driver_feature_select v = 0 then ucast (vn_acked_features v)
      else if vn_driver_feature_select v = 1 then ucast (drop_bit 32 (vn_acked_features v)) else 0)"

text \<open>\<open>lane_u16\<close>, \<open>lane_u32_of\<close>, \<open>lane_u64\<close> and the three merges, for the width in bytes.\<close>

(* src/crates/machine-core/src/pci.rs:1027-1029 lane_u16 *)
definition lane_of :: "nat \<Rightarrow> 'a::len word \<Rightarrow> nat \<Rightarrow> u8" where
  "lane_of n value lane = to_le n value ! lane"

(* src/crates/machine-core/src/pci.rs:1031-1035 merge_u16 *)
definition merge_lane :: "nat \<Rightarrow> 'a::len word \<Rightarrow> nat \<Rightarrow> u8 \<Rightarrow> 'a word" where
  "merge_lane n value lane byte = from_le ((to_le n value)[lane := byte])"

(* src/crates/machine-core/src/pci.rs:1492-1513 VirtioNetStub::merge_driver_feature_byte *)
definition vn_merge_driver_feature_byte :: "'n virtio_net \<Rightarrow> nat \<Rightarrow> u8 \<Rightarrow> 'n virtio_net" where
  "vn_merge_driver_feature_byte v lane byte =
     (if vn_device_status v AND ST_FEATURES_OK \<noteq> 0 then v
      else let sel = vn_driver_feature_select v in
        if sel > 1 then v
        else
          let shift = 32 * unat sel;
              window = ucast (drop_bit shift (vn_acked_features v)) :: u32;
              merged = merge_lane 4 window lane byte;
              m = push_bit shift 0xFFFFFFFF :: u64
          in v\<lparr>vn_acked_features := (vn_acked_features v AND NOT m) OR (push_bit shift (ucast merged) AND OFFERED_FEATURES AND m)\<rparr>)"

(* src/crates/machine-core/src/pci.rs:1515-1545 VirtioNetStub::write_device_status *)
definition vn_write_device_status :: "'n virtio_net \<Rightarrow> u8 \<Rightarrow> 'n virtio_net" where
  "vn_write_device_status v value =
     (if value = 0 then vn_reset v
      else
        let s1 = (if value AND ST_FEATURES_OK \<noteq> 0 \<and> \<not> vn_device_status v AND ST_FEATURES_OK \<noteq> 0 \<and> vn_acked_features v AND F_VERSION_1 = 0
                  then value AND NOT ST_FEATURES_OK else value);
            s2 = (if s1 AND ST_DRIVER_OK \<noteq> 0 \<and> s1 AND ST_FEATURES_OK = 0
                  then (s1 AND NOT ST_DRIVER_OK) OR ST_DEVICE_NEEDS_RESET else s1)
        in v\<lparr>vn_device_status := s2\<rparr>)"

(* src/crates/machine-core/src/pci.rs:1547-1617 VirtioNetStub::common_read_byte *)
definition vn_common_read_byte :: "'n virtio_net \<Rightarrow> u32 \<Rightarrow> u8" where
  "vn_common_read_byte v rel =
     (let q = vn_selected_queue v; field = (\<lambda>d f. case q of None \<Rightarrow> d | Some i \<Rightarrow> f i) in
      if rel \<le> 3 then lane_of 4 (vn_device_feature_select v) (unat rel)
      else if rel \<le> 7 then lane_of 4 (vn_device_feature_window v) (unat (rel - 0x04))
      else if rel \<le> 11 then lane_of 4 (vn_driver_feature_select v) (unat (rel - 0x08))
      else if rel \<le> 15 then lane_of 4 (vn_driver_feature_window v) (unat (rel - 0x0C))
      else if rel \<le> 17 then lane_of 2 NO_VECTOR (unat (rel - 0x10))
      else if rel \<le> 19 then lane_of 2 (of_nat VNET_NUM_QUEUES :: u16) (unat (rel - 0x12))
      else if rel = 0x14 then vn_device_status v
      else if rel = 0x15 then 0
      else if rel \<le> 23 then lane_of 2 (vn_queue_select v) (unat (rel - 0x16))
      else if rel \<le> 25 then lane_of 2 (case q of None \<Rightarrow> 0 | Some i \<Rightarrow> vn_effective_queue_size v i) (unat (rel - 0x18))
      else if rel \<le> 27 then lane_of 2 NO_VECTOR (unat (rel - 0x1A))
      else if rel \<le> 29 then lane_of 2 (case q of None \<Rightarrow> 0 | Some i \<Rightarrow> if vq_enabled (vn_queues v ! i) then (1 :: u16) else 0) (unat (rel - 0x1C))
      else if rel \<le> 31 then lane_of 2 (case q of None \<Rightarrow> 0 | Some i \<Rightarrow> (of_nat i :: u16)) (unat (rel - 0x1E))
      else if rel \<le> 39 then lane_of 8 (field 0 (\<lambda>i. vq_desc_addr (vn_queues v ! i))) (unat (rel - 0x20))
      else if rel \<le> 47 then lane_of 8 (field 0 (\<lambda>i. vq_driver_addr (vn_queues v ! i))) (unat (rel - 0x28))
      else if rel \<le> 55 then lane_of 8 (field 0 (\<lambda>i. vq_device_addr (vn_queues v ! i))) (unat (rel - 0x30))
      else 0)"

text \<open>A write to a register of the selected queue that is refused once the queue is enabled.\<close>

definition vn_update_queue :: "'n virtio_net \<Rightarrow> (virt_queue \<Rightarrow> virt_queue) \<Rightarrow> 'n virtio_net" where
  "vn_update_queue v f =
     (case vn_selected_queue v of
        None \<Rightarrow> v
      | Some i \<Rightarrow> if vq_enabled (vn_queues v ! i) then v else v\<lparr>vn_queues := (vn_queues v)[i := f (vn_queues v ! i)]\<rparr>)"

(* src/crates/machine-core/src/pci.rs:1619-1713 VirtioNetStub::common_write_byte *)
definition vn_common_write_byte :: "'n virtio_net \<Rightarrow> u32 \<Rightarrow> u8 \<Rightarrow> 'n virtio_net" where
  "vn_common_write_byte v rel byte =
     (if rel \<le> 3 then v\<lparr>vn_device_feature_select := merge_lane 4 (vn_device_feature_select v) (unat rel) byte\<rparr>
      else if rel \<le> 7 then v
      else if rel \<le> 11 then v\<lparr>vn_driver_feature_select := merge_lane 4 (vn_driver_feature_select v) (unat (rel - 0x08)) byte\<rparr>
      else if rel \<le> 15 then vn_merge_driver_feature_byte v (unat (rel - 0x0C)) byte
      else if rel \<le> 19 then v
      else if rel = 0x14 then vn_write_device_status v byte
      else if rel = 0x15 then v
      else if rel \<le> 23 then v\<lparr>vn_queue_select := merge_lane 2 (vn_queue_select v) (unat (rel - 0x16)) byte\<rparr>
      else if rel \<le> 25 then vn_update_queue v (\<lambda>q. q\<lparr>vq_size := merge_lane 2 (vq_size q) (unat (rel - 0x18)) byte\<rparr>)
      else if rel \<le> 27 then v
      else if rel \<le> 29 then
        (if rel = 0x1C \<and> byte AND 1 \<noteq> 0
         then vn_update_queue v (\<lambda>q. q\<lparr>vq_enabled := True, vq_last_avail_idx := 0, vq_used_idx := 0\<rparr>) else v)
      else if rel \<le> 31 then v
      else if rel \<le> 39 then vn_update_queue v (\<lambda>q. q\<lparr>vq_desc_addr := merge_lane 8 (vq_desc_addr q) (unat (rel - 0x20)) byte\<rparr>)
      else if rel \<le> 47 then vn_update_queue v (\<lambda>q. q\<lparr>vq_driver_addr := merge_lane 8 (vq_driver_addr q) (unat (rel - 0x28)) byte\<rparr>)
      else if rel \<le> 55 then vn_update_queue v (\<lambda>q. q\<lparr>vq_device_addr := merge_lane 8 (vq_device_addr q) (unat (rel - 0x30)) byte\<rparr>)
      else v)"

(* src/crates/machine-core/src/pci.rs:1715-1723 VirtioNetStub::common_cfg_read *)
definition vn_common_cfg_read :: "'n virtio_net \<Rightarrow> u32 \<Rightarrow> access_width \<Rightarrow> u32" where
  "vn_common_cfg_read v rel width =
     foldl (\<lambda>value lane. value OR push_bit (8 * lane) (ucast (vn_common_read_byte v (rel + of_nat lane)))) 0 [0..<unat (aw_bytes width)]"

(* src/crates/machine-core/src/pci.rs:1725-1731 VirtioNetStub::common_cfg_write *)
definition vn_common_cfg_write :: "'n virtio_net \<Rightarrow> u32 \<Rightarrow> access_width \<Rightarrow> u32 \<Rightarrow> 'n virtio_net" where
  "vn_common_cfg_write v rel width value =
     foldl (\<lambda>v lane. vn_common_write_byte v (rel + of_nat lane) (ucast (drop_bit (8 * lane) value))) v [0..<unat (aw_bytes width)]"

(* src/crates/machine-core/src/pci.rs:1733-1738 VirtioNetStub::raise_used_irq *)
definition vn_raise_used_irq :: "'n virtio_net \<Rightarrow> 'n virtio_net" where
  "vn_raise_used_irq v = v\<lparr>vn_isr_status := vn_isr_status v OR 0x1\<rparr>"

section \<open>Ring memory\<close>

text \<open>\<open>u32::try_from\<close> of a 64-bit guest address.\<close>

definition u32_try_from :: "u64 \<Rightarrow> u32 option" where
  "u32_try_from addr = (if addr \<le> 0xFFFFFFFF then Some (ucast addr) else None)"

(* src/crates/machine-core/src/pci.rs:997-1006 gm_read_u16 *)
definition gm_read_u16 :: "guest_ram \<Rightarrow> u64 \<Rightarrow> u16 option" where
  "gm_read_u16 mem addr = Option.bind (u32_try_from addr) (\<lambda>a. map_option from_le (ram_slice mem a 2))"

(* src/crates/machine-core/src/pci.rs:1008-1017 gm_write_u16 *)
definition gm_write_u16 :: "guest_ram \<Rightarrow> u64 \<Rightarrow> u16 \<Rightarrow> guest_ram option" where
  "gm_write_u16 mem addr value = Option.bind (u32_try_from addr) (\<lambda>a. ram_write mem a (to_le 2 value))"

(* src/crates/machine-core/src/pci.rs:1019-1025 gm_write_u32 *)
definition gm_write_u32 :: "guest_ram \<Rightarrow> u64 \<Rightarrow> u32 \<Rightarrow> guest_ram option" where
  "gm_write_u32 mem addr value = Option.bind (u32_try_from addr) (\<lambda>a. ram_write mem a (to_le 4 value))"

text \<open>The products \<open>16 * idx\<close>, \<open>2 * pos\<close> and \<open>8 * pos\<close> of a 16-bit index fit a \<open>u64\<close>, so \<open>checked_mul\<close> does not fail.\<close>

(* src/crates/machine-core/src/pci.rs:1740-1763 VirtioNetStub::read_desc *)
definition vn_read_desc :: "guest_ram \<Rightarrow> u64 \<Rightarrow> u16 \<Rightarrow> u16 \<Rightarrow> (u64 \<times> u32 \<times> u16 \<times> u16) option" where
  "vn_read_desc mem desc_addr qsize idx =
     (if idx \<ge> qsize then None
      else Option.bind (checked_add_u64 desc_addr (16 * ucast idx)) (\<lambda>entry_addr.
        Option.bind (u32_try_from entry_addr) (\<lambda>a.
          map_option (\<lambda>s. (from_le (take 8 s), from_le (take 4 (drop 8 s)), from_le (take 2 (drop 12 s)), from_le (take 2 (drop 14 s))))
            (ram_slice mem a 16))))"

(* src/crates/machine-core/src/pci.rs:1765-1772 VirtioNetStub::avail_ring_slot_addr *)
definition avail_ring_slot_addr :: "u64 \<Rightarrow> u16 \<Rightarrow> u64 option" where
  "avail_ring_slot_addr driver_addr pos = Option.bind (checked_add_u64 driver_addr 4) (\<lambda>a. checked_add_u64 a (2 * ucast pos))"

(* src/crates/machine-core/src/pci.rs:1774-1781 VirtioNetStub::used_ring_elem_addr *)
definition used_ring_elem_addr :: "u64 \<Rightarrow> u16 \<Rightarrow> u64 option" where
  "used_ring_elem_addr device_addr pos = Option.bind (checked_add_u64 device_addr 4) (\<lambda>a. checked_add_u64 a (8 * ucast pos))"

(* src/crates/machine-core/src/pci.rs:1783-1818 VirtioNetStub::complete_used *)
definition vn_complete_used :: "'n virtio_net \<Rightarrow> guest_ram \<Rightarrow> nat \<Rightarrow> u16 \<Rightarrow> u32 \<Rightarrow> 'n virtio_net \<times> guest_ram \<times> bool" where
  "vn_complete_used v mem qidx desc_id len =
     (let q = vn_queues v ! qidx; slot = vq_used_idx q mod vn_effective_queue_size v qidx in
      case used_ring_elem_addr (vq_device_addr q) slot of
        None \<Rightarrow> (v, mem, False)
      | Some elem_addr \<Rightarrow>
          (case gm_write_u32 mem elem_addr (ucast desc_id) of
             None \<Rightarrow> (v, mem, False)
           | Some mem1 \<Rightarrow>
               (case gm_write_u32 mem1 (elem_addr + 4) len of
                  None \<Rightarrow> (v, mem1, False)
                | Some mem2 \<Rightarrow>
                    let new_used_idx = vq_used_idx q + 1 in
                    (case gm_write_u16 mem2 (vq_device_addr q + 2) new_used_idx of
                       None \<Rightarrow> (v, mem2, False)
                     | Some mem3 \<Rightarrow>
                         (vn_raise_used_irq (v\<lparr>vn_queues := (vn_queues v)[qidx := (vn_queues v ! qidx)\<lparr>vq_used_idx := new_used_idx\<rparr>]\<rparr>), mem3, True)))))"

section \<open>The two engines\<close>

text \<open>The walk over a transmit chain: the loop counter, the scratch buffer so far, the bytes so far and the next index.\<close>

(* src/crates/machine-core/src/pci.rs:1820-1861 VirtioNetStub::copy_chain_out *)
fun vn_copy_chain_out :: "nat \<Rightarrow> u8 list \<Rightarrow> guest_ram \<Rightarrow> u64 \<Rightarrow> u16 \<Rightarrow> nat \<Rightarrow> u16 \<Rightarrow> u8 list \<times> nat option" where
  "vn_copy_chain_out 0 scratch mem desc_addr qsize total_len idx = (scratch, None)"
| "vn_copy_chain_out (Suc links) scratch mem desc_addr qsize total_len idx =
     (case vn_read_desc mem desc_addr qsize idx of
        None \<Rightarrow> (scratch, None)
      | Some (addr, len, flags, nxt) \<Rightarrow>
          if flags AND (DESC_WRITE OR DESC_INDIRECT) \<noteq> 0 then (scratch, None)
          else (case u32_try_from addr of
              None \<Rightarrow> (scratch, None)
            | Some a \<Rightarrow>
                let new_total = total_len + unat len in
                if new_total > length scratch then (scratch, None)
                else (case ram_slice mem a len of
                    None \<Rightarrow> (scratch, None)
                  | Some src \<Rightarrow>
                      let scratch = splice_at scratch total_len src in
                      if flags AND DESC_NEXT = 0 then (scratch, Some new_total)
                      else vn_copy_chain_out links scratch mem desc_addr qsize new_total nxt)))"

text \<open>One round of either loop ends the poll or goes on with a new state.\<close>

datatype ('v, 'm) round_result = Done 'v 'm | Again 'v 'm

text \<open>The end of a round: publish the completion, then count it and step the shadow index, or fail closed. The shadow index is the
  one the round started with, which no completion changes.\<close>

(* src/crates/machine-core/src/pci.rs:1910-1914 VirtioNetStub::process_tx *)
definition vn_finish :: "'n virtio_net \<Rightarrow> guest_ram \<Rightarrow> nat \<Rightarrow> u16 \<Rightarrow> u32 \<Rightarrow> ('n virtio_net \<Rightarrow> 'n virtio_net) \<Rightarrow> ('n virtio_net, guest_ram) round_result" where
  "vn_finish v mem qidx desc_head used_len count =
     (let last_avail = vq_last_avail_idx (vn_queues v ! qidx); (v, mem, completed) = vn_complete_used v mem qidx desc_head used_len in
      if \<not> completed then Done (vn_fail_closed v) mem
      else let v = count v in Again (v\<lparr>vn_queues := (vn_queues v)[qidx := (vn_queues v ! qidx)\<lparr>vq_last_avail_idx := last_avail + 1\<rparr>]\<rparr>) mem)"

text \<open>Extract the frame of one chain and hand it to the backend; the length to report for it.\<close>

(* src/crates/machine-core/src/pci.rs:1897-1909 VirtioNetStub::process_tx *)
definition vn_tx_send :: "'n net_backend \<Rightarrow> 'n virtio_net \<Rightarrow> guest_ram \<Rightarrow> u16 \<Rightarrow> 'n virtio_net \<times> u32" where
  "vn_tx_send nb v mem desc_head =
     (let q = vn_queues v ! QUEUE_TX; qsize = vn_effective_queue_size v QUEUE_TX;
          (scratch, outcome) = vn_copy_chain_out (unat qsize) (vn_scratch v) mem (vq_desc_addr q) qsize 0 desc_head;
          v = v\<lparr>vn_scratch := scratch\<rparr>
      in case outcome of
           Some len \<Rightarrow>
             if len \<ge> VNET_HDR_LEN
             then (v\<lparr>vn_backend := nb_transmit nb (vn_backend v) (drop VNET_HDR_LEN (take len (vn_scratch v))),
                     vn_tx_frames := vn_tx_frames v + 1\<rparr>, of_nat len)
             else (v\<lparr>vn_tx_dropped := vn_tx_dropped v + 1\<rparr>, 0)
         | None \<Rightarrow> (v\<lparr>vn_tx_dropped := vn_tx_dropped v + 1\<rparr>, 0))"

(* src/crates/machine-core/src/pci.rs:1876-1914 VirtioNetStub::process_tx *)
definition vn_tx_round :: "'n net_backend \<Rightarrow> 'n virtio_net \<Rightarrow> guest_ram \<Rightarrow> ('n virtio_net, guest_ram) round_result" where
  "vn_tx_round nb v mem =
     (let q = vn_queues v ! QUEUE_TX; qsize = vn_effective_queue_size v QUEUE_TX; last_avail = vq_last_avail_idx q in
      case gm_read_u16 mem (vq_driver_addr q + 2) of
        None \<Rightarrow> Done (vn_fail_closed v) mem
      | Some avail_idx \<Rightarrow>
          if avail_idx = last_avail then Done v mem
          else (case Option.bind (avail_ring_slot_addr (vq_driver_addr q) (last_avail mod qsize)) (gm_read_u16 mem) of
              None \<Rightarrow> Done (vn_fail_closed v) mem
            | Some desc_head \<Rightarrow>
                let (v, used_len) = vn_tx_send nb v mem desc_head in vn_finish v mem QUEUE_TX desc_head used_len (\<lambda>v. v)))"

text \<open>Put a received frame behind its header into the buffer of one descriptor; \<open>None\<close> in the memory place is the failure of the store.\<close>

(* src/crates/machine-core/src/pci.rs:1977-1991 VirtioNetStub::process_rx *)
definition vn_rx_store :: "'n virtio_net \<Rightarrow> guest_ram \<Rightarrow> u64 \<Rightarrow> nat \<Rightarrow> 'n virtio_net \<times> guest_ram option" where
  "vn_rx_store v mem addr frame_len =
     (let total_len = VNET_HDR_LEN + frame_len;
          scratch = splice_at (vn_scratch v) 0 ((replicate VNET_HDR_LEN 0)[10 := 1, 11 := 0]);
          scratch = splice_at scratch VNET_HDR_LEN (take frame_len (vn_rx_frame_buf v))
      in (v\<lparr>vn_scratch := scratch\<rparr>, Option.bind (u32_try_from addr) (\<lambda>a. ram_write mem a (take total_len scratch))))"

(* src/crates/machine-core/src/pci.rs:1936-1998 VirtioNetStub::process_rx *)
definition vn_rx_round :: "'n net_backend \<Rightarrow> 'n virtio_net \<Rightarrow> guest_ram \<Rightarrow> ('n virtio_net, guest_ram) round_result" where
  "vn_rx_round nb v mem =
     (let q = vn_queues v ! QUEUE_RX; qsize = vn_effective_queue_size v QUEUE_RX; last_avail = vq_last_avail_idx q in
      case gm_read_u16 mem (vq_driver_addr q + 2) of
        None \<Rightarrow> Done (vn_fail_closed v) mem
      | Some avail_idx \<Rightarrow>
          if avail_idx = last_avail then Done v mem
          else
            let (backend, buf, polled) = nb_poll_receive nb (vn_backend v) (vn_rx_frame_buf v); v = v\<lparr>vn_backend := backend, vn_rx_frame_buf := buf\<rparr> in
            case polled of
              None \<Rightarrow> Done v mem
            | Some frame_len \<Rightarrow>
                (case Option.bind (avail_ring_slot_addr (vq_driver_addr q) (last_avail mod qsize)) (gm_read_u16 mem) of
                   None \<Rightarrow> Done (vn_fail_closed v) mem
                 | Some desc_head \<Rightarrow>
                     (case vn_read_desc mem (vq_desc_addr q) qsize desc_head of
                        None \<Rightarrow> Done (vn_fail_closed v) mem
                      | Some (addr, len, flags, _) \<Rightarrow>
                          if flags AND DESC_WRITE = 0 \<or> flags AND DESC_INDIRECT \<noteq> 0 \<or> VNET_HDR_LEN + frame_len > unat len \<or>
                            VNET_HDR_LEN + frame_len > length (vn_scratch v)
                          then Done (vn_fail_closed (v\<lparr>vn_rx_dropped := vn_rx_dropped v + 1\<rparr>)) mem
                          else (case vn_rx_store v mem addr frame_len of
                              (v, None) \<Rightarrow> Done (vn_fail_closed v) mem
                            | (v, Some mem) \<Rightarrow>
                                vn_finish v mem QUEUE_RX desc_head (of_nat (VNET_HDR_LEN + frame_len)) (\<lambda>v. v\<lparr>vn_rx_frames := vn_rx_frames v + 1\<rparr>)))))"

(* src/crates/machine-core/src/pci.rs:1875-1915 VirtioNetStub::process_tx *)
partial_function (option) vn_tx_loop :: "'n net_backend \<Rightarrow> 'n virtio_net \<Rightarrow> guest_ram \<Rightarrow> ('n virtio_net \<times> guest_ram) option" where
  "vn_tx_loop nb v mem = (case vn_tx_round nb v mem of Done v mem \<Rightarrow> Some (v, mem) | Again v mem \<Rightarrow> vn_tx_loop nb v mem)"

(* src/crates/machine-core/src/pci.rs:1935-1999 VirtioNetStub::process_rx *)
partial_function (option) vn_rx_loop :: "'n net_backend \<Rightarrow> 'n virtio_net \<Rightarrow> guest_ram \<Rightarrow> ('n virtio_net \<times> guest_ram) option" where
  "vn_rx_loop nb v mem = (case vn_rx_round nb v mem of Done v mem \<Rightarrow> Some (v, mem) | Again v mem \<Rightarrow> vn_rx_loop nb v mem)"

(* src/crates/machine-core/src/pci.rs:1863-1916 VirtioNetStub::process_tx *)
definition vn_process_tx :: "'n net_backend \<Rightarrow> 'n virtio_net \<Rightarrow> guest_ram \<Rightarrow> ('n virtio_net \<times> guest_ram) option" where
  "vn_process_tx nb v mem = (if vn_needs_reset v \<or> \<not> vq_enabled (vn_queues v ! QUEUE_TX) then Some (v, mem) else vn_tx_loop nb v mem)"

(* src/crates/machine-core/src/pci.rs:1931-2000 VirtioNetStub::process_rx *)
definition vn_process_rx :: "'n net_backend \<Rightarrow> 'n virtio_net \<Rightarrow> guest_ram \<Rightarrow> ('n virtio_net \<times> guest_ram) option" where
  "vn_process_rx nb v mem = (if vn_needs_reset v \<or> \<not> vq_enabled (vn_queues v ! QUEUE_RX) then Some (v, mem) else vn_rx_loop nb v mem)"

section \<open>The device\<close>

(* src/crates/machine-core/src/pci.rs:2002-2030 VirtioNetStub::bar0_read *)
definition vn_bar0_read :: "'n virtio_net \<Rightarrow> u64 \<Rightarrow> access_width \<Rightarrow> 'n virtio_net \<times> u32" where
  "vn_bar0_read v offset width =
     (let rel = ucast offset :: u32 in
      if rel < COMMON_CFG_BAR_LEN then (v, vn_common_cfg_read v rel width)
      else if rel < NOTIFY_CFG_BAR_OFFSET + 0x1000 then (v, 0)
      else if rel < ISR_CFG_BAR_OFFSET + 0x1000 then
        (if rel = ISR_CFG_BAR_OFFSET then (v\<lparr>vn_isr_status := 0\<rparr>, ucast (vn_isr_status v)) else (v, 0))
      else
        let d = rel - DEVICE_CFG_BAR_OFFSET in
        (v, foldl (\<lambda>value lane. value OR push_bit (8 * lane)
              (ucast (let i = unat (d + of_nat lane) in if i < length VN_MAC then VN_MAC ! i else 0))) 0 [0..<unat (aw_bytes width)]))"

(* src/crates/machine-core/src/pci.rs:2032-2043 VirtioNetStub::bar0_write *)
definition vn_bar0_write :: "'n virtio_net \<Rightarrow> u64 \<Rightarrow> access_width \<Rightarrow> u32 \<Rightarrow> 'n virtio_net" where
  "vn_bar0_write v offset width value =
     (let rel = ucast offset :: u32 in if rel < COMMON_CFG_BAR_LEN then vn_common_cfg_write v rel width value else v)"

(* src/crates/machine-core/src/pci.rs:2095-2097 VirtioNetStub::bar_window *)
definition vn_bar_window :: "'n virtio_net \<Rightarrow> nat \<Rightarrow> (u64 \<times> u64) option" where
  "vn_bar_window v bar = cs_bar_window (vn_config v) bar"

(* src/crates/machine-core/src/pci.rs:2087-2089 VirtioNetStub::config_read *)
definition vn_config_read :: "'n virtio_net \<Rightarrow> u16 \<Rightarrow> access_width \<Rightarrow> 'n virtio_net \<times> u32" where
  "vn_config_read v offset width = (v, cs_read (vn_config v) offset width)"

(* src/crates/machine-core/src/pci.rs:2091-2093 VirtioNetStub::config_write *)
definition vn_config_write :: "'n virtio_net \<Rightarrow> u16 \<Rightarrow> access_width \<Rightarrow> u32 \<Rightarrow> 'n virtio_net" where
  "vn_config_write v offset width value = v\<lparr>vn_config := cs_write (vn_config v) offset width value\<rparr>"

(* src/crates/machine-core/src/pci.rs:2099-2105 VirtioNetStub::bar_read *)
definition vn_bar_read :: "'n virtio_net \<Rightarrow> nat \<Rightarrow> u64 \<Rightarrow> access_width \<Rightarrow> 'n virtio_net \<times> u32" where
  "vn_bar_read v bar offset width = (if bar = 0 then vn_bar0_read v offset width else (v, 0xFFFFFFFF))"

(* src/crates/machine-core/src/pci.rs:2107-2111 VirtioNetStub::bar_write *)
definition vn_bar_write :: "'n virtio_net \<Rightarrow> nat \<Rightarrow> u64 \<Rightarrow> access_width \<Rightarrow> u32 \<Rightarrow> 'n virtio_net" where
  "vn_bar_write v bar offset width value = (if bar = 0 then vn_bar0_write v offset width value else v)"

(* src/crates/machine-core/src/pci.rs:2113-2115 VirtioNetStub::intx_level *)
definition vn_intx_level :: "'n virtio_net \<Rightarrow> bool" where
  "vn_intx_level v \<longleftrightarrow> vn_isr_status v AND 0x1 \<noteq> 0"

(* src/crates/machine-core/src/pci.rs:2117-2120 VirtioNetStub::tick *)
definition vn_tick :: "'n net_backend \<Rightarrow> 'n virtio_net \<Rightarrow> guest_ram \<Rightarrow> ('n virtio_net \<times> guest_ram) option" where
  "vn_tick nb v mem = Option.bind (vn_process_tx nb v mem) (\<lambda>(v, mem). vn_process_rx nb v mem)"

end
