(* ===== verification/VirtioNetProofs.thy ===== *)
theory VirtioNetProofs
  imports VirtioNet
begin

text \<open>
  Correctness of the virtio network function: the negotiation state is consistent whatever a driver writes and the rings
  hold, transmission hands the backend exactly the frames the guest queued, in order, and returns, and a received
  frame is in the guest's buffer behind its header when the used ring says so.
\<close>

section \<open>Negotiation\<close>

lemma status_power: "ST_DRIVER_OK = 2 ^ 2" "ST_FEATURES_OK = 2 ^ 3" "ST_DEVICE_NEEDS_RESET = 2 ^ 6" "F_VERSION_1 = 2 ^ 32"
  by (simp_all add: ST_DRIVER_OK_def ST_FEATURES_OK_def ST_DEVICE_NEEDS_RESET_def F_VERSION_1_def)

lemma status_tests:
  "s AND ST_DRIVER_OK = 0 \<longleftrightarrow> \<not> bit s 2" "s AND ST_FEATURES_OK = 0 \<longleftrightarrow> \<not> bit s 3" "s AND ST_DEVICE_NEEDS_RESET = 0 \<longleftrightarrow> \<not> bit s 6"
  "f AND F_VERSION_1 = 0 \<longleftrightarrow> \<not> bit f 32"
  unfolding status_power by (simp_all only: and_exp_eq_0_iff_not_bit)

lemma status_bit: "bit ST_DRIVER_OK n \<longleftrightarrow> n = 2" "bit ST_FEATURES_OK n \<longleftrightarrow> n = 3" "bit ST_DEVICE_NEEDS_RESET n \<longleftrightarrow> n = 6"
  unfolding status_power by (auto simp only: bit_exp_iff possible_bit_word word_size) simp_all

lemmas status_simps = status_tests status_bit bit_or_iff bit_and_iff bit_not_iff

definition queue_in_step :: "virt_queue \<Rightarrow> bool" where
  "queue_in_step q \<longleftrightarrow> vq_used_idx q = vq_last_avail_idx q"

definition vn_ok :: "'n virtio_net \<Rightarrow> bool" where
  "vn_ok v \<longleftrightarrow> length (vn_queues v) = 2 \<and> length (vn_scratch v) = VNET_MAX_FRAME_TOTAL \<and> length (vn_rx_frame_buf v) = VNET_MAX_ETH_PAYLOAD
     \<and> (\<forall>n. bit (vn_acked_features v) n \<longrightarrow> bit OFFERED_FEATURES n)
     \<and> (bit (vn_device_status v) 2 \<longrightarrow> bit (vn_device_status v) 3) \<and> (bit (vn_device_status v) 3 \<longrightarrow> bit (vn_acked_features v) 32)
     \<and> (\<forall>q \<in> set (vn_queues v). queue_in_step q)"

lemma vn_new_ok: "vn_ok (vn_new backend)"
  by (simp add: vn_ok_def vn_new_def vq_reset_def queue_in_step_def)

lemma vn_reset_ok: "vn_ok v \<Longrightarrow> vn_ok (vn_reset v)"
  by (simp add: vn_ok_def vn_reset_def vq_reset_def queue_in_step_def)

lemma vn_fail_closed_ok: "vn_ok v \<Longrightarrow> vn_ok (vn_fail_closed v)"
  by (simp add: vn_ok_def vn_fail_closed_def status_simps)

lemma vn_write_device_status_ok:
  assumes "vn_ok v" shows "vn_ok (vn_write_device_status v value)"
proof (cases "value = 0")
  case True
  then show ?thesis using assms by (simp add: vn_write_device_status_def vn_reset_ok)
next
  case False
  then show ?thesis using assms
    by (auto simp: vn_write_device_status_def vn_ok_def Let_def status_simps)
qed

lemma vn_merge_ok: "vn_ok v \<Longrightarrow> vn_ok (vn_merge_driver_feature_byte v lane byte)"
  unfolding vn_merge_driver_feature_byte_def Let_def status_tests by (auto simp: vn_ok_def bit_or_iff bit_and_iff)

lemma vn_update_queue_ok:
  assumes "vn_ok v" and "\<And>q. queue_in_step q \<Longrightarrow> queue_in_step (f q)" shows "vn_ok (vn_update_queue v f)"
  using assms unfolding vn_ok_def vn_update_queue_def
  by (auto split: option.splits dest!: subsetD [OF set_update_subset_insert] simp: vn_selected_queue_def Let_def split: if_splits)

lemma vn_ok_frame [simp]:
  "vn_ok (v\<lparr>vn_device_feature_select := a\<rparr>) = vn_ok v" "vn_ok (v\<lparr>vn_driver_feature_select := a\<rparr>) = vn_ok v" "vn_ok (v\<lparr>vn_queue_select := b\<rparr>) = vn_ok v"
  "vn_ok (v\<lparr>vn_isr_status := c\<rparr>) = vn_ok v" "vn_ok (v\<lparr>vn_config := d\<rparr>) = vn_ok v" "vn_ok (v\<lparr>vn_backend := e\<rparr>) = vn_ok v"
  "vn_ok (v\<lparr>vn_tx_frames := a\<rparr>) = vn_ok v" "vn_ok (v\<lparr>vn_tx_dropped := a\<rparr>) = vn_ok v" "vn_ok (v\<lparr>vn_rx_frames := a\<rparr>) = vn_ok v"
  "vn_ok (v\<lparr>vn_rx_dropped := a\<rparr>) = vn_ok v"
  by (simp_all add: vn_ok_def)

lemma vn_ok_if: "(c \<Longrightarrow> vn_ok x) \<Longrightarrow> (\<not> c \<Longrightarrow> vn_ok y) \<Longrightarrow> vn_ok (if c then x else y)"
  by simp

lemma vn_common_write_ok: "vn_ok v \<Longrightarrow> vn_ok (vn_common_write_byte v rel byte)"
  unfolding vn_common_write_byte_def
  by (intro vn_ok_if vn_merge_ok vn_write_device_status_ok vn_update_queue_ok) (simp_all add: queue_in_step_def)

lemma vn_bar_write_ok: "vn_ok v \<Longrightarrow> vn_ok (vn_bar_write v bar offset width value)"
proof -
  assume v: "vn_ok v"
  have "vn_ok (foldl (\<lambda>v lane. vn_common_write_byte v (f lane) (g lane)) v lanes)" for f g and lanes :: "nat list"
    using v by (induction lanes arbitrary: v) (simp_all add: vn_common_write_ok)
  then show ?thesis using v by (simp add: vn_bar_write_def vn_bar0_write_def vn_common_cfg_write_def Let_def)
qed

lemma vn_bar_read_ok: "vn_ok v \<Longrightarrow> vn_ok (fst (vn_bar_read v bar offset width))"
  by (simp add: vn_bar_read_def vn_bar0_read_def Let_def)

section \<open>The engines keep the invariant\<close>

text \<open>A slice cannot change its length.\<close>

definition keeps_buffer :: "'n net_backend \<Rightarrow> bool" where
  "keeps_buffer nb \<longleftrightarrow> (\<forall>n buf. length (fst (snd (nb_poll_receive nb n buf))) = length buf)"

lemma gm_write_ok: "ram_ok mem \<Longrightarrow> gm_write_u16 mem a v = Some mem' \<Longrightarrow> ram_ok mem'" "ram_ok mem \<Longrightarrow> gm_write_u32 mem a w = Some mem' \<Longrightarrow> ram_ok mem'"
  by (auto simp: gm_write_u16_def gm_write_u32_def bind_eq_Some_conv to_le_def dest: ram.write_ok [rotated 2])

lemma copy_chain_length:
  "ram_ok mem \<Longrightarrow> total_len \<le> length scratch \<Longrightarrow> length (fst (vn_copy_chain_out links scratch mem desc_addr qsize total_len idx)) = length scratch"
proof (induction links scratch mem desc_addr qsize total_len idx rule: vn_copy_chain_out.induct)
  case (2 links scratch mem desc_addr qsize total_len idx)
  then show ?case using ram.slice_length [of mem] by (auto simp: Let_def split: option.splits)
qed simp

text \<open>A successful completion moves only the used index and the interrupt status; a failed one leaves the device as it was.\<close>

lemma complete_used_cases:
  assumes "ram_ok mem" and "vn_complete_used v mem qidx d l = (v', mem', ok)"
  shows "ram_ok mem' \<and> (if ok then v' = v\<lparr>vn_queues := (vn_queues v)[qidx := (vn_queues v ! qidx)\<lparr>vq_used_idx := vq_used_idx (vn_queues v ! qidx) + 1\<rparr>],
     vn_isr_status := vn_isr_status v OR 1\<rparr> else v' = v)"
  using assms by (auto simp: vn_complete_used_def Let_def vn_raise_used_irq_def split: option.splits) (meson gm_write_ok)+

lemma advance_ok:
  assumes "vn_ok v" and "qidx < 2"
  shows "vn_ok (v\<lparr>vn_queues := (vn_queues v)[qidx := (vn_queues v ! qidx)\<lparr>vq_used_idx := vq_used_idx (vn_queues v ! qidx) + 1, vq_last_avail_idx := vq_last_avail_idx (vn_queues v ! qidx) + 1\<rparr>]\<rparr>)"
proof -
  have "queue_in_step (vn_queues v ! qidx)" using assms by (simp add: vn_ok_def)
  then show ?thesis using assms unfolding vn_ok_def by (auto simp: queue_in_step_def dest!: subsetD [OF set_update_subset_insert])
qed


definition round_ok :: "('n virtio_net, guest_ram) round_result \<Rightarrow> bool" where
  "round_ok r \<longleftrightarrow> (case r of Done v mem \<Rightarrow> vn_ok v \<and> ram_ok mem | Again v mem \<Rightarrow> vn_ok v \<and> ram_ok mem)"

lemma finish_ok:
  assumes "vn_ok v" and "ram_ok mem" and "qidx < 2"
  shows "round_ok (vn_finish v mem qidx d l (\<lambda>v. v\<lparr>vn_rx_frames := vn_rx_frames v + k\<rparr>))"
proof -
  obtain v' mem' ok where c: "vn_complete_used v mem qidx d l = (v', mem', ok)" by (cases "vn_complete_used v mem qidx d l")
  note cu = complete_used_cases [OF assms(2) c]
  have len: "length (vn_queues v) = 2" using assms(1) by (simp add: vn_ok_def)
  let ?q = "vn_queues v ! qidx"
  let ?w = "v\<lparr>vn_queues := (vn_queues v)[qidx := ?q\<lparr>vq_used_idx := vq_used_idx ?q + 1, vq_last_avail_idx := vq_last_avail_idx ?q + 1\<rparr>]\<rparr>"
  show ?thesis
  proof (cases ok)
    case True
    then have "vn_finish v mem qidx d l (\<lambda>v. v\<lparr>vn_rx_frames := vn_rx_frames v + k\<rparr>) =
        Again (?w\<lparr>vn_isr_status := vn_isr_status v OR 1\<rparr>\<lparr>vn_rx_frames := vn_rx_frames v + k\<rparr>) mem'"
      using cu c len assms(3) by (simp add: vn_finish_def Let_def)
    then show ?thesis using cu advance_ok [OF assms(1,3)] by (simp only: round_ok_def round_result.case vn_ok_frame simp_thms)
  next
    case False
    then show ?thesis using cu assms(1) c by (simp add: vn_finish_def Let_def round_ok_def vn_fail_closed_ok)
  qed
qed

lemma scratch_ok: "vn_ok v \<Longrightarrow> length s = VNET_MAX_FRAME_TOTAL \<Longrightarrow> vn_ok (v\<lparr>vn_scratch := s\<rparr>)"
  by (simp add: vn_ok_def)

lemma tx_send_ok:
  assumes "vn_ok v" and "ram_ok mem" shows "vn_ok (fst (vn_tx_send nb v mem d))"
proof -
  have s: "vn_ok (v\<lparr>vn_scratch := fst (vn_copy_chain_out k (vn_scratch v) mem da qs 0 d)\<rparr>)" for k da qs d
    using assms copy_chain_length [of mem 0 "vn_scratch v"] by (intro scratch_ok) (simp_all add: vn_ok_def)
  then show ?thesis by (simp add: vn_tx_send_def Let_def case_prod_beta split: option.splits)
qed

lemma tx_round_ok:
  assumes "vn_ok v" and "ram_ok mem" shows "round_ok (vn_tx_round nb v mem)"
proof -
  have "round_ok (vn_finish (fst (vn_tx_send nb v mem d)) mem QUEUE_TX d l (\<lambda>v. v))" for d l
    using finish_ok [of "fst (vn_tx_send nb v mem d)" mem QUEUE_TX d l 0] tx_send_ok [OF assms] assms(2) by simp
  then show ?thesis using assms unfolding vn_tx_round_def Let_def case_prod_beta
    by (auto simp: round_ok_def vn_fail_closed_ok split: option.split)
qed

lemma rx_store_ok:
  assumes "vn_ok v" and "ram_ok mem" and "VNET_HDR_LEN + frame_len \<le> length (vn_scratch v)"
  shows "vn_ok (fst (vn_rx_store v mem addr frame_len))" "snd (vn_rx_store v mem addr frame_len) = Some mem' \<Longrightarrow> ram_ok mem'"
proof -
  have l: "length (vn_scratch v) = 1526" "length (vn_rx_frame_buf v) = 1514" using assms(1) by (simp_all add: vn_ok_def)
  then show "vn_ok (fst (vn_rx_store v mem addr frame_len))" using assms(1,3)
    by (simp add: vn_rx_store_def Let_def) (rule scratch_ok, simp_all)
  show "ram_ok mem'" if "snd (vn_rx_store v mem addr frame_len) = Some mem'"
    using that assms(2,3) l by (auto simp: vn_rx_store_def Let_def bind_eq_Some_conv dest!: ram.write_ok [rotated 2])
qed

lemma rx_round_ok:
  assumes "vn_ok v" and "ram_ok mem" and "keeps_buffer nb" shows "round_ok (vn_rx_round nb v mem)"
proof -
  obtain backend buf polled where p: "nb_poll_receive nb (vn_backend v) (vn_rx_frame_buf v) = (backend, buf, polled)"
    by (cases "nb_poll_receive nb (vn_backend v) (vn_rx_frame_buf v)")
  have "length (fst (snd (nb_poll_receive nb (vn_backend v) (vn_rx_frame_buf v)))) = length (vn_rx_frame_buf v)"
    using assms(3) unfolding keeps_buffer_def by blast
  then have "length buf = 1514" using assms(1) unfolding p by (simp add: vn_ok_def)
  then have v: "vn_ok (v\<lparr>vn_backend := backend, vn_rx_frame_buf := buf\<rparr>)" using assms(1) by (simp add: vn_ok_def)
  have st: "round_ok (case vn_rx_store (v\<lparr>vn_backend := backend, vn_rx_frame_buf := buf\<rparr>) mem a n of (v, None) \<Rightarrow> Done (vn_fail_closed v) mem
      | (v, Some mem) \<Rightarrow> vn_finish v mem QUEUE_RX d (of_nat (VNET_HDR_LEN + n)) (\<lambda>v. v\<lparr>vn_rx_frames := vn_rx_frames v + 1\<rparr>))"
    if "\<not> VNET_HDR_LEN + n > length (vn_scratch v)" for a n d
  proof (cases "vn_rx_store (v\<lparr>vn_backend := backend, vn_rx_frame_buf := buf\<rparr>) mem a n")
    case (Pair w r)
    then have w: "vn_ok w" "\<And>mem'. r = Some mem' \<Longrightarrow> ram_ok mem'" using rx_store_ok [OF v assms(2), of n a] that by simp_all
    show ?thesis
    proof (cases r)
      case None
      then show ?thesis using Pair w assms(2) by (simp add: round_ok_def vn_fail_closed_ok)
    next
      case (Some mem')
      then show ?thesis using Pair w finish_ok [of w mem' QUEUE_RX d "of_nat (VNET_HDR_LEN + n)" 1] by simp
    qed
  qed
  have d: "round_ok (Done (vn_fail_closed v) mem)" "round_ok (Done v mem)" "round_ok (Done (v\<lparr>vn_backend := backend, vn_rx_frame_buf := buf\<rparr>) mem)"
    "round_ok (Done (vn_fail_closed (v\<lparr>vn_backend := backend, vn_rx_frame_buf := buf\<rparr>)) mem)"
    "round_ok (Done (vn_fail_closed (v\<lparr>vn_backend := backend, vn_rx_frame_buf := buf, vn_rx_dropped := k\<rparr>)) mem)" for k
    using assms(1,2) v by (simp_all add: round_ok_def vn_fail_closed_ok del: vn_ok_frame) (metis vn_ok_frame(10) vn_fail_closed_ok)
  show ?thesis unfolding vn_rx_round_def Let_def p prod.case
    by (auto simp: d simp del: VNET_HDR_LEN_def QUEUE_RX_def of_nat_add split: option.split intro!: st)
qed

section \<open>The device under any use\<close>

lemma tx_loop_ok: "vn_tx_loop nb v mem = Some r \<Longrightarrow> vn_ok v \<Longrightarrow> ram_ok mem \<Longrightarrow> vn_ok (fst r) \<and> ram_ok (snd r)"
proof (induction rule: vn_tx_loop.raw_induct [rotated, consumes 1])
  case (1 f nb v mem r)
  then show ?case using tx_round_ok [OF "1.prems", of nb] by (auto simp: round_ok_def split: round_result.splits)
qed

lemma rx_loop_ok: "vn_rx_loop nb v mem = Some r \<Longrightarrow> keeps_buffer nb \<Longrightarrow> vn_ok v \<Longrightarrow> ram_ok mem \<Longrightarrow> vn_ok (fst r) \<and> ram_ok (snd r)"
proof (induction rule: vn_rx_loop.raw_induct [rotated, consumes 1])
  case (1 f nb v mem r)
  then show ?case using rx_round_ok [of v mem nb] by (auto simp: round_ok_def split: round_result.splits)
qed

lemma vn_tick_ok:
  assumes "vn_tick nb v mem = Some (v', mem')" and "keeps_buffer nb" and "vn_ok v" and "ram_ok mem"
  shows "vn_ok v' \<and> ram_ok mem'"
proof -
  obtain v1 mem1 where t: "vn_process_tx nb v mem = Some (v1, mem1)" "vn_process_rx nb v1 mem1 = Some (v', mem')"
    using assms(1) by (auto simp: vn_tick_def bind_eq_Some_conv)
  have "vn_ok v1 \<and> ram_ok mem1" using t(1) assms(3,4) tx_loop_ok [of nb v mem "(v1, mem1)"] by (auto simp: vn_process_tx_def split: if_splits)
  then show ?thesis using t(2) assms(2) rx_loop_ok [of nb v1 mem1 "(v', mem')"] by (auto simp: vn_process_rx_def split: if_splits)
qed

text \<open>What can happen to the device: accesses of the driver, ticks, and the guest writing its memory in between.\<close>

inductive vn_reach :: "'n net_backend \<Rightarrow> 'n \<Rightarrow> 'n virtio_net \<Rightarrow> guest_ram \<Rightarrow> bool" for nb backend where
  power_on: "ram_ok mem \<Longrightarrow> vn_reach nb backend (vn_new backend) mem"
| config_write: "vn_reach nb backend v mem \<Longrightarrow> vn_reach nb backend (vn_config_write v offset width value) mem"
| bar_read: "vn_reach nb backend v mem \<Longrightarrow> vn_reach nb backend (fst (vn_bar_read v bar addr width)) mem"
| bar_write: "vn_reach nb backend v mem \<Longrightarrow> vn_reach nb backend (vn_bar_write v bar addr width value) mem"
| guest: "vn_reach nb backend v mem \<Longrightarrow> ram_ok mem' \<Longrightarrow> vn_reach nb backend v mem'"
| tick: "vn_reach nb backend v mem \<Longrightarrow> vn_tick nb v mem = Some (v', mem') \<Longrightarrow> vn_reach nb backend v' mem'"

lemma vn_reach_ok: "vn_reach nb backend v mem \<Longrightarrow> keeps_buffer nb \<Longrightarrow> vn_ok v \<and> ram_ok mem"
  by (induction rule: vn_reach.induct) (auto simp: vn_new_ok vn_config_write_def vn_bar_read_ok vn_bar_write_ok dest: vn_tick_ok)

text \<open>C33 [invariant]: Whatever a driver writes and whatever the rings in guest memory hold, the device keeps its negotiation consistent: it never
  records a feature it did not offer, \<open>FEATURES_OK\<close> is set only with \<open>VIRTIO_F_VERSION_1\<close> acknowledged, \<open>DRIVER_OK\<close> only with
  \<open>FEATURES_OK\<close>; each queue's used index equals the available index it has consumed up to; and the staging buffers keep their sizes.\<close>

theorem virtio_negotiation_invariant:
  assumes "vn_reach nb backend v mem" and "keeps_buffer nb"
  shows "vn_acked_features v AND NOT OFFERED_FEATURES = 0
    \<and> (vn_device_status v AND ST_FEATURES_OK \<noteq> 0 \<longrightarrow> vn_acked_features v AND F_VERSION_1 \<noteq> 0)
    \<and> (vn_device_status v AND ST_DRIVER_OK \<noteq> 0 \<longrightarrow> vn_device_status v AND ST_FEATURES_OK \<noteq> 0)
    \<and> length (vn_queues v) = 2 \<and> (\<forall>q \<in> set (vn_queues v). vq_used_idx q = vq_last_avail_idx q)
    \<and> length (vn_scratch v) = VNET_MAX_FRAME_TOTAL \<and> length (vn_rx_frame_buf v) = VNET_MAX_ETH_PAYLOAD"
proof -
  have ok: "vn_ok v" using vn_reach_ok [OF assms] by simp
  then have "vn_acked_features v AND NOT OFFERED_FEATURES = 0"
    by (intro bit_word_eqI) (auto simp: vn_ok_def bit_and_iff bit_not_iff)
  then show ?thesis using ok unfolding vn_ok_def status_tests queue_in_step_def by simp
qed

theorem virtio_negotiation_invariant_witness:
  "\<exists>v. vn_reach null_net_backend () v (gr_new (replicate CHIP_RAM_SIZE 0)) \<and> vn_acked_features v AND NOT OFFERED_FEATURES = 0 \<and>
    (\<forall>q \<in> set (vn_queues v). vq_used_idx q = vq_last_avail_idx q)"
proof -
  have r: "vn_reach null_net_backend () (vn_new ()) (gr_new (replicate CHIP_RAM_SIZE 0))"
    by (rule vn_reach.power_on) (simp add: ram_ok_def gr_new_def)
  show ?thesis using virtio_negotiation_invariant [OF r] r by (auto simp: keeps_buffer_def null_net_backend_def)
qed

section \<open>Transmission\<close>

text \<open>The bytes of a descriptor chain, at most \<open>room\<close> of them: what the guest put there, read without a staging buffer.\<close>

fun chain_bytes :: "nat \<Rightarrow> guest_ram \<Rightarrow> u64 \<Rightarrow> u16 \<Rightarrow> nat \<Rightarrow> u16 \<Rightarrow> u8 list option" where
  "chain_bytes 0 mem desc_addr qsize room idx = None"
| "chain_bytes (Suc links) mem desc_addr qsize room idx =
     (case vn_read_desc mem desc_addr qsize idx of
        None \<Rightarrow> None
      | Some (addr, len, flags, nxt) \<Rightarrow>
          if flags AND (DESC_WRITE OR DESC_INDIRECT) \<noteq> 0 \<or> unat len > room then None
          else Option.bind (Option.bind (u32_try_from addr) (\<lambda>a. ram_slice mem a len)) (\<lambda>src.
            if flags AND DESC_NEXT = 0 then Some src
            else map_option ((@) src) (chain_bytes links mem desc_addr qsize (room - unat len) nxt)))"


text \<open>Ring addresses as naturals: a ring that ends below 2^32 is addressed without wrapping.\<close>

lemma u32_at: "k < 2 ^ 32 \<Longrightarrow> u32_try_from (of_nat k) = Some (of_nat k)"
proof -
  assume k: "k < 2 ^ 32"
  then have "unat (of_nat k :: u64) = k" by (simp add: unat_of_nat_less)
  moreover have "(ucast (of_nat k :: u64) :: u32) = of_nat k"
    by (rule word_unat_eq_iff [THEN iffD2]) (use k calculation in \<open>simp add: unat_ucast_mod unat_of_nat_less\<close>)
  ultimately show ?thesis using k by (simp add: u32_try_from_def word_le_nat_alt)
qed

lemma gm_at:
  assumes "k < 2 ^ 32"
  shows "gm_read_u16 mem (of_nat k) = map_option from_le (ram_slice mem (of_nat k) 2)" "gm_write_u16 mem (of_nat k) v = ram_write mem (of_nat k) (to_le 2 v)"
    "gm_write_u32 mem (of_nat k) w = ram_write mem (of_nat k) (to_le 4 w)"
  by (simp_all add: gm_read_u16_def gm_write_u16_def gm_write_u32_def u32_at [OF assms])

lemma slot_addr:
  assumes "unat base + 4 + 8 * unat pos < 2 ^ 64"
  shows "used_ring_elem_addr base pos = Some (of_nat (unat base + 4 + 8 * unat pos))"
    "avail_ring_slot_addr base pos = Some (of_nat (unat base + 4 + 2 * unat pos))"
proof -
  have p: "unat (ucast pos :: u64) = unat pos" "unat pos < 2 ^ 16" using unat_lt2p_of [of pos] by (simp_all add: unat_ucast_mod)
  then have m: "unat (8 * ucast pos :: u64) = 8 * unat pos" "unat (2 * ucast pos :: u64) = 2 * unat pos" by (simp_all add: unat_word_ariths)
  have a: "checked_add_u64 base 4 = Some (of_nat (unat base + 4))"
    using assms by (intro checked_add_u64_Some [THEN iffD2]) (simp add: unat_of_nat_less del: of_nat_add)
  have u: "unat (of_nat (unat base + 4) :: u64) = unat base + 4" using assms by (intro unat_of_nat_less) simp
  show "used_ring_elem_addr base pos = Some (of_nat (unat base + 4 + 8 * unat pos))"
    "avail_ring_slot_addr base pos = Some (of_nat (unat base + 4 + 2 * unat pos))"
    unfolding used_ring_elem_addr_def avail_ring_slot_addr_def a bind.bind_lunit checked_add_u64_Some m u
    using assms by (intro unat_of_nat_less, simp)+
qed

text \<open>The span of the used ring, and a memory that differs from another only there.\<close>

definition used_span :: "virt_queue \<Rightarrow> u16 \<Rightarrow> nat \<times> nat" where
  "used_span q qs = (unat (vq_device_addr q), unat (vq_device_addr q) + 4 + 8 * unat qs)"

definition off_span :: "nat \<times> nat \<Rightarrow> nat \<Rightarrow> nat \<Rightarrow> bool" where
  "off_span r a n \<longleftrightarrow> a + n \<le> fst r \<or> snd r \<le> a"

definition agrees_off :: "nat \<times> nat \<Rightarrow> guest_ram \<Rightarrow> guest_ram \<Rightarrow> bool" where
  "agrees_off r mem mem' \<longleftrightarrow> (\<forall>a n. (ram_slice mem' a n = None) = (ram_slice mem a n = None)) \<and>
     (\<forall>a n. off_span r (unat a) (unat n) \<longrightarrow> ram_slice mem' a n = ram_slice mem a n)"

definition used_mapped :: "virt_queue \<Rightarrow> u16 \<Rightarrow> guest_ram \<Rightarrow> bool" where
  "used_mapped q qs mem \<longleftrightarrow> snd (used_span q qs) \<le> 2 ^ 32 \<and> ram_slice mem (of_nat (unat (vq_device_addr q) + 2)) 2 \<noteq> None \<and>
     (\<forall>slot < unat qs. ram_slice mem (of_nat (unat (vq_device_addr q) + 4 + 8 * slot)) 4 \<noteq> None \<and>
        ram_slice mem (of_nat (unat (vq_device_addr q) + 8 + 8 * slot)) 4 \<noteq> None)"

lemma write_in_span:
  assumes "ram_ok mem" and "k + length bs \<le> snd r" and "fst r \<le> k" and "snd r \<le> 2 ^ 32" and "0 < length bs" "length bs < 2 ^ 32"
    and "ram_slice mem (of_nat k) (of_nat (length bs)) \<noteq> None"
  shows "\<exists>mem'. ram_write mem (of_nat k) bs = Some mem' \<and> ram_ok mem' \<and> agrees_off r mem mem' \<and> ram_slice mem' (of_nat k) (of_nat (length bs)) = Some bs"
proof -
  have l: "length bs < 2 ^ 32" "k < 2 ^ 32" using assms(2,4,5,6) by linarith+
  obtain mem' where w: "ram_write mem (of_nat k) bs = Some mem'" using ram.write_some [OF assms(1) l(1) assms(7)] by blast
  have u: "unat (of_nat k :: u32) = k" using l(2) by (simp add: unat_of_nat_less)
  have "agrees_off r mem mem'"
    unfolding agrees_off_def using ram.write_map [OF assms(1) l(1) w] ram.read_other [OF assms(1) l(1) w] assms(2,3) u by (fastforce simp: off_span_def)
  then show ?thesis using w ram.write_ok [OF assms(1) l(1) w] ram.read_same [OF assms(1) l(1) w] by blast
qed

lemma agrees_trans: "agrees_off r m1 m2 \<Longrightarrow> agrees_off r m2 m3 \<Longrightarrow> agrees_off r m1 m3"
  by (simp add: agrees_off_def)


lemma agrees_mono: "agrees_off (k, e) m m' \<Longrightarrow> fst r \<le> k \<Longrightarrow> e \<le> snd r \<Longrightarrow> agrees_off r m m'"
  by (auto simp: agrees_off_def off_span_def)

lemma agrees_read: "agrees_off r m m' \<Longrightarrow> unat a + unat n \<le> fst r \<or> snd r \<le> unat a \<Longrightarrow> ram_slice m' a n = ram_slice m a n"
  by (auto simp: agrees_off_def off_span_def)

lemma agrees_None: "agrees_off r m m' \<Longrightarrow> ram_slice m' a n = None \<longleftrightarrow> ram_slice m a n = None"
  by (simp add: agrees_off_def)

lemma write_tight:
  assumes "ram_ok m" and "length bs = n" and "0 < n" and "k + n \<le> 2 ^ 32" and "n < 2 ^ 32" and "ram_slice m (of_nat k) (of_nat n) \<noteq> None"
  shows "\<exists>m'. ram_write m (of_nat k) bs = Some m' \<and> ram_ok m' \<and> agrees_off (k, k + n) m m' \<and> ram_slice m' (of_nat k) (of_nat n) = Some bs"
  using write_in_span [OF assms(1), of k bs "(k, k + n)"] assms by simp


lemma queue_size_pos: "0 < unat (vn_effective_queue_size v idx)" "unat (vn_effective_queue_size v idx) \<le> 256"
  by (auto simp: vn_effective_queue_size_def max_def min_def word_le_nat_alt unat_gt_0)

text \<open>An element of the used ring as it lies in memory: the id and the length.\<close>

definition used_elem :: "guest_ram \<Rightarrow> virt_queue \<Rightarrow> nat \<Rightarrow> u8 list option \<times> u8 list option" where
  "used_elem mem q slot = (ram_slice mem (of_nat (unat (vq_device_addr q) + 4 + 8 * slot)) 4,
     ram_slice mem (of_nat (unat (vq_device_addr q) + 8 + 8 * slot)) 4)"

text \<open>One completion: the element and the index are in the used ring, nothing else of memory changed.\<close>

lemma complete_used_works:
  fixes v :: "'n virtio_net" and qidx :: nat
  defines "q \<equiv> vn_queues v ! qidx" and "qs \<equiv> vn_effective_queue_size v qidx"
  assumes ok: "ram_ok mem" and m: "used_mapped q qs mem"
  shows "\<exists>mem'. vn_complete_used v mem qidx d l = (v\<lparr>vn_queues := (vn_queues v)[qidx := q\<lparr>vq_used_idx := vq_used_idx q + 1\<rparr>],
      vn_isr_status := vn_isr_status v OR 1\<rparr>, mem', True) \<and> ram_ok mem' \<and> agrees_off (used_span q qs) mem mem' \<and>
    ram_slice mem' (of_nat (unat (vq_device_addr q) + 4 + 8 * unat (vq_used_idx q mod qs))) 4 = Some (to_le 4 (ucast d :: u32)) \<and>
    ram_slice mem' (of_nat (unat (vq_device_addr q) + 8 + 8 * unat (vq_used_idx q mod qs))) 4 = Some (to_le 4 l) \<and>
    ram_slice mem' (of_nat (unat (vq_device_addr q) + 2)) 2 = Some (to_le 2 (vq_used_idx q + 1)) \<and>
    (\<forall>other < unat qs. other \<noteq> unat (vq_used_idx q mod qs) \<longrightarrow> used_elem mem' q other = used_elem mem q other)"
proof -
  define dev slot where "dev = unat (vq_device_addr q)" and "slot = unat (vq_used_idx q mod qs)"
  have slot: "slot < unat qs" "unat qs \<le> 256" using queue_size_pos [of v qidx] by (simp_all add: slot_def qs_def unat_mod)
  have lim: "dev + 4 + 8 * unat qs \<le> 2 ^ 32" using m by (simp add: used_mapped_def used_span_def dev_def)
  define e where "e = dev + 4 + 8 * slot"
  have e: "e + 4 = dev + 8 + 8 * slot" "e + 8 \<le> dev + 4 + 8 * unat qs" "e + 4 \<le> 2 ^ 32" "e + 4 + 4 \<le> 2 ^ 32" "dev + 2 + 2 \<le> 2 ^ 32" "dev + 4 \<le> e"
    using slot(1) lim by (simp_all add: e_def)
  have mp: "ram_slice mem (of_nat e) (of_nat 4) \<noteq> None" "ram_slice mem (of_nat (e + 4)) (of_nat 4) \<noteq> None" "ram_slice mem (of_nat (dev + 2)) (of_nat 2) \<noteq> None"
    using m slot(1) unfolding used_mapped_def dev_def [symmetric] e(1) unfolding e_def by (simp_all del: of_nat_add)
  have tl: "length (to_le n (x :: 'a::len word)) = n" for n x by (simp add: to_le_def)
  obtain m1 where m1: "ram_write mem (of_nat e) (to_le 4 (ucast d :: u32)) = Some m1" "ram_ok m1" "agrees_off (e, e + 4) mem m1"
    "ram_slice m1 (of_nat e) (of_nat 4) = Some (to_le 4 (ucast d :: u32))"
    using write_tight [OF ok tl _ e(3) _ mp(1)] by auto
  have mp2: "ram_slice m1 (of_nat (e + 4)) (of_nat 4) \<noteq> None" "ram_slice m1 (of_nat (dev + 2)) (of_nat 2) \<noteq> None" using mp unfolding agrees_None [OF m1(3)] by simp_all
  obtain m2 where m2: "ram_write m1 (of_nat (e + 4)) (to_le 4 l) = Some m2" "ram_ok m2" "agrees_off (e + 4, e + 4 + 4) m1 m2"
    "ram_slice m2 (of_nat (e + 4)) (of_nat 4) = Some (to_le 4 l)"
    using write_tight [OF m1(2) tl _ e(4) _ mp2(1)] by auto
  have mp3: "ram_slice m2 (of_nat (dev + 2)) (of_nat 2) \<noteq> None" using mp2 unfolding agrees_None [OF m2(3)] by simp
  obtain m3 where m3: "ram_write m2 (of_nat (dev + 2)) (to_le 2 (vq_used_idx q + 1)) = Some m3" "ram_ok m3" "agrees_off (dev + 2, dev + 2 + 2) m2 m3"
    "ram_slice m3 (of_nat (dev + 2)) (of_nat 2) = Some (to_le 2 (vq_used_idx q + 1))"
    using write_tight [OF m2(2) tl _ e(5) _ mp3] by auto
  have ag: "agrees_off (used_span q qs) mem m3"
    unfolding used_span_def dev_def [symmetric]
    using agrees_trans [OF agrees_trans [OF agrees_mono [OF m1(3)] agrees_mono [OF m2(3)]] agrees_mono [OF m3(3)]] e(2,6) by simp
  have u: "unat (of_nat e :: u32) = e" "unat (of_nat (e + 4) :: u32) = e + 4" using e(4) by (intro unat_of_nat_less, simp)+
  have r1: "ram_slice m3 (of_nat e) 4 = Some (to_le 4 (ucast d :: u32))"
    using agrees_read [OF m3(3), of "of_nat e" 4] agrees_read [OF m2(3), of "of_nat e" 4] m1(4) u e(6) by simp
  have r2: "ram_slice m3 (of_nat (e + 4)) 4 = Some (to_le 4 l)"
    using agrees_read [OF m3(3), of "of_nat (e + 4)" 4] m2(4) u e(6) by (simp del: of_nat_add)
  have other: "used_elem m3 q t = used_elem mem q t" if t: "t < unat qs" "t \<noteq> slot" for t
  proof -
    define f where "f = dev + 4 + 8 * t"
    have g: "f + 8 \<le> dev + 4 + 8 * unat qs" "f + 8 \<le> e \<or> e + 8 \<le> f" "dev + 4 \<le> f" using t by (auto simp: f_def e_def)
    have u: "unat (of_nat f :: u32) = f" "unat (of_nat (f + 4) :: u32) = f + 4" using g(1) lim by (intro unat_of_nat_less, simp)+
    have "ram_slice m3 (of_nat k) 4 = ram_slice mem (of_nat k) 4" if "k = f \<or> k = f + 4" for k
    proof -
      have k: "unat (of_nat k :: u32) = k" "k + 4 \<le> e \<or> e + 8 \<le> k" "dev + 4 \<le> k" using that u g by auto
      have "ram_slice m3 (of_nat k) 4 = ram_slice m2 (of_nat k) 4" using agrees_read [OF m3(3), of "of_nat k" 4] k by simp
      also have "\<dots> = ram_slice m1 (of_nat k) 4" using agrees_read [OF m2(3), of "of_nat k" 4] k by auto
      also have "\<dots> = ram_slice mem (of_nat k) 4" using agrees_read [OF m1(3), of "of_nat k" 4] k by auto
      finally show ?thesis .
    qed
    moreover have "dev + 8 + 8 * t = f + 4" by (simp add: f_def)
    ultimately show ?thesis by (simp add: used_elem_def dev_def [symmetric] f_def [symmetric] del: of_nat_add)
  qed
  have a: "used_ring_elem_addr (vq_device_addr q) (vq_used_idx q mod qs) = Some (of_nat e)"
    using slot_addr(1) [of "vq_device_addr q" "vq_used_idx q mod qs"] e(3) unfolding e_def dev_def slot_def by simp
  have d2: "vq_device_addr q + 2 = of_nat (dev + 2)" "(of_nat e :: u64) + 4 = of_nat (e + 4)" by (simp_all add: dev_def)
  have g: "e < 2 ^ 32" "e + 4 < 2 ^ 32" "dev + 2 < 2 ^ 32" using e(4,5) by linarith+
  have "vn_complete_used v mem qidx d l = (v\<lparr>vn_queues := (vn_queues v)[qidx := q\<lparr>vq_used_idx := vq_used_idx q + 1\<rparr>],
      vn_isr_status := vn_isr_status v OR 1\<rparr>, m3, True)"
    unfolding vn_complete_used_def Let_def q_def [symmetric] qs_def [symmetric] a option.case d2 gm_at [OF g(1)] gm_at [OF g(2)] gm_at [OF g(3)] m1(1) m2(1) m3(1)
    by (simp add: vn_raise_used_irq_def)
  then show ?thesis using m3(2,4) ag r1 r2 other unfolding e(1) [symmetric] dev_def [symmetric] slot_def [symmetric] unfolding e_def by auto
qed

text \<open>A chain whose buffers lie outside a span.\<close>

fun chain_clear :: "nat \<times> nat \<Rightarrow> nat \<Rightarrow> guest_ram \<Rightarrow> u64 \<Rightarrow> u16 \<Rightarrow> u16 \<Rightarrow> bool" where
  "chain_clear r 0 mem desc_addr qsize idx = True"
| "chain_clear r (Suc links) mem desc_addr qsize idx =
     (case vn_read_desc mem desc_addr qsize idx of
        None \<Rightarrow> True
      | Some (addr, len, flags, nxt) \<Rightarrow>
          (case u32_try_from addr of None \<Rightarrow> True | Some a \<Rightarrow> off_span r (unat a) (unat len)) \<and>
          (flags AND DESC_NEXT = 0 \<or> chain_clear r links mem desc_addr qsize nxt))"

text \<open>The head in a slot of the available ring and the frame it stands for.\<close>

definition head_at :: "guest_ram \<Rightarrow> virt_queue \<Rightarrow> nat \<Rightarrow> u16" where
  "head_at mem q pos = from_le (the (ram_slice mem (of_nat (unat (vq_driver_addr q) + 4 + 2 * pos)) 2))"

definition ring_frame :: "guest_ram \<Rightarrow> virt_queue \<Rightarrow> u16 \<Rightarrow> u16 \<Rightarrow> u8 list list" where
  "ring_frame mem q qs i = (case chain_bytes (unat qs) mem (vq_desc_addr q) qs VNET_MAX_FRAME_TOTAL (head_at mem q (unat (i mod qs))) of
     Some bs \<Rightarrow> if VNET_HDR_LEN \<le> length bs then [drop VNET_HDR_LEN bs] else [] | None \<Rightarrow> [])"

text \<open>The length a slot is given back with, its used element, and the used ring after \<open>n\<close> slots: slot by slot, the last element put there.\<close>

definition ring_length :: "guest_ram \<Rightarrow> virt_queue \<Rightarrow> u16 \<Rightarrow> u16 \<Rightarrow> u32" where
  "ring_length mem q qs i = (case chain_bytes (unat qs) mem (vq_desc_addr q) qs VNET_MAX_FRAME_TOTAL (head_at mem q (unat (i mod qs))) of
     Some bs \<Rightarrow> if VNET_HDR_LEN \<le> length bs then of_nat (length bs) else 0 | None \<Rightarrow> 0)"

definition given_back :: "guest_ram \<Rightarrow> virt_queue \<Rightarrow> u16 \<Rightarrow> u16 \<Rightarrow> u8 list option \<times> u8 list option" where
  "given_back mem q qs i = (Some (to_le 4 (ucast (head_at mem q (unat (i mod qs))) :: u32)), Some (to_le 4 (ring_length mem q qs i)))"


text \<open>The frames of \<open>n\<close> slots from index \<open>i\<close> on.\<close>

fun queued_frames :: "guest_ram \<Rightarrow> virt_queue \<Rightarrow> u16 \<Rightarrow> u16 \<Rightarrow> nat \<Rightarrow> u8 list list" where
  "queued_frames mem q qs i 0 = []"
| "queued_frames mem q qs i (Suc n) = ring_frame mem q qs i @ queued_frames mem q qs (i + 1) n"

text \<open>A transmit queue set up by a sane driver: the rings are mapped, and nothing the device reads lies in the used ring it writes.\<close>

definition tx_ready :: "virt_queue \<Rightarrow> u16 \<Rightarrow> guest_ram \<Rightarrow> u16 \<Rightarrow> bool" where
  "tx_ready q qs mem avail \<longleftrightarrow> used_mapped q qs mem \<and>
     unat (vq_driver_addr q) + 4 + 2 * unat qs \<le> 2 ^ 32 \<and> off_span (used_span q qs) (unat (vq_driver_addr q)) (4 + 2 * unat qs) \<and>
     map_option from_le (ram_slice mem (of_nat (unat (vq_driver_addr q) + 2)) 2) = Some avail \<and>
     (\<forall>pos < unat qs. ram_slice mem (of_nat (unat (vq_driver_addr q) + 4 + 2 * pos)) 2 \<noteq> None) \<and>
     unat (vq_desc_addr q) + 16 * unat qs \<le> 2 ^ 32 \<and> off_span (used_span q qs) (unat (vq_desc_addr q)) (16 * unat qs) \<and>
     (\<forall>pos < unat qs. chain_clear (used_span q qs) (unat qs) mem (vq_desc_addr q) qs (head_at mem q pos))"

lemma ring_shape [simp]:
  "used_span (q\<lparr>vq_used_idx := a\<rparr>) qs = used_span q qs" "used_span (q\<lparr>vq_last_avail_idx := a\<rparr>) qs = used_span q qs"
  "tx_ready (q\<lparr>vq_used_idx := a\<rparr>) qs mem avail = tx_ready q qs mem avail" "tx_ready (q\<lparr>vq_last_avail_idx := a\<rparr>) qs mem avail = tx_ready q qs mem avail"
  "ring_frame mem (q\<lparr>vq_used_idx := a\<rparr>) qs i = ring_frame mem q qs i" "ring_frame mem (q\<lparr>vq_last_avail_idx := a\<rparr>) qs i = ring_frame mem q qs i"
  by (simp_all add: used_span_def tx_ready_def used_mapped_def head_at_def ring_frame_def)

lemma queued_shape [simp]:
  "queued_frames mem (q\<lparr>vq_used_idx := a\<rparr>) qs i n = queued_frames mem q qs i n" "queued_frames mem (q\<lparr>vq_last_avail_idx := a\<rparr>) qs i n = queued_frames mem q qs i n"
  by (induction n arbitrary: i) simp_all

lemma elem_shape [simp]:
  "used_elem mem (q\<lparr>vq_used_idx := a\<rparr>) = used_elem mem q" "used_elem mem (q\<lparr>vq_last_avail_idx := a\<rparr>) = used_elem mem q"
  "given_back mem (q\<lparr>vq_used_idx := a\<rparr>) = given_back mem q" "given_back mem (q\<lparr>vq_last_avail_idx := a\<rparr>) = given_back mem q"
  by (simp_all add: fun_eq_iff used_elem_def given_back_def ring_length_def head_at_def)












lemma u32_try_from_ucast: "u32_try_from (ucast (a :: u32)) = Some a"
proof -
  have "unat (ucast a :: u64) = unat a" by (rule unat_ucast_u32_u64)
  then have "(ucast a :: u64) \<le> 0xFFFFFFFF" using unat_lt2p_of [of a] by (simp add: word_le_nat_alt)
  moreover have "(ucast (ucast a :: u64) :: u32) = a"
    by (rule word_unat_eq_iff [THEN iffD2]) (use unat_lt2p_of [of a] in \<open>simp add: unat_ucast_mod\<close>)
  ultimately show ?thesis by (simp add: u32_try_from_def)
qed

lemma zero_slice: "unat a + unat n \<le> 0x200000 \<Longrightarrow> ram_slice zero_ram a n = Some (replicate (unat n) 0)"
  by (auto simp: ram_slice_region chip_region sub_slice_def zero_ram_def gr_new_def)

lemma from_le_zero: "from_le (replicate n 0) = 0"
proof -
  have "from_be (replicate n 0) = (0 :: 'a::len word)"
  proof (induction n)
    case (Suc n)
    have "from_be (replicate n 0 @ [0]) = (0 :: 'a word)" unfolding from_be_snoc Suc by simp
    then show ?case by (simp add: replicate_append_same)
  qed (simp add: from_be_def)
  then show ?thesis by (simp add: from_le_def)
qed










section \<open>Reception\<close>

text \<open>A receive buffer is waiting: the next descriptor is one the device may write, with room for the frame behind its header, and neither the descriptor's
  buffer nor the used ring overlaps the other.\<close>

definition rx_header :: "u8 list" where
  "rx_header = [0, 0, 0, 0, 0, 0, 0, 0, 0, 0, 1, 0]"

definition rx_buffer :: "'n virtio_net \<Rightarrow> guest_ram \<Rightarrow> nat \<Rightarrow> u16 \<Rightarrow> u32 \<Rightarrow> bool" where
  "rx_buffer v mem frame_len desc_head a \<longleftrightarrow>
     (let q = vn_queues v ! QUEUE_RX; qs = vn_effective_queue_size v QUEUE_RX; n = VNET_HDR_LEN + frame_len in
      (\<exists>avail. gm_read_u16 mem (vq_driver_addr q + 2) = Some avail \<and> avail \<noteq> vq_last_avail_idx q) \<and>
      Option.bind (avail_ring_slot_addr (vq_driver_addr q) (vq_last_avail_idx q mod qs)) (gm_read_u16 mem) = Some desc_head \<and>
      (\<exists>len flags nxt. vn_read_desc mem (vq_desc_addr q) qs desc_head = Some (ucast a, len, flags, nxt) \<and>
         flags AND DESC_WRITE \<noteq> 0 \<and> flags AND DESC_INDIRECT = 0 \<and> n \<le> unat len) \<and>
      n \<le> VNET_MAX_FRAME_TOTAL \<and> ram_slice mem a (of_nat n) \<noteq> None \<and> used_mapped q qs mem \<and> off_span (used_span q qs) (unat a) n)"

lemma rx_store_spec:
  assumes "vn_ok v" and "ram_ok mem" and "VNET_HDR_LEN + n \<le> VNET_MAX_FRAME_TOTAL" and "ram_slice mem a (of_nat (VNET_HDR_LEN + n)) \<noteq> None"
  shows "\<exists>s mem'. vn_rx_store v mem (ucast a) n = (v\<lparr>vn_scratch := s\<rparr>, Some mem') \<and> ram_ok mem' \<and> length s = VNET_MAX_FRAME_TOTAL \<and>
    ram_slice mem' a (of_nat (VNET_HDR_LEN + n)) = Some (rx_header @ take n (vn_rx_frame_buf v)) \<and>
    (\<forall>b k. (ram_slice mem' b k = None) = (ram_slice mem b k = None))"
proof -
  let ?hdr = "(replicate VNET_HDR_LEN 0)[10 := 1, 11 := 0] :: u8 list" and ?f = "take n (vn_rx_frame_buf v)"
  have l: "length (vn_scratch v) = 1526" "length ?f = n" using assms(1,3) by (simp_all add: vn_ok_def)
  let ?s = "splice_at (splice_at (vn_scratch v) 0 ?hdr) VNET_HDR_LEN ?f"
  have h: "?hdr = rx_header" by (simp add: rx_header_def numeral_eq_Suc)
  have hl: "length rx_header = VNET_HDR_LEN" by (simp add: rx_header_def)
  have t: "take (VNET_HDR_LEN + n) ?s = rx_header @ ?f" "length ?s = 1526"
    using l assms(3) hl unfolding h by (simp_all add: splice_at_def)
  have bs: "length (rx_header @ ?f) = VNET_HDR_LEN + n" "length (rx_header @ ?f) < 2 ^ 32" using l assms(3) by (simp_all add: rx_header_def)
  obtain mem' where w: "ram_write mem a (rx_header @ ?f) = Some mem'"
    using ram.write_some [OF assms(2) bs(2), of a] assms(4) unfolding bs(1) by blast
  have "vn_rx_store v mem (ucast a) n = (v\<lparr>vn_scratch := ?s\<rparr>, Some mem')"
    unfolding vn_rx_store_def Let_def u32_try_from_ucast t(1) by (simp add: w)
  then show ?thesis using ram.write_ok [OF assms(2) bs(2) w] ram.read_same [OF assms(2) bs(2) w] ram.write_map [OF assms(2) bs(2) w] t(2)
    unfolding bs(1) by (intro exI [of _ ?s] exI [of _ mem']) simp
qed

text \<open>C32 [functional]: Reception. When the backend has a frame and the guest a buffer for it, one round puts the header with \<open>num_buffers = 1\<close> and then exactly the
  frame into that buffer, publishes its descriptor with the length in the used ring, moves the used index past it and raises the interrupt.\<close>

theorem virtio_rx_delivers:
  assumes "vn_ok v" and "ram_ok mem" and "keeps_buffer nb" and "nb_poll_receive nb (vn_backend v) (vn_rx_frame_buf v) = (backend', frame, Some n)"
    and "rx_buffer v mem n desc_head a"
  shows "\<exists>v' mem'. vn_rx_round nb v mem = Again v' mem' \<and> vn_backend v' = backend' \<and> vn_intx_level v' \<and> vn_rx_frames v' = vn_rx_frames v + 1 \<and>
    ram_slice mem' a (of_nat (VNET_HDR_LEN + n)) = Some (rx_header @ take n frame) \<and>
    (let q = vn_queues v ! QUEUE_RX; slot = unat (vq_used_idx q mod vn_effective_queue_size v QUEUE_RX); dev = unat (vq_device_addr q) in
     ram_slice mem' (of_nat (dev + 4 + 8 * slot)) 4 = Some (to_le 4 (ucast desc_head :: u32)) \<and>
     ram_slice mem' (of_nat (dev + 8 + 8 * slot)) 4 = Some (to_le 4 (of_nat (VNET_HDR_LEN + n) :: u32)) \<and>
     ram_slice mem' (of_nat (dev + 2)) 2 = Some (to_le 2 (vq_used_idx q + 1)))"
proof -
  define q qs where "q = vn_queues v ! QUEUE_RX" and "qs = vn_effective_queue_size v QUEUE_RX"
  note rb = assms(5) [unfolded rx_buffer_def Let_def, folded q_def qs_def]
  let ?v = "v\<lparr>vn_backend := backend', vn_rx_frame_buf := frame\<rparr>" and ?n = "VNET_HDR_LEN + n"
  have "length frame = length (vn_rx_frame_buf v)" using assms(3,4) unfolding keeps_buffer_def by (metis fst_conv snd_conv)
  then have ok: "vn_ok ?v" using assms(1) by (simp add: vn_ok_def)
  obtain avail len flags nxt where r: "gm_read_u16 mem (vq_driver_addr q + 2) = Some avail" "avail \<noteq> vq_last_avail_idx q"
    "vn_read_desc mem (vq_desc_addr q) qs desc_head = Some (ucast a, len, flags, nxt)" "flags AND DESC_WRITE \<noteq> 0" "flags AND DESC_INDIRECT = 0" "?n \<le> unat len"
    using rb by blast
  have m: "?n \<le> VNET_MAX_FRAME_TOTAL" "ram_slice mem a (of_nat ?n) \<noteq> None" using rb by blast+
  obtain s mem1 where st: "vn_rx_store ?v mem (ucast a) n = (?v\<lparr>vn_scratch := s\<rparr>, Some mem1)" "ram_ok mem1"
    "ram_slice mem1 a (of_nat ?n) = Some (rx_header @ take n frame)" "\<And>b k. (ram_slice mem1 b k = None) = (ram_slice mem b k = None)"
    using rx_store_spec [OF ok assms(2) m] by auto
  let ?w = "?v\<lparr>vn_scratch := s\<rparr>"
  have g: "vn_queues ?w ! QUEUE_RX = q" "vn_effective_queue_size ?w QUEUE_RX = qs" by (simp_all add: q_def qs_def vn_effective_queue_size_def)
  have um: "used_mapped (vn_queues ?w ! QUEUE_RX) (vn_effective_queue_size ?w QUEUE_RX) mem1" using rb st(4) unfolding g used_mapped_def by simp
  obtain mem' where c: "vn_complete_used ?w mem1 QUEUE_RX desc_head (of_nat ?n) = (?w\<lparr>vn_queues := (vn_queues v)[QUEUE_RX := q\<lparr>vq_used_idx := vq_used_idx q + 1\<rparr>],
      vn_isr_status := vn_isr_status v OR 1\<rparr>, mem', True)" "agrees_off (used_span q qs) mem1 mem'"
    "ram_slice mem' (of_nat (unat (vq_device_addr q) + 4 + 8 * unat (vq_used_idx q mod qs))) 4 = Some (to_le 4 (ucast desc_head :: u32))"
    "ram_slice mem' (of_nat (unat (vq_device_addr q) + 8 + 8 * unat (vq_used_idx q mod qs))) 4 = Some (to_le 4 (of_nat ?n :: u32))"
    "ram_slice mem' (of_nat (unat (vq_device_addr q) + 2)) 2 = Some (to_le 2 (vq_used_idx q + 1))"
    using complete_used_works [OF st(2) um, of desc_head "of_nat ?n"] unfolding g by auto
  have u: "unat (of_nat ?n :: u32) = ?n" using m(1) by (intro unat_of_nat_less) simp
  have "off_span (used_span q qs) (unat a) ?n" using rb by blast
  then have buf: "ram_slice mem' a (of_nat ?n) = Some (rx_header @ take n frame)"
    using agrees_read [OF c(2), of a "of_nat ?n"] st(3) unfolding u off_span_def by auto
  have sl: "\<not> ?n > length (vn_scratch ?v)" using assms(1) m(1) by (simp add: vn_ok_def)
  have hd: "Option.bind (avail_ring_slot_addr (vq_driver_addr q) (vq_last_avail_idx q mod qs)) (gm_read_u16 mem) = Some desc_head" using rb by blast
  have round: "vn_rx_round nb v mem = vn_finish ?w mem1 QUEUE_RX desc_head (of_nat ?n) (\<lambda>v. v\<lparr>vn_rx_frames := vn_rx_frames v + 1\<rparr>)"
    unfolding vn_rx_round_def Let_def q_def [symmetric] qs_def [symmetric] r(1) option.case assms(4) prod.case hd r(3) st(1)
    using r(2,4,5,6) sl by (simp del: QUEUE_RX_def VNET_HDR_LEN_def of_nat_add)
  obtain v' where "vn_finish ?w mem1 QUEUE_RX desc_head (of_nat ?n) (\<lambda>v. v\<lparr>vn_rx_frames := vn_rx_frames v + 1\<rparr>) = Again v' mem'"
    "vn_backend v' = backend'" "vn_isr_status v' = vn_isr_status v OR 1" "vn_rx_frames v' = vn_rx_frames v + 1"
    unfolding vn_finish_def Let_def c(1) prod.case by simp
  moreover have "(vn_isr_status v OR 1) AND 1 \<noteq> 0" using and_single_bit [of 0 "vn_isr_status v OR 1"] by (simp add: bit_or_iff)
  ultimately show ?thesis using round buf c(3-5) unfolding Let_def q_def [symmetric] qs_def [symmetric] vn_intx_level_def by simp
qed

text \<open>A receive queue of one entry with a 2000-byte buffer at 0x4000, and a backend that always has 60 bytes.\<close>

definition one_buffer :: "unit virtio_net" where
  "one_buffer = (vn_new ())\<lparr>vn_queues := [\<lparr>vq_size = 1, vq_enabled = True, vq_desc_addr = 0x3000, vq_driver_addr = 0x2000,
     vq_device_addr = 0x1000, vq_last_avail_idx = 0xFFFF, vq_used_idx = 0xFFFF\<rparr>, vq_reset QUEUE_SIZE_MAX]\<rparr>"

definition sixty_bytes :: "unit net_backend" where
  "sixty_bytes = \<lparr>nb_transmit = (\<lambda>n frame. n), nb_poll_receive = (\<lambda>n buf. (n, buf, Some 60))\<rparr>"

definition rx_descriptor :: "u8 list" where
  "rx_descriptor = to_le 8 (ucast (0x4000 :: u32) :: u64) @ to_le 4 (2000 :: u32) @ to_le 2 (2 :: u16) @ to_le 2 (0 :: u16)"

lemma rx_descriptor_fields: "length rx_descriptor = 16" "from_le (take 8 rx_descriptor) = (ucast (0x4000 :: u32) :: u64)" "from_le (take 4 (drop 8 rx_descriptor)) = (2000 :: u32)"
  "from_le (take 2 (drop 12 rx_descriptor)) = (2 :: u16)" "from_le (take 2 (drop 14 rx_descriptor)) = (0 :: u16)"
proof -
  have l: "length (to_le n (w :: 'a::len word)) = n" for n w by (simp add: to_le_def)
  show "length rx_descriptor = 16" by (simp add: rx_descriptor_def l)
  have r: "from_le (to_le 8 (w :: u64)) = w" "from_le (to_le 4 (x :: u32)) = x" "from_le (to_le 2 (y :: u16)) = y" for w x y
    by (simp_all add: from_le_def to_le_def)
  show "from_le (take 8 rx_descriptor) = (ucast (0x4000 :: u32) :: u64)" "from_le (take 4 (drop 8 rx_descriptor)) = (2000 :: u32)"
    "from_le (take 2 (drop 12 rx_descriptor)) = (2 :: u16)" "from_le (take 2 (drop 14 rx_descriptor)) = (0 :: u16)"
    unfolding rx_descriptor_def by (simp_all only: take_append drop_append l r) (simp_all add: l r)
qed

lemma one_buffer_waiting:
  assumes "ram_write zero_ram 0x3000 rx_descriptor = Some mem"
  shows "rx_buffer one_buffer mem 60 0 0x4000"
proof -
  have b: "length rx_descriptor < 2 ^ 32" by (simp add: rx_descriptor_fields)
  have d: "ram_slice mem 0x3000 16 = Some rx_descriptor" using ram.read_same [OF zero_ram_ok b assms] by (simp add: rx_descriptor_fields)
  have z: "ram_slice mem a 2 = Some (replicate 2 0)" if "unat a + 2 \<le> 0x3000" for a
    using ram.read_other [OF zero_ram_ok b assms, of a 2] zero_slice [of a 2] that by simp
  have n: "ram_slice mem a k \<noteq> None" if "unat a + unat k \<le> 0x200000" for a k
    using ram.write_map [OF zero_ram_ok b assms, of a k] zero_slice [OF that] by auto
  have q: "vn_queues one_buffer ! QUEUE_RX = \<lparr>vq_size = 1, vq_enabled = True, vq_desc_addr = 0x3000, vq_driver_addr = 0x2000,
     vq_device_addr = 0x1000, vq_last_avail_idx = 0xFFFF, vq_used_idx = 0xFFFF\<rparr>" "vn_effective_queue_size one_buffer QUEUE_RX = 1"
    by (simp_all add: one_buffer_def vn_effective_queue_size_def)
  have g: "gm_read_u16 mem 0x2002 = Some 0" "Option.bind (avail_ring_slot_addr 0x2000 0) (gm_read_u16 mem) = Some 0"
    using z [of "0x2002"] z [of "0x2004"] from_le_zero [of 2]
    by (simp_all add: gm_read_u16_def u32_try_from_def avail_ring_slot_addr_def checked_add_u64_def del: replicate.simps)
  have dr: "from_le (drop 14 rx_descriptor) = (0 :: u16)" using rx_descriptor_fields(1,5) by simp
  have rd: "vn_read_desc mem 0x3000 1 0 = Some (ucast (0x4000 :: u32), 2000, 2, 0)"
    using d by (simp add: vn_read_desc_def checked_add_u64_def u32_try_from_def rx_descriptor_fields dr)
  show ?thesis unfolding rx_buffer_def Let_def q using g rd n [of "0x4000" 72] n [of "0x1002" 2] n [of "0x1004" 4] n [of "0x1008" 4]
    by (simp add: used_mapped_def used_span_def off_span_def)
qed

theorem virtio_rx_delivers_witness:
  "\<exists>mem v' mem'. ram_write zero_ram 0x3000 rx_descriptor = Some mem \<and> vn_rx_round sixty_bytes one_buffer mem = Again v' mem' \<and> vn_intx_level v' \<and>
    ram_slice mem' 0x4000 (of_nat (VNET_HDR_LEN + 60)) = Some (rx_header @ take 60 (vn_rx_frame_buf one_buffer))"
proof -
  have b: "length rx_descriptor < 2 ^ 32" "of_nat (length rx_descriptor) = (16 :: u32)" by (simp_all add: rx_descriptor_fields)
  obtain mem where w: "ram_write zero_ram 0x3000 rx_descriptor = Some mem"
    using ram.write_some [OF zero_ram_ok b(1), of "0x3000"] zero_slice [of "0x3000" 16] unfolding b(2) by auto
  have ok: "vn_ok one_buffer" using vn_new_ok [of "()"] by (simp add: vn_ok_def one_buffer_def queue_in_step_def vq_reset_def)
  have k: "keeps_buffer sixty_bytes" "nb_poll_receive sixty_bytes (vn_backend one_buffer) (vn_rx_frame_buf one_buffer) = ((), vn_rx_frame_buf one_buffer, Some 60)"
    by (simp_all add: keeps_buffer_def sixty_bytes_def)
  show ?thesis using virtio_rx_delivers [OF ok ram.write_ok [OF zero_ram_ok b(1) w] k one_buffer_waiting [OF w]] w by blast
qed

end
