(* ===== verification/Render.thy ===== *)
theory Render
  imports Chipset Cirrus
begin

text \<open>
  The renderer of \<open>crates/machine-core/src/render.rs\<close> and the framebuffer of \<open>display.rs\<close> it draws into: the walk of the
  copper list into bands of register state, the decoding of the display window and data fetch, the bitplane and sprite
  painting, and the conversion of the Cirrus chip's frame. The properties are in \<open>RenderProofs\<close>.

  Positions and counts that the source holds as \<open>u32\<close> are naturals here: they are derived from 16-bit registers (or are a
  line reached after at most 4096 waits of at most 255 lines), so none of the arithmetic on them comes near \<open>2 ^ 32\<close>.
  Addresses into chip RAM stay 32-bit words, because a guest can make them wrap. \<open>fetch_bit_shift\<close> is signed, an integer.
\<close>

section \<open>The framebuffer\<close>

(* src/crates/machine-core/src/display.rs:14-16 MAX_HEIGHT *)
definition MAX_HEIGHT :: nat where "MAX_HEIGHT = 576"

(* src/crates/machine-core/src/display.rs:18-29 Framebuffer *)
record framebuffer =
  fb_pixels :: "u32 list"
  fb_width :: nat
  fb_height :: nat

(* src/crates/machine-core/src/display.rs:32-44 Framebuffer::new *)
definition fb_new :: "u32 list \<Rightarrow> nat \<Rightarrow> nat \<Rightarrow> framebuffer option" where
  "fb_new pixels width height =
     (if width = 0 \<or> height = 0 \<or> length pixels < width * height then None
      else Some \<lparr>fb_pixels = pixels, fb_width = width, fb_height = height\<rparr>)"

(* src/crates/machine-core/src/display.rs:46-50 Framebuffer::put *)
definition fb_put :: "framebuffer \<Rightarrow> nat \<Rightarrow> nat \<Rightarrow> u32 \<Rightarrow> framebuffer" where
  "fb_put fb x y argb =
     (if x < fb_width fb \<and> y < fb_height fb then fb\<lparr>fb_pixels := (fb_pixels fb)[y * fb_width fb + x := argb]\<rparr> else fb)"

(* src/crates/machine-core/src/display.rs:52-56 Framebuffer::fill *)
definition fb_fill :: "framebuffer \<Rightarrow> u32 \<Rightarrow> framebuffer" where
  "fb_fill fb argb = fb\<lparr>fb_pixels := map (\<lambda>_. argb) (fb_pixels fb)\<rparr>"

(* src/crates/machine-core/src/display.rs:59-70 argb_from_amiga *)
definition argb_from_amiga :: "u16 \<Rightarrow> u32" where
  "argb_from_amiga rgb =
     (let r = ucast (drop_bit 8 rgb AND 0x0F) :: u32;
          g = ucast (drop_bit 4 rgb AND 0x0F) :: u32;
          b = ucast (rgb AND 0x0F) :: u32
      in 0xFF000000 OR push_bit 16 (r * 0x11) OR push_bit 8 (g * 0x11) OR b * 0x11)"

section \<open>Constants and reads of chip RAM\<close>

(* src/crates/machine-core/src/render.rs:52-56 COPPER_INSTR_BUDGET *)
definition COPPER_INSTR_BUDGET :: nat where "COPPER_INSTR_BUDGET = 4096"
(* src/crates/machine-core/src/render.rs:58-64 MAX_DDF_WORDS *)
definition MAX_DDF_WORDS :: nat where [simp]: "MAX_DDF_WORDS = 128"
(* src/crates/machine-core/src/render.rs:66-67 MAX_PLANES *)
definition MAX_PLANES :: nat where [simp]: "MAX_PLANES = 5"
(* src/crates/machine-core/src/render.rs:69-72 MAX_SPRITE_LINES *)
definition MAX_SPRITE_LINES :: nat where "MAX_SPRITE_LINES = 256"
(* src/crates/machine-core/src/render.rs:74-80 MAX_BANDS *)
definition MAX_BANDS :: nat where [simp]: "MAX_BANDS = 16"
(* src/crates/machine-core/src/render.rs:82-99 OUTPUT_PX_PER_CCK *)
definition OUTPUT_PX_PER_CCK :: nat where [simp]: "OUTPUT_PX_PER_CCK = 2"

(* src/crates/machine-core/src/render.rs:101-108 read_byte *)
definition rn_read_byte :: "u8 list \<Rightarrow> u32 \<Rightarrow> u8" where
  "rn_read_byte ram addr = (if unat addr < length ram then ram ! unat addr else 0)"

(* src/crates/machine-core/src/render.rs:110-116 read_word *)
definition rn_read_word :: "u8 list \<Rightarrow> u32 \<Rightarrow> u16" where
  "rn_read_word ram addr =
     (let hi = ucast (rn_read_byte ram addr) :: u16; lo = ucast (rn_read_byte ram (addr + 1)) :: u16
      in push_bit 8 hi OR lo)"

(* src/crates/machine-core/src/render.rs:118-123 set_ptr_hi *)
definition rn_set_ptr_hi :: "u32 \<Rightarrow> u16 \<Rightarrow> u32" where
  "rn_set_ptr_hi ptr value = (ptr AND 0x0000FFFF) OR push_bit 16 (ucast value)"

(* src/crates/machine-core/src/render.rs:125-128 set_ptr_lo *)
definition rn_set_ptr_lo :: "u32 \<Rightarrow> u16 \<Rightarrow> u32" where
  "rn_set_ptr_lo ptr value = (ptr AND 0xFFFF0000) OR ucast value"

(* src/crates/machine-core/src/render.rs:130-133 DMACON_DMAEN *)
definition RN_DMAEN :: u16 where "RN_DMAEN = push_bit 9 1"
(* src/crates/machine-core/src/render.rs:134-135 DMACON_BPLEN *)
definition RN_BPLEN :: u16 where "RN_BPLEN = push_bit 8 1"
(* src/crates/machine-core/src/render.rs:136-141 DMACON_SETCLR *)
definition RN_SETCLR :: u16 where "RN_SETCLR = push_bit 15 1"

(* src/crates/machine-core/src/render.rs:143-162 apply_dmacon_setclr *)
definition apply_dmacon_setclr :: "u16 \<Rightarrow> u16 \<Rightarrow> u16" where
  "apply_dmacon_setclr current value =
     (let bits = value AND 0x7FFF
      in if value AND RN_SETCLR \<noteq> 0 then current OR bits else current AND NOT bits)"

(* src/crates/machine-core/src/render.rs:179-181 bitplane_dma_enabled *)
definition bitplane_dma_enabled :: "u16 \<Rightarrow> bool" where
  "bitplane_dma_enabled d \<longleftrightarrow> d AND (RN_DMAEN OR RN_BPLEN) = (RN_DMAEN OR RN_BPLEN)"

section \<open>The copper's shadow of the display registers\<close>

(* src/crates/machine-core/src/render.rs:183-240 CopperState *)
record copper_state =
  cs_bplpt :: "u32 list"
  cs_bplcon0 :: u16
  cs_bplcon1 :: u16
  cs_bplcon2 :: u16
  cs_bpl1mod :: u16
  cs_bpl2mod :: u16
  cs_diwstrt :: u16
  cs_diwstop :: u16
  cs_ddfstrt :: u16
  cs_ddfstop :: u16
  cs_color :: "u16 list"
  cs_dmacon :: u16
  cs_cop1lc :: u32
  cs_cop2lc :: u32
  cs_spr0pt :: u32

(* src/crates/machine-core/src/render.rs:243-261 CopperState::from_chipset *)
definition cs_from_chipset :: "chipset \<Rightarrow> copper_state" where
  "cs_from_chipset c = \<lparr>cs_bplpt = bplpt c, cs_bplcon0 = bplcon0 c, cs_bplcon1 = bplcon1 c, cs_bplcon2 = bplcon2 c,
     cs_bpl1mod = bpl1mod c, cs_bpl2mod = bpl2mod c, cs_diwstrt = diwstrt c, cs_diwstop = diwstop c,
     cs_ddfstrt = ddfstrt c, cs_ddfstop = ddfstop c, cs_color = color c, cs_dmacon = dmacon c,
     cs_cop1lc = cop1lc c, cs_cop2lc = cop2lc c, cs_spr0pt = spr0pt c\<rparr>"

(* src/crates/machine-core/src/render.rs:263-318 CopperState::apply_move *)
definition apply_move :: "copper_state \<Rightarrow> u16 \<Rightarrow> u16 \<Rightarrow> copper_state" where
  "apply_move s offset value =
     (let hi = (\<lambda>p. rn_set_ptr_hi p value); lo = (\<lambda>p. rn_set_ptr_lo p value) in
      if offset = CHIP_BPL1PTH then s\<lparr>cs_bplpt := upd_at hi 0 (cs_bplpt s)\<rparr>
      else if offset = CHIP_BPL1PTL then s\<lparr>cs_bplpt := upd_at lo 0 (cs_bplpt s)\<rparr>
      else if offset = CHIP_BPL2PTH then s\<lparr>cs_bplpt := upd_at hi 1 (cs_bplpt s)\<rparr>
      else if offset = CHIP_BPL2PTL then s\<lparr>cs_bplpt := upd_at lo 1 (cs_bplpt s)\<rparr>
      else if offset = CHIP_BPL3PTH then s\<lparr>cs_bplpt := upd_at hi 2 (cs_bplpt s)\<rparr>
      else if offset = CHIP_BPL3PTL then s\<lparr>cs_bplpt := upd_at lo 2 (cs_bplpt s)\<rparr>
      else if offset = CHIP_BPL4PTH then s\<lparr>cs_bplpt := upd_at hi 3 (cs_bplpt s)\<rparr>
      else if offset = CHIP_BPL4PTL then s\<lparr>cs_bplpt := upd_at lo 3 (cs_bplpt s)\<rparr>
      else if offset = CHIP_BPL5PTH then s\<lparr>cs_bplpt := upd_at hi 4 (cs_bplpt s)\<rparr>
      else if offset = CHIP_BPL5PTL then s\<lparr>cs_bplpt := upd_at lo 4 (cs_bplpt s)\<rparr>
      else if offset = CHIP_BPL6PTH then s\<lparr>cs_bplpt := upd_at hi 5 (cs_bplpt s)\<rparr>
      else if offset = CHIP_BPL6PTL then s\<lparr>cs_bplpt := upd_at lo 5 (cs_bplpt s)\<rparr>
      else if offset = CHIP_COP1LCH then s\<lparr>cs_cop1lc := hi (cs_cop1lc s)\<rparr>
      else if offset = CHIP_COP1LCL then s\<lparr>cs_cop1lc := lo (cs_cop1lc s)\<rparr>
      else if offset = CHIP_COP2LCH then s\<lparr>cs_cop2lc := hi (cs_cop2lc s)\<rparr>
      else if offset = CHIP_COP2LCL then s\<lparr>cs_cop2lc := lo (cs_cop2lc s)\<rparr>
      else if offset = CHIP_BPLCON0 then s\<lparr>cs_bplcon0 := value\<rparr>
      else if offset = CHIP_BPLCON1 then s\<lparr>cs_bplcon1 := value\<rparr>
      else if offset = CHIP_BPLCON2 then s\<lparr>cs_bplcon2 := value\<rparr>
      else if offset = CHIP_BPL1MOD then s\<lparr>cs_bpl1mod := value\<rparr>
      else if offset = CHIP_BPL2MOD then s\<lparr>cs_bpl2mod := value\<rparr>
      else if offset = CHIP_DIWSTRT then s\<lparr>cs_diwstrt := value\<rparr>
      else if offset = CHIP_DIWSTOP then s\<lparr>cs_diwstop := value\<rparr>
      else if offset = CHIP_DDFSTRT then s\<lparr>cs_ddfstrt := value\<rparr>
      else if offset = CHIP_DDFSTOP then s\<lparr>cs_ddfstop := value\<rparr>
      else if offset = CHIP_DMACON then s\<lparr>cs_dmacon := apply_dmacon_setclr (cs_dmacon s) value\<rparr>
      else if CHIP_COLOR00 \<le> offset \<and> offset \<le> CHIP_COLOR31 then
        s\<lparr>cs_color := (cs_color s)[unat ((offset - CHIP_COLOR00) div 2) := value AND 0x0FFF]\<rparr>
      else if offset = CHIP_SPR0PTH then s\<lparr>cs_spr0pt := hi (cs_spr0pt s)\<rparr>
      else if offset = CHIP_SPR0PTL then s\<lparr>cs_spr0pt := lo (cs_spr0pt s)\<rparr>
      else s)"

section \<open>Bands of register state\<close>

(* src/crates/machine-core/src/render.rs:336-354 BandState *)
record band_state =
  bs_bplcon0 :: u16
  bs_bplcon1 :: u16
  bs_bpl1mod :: u16
  bs_bpl2mod :: u16
  bs_diwstrt :: u16
  bs_diwstop :: u16
  bs_ddfstrt :: u16
  bs_ddfstop :: u16
  bs_color :: "u16 list"
  bs_dmacon :: u16

(* src/crates/machine-core/src/render.rs:357-370 BandState::from_state *)
definition bs_from_state :: "copper_state \<Rightarrow> band_state" where
  "bs_from_state s = \<lparr>bs_bplcon0 = cs_bplcon0 s, bs_bplcon1 = cs_bplcon1 s, bs_bpl1mod = cs_bpl1mod s,
     bs_bpl2mod = cs_bpl2mod s, bs_diwstrt = cs_diwstrt s, bs_diwstop = cs_diwstop s, bs_ddfstrt = cs_ddfstrt s,
     bs_ddfstop = cs_ddfstop s, bs_color = cs_color s, bs_dmacon = cs_dmacon s\<rparr>"

(* src/crates/machine-core/src/render.rs:372-390 BandState::zeroed *)
definition bs_zeroed :: band_state where
  "bs_zeroed = \<lparr>bs_bplcon0 = 0, bs_bplcon1 = 0, bs_bpl1mod = 0, bs_bpl2mod = 0, bs_diwstrt = 0, bs_diwstop = 0,
     bs_ddfstrt = 0, bs_ddfstop = 0, bs_color = replicate 32 0, bs_dmacon = 0\<rparr>"

(* src/crates/machine-core/src/render.rs:419-423 Bands *)
record bands =
  bd_start_line :: "nat list"
  bd_state :: "band_state list"
  bd_count :: nat

(* src/crates/machine-core/src/render.rs:426-432 Bands::new *)
definition bands_new :: bands where
  "bands_new = \<lparr>bd_start_line = replicate MAX_BANDS 0, bd_state = replicate MAX_BANDS bs_zeroed, bd_count = 1\<rparr>"

(* src/crates/machine-core/src/render.rs:434-447 Bands::open *)
definition bands_open :: "bands \<Rightarrow> nat \<Rightarrow> copper_state \<Rightarrow> bands" where
  "bands_open bs new_start s =
     (let bs1 = bs\<lparr>bd_state := (bd_state bs)[bd_count bs - 1 := bs_from_state s]\<rparr>
      in if bd_count bs1 < MAX_BANDS
         then bs1\<lparr>bd_start_line := (bd_start_line bs1)[bd_count bs1 := new_start], bd_count := bd_count bs1 + 1\<rparr>
         else bs1)"

(* src/crates/machine-core/src/render.rs:449-454 Bands::finalize *)
definition bands_finalize :: "bands \<Rightarrow> copper_state \<Rightarrow> bands" where
  "bands_finalize bs s = bs\<lparr>bd_state := (bd_state bs)[bd_count bs - 1 := bs_from_state s]\<rparr>"

text \<open>\<open>rposition\<close>: the last index of the prefix that satisfies the test.\<close>

(* src/crates/machine-core/src/render.rs:456-465 Bands::band_index_for_line *)
definition band_index_for_line :: "bands \<Rightarrow> nat \<Rightarrow> nat" where
  "band_index_for_line bs line =
     (case find (\<lambda>i. bd_start_line bs ! i \<le> line) (rev [0..<bd_count bs]) of Some i \<Rightarrow> i | None \<Rightarrow> 0)"

section \<open>The walk of the copper list\<close>

(* src/crates/machine-core/src/render.rs:486-492 wait_vertical_target *)
definition wait_vertical_target :: "u8 \<Rightarrow> u8 \<Rightarrow> nat \<Rightarrow> nat" where
  "wait_vertical_target vp ve from_line =
     (let want = vp AND ve
      in case find (\<lambda>line. of_nat line AND ve = want) [from_line..<from_line + 256] of Some line \<Rightarrow> line | None \<Rightarrow> from_line)"

text \<open>The local variables of \<open>run_copper\<close>, with the state and the bands it mutates.\<close>

(* src/crates/machine-core/src/render.rs:557-560 run_copper *)
record copper_walk =
  cw_pc :: u32
  cw_executed :: u32
  cw_line :: nat
  cw_state :: copper_state
  cw_bands :: bands

text \<open>One pass of the loop body; the flag says that it ended in \<open>break\<close>.\<close>

(* src/crates/machine-core/src/render.rs:562-592 run_copper *)
definition copper_instr :: "u8 list \<Rightarrow> copper_walk \<Rightarrow> copper_walk \<times> bool" where
  "copper_instr ram k =
     (let w1 = rn_read_word ram (cw_pc k);
          w2 = rn_read_word ram (cw_pc k + 2);
          k1 = k\<lparr>cw_pc := cw_pc k + 4, cw_executed := cw_executed k + 1\<rparr>
      in if w1 AND 1 = 0 then
           let offset = w1 AND 0x1FE;
               s = apply_move (cw_state k1) offset w2;
               k2 = k1\<lparr>cw_state := s\<rparr>
           in (if offset = CHIP_COPJMP1 then k2\<lparr>cw_pc := cs_cop1lc s\<rparr>
               else if offset = CHIP_COPJMP2 then k2\<lparr>cw_pc := cs_cop2lc s\<rparr>
               else k2, False)
         else if w1 = 0xFFFF \<and> w2 AND 0xFFFE = 0xFFFE then (k1, True)
         else if w2 AND 1 = 0 then
           let vp = ucast (drop_bit 8 w1) :: u8; ve = ucast (drop_bit 8 w2) :: u8
           in if ve \<noteq> 0 then
                let target = wait_vertical_target vp ve (cw_line k1)
                in if cw_line k1 < target
                   then (k1\<lparr>cw_bands := bands_open (cw_bands k1) target (cw_state k1), cw_line := target\<rparr>, False)
                   else (k1, False)
              else (k1, False)
         else (k1, False))"

(* src/crates/machine-core/src/render.rs:562-593 run_copper *)
primrec copper_loop :: "nat \<Rightarrow> u8 list \<Rightarrow> copper_walk \<Rightarrow> copper_walk" where
  "copper_loop 0 ram k = k"
| "copper_loop (Suc n) ram k = (let (k1, stop) = copper_instr ram k in if stop then k1 else copper_loop n ram k1)"

(* src/crates/machine-core/src/render.rs:557-597 run_copper *)
definition run_copper :: "u32 \<Rightarrow> u8 list \<Rightarrow> copper_state \<Rightarrow> bands \<Rightarrow> copper_state \<times> bands \<times> u32" where
  "run_copper start ram s bs =
     (let k = copper_loop COPPER_INSTR_BUDGET ram
                \<lparr>cw_pc = start, cw_executed = 0, cw_line = 0, cw_state = s, cw_bands = bs\<rparr>
      in (cw_state k, bands_finalize (cw_bands k) (cw_state k), cw_executed k))"

section \<open>Display geometry\<close>

(* src/crates/machine-core/src/render.rs:599-648 Geometry *)
record geometry =
  g_planes :: nat
  g_lace :: bool
  g_px_per_cck :: nat
  g_diw_x0 :: nat
  g_diw_x1 :: nat
  g_diw_y0 :: nat
  g_diw_y1 :: nat
  g_ddf_words :: nat
  g_bits_per_output_px :: nat
  g_fetch_bit_shift :: int

(* src/crates/machine-core/src/render.rs:747-817 Geometry::decode_band *)
definition decode_band :: "band_state \<Rightarrow> geometry" where
  "decode_band b =
     (let hires = bs_bplcon0 b AND 0x8000 \<noteq> 0;
          raw_planes = unat (drop_bit 12 (bs_bplcon0 b) AND 0x7);
          planes = min raw_planes MAX_PLANES;
          lace = bs_bplcon0 b AND 0x0004 \<noteq> 0;
          px_per_cck = OUTPUT_PX_PER_CCK;
          bits_per_output_px = (if hires then 2 else 1 :: nat);
          vstart = unat (drop_bit 8 (bs_diwstrt b));
          vstop_byte = unat (drop_bit 8 (bs_diwstop b));
          vstop = vstop_byte + (if vstop_byte < 0x80 then 0x100 else 0);
          hstart_raw = unat (bs_diwstrt b AND 0xFF);
          hstop_raw = unat ((bs_diwstop b AND 0xFF) OR 0x100);
          diw_x0 = (hstart_raw div 2) * px_per_cck;
          diw_x1 = max ((hstop_raw div 2) * px_per_cck) diw_x0;
          ddf_words =
            (if bs_ddfstrt b \<le> bs_ddfstop b
             then let units = (unat (bs_ddfstop b - bs_ddfstrt b) + 7) div 8 + 1
                  in min (units * (if hires then 2 else 1)) MAX_DDF_WORDS
             else 0);
          std_ddf = (if hires then 0x3C else 0x38 :: int);
          pf1h = int (unat (bs_bplcon1 b AND 0xF));
          fetch_bit_shift = (int hstart_raw - 0x81 - 2 * (int (unat (bs_ddfstrt b)) - std_ddf) - pf1h) * int bits_per_output_px
      in \<lparr>g_planes = planes, g_lace = lace, g_px_per_cck = px_per_cck, g_diw_x0 = diw_x0, g_diw_x1 = diw_x1,
          g_diw_y0 = vstart, g_diw_y1 = max vstop vstart, g_ddf_words = ddf_words,
          g_bits_per_output_px = bits_per_output_px, g_fetch_bit_shift = fetch_bit_shift\<rparr>)"

section \<open>Bitplanes\<close>

(* src/crates/machine-core/src/render.rs:820-838 pixel_color_index *)
definition pixel_color_index :: "u16 list list \<Rightarrow> nat \<Rightarrow> nat \<Rightarrow> nat" where
  "pixel_color_index words planes rel_px =
     (let word_idx = rel_px div 16; b = 15 - rel_px mod 16
      in fold (\<lambda>p index. index OR push_bit p (unat (drop_bit b (words ! p ! word_idx) AND 1))) [0..<min planes (length words)] 0)"

text \<open>\<open>BPLxMOD\<close> is an \<open>i16\<close>, sign-extended to the width of the pointer.\<close>

(* src/crates/machine-core/src/render.rs:840-847 advance_plane_ptr *)
definition advance_plane_ptr :: "u32 \<Rightarrow> nat \<Rightarrow> u16 \<Rightarrow> u32" where
  "advance_plane_ptr ptr words mdl = ptr + of_nat (words * 2) + scast mdl"

(* src/crates/machine-core/src/render.rs:1052-1064 odd_field_bplpt *)
definition odd_field_bplpt :: "u32 list \<Rightarrow> nat \<Rightarrow> u32 list" where
  "odd_field_bplpt evn ddf_words = (let row_bytes = of_nat (ddf_words * 2) in map (\<lambda>ptr. ptr + row_bytes) evn)"

text \<open>The union of the bands' vertical windows and of their interlace bits: the first loop of \<open>draw_bitplanes\<close>.\<close>

(* src/crates/machine-core/src/render.rs:939-949 draw_bitplanes *)
definition picture_extent :: "bands \<Rightarrow> nat \<times> nat \<times> bool" where
  "picture_extent bs =
     fold (\<lambda>b (y0, y1, lace). let g = decode_band b in
             (if g_diw_y0 g < g_diw_y1 g then min y0 (g_diw_y0 g) else y0,
              if g_diw_y0 g < g_diw_y1 g then max y1 (g_diw_y1 g) else y1,
              lace \<or> g_lace g))
       (take (bd_count bs) (bd_state bs)) (2 ^ 32 - 1, 0, False)"

text \<open>What the row loop mutates: the pointers of both fields, the line buffer of fetched words, the framebuffer.\<close>

(* src/crates/machine-core/src/render.rs:969-975 draw_bitplanes *)
record painter =
  pt_bplpt :: "u32 list list"
  pt_words :: "u16 list list"
  pt_fb :: framebuffer

(* src/crates/machine-core/src/render.rs:1008-1015 draw_bitplanes *)
definition fetch_words :: "u8 list \<Rightarrow> u32 \<Rightarrow> nat \<Rightarrow> u16 list \<Rightarrow> u16 list" where
  "fetch_words ram ptr n plane_words =
     fold (\<lambda>w slots. slots[w := rn_read_word ram (ptr + of_nat (w * 2))]) [0..<min n (length plane_words)] plane_words"

(* src/crates/machine-core/src/render.rs:1008-1022 draw_bitplanes *)
definition fetch_plane :: "u8 list \<Rightarrow> band_state \<Rightarrow> nat \<Rightarrow> nat \<Rightarrow> nat \<Rightarrow> painter \<Rightarrow> painter" where
  "fetch_plane ram b ddf_words field p pt =
     (let ptr = pt_bplpt pt ! field ! p;
          mdl = (if p mod 2 = 0 then bs_bpl1mod b else bs_bpl2mod b)
      in pt\<lparr>pt_words := (pt_words pt)[p := fetch_words ram ptr ddf_words (pt_words pt ! p)],
            pt_bplpt := (pt_bplpt pt)[field := (pt_bplpt pt ! field)[p := advance_plane_ptr ptr ddf_words mdl]]\<rparr>)"

(* src/crates/machine-core/src/render.rs:1024-1048 draw_bitplanes *)
definition paint_pixel :: "band_state \<Rightarrow> geometry \<Rightarrow> u16 list list \<Rightarrow> nat \<Rightarrow> nat \<Rightarrow> framebuffer \<Rightarrow> framebuffer" where
  "paint_pixel b geom words y x fb =
     (let total_px = int (g_ddf_words geom) * 16;
          rel_px = x - g_diw_x0 geom;
          src_px = int rel_px * int (g_bits_per_output_px geom) + g_fetch_bit_shift geom;
          color_index = (if 0 \<le> src_px \<and> src_px < total_px then pixel_color_index words (g_planes geom) (nat src_px) else 0);
          argb = argb_from_amiga (bs_color b ! (color_index AND 0x1F))
      in fb_put fb x y argb)"

(* src/crates/machine-core/src/render.rs:977-1049 draw_bitplanes *)
definition draw_row :: "u8 list \<Rightarrow> bands \<Rightarrow> nat \<Rightarrow> bool \<Rightarrow> nat \<Rightarrow> painter \<Rightarrow> painter" where
  "draw_row ram bs y0 lace row pt =
     (let field = (if lace then row mod 2 else 0);
          field_line = (if lace then row div 2 else row);
          band_line = y0 + field_line;
          y = y0 + row;
          b = bd_state bs ! band_index_for_line bs band_line;
          geom = decode_band b
      in if g_planes geom = 0 \<or> g_ddf_words geom = 0 \<or> g_diw_x1 geom \<le> g_diw_x0 geom \<or> \<not> bitplane_dma_enabled (bs_dmacon b) then
           let argb = argb_from_amiga (bs_color b ! 0)
           in pt\<lparr>pt_fb := fold (\<lambda>x fb. fb_put fb x y argb) [0..<fb_width (pt_fb pt)] (pt_fb pt)\<rparr>
         else
           let pt1 = fold (fetch_plane ram b (g_ddf_words geom) field) [0..<min (g_planes geom) (length (pt_words pt))] pt
           in pt1\<lparr>pt_fb := fold (paint_pixel b geom (pt_words pt1) y) [g_diw_x0 geom..<g_diw_x1 geom] (pt_fb pt1)\<rparr>)"

(* src/crates/machine-core/src/render.rs:938-1050 draw_bitplanes *)
definition draw_bitplanes :: "copper_state \<Rightarrow> u8 list \<Rightarrow> bands \<Rightarrow> framebuffer \<Rightarrow> framebuffer" where
  "draw_bitplanes s ram bs fb =
     (let (y0, y1, lace) = picture_extent bs
      in if y1 \<le> y0 then fb
         else
           let field_rows = y1 - y0;
               total_rows = min (if lace then min (field_rows * 2) (2 ^ 32 - 1) else field_rows) (MAX_HEIGHT * 2);
               top_geom = decode_band (bd_state bs ! band_index_for_line bs y0);
               ptrs = [cs_bplpt s, if lace then odd_field_bplpt (cs_bplpt s) (g_ddf_words top_geom) else cs_bplpt s];
               words = replicate MAX_PLANES (replicate MAX_DDF_WORDS 0)
           in pt_fb (fold (draw_row ram bs y0 lace) [0..<total_rows] \<lparr>pt_bplpt = ptrs, pt_words = words, pt_fb = fb\<rparr>))"

section \<open>The sprite pointer\<close>

(* src/crates/machine-core/src/render.rs:1153-1164 draw_sprite0 *)
definition sprite_pixel :: "band_state \<Rightarrow> nat \<Rightarrow> nat \<Rightarrow> nat \<Rightarrow> u16 \<Rightarrow> u16 \<Rightarrow> nat \<Rightarrow> framebuffer \<Rightarrow> framebuffer" where
  "sprite_pixel b x0 step y word_a word_b i fb =
     (let shift = 15 - i;
          va = drop_bit shift word_a AND 1;
          vb = drop_bit shift word_b AND 1;
          value = va OR push_bit 1 vb
      in if value = 0 then fb
         else fb_put fb (x0 + i * step) y (argb_from_amiga (bs_color b ! (16 + unat value))))"

(* src/crates/machine-core/src/render.rs:1118-1166 draw_sprite0 *)
definition draw_sprite0 :: "copper_state \<Rightarrow> u8 list \<Rightarrow> bands \<Rightarrow> framebuffer \<Rightarrow> framebuffer" where
  "draw_sprite0 s ram bs fb =
     (let pos_word = rn_read_word ram (cs_spr0pt s);
          ctl_word = rn_read_word ram (cs_spr0pt s + 2);
          vstart = unat (ucast (drop_bit 8 pos_word) OR push_bit 6 (ucast (ctl_word AND 0x04)) :: u32);
          vstop = unat (ucast (drop_bit 8 ctl_word) OR push_bit 7 (ucast (ctl_word AND 0x02)) :: u32);
          hstart_raw = unat (push_bit 1 (ucast (pos_word AND 0xFF)) OR ucast (ctl_word AND 0x01) :: u32)
      in if vstop \<le> vstart then fb
         else
           let height = min (vstop - vstart) MAX_SPRITE_LINES;
               b = bd_state bs ! band_index_for_line bs vstart;
               geom = decode_band b;
               x0 = (hstart_raw div 2) * g_px_per_cck geom;
               step = max (g_px_per_cck geom div 2) 1
           in fold (\<lambda>line fb. let y = vstart + line;
                                 addr = cs_spr0pt s + 4 + of_nat line * 4;
                                 word_a = rn_read_word ram addr;
                                 word_b = rn_read_word ram (addr + 2)
                             in fold (sprite_pixel b x0 step y word_a word_b) [0..<16] fb)
                [0..<height] fb)"

section \<open>The frame of the Cirrus chip\<close>

text \<open>The closure \<open>palette\<close> is an argument, as in the source.\<close>

(* src/crates/machine-core/src/render.rs:1221-1224 render_rtg *)
definition rtg_expand5 :: "u16 \<Rightarrow> u32" where
  "rtg_expand5 c = (let c = ucast c :: u32 in push_bit 3 c OR drop_bit 2 c)"

(* src/crates/machine-core/src/render.rs:1225-1228 render_rtg *)
definition rtg_expand6 :: "u16 \<Rightarrow> u32" where
  "rtg_expand6 c = (let c = ucast c :: u32 in push_bit 2 c OR drop_bit 4 c)"

(* src/crates/machine-core/src/render.rs:1235-1235 render_rtg *)
definition vram_get :: "u8 list \<Rightarrow> nat \<Rightarrow> u8" where
  "vram_get vram i = (if i < length vram then vram ! i else 0)"

(* src/crates/machine-core/src/render.rs:1233-1265 render_rtg *)
definition rtg_pixel :: "pixel_depth \<Rightarrow> u8 list \<Rightarrow> (u8 \<Rightarrow> u32) \<Rightarrow> nat \<Rightarrow> nat \<Rightarrow> u32" where
  "rtg_pixel depth vram palette row_start x =
     (case depth of
        Bpp8 \<Rightarrow> palette (vram_get vram (row_start + x))
      | Bpp15 \<Rightarrow>
          let off = row_start + x * 2;
              lo = ucast (vram_get vram off) :: u16; hi = ucast (vram_get vram (off + 1)) :: u16;
              v = lo OR push_bit 8 hi;
              r = drop_bit 10 v AND 0x1F; g = drop_bit 5 v AND 0x1F; b = v AND 0x1F
          in 0xFF000000 OR push_bit 16 (rtg_expand5 r) OR push_bit 8 (rtg_expand5 g) OR rtg_expand5 b
      | Bpp16 \<Rightarrow>
          let off = row_start + x * 2;
              lo = ucast (vram_get vram off) :: u16; hi = ucast (vram_get vram (off + 1)) :: u16;
              v = lo OR push_bit 8 hi;
              r = drop_bit 11 v AND 0x1F; g = drop_bit 5 v AND 0x3F; b = v AND 0x1F
          in 0xFF000000 OR push_bit 16 (rtg_expand5 r) OR push_bit 8 (rtg_expand6 g) OR rtg_expand5 b
      | Bpp24 \<Rightarrow>
          let off = row_start + x * 3;
              b = ucast (vram_get vram off) :: u32; g = ucast (vram_get vram (off + 1)) :: u32;
              r = ucast (vram_get vram (off + 2)) :: u32
          in 0xFF000000 OR push_bit 16 r OR push_bit 8 g OR b)"

(* src/crates/machine-core/src/render.rs:1212-1269 render_rtg *)
definition render_rtg :: "decoded_mode \<Rightarrow> u8 list \<Rightarrow> (u8 \<Rightarrow> u32) \<Rightarrow> framebuffer \<Rightarrow> framebuffer" where
  "render_rtg mode vram palette fb =
     (let width = min (unat (dm_width mode)) (fb_width fb);
          height = min (unat (dm_height mode)) (fb_height fb)
      in fold (\<lambda>y fb. let row_start = unat (dm_start_offset mode) + y * unat (dm_stride_bytes mode)
                      in fold (\<lambda>x fb. fb_put fb x y (rtg_pixel (dm_depth mode) vram palette row_start x)) [0..<width] fb)
           [0..<height] fb)"

section \<open>A frame\<close>

(* src/crates/machine-core/src/render.rs:1301-1315 Renderer::render *)
definition render :: "chipset \<Rightarrow> u8 list \<Rightarrow> framebuffer \<Rightarrow> framebuffer" where
  "render c chip_ram fb =
     (let (s, bs, _) = run_copper (cop1lc c) chip_ram (cs_from_chipset c) bands_new;
          fb1 = fb_fill fb (argb_from_amiga (bs_color (bd_state bs ! 0) ! 0));
          fb2 = draw_bitplanes s chip_ram bs fb1
      in draw_sprite0 s chip_ram bs fb2)"

end
