(* ===== verification/RenderProofs.thy ===== *)
theory RenderProofs
  imports Render
begin

text \<open>
  Properties of the renderer (\<open>Render\<close>). The bands that the copper walk records are compared with a reference that follows
  the list for one line of the screen at a time; the row loop with its running bitplane pointers is compared with a
  reference that computes each pixel from the bits of chip RAM at a closed address; the frame of the Cirrus chip
  is compared with arithmetic on the bytes of each pixel; and every pixel of a frame is opaque.
\<close>

section \<open>The framebuffer as a map from coordinates\<close>

definition fb_get :: "framebuffer \<Rightarrow> nat \<Rightarrow> nat \<Rightarrow> u32" where
  "fb_get fb x y = fb_pixels fb ! (y * fb_width fb + x)"

definition fb_ok :: "framebuffer \<Rightarrow> bool" where
  "fb_ok fb \<longleftrightarrow> fb_width fb * fb_height fb \<le> length (fb_pixels fb)"

definition fb_like :: "framebuffer \<Rightarrow> framebuffer \<Rightarrow> bool" where
  "fb_like fb fb' \<longleftrightarrow> fb_width fb' = fb_width fb \<and> fb_height fb' = fb_height fb \<and> length (fb_pixels fb') = length (fb_pixels fb)"

lemma fb_new_ok: "fb_new pixels w h = Some fb \<Longrightarrow> fb_ok fb"
  by (auto simp: fb_new_def fb_ok_def split: if_splits)

lemma pixel_index_inj:
  fixes x x' y y' w :: nat
  assumes "x < w" and "x' < w"
  shows "y * w + x = y' * w + x' \<longleftrightarrow> x = x' \<and> y = y'"
proof
  assume eq: "y * w + x = y' * w + x'"
  have "y = y'" using arg_cong [OF eq, of "\<lambda>i. i div w"] assms by (simp add: mult.commute)
  then show "x = x' \<and> y = y'" using eq by simp
qed simp

lemma pixel_index_less:
  fixes x y w h :: nat
  assumes "x < w" and "y < h"
  shows "y * w + x < w * h"
proof -
  have "y * w + x < Suc y * w" using assms(1) by simp
  also have "\<dots> \<le> h * w" using assms(2) by (intro mult_le_mono1) simp
  finally show ?thesis by (simp add: mult.commute)
qed

lemma fb_like_refl [simp, intro]: "fb_like fb fb"
  by (simp add: fb_like_def)

lemma fb_like_trans: "fb_like a b \<Longrightarrow> fb_like b c \<Longrightarrow> fb_like a c"
  by (simp add: fb_like_def)

lemma fb_like_ok: "fb_like a b \<Longrightarrow> fb_ok a \<Longrightarrow> fb_ok b"
  by (simp add: fb_like_def fb_ok_def)

lemma fb_put_like [simp, intro]: "fb_like fb (fb_put fb x y c)"
  by (simp add: fb_like_def fb_put_def)

lemma fold_like: "(\<And>x fb. x \<in> set xs \<Longrightarrow> fb_like fb (f x fb)) \<Longrightarrow> fb_like fb (fold f xs fb)"
proof (induction xs arbitrary: fb)
  case (Cons a xs)
  have "fb_like fb (f a fb)" "fb_like (f a fb) (fold f xs (f a fb))" using Cons by auto
  then show ?case by (auto intro: fb_like_trans)
qed simp

lemma fb_get_put:
  assumes "fb_ok fb" and "x < fb_width fb" and "y < fb_height fb"
  shows "fb_get (fb_put fb x' y' c) x y = (if x = x' \<and> y = y' then c else fb_get fb x y)"
proof (cases "x' < fb_width fb \<and> y' < fb_height fb")
  case True
  then have "y' * fb_width fb + x' < length (fb_pixels fb)"
    using assms(1) pixel_index_less [of x' "fb_width fb" y' "fb_height fb"] unfolding fb_ok_def by linarith
  then show ?thesis
    using True assms(2) pixel_index_inj [of x "fb_width fb" x' y y'] by (auto simp: fb_get_def fb_put_def nth_list_update)
next
  case False
  then show ?thesis using assms by (auto simp: fb_get_def fb_put_def)
qed

text \<open>A loop that puts one pixel per step of a row.\<close>

lemma fb_get_fold_put:
  assumes "fb_ok fb" and "x < fb_width fb" and "y < fb_height fb"
  shows "fb_get (fold (\<lambda>x' fb. fb_put fb x' y' (f x')) xs fb) x y = (if y = y' \<and> x \<in> set xs then f x else fb_get fb x y)"
  using assms
proof (induction xs arbitrary: fb)
  case (Cons a xs)
  let ?fb = "fb_put fb a y' (f a)"
  have like: "fb_like fb ?fb" by simp
  have "fb_get (fold (\<lambda>x' fb. fb_put fb x' y' (f x')) xs ?fb) x y = (if y = y' \<and> x \<in> set xs then f x else fb_get ?fb x y)"
    using Cons.IH [of ?fb] Cons.prems fb_like_ok [OF like] like by (simp add: fb_like_def)
  then show ?case using fb_get_put [OF Cons.prems] by auto
qed simp

section \<open>The vertical position of a WAIT\<close>

lemma wait_vertical_target_least:
  "from_line \<le> wait_vertical_target vp ve from_line
    \<and> of_nat (wait_vertical_target vp ve from_line) AND ve = vp AND ve
    \<and> (\<forall>l. from_line \<le> l \<and> l < wait_vertical_target vp ve from_line \<longrightarrow> of_nat l AND ve \<noteq> vp AND ve)"
proof -
  let ?P = "\<lambda>line. of_nat line AND ve = vp AND ve" and ?xs = "[from_line..<from_line + 256]"
  let ?l = "from_line + unat (vp - of_nat from_line)"
  have "of_nat ?l = vp" by simp
  moreover have "?l \<in> set ?xs" using unat_lt2p_of [of "vp - of_nat from_line"] by simp
  ultimately have "\<exists>line \<in> set ?xs. ?P line" by (intro bexI [of _ ?l]) simp_all
  then obtain t where f: "find ?P ?xs = Some t" by (cases "find ?P ?xs") (auto simp: find_None_iff)
  then obtain i where i: "i < 256" "t = from_line + i" "?P t" "\<forall>j < i. \<not> ?P (from_line + j)"
    by (auto simp: find_Some_iff)
  have "\<not> ?P l" if "from_line \<le> l" "l < t" for l
    using i(4) [rule_format, of "l - from_line"] that i(2) by simp
  then show ?thesis using i f by (simp add: wait_vertical_target_def Let_def)
qed

lemma filter_wait_lines:
  "filter (\<lambda>l. of_nat l AND ve = vp AND ve) [a..<Suc L] =
     (let t = wait_vertical_target vp ve a in
      if L < t then [] else t # filter (\<lambda>l. of_nat l AND ve = vp AND ve) [Suc t..<Suc L])"
proof -
  let ?P = "\<lambda>l. of_nat l AND ve = vp AND ve" and ?t = "wait_vertical_target vp ve a"
  note t = wait_vertical_target_least [of a vp ve]
  show ?thesis
  proof (cases "L < ?t")
    case True
    then have "filter ?P [a..<Suc L] = []" using t by (auto simp: filter_empty_conv)
    then show ?thesis using True by (simp add: Let_def)
  next
    case False
    then have "[a..<Suc L] = [a..<?t] @ ?t # [Suc ?t..<Suc L]" using t upt_add_eq_append [of a ?t "Suc L - ?t"] upt_conv_Cons [of ?t "Suc L"] by simp
    moreover have "filter ?P [a..<?t] = []" using t by (auto simp: filter_empty_conv)
    ultimately show ?thesis using False t by (simp add: Let_def)
  qed
qed

section \<open>The registers in force at a line\<close>

text \<open>A reference for the walk, without bands and without a bound on the search for a line: follow the list for
  the beam at \<open>L\<close>, carrying the line the copper has reached, and stop at the first WAIT that no line from there
  to \<open>L\<close> satisfies.\<close>

primrec state_in_force :: "nat \<Rightarrow> u8 list \<Rightarrow> u32 \<Rightarrow> nat \<Rightarrow> copper_state \<Rightarrow> nat \<Rightarrow> copper_state" where
  "state_in_force 0 ram pc line s L = s"
| "state_in_force (Suc n) ram pc line s L =
     (let w1 = rn_read_word ram pc; w2 = rn_read_word ram (pc + 2) in
      if \<not> bit w1 0 then
        let offset = w1 AND 0x1FE; s1 = apply_move s offset w2
        in state_in_force n ram
             (if offset = CHIP_COPJMP1 then cs_cop1lc s1 else if offset = CHIP_COPJMP2 then cs_cop2lc s1 else pc + 4) line s1 L
      else if w1 = 0xFFFF \<and> w2 \<in> {0xFFFE, 0xFFFF} then s
      else if bit w2 0 then state_in_force n ram (pc + 4) line s L
      else
        let vp = ucast (drop_bit 8 w1) :: u8; ve = ucast (drop_bit 8 w2) :: u8
        in case filter (\<lambda>l. of_nat l AND ve = vp AND ve) [line..<Suc L] of
             [] \<Rightarrow> s
           | t # _ \<Rightarrow> state_in_force n ram (pc + 4) t s L)"

definition bands_wf :: "bands \<Rightarrow> nat \<Rightarrow> bool" where
  "bands_wf bs line \<longleftrightarrow> length (bd_start_line bs) = MAX_BANDS \<and> length (bd_state bs) = MAX_BANDS
     \<and> 0 < bd_count bs \<and> bd_count bs \<le> MAX_BANDS \<and> bd_start_line bs ! 0 = 0
     \<and> (\<forall>i j. i < j \<and> j < bd_count bs \<longrightarrow> bd_start_line bs ! i < bd_start_line bs ! j)
     \<and> bd_start_line bs ! (bd_count bs - 1) \<le> line
     \<and> (bd_count bs < MAX_BANDS \<longrightarrow> bd_start_line bs ! (bd_count bs - 1) = line)"

text \<open>The band of a line is the one whose start is at or above it and whose successor starts below it.\<close>

lemma band_index_unique:
  assumes wf: "bands_wf bs line" and i: "i < bd_count bs" and lo: "bd_start_line bs ! i \<le> L"
    and hi: "Suc i < bd_count bs \<Longrightarrow> L < bd_start_line bs ! Suc i"
  shows "band_index_for_line bs L = i"
proof -
  have "L < bd_start_line bs ! j" if "i < j" "j < bd_count bs" for j
  proof (cases "j = Suc i")
    case False
    then have "bd_start_line bs ! Suc i < bd_start_line bs ! j" using wf that unfolding bands_wf_def by simp
    then show ?thesis using hi that by simp
  qed (use hi that in simp)
  then have above: "\<forall>j \<in> set (rev [Suc i..<bd_count bs]). \<not> bd_start_line bs ! j \<le> L" by (auto simp: not_le)
  have split: "rev [0..<bd_count bs] = rev [Suc i..<bd_count bs] @ i # rev [0..<i]"
    using i upt_add_eq_append [of 0 i "bd_count bs - i"] upt_conv_Cons [of i "bd_count bs"] by simp
  have "find (\<lambda>j. bd_start_line bs ! j \<le> L) (xs @ i # ys) = Some i" if "\<forall>j \<in> set xs. \<not> bd_start_line bs ! j \<le> L" for xs ys
    using that lo by (induction xs) auto
  then show ?thesis using above split by (simp add: band_index_for_line_def)
qed

text \<open>What the rest of a walk leaves alone: the bands already closed.\<close>

definition bands_extend :: "bands \<Rightarrow> bands \<Rightarrow> bool" where
  "bands_extend bs bs' \<longleftrightarrow> bd_count bs \<le> bd_count bs'
     \<and> (\<forall>i < bd_count bs. bd_start_line bs' ! i = bd_start_line bs ! i)
     \<and> (\<forall>i < bd_count bs - 1. bd_state bs' ! i = bd_state bs ! i)"

lemma bands_extend_refl: "bands_extend bs bs"
  by (simp add: bands_extend_def)

lemma bands_extend_trans: "bands_extend a b \<Longrightarrow> bands_extend b c \<Longrightarrow> bands_extend a c"
  by (auto simp: bands_extend_def)

lemma bands_wf_below:
  assumes "bands_wf bs line" and "i < bd_count bs"
  shows "bd_start_line bs ! i \<le> line"
proof (cases "i = bd_count bs - 1")
  case False
  then have "bd_start_line bs ! i < bd_start_line bs ! (bd_count bs - 1)" using assms unfolding bands_wf_def by auto
  then show ?thesis using assms unfolding bands_wf_def by simp
qed (use assms in \<open>simp add: bands_wf_def\<close>)

lemma bands_open_wf:
  assumes wf: "bands_wf bs line" and "line < target"
  shows "bands_wf (bands_open bs target s) target" and "bands_extend bs (bands_open bs target s)"
    and "bd_count bs < MAX_BANDS \<Longrightarrow> bd_count (bands_open bs target s) = Suc (bd_count bs)
      \<and> bd_state (bands_open bs target s) ! (bd_count bs - 1) = bs_from_state s
      \<and> bd_start_line (bands_open bs target s) ! bd_count bs = target"
proof -
  have below: "bd_start_line bs ! i < target" if "i < bd_count bs" for i
    using bands_wf_below [OF wf that] assms(2) by simp
  show "bands_wf (bands_open bs target s) target" "bands_extend bs (bands_open bs target s)"
    "bd_count bs < MAX_BANDS \<Longrightarrow> bd_count (bands_open bs target s) = Suc (bd_count bs)
      \<and> bd_state (bands_open bs target s) ! (bd_count bs - 1) = bs_from_state s
      \<and> bd_start_line (bands_open bs target s) ! bd_count bs = target"
    using assms below by (auto simp: bands_wf_def bands_open_def bands_extend_def Let_def nth_list_update less_Suc_eq)
qed

lemma bands_finalize_wf:
  assumes "bands_wf bs line"
  shows "bands_wf (bands_finalize bs s) line" and "bands_extend bs (bands_finalize bs s)"
    and "bd_state (bands_finalize bs s) ! (bd_count bs - 1) = bs_from_state s" "bd_count (bands_finalize bs s) = bd_count bs"
    and "bd_start_line (bands_finalize bs s) = bd_start_line bs"
  using assms by (auto simp: bands_wf_def bands_finalize_def bands_extend_def)

lemma bands_new_wf: "bands_wf bands_new 0"
  by (simp add: bands_wf_def bands_new_def)

lemma copper_instr_wf:
  assumes "bands_wf (cw_bands k) (cw_line k)" and "copper_instr ram k = (k', stop)"
  shows "bands_wf (cw_bands k') (cw_line k') \<and> bands_extend (cw_bands k) (cw_bands k') \<and> cw_line k \<le> cw_line k'
    \<and> cw_executed k' = cw_executed k + 1"
  using assms bands_open_wf(1,2) [OF assms(1)]
  by (auto simp: copper_instr_def Let_def bands_extend_refl split: if_splits)

lemma copper_loop_wf:
  assumes "bands_wf (cw_bands k) (cw_line k)"
  shows "bands_wf (cw_bands (copper_loop n ram k)) (cw_line (copper_loop n ram k))
    \<and> bands_extend (cw_bands k) (cw_bands (copper_loop n ram k))"
  using assms
proof (induction n arbitrary: k)
  case (Suc n)
  obtain k' stop where k': "copper_instr ram k = (k', stop)" by fastforce
  show ?case using copper_instr_wf [OF Suc.prems k'] Suc.IH [of k'] by (auto simp: k' Let_def intro: bands_extend_trans)
qed (simp add: bands_extend_refl)

lemma and_one_bit: "w AND 1 = 0 \<longleftrightarrow> \<not> bit (w :: u16) 0"
  using and_single_bit [of 0 w] by simp

lemma end_of_list_word: "(w :: u16) AND 0xFFFE = 0xFFFE \<longleftrightarrow> w \<in> {0xFFFE, 0xFFFF}"
proof
  assume h: "w AND 0xFFFE = 0xFFFE"
  have "w = (w AND 0xFFFE) OR (w AND 1)"
  proof (rule bit_word_eqI)
    fix n assume n: "n < LENGTH(16)"
    have "bit (0xFFFE :: u16) n \<or> bit (1 :: u16) n" using n by (auto simp: less_Suc_eq numeral_eq_Suc)
    then show "bit w n = bit ((w AND 0xFFFE) OR (w AND 1)) n" by (auto simp: bit_or_iff bit_and_iff)
  qed
  moreover have "w AND 1 = 0 \<or> w AND 1 = 1" by (simp add: and_one_eq mod_2_eq_odd)
  ultimately show "w \<in> {0xFFFE, 0xFFFF}" using h by auto
qed auto

text \<open>The instruction read at the walk's program counter, by kind.\<close>

lemma copper_instr_kinds:
  fixes ram k
  defines "w1 \<equiv> rn_read_word ram (cw_pc k)" and "w2 \<equiv> rn_read_word ram (cw_pc k + 2)"
  defines "vp \<equiv> ucast (drop_bit 8 w1) :: u8" and "ve \<equiv> ucast (drop_bit 8 w2) :: u8"
  defines "k1 \<equiv> k\<lparr>cw_pc := cw_pc k + 4, cw_executed := cw_executed k + 1\<rparr>"
  defines "t \<equiv> wait_vertical_target vp ve (cw_line k)"
  shows copper_instr_move: "\<not> bit w1 0 \<Longrightarrow> \<exists>e. copper_instr ram k =
      (k\<lparr>cw_pc := (if w1 AND 0x1FE = CHIP_COPJMP1 then cs_cop1lc (apply_move (cw_state k) (w1 AND 0x1FE) w2)
                     else if w1 AND 0x1FE = CHIP_COPJMP2 then cs_cop2lc (apply_move (cw_state k) (w1 AND 0x1FE) w2) else cw_pc k + 4),
          cw_executed := e, cw_state := apply_move (cw_state k) (w1 AND 0x1FE) w2\<rparr>, False)"
    and copper_instr_end: "w1 = 0xFFFF \<Longrightarrow> w2 \<in> {0xFFFE, 0xFFFF} \<Longrightarrow> copper_instr ram k = (k1, True)"
    and copper_instr_skip: "bit w1 0 \<Longrightarrow> \<not> (w1 = 0xFFFF \<and> w2 \<in> {0xFFFE, 0xFFFF}) \<Longrightarrow> bit w2 0 \<Longrightarrow> copper_instr ram k = (k1, False)"
    and copper_instr_wait: "bit w1 0 \<Longrightarrow> \<not> (w1 = 0xFFFF \<and> w2 \<in> {0xFFFE, 0xFFFF}) \<Longrightarrow> \<not> bit w2 0 \<Longrightarrow> copper_instr ram k =
      (if cw_line k < t then (k1\<lparr>cw_bands := bands_open (cw_bands k) t (cw_state k), cw_line := t\<rparr>, False) else (k1, False))"
proof -
  have ve0: "\<not> cw_line k < t" if "ve = 0"
    using wait_vertical_target_least [of "cw_line k" vp ve] that unfolding t_def by auto
  note defs = copper_instr_def Let_def and_one_bit end_of_list_word w1_def [symmetric] w2_def [symmetric]
  show "\<not> bit w1 0 \<Longrightarrow> \<exists>e. copper_instr ram k =
      (k\<lparr>cw_pc := (if w1 AND 0x1FE = CHIP_COPJMP1 then cs_cop1lc (apply_move (cw_state k) (w1 AND 0x1FE) w2)
                     else if w1 AND 0x1FE = CHIP_COPJMP2 then cs_cop2lc (apply_move (cw_state k) (w1 AND 0x1FE) w2) else cw_pc k + 4),
          cw_executed := e, cw_state := apply_move (cw_state k) (w1 AND 0x1FE) w2\<rparr>, False)"
    by (rule exI [of _ "cw_executed k + 1"]) (auto simp: defs)
  show "w1 = 0xFFFF \<Longrightarrow> w2 \<in> {0xFFFE, 0xFFFF} \<Longrightarrow> copper_instr ram k = (k1, True)"
    unfolding defs k1_def by auto
  show "bit w1 0 \<Longrightarrow> \<not> (w1 = 0xFFFF \<and> w2 \<in> {0xFFFE, 0xFFFF}) \<Longrightarrow> bit w2 0 \<Longrightarrow> copper_instr ram k = (k1, False)"
    unfolding defs k1_def by simp
  show "bit w1 0 \<Longrightarrow> \<not> (w1 = 0xFFFF \<and> w2 \<in> {0xFFFE, 0xFFFF}) \<Longrightarrow> \<not> bit w2 0 \<Longrightarrow> copper_instr ram k =
      (if cw_line k < t then (k1\<lparr>cw_bands := bands_open (cw_bands k) t (cw_state k), cw_line := t\<rparr>, False) else (k1, False))"
    using ve0 unfolding defs k1_def t_def vp_def ve_def by simp
qed

text \<open>The last line of the band that is open when a walk starts: everything the rest of the walk does to it.\<close>

lemma finalized_band_exact:
  assumes wf: "bands_wf bs line" and "line \<le> L"
  shows "bd_state (bands_finalize bs s) ! band_index_for_line (bands_finalize bs s) L = bs_from_state s"
proof -
  note fin = bands_finalize_wf [OF wf, of s]
  have "band_index_for_line (bands_finalize bs s) L = bd_count bs - 1"
  proof (rule band_index_unique [OF fin(1)])
    show "bd_count bs - 1 < bd_count (bands_finalize bs s)" using wf fin(4) by (simp add: bands_wf_def)
    then show "bd_start_line (bands_finalize bs s) ! (bd_count bs - 1) \<le> L" using bands_wf_below [OF fin(1)] assms(2) by fastforce
    show "Suc (bd_count bs - 1) < bd_count (bands_finalize bs s) \<Longrightarrow> L < bd_start_line (bands_finalize bs s) ! Suc (bd_count bs - 1)"
      using wf fin(4) by (simp add: bands_wf_def)
  qed
  then show ?thesis using fin(3) by simp
qed

text \<open>A band that a WAIT has closed keeps its state and its lines to the end of the walk.\<close>

lemma closed_band_exact:
  assumes wf: "bands_wf b0 line" and "line < target" and ext: "bands_extend (bands_open b0 target s) bs" and wf': "bands_wf bs line'"
    and L: "line \<le> L" "L < target" and cap: "bd_count bs < MAX_BANDS \<or> L < bd_start_line bs ! (MAX_BANDS - 1)"
  shows "bd_state bs ! band_index_for_line bs L = bs_from_state s"
proof -
  note opn = bands_open_wf [OF wf assms(2), of s]
  let ?i = "bd_count b0 - 1"
  have pos: "0 < bd_count b0" using wf by (simp add: bands_wf_def)
  have old: "bd_start_line bs ! i = bd_start_line b0 ! i" if "i < bd_count b0" for i
    using that opn(2) ext by (auto simp: bands_extend_def)
  have room: "bd_count b0 < MAX_BANDS"
  proof (rule ccontr)
    assume "\<not> ?thesis"
    then have full: "bd_count b0 = MAX_BANDS" using wf by (simp add: bands_wf_def)
    then have "bd_count bs = MAX_BANDS" using opn(2) ext wf' by (auto simp: bands_extend_def bands_wf_def)
    moreover have "bd_start_line bs ! (MAX_BANDS - 1) \<le> line" using old [of ?i] full bands_wf_below [OF wf, of ?i] by simp
    ultimately show False using cap L by simp
  qed
  note new = opn(3) [OF room]
  have "band_index_for_line bs L = ?i"
  proof (rule band_index_unique [OF wf'])
    show "?i < bd_count bs" using pos opn(2) ext by (auto simp: bands_extend_def)
    show "bd_start_line bs ! ?i \<le> L" using old [of ?i] pos bands_wf_below [OF wf, of ?i] L(1) by simp
    show "L < bd_start_line bs ! Suc ?i" using ext new pos L(2) by (auto simp: bands_extend_def)
  qed
  moreover have "bd_state bs ! ?i = bs_from_state s" using ext new pos by (auto simp: bands_extend_def)
  ultimately show ?thesis by simp
qed

lemma walk_band_exact:
  assumes "bands_wf (cw_bands k) (cw_line k)" and "cw_line k \<le> L"
    and "bs = bands_finalize (cw_bands (copper_loop n ram k)) (cw_state (copper_loop n ram k))"
    and "bd_count bs < MAX_BANDS \<or> L < bd_start_line bs ! (MAX_BANDS - 1)"
  shows "bd_state bs ! band_index_for_line bs L = bs_from_state (state_in_force n ram (cw_pc k) (cw_line k) (cw_state k) L)"
  using assms
proof (induction n arbitrary: k)
  case 0
  then show ?case using finalized_band_exact by simp
next
  case (Suc n)
  let ?w1 = "rn_read_word ram (cw_pc k)" and ?w2 = "rn_read_word ram (cw_pc k + 2)"
  let ?vp = "ucast (drop_bit 8 ?w1) :: u8" and ?ve = "ucast (drop_bit 8 ?w2) :: u8"
  let ?t = "wait_vertical_target ?vp ?ve (cw_line k)"
  consider (move) "\<not> bit ?w1 0" | (fin) "?w1 = 0xFFFF" "?w2 \<in> {0xFFFE, 0xFFFF}"
    | (skip) "bit ?w1 0" "\<not> (?w1 = 0xFFFF \<and> ?w2 \<in> {0xFFFE, 0xFFFF})" "bit ?w2 0"
    | (wait) "bit ?w1 0" "\<not> (?w1 = 0xFFFF \<and> ?w2 \<in> {0xFFFE, 0xFFFF})" "\<not> bit ?w2 0" by blast
  then show ?case
  proof cases
    case move
    obtain e where "copper_instr ram k = (k\<lparr>cw_pc := (if ?w1 AND 0x1FE = CHIP_COPJMP1 then cs_cop1lc (apply_move (cw_state k) (?w1 AND 0x1FE) ?w2)
                     else if ?w1 AND 0x1FE = CHIP_COPJMP2 then cs_cop2lc (apply_move (cw_state k) (?w1 AND 0x1FE) ?w2) else cw_pc k + 4),
          cw_executed := e, cw_state := apply_move (cw_state k) (?w1 AND 0x1FE) ?w2\<rparr>, False)" (is "_ = (?k', _)")
      using copper_instr_move [OF move] by blast
    then show ?thesis using Suc.IH [of ?k'] Suc.prems move by (simp add: Let_def)
  next
    case fin
    then have "bit ?w1 0" by simp
    then show ?thesis using Suc.prems fin copper_instr_end [OF fin] finalized_band_exact by (simp add: Let_def)
  next
    case skip
    show ?thesis using Suc.IH [of "k\<lparr>cw_pc := cw_pc k + 4, cw_executed := cw_executed k + 1\<rparr>"] Suc.prems skip copper_instr_skip [OF skip]
      by (auto simp: Let_def)
  next
    case wait
    note least = wait_vertical_target_least [of "cw_line k" ?vp ?ve]
    let ?k1 = "k\<lparr>cw_pc := cw_pc k + 4, cw_executed := cw_executed k + 1\<rparr>"
    let ?k2 = "?k1\<lparr>cw_bands := bands_open (cw_bands k) ?t (cw_state k), cw_line := ?t\<rparr>"
    have ref: "state_in_force (Suc n) ram (cw_pc k) (cw_line k) (cw_state k) L =
      (if L < ?t then cw_state k else state_in_force n ram (cw_pc k + 4) ?t (cw_state k) L)"
      using wait filter_wait_lines [of ?ve ?vp "cw_line k" L] by (auto simp: Let_def simp del: upt_Suc)
    note instr = copper_instr_wait [OF wait]
    show ?thesis
    proof (cases "cw_line k < ?t")
      case False
      then have "?t = cw_line k" using least by simp
      then show ?thesis using Suc.IH [of ?k1] Suc.prems ref instr by (simp add: Let_def)
    next
      case True
      then have loop: "copper_loop (Suc n) ram k = copper_loop n ram ?k2" using instr by (simp add: Let_def)
      have wf2: "bands_wf (cw_bands ?k2) (cw_line ?k2)" using bands_open_wf(1) [OF Suc.prems(1) True] by simp
      show ?thesis
      proof (cases "L < ?t")
        case False
        then show ?thesis using Suc.IH [OF wf2, of] Suc.prems(3,4) ref loop by simp
      next
        case before: True
        note wfl = copper_loop_wf [OF wf2, of n ram]
        note wff = bands_finalize_wf [OF conjunct1 [OF wfl], of "cw_state (copper_loop n ram ?k2)"]
        have bs: "bs = bands_finalize (cw_bands (copper_loop n ram ?k2)) (cw_state (copper_loop n ram ?k2))"
          using Suc.prems(3) unfolding loop .
        have "bands_extend (bands_open (cw_bands k) ?t (cw_state k)) bs"
          unfolding bs by (rule bands_extend_trans [OF _ wff(2)]) (use wfl in simp)
        moreover have "bands_wf bs (cw_line (copper_loop n ram ?k2))" using wff(1) unfolding bs .
        ultimately show ?thesis
          using closed_band_exact [OF Suc.prems(1) True] Suc.prems(2,4) before ref by simp
      qed
    qed
  qed
qed

lemma copper_loop_executed: "unat (cw_executed k) + n < 2 ^ 32 \<Longrightarrow> unat (cw_executed (copper_loop n ram k)) \<le> unat (cw_executed k) + n"
proof (induction n arbitrary: k)
  case (Suc n)
  obtain k' stop where k': "copper_instr ram k = (k', stop)" by fastforce
  have e: "cw_executed k' = cw_executed k + 1"
    using k' by (auto simp: copper_instr_def Let_def split: if_splits)
  then have "unat (cw_executed k') = Suc (unat (cw_executed k))" using Suc.prems by (simp add: unat_inc)
  then show ?case using Suc.IH [of k'] Suc.prems by (cases stop) (auto simp: k' Let_def)
qed simp

text \<open>C29 [refinement]: Walking the copper list, jumps and all, ends after at most 4096 instructions with at most 16 bands whose
  first lines increase from 0; and the band the renderer looks up for a screen line holds the registers in force at that line
  (\<open>state_in_force\<close>): those the list has written when it reaches the first WAIT that keeps it beyond that line. A WAIT takes the
  copper to the first line, at or after the one it has reached already, whose number agrees with the WAIT in the unmasked
  bits; a WAIT for a line already passed is not satisfied at once as on the machine but holds until the next line that agrees,
  or for good. When all 16 bands are in use, as they are from fifteen WAITs that advance the line on, this is claimed only for
  the lines above the start of the last band.\<close>

theorem copper_bands_in_force:
  assumes "run_copper start ram s bands_new = (s', bs, executed)"
  shows "executed \<le> 4096 \<and> 0 < bd_count bs \<and> bd_count bs \<le> 16 \<and> bd_start_line bs ! 0 = 0
    \<and> (\<forall>i j. i < j \<and> j < bd_count bs \<longrightarrow> bd_start_line bs ! i < bd_start_line bs ! j)
    \<and> (\<forall>L. bd_count bs < 16 \<or> L < bd_start_line bs ! 15 \<longrightarrow>
          bd_state bs ! band_index_for_line bs L = bs_from_state (state_in_force 4096 ram start 0 s L))"
proof -
  let ?k = "\<lparr>cw_pc = start, cw_executed = 0, cw_line = 0, cw_state = s, cw_bands = bands_new\<rparr>"
  let ?e = "copper_loop COPPER_INSTR_BUDGET ram ?k"
  have bs: "bs = bands_finalize (cw_bands ?e) (cw_state ?e)" and ex: "executed = cw_executed ?e"
    using assms by (auto simp: run_copper_def Let_def)
  have wf0: "bands_wf (cw_bands ?k) (cw_line ?k)" using bands_new_wf by simp
  have wf: "bands_wf bs (cw_line ?e)"
    using bands_finalize_wf(1) copper_loop_wf [OF wf0] unfolding bs by blast
  have "unat executed \<le> 4096"
    using copper_loop_executed [of ?k 4096 ram] by (simp add: ex COPPER_INSTR_BUDGET_def)
  then have "executed \<le> 4096" by (simp add: word_le_nat_alt)
  moreover have "bd_state bs ! band_index_for_line bs L = bs_from_state (state_in_force 4096 ram start 0 s L)"
    if "bd_count bs < 16 \<or> L < bd_start_line bs ! 15" for L
    using walk_band_exact [OF wf0 _ bs, of L] that by (simp add: COPPER_INSTR_BUDGET_def)
  ultimately show ?thesis using wf unfolding bands_wf_def by simp
qed

definition demo_list :: "u8 list" where
  "demo_list = [0x01, 0x80, 0x0F, 0x00,  0x2C, 0x01, 0xFF, 0x00,  0x01, 0x80, 0x00, 0xF0,  0xFF, 0xFF, 0xFF, 0xFE]"

lemma copper_loop_step: "0 < n \<Longrightarrow> copper_loop n ram k =
    (let (k1, stop) = copper_instr ram k in if stop then k1 else copper_loop (n - 1) ram k1)"
  by (cases n) (auto split: prod.splits)

lemmas state_in_force_step = state_in_force.simps(2) [of "pred_numeral v" for v, folded numeral_eq_Suc]

lemma demo_wait: "wait_vertical_target 0x2C 0xFF 0 = 0x2C"
  by code_simp

lemma demo_words: "rn_read_word demo_list 0 = 0x180" "rn_read_word demo_list 2 = 0xF00" "rn_read_word demo_list 4 = 0x2C01"
  "rn_read_word demo_list 6 = 0xFF00" "rn_read_word demo_list 8 = 0x180" "rn_read_word demo_list 10 = 0x0F0"
  "rn_read_word demo_list 12 = 0xFFFF" "rn_read_word demo_list 14 = 0xFFFE"
  by code_simp+

lemma demo_run: "\<exists>s' bs. run_copper 0 demo_list (cs_from_chipset chip_new) bands_new = (s', bs, 4) \<and> bd_count bs = 2"
  by (simp add: run_copper_def COPPER_INSTR_BUDGET_def copper_loop_step copper_instr_def demo_words demo_wait Let_def
    bands_open_def bands_finalize_def bands_new_def)

lemma demo_lines: "filter (\<lambda>l. of_nat l AND 255 = (44 :: u8)) [0..<101] = [44]" "filter (\<lambda>l. of_nat l AND 255 = (44 :: u8)) [0..<44] = []"
  by code_simp+

lemma demo_ref: "cs_color (state_in_force 4096 demo_list 0 0 (cs_from_chipset chip_new) 100) ! 0 = 0x0F0"
  "cs_color (state_in_force 4096 demo_list 0 0 (cs_from_chipset chip_new) 43) ! 0 = 0xF00"
  by (simp_all add: state_in_force_step demo_words Let_def apply_move_def cs_from_chipset_def chip_new_def bit_numeral_rec
    demo_lines del: upt_Suc)

theorem copper_bands_in_force_witness:
  "\<exists>s' bs. run_copper 0 demo_list (cs_from_chipset chip_new) bands_new = (s', bs, 4)
    \<and> bs_color (bd_state bs ! band_index_for_line bs 43) ! 0 = 0xF00 \<and> bs_color (bd_state bs ! band_index_for_line bs 100) ! 0 = 0x0F0"
proof -
  obtain s' bs where run: "run_copper 0 demo_list (cs_from_chipset chip_new) bands_new = (s', bs, 4)" and two: "bd_count bs = 2"
    using demo_run by blast
  have "bd_state bs ! band_index_for_line bs L = bs_from_state (state_in_force 4096 demo_list 0 0 (cs_from_chipset chip_new) L)" for L
    using copper_bands_in_force [OF run] two by simp
  then show ?thesis using run demo_ref by (simp add: bs_from_state_def)
qed

section \<open>Bitplanes\<close>

text \<open>A reference without running pointers or a line buffer. Row \<open>row\<close> of the picture belongs to a field and to a band; the address
  of a plane's data in that row is the start of the field plus what every earlier row of the field fetched and skipped.\<close>

definition row_field :: "bool \<Rightarrow> nat \<Rightarrow> nat" where
  "row_field lace row = (if lace then row mod 2 else 0)"

definition row_band :: "bands \<Rightarrow> nat \<Rightarrow> bool \<Rightarrow> nat \<Rightarrow> band_state" where
  "row_band bs y0 lace row = bd_state bs ! band_index_for_line bs (y0 + (if lace then row div 2 else row))"

definition row_planes :: "band_state \<Rightarrow> nat" where
  "row_planes b = (let g = decode_band b in
     if g_ddf_words g = 0 \<or> g_diw_x1 g \<le> g_diw_x0 g \<or> \<not> bitplane_dma_enabled (bs_dmacon b) then 0 else g_planes g)"

definition row_advance :: "band_state \<Rightarrow> nat \<Rightarrow> u32" where
  "row_advance b p = of_nat (2 * g_ddf_words (decode_band b)) + scast (if even p then bs_bpl1mod b else bs_bpl2mod b)"

definition field_start :: "copper_state \<Rightarrow> bands \<Rightarrow> nat \<Rightarrow> nat \<Rightarrow> nat \<Rightarrow> u32" where
  "field_start s bs y0 f p = cs_bplpt s ! p +
     (if f = 1 then of_nat (2 * g_ddf_words (decode_band (bd_state bs ! band_index_for_line bs y0))) else 0)"

definition plane_address :: "copper_state \<Rightarrow> bands \<Rightarrow> nat \<Rightarrow> bool \<Rightarrow> nat \<Rightarrow> nat \<Rightarrow> nat \<Rightarrow> u32" where
  "plane_address s bs y0 lace f row p = field_start s bs y0 f p +
     sum_list (map (\<lambda>r. row_advance (row_band bs y0 lace r) p)
       (filter (\<lambda>r. row_field lace r = f \<and> p < row_planes (row_band bs y0 lace r)) [0..<row]))"

text \<open>Bit \<open>n\<close> of the data at an address, from the left, and the colour index the planes form.\<close>

definition plane_bit :: "u8 list \<Rightarrow> u32 \<Rightarrow> nat \<Rightarrow> bool" where
  "plane_bit ram addr n = bit (rn_read_word ram (addr + of_nat (2 * (n div 16)))) (15 - n mod 16)"

definition colour_index :: "u8 list \<Rightarrow> (nat \<Rightarrow> u32) \<Rightarrow> nat \<Rightarrow> nat \<Rightarrow> nat" where
  "colour_index ram addr planes n = (\<Sum>p<planes. if plane_bit ram (addr p) n then 2 ^ p else 0)"

definition picture_pixel :: "copper_state \<Rightarrow> u8 list \<Rightarrow> bands \<Rightarrow> nat \<Rightarrow> bool \<Rightarrow> nat \<Rightarrow> nat \<Rightarrow> u32 \<Rightarrow> u32" where
  "picture_pixel s ram bs y0 lace row x old =
     (let b = row_band bs y0 lace row; g = decode_band b;
          n = int (x - g_diw_x0 g) * int (g_bits_per_output_px g) + g_fetch_bit_shift g
      in if row_planes b = 0 then argb_from_amiga (bs_color b ! 0)
         else if x < g_diw_x0 g \<or> g_diw_x1 g \<le> x then old
         else if n < 0 \<or> int (16 * g_ddf_words g) \<le> n then argb_from_amiga (bs_color b ! 0)
         else argb_from_amiga (bs_color b ! colour_index ram (plane_address s bs y0 lace (row_field lace row) row) (row_planes b) (nat n)))"

lemma or_push_bit_add:
  fixes x c :: nat
  assumes "x < 2 ^ k"
  shows "x OR push_bit k c = x + c * 2 ^ k"
proof -
  have "x AND push_bit k c = 0"
  proof (rule bit_eqI)
    fix n
    have "\<not> bit x n" if "k \<le> n"
    proof -
      have "x < 2 ^ n" using assms that by (meson less_le_trans one_le_numeral power_increasing)
      then show ?thesis by (simp add: bit_iff_odd)
    qed
    then show "bit (x AND push_bit k c) n = bit 0 n" by (auto simp: bit_simps)
  qed
  then have "x + push_bit k c = x OR push_bit k c" by (rule disjunctive_add_eq_or)
  then show ?thesis by (simp add: push_bit_eq_mult)
qed

lemma colour_index_bound: "colour_index ram addr planes n < 2 ^ planes"
  by (induction planes) (auto simp: colour_index_def)

lemma plane_bit_word: "unat (drop_bit k (w :: u16) AND 1) = of_bool (bit w k)"
  by (auto simp: and_one_eq mod_2_eq_odd bit_iff_odd_drop_bit)

lemma pixel_color_index_exact:
  assumes "length words = MAX_PLANES" and "k \<le> MAX_PLANES"
    and "\<And>p. p < k \<Longrightarrow> words ! p ! (n div 16) = rn_read_word ram (addr p + of_nat (2 * (n div 16)))"
  shows "pixel_color_index words k n = colour_index ram addr k n"
proof -
  have "fold (\<lambda>p index. index OR push_bit p (unat (drop_bit (15 - n mod 16) (words ! p ! (n div 16)) AND 1))) [0..<j] 0 = colour_index ram addr j n"
    if "j \<le> k" for j
    using that
  proof (induction j)
    case (Suc j)
    then have "words ! j ! (n div 16) = rn_read_word ram (addr j + of_nat (2 * (n div 16)))" using assms(3) by simp
    then show ?case
      using Suc colour_index_bound [of ram addr j n]
      by (simp add: or_push_bit_add plane_bit_word) (simp add: colour_index_def plane_bit_def)
  qed (simp add: colour_index_def)
  then show ?thesis using assms(1,2) by (simp add: pixel_color_index_def Let_def)
qed

lemma fetch_words_shape [simp]: "length (fetch_words ram ptr n ws) = length ws"
proof -
  have "length (fold (\<lambda>w slots. slots[w := f w]) xs ws) = length ws" for f :: "nat \<Rightarrow> u16" and xs
    by (induction xs arbitrary: ws) auto
  then show ?thesis by (simp add: fetch_words_def)
qed

lemma fetch_words_nth:
  assumes "w < n" and "w < length ws"
  shows "fetch_words ram ptr n ws ! w = rn_read_word ram (ptr + of_nat (2 * w))"
proof -
  have "length (fold (\<lambda>w slots. slots[w := f w]) [0..<k] ws) = length ws
      \<and> (\<forall>w < k. fold (\<lambda>w slots. slots[w := f w]) [0..<k] ws ! w = f w)" if "k \<le> length ws" for f :: "nat \<Rightarrow> u16" and k
    using that by (induction k) (auto simp: nth_list_update less_Suc_eq)
  from conjunct2 [OF this [of "min n (length ws)" "\<lambda>w. rn_read_word ram (ptr + of_nat (w * 2))"]]
  show ?thesis using assms by (simp add: fetch_words_def mult.commute)
qed

definition painter_shape :: "painter \<Rightarrow> bool" where
  "painter_shape pt \<longleftrightarrow> length (pt_words pt) = MAX_PLANES \<and> (\<forall>p < MAX_PLANES. length (pt_words pt ! p) = MAX_DDF_WORDS)
     \<and> length (pt_bplpt pt) = 2 \<and> (\<forall>f < 2. length (pt_bplpt pt ! f) = 6)"

lemma fetch_planes_exact:
  fixes ram b
  assumes "painter_shape pt" and "k \<le> MAX_PLANES" and "f < 2" and "d \<le> MAX_DDF_WORDS"
  defines "pt' \<equiv> fold (fetch_plane ram b d f) [0..<k] pt"
  shows "painter_shape pt' \<and> pt_fb pt' = pt_fb pt
    \<and> (\<forall>p < k. \<forall>w < d. pt_words pt' ! p ! w = rn_read_word ram (pt_bplpt pt ! f ! p + of_nat (2 * w)))
    \<and> (\<forall>f' < 2. \<forall>p < 6. pt_bplpt pt' ! f' ! p = pt_bplpt pt ! f' ! p +
          (if f' = f \<and> p < k then of_nat (2 * d) + scast (if even p then bs_bpl1mod b else bs_bpl2mod b) else 0))"
  using assms(2) unfolding pt'_def
proof (induction k)
  case 0
  then show ?case using assms(1) by simp
next
  case (Suc k)
  let ?q = "fold (fetch_plane ram b d f) [0..<k] pt"
  have k: "k < MAX_PLANES" and ih: "painter_shape ?q" "pt_fb ?q = pt_fb pt"
    "\<And>p w. p < k \<Longrightarrow> w < d \<Longrightarrow> pt_words ?q ! p ! w = rn_read_word ram (pt_bplpt pt ! f ! p + of_nat (2 * w))"
    "\<And>f' p. f' < 2 \<Longrightarrow> p < 6 \<Longrightarrow> pt_bplpt ?q ! f' ! p = pt_bplpt pt ! f' ! p +
          (if f' = f \<and> p < k then of_nat (2 * d) + scast (if even p then bs_bpl1mod b else bs_bpl2mod b) else 0)"
    using Suc by simp_all
  have ptr: "pt_bplpt ?q ! f ! k = pt_bplpt pt ! f ! k" using ih(4) [of f k] k assms(3) by simp
  let ?r = "fetch_plane ram b d f k ?q"
  have shape: "painter_shape ?r" using ih(1) k assms(3) by (auto simp: painter_shape_def fetch_plane_def Let_def nth_list_update)
  have "pt_words ?r ! p ! w = rn_read_word ram (pt_bplpt pt ! f ! p + of_nat (2 * w))" if "p < Suc k" "w < d" for p w
  proof (cases "p = k")
    case True
    then show ?thesis using that k ih(1) ptr assms(4) by (simp add: fetch_plane_def Let_def painter_shape_def fetch_words_nth)
  next
    case False
    then show ?thesis using that ih(3) by (simp add: fetch_plane_def Let_def)
  qed
  moreover have "pt_bplpt ?r ! f' ! p = pt_bplpt pt ! f' ! p +
          (if f' = f \<and> p < Suc k then of_nat (2 * d) + scast (if even p then bs_bpl1mod b else bs_bpl2mod b) else 0)" if "f' < 2" "p < 6" for f' p
    using ih(1) ih(4) [OF that] that assms(3) k ptr
    by (cases "f' = f"; cases "p = k")
      (auto simp: fetch_plane_def Let_def painter_shape_def nth_list_update advance_plane_ptr_def mult.commute even_iff_mod_2_eq_zero less_Suc_eq)
  moreover have "pt_fb ?r = pt_fb pt" using ih(2) by (simp add: fetch_plane_def Let_def)
  moreover have "fold (fetch_plane ram b d f) [0..<Suc k] pt = ?r" by simp
  ultimately show ?case using shape by (simp only:) blast
qed

lemma decode_band_bounds: "g_planes (decode_band b) \<le> MAX_PLANES" "g_ddf_words (decode_band b) \<le> MAX_DDF_WORDS"
  "g_px_per_cck (decode_band b) = 2" "0 < g_bits_per_output_px (decode_band b)" "g_diw_x0 (decode_band b) \<le> g_diw_x1 (decode_band b)"
  by (auto simp: decode_band_def Let_def)

text \<open>After \<open>row\<close> rows: the picture above is done, and every pointer stands where the next row of its field begins.\<close>

definition painted :: "copper_state \<Rightarrow> u8 list \<Rightarrow> bands \<Rightarrow> nat \<Rightarrow> bool \<Rightarrow> framebuffer \<Rightarrow> nat \<Rightarrow> painter \<Rightarrow> bool" where
  "painted s ram bs y0 lace fb row pt \<longleftrightarrow> painter_shape pt \<and> fb_like fb (pt_fb pt)
     \<and> (\<forall>f < 2. (f = 1 \<longrightarrow> lace) \<longrightarrow> (\<forall>p < MAX_PLANES. pt_bplpt pt ! f ! p = plane_address s bs y0 lace f row p))
     \<and> (\<forall>x < fb_width fb. \<forall>y < fb_height fb. fb_get (pt_fb pt) x y =
          (if y0 \<le> y \<and> y < y0 + row then picture_pixel s ram bs y0 lace (y - y0) x (fb_get fb x y) else fb_get fb x y))"

lemma plane_address_Suc:
  "plane_address s bs y0 lace f (Suc row) p = plane_address s bs y0 lace f row p +
     (if row_field lace row = f \<and> p < row_planes (row_band bs y0 lace row) then row_advance (row_band bs y0 lace row) p else 0)"
  by (simp add: plane_address_def)

lemma row_field_less: "row_field lace row < 2" "row_field lace row = 1 \<Longrightarrow> lace"
  by (auto simp: row_field_def split: if_splits)

lemma draw_row_blank:
  assumes "row_planes (row_band bs y0 lace row) = 0"
  shows "draw_row ram bs y0 lace row pt = pt\<lparr>pt_fb := fold (\<lambda>x fb. fb_put fb x (y0 + row) (argb_from_amiga (bs_color (row_band bs y0 lace row) ! 0)))
           [0..<fb_width (pt_fb pt)] (pt_fb pt)\<rparr>"
  using assms by (auto simp: draw_row_def Let_def row_planes_def row_band_def not_le split: if_splits)

lemma draw_row_picture:
  assumes "row_planes b \<noteq> 0" and "b = row_band bs y0 lace row" and "painter_shape pt"
    and "pt1 = fold (fetch_plane ram b (g_ddf_words (decode_band b)) (row_field lace row)) [0..<row_planes b] pt"
  shows "draw_row ram bs y0 lace row pt =
     pt1\<lparr>pt_fb := fold (paint_pixel b (decode_band b) (pt_words pt1) (y0 + row)) [g_diw_x0 (decode_band b)..<g_diw_x1 (decode_band b)] (pt_fb pt1)\<rparr>"
proof -
  have p: "row_planes b = g_planes (decode_band b)" using assms(1) by (auto simp: row_planes_def Let_def split: if_splits)
  have "min (g_planes (decode_band b)) (length (pt_words pt)) = row_planes b"
    using assms(3) decode_band_bounds(1) [of b] p by (simp add: painter_shape_def)
  then show ?thesis
    using assms(1) unfolding draw_row_def Let_def row_field_def [symmetric] row_band_def [symmetric] assms(2) [symmetric] assms(4)
    by (auto simp: row_planes_def Let_def split: if_splits)
qed

lemma paint_pixel_put:
  "fold (paint_pixel b g words y) xs fb = fold (\<lambda>x fb. fb_put fb x y (argb_from_amiga (bs_color b !
     ((let n = int (x - g_diw_x0 g) * int (g_bits_per_output_px g) + g_fetch_bit_shift g in
       if 0 \<le> n \<and> n < int (g_ddf_words g) * 16 then pixel_color_index words (g_planes g) (nat n) else 0) AND 0x1F)))) xs fb"
  by (intro fold_cong) (auto simp: paint_pixel_def Let_def)

lemma colour_index_32: "k \<le> MAX_PLANES \<Longrightarrow> colour_index ram addr k n AND 0x1F = colour_index ram addr k n"
proof -
  assume "k \<le> MAX_PLANES"
  then have "(2 :: nat) ^ k \<le> 2 ^ 5" by (intro power_increasing) simp_all
  then have "colour_index ram addr k n < 2 ^ 5" using colour_index_bound [of ram addr k n] by linarith
  moreover have "m AND 0x1F = m mod 2 ^ 5" for m :: nat
    using take_bit_eq_mask [of 5 m] by (simp add: mask_eq_exp_minus_1 take_bit_eq_mod)
  ultimately show ?thesis by simp
qed

lemma draw_row_painted:
  assumes "painted s ram bs y0 lace fb row pt" and ok: "fb_ok fb"
  shows "painted s ram bs y0 lace fb (Suc row) (draw_row ram bs y0 lace row pt)"
proof -
  let ?b = "row_band bs y0 lace row" and ?f = "row_field lace row"
  let ?g = "decode_band ?b"
  have shape: "painter_shape pt" and like: "fb_like fb (pt_fb pt)"
    and ptr: "\<And>f p. f < 2 \<Longrightarrow> (f = 1 \<Longrightarrow> lace) \<Longrightarrow> p < MAX_PLANES \<Longrightarrow> pt_bplpt pt ! f ! p = plane_address s bs y0 lace f row p"
    and pix: "\<And>x y. x < fb_width fb \<Longrightarrow> y < fb_height fb \<Longrightarrow> fb_get (pt_fb pt) x y =
          (if y0 \<le> y \<and> y < y0 + row then picture_pixel s ram bs y0 lace (y - y0) x (fb_get fb x y) else fb_get fb x y)"
    using assms(1) by (simp_all add: painted_def)
  have ok': "fb_ok (pt_fb pt)" "fb_width (pt_fb pt) = fb_width fb" "fb_height (pt_fb pt) = fb_height fb"
    using like ok fb_like_ok by (auto simp: fb_like_def)
  show ?thesis
  proof (cases "row_planes ?b = 0")
    case True
    let ?c = "argb_from_amiga (bs_color ?b ! 0)"
    let ?fb = "fold (\<lambda>x fb. fb_put fb x (y0 + row) ?c) [0..<fb_width (pt_fb pt)] (pt_fb pt)"
    have "fb_like fb ?fb" by (rule fb_like_trans [OF like fold_like]) simp
    moreover have "fb_get ?fb x y = (if y = y0 + row then ?c else fb_get (pt_fb pt) x y)"
      if "x < fb_width fb" "y < fb_height fb" for x y
      using fb_get_fold_put [OF ok'(1), of x y "y0 + row" "\<lambda>_. ?c" "[0..<fb_width fb]"] that ok' by simp
    moreover have "picture_pixel s ram bs y0 lace row x old = ?c" for x old
      using True by (simp add: picture_pixel_def Let_def)
    ultimately show ?thesis
      using shape ptr pix True by (auto simp: painted_def draw_row_blank [OF True] plane_address_Suc painter_shape_def less_Suc_eq)
  next
    case False
    let ?d = "g_ddf_words ?g"
    define pt1 where pt1: "pt1 = fold (fetch_plane ram ?b ?d ?f) [0..<row_planes ?b] pt"
    have planes: "row_planes ?b = g_planes ?g" using False by (auto simp: row_planes_def Let_def split: if_splits)
    then have le: "row_planes ?b \<le> MAX_PLANES" using decode_band_bounds(1) [of ?b] by simp
    note fetch = fetch_planes_exact [OF shape le row_field_less(1) [of lace row] decode_band_bounds(2) [of ?b], of ram ?b, folded pt1]
    have shape1: "painter_shape pt1" and fb1: "pt_fb pt1 = pt_fb pt" using fetch by simp_all
    have words: "pixel_color_index (pt_words pt1) (g_planes ?g) n = colour_index ram (plane_address s bs y0 lace ?f row) (row_planes ?b) n"
      if "n div 16 < ?d" for n
      unfolding planes [symmetric]
      using fetch that ptr [OF row_field_less] le shape1 by (intro pixel_color_index_exact) (auto simp: painter_shape_def)
    let ?idx = "\<lambda>x. (let n = int (x - g_diw_x0 ?g) * int (g_bits_per_output_px ?g) + g_fetch_bit_shift ?g in
       if 0 \<le> n \<and> n < int ?d * 16 then pixel_color_index (pt_words pt1) (g_planes ?g) (nat n) else 0) AND 0x1F"
    let ?put = "\<lambda>x fb. fb_put fb x (y0 + row) (argb_from_amiga (bs_color ?b ! ?idx x))"
    let ?xs = "[g_diw_x0 ?g..<g_diw_x1 ?g]"
    have row: "draw_row ram bs y0 lace row pt = pt1\<lparr>pt_fb := fold ?put ?xs (pt_fb pt)\<rparr>"
      using draw_row_picture [OF False refl shape pt1] by (simp add: paint_pixel_put fb1)
    have like1: "fb_like fb (fold ?put ?xs (pt_fb pt))" by (rule fb_like_trans [OF like fold_like]) simp
    have get: "fb_get (fold ?put ?xs (pt_fb pt)) x y =
        (if y = y0 + row then picture_pixel s ram bs y0 lace row x (fb_get (pt_fb pt) x y) else fb_get (pt_fb pt) x y)"
      if "x < fb_width fb" "y < fb_height fb" for x y
    proof -
      let ?n = "int (x - g_diw_x0 ?g) * int (g_bits_per_output_px ?g) + g_fetch_bit_shift ?g"
      have "?idx x = (if ?n < 0 \<or> int (16 * ?d) \<le> ?n then 0
          else colour_index ram (plane_address s bs y0 lace ?f row) (row_planes ?b) (nat ?n))"
      proof (cases "0 \<le> ?n \<and> ?n < int ?d * 16")
        case True
        then have "nat ?n div 16 < ?d" by (simp add: less_mult_imp_div_less nat_less_iff)
        then show ?thesis using True words [of "nat ?n"] colour_index_32 [OF le] by (simp add: Let_def)
      qed (auto simp: Let_def)
      then show ?thesis
        using fb_get_fold_put [OF ok'(1), of x y "y0 + row" "\<lambda>x. argb_from_amiga (bs_color ?b ! ?idx x)" ?xs] that ok' False
        by (auto simp: picture_pixel_def Let_def)
    qed
    have ptr1: "pt_bplpt pt1 ! f ! p = plane_address s bs y0 lace f (Suc row) p" if "f < 2" "f = 1 \<Longrightarrow> lace" "p < MAX_PLANES" for f p
      using fetch ptr [OF that] that by (auto simp: plane_address_Suc row_advance_def)
    show ?thesis
      unfolding painted_def row using shape1 like1 ptr1 get pix
      by (auto simp: painter_shape_def less_Suc_eq)
  qed
qed

text \<open>The number of rows of the picture; \<open>total_rows\<close> clips it to twice the tallest supported height.\<close>

definition picture_rows :: "nat \<Rightarrow> nat \<Rightarrow> bool \<Rightarrow> nat" where
  "picture_rows y0 y1 lace = min (if lace then 2 * (y1 - y0) else y1 - y0) 1152"

lemma draw_bitplanes_exact:
  assumes ok: "fb_ok fb" and ptrs: "length (cs_bplpt s) = 6" and ext: "picture_extent bs = (y0, y1, lace)"
  shows "fb_like fb (draw_bitplanes s ram bs fb)"
    and "x < fb_width fb \<Longrightarrow> y < fb_height fb \<Longrightarrow> fb_get (draw_bitplanes s ram bs fb) x y =
      (if y0 \<le> y \<and> y < y0 + picture_rows y0 y1 lace then picture_pixel s ram bs y0 lace (y - y0) x (fb_get fb x y) else fb_get fb x y)"
proof -
  let ?top = "decode_band (bd_state bs ! band_index_for_line bs y0)"
  let ?pt = "\<lparr>pt_bplpt = [cs_bplpt s, if lace then odd_field_bplpt (cs_bplpt s) (g_ddf_words ?top) else cs_bplpt s],
    pt_words = replicate MAX_PLANES (replicate MAX_DDF_WORDS 0), pt_fb = fb\<rparr>"
  have start: "painted s ram bs y0 lace fb 0 ?pt"
    using ptrs by (auto simp: painted_def painter_shape_def less_2_cases_iff odd_field_bplpt_def Let_def plane_address_def field_start_def mult.commute)
  have run: "painted s ram bs y0 lace fb n (fold (draw_row ram bs y0 lace) [0..<n] ?pt)" for n
  proof (induction n)
    case (Suc n)
    then show ?case using draw_row_painted [OF Suc ok] by simp
  qed (use start in simp)
  have clip: "min (min k 4294967295) 1152 = min k (1152 :: nat)" for k by simp
  have eq: "draw_bitplanes s ram bs fb = (if y1 \<le> y0 then fb else pt_fb (fold (draw_row ram bs y0 lace) [0..<picture_rows y0 y1 lace] ?pt))"
    using clip by (simp add: draw_bitplanes_def ext picture_rows_def MAX_HEIGHT_def Let_def mult.commute)
  show "fb_like fb (draw_bitplanes s ram bs fb)" using run unfolding eq painted_def by simp
  show "x < fb_width fb \<Longrightarrow> y < fb_height fb \<Longrightarrow> fb_get (draw_bitplanes s ram bs fb) x y =
      (if y0 \<le> y \<and> y < y0 + picture_rows y0 y1 lace then picture_pixel s ram bs y0 lace (y - y0) x (fb_get fb x y) else fb_get fb x y)"
    using run [of "picture_rows y0 y1 lace"] unfolding eq painted_def by (auto simp: picture_rows_def)
qed

section \<open>The sprite\<close>

text \<open>What the sprite shows at a pixel, from its header and its two image words per line in chip RAM.\<close>

definition sprite_colour :: "copper_state \<Rightarrow> u8 list \<Rightarrow> bands \<Rightarrow> nat \<Rightarrow> nat \<Rightarrow> u32 option" where
  "sprite_colour s ram bs x y =
     (let pos = rn_read_word ram (cs_spr0pt s); ctl = rn_read_word ram (cs_spr0pt s + 2);
          tp = unat pos div 256 + (if bit ctl 2 then 256 else 0);
          bot_line = unat ctl div 256 + (if bit ctl 1 then 256 else 0);
          lft = 2 * (unat pos mod 256);
          addr = cs_spr0pt s + 4 + 4 * of_nat (y - tp);
          lo = bit (rn_read_word ram addr) (15 - (x - lft)); hi = bit (rn_read_word ram (addr + 2)) (15 - (x - lft))
      in if tp \<le> y \<and> y < bot_line \<and> y < tp + 256 \<and> lft \<le> x \<and> x < lft + 16 \<and> (lo \<or> hi)
         then Some (argb_from_amiga (bs_color (bd_state bs ! band_index_for_line bs tp) ! (16 + of_bool lo + 2 * of_bool hi)))
         else None)"

lemma fb_get_fold_some:
  assumes "fb_ok fb" and "x < fb_width fb" and "y < fb_height fb"
  shows "fb_get (fold (\<lambda>i fb. case c i of None \<Rightarrow> fb | Some v \<Rightarrow> fb_put fb (x0 + i) y' v) xs fb) x y =
    (if y = y' \<and> x0 \<le> x \<and> x - x0 \<in> set xs then case c (x - x0) of None \<Rightarrow> fb_get fb x y | Some v \<Rightarrow> v else fb_get fb x y)"
  using assms
proof (induction xs arbitrary: fb)
  case (Cons a xs)
  let ?fb = "case c a of None \<Rightarrow> fb | Some v \<Rightarrow> fb_put fb (x0 + a) y' v"
  have like: "fb_like fb ?fb" by (simp split: option.split)
  note ih = Cons.IH [OF fb_like_ok [OF like Cons.prems(1)], of]
  have "fb_get ?fb x y = (if y = y' \<and> x0 \<le> x \<and> x - x0 = a then case c a of None \<Rightarrow> fb_get fb x y | Some v \<Rightarrow> v else fb_get fb x y)"
    using fb_get_put [OF Cons.prems] by (auto split: option.split)
  then show ?case using ih Cons.prems(2,3) like by (auto simp: fb_like_def split: option.split)
qed simp

lemma sprite_value:
  fixes a b :: u16 and k :: nat
  defines "v \<equiv> (drop_bit k a AND 1) OR push_bit 1 (drop_bit k b AND 1)"
  shows "v = 0 \<longleftrightarrow> \<not> bit a k \<and> \<not> bit b k" and "unat v = of_bool (bit a k) + 2 * of_bool (bit b k)"
proof -
  have "drop_bit k w AND 1 = of_bool (bit w k)" for w :: u16 by (simp add: and_one_eq mod_2_eq_odd bit_iff_odd_drop_bit)
  then show "v = 0 \<longleftrightarrow> \<not> bit a k \<and> \<not> bit b k" and "unat v = of_bool (bit a k) + 2 * of_bool (bit b k)"
    by (auto simp: v_def)
qed

lemma sprite_line_exact:
  assumes "fb_ok fb" and "x < fb_width fb" and "y < fb_height fb"
  shows "fb_get (fold (sprite_pixel b x0 1 y' va vb) [0..<16] fb) x y =
    (if y = y' \<and> x0 \<le> x \<and> x < x0 + 16 \<and> (bit va (15 - (x - x0)) \<or> bit vb (15 - (x - x0)))
     then argb_from_amiga (bs_color b ! (16 + of_bool (bit va (15 - (x - x0))) + 2 * of_bool (bit vb (15 - (x - x0)))))
     else fb_get fb x y)"
proof -
  let ?c = "\<lambda>i. if bit va (15 - i) \<or> bit vb (15 - i)
      then Some (argb_from_amiga (bs_color b ! (16 + of_bool (bit va (15 - i)) + 2 * of_bool (bit vb (15 - i))))) else None"
  have "sprite_pixel b x0 1 y' va vb = (\<lambda>i fb. case ?c i of None \<Rightarrow> fb | Some v \<Rightarrow> fb_put fb (x0 + i) y' v)"
    unfolding sprite_pixel_def Let_def sprite_value by (intro ext) auto
  then show ?thesis
    using fb_get_fold_some [OF assms, where c = ?c and ?x0.0 = x0 and y' = y' and xs = "[0..<16]"] by (auto split: if_splits)
qed

lemma sprite_pixel_like: "fb_like fb (fold (sprite_pixel b x0 step y va vb) xs fb)"
  by (rule fold_like) (simp add: sprite_pixel_def Let_def)

text \<open>The loop over the lines of the sprite.\<close>

lemma sprite_lines_exact:
  fixes b x0 tp va vb
  assumes "fb_ok fb" and "x < fb_width fb" and "y < fb_height fb"
  defines "f \<equiv> \<lambda>line fb. fold (sprite_pixel b x0 1 (tp + line) (va line) (vb line)) [0..<16] fb"
  shows "fb_like fb (fold f [0..<n] fb) \<and> fb_get (fold f [0..<n] fb) x y =
    (let lo = bit (va (y - tp)) (15 - (x - x0)); hi = bit (vb (y - tp)) (15 - (x - x0)) in
     if tp \<le> y \<and> y < tp + n \<and> x0 \<le> x \<and> x < x0 + 16 \<and> (lo \<or> hi)
     then argb_from_amiga (bs_color b ! (16 + of_bool lo + 2 * of_bool hi)) else fb_get fb x y)"
proof (induction n)
  case (Suc n)
  let ?fb = "fold f [0..<n] fb"
  have like: "fb_like fb ?fb" using Suc by simp
  then have "fb_ok ?fb" "x < fb_width ?fb" "y < fb_height ?fb" using assms(1-3) fb_like_ok by (auto simp: fb_like_def)
  note line = sprite_line_exact [OF this, of b x0 "tp + n" "va n" "vb n"]
  have "fold f [0..<Suc n] fb = fold (sprite_pixel b x0 1 (tp + n) (va n) (vb n)) [0..<16] ?fb"
    by (simp add: f_def)
  moreover have "fb_like fb (fold (sprite_pixel b x0 1 (tp + n) (va n) (vb n)) [0..<16] ?fb)"
    by (rule fb_like_trans [OF like sprite_pixel_like])
  ultimately show ?case using line Suc by (cases "y = tp + n") (auto simp: Let_def simp del: upt_Suc)
qed (auto simp: Let_def)

lemma and_bit_cases: "w AND push_bit n 1 = (if bit w n then push_bit n 1 else 0)" for w :: "'a::len word"
  by (rule bit_word_eqI) (auto simp: bit_simps)

lemma sprite_edge:
  fixes pos :: u16
  shows "unat (ucast (drop_bit 8 pos) OR 0x100 :: u32) = unat pos div 256 + 256"
    and "unat (ucast (drop_bit 8 pos) :: u32) = unat pos div 256"
proof -
  have "unat pos div 256 < 2 ^ 8" using unat_lt2p_of [of pos] by (simp add: less_mult_imp_div_less)
  moreover have "unat (drop_bit 8 pos) = unat pos div 256" unfolding unat_drop_bit_eq by (simp add: drop_bit_eq_div)
  ultimately show "unat (ucast (drop_bit 8 pos) OR 0x100 :: u32) = unat pos div 256 + 256"
    and "unat (ucast (drop_bit 8 pos) :: u32) = unat pos div 256"
    using or_push_bit_add [of "unat pos div 256" 8 1] by (simp_all add: unsigned_or_eq push_bit_eq_mult unat_ucast_mod)
qed

lemma sprite_header:
  fixes pos ctl :: u16
  shows "unat (ucast (drop_bit 8 pos) OR push_bit 6 (ucast (ctl AND 0x04)) :: u32) = unat pos div 256 + (if bit ctl 2 then 256 else 0)"
    and "unat (ucast (drop_bit 8 pos) OR push_bit 7 (ucast (ctl AND 0x02)) :: u32) = unat pos div 256 + (if bit ctl 1 then 256 else 0)"
    and "unat (push_bit 1 (ucast (pos AND 0xFF)) OR ucast (ctl AND 0x01) :: u32) div 2 = unat pos mod 256"
proof -
  have "ctl AND 4 = (if bit ctl 2 then 4 else 0)" using and_bit_cases [of ctl 2] by (simp add: push_bit_eq_mult)
  then show "unat (ucast (drop_bit 8 pos) OR push_bit 6 (ucast (ctl AND 0x04)) :: u32) = unat pos div 256 + (if bit ctl 2 then 256 else 0)"
    using sprite_edge by simp
  have "ctl AND 2 = (if bit ctl 1 then 2 else 0)" using and_bit_cases [of ctl 1] by (simp add: push_bit_eq_mult)
  then show "unat (ucast (drop_bit 8 pos) OR push_bit 7 (ucast (ctl AND 0x02)) :: u32) = unat pos div 256 + (if bit ctl 1 then 256 else 0)"
    using sprite_edge by simp
  have pos: "unat (pos AND 0xFF) = unat pos mod 256"
    using take_bit_eq_mask [of 8 "unat pos"] by (simp add: unsigned_and_eq mask_eq_exp_minus_1 take_bit_eq_mod)
  have "unat (push_bit 1 w OR v) = unat v + unat w * 2" if "unat w < 256" "unat v < 2" for w v :: u32
  proof -
    have "unat (push_bit 1 w) = push_bit 1 (unat w)"
      using that(1) by (simp add: unsigned_push_bit_eq take_bit_nat_eq_self push_bit_eq_mult unat_word_ariths)
    then show ?thesis using or_push_bit_add [of "unat v" 1 "unat w"] that(2) by (simp only: unsigned_or_eq or.commute) simp
  qed
  from this [of "ucast (pos AND 0xFF)" "ucast (ctl AND 0x01)"]
  show "unat (push_bit 1 (ucast (pos AND 0xFF)) OR ucast (ctl AND 0x01) :: u32) div 2 = unat pos mod 256"
    using pos and_bit_cases [of ctl 0] by (simp add: unat_ucast_mod split: if_splits)
qed

lemma draw_sprite0_exact:
  assumes ok: "fb_ok fb" and "x < fb_width fb" and "y < fb_height fb"
  shows "fb_get (draw_sprite0 s ram bs fb) x y = (case sprite_colour s ram bs x y of Some c \<Rightarrow> c | None \<Rightarrow> fb_get fb x y)"
proof -
  define pos ctl where hdr: "pos = rn_read_word ram (cs_spr0pt s)" "ctl = rn_read_word ram (cs_spr0pt s + 2)"
  define tp bot_line lft where pl: "tp = unat pos div 256 + (if bit ctl 2 then 256 else 0)"
    "bot_line = unat ctl div 256 + (if bit ctl 1 then 256 else 0)" "lft = 2 * (unat pos mod 256)"
  define va vb where v: "va = (\<lambda>line. rn_read_word ram (cs_spr0pt s + 4 + of_nat line * 4))"
    "vb = (\<lambda>line. rn_read_word ram (cs_spr0pt s + 4 + of_nat line * 4 + 2))"
  define b where "b = bd_state bs ! band_index_for_line bs tp"
  have eq: "draw_sprite0 s ram bs fb = (if bot_line \<le> tp then fb else
      fold (\<lambda>line fb. fold (sprite_pixel b lft 1 (tp + line) (va line) (vb line)) [0..<16] fb) [0..<min (bot_line - tp) 256] fb)"
    unfolding draw_sprite0_def Let_def sprite_header hdr [symmetric] pl [symmetric] b_def [symmetric] v
    by (simp add: decode_band_bounds MAX_SPRITE_LINES_def pl(3) mult.commute)
  have ref: "sprite_colour s ram bs x y =
      (if tp \<le> y \<and> y < bot_line \<and> y < tp + 256 \<and> lft \<le> x \<and> x < lft + 16 \<and> (bit (va (y - tp)) (15 - (x - lft)) \<or> bit (vb (y - tp)) (15 - (x - lft)))
       then Some (argb_from_amiga (bs_color b ! (16 + of_bool (bit (va (y - tp)) (15 - (x - lft))) + 2 * of_bool (bit (vb (y - tp)) (15 - (x - lft))))))
       else None)"
    unfolding sprite_colour_def Let_def hdr [symmetric] pl [symmetric] b_def [symmetric] v by (simp only: mult.commute)
  define lo hi where "lo = bit (va (y - tp)) (15 - (x - lft))" and "hi = bit (vb (y - tp)) (15 - (x - lft))"
  note names = this [symmetric]
  note lines = conjunct2 [OF sprite_lines_exact [OF assms, of b lft tp va vb "min (bot_line - tp) 256"], unfolded Let_def names]
  have "tp \<le> y \<and> y < bot_line \<and> y < tp + 256 \<longleftrightarrow> tp \<le> y \<and> y < tp + min (bot_line - tp) 256" by auto
  then show ?thesis
    using lines unfolding eq ref names by (cases "bot_line \<le> tp") auto
qed

section \<open>A frame\<close>

lemma apply_move_pointers: "length (cs_bplpt (apply_move s offset v)) = length (cs_bplpt s)"
  by (simp add: apply_move_def Let_def upd_at_def)

lemma copper_loop_pointers: "length (cs_bplpt (cw_state (copper_loop n ram k))) = length (cs_bplpt (cw_state k))"
proof (induction n arbitrary: k)
  case (Suc n)
  obtain k' stop where k': "copper_instr ram k = (k', stop)" by fastforce
  then have "length (cs_bplpt (cw_state k')) = length (cs_bplpt (cw_state k))"
    by (auto simp: copper_instr_def Let_def apply_move_pointers split: if_splits)
  then show ?case using Suc.IH [of k'] by (simp add: k')
qed simp

lemma run_copper_pointers: "run_copper start ram s bs = (s', bs', e) \<Longrightarrow> length (cs_bplpt s') = length (cs_bplpt s)"
  by (auto simp: run_copper_def Let_def copper_loop_pointers)

lemma argb_opaque: "argb_from_amiga c AND 0xFF000000 = 0xFF000000"
proof -
  have "(a OR z) AND a = a" for a z :: u32 by (simp add: and.commute)
  from this [of "0xFF000000"] show ?thesis by (simp only: argb_from_amiga_def Let_def or.assoc)
qed

lemma fb_fill_get: "fb_ok fb \<Longrightarrow> x < fb_width fb \<Longrightarrow> y < fb_height fb \<Longrightarrow> fb_get (fb_fill fb c) x y = c"
  using pixel_index_less [of x "fb_width fb" y "fb_height fb"] by (simp add: fb_get_def fb_fill_def fb_ok_def)

lemma picture_pixel_opaque: "old AND 0xFF000000 = 0xFF000000 \<Longrightarrow> picture_pixel s ram bs y0 lace row x old AND 0xFF000000 = 0xFF000000"
  by (simp add: picture_pixel_def Let_def argb_opaque)

text \<open>C28 [equivalence]: Whatever the display registers, the copper list and chip RAM hold, each pixel of a rendered frame is a
  function of its coordinates: the sprite's colour where the sprite is not transparent there; else, within the rows of
  the picture, the colour of the bits that the planes hold for this pixel at addresses given by a closed sum
  over the rows above in the same field, or the band's background; else the background of the first band. Every pixel
  is opaque. The row loop with its running pointers, line buffer and clipping computes nothing else.\<close>

theorem render_frame_exact:
  assumes "fb_new pixels w h = Some fb" and "x < w" and "y < h" and "length (bplpt c) = 6"
    and run: "run_copper (cop1lc c) ram (cs_from_chipset c) bands_new = (s, bs, executed)"
    and ext: "picture_extent bs = (y0, y1, lace)"
  defines "background \<equiv> argb_from_amiga (bs_color (bd_state bs ! 0) ! 0)"
  shows "fb_get (render c ram fb) x y =
      (case sprite_colour s ram bs x y of
         Some colour \<Rightarrow> colour
       | None \<Rightarrow> if y0 \<le> y \<and> y < y0 + picture_rows y0 y1 lace then picture_pixel s ram bs y0 lace (y - y0) x background else background)
    \<and> fb_get (render c ram fb) x y AND 0xFF000000 = 0xFF000000"
proof -
  have fb: "fb_ok fb" "fb_width fb = w" "fb_height fb = h"
    using assms(1) fb_new_ok by (auto simp: fb_new_def split: if_splits)
  let ?fb1 = "fb_fill fb background"
  have ok1: "fb_ok ?fb1" "fb_width ?fb1 = w" "fb_height ?fb1 = h" using fb by (simp_all add: fb_ok_def fb_fill_def)
  have ptrs: "length (cs_bplpt s) = 6" using run_copper_pointers [OF run] assms(4) by (simp add: cs_from_chipset_def)
  let ?fb2 = "draw_bitplanes s ram bs ?fb1"
  note pic = draw_bitplanes_exact [OF ok1(1) ptrs ext, where ram = ram]
  have ok2: "fb_ok ?fb2" "fb_width ?fb2 = w" "fb_height ?fb2 = h"
    using fb_like_ok [OF pic(1) ok1(1)] pic(1) ok1 by (auto simp: fb_like_def)
  have "fb_get ?fb2 x y = (if y0 \<le> y \<and> y < y0 + picture_rows y0 y1 lace then picture_pixel s ram bs y0 lace (y - y0) x background else background)"
    using pic(2) [of x y] fb_fill_get [OF fb(1), of x y] ok1 fb assms(2,3) by simp
  moreover have "render c ram fb = draw_sprite0 s ram bs ?fb2" by (simp add: render_def run background_def Let_def)
  ultimately have get: "fb_get (render c ram fb) x y =
      (case sprite_colour s ram bs x y of
         Some colour \<Rightarrow> colour
       | None \<Rightarrow> if y0 \<le> y \<and> y < y0 + picture_rows y0 y1 lace then picture_pixel s ram bs y0 lace (y - y0) x background else background)"
    using draw_sprite0_exact [OF ok2(1), where x = x and y = y and s = s and ram = ram and bs = bs] ok2 assms(2,3) by (auto split: option.split)
  have "colour AND 0xFF000000 = 0xFF000000" if "sprite_colour s ram bs x y = Some colour" for colour
    using that by (auto simp: sprite_colour_def Let_def argb_opaque split: if_splits)
  then show ?thesis
    unfolding get by (auto simp: picture_pixel_opaque argb_opaque background_def split: option.split)
qed

text \<open>One plane of one word at address 0, which is the copper list itself: bits 7 and 8 of its first word are set.\<close>

definition demo_chips :: chipset where
  "demo_chips = chip_new\<lparr>bplcon0 := 0x1000, dmacon := 0x300, diwstrt := 0x0081, ddfstrt := 0x38, ddfstop := 0x38,
     color := (replicate 32 0)[1 := 0x00F]\<rparr>"

definition demo_end :: "u16 \<Rightarrow> copper_state" where
  "demo_end rgb = (cs_from_chipset demo_chips)\<lparr>cs_color := (replicate 32 0)[1 := 0x00F, 0 := rgb]\<rparr>"

definition demo_bands :: bands where
  "demo_bands = \<lparr>bd_start_line = (replicate 16 0)[1 := 0x2C],
     bd_state = (replicate 16 bs_zeroed)[0 := bs_from_state (demo_end 0xF00), 1 := bs_from_state (demo_end 0x0F0)], bd_count = 2\<rparr>"

lemma demo_frame_run: "run_copper 0 demo_list (cs_from_chipset demo_chips) bands_new = (demo_end 0x0F0, demo_bands, 4)"
  by (simp add: run_copper_def COPPER_INSTR_BUDGET_def copper_loop_step copper_instr_def demo_words demo_wait Let_def
    bands_open_def bands_finalize_def bands_new_def apply_move_def demo_end_def demo_bands_def bs_from_state_def cs_from_chipset_def
    demo_chips_def chip_new_def)

lemma demo_end_eval [code]: "demo_end rgb = \<lparr>cs_bplpt = replicate 6 0, cs_bplcon0 = 0x1000, cs_bplcon1 = 0, cs_bplcon2 = 0,
     cs_bpl1mod = 0, cs_bpl2mod = 0, cs_diwstrt = 0x0081, cs_diwstop = 0, cs_ddfstrt = 0x38, cs_ddfstop = 0x38,
     cs_color = (replicate 32 0)[1 := 0x00F, 0 := rgb], cs_dmacon = 0x300, cs_cop1lc = 0, cs_cop2lc = 0, cs_spr0pt = 0\<rparr>"
  by (simp add: demo_end_def demo_chips_def chip_new_def cs_from_chipset_def)

lemma demo_extent: "picture_extent demo_bands = (0, 256, False)"
proof -
  have bands: "take (bd_count demo_bands) (bd_state demo_bands) = [bs_from_state (demo_end 0xF00), bs_from_state (demo_end 0x0F0)]"
    by (simp add: demo_bands_def numeral_eq_Suc)
  have "g_diw_y0 (decode_band (bs_from_state (demo_end rgb))) = 0" "g_diw_y1 (decode_band (bs_from_state (demo_end rgb))) = 256"
    "\<not> g_lace (decode_band (bs_from_state (demo_end rgb)))" for rgb
    by (simp_all add: decode_band_def Let_def demo_end_eval bs_from_state_def)
  then show ?thesis by (simp add: picture_extent_def bands Let_def)
qed

lemma demo_frame_values: "sprite_colour (demo_end 0x0F0) demo_list demo_bands 135 0 = None"
  "picture_pixel (demo_end 0x0F0) demo_list demo_bands 0 False 0 135 0xFFFF0000 = 0xFF0000FF"
  "argb_from_amiga (bs_color (bd_state demo_bands ! 0) ! 0) = 0xFFFF0000" "picture_rows 0 256 False = 256"
  by code_simp+

theorem render_frame_exact_witness:
  "\<exists>fb. fb_new (replicate 288 0) 144 2 = Some fb \<and> fb_get (render demo_chips demo_list fb) 135 0 = 0xFF0000FF"
proof -
  obtain fb where fb: "fb_new (replicate 288 0) 144 2 = Some fb" by (simp add: fb_new_def)
  have "cop1lc demo_chips = 0" "length (bplpt demo_chips) = 6" by (simp_all add: demo_chips_def chip_new_def)
  then show ?thesis
    using render_frame_exact [OF fb, of 135 0 demo_chips demo_list "demo_end 0x0F0" demo_bands 4 0 256 False] fb
    by (simp add: demo_frame_run demo_extent demo_frame_values)
qed

section \<open>The frame of the Cirrus chip\<close>

text \<open>The colour of a pixel as arithmetic on its bytes, little-endian: fields of 5 or 6 bits are widened by repeating their high bits.\<close>

definition opaque_rgb :: "nat \<Rightarrow> nat \<Rightarrow> nat \<Rightarrow> u32" where
  "opaque_rgb r g b = of_nat (255 * 2 ^ 24 + r * 2 ^ 16 + g * 2 ^ 8 + b)"

definition widen5 :: "nat \<Rightarrow> nat" where "widen5 c = c * 8 + c div 4"

definition widen6 :: "nat \<Rightarrow> nat" where "widen6 c = c * 4 + c div 16"

fun rtg_colour :: "pixel_depth \<Rightarrow> (u8 \<Rightarrow> u32) \<Rightarrow> u8 list \<Rightarrow> u32" where
  "rtg_colour Bpp8 palette bytes = palette (bytes ! 0)"
| "rtg_colour Bpp15 palette bytes = (let v = unat (bytes ! 0) + 256 * unat (bytes ! 1)
     in opaque_rgb (widen5 (v div 1024 mod 32)) (widen5 (v div 32 mod 32)) (widen5 (v mod 32)))"
| "rtg_colour Bpp16 palette bytes = (let v = unat (bytes ! 0) + 256 * unat (bytes ! 1)
     in opaque_rgb (widen5 (v div 2048 mod 32)) (widen6 (v div 32 mod 64)) (widen5 (v mod 32)))"
| "rtg_colour Bpp24 palette bytes = opaque_rgb (unat (bytes ! 2)) (unat (bytes ! 1)) (unat (bytes ! 0))"

lemma unat_push_bit_small: "unat w < 2 ^ m \<Longrightarrow> m + n \<le> 32 \<Longrightarrow> unat (push_bit n (w :: u32)) = unat w * 2 ^ n"
proof -
  assume "unat w < 2 ^ m" and "m + n \<le> 32"
  then have "unat w * 2 ^ n < 2 ^ m * 2 ^ n" by simp
  also have "\<dots> \<le> 2 ^ 32" using \<open>m + n \<le> 32\<close> by (simp only: power_add [symmetric] power_increasing)
  finally show ?thesis by (simp only: unsigned_push_bit_eq) (simp add: take_bit_nat_eq_self push_bit_eq_mult)
qed

lemma opaque_word:
  fixes r g b :: u32
  assumes "unat r < 256" and "unat g < 256" and "unat b < 256"
  shows "0xFF000000 OR push_bit 16 r OR push_bit 8 g OR b = opaque_rgb (unat r) (unat g) (unat b)"
proof -
  have lit: "unat (0xFF000000 :: u32) = 0xFF000000" by simp
  have "unat (0xFF000000 OR push_bit 16 r OR push_bit 8 g OR b) = ((unat b OR push_bit 8 (unat g)) OR push_bit 16 (unat r)) OR push_bit 24 255"
    using assms unat_push_bit_small [of r 8 16] unat_push_bit_small [of g 8 8] lit
    by (simp only: unsigned_or_eq) (simp add: push_bit_eq_mult ac_simps)
  also have "\<dots> = (unat b + unat g * 2 ^ 8 + unat r * 2 ^ 16) OR push_bit 24 255"
    using assms by (simp add: or_push_bit_add)
  also have "\<dots> = (unat b + unat g * 2 ^ 8 + unat r * 2 ^ 16) + 255 * 2 ^ 24"
    using assms by (intro or_push_bit_add) simp
  also have "\<dots> = 255 * 2 ^ 24 + unat r * 2 ^ 16 + unat g * 2 ^ 8 + unat b" by simp
  finally have e: "unat (0xFF000000 OR push_bit 16 r OR push_bit 8 g OR b) = 255 * 2 ^ 24 + unat r * 2 ^ 16 + unat g * 2 ^ 8 + unat b" .
  show ?thesis unfolding opaque_rgb_def e [symmetric] by (simp only: of_nat_unat ucast_id)
qed

lemma expand5_widen: "unat c < 32 \<Longrightarrow> unat (rtg_expand5 c) = widen5 (unat c)"
proof -
  assume c: "unat c < 32"
  have "unat (push_bit 3 (ucast c :: u32)) = unat c * 8" using c unat_push_bit_small [of "ucast c" 5 3] by (simp add: unat_ucast_mod)
  moreover have "unat (drop_bit 2 (ucast c :: u32)) = unat c div 4" using c unfolding unat_drop_bit_eq by (simp add: drop_bit_eq_div unat_ucast_mod)
  moreover have "unat c div 4 OR push_bit 3 (unat c) = unat c div 4 + unat c * 8" using c or_push_bit_add [of "unat c div 4" 3 "unat c"] by simp
  ultimately show ?thesis
    unfolding rtg_expand5_def Let_def widen5_def unsigned_or_eq by (simp add: or.commute push_bit_eq_mult)
qed

lemma expand6_widen: "unat c < 64 \<Longrightarrow> unat (rtg_expand6 c) = widen6 (unat c)"
proof -
  assume c: "unat c < 64"
  have "unat (push_bit 2 (ucast c :: u32)) = unat c * 4" using c unat_push_bit_small [of "ucast c" 6 2] by (simp add: unat_ucast_mod)
  moreover have "unat (drop_bit 4 (ucast c :: u32)) = unat c div 16" using c unfolding unat_drop_bit_eq by (simp add: drop_bit_eq_div unat_ucast_mod)
  moreover have "unat c div 16 OR push_bit 2 (unat c) = unat c div 16 + unat c * 4" using c or_push_bit_add [of "unat c div 16" 2 "unat c"] by simp
  ultimately show ?thesis
    unfolding rtg_expand6_def Let_def widen6_def unsigned_or_eq by (simp add: or.commute push_bit_eq_mult)
qed

lemma pixel_field:
  fixes v :: u16
  shows "unat (drop_bit n v AND 0x1F) = unat v div 2 ^ n mod 32" and "unat (drop_bit n v AND 0x3F) = unat v div 2 ^ n mod 64"
    and "unat (v AND 0x1F) = unat v mod 32"
proof -
  have "m AND 0x1F = m mod 32" "m AND 0x3F = m mod 64" for m :: nat
    using take_bit_eq_mask [of 5 m] take_bit_eq_mask [of 6 m] by (simp_all add: mask_eq_exp_minus_1 take_bit_eq_mod)
  moreover have "unat (drop_bit n v) = unat v div 2 ^ n" unfolding unat_drop_bit_eq by (simp add: drop_bit_eq_div)
  ultimately show "unat (drop_bit n v AND 0x1F) = unat v div 2 ^ n mod 32" and "unat (drop_bit n v AND 0x3F) = unat v div 2 ^ n mod 64"
    and "unat (v AND 0x1F) = unat v mod 32"
    by (simp_all add: unsigned_and_eq)
qed

lemma little_endian_word: "unat (ucast (lo :: u8) OR push_bit 8 (ucast (hi :: u8)) :: u16) = unat lo + 256 * unat hi"
proof -
  have lo: "unat (ucast lo :: u16) = unat lo" and hi: "unat (ucast hi :: u16) = unat hi"
    using unat_lt2p_of [of lo] unat_lt2p_of [of hi] by (simp_all add: unat_ucast_mod)
  have "unat (push_bit 8 (ucast hi :: u16)) = push_bit 8 (unat hi)"
    using unat_lt2p_of [of hi] by (simp only: unsigned_push_bit_eq hi) (simp add: take_bit_nat_eq_self push_bit_eq_mult)
  then show ?thesis using or_push_bit_add [of "unat lo" 8 "unat hi"] unat_lt2p_of [of lo] by (simp only: unsigned_or_eq lo) (simp add: push_bit_eq_mult)
qed

lemma widen_small: "c < 32 \<Longrightarrow> widen5 c < 256" "c < 64 \<Longrightarrow> widen6 c < 256"
  by (simp_all add: widen5_def widen6_def)

lemma unat_drop16: "unat (drop_bit n (v :: u16)) = unat v div 2 ^ n"
  unfolding unat_drop_bit_eq by (simp add: drop_bit_eq_div)

lemma rgb15_exact:
  "0xFF000000 OR push_bit 16 (rtg_expand5 (drop_bit 10 v AND 0x1F)) OR push_bit 8 (rtg_expand5 (drop_bit 5 v AND 0x1F)) OR rtg_expand5 (v AND 0x1F)
    = opaque_rgb (widen5 (unat v div 1024 mod 32)) (widen5 (unat v div 32 mod 32)) (widen5 (unat v mod 32))"
  using opaque_word by (simp add: expand5_widen pixel_field widen_small unat_drop16)

lemma rgb16_exact:
  "0xFF000000 OR push_bit 16 (rtg_expand5 (drop_bit 11 v AND 0x1F)) OR push_bit 8 (rtg_expand6 (drop_bit 5 v AND 0x3F)) OR rtg_expand5 (v AND 0x1F)
    = opaque_rgb (widen5 (unat v div 2048 mod 32)) (widen6 (unat v div 32 mod 64)) (widen5 (unat v mod 32))"
  using opaque_word by (simp add: expand5_widen expand6_widen pixel_field widen_small unat_drop16)

lemma rtg_pixel_exact:
  assumes "row_start + (x + 1) * unat (depth_bytes depth) \<le> length vram"
  shows "rtg_pixel depth vram palette row_start x =
    rtg_colour depth palette (take (unat (depth_bytes depth)) (drop (row_start + x * unat (depth_bytes depth)) vram))"
proof (cases depth)
  case Bpp8
  then show ?thesis using assms by (simp add: rtg_pixel_def vram_get_def)
next
  case Bpp15
  then show ?thesis using assms
    by (simp only: rtg_pixel_def pixel_depth.case Let_def rgb15_exact little_endian_word) (simp add: vram_get_def Let_def mult_2_right ac_simps)
next
  case Bpp16
  then show ?thesis using assms
    by (simp only: rtg_pixel_def pixel_depth.case Let_def rgb16_exact little_endian_word) (simp add: vram_get_def Let_def mult_2_right ac_simps)
next
  case Bpp24
  have b: "unat (ucast (b :: u8) :: u32) = unat b" "unat b < 256" for b
    using unat_lt2p_of [of b] by (simp_all add: unat_ucast_mod)
  have "unat (depth_bytes depth) = 3" using Bpp24 by simp
  then have n: "unat (depth_bytes Bpp24) = 3" and fits: "row_start + x * 3 + 2 < length vram" using assms Bpp24 by simp_all
  show ?thesis
    unfolding Bpp24 rtg_pixel_def pixel_depth.case Let_def rtg_colour.simps n using fits by (simp add: opaque_word b vram_get_def)
qed

lemma render_rtg_rows:
  fixes f :: "nat \<Rightarrow> nat \<Rightarrow> u32" and w :: nat
  assumes "fb_ok fb" and "x < fb_width fb" and "y < fb_height fb"
  defines "row \<equiv> \<lambda>y' fb. fold (\<lambda>x fb. fb_put fb x y' (f x y')) [0..<w] fb"
  shows "fb_like fb (fold row [0..<n] fb) \<and> fb_get (fold row [0..<n] fb) x y = (if x < w \<and> y < n then f x y else fb_get fb x y)"
proof (induction n)
  case (Suc n)
  let ?fb = "fold row [0..<n] fb"
  have like: "fb_like fb ?fb" using Suc by simp
  then have ok: "fb_ok ?fb" "x < fb_width ?fb" "y < fb_height ?fb" using assms(1-3) fb_like_ok by (auto simp: fb_like_def)
  have "fb_like fb (row n ?fb)" by (rule fb_like_trans [OF like]) (simp add: row_def fold_like)
  moreover have "fb_get (row n ?fb) x y = (if y = n \<and> x < w then f x n else fb_get ?fb x y)"
    using fb_get_fold_put [OF ok, of n "\<lambda>x. f x n" "[0..<w]"] by (simp add: row_def)
  ultimately show ?case using Suc by (auto simp: less_Suc_eq)
qed simp

text \<open>C30 [functional]: For every mode the Cirrus chip reports as displayable, presenting it puts into each pixel of the frame that
  the framebuffer has room for the colour that the pixel's own bytes of VRAM encode, at the start address plus the row's stride plus
  the pixel's offset, all of them inside VRAM; pixels outside the frame keep their colour.\<close>

theorem render_rtg_exact:
  assumes mode: "vga_decoded_mode chip = Some m" and vram: "length (vga_vram chip) < 2 ^ 32"
    and "fb_new pixels w h = Some fb" and "x < w" and "y < h"
  defines "bpp \<equiv> unat (depth_bytes (dm_depth m))"
  defines "addr \<equiv> unat (dm_start_offset m) + y * unat (dm_stride_bytes m) + x * bpp"
  shows "fb_get (render_rtg m (vga_vram chip) palette fb) x y =
      (if x < unat (dm_width m) \<and> y < unat (dm_height m) then rtg_colour (dm_depth m) palette (take bpp (drop addr (vga_vram chip)))
       else fb_get fb x y)
    \<and> (x < unat (dm_width m) \<and> y < unat (dm_height m) \<longrightarrow> addr + bpp \<le> length (vga_vram chip))"
proof -
  have fb: "fb_ok fb" "fb_width fb = w" "fb_height fb = h"
    using assms(3) fb_new_ok by (auto simp: fb_new_def split: if_splits)
  have inside: "addr + bpp \<le> length (vga_vram chip)" if "x < unat (dm_width m)" "y < unat (dm_height m)"
  proof -
    have pos: "0 < bpp" unfolding bpp_def by (cases "dm_depth m") simp_all
    have "x * bpp + (bpp - 1) < Suc x * bpp" using pos by simp
    also have "\<dots> \<le> unat (dm_width m) * bpp" using that(1) by (intro mult_le_mono1) simp
    finally have "x * bpp + (bpp - 1) < unat (dm_width m) * bpp" .
    then have "unat (dm_start_offset m) + y * unat (dm_stride_bytes m) + (x * bpp + (bpp - 1)) < length (vga_vram chip)"
      using vga_frame_in_vram [OF mode vram that(2)] unfolding bpp_def by blast
    then show ?thesis using pos unfolding addr_def by linarith
  qed
  have "fb_get (render_rtg m (vga_vram chip) palette fb) x y =
      (if x < min (unat (dm_width m)) w \<and> y < min (unat (dm_height m)) h
       then rtg_pixel (dm_depth m) (vga_vram chip) palette (unat (dm_start_offset m) + y * unat (dm_stride_bytes m)) x else fb_get fb x y)"
    using conjunct2 [OF render_rtg_rows [OF fb(1), of x y
      "\<lambda>x y. rtg_pixel (dm_depth m) (vga_vram chip) palette (unat (dm_start_offset m) + y * unat (dm_stride_bytes m)) x"
      "min (unat (dm_width m)) w" "min (unat (dm_height m)) h"]] fb assms(4,5)
    by (simp add: render_rtg_def Let_def)
  then show ?thesis
    using inside assms(4,5) by (auto simp: rtg_pixel_exact addr_def bpp_def add.assoc)
qed

theorem render_rtg_exact_witness:
  "\<exists>m fb. vga_decoded_mode mode_demo = Some m \<and> fb_new (replicate 64 0) 8 8 = Some fb
    \<and> fb_get (render_rtg m (vga_vram mode_demo) (\<lambda>i. ucast i + 0xFF000000) fb) 3 2 = 0xFF000000"
proof -
  let ?m = "\<lparr>dm_width = 16, dm_height = 16, dm_depth = Bpp8, dm_stride_bytes = 32, dm_start_offset = 0\<rparr>"
  have m: "vga_decoded_mode mode_demo = Some ?m"
    by (simp add: vga_decoded_mode_def mode_demo_regs decoded_depth_def decoded_fit_def from_be_def checked_mul_u32_def checked_add_u32_def)
  obtain fb where fb: "fb_new (replicate 64 0) 8 8 = Some fb" by (simp add: fb_new_def)
  have vram: "vga_vram mode_demo = replicate 512 0" by (simp add: mode_demo_def vga_new_def)
  show ?thesis using render_rtg_exact [OF m _ fb, of 3 2 "\<lambda>i. ucast i + 0xFF000000"] m fb by (simp add: vram)
qed

end
