(* ===== verification/VpIr.thy ===== *)
theory VpIr
  imports Prelude
begin

text \<open>
  The data of the translating core of \<open>crates/m68k-vp\<close>: the intermediate code of \<open>ir.rs\<close> (operand sizes, effective
  addresses, operations, blocks) and the flat guest memory of \<open>mem.rs\<close>.

  A panic is a value: every operation of the crate that can panic returns a sum whose left side says how. An \<open>i16\<close> or \<open>i32\<close>
  field is the word with its bits; the places that widen it with a sign use \<open>scast\<close>. The block's array with its
  count is the list of the entries pushed so far, since no code reads an entry at or past the count.
\<close>

section \<open>Intermediate code\<close>

(* src/crates/m68k-vp/src/ir.rs:24-25 Reg *)
type_synonym vp_reg = u8

(* src/crates/m68k-vp/src/ir.rs:27-30 dreg *)
definition dreg :: "u8 \<Rightarrow> vp_reg" where [simp]: "dreg n = n"
(* src/crates/m68k-vp/src/ir.rs:32-35 areg *)
definition areg :: "u8 \<Rightarrow> vp_reg" where [simp]: "areg n = 8 + n"

(* src/crates/m68k-vp/src/ir.rs:37-45 Size *)
datatype vp_size = SzB | SzW | SzL

(* src/crates/m68k-vp/src/ir.rs:48-55 Size::bytes *)
fun sz_bytes :: "vp_size \<Rightarrow> u32" where
  "sz_bytes SzB = 1" | "sz_bytes SzW = 2" | "sz_bytes SzL = 4"

(* src/crates/m68k-vp/src/ir.rs:57-64 Size::mask *)
fun sz_mask :: "vp_size \<Rightarrow> u32" where
  "sz_mask SzB = 0xFF" | "sz_mask SzW = 0xFFFF" | "sz_mask SzL = 0xFFFFFFFF"

(* src/crates/m68k-vp/src/ir.rs:66-73 Size::sign_bit *)
fun sz_sign_bit :: "vp_size \<Rightarrow> u32" where
  "sz_sign_bit SzB = 0x80" | "sz_sign_bit SzW = 0x8000" | "sz_sign_bit SzL = 0x80000000"

(* src/crates/m68k-vp/src/ir.rs:76-80 F_C *)
definition F_C :: u8 where [simp]: "F_C = 1"
(* src/crates/m68k-vp/src/ir.rs:81-81 F_V *)
definition F_V :: u8 where [simp]: "F_V = 2"
(* src/crates/m68k-vp/src/ir.rs:82-82 F_Z *)
definition F_Z :: u8 where [simp]: "F_Z = 4"
(* src/crates/m68k-vp/src/ir.rs:83-83 F_N *)
definition F_N :: u8 where [simp]: "F_N = 8"
(* src/crates/m68k-vp/src/ir.rs:84-84 F_X *)
definition F_X :: u8 where [simp]: "F_X = 16"
(* src/crates/m68k-vp/src/ir.rs:85-85 F_ALL *)
definition F_ALL :: u8 where [simp]: "F_ALL = F_C OR F_V OR F_Z OR F_N OR F_X"
(* src/crates/m68k-vp/src/ir.rs:86-86 F_NONE *)
definition F_NONE :: u8 where [simp]: "F_NONE = 0"

(* src/crates/m68k-vp/src/ir.rs:88-103 Ea *)
datatype vp_ea = EaInd vp_reg | EaPostInc vp_reg | EaPreDec vp_reg | EaDisp vp_reg u16

(* src/crates/m68k-vp/src/ir.rs:105-112 Source *)
datatype vp_source = SrcEa vp_ea | SrcReg vp_reg | SrcImm u32

(* src/crates/m68k-vp/src/ir.rs:114-123 AluBin *)
datatype alu_bin = AluAdd | AluSub | AluAnd | AluOr | AluEor | AluCmp

(* src/crates/m68k-vp/src/ir.rs:125-133 AluUn *)
datatype alu_un = AluNot | AluNeg | AluTst | AluExtL

(* src/crates/m68k-vp/src/ir.rs:135-141 MulDiv *)
datatype mul_div = MulU | MulS | DivU | DivS

(* src/crates/m68k-vp/src/ir.rs:143-147 BfOp *)
datatype bf_op = BfExtU | BfIns

(* src/crates/m68k-vp/src/ir.rs:149-230 Op *)
datatype vp_op =
    MoveqImm vp_reg u32
  | RegMove vp_reg vp_reg
  | LoadReg vp_reg vp_ea vp_size
  | MoveMem vp_source vp_ea vp_size
  | Lea vp_reg vp_ea
  | AluBinReg alu_bin vp_reg vp_reg vp_size u8
  | AluImm alu_bin vp_reg u32 vp_size u8
  | AluUnary alu_un vp_reg vp_size u8
  | Shift bool bool vp_reg u8 vp_size u8
  | MulDivOp mul_div vp_reg vp_reg
  | Bitfield bf_op vp_reg vp_reg u8 u8
  | Bsr u32
  | Bne u32 u32
  | Rts
  | Nop

(* src/crates/m68k-vp/src/ir.rs:232-244 IrInstr *)
record ir_instr =
  ii_op :: vp_op
  ii_pc :: u32
  ii_len :: u8
  ii_retire :: bool

(* src/crates/m68k-vp/src/ir.rs:247-254 IrInstr::nop_retiring *)
definition nop_retiring :: "u32 \<Rightarrow> u8 \<Rightarrow> ir_instr" where
  "nop_retiring pc len = \<lparr>ii_op = Nop, ii_pc = pc, ii_len = len, ii_retire = True\<rparr>"

(* src/crates/m68k-vp/src/ir.rs:257-261 MAX_OPS *)
definition MAX_OPS :: nat where [simp]: "MAX_OPS = 64"

(* src/crates/m68k-vp/src/ir.rs:263-268 IrBlock *)
record ir_block =
  blk_instrs :: "ir_instr list"
  blk_entry_pc :: u32

(* src/crates/m68k-vp/src/ir.rs:271-277 IrBlock::empty *)
definition blk_empty :: ir_block where
  "blk_empty = \<lparr>blk_instrs = [], blk_entry_pc = 0\<rparr>"

text \<open>The ways the crate panics.\<close>

datatype vp_panic = BadSourceEa | BadDestEa | UnsupportedOpcode | UnsupportedForm | BlockOverflow | UnreachableOp

type_synonym 'a vp_result = "vp_panic + 'a"

definition vp_bind :: "'a vp_result \<Rightarrow> ('a \<Rightarrow> 'b vp_result) \<Rightarrow> 'b vp_result" where
  "vp_bind r f = (case r of Inl e \<Rightarrow> Inl e | Inr x \<Rightarrow> f x)"

text \<open>\<open>assert!(c)\<close> before the rest.\<close>

definition vp_assert :: "bool \<Rightarrow> 'a vp_result \<Rightarrow> 'a vp_result" where
  "vp_assert c k = (if c then k else Inl UnsupportedForm)"

lemma vp_bind_simps [simp]: "vp_bind (Inr x) f = f x" "vp_bind (Inl e) f = Inl e"
  by (simp_all add: vp_bind_def)

lemma vp_bind_Inr: "vp_bind r f = Inr y \<longleftrightarrow> (\<exists>x. r = Inr x \<and> f x = Inr y)"
  by (cases r) simp_all

lemma vp_bind_cong [fundef_cong]: "r = r' \<Longrightarrow> (\<And>x. r' = Inr x \<Longrightarrow> f x = f' x) \<Longrightarrow> vp_bind r f = vp_bind r' f'"
  by (cases r') simp_all

lemma vp_assert_Inr [simp]: "vp_assert c k = Inr y \<longleftrightarrow> c \<and> k = Inr y"
  by (simp add: vp_assert_def)

(* src/crates/m68k-vp/src/ir.rs:279-293 IrBlock::push *)
definition blk_push :: "ir_block \<Rightarrow> ir_instr \<Rightarrow> ir_block vp_result" where
  "blk_push b instr = (if length (blk_instrs b) < MAX_OPS then Inr (b\<lparr>blk_instrs := blk_instrs b @ [instr]\<rparr>) else Inl BlockOverflow)"

section \<open>Guest memory\<close>

(* src/crates/m68k-vp/src/mem.rs:14-19 VpMemory *)
record vp_memory =
  vm_buf :: "u8 list"
  vm_mask :: u32

text \<open>\<open>None\<close> is the panic of either assertion.\<close>

(* src/crates/m68k-vp/src/mem.rs:22-40 VpMemory::new *)
definition vm_new :: "u8 list \<Rightarrow> vp_memory option" where
  "vm_new buf = (if length buf \<in> set (map (\<lambda>k. 2 ^ k) [0..<32]) then Some \<lparr>vm_buf = buf, vm_mask = of_nat (length buf - 1)\<rparr> else None)"

(* src/crates/m68k-vp/src/mem.rs:42-45 VpMemory::idx *)
definition vm_idx :: "vp_memory \<Rightarrow> u32 \<Rightarrow> nat" where
  "vm_idx m addr = unat (addr AND vm_mask m)"

(* src/crates/m68k-vp/src/mem.rs:56-59 VpMemory::read_u8 *)
definition vm_read_u8 :: "vp_memory \<Rightarrow> u32 \<Rightarrow> u8" where
  "vm_read_u8 m addr = vm_buf m ! vm_idx m addr"

(* src/crates/m68k-vp/src/mem.rs:61-65 VpMemory::write_u8 *)
definition vm_write_u8 :: "vp_memory \<Rightarrow> u32 \<Rightarrow> u8 \<Rightarrow> vp_memory" where
  "vm_write_u8 m addr v = m\<lparr>vm_buf := (vm_buf m)[vm_idx m addr := v]\<rparr>"

(* src/crates/m68k-vp/src/mem.rs:47-54 VpMemory::load *)
fun vm_load :: "vp_memory \<Rightarrow> u32 \<Rightarrow> u8 list \<Rightarrow> vp_memory" where
  "vm_load m addr [] = m"
| "vm_load m addr (v # vs) = vm_load (vm_write_u8 m addr v) (addr + 1) vs"

(* src/crates/m68k-vp/src/mem.rs:67-72 VpMemory::read_u16 *)
definition vm_read_u16 :: "vp_memory \<Rightarrow> u32 \<Rightarrow> u16" where
  "vm_read_u16 m addr = from_be [vm_read_u8 m addr, vm_read_u8 m (addr + 1)]"

(* src/crates/m68k-vp/src/mem.rs:74-79 VpMemory::write_u16 *)
definition vm_write_u16 :: "vp_memory \<Rightarrow> u32 \<Rightarrow> u16 \<Rightarrow> vp_memory" where
  "vm_write_u16 m addr v = (let bytes = to_be 2 v in vm_write_u8 (vm_write_u8 m addr (bytes ! 0)) (addr + 1) (bytes ! 1))"

(* src/crates/m68k-vp/src/mem.rs:81-86 VpMemory::read_u32 *)
definition vm_read_u32 :: "vp_memory \<Rightarrow> u32 \<Rightarrow> u32" where
  "vm_read_u32 m addr = push_bit 16 (ucast (vm_read_u16 m addr)) OR ucast (vm_read_u16 m (addr + 2))"

(* src/crates/m68k-vp/src/mem.rs:88-92 VpMemory::write_u32 *)
definition vm_write_u32 :: "vp_memory \<Rightarrow> u32 \<Rightarrow> u32 \<Rightarrow> vp_memory" where
  "vm_write_u32 m addr v = vm_write_u16 (vm_write_u16 m addr (ucast (drop_bit 16 v))) (addr + 2) (ucast v)"

section \<open>Memory laws\<close>

text \<open>The mask selects the low bits of an address, as many as the buffer has.\<close>

definition vm_ok :: "vp_memory \<Rightarrow> bool" where
  "vm_ok m \<longleftrightarrow> (\<exists>k < 32. length (vm_buf m) = 2 ^ k \<and> vm_mask m = mask k)"

lemma vm_new_ok: "vm_new buf = Some m \<Longrightarrow> vm_ok m \<and> vm_buf m = buf"
  by (auto simp: vm_new_def vm_ok_def mask_eq_exp_minus_1 of_nat_diff split: if_splits)

lemma unat_and_mask: "unat (a AND mask k) = unat a mod 2 ^ k"
proof -
  have "a AND mask k = take_bit k a" by (simp add: take_bit_eq_mask)
  then show ?thesis by (simp only: unsigned_take_bit_eq) (simp add: take_bit_eq_mod)
qed

lemma vm_idx_mod: "vm_ok m \<Longrightarrow> vm_idx m addr = unat addr mod length (vm_buf m)"
  by (auto simp: vm_ok_def vm_idx_def unat_and_mask)

lemma vm_idx_less: "vm_ok m \<Longrightarrow> vm_idx m addr < length (vm_buf m)"
  by (auto simp: vm_idx_mod vm_ok_def)

lemma vm_write_ok [simp]: "vm_ok (vm_write_u8 m a v) = vm_ok m"
  by (simp add: vm_write_u8_def vm_ok_def)

lemma vm_write_idx [simp]: "vm_idx (vm_write_u8 m a v) b = vm_idx m b"
  by (simp add: vm_write_u8_def vm_idx_def)

lemma vm_read_write: "vm_ok m \<Longrightarrow> vm_read_u8 (vm_write_u8 m a v) b = (if vm_idx m b = vm_idx m a then v else vm_read_u8 m b)"
  using vm_idx_less [of m a] by (simp add: vm_read_u8_def) (simp add: vm_write_u8_def vm_idx_def)

end
