(* ===== verification/VpDecoder.thy ===== *)
theory VpDecoder
  imports VpIr
begin

text \<open>
  The decoder of \<open>crates/m68k-vp/src/decoder.rs\<close>: one 68k instruction at a time into operations pushed onto a block, until a
  control transfer or a full block. What the decoder does not support is a panic, a left value here.
\<close>

section \<open>Operands\<close>

(* src/crates/m68k-vp/src/decoder.rs:26-29 DstKind *)
datatype dst_kind = DstReg vp_reg | DstEa vp_ea

text \<open>The cursor \<open>&mut u32\<close> is passed and returned.\<close>

(* src/crates/m68k-vp/src/decoder.rs:31-57 decode_src *)
definition decode_src :: "vp_memory \<Rightarrow> u32 \<Rightarrow> u16 \<Rightarrow> u16 \<Rightarrow> vp_size \<Rightarrow> (vp_source \<times> u32) vp_result" where
  "decode_src mem cursor md reg sz =
     (if md = 0 then Inr (SrcReg (dreg (ucast reg)), cursor)
      else if md = 1 then Inr (SrcReg (areg (ucast reg)), cursor)
      else if md = 2 then Inr (SrcEa (EaInd (areg (ucast reg))), cursor)
      else if md = 3 then Inr (SrcEa (EaPostInc (areg (ucast reg))), cursor)
      else if md = 4 then Inr (SrcEa (EaPreDec (areg (ucast reg))), cursor)
      else if md = 5 then Inr (SrcEa (EaDisp (areg (ucast reg)) (vm_read_u16 mem cursor)), cursor + 2)
      else if md = 7 \<and> reg = 4 then
        (if sz = SzL then Inr (SrcImm (vm_read_u32 mem cursor), cursor + 4)
         else Inr (SrcImm (ucast (vm_read_u16 mem cursor) AND sz_mask sz), cursor + 2))
      else Inl BadSourceEa)"

(* src/crates/m68k-vp/src/decoder.rs:59-73 decode_dst *)
definition decode_dst :: "vp_memory \<Rightarrow> u32 \<Rightarrow> u16 \<Rightarrow> u16 \<Rightarrow> (dst_kind \<times> u32) vp_result" where
  "decode_dst mem cursor md reg =
     (if md = 0 then Inr (DstReg (dreg (ucast reg)), cursor)
      else if md = 1 then Inr (DstReg (areg (ucast reg)), cursor)
      else if md = 2 then Inr (DstEa (EaInd (areg (ucast reg))), cursor)
      else if md = 3 then Inr (DstEa (EaPostInc (areg (ucast reg))), cursor)
      else if md = 4 then Inr (DstEa (EaPreDec (areg (ucast reg))), cursor)
      else if md = 5 then Inr (DstEa (EaDisp (areg (ucast reg)) (vm_read_u16 mem cursor)), cursor + 2)
      else Inl BadDestEa)"

section \<open>movem, bit fields and branches\<close>

(* src/crates/m68k-vp/src/decoder.rs:75-86 movem_reg_for_bit *)
definition movem_reg_for_bit :: "bool \<Rightarrow> nat \<Rightarrow> vp_reg" where
  "movem_reg_for_bit predec k = (if predec then of_nat (15 - k) else of_nat k)"

(* src/crates/m68k-vp/src/decoder.rs:112-121 decode_movem *)
definition movem_selected :: "bool \<Rightarrow> u16 \<Rightarrow> vp_reg list" where
  "movem_selected store rmask = map (movem_reg_for_bit store) (filter (\<lambda>k. rmask AND push_bit k 1 \<noteq> 0) [0..<16])"

text \<open>The operations of the selected registers are pushed one after the other; only the last retires.\<close>

(* src/crates/m68k-vp/src/decoder.rs:130-151 decode_movem *)
fun push_movem :: "ir_block \<Rightarrow> bool \<Rightarrow> vp_reg \<Rightarrow> u32 \<Rightarrow> vp_reg list \<Rightarrow> ir_block vp_result" where
  "push_movem b store an pc [] = Inr b"
| "push_movem b store an pc (r # rs) =
     (let op = (if store then MoveMem (SrcReg r) (EaPreDec an) SzL else LoadReg r (EaPostInc an) SzL)
      in vp_bind (blk_push b \<lparr>ii_op = op, ii_pc = pc, ii_len = 4, ii_retire = (rs = [])\<rparr>) (\<lambda>b. push_movem b store an pc rs))"

(* src/crates/m68k-vp/src/decoder.rs:88-153 decode_movem *)
definition decode_movem :: "ir_block \<Rightarrow> vp_memory \<Rightarrow> u32 \<Rightarrow> u16 \<Rightarrow> (ir_block \<times> u32) vp_result" where
  "decode_movem b mem pc op1 =
     (let d = drop_bit 10 op1 AND 1; md = drop_bit 3 op1 AND 7; areg_num = ucast (op1 AND 7);
          rmask = vm_read_u16 mem (pc + 2); store = (d = 0); an = areg areg_num; selected = movem_selected store rmask
      in vp_assert (md = (if store then 4 else 3))
        (if selected = [] then vp_bind (blk_push b \<lparr>ii_op = Nop, ii_pc = pc, ii_len = 4, ii_retire = True\<rparr>) (\<lambda>b. Inr (b, 4))
         else vp_bind (push_movem b store an pc selected) (\<lambda>b. Inr (b, 4))))"

(* src/crates/m68k-vp/src/decoder.rs:155-197 decode_bitfield *)
definition decode_bitfield :: "vp_memory \<Rightarrow> u32 \<Rightarrow> u16 \<Rightarrow> (vp_op \<times> u32) vp_result" where
  "decode_bitfield mem pc op1 =
     (let sub = drop_bit 8 op1 AND 7; md = drop_bit 3 op1 AND 7; reg = ucast (op1 AND 7)
      in vp_assert (md = 2)
        (let base = areg reg; ext = vm_read_u16 mem (pc + 2); dreg_field = ucast (drop_bit 12 ext AND 7);
             off_is_reg = drop_bit 11 ext AND 1; width_is_reg = drop_bit 5 ext AND 1
         in vp_assert (off_is_reg = 0) (vp_assert (width_is_reg = 0)
           (let offset = ucast (drop_bit 6 ext AND 0x1F); width_raw = ucast (ext AND 0x1F);
                width = (if width_raw = 0 then 32 else width_raw)
            in if sub = 1 then Inr (Bitfield BfExtU base (dreg dreg_field) offset width, 4)
               else if sub = 7 then Inr (Bitfield BfIns base (dreg dreg_field) offset width, 4)
               else Inl UnsupportedOpcode))))"

(* src/crates/m68k-vp/src/decoder.rs:199-210 decode_branch_target *)
definition decode_branch_target :: "vp_memory \<Rightarrow> u32 \<Rightarrow> u16 \<Rightarrow> u32 \<times> u32" where
  "decode_branch_target mem pc op1 =
     (let disp_byte = ucast (op1 AND 0xFF) :: u8
      in if disp_byte = 0 then (pc + 2 + scast (vm_read_u16 mem (pc + 2)), 4) else (pc + 2 + scast disp_byte, 2))"

section \<open>One instruction\<close>

text \<open>Pushing the one operation of an instruction that retires and goes on.\<close>

definition emit :: "ir_block \<Rightarrow> u32 \<Rightarrow> vp_op \<Rightarrow> u32 \<Rightarrow> bool \<Rightarrow> (ir_block \<times> u32 \<times> bool) vp_result" where
  "emit b pc op len terminator =
     vp_bind (blk_push b \<lparr>ii_op = op, ii_pc = pc, ii_len = ucast len, ii_retire = True\<rparr>) (\<lambda>b. Inr (b, len, terminator))"

(* src/crates/m68k-vp/src/decoder.rs:256-290 decode_one *)
definition decode_quick :: "u16 \<Rightarrow> vp_op vp_result" where
  "decode_quick op1 =
     (let size2 = drop_bit 6 op1 AND 3
      in vp_assert (size2 \<noteq> 3)
        (let sz = (if size2 = 0 then SzB else if size2 = 1 then SzW else SzL); md = drop_bit 3 op1 AND 7; reg = op1 AND 7
         in vp_assert (md = 0)
           (let qqq = drop_bit 9 op1 AND 7; imm = (if qqq = 0 then 8 else ucast qqq); is_sub = (drop_bit 8 op1 AND 1 = 1)
            in Inr (AluImm (if is_sub then AluSub else AluAdd) (dreg (ucast reg)) imm sz F_ALL))))"

(* src/crates/m68k-vp/src/decoder.rs:291-309 decode_one *)
definition decode_moveq :: "u16 \<Rightarrow> vp_op vp_result" where
  "decode_moveq op1 = vp_assert (drop_bit 8 op1 AND 1 = 0)
     (let reg = drop_bit 9 op1 AND 7; imm = scast (ucast op1 :: u8) in Inr (MoveqImm (dreg (ucast reg)) imm))"

(* src/crates/m68k-vp/src/decoder.rs:325-353 decode_one *)
fun move_op_of :: "vp_source \<Rightarrow> dst_kind \<Rightarrow> vp_size \<Rightarrow> vp_op vp_result" where
  "move_op_of (SrcReg s) (DstReg d) sz = vp_assert (sz = SzL) (Inr (RegMove d s))"
| "move_op_of src_val (DstEa ea) sz = Inr (MoveMem src_val ea sz)"
| "move_op_of (SrcEa ea) (DstReg d) sz = vp_assert (d < 8) (Inr (LoadReg d ea sz))"
| "move_op_of (SrcImm v) (DstReg d) sz = Inl UnsupportedForm"

(* src/crates/m68k-vp/src/decoder.rs:310-361 decode_one *)
definition decode_move :: "vp_memory \<Rightarrow> u32 \<Rightarrow> u16 \<Rightarrow> (vp_op \<times> u32) vp_result" where
  "decode_move mem pc op1 =
     (let nib = drop_bit 12 op1; sz = (if nib = 1 then SzB else if nib = 3 then SzW else SzL);
          dst_reg = drop_bit 9 op1 AND 7; dst_mode = drop_bit 6 op1 AND 7; src_mode = drop_bit 3 op1 AND 7; src_reg = op1 AND 7
      in vp_bind (decode_src mem (pc + 2) src_mode src_reg sz) (\<lambda>(src, cursor).
         vp_bind (decode_dst mem cursor dst_mode dst_reg) (\<lambda>(dst, cursor).
           vp_bind (move_op_of src dst sz) (\<lambda>op. Inr (op, cursor - pc)))))"

(* src/crates/m68k-vp/src/decoder.rs:423-449 decode_one *)
definition decode_lea :: "vp_memory \<Rightarrow> u32 \<Rightarrow> u16 \<Rightarrow> (vp_op \<times> u32) vp_result" where
  "decode_lea mem pc op1 =
     (let dst = drop_bit 9 op1 AND 7; md = drop_bit 3 op1 AND 7; reg = op1 AND 7; cursor = pc + 2
      in if md = 2 then Inr (Lea (areg (ucast dst)) (EaInd (areg (ucast reg))), cursor - pc)
         else if md = 5 then Inr (Lea (areg (ucast dst)) (EaDisp (areg (ucast reg)) (vm_read_u16 mem cursor)), cursor + 2 - pc)
         else Inl UnsupportedOpcode)"

(* src/crates/m68k-vp/src/decoder.rs:362-455 decode_one *)
definition decode_misc :: "ir_block \<Rightarrow> vp_memory \<Rightarrow> u32 \<Rightarrow> u16 \<Rightarrow> (ir_block \<times> u32 \<times> bool) vp_result" where
  "decode_misc b mem pc op1 =
     (let reg = ucast (op1 AND 7) in
      if op1 AND 0xFFF8 = 0x4A80 then emit b pc (AluUnary AluTst (dreg reg) SzL F_ALL) 2 False
      else if op1 AND 0xFFF8 = 0x4680 then emit b pc (AluUnary AluNot (dreg reg) SzL F_ALL) 2 False
      else if op1 AND 0xFFF8 = 0x4480 then emit b pc (AluUnary AluNeg (dreg reg) SzL F_ALL) 2 False
      else if op1 AND 0xFFF8 = 0x48C0 then emit b pc (AluUnary AluExtL (dreg reg) SzL F_ALL) 2 False
      else if op1 AND 0xF1C0 = 0x41C0 then vp_bind (decode_lea mem pc op1) (\<lambda>(op, len). emit b pc op len False)
      else if op1 AND 0xFB80 = 0x4880 then vp_bind (decode_movem b mem pc op1) (\<lambda>(b, len). Inr (b, len, False))
      else Inl UnsupportedOpcode)"

(* src/crates/m68k-vp/src/decoder.rs:456-554 decode_one *)
definition decode_alu :: "u16 \<Rightarrow> vp_op vp_result" where
  "decode_alu op1 =
     (let nib = drop_bit 12 op1; opmode = drop_bit 6 op1 AND 7; md = drop_bit 3 op1 AND 7;
          reg_field = dreg (ucast (drop_bit 9 op1 AND 7)); ea_reg = dreg (ucast (op1 AND 7));
          bin = (\<lambda>op d s. vp_assert (md = 0) (Inr (AluBinReg op d s SzL F_ALL)))
      in if nib = 0xD \<and> opmode = 2 then bin AluAdd reg_field ea_reg
         else if nib = 0x9 \<and> opmode = 2 then bin AluSub reg_field ea_reg
         else if nib = 0x8 \<and> opmode = 2 then bin AluOr reg_field ea_reg
         else if nib = 0x8 \<and> opmode = 3 then Inr (MulDivOp DivU reg_field ea_reg)
         else if nib = 0x8 \<and> opmode = 7 then Inr (MulDivOp DivS reg_field ea_reg)
         else if nib = 0xC \<and> opmode = 2 then bin AluAnd reg_field ea_reg
         else if nib = 0xC \<and> opmode = 3 then Inr (MulDivOp MulU reg_field ea_reg)
         else if nib = 0xC \<and> opmode = 7 then Inr (MulDivOp MulS reg_field ea_reg)
         else if nib = 0xB \<and> opmode = 2 then bin AluCmp reg_field ea_reg
         else if nib = 0xB \<and> opmode = 6 then bin AluEor ea_reg reg_field
         else Inl UnsupportedOpcode)"

(* src/crates/m68k-vp/src/decoder.rs:565-600 decode_one *)
definition decode_shift :: "u16 \<Rightarrow> vp_op vp_result" where
  "decode_shift op1 =
     (let count3 = drop_bit 9 op1 AND 7; count = (if count3 = 0 then 8 else ucast count3); dir_left = (drop_bit 8 op1 AND 1 = 1);
          size2 = drop_bit 6 op1 AND 3
      in vp_assert (size2 = 2) (vp_assert (drop_bit 5 op1 AND 1 = 0)
        (let ty = drop_bit 3 op1 AND 3 in vp_assert (ty \<le> 1)
          (Inr (Shift dir_left (ty = 0) (dreg (ucast (op1 AND 7))) count SzL F_ALL)))))"

(* src/crates/m68k-vp/src/decoder.rs:212-603 decode_one *)
definition decode_one :: "ir_block \<Rightarrow> vp_memory \<Rightarrow> u32 \<Rightarrow> (ir_block \<times> u32 \<times> bool) vp_result" where
  "decode_one b mem pc =
     (let op1 = vm_read_u16 mem pc; nib = drop_bit 12 op1 in
      if op1 = 0x4E75 then emit b pc Rts 2 True
      else if op1 = 0x4E71 then vp_bind (blk_push b (nop_retiring pc 2)) (\<lambda>b. Inr (b, 2, False))
      else if drop_bit 8 op1 = 0x66 then
        (let (target, len) = decode_branch_target mem pc op1 in emit b pc (Bne target (pc + len)) len True)
      else if drop_bit 8 op1 = 0x61 then
        (let (target, len) = decode_branch_target mem pc op1 in emit b pc (Bsr target) len True)
      else if nib = 5 then vp_bind (decode_quick op1) (\<lambda>op. emit b pc op 2 False)
      else if nib = 7 then vp_bind (decode_moveq op1) (\<lambda>op. emit b pc op 2 False)
      else if 1 \<le> nib \<and> nib \<le> 3 then vp_bind (decode_move mem pc op1) (\<lambda>(op, len). emit b pc op len False)
      else if nib = 4 then decode_misc b mem pc op1
      else if nib = 8 \<or> nib = 9 \<or> nib = 0xB \<or> nib = 0xC \<or> nib = 0xD then vp_bind (decode_alu op1) (\<lambda>op. emit b pc op 2 False)
      else if nib = 0xE then
        (if op1 AND 0xF8C0 = 0xE8C0 then vp_bind (decode_bitfield mem pc op1) (\<lambda>(op, len). emit b pc op len False)
         else vp_bind (decode_shift op1) (\<lambda>op. emit b pc op 2 False))
      else Inl UnsupportedOpcode)"

section \<open>Blocks\<close>

lemma push_extends: "blk_push b i = Inr b' \<longleftrightarrow> length (blk_instrs b) < MAX_OPS \<and> b' = b\<lparr>blk_instrs := blk_instrs b @ [i]\<rparr>"
  by (auto simp: blk_push_def)

lemma emit_Inr: "emit b pc op len t = Inr r \<longleftrightarrow> length (blk_instrs b) < MAX_OPS \<and>
    r = (b\<lparr>blk_instrs := blk_instrs b @ [\<lparr>ii_op = op, ii_pc = pc, ii_len = ucast len, ii_retire = True\<rparr>]\<rparr>, len, t)"
  by (auto simp: emit_def vp_bind_Inr push_extends)

lemma push_movem_Inr:
  "push_movem b store an pc rs = Inr b' \<Longrightarrow> (rs = [] \<Longrightarrow> length (blk_instrs b) \<le> MAX_OPS) \<Longrightarrow>
    length (blk_instrs b') \<le> MAX_OPS \<and> b' = b\<lparr>blk_instrs := blk_instrs b @ map (\<lambda>i. \<lparr>ii_op =
        (if store then MoveMem (SrcReg (rs ! i)) (EaPreDec an) SzL else LoadReg (rs ! i) (EaPostInc an) SzL),
        ii_pc = pc, ii_len = 4, ii_retire = (i + 1 = length rs)\<rparr>) [0..<length rs]\<rparr>"
proof (induction rs arbitrary: b)
  case (Cons r rs)
  let ?op = "if store then MoveMem (SrcReg r) (EaPreDec an) SzL else LoadReg r (EaPostInc an) SzL"
  let ?b = "b\<lparr>blk_instrs := blk_instrs b @ [\<lparr>ii_op = ?op, ii_pc = pc, ii_len = 4, ii_retire = (rs = [])\<rparr>]\<rparr>"
  have p: "length (blk_instrs b) < MAX_OPS" "push_movem ?b store an pc rs = Inr b'"
    using Cons.prems(1) by (auto simp: vp_bind_Inr push_extends Let_def)
  have u: "[0..<length (r # rs)] = 0 # map Suc [0..<length rs]" unfolding map_Suc_upt by (simp only: upt_conv_Cons list.size zero_less_Suc add_Suc_right add_0_right)
  show ?case using Cons.IH [OF p(2)] p(1) unfolding u by (auto simp: comp_def)
qed simp

text \<open>
  The operations the decoder can emit: registers in range, every flag wanted, quick immediates only added or
  subtracted, bit fields within 32 bits. An instruction appends operations of which the last one alone retires; a control
  transfer appends exactly itself.
\<close>

fun is_terminator :: "vp_op \<Rightarrow> bool" where
  "is_terminator (Bsr t) = True" | "is_terminator (Bne t f) = True" | "is_terminator Rts = True" | "is_terminator _ = False"

fun ea_reg :: "vp_ea \<Rightarrow> vp_reg" where
  "ea_reg (EaInd r) = r" | "ea_reg (EaPostInc r) = r" | "ea_reg (EaPreDec r) = r" | "ea_reg (EaDisp r d) = r"

fun source_ok :: "vp_source \<Rightarrow> bool" where
  "source_ok (SrcEa ea) = (ea_reg ea < 16)" | "source_ok (SrcReg r) = (r < 16)" | "source_ok (SrcImm v) = True"

fun op_ok :: "vp_op \<Rightarrow> bool" where
  "op_ok (MoveqImm d v) = (d < 16)"
| "op_ok (RegMove d s) = (d < 16 \<and> s < 16)"
| "op_ok (LoadReg d ea sz) = (d < 16 \<and> ea_reg ea < 16)"
| "op_ok (MoveMem src ea sz) = (source_ok src \<and> ea_reg ea < 16)"
| "op_ok (Lea d ea) = (d < 16 \<and> ea_reg ea < 16)"
| "op_ok (AluBinReg op d s sz f) = (d < 16 \<and> s < 16 \<and> f = F_ALL)"
| "op_ok (AluImm op d v sz f) = (d < 16 \<and> f = F_ALL \<and> op \<in> {AluAdd, AluSub})"
| "op_ok (AluUnary op d sz f) = (d < 16 \<and> f = F_ALL)"
| "op_ok (Shift l a d n sz f) = (d < 16 \<and> f = F_ALL)"
| "op_ok (MulDivOp op d s) = (d < 16 \<and> s < 16)"
| "op_ok (Bitfield op base r off w) = (base < 16 \<and> r < 16 \<and> off < 32 \<and> 0 < w \<and> w \<le> 32)"
| "op_ok _ = True"

definition group_ok :: "ir_instr list \<Rightarrow> bool \<Rightarrow> bool" where
  "group_ok xs t \<longleftrightarrow> xs \<noteq> [] \<and> map ii_retire xs = replicate (length xs - 1) False @ [True] \<and> (\<forall>x \<in> set xs. op_ok (ii_op x))
     \<and> (if t then length xs = 1 \<and> is_terminator (ii_op (hd xs)) else (\<forall>x \<in> set xs. \<not> is_terminator (ii_op x)))"

lemma reg_field: "(ucast ((w :: u16) AND 7) :: u8) < 8" "8 + (ucast ((w :: u16) AND 7) :: u8) < 16" "(ucast ((w :: u16) AND 7) :: u8) < 16"
proof -
  have "unat (w AND 7) \<le> 7" using word_and_le1 [of w 7] by (simp add: word_le_nat_alt)
  then have u: "unat (ucast (w AND 7) :: u8) \<le> 7" by (simp add: unat_ucast_mod)
  then show "(ucast (w AND 7) :: u8) < 8" "(ucast (w AND 7) :: u8) < 16" by (simp_all add: word_less_nat_alt)
  show "8 + (ucast (w AND 7) :: u8) < 16" using u by (simp add: word_less_nat_alt unat_word_ariths)
qed

lemma field5: "(ucast ((w :: u16) AND 0x1F) :: u8) < 32"
proof -
  have "unat (w AND 0x1F) \<le> 31" using word_and_le1 [of w "0x1F"] by (simp add: word_le_nat_alt)
  then show ?thesis by (simp add: word_less_nat_alt unat_ucast_mod)
qed

lemma src_ok: "decode_src mem c md (w AND 7) sz = Inr (src, c') \<Longrightarrow> source_ok src"
  by (auto simp: decode_src_def reg_field split: if_splits)

lemma dst_ok: "decode_dst mem c md (w AND 7) = Inr (d, c') \<Longrightarrow> (case d of DstReg r \<Rightarrow> r < 16 | DstEa ea \<Rightarrow> ea_reg ea < 16)"
  by (auto simp: decode_dst_def reg_field split: if_splits)

lemma plain_ops:
  "decode_quick op1 = Inr op \<Longrightarrow> op_ok op \<and> \<not> is_terminator op"
  "decode_moveq op1 = Inr op \<Longrightarrow> op_ok op \<and> \<not> is_terminator op"
  "decode_lea mem pc op1 = Inr (op, len) \<Longrightarrow> op_ok op \<and> \<not> is_terminator op"
  "decode_alu op1 = Inr op \<Longrightarrow> op_ok op \<and> \<not> is_terminator op"
  "decode_shift op1 = Inr op \<Longrightarrow> op_ok op \<and> \<not> is_terminator op"
  "decode_bitfield mem pc op1 = Inr (op, len) \<Longrightarrow> op_ok op \<and> \<not> is_terminator op"
  by (auto simp: decode_quick_def decode_moveq_def decode_lea_def decode_alu_def decode_shift_def decode_bitfield_def Let_def
      reg_field field5 word_gt_0 order.strict_implies_order split: if_splits)

lemma move_op: "decode_move mem pc op1 = Inr (op, len) \<Longrightarrow> op_ok op \<and> \<not> is_terminator op"
proof -
  assume "decode_move mem pc op1 = Inr (op, len)"
  then obtain src c dst c' sz where s: "decode_src mem (pc + 2) (drop_bit 3 op1 AND 7) (op1 AND 7) sz = Inr (src, c)"
    and t: "decode_dst mem c (drop_bit 6 op1 AND 7) (drop_bit 9 op1 AND 7) = Inr (dst, c')" and r: "move_op_of src dst sz = Inr op"
    unfolding decode_move_def Let_def vp_bind_Inr by (auto simp: vp_bind_Inr)
  show ?thesis using r src_ok [OF s] dst_ok [OF t] by (cases src; cases dst) auto
qed

lemma movem_reg_bound: "k < 16 \<Longrightarrow> movem_reg_for_bit p k < 16"
  by (auto simp add: movem_reg_for_bit_def word_less_nat_alt unat_of_nat_less simp del: of_nat_diff)

lemma retire_last: "0 < n \<Longrightarrow> map (\<lambda>i. i + 1 = n) [0..<n] = replicate (n - 1) False @ [True]"
  by (rule nth_equalityI) (auto simp: nth_append)

definition appends :: "ir_block \<Rightarrow> ir_block \<Rightarrow> bool \<Rightarrow> bool" where
  "appends b b' t \<longleftrightarrow> (\<exists>xs. b' = b\<lparr>blk_instrs := blk_instrs b @ xs\<rparr> \<and> length (blk_instrs b') \<le> MAX_OPS \<and> group_ok xs t)"

lemma push_appends: "blk_push b i = Inr b' \<Longrightarrow> op_ok (ii_op i) \<Longrightarrow> ii_retire i \<Longrightarrow> is_terminator (ii_op i) = t \<Longrightarrow> appends b b' t"
  unfolding appends_def by (intro exI [of _ "[i]"]) (auto simp: push_extends group_ok_def)

lemma emit_appends: "emit b pc op len t = Inr (b', len', t') \<Longrightarrow> op_ok op \<Longrightarrow> is_terminator op = t \<Longrightarrow> appends b b' t'"
  by (auto simp: emit_def vp_bind_Inr intro: push_appends)

lemma movem_appends:
  assumes "decode_movem b mem pc op1 = Inr (b', len)"
  shows "appends b b' False"
proof -
  define st rs an where d: "st = (drop_bit 10 op1 AND 1 = 0)" "rs = movem_selected st (vm_read_u16 mem (pc + 2))" "an = areg (ucast (op1 AND 7))"
  show ?thesis
  proof (cases "rs = []")
    case True
    then show ?thesis using assms unfolding decode_movem_def Let_def d [symmetric] by (auto simp: vp_bind_Inr intro: push_appends)
  next
    case False
    then have "push_movem b st an pc rs = Inr b'" using assms unfolding decode_movem_def Let_def d [symmetric] by (auto simp: vp_bind_Inr)
    note p = push_movem_Inr [OF this] False
    define xs where "xs = map (\<lambda>i. \<lparr>ii_op = (if st then MoveMem (SrcReg (rs ! i)) (EaPreDec an) SzL else LoadReg (rs ! i) (EaPostInc an) SzL),
        ii_pc = pc, ii_len = 4, ii_retire = (i + 1 = length rs)\<rparr>) [0..<length rs]"
    have regs: "\<forall>r \<in> set rs. r < 16" unfolding d by (auto simp: movem_selected_def movem_reg_bound)
    have an: "an < 16" unfolding d by (simp add: reg_field)
    have ne: "length rs > 0" using False by simp
    have "map ii_retire xs = map (\<lambda>i. i + 1 = length rs) [0..<length rs]" by (simp add: xs_def)
    then have "map ii_retire xs = replicate (length xs - 1) False @ [True]" using retire_last [OF ne] by (simp add: xs_def comp_def)
    moreover have "\<forall>x \<in> set xs. op_ok (ii_op x) \<and> \<not> is_terminator (ii_op x)" using regs an by (auto simp: xs_def)
    moreover have "xs \<noteq> []" using ne by (simp add: xs_def)
    ultimately have "group_ok xs False" unfolding group_ok_def by simp
    then show ?thesis using p unfolding xs_def [symmetric] appends_def by blast
  qed
qed

lemma bind_appends:
  "vp_bind r (\<lambda>op. emit b pc op l False) = Inr (b', len, t) \<Longrightarrow> (\<And>op. r = Inr op \<Longrightarrow> op_ok op \<and> \<not> is_terminator op) \<Longrightarrow> appends b b' t"
  "vp_bind q (\<lambda>(op, l). emit b pc op l False) = Inr (b', len, t) \<Longrightarrow> (\<And>op n. q = Inr (op, n) \<Longrightarrow> op_ok op \<and> \<not> is_terminator op) \<Longrightarrow> appends b b' t"
  by (auto simp: vp_bind_Inr intro: emit_appends)

lemma misc_appends:
  assumes "decode_misc b mem pc op1 = Inr (b', len, t)"
  shows "appends b b' t"
proof -
  have mv: "appends b b' t" if "vp_bind (decode_movem b mem pc op1) (\<lambda>(b, len). Inr (b, len, False)) = Inr (b', len, t)"
    using that movem_appends by (auto simp: vp_bind_Inr)
  have un: "appends b b' t" if "emit b pc (AluUnary op (dreg (ucast (op1 AND 7))) SzL F_ALL) 2 False = Inr (b', len, t)" for op
    using that by (rule emit_appends) (simp_all add: reg_field)
  show ?thesis
    using assms unfolding decode_misc_def Let_def
    by (simp only: split: if_split_asm) (erule un mv | erule bind_appends(2), erule plain_ops(3) | simp)+
qed

lemma decode_one_appends:
  assumes "decode_one b mem pc = Inr (b', len, t)"
  shows "appends b b' t"
proof -
  have br: "appends b b' t" if "(let (target, l) = r in emit b pc (f target l) l True) = Inr (b', len, t)" "\<And>x y. op_ok (f x y) \<and> is_terminator (f x y)" for r f
    using that by (auto simp: case_prod_beta intro: emit_appends)
  have nop: "appends b b' t" if "vp_bind (blk_push b (nop_retiring pc 2)) (\<lambda>b. Inr (b, 2, False)) = Inr (b', len, t)"
    using that by (auto simp: vp_bind_Inr nop_retiring_def intro: push_appends)
  show ?thesis
    using assms unfolding decode_one_def Let_def [of "vm_read_u16 mem pc"] Let_def [of "drop_bit 12 _"]
    by (simp only: split: if_split_asm)
      (erule nop | erule misc_appends
      | erule bind_appends(1), erule plain_ops(1) plain_ops(2) plain_ops(4) plain_ops(5)
      | erule bind_appends(2), erule plain_ops(6) move_op
      | erule br, simp | erule emit_appends, simp, simp | simp)+
qed

lemma appends_grows: "appends b b' t \<Longrightarrow> length (blk_instrs b) < length (blk_instrs b') \<and> length (blk_instrs b') \<le> MAX_OPS"
  by (auto simp: appends_def group_ok_def)

text \<open>The loop ends: every instruction pushes at least one operation and a full block stops it.\<close>

(* src/crates/m68k-vp/src/decoder.rs:612-619 decode_block *)
function decode_loop :: "ir_block \<Rightarrow> vp_memory \<Rightarrow> u32 \<Rightarrow> ir_block vp_result" where
  "decode_loop b mem pc =
     vp_bind (decode_one b mem pc) (\<lambda>(b, len, terminator).
       if terminator \<or> length (blk_instrs b) \<ge> MAX_OPS then Inr b else decode_loop b mem (pc + len))"
  by pat_completeness auto
termination
proof (relation "measure (\<lambda>(b, mem, pc). MAX_OPS - length (blk_instrs b))", goal_cases)
  case (2 b mem pc r b' y len t)
  then have "appends b b' t" using decode_one_appends [of b mem pc b' len t] by simp
  then show ?case using appends_grows 2 by fastforce
qed simp

declare decode_loop.simps [simp del]

(* src/crates/m68k-vp/src/decoder.rs:605-620 decode_block *)
definition decode_block :: "vp_memory \<Rightarrow> u32 \<Rightarrow> ir_block vp_result" where
  "decode_block mem entry_pc = decode_loop (blk_empty\<lparr>blk_entry_pc := entry_pc\<rparr>) mem entry_pc"


section \<open>Decoded blocks\<close>

definition block_ok :: "ir_block \<Rightarrow> bool" where
  "block_ok b \<longleftrightarrow> blk_instrs b \<noteq> [] \<and> length (blk_instrs b) \<le> MAX_OPS \<and> (\<forall>x \<in> set (blk_instrs b). op_ok (ii_op x)) \<and>
     (\<forall>x \<in> set (butlast (blk_instrs b)). \<not> is_terminator (ii_op x)) \<and> ii_retire (last (blk_instrs b)) \<and>
     (is_terminator (ii_op (last (blk_instrs b))) \<or> length (blk_instrs b) = MAX_OPS)"

lemma group_last: "group_ok xs t \<Longrightarrow> xs \<noteq> [] \<and> ii_retire (last xs)"
proof -
  assume g: "group_ok xs t"
  then have "map ii_retire xs = replicate (length xs - 1) False @ [True]" by (simp add: group_ok_def)
  from arg_cong [OF this, of last] have "last (map ii_retire xs)" by simp
  moreover have "xs \<noteq> []" using g by (simp add: group_ok_def)
  ultimately show ?thesis by (metis last_map)
qed

lemma decode_loop_ok:
  "decode_loop b mem pc = Inr b' \<Longrightarrow> \<forall>x \<in> set (blk_instrs b). op_ok (ii_op x) \<and> \<not> is_terminator (ii_op x) \<Longrightarrow>
    block_ok b' \<and> blk_entry_pc b' = blk_entry_pc b"
proof (induction b mem pc rule: decode_loop.induct)
  case (1 b mem pc)
  then obtain b1 len t where d: "decode_one b mem pc = Inr (b1, len, t)"
    and r: "(if t \<or> length (blk_instrs b1) \<ge> MAX_OPS then Inr b1 else decode_loop b1 mem (pc + len)) = Inr b'"
    by (subst (asm) decode_loop.simps) (auto simp: vp_bind_Inr)
  from decode_one_appends [OF d] obtain xs where xs: "b1 = b\<lparr>blk_instrs := blk_instrs b @ xs\<rparr>" "length (blk_instrs b1) \<le> MAX_OPS" "group_ok xs t"
    by (auto simp: appends_def)
  note g = group_last [OF xs(3)]
  show ?case
  proof (cases "t \<or> length (blk_instrs b1) \<ge> MAX_OPS")
    case True
    have "\<forall>x \<in> set (butlast xs). \<not> is_terminator (ii_op x)"
      using xs(3) by (cases t) (auto simp: group_ok_def length_Suc_conv dest: in_set_butlastD)
    moreover have "t \<Longrightarrow> is_terminator (ii_op (last xs))" using xs(3) by (auto simp: group_ok_def length_Suc_conv)
    ultimately show ?thesis using True r xs g 1(3) by (auto simp: block_ok_def group_ok_def butlast_append)
  next
    case False
    then have "\<forall>x \<in> set (blk_instrs b1). op_ok (ii_op x) \<and> \<not> is_terminator (ii_op x)" using xs 1(3) by (auto simp: group_ok_def)
    then show ?thesis using 1(1) [OF d refl refl False] r False xs(1) by simp
  qed
qed

lemma decode_block_ok: "decode_block mem pc = Inr b \<Longrightarrow> block_ok b \<and> blk_entry_pc b = pc"
  using decode_loop_ok by (fastforce simp: decode_block_def blk_empty_def)

end
