(* ===== verification/VpInterp.thy ===== *)
theory VpInterp
  imports VpDecoder "HOL-Library.Signed_Division"
begin

text \<open>
  The passes of \<open>crates/m68k-vp/src/passes.rs\<close> and the interpreter of \<open>interp.rs\<close>: register file, sized arithmetic with
  condition codes, bit fields, the execution of a block, the block cache and the run loop.
\<close>

section \<open>Passes\<close>

(* src/crates/m68k-vp/src/passes.rs:31-47 flag_liveness *)
fun liveness_op :: "vp_op \<Rightarrow> u8 \<Rightarrow> vp_op \<times> u8" where
  "liveness_op (Bne t f) needed = (Bne t f, F_Z)"
| "liveness_op (AluBinReg op d s sz fl) needed = (AluBinReg op d s sz (fl AND needed), F_NONE)"
| "liveness_op (AluImm op d v sz fl) needed = (AluImm op d v sz (fl AND needed), F_NONE)"
| "liveness_op (AluUnary op d sz fl) needed = (AluUnary op d sz (fl AND needed), F_NONE)"
| "liveness_op (Shift l a d n sz fl) needed = (Shift l a d n sz (fl AND needed), F_NONE)"
| "liveness_op op needed = (op, needed)"

text \<open>The backward scan: the rest of the block first, then this operation with what the rest needs.\<close>

fun liveness_scan :: "ir_instr list \<Rightarrow> ir_instr list \<times> u8" where
  "liveness_scan [] = ([], F_NONE)"
| "liveness_scan (i # is) =
     (let (is', needed) = liveness_scan is; (op, needed) = liveness_op (ii_op i) needed in (i\<lparr>ii_op := op\<rparr> # is', needed))"

(* src/crates/m68k-vp/src/passes.rs:27-49 flag_liveness *)
definition flag_liveness :: "ir_block \<Rightarrow> ir_block" where
  "flag_liveness b = b\<lparr>blk_instrs := fst (liveness_scan (blk_instrs b))\<rparr>"

(* src/crates/m68k-vp/src/passes.rs:66-75 peephole *)
fun peephole_op :: "vp_op \<Rightarrow> vp_op" where
  "peephole_op (Lea d (EaInd base)) = (if base = d then Nop else Lea d (EaInd base))"
| "peephole_op op = op"

(* src/crates/m68k-vp/src/passes.rs:64-76 peephole *)
definition peephole :: "ir_block \<Rightarrow> ir_block" where
  "peephole b = b\<lparr>blk_instrs := map (\<lambda>i. i\<lparr>ii_op := peephole_op (ii_op i)\<rparr>) (blk_instrs b)\<rparr>"

(* src/crates/m68k-vp/src/passes.rs:78-81 run_passes *)
definition run_passes :: "ir_block \<Rightarrow> ir_block" where
  "run_passes b = peephole (flag_liveness b)"

section \<open>Registers\<close>

(* src/crates/m68k-vp/src/interp.rs:98-108 VpCpu *)
record vp_cpu =
  cpu_d :: "u32 list"
  cpu_a :: "u32 list"
  cpu_pc :: u32
  cpu_flags :: u8

(* src/crates/m68k-vp/src/interp.rs:111-113 VpCpu::new *)
definition cpu_new :: vp_cpu where
  "cpu_new = \<lparr>cpu_d = replicate 8 0, cpu_a = replicate 8 0, cpu_pc = 0, cpu_flags = 0\<rparr>"

(* src/crates/m68k-vp/src/interp.rs:115-122 VpCpu::reg *)
definition cpu_reg :: "vp_cpu \<Rightarrow> vp_reg \<Rightarrow> u32" where
  "cpu_reg c idx = (if idx < 8 then cpu_d c ! unat idx else cpu_a c ! unat (idx - 8))"

(* src/crates/m68k-vp/src/interp.rs:124-131 VpCpu::set_reg *)
definition set_reg :: "vp_cpu \<Rightarrow> vp_reg \<Rightarrow> u32 \<Rightarrow> vp_cpu" where
  "set_reg c idx v = (if idx < 8 then c\<lparr>cpu_d := (cpu_d c)[unat idx := v]\<rparr> else c\<lparr>cpu_a := (cpu_a c)[unat (idx - 8) := v]\<rparr>)"

(* src/crates/m68k-vp/src/interp.rs:133-142 VpCpu::set_reg_sized *)
definition set_reg_sized :: "vp_cpu \<Rightarrow> vp_reg \<Rightarrow> u32 \<Rightarrow> vp_size \<Rightarrow> vp_cpu" where
  "set_reg_sized c idx v sz =
     (if idx < 8 then c\<lparr>cpu_d := (cpu_d c)[unat idx := (cpu_d c ! unat idx AND NOT (sz_mask sz)) OR (v AND sz_mask sz)]\<rparr>
      else c\<lparr>cpu_a := (cpu_a c)[unat (idx - 8) := v]\<rparr>)"

(* src/crates/m68k-vp/src/interp.rs:668-674 apply_flags *)
definition apply_flags :: "vp_cpu \<Rightarrow> u8 \<Rightarrow> u8 \<Rightarrow> vp_cpu" where
  "apply_flags c computed wanted = c\<lparr>cpu_flags := (cpu_flags c AND NOT wanted) OR (computed AND wanted)\<rparr>"

section \<open>Operands and arithmetic\<close>

(* src/crates/m68k-vp/src/interp.rs:211-227 resolve_ea *)
fun resolve_ea :: "vp_cpu \<Rightarrow> vp_ea \<Rightarrow> vp_size \<Rightarrow> vp_cpu \<times> u32" where
  "resolve_ea c (EaInd r) sz = (c, cpu_reg c r)"
| "resolve_ea c (EaPostInc r) sz = (let addr = cpu_reg c r in (set_reg c r (addr + sz_bytes sz), addr))"
| "resolve_ea c (EaPreDec r) sz = (let addr = cpu_reg c r - sz_bytes sz in (set_reg c r addr, addr))"
| "resolve_ea c (EaDisp r d) sz = (c, cpu_reg c r + scast d)"

(* src/crates/m68k-vp/src/interp.rs:229-236 read_sized *)
fun read_sized :: "vp_memory \<Rightarrow> u32 \<Rightarrow> vp_size \<Rightarrow> u32" where
  "read_sized m addr SzB = ucast (vm_read_u8 m addr)"
| "read_sized m addr SzW = ucast (vm_read_u16 m addr)"
| "read_sized m addr SzL = vm_read_u32 m addr"

(* src/crates/m68k-vp/src/interp.rs:238-245 write_sized *)
fun write_sized :: "vp_memory \<Rightarrow> u32 \<Rightarrow> u32 \<Rightarrow> vp_size \<Rightarrow> vp_memory" where
  "write_sized m addr v SzB = vm_write_u8 m addr (ucast v)"
| "write_sized m addr v SzW = vm_write_u16 m addr (ucast v)"
| "write_sized m addr v SzL = vm_write_u32 m addr v"

(* src/crates/m68k-vp/src/interp.rs:247-281 add_flags *)
definition add_flags :: "u32 \<Rightarrow> u32 \<Rightarrow> vp_size \<Rightarrow> u32 \<times> u8" where
  "add_flags a b sz =
     (let m = sz_mask sz; sign = sz_sign_bit sz; av = a AND m; bv = b AND m; sum = (ucast av :: u64) + ucast bv;
          result = ucast sum AND m; car = (sum > ucast m); a_s = (av AND sign \<noteq> 0); b_s = (bv AND sign \<noteq> 0);
          r_s = (result AND sign \<noteq> 0); overflow = (a_s = b_s \<and> r_s \<noteq> a_s);
          flags = (if r_s then F_N else 0) OR (if result = 0 then F_Z else 0) OR (if overflow then F_V else 0) OR
            (if car then F_C OR F_X else 0)
      in (result, flags))"

(* src/crates/m68k-vp/src/interp.rs:283-309 sub_flags *)
definition sub_flags :: "u32 \<Rightarrow> u32 \<Rightarrow> vp_size \<Rightarrow> u32 \<times> u8" where
  "sub_flags a b sz =
     (let m = sz_mask sz; sign = sz_sign_bit sz; av = a AND m; bv = b AND m; result = (av - bv) AND m; borrow = (av < bv);
          a_s = (av AND sign \<noteq> 0); b_s = (bv AND sign \<noteq> 0); r_s = (result AND sign \<noteq> 0); overflow = (a_s \<noteq> b_s \<and> r_s \<noteq> a_s);
          flags = (if r_s then F_N else 0) OR (if result = 0 then F_Z else 0) OR (if overflow then F_V else 0) OR
            (if borrow then F_C OR F_X else 0)
      in (result, flags))"

(* src/crates/m68k-vp/src/interp.rs:311-321 logic_flags *)
definition logic_flags :: "u32 \<Rightarrow> vp_size \<Rightarrow> u8" where
  "logic_flags result sz = (if result AND sz_sign_bit sz \<noteq> 0 then F_N else 0) OR (if result AND sz_mask sz = 0 then F_Z else 0)"

section \<open>Bit fields\<close>

text \<open>The geometry both directions compute: first byte, bytes touched, and the distance of the field from the low end.\<close>

definition bf_bytes :: "u8 \<Rightarrow> u8 \<Rightarrow> nat" where
  "bf_bytes offset width = (unat offset mod 8 + unat width + 7) div 8"

definition bf_shift :: "u8 \<Rightarrow> u8 \<Rightarrow> nat" where
  "bf_shift offset width = bf_bytes offset width * 8 - unat offset mod 8 - unat width"

definition bf_start :: "u32 \<Rightarrow> u8 \<Rightarrow> u32" where
  "bf_start base_addr offset = base_addr + ucast offset div 8"

(* src/crates/m68k-vp/src/interp.rs:328-331 bf_read *)
definition bf_gather :: "vp_memory \<Rightarrow> u32 \<Rightarrow> nat \<Rightarrow> u64" where
  "bf_gather m start n = fold (\<lambda>i value. push_bit 8 value OR ucast (vm_read_u8 m (start + of_nat i))) [0..<n] 0"

definition bf_mask :: "u8 \<Rightarrow> u64" where
  "bf_mask width = (if width = 32 then 0xFFFFFFFF else push_bit (unat width) 1 - 1)"

(* src/crates/m68k-vp/src/interp.rs:323-340 bf_read *)
definition bf_read :: "vp_memory \<Rightarrow> u32 \<Rightarrow> u8 \<Rightarrow> u8 \<Rightarrow> u32" where
  "bf_read m base_addr offset width =
     ucast (drop_bit (bf_shift offset width) (bf_gather m (bf_start base_addr offset) (bf_bytes offset width)) AND bf_mask width)"

(* src/crates/m68k-vp/src/interp.rs:360-363 bf_write *)
fun bf_scatter :: "vp_memory \<Rightarrow> u32 \<Rightarrow> nat \<Rightarrow> u64 \<Rightarrow> vp_memory" where
  "bf_scatter m start 0 buf = m"
| "bf_scatter m start (Suc i) buf = bf_scatter (vm_write_u8 m (start + of_nat i) (ucast (buf AND 0xFF))) start i (drop_bit 8 buf)"

(* src/crates/m68k-vp/src/interp.rs:342-364 bf_write *)
definition bf_write :: "vp_memory \<Rightarrow> u32 \<Rightarrow> u8 \<Rightarrow> u8 \<Rightarrow> u32 \<Rightarrow> vp_memory" where
  "bf_write m base_addr offset width v =
     (let start = bf_start base_addr offset; n = bf_bytes offset width; buf = bf_gather m start n; shift = bf_shift offset width;
          fm = push_bit shift (bf_mask width); buf = (buf AND NOT fm) OR (push_bit shift (ucast v) AND fm)
      in bf_scatter m start n buf)"


section \<open>Execution of an operation\<close>

(* src/crates/m68k-vp/src/interp.rs:420-449 execute_block *)
definition exec_alu_bin :: "vp_cpu \<Rightarrow> alu_bin \<Rightarrow> vp_reg \<Rightarrow> vp_reg \<Rightarrow> vp_size \<Rightarrow> u8 \<Rightarrow> vp_cpu" where
  "exec_alu_bin c op d s sz fl =
     (let a = cpu_reg c d; b = cpu_reg c s;
          (result, computed) = (case op of
              AluAdd \<Rightarrow> add_flags a b sz
            | AluSub \<Rightarrow> sub_flags a b sz
            | AluCmp \<Rightarrow> sub_flags a b sz
            | AluAnd \<Rightarrow> (let r = a AND b in (r, logic_flags r sz))
            | AluOr \<Rightarrow> (let r = a OR b in (r, logic_flags r sz))
            | AluEor \<Rightarrow> (let r = a XOR b in (r, logic_flags r sz)));
          c = (if op \<noteq> AluCmp then set_reg_sized c d result sz else c)
      in apply_flags c computed fl)"

(* src/crates/m68k-vp/src/interp.rs:450-466 execute_block *)
definition exec_alu_imm :: "vp_cpu \<Rightarrow> alu_bin \<Rightarrow> vp_reg \<Rightarrow> u32 \<Rightarrow> vp_size \<Rightarrow> u8 \<Rightarrow> vp_cpu vp_result" where
  "exec_alu_imm c op d imm sz fl =
     (let a = cpu_reg c d in
      vp_bind (case op of AluAdd \<Rightarrow> Inr (add_flags a imm sz) | AluSub \<Rightarrow> Inr (sub_flags a imm sz) | _ \<Rightarrow> Inl UnreachableOp)
        (\<lambda>(result, computed). Inr (apply_flags (set_reg_sized c d result sz) computed fl)))"

(* src/crates/m68k-vp/src/interp.rs:467-494 execute_block *)
definition exec_alu_unary :: "vp_cpu \<Rightarrow> alu_un \<Rightarrow> vp_reg \<Rightarrow> vp_size \<Rightarrow> u8 \<Rightarrow> vp_cpu" where
  "exec_alu_unary c op d sz fl =
     (let a = cpu_reg c d in
      case op of
        AluNot \<Rightarrow> (let r = NOT a AND sz_mask sz in apply_flags (set_reg_sized c d r sz) (logic_flags r sz) fl)
      | AluNeg \<Rightarrow> (let (result, computed) = sub_flags 0 a sz in apply_flags (set_reg_sized c d result sz) computed fl)
      | AluTst \<Rightarrow> apply_flags c (logic_flags a sz) fl
      | AluExtL \<Rightarrow> (let r = scast (ucast (a AND 0xFFFF) :: u16) in apply_flags (set_reg c d r) (logic_flags r SzL) fl))"

text \<open>The overflow probe of an arithmetic left shift: does any sign bit on the way differ from the final one?\<close>

(* src/crates/m68k-vp/src/interp.rs:519-530 execute_block *)
fun shift_overflow :: "vp_size \<Rightarrow> bool \<Rightarrow> u32 \<Rightarrow> nat \<Rightarrow> bool" where
  "shift_overflow sz final_sign probe 0 = False"
| "shift_overflow sz final_sign probe (Suc n) =
     ((probe AND sz_sign_bit sz \<noteq> 0) \<noteq> final_sign \<or> shift_overflow sz final_sign (push_bit 1 probe AND sz_mask sz) n)"

(* src/crates/m68k-vp/src/interp.rs:495-564 execute_block *)
definition exec_shift :: "vp_cpu \<Rightarrow> bool \<Rightarrow> bool \<Rightarrow> vp_reg \<Rightarrow> u8 \<Rightarrow> vp_size \<Rightarrow> u8 \<Rightarrow> vp_cpu" where
  "exec_shift c left arith d count sz fl =
     (let a = cpu_reg c d AND sz_mask sz; bits = unat (sz_bytes sz) * 8; n = unat count; sign = sz_sign_bit sz;
          (result, last_out, overflow) =
            (if left then
               (let result = (if n \<ge> bits then 0 else push_bit n a AND sz_mask sz);
                    last_out = (if n = 0 then False else if n \<le> bits then drop_bit (bits - n) a AND 1 \<noteq> 0 else False)
                in (result, last_out, arith \<and> shift_overflow sz (result AND sign \<noteq> 0) a (min n bits)))
             else
               (let result = (if n \<ge> bits then 0 else if arith then signed_drop_bit (min n 31) a AND sz_mask sz else drop_bit (min n 31) a);
                    last_out = (if n = 0 then False else if n \<le> bits then drop_bit (n - 1) a AND 1 \<noteq> 0 else False)
                in (result, last_out, False)));
          c = set_reg_sized c d result sz;
          computed = logic_flags result sz OR (if last_out then F_C OR F_X else 0) OR (if overflow then F_V else 0)
      in apply_flags c computed fl)"

text \<open>A signed operand is the integer its bits mean; \<open>checked_div\<close> refuses a zero divisor and the one quotient that does not fit.\<close>

(* src/crates/m68k-vp/src/interp.rs:565-613 execute_block *)
definition exec_mul_div :: "vp_cpu \<Rightarrow> mul_div \<Rightarrow> vp_reg \<Rightarrow> vp_reg \<Rightarrow> vp_cpu" where
  "exec_mul_div c op d s =
     (let a = cpu_reg c d; b = cpu_reg c s in
      case op of
        MulU \<Rightarrow> set_reg c d ((a AND 0xFFFF) * (b AND 0xFFFF))
      | MulS \<Rightarrow> set_reg c d (scast (ucast a :: u16) * scast (ucast b :: u16))
      | DivU \<Rightarrow> (let divisor = b AND 0xFFFF in
          if divisor = 0 then c
          else let q = a div divisor; r = a mod divisor in
            if q \<le> 0xFFFF then set_reg c d (push_bit 16 r OR (q AND 0xFFFF)) else c)
      | DivS \<Rightarrow> (let divisor = sint (ucast b :: u16); dividend = sint a in
          if divisor = 0 \<or> dividend = - (2 ^ 31) \<and> divisor = -1 then c
          else let q = dividend sdiv divisor; r = dividend smod divisor in
            if -32768 \<le> q \<and> q \<le> 32767
            then set_reg c d (push_bit 16 (ucast (word_of_int r :: u16)) OR ucast (word_of_int q :: u16)) else c))"

(* src/crates/m68k-vp/src/interp.rs:614-637 execute_block *)
definition exec_bitfield :: "vp_cpu \<Rightarrow> vp_memory \<Rightarrow> bf_op \<Rightarrow> vp_reg \<Rightarrow> vp_reg \<Rightarrow> u8 \<Rightarrow> u8 \<Rightarrow> vp_cpu \<times> vp_memory" where
  "exec_bitfield c m op base r offset width =
     (let base_addr = cpu_reg c base in
      case op of
        BfExtU \<Rightarrow> (set_reg c r (bf_read m base_addr offset width), m)
      | BfIns \<Rightarrow> (let field_mask = (if width = 32 then 0xFFFFFFFF else push_bit (unat width) 1 - 1)
          in (c, bf_write m base_addr offset width (cpu_reg c r AND field_mask))))"

(* src/crates/m68k-vp/src/interp.rs:391-408 execute_block *)
definition exec_move_mem :: "vp_cpu \<Rightarrow> vp_memory \<Rightarrow> vp_source \<Rightarrow> vp_ea \<Rightarrow> vp_size \<Rightarrow> vp_cpu \<times> vp_memory" where
  "exec_move_mem c m src dst sz =
     (let (c, v) = (case src of SrcEa ea \<Rightarrow> (let (c, addr) = resolve_ea c ea sz in (c, read_sized m addr sz))
                    | SrcReg r \<Rightarrow> (c, cpu_reg c r) | SrcImm v \<Rightarrow> (c, v));
          (c, addr) = resolve_ea c dst sz
      in (c, write_sized m addr v sz))"

(* src/crates/m68k-vp/src/interp.rs:409-419 execute_block *)
fun lea_addr :: "vp_cpu \<Rightarrow> vp_ea \<Rightarrow> u32" where
  "lea_addr c (EaInd r) = cpu_reg c r" | "lea_addr c (EaDisp r d) = cpu_reg c r + scast d"
| "lea_addr c (EaPostInc r) = cpu_reg c r" | "lea_addr c (EaPreDec r) = cpu_reg c r"

text \<open>An operation that does not end the block.\<close>

(* src/crates/m68k-vp/src/interp.rs:375-637 execute_block *)
fun exec_op :: "vp_op \<Rightarrow> vp_cpu \<Rightarrow> vp_memory \<Rightarrow> (vp_cpu \<times> vp_memory) vp_result" where
  "exec_op (MoveqImm d v) c m =
     Inr ((set_reg c d v)\<lparr>cpu_flags := (cpu_flags c AND NOT (F_N OR F_Z OR F_V OR F_C)) OR logic_flags v SzL\<rparr>, m)"
| "exec_op (RegMove d s) c m = Inr (set_reg c d (cpu_reg c s), m)"
| "exec_op (LoadReg d ea sz) c m = (let (c, addr) = resolve_ea c ea sz in Inr (set_reg_sized c d (read_sized m addr sz) sz, m))"
| "exec_op (MoveMem src ea sz) c m = Inr (exec_move_mem c m src ea sz)"
| "exec_op (Lea d ea) c m = Inr (set_reg c d (lea_addr c ea), m)"
| "exec_op (AluBinReg op d s sz fl) c m = Inr (exec_alu_bin c op d s sz fl, m)"
| "exec_op (AluImm op d v sz fl) c m = vp_bind (exec_alu_imm c op d v sz fl) (\<lambda>c. Inr (c, m))"
| "exec_op (AluUnary op d sz fl) c m = Inr (exec_alu_unary c op d sz fl, m)"
| "exec_op (Shift l a d n sz fl) c m = Inr (exec_shift c l a d n sz fl, m)"
| "exec_op (MulDivOp op d s) c m = Inr (exec_mul_div c op d s, m)"
| "exec_op (Bitfield op base r off w) c m = Inr (exec_bitfield c m op base r off w)"
| "exec_op op c m = Inr (c, m)"

section \<open>Execution of a block\<close>

(* src/crates/m68k-vp/src/interp.rs:638-644 execute_block *)
definition exec_bsr :: "vp_cpu \<Rightarrow> vp_memory \<Rightarrow> ir_instr \<Rightarrow> vp_cpu \<times> vp_memory" where
  "exec_bsr c m i = (let sp = cpu_a c ! 7 - 4 in (c\<lparr>cpu_a := (cpu_a c)[7 := sp]\<rparr>, vm_write_u32 m sp (ii_pc i + ucast (ii_len i))))"

text \<open>The loop over the block's operations; the accumulator is the retired count. Past the last operation the next PC is the entry.\<close>

(* src/crates/m68k-vp/src/interp.rs:370-665 execute_block *)
fun exec_instrs :: "ir_instr list \<Rightarrow> u32 \<Rightarrow> vp_cpu \<Rightarrow> vp_memory \<Rightarrow> u32 \<Rightarrow> (vp_cpu \<times> vp_memory \<times> u32 \<times> u32) vp_result" where
  "exec_instrs [] entry c m retired = Inr (c, m, retired, entry)"
| "exec_instrs (i # is) entry c m retired =
     (let retired = (if ii_retire i then retired + 1 else retired) in
      case ii_op i of
        Bsr target \<Rightarrow> (let (c, m) = exec_bsr c m i in Inr (c, m, retired, target))
      | Bne target fallthrough \<Rightarrow> Inr (c, m, retired, if cpu_flags c AND F_Z = 0 then target else fallthrough)
      | Rts \<Rightarrow> (let sp = cpu_a c ! 7; return_pc = vm_read_u32 m sp in Inr (c\<lparr>cpu_a := (cpu_a c)[7 := sp + 4]\<rparr>, m, retired, return_pc))
      | op \<Rightarrow> vp_bind (exec_op op c m) (\<lambda>(c, m). exec_instrs is entry c m retired))"

(* src/crates/m68k-vp/src/interp.rs:366-666 execute_block *)
definition execute_block :: "vp_cpu \<Rightarrow> vp_memory \<Rightarrow> ir_block \<Rightarrow> (vp_cpu \<times> vp_memory \<times> u32 \<times> u32) vp_result" where
  "execute_block c m b = exec_instrs (blk_instrs b) (blk_entry_pc b) c m 0"

section \<open>The block cache and the run loop\<close>

(* src/crates/m68k-vp/src/interp.rs:28-33 CACHE_SLOTS *)
definition CACHE_SLOTS :: nat where [simp]: "CACHE_SLOTS = 32"

(* src/crates/m68k-vp/src/interp.rs:35-40 CacheSlot *)
record cache_slot =
  slot_tag :: u32
  slot_valid :: bool
  slot_block :: ir_block

(* src/crates/m68k-vp/src/interp.rs:43-49 CacheSlot::empty *)
definition slot_empty :: cache_slot where
  "slot_empty = \<lparr>slot_tag = 0, slot_valid = False, slot_block = blk_empty\<rparr>"

(* src/crates/m68k-vp/src/interp.rs:52-54 BlockCache *)
type_synonym block_cache = "cache_slot list"

(* src/crates/m68k-vp/src/interp.rs:57-61 BlockCache::new *)
definition cache_new :: block_cache where
  "cache_new = replicate CACHE_SLOTS slot_empty"

(* src/crates/m68k-vp/src/interp.rs:63-66 BlockCache::slot_index *)
definition slot_index :: "u32 \<Rightarrow> nat" where
  "slot_index pc = unat (drop_bit 1 pc) mod CACHE_SLOTS"

(* src/crates/m68k-vp/src/interp.rs:68-76 BlockCache::flush *)
definition cache_flush :: "block_cache \<Rightarrow> block_cache" where
  "cache_flush cache = map (\<lambda>s. s\<lparr>slot_valid := False\<rparr>) cache"

(* src/crates/m68k-vp/src/interp.rs:78-89 BlockCache::get_or_decode *)
definition get_or_decode :: "block_cache \<Rightarrow> vp_memory \<Rightarrow> u32 \<Rightarrow> (block_cache \<times> ir_block) vp_result" where
  "get_or_decode cache mem pc =
     (let idx = slot_index pc; slot = cache ! idx in
      if \<not> slot_valid slot \<or> slot_tag slot \<noteq> pc then
        vp_bind (decode_block mem pc) (\<lambda>block.
          let block = run_passes block
          in Inr (cache[idx := \<lparr>slot_tag = pc, slot_valid = True, slot_block = block\<rparr>], block))
      else Inr (cache, slot_block slot))"

(* src/crates/m68k-vp/src/interp.rs:145-149 VpExit *)
datatype vp_exit = WatchedPc u32 | BudgetExhausted

(* src/crates/m68k-vp/src/interp.rs:151-155 VpRunResult *)
record vp_run_result =
  rr_instructions :: u32
  rr_exit :: vp_exit

(* src/crates/m68k-vp/src/interp.rs:157-160 VpCore *)
record vp_core =
  core_cpu :: vp_cpu
  core_cache :: block_cache

(* src/crates/m68k-vp/src/interp.rs:163-168 VpCore::new *)
definition core_new :: vp_core where
  "core_new = \<lparr>core_cpu = cpu_new, core_cache = cache_new\<rparr>"

(* src/crates/m68k-vp/src/interp.rs:170-172 VpCore::flush_cache *)
definition flush_cache :: "vp_core \<Rightarrow> vp_core" where
  "flush_cache core = core\<lparr>core_cache := cache_flush (core_cache core)\<rparr>"

text \<open>\<open>None\<close> is a run that does not end. A panic inside the loop is the left value.\<close>

(* src/crates/m68k-vp/src/interp.rs:184-201 VpCore::run *)
partial_function (option) run_loop :: "vp_core \<Rightarrow> vp_memory \<Rightarrow> u32 \<Rightarrow> u32 list \<Rightarrow> u32 \<Rightarrow>
    (vp_core \<times> vp_memory \<times> vp_run_result) vp_result option" where
  "run_loop core mem budget watch executed =
     (if cpu_pc (core_cpu core) \<in> set watch
      then Some (Inr (core, mem, \<lparr>rr_instructions = executed, rr_exit = WatchedPc (cpu_pc (core_cpu core))\<rparr>))
      else if executed \<ge> budget then Some (Inr (core, mem, \<lparr>rr_instructions = executed, rr_exit = BudgetExhausted\<rparr>))
      else case get_or_decode (core_cache core) mem (cpu_pc (core_cpu core)) of
          Inl e \<Rightarrow> Some (Inl e)
        | Inr (cache, block) \<Rightarrow>
            (case execute_block (core_cpu core) mem block of
               Inl e \<Rightarrow> Some (Inl e)
             | Inr (cpu, mem, retired, next_pc) \<Rightarrow>
                 run_loop \<lparr>core_cpu = cpu\<lparr>cpu_pc := next_pc\<rparr>, core_cache = cache\<rparr> mem budget watch (executed + retired)))"

(* src/crates/m68k-vp/src/interp.rs:174-202 VpCore::run *)
definition vp_run :: "vp_core \<Rightarrow> vp_memory \<Rightarrow> u32 \<Rightarrow> u32 list \<Rightarrow> (vp_core \<times> vp_memory \<times> vp_run_result) vp_result option" where
  "vp_run core mem instr_budget watch_pcs = run_loop core mem instr_budget watch_pcs 0"

end
