(* ===== verification/VpArith.thy ===== *)
theory VpArith
  imports VpInterp
begin

text \<open>
  The arithmetic of the translating core against what it stands for: sized addition and subtraction with condition codes as
  integer arithmetic, and bit fields as runs of single bits of memory.
\<close>

section \<open>Sized arithmetic\<close>

definition sz_bits :: "vp_size \<Rightarrow> nat" where
  "sz_bits sz = (case sz of SzB \<Rightarrow> 8 | SzW \<Rightarrow> 16 | SzL \<Rightarrow> 32)"

text \<open>The unsigned and the signed number in the low part of a register.\<close>

definition uval :: "vp_size \<Rightarrow> u32 \<Rightarrow> int" where
  "uval sz x = uint x mod 2 ^ sz_bits sz"

definition sval :: "vp_size \<Rightarrow> u32 \<Rightarrow> int" where
  "sval sz x = (let u = uval sz x in if u < 2 ^ (sz_bits sz - 1) then u else u - 2 ^ sz_bits sz)"

definition in_range :: "vp_size \<Rightarrow> int \<Rightarrow> bool" where
  "in_range sz i \<longleftrightarrow> - (2 ^ (sz_bits sz - 1)) \<le> i \<and> i < 2 ^ (sz_bits sz - 1)"

text \<open>N, Z, V and C in a flag byte; X follows C.\<close>

definition flags_are :: "u8 \<Rightarrow> bool \<Rightarrow> bool \<Rightarrow> bool \<Rightarrow> bool \<Rightarrow> bool" where
  "flags_are f n z v c \<longleftrightarrow> bit f 3 = n \<and> bit f 2 = z \<and> bit f 1 = v \<and> bit f 0 = c \<and> bit f 4 = c"

lemma flags_are_built:
  "flags_are ((if n then F_N else 0) OR (if z then F_Z else 0) OR (if v then F_V else 0) OR (if c then F_C OR F_X else 0)) n z v c"
  by (cases n; cases z; cases v; cases c) (simp_all add: flags_are_def bit_iff_odd_drop_bit)

lemma sz_mask_mask: "sz_mask sz = mask (sz_bits sz)"
  by (cases sz) (simp_all add: sz_bits_def mask_eq_exp_minus_1)

lemma uint_sz_mask: "uint (x AND sz_mask sz) = uval sz x"
proof -
  have "x AND mask (sz_bits sz) = take_bit (sz_bits sz) x" by (simp add: take_bit_eq_mask)
  then show ?thesis unfolding sz_mask_mask uval_def by (simp only: unsigned_take_bit_eq) (simp add: take_bit_eq_mod)
qed

lemma uval_bounds: "0 \<le> uval sz x" "uval sz x < 2 ^ sz_bits sz"
  by (simp_all add: uval_def)

lemma top_bit:
  fixes u :: int assumes "0 \<le> u" and "u < 2 ^ Suc n"
  shows "bit u n \<longleftrightarrow> \<not> u < 2 ^ n"
proof -
  have "u div 2 ^ n = (if u < 2 ^ n then 0 else 1)"
    using assms by (auto simp: div_pos_pos_trivial int_div_pos_eq [of u "2 ^ n" 1 "u - 2 ^ n"])
  then show ?thesis by (simp add: bit_iff_odd)
qed

lemma sz_bits_le: "0 < sz_bits sz" "sz_bits sz \<le> 32" "sz_bits sz - 1 < 32"
  by (cases sz; simp add: sz_bits_def)+

lemma sign_test: "y AND sz_sign_bit sz \<noteq> 0 \<longleftrightarrow> \<not> uint y < 2 ^ (sz_bits sz - 1)" if "uint y < 2 ^ sz_bits sz"
proof -
  have "sz_sign_bit sz = 2 ^ (sz_bits sz - 1)" by (cases sz) (simp_all add: sz_bits_def)
  then have "y AND sz_sign_bit sz \<noteq> 0 \<longleftrightarrow> bit y (sz_bits sz - 1)"
    using and_single_bit [of "sz_bits sz - 1" y] sz_bits_le [of sz] by simp
  also have "\<dots> \<longleftrightarrow> bit (uint y) (sz_bits sz - 1)" using sz_bits_le(3) [of sz] by (simp add: bit_uint_iff)
  also have "\<dots> \<longleftrightarrow> \<not> uint y < 2 ^ (sz_bits sz - 1)"
    using that by (intro top_bit) (auto simp: sz_bits_def split: vp_size.splits)
  finally show ?thesis .
qed

text \<open>The carry, borrow and overflow tests on the numbers themselves.\<close>

lemma overflow_add:
  fixes x y h :: int assumes "0 \<le> x" "x < 2 * h" "0 \<le> y" "y < 2 * h"
  defines "r \<equiv> (x + y) mod (2 * h)"
  shows "((\<not> x < h) = (\<not> y < h) \<and> (\<not> r < h) \<noteq> (\<not> x < h)) \<longleftrightarrow>
    \<not> (- h \<le> (if x < h then x else x - 2 * h) + (if y < h then y else y - 2 * h) \<and> (if x < h then x else x - 2 * h) + (if y < h then y else y - 2 * h) < h)"
proof -
  have "r = (if x + y < 2 * h then x + y else x + y - 2 * h)"
    using assms(1-4) int_mod_pos_eq [of "x + y" "2 * h" 1 "x + y - 2 * h"] unfolding r_def by (auto simp: mod_pos_pos_trivial)
  then show ?thesis using assms(1-4) by auto
qed

lemma overflow_sub:
  fixes x y h :: int assumes "0 \<le> x" "x < 2 * h" "0 \<le> y" "y < 2 * h"
  defines "r \<equiv> (x - y) mod (2 * h)"
  shows "((\<not> x < h) \<noteq> (\<not> y < h) \<and> (\<not> r < h) \<noteq> (\<not> x < h)) \<longleftrightarrow>
    \<not> (- h \<le> (if x < h then x else x - 2 * h) - (if y < h then y else y - 2 * h) \<and> (if x < h then x else x - 2 * h) - (if y < h then y else y - 2 * h) < h)"
proof -
  have "r = (if x \<ge> y then x - y else x - y + 2 * h)"
    using assms(1-4) int_mod_pos_eq [of "x - y" "2 * h" "-1" "x - y + 2 * h"] unfolding r_def by (auto simp: mod_pos_pos_trivial)
  then show ?thesis using assms(1-4) by auto
qed

lemma sz_double: "(2 :: int) ^ sz_bits sz = 2 * 2 ^ (sz_bits sz - 1)"
  by (cases sz) (simp_all add: sz_bits_def)

lemma sz_dvd: "(2 :: int) ^ sz_bits sz dvd 2 ^ 32"
  by (rule le_imp_power_dvd) (rule sz_bits_le)

lemma uval_small: "uval sz x < 2 ^ 32"
  using uval_bounds(2) [of sz x] power_increasing [OF sz_bits_le(2) [of sz], of "2 :: int"] by linarith

lemma wide_sum: "uint ((ucast (a AND sz_mask sz) :: u64) + ucast (b AND sz_mask sz)) = uval sz a + uval sz b"
  using uval_bounds(1) [of sz a] uval_bounds(1) [of sz b] uval_small [of sz a] uval_small [of sz b]
  by (simp add: uint_word_ariths uint_up_ucast is_up uint_sz_mask mod_pos_pos_trivial)

lemma add_result: "uint (fst (add_flags a b sz)) = (uval sz a + uval sz b) mod 2 ^ sz_bits sz"
proof -
  let ?s = "(ucast (a AND sz_mask sz) :: u64) + ucast (b AND sz_mask sz)"
  have "uval sz (ucast ?s) = (uval sz a + uval sz b) mod 2 ^ sz_bits sz"
    using sz_dvd [of sz] wide_sum [of a sz b] by (simp only: uval_def unsigned_ucast_eq) (simp add: take_bit_eq_mod mod_mod_cancel uval_def)
  then show ?thesis by (simp add: add_flags_def Let_def uint_sz_mask)
qed

lemma sub_result: "uint (fst (sub_flags a b sz)) = (uval sz a - uval sz b) mod 2 ^ sz_bits sz"
proof -
  have "uval sz ((a AND sz_mask sz) - (b AND sz_mask sz)) = (uval sz a - uval sz b) mod 2 ^ sz_bits sz"
    unfolding uval_def [of sz "_ - _"] uint_word_ariths uint_sz_mask using sz_dvd [of sz] by (simp add: mod_mod_cancel)
  then show ?thesis by (simp add: sub_flags_def Let_def uint_sz_mask)
qed

lemma signed_of: "sval sz x = (if uval sz x < 2 ^ (sz_bits sz - 1) then uval sz x else uval sz x - 2 * 2 ^ (sz_bits sz - 1))"
  using sz_double [of sz] by (simp add: sval_def Let_def)

lemma sign_masked: "(x AND sz_mask sz) AND sz_sign_bit sz \<noteq> 0 \<longleftrightarrow> \<not> uval sz x < 2 ^ (sz_bits sz - 1)"
  using sign_test [of "x AND sz_mask sz" sz] uval_bounds(2) [of sz x] by (simp only: uint_sz_mask)

lemma negative: "sval sz r < 0 \<longleftrightarrow> \<not> uval sz r < 2 ^ (sz_bits sz - 1)"
  using uval_bounds [of sz r] sz_double [of sz] by (auto simp: signed_of)

lemma add_codes:
  "flags_are (snd (add_flags a b sz)) (sval sz (fst (add_flags a b sz)) < 0) ((uval sz a + uval sz b) mod 2 ^ sz_bits sz = 0)
     (\<not> in_range sz (sval sz a + sval sz b)) (uval sz a + uval sz b \<ge> 2 ^ sz_bits sz)"
proof -
  let ?sum = "(ucast (a AND sz_mask sz) :: u64) + ucast (b AND sz_mask sz)"
  let ?r = "ucast ?sum AND sz_mask sz :: u32" and ?h = "2 ^ (sz_bits sz - 1) :: int"
  have r: "fst (add_flags a b sz) = ?r" by (simp add: add_flags_def Let_def)
  have u: "uint ?r = (uval sz a + uval sz b) mod 2 ^ sz_bits sz" using add_result [of a b sz] unfolding r .
  then have v: "uval sz ?r = (uval sz a + uval sz b) mod 2 ^ sz_bits sz" by (simp add: uval_def)
  have rs: "?r AND sz_sign_bit sz \<noteq> 0 \<longleftrightarrow> \<not> (uval sz a + uval sz b) mod (2 * ?h) < ?h"
    using sign_test [of ?r sz] u sz_double [of sz] by simp
  have z: "?r = 0 \<longleftrightarrow> (uval sz a + uval sz b) mod 2 ^ sz_bits sz = 0" using u by (metis uint_0_iff)
  have m: "uint (ucast (sz_mask sz) :: u64) = 2 ^ sz_bits sz - 1" by (cases sz) (simp_all add: sz_bits_def)
  have c: "?sum > ucast (sz_mask sz) \<longleftrightarrow> uval sz a + uval sz b \<ge> 2 ^ sz_bits sz" unfolding word_less_def wide_sum m by auto
  have ov: "(((a AND sz_mask sz) AND sz_sign_bit sz \<noteq> 0) = ((b AND sz_mask sz) AND sz_sign_bit sz \<noteq> 0) \<and>
      (?r AND sz_sign_bit sz \<noteq> 0) \<noteq> ((a AND sz_mask sz) AND sz_sign_bit sz \<noteq> 0)) \<longleftrightarrow> \<not> in_range sz (sval sz a + sval sz b)"
    unfolding rs sign_masked [of a] sign_masked [of b] in_range_def signed_of
    by (rule overflow_add) (use uval_bounds [of sz a] uval_bounds [of sz b] sz_double [of sz] in simp_all)
  have n: "sval sz ?r < 0 \<longleftrightarrow> ?r AND sz_sign_bit sz \<noteq> 0" unfolding negative v sz_double rs ..
  have "flags_are (snd (add_flags a b sz)) (?r AND sz_sign_bit sz \<noteq> 0) (?r = 0) (((a AND sz_mask sz) AND sz_sign_bit sz \<noteq> 0) =
      ((b AND sz_mask sz) AND sz_sign_bit sz \<noteq> 0) \<and> (?r AND sz_sign_bit sz \<noteq> 0) \<noteq> ((a AND sz_mask sz) AND sz_sign_bit sz \<noteq> 0))
      (?sum > ucast (sz_mask sz))" unfolding add_flags_def Let_def snd_conv by (rule flags_are_built)
  then show ?thesis unfolding r n ov c z .
qed

lemma sub_codes:
  "flags_are (snd (sub_flags a b sz)) (sval sz (fst (sub_flags a b sz)) < 0) (uval sz a = uval sz b)
     (\<not> in_range sz (sval sz a - sval sz b)) (uval sz a < uval sz b)"
proof -
  let ?r = "((a AND sz_mask sz) - (b AND sz_mask sz)) AND sz_mask sz :: u32" and ?h = "2 ^ (sz_bits sz - 1) :: int"
  have r: "fst (sub_flags a b sz) = ?r" by (simp add: sub_flags_def Let_def)
  have u: "uint ?r = (uval sz a - uval sz b) mod 2 ^ sz_bits sz" using sub_result [of a b sz] unfolding r .
  then have v: "uval sz ?r = (uval sz a - uval sz b) mod 2 ^ sz_bits sz" by (simp add: uval_def)
  have rs: "?r AND sz_sign_bit sz \<noteq> 0 \<longleftrightarrow> \<not> (uval sz a - uval sz b) mod (2 * ?h) < ?h"
    using sign_test [of ?r sz] u sz_double [of sz] by simp
  have "(uval sz a - uval sz b) mod 2 ^ sz_bits sz = 0 \<longleftrightarrow> uval sz a = uval sz b"
    using uval_bounds [of sz a] uval_bounds [of sz b] by (simp add: mod_eq_0_iff_dvd mod_eq_dvd_iff [symmetric])
  then have z: "?r = 0 \<longleftrightarrow> uval sz a = uval sz b" using u by (metis uint_0_iff)
  have c: "(a AND sz_mask sz) < (b AND sz_mask sz) \<longleftrightarrow> uval sz a < uval sz b" unfolding word_less_def uint_sz_mask ..
  have ov: "(((a AND sz_mask sz) AND sz_sign_bit sz \<noteq> 0) \<noteq> ((b AND sz_mask sz) AND sz_sign_bit sz \<noteq> 0) \<and>
      (?r AND sz_sign_bit sz \<noteq> 0) \<noteq> ((a AND sz_mask sz) AND sz_sign_bit sz \<noteq> 0)) \<longleftrightarrow> \<not> in_range sz (sval sz a - sval sz b)"
    unfolding rs sign_masked [of a] sign_masked [of b] in_range_def signed_of
    by (rule overflow_sub) (use uval_bounds [of sz a] uval_bounds [of sz b] sz_double [of sz] in simp_all)
  have n: "sval sz ?r < 0 \<longleftrightarrow> ?r AND sz_sign_bit sz \<noteq> 0" unfolding negative v sz_double rs ..
  have "flags_are (snd (sub_flags a b sz)) (?r AND sz_sign_bit sz \<noteq> 0) (?r = 0) (((a AND sz_mask sz) AND sz_sign_bit sz \<noteq> 0) \<noteq>
      ((b AND sz_mask sz) AND sz_sign_bit sz \<noteq> 0) \<and> (?r AND sz_sign_bit sz \<noteq> 0) \<noteq> ((a AND sz_mask sz) AND sz_sign_bit sz \<noteq> 0))
      ((a AND sz_mask sz) < (b AND sz_mask sz))" unfolding sub_flags_def Let_def snd_conv by (rule flags_are_built)
  then show ?thesis unfolding r n ov c z .
qed

text \<open>Sized \<open>add\<close> and \<open>sub\<close>/\<open>cmp\<close> compute the result modulo the operand size with no bit above it, and set the condition codes
  by the numbers: N the result's sign, Z a zero result, V a signed result out of range, C and X the carry or the borrow.\<close>

lemma vp_add_sub_flags:
  "uint (fst (add_flags a b sz)) = (uval sz a + uval sz b) mod 2 ^ sz_bits sz
   \<and> flags_are (snd (add_flags a b sz)) (sval sz (fst (add_flags a b sz)) < 0) ((uval sz a + uval sz b) mod 2 ^ sz_bits sz = 0)
       (\<not> in_range sz (sval sz a + sval sz b)) (uval sz a + uval sz b \<ge> 2 ^ sz_bits sz)
   \<and> uint (fst (sub_flags a b sz)) = (uval sz a - uval sz b) mod 2 ^ sz_bits sz
   \<and> flags_are (snd (sub_flags a b sz)) (sval sz (fst (sub_flags a b sz)) < 0) (uval sz a = uval sz b)
       (\<not> in_range sz (sval sz a - sval sz b)) (uval sz a < uval sz b)"
  by (simp add: add_result sub_result add_codes sub_codes)

section \<open>Bit fields\<close>

text \<open>Bit \<open>k\<close> of memory counted from the most significant bit of the byte at \<open>base\<close>.\<close>

definition mem_bit :: "vp_memory \<Rightarrow> u32 \<Rightarrow> nat \<Rightarrow> bool" where
  "mem_bit m base k = bit (vm_read_u8 m (base + of_nat (k div 8))) (7 - k mod 8)"

lemma gather_Suc: "bf_gather m start (Suc n) = push_bit 8 (bf_gather m start n) OR ucast (vm_read_u8 m (start + of_nat n))"
  by (simp add: bf_gather_def)

lemma gather_bit:
  assumes "n \<le> 8"
  shows "bit (bf_gather m start n) i \<longleftrightarrow> i < 8 * n \<and> bit (vm_read_u8 m (start + of_nat (n - 1 - i div 8))) (i mod 8)"
  using assms
proof (induction n arbitrary: i)
  case 0
  then show ?case by (simp add: bf_gather_def)
next
  case (Suc n)
  show ?case
  proof (cases "i < 8")
    case True
    then show ?thesis by (simp add: gather_Suc bit_or_iff bit_push_bit_iff bit_ucast_iff)
  next
    case False
    then have e: "(i - 8) div 8 = i div 8 - 1" "(i - 8) mod 8 = i mod 8" by (simp_all add: le_div_geq le_mod_geq)
    have "\<not> bit (vm_read_u8 m (start + of_nat n)) i" using False bit_imp_le_length [of "vm_read_u8 m (start + of_nat n)" i] by auto
    moreover have "n - Suc 0 - (i div 8 - 1) = n - i div 8" using False by (simp add: Suc_leI div_greater_zero_iff)
    ultimately show ?thesis using False Suc.prems Suc.IH [of "i - 8"]
      by (auto simp: gather_Suc bit_or_iff bit_push_bit_iff bit_ucast_iff e)
  qed
qed

lemma scatter_shape [simp]: "vm_mask (bf_scatter m start n buf) = vm_mask m" "length (vm_buf (bf_scatter m start n buf)) = length (vm_buf m)"
  by (induction n arbitrary: m buf) (simp_all add: vm_write_u8_def)

lemma scatter_keeps [simp]: "vm_ok (bf_scatter m start n buf) = vm_ok m" "vm_idx (bf_scatter m start n buf) b = vm_idx m b"
  by (simp_all add: vm_ok_def vm_idx_def)

lemma scatter_other:
  "vm_ok m \<Longrightarrow> (\<And>j. j < n \<Longrightarrow> vm_idx m b \<noteq> vm_idx m (start + of_nat j)) \<Longrightarrow> vm_read_u8 (bf_scatter m start n buf) b = vm_read_u8 m b"
  by (induction n arbitrary: m buf) (simp_all add: vm_read_write)

lemma scatter_at:
  assumes "vm_ok m" and "inj_on (\<lambda>j. vm_idx m (start + of_nat j)) {..<n}" and "j < n"
  shows "vm_read_u8 (bf_scatter m start n buf) (start + of_nat j) = ucast (drop_bit (8 * (n - 1 - j)) buf)"
  using assms
proof (induction n arbitrary: m buf)
  case (Suc n)
  let ?m = "vm_write_u8 m (start + of_nat n) (ucast (buf AND 0xFF))"
  have d: "vm_idx m (start + of_nat n) \<noteq> vm_idx m (start + of_nat i)" if "i < n" for i
    using inj_onD [OF Suc.prems(2), of n i] that by auto
  show ?case
  proof (cases "j = n")
    case True
    have "buf AND 0xFF = take_bit 8 buf" by (simp add: take_bit_eq_mask mask_eq_exp_minus_1)
    then have "(ucast (buf AND 0xFF) :: u8) = ucast buf" by (intro bit_word_eqI) (simp add: bit_ucast_iff bit_take_bit_iff)
    then show ?thesis using True Suc.prems(1) d by (simp add: scatter_other vm_read_write)
  next
    case False
    have "inj_on (\<lambda>j. vm_idx ?m (start + of_nat j)) {..<n}" using Suc.prems(2) by (auto simp: inj_on_def)
    then have "vm_read_u8 (bf_scatter ?m start n (drop_bit 8 buf)) (start + of_nat j) = ucast (drop_bit (8 * (n - 1 - j)) (drop_bit 8 buf))"
      using Suc.IH [of ?m] Suc.prems False by simp
    moreover have "8 * (n - 1 - j) + 8 = 8 * (Suc n - 1 - j)" using False Suc.prems(3) by simp
    ultimately show ?thesis by (simp add: drop_bit_drop_bit)
  qed
qed simp

text \<open>Nearby addresses are different bytes.\<close>

lemma idx_offset: "vm_ok m \<Longrightarrow> vm_idx m (start + of_nat j) = (unat start + j) mod length (vm_buf m)"
proof -
  assume ok: "vm_ok m"
  then obtain k where k: "k < 32" "length (vm_buf m) = 2 ^ k" by (auto simp: vm_ok_def)
  have "(2 :: nat) ^ k dvd 2 ^ 32" using k(1) by (intro le_imp_power_dvd) simp
  then show ?thesis unfolding vm_idx_mod [OF ok] k(2)
    by (simp add: unat_word_ariths unat_of_nat mod_mod_cancel mod_simps)
qed

lemma idx_distinct:
  assumes "vm_ok m" and "i < length (vm_buf m)" and "j < length (vm_buf m)"
  shows "vm_idx m (start + of_nat i) = vm_idx m (start + of_nat j) \<longleftrightarrow> i = j"
proof -
  have "i = j" if "(unat start + i) mod length (vm_buf m) = (unat start + j) mod length (vm_buf m)"
  proof -
    have "i mod length (vm_buf m) = j mod length (vm_buf m)" using that unfolding nat_mod_eq_iff by simp
    then show ?thesis using assms(2,3) by simp
  qed
  then show ?thesis by (auto simp: idx_offset [OF assms(1)])
qed

text \<open>The field in the gathered word.\<close>

lemma field_geometry:
  assumes "offset < 32" and "0 < width" and "width \<le> 32"
  shows "bf_bytes offset width \<le> 5" "bf_shift offset width + unat width + unat offset mod 8 = 8 * bf_bytes offset width" "unat offset < 32" "0 < unat width" "unat width \<le> 32"
proof -
  show b: "unat offset < 32" "0 < unat width" "unat width \<le> 32" using assms by (simp_all add: word_less_nat_alt word_le_nat_alt)
  have "unat offset mod 8 + unat width + 7 < 48" using b(3) mod_less_divisor [of 8 "unat offset"] by linarith
  then show "bf_bytes offset width \<le> 5" by (simp add: bf_bytes_def)
  have "unat offset mod 8 + unat width \<le> 8 * bf_bytes offset width" unfolding bf_bytes_def by linarith
  then show "bf_shift offset width + unat width + unat offset mod 8 = 8 * bf_bytes offset width" unfolding bf_shift_def by linarith
qed

lemma bf_mask_bit: "width \<le> 32 \<Longrightarrow> bit (bf_mask width) i \<longleftrightarrow> i < unat width"
proof -
  assume w: "width \<le> 32"
  have "bf_mask width = mask (unat width)"
    by (auto simp: bf_mask_def mask_eq_exp_minus_1 push_bit_eq_mult)
  then show ?thesis using w by (auto simp: bit_mask_iff word_le_nat_alt)
qed

lemma start_bit: "(base + ucast offset div 8) + of_nat j = base + of_nat (unat offset div 8 + j)" for base :: u32 and offset :: u8
proof -
  have "unat offset < 2 ^ 8" using unsigned_less [of offset] by simp
  then have "(ucast offset :: u32) div 8 = of_nat (unat offset div 8)"
    by (intro word_unat_eq_iff [THEN iffD2]) (simp add: unat_div unat_of_nat unat_ucast_mod)
  then show ?thesis by simp
qed

lemma start_mem_bit: "mem_bit m (bf_start base offset) t = mem_bit m base (8 * (unat offset div 8) + t)"
  unfolding mem_bit_def bf_start_def start_bit by simp

lemma mirror:
  fixes p n :: nat assumes "p < 8 * n"
  shows "8 * n - 1 - p = 8 * (n - 1 - p div 8) + (7 - p mod 8)" "(8 * n - 1 - p) div 8 = n - 1 - p div 8" "7 - (8 * n - 1 - p) mod 8 = p mod 8"
proof -
  define q r where p: "q = p div 8" "r = p mod 8"
  have q: "p = 8 * q + r" "r < 8" by (simp_all add: p)
  then have "q < n" using assms by linarith
  then obtain e where e: "n = q + 1 + e" by (metis less_iff_Suc_add add.commute add_Suc Suc_eq_plus1)
  then have x: "8 * n - 1 - p = 8 * e + (7 - r)" using q by simp
  then show "8 * n - 1 - p = 8 * (n - 1 - p div 8) + (7 - p mod 8)" using e by (simp add: p)
  have "7 - r < 8" by simp
  then have "(8 * e + (7 - r)) div 8 = e" "(8 * e + (7 - r)) mod 8 = 7 - r" by simp_all
  moreover have "n - 1 - q = e" "7 - (7 - r) = r" using e q(2) by linarith+
  ultimately show "(8 * n - 1 - p) div 8 = n - 1 - p div 8" "7 - (8 * n - 1 - p) mod 8 = p mod 8" unfolding x p(1) [symmetric] p(2) [symmetric] by simp_all
qed

lemma gather_mem_bit: "n \<le> 8 \<Longrightarrow> bit (bf_gather m start n) p \<longleftrightarrow> p < 8 * n \<and> mem_bit m start (8 * n - 1 - p)"
  using gather_bit [of n m start p] mirror(2,3) [of p n] by (auto simp: mem_bit_def)

lemma field_read:
  assumes g: "offset < 32" "0 < width" "width \<le> 32"
  shows "bit (bf_read m base offset width) i \<longleftrightarrow> i < unat width \<and> mem_bit m base (unat offset + unat width - 1 - i)"
proof -
  note geo = field_geometry [OF g]
  have p: "8 * (unat offset div 8) + (8 * bf_bytes offset width - 1 - (bf_shift offset width + i)) = unat offset + unat width - 1 - i" if "i < unat width"
    using geo(2) that mult_div_mod_eq [of 8 "unat offset"] by linarith
  show ?thesis using geo p unfolding bf_read_def
    by (auto simp: bit_ucast_iff bit_and_iff bit_drop_bit_eq bf_mask_bit g(3) gather_mem_bit start_mem_bit)
qed

lemma scatter_mem_bit:
  assumes "vm_ok m" and "n \<le> 8" "8 \<le> length (vm_buf m)" and "t < 8 * length (vm_buf m)"
  shows "mem_bit (bf_scatter m start n buf) start t \<longleftrightarrow> (if t < 8 * n then bit buf (8 * n - 1 - t) else mem_bit m start t)"
proof (cases "t < 8 * n")
  case True
  have inj: "inj_on (\<lambda>j. vm_idx m (start + of_nat j)) {..<n}" using assms(2,3) by (auto simp: inj_on_def idx_distinct [OF assms(1)])
  have "t div 8 < n" using True by (simp add: less_mult_imp_div_less mult.commute)
  from scatter_at [OF assms(1) inj this] have "mem_bit (bf_scatter m start n buf) start t \<longleftrightarrow> bit buf (8 * (n - 1 - t div 8) + (7 - t mod 8))"
    unfolding mem_bit_def using less_imp_diff_less [of 7 8 "t mod 8"] by (simp add: bit_ucast_iff bit_drop_bit_eq)
  then show ?thesis unfolding mirror(1) [OF True, symmetric] using True by (simp only: if_True)
next
  case False
  have "vm_idx m (start + of_nat (t div 8)) \<noteq> vm_idx m (start + of_nat j)" if "j < n" for j
    using False that assms(2-4) by (subst idx_distinct [OF assms(1)]) auto
  then show ?thesis using False scatter_other [OF assms(1)] by (simp add: mem_bit_def)
qed

lemma field_merged:
  fixes buf :: u64 assumes "width \<le> 32" and "shift + unat width \<le> 64"
  shows "bit ((buf AND NOT (push_bit shift (bf_mask width))) OR (push_bit shift (ucast (v :: u32)) AND push_bit shift (bf_mask width))) p \<longleftrightarrow>
    (if shift \<le> p \<and> p < shift + unat width then bit v (p - shift) else bit buf p)"
proof -
  have "p < 64" if "bit buf p" using bit_imp_le_length [OF that] by simp
  moreover have "unat width \<le> 32" using assms(1) by (simp add: word_le_nat_alt)
  moreover have "p - shift < 32" if "bit v (p - shift)" using bit_imp_le_length [OF that] by simp
  ultimately show ?thesis using assms(2)
    by (auto simp: bit_or_iff bit_and_iff bit_not_iff bit_push_bit_iff bf_mask_bit [OF assms(1)] bit_ucast_iff)
qed

lemma field_written:
  assumes g: "offset < 32" "0 < width" "width \<le> 32" and m: "vm_ok m" "8 \<le> length (vm_buf m)" and k: "k < 8 * length (vm_buf m)"
  shows "mem_bit (bf_write m base offset width v) base k \<longleftrightarrow>
    (if unat offset \<le> k \<and> k < unat offset + unat width then bit v (unat offset + unat width - 1 - k) else mem_bit m base k)"
proof -
  note geo = field_geometry [OF g]
  let ?q = "unat offset div 8" and ?n = "bf_bytes offset width" and ?S = "bf_start base offset"
  obtain buf where w: "bf_write m base offset width v = bf_scatter m ?S ?n buf" and b: "\<And>p. bit buf p \<longleftrightarrow>
      (if bf_shift offset width \<le> p \<and> p < bf_shift offset width + unat width then bit v (p - bf_shift offset width) else bit (bf_gather m ?S ?n) p)"
    using field_merged [OF g(3), of "bf_shift offset width"] geo(1,2) unfolding bf_write_def Let_def by fastforce
  show ?thesis
  proof (cases "k < 8 * ?q")
    case True
    have "vm_idx m (base + of_nat (k div 8)) \<noteq> vm_idx m (?S + of_nat j)" if "j < ?n" for j
      unfolding bf_start_def start_bit using True that geo(1,3) m(2) k by (subst idx_distinct [OF m(1)]) auto
    then have "mem_bit (bf_scatter m ?S ?n buf) base k = mem_bit m base k" by (simp add: mem_bit_def scatter_other [OF m(1)])
    moreover have "\<not> unat offset \<le> k" using True by linarith
    ultimately show ?thesis by (simp add: w)
  next
    case False
    define t where "t = k - 8 * ?q"
    have kt: "k = 8 * ?q + t" using False by (simp add: t_def)
    have off: "unat offset = 8 * ?q + unat offset mod 8" by simp
    have e: "mem_bit (bf_scatter m ?S ?n buf) base k \<longleftrightarrow> (if t < 8 * ?n then bit buf (8 * ?n - 1 - t) else mem_bit m base k)"
      using scatter_mem_bit [OF m(1) _ m(2), of ?n t ?S buf] geo(1) k unfolding kt start_mem_bit by simp
    show ?thesis
    proof (cases "t < 8 * ?n")
      case True
      have "bit (bf_gather m ?S ?n) (8 * ?n - 1 - t) = mem_bit m base k"
        using gather_mem_bit [of ?n m ?S "8 * ?n - 1 - t"] geo(1) True unfolding kt start_mem_bit by simp
      moreover have "bf_shift offset width \<le> 8 * ?n - 1 - t \<and> 8 * ?n - 1 - t < bf_shift offset width + unat width \<longleftrightarrow>
          unat offset \<le> k \<and> k < unat offset + unat width" using geo(2) True off kt by linarith
      moreover have "8 * ?n - 1 - t - bf_shift offset width = unat offset + unat width - 1 - k" using geo(2) True off kt by linarith
      ultimately show ?thesis using e b [of "8 * ?n - 1 - t"] True by (simp add: w)
    next
      case False
      then have "\<not> k < unat offset + unat width" using geo(2) off kt by linarith
      then show ?thesis using e False by (simp add: w)
    qed
  qed
qed

text \<open>C37 [roundtrip]: \<open>bfins\<close> writes the field and nothing else, at every offset and width the decoder lets through: counting bits from the base byte's
  most significant one, the field's bits become the value's low bits and every other bit of memory keeps its value; and
  \<open>bfextu\<close> at the same place then returns the low \<open>width\<close> bits of the value.\<close>

theorem vp_bitfield_round_trip:
  assumes "offset < 32" and "0 < width" and "width \<le> 32" and "vm_ok m" and "8 \<le> length (vm_buf m)"
  shows "bf_read (bf_write m base offset width v) base offset width = take_bit (unat width) v
    \<and> (\<forall>k < 8 * length (vm_buf m). mem_bit (bf_write m base offset width v) base k =
         (if unat offset \<le> k \<and> k < unat offset + unat width then bit v (unat offset + unat width - 1 - k) else mem_bit m base k))"
proof -
  note geo = field_geometry [OF assms(1-3)]
  have "unat offset + unat width - 1 - i < 8 * length (vm_buf m)" for i using geo(3,5) assms(5) by linarith
  then have "bit (bf_read (bf_write m base offset width v) base offset width) i \<longleftrightarrow> bit (take_bit (unat width) v) i" for i
    using geo by (auto simp: field_read [OF assms(1-3)] field_written [OF assms] bit_take_bit_iff)
  then show ?thesis using field_written [OF assms] by (auto intro: bit_word_eqI)
qed

theorem vp_bitfield_round_trip_witness:
  "let m = \<lparr>vm_buf = replicate 8 0xFF, vm_mask = 7\<rparr> in bf_read (bf_write m 2 5 14 0x1234) 2 5 14 = take_bit (unat (14 :: u8)) 0x1234
    \<and> (\<forall>k < 8 * length (vm_buf m). mem_bit (bf_write m 2 5 14 0x1234) 2 k =
         (if unat (5 :: u8) \<le> k \<and> k < unat (5 :: u8) + unat (14 :: u8) then bit (0x1234 :: u32) (unat (5 :: u8) + unat (14 :: u8) - 1 - k) else mem_bit m 2 k))"
proof -
  have "vm_ok \<lparr>vm_buf = replicate 8 0xFF, vm_mask = 7\<rparr>" unfolding vm_ok_def by (rule exI [of _ 3]) (simp add: mask_eq_exp_minus_1)
  then show ?thesis using vp_bitfield_round_trip [of 5 14 "\<lparr>vm_buf = replicate 8 0xFF, vm_mask = 7\<rparr>" 2 "0x1234"] by (simp add: Let_def)
qed

end
