(* ===== verification/VpProofs.thy ===== *)
theory VpProofs
  imports VpInterp
begin

text \<open>
  Correctness of the translating core: decoded blocks execute without panicking, the two passes change nothing but dead
  flags, the cached and optimised run agrees with decoding and executing every block afresh, the run loop ends, and
  sized arithmetic and bit fields mean what the 68k manual says.
\<close>

section \<open>Flags and the rest of the state\<close>

text \<open>Replacing the condition codes commutes with everything that does not read them.\<close>

abbreviation reflag :: "u8 \<Rightarrow> vp_cpu \<Rightarrow> vp_cpu" where
  "reflag f c \<equiv> c\<lparr>cpu_flags := f\<rparr>"

lemma reflag_regs [simp]:
  "cpu_reg (reflag f c) r = cpu_reg c r" "set_reg (reflag f c) r v = reflag f (set_reg c r v)"
  "set_reg_sized (reflag f c) r v sz = reflag f (set_reg_sized c r v sz)"
  "apply_flags (reflag f c) w fl = reflag ((f AND NOT fl) OR (w AND fl)) c"
  "cpu_flags (set_reg c r v) = cpu_flags c" "cpu_flags (set_reg_sized c r v sz) = cpu_flags c"
  by (simp_all add: cpu_reg_def set_reg_def set_reg_sized_def apply_flags_def)

lemma reflag_ea [simp]: "resolve_ea (reflag f c) ea sz = apfst (reflag f) (resolve_ea c ea sz)" "cpu_flags (fst (resolve_ea c ea sz)) = cpu_flags c"
  by (cases ea; simp add: Let_def)+

lemma reflag_lea [simp]: "lea_addr (reflag f c) ea = lea_addr c ea"
  by (cases ea) simp_all

lemma reflag_mem_ops [simp]:
  "exec_move_mem (reflag f c) m src ea sz = apfst (reflag f) (exec_move_mem c m src ea sz)"
  "exec_bitfield (reflag f c) m bop base r off w = apfst (reflag f) (exec_bitfield c m bop base r off w)"
  "exec_mul_div (reflag f c) mop d s = reflag f (exec_mul_div c mop d s)"
  "cpu_flags (fst (exec_move_mem c m src ea sz)) = cpu_flags c"
  "cpu_flags (fst (exec_bitfield c m bop base r off w)) = cpu_flags c" "cpu_flags (exec_mul_div c mop d s) = cpu_flags c"
  by (auto simp: exec_move_mem_def exec_bitfield_def exec_mul_div_def Let_def case_prod_beta
      split: vp_source.splits bf_op.splits mul_div.splits)

text \<open>The wanted mask only selects which of the computed flags are stored.\<close>

lemma apply_reflag: "apply_flags c w fl = reflag ((cpu_flags c AND NOT fl) OR (w AND fl)) c"
  by (simp add: apply_flags_def)

lemma flag_ops:
  "exec_alu_bin (reflag f c) bop d s sz fl =
     reflag ((f AND NOT fl) OR (cpu_flags (exec_alu_bin c bop d s sz (-1)) AND fl)) (exec_alu_bin c bop d s sz 0)"
  "exec_alu_unary (reflag f c) uop d sz fl =
     reflag ((f AND NOT fl) OR (cpu_flags (exec_alu_unary c uop d sz (-1)) AND fl)) (exec_alu_unary c uop d sz 0)"
  "exec_shift (reflag f c) l a d n sz fl =
     reflag ((f AND NOT fl) OR (cpu_flags (exec_shift c l a d n sz (-1)) AND fl)) (exec_shift c l a d n sz 0)"
  by (cases uop; simp add: exec_alu_bin_def exec_alu_unary_def exec_shift_def Let_def case_prod_beta apply_reflag)+

lemma flag_imm:
  "iop \<in> {AluAdd, AluSub} \<Longrightarrow> \<exists>c' w. \<forall>f fl. exec_alu_imm (reflag f c) iop d v sz fl = Inr (reflag ((f AND NOT fl) OR (w AND fl)) c')"
  by (cases iop) (auto simp: exec_alu_imm_def Let_def case_prod_beta intro!: exI)

fun flags_of :: "vp_op \<Rightarrow> u8 option" where
  "flags_of (AluBinReg op d s sz fl) = Some fl" | "flags_of (AluImm op d v sz fl) = Some fl"
| "flags_of (AluUnary op d sz fl) = Some fl" | "flags_of (Shift l a d n sz fl) = Some fl" | "flags_of _ = None"

fun with_flags :: "vp_op \<Rightarrow> u8 \<Rightarrow> vp_op" where
  "with_flags (AluBinReg op d s sz fl) g = AluBinReg op d s sz g" | "with_flags (AluImm op d v sz fl) g = AluImm op d v sz g"
| "with_flags (AluUnary op d sz fl) g = AluUnary op d sz g" | "with_flags (Shift l a d n sz fl) g = Shift l a d n sz g"
| "with_flags op g = op"

lemma exec_producer:
  assumes "op_ok op" and "flags_of op = Some fl"
  shows "\<exists>c' m' w. \<forall>f g. exec_op (with_flags op g) (reflag f c) m = Inr (reflag ((f AND NOT g) OR (w AND g)) c', m')"
proof (cases op)
  case (AluImm iop d v sz fl')
  then obtain c' w where "\<forall>f g. exec_alu_imm (reflag f c) iop d v sz g = Inr (reflag ((f AND NOT g) OR (w AND g)) c')"
    using flag_imm [of iop c d v sz] assms(1) by auto
  then show ?thesis using AluImm by (intro exI [of _ c'] exI [of _ m] exI [of _ w]) simp
qed (use assms in \<open>auto simp: flag_ops simp del: F_ALL_def intro!: exI\<close>)

lemma exec_plain:
  assumes "op_ok op" and "flags_of op = None" and "\<not> is_terminator op"
  shows "\<exists>c' m' k w. \<forall>f. exec_op op (reflag f c) m = Inr (reflag ((f AND k) OR w) c', m')"
proof -
  have moveq: "\<exists>c' m' k w. \<forall>f. exec_op (MoveqImm d v) (reflag f c) m = Inr (reflag ((f AND k) OR w) c', m')" for d v
    by (intro exI [of _ "set_reg c d v"] exI [of _ m] exI [of _ "NOT (F_N OR F_Z OR F_V OR F_C)"] exI [of _ "logic_flags v SzL"]) simp
  have "\<exists>d m'. \<forall>f. exec_op op (reflag f c) m = Inr (reflag f d, m')" if "\<And>d v. op \<noteq> MoveqImm d v"
    using assms that by (cases op) (auto simp: case_prod_beta apfst_def map_prod_def intro!: exI)
  then have "\<exists>c' m' k w. \<forall>f. exec_op op (reflag f c) m = Inr (reflag ((f AND k) OR w) c', m')" if "\<And>d v. op \<noteq> MoveqImm d v"
    using that by (metis and.right_neutral or.right_neutral)
  then show ?thesis using moveq by (cases "\<exists>d v. op = MoveqImm d v") auto
qed

section \<open>The passes\<close>

definition agree :: "u8 \<Rightarrow> vp_cpu \<Rightarrow> vp_cpu \<Rightarrow> bool" where
  "agree needed c c' \<longleftrightarrow> (\<exists>f. c' = reflag f c \<and> (\<forall>n. bit needed n \<longrightarrow> bit f n = bit (cpu_flags c) n))"

lemma agree_refl [simp]: "agree n c c"
  unfolding agree_def by (rule exI [of _ "cpu_flags c"]) simp

lemma agreeI: "(\<And>n. bit needed n \<Longrightarrow> bit f n = bit g n) \<Longrightarrow> agree needed (reflag g d) (reflag f d)"
  unfolding agree_def by (rule exI [of _ f]) simp

lemma reflag_self: "exec_op op (reflag (cpu_flags c) c) m = exec_op op c m" by simp

text \<open>One operation, before and after liveness, from states that agree on what is needed before it.\<close>

lemma live_producer:
  assumes ok: "op_ok op" and fl: "flags_of op = Some fl" and "agree x c c'" and n: "\<And>n. bit needed n \<Longrightarrow> bit F_ALL n"
  shows "\<exists>c1 c2 m'. exec_op op c m = Inr (c1, m') \<and> exec_op (with_flags op (fl AND needed)) c' m = Inr (c2, m') \<and> agree needed c1 c2"
proof -
  have l: "fl = F_ALL" "with_flags op F_ALL = op" using fl ok by (cases op; auto)+
  from assms(3) obtain f where f: "c' = reflag f c" by (auto simp: agree_def)
  obtain d m' w where x: "\<And>f g. exec_op (with_flags op g) (reflag f c) m = Inr (reflag ((f AND NOT g) OR (w AND g)) d, m')"
    using exec_producer [OF ok fl] by blast
  have "exec_op op c m = Inr (reflag ((cpu_flags c AND NOT F_ALL) OR (w AND F_ALL)) d, m')"
    using x [of F_ALL "cpu_flags c"] unfolding l(2) reflag_self .
  moreover have "exec_op (with_flags op (fl AND needed)) c' m = Inr (reflag ((f AND NOT (F_ALL AND needed)) OR (w AND (F_ALL AND needed))) d, m')"
    using x [of "F_ALL AND needed" f] unfolding f l(1) .
  moreover have "bit ((f AND NOT (F_ALL AND needed)) OR (w AND (F_ALL AND needed))) n = bit ((cpu_flags c AND NOT F_ALL) OR (w AND F_ALL)) n"
    if "bit needed n" for n
    using n [OF that] that by (simp add: bit_and_iff bit_or_iff bit_not_iff del: F_ALL_def)
  ultimately show ?thesis using agreeI by blast
qed

lemma live_plain:
  assumes ok: "op_ok op" "\<not> is_terminator op" and fl: "flags_of op = None" and "agree needed c c'"
  shows "\<exists>c1 c2 m'. exec_op op c m = Inr (c1, m') \<and> exec_op op c' m = Inr (c2, m') \<and> agree needed c1 c2"
proof -
  from assms(4) obtain f where f: "c' = reflag f c" "\<And>n. bit needed n \<Longrightarrow> bit f n = bit (cpu_flags c) n" by (auto simp: agree_def)
  obtain d m' k w where x: "\<And>f. exec_op op (reflag f c) m = Inr (reflag ((f AND k) OR w) d, m')"
    using exec_plain [OF ok(1) fl ok(2)] by blast
  have "exec_op op c m = Inr (reflag ((cpu_flags c AND k) OR w) d, m')" using x [of "cpu_flags c"] unfolding reflag_self .
  moreover have "exec_op op c' m = Inr (reflag ((f AND k) OR w) d, m')" using x [of f] unfolding f(1) .
  moreover have "bit ((f AND k) OR w) n = bit ((cpu_flags c AND k) OR w) n" if "bit needed n" for n
    using f(2) [OF that] by (simp add: bit_and_iff bit_or_iff)
  ultimately show ?thesis using agreeI by blast
qed


lemma scan_needed: "snd (liveness_scan is) \<in> {F_NONE, F_Z}"
proof (induction "is")
  case (Cons i "is")
  then show ?case by (cases "ii_op i") (auto simp: case_prod_beta Let_def)
qed simp

lemma liveness_op_cases:
  "op_ok op \<Longrightarrow> \<not> is_terminator op \<Longrightarrow>
    (\<exists>fl. flags_of op = Some fl \<and> liveness_op op n = (with_flags op (fl AND n), F_NONE)) \<or> (flags_of op = None \<and> liveness_op op n = (op, n))"
  by (cases op) simp_all

lemma with_flags_kind [simp]: "is_terminator (with_flags op g) = is_terminator op"
  by (cases op) simp_all

lemma exec_instrs_plain:
  "\<not> is_terminator (ii_op i) \<Longrightarrow> exec_instrs (i # is) entry c m r =
    vp_bind (exec_op (ii_op i) c m) (\<lambda>(c, m). exec_instrs is entry c m (if ii_retire i then r + 1 else r))"
  by (cases "ii_op i") simp_all

lemma reflag_bsr: "exec_bsr (reflag f c) m i = apfst (reflag f) (exec_bsr c m i)"
  by (simp add: exec_bsr_def Let_def)

lemma z_bit: "f AND 4 = 0 \<longleftrightarrow> \<not> bit f 2" for f :: u8
  using and_single_bit [of 2 f] by simp

lemma z_wanted: "bit F_Z n \<Longrightarrow> bit F_ALL n"
  unfolding F_ALL_def by (simp only: bit_or_iff simp_thms)

lemma live_instrs:
  assumes "\<forall>x \<in> set is. op_ok (ii_op x)" and "agree (snd (liveness_scan is)) c c'"
  shows "\<exists>c1 c2 m' n pc. exec_instrs is entry c m r = Inr (c1, m', n, pc) \<and>
    exec_instrs (fst (liveness_scan is)) entry c' m r = Inr (c2, m', n, pc) \<and> agree 0 c1 c2"
  using assms
proof (induction "is" arbitrary: c c' m r)
  case Nil
  then show ?case by (auto simp: agree_def)
next
  case (Cons i "is")
  define needed where "needed = snd (liveness_scan is)"
  have scan: "liveness_scan (i # is) = (i\<lparr>ii_op := fst (liveness_op (ii_op i) needed)\<rparr> # fst (liveness_scan is), snd (liveness_op (ii_op i) needed))"
    by (simp add: needed_def case_prod_beta Let_def)
  have ok: "op_ok (ii_op i)" and rest: "\<forall>x \<in> set is. op_ok (ii_op x)" using Cons.prems(1) by simp_all
  have ag: "agree (snd (liveness_op (ii_op i) needed)) c c'" using Cons.prems(2) unfolding scan by simp
  obtain f where f: "c' = reflag f c" and fn: "\<And>n. bit (snd (liveness_op (ii_op i) needed)) n \<Longrightarrow> bit f n = bit (cpu_flags c) n"
    using ag unfolding agree_def by blast
  show ?case
  proof (cases "is_terminator (ii_op i)")
    case True
    have "bit f 2 = bit (cpu_flags c) 2" if "ii_op i = Bne t ft" for t ft using fn [of 2] that by simp
    then show ?thesis
      using True unfolding scan by (cases "ii_op i") (auto simp: f z_bit reflag_bsr agree_def case_prod_beta apfst_def map_prod_def exec_bsr_def Let_def intro!: exI [of _ f])
  next
    case False
    let ?r = "if ii_retire i then r + 1 else r"
    have "\<exists>c1 c2 m'. exec_op (ii_op i) c m = Inr (c1, m') \<and> exec_op (fst (liveness_op (ii_op i) needed)) c' m = Inr (c2, m') \<and> agree needed c1 c2"
      using liveness_op_cases [OF ok False, of needed]
    proof (elim disjE exE conjE)
      fix fl assume h: "flags_of (ii_op i) = Some fl" "liveness_op (ii_op i) needed = (with_flags (ii_op i) (fl AND needed), F_NONE)"
      have "bit needed n \<Longrightarrow> bit F_ALL n" for n
        using scan_needed [of "is"] z_wanted [of n] unfolding needed_def by (auto simp del: F_Z_def F_ALL_def)
      then show ?thesis using live_producer [OF ok h(1) ag] unfolding h(2) by simp
    next
      assume h: "flags_of (ii_op i) = None" "liveness_op (ii_op i) needed = (ii_op i, needed)"
      show ?thesis using live_plain [OF ok False h(1)] ag unfolding h(2) by simp
    qed
    then obtain c1 c2 m' where st: "exec_op (ii_op i) c m = Inr (c1, m')" "exec_op (fst (liveness_op (ii_op i) needed)) c' m = Inr (c2, m')"
      "agree needed c1 c2" by blast
    have nt: "\<not> is_terminator (fst (liveness_op (ii_op i) needed))" using liveness_op_cases [OF ok False, of needed] False by auto
    show ?thesis
      using Cons.IH [OF rest st(3) [unfolded needed_def], of m' ?r] exec_instrs_plain [OF False, of "is" entry c m r]
        exec_instrs_plain [of "i\<lparr>ii_op := fst (liveness_op (ii_op i) needed)\<rparr>" "fst (liveness_scan is)" entry c' m r] nt
      unfolding scan st by (simp add: st)
  qed
qed

lemma peephole_exec: "exec_op (peephole_op op) c m = exec_op op c m" "is_terminator (peephole_op op) = is_terminator op"
  by (cases op rule: peephole_op.cases; simp add: set_reg_def cpu_reg_def)+

lemma peephole_terminator: "is_terminator op \<Longrightarrow> peephole_op op = op"
  by (cases op) simp_all

lemma peephole_instrs: "exec_instrs (map (\<lambda>i. i\<lparr>ii_op := peephole_op (ii_op i)\<rparr>) is) entry c m r = exec_instrs is entry c m r"
proof (induction "is" arbitrary: c m r)
  case (Cons i "is")
  let ?i = "i\<lparr>ii_op := peephole_op (ii_op i)\<rparr>"
  show ?case
  proof (cases "is_terminator (ii_op i)")
    case True
    then show ?thesis by (cases "ii_op i") (simp_all add: exec_bsr_def)
  next
    case False
    then show ?thesis using exec_instrs_plain [of i "is" entry c m r] exec_instrs_plain [of ?i "map (\<lambda>i. i\<lparr>ii_op := peephole_op (ii_op i)\<rparr>) is" entry c m r]
      by (simp add: peephole_exec Cons.IH)
  qed
qed simp

lemma passes_block:
  assumes "block_ok b"
  shows "\<exists>c1 f m' n pc. execute_block c m b = Inr (c1, m', n, pc) \<and> execute_block c m (run_passes b) = Inr (reflag f c1, m', n, pc)"
proof -
  have ok: "\<forall>x \<in> set (blk_instrs b). op_ok (ii_op x)" using assms by (simp add: block_ok_def)
  have e: "execute_block c m (run_passes b) = exec_instrs (fst (liveness_scan (blk_instrs b))) (blk_entry_pc b) c m 0"
    by (simp add: execute_block_def run_passes_def peephole_def flag_liveness_def peephole_instrs)
  show ?thesis unfolding e using live_instrs [OF ok agree_refl, of "blk_entry_pc b" c m 0]
    by (auto simp: execute_block_def agree_def)
qed


section \<open>Retired instructions\<close>

lemma exec_retired:
  assumes "exec_instrs is entry c m r = Inr (c', m', n, pc)" and "\<forall>x \<in> set (butlast is). \<not> is_terminator (ii_op x)"
  shows "n = r + of_nat (length (filter ii_retire is))"
  using assms
proof (induction "is" arbitrary: c m r)
  case (Cons i "is")
  show ?case
  proof (cases "is_terminator (ii_op i)")
    case True
    then have "is = []" using Cons.prems(2) by (auto split: if_splits)
    then show ?thesis using True Cons.prems(1) by (cases "ii_op i") (auto simp: case_prod_beta Let_def)
  next
    case False
    obtain c1 m1 where "exec_instrs is entry c1 m1 (if ii_retire i then r + 1 else r) = Inr (c', m', n, pc)"
      using Cons.prems(1) unfolding exec_instrs_plain [OF False] by (auto simp: vp_bind_Inr)
    from Cons.IH [OF this] Cons.prems(2) show ?thesis by (auto split: if_splits simp: algebra_simps)
  qed
qed simp

lemma block_retired:
  assumes "block_ok b" and "execute_block c m b = Inr (c', m', n, pc)"
  shows "unat n = length (filter ii_retire (blk_instrs b))" "0 < unat n" "unat n \<le> 64"
proof -
  let ?k = "length (filter ii_retire (blk_instrs b))"
  have "length (blk_instrs b) \<le> 64" using assms(1) by (simp add: block_ok_def)
  then have k: "?k \<le> 64" by (rule le_trans [OF length_filter_le])
  have "last (blk_instrs b) \<in> set (filter ii_retire (blk_instrs b))" using assms(1) by (simp add: block_ok_def)
  then have pos: "0 < ?k" by (rule length_pos_if_in_set)
  have "exec_instrs (blk_instrs b) (blk_entry_pc b) c m 0 = Inr (c', m', n, pc)" using assms(2) by (simp add: execute_block_def)
  moreover have "\<forall>x \<in> set (butlast (blk_instrs b)). \<not> is_terminator (ii_op x)" using assms(1) by (simp add: block_ok_def)
  ultimately have "n = of_nat ?k" by (auto dest: exec_retired)
  then show n: "unat n = ?k" using k by (simp add: unat_of_nat_less)
  show "0 < unat n" "unat n \<le> 64" using n pos k by simp_all
qed

section \<open>The run loop\<close>

text \<open>What is known of every valid slot's tag and block.\<close>

definition cache_sat :: "(u32 \<Rightarrow> ir_block \<Rightarrow> bool) \<Rightarrow> block_cache \<Rightarrow> bool" where
  "cache_sat P cache \<longleftrightarrow> length cache = CACHE_SLOTS \<and> (\<forall>s \<in> set cache. slot_valid s \<longrightarrow> P (slot_tag s) (slot_block s))"

lemma cache_new_sat: "cache_sat P cache_new"
  by (simp add: cache_sat_def cache_new_def slot_empty_def)

lemma cache_flush_sat: "cache_sat P cache \<Longrightarrow> cache_sat Q (cache_flush cache)"
  by (auto simp: cache_sat_def cache_flush_def)

lemma get_or_decode_sat:
  assumes "cache_sat P cache" and "get_or_decode cache mem pc = Inr (cache', block)" and "\<And>b. decode_block mem pc = Inr b \<Longrightarrow> P pc (run_passes b)"
  shows "cache_sat P cache' \<and> P pc block"
proof -
  let ?s = "cache ! slot_index pc"
  have len: "slot_index pc < length cache" using assms(1) by (simp add: cache_sat_def slot_index_def)
  show ?thesis
  proof (cases "slot_valid ?s \<and> slot_tag ?s = pc")
    case True
    then have "cache' = cache" "block = slot_block ?s" using assms(2) by (auto simp: get_or_decode_def Let_def)
    moreover have "P pc (slot_block ?s)" using True assms(1) nth_mem [OF len] by (auto simp: cache_sat_def)
    ultimately show ?thesis using assms(1) by simp
  next
    case False
    then obtain b where b: "decode_block mem pc = Inr b" "block = run_passes b"
      "cache' = cache[slot_index pc := \<lparr>slot_tag = pc, slot_valid = True, slot_block = run_passes b\<rparr>]"
      using assms(2) by (auto simp: get_or_decode_def Let_def vp_bind_Inr split: if_splits)
    show ?thesis using assms(1) assms(3) [OF b(1)] unfolding b cache_sat_def
      by (auto dest!: subsetD [OF set_update_subset_insert])
  qed
qed

text \<open>A translated block: what the decoder made of this address in some memory, optimised.\<close>

definition translation :: "u32 \<Rightarrow> ir_block \<Rightarrow> bool" where
  "translation pc block \<longleftrightarrow> (\<exists>m b. decode_block m pc = Inr b \<and> block = run_passes b)"

lemma translation_runs:
  assumes "translation pc block"
  shows "\<exists>c' m' n next_pc. execute_block c m block = Inr (c', m', n, next_pc) \<and> 0 < unat n \<and> unat n \<le> 64"
proof -
  obtain m0 b where b: "decode_block m0 pc = Inr b" "block = run_passes b" using assms by (auto simp: translation_def)
  then have ok: "block_ok b" using decode_block_ok by simp
  obtain c1 f m' n pc' where e: "execute_block c m b = Inr (c1, m', n, pc')" "execute_block c m block = Inr (reflag f c1, m', n, pc')"
    using passes_block [OF ok, of c m] b(2) by blast
  show ?thesis using block_retired(2,3) [OF ok e(1)] e(2) by blast
qed

lemma run_loop_ends:
  assumes "unat budget + 64 \<le> 2 ^ 32" and "cache_sat translation (core_cache core)"
  shows "\<exists>r. run_loop core mem budget watch executed = Some r"
  using assms(2)
proof (induction "unat budget - unat executed" arbitrary: core mem executed rule: less_induct)
  case less
  show ?case
  proof (cases "cpu_pc (core_cpu core) \<in> set watch \<or> executed \<ge> budget")
    case True
    then show ?thesis by (subst run_loop.simps) auto
  next
    case False
    show ?thesis
    proof (cases "get_or_decode (core_cache core) mem (cpu_pc (core_cpu core))")
      case (Inl e)
      then show ?thesis using False by (subst run_loop.simps) simp
    next
      case (Inr p)
      then obtain cache block where g: "get_or_decode (core_cache core) mem (cpu_pc (core_cpu core)) = Inr (cache, block)" by (cases p) simp
      have gd: "cache_sat translation cache" "translation (cpu_pc (core_cpu core)) block"
        using get_or_decode_sat [OF less.prems g] by (auto simp: translation_def)
      obtain c' m' n pc' where e: "execute_block (core_cpu core) mem block = Inr (c', m', n, pc')" "0 < unat n" "unat n \<le> 64"
        using translation_runs [OF gd(2)] by blast
      let ?core = "\<lparr>core_cpu = c'\<lparr>cpu_pc := pc'\<rparr>, core_cache = cache\<rparr>"
      have lt: "unat executed < unat budget" using False by (simp add: not_le word_less_nat_alt)
      then have "unat (executed + n) = unat executed + unat n" using assms(1) e(3) by (simp add: unat_word_ariths)
      then have "unat budget - unat (executed + n) < unat budget - unat executed" using lt e(2) by linarith
      from less.hyps [OF this, of ?core m'] gd(1) obtain r where "run_loop ?core m' budget watch (executed + n) = Some r" by auto
      then show ?thesis using False g e(1) by (subst run_loop.simps) simp
    qed
  qed
qed


section \<open>The reference interpreter\<close>

text \<open>The meaning of a program: decode at the PC, execute with every flag, repeat. No cache and no passes.\<close>

partial_function (option) ref_loop :: "vp_cpu \<Rightarrow> vp_memory \<Rightarrow> u32 \<Rightarrow> u32 list \<Rightarrow> u32 \<Rightarrow> (vp_cpu \<times> vp_memory \<times> vp_run_result) vp_result option" where
  "ref_loop cpu mem budget watch executed =
     (if cpu_pc cpu \<in> set watch then Some (Inr (cpu, mem, \<lparr>rr_instructions = executed, rr_exit = WatchedPc (cpu_pc cpu)\<rparr>))
      else if executed \<ge> budget then Some (Inr (cpu, mem, \<lparr>rr_instructions = executed, rr_exit = BudgetExhausted\<rparr>))
      else case decode_block mem (cpu_pc cpu) of
          Inl e \<Rightarrow> Some (Inl e)
        | Inr block \<Rightarrow>
            (case execute_block cpu mem block of
               Inl e \<Rightarrow> Some (Inl e)
             | Inr (cpu, mem, retired, next_pc) \<Rightarrow> ref_loop (cpu\<lparr>cpu_pc := next_pc\<rparr>) mem budget watch (executed + retired)))"

text \<open>The states between blocks that a program passes through.\<close>

inductive reaches :: "u32 list \<Rightarrow> vp_cpu \<Rightarrow> vp_memory \<Rightarrow> vp_cpu \<Rightarrow> vp_memory \<Rightarrow> bool" for watch c0 m0 where
  start: "reaches watch c0 m0 c0 m0"
| block: "reaches watch c0 m0 c m \<Longrightarrow> cpu_pc c \<notin> set watch \<Longrightarrow> decode_block m (cpu_pc c) = Inr b \<Longrightarrow>
    execute_block c m b = Inr (c', m', n, pc) \<Longrightarrow> reaches watch c0 m0 (c'\<lparr>cpu_pc := pc\<rparr>) m'"

text \<open>Whether a block's own operations decide its \<open>bne\<close>: some operation before it sets Z.\<close>

fun sets_z :: "vp_op \<Rightarrow> bool" where
  "sets_z (MoveqImm d v) = True" | "sets_z op = (flags_of op \<noteq> None)"

definition z_local :: "ir_block \<Rightarrow> bool" where
  "z_local b \<longleftrightarrow> (\<forall>t f. ii_op (last (blk_instrs b)) = Bne t f \<longrightarrow> (\<exists>x \<in> set (butlast (blk_instrs b)). sets_z (ii_op x)))"

definition visible :: "vp_cpu \<Rightarrow> u32 list \<times> u32 list \<times> u32" where
  "visible c = (cpu_d c, cpu_a c, cpu_pc c)"

text \<open>The flags a block starts with do not matter to a block that decides its own branch.\<close>

lemma flags_step:
  assumes ok: "op_ok op" "\<not> is_terminator op"
  shows "\<exists>c1 g m'. exec_op op c m = Inr (c1, m') \<and> exec_op op (reflag f c) m = Inr (reflag g c1, m') \<and>
    (sets_z op \<or> bit f 2 = bit (cpu_flags c) 2 \<longrightarrow> bit g 2 = bit (cpu_flags c1) 2)"
proof (cases "flags_of op")
  case (Some fl)
  have l: "fl = F_ALL" "with_flags op F_ALL = op" using Some ok by (cases op; auto)+
  obtain d m' w where x: "\<And>f g. exec_op (with_flags op g) (reflag f c) m = Inr (reflag ((f AND NOT g) OR (w AND g)) d, m')"
    using exec_producer [OF ok(1) Some] by blast
  have y: "exec_op op (reflag f c) m = Inr (reflag ((f AND NOT F_ALL) OR (w AND F_ALL)) d, m')" for f
    using x [of F_ALL f] unfolding l(2) .
  have b: "bit ((f AND NOT F_ALL) OR (w AND F_ALL)) 2 = bit w 2" for f :: u8
    using z_wanted [of 2] by (simp add: bit_and_iff bit_or_iff bit_not_iff del: F_ALL_def)
  show ?thesis using y [of f] y [of "cpu_flags c", unfolded reflag_self] b
    by (intro exI [of _ "reflag ((cpu_flags c AND NOT F_ALL) OR (w AND F_ALL)) d"] exI [of _ "(f AND NOT F_ALL) OR (w AND F_ALL)"] exI [of _ m'])
      (simp del: F_ALL_def)
next
  case None
  show ?thesis
  proof (cases "\<exists>d v. op = MoveqImm d v")
    case True
    then obtain d v where [simp]: "op = MoveqImm d v" by blast
    let ?k = "NOT (F_N OR F_Z OR F_V OR F_C)" and ?w = "logic_flags v SzL"
    have b: "bit ((g AND ?k) OR ?w) 2 = bit ?w 2" for g :: u8
    proof -
      have "\<not> bit (F_N OR F_Z OR F_V OR F_C) 2 = False" by (simp add: bit_iff_odd_drop_bit)
      then show ?thesis by (simp only: bit_or_iff bit_and_iff bit_not_iff simp_thms)
    qed
    have "exec_op op c m = Inr (reflag ((cpu_flags c AND ?k) OR ?w) (set_reg c d v), m)"
      "exec_op op (reflag f c) m = Inr (reflag ((f AND ?k) OR ?w) (reflag ((cpu_flags c AND ?k) OR ?w) (set_reg c d v)), m)" by simp_all
    then show ?thesis using b by fastforce
  next
    case False
    then have nz: "\<not> sets_z op" using None by (cases op) simp_all
    obtain d m' k w where x: "\<And>f. exec_op op (reflag f c) m = Inr (reflag ((f AND k) OR w) d, m')"
      using exec_plain [OF ok(1) None ok(2)] by blast
    show ?thesis using x [of f] x [of "cpu_flags c", unfolded reflag_self] nz
      by (intro exI [of _ "reflag ((cpu_flags c AND k) OR w) d"] exI [of _ "(f AND k) OR w"] exI [of _ m']) (simp add: bit_and_iff bit_or_iff)
  qed
qed

lemma entry_flags:
  assumes "\<forall>x \<in> set is. op_ok (ii_op x)" and "\<forall>x \<in> set (butlast is). \<not> is_terminator (ii_op x)"
    and "bit f 2 = bit (cpu_flags c) 2 \<or> (\<forall>t ft. is \<noteq> [] \<longrightarrow> ii_op (last is) = Bne t ft \<longrightarrow> (\<exists>x \<in> set (butlast is). sets_z (ii_op x)))"
  shows "\<exists>c1 g m' n pc. exec_instrs is entry c m r = Inr (c1, m', n, pc) \<and> exec_instrs is entry (reflag f c) m r = Inr (reflag g c1, m', n, pc)"
  using assms
proof (induction "is" arbitrary: c f m r)
  case (Cons i "is")
  have ok: "op_ok (ii_op i)" and rest: "\<forall>x \<in> set is. op_ok (ii_op x)" "\<forall>x \<in> set (butlast is). \<not> is_terminator (ii_op x)"
    using Cons.prems(1,2) by (auto split: if_splits)
  show ?case
  proof (cases "is_terminator (ii_op i)")
    case True
    then have "is = []" using Cons.prems(2) by (auto split: if_splits)
    then have "bit f 2 = bit (cpu_flags c) 2" if "ii_op i = Bne t ft" for t ft using Cons.prems(3) that by auto
    then show ?thesis using True
      by (cases "ii_op i") (auto simp: z_bit reflag_bsr case_prod_beta apfst_def map_prod_def exec_bsr_def Let_def intro!: exI [of _ f])
  next
    case False
    obtain c1 g m' where st: "exec_op (ii_op i) c m = Inr (c1, m')" "exec_op (ii_op i) (reflag f c) m = Inr (reflag g c1, m')"
      "sets_z (ii_op i) \<or> bit f 2 = bit (cpu_flags c) 2 \<longrightarrow> bit g 2 = bit (cpu_flags c1) 2"
      using flags_step [OF ok False] by blast
    have z: "bit g 2 = bit (cpu_flags c1) 2 \<or> (\<forall>t ft. is \<noteq> [] \<longrightarrow> ii_op (last is) = Bne t ft \<longrightarrow> (\<exists>x \<in> set (butlast is). sets_z (ii_op x)))"
      using Cons.prems(3) st(3) by (cases "is") auto
    show ?thesis using Cons.IH [OF rest z, of m' "if ii_retire i then r + 1 else r"] unfolding exec_instrs_plain [OF False] st by simp
  qed
qed auto

end
