(* ===== verification/VpRun.thy ===== *)
theory VpRun
  imports VpProofs
begin

text \<open>
  The run of the translating core against the reference interpreter: a program that does not rewrite its own code and
  whose conditional branches are decided inside their block runs the same with and without the cache and the passes;
  a conditional branch that relies on a flag set before a call does not.
\<close>

section \<open>Cached and reference runs\<close>

text \<open>At every state the program passes through, the code at the PC is the code of the start, and it decides its own branch.\<close>

definition steady :: "u32 list \<Rightarrow> vp_cpu \<Rightarrow> vp_memory \<Rightarrow> bool" where
  "steady watch c0 m0 \<longleftrightarrow> (\<forall>c m. reaches watch c0 m0 c m \<longrightarrow> cpu_pc c \<notin> set watch \<longrightarrow>
     decode_block m (cpu_pc c) = decode_block m0 (cpu_pc c) \<and> (\<forall>b. decode_block m (cpu_pc c) = Inr b \<longrightarrow> z_local b))"

text \<open>The slots hold what the decoder makes of the memory at the start.\<close>

definition from_start :: "vp_memory \<Rightarrow> u32 \<Rightarrow> ir_block \<Rightarrow> bool" where
  "from_start m0 pc block \<longleftrightarrow> (\<exists>b. decode_block m0 pc = Inr b \<and> block = run_passes b)"

text \<open>What one run shows of the other: the same result, memory, registers and PC; the flags may differ.\<close>

definition same_outcome :: "(vp_core \<times> vp_memory \<times> vp_run_result) vp_result option \<Rightarrow> (vp_cpu \<times> vp_memory \<times> vp_run_result) vp_result option \<Rightarrow> bool" where
  "same_outcome fast slow \<longleftrightarrow> (case slow of
     Some (Inr (c, m, res)) \<Rightarrow> (\<exists>core. fast = Some (Inr (core, m, res)) \<and> visible (core_cpu core) = visible c)
   | Some (Inl e) \<Rightarrow> fast = Some (Inl e)
   | None \<Rightarrow> False)"

lemma visible_reflag [simp]: "visible (reflag f c) = visible c"
  by (simp add: visible_def)

lemma get_or_decode_fails:
  assumes "cache_sat (from_start m0) cache" and "decode_block mem pc = decode_block m0 pc" and "decode_block m0 pc = Inl e"
  shows "get_or_decode cache mem pc = Inl e"
proof -
  have "slot_index pc < length cache" using assms(1) by (simp add: cache_sat_def slot_index_def)
  then have "slot_valid (cache ! slot_index pc) \<longrightarrow> from_start m0 (slot_tag (cache ! slot_index pc)) (slot_block (cache ! slot_index pc))"
    using assms(1) nth_mem unfolding cache_sat_def by blast
  then show ?thesis using assms(2,3) by (auto simp: get_or_decode_def Let_def from_start_def)
qed

lemma get_or_decode_works:
  assumes "cache_sat (from_start m0) cache" and "decode_block mem pc = decode_block m0 pc" and "decode_block m0 pc = Inr b"
  shows "\<exists>cache'. get_or_decode cache mem pc = Inr (cache', run_passes b) \<and> cache_sat (from_start m0) cache'"
proof -
  have "\<exists>p. get_or_decode cache mem pc = Inr p" using assms(2,3) by (simp add: get_or_decode_def Let_def)
  then obtain cache' block where g: "get_or_decode cache mem pc = Inr (cache', block)" by force
  have "cache_sat (from_start m0) cache' \<and> from_start m0 pc block"
    using get_or_decode_sat [OF assms(1) g] assms(2) by (simp add: from_start_def)
  then show ?thesis using g assms(3) by (auto simp: from_start_def)
qed

text \<open>One block: the reference from the true flags, the optimised block from any flags.\<close>

lemma block_step:
  assumes "decode_block m0 pc = Inr b" and "z_local b"
  shows "\<exists>c1 g m' n pc'. execute_block c m b = Inr (c1, m', n, pc') \<and> execute_block (reflag f c) m (run_passes b) = Inr (reflag g c1, m', n, pc')
    \<and> 0 < unat n \<and> unat n \<le> 64"
proof -
  have ok: "block_ok b" using assms(1) decode_block_ok by simp
  obtain c1 g m' n pc' where e: "execute_block c m b = Inr (c1, m', n, pc')" "execute_block (reflag f c) m b = Inr (reflag g c1, m', n, pc')"
    using entry_flags [of "blk_instrs b" f c "blk_entry_pc b" m 0] ok assms(2) by (auto simp: block_ok_def z_local_def execute_block_def)
  obtain c2 h where "execute_block (reflag f c) m b = Inr (c2, m', n, pc')" "execute_block (reflag f c) m (run_passes b) = Inr (reflag h c2, m', n, pc')"
    using passes_block [OF ok, of "reflag f c" m] e(2) by auto
  then have "execute_block (reflag f c) m (run_passes b) = Inr (reflag h c1, m', n, pc')" using e(2) by auto
  then show ?thesis using e(1) block_retired(2,3) [OF ok e(1)] by blast
qed

lemma run_matches:
  assumes st: "steady watch c0 m0" and bud: "unat budget + 64 \<le> 2 ^ 32"
    and "reaches watch c0 m0 c m" and "cache_sat (from_start m0) (core_cache core)" and "core_cpu core = reflag f c"
  shows "same_outcome (run_loop core m budget watch executed) (ref_loop c m budget watch executed)"
  using assms(3-)
proof (induction "unat budget - unat executed" arbitrary: core c f m executed rule: less_induct)
  case less
  have pc [simp]: "cpu_pc (core_cpu core) = cpu_pc c" using less.prems(3) by simp
  consider (stop) "cpu_pc c \<in> set watch \<or> executed \<ge> budget" | (go) "cpu_pc c \<notin> set watch" "\<not> executed \<ge> budget" by blast
  then show ?case
  proof cases
    case stop
    then show ?thesis using less.prems(3)
      by (subst run_loop.simps, subst ref_loop.simps) (auto simp: same_outcome_def)
  next
    case go
    have d: "decode_block m (cpu_pc c) = decode_block m0 (cpu_pc c)" "\<And>b. decode_block m (cpu_pc c) = Inr b \<Longrightarrow> z_local b"
      using st less.prems(1) go(1) by (auto simp: steady_def)
    show ?thesis
    proof (cases "decode_block m0 (cpu_pc c)")
      case (Inl e)
      then show ?thesis using go d(1) get_or_decode_fails [OF less.prems(2) d(1) Inl]
        by (subst run_loop.simps, subst ref_loop.simps) (simp add: same_outcome_def)
    next
      case (Inr b)
      obtain cache' where g: "get_or_decode (core_cache core) m (cpu_pc c) = Inr (cache', run_passes b)" "cache_sat (from_start m0) cache'"
        using get_or_decode_works [OF less.prems(2) d(1) Inr] by blast
      have z: "z_local b" using d Inr by simp
      obtain c1 h m' n pc' where e: "execute_block c m b = Inr (c1, m', n, pc')"
        "execute_block (reflag f c) m (run_passes b) = Inr (reflag h c1, m', n, pc')" "0 < unat n" "unat n \<le> 64"
        using block_step [OF Inr z, of c m f] by blast
      let ?core = "\<lparr>core_cpu = (reflag h c1)\<lparr>cpu_pc := pc'\<rparr>, core_cache = cache'\<rparr>"
      have lt: "unat executed < unat budget" using go(2) by (simp add: not_le word_less_nat_alt)
      then have "unat (executed + n) = unat executed + unat n" using bud e(4) by (simp add: unat_word_ariths)
      then have m: "unat budget - unat (executed + n) < unat budget - unat executed" using lt e(3) by linarith
      have r: "reaches watch c0 m0 (c1\<lparr>cpu_pc := pc'\<rparr>) m'"
        by (rule reaches.block [OF less.prems(1) go(1) _ e(1)]) (simp add: d(1) Inr)
      have "same_outcome (run_loop ?core m' budget watch (executed + n)) (ref_loop (c1\<lparr>cpu_pc := pc'\<rparr>) m' budget watch (executed + n))"
        by (rule less.hyps [OF m r, of ?core h]) (simp_all add: g(2))
      moreover have "run_loop core m budget watch executed = run_loop ?core m' budget watch (executed + n)"
        using go g(1) e(2) less.prems(3) by (subst run_loop.simps) simp
      moreover have "ref_loop c m budget watch executed = ref_loop (c1\<lparr>cpu_pc := pc'\<rparr>) m' budget watch (executed + n)"
        using go d(1) Inr e(1) by (subst ref_loop.simps) simp
      ultimately show ?thesis by simp
    qed
  qed
qed

text \<open>C6 [equivalence]: A program that does not rewrite the code it reaches, and whose \<open>bne\<close>s follow an operation of their own block that
  sets Z, runs on the core the way it runs when every block is decoded afresh and executed with all its flags: from a flushed cache and
  with an instruction budget of at most 2^32 - 64, which keeps the 32-bit count from wrapping, both
  runs end, with the same exit, instruction count, memory, registers and PC, or with the same panic.\<close>

theorem vp_run_correct:
  assumes "steady watch (core_cpu core) m" and "length (core_cache core) = CACHE_SLOTS" and "unat budget + 64 \<le> 2 ^ 32"
  shows "same_outcome (vp_run (flush_cache core) m budget watch) (ref_loop (core_cpu core) m budget watch 0)"
proof -
  have c: "cache_sat (from_start m) (core_cache (flush_cache core))"
    using assms(2) by (auto simp: cache_sat_def flush_cache_def cache_flush_def)
  show ?thesis unfolding vp_run_def
    by (rule run_matches [OF assms(1,3) reaches.start c, of "cpu_flags (core_cpu core)"]) (simp add: flush_cache_def)
qed

text \<open>A countdown, \<open>subq.l #1,d0; bne.s 0\<close>, watched after the branch.\<close>

definition countdown :: vp_memory where
  "countdown = \<lparr>vm_buf = [0x53, 0x80, 0x66, 0xFC] @ replicate 28 0, vm_mask = 31\<rparr>"

lemma countdown_block: "decode_block countdown 0 = Inr \<lparr>blk_instrs =
    [\<lparr>ii_op = AluImm AluSub 0 1 SzL 31, ii_pc = 0, ii_len = 2, ii_retire = True\<rparr>,
     \<lparr>ii_op = Bne 0 4, ii_pc = 2, ii_len = 2, ii_retire = True\<rparr>], blk_entry_pc = 0\<rparr>"
  by code_simp

lemma countdown_reaches: "reaches [4] c0 countdown c m \<Longrightarrow> cpu_pc c0 = 0 \<Longrightarrow> m = countdown \<and> (cpu_pc c = 0 \<or> cpu_pc c = 4)"
proof (induction rule: reaches.induct)
  case (block c m b c' m' n pc)
  then have [simp]: "m = countdown" "cpu_pc c = 0" by auto
  show ?case using block.hyps(3,4) by (auto simp: countdown_block execute_block_def exec_alu_imm_def case_prod_beta Let_def split: if_splits)
qed simp

lemma countdown_steady: "cpu_pc c0 = 0 \<Longrightarrow> steady [4] c0 countdown"
  unfolding steady_def by (auto dest!: countdown_reaches simp: countdown_block z_local_def)

theorem vp_run_correct_witness:
  "same_outcome (vp_run (flush_cache core_new) countdown 100 [4]) (ref_loop cpu_new countdown 100 [4] 0)"
  using vp_run_correct [of "[4]" core_new countdown 100] countdown_steady [of cpu_new]
  by (simp add: core_new_def cache_new_def cpu_new_def)

text \<open>C36 [termination]: From a flushed or new cache, every run with an instruction budget of at most 2^32 - 64 ends, whatever the memory holds:
  each block retires at least one instruction and at most 64, so the count passes the budget without wrapping.\<close>

theorem vp_run_terminates:
  assumes "unat budget + 64 \<le> 2 ^ 32" and "core = core_new \<or> (\<exists>core0. core = flush_cache core0 \<and> length (core_cache core0) = CACHE_SLOTS)"
  shows "\<exists>r. vp_run core m budget watch = Some r"
proof -
  have "cache_sat translation (core_cache core)" using assms(2)
    by (auto simp: core_new_def cache_new_def slot_empty_def cache_sat_def flush_cache_def cache_flush_def)
  then show ?thesis unfolding vp_run_def by (rule run_loop_ends [OF assms(1)])
qed

theorem vp_run_terminates_witness: "\<exists>r. vp_run core_new countdown 100 [] = Some r"
  using vp_run_terminates [of 100 core_new countdown "[]"] by simp

section \<open>Blocks\<close>

text \<open>C38 [type]: Every block the decoder returns is well formed: it starts at the address it was decoded at, has 1 to 64
  operations with registers below 16, all flags requested and immediate arithmetic limited to \<open>add\<close> and \<open>sub\<close>, only its last
  operation may end a block, and it ends with one or is full. Such a block executes without a panic from any CPU state and
  memory, and retires between 1 and 64 instructions.\<close>

theorem vp_decoded_block_ok:
  assumes "decode_block m0 pc = Inr b"
  shows "block_ok b \<and> blk_entry_pc b = pc \<and>
    (\<exists>c' m' n next_pc. execute_block c m b = Inr (c', m', n, next_pc) \<and> 1 \<le> unat n \<and> unat n \<le> 64)"
proof -
  have ok: "block_ok b" "blk_entry_pc b = pc" using decode_block_ok [OF assms] by simp_all
  obtain c' m' n next_pc where e: "execute_block c m b = Inr (c', m', n, next_pc)" using passes_block [OF ok(1)] by blast
  then show ?thesis using ok block_retired(2,3) [OF ok(1) e] by (auto simp: Suc_le_eq)
qed

theorem vp_decoded_block_ok_witness:
  "\<exists>b. decode_block countdown 0 = Inr b \<and> block_ok b \<and> blk_entry_pc b = 0 \<and>
    (\<exists>c' m' n next_pc. execute_block cpu_new countdown b = Inr (c', m', n, next_pc) \<and> 1 \<le> unat n \<and> unat n \<le> 64)"
  using vp_decoded_block_ok [OF countdown_block, of cpu_new countdown] countdown_block by blast

text \<open>C35 [equivalence]: Flag liveness and the peephole pass change nothing but flags: the optimised form of a decoded block, run from the same state,
  leaves the same registers and memory, retires the same instructions and goes to the same next PC as the block itself.\<close>

theorem vp_passes_correct:
  assumes "decode_block m0 pc = Inr b"
  shows "\<exists>c1 c2 m' n next_pc. execute_block c m b = Inr (c1, m', n, next_pc) \<and> execute_block c m (run_passes b) = Inr (c2, m', n, next_pc)
    \<and> c1 = c2\<lparr>cpu_flags := cpu_flags c1\<rparr>"
proof -
  have "block_ok b" using decode_block_ok [OF assms] by simp
  then obtain c1 f m' n next_pc where "execute_block c m b = Inr (c1, m', n, next_pc)" "execute_block c m (run_passes b) = Inr (reflag f c1, m', n, next_pc)"
    using passes_block [of b c m] by blast
  then show ?thesis by (intro exI [of _ c1] exI [of _ "reflag f c1"]) auto
qed

theorem vp_passes_correct_witness:
  "\<exists>b. decode_block countdown 0 = Inr b \<and> (\<exists>c1 c2 m' n next_pc. execute_block cpu_new countdown b = Inr (c1, m', n, next_pc) \<and>
    execute_block cpu_new countdown (run_passes b) = Inr (c2, m', n, next_pc) \<and> c1 = c2\<lparr>cpu_flags := cpu_flags c1\<rparr>)"
  using vp_passes_correct [OF countdown_block, of cpu_new countdown] countdown_block by blast

section \<open>A branch on a flag set before a call\<close>

text \<open>\<open>0: subq.l #1,d0; 2: bsr.s 8; 4: bne.s 0; 6: nop; 8: rts\<close>\<close>

definition call_loop :: vp_memory where
  "call_loop = \<lparr>vm_buf = [0x53, 0x80, 0x61, 0x04, 0x66, 0xFA, 0x4E, 0x71, 0x4E, 0x75] @ replicate 22 0, vm_mask = 31\<rparr>"

definition call_cpu :: vp_cpu where
  "call_cpu = \<lparr>cpu_d = [2, 0, 0, 0, 0, 0, 0, 0], cpu_a = [0, 0, 0, 0, 0, 0, 0, 32], cpu_pc = 0, cpu_flags = 0\<rparr>"

text \<open>What a run reports, without the state it ends in.\<close>

definition report :: "('s \<times> vp_memory \<times> vp_run_result) vp_result option \<Rightarrow> vp_run_result vp_result option" where
  "report r = map_option (map_sum id (\<lambda>(s, m, res). res)) r"

declare ref_loop.simps [code] run_loop.simps [code]

text \<open>A counterexample to dropping flags at the end of a block: \<open>subq\<close> sets Z, a call that changes no flag ends the block, and
  the \<open>bne\<close> after it reads the Z that was never stored. The reference leaves the loop after two rounds at the watched PC; the core
  goes round until its budget is used up.\<close>

lemma vp_stale_branch:
  "report (ref_loop call_cpu call_loop 12 [6] 0) = Some (Inr \<lparr>rr_instructions = 8, rr_exit = WatchedPc 6\<rparr>)
   \<and> report (vp_run (core_new\<lparr>core_cpu := call_cpu\<rparr>) call_loop 12 [6]) = Some (Inr \<lparr>rr_instructions = 12, rr_exit = BudgetExhausted\<rparr>)"
  by code_simp
end
