(* ===== verification/Spec2Isabelle.thy ===== *)
theory Spec2Isabelle
  imports AutoConfig Fastram GuestMem BlockDev Hostblk Pktport PktVolFiles Chipset Cia Blitter InputCard Mirage RtgBoard PciBridge RomImage Cirrus Graffity BusSim VirtioNetProofs RenderProofs VpArith VpRun
begin

text \<open>
  A verification development for \<open>m68k-machine\<close>, an emulated Amiga-like computer written in Rust. The
  machine proper is the crate \<open>crates/machine-core\<close>: a bus that decodes the addresses of a 68k CPU core,
  the classic chips behind it, and native expansion cards that a driver in the guest uses to reach the
  host. This development models that crate, device by device, and then the bus that composes them, and the
  experimental translating CPU core \<open>crates/m68k-vp\<close>.

  \<^bold>\<open>The program.\<close> A CPU core (an external package) calls \<open>MachineBus\<close> (\<open>lib.rs\<close>) for each memory access and
  after each instruction for the clocks it took. The bus owns guest RAM, the ROM, the custom chips, two
  CIAs, the blitter, and the optional cards. The guest finds the cards through the Zorro AUTOCONFIG chain, which
  places their windows in the address space. Cards complete work at raster lines and raise interrupts through
  the INTREQ register of the custom chips.

  \<^bold>\<open>The theories and what they model.\<close>
  \<^item> \<open>Prelude\<close>: the integer widths and the arithmetic of the Rust standard library (wrapping, checked, saturating),
    big-endian encoding, generic lemmas. \<open>Slots\<close>: the register-slot helpers that several cards share. \<open>Clocks\<close>: the
    contract \<open>batched_clock\<close> of a device that may be advanced in batches. \<open>Ring\<close>: \<open>Ring<T, N>\<close> of \<open>hostblk.rs\<close> and
    the contract \<open>bounded_fifo\<close>, which five queues of the machine are shown to keep.
  \<^item> \<open>AutoConfig\<close>, \<open>Fastram\<close>: \<open>autoconfig.rs\<close> and \<open>fastram.rs\<close>. The chain is a list of slots; configuring every board by
    the protocol of the guest's expansion library gives each its window, and no later write moves it.
  \<^item> \<open>GuestMem\<close>: \<open>GuestRam\<close>, \<open>GuestMemory\<close> and the write log of \<open>lib.rs\<close>. The contracts \<open>guest_memory\<close> and
    \<open>flat_guest_memory\<close> say that a device reaches exactly the RAM bytes it is granted and that the log records them.
  \<^item> \<open>BlockDev\<close>: the trait \<open>BlockDevice\<close> (\<open>block.rs\<close>) as a record of operations, its contract \<open>block_store\<close>, and the image
    file of \<open>machine-hosted/src/hd_image.rs\<close> as an instance, over a host file whose faults are a parameter.
  \<^item> \<open>Hostblk\<close>, \<open>Pktport\<close>, \<open>Mirage\<close>: the three asynchronous cards (\<open>hostblk.rs\<close>, \<open>pktport.rs\<close>, \<open>mirage.rs\<close>) with registers,
    queues, validation, transfer and interrupts. No accepted request is lost, each completes, reads and writes
    transfer the sectors they name, refused requests change no disk; \<open>Mirage\<close> is a step relation with an invariant by rule
    induction.
  \<^item> \<open>PktVol\<close>, \<open>PktVolProofs\<close>, \<open>PktVolFiles\<close>: the file-system service behind the packet port
    (\<open>machine-hosted/src/pktvol.rs\<close>): mounting, handles, paths, error codes and every DOS action. The packages \<open>amiga-ffs\<close> and
    \<open>amiga-rdb\<close> are a record of operations, an argument of the definitions; None is an \<open>expect\<close> that fails, and it never does.
    The locale \<open>volume_invariant\<close> lifts a predicate from the elementary steps to runs of packets: a read-only image is kept, no
    handle survives an inhibit. An open file is a cursor over its bytes, a directory is listed in order, and the card of
    \<open>Pktport\<close> delivers the answers.
  \<^item> \<open>Chipset\<close>, \<open>Cia\<close>, \<open>Blitter\<close>: the classic chips (\<open>chipset.rs\<close>, \<open>cia.rs\<close>, \<open>blitter.rs\<close>). Advancing by a batch equals
    advancing in pieces; the reported deadlines are exact; area and line blits equal reference definitions over
    coordinates and pixels; the blitter logs what it writes.
  \<^item> \<open>InputCard\<close>, \<open>RtgBoard\<close>, \<open>Cirrus\<close>, \<open>Graffity\<close>, \<open>Pci\<close>, \<open>PciBridge\<close>, \<open>RomImage\<close>: \<open>input.rs\<close>, \<open>rtgboard.rs\<close>, \<open>cirrus.rs\<close>,
    \<open>graffity.rs\<close>, \<open>pci.rs\<close> (configuration space, virtual bus, test devices), \<open>pcibridge.rs\<close>, \<open>rom.rs\<close>.
  \<^item> \<open>VirtioNet\<close>, \<open>VirtioNetProofs\<close>: the virtio network function of \<open>pci.rs\<close>, its capability windows, feature
    negotiation and the two split virtqueues in guest memory. The loops over a ring are partial functions, where None is a poll
    that does not return; a well-formed ring is drained, each frame reaches the back end or the guest's buffer, and
    the status register keeps the order of the negotiation.
  \<^item> \<open>Render\<close>, \<open>RenderProofs\<close>: the renderer \<open>render.rs\<close> with the framebuffer of \<open>display.rs\<close>. The bands that the copper walk
    records agree with a reference that follows the list for one screen line; each pixel of a frame is a function of its
    coordinates, the registers in force and the bits of chip RAM at closed addresses; the Cirrus frame shows the bytes of VRAM.
  \<^item> \<open>Bus\<close>: \<open>MachineBus\<close> itself, \<open>lib.rs\<close> from its fields to \<open>write_long\<close>: builders, the window cache, deferred and exact time,
    CIA and custom-register accesses, expansion boards, byte, word and long accesses. \<open>BusTime\<close> and \<open>BusSim\<close>: the proof
    that deferring device time is unobservable, a simulation between the bus driven by \<open>tick\<close> and the one driven by
    \<open>tick_eager\<close> over arbitrary machines and sequences of accesses.
  \<^item> \<open>VpIr\<close>, \<open>VpDecoder\<close>, \<open>VpInterp\<close>: \<open>ir.rs\<close> and \<open>mem.rs\<close>, \<open>decoder.rs\<close>, \<open>passes.rs\<close> and \<open>interp.rs\<close> of \<open>m68k-vp\<close>, with a panic as
    the left value of a sum and the run loop as a partial function. \<open>VpProofs\<close> and \<open>VpRun\<close>: decoded blocks are well formed
    and never panic, the passes preserve a block's effect, the cached run equals a reference interpreter for programs
    whose branches are decided in their own block (and a counterexample for the others), every run with a budget up to
    \<open>2 ^ 32 - 64\<close> ends. \<open>VpArith\<close>: condition codes as integer arithmetic, bit fields as runs of memory bits.

  \<^bold>\<open>Conventions.\<close> A struct is a record, an enum a datatype, an operation that mutates returns the new state, and an
  operation that reads with side effects returns a pair. Rust integers keep their width as words; \<open>usize\<close> counts and
  indices are naturals, which is exact because the source bounds them by slice lengths. A trait object is a
  record of operations over a type of states, an argument of the definitions that use it; what the proofs need of it
  is a locale, interpreted on the implementations in the repository. Bytes vendored as boot ROM images are arguments.
  A panic that a guest could reach would be a branch of the model; where the source excludes it, a lemma shows so.

  \<^bold>\<open>Bounds.\<close> No definition adds fuel of its own; the copper walk's 4096 steps are the source's budget. The batching theorems assume that a batch and the chip's remainder fit 32
  bits, as \<open>Cia::tick\<close> needs (the finding on \<open>cia.rs\<close>); \<open>bus_deferral_unobservable\<close> therefore asks that one tick be
  below \<open>2 ^ 32 - 1000\<close> clocks (909 is the longest deferral) and a run below \<open>2 ^ 63\<close>, thousands of years of machine time.

  \<^bold>\<open>Not modelled.\<close> The hosted runner (\<open>machine-hosted\<close> but for
  the image file and the packet volume), which is host I/O, windows and sockets around a CPU core that is an external package; the bare-metal
  boards, which are device discovery and MMIO; the benchmark tools.
\<close>

end
